(* ===== verification/Prelude.thy ===== *)
theory Prelude
  imports Main "HOL-Library.Word"
begin

text \<open>
  Shared vocabulary of the development: the machine-word types of the C sources, the result
  shapes of the register-file operations, byte buffers with the C \<open>memcpy\<close> and little-endian
  accessors, and the two generic interfaces every memory-mapped device of \<open>src/devices\<close>
  is shown to implement (an access-closed invariant, and fail-closed accesses).

  Conventions used by all theories.
  \<^item> A \<open>uintN_t\<close> that the program stores, adds or masks is an \<open>N word\<close>, so it wraps as the
    C value does. Register offsets, access widths, array indices and counts that the code
    bounds before use are natural numbers; no C expression on them can wrap after the guard.
  \<^item> A C function with result \<open>0\<close> or \<open>-1\<close> returns an \<open>rc\<close>; one that fills \<open>*value\<close> on
    success returns an \<open>option\<close>. Both are paired with the device after the call, so that
    an operation that changes the device and still fails is visible as such.
  \<^item> A device pointer is the device record itself: the \<open>NULL\<close> test at the top of each
    function (result \<open>-1\<close>, nothing touched) has no counterpart. Pointers that may be
    \<open>NULL\<close> as part of the interface (bound peers, sinks, optional outputs) are options.
\<close>

unbundle bit_operations_syntax

type_synonym u8 = "8 word"
type_synonym u16 = "16 word"
type_synonym u32 = "32 word"
type_synonym u64 = "64 word"

datatype rc = OK | ERR

named_theorems vf_defs \<open>definitions of the device operations\<close>
named_theorems vf_inv \<open>preservation of the device invariants\<close>

section \<open>Words\<close>

lemma and_not_and_same [simp]: "(w AND NOT m) AND m = (0 :: 'a::len word)"
  by (rule bit_word_eqI) (auto simp: bit_simps)

lemma or_and_same [simp]: "(w OR m) AND m = (m :: 'a::len word)"
  by (rule bit_word_eqI) (auto simp: bit_simps)

lemma or_and_disjoint: "m AND k = 0 \<Longrightarrow> (w OR m) AND k = w AND (k :: 'a::len word)"
  by (simp add: word_ao_dist)

lemma and_not_and_disjoint:
  fixes k :: "'a::len word"
  assumes "m AND k = 0"
  shows "(w AND NOT m) AND k = w AND k"
proof (rule bit_word_eqI)
  fix n
  have "bit (m AND k) n \<longleftrightarrow> False" using assms by simp
  then show "n < LENGTH('a) \<Longrightarrow> bit ((w AND NOT m) AND k) n \<longleftrightarrow> bit (w AND k) n"
    by (auto simp: bit_simps)
qed

lemma bit_two_power [simp]: "bit (2 ^ k :: 'a::len word) n \<longleftrightarrow> n = k \<and> n < LENGTH('a)"
  by (auto simp: bit_simps)

declare and_exp_eq_0_iff_not_bit [simp]

text \<open>A test of a one-bit flag: instantiate \<open>k\<close>, the mask is then recognised by evaluation.\<close>

lemma and_flag_eq_0: "m = 2 ^ k \<Longrightarrow> w AND m = 0 \<longleftrightarrow> \<not> bit (w :: 'a::len word) k"
  by simp

text \<open>The same with the flag written as a shift, for \<open>simp only\<close>, and flags accumulated by conditionals.\<close>

lemma and_shift_eq_0: "w AND push_bit k 1 = 0 \<longleftrightarrow> \<not> bit (w :: 'a::len word) k"
  by (rule and_flag_eq_0) (simp add: push_bit_eq_mult)

lemma word_and_1_eq_0: "(w :: 'a::len word) AND 1 = 0 \<longleftrightarrow> \<not> bit w 0"
  using and_shift_eq_0 [of w 0] by simp

lemma bit_shift_flag: "bit (push_bit k 1 :: 'a::len word) n \<longleftrightarrow> n = k \<and> k < LENGTH('a)"
  by (auto simp: bit_simps)

lemma bit_if_or: "bit (if c then a OR f else (a :: 'a::len word)) n \<longleftrightarrow> bit a n \<or> c \<and> bit f n"
  by (simp add: bit_or_iff)

lemma nonzero_word_bit: "w \<noteq> 0 \<Longrightarrow> \<exists>n < LENGTH('a). bit (w :: 'a::len word) n"
  by (metis bit_0_eq bit_imp_le_length bot_apply bot_bool_def bit_eqI)

lemma unat_ucast_up [simp]:
  "LENGTH('a) \<le> LENGTH('b) \<Longrightarrow> unat (ucast (w :: 'a::len word) :: 'b::len word) = unat w"
proof -
  assume "LENGTH('a) \<le> LENGTH('b)"
  then have "(2::nat) ^ LENGTH('a) \<le> 2 ^ LENGTH('b)" by simp
  moreover have "unat w < 2 ^ LENGTH('a)" by (rule unsigned_less)
  ultimately have "unat w < 2 ^ LENGTH('b)" by linarith
  then show ?thesis by (simp add: unsigned_ucast_eq take_bit_nat_eq_self)
qed

lemma unat_lt2p: "unat (w :: 'a::len word) < 2 ^ LENGTH('a)"
  by (rule unsigned_less)

lemma unat_max_word: "unat (- 1 :: 'a::len word) = 2 ^ LENGTH('a) - 1"
  by (simp add: unsigned_minus_1_eq_mask mask_eq_exp_minus_1)

lemma unat_add_no_wrap:
  fixes a b :: "'a::len word"
  shows "unat a + unat b < 2 ^ LENGTH('a) \<Longrightarrow> unat (a + b) = unat a + unat b"
  by (simp add: unat_word_ariths)

lemma ucast_u8_mask [simp]: "ucast ((w :: 'a::len word) AND 255) = (ucast w :: u8)"
proof (rule bit_word_eqI)
  fix n assume n: "n < LENGTH(8)"
  have m: "(255 :: 'a word) = mask 8" by (simp add: mask_eq_exp_minus_1)
  show "bit (ucast (w AND 255) :: u8) n = bit (ucast w :: u8) n"
    unfolding m using n bit_imp_le_length [of w n] by (auto simp: bit_ucast_iff bit_and_iff bit_mask_iff)
qed

section \<open>Byte buffers\<close>

text \<open>\<open>splice xs off ys\<close> is \<open>memcpy(xs + off, ys, length ys)\<close> on a buffer that is long enough.\<close>

definition splice :: "'a list \<Rightarrow> nat \<Rightarrow> 'a list \<Rightarrow> 'a list" where
  "splice xs off ys = take off xs @ ys @ drop (off + length ys) xs"

lemma length_splice [simp]:
  "off + length ys \<le> length xs \<Longrightarrow> length (splice xs off ys) = length xs"
  by (simp add: splice_def)

lemma nth_splice:
  "off + length ys \<le> length xs \<Longrightarrow> i < length xs \<Longrightarrow>
   splice xs off ys ! i =
     (if off \<le> i \<and> i < off + length ys then ys ! (i - off) else xs ! i)"
  by (auto simp: splice_def nth_append min_def add.commute)

lemma take_splice_before [simp]:
  "n \<le> off \<Longrightarrow> off \<le> length xs \<Longrightarrow> take n (splice xs off ys) = take n xs"
  by (simp add: splice_def)

lemma splice_read_back [simp]:
  "off \<le> length xs \<Longrightarrow> take (length ys) (drop off (splice xs off ys)) = ys"
  by (simp add: splice_def)

lemma splice_append:
  "k \<le> length xs \<Longrightarrow> m = k + length ys \<Longrightarrow> splice (splice xs k ys) m zs = splice xs k (ys @ zs)"
  by (simp add: splice_def add_ac)

lemma splice_all: "length ys = length xs \<Longrightarrow> splice xs 0 ys = ys"
  by (simp add: splice_def)

text \<open>Little-endian accessors (\<open>p[0] = (uint8_t)v; p[1] = (uint8_t)(v >> 8); ...\<close>).\<close>

definition put_le32 :: "u32 \<Rightarrow> u8 list" where
  "put_le32 v = [ucast v, ucast (drop_bit 8 v), ucast (drop_bit 16 v), ucast (drop_bit 24 v)]"

definition get_le32 :: "u8 list \<Rightarrow> u32" where
  "get_le32 p = ucast (p ! 0) OR push_bit 8 (ucast (p ! 1)) OR push_bit 16 (ucast (p ! 2))
     OR push_bit 24 (ucast (p ! 3))"

definition put_le64 :: "u64 \<Rightarrow> u8 list" where
  "put_le64 v = [ucast v, ucast (drop_bit 8 v), ucast (drop_bit 16 v), ucast (drop_bit 24 v),
     ucast (drop_bit 32 v), ucast (drop_bit 40 v), ucast (drop_bit 48 v), ucast (drop_bit 56 v)]"

definition get_le64 :: "u8 list \<Rightarrow> u64" where
  "get_le64 p = ucast (p ! 0) OR push_bit 8 (ucast (p ! 1)) OR push_bit 16 (ucast (p ! 2))
     OR push_bit 24 (ucast (p ! 3)) OR push_bit 32 (ucast (p ! 4)) OR push_bit 40 (ucast (p ! 5))
     OR push_bit 48 (ucast (p ! 6)) OR push_bit 56 (ucast (p ! 7))"

lemma length_put_le [simp]: "length (put_le32 v) = 4" "length (put_le64 w) = 8"
  by (simp_all add: put_le32_def put_le64_def)

lemma bit_byte_lane:
  fixes v :: "'a::len word"
  assumes "8 \<le> LENGTH('a)"
  shows "bit (push_bit k (ucast (ucast (drop_bit k v) :: u8)) :: 'a word) n \<longleftrightarrow>
    k \<le> n \<and> n < k + 8 \<and> bit v n"
  using assms bit_imp_le_length [of v n] by (auto simp: bit_simps)

lemma bit_byte_lane0:
  fixes v :: "'a::len word"
  assumes "8 \<le> LENGTH('a)"
  shows "bit (ucast (ucast v :: u8) :: 'a word) n \<longleftrightarrow> n < 8 \<and> bit v n"
  using bit_byte_lane [OF assms, of 0 v n] by simp

lemma get_put_le32 [simp]: "get_le32 (put_le32 v @ xs) = v"
proof (rule bit_word_eqI)
  fix n assume "n < LENGTH(32)"
  then show "bit (get_le32 (put_le32 v @ xs)) n \<longleftrightarrow> bit v n"
    by (cases "bit v n") (auto simp: get_le32_def put_le32_def bit_or_iff bit_byte_lane bit_byte_lane0)
qed

lemma get_put_le64 [simp]: "get_le64 (put_le64 v @ xs) = v"
proof (rule bit_word_eqI)
  fix n assume "n < LENGTH(64)"
  then show "bit (get_le64 (put_le64 v @ xs)) n \<longleftrightarrow> bit v n"
    by (cases "bit v n") (auto simp: get_le64_def put_le64_def bit_or_iff bit_byte_lane bit_byte_lane0)
qed

lemma get_put_le_nil [simp]: "get_le32 (put_le32 v) = v" "get_le64 (put_le64 w) = w"
  using get_put_le32 [of v "[]"] get_put_le64 [of w "[]"] by simp_all

lemma bit_u8_ge: "8 \<le> n \<Longrightarrow> \<not> bit (w :: u8) n"
  using bit_imp_le_length [of w n] by auto

lemma put_get_le64:
  assumes "length bs = 8"
  shows "put_le64 (get_le64 bs) = bs"
proof -
  obtain b0 b1 b2 b3 b4 b5 b6 b7 where bs: "bs = [b0, b1, b2, b3, b4, b5, b6, b7]"
    using assms by (auto simp: length_Suc_conv numeral_eq_Suc)
  have lane: "bit (get_le64 bs) (8 * k + n) = bit (bs ! k) n" if "n < 8" "k < 8" for k n
  proof -
    from \<open>k < 8\<close> have "k \<in> {0,1,2,3,4,5,6,7}" by auto
    with \<open>n < 8\<close> show ?thesis
      by (elim insertE) (simp_all add: get_le64_def bs bit_simps bit_u8_ge)
  qed
  have "ucast (drop_bit (8 * k) (get_le64 bs)) = bs ! k" if "k < 8" for k
    by (rule bit_word_eqI) (use lane [OF _ that] that in \<open>auto simp: bit_simps\<close>)
  from this [of 0] this [of 1] this [of 2] this [of 3] this [of 4] this [of 5] this [of 6] this [of 7]
  show ?thesis by (simp add: put_le64_def bs)
qed

lemma put_get_le32:
  assumes "length bs = 4"
  shows "put_le32 (get_le32 bs) = bs"
proof -
  obtain b0 b1 b2 b3 where bs: "bs = [b0, b1, b2, b3]"
    using assms by (auto simp: length_Suc_conv numeral_eq_Suc)
  have lane: "bit (get_le32 bs) (8 * k + n) = bit (bs ! k) n" if "n < 8" "k < 4" for k n
  proof -
    from \<open>k < 4\<close> have "k \<in> {0,1,2,3}" by auto
    with \<open>n < 8\<close> show ?thesis
      by (elim insertE) (simp_all add: get_le32_def bs bit_simps bit_u8_ge)
  qed
  have "ucast (drop_bit (8 * k) (get_le32 bs)) = bs ! k" if "k < 4" for k
    by (rule bit_word_eqI) (use lane [OF _ that] that in \<open>auto simp: bit_simps\<close>)
  from this [of 0] this [of 1] this [of 2] this [of 3]
  show ?thesis by (simp add: put_le32_def bs)
qed

text \<open>Reading a field of a buffer after a store: the field itself, or one beside it.\<close>

lemma get_splice_same [simp]:
  "off + 4 \<le> length xs \<Longrightarrow> get_le32 (drop off (splice xs off (put_le32 v))) = v"
  "off + 8 \<le> length xs \<Longrightarrow> get_le64 (drop off (splice xs off (put_le64 w))) = w"
  by (simp_all add: splice_def)

lemma nth_drop_splice_other:
  assumes "off + length ys \<le> length xs" "k + n \<le> off \<or> off + length ys \<le> k" "k + n \<le> length xs" "i < n"
  shows "drop k (splice xs off ys) ! i = drop k xs ! i"
  using assms nth_splice [of off ys xs "k + i"] by auto

lemma get_splice_other:
  assumes "off + length ys \<le> length xs"
  shows "k + 4 \<le> off \<or> off + length ys \<le> k \<Longrightarrow> k + 4 \<le> length xs \<Longrightarrow>
      get_le32 (drop k (splice xs off ys)) = get_le32 (drop k xs)"
    and "k + 8 \<le> off \<or> off + length ys \<le> k \<Longrightarrow> k + 8 \<le> length xs \<Longrightarrow>
      get_le64 (drop k (splice xs off ys)) = get_le64 (drop k xs)"
  by (simp_all add: get_le32_def get_le64_def nth_drop_splice_other [OF assms, of k 4]
      nth_drop_splice_other [OF assms, of k 8])

text \<open>Branches of an operation, one at a time: a predicate on its result holds of a conditional when it holds of both arms.\<close>

lemma if_arm: "(b \<Longrightarrow> P x) \<Longrightarrow> (\<not> b \<Longrightarrow> P y) \<Longrightarrow> P (if b then x else y)"
  by simp

section \<open>Searches\<close>

text \<open>
  The result of a C search loop over the indices \<open>lo \<le> i < hi\<close>: the first index that
  satisfies the test, or none. Loops over banks of words or tables of slots are shown to
  compute it.
\<close>

definition first_in :: "(nat \<Rightarrow> bool) \<Rightarrow> nat \<Rightarrow> nat \<Rightarrow> nat option \<Rightarrow> bool" where
  "first_in P lo hi r \<longleftrightarrow>
     (case r of None \<Rightarrow> \<forall>j. lo \<le> j \<and> j < hi \<longrightarrow> \<not> P j
      | Some i \<Rightarrow> lo \<le> i \<and> i < hi \<and> P i \<and> (\<forall>j. lo \<le> j \<and> j < i \<longrightarrow> \<not> P j))"

lemma first_in_empty [simp]: "hi \<le> lo \<Longrightarrow> first_in P lo hi None"
  by (auto simp: first_in_def)

lemma first_in_here: "lo < hi \<Longrightarrow> P lo \<Longrightarrow> first_in P lo hi (Some lo)"
  by (auto simp: first_in_def)

lemma first_in_append:
  assumes "first_in P lo mid None" "first_in P mid hi r" "lo \<le> mid"
  shows "first_in P lo hi r"
proof -
  have "\<not> P j" if "lo \<le> j" "j < mid" for j
    using assms(1) that by (simp add: first_in_def)
  then show ?thesis
    using assms(2,3) by (cases r; simp add: first_in_def; metis not_le le_trans)
qed

lemma first_in_extend: "first_in P lo mid (Some i) \<Longrightarrow> mid \<le> hi \<Longrightarrow> first_in P lo hi (Some i)"
  by (auto simp: first_in_def)

lemma first_in_cong:
  "first_in P lo hi r \<Longrightarrow> (\<And>j. lo \<le> j \<Longrightarrow> j < hi \<Longrightarrow> P j = Q j) \<Longrightarrow> first_in Q lo hi r"
  by (force simp: first_in_def split: option.splits)

lemma first_in_Some_iff:
  "first_in P 0 hi r \<Longrightarrow> r = Some i \<longleftrightarrow> i < hi \<and> P i \<and> (\<forall>j < i. \<not> P j)"
  by (cases r) (auto simp: first_in_def dest: linorder_neqE_nat)

lemma first_in_None_iff: "first_in P 0 hi r \<Longrightarrow> r = None \<longleftrightarrow> (\<forall>j < hi. \<not> P j)"
  by (cases r) (auto simp: first_in_def)

lemma find_first_in: "k \<le> n \<Longrightarrow> first_in P k n (find P [k..<n])"
proof (induction rule: inc_induct)
  case base
  then show ?case by simp
next
  case (step k)
  then have u: "[k..<n] = k # [Suc k..<n]" by (simp add: upt_rec)
  show ?case
  proof (cases "P k")
    case True
    with step u show ?thesis by (simp add: first_in_here)
  next
    case False
    then have "first_in P k (Suc k) None"
      by (auto simp: first_in_def le_less_Suc_eq)
    with step u False show ?thesis by (auto intro: first_in_append)
  qed
qed

lemmas find_upt_None = first_in_None_iff [OF find_first_in [OF le0]]
lemmas find_upt_Some = first_in_Some_iff [OF find_first_in [OF le0]]

lemma div_mod_block:
  fixes j k m :: nat
  assumes "k * m \<le> j" "j < k * m + m"
  shows "j div m = k" and "j mod m = j - k * m"
proof -
  show "j div m = k" using assms by (simp add: div_nat_eqI mult.commute)
  then show "j mod m = j - k * m" by (simp add: modulo_nat_def mult.commute)
qed

section \<open>Memory-mapped devices\<close>

text \<open>
  A guest reaches a device through reads and writes of (offset, width). The result of a run of
  accesses is the device after all of them; each access either succeeds or returns \<open>-1\<close>.
\<close>

datatype 'v access = Rd nat nat | Wr nat nat 'v

fun mmio_step ::
  "('s \<Rightarrow> nat \<Rightarrow> nat \<Rightarrow> 'v option \<times> 's) \<Rightarrow> ('s \<Rightarrow> nat \<Rightarrow> nat \<Rightarrow> 'v \<Rightarrow> rc \<times> 's) \<Rightarrow> 's \<Rightarrow> 'v access \<Rightarrow> 's" where
  "mmio_step rd wr s (Rd off w) = snd (rd s off w)"
| "mmio_step rd wr s (Wr off w v) = snd (wr s off w v)"

fun mmio_run ::
  "('s \<Rightarrow> nat \<Rightarrow> nat \<Rightarrow> 'v option \<times> 's) \<Rightarrow> ('s \<Rightarrow> nat \<Rightarrow> nat \<Rightarrow> 'v \<Rightarrow> rc \<times> 's) \<Rightarrow> 's \<Rightarrow> 'v access list \<Rightarrow> 's" where
  "mmio_run rd wr s [] = s"
| "mmio_run rd wr s (a # as) = mmio_run rd wr (mmio_step rd wr s a) as"

lemma mmio_run_append:
  "mmio_run rd wr s (as @ bs) = mmio_run rd wr (mmio_run rd wr s as) bs"
  by (induction as arbitrary: s) auto

text \<open>The contract of a register file: a predicate that no guest access can break.\<close>

locale mmio_invariant =
  fixes rd :: "'s \<Rightarrow> nat \<Rightarrow> nat \<Rightarrow> 'v option \<times> 's"
    and wr :: "'s \<Rightarrow> nat \<Rightarrow> nat \<Rightarrow> 'v \<Rightarrow> rc \<times> 's"
    and inv :: "'s \<Rightarrow> bool"
  assumes rd_inv: "inv s \<Longrightarrow> inv (snd (rd s off w))"
    and wr_inv: "inv s \<Longrightarrow> inv (snd (wr s off w v))"
begin

lemma step_inv: "inv s \<Longrightarrow> inv (mmio_step rd wr s a)"
  by (cases a) (simp_all add: rd_inv wr_inv)

lemma run_inv: "inv s \<Longrightarrow> inv (mmio_run rd wr s as)"
  by (induction as arbitrary: s) (simp_all add: step_inv)

end

text \<open>
  Fail-closed register files: an access that returns \<open>-1\<close> has no effect. The two predicates
  are stated over the result pair so that case splits of an operation's branches push through
  them one at a time.
\<close>

definition rd_keeps :: "'s \<Rightarrow> 'v option \<times> 's \<Rightarrow> bool" where
  "rd_keeps s r \<longleftrightarrow> (fst r = None \<longrightarrow> snd r = s)"

definition wr_keeps :: "'s \<Rightarrow> rc \<times> 's \<Rightarrow> bool" where
  "wr_keeps s r \<longleftrightarrow> (fst r = ERR \<longrightarrow> snd r = s)"

lemma keeps_simps [simp]:
  "rd_keeps s (v, s)" "rd_keeps s (Some x, s')"
  "wr_keeps s (c, s)" "wr_keeps s (OK, s')"
  by (simp_all add: rd_keeps_def wr_keeps_def)

fun access_fails ::
  "('s \<Rightarrow> nat \<Rightarrow> nat \<Rightarrow> 'v option \<times> 's) \<Rightarrow> ('s \<Rightarrow> nat \<Rightarrow> nat \<Rightarrow> 'v \<Rightarrow> rc \<times> 's) \<Rightarrow> 's \<Rightarrow> 'v access \<Rightarrow> bool" where
  "access_fails rd wr s (Rd off w) \<longleftrightarrow> fst (rd s off w) = None"
| "access_fails rd wr s (Wr off w v) \<longleftrightarrow> fst (wr s off w v) = ERR"

locale mmio_fail_closed = mmio_invariant +
  assumes rd_closed: "rd_keeps s (rd s off w)"
    and wr_closed: "wr_keeps s (wr s off w v)"
begin

lemma step_closed: "access_fails rd wr s a \<Longrightarrow> mmio_step rd wr s a = s"
  using rd_closed wr_closed by (cases a) (simp_all add: rd_keeps_def wr_keeps_def)

lemma run_drop_failed:
  "access_fails rd wr (mmio_run rd wr s as) a \<Longrightarrow>
   mmio_run rd wr s (as @ a # bs) = mmio_run rd wr s (as @ bs)"
  by (simp add: mmio_run_append step_closed)

end

end
