(* ===== verification/Aic.thy ===== *)
theory Aic
  imports Prelude
begin

text \<open>
  The wired interrupt controller, \<open>src/devices/aic_v1.c\<close>. The record is \<open>vf_aic_v1\<close>; every
  function of the file has a definition of the same name. The scan of \<open>next_irq\<close> keeps its
  two loops: the word loop and the loop that takes the lowest set bit of \<open>pending\<close> with
  \<open>__builtin_ctz\<close> and clears it with \<open>pending &= pending - 1\<close>.

  Shown: the scan returns the least interrupt that is raised, unmasked and routed to the CPU;
  reading EVENT acknowledges exactly that interrupt, so consecutive reads deliver all eligible
  interrupts in ascending order and then zero; the structural invariant (array sizes, no bit
  beyond \<open>irq_count\<close> set in the level and software banks, no target beyond \<open>cpu_count\<close>) holds
  in every state reachable by guest accesses and line changes; failing accesses change nothing.
\<close>

section \<open>Model\<close>

abbreviation (input) VF_AIC_MAX_IRQ :: nat where "VF_AIC_MAX_IRQ \<equiv> 1024"
abbreviation (input) VF_AIC_MAX_CPU :: nat where "VF_AIC_MAX_CPU \<equiv> 32"
abbreviation (input) VF_AIC_REG_REV :: nat where "VF_AIC_REG_REV \<equiv> 0x0000"
abbreviation (input) VF_AIC_REG_INFO :: nat where "VF_AIC_REG_INFO \<equiv> 0x0004"
abbreviation (input) VF_AIC_REG_GLB_CFG :: nat where "VF_AIC_REG_GLB_CFG \<equiv> 0x0010"
abbreviation (input) VF_AIC_REG_RST :: nat where "VF_AIC_REG_RST \<equiv> 0x000c"
abbreviation (input) VF_AIC_REG_WHOAMI :: nat where "VF_AIC_REG_WHOAMI \<equiv> 0x2000"
abbreviation (input) VF_AIC_REG_EVENT :: nat where "VF_AIC_REG_EVENT \<equiv> 0x2004"
abbreviation (input) VF_AIC_REG_TARGET :: nat where "VF_AIC_REG_TARGET \<equiv> 0x3000"
abbreviation (input) VF_AIC_REG_SW_BASE :: nat where "VF_AIC_REG_SW_BASE \<equiv> 0x4000"
abbreviation (input) VF_AIC_REG_CPU_BASE :: nat where "VF_AIC_REG_CPU_BASE \<equiv> 0x5000"
abbreviation (input) VF_AIC_EVENT_EXT :: u32 where "VF_AIC_EVENT_EXT \<equiv> 0x10000"

record vf_aic_v1 =
  irq_count :: nat
  cpu_count :: nat
  aic_global_cfg :: u32
  aic_target :: "u32 list"
  aic_level :: "u32 list"
  aic_software :: "u32 list"
  aic_masked :: "u32 list"

definition aic_eir_words :: "nat \<Rightarrow> nat" where
  "aic_eir_words irqs = (irqs + 31) div 32"

definition aic_word_valid :: "vf_aic_v1 \<Rightarrow> nat \<Rightarrow> u32" where
  "aic_word_valid a word =
     (let first = word * 32 in
      if first \<ge> irq_count a then 0
      else if irq_count a - first \<ge> 32 then - 1
      else push_bit (irq_count a - first) 1 - 1)"

definition aic_resolve_access :: "vf_aic_v1 \<Rightarrow> nat \<Rightarrow> nat \<Rightarrow> (nat \<times> nat) option" where
  "aic_resolve_access a cpu off =
     (if off \<ge> VF_AIC_REG_CPU_BASE \<and> off < VF_AIC_REG_CPU_BASE + cpu_count a * 0x80 then
        (let slot = (off - VF_AIC_REG_CPU_BASE) div 0x80;
             delta = (off - VF_AIC_REG_CPU_BASE) mod 0x80 in
         if delta > 0x7c then None else Some (slot, VF_AIC_REG_WHOAMI + delta))
      else if cpu \<ge> cpu_count a then None
      else Some (cpu, off))"

definition aic_reset_state :: "vf_aic_v1 \<Rightarrow> vf_aic_v1" where
  "aic_reset_state a = a\<lparr>aic_target := replicate VF_AIC_MAX_IRQ 1, aic_level := replicate 32 0,
     aic_software := replicate 32 0, aic_masked := replicate 32 (- 1), aic_global_cfg := 0\<rparr>"

definition vf_aic_init :: "vf_aic_v1 \<Rightarrow> nat \<Rightarrow> nat \<Rightarrow> rc \<times> vf_aic_v1" where
  "vf_aic_init a irqs cpus =
     (if irqs = 0 \<or> irqs > VF_AIC_MAX_IRQ \<or> cpus = 0 \<or> cpus > VF_AIC_MAX_CPU then (ERR, a)
      else (OK, aic_reset_state (a\<lparr>irq_count := irqs, cpu_count := cpus\<rparr>)))"

definition vf_aic_set_line :: "vf_aic_v1 \<Rightarrow> nat \<Rightarrow> bool \<Rightarrow> rc \<times> vf_aic_v1" where
  "vf_aic_set_line a irq high =
     (if irq \<ge> irq_count a then (ERR, a)
      else
        (let b = push_bit (irq mod 32) 1; w = irq div 32 in
         (OK, a\<lparr>aic_level := (aic_level a)
                [w := (if high then aic_level a ! w OR b else aic_level a ! w AND NOT b)]\<rparr>)))"

text \<open>\<open>__builtin_ctz\<close>: the index of the lowest set bit (used on non-zero words only).\<close>

definition ctz :: "u32 \<Rightarrow> nat" where
  "ctz w = length (takeWhile (\<lambda>i. \<not> bit w i) [0..<32])"

lemma clear_lowest_less:
  fixes w :: "'a::len word"
  assumes "w \<noteq> 0"
  shows "unat (w AND (w - 1)) < unat w"
proof -
  have "w AND (w - 1) \<le> w - 1" by (rule word_and_le1)
  also have "w - 1 < w" using assms by (simp add: word_less_1 measure_unat word_less_nat_alt)
  finally show ?thesis by (simp add: word_less_nat_alt)
qed

function next_irq_word :: "vf_aic_v1 \<Rightarrow> nat \<Rightarrow> nat \<Rightarrow> u32 \<Rightarrow> nat option" where
  "next_irq_word a cpu word pending =
     (if pending = 0 then None
      else
        (let irq = word * 32 + ctz pending in
         if irq < irq_count a \<and> aic_target a ! irq AND push_bit cpu 1 \<noteq> 0 then Some irq
         else next_irq_word a cpu word (pending AND (pending - 1))))"
  by pat_completeness auto
termination
  by (relation "measure (\<lambda>(a, cpu, word, pending). unat pending)") (simp_all add: clear_lowest_less)

declare next_irq_word.simps [simp del]

fun next_irq_words :: "vf_aic_v1 \<Rightarrow> nat \<Rightarrow> nat list \<Rightarrow> nat option" where
  "next_irq_words a cpu [] = None"
| "next_irq_words a cpu (word # ws) =
     (case next_irq_word a cpu word ((aic_level a ! word OR aic_software a ! word) AND NOT (aic_masked a ! word))
      of Some irq \<Rightarrow> Some irq
       | None \<Rightarrow> next_irq_words a cpu ws)"

definition next_irq :: "vf_aic_v1 \<Rightarrow> nat \<Rightarrow> nat option" where
  "next_irq a cpu =
     (if cpu \<ge> cpu_count a then None
      else next_irq_words a cpu [0..<aic_eir_words (irq_count a)])"

definition vf_aic_pending :: "vf_aic_v1 \<Rightarrow> nat \<Rightarrow> bool" where
  "vf_aic_pending a cpu \<longleftrightarrow> next_irq a cpu \<noteq> None"

definition aic_read_bank :: "vf_aic_v1 \<Rightarrow> nat \<Rightarrow> u32 list \<Rightarrow> u32 option" where
  "aic_read_bank a off bank =
     (if off < VF_AIC_REG_SW_BASE \<or> off \<ge> 0x4200 \<or> off mod 4 \<noteq> 0 then None
      else
        (let word = (off mod 0x80) div 4 in
         if word \<ge> aic_eir_words (irq_count a) then None else Some (bank ! word)))"

definition aic_write_bank :: "vf_aic_v1 \<Rightarrow> nat \<Rightarrow> u32 \<Rightarrow> nat \<Rightarrow> rc \<times> vf_aic_v1" where
  "aic_write_bank a off v op =
     (if off < VF_AIC_REG_SW_BASE \<or> off \<ge> 0x4200 \<or> off mod 4 \<noteq> 0 then (ERR, a)
      else
        (let word = (off mod 0x80) div 4; group = (off - VF_AIC_REG_SW_BASE) div 0x80 in
         if word \<ge> aic_eir_words (irq_count a) \<or> group > 3 then (ERR, a)
         else if v AND NOT (aic_word_valid a word) \<noteq> 0 then (ERR, a)
         else if op = 0 then (OK, a\<lparr>aic_software := (aic_software a)[word := aic_software a ! word OR v]\<rparr>)
         else if op = 1 then (OK, a\<lparr>aic_software := (aic_software a)[word := aic_software a ! word AND NOT v]\<rparr>)
         else if op = 2 then (OK, a\<lparr>aic_masked := (aic_masked a)[word := aic_masked a ! word OR v]\<rparr>)
         else if op = 3 then (OK, a\<lparr>aic_masked := (aic_masked a)[word := aic_masked a ! word AND NOT v]\<rparr>)
         else (ERR, a)))"

definition vf_aic_read :: "vf_aic_v1 \<Rightarrow> nat \<Rightarrow> nat \<Rightarrow> nat \<Rightarrow> u32 option \<times> vf_aic_v1" where
  "vf_aic_read a cpu0 off0 width =
     (if width \<noteq> 4 \<or> off0 mod 4 \<noteq> 0 then (None, a)
      else case aic_resolve_access a cpu0 off0 of
        None \<Rightarrow> (None, a)
      | Some (cpu, off) \<Rightarrow>
          if off = VF_AIC_REG_REV then (Some 2, a)
          else if off = VF_AIC_REG_INFO then
            (Some (push_bit 16 (of_nat (cpu_count a - 1)) OR of_nat (irq_count a)), a)
          else if off = VF_AIC_REG_GLB_CFG then (Some (aic_global_cfg a), a)
          else if off = VF_AIC_REG_WHOAMI then (Some (of_nat cpu), a)
          else if off = VF_AIC_REG_EVENT then
            (case next_irq a cpu of
               None \<Rightarrow> (Some 0, a)
             | Some irq \<Rightarrow>
                 (Some (VF_AIC_EVENT_EXT OR of_nat irq),
                  a\<lparr>aic_masked := (aic_masked a)
                     [irq div 32 := aic_masked a ! (irq div 32) OR push_bit (irq mod 32) 1]\<rparr>))
          else if off \<ge> VF_AIC_REG_TARGET \<and> off < 0x4000 then
            (let irq = (off - VF_AIC_REG_TARGET) div 4 in
             if irq \<ge> irq_count a then (None, a) else (Some (aic_target a ! irq), a))
          else if off \<ge> 0x4100 \<and> off < 0x4200 then (aic_read_bank a off (aic_masked a), a)
          else if off \<ge> 0x4200 \<and> off < 0x4280 then
            (let word = (off - 0x4200) div 4 in
             if word \<ge> aic_eir_words (irq_count a) then (None, a)
             else (Some (aic_level a ! word OR aic_software a ! word), a))
          else (None, a))"

definition vf_aic_write :: "vf_aic_v1 \<Rightarrow> nat \<Rightarrow> nat \<Rightarrow> nat \<Rightarrow> u32 \<Rightarrow> rc \<times> vf_aic_v1" where
  "vf_aic_write a cpu0 off0 width v =
     (if width \<noteq> 4 \<or> off0 mod 4 \<noteq> 0 then (ERR, a)
      else case aic_resolve_access a cpu0 off0 of
        None \<Rightarrow> (ERR, a)
      | Some (cpu, off) \<Rightarrow>
          if off = VF_AIC_REG_RST then (OK, aic_reset_state a)
          else if off = VF_AIC_REG_GLB_CFG then (OK, a\<lparr>aic_global_cfg := v\<rparr>)
          else if off \<ge> VF_AIC_REG_TARGET \<and> off < 0x4000 then
            (let irq = (off - VF_AIC_REG_TARGET) div 4 in
             if irq \<ge> irq_count a \<or> cpu_count a < 32 \<and> drop_bit (cpu_count a) v \<noteq> 0 then (ERR, a)
             else (OK, a\<lparr>aic_target := (aic_target a)[irq := v]\<rparr>))
          else if off \<ge> VF_AIC_REG_SW_BASE \<and> off < 0x4200 then
            aic_write_bank a off v ((off - VF_AIC_REG_SW_BASE) div 0x80)
          else (ERR, a))"

section \<open>Specification\<close>

text \<open>An interrupt is eligible for a CPU when it is raised, not masked and routed to it.\<close>

definition aic_raised :: "vf_aic_v1 \<Rightarrow> nat \<Rightarrow> bool" where
  "aic_raised a irq \<longleftrightarrow> bit (aic_level a ! (irq div 32) OR aic_software a ! (irq div 32)) (irq mod 32)"

definition aic_eligible :: "vf_aic_v1 \<Rightarrow> nat \<Rightarrow> nat \<Rightarrow> bool" where
  "aic_eligible a cpu irq \<longleftrightarrow>
     cpu < cpu_count a \<and> irq < irq_count a \<and> aic_raised a irq
     \<and> \<not> bit (aic_masked a ! (irq div 32)) (irq mod 32) \<and> bit (aic_target a ! irq) cpu"

section \<open>The scan finds the least eligible interrupt\<close>

lemma ctz_less: "w \<noteq> 0 \<Longrightarrow> ctz w < 32"
  and bit_ctz: "w \<noteq> 0 \<Longrightarrow> bit w (ctz w)"
  and ctz_least: "i < ctz w \<Longrightarrow> \<not> bit w i"
proof -
  let ?P = "\<lambda>i. \<not> bit w i"
  {
    assume "w \<noteq> 0"
    then obtain n where "bit w n" "n < 32"
      using nonzero_word_bit [of w] by auto
    then have "\<exists>x \<in> set [0..<32]. \<not> ?P x" by auto
    then have len: "length (takeWhile ?P [0..<32]) < length [0..<32::nat]"
      by (metis length_takeWhile_le nat_less_le takeWhile_dropWhile_id append_eq_conv_conj take_all takeWhile_eq_all_conv order_refl)
    then show "ctz w < 32" by (simp add: ctz_def)
    from nth_length_takeWhile [OF len] len show "bit w (ctz w)" by (simp add: ctz_def)
  }
  assume i: "i < ctz w"
  then have "takeWhile ?P [0..<32] ! i \<in> set (takeWhile ?P [0..<32])"
    by (simp add: ctz_def)
  moreover have "i < 32"
    using i length_takeWhile_le [of ?P "[0..<32]"] by (simp add: ctz_def)
  ultimately show "\<not> bit w i"
    using i set_takeWhileD [of _ ?P "[0..<32]"] by (auto simp: ctz_def takeWhile_nth)
qed

lemma bit_clear_lowest:
  fixes w :: u32
  assumes "w \<noteq> 0"
  shows "bit (w AND (w - 1)) n \<longleftrightarrow> bit w n \<and> n \<noteq> ctz w"
proof -
  define k where "k = ctz w"
  define h where "h = unset_bit k w"
  have k: "k < 32" "bit w k" "\<And>i. i < k \<Longrightarrow> \<not> bit w i"
    using assms by (simp_all add: k_def ctz_less bit_ctz ctz_least)
  have low: "\<not> bit h i" if "i \<le> k" for i
    using that k(3) by (cases "i = k") (simp_all add: h_def bit_unset_bit_iff)
  have "w = h OR push_bit k 1"
    by (rule bit_word_eqI) (use k in \<open>auto simp: h_def bit_simps\<close>)
  also have "\<dots> = h + push_bit k 1"
    by (rule disjunctive_add [symmetric]) (use low in auto)
  finally have "w - 1 = h + mask k"
    by (simp add: mask_eq_exp_minus_1 push_bit_of_1)
  also have "\<dots> = h OR mask k"
    by (rule disjunctive_add) (use low in \<open>auto simp: bit_mask_iff\<close>)
  finally have "bit (w - 1) n \<longleftrightarrow> bit h n \<or> n < k \<and> n < 32"
    by (auto simp: bit_or_iff bit_mask_iff)
  then show ?thesis
    using k by (auto simp: bit_and_iff h_def bit_unset_bit_iff k_def)
qed
lemma next_irq_word_first:
  "first_in (\<lambda>irq. bit p (irq - word * 32) \<and> irq < irq_count a \<and> bit (aic_target a ! irq) cpu)
     (word * 32) (word * 32 + 32) (next_irq_word a cpu word p)"
proof (induction a cpu word p rule: next_irq_word.induct)
  case (1 a cpu word p)
  let ?irq = "word * 32 + ctz p"
  let ?good = "\<lambda>irq. irq < irq_count a \<and> bit (aic_target a ! irq) cpu"
  show ?case
  proof (cases "p = 0")
    case True
    then show ?thesis by (simp add: next_irq_word.simps first_in_def)
  next
    case nz: False
    show ?thesis
    proof (cases "?good ?irq")
      case True
      then have "next_irq_word a cpu word p = Some ?irq"
        using nz by (simp add: next_irq_word.simps [of a cpu word p])
      with nz True show ?thesis
        using ctz_least [of _ p] by (auto simp: first_in_def ctz_less bit_ctz less_diff_conv2)
    next
      case False
      then have "next_irq_word a cpu word p = next_irq_word a cpu word (p AND (p - 1))"
        using nz by (auto simp: next_irq_word.simps [of a cpu word p])
      moreover have "first_in (\<lambda>irq. bit (p AND (p - 1)) (irq - word * 32) \<and> ?good irq)
          (word * 32) (word * 32 + 32) (next_irq_word a cpu word (p AND (p - 1)))"
        using "1.IH" [OF nz refl] False by auto
      ultimately show ?thesis
        using False by (auto elim!: first_in_cong simp: bit_clear_lowest [OF nz] dest: sym)
    qed
  qed
qed

lemma next_irq_words_first:
  assumes "cpu < cpu_count a" "k \<le> n"
  shows "first_in (aic_eligible a cpu) (k * 32) (n * 32) (next_irq_words a cpu [k..<n])"
  using assms(2)
proof (induction rule: inc_induct)
  case base
  then show ?case by simp
next
  case (step k)
  let ?p = "(aic_level a ! k OR aic_software a ! k) AND NOT (aic_masked a ! k)"
  have word: "first_in (aic_eligible a cpu) (k * 32) (Suc k * 32) (next_irq_word a cpu k ?p)"
  proof (rule first_in_cong)
    show "first_in (\<lambda>irq. bit ?p (irq - k * 32) \<and> irq < irq_count a \<and> bit (aic_target a ! irq) cpu)
        (k * 32) (Suc k * 32) (next_irq_word a cpu k ?p)"
      using next_irq_word_first [of ?p k a cpu] by (simp add: add.commute)
  next
    fix j assume "k * 32 \<le> j" "j < Suc k * 32"
    then have "j div 32 = k" and "j mod 32 = j - k * 32" and "j - k * 32 < 32"
      using div_mod_block [of k 32 j] by auto
    with assms(1) show "(bit ?p (j - k * 32) \<and> j < irq_count a \<and> bit (aic_target a ! j) cpu) =
        aic_eligible a cpu j"
      by (auto simp: aic_eligible_def aic_raised_def bit_simps)
  qed
  have split: "[k..<n] = k # [Suc k..<n]"
    using step.hyps by (simp add: upt_rec)
  show ?case
  proof (cases "next_irq_word a cpu k ?p")
    case None
    with word step.IH show ?thesis
      by (auto simp: split intro: first_in_append)
  next
    case (Some i)
    with word step.hyps show ?thesis
      by (auto simp: split intro: first_in_extend)
  qed
qed

lemma next_irq_first:
  "first_in (aic_eligible a cpu) 0 (irq_count a) (next_irq a cpu)"
proof (cases "cpu < cpu_count a")
  case False
  then show ?thesis by (simp add: next_irq_def first_in_def aic_eligible_def)
next
  case True
  let ?n = "aic_eir_words (irq_count a)"
  have "irq_count a \<le> ?n * 32" by (simp add: aic_eir_words_def)
  moreover have "first_in (aic_eligible a cpu) 0 (?n * 32) (next_irq a cpu)"
    using next_irq_words_first [OF True, of 0 ?n] True by (simp add: next_irq_def)
  ultimately show ?thesis
    by (auto simp: first_in_def aic_eligible_def split: option.splits)
qed
section \<open>Invariant\<close>

definition aic_inv :: "vf_aic_v1 \<Rightarrow> bool" where
  "aic_inv a \<longleftrightarrow>
     0 < irq_count a \<and> irq_count a \<le> VF_AIC_MAX_IRQ \<and> 0 < cpu_count a \<and> cpu_count a \<le> VF_AIC_MAX_CPU
     \<and> length (aic_target a) = VF_AIC_MAX_IRQ \<and> length (aic_level a) = 32
     \<and> length (aic_software a) = 32 \<and> length (aic_masked a) = 32
     \<and> (\<forall>w < 32. \<forall>b. irq_count a \<le> w * 32 + b \<longrightarrow>
          \<not> bit (aic_level a ! w) b \<and> \<not> bit (aic_software a ! w) b)
     \<and> (\<forall>irq < irq_count a. \<forall>c. cpu_count a \<le> c \<longrightarrow> \<not> bit (aic_target a ! irq) c)"

lemma bit_aic_word_valid:
  "bit (aic_word_valid a word) b \<longleftrightarrow> b < 32 \<and> word * 32 + b < irq_count a"
proof -
  have m: "bit (2 ^ k - 1 :: u32) b \<longleftrightarrow> b < k \<and> b < 32" for k
    using bit_mask_iff [where ?'a = u32, of k b] by (auto simp: mask_eq_exp_minus_1)
  consider "irq_count a \<le> word * 32" | "word * 32 < irq_count a" "32 \<le> irq_count a - word * 32"
    | "word * 32 < irq_count a" "irq_count a - word * 32 < 32"
    by linarith
  then show ?thesis
    by cases (auto simp: aic_word_valid_def m)
qed

lemma aic_invI_reset:
  "0 < irq_count a \<Longrightarrow> irq_count a \<le> 1024 \<Longrightarrow> 0 < cpu_count a \<Longrightarrow> cpu_count a \<le> 32 \<Longrightarrow>
   aic_inv (aic_reset_state a)"
  by (auto simp: aic_inv_def aic_reset_state_def bit_1_iff)

lemma aic_inv_init: "vf_aic_init a irqs cpus = (OK, a') \<Longrightarrow> aic_inv a'"
  by (auto simp: vf_aic_init_def intro!: aic_invI_reset split: if_splits)

lemma aic_inv_reset: "aic_inv a \<Longrightarrow> aic_inv (aic_reset_state a)"
  by (rule aic_invI_reset) (simp_all add: aic_inv_def)

lemma beyond_count: "irq < n \<Longrightarrow> n \<le> (irq div 32) * 32 + b \<Longrightarrow> b \<noteq> irq mod (32::nat)"
  by (metis div_mult_mod_eq not_le)

lemma aic_inv_set_line: "aic_inv a \<Longrightarrow> aic_inv (snd (vf_aic_set_line a irq high))"
  using beyond_count [of irq "irq_count a"]
  by (auto simp: aic_inv_def vf_aic_set_line_def Let_def nth_list_update bit_simps not_le split: if_splits)

lemma aic_inv_masked: "aic_inv a \<Longrightarrow> length m = 32 \<Longrightarrow> aic_inv (a\<lparr>aic_masked := m\<rparr>)"
  by (simp add: aic_inv_def)

lemma aic_inv_read: "aic_inv a \<Longrightarrow> aic_inv (snd (vf_aic_read a cpu off width))"
  by (auto simp: vf_aic_read_def Let_def intro: aic_inv_masked simp: aic_inv_def split: option.splits)

lemma bits_within_valid:
  assumes "v AND NOT (aic_word_valid a word) = 0" "irq_count a \<le> word * 32 + b"
  shows "\<not> bit v b"
proof
  assume "bit v b"
  then have "bit (v AND NOT (aic_word_valid a word)) b"
    using assms(2) bit_imp_le_length [of v b] by (simp add: bit_simps bit_aic_word_valid)
  then show False using assms(1) by simp
qed

lemma aic_inv_write_bank: "aic_inv a \<Longrightarrow> aic_inv (snd (aic_write_bank a off v op))"
  using bits_within_valid [of v a "off mod 128 div 4"]
  by (auto simp: aic_write_bank_def Let_def aic_inv_def nth_list_update bit_simps)

lemma aic_inv_target:
  assumes "aic_inv a" "irq < irq_count a" "cpu_count a < 32 \<longrightarrow> drop_bit (cpu_count a) v = 0"
  shows "aic_inv (a\<lparr>aic_target := (aic_target a)[irq := v]\<rparr>)"
proof -
  have "\<not> bit v c" if "cpu_count a \<le> c" for c
  proof
    assume c: "bit v c"
    with bit_imp_le_length [of v c] that have "cpu_count a < 32" by auto
    with assms(3) have "\<not> bit (drop_bit (cpu_count a) v) (c - cpu_count a)" by simp
    with c that show False by (simp add: bit_simps)
  qed
  with assms show ?thesis by (auto simp: aic_inv_def nth_list_update)
qed

lemma aic_inv_write: "aic_inv a \<Longrightarrow> aic_inv (snd (vf_aic_write a cpu off width v))"
proof -
  assume a: "aic_inv a"
  then have "aic_inv (a\<lparr>aic_global_cfg := v\<rparr>)" by (simp add: aic_inv_def)
  then show ?thesis
    using aic_inv_reset [OF a] aic_inv_write_bank [OF a] a
    by (simp add: vf_aic_write_def Let_def not_le aic_inv_target split: option.split)
qed

lemma aic_read_closed: "rd_keeps a (vf_aic_read a cpu off w)"
  by (simp add: vf_aic_read_def Let_def split: option.split)

lemma aic_write_closed: "wr_keeps a (vf_aic_write a cpu off w v)"
  by (simp add: vf_aic_write_def aic_write_bank_def Let_def split: option.split)

interpretation aic: mmio_fail_closed "\<lambda>a. vf_aic_read a cpu" "\<lambda>a. vf_aic_write a cpu" aic_inv
  for cpu
  by unfold_locales
    (simp_all add: aic_inv_read aic_inv_write aic_read_closed aic_write_closed)

inductive aic_reachable :: "vf_aic_v1 \<Rightarrow> bool" where
  init: "vf_aic_init a irqs cpus = (OK, a') \<Longrightarrow> aic_reachable a'"
| line: "aic_reachable a \<Longrightarrow> aic_reachable (snd (vf_aic_set_line a irq high))"
| guest: "aic_reachable a \<Longrightarrow>
    aic_reachable (mmio_run (\<lambda>a. vf_aic_read a cpu) (\<lambda>a. vf_aic_write a cpu) a accs)"

lemma aic_reachable_inv: "aic_reachable a \<Longrightarrow> aic_inv a"
  by (induction rule: aic_reachable.induct)
    (auto intro: aic_inv_init aic_inv_set_line aic.run_inv)

section \<open>Acknowledging interrupts\<close>

definition aic_ack :: "vf_aic_v1 \<Rightarrow> nat \<Rightarrow> vf_aic_v1" where
  "aic_ack a irq = a\<lparr>aic_masked := (aic_masked a)
     [irq div 32 := aic_masked a ! (irq div 32) OR push_bit (irq mod 32) 1]\<rparr>"

lemma aic_read_event:
  "cpu < cpu_count a \<Longrightarrow> vf_aic_read a cpu VF_AIC_REG_EVENT 4 =
     (case next_irq a cpu of None \<Rightarrow> (Some 0, a)
      | Some irq \<Rightarrow> (Some (VF_AIC_EVENT_EXT OR of_nat irq), aic_ack a irq))"
  by (simp add: vf_aic_read_def aic_resolve_access_def aic_ack_def split: option.split)

lemma aic_eligible_ack:
  assumes "aic_inv a" "irq < irq_count a"
  shows "aic_eligible (aic_ack a irq) cpu j \<longleftrightarrow> aic_eligible a cpu j \<and> j \<noteq> irq"
proof (cases "j < irq_count a")
  case True
  then have "j div 32 < 32" "irq div 32 < 32" "length (aic_masked a) = 32"
    using assms by (auto simp: aic_inv_def)
  moreover have "j = irq \<longleftrightarrow> irq div 32 = j div 32 \<and> irq mod 32 = j mod 32"
    by (metis div_mult_mod_eq)
  ultimately show ?thesis
    by (auto simp: aic_eligible_def aic_ack_def aic_raised_def nth_list_update bit_simps split: if_splits)
qed (auto simp: aic_eligible_def aic_ack_def)

lemma aic_inv_ack: "aic_inv a \<Longrightarrow> aic_inv (aic_ack a irq)"
  by (simp add: aic_ack_def aic_inv_masked) (simp add: aic_inv_def)

lemma cpu_count_ack [simp]: "cpu_count (aic_ack a irq) = cpu_count a"
  by (simp add: aic_ack_def)

lemma finite_aic_eligible: "finite {i. aic_eligible a cpu i}"
  by (rule finite_subset [of _ "{..<irq_count a}"]) (auto simp: aic_eligible_def)

lemma sorted_eligible_Cons:
  assumes "aic_inv a" "next_irq a cpu = Some i"
  shows "sorted_list_of_set {j. aic_eligible a cpu j} =
    i # sorted_list_of_set {j. aic_eligible (aic_ack a i) cpu j}"
proof -
  have i: "aic_eligible a cpu i" "i < irq_count a" "\<And>j. j < i \<Longrightarrow> \<not> aic_eligible a cpu j"
    using first_in_Some_iff [OF next_irq_first, of a cpu i] assms(2) by auto
  then have "Min {j. aic_eligible a cpu j} = i"
    by (intro Min_eqI) (auto simp: finite_aic_eligible not_less [symmetric])
  moreover have "{j. aic_eligible a cpu j} - {i} = {j. aic_eligible (aic_ack a i) cpu j}"
    using aic_eligible_ack [OF assms(1) i(2)] by auto
  ultimately show ?thesis
    using i sorted_list_of_set_nonempty [OF finite_aic_eligible, of a cpu] by auto
qed

text \<open>What \<open>n\<close> consecutive reads of EVENT by one CPU return.\<close>

fun aic_events :: "nat \<Rightarrow> vf_aic_v1 \<Rightarrow> nat \<Rightarrow> u32 option list" where
  "aic_events 0 a cpu = []"
| "aic_events (Suc n) a cpu =
     (case vf_aic_read a cpu VF_AIC_REG_EVENT 4 of (v, a') \<Rightarrow> v # aic_events n a' cpu)"

lemma aic_events_none:
  "cpu < cpu_count a \<Longrightarrow> next_irq a cpu = None \<Longrightarrow> aic_events n a cpu = replicate n (Some 0)"
  by (induction n) (simp_all add: aic_read_event)

lemma take_pad_Cons:
  "take (Suc n) ((x # xs) @ replicate (Suc n) z) = x # take n (xs @ replicate n z)"
  by (simp add: take_replicate min_def del: replicate_Suc)

section \<open>Properties\<close>

text \<open>C30. The interrupt scan (word loop, lowest-set-bit loop) returns the least-numbered
  interrupt that is raised by its line or by software, unmasked and routed to the CPU, and
  reports none exactly when there is no such interrupt.\<close>

theorem next_irq_least_eligible:
  "(next_irq a cpu = Some i \<longleftrightarrow> aic_eligible a cpu i \<and> (\<forall>j < i. \<not> aic_eligible a cpu j))
   \<and> (vf_aic_pending a cpu \<longleftrightarrow> (\<exists>i. aic_eligible a cpu i))"
  using first_in_Some_iff [OF next_irq_first, of a cpu i] first_in_None_iff [OF next_irq_first, of a cpu]
  by (auto simp: vf_aic_pending_def aic_eligible_def)

text \<open>Consecutive reads of the EVENT register deliver every eligible interrupt exactly
  once, in ascending order, and then zero: each read masks the interrupt it reports and no
  other.\<close>

theorem aic_events_drain:
  assumes "aic_inv a" "cpu < cpu_count a"
  shows "aic_events n a cpu =
    take n (map (\<lambda>i. Some (VF_AIC_EVENT_EXT OR of_nat i))
              (sorted_list_of_set {i. aic_eligible a cpu i}) @ replicate n (Some 0))"
  using assms
proof (induction n arbitrary: a)
  case 0
  then show ?case by simp
next
  case (Suc n)
  show ?case
  proof (cases "next_irq a cpu")
    case None
    then have "{i. aic_eligible a cpu i} = {}"
      using first_in_None_iff [OF next_irq_first, of a cpu] by (auto simp: aic_eligible_def)
    with None Suc.prems show ?thesis
      by (simp add: aic_events_none del: aic_events.simps)
  next
    case (Some i)
    have "aic_events n (aic_ack a i) cpu =
      take n (map (\<lambda>i. Some (VF_AIC_EVENT_EXT OR of_nat i))
              (sorted_list_of_set {j. aic_eligible (aic_ack a i) cpu j}) @ replicate n (Some 0))"
      using Suc.prems by (intro Suc.IH) (simp_all add: aic_inv_ack)
    with Some Suc.prems show ?thesis
      by (simp only: aic_events.simps aic_read_event option.case prod.case
          sorted_eligible_Cons list.map take_pad_Cons)
  qed
qed

definition aic_boot :: vf_aic_v1 where
  "aic_boot = snd (vf_aic_init \<lparr>irq_count = 0, cpu_count = 0, aic_global_cfg = 0, aic_target = [],
     aic_level = [], aic_software = [], aic_masked = []\<rparr> 64 2)"

definition aic_demo :: vf_aic_v1 where
  "aic_demo = snd (vf_aic_write (snd (vf_aic_set_line aic_boot 33 True)) 0 0x4184 4 2)"

lemma aic_boot_init:
  "vf_aic_init \<lparr>irq_count = 0, cpu_count = 0, aic_global_cfg = 0, aic_target = [],
     aic_level = [], aic_software = [], aic_masked = []\<rparr> 64 2 = (OK, aic_boot)"
  by (simp add: aic_boot_def vf_aic_init_def)

lemma aic_demo_reachable: "aic_reachable aic_demo"
  using aic_reachable.guest [OF aic_reachable.line [OF aic_reachable.init [OF aic_boot_init]],
      of 0 33 True "[Wr 0x4184 4 2]"]
  by (simp add: aic_demo_def)

lemma aic_demo_eq:
  "aic_demo = \<lparr>irq_count = 64, cpu_count = 2, aic_global_cfg = 0,
     aic_target = replicate 1024 1, aic_level = (replicate 32 0)[1 := 2],
     aic_software = replicate 32 0, aic_masked = (replicate 32 (- 1))[1 := NOT 2]\<rparr>"
  by (simp add: aic_demo_def aic_boot_def vf_aic_init_def aic_reset_state_def vf_aic_set_line_def
      vf_aic_write_def aic_resolve_access_def aic_write_bank_def aic_eir_words_def aic_word_valid_def)

lemma aic_demo_eligible: "aic_eligible aic_demo 0 i \<longleftrightarrow> i = 33"
proof (cases "i < 64 \<and> i div 32 = 1")
  case True
  moreover have "i = 33 \<longleftrightarrow> i mod 32 = 1" using True by presburger
  moreover have "bit (2 :: u32) n \<longleftrightarrow> n = 1" for n
    using bit_two_power [where ?'a = 32, of 1 n] by auto
  ultimately show ?thesis
    by (auto simp: aic_eligible_def aic_raised_def aic_demo_eq bit_simps)
next
  case False
  then have "\<not> aic_raised aic_demo i" if "i < 64"
    using that by (auto simp: aic_raised_def aic_demo_eq nth_list_update)
  with False show ?thesis
    by (auto simp: aic_eligible_def aic_demo_eq)
qed

theorem aic_events_drain_witness:
  "aic_inv aic_demo \<and> 0 < cpu_count aic_demo \<and> aic_events 2 aic_demo 0 = [Some 0x10021, Some 0]"
proof -
  have c: "0 < cpu_count aic_demo"
    using aic_reachable_inv [OF aic_demo_reachable] by (simp add: aic_inv_def)
  with aic_events_drain [OF aic_reachable_inv [OF aic_demo_reachable] c, of 2]
    aic_reachable_inv [OF aic_demo_reachable] show ?thesis
    by (simp add: aic_demo_eligible numeral_2_eq_2)
qed

theorem next_irq_least_eligible_witness: "next_irq aic_demo 0 = Some 33 \<and> vf_aic_pending aic_demo 0"
  using next_irq_least_eligible [of aic_demo 0 33] aic_demo_eligible by auto

text \<open>In every state reachable from initialisation by line changes and guest accesses of
  any CPU, the controller is well formed: the arrays have their C sizes, the counts are within
  bounds, no level or software bit beyond \<open>irq_count\<close> is set and no target names a CPU that
  does not exist.\<close>

theorem aic_reachable_wellformed: "aic_reachable a \<Longrightarrow> aic_inv a"
  by (rule aic_reachable_inv)

theorem aic_reachable_wellformed_witness: "aic_reachable aic_demo \<and> aic_inv aic_demo"
  using aic_demo_reachable aic_reachable_wellformed by blast

end
