(* ===== verification/Sart.thy ===== *)
theory Sart
  imports Prelude
begin

text \<open>
  The DMA region table, \<open>src/devices/sart_v1.c\<close>: sixteen regions in three register banks whose
  layout depends on the version, a generation counter that stands for the IOMMU notifier, and an
  identity translation with region hit detection.

  Shown: a translation reports the first flagged region that contains the page, computed without
  wrap-around; a register write that does not advance the generation cannot change any
  translation, so a client that caches translations per generation is never stale.
\<close>

section \<open>Model\<close>

abbreviation (input) VF_SART_REG_SIZE :: nat where "VF_SART_REG_SIZE \<equiv> 0x8000"
abbreviation (input) VF_SART_NUM_REGIONS :: nat where "VF_SART_NUM_REGIONS \<equiv> 16"
abbreviation (input) VF_SART_VERSION_1 :: u32 where "VF_SART_VERSION_1 \<equiv> 1"
abbreviation (input) VF_SART_VERSION_2 :: u32 where "VF_SART_VERSION_2 \<equiv> 2"
abbreviation (input) VF_SART_VERSION_3 :: u32 where "VF_SART_VERSION_3 \<equiv> 3"
abbreviation (input) VF_SART_BANK_SIZE :: nat where "VF_SART_BANK_SIZE \<equiv> 0x000"
abbreviation (input) VF_SART_BANK_ADDR :: nat where "VF_SART_BANK_ADDR \<equiv> 0x040"
abbreviation (input) VF_SART_BANK_SIZE_V3 :: nat where "VF_SART_BANK_SIZE_V3 \<equiv> 0x080"
abbreviation (input) VF_SART_REG_SIZE_OFF :: "nat \<Rightarrow> nat" where
  "VF_SART_REG_SIZE_OFF i \<equiv> VF_SART_BANK_SIZE + 4 * i"
abbreviation (input) VF_SART_REG_ADDR_OFF :: "nat \<Rightarrow> nat" where
  "VF_SART_REG_ADDR_OFF i \<equiv> VF_SART_BANK_ADDR + 4 * i"
abbreviation (input) VF_SART_REG_SIZE_V3_OFF :: "nat \<Rightarrow> nat" where
  "VF_SART_REG_SIZE_V3_OFF i \<equiv> VF_SART_BANK_SIZE_V3 + 4 * i"
abbreviation (input) VF_SART_REG_WORDS :: nat where "VF_SART_REG_WORDS \<equiv> 0x2000"
abbreviation (input) VF_SART_PAGE_SHIFT :: nat where "VF_SART_PAGE_SHIFT \<equiv> 12"
abbreviation (input) VF_SART_PAGE_MASK :: u64 where "VF_SART_PAGE_MASK \<equiv> NOT 0xFFF"
abbreviation (input) VF_SART_MAX_VA_BITS :: nat where "VF_SART_MAX_VA_BITS \<equiv> 42"
abbreviation (input) VF_SART_SIZE_MASK_V1 :: u32 where "VF_SART_SIZE_MASK_V1 \<equiv> 0x0007FFFF"
abbreviation (input) VF_SART_SIZE_MASK_V2 :: u32 where "VF_SART_SIZE_MASK_V2 \<equiv> 0x00FFFFFF"
abbreviation (input) VF_SART_ADDR_MASK_V12 :: u32 where "VF_SART_ADDR_MASK_V12 \<equiv> 0x00FFFFFF"
abbreviation (input) VF_SART_ADDR_MASK_V3 :: u32 where "VF_SART_ADDR_MASK_V3 \<equiv> 0x3FFFFFFF"
abbreviation (input) VF_SART_SIZE_MASK_V3 :: u32 where "VF_SART_SIZE_MASK_V3 \<equiv> 0x3FFFFFFF"

record vf_sart_v1 =
  sart_version :: u32
  sart_gen :: u32
  sart_regs :: "u32 list"

definition sart_bounds :: "nat \<Rightarrow> nat \<Rightarrow> bool" where
  "sart_bounds off width \<longleftrightarrow> width = 4 \<and> off mod 4 = 0 \<and> off < VF_SART_REG_SIZE"

definition sart_region_write :: "vf_sart_v1 \<Rightarrow> nat \<Rightarrow> bool" where
  "sart_region_write s off \<longleftrightarrow>
     off < VF_SART_NUM_REGIONS * 4
     \<or> off \<ge> VF_SART_BANK_ADDR \<and> off < VF_SART_BANK_ADDR + VF_SART_NUM_REGIONS * 4
     \<or> sart_version s = VF_SART_VERSION_3 \<and> off \<ge> VF_SART_BANK_SIZE_V3
         \<and> off < VF_SART_BANK_SIZE_V3 + VF_SART_NUM_REGIONS * 4"

definition sart_reg :: "vf_sart_v1 \<Rightarrow> nat \<Rightarrow> u32" where
  "sart_reg s off = sart_regs s ! (off div 4)"

definition vf_sart_init :: "vf_sart_v1 \<Rightarrow> u32 \<Rightarrow> rc \<times> vf_sart_v1" where
  "vf_sart_init s version =
     (if version \<noteq> VF_SART_VERSION_1 \<and> version \<noteq> VF_SART_VERSION_2 \<and> version \<noteq> VF_SART_VERSION_3
      then (ERR, s)
      else (OK, \<lparr>sart_version = version, sart_gen = 0, sart_regs = replicate VF_SART_REG_WORDS 0\<rparr>))"

definition vf_sart_generation :: "vf_sart_v1 \<Rightarrow> u32" where
  "vf_sart_generation s = sart_gen s"

definition vf_sart_read :: "vf_sart_v1 \<Rightarrow> nat \<Rightarrow> nat \<Rightarrow> u32 option \<times> vf_sart_v1" where
  "vf_sart_read s off width =
     (if \<not> sart_bounds off width then (None, s) else (Some (sart_regs s ! (off div 4)), s))"

definition vf_sart_write :: "vf_sart_v1 \<Rightarrow> nat \<Rightarrow> nat \<Rightarrow> u32 \<Rightarrow> rc \<times> vf_sart_v1" where
  "vf_sart_write s off width v =
     (if \<not> sart_bounds off width then (ERR, s)
      else let s1 = (if sart_region_write s off then s\<lparr>sart_gen := sart_gen s + 1\<rparr> else s) in
        (OK, s1\<lparr>sart_regs := (sart_regs s1)[off div 4 := v]\<rparr>))"

text \<open>The result is \<open>(addr_pages, size_pages, flags)\<close>; \<open>None\<close> is the return value \<open>-1\<close>.\<close>

definition vf_sart_region_decode :: "vf_sart_v1 \<Rightarrow> nat \<Rightarrow> (u32 \<times> u32 \<times> u32) option" where
  "vf_sart_region_decode s region =
     (if region \<ge> VF_SART_NUM_REGIONS then None
      else
        let size_word = sart_reg s (VF_SART_REG_SIZE_OFF region);
            addr_word = sart_reg s (VF_SART_REG_ADDR_OFF region) in
        if sart_version s = VF_SART_VERSION_1 then
          Some (addr_word AND VF_SART_ADDR_MASK_V12, size_word AND VF_SART_SIZE_MASK_V1,
                size_word AND NOT VF_SART_SIZE_MASK_V1)
        else if sart_version s = VF_SART_VERSION_2 then
          Some (addr_word AND VF_SART_ADDR_MASK_V12, size_word AND VF_SART_SIZE_MASK_V2,
                size_word AND NOT VF_SART_SIZE_MASK_V2)
        else if sart_version s = VF_SART_VERSION_3 then
          Some (addr_word AND VF_SART_ADDR_MASK_V3,
                sart_reg s (VF_SART_REG_SIZE_V3_OFF region) AND VF_SART_SIZE_MASK_V3,
                size_word)
        else None)"

text \<open>
  The loop of \<open>vf_sart_translate\<close> from region \<open>i\<close> on: its return value and what \<open>*region_out\<close>
  holds afterwards. \<open>page\<close> is 64 bits wide, as in the code, so the sum does not wrap.
\<close>

function sart_translate_loop :: "vf_sart_v1 \<Rightarrow> u64 \<Rightarrow> nat \<Rightarrow> int \<times> nat" where
  "sart_translate_loop s page i =
     (if i < VF_SART_NUM_REGIONS then
        (case vf_sart_region_decode s i of
           None \<Rightarrow> (- 1, VF_SART_NUM_REGIONS)
         | Some (addr_pages, size_pages, flags) \<Rightarrow>
             if flags = 0 \<or> size_pages = 0 then sart_translate_loop s page (i + 1)
             else if page \<ge> ucast addr_pages \<and> page < ucast addr_pages + ucast size_pages then (1, i)
             else sart_translate_loop s page (i + 1))
      else (0, VF_SART_NUM_REGIONS))"
  by pat_completeness auto
termination
  by (relation "measure (\<lambda>(s, page, i). VF_SART_NUM_REGIONS - i)") auto

declare sart_translate_loop.simps [simp del]

text \<open>Return value, and what is stored to \<open>*pa_out\<close> and \<open>*region_out\<close> (\<open>None\<close>: not stored).\<close>

definition vf_sart_translate :: "vf_sart_v1 \<Rightarrow> u64 \<Rightarrow> int \<times> u64 option \<times> nat option" where
  "vf_sart_translate s iova =
     (if drop_bit VF_SART_MAX_VA_BITS iova \<noteq> 0 then (- 1, None, None)
      else let (ret, region) = sart_translate_loop s (drop_bit VF_SART_PAGE_SHIFT iova) 0 in
        (ret, Some (iova AND VF_SART_PAGE_MASK), Some region))"

section \<open>Invariant\<close>

definition sart_inv :: "vf_sart_v1 \<Rightarrow> bool" where
  "sart_inv s \<longleftrightarrow> sart_version s \<in> {1, 2, 3} \<and> length (sart_regs s) = VF_SART_REG_WORDS"

lemma sart_inv_init: "vf_sart_init s v = (OK, s') \<Longrightarrow> sart_inv s'"
  by (auto simp: vf_sart_init_def sart_inv_def split: if_splits)

interpretation sart: mmio_fail_closed vf_sart_read vf_sart_write sart_inv
  by unfold_locales (simp_all add: vf_sart_read_def vf_sart_write_def sart_inv_def Let_def)

section \<open>Translation finds the first region that contains the page\<close>

text \<open>A region matches a page number when it is flagged and the page lies in its range.\<close>

definition sart_region_hits :: "vf_sart_v1 \<Rightarrow> nat \<Rightarrow> nat \<Rightarrow> bool" where
  "sart_region_hits s page i \<longleftrightarrow>
     (\<exists>addr size flags. vf_sart_region_decode s i = Some (addr, size, flags) \<and> flags \<noteq> 0
        \<and> unat addr \<le> page \<and> page < unat addr + unat size)"

lemma unat_ucast_sum:
  fixes a b :: u32
  shows "unat (ucast a + ucast b :: u64) = unat a + unat b"
proof -
  have "unat a < 2 ^ 32" "unat b < 2 ^ 32"
    using unsigned_less [of a] unsigned_less [of b] by simp_all
  then show ?thesis
    by (subst unat_add_no_wrap) simp_all
qed

lemma sart_decode_some:
  "sart_inv s \<Longrightarrow> i < 16 \<Longrightarrow> \<exists>a z f. vf_sart_region_decode s i = Some (a, z, f)"
  by (auto simp: sart_inv_def vf_sart_region_decode_def Let_def)

lemma sart_hit_step:
  assumes "vf_sart_region_decode s i = Some (a, z, f)"
  shows "sart_region_hits s (unat (page :: u64)) i \<longleftrightarrow>
    \<not> (f = 0 \<or> z = 0) \<and> page \<ge> ucast a \<and> page < ucast a + ucast z"
  using assms
  by (auto simp: sart_region_hits_def word_less_nat_alt word_le_nat_alt unat_ucast_sum
      unsigned_eq_0_iff)

lemma sart_translate_loop_first:
  assumes "sart_inv s" "i \<le> 16"
  shows "(\<exists>k. sart_translate_loop s page i = (1, k) \<and>
             first_in (sart_region_hits s (unat page)) i 16 (Some k))
    \<or> sart_translate_loop s page i = (0, 16) \<and> first_in (sart_region_hits s (unat page)) i 16 None"
  using assms(2)
proof (induction rule: inc_induct)
  case base
  show ?case by (simp add: sart_translate_loop.simps)
next
  case (step i)
  obtain a z f where d: "vf_sart_region_decode s i = Some (a, z, f)"
    using sart_decode_some [OF assms(1) step.hyps(2)] by blast
  show ?case
  proof (cases "sart_region_hits s (unat page) i")
    case True
    moreover have "sart_translate_loop s page i = (1, i)"
      using True d step.hyps(2) by (simp add: sart_hit_step [OF d] sart_translate_loop.simps [of s page i])
    ultimately show ?thesis using step.hyps(2) by (auto intro: first_in_here)
  next
    case False
    then have "sart_translate_loop s page i = sart_translate_loop s page (Suc i)"
      using d step.hyps(2) by (auto simp: sart_hit_step [OF d] sart_translate_loop.simps [of s page i])
    moreover have "first_in (sart_region_hits s (unat page)) i (Suc i) None"
      using False by (auto simp: first_in_def le_less_Suc_eq)
    ultimately show ?thesis
      using step.IH first_in_append [of _ i "Suc i"] by fastforce
  qed
qed

lemma sart_translate_loop_result:
  assumes "sart_inv s"
  shows "sart_translate_loop s page 0 = (1, k) \<longleftrightarrow>
      k < 16 \<and> sart_region_hits s (unat page) k \<and> (\<forall>j < k. \<not> sart_region_hits s (unat page) j)"
    and "sart_translate_loop s page 0 = (0, 16) \<longleftrightarrow> (\<forall>j < 16. \<not> sart_region_hits s (unat page) j)"
  using sart_translate_loop_first [OF assms, of 0 page]
  by (auto simp: first_in_def) (meson linorder_neqE_nat)+

section \<open>The generation tracks every change of a translation\<close>

lemma sart_decode_regs:
  assumes "sart_version t = sart_version s"
    and "sart_reg t (4 * i) = sart_reg s (4 * i)" "sart_reg t (0x40 + 4 * i) = sart_reg s (0x40 + 4 * i)"
    and "sart_version s = 3 \<Longrightarrow> sart_reg t (0x80 + 4 * i) = sart_reg s (0x80 + 4 * i)"
  shows "vf_sart_region_decode t i = vf_sart_region_decode s i"
  using assms by (auto simp: vf_sart_region_decode_def Let_def)

lemma sart_decode_write_other:
  assumes "\<not> sart_region_write s off"
  shows "vf_sart_region_decode (snd (vf_sart_write s off w v)) i = vf_sart_region_decode s i"
proof (cases "i < 16")
  case True
  have "off div 4 \<noteq> i" "off div 4 \<noteq> 16 + i" "sart_version s = 3 \<Longrightarrow> off div 4 \<noteq> 32 + i"
    using assms True unfolding sart_region_write_def by auto
  then show ?thesis
    using assms by (intro sart_decode_regs) (auto simp: vf_sart_write_def sart_reg_def Let_def)
qed (simp add: vf_sart_region_decode_def)

lemma sart_translate_cong:
  assumes "\<And>i. vf_sart_region_decode t i = vf_sart_region_decode s i"
  shows "vf_sart_translate t iova = vf_sart_translate s iova"
proof -
  have "sart_translate_loop t page i = sart_translate_loop s page i" for page i
  proof (induction "16 - i" arbitrary: i rule: less_induct)
    case less
    then show ?case
      by (subst (1 2) sart_translate_loop.simps) (auto simp: assms split: option.split)
  qed
  then show ?thesis by (simp add: vf_sart_translate_def)
qed

section \<open>Properties\<close>

text \<open>Below the 42-bit limit \<open>vf_sart_translate\<close> never fails on an initialised device: it
  stores the page-aligned IOVA, and it returns 1 with region \<open>k\<close> exactly when \<open>k\<close> is the first
  region that is flagged and whose page range contains the IOVA's page, and 0 with the index 16
  exactly when no region matches. At or above the limit it fails and stores nothing.\<close>

theorem sart_translate_first_region:
  assumes "sart_inv s"
  shows "(drop_bit 42 iova = 0 \<longrightarrow>
      (vf_sart_translate s iova = (1, Some (iova AND NOT 0xFFF), Some k) \<longleftrightarrow>
         k < 16 \<and> sart_region_hits s (unat (drop_bit 12 iova)) k
         \<and> (\<forall>j < k. \<not> sart_region_hits s (unat (drop_bit 12 iova)) j))
      \<and> (vf_sart_translate s iova = (0, Some (iova AND NOT 0xFFF), Some 16) \<longleftrightarrow>
         (\<forall>j < 16. \<not> sart_region_hits s (unat (drop_bit 12 iova)) j)))
    \<and> (drop_bit 42 iova \<noteq> 0 \<longrightarrow> vf_sart_translate s iova = (- 1, None, None))"
  using sart_translate_loop_result [OF assms, of "drop_bit 12 iova"]
  by (simp add: vf_sart_translate_def split: prod.split) (metis prod.inject)

definition sart_demo :: vf_sart_v1 where
  "sart_demo = snd (vf_sart_write (snd (vf_sart_write
     \<lparr>sart_version = 2, sart_gen = 0, sart_regs = replicate VF_SART_REG_WORDS 0\<rparr> 4 4 0xFF000004))
     0x44 4 0x100)"

lemma sart_demo_inv: "sart_inv sart_demo"
  by (simp add: sart_demo_def vf_sart_write_def sart_inv_def Let_def)

lemma sart_demo_decode:
  "vf_sart_region_decode sart_demo 0 = Some (0, 0, 0)"
  "vf_sart_region_decode sart_demo 1 = Some (0x100, 4, 0xFF000000)"
  by (simp_all add: sart_demo_def vf_sart_region_decode_def sart_reg_def vf_sart_write_def
      sart_bounds_def Let_def)

theorem sart_translate_first_region_witness:
  "sart_inv sart_demo \<and> vf_sart_translate sart_demo 0x102345 = (1, Some 0x102000, Some 1)"
  using sart_translate_first_region [OF sart_demo_inv, of "0x102345" 1] sart_demo_decode sart_demo_inv
  by (simp add: sart_region_hits_def)

text \<open>A register write either advances the generation by one or leaves the translation of
  every address unchanged.\<close>

theorem sart_generation_tracks_translation:
  "vf_sart_generation (snd (vf_sart_write s off w v)) = vf_sart_generation s + 1
   \<or> (\<forall>iova. vf_sart_translate (snd (vf_sart_write s off w v)) iova = vf_sart_translate s iova)"
proof (cases "sart_bounds off w \<and> sart_region_write s off")
  case True
  then show ?thesis by (simp add: vf_sart_write_def vf_sart_generation_def Let_def)
next
  case False
  then have "vf_sart_region_decode (snd (vf_sart_write s off w v)) i = vf_sart_region_decode s i" for i
    using sart_decode_write_other [of s off w v i] by (auto simp: vf_sart_write_def)
  then show ?thesis by (intro disjI2 allI sart_translate_cong)
qed

end
