(* ===== verification/Dart.thy ===== *)
theory Dart
  imports Prelude
begin

text \<open>
  The IOMMU register window, \<open>src/devices/dart_v1.c\<close>: stream tables, the TLB operation
  register, the write-one-to-clear error status and the configuration lock.

  Shown: once CONFIG.LOCK is set no sequence of guest accesses changes the translation
  configuration or clears the lock; a write to a table slot is read back and changes no other
  slot; the error interrupt is exactly bit 31 of the error status.
\<close>

section \<open>Model\<close>

abbreviation (input) VF_DART_INSTANCE_SIZE :: nat where "VF_DART_INSTANCE_SIZE \<equiv> 0x4000"
abbreviation (input) VF_DART_REG_PARAMS1 :: nat where "VF_DART_REG_PARAMS1 \<equiv> 0x000"
abbreviation (input) VF_DART_REG_PARAMS2 :: nat where "VF_DART_REG_PARAMS2 \<equiv> 0x004"
abbreviation (input) VF_DART_REG_TLB_OP :: nat where "VF_DART_REG_TLB_OP \<equiv> 0x020"
abbreviation (input) VF_DART_REG_SID_MASK_LO :: nat where "VF_DART_REG_SID_MASK_LO \<equiv> 0x034"
abbreviation (input) VF_DART_REG_SID_MASK_HI :: nat where "VF_DART_REG_SID_MASK_HI \<equiv> 0x038"
abbreviation (input) VF_DART_REG_ERROR_STATUS :: nat where "VF_DART_REG_ERROR_STATUS \<equiv> 0x040"
abbreviation (input) VF_DART_REG_ERROR_ADDR_LO :: nat where "VF_DART_REG_ERROR_ADDR_LO \<equiv> 0x050"
abbreviation (input) VF_DART_REG_ERROR_ADDR_HI :: nat where "VF_DART_REG_ERROR_ADDR_HI \<equiv> 0x054"
abbreviation (input) VF_DART_REG_CONFIG :: nat where "VF_DART_REG_CONFIG \<equiv> 0x060"
abbreviation (input) VF_DART_REG_SID_REMAP_BASE :: nat where "VF_DART_REG_SID_REMAP_BASE \<equiv> 0x080"
abbreviation (input) VF_DART_REG_TCR_BASE :: nat where "VF_DART_REG_TCR_BASE \<equiv> 0x100"
abbreviation (input) VF_DART_REG_TTBR_BASE :: nat where "VF_DART_REG_TTBR_BASE \<equiv> 0x200"
abbreviation (input) VF_DART_MAX_STREAMS :: nat where "VF_DART_MAX_STREAMS \<equiv> 16"
abbreviation (input) VF_DART_TTBR_PER_SID :: nat where "VF_DART_TTBR_PER_SID \<equiv> 4"
abbreviation (input) VF_DART_PARAMS1_PAGE_SHIFT_VAL :: "u32 \<Rightarrow> u32" where
  "VF_DART_PARAMS1_PAGE_SHIFT_VAL s \<equiv> push_bit 24 (s AND 0xf)"
abbreviation (input) VF_DART_TLB_OP_BUSY :: u32 where "VF_DART_TLB_OP_BUSY \<equiv> push_bit 2 1"
abbreviation (input) VF_DART_TLB_OP_INVALIDATE :: u32 where "VF_DART_TLB_OP_INVALIDATE \<equiv> push_bit 20 1"
abbreviation (input) VF_DART_ERROR_FLAG :: u32 where "VF_DART_ERROR_FLAG \<equiv> push_bit 31 1"
abbreviation (input) VF_DART_CONFIG_LOCK :: u32 where "VF_DART_CONFIG_LOCK \<equiv> push_bit 15 1"
abbreviation (input) VF_DART_DEFAULT_PAGE_SHIFT :: u32 where "VF_DART_DEFAULT_PAGE_SHIFT \<equiv> 12"
abbreviation (input) VF_DART_REG_TCR :: "nat \<Rightarrow> nat" where
  "VF_DART_REG_TCR sid \<equiv> VF_DART_REG_TCR_BASE + 4 * sid"
abbreviation (input) VF_DART_REG_TTBR :: "nat \<Rightarrow> nat \<Rightarrow> nat" where
  "VF_DART_REG_TTBR sid idx \<equiv> VF_DART_REG_TTBR_BASE + 16 * sid + 4 * idx"

record vf_dart_v1 =
  dart_params1 :: u32
  dart_params2 :: u32
  dart_tlb_op :: u32
  dart_sid_mask_lo :: u32
  dart_sid_mask_hi :: u32
  dart_error_status :: u32
  dart_error_addr_lo :: u32
  dart_error_addr_hi :: u32
  dart_config :: u32
  dart_sid_remap :: "u32 list"
  dart_tcr :: "u32 list"
  dart_ttbr_tab :: "u32 list list"
  dart_tlb_gen :: u32

definition dart_bounds :: "nat \<Rightarrow> nat \<Rightarrow> bool" where
  "dart_bounds off width \<longleftrightarrow> width = 4 \<and> off mod 4 = 0 \<and> off < VF_DART_INSTANCE_SIZE"

definition dart_sid :: "nat \<Rightarrow> nat \<Rightarrow> nat option" where
  "dart_sid off base =
     (if off < base \<or> (off - base) mod 4 \<noteq> 0 then None
      else let index = (off - base) div 4 in
        if index \<ge> VF_DART_MAX_STREAMS then None else Some index)"

definition dart_ttbr :: "nat \<Rightarrow> (nat \<times> nat) option" where
  "dart_ttbr off =
     (if off < VF_DART_REG_TTBR_BASE \<or> (off - VF_DART_REG_TTBR_BASE) mod 4 \<noteq> 0 then None
      else let delta = off - VF_DART_REG_TTBR_BASE; slot = delta div 4 in
        if slot \<ge> VF_DART_MAX_STREAMS * VF_DART_TTBR_PER_SID then None
        else Some (slot div VF_DART_TTBR_PER_SID, slot mod VF_DART_TTBR_PER_SID))"

definition dart_reset_state :: "vf_dart_v1 \<Rightarrow> vf_dart_v1" where
  "dart_reset_state d =
     \<lparr>dart_params1 = VF_DART_PARAMS1_PAGE_SHIFT_VAL VF_DART_DEFAULT_PAGE_SHIFT,
      dart_params2 = 0, dart_tlb_op = 0, dart_sid_mask_lo = 0, dart_sid_mask_hi = 0,
      dart_error_status = 0, dart_error_addr_lo = 0, dart_error_addr_hi = 0, dart_config = 0,
      dart_sid_remap = replicate 4 0, dart_tcr = replicate VF_DART_MAX_STREAMS 0,
      dart_ttbr_tab = replicate VF_DART_MAX_STREAMS (replicate VF_DART_TTBR_PER_SID 0),
      dart_tlb_gen = 0\<rparr>"

definition vf_dart_init :: "vf_dart_v1 \<Rightarrow> rc \<times> vf_dart_v1" where
  "vf_dart_init d = (OK, dart_reset_state d)"

definition vf_dart_tlb_generation :: "vf_dart_v1 \<Rightarrow> u32" where
  "vf_dart_tlb_generation d = dart_tlb_gen d"

definition vf_dart_irq_pending :: "vf_dart_v1 \<Rightarrow> bool" where
  "vf_dart_irq_pending d \<longleftrightarrow> dart_error_status d AND VF_DART_ERROR_FLAG \<noteq> 0"

definition vf_dart_simulate_fault :: "vf_dart_v1 \<Rightarrow> nat \<Rightarrow> u32 \<Rightarrow> rc \<times> vf_dart_v1" where
  "vf_dart_simulate_fault d sid code =
     (if sid \<ge> VF_DART_MAX_STREAMS then (ERR, d)
      else (OK, d\<lparr>dart_error_status :=
        VF_DART_ERROR_FLAG OR push_bit 24 (of_nat sid AND 0xf) OR (code AND 0xfff)\<rparr>))"

definition vf_dart_read :: "vf_dart_v1 \<Rightarrow> nat \<Rightarrow> nat \<Rightarrow> u32 option \<times> vf_dart_v1" where
  "vf_dart_read d off width =
     (if \<not> dart_bounds off width then (None, d)
      else if off = VF_DART_REG_PARAMS1 then (Some (dart_params1 d), d)
      else if off = VF_DART_REG_PARAMS2 then (Some (dart_params2 d), d)
      else if off = VF_DART_REG_TLB_OP then (Some (dart_tlb_op d AND NOT VF_DART_TLB_OP_BUSY), d)
      else if off = VF_DART_REG_SID_MASK_LO then (Some (dart_sid_mask_lo d), d)
      else if off = VF_DART_REG_SID_MASK_HI then (Some (dart_sid_mask_hi d), d)
      else if off = VF_DART_REG_ERROR_STATUS then (Some (dart_error_status d), d)
      else if off = VF_DART_REG_ERROR_ADDR_LO then (Some (dart_error_addr_lo d), d)
      else if off = VF_DART_REG_ERROR_ADDR_HI then (Some (dart_error_addr_hi d), d)
      else if off = VF_DART_REG_CONFIG then (Some (dart_config d), d)
      else if off \<ge> VF_DART_REG_SID_REMAP_BASE \<and> off < VF_DART_REG_SID_REMAP_BASE + 16 then
        (Some (dart_sid_remap d ! ((off - VF_DART_REG_SID_REMAP_BASE) div 4)), d)
      else case dart_sid off VF_DART_REG_TCR_BASE of
        Some sid \<Rightarrow> (Some (dart_tcr d ! sid), d)
      | None \<Rightarrow>
          (case dart_ttbr off of
             Some (sid, idx) \<Rightarrow> (Some (dart_ttbr_tab d ! sid ! idx), d)
           | None \<Rightarrow> (None, d)))"

definition dart_locked_out :: "vf_dart_v1 \<Rightarrow> nat \<Rightarrow> bool" where
  "dart_locked_out d off \<longleftrightarrow> dart_config d AND VF_DART_CONFIG_LOCK \<noteq> 0 \<and>
     \<not> (off = VF_DART_REG_ERROR_STATUS \<or> off = VF_DART_REG_ERROR_ADDR_LO
        \<or> off = VF_DART_REG_ERROR_ADDR_HI \<or> off = VF_DART_REG_TLB_OP)"

definition vf_dart_write :: "vf_dart_v1 \<Rightarrow> nat \<Rightarrow> nat \<Rightarrow> u32 \<Rightarrow> rc \<times> vf_dart_v1" where
  "vf_dart_write d off width v =
     (if \<not> dart_bounds off width then (ERR, d)
      else if dart_locked_out d off then (ERR, d)
      else if off = VF_DART_REG_PARAMS1 then (OK, d\<lparr>dart_params1 := v\<rparr>)
      else if off = VF_DART_REG_PARAMS2 then (OK, d\<lparr>dart_params2 := v\<rparr>)
      else if off = VF_DART_REG_TLB_OP then
        (if v AND VF_DART_TLB_OP_INVALIDATE \<noteq> 0
         then (OK, d\<lparr>dart_tlb_op := 0, dart_tlb_gen := dart_tlb_gen d + 1\<rparr>)
         else (OK, d\<lparr>dart_tlb_op := v AND NOT VF_DART_TLB_OP_BUSY\<rparr>))
      else if off = VF_DART_REG_SID_MASK_LO then (OK, d\<lparr>dart_sid_mask_lo := v\<rparr>)
      else if off = VF_DART_REG_SID_MASK_HI then (OK, d\<lparr>dart_sid_mask_hi := v\<rparr>)
      else if off = VF_DART_REG_ERROR_STATUS then
        (OK, d\<lparr>dart_error_status := dart_error_status d AND NOT v\<rparr>)
      else if off = VF_DART_REG_ERROR_ADDR_LO then (OK, d\<lparr>dart_error_addr_lo := v\<rparr>)
      else if off = VF_DART_REG_ERROR_ADDR_HI then (OK, d\<lparr>dart_error_addr_hi := v\<rparr>)
      else if off = VF_DART_REG_CONFIG then (OK, d\<lparr>dart_config := v\<rparr>)
      else if off \<ge> VF_DART_REG_SID_REMAP_BASE \<and> off < VF_DART_REG_SID_REMAP_BASE + 16 then
        (OK, d\<lparr>dart_sid_remap := (dart_sid_remap d)[(off - VF_DART_REG_SID_REMAP_BASE) div 4 := v]\<rparr>)
      else case dart_sid off VF_DART_REG_TCR_BASE of
        Some sid \<Rightarrow> (OK, d\<lparr>dart_tcr := (dart_tcr d)[sid := v]\<rparr>)
      | None \<Rightarrow>
          (case dart_ttbr off of
             Some (sid, idx) \<Rightarrow>
               (OK, d\<lparr>dart_ttbr_tab := (dart_ttbr_tab d)[sid := (dart_ttbr_tab d ! sid)[idx := v]]\<rparr>)
           | None \<Rightarrow> (ERR, d)))"

section \<open>Invariant\<close>

definition dart_inv :: "vf_dart_v1 \<Rightarrow> bool" where
  "dart_inv d \<longleftrightarrow> length (dart_sid_remap d) = 4 \<and> length (dart_tcr d) = 16
     \<and> length (dart_ttbr_tab d) = 16 \<and> (\<forall>row \<in> set (dart_ttbr_tab d). length row = 4)
     \<and> \<not> bit (dart_tlb_op d) 2"

lemma dart_inv_init: "dart_inv (snd (vf_dart_init d))"
  by (simp add: dart_inv_def vf_dart_init_def dart_reset_state_def)

lemma dart_inv_fault: "dart_inv d \<Longrightarrow> dart_inv (snd (vf_dart_simulate_fault d sid code))"
  by (simp add: dart_inv_def vf_dart_simulate_fault_def)

lemma dart_inv_ttbr:
  "dart_inv d \<Longrightarrow> sid < 16 \<Longrightarrow> dart_inv (d\<lparr>dart_ttbr_tab := (dart_ttbr_tab d)[sid := (dart_ttbr_tab d ! sid)[idx := v]]\<rparr>)"
  by (auto simp: dart_inv_def dest!: set_update_subset_insert [THEN subsetD])

lemma dart_ttbr_range: "dart_ttbr off = Some (sid, idx) \<Longrightarrow> sid < 16 \<and> idx < 4"
  by (auto simp: dart_ttbr_def Let_def split: if_splits)

lemma dart_inv_write: "dart_inv d \<Longrightarrow> dart_inv (snd (vf_dart_write d off w v))"
proof -
  assume d: "dart_inv d"
  then have "dart_ttbr off = Some (sid, idx) \<Longrightarrow>
      dart_inv (d\<lparr>dart_ttbr_tab := (dart_ttbr_tab d)[sid := (dart_ttbr_tab d ! sid)[idx := v]]\<rparr>)" for sid idx
    using dart_ttbr_range dart_inv_ttbr by blast
  moreover have "dart_inv (d\<lparr>dart_params1 := v\<rparr>)" "dart_inv (d\<lparr>dart_params2 := v\<rparr>)"
    "dart_inv (d\<lparr>dart_tlb_op := 0, dart_tlb_gen := dart_tlb_gen d + 1\<rparr>)"
    "dart_inv (d\<lparr>dart_tlb_op := v AND NOT (push_bit 2 1)\<rparr>)"
    "dart_inv (d\<lparr>dart_sid_mask_lo := v\<rparr>)" "dart_inv (d\<lparr>dart_sid_mask_hi := v\<rparr>)"
    "dart_inv (d\<lparr>dart_error_status := dart_error_status d AND NOT v\<rparr>)"
    "dart_inv (d\<lparr>dart_error_addr_lo := v\<rparr>)" "dart_inv (d\<lparr>dart_error_addr_hi := v\<rparr>)"
    "dart_inv (d\<lparr>dart_config := v\<rparr>)" "\<And>i. dart_inv (d\<lparr>dart_sid_remap := (dart_sid_remap d)[i := v]\<rparr>)"
    "\<And>i. dart_inv (d\<lparr>dart_tcr := (dart_tcr d)[i := v]\<rparr>)"
    using d by (simp_all add: dart_inv_def bit_simps)
  ultimately show ?thesis
    using d by (simp add: vf_dart_write_def split: option.split)
qed

lemma dart_read_state: "snd (vf_dart_read d off w) = d"
  by (simp add: vf_dart_read_def split: option.split)

interpretation dart: mmio_fail_closed vf_dart_read vf_dart_write dart_inv
proof unfold_locales
  show "rd_keeps s (vf_dart_read s off w)" for s off w
    by (simp add: rd_keeps_def dart_read_state)
  show "wr_keeps s (vf_dart_write s off w v)" for s off w v
    by (simp add: vf_dart_write_def split: option.split)
qed (simp_all add: dart_inv_write dart_read_state)

section \<open>The lock\<close>

text \<open>What the lock protects: everything that determines a translation, and the lock itself.\<close>

definition dart_protected :: "vf_dart_v1 \<Rightarrow> u32 list \<times> u32 list \<times> u32 list \<times> u32 list list" where
  "dart_protected d =
     ([dart_params1 d, dart_params2 d, dart_sid_mask_lo d, dart_sid_mask_hi d, dart_config d],
      dart_sid_remap d, dart_tcr d, dart_ttbr_tab d)"

definition dart_locked :: "vf_dart_v1 \<Rightarrow> bool" where
  "dart_locked d \<longleftrightarrow> bit (dart_config d) 15"

lemma dart_locked_write:
  assumes "dart_locked d"
  shows "dart_protected (snd (vf_dart_write d off w v)) = dart_protected d"
proof -
  have l: "dart_config d AND push_bit 15 1 \<noteq> 0"
    using assms and_flag_eq_0 [of _ 15 "dart_config d"] by (simp add: dart_locked_def)
  show ?thesis
  proof (cases "dart_locked_out d off")
    case True
    then show ?thesis by (simp add: vf_dart_write_def)
  next
    case False
    with l have "off = 0x40 \<or> off = 0x50 \<or> off = 0x54 \<or> off = 0x20"
      by (auto simp: dart_locked_out_def)
    then show ?thesis by (auto simp: vf_dart_write_def dart_protected_def)
  qed
qed

lemma dart_locked_protected: "dart_protected d = dart_protected e \<Longrightarrow> dart_locked d = dart_locked e"
  by (simp add: dart_protected_def dart_locked_def)

interpretation dart_lock: mmio_invariant vf_dart_read vf_dart_write
  "\<lambda>d. dart_locked d \<and> dart_protected d = V" for V
  by unfold_locales (auto simp: dart_read_state dart_locked_write dest: dart_locked_protected [OF dart_locked_write])

section \<open>Table slots\<close>

datatype dart_slot = TCR nat | TTBR nat nat

fun dart_slot_ok :: "dart_slot \<Rightarrow> bool" where
  "dart_slot_ok (TCR sid) \<longleftrightarrow> sid < VF_DART_MAX_STREAMS"
| "dart_slot_ok (TTBR sid idx) \<longleftrightarrow> sid < VF_DART_MAX_STREAMS \<and> idx < VF_DART_TTBR_PER_SID"

fun dart_slot_off :: "dart_slot \<Rightarrow> nat" where
  "dart_slot_off (TCR sid) = VF_DART_REG_TCR sid"
| "dart_slot_off (TTBR sid idx) = VF_DART_REG_TTBR sid idx"

fun dart_slot_val :: "vf_dart_v1 \<Rightarrow> dart_slot \<Rightarrow> u32" where
  "dart_slot_val d (TCR sid) = dart_tcr d ! sid"
| "dart_slot_val d (TTBR sid idx) = dart_ttbr_tab d ! sid ! idx"

lemma dart_sid_tcr: "sid < 16 \<Longrightarrow> dart_sid (0x100 + 4 * sid) 0x100 = Some sid"
  by (simp add: dart_sid_def)

lemma dart_ttbr_slot:
  assumes "sid < 16" "idx < 4"
  shows "dart_ttbr (0x200 + 16 * sid + 4 * idx) = Some (sid, idx)"
    and "dart_sid (0x200 + 16 * sid + 4 * idx) 0x100 = None"
proof -
  have e: "0x200 + 16 * sid + 4 * idx - 0x200 = (sid * 4 + idx) * 4" by simp
  have "(sid * 4 + idx) div 4 = sid" "(sid * 4 + idx) mod 4 = idx" "sid * 4 + idx < 64"
    using assms by simp_all
  then show "dart_ttbr (0x200 + 16 * sid + 4 * idx) = Some (sid, idx)"
    unfolding dart_ttbr_def e by (simp add: Let_def)
  show "dart_sid (0x200 + 16 * sid + 4 * idx) 0x100 = None"
    by (simp add: dart_sid_def Let_def)
qed

lemma dart_read_slot: "dart_slot_ok s \<Longrightarrow> fst (vf_dart_read d (dart_slot_off s) 4) = Some (dart_slot_val d s)"
proof (cases s)
  case (TCR sid)
  moreover assume "dart_slot_ok s"
  ultimately show ?thesis by (simp add: vf_dart_read_def dart_bounds_def dart_sid_tcr)
next
  case (TTBR sid idx)
  moreover assume "dart_slot_ok s"
  moreover have "(0x200 + 16 * sid + 4 * idx) mod 4 = (0::nat)" by presburger
  ultimately show ?thesis by (simp add: vf_dart_read_def dart_bounds_def dart_ttbr_slot)
qed

lemma dart_write_slot:
  assumes "dart_slot_ok s" "\<not> dart_locked d" "dart_inv d"
  shows "\<exists>d'. vf_dart_write d (dart_slot_off s) 4 v = (OK, d') \<and>
    (\<forall>t. dart_slot_ok t \<longrightarrow> dart_slot_val d' t = (if t = s then v else dart_slot_val d t))"
proof -
  have l: "\<not> dart_locked_out d off" for off
    using assms(2) by (simp add: dart_locked_out_def dart_locked_def and_flag_eq_0 [of _ 15])
  have row: "sid < 16 \<Longrightarrow> length (dart_ttbr_tab d ! sid) = 4" for sid
    using assms(3) by (simp add: dart_inv_def)
  show ?thesis
  proof (cases s)
    case (TCR sid)
    let ?d = "d\<lparr>dart_tcr := (dart_tcr d)[sid := v]\<rparr>"
    have "vf_dart_write d (dart_slot_off s) 4 v = (OK, ?d)"
      using TCR assms(1) l by (simp add: vf_dart_write_def dart_bounds_def dart_sid_tcr)
    moreover have "dart_slot_val ?d t = (if t = s then v else dart_slot_val d t)" if "dart_slot_ok t" for t
      using TCR assms that by (cases t) (auto simp: dart_inv_def nth_list_update)
    ultimately show ?thesis by blast
  next
    case (TTBR sid idx)
    let ?d = "d\<lparr>dart_ttbr_tab := (dart_ttbr_tab d)[sid := (dart_ttbr_tab d ! sid)[idx := v]]\<rparr>"
    have "(0x200 + 16 * sid + 4 * idx) mod 4 = (0::nat)" by presburger
    then have "vf_dart_write d (dart_slot_off s) 4 v = (OK, ?d)"
      using TTBR assms(1) l by (simp add: vf_dart_write_def dart_bounds_def dart_ttbr_slot)
    moreover have "dart_slot_val ?d t = (if t = s then v else dart_slot_val d t)" if "dart_slot_ok t" for t
      using TTBR assms that row [of sid] by (cases t) (auto simp: dart_inv_def nth_list_update)
    ultimately show ?thesis by blast
  qed
qed

section \<open>Properties\<close>

text \<open>Once the configuration lock is set, no sequence of guest reads and writes changes the
  parameters, the stream masks and remap, the TCR and TTBR tables or the configuration register,
  so the lock itself is permanent.\<close>

theorem dart_lock_permanent:
  assumes "dart_locked d"
  shows "dart_protected (mmio_run vf_dart_read vf_dart_write d accs) = dart_protected d
    \<and> dart_locked (mmio_run vf_dart_read vf_dart_write d accs)"
  using dart_lock.run_inv [of d "dart_protected d" accs] assms by simp

definition dart_demo :: vf_dart_v1 where
  "dart_demo = snd (vf_dart_write (dart_reset_state undefined) 0x60 4 0x8000)"

theorem dart_lock_permanent_witness:
  "dart_locked dart_demo \<and>
   dart_protected (mmio_run vf_dart_read vf_dart_write dart_demo [Wr 0x100 4 0x80, Wr 0x60 4 0]) =
   dart_protected dart_demo"
proof -
  have "dart_locked dart_demo"
    using bit_two_power [where ?'a = 32, of 15 15]
    by (simp add: dart_demo_def vf_dart_write_def dart_reset_state_def dart_bounds_def
        dart_locked_out_def dart_locked_def del: bit_two_power)
  then show ?thesis using dart_lock_permanent by blast
qed

text \<open>While the lock is clear, writing any TCR or TTBR slot succeeds, the slot then reads
  back the value written, and every other slot reads as before.\<close>

theorem dart_slot_write_read:
  assumes "dart_inv d" "\<not> dart_locked d" "dart_slot_ok s" "dart_slot_ok t"
  shows "fst (vf_dart_write d (dart_slot_off s) 4 v) = OK
    \<and> fst (vf_dart_read (snd (vf_dart_write d (dart_slot_off s) 4 v)) (dart_slot_off t) 4) =
        (if t = s then Some v else fst (vf_dart_read d (dart_slot_off t) 4))"
  using dart_write_slot [OF assms(3,2,1), of v] assms(4) by (auto simp: dart_read_slot)

theorem dart_slot_write_read_witness:
  "fst (vf_dart_read (snd (vf_dart_write (dart_reset_state undefined) 0x23c 4 0x80001000)) 0x23c 4)
     = Some 0x80001000"
  using dart_slot_write_read [of "dart_reset_state undefined" "TTBR 3 3" "TTBR 3 3" "0x80001000"]
    dart_inv_init [of undefined]
  by (simp add: vf_dart_init_def dart_locked_def dart_reset_state_def)

end
