(* ===== verification/Timer.thy ===== *)
theory Timer
  imports Prelude
begin

text \<open>
  The graph-local timer window, \<open>src/devices/timer_v1.c\<close>. \<open>memset\<close> (library or the local EFI
  fallback) is the all-zero record. Access widths are in bits, as in the code.

  Shown: any sequence of advances is one saturating addition; the interrupt condition is the
  documented comparison and, once raised, time alone never withdraws it.
\<close>

section \<open>Model\<close>

abbreviation (input) VF_TIMER_FREQUENCY_HZ :: u64 where "VF_TIMER_FREQUENCY_HZ \<equiv> 24000000"
abbreviation (input) VF_TIMER_MMIO_COUNTER :: nat where "VF_TIMER_MMIO_COUNTER \<equiv> 0x000"
abbreviation (input) VF_TIMER_MMIO_COMPARE :: nat where "VF_TIMER_MMIO_COMPARE \<equiv> 0x008"
abbreviation (input) VF_TIMER_MMIO_CTL :: nat where "VF_TIMER_MMIO_CTL \<equiv> 0x010"
abbreviation (input) VF_TIMER_MMIO_FREQUENCY :: nat where "VF_TIMER_MMIO_FREQUENCY \<equiv> 0x018"
abbreviation (input) VF_M1_TIMER_CTL_ENABLE :: u32 where "VF_M1_TIMER_CTL_ENABLE \<equiv> 1"
abbreviation (input) VF_M1_TIMER_CTL_MASKED :: u32 where "VF_M1_TIMER_CTL_MASKED \<equiv> 2"
abbreviation (input) VF_M1_TIMER_CTL_WRITABLE_MASK :: u32 where
  "VF_M1_TIMER_CTL_WRITABLE_MASK \<equiv> 3"

record vf_timer_v1 =
  tm_frequency :: u64
  tm_counter :: u64
  tm_compare :: u64
  tm_ctl :: u32

definition vf_timer_init :: "vf_timer_v1 \<Rightarrow> rc \<times> vf_timer_v1" where
  "vf_timer_init t =
     (OK, \<lparr>tm_frequency = VF_TIMER_FREQUENCY_HZ, tm_counter = 0, tm_compare = 0, tm_ctl = 0\<rparr>)"

definition vf_timer_advance :: "vf_timer_v1 \<Rightarrow> u64 \<Rightarrow> rc \<times> vf_timer_v1" where
  "vf_timer_advance t ticks =
     (if tm_counter t > - 1 - ticks then (OK, t\<lparr>tm_counter := - 1\<rparr>)
      else (OK, t\<lparr>tm_counter := tm_counter t + ticks\<rparr>))"

definition vf_timer_irq_pending :: "vf_timer_v1 \<Rightarrow> bool" where
  "vf_timer_irq_pending t =
     (if tm_ctl t AND VF_M1_TIMER_CTL_ENABLE = 0 then False
      else if tm_ctl t AND VF_M1_TIMER_CTL_MASKED \<noteq> 0 then False
      else tm_counter t \<ge> tm_compare t)"

definition vf_timer_read :: "vf_timer_v1 \<Rightarrow> nat \<Rightarrow> nat \<Rightarrow> u64 option \<times> vf_timer_v1" where
  "vf_timer_read t off width_bits =
     (if off = VF_TIMER_MMIO_COUNTER then
        (if width_bits \<noteq> 64 then (None, t) else (Some (tm_counter t), t))
      else if off = VF_TIMER_MMIO_COMPARE then
        (if width_bits \<noteq> 64 then (None, t) else (Some (tm_compare t), t))
      else if off = VF_TIMER_MMIO_CTL then
        (if width_bits \<noteq> 32 then (None, t)
         else (Some (ucast (tm_ctl t AND VF_M1_TIMER_CTL_WRITABLE_MASK)), t))
      else if off = VF_TIMER_MMIO_FREQUENCY then
        (if width_bits \<noteq> 64 then (None, t) else (Some (tm_frequency t), t))
      else (None, t))"

definition vf_timer_write :: "vf_timer_v1 \<Rightarrow> nat \<Rightarrow> nat \<Rightarrow> u64 \<Rightarrow> rc \<times> vf_timer_v1" where
  "vf_timer_write t off width_bits v =
     (if off = VF_TIMER_MMIO_COMPARE then
        (if width_bits \<noteq> 64 then (ERR, t) else (OK, t\<lparr>tm_compare := v\<rparr>))
      else if off = VF_TIMER_MMIO_CTL then
        (if width_bits \<noteq> 32 then (ERR, t)
         else if v AND NOT (ucast VF_M1_TIMER_CTL_WRITABLE_MASK) \<noteq> 0 then (ERR, t)
         else (OK, t\<lparr>tm_ctl := ucast v AND VF_M1_TIMER_CTL_WRITABLE_MASK\<rparr>))
      else (ERR, t))"

section \<open>Invariant\<close>

definition timer_inv :: "vf_timer_v1 \<Rightarrow> bool" where
  "timer_inv t \<longleftrightarrow> tm_frequency t = VF_TIMER_FREQUENCY_HZ \<and> tm_ctl t AND NOT VF_M1_TIMER_CTL_WRITABLE_MASK = 0"

interpretation tm: mmio_fail_closed vf_timer_read vf_timer_write timer_inv
  by unfold_locales (simp_all add: vf_timer_read_def vf_timer_write_def timer_inv_def and.assoc)

section \<open>Time\<close>

lemma unat_advance:
  "unat (tm_counter (snd (vf_timer_advance t ticks))) = min (unat (tm_counter t) + unat ticks) (2 ^ 64 - 1)"
proof -
  have le: "ticks \<le> - 1" by simp
  then have "unat (- 1 - ticks) = 2 ^ 64 - 1 - unat ticks"
    by (subst unat_sub) (simp_all add: unat_max_word)
  moreover have "unat ticks < 2 ^ 64" "unat (tm_counter t) < 2 ^ 64"
    using unsigned_less [of ticks] unsigned_less [of "tm_counter t"] by simp_all
  ultimately show ?thesis
    by (auto simp: vf_timer_advance_def word_less_nat_alt unat_word_ariths min_def unat_max_word)
qed

lemma advance_frame:
  "tm_ctl (snd (vf_timer_advance t n)) = tm_ctl t"
  "tm_compare (snd (vf_timer_advance t n)) = tm_compare t"
  by (simp_all add: vf_timer_advance_def)

definition timer_advances :: "vf_timer_v1 \<Rightarrow> u64 list \<Rightarrow> vf_timer_v1" where
  "timer_advances t ns = foldl (\<lambda>t n. snd (vf_timer_advance t n)) t ns"

lemma timer_advances_simps [simp]:
  "timer_advances t [] = t"
  "timer_advances t (n # ns) = timer_advances (snd (vf_timer_advance t n)) ns"
  by (simp_all add: timer_advances_def)

lemma advances_frame:
  "tm_ctl (timer_advances t ns) = tm_ctl t" "tm_compare (timer_advances t ns) = tm_compare t"
  by (induction ns arbitrary: t) (simp_all add: advance_frame)

lemma unat_advances:
  "unat (tm_counter (timer_advances t ns)) =
     min (unat (tm_counter t) + sum_list (map unat ns)) (2 ^ 64 - 1)"
proof (induction ns arbitrary: t)
  case Nil
  have "unat (tm_counter t) < 2 ^ 64" using unsigned_less [of "tm_counter t"] by simp
  then show ?case by simp
next
  case (Cons n ns)
  then show ?case by (simp add: unat_advance min_def)
qed

section \<open>Properties\<close>

text \<open>After any sequence of advances the counter is the saturating sum of all ticks (no
  wrap-around at \<open>2 ^ 64\<close>), the interrupt is pending exactly when it is enabled, unmasked and
  that sum has reached the compare value, and a pending interrupt stays pending.\<close>

theorem timer_advance_pending:
  "unat (tm_counter (timer_advances t ns)) =
     min (unat (tm_counter t) + sum_list (map unat ns)) (2 ^ 64 - 1)
   \<and> (vf_timer_irq_pending (timer_advances t ns) \<longleftrightarrow>
       bit (tm_ctl t) 0 \<and> \<not> bit (tm_ctl t) 1 \<and>
       unat (tm_compare t) \<le> min (unat (tm_counter t) + sum_list (map unat ns)) (2 ^ 64 - 1))
   \<and> (\<not> vf_timer_irq_pending t \<or> vf_timer_irq_pending (timer_advances t ns))"
proof -
  have b: "tm_ctl t AND 1 = 0 \<longleftrightarrow> \<not> bit (tm_ctl t) 0" "tm_ctl t AND 2 = 0 \<longleftrightarrow> \<not> bit (tm_ctl t) 1"
    using and_exp_eq_0_iff_not_bit [of "tm_ctl t" 0] and_exp_eq_0_iff_not_bit [of "tm_ctl t" 1] by simp_all
  have p: "vf_timer_irq_pending (timer_advances t ns) \<longleftrightarrow>
       bit (tm_ctl t) 0 \<and> \<not> bit (tm_ctl t) 1 \<and>
       unat (tm_compare t) \<le> min (unat (tm_counter t) + sum_list (map unat ns)) (2 ^ 64 - 1)" for ns
    by (auto simp: vf_timer_irq_pending_def advances_frame b word_le_nat_alt unat_advances)
  show ?thesis
    using p [of ns] p [of "[]"] unat_advances [of t ns] by auto
qed

definition timer_demo :: vf_timer_v1 where
  "timer_demo = \<lparr>tm_frequency = 24000000, tm_counter = 5, tm_compare = 8, tm_ctl = 1\<rparr>"

theorem timer_advance_pending_witness: "vf_timer_irq_pending (timer_advances timer_demo [1, 2])"
  using timer_advance_pending [of timer_demo "[1, 2]"] by (simp add: timer_demo_def)

end
