(* ===== verification/Storage.thy ===== *)
theory Storage
  imports Prelude
begin

text \<open>
  The graph-local storage window, \<open>src/devices/storage_v1.c\<close>: attach, detach and a read-only
  register window.

  Shown: attach accepts exactly the non-zero block counts whose byte size fits in 64 bits, and
  over any history of attaches and detaches the generation is the saturating count of successful
  attaches, so a guest that sees an unchanged generation below the maximum has missed no attach.
\<close>

section \<open>Model\<close>

abbreviation (input) VF_STORAGE_BLOCK_BYTES :: u64 where "VF_STORAGE_BLOCK_BYTES \<equiv> 4096"
abbreviation (input) VF_STORAGE_MMIO_STATUS :: nat where "VF_STORAGE_MMIO_STATUS \<equiv> 0x000"
abbreviation (input) VF_STORAGE_MMIO_BLOCK_COUNT :: nat where "VF_STORAGE_MMIO_BLOCK_COUNT \<equiv> 0x008"
abbreviation (input) VF_STORAGE_MMIO_GENERATION :: nat where "VF_STORAGE_MMIO_GENERATION \<equiv> 0x010"
abbreviation (input) VF_STORAGE_STATUS_ATTACHED :: u64 where "VF_STORAGE_STATUS_ATTACHED \<equiv> 1"
abbreviation (input) VF_STORAGE_STATUS_READ_ONLY :: u64 where "VF_STORAGE_STATUS_READ_ONLY \<equiv> 2"

record vf_storage_v1 =
  st_attached :: bool
  st_read_only :: bool
  st_block_count :: u64
  st_generation :: u32

definition vf_storage_init :: "vf_storage_v1 \<Rightarrow> rc \<times> vf_storage_v1" where
  "vf_storage_init s =
     (OK, \<lparr>st_attached = False, st_read_only = False, st_block_count = 0, st_generation = 0\<rparr>)"

definition vf_storage_attach :: "vf_storage_v1 \<Rightarrow> u64 \<Rightarrow> bool \<Rightarrow> rc \<times> vf_storage_v1" where
  "vf_storage_attach s block_count read_only =
     (if block_count = 0 then (ERR, s)
      else let bytes = block_count * VF_STORAGE_BLOCK_BYTES in
        if bytes div VF_STORAGE_BLOCK_BYTES \<noteq> block_count then (ERR, s)
        else
          let s1 = s\<lparr>st_attached := True, st_read_only := read_only, st_block_count := block_count\<rparr> in
          if st_generation s1 < - 1 then (OK, s1\<lparr>st_generation := st_generation s1 + 1\<rparr>)
          else (OK, s1))"

definition vf_storage_detach :: "vf_storage_v1 \<Rightarrow> rc \<times> vf_storage_v1" where
  "vf_storage_detach s =
     (OK, s\<lparr>st_attached := False, st_read_only := False, st_block_count := 0\<rparr>)"

definition vf_storage_irq_pending :: "vf_storage_v1 \<Rightarrow> bool" where
  "vf_storage_irq_pending s = st_attached s"

definition vf_storage_read :: "vf_storage_v1 \<Rightarrow> nat \<Rightarrow> nat \<Rightarrow> u64 option \<times> vf_storage_v1" where
  "vf_storage_read s off width_bits =
     (if width_bits \<noteq> 64 then (None, s)
      else if off = VF_STORAGE_MMIO_STATUS then
        (Some ((if st_attached s then VF_STORAGE_STATUS_ATTACHED else 0) OR
               (if st_read_only s then VF_STORAGE_STATUS_READ_ONLY else 0)), s)
      else if off = VF_STORAGE_MMIO_BLOCK_COUNT then (Some (st_block_count s), s)
      else if off = VF_STORAGE_MMIO_GENERATION then (Some (ucast (st_generation s)), s)
      else (None, s))"

definition vf_storage_write :: "vf_storage_v1 \<Rightarrow> nat \<Rightarrow> nat \<Rightarrow> u64 \<Rightarrow> rc \<times> vf_storage_v1" where
  "vf_storage_write s off width_bits v = (ERR, s)"

section \<open>Invariant\<close>

definition storage_inv :: "vf_storage_v1 \<Rightarrow> bool" where
  "storage_inv s \<longleftrightarrow>
     (if st_attached s then 0 < st_block_count s \<and> unat (st_block_count s) < 2 ^ 52
      else st_block_count s = 0 \<and> \<not> st_read_only s)"

interpretation st: mmio_fail_closed vf_storage_read vf_storage_write storage_inv
  by unfold_locales (simp_all add: vf_storage_read_def vf_storage_write_def)

section \<open>Attach history\<close>

lemma block_bytes_fit: "n * 4096 div 4096 = n \<longleftrightarrow> unat (n :: u64) < 2 ^ 52"
proof
  assume "unat n < 2 ^ 52"
  then have "unat (n * 4096) = unat n * 4096"
    by (simp add: unat_word_ariths)
  then have "unat (n * 4096 div 4096) = unat n"
    by (simp add: unat_div)
  then show "n * 4096 div 4096 = n" by (simp only: word_unat_eq_iff)
next
  assume "n * 4096 div 4096 = n"
  then have "unat n = unat (n * 4096) div 4096"
    using unat_div [of "n * 4096" 4096] by simp
  then show "unat n < 2 ^ 52"
    using unat_lt2p [of "n * 4096"] by simp
qed

lemma storage_attach_cases:
  "vf_storage_attach s n ro =
     (if n \<noteq> 0 \<and> unat n < 2 ^ 52
      then (OK, s\<lparr>st_attached := True, st_read_only := ro, st_block_count := n,
                  st_generation := if st_generation s = - 1 then - 1 else st_generation s + 1\<rparr>)
      else (ERR, s))"
  by (simp add: vf_storage_attach_def Let_def block_bytes_fit word_order.not_eq_extremum)

datatype storage_op = Attach u64 bool | Detach

fun storage_apply :: "vf_storage_v1 \<Rightarrow> storage_op \<Rightarrow> vf_storage_v1" where
  "storage_apply s (Attach n ro) = snd (vf_storage_attach s n ro)"
| "storage_apply s Detach = snd (vf_storage_detach s)"

fun storage_accepts :: "storage_op \<Rightarrow> bool" where
  "storage_accepts (Attach n ro) \<longleftrightarrow> 0 < unat n \<and> unat n < 2 ^ 52"
| "storage_accepts Detach \<longleftrightarrow> False"

lemma unat_sat_succ:
  "unat (if g = - 1 then - 1 else g + 1 :: u32) = min (unat g + 1) (2 ^ 32 - 1)"
proof (cases "g = - 1")
  case False
  then have "unat g \<noteq> 2 ^ 32 - 1"
    using unat_max_word [where ?'a = 32] by (auto simp: word_unat_eq_iff)
  then show ?thesis
    using unat_lt2p [of g] False by (simp add: unat_word_ariths)
qed (simp add: unat_max_word)

lemma storage_apply_inv: "storage_inv s \<Longrightarrow> storage_inv (storage_apply s op)"
  by (cases op) (auto simp: storage_attach_cases vf_storage_detach_def storage_inv_def word_neq_0_conv)

lemma storage_apply_generation:
  "unat (st_generation (storage_apply s op)) =
     min (unat (st_generation s) + (if storage_accepts op then 1 else 0)) (2 ^ 32 - 1)"
  using unat_lt2p [of "st_generation s"] unat_sat_succ [of "st_generation s"]
  by (cases op) (auto simp: storage_attach_cases vf_storage_detach_def unat_gt_0)

section \<open>Properties\<close>

text \<open>From any state and through any history of attaches and detaches, the generation is the
  starting one plus the number of accepted attaches, saturating at \<open>2 ^ 32 - 1\<close>; an attach is
  accepted exactly when the count is non-zero and its size in bytes fits 64 bits.\<close>

theorem storage_generation_counts_attaches:
  "unat (st_generation (foldl storage_apply s ops)) =
     min (unat (st_generation s) + length (filter storage_accepts ops)) (2 ^ 32 - 1)
   \<and> (fst (vf_storage_attach s n ro) = OK \<longleftrightarrow> 0 < unat n \<and> unat n * 4096 < 2 ^ 64)"
proof
  show "unat (st_generation (foldl storage_apply s ops)) =
     min (unat (st_generation s) + length (filter storage_accepts ops)) (2 ^ 32 - 1)"
  proof (induction ops arbitrary: s)
    case Nil
    then show ?case using unat_lt2p [of "st_generation s"] by simp
  next
    case (Cons op ops)
    then show ?case using storage_apply_generation [of s op] by (auto simp: min_def)
  qed
  show "fst (vf_storage_attach s n ro) = OK \<longleftrightarrow> 0 < unat n \<and> unat n * 4096 < 2 ^ 64"
    by (simp add: storage_attach_cases unat_gt_0)
qed

end
