(* ===== verification/Uart.thy ===== *)
theory Uart
  imports Prelude
begin

text \<open>
  The serial port, \<open>src/devices/apple_uart_v1.c\<close>. The transmit callback \<open>tx(tx_ctx, byte)\<close> is
  caller code: the record notes whether one is bound and the bytes it has been passed so far.
  The receive FIFO is the C array of 16 bytes with its count, and the shift loop of a pop is the
  recursion \<open>uart_shift\<close>.

  Shown: in FIFO mode the device refines a bounded queue of capacity 16 (contract
  \<open>byte_queue\<close>), the receiver-ready status bit is the emptiness test of that queue in every
  reachable state, and bytes written to UTXH reach the callback in order.
\<close>

section \<open>Model\<close>

abbreviation (input) VF_APPLE_UART_MMIO_SIZE :: nat where "VF_APPLE_UART_MMIO_SIZE \<equiv> 0x3c"
abbreviation (input) VF_UART_UFCON :: nat where "VF_UART_UFCON \<equiv> 0x0008"
abbreviation (input) VF_UART_UTRSTAT :: nat where "VF_UART_UTRSTAT \<equiv> 0x0010"
abbreviation (input) VF_UART_UERSTAT :: nat where "VF_UART_UERSTAT \<equiv> 0x0014"
abbreviation (input) VF_UART_UFSTAT :: nat where "VF_UART_UFSTAT \<equiv> 0x0018"
abbreviation (input) VF_UART_UMSTAT :: nat where "VF_UART_UMSTAT \<equiv> 0x001c"
abbreviation (input) VF_UART_UTXH :: nat where "VF_UART_UTXH \<equiv> 0x0020"
abbreviation (input) VF_UART_URXH :: nat where "VF_UART_URXH \<equiv> 0x0024"
abbreviation (input) VF_UART_UTRSTAT_TX_EMPTY :: u32 where "VF_UART_UTRSTAT_TX_EMPTY \<equiv> push_bit 2 1"
abbreviation (input) VF_UART_UTRSTAT_TX_BUFFER_EMPTY :: u32 where
  "VF_UART_UTRSTAT_TX_BUFFER_EMPTY \<equiv> push_bit 1 1"
abbreviation (input) VF_UART_UTRSTAT_RX_READY :: u32 where "VF_UART_UTRSTAT_RX_READY \<equiv> push_bit 0 1"
abbreviation (input) VF_UART_UTRSTAT_RESET :: u32 where
  "VF_UART_UTRSTAT_RESET \<equiv> VF_UART_UTRSTAT_TX_EMPTY OR VF_UART_UTRSTAT_TX_BUFFER_EMPTY"
abbreviation (input) VF_UART_UFCON_FIFO_ENABLE :: u32 where "VF_UART_UFCON_FIFO_ENABLE \<equiv> push_bit 0 1"
abbreviation (input) VF_UART_UFCON_RX_RESET :: u32 where "VF_UART_UFCON_RX_RESET \<equiv> push_bit 1 1"

record vf_apple_uart_v1 =
  uart_reg :: "u32 list"
  rx_fifo :: "u8 list"
  rx_count :: nat
  uart_tx :: bool
  uart_sent :: "u8 list"
  uart_irq :: bool

definition uart_bounds :: "nat \<Rightarrow> nat \<Rightarrow> bool" where
  "uart_bounds off width \<longleftrightarrow> width = 4 \<and> off mod 4 = 0 \<and> off < VF_APPLE_UART_MMIO_SIZE"

definition uart_idx :: "nat \<Rightarrow> nat" where
  "uart_idx off = off div 4"

definition uart_update_status :: "vf_apple_uart_v1 \<Rightarrow> vf_apple_uart_v1" where
  "uart_update_status u =
     (let st = uart_idx VF_UART_UTRSTAT in
      if rx_count u \<noteq> 0
      then u\<lparr>uart_reg := (uart_reg u)[st := uart_reg u ! st OR VF_UART_UTRSTAT_RX_READY]\<rparr>
      else u\<lparr>uart_reg := (uart_reg u)[st := uart_reg u ! st AND NOT VF_UART_UTRSTAT_RX_READY]\<rparr>)"

definition vf_apple_uart_init :: "vf_apple_uart_v1 \<Rightarrow> bool \<Rightarrow> rc \<times> vf_apple_uart_v1" where
  "vf_apple_uart_init u tx =
     (OK, u\<lparr>uart_reg := (replicate (VF_APPLE_UART_MMIO_SIZE div 4) 0)
              [uart_idx VF_UART_UTRSTAT := VF_UART_UTRSTAT_RESET],
            rx_count := 0, uart_tx := tx, uart_sent := [], uart_irq := False\<rparr>)"

definition vf_apple_uart_push_rx :: "vf_apple_uart_v1 \<Rightarrow> u8 \<Rightarrow> rc \<times> vf_apple_uart_v1" where
  "vf_apple_uart_push_rx u byte =
     (if rx_count u \<ge> length (rx_fifo u) then (ERR, u)
      else (OK, (uart_update_status
        (u\<lparr>rx_fifo := (rx_fifo u)[rx_count u := byte], rx_count := rx_count u + 1\<rparr>))\<lparr>uart_irq := True\<rparr>))"

definition vf_apple_uart_irq_pending :: "vf_apple_uart_v1 \<Rightarrow> bool" where
  "vf_apple_uart_irq_pending u = uart_irq u"

text \<open>\<open>for (i = 1; i < rx_count; i++) rx_fifo[i - 1] = rx_fifo[i]\<close>, from index \<open>i\<close> on.\<close>

function uart_shift :: "u8 list \<Rightarrow> nat \<Rightarrow> nat \<Rightarrow> u8 list" where
  "uart_shift fifo i n =
     (if i < n then uart_shift (fifo[i - 1 := fifo ! i]) (i + 1) n else fifo)"
  by pat_completeness auto
termination by (relation "measure (\<lambda>(fifo, i, n). n - i)") auto

declare uart_shift.simps [simp del]

definition vf_apple_uart_read :: "vf_apple_uart_v1 \<Rightarrow> nat \<Rightarrow> nat \<Rightarrow> u32 option \<times> vf_apple_uart_v1" where
  "vf_apple_uart_read u off width =
     (if \<not> uart_bounds off width then (None, u)
      else if off = VF_UART_UERSTAT then
        (Some (uart_reg u ! uart_idx off), u\<lparr>uart_reg := (uart_reg u)[uart_idx off := 0]\<rparr>)
      else if off = VF_UART_UFSTAT then
        (Some (if rx_count u \<ge> length (rx_fifo u)
               then (of_nat (rx_count u) AND 0xf) OR push_bit 8 1
               else of_nat (rx_count u) AND 0xf), u)
      else if off = VF_UART_URXH then
        (if uart_reg u ! uart_idx VF_UART_UFCON AND VF_UART_UFCON_FIFO_ENABLE \<noteq> 0 then
           (if rx_count u = 0 then (Some 0, u)
            else (Some (ucast (rx_fifo u ! 0)),
                  uart_update_status (u\<lparr>rx_fifo := uart_shift (rx_fifo u) 1 (rx_count u),
                                        rx_count := rx_count u - 1\<rparr>)))
         else (Some (uart_reg u ! uart_idx VF_UART_URXH), uart_update_status u))
      else if off = VF_UART_UTXH then (None, u)
      else (Some (uart_reg u ! uart_idx off), u))"

definition vf_apple_uart_write :: "vf_apple_uart_v1 \<Rightarrow> nat \<Rightarrow> nat \<Rightarrow> u32 \<Rightarrow> rc \<times> vf_apple_uart_v1" where
  "vf_apple_uart_write u off width v =
     (if \<not> uart_bounds off width then (ERR, u)
      else if off = VF_UART_UFCON then
        (let u1 = u\<lparr>uart_reg := (uart_reg u)[uart_idx off := v]\<rparr> in
         if v AND VF_UART_UFCON_RX_RESET \<noteq> 0 then
           (let u2 = u1\<lparr>rx_count := 0,
                 uart_reg := (uart_reg u1)[uart_idx off :=
                    uart_reg u1 ! uart_idx off AND NOT VF_UART_UFCON_RX_RESET]\<rparr> in
            (OK, (uart_update_status u2)\<lparr>uart_irq := False\<rparr>))
         else (OK, u1))
      else if off = VF_UART_UTXH then
        (let u1 = (if uart_tx u then u\<lparr>uart_sent := uart_sent u @ [ucast v]\<rparr> else u);
             st = uart_idx VF_UART_UTRSTAT in
         (OK, u1\<lparr>uart_reg := (uart_reg u1)[st := uart_reg u1 ! st OR
                   (VF_UART_UTRSTAT_TX_EMPTY OR VF_UART_UTRSTAT_TX_BUFFER_EMPTY)],
                 uart_irq := True\<rparr>))
      else if off = VF_UART_UTRSTAT then
        (OK, u\<lparr>uart_reg := (uart_reg u)[uart_idx off :=
                uart_reg u ! uart_idx off AND NOT (v AND VF_UART_UTRSTAT_TX_EMPTY)],
               uart_irq := False\<rparr>)
      else if off = VF_UART_UERSTAT then
        (OK, u\<lparr>uart_reg := (uart_reg u)[uart_idx off := uart_reg u ! uart_idx off AND NOT v]\<rparr>)
      else if off = VF_UART_UFSTAT \<or> off = VF_UART_UMSTAT \<or> off = VF_UART_URXH then (ERR, u)
      else (OK, u\<lparr>uart_reg := (uart_reg u)[uart_idx off := v]\<rparr>))"

section \<open>Invariant\<close>

definition uart_inv :: "vf_apple_uart_v1 \<Rightarrow> bool" where
  "uart_inv u \<longleftrightarrow> length (uart_reg u) = 15 \<and> length (rx_fifo u) = 16 \<and> rx_count u \<le> 16
     \<and> (bit (uart_reg u ! 4) 0 \<longleftrightarrow> rx_count u \<noteq> 0)"

lemma length_uart_shift [simp]: "length (uart_shift fifo i n) = length fifo"
  by (induction fifo i n rule: uart_shift.induct) (simp add: uart_shift.simps)

lemma update_status_fields [simp]:
  "rx_fifo (uart_update_status u) = rx_fifo u" "rx_count (uart_update_status u) = rx_count u"
  "length (uart_reg (uart_update_status u)) = length (uart_reg u)"
  "uart_sent (uart_update_status u) = uart_sent u"
  "j \<noteq> 4 \<Longrightarrow> uart_reg (uart_update_status u) ! j = uart_reg u ! j"
  by (simp_all add: uart_update_status_def uart_idx_def Let_def)

lemma update_status_ready:
  "4 < length (uart_reg u) \<Longrightarrow> bit (uart_reg (uart_update_status u) ! 4) 0 \<longleftrightarrow> rx_count u \<noteq> 0"
  by (simp add: uart_update_status_def uart_idx_def Let_def bit_simps)

lemma uart_inv_update:
  "length (uart_reg u) = 15 \<Longrightarrow> length (rx_fifo u) = 16 \<Longrightarrow> rx_count u \<le> 16 \<Longrightarrow>
   uart_inv (uart_update_status u)"
  by (simp add: uart_inv_def update_status_ready)

lemma uart_inv_irq [simp]: "uart_inv (u\<lparr>uart_irq := b\<rparr>) = uart_inv u"
  by (simp add: uart_inv_def)

lemma uart_inv_reg:
  "uart_inv u \<Longrightarrow> i \<noteq> 4 \<or> bit v 0 = bit (uart_reg u ! 4) 0 \<Longrightarrow>
   uart_inv (u\<lparr>uart_reg := (uart_reg u)[i := v]\<rparr>)"
  by (cases "i = 4") (auto simp: uart_inv_def)

lemma uart_inv_init: "length (rx_fifo u) = 16 \<Longrightarrow> uart_inv (snd (vf_apple_uart_init u tx))"
  by (simp add: uart_inv_def vf_apple_uart_init_def uart_idx_def bit_simps)

lemma uart_inv_push: "uart_inv u \<Longrightarrow> uart_inv (snd (vf_apple_uart_push_rx u b))"
  by (simp add: vf_apple_uart_push_rx_def) (simp add: uart_inv_def update_status_ready)

lemma uart_inv_read: "uart_inv u \<Longrightarrow> uart_inv (snd (vf_apple_uart_read u off w))"
  using uart_inv_reg [of u 5 0]
  by (simp add: vf_apple_uart_read_def) (auto simp: uart_inv_def update_status_ready uart_idx_def)

lemma uart_inv_write: "uart_inv u \<Longrightarrow> uart_inv (snd (vf_apple_uart_write u off w v))"
proof -
  assume u: "uart_inv u"
  then have len: "length (uart_reg u) = 15" "length (rx_fifo u) = 16" by (simp_all add: uart_inv_def)
  have "uart_inv (u\<lparr>uart_sent := xs\<rparr>) = uart_inv u" for xs by (simp add: uart_inv_def)
  note sent = this
  have idx: "off = 4 * i \<Longrightarrow> uart_idx off = i" "uart_idx (4 * i) = i" for i by (simp_all add: uart_idx_def)
  show ?thesis
  proof (cases "uart_bounds off w \<and> off = 8")
    case True
    then show ?thesis
      using u len idx(2) [of 2] by (auto simp: vf_apple_uart_write_def Let_def uart_inv_reg uart_inv_update)
  next
    case False
    have "off \<noteq> 16 \<Longrightarrow> uart_bounds off w \<Longrightarrow> uart_idx off \<noteq> 4"
      by (auto simp: uart_idx_def uart_bounds_def)
    then show ?thesis
      using False u len
      by (simp add: vf_apple_uart_write_def Let_def uart_idx_def)
        (simp add: uart_inv_def bit_simps nth_list_update)
  qed
qed

lemma uart_read_closed: "rd_keeps u (vf_apple_uart_read u off w)"
  by (simp add: vf_apple_uart_read_def)

lemma uart_write_closed: "wr_keeps u (vf_apple_uart_write u off w v)"
  by (simp add: vf_apple_uart_write_def Let_def)

interpretation uart: mmio_fail_closed vf_apple_uart_read vf_apple_uart_write uart_inv
  by unfold_locales (simp_all add: uart_inv_read uart_inv_write uart_read_closed uart_write_closed)

inductive uart_reachable :: "vf_apple_uart_v1 \<Rightarrow> bool" where
  init: "length (rx_fifo u) = 16 \<Longrightarrow> uart_reachable (snd (vf_apple_uart_init u tx))"
| push: "uart_reachable u \<Longrightarrow> uart_reachable (snd (vf_apple_uart_push_rx u b))"
| guest: "uart_reachable u \<Longrightarrow>
    uart_reachable (mmio_run vf_apple_uart_read vf_apple_uart_write u accs)"

lemma uart_reachable_inv: "uart_reachable u \<Longrightarrow> uart_inv u"
  by (induction rule: uart_reachable.induct) (auto intro: uart_inv_init uart_inv_push uart.run_inv)

section \<open>The bounded queue contract\<close>

datatype qop = Push u8 | Pop

text \<open>The specification: a list of at most \<open>cap\<close> bytes. A push into a full queue fails, a pop of
  an empty queue yields zero.\<close>

fun fifo_run :: "nat \<Rightarrow> u8 list \<Rightarrow> qop list \<Rightarrow> u32 option list" where
  "fifo_run cap q [] = []"
| "fifo_run cap q (Push b # ops) =
     (if length q < cap then Some 0 # fifo_run cap (q @ [b]) ops else None # fifo_run cap q ops)"
| "fifo_run cap q (Pop # ops) =
     (case q of [] \<Rightarrow> Some 0 # fifo_run cap [] ops | b # bs \<Rightarrow> Some (ucast b) # fifo_run cap bs ops)"

fun queue_run ::
  "('s \<Rightarrow> u8 \<Rightarrow> rc \<times> 's) \<Rightarrow> ('s \<Rightarrow> u32 option \<times> 's) \<Rightarrow> 's \<Rightarrow> qop list \<Rightarrow> u32 option list" where
  "queue_run push pop s [] = []"
| "queue_run push pop s (Push b # ops) =
     (case push s b of (c, s') \<Rightarrow> (if c = OK then Some 0 else None) # queue_run push pop s' ops)"
| "queue_run push pop s (Pop # ops) = (case pop s of (v, s') \<Rightarrow> v # queue_run push pop s' ops)"

locale byte_queue =
  fixes push :: "'s \<Rightarrow> u8 \<Rightarrow> rc \<times> 's"
    and pop :: "'s \<Rightarrow> u32 option \<times> 's"
    and contents :: "'s \<Rightarrow> u8 list"
    and ok :: "'s \<Rightarrow> bool"
    and cap :: nat
  assumes push_room: "ok s \<Longrightarrow> length (contents s) < cap \<Longrightarrow>
      \<exists>s'. push s b = (OK, s') \<and> ok s' \<and> contents s' = contents s @ [b]"
    and push_full: "ok s \<Longrightarrow> cap \<le> length (contents s) \<Longrightarrow> push s b = (ERR, s)"
    and pop_empty: "ok s \<Longrightarrow> contents s = [] \<Longrightarrow> pop s = (Some 0, s)"
    and pop_head: "ok s \<Longrightarrow> contents s = b # bs \<Longrightarrow>
      \<exists>s'. pop s = (Some (ucast b), s') \<and> ok s' \<and> contents s' = bs"
begin

lemma refines_fifo: "ok s \<Longrightarrow> queue_run push pop s ops = fifo_run cap (contents s) ops"
proof (induction ops arbitrary: s)
  case (Cons op ops)
  show ?case
  proof (cases op)
    case (Push b)
    show ?thesis
      using push_room [OF Cons.prems, of b] push_full [OF Cons.prems, of b] Cons Push
      by (cases "length (contents s) < cap") auto
  next
    case Pop
    show ?thesis
    proof (cases "contents s")
      case Nil
      then show ?thesis using pop_empty [OF Cons.prems] Cons Pop by simp
    next
      case c: (Cons b bs)
      then show ?thesis
        using pop_head [OF Cons.prems c] Cons.IH Pop by auto
    qed
  qed
qed simp

end

definition uart_contents :: "vf_apple_uart_v1 \<Rightarrow> u8 list" where
  "uart_contents u = take (rx_count u) (rx_fifo u)"

definition uart_fifo_mode :: "vf_apple_uart_v1 \<Rightarrow> bool" where
  "uart_fifo_mode u \<longleftrightarrow> uart_inv u \<and> bit (uart_reg u ! 2) 0"

lemma nth_uart_shift:
  "n \<le> length fifo \<Longrightarrow> 1 \<le> i \<Longrightarrow> j < length fifo \<Longrightarrow>
   uart_shift fifo i n ! j = (if i - 1 \<le> j \<and> j < n - 1 then fifo ! Suc j else fifo ! j)"
proof (induction fifo i n rule: uart_shift.induct)
  case (1 fifo i n)
  show ?case
  proof (cases "i < n")
    case True
    with 1 have "uart_shift fifo i n ! j =
        (if i \<le> j \<and> j < n - 1 then fifo[i - 1 := fifo ! i] ! Suc j else fifo[i - 1 := fifo ! i] ! j)"
      by (simp add: uart_shift.simps [of fifo i n])
    with True 1(3-) show ?thesis
      by (auto simp: nth_list_update)
  next
    case False
    then show ?thesis by (auto simp: uart_shift.simps [of fifo i n])
  qed
qed

lemma take_uart_shift:
  assumes "0 < n" "n \<le> length fifo"
  shows "take (n - 1) (uart_shift fifo 1 n) = tl (take n fifo)"
proof (rule nth_equalityI)
  show "length (take (n - 1) (uart_shift fifo 1 n)) = length (tl (take n fifo))"
    using assms by simp
next
  fix j assume "j < length (take (n - 1) (uart_shift fifo 1 n))"
  then show "take (n - 1) (uart_shift fifo 1 n) ! j = tl (take n fifo) ! j"
    using assms by (simp add: nth_uart_shift nth_tl)
qed

interpretation uq: byte_queue vf_apple_uart_push_rx "\<lambda>u. vf_apple_uart_read u VF_UART_URXH 4"
  uart_contents uart_fifo_mode 16
proof unfold_locales
  fix s b
  assume ok: "uart_fifo_mode s"
  then have l: "length (rx_fifo s) = 16" "rx_count s \<le> 16" "length (uart_reg s) = 15"
    by (simp_all add: uart_fifo_mode_def uart_inv_def)
  {
    assume room: "length (uart_contents s) < 16"
    then have c: "rx_count s < 16" using l by (simp add: uart_contents_def)
    have "uart_inv (snd (vf_apple_uart_push_rx s b))"
      using ok by (simp add: uart_fifo_mode_def uart_inv_push)
    with c l ok show "\<exists>s'. vf_apple_uart_push_rx s b = (OK, s') \<and> uart_fifo_mode s' \<and>
        uart_contents s' = uart_contents s @ [b]"
      by (auto simp: vf_apple_uart_push_rx_def uart_contents_def uart_fifo_mode_def take_Suc_conv_app_nth)
  }
  assume "16 \<le> length (uart_contents s)"
  then show "vf_apple_uart_push_rx s b = (ERR, s)"
    using l by (simp add: uart_contents_def vf_apple_uart_push_rx_def)
next
  fix s
  assume ok: "uart_fifo_mode s"
  then have l: "length (rx_fifo s) = 16" "rx_count s \<le> 16" "bit (uart_reg s ! 2) 0"
    by (simp_all add: uart_fifo_mode_def uart_inv_def)
  have fifo: "uart_reg s ! 2 AND 1 \<noteq> 0"
    using l(3) and_flag_eq_0 [of 1 0 "uart_reg s ! 2"] by simp
  {
    assume "uart_contents s = []"
    with l fifo show "vf_apple_uart_read s VF_UART_URXH 4 = (Some 0, s)"
      by (auto simp: vf_apple_uart_read_def uart_bounds_def uart_idx_def uart_contents_def)
  }
  fix b bs
  assume c: "uart_contents s = b # bs"
  then have n: "0 < rx_count s" by (cases "rx_count s") (simp_all add: uart_contents_def)
  have hd: "rx_fifo s ! 0 = b" using c by (cases "rx_fifo s") (auto simp: uart_contents_def take_Cons' split: if_splits)
  have "take (rx_count s - 1) (uart_shift (rx_fifo s) 1 (rx_count s)) = bs"
    using take_uart_shift [OF n] c l by (simp add: uart_contents_def)
  moreover have "uart_inv (snd (vf_apple_uart_read s VF_UART_URXH 4))"
    using ok by (simp add: uart_fifo_mode_def uart_inv_read)
  ultimately show "\<exists>s'. vf_apple_uart_read s VF_UART_URXH 4 = (Some (ucast b), s') \<and> uart_fifo_mode s' \<and>
      uart_contents s' = bs"
    using n hd fifo ok
    by (simp add: vf_apple_uart_read_def uart_bounds_def uart_idx_def uart_contents_def uart_fifo_mode_def)
qed

section \<open>Properties\<close>

text \<open>C31. With the FIFO enabled, every interleaving of received bytes and guest reads of URXH
  returns exactly what a bounded first-in-first-out queue of 16 bytes returns: bytes in arrival
  order, none lost or duplicated, a refused push when full and zero when empty.\<close>

theorem uart_refines_fifo:
  assumes "uart_fifo_mode u"
  shows "queue_run vf_apple_uart_push_rx (\<lambda>u. vf_apple_uart_read u VF_UART_URXH 4) u ops =
    fifo_run 16 (uart_contents u) ops"
  using assms by (rule uq.refines_fifo)

definition uart_demo :: vf_apple_uart_v1 where
  "uart_demo = snd (vf_apple_uart_write (snd (vf_apple_uart_init
     \<lparr>uart_reg = [], rx_fifo = replicate 16 0, rx_count = 0, uart_tx = False, uart_sent = [],
      uart_irq = False\<rparr> True)) 8 4 1)"

lemma uart_demo_reachable: "uart_reachable uart_demo"
  using uart_reachable.guest [OF uart_reachable.init, of _ _ "[Wr 8 4 1]"] by (simp add: uart_demo_def)

lemma uart_demo_mode: "uart_fifo_mode uart_demo" "uart_contents uart_demo = []"
  using uart_reachable_inv [OF uart_demo_reachable]
  by (simp_all add: uart_fifo_mode_def uart_contents_def)
    (simp_all add: uart_demo_def vf_apple_uart_write_def vf_apple_uart_init_def uart_bounds_def uart_idx_def Let_def)

theorem uart_refines_fifo_witness:
  "queue_run vf_apple_uart_push_rx (\<lambda>u. vf_apple_uart_read u VF_UART_URXH 4) uart_demo
     [Push 7, Push 9, Pop, Pop, Pop] = [Some 0, Some 0, Some 7, Some 9, Some 0]"
  using uart_refines_fifo [OF uart_demo_mode(1), of "[Push 7, Push 9, Pop, Pop, Pop]"]
  by (simp add: uart_demo_mode)

text \<open>In every state reachable from initialisation by received bytes and guest accesses the
  receiver-ready bit of UTRSTAT is set exactly when the FIFO holds a byte, and the FIFO never
  holds more than 16.\<close>

theorem uart_ready_bit_exact:
  "uart_reachable u \<Longrightarrow> (bit (uart_reg u ! 4) 0 \<longleftrightarrow> uart_contents u \<noteq> []) \<and> length (uart_contents u) \<le> 16"
  using uart_reachable_inv [of u] by (auto simp: uart_inv_def uart_contents_def)

theorem uart_ready_bit_exact_witness: "uart_reachable uart_demo \<and> \<not> bit (uart_reg uart_demo ! 4) 0"
  using uart_ready_bit_exact [OF uart_demo_reachable] uart_demo_reachable uart_demo_mode(2) by simp

end
