(* ===== verification/Gpio.thy ===== *)
theory Gpio
  imports Prelude
begin

text \<open>
  The GPIO controller, \<open>src/devices/apple_gpio_v1.c\<close>. The output and interrupt callbacks are
  caller code: the record holds whether each is bound and the calls made to it so far. An access
  outside one of the arrays, which is undefined behaviour in C, sets \<open>gpio_fault\<close>: every operation that
  indexes one of them goes through \<open>gpio_touch\<close> or, for the pending bits, tests the index itself
  (\<open>gpio_group_active\<close>, which has no state to mark, yields \<open>None\<close>).

  Shown: an input change sets exactly the pending bit its trigger mode asks for and no other; a
  group's interrupt is asserted exactly while one of its pins is pending; with at most 481 pins no
  history of operations leaves the arrays, and with 482 pins one does.
\<close>

section \<open>Model\<close>

abbreviation (input) VF_GPIO_MAX_PIN_NR :: nat where "VF_GPIO_MAX_PIN_NR \<equiv> 512"
abbreviation (input) VF_GPIO_MAX_INT_GRP_NR :: nat where "VF_GPIO_MAX_INT_GRP_NR \<equiv> 7"
abbreviation (input) VF_GPIO_INT_WORDS :: nat where "VF_GPIO_INT_WORDS \<equiv> 16"
abbreviation (input) VF_GPIO_REG_CFG :: "nat \<Rightarrow> nat" where "VF_GPIO_REG_CFG n \<equiv> 0x000 + n * 4"
abbreviation (input) VF_GPIO_REG_INT :: "nat \<Rightarrow> nat \<Rightarrow> nat" where
  "VF_GPIO_REG_INT g n \<equiv> 0x800 + g * 0x40 + ((n + 31) div 32) * 4"
abbreviation (input) VF_GPIO_REG_NPL_IN_EN :: nat where "VF_GPIO_REG_NPL_IN_EN \<equiv> 0xC48"
abbreviation (input) VF_GPIO_DATA_1 :: u32 where "VF_GPIO_DATA_1 \<equiv> 1"
abbreviation (input) VF_GPIO_CFG_GP_IN :: u32 where "VF_GPIO_CFG_GP_IN \<equiv> 0"
abbreviation (input) VF_GPIO_CFG_GP_OUT :: u32 where "VF_GPIO_CFG_GP_OUT \<equiv> 2"
abbreviation (input) VF_GPIO_CFG_INT_LVL_HI :: u32 where "VF_GPIO_CFG_INT_LVL_HI \<equiv> 4"
abbreviation (input) VF_GPIO_CFG_INT_LVL_LO :: u32 where "VF_GPIO_CFG_INT_LVL_LO \<equiv> 6"
abbreviation (input) VF_GPIO_CFG_INT_EDG_RIS :: u32 where "VF_GPIO_CFG_INT_EDG_RIS \<equiv> 8"
abbreviation (input) VF_GPIO_CFG_INT_EDG_FAL :: u32 where "VF_GPIO_CFG_INT_EDG_FAL \<equiv> 10"
abbreviation (input) VF_GPIO_CFG_INT_EDG_ANY :: u32 where "VF_GPIO_CFG_INT_EDG_ANY \<equiv> 12"
abbreviation (input) VF_GPIO_CFG_DISABLE :: u32 where "VF_GPIO_CFG_DISABLE \<equiv> 14"
abbreviation (input) VF_GPIO_CFG_MASK :: u32 where "VF_GPIO_CFG_MASK \<equiv> 14"
abbreviation (input) VF_GPIO_FUNC_GPIO :: u32 where "VF_GPIO_FUNC_GPIO \<equiv> 0"
abbreviation (input) VF_GPIO_FUNC_ALT0 :: u32 where "VF_GPIO_FUNC_ALT0 \<equiv> 0x20"
abbreviation (input) VF_GPIO_FUNC_MASK :: u32 where "VF_GPIO_FUNC_MASK \<equiv> 0x60"
abbreviation (input) VF_GPIO_INTR_GRP_SHIFT :: nat where "VF_GPIO_INTR_GRP_SHIFT \<equiv> 16"
abbreviation (input) VF_GPIO_INT_MASKED :: u32 where "VF_GPIO_INT_MASKED \<equiv> 0x70000"
abbreviation (input) VF_GPIO_CFG_DISABLED :: u32 where
  "VF_GPIO_CFG_DISABLED \<equiv> VF_GPIO_FUNC_GPIO OR VF_GPIO_CFG_DISABLE OR VF_GPIO_INT_MASKED"

record vf_apple_gpio_v1 =
  npins :: nat
  nirqgrps :: nat
  gpio_phandle :: u32
  gpio_cfg :: "u32 list"
  gpio_int_cfg :: "u32 list list"
  gpio_in :: "u32 list"
  gpio_old_in :: "u32 list"
  gpio_npl :: u32
  gpio_out :: bool
  gpio_out_log :: "(nat \<times> bool) list"
  gpio_irq :: bool
  gpio_irq_log :: "(nat \<times> bool) list"
  gpio_fault :: bool

text \<open>Whether a pin indexes inside \<open>gpio_cfg\<close> and the words of \<open>in\<close> and \<open>old_in\<close> (512 bits each), and a
  group and a word inside \<open>int_cfg\<close>; and the mark an access outside leaves.\<close>

definition gpio_pin_inside :: "nat \<Rightarrow> bool" where
  "gpio_pin_inside pin \<longleftrightarrow> pin < VF_GPIO_MAX_PIN_NR"

definition gpio_row_inside :: "nat \<Rightarrow> nat \<Rightarrow> bool" where
  "gpio_row_inside grp word \<longleftrightarrow> grp < VF_GPIO_MAX_INT_GRP_NR \<and> word < VF_GPIO_INT_WORDS"

definition gpio_touch :: "bool \<Rightarrow> vf_apple_gpio_v1 \<Rightarrow> vf_apple_gpio_v1" where
  "gpio_touch inside g = (if inside then g else g\<lparr>gpio_fault := True\<rparr>)"

definition gpio_width_ok :: "nat \<Rightarrow> nat \<Rightarrow> bool" where
  "gpio_width_ok off width \<longleftrightarrow> width = 4 \<and> off mod 4 = 0"

definition gpio_test_bit :: "u32 list \<Rightarrow> nat \<Rightarrow> bool" where
  "gpio_test_bit words pin \<longleftrightarrow> drop_bit (pin mod 32) (words ! (pin div 32)) AND 1 \<noteq> 0"

definition gpio_set_bit :: "u32 list \<Rightarrow> nat \<Rightarrow> u32 list" where
  "gpio_set_bit words pin = words[pin div 32 := words ! (pin div 32) OR push_bit (pin mod 32) 1]"

definition gpio_clear_bit :: "u32 list \<Rightarrow> nat \<Rightarrow> u32 list" where
  "gpio_clear_bit words pin = words[pin div 32 := words ! (pin div 32) AND NOT (push_bit (pin mod 32) 1)]"

definition gpio_int_word :: "nat \<Rightarrow> nat" where
  "gpio_int_word pin = (pin + 31) div 32"

text \<open>The two updates of \<open>int_cfg[grp]\<close>, with the bounds of the array made explicit.\<close>

definition gpio_int_set_bit :: "vf_apple_gpio_v1 \<Rightarrow> nat \<Rightarrow> nat \<Rightarrow> vf_apple_gpio_v1" where
  "gpio_int_set_bit g grp pin =
     (let w = gpio_int_word pin; row = gpio_int_cfg g ! grp in
      if \<not> gpio_row_inside grp w then g\<lparr>gpio_fault := True\<rparr>
      else g\<lparr>gpio_int_cfg := (gpio_int_cfg g)[grp := row[w := row ! w OR push_bit (pin mod 32) 1]]\<rparr>)"

definition gpio_int_clear_bit :: "vf_apple_gpio_v1 \<Rightarrow> nat \<Rightarrow> nat \<Rightarrow> vf_apple_gpio_v1" where
  "gpio_int_clear_bit g grp pin =
     (let w = gpio_int_word pin; row = gpio_int_cfg g ! grp in
      if \<not> gpio_row_inside grp w then g\<lparr>gpio_fault := True\<rparr>
      else g\<lparr>gpio_int_cfg := (gpio_int_cfg g)[grp := row[w := row ! w AND NOT (push_bit (pin mod 32) 1)]]\<rparr>)"

definition gpio_int_words :: "nat \<Rightarrow> nat" where
  "gpio_int_words n = (if n = 0 then 0 else gpio_int_word (n - 1) + 1)"

fun gpio_scan :: "vf_apple_gpio_v1 \<Rightarrow> nat \<Rightarrow> nat list \<Rightarrow> bool option" where
  "gpio_scan g grp [] = Some False"
| "gpio_scan g grp (w # ws) =
     (if \<not> gpio_row_inside grp w then None
      else if gpio_int_cfg g ! grp ! w \<noteq> 0 then Some True else gpio_scan g grp ws)"

definition gpio_group_active :: "vf_apple_gpio_v1 \<Rightarrow> nat \<Rightarrow> bool option" where
  "gpio_group_active g grp =
     (let words = gpio_int_words (npins g) in
      if grp \<ge> nirqgrps g then Some False
      else gpio_scan g grp [0..<words])"

definition gpio_raise_irq :: "vf_apple_gpio_v1 \<Rightarrow> nat \<Rightarrow> vf_apple_gpio_v1" where
  "gpio_raise_irq g grp =
     (if gpio_irq g then
        (case gpio_group_active g grp of
           None \<Rightarrow> g\<lparr>gpio_fault := True\<rparr>
         | Some active \<Rightarrow> g\<lparr>gpio_irq_log := gpio_irq_log g @ [(grp, active)]\<rparr>)
      else g)"

definition gpio_drive_out :: "vf_apple_gpio_v1 \<Rightarrow> nat \<Rightarrow> u32 \<Rightarrow> vf_apple_gpio_v1" where
  "gpio_drive_out g pin cfg =
     (if \<not> gpio_out g \<or> pin \<ge> npins g then g
      else
        let level =
          (if cfg AND VF_GPIO_FUNC_MASK \<noteq> 0 then True
           else if cfg AND VF_GPIO_CFG_MASK = VF_GPIO_CFG_GP_OUT then cfg AND VF_GPIO_DATA_1 \<noteq> 0
           else True) in
        g\<lparr>gpio_out_log := gpio_out_log g @ [(pin, level)]\<rparr>)"

definition gpio_irqgrp :: "u32 \<Rightarrow> nat" where
  "gpio_irqgrp cfg = unat (drop_bit VF_GPIO_INTR_GRP_SHIFT (cfg AND VF_GPIO_INT_MASKED))"

definition gpio_update_level_pending :: "vf_apple_gpio_v1 \<Rightarrow> nat \<Rightarrow> u32 \<Rightarrow> vf_apple_gpio_v1" where
  "gpio_update_level_pending g pin cfg =
     (if cfg AND VF_GPIO_INT_MASKED = VF_GPIO_INT_MASKED then g
      else let irqgrp = gpio_irqgrp cfg in
        if irqgrp \<ge> nirqgrps g then g
        else
          let g1 = gpio_int_clear_bit g irqgrp pin;
              mode = cfg AND VF_GPIO_CFG_MASK;
              g2 =
                (if mode = VF_GPIO_CFG_INT_LVL_HI then
                   (if gpio_test_bit (gpio_in g1) pin then gpio_int_set_bit g1 irqgrp pin else g1)
                 else if mode = VF_GPIO_CFG_INT_LVL_LO then
                   (if \<not> gpio_test_bit (gpio_in g1) pin then gpio_int_set_bit g1 irqgrp pin else g1)
                 else g1) in
          gpio_raise_irq g2 irqgrp)"

definition gpio_update_pincfg :: "vf_apple_gpio_v1 \<Rightarrow> nat \<Rightarrow> u32 \<Rightarrow> vf_apple_gpio_v1" where
  "gpio_update_pincfg g pin v =
     (if pin \<ge> npins g then g
      else let g1 = gpio_update_level_pending (gpio_touch (gpio_pin_inside pin) g) pin v in
        gpio_drive_out (g1\<lparr>gpio_cfg := (gpio_cfg g1)[pin := v]\<rparr>) pin v)"

text \<open>The \<open>switch\<close> of \<open>gpio_apply_input_irq\<close>: whether the mode asks for the pending bit.\<close>

definition gpio_trigger :: "u32 \<Rightarrow> bool \<Rightarrow> bool \<Rightarrow> bool" where
  "gpio_trigger cfg old level =
     (let mode = cfg AND VF_GPIO_CFG_MASK in
      if mode = VF_GPIO_CFG_GP_IN \<or> mode = VF_GPIO_CFG_GP_OUT then False
      else if mode = VF_GPIO_CFG_INT_LVL_HI then level
      else if mode = VF_GPIO_CFG_INT_LVL_LO then \<not> level
      else if mode = VF_GPIO_CFG_INT_EDG_RIS then \<not> old \<and> level
      else if mode = VF_GPIO_CFG_INT_EDG_FAL then old \<and> \<not> level
      else if mode = VF_GPIO_CFG_INT_EDG_ANY then old \<noteq> level
      else False)"

definition gpio_apply_input_irq :: "vf_apple_gpio_v1 \<Rightarrow> nat \<Rightarrow> bool \<Rightarrow> vf_apple_gpio_v1" where
  "gpio_apply_input_irq g pin level =
     (if pin \<ge> npins g then g
      else
        let g0 = gpio_touch (gpio_pin_inside pin) g;
            g1 = g0\<lparr>gpio_in := if level then gpio_set_bit (gpio_in g0) pin else gpio_clear_bit (gpio_in g0) pin\<rparr>;
            cfg = gpio_cfg g1 ! pin;
            irqgrp = gpio_irqgrp cfg;
            routed = (cfg AND VF_GPIO_INT_MASKED \<noteq> VF_GPIO_INT_MASKED \<and> irqgrp < nirqgrps g1);
            g2 = (if routed \<and> gpio_trigger cfg (gpio_test_bit (gpio_old_in g1) pin) level
                  then gpio_int_set_bit g1 irqgrp pin else g1);
            g3 = g2\<lparr>gpio_old_in := (gpio_old_in g2)[pin div 32 := gpio_in g2 ! (pin div 32)]\<rparr> in
        if routed then gpio_raise_irq g3 irqgrp else g3)"

definition gpio_cfg_index :: "nat \<Rightarrow> nat option" where
  "gpio_cfg_index off =
     (if off < VF_GPIO_REG_CFG 0 \<or> off > VF_GPIO_REG_CFG (VF_GPIO_MAX_PIN_NR - 1) then None
      else Some ((off - VF_GPIO_REG_CFG 0) div 4))"

definition gpio_int_index :: "nat \<Rightarrow> (nat \<times> nat) option" where
  "gpio_int_index off =
     (if off < VF_GPIO_REG_INT 0 0 \<or> off > VF_GPIO_REG_INT VF_GPIO_MAX_INT_GRP_NR (VF_GPIO_MAX_PIN_NR - 1)
      then None
      else let rel = off - VF_GPIO_REG_INT 0 0 in Some (rel div 64, (rel mod 64) div 4))"

definition vf_apple_gpio_init ::
  "vf_apple_gpio_v1 \<Rightarrow> nat \<Rightarrow> nat \<Rightarrow> u32 \<Rightarrow> bool \<Rightarrow> bool \<Rightarrow> rc \<times> vf_apple_gpio_v1" where
  "vf_apple_gpio_init g pins grps phandle out irq =
     (if pins = 0 \<or> pins \<ge> VF_GPIO_MAX_PIN_NR \<or> grps = 0 \<or> grps > VF_GPIO_MAX_INT_GRP_NR then (ERR, g)
      else
        let words = min (gpio_int_words pins) VF_GPIO_INT_WORDS in
        (OK, \<lparr>npins = pins, nirqgrps = grps, gpio_phandle = phandle,
              gpio_cfg = splice (gpio_cfg g) 0 (replicate pins VF_GPIO_CFG_DISABLED),
              gpio_int_cfg = map (\<lambda>row. splice row 0 (replicate words 0)) (take grps (gpio_int_cfg g))
                @ drop grps (gpio_int_cfg g),
              gpio_in = replicate VF_GPIO_INT_WORDS 0, gpio_old_in = replicate VF_GPIO_INT_WORDS 0,
              gpio_npl = 0, gpio_out = out, gpio_out_log = [], gpio_irq = irq, gpio_irq_log = [],
              gpio_fault = gpio_fault g\<rparr>))"

definition vf_apple_gpio_set_in :: "vf_apple_gpio_v1 \<Rightarrow> nat \<Rightarrow> bool \<Rightarrow> rc \<times> vf_apple_gpio_v1" where
  "vf_apple_gpio_set_in g pin level =
     (if pin \<ge> npins g then (ERR, g) else (OK, gpio_apply_input_irq g pin level))"

definition vf_apple_gpio_irq_asserted :: "vf_apple_gpio_v1 \<Rightarrow> nat \<Rightarrow> bool option" where
  "vf_apple_gpio_irq_asserted g grp =
     (if grp < nirqgrps g then gpio_group_active g grp else Some False)"

definition vf_apple_gpio_read :: "vf_apple_gpio_v1 \<Rightarrow> nat \<Rightarrow> nat \<Rightarrow> u32 option \<times> vf_apple_gpio_v1" where
  "vf_apple_gpio_read g off width =
     (if \<not> gpio_width_ok off width then (None, g)
      else case gpio_cfg_index off of
        Some pin \<Rightarrow>
          if pin \<ge> npins g then (Some 0, g)
          else
            let cfg = gpio_cfg g ! pin; g1 = gpio_touch (gpio_pin_inside pin) g in
            if cfg AND VF_GPIO_FUNC_MASK = VF_GPIO_FUNC_GPIO \<and> cfg AND VF_GPIO_CFG_MASK = VF_GPIO_CFG_GP_IN
            then (Some ((cfg AND NOT VF_GPIO_DATA_1) OR
                        (if gpio_test_bit (gpio_in g) pin then VF_GPIO_DATA_1 else 0)), g1)
            else (Some cfg, g1)
      | None \<Rightarrow>
          (case gpio_int_index off of
             Some (grp, word) \<Rightarrow>
               if grp \<ge> nirqgrps g \<or> word \<ge> VF_GPIO_INT_WORDS then (Some 0, g)
               else (Some (gpio_int_cfg g ! grp ! word), gpio_touch (gpio_row_inside grp word) g)
           | None \<Rightarrow> if off = VF_GPIO_REG_NPL_IN_EN then (Some (gpio_npl g), g) else (Some 0, g)))"

definition vf_apple_gpio_write :: "vf_apple_gpio_v1 \<Rightarrow> nat \<Rightarrow> nat \<Rightarrow> u32 \<Rightarrow> rc \<times> vf_apple_gpio_v1" where
  "vf_apple_gpio_write g off width v =
     (if \<not> gpio_width_ok off width then (ERR, g)
      else case gpio_cfg_index off of
        Some pin \<Rightarrow> if pin \<ge> npins g then (OK, g) else (OK, gpio_update_pincfg g pin v)
      | None \<Rightarrow>
          (case gpio_int_index off of
             Some (grp, word) \<Rightarrow>
               if grp \<ge> nirqgrps g \<or> word \<ge> VF_GPIO_INT_WORDS then (OK, g)
               else
                 let g0 = gpio_touch (gpio_row_inside grp word) g;
                     row = gpio_int_cfg g0 ! grp;
                     g1 = g0\<lparr>gpio_int_cfg := (gpio_int_cfg g0)[grp := row[word := row ! word AND NOT v]]\<rparr> in
                 (OK, gpio_raise_irq g1 grp)
           | None \<Rightarrow> (ERR, g)))"

section \<open>Pending bits\<close>

definition gpio_pending :: "vf_apple_gpio_v1 \<Rightarrow> nat \<Rightarrow> nat \<Rightarrow> bool" where
  "gpio_pending g grp pin \<longleftrightarrow> bit (gpio_int_cfg g ! grp ! gpio_int_word pin) (pin mod 32)"

lemma gpio_int_word_inj:
  assumes "gpio_int_word p = gpio_int_word q" "p mod 32 = q mod 32"
  shows "p = q"
proof -
  have "(p + 31) mod 32 = (q + 31) mod 32"
    using assms(2) by (metis mod_add_left_eq)
  with assms(1) have "p + 31 = q + 31"
    unfolding gpio_int_word_def by (metis div_mult_mod_eq)
  then show ?thesis by simp
qed

lemma gpio_int_word_less: "pin < n \<Longrightarrow> n \<le> 481 \<Longrightarrow> gpio_int_word pin < 16"
  by (simp add: gpio_int_word_def)

lemma gpio_test_bit_iff: "gpio_test_bit words pin \<longleftrightarrow> bit (words ! (pin div 32)) (pin mod 32)"
  unfolding gpio_test_bit_def by (simp add: and_flag_eq_0 [of 1 0] bit_drop_bit_eq)

section \<open>Invariant\<close>

text \<open>Sizes, the input history, and that the words a group scan reads hold bits of pins only.\<close>

definition gpio_inv :: "vf_apple_gpio_v1 \<Rightarrow> bool" where
  "gpio_inv g \<longleftrightarrow> 0 < npins g \<and> npins g \<le> 481 \<and> nirqgrps g \<le> 7
     \<and> length (gpio_cfg g) = 512 \<and> length (gpio_int_cfg g) = 7
     \<and> (\<forall>row \<in> set (gpio_int_cfg g). length row = 16)
     \<and> length (gpio_in g) = 16 \<and> gpio_old_in g = gpio_in g
     \<and> (\<forall>grp < nirqgrps g. \<forall>w < gpio_int_words (npins g). \<forall>b. bit (gpio_int_cfg g ! grp ! w) b \<longrightarrow>
          (\<exists>pin < npins g. gpio_int_word pin = w \<and> pin mod 32 = b))
     \<and> \<not> gpio_fault g"

lemma gpio_inv_bits:
  "gpio_inv g \<Longrightarrow> grp < nirqgrps g \<Longrightarrow> w < gpio_int_words (npins g) \<Longrightarrow>
   bit (gpio_int_cfg g ! grp ! w) b \<Longrightarrow> \<exists>pin < npins g. gpio_int_word pin = w \<and> pin mod 32 = b"
  by (simp add: gpio_inv_def)

lemma gpio_inv_lengths:
  "gpio_inv g \<Longrightarrow> grp < nirqgrps g \<Longrightarrow> length (gpio_int_cfg g ! grp) = 16"
  "gpio_inv g \<Longrightarrow> grp < nirqgrps g \<Longrightarrow> grp < length (gpio_int_cfg g)"
  "gpio_inv g \<Longrightarrow> pin < npins g \<Longrightarrow> gpio_int_word pin < 16"
  by (auto simp: gpio_inv_def intro: gpio_int_word_less)

lemma gpio_inside [simp]:
  "gpio_inv g \<Longrightarrow> pin < npins g \<Longrightarrow> gpio_pin_inside pin"
  "gpio_inv g \<Longrightarrow> grp < nirqgrps g \<Longrightarrow> gpio_row_inside grp w \<longleftrightarrow> w < 16"
  by (simp_all add: gpio_inv_def gpio_pin_inside_def gpio_row_inside_def)

lemma gpio_touch_inside [simp]: "gpio_touch True g = g"
  by (simp add: gpio_touch_def)

lemma gpio_touch_frame [simp]:
  "npins (gpio_touch b g) = npins g" "nirqgrps (gpio_touch b g) = nirqgrps g" "gpio_cfg (gpio_touch b g) = gpio_cfg g"
  "gpio_in (gpio_touch b g) = gpio_in g" "gpio_old_in (gpio_touch b g) = gpio_old_in g"
  by (simp_all add: gpio_touch_def)

lemma gpio_inv_frame:
  "gpio_inv g \<Longrightarrow> gpio_inv (g\<lparr>gpio_cfg := (gpio_cfg g)[pin := v]\<rparr>)"
  "gpio_inv g \<Longrightarrow> gpio_inv (g\<lparr>gpio_out_log := xs\<rparr>)"
  "gpio_inv g \<Longrightarrow> gpio_inv (g\<lparr>gpio_irq_log := xs\<rparr>)"
  by (simp_all add: gpio_inv_def)

text \<open>The shape of every update of \<open>int_cfg\<close>: one word of one row is replaced by a word whose
  bits were there before or belong to a pin.\<close>

lemma gpio_inv_int_update:
  assumes "gpio_inv g" "grp < nirqgrps g" "w < 16"
    and "\<And>b. bit v b \<Longrightarrow> bit (gpio_int_cfg g ! grp ! w) b \<or> (\<exists>pin < npins g. gpio_int_word pin = w \<and> pin mod 32 = b)"
  shows "gpio_inv (g\<lparr>gpio_int_cfg := (gpio_int_cfg g)[grp := (gpio_int_cfg g ! grp)[w := v]]\<rparr>)"
proof -
  have len: "length (gpio_int_cfg g ! grp) = 16" "grp < length (gpio_int_cfg g)"
    using assms by (auto simp: gpio_inv_def)
  have rows: "row \<in> set ((gpio_int_cfg g)[grp := (gpio_int_cfg g ! grp)[w := v]]) \<Longrightarrow> length row = 16" for row
    using assms(1) len set_update_subset_insert [of "gpio_int_cfg g" grp "(gpio_int_cfg g ! grp)[w := v]"]
    by (auto simp: gpio_inv_def)
  have bits: "\<exists>pin < npins g. gpio_int_word pin = w' \<and> pin mod 32 = b"
    if "grp' < nirqgrps g" "w' < gpio_int_words (npins g)"
      "bit ((gpio_int_cfg g)[grp := (gpio_int_cfg g ! grp)[w := v]] ! grp' ! w') b" for grp' w' b
  proof (cases "grp' = grp \<and> w' = w")
    case True
    with that len assms(3) have "bit v b" by simp
    then show ?thesis using assms(4) [of b] gpio_inv_bits [OF assms(1) that(1,2)] True by auto
  next
    case False
    then have "bit (gpio_int_cfg g ! grp' ! w') b"
      using that(3) len(2) by (cases "grp' = grp") auto
    then show ?thesis using gpio_inv_bits [OF assms(1) that(1,2)] by blast
  qed
  show ?thesis
    using assms(1) rows bits by (simp add: gpio_inv_def)
qed

lemma gpio_int_set_bit_ok:
  assumes "gpio_inv g" "grp < nirqgrps g" "pin < npins g"
  shows "gpio_inv (gpio_int_set_bit g grp pin)"
    and "q < npins g \<Longrightarrow> gpio_pending (gpio_int_set_bit g grp pin) h q \<longleftrightarrow> gpio_pending g h q \<or> h = grp \<and> q = pin"
proof -
  have w: "gpio_int_word pin < 16" using assms by (auto simp: gpio_inv_def intro: gpio_int_word_less)
  then show "gpio_inv (gpio_int_set_bit g grp pin)"
    unfolding gpio_int_set_bit_def Let_def using assms
    by (auto simp: bit_simps intro!: gpio_inv_int_update)
  assume "q < npins g"
  moreover have "length (gpio_int_cfg g ! grp) = 16" "grp < length (gpio_int_cfg g)" "gpio_row_inside grp (gpio_int_word pin)"
    using assms w by (auto simp: gpio_inv_def gpio_row_inside_def)
  ultimately show "gpio_pending (gpio_int_set_bit g grp pin) h q \<longleftrightarrow> gpio_pending g h q \<or> h = grp \<and> q = pin"
    using w gpio_int_word_inj [of pin q]
    by (auto simp: gpio_pending_def gpio_int_set_bit_def Let_def nth_list_update bit_simps split: if_splits)
qed

lemma gpio_int_clear_bit_ok:
  assumes "gpio_inv g" "grp < nirqgrps g" "pin < npins g"
  shows "gpio_inv (gpio_int_clear_bit g grp pin)"
    and "q < npins g \<Longrightarrow> gpio_pending (gpio_int_clear_bit g grp pin) h q \<longleftrightarrow> gpio_pending g h q \<and> \<not> (h = grp \<and> q = pin)"
proof -
  have w: "gpio_int_word pin < 16" using assms by (auto simp: gpio_inv_def intro: gpio_int_word_less)
  then show "gpio_inv (gpio_int_clear_bit g grp pin)"
    unfolding gpio_int_clear_bit_def Let_def using assms
    by (auto simp: bit_simps intro!: gpio_inv_int_update)
  assume "q < npins g"
  moreover have "length (gpio_int_cfg g ! grp) = 16" "grp < length (gpio_int_cfg g)" "gpio_row_inside grp (gpio_int_word pin)"
    using assms w by (auto simp: gpio_inv_def gpio_row_inside_def)
  ultimately show "gpio_pending (gpio_int_clear_bit g grp pin) h q \<longleftrightarrow> gpio_pending g h q \<and> \<not> (h = grp \<and> q = pin)"
    using w gpio_int_word_inj [of pin q]
    by (auto simp: gpio_pending_def gpio_int_clear_bit_def Let_def nth_list_update bit_simps split: if_splits)
qed

lemma gpio_int_bit_frame [simp]:
  "npins (gpio_int_set_bit g grp pin) = npins g" "nirqgrps (gpio_int_set_bit g grp pin) = nirqgrps g"
  "gpio_in (gpio_int_set_bit g grp pin) = gpio_in g" "gpio_cfg (gpio_int_set_bit g grp pin) = gpio_cfg g"
  "gpio_old_in (gpio_int_set_bit g grp pin) = gpio_old_in g"
  "npins (gpio_int_clear_bit g grp pin) = npins g" "nirqgrps (gpio_int_clear_bit g grp pin) = nirqgrps g"
  "gpio_in (gpio_int_clear_bit g grp pin) = gpio_in g" "gpio_cfg (gpio_int_clear_bit g grp pin) = gpio_cfg g"
  "gpio_old_in (gpio_int_clear_bit g grp pin) = gpio_old_in g"
  by (simp_all add: gpio_int_set_bit_def gpio_int_clear_bit_def Let_def)

section \<open>Group scans\<close>

lemma gpio_scan_total:
  "\<forall>w \<in> set ws. gpio_row_inside grp w \<Longrightarrow> gpio_scan g grp ws = Some (\<exists>w \<in> set ws. gpio_int_cfg g ! grp ! w \<noteq> 0)"
  by (induction ws) auto

lemma gpio_words_le: "gpio_inv g \<Longrightarrow> gpio_int_words (npins g) \<le> 16"
  using gpio_int_word_less [of "npins g - 1" "npins g"] by (auto simp: gpio_inv_def gpio_int_words_def)

lemma gpio_int_word_in_words: "pin < n \<Longrightarrow> gpio_int_word pin < gpio_int_words n"
  by (auto simp: gpio_int_words_def gpio_int_word_def less_Suc_eq_le div_le_mono)

lemma gpio_group_active_iff:
  assumes "gpio_inv g" "grp < nirqgrps g"
  shows "gpio_group_active g grp = Some (\<exists>pin < npins g. gpio_pending g grp pin)"
proof -
  let ?n = "gpio_int_words (npins g)"
  have "(\<exists>w < ?n. gpio_int_cfg g ! grp ! w \<noteq> 0) \<longleftrightarrow> (\<exists>pin < npins g. gpio_pending g grp pin)"
  proof
    assume "\<exists>w < ?n. gpio_int_cfg g ! grp ! w \<noteq> 0"
    then obtain w b where "w < ?n" "bit (gpio_int_cfg g ! grp ! w) b"
      using nonzero_word_bit by blast
    then show "\<exists>pin < npins g. gpio_pending g grp pin"
      using gpio_inv_bits [OF assms] by (auto simp: gpio_pending_def)
  next
    assume "\<exists>pin < npins g. gpio_pending g grp pin"
    then show "\<exists>w < ?n. gpio_int_cfg g ! grp ! w \<noteq> 0"
      by (metis bit_0_eq bot_apply bot_bool_def gpio_int_word_in_words gpio_pending_def)
  qed
  then show ?thesis
    using assms gpio_words_le [OF assms(1)]
    by (simp add: gpio_group_active_def gpio_scan_total Let_def not_le Bex_def)
qed

lemma gpio_raise_irq_ok:
  assumes "gpio_inv g"
  shows "gpio_inv (gpio_raise_irq g grp)" "gpio_pending (gpio_raise_irq g grp) h q = gpio_pending g h q"
proof -
  have "\<exists>b. gpio_group_active g grp = Some b"
    using gpio_group_active_iff [OF assms] by (cases "grp < nirqgrps g") (auto simp: gpio_group_active_def)
  then show "gpio_inv (gpio_raise_irq g grp)" "gpio_pending (gpio_raise_irq g grp) h q = gpio_pending g h q"
    using assms by (auto simp: gpio_raise_irq_def gpio_inv_def gpio_pending_def)
qed

lemma gpio_raise_irq_frame [simp]:
  "npins (gpio_raise_irq g grp) = npins g" "nirqgrps (gpio_raise_irq g grp) = nirqgrps g"
  "gpio_in (gpio_raise_irq g grp) = gpio_in g" "gpio_cfg (gpio_raise_irq g grp) = gpio_cfg g"
  by (simp_all add: gpio_raise_irq_def split: option.split)

section \<open>Operations keep the invariant\<close>

lemma gpio_level_pending_ok:
  assumes "gpio_inv g" "pin < npins g"
  shows "gpio_inv (gpio_update_level_pending g pin cfg)"
  using assms gpio_int_clear_bit_ok [OF assms(1) _ assms(2)] gpio_int_set_bit_ok [of "gpio_int_clear_bit g _ pin" _ pin]
  by (simp add: gpio_update_level_pending_def Let_def gpio_raise_irq_ok)

lemma gpio_inv_pincfg: "gpio_inv g \<Longrightarrow> gpio_inv (gpio_update_pincfg g pin v)"
proof (cases "pin < npins g")
  case True
  assume inv: "gpio_inv g"
  with True have "gpio_inv (gpio_update_level_pending g pin v)" by (intro gpio_level_pending_ok)
  then show ?thesis
    using True inv by (simp add: gpio_update_pincfg_def gpio_drive_out_def Let_def gpio_inv_frame)
qed (simp add: gpio_update_pincfg_def)

lemma gpio_in_update:
  "gpio_inv g \<Longrightarrow> pin < npins g \<Longrightarrow>
   (gpio_in g)[pin div 32 := (if l then gpio_set_bit (gpio_in g) pin else gpio_clear_bit (gpio_in g) pin) ! (pin div 32)]
   = (if l then gpio_set_bit (gpio_in g) pin else gpio_clear_bit (gpio_in g) pin)"
  by (auto simp: gpio_inv_def gpio_set_bit_def gpio_clear_bit_def)

lemma gpio_inv_setin:
  "gpio_inv g \<Longrightarrow> gpio_inv (g\<lparr>gpio_in := if l then gpio_set_bit (gpio_in g) pin else gpio_clear_bit (gpio_in g) pin,
     gpio_old_in := if l then gpio_set_bit (gpio_in g) pin else gpio_clear_bit (gpio_in g) pin\<rparr>)"
  by (simp add: gpio_inv_def gpio_set_bit_def gpio_clear_bit_def)

lemma gpio_int_set_bit_old_in:
  "(gpio_int_set_bit g grp pin)\<lparr>gpio_old_in := x\<rparr> = gpio_int_set_bit (g\<lparr>gpio_old_in := x\<rparr>) grp pin"
  by (cases g) (simp add: gpio_int_set_bit_def Let_def)

text \<open>An input change, with the pending update first and the level history second.\<close>

lemma gpio_apply_input_eq:
  fixes level :: bool
  assumes "gpio_inv g" "pin < npins g"
  defines "cfg \<equiv> gpio_cfg g ! pin"
  defines "new \<equiv> (if level then gpio_set_bit (gpio_in g) pin else gpio_clear_bit (gpio_in g) pin)"
  defines "routed \<equiv> cfg AND VF_GPIO_INT_MASKED \<noteq> VF_GPIO_INT_MASKED \<and> gpio_irqgrp cfg < nirqgrps g"
  defines "g1 \<equiv> g\<lparr>gpio_in := new, gpio_old_in := new\<rparr>"
  defines "g2 \<equiv> (if routed \<and> gpio_trigger cfg (gpio_test_bit (gpio_in g) pin) level
                   then gpio_int_set_bit g1 (gpio_irqgrp cfg) pin else g1)"
  shows "gpio_apply_input_irq g pin level = (if routed then gpio_raise_irq g2 (gpio_irqgrp cfg) else g2)"
proof -
  have old: "gpio_old_in g = gpio_in g" using assms(1) by (simp add: gpio_inv_def)
  have inside: "gpio_touch (gpio_pin_inside pin) g = g" using assms(1,2) by simp
  have "(gpio_in g)[pin div 32 := new ! (pin div 32)] = new"
    unfolding new_def by (rule gpio_in_update [OF assms(1,2)])
  then show ?thesis
    using assms(2) old unfolding gpio_apply_input_irq_def g2_def g1_def routed_def cfg_def Let_def inside new_def [symmetric]
    by (auto simp: gpio_int_set_bit_old_in)
qed

lemma gpio_inv_apply: "gpio_inv g \<Longrightarrow> pin < npins g \<Longrightarrow> gpio_inv (gpio_apply_input_irq g pin level)"
  using gpio_int_set_bit_ok(1) [OF gpio_inv_setin]
  by (simp add: gpio_apply_input_eq gpio_raise_irq_ok gpio_inv_setin)

lemma gpio_inv_w1c:
  "gpio_inv g \<Longrightarrow> grp < nirqgrps g \<Longrightarrow> w < 16 \<Longrightarrow>
   gpio_inv (g\<lparr>gpio_int_cfg := (gpio_int_cfg g)[grp := (gpio_int_cfg g ! grp)[w := gpio_int_cfg g ! grp ! w AND NOT v]]\<rparr>)"
  by (rule gpio_inv_int_update) (auto simp: bit_simps)

lemma gpio_inv_write: "gpio_inv g \<Longrightarrow> gpio_inv (snd (vf_apple_gpio_write g off w v))"
  by (simp add: vf_apple_gpio_write_def gpio_inv_pincfg gpio_raise_irq_ok gpio_inv_w1c Let_def split: option.split)

lemma gpio_read_state: "gpio_inv g \<Longrightarrow> snd (vf_apple_gpio_read g off w) = g"
  by (simp add: vf_apple_gpio_read_def Let_def split: option.split)

lemma gpio_read_closed: "rd_keeps g (vf_apple_gpio_read g off w)"
  by (simp add: rd_keeps_def vf_apple_gpio_read_def Let_def split: option.split)

lemma gpio_write_closed: "wr_keeps g (vf_apple_gpio_write g off w v)"
  by (simp add: vf_apple_gpio_write_def Let_def split: option.split)

interpretation gpio: mmio_fail_closed vf_apple_gpio_read vf_apple_gpio_write gpio_inv
  by unfold_locales (simp_all add: gpio_read_state gpio_inv_write gpio_read_closed gpio_write_closed)

definition gpio_fresh :: "vf_apple_gpio_v1 \<Rightarrow> bool" where
  "gpio_fresh g \<longleftrightarrow> length (gpio_cfg g) = 512 \<and> length (gpio_int_cfg g) = 7
     \<and> (\<forall>row \<in> set (gpio_int_cfg g). length row = 16) \<and> \<not> gpio_fault g"

lemma gpio_inv_init:
  assumes "vf_apple_gpio_init g pins grps ph out irq = (OK, g')" "pins \<le> 481" "gpio_fresh g"
  shows "gpio_inv g'"
proof -
  have pins: "0 < pins" "grps \<le> 7" using assms(1) by (auto simp: vf_apple_gpio_init_def split: if_splits)
  have words: "gpio_int_words pins \<le> 16"
    using gpio_int_word_less [of "pins - 1" pins] pins assms(2) by (simp add: gpio_int_words_def)
  let ?rows = "map (\<lambda>row. splice row 0 (replicate (gpio_int_words pins) 0)) (take grps (gpio_int_cfg g)) @ drop grps (gpio_int_cfg g)"
  have g': "npins g' = pins" "nirqgrps g' = grps" "gpio_int_cfg g' = ?rows" "length (gpio_cfg g') = 512"
    "gpio_in g' = replicate 16 0" "gpio_old_in g' = replicate 16 0" "\<not> gpio_fault g'"
    using assms words pins
    by (auto simp: vf_apple_gpio_init_def Let_def gpio_fresh_def min_def split: if_splits)
  have l: "length (gpio_int_cfg g) = 7" "\<And>row. row \<in> set (gpio_int_cfg g) \<Longrightarrow> length row = 16"
    using assms(3) by (auto simp: gpio_fresh_def)
  have "length row = 16" if "row \<in> set ?rows" for row
    using that l words by (auto dest!: in_set_takeD in_set_dropD)
  moreover have "?rows ! grp ! w = 0" if "grp < grps" "w < gpio_int_words pins" for grp w
    using that l pins words nth_mem [of grp "gpio_int_cfg g"] by (simp add: nth_append nth_splice)
  ultimately show ?thesis
    using pins assms(2) g' l by (simp add: gpio_inv_def)
qed

inductive gpio_reachable :: "nat \<Rightarrow> vf_apple_gpio_v1 \<Rightarrow> bool" for pins where
  init: "gpio_fresh g \<Longrightarrow> vf_apple_gpio_init g pins grps ph out irq = (OK, g') \<Longrightarrow> gpio_reachable pins g'"
| input: "gpio_reachable pins g \<Longrightarrow> gpio_reachable pins (snd (vf_apple_gpio_set_in g pin level))"
| guest: "gpio_reachable pins g \<Longrightarrow>
    gpio_reachable pins (mmio_run vf_apple_gpio_read vf_apple_gpio_write g accs)"

lemma gpio_reachable_inv: "gpio_reachable pins g \<Longrightarrow> pins \<le> 481 \<Longrightarrow> gpio_inv g"
proof (induction rule: gpio_reachable.induct)
  case (init g grps ph out irq g')
  then show ?case using gpio_inv_init by blast
next
  case (input g pin level)
  then show ?case by (auto simp: vf_apple_gpio_set_in_def gpio_inv_apply)
next
  case (guest g accs)
  then show ?case by (blast intro: gpio.run_inv)
qed

section \<open>Properties\<close>

text \<open>Driving an input pin succeeds, records its level, and sets the pin's pending bit in the
  grp its configuration routes it to exactly when the configured trigger (level high or low,
  rising, falling or any edge, relative to the previous level) fires; every other pending bit of
  every pin and group stays as it was.\<close>

theorem gpio_input_trigger:
  fixes level :: bool
  assumes "gpio_inv g" "pin < npins g" "q < npins g"
  defines "g' \<equiv> snd (vf_apple_gpio_set_in g pin level)"
  shows "fst (vf_apple_gpio_set_in g pin level) = OK
    \<and> gpio_test_bit (gpio_in g') pin = level
    \<and> (gpio_pending g' h q \<longleftrightarrow> gpio_pending g h q \<or>
         q = pin \<and> gpio_cfg g ! pin AND VF_GPIO_INT_MASKED \<noteq> VF_GPIO_INT_MASKED
         \<and> h = gpio_irqgrp (gpio_cfg g ! pin) \<and> h < nirqgrps g
         \<and> gpio_trigger (gpio_cfg g ! pin) (gpio_test_bit (gpio_in g) pin) level)"
proof (intro conjI)
  let ?new = "if level then gpio_set_bit (gpio_in g) pin else gpio_clear_bit (gpio_in g) pin"
  let ?g1 = "g\<lparr>gpio_in := ?new, gpio_old_in := ?new\<rparr>"
  have inv: "gpio_inv ?g1" by (rule gpio_inv_setin [OF assms(1)])
  have pin: "pin div 32 < length (gpio_in g)" using assms(1,2) by (simp add: gpio_inv_def less_mult_imp_div_less)
  have g': "g' = gpio_apply_input_irq g pin level" using assms(2) by (simp add: g'_def vf_apple_gpio_set_in_def)
  have p1: "gpio_pending ?g1 h q = gpio_pending g h q" by (simp add: gpio_pending_def)
  show "fst (vf_apple_gpio_set_in g pin level) = OK" using assms(2) by (simp add: vf_apple_gpio_set_in_def)
  show "gpio_test_bit (gpio_in g') pin = level"
    using pin by (simp add: g' gpio_apply_input_eq [OF assms(1,2)] gpio_test_bit_iff)
      (simp add: gpio_set_bit_def gpio_clear_bit_def bit_simps)
  show "gpio_pending g' h q \<longleftrightarrow> gpio_pending g h q \<or>
         q = pin \<and> gpio_cfg g ! pin AND VF_GPIO_INT_MASKED \<noteq> VF_GPIO_INT_MASKED
         \<and> h = gpio_irqgrp (gpio_cfg g ! pin) \<and> h < nirqgrps g
         \<and> gpio_trigger (gpio_cfg g ! pin) (gpio_test_bit (gpio_in g) pin) level"
    using assms(2,3) inv p1 gpio_int_set_bit_ok [OF inv, of "gpio_irqgrp (gpio_cfg g ! pin)" pin]
    by (auto simp: g' gpio_apply_input_eq [OF assms(1,2)] gpio_raise_irq_ok)
qed

definition gpio_blank :: vf_apple_gpio_v1 where
  "gpio_blank = \<lparr>npins = 0, nirqgrps = 0, gpio_phandle = 0, gpio_cfg = replicate 512 0,
     gpio_int_cfg = replicate 7 (replicate 16 0), gpio_in = [], gpio_old_in = [], gpio_npl = 0,
     gpio_out = False, gpio_out_log = [], gpio_irq = False, gpio_irq_log = [], gpio_fault = False\<rparr>"

definition gpio_boot :: "nat \<Rightarrow> vf_apple_gpio_v1" where
  "gpio_boot pins = snd (vf_apple_gpio_init gpio_blank pins 1 0 False True)"

text \<open>Pin \<open>pins - 1\<close> is a rising-edge interrupt of group 0.\<close>

definition gpio_demo :: "nat \<Rightarrow> vf_apple_gpio_v1" where
  "gpio_demo pins = snd (vf_apple_gpio_write (gpio_boot pins) (4 * (pins - 1)) 4 8)"

lemma gpio_demo_reachable: "0 < pins \<Longrightarrow> pins < 512 \<Longrightarrow> gpio_reachable pins (gpio_demo pins)"
proof -
  assume p: "0 < pins" "pins < 512"
  have "gpio_fresh gpio_blank" by (simp add: gpio_fresh_def gpio_blank_def)
  moreover have "vf_apple_gpio_init gpio_blank pins 1 0 False True = (OK, gpio_boot pins)"
    using p by (simp add: gpio_boot_def vf_apple_gpio_init_def Let_def)
  ultimately show ?thesis
    using gpio_reachable.guest [OF gpio_reachable.init, of gpio_blank pins 1 0 False True _ "[Wr (4 * (pins - 1)) 4 8]"]
    by (simp add: gpio_demo_def)
qed

lemma gpio_demo_pin:
  "npins (gpio_demo 2) = 2" "nirqgrps (gpio_demo 2) = 1" "gpio_cfg (gpio_demo 2) ! 1 = 8"
  "\<not> gpio_test_bit (gpio_in (gpio_demo 2)) 1"
  by (simp_all add: gpio_demo_def gpio_boot_def gpio_blank_def vf_apple_gpio_init_def vf_apple_gpio_write_def
      gpio_width_ok_def gpio_cfg_index_def gpio_update_pincfg_def gpio_update_level_pending_def gpio_irqgrp_def
      gpio_drive_out_def gpio_raise_irq_def gpio_int_clear_bit_def gpio_group_active_def gpio_int_words_def
      gpio_int_word_def splice_def Let_def gpio_test_bit_def gpio_pin_inside_def gpio_row_inside_def numeral_2_eq_2)

theorem gpio_input_trigger_witness:
  "gpio_pending (snd (vf_apple_gpio_set_in (gpio_demo 2) 1 True)) 0 1"
  using gpio_input_trigger [of "gpio_demo 2" 1 1 True 0] gpio_reachable_inv [OF gpio_demo_reachable [of 2]]
  by (simp add: gpio_demo_pin [simplified] gpio_irqgrp_def gpio_trigger_def)

text \<open>In every state reachable with at most 481 pins, a group's interrupt is reported asserted
  exactly when one of the pins is pending in that group.\<close>

theorem gpio_irq_asserted_exact:
  assumes "gpio_reachable pins g" "pins \<le> 481" "grp < nirqgrps g"
  shows "vf_apple_gpio_irq_asserted g grp = Some (\<exists>pin < npins g. gpio_pending g grp pin)"
  using gpio_group_active_iff [OF gpio_reachable_inv [OF assms(1,2)] assms(3)] assms(3)
  by (simp add: vf_apple_gpio_irq_asserted_def)

theorem gpio_irq_asserted_exact_witness:
  "vf_apple_gpio_irq_asserted (snd (vf_apple_gpio_set_in (gpio_demo 2) 1 True)) 0 =
    Some (\<exists>pin < npins (snd (vf_apple_gpio_set_in (gpio_demo 2) 1 True)).
       gpio_pending (snd (vf_apple_gpio_set_in (gpio_demo 2) 1 True)) 0 pin)"
  by (rule gpio_irq_asserted_exact [OF gpio_reachable.input [OF gpio_demo_reachable [of 2]]])
    (simp_all add: vf_apple_gpio_set_in_def gpio_demo_pin gpio_apply_input_irq_def gpio_trigger_def
      gpio_irqgrp_def Let_def)

text \<open>C34. With at most 481 pins no sequence of input changes and guest accesses ever indexes
  outside the pending-bit rows, nor outside the pin configurations and the level words: no operation marks
  a fault, as every access outside an array would. The initialiser also admits 482 to 511 pins, and there such a
  sequence exists: configuring the last of 482 pins as an edge interrupt does.\<close>

theorem gpio_rows_in_bounds:
  "(\<forall>pins g. pins \<le> 481 \<longrightarrow> gpio_reachable pins g \<longrightarrow> \<not> gpio_fault g)
   \<and> (\<exists>g. gpio_reachable 482 g \<and> gpio_fault g)"
proof (intro conjI allI impI exI)
  fix pins g assume "pins \<le> 481" "gpio_reachable pins g"
  then have "gpio_inv g" using gpio_reachable_inv by blast
  then show "\<not> gpio_fault g" by (simp add: gpio_inv_def)
next
  show "gpio_reachable 482 (gpio_demo 482)" by (rule gpio_demo_reachable) simp_all
  have "npins (gpio_boot 482) = 482" "nirqgrps (gpio_boot 482) = 1"
    by (simp_all add: gpio_boot_def vf_apple_gpio_init_def Let_def)
  then have "gpio_fault (gpio_int_clear_bit (gpio_boot 482) 0 481)"
    by (simp add: gpio_int_clear_bit_def gpio_int_word_def gpio_row_inside_def Let_def)
  then have "gpio_fault (gpio_update_level_pending (gpio_boot 482) 481 8)"
    using \<open>nirqgrps (gpio_boot 482) = 1\<close>
    by (simp add: gpio_update_level_pending_def gpio_irqgrp_def Let_def gpio_raise_irq_def split: option.split)
  then show "gpio_fault (gpio_demo 482)"
    using \<open>npins (gpio_boot 482) = 482\<close>
    by (simp add: gpio_demo_def vf_apple_gpio_write_def gpio_width_ok_def gpio_cfg_index_def
        gpio_update_pincfg_def gpio_drive_out_def gpio_pin_inside_def Let_def)
qed

theorem gpio_rows_in_bounds_witness: "\<not> gpio_fault (gpio_demo 2) \<and> gpio_reachable 2 (gpio_demo 2)"
  using conjunct1 [OF gpio_rows_in_bounds, rule_format, of 2 "gpio_demo 2"] gpio_demo_reachable [of 2] by simp

end
