(* ===== verification/Smc.thy ===== *)
theory Smc
  imports Prelude
begin

text \<open>
  The system management controller's key protocol, \<open>src/devices/apple_smc_v1.c\<close>. The message
  and response structures are copied to and from a 64-bit mailbox word with \<open>memcpy\<close> on a
  little-endian host: \<open>smc_decode_msg\<close> and \<open>smc_encode_resp\<close> are those copies. A pointer into
  the key table is an index.

  Shown: the table keeps distinct keys, sizes within the 8-byte slots and its seeded keys through
  every message; no message changes the permissions or the data of a read-only key; what a write
  stores, a read returns; every command but GET_SRAM_ADDR echoes the tag of its request.
\<close>

section \<open>Model\<close>

abbreviation (input) VF_SMC_SRAM_SIZE :: nat where "VF_SMC_SRAM_SIZE \<equiv> 0x4000"
abbreviation (input) VF_SMC_KEY_NKEY :: u32 where "VF_SMC_KEY_NKEY \<equiv> 0x234B4559"
abbreviation (input) VF_SMC_KEY_CLKH :: u32 where "VF_SMC_KEY_CLKH \<equiv> 0x434C4B48"
abbreviation (input) VF_SMC_KEY_RGEN :: u32 where "VF_SMC_KEY_RGEN \<equiv> 0x5247454E"
abbreviation (input) VF_SMC_KEY_ADC :: u32 where "VF_SMC_KEY_ADC \<equiv> 0x61444323"
abbreviation (input) VF_SMC_KEY_MBSE :: u32 where "VF_SMC_KEY_MBSE \<equiv> 0x4D425345"
abbreviation (input) VF_SMC_KEY_NESN :: u32 where "VF_SMC_KEY_NESN \<equiv> 0x4E45534E"
abbreviation (input) VF_SMC_CMD_READ_KEY :: u8 where "VF_SMC_CMD_READ_KEY \<equiv> 0x10"
abbreviation (input) VF_SMC_CMD_WRITE_KEY :: u8 where "VF_SMC_CMD_WRITE_KEY \<equiv> 0x11"
abbreviation (input) VF_SMC_CMD_GET_KEY_BY_INDEX :: u8 where "VF_SMC_CMD_GET_KEY_BY_INDEX \<equiv> 0x12"
abbreviation (input) VF_SMC_CMD_GET_KEY_INFO :: u8 where "VF_SMC_CMD_GET_KEY_INFO \<equiv> 0x13"
abbreviation (input) VF_SMC_CMD_GET_SRAM_ADDR :: u8 where "VF_SMC_CMD_GET_SRAM_ADDR \<equiv> 0x17"
abbreviation (input) VF_SMC_CMD_READ_KEY_PAYLOAD :: u8 where "VF_SMC_CMD_READ_KEY_PAYLOAD \<equiv> 0x20"
abbreviation (input) VF_SMC_SUCCESS :: u8 where "VF_SMC_SUCCESS \<equiv> 0"
abbreviation (input) VF_SMC_BAD_COMMAND :: u8 where "VF_SMC_BAD_COMMAND \<equiv> 0x82"
abbreviation (input) VF_SMC_KEY_NOT_FOUND :: u8 where "VF_SMC_KEY_NOT_FOUND \<equiv> 0x84"
abbreviation (input) VF_SMC_KEY_NOT_READABLE :: u8 where "VF_SMC_KEY_NOT_READABLE \<equiv> 0x85"
abbreviation (input) VF_SMC_KEY_NOT_WRITABLE :: u8 where "VF_SMC_KEY_NOT_WRITABLE \<equiv> 0x86"
abbreviation (input) VF_SMC_KEY_INDEX_RANGE :: u8 where "VF_SMC_KEY_INDEX_RANGE \<equiv> 0xb8"
abbreviation (input) VF_SMC_MAX_KEYS :: nat where "VF_SMC_MAX_KEYS \<equiv> 8"

record vf_smc_key_msg =
  msg_cmd :: u8
  msg_tag :: u8
  msg_length :: u8
  msg_payload_length :: u8
  msg_key :: u32

record vf_smc_key_resp =
  resp_status :: u8
  resp_tag :: u8
  resp_length :: u8
  resp_unk3 :: u8
  resp_response :: "u8 list"

record vf_smc_key_entry =
  ent_key :: u32
  ent_size :: nat
  ent_readable :: bool
  ent_writable :: bool
  ent_data :: "u8 list"

record vf_smc_v1 =
  smc_keys :: "vf_smc_key_entry list"
  key_count :: nat
  smc_sram_addr :: u64
  smc_sram :: "u8 list"

definition smc_zero_entry :: vf_smc_key_entry where
  "smc_zero_entry = \<lparr>ent_key = 0, ent_size = 0, ent_readable = False, ent_writable = False,
     ent_data = replicate 8 0\<rparr>"

definition smc_zero_resp :: vf_smc_key_resp where
  "smc_zero_resp = \<lparr>resp_status = 0, resp_tag = 0, resp_length = 0, resp_unk3 = 0,
     resp_response = replicate 4 0\<rparr>"

definition smc_decode_msg :: "u64 \<Rightarrow> vf_smc_key_msg" where
  "smc_decode_msg w = (let b = put_le64 w in
     \<lparr>msg_cmd = b ! 0, msg_tag = b ! 1, msg_length = b ! 2, msg_payload_length = b ! 3,
      msg_key = get_le32 (drop 4 b)\<rparr>)"

definition smc_encode_resp :: "vf_smc_key_resp \<Rightarrow> u64" where
  "smc_encode_resp r =
     get_le64 ([resp_status r, resp_tag r, resp_length r, resp_unk3 r] @ resp_response r)"

definition smc_find_key :: "vf_smc_v1 \<Rightarrow> u32 \<Rightarrow> nat option" where
  "smc_find_key s key = find (\<lambda>i. ent_key (smc_keys s ! i) = key) [0..<key_count s]"

definition smc_add_key :: "vf_smc_v1 \<Rightarrow> u32 \<Rightarrow> (nat \<times> vf_smc_v1) option" where
  "smc_add_key s key =
     (if key_count s \<ge> VF_SMC_MAX_KEYS then None
      else Some (key_count s,
        s\<lparr>smc_keys := (smc_keys s)[key_count s := smc_zero_entry\<lparr>ent_key := key\<rparr>],
          key_count := key_count s + 1\<rparr>))"

definition smc_set_entry :: "vf_smc_v1 \<Rightarrow> nat \<Rightarrow> vf_smc_key_entry \<Rightarrow> vf_smc_v1" where
  "smc_set_entry s i e = s\<lparr>smc_keys := (smc_keys s)[i := e]\<rparr>"

text \<open>One step of the seeding: \<open>k = smc_add_key(...)\<close> and the assignments to \<open>*k\<close>. The code does
  not test the pointer; six keys into an empty table of eight always fit.\<close>

definition smc_seed_key ::
  "u32 \<Rightarrow> nat \<Rightarrow> bool \<Rightarrow> bool \<Rightarrow> u8 list \<Rightarrow> vf_smc_v1 \<Rightarrow> vf_smc_v1" where
  "smc_seed_key key sz rd wr bytes s =
     (case smc_add_key s key of
        None \<Rightarrow> s
      | Some (i, s1) \<Rightarrow> smc_set_entry s1 i
          ((smc_keys s1 ! i)\<lparr>ent_size := sz, ent_readable := rd, ent_writable := wr,
             ent_data := splice (ent_data (smc_keys s1 ! i)) 0 bytes\<rparr>))"

definition smc_seed_boot_keys :: "vf_smc_v1 \<Rightarrow> vf_smc_v1" where
  "smc_seed_boot_keys s =
     smc_seed_key VF_SMC_KEY_NESN 4 False True [] (
     smc_seed_key VF_SMC_KEY_MBSE 4 False True [] (
     smc_seed_key VF_SMC_KEY_ADC 4 True False [] (
     smc_seed_key VF_SMC_KEY_RGEN 1 True False [3] (
     smc_seed_key VF_SMC_KEY_CLKH 8 True False [0x00, 0x00, 0x70, 0x80, 0x00, 0x01, 0x19, 0x40] (
     smc_seed_key VF_SMC_KEY_NKEY 4 True False [] s)))))"

text \<open>Status, the response with its length and bytes, and the state: reading \<open>#KEY\<close> refreshes its
  data, reading more than four bytes goes through the SRAM.\<close>

definition smc_read_key_data ::
  "vf_smc_v1 \<Rightarrow> nat \<Rightarrow> vf_smc_key_resp \<Rightarrow> u8 \<times> vf_smc_key_resp \<times> vf_smc_v1" where
  "smc_read_key_data s i r =
     (if \<not> ent_readable (smc_keys s ! i) then (VF_SMC_KEY_NOT_READABLE, r, s)
      else
        let s1 = (if ent_key (smc_keys s ! i) = VF_SMC_KEY_NKEY
                  then smc_set_entry s i ((smc_keys s ! i)\<lparr>ent_data :=
                         splice (ent_data (smc_keys s ! i)) 0 (put_le32 (of_nat (key_count s)))\<rparr>)
                  else s);
            k = smc_keys s1 ! i;
            r1 = r\<lparr>resp_length := of_nat (ent_size k)\<rparr> in
        if ent_size k \<le> 4 then
          (VF_SMC_SUCCESS,
           r1\<lparr>resp_response := splice (resp_response r1) 0 (take (ent_size k) (ent_data k))\<rparr>, s1)
        else if ent_size k \<le> 8 then
          (VF_SMC_SUCCESS, r1,
           s1\<lparr>smc_sram := splice (smc_sram s1) 0 (take (ent_size k) (ent_data k))\<rparr>)
        else (VF_SMC_KEY_NOT_FOUND, r1, s1))"

definition vf_smc_init :: "vf_smc_v1 \<Rightarrow> rc \<times> vf_smc_v1" where
  "vf_smc_init s =
     (OK, smc_seed_boot_keys
        \<lparr>smc_keys = replicate VF_SMC_MAX_KEYS smc_zero_entry, key_count = 0,
         smc_sram_addr = 0x100000000, smc_sram = replicate VF_SMC_SRAM_SIZE 0\<rparr>)"

text \<open>The bytes copied to the caller's buffer and the length stored.\<close>

definition vf_smc_read_key ::
  "vf_smc_v1 \<Rightarrow> u32 \<Rightarrow> nat \<Rightarrow> (u8 list \<times> nat) option \<times> vf_smc_v1" where
  "vf_smc_read_key s key buf_len =
     (case smc_find_key s key of
        None \<Rightarrow> (None, s)
      | Some i \<Rightarrow>
          (case smc_read_key_data s i smc_zero_resp of
             (st, r, s1) \<Rightarrow>
               let sz = ent_size (smc_keys s1 ! i) in
               if st \<noteq> VF_SMC_SUCCESS then (None, s1)
               else if sz > buf_len then (None, s1)
               else if sz \<le> 4 then (Some (take sz (resp_response r), sz), s1)
               else (Some (take sz (smc_sram s1), sz), s1)))"

definition smc_cmd_read_key :: "vf_smc_v1 \<Rightarrow> vf_smc_key_msg \<Rightarrow> vf_smc_key_resp \<times> vf_smc_v1" where
  "smc_cmd_read_key s m =
     (let r = smc_zero_resp\<lparr>resp_tag := msg_tag m\<rparr> in
      case smc_find_key s (msg_key m) of
        None \<Rightarrow> (r\<lparr>resp_status := VF_SMC_KEY_NOT_FOUND\<rparr>, s)
      | Some i \<Rightarrow>
          (case smc_read_key_data s i r of (st, r1, s1) \<Rightarrow> (r1\<lparr>resp_status := st\<rparr>, s1)))"

definition smc_be_bytes :: "u32 \<Rightarrow> u8 list" where
  "smc_be_bytes k = [ucast (drop_bit 24 k), ucast (drop_bit 16 k), ucast (drop_bit 8 k), ucast k]"

definition smc_cmd_key_info :: "vf_smc_v1 \<Rightarrow> vf_smc_key_msg \<Rightarrow> vf_smc_key_resp \<times> vf_smc_v1" where
  "smc_cmd_key_info s m =
     (let r = smc_zero_resp\<lparr>resp_tag := msg_tag m\<rparr> in
      case smc_find_key s (msg_key m) of
        None \<Rightarrow> (r\<lparr>resp_status := VF_SMC_KEY_NOT_FOUND\<rparr>, s)
      | Some i \<Rightarrow>
          let k = smc_keys s ! i;
              s1 = (if ent_size k + 5 \<le> VF_SMC_SRAM_SIZE
                    then s\<lparr>smc_sram := splice (smc_sram s) 0
                           ([of_nat (ent_size k)] @ smc_be_bytes (ent_key k) @ [0x04])\<rparr>
                    else s) in
          (r\<lparr>resp_status := VF_SMC_SUCCESS\<rparr>, s1))"

definition smc_cmd_key_by_index :: "vf_smc_v1 \<Rightarrow> vf_smc_key_msg \<Rightarrow> vf_smc_key_resp \<times> vf_smc_v1" where
  "smc_cmd_key_by_index s m =
     (let r = smc_zero_resp\<lparr>resp_tag := msg_tag m\<rparr>; idx = unat (msg_key m) in
      if idx \<ge> key_count s then (r\<lparr>resp_status := VF_SMC_KEY_INDEX_RANGE\<rparr>, s)
      else (r\<lparr>resp_status := VF_SMC_SUCCESS,
              resp_response := smc_be_bytes (ent_key (smc_keys s ! idx))\<rparr>, s))"

definition smc_cmd_write_key :: "vf_smc_v1 \<Rightarrow> vf_smc_key_msg \<Rightarrow> vf_smc_key_resp \<times> vf_smc_v1" where
  "smc_cmd_write_key s m =
     (let r = smc_zero_resp\<lparr>resp_tag := msg_tag m, resp_length := msg_length m\<rparr>;
          len = unat (msg_length m);
          bytes = take len (smc_sram s) in
      case smc_find_key s (msg_key m) of
        None \<Rightarrow>
          if len > 8 \<or> key_count s \<ge> VF_SMC_MAX_KEYS then (r\<lparr>resp_status := VF_SMC_KEY_NOT_FOUND\<rparr>, s)
          else (case smc_add_key s (msg_key m) of
                  None \<Rightarrow> (r\<lparr>resp_status := VF_SMC_KEY_NOT_FOUND\<rparr>, s)
                | Some (i, s1) \<Rightarrow>
                    (r\<lparr>resp_status := VF_SMC_SUCCESS\<rparr>,
                     smc_set_entry s1 i ((smc_keys s1 ! i)\<lparr>ent_size := len, ent_writable := True,
                        ent_readable := True, ent_data := splice (ent_data (smc_keys s1 ! i)) 0 bytes\<rparr>)))
      | Some i \<Rightarrow>
          if \<not> ent_writable (smc_keys s ! i) then (r\<lparr>resp_status := VF_SMC_KEY_NOT_WRITABLE\<rparr>, s)
          else if len \<le> 8 then
            (r\<lparr>resp_status := VF_SMC_SUCCESS\<rparr>,
             smc_set_entry s i ((smc_keys s ! i)\<lparr>ent_size := len,
               ent_data := splice (ent_data (smc_keys s ! i)) 0 bytes\<rparr>))
          else (r\<lparr>resp_status := VF_SMC_KEY_NOT_WRITABLE\<rparr>, s))"

definition vf_smc_handle_msg :: "vf_smc_v1 \<Rightarrow> u64 \<Rightarrow> u64 \<times> vf_smc_v1" where
  "vf_smc_handle_msg s msg_in =
     (let m = smc_decode_msg msg_in;
          reply = (\<lambda>(r, s'). (smc_encode_resp r, s')) in
      if msg_cmd m = VF_SMC_CMD_GET_SRAM_ADDR then (smc_sram_addr s, s)
      else if msg_cmd m = VF_SMC_CMD_READ_KEY \<or> msg_cmd m = VF_SMC_CMD_READ_KEY_PAYLOAD then
        reply (smc_cmd_read_key s m)
      else if msg_cmd m = VF_SMC_CMD_GET_KEY_INFO then reply (smc_cmd_key_info s m)
      else if msg_cmd m = VF_SMC_CMD_GET_KEY_BY_INDEX then reply (smc_cmd_key_by_index s m)
      else if msg_cmd m = VF_SMC_CMD_WRITE_KEY then reply (smc_cmd_write_key s m)
      else (smc_encode_resp (smc_zero_resp\<lparr>resp_status := VF_SMC_BAD_COMMAND, resp_tag := msg_tag m\<rparr>), s))"

section \<open>Invariant\<close>

definition smc_entry_wf :: "vf_smc_key_entry \<Rightarrow> bool" where
  "smc_entry_wf e \<longleftrightarrow> ent_size e \<le> 8 \<and> length (ent_data e) = 8"

text \<open>Slot 0 is the read-only key counter seeded at initialisation.\<close>

definition smc_inv :: "vf_smc_v1 \<Rightarrow> bool" where
  "smc_inv s \<longleftrightarrow> length (smc_keys s) = 8 \<and> 0 < key_count s \<and> key_count s \<le> 8
     \<and> (\<forall>e \<in> set (smc_keys s). smc_entry_wf e)
     \<and> distinct (map ent_key (take (key_count s) (smc_keys s)))
     \<and> length (smc_sram s) = 0x4000
     \<and> ent_key (smc_keys s ! 0) = VF_SMC_KEY_NKEY \<and> ent_size (smc_keys s ! 0) = 4
     \<and> ent_readable (smc_keys s ! 0) \<and> \<not> ent_writable (smc_keys s ! 0)"

lemma smc_find_key_None: "smc_find_key s key = None \<longleftrightarrow> (\<forall>i < key_count s. ent_key (smc_keys s ! i) \<noteq> key)"
  unfolding smc_find_key_def by (rule find_upt_None)

lemma smc_find_key_Some:
  "smc_find_key s key = Some i \<Longrightarrow> i < key_count s \<and> ent_key (smc_keys s ! i) = key"
  unfolding smc_find_key_def by (simp only: find_upt_Some)

lemma smc_inv_index: "smc_inv s \<Longrightarrow> i < key_count s \<Longrightarrow> i < length (smc_keys s)"
  by (simp add: smc_inv_def)

lemma smc_inv_distinct:
  "smc_inv s \<Longrightarrow> i < key_count s \<Longrightarrow> j < key_count s \<Longrightarrow>
   ent_key (smc_keys s ! i) = ent_key (smc_keys s ! j) \<Longrightarrow> i = j"
  using nth_eq_iff_index_eq [of "map ent_key (take (key_count s) (smc_keys s))" i j]
  by (simp add: smc_inv_def)

lemma smc_find_present:
  assumes "smc_inv s" "i < key_count s"
  shows "smc_find_key s (ent_key (smc_keys s ! i)) = Some i"
proof (cases "smc_find_key s (ent_key (smc_keys s ! i))")
  case None
  with assms(2) show ?thesis by (auto simp: smc_find_key_None)
next
  case (Some j)
  then show ?thesis using smc_find_key_Some [OF Some] smc_inv_distinct [OF assms(1)] assms(2) by auto
qed

lemma smc_inv_wf: "smc_inv s \<Longrightarrow> i < key_count s \<Longrightarrow> smc_entry_wf (smc_keys s ! i)"
  by (simp add: smc_inv_def)

lemma smc_entry_wf_splice:
  "smc_entry_wf e \<Longrightarrow> length bs \<le> 8 \<Longrightarrow> length (splice (ent_data e) 0 bs) = 8"
  by (simp add: smc_entry_wf_def)

lemma smc_inv_sram: "smc_inv s \<Longrightarrow> length bs \<le> 0x4000 \<Longrightarrow> smc_inv (s\<lparr>smc_sram := splice (smc_sram s) 0 bs\<rparr>)"
  by (simp add: smc_inv_def)

text \<open>Replacing an entry by a well-formed one with the same key and permissions.\<close>

lemma smc_inv_set_entry:
  assumes "smc_inv s" "i < key_count s" "smc_entry_wf e" "ent_key e = ent_key (smc_keys s ! i)"
    and "i = 0 \<Longrightarrow> ent_size e = 4 \<and> ent_readable e \<and> \<not> ent_writable e"
  shows "smc_inv (smc_set_entry s i e)"
proof -
  have "map ent_key (take (key_count s) ((smc_keys s)[i := e])) = map ent_key (take (key_count s) (smc_keys s))"
    using assms(2,4) smc_inv_index [OF assms(1,2)]
    by (auto intro!: nth_equalityI simp: nth_list_update)
  moreover have "x \<in> set ((smc_keys s)[i := e]) \<Longrightarrow> smc_entry_wf x" for x
    using assms(1,3) set_update_subset_insert [of "smc_keys s" i e] by (auto simp: smc_inv_def)
  ultimately show ?thesis
    using assms smc_inv_index [OF assms(1,2)]
    by (cases "i = 0") (simp_all add: smc_inv_def smc_set_entry_def)
qed

lemma smc_inv_add:
  assumes "smc_inv s" "smc_find_key s key = None" "key_count s < 8" "smc_entry_wf e" "ent_key e = key"
  shows "smc_inv (s\<lparr>smc_keys := (smc_keys s)[key_count s := e], key_count := key_count s + 1\<rparr>)"
proof -
  have n: "key_count s < length (smc_keys s)" "0 < key_count s" using assms(1,3) by (simp_all add: smc_inv_def)
  have "key \<notin> ent_key ` set (take (key_count s) (smc_keys s))"
  proof
    assume "key \<in> ent_key ` set (take (key_count s) (smc_keys s))"
    then obtain i where "i < key_count s" "ent_key (smc_keys s ! i) = key"
      by (auto simp: in_set_conv_nth)
    then show False using assms(2) by (simp add: smc_find_key_None)
  qed
  moreover have "take (Suc (key_count s)) ((smc_keys s)[key_count s := e]) = take (key_count s) (smc_keys s) @ [e]"
    using n by (simp add: take_Suc_conv_app_nth)
  moreover have "x \<in> set ((smc_keys s)[key_count s := e]) \<Longrightarrow> smc_entry_wf x" for x
    using assms(1,4) set_update_subset_insert [of "smc_keys s" "key_count s" e] by (auto simp: smc_inv_def)
  ultimately show ?thesis
    using assms(1,3,5) n by (simp add: smc_inv_def)
qed

section \<open>What messages keep\<close>

text \<open>\<open>s'\<close> has at least the keys of \<open>s\<close>, at the same places and with the same permissions, and the
  same data for every read-only key (the key counter aside, whose data is a cache).\<close>

definition smc_extends :: "vf_smc_v1 \<Rightarrow> vf_smc_v1 \<Rightarrow> bool" where
  "smc_extends s s' \<longleftrightarrow> key_count s \<le> key_count s' \<and>
     (\<forall>i < key_count s. let e = smc_keys s ! i; e' = smc_keys s' ! i in
        ent_key e' = ent_key e \<and> ent_readable e' = ent_readable e \<and> ent_writable e' = ent_writable e
        \<and> (\<not> ent_writable e \<longrightarrow> ent_size e' = ent_size e \<and> (ent_key e \<noteq> VF_SMC_KEY_NKEY \<longrightarrow> ent_data e' = ent_data e)))"

lemma smc_extends_refl [simp]: "smc_extends s s"
  by (simp add: smc_extends_def Let_def)

lemma smc_extends_trans: "smc_extends s t \<Longrightarrow> smc_extends t u \<Longrightarrow> smc_extends s u"
  by (auto simp: smc_extends_def Let_def)

lemma smc_extends_sram [simp]: "smc_extends s (t\<lparr>smc_sram := x\<rparr>) = smc_extends s t"
  by (simp add: smc_extends_def)

lemma smc_extends_set:
  assumes "smc_inv s" "i < key_count s" "ent_key e = ent_key (smc_keys s ! i)"
    "ent_readable e = ent_readable (smc_keys s ! i)" "ent_writable e = ent_writable (smc_keys s ! i)"
    "\<not> ent_writable e \<Longrightarrow> ent_size e = ent_size (smc_keys s ! i) \<and> ent_key e = VF_SMC_KEY_NKEY"
  shows "smc_extends s (smc_set_entry s i e)"
  using assms smc_inv_index [OF assms(1,2)]
  by (auto simp: smc_extends_def smc_set_entry_def nth_list_update Let_def)

lemma smc_extends_add:
  "smc_extends s (s\<lparr>smc_keys := (smc_keys s)[key_count s := e], key_count := key_count s + 1\<rparr>)"
  by (simp add: smc_extends_def)

lemma smc_read_key_data_ok:
  assumes "smc_inv s" "i < key_count s" "smc_read_key_data s i r = (st, r', s')"
  shows "smc_inv s'" "smc_extends s s'" "resp_tag r' = resp_tag r" "resp_unk3 r' = resp_unk3 r"
    "length (resp_response r) = 4 \<Longrightarrow> length (resp_response r') = 4"
proof -
  let ?k = "smc_keys s ! i"
  let ?s1 = "if ent_key ?k = VF_SMC_KEY_NKEY
     then smc_set_entry s i (?k\<lparr>ent_data := splice (ent_data ?k) 0 (put_le32 (of_nat (key_count s)))\<rparr>) else s"
  have wf: "smc_entry_wf ?k" by (rule smc_inv_wf [OF assms(1,2)])
  have zero: "i = 0 \<Longrightarrow> ent_size ?k = 4 \<and> ent_readable ?k \<and> \<not> ent_writable ?k"
    using assms(1) by (simp add: smc_inv_def)
  have nkey: "ent_key ?k = VF_SMC_KEY_NKEY \<Longrightarrow> i = 0"
    using smc_inv_distinct [OF assms(1,2), of 0] assms(1) by (simp add: smc_inv_def)
  have s1: "smc_inv ?s1"
    using smc_inv_set_entry [OF assms(1,2), of "?k\<lparr>ent_data := splice (ent_data ?k) 0 (put_le32 (of_nat (key_count s)))\<rparr>"]
      wf zero smc_entry_wf_splice [OF wf] assms(1) by (simp add: smc_entry_wf_def)
  have e1: "smc_extends s ?s1"
    using smc_extends_set [OF assms(1,2), of "?k\<lparr>ent_data := splice (ent_data ?k) 0 (put_le32 (of_nat (key_count s)))\<rparr>"]
    by simp
  have sz: "ent_size (smc_keys ?s1 ! i) \<le> 8 \<and> length (ent_data (smc_keys ?s1 ! i)) = 8"
    using smc_inv_wf [OF s1, of i] assms(2) by (simp add: smc_entry_wf_def smc_set_entry_def)
  note def = assms(3) [unfolded smc_read_key_data_def Let_def]
  show "smc_inv s'"
    using def s1 assms(1) sz by (auto split: if_splits intro!: smc_inv_sram)
  show "smc_extends s s'"
    using def e1 by (auto split: if_splits)
  show "resp_tag r' = resp_tag r" "resp_unk3 r' = resp_unk3 r"
    using def by (auto split: if_splits)
  show "length (resp_response r) = 4 \<Longrightarrow> length (resp_response r') = 4"
    using def sz by (auto split: if_splits)
qed

lemma smc_write_entry:
  assumes "smc_inv s" "i < key_count s" "ent_writable (smc_keys s ! i)" "n \<le> 8"
  defines "e \<equiv> (smc_keys s ! i)\<lparr>ent_size := n, ent_data := splice (ent_data (smc_keys s ! i)) 0 (take n (smc_sram s))\<rparr>"
  shows "smc_inv (smc_set_entry s i e)" "smc_extends s (smc_set_entry s i e)"
proof -
  have "i \<noteq> 0" using assms(1,3) by (metis smc_inv_def)
  moreover have "smc_entry_wf e"
    using smc_inv_wf [OF assms(1,2)] assms(1,4) by (simp add: e_def smc_entry_wf_def smc_inv_def)
  ultimately show "smc_inv (smc_set_entry s i e)"
    using assms(1,2) by (auto simp: e_def intro!: smc_inv_set_entry)
  show "smc_extends s (smc_set_entry s i e)"
    using assms(1-3) by (auto simp: e_def intro!: smc_extends_set)
qed

text \<open>The write command, branch by branch.\<close>

lemma smc_cmd_write_key_cases:
  fixes m :: vf_smc_key_msg
  assumes "smc_inv s"
  defines "len \<equiv> unat (msg_length m)"
  defines "r \<equiv> smc_zero_resp\<lparr>resp_tag := msg_tag m, resp_length := msg_length m\<rparr>"
  obtains (fail) st where "st \<noteq> 0" "smc_cmd_write_key s m = (r\<lparr>resp_status := st\<rparr>, s)"
  | (new) e where "smc_find_key s (msg_key m) = None" "key_count s < 8" "len \<le> 8" "smc_entry_wf e"
      "ent_key e = msg_key m" "ent_readable e" "ent_size e = len" "take len (ent_data e) = take len (smc_sram s)"
      "smc_cmd_write_key s m = (r\<lparr>resp_status := 0\<rparr>,
         s\<lparr>smc_keys := (smc_keys s)[key_count s := e], key_count := key_count s + 1\<rparr>)"
  | (old) i where "smc_find_key s (msg_key m) = Some i" "ent_writable (smc_keys s ! i)" "len \<le> 8"
      "smc_cmd_write_key s m = (r\<lparr>resp_status := 0\<rparr>, smc_set_entry s i ((smc_keys s ! i)\<lparr>ent_size := len,
         ent_data := splice (ent_data (smc_keys s ! i)) 0 (take len (smc_sram s))\<rparr>))"
proof (cases "smc_find_key s (msg_key m)")
  case None
  show thesis
  proof (cases "len > 8 \<or> key_count s \<ge> 8")
    case True
    with None show thesis
      by (intro fail [of "0x84"]) (simp_all add: smc_cmd_write_key_def Let_def len_def r_def)
  next
    case False
    let ?e = "smc_zero_entry\<lparr>ent_key := msg_key m, ent_size := len, ent_writable := True,
        ent_readable := True, ent_data := splice (replicate 8 0) 0 (take len (smc_sram s))\<rparr>"
    have l: "length (smc_sram s) = 0x4000" "length (smc_keys s) = 8" using assms(1) by (simp_all add: smc_inv_def)
    have "take len (splice (replicate 8 0) 0 (take len (smc_sram s))) = take len (smc_sram s)"
      using l False by (simp add: splice_def)
    with None False l show thesis
      by (intro new [of ?e])
        (simp_all add: smc_cmd_write_key_def Let_def len_def r_def smc_add_key_def smc_set_entry_def
          smc_zero_entry_def smc_entry_wf_def)
  qed
next
  case (Some i)
  show thesis
  proof (cases "ent_writable (smc_keys s ! i) \<and> len \<le> 8")
    case True
    with Some show thesis
      by (intro old [of i]) (simp_all add: smc_cmd_write_key_def Let_def len_def r_def)
  next
    case False
    with Some show thesis
      by (intro fail [of "0x86"]) (auto simp: smc_cmd_write_key_def Let_def len_def r_def)
  qed
qed

lemma smc_handle_ok:
  assumes "smc_inv s"
  shows "smc_inv (snd (vf_smc_handle_msg s w)) \<and> smc_extends s (snd (vf_smc_handle_msg s w))"
proof -
  let ?m = "smc_decode_msg w"
  have read: "smc_inv (snd (smc_cmd_read_key s m)) \<and> smc_extends s (snd (smc_cmd_read_key s m))" for m
    using assms smc_read_key_data_ok [OF assms] smc_find_key_Some [of s "msg_key m"]
    by (auto simp: smc_cmd_read_key_def Let_def split: option.split prod.split)
  have info: "smc_inv (snd (smc_cmd_key_info s m)) \<and> smc_extends s (snd (smc_cmd_key_info s m))" for m
    using assms by (auto simp: smc_cmd_key_info_def smc_be_bytes_def Let_def intro!: smc_inv_sram split: option.split)
  have index: "snd (smc_cmd_key_by_index s m) = s" for m
    by (simp add: smc_cmd_key_by_index_def Let_def)
  have "smc_inv (snd (smc_cmd_write_key s ?m)) \<and> smc_extends s (snd (smc_cmd_write_key s ?m))"
    using assms
  proof (cases rule: smc_cmd_write_key_cases [of s ?m, case_names fail new old])
    case (new e)
    then show ?thesis using smc_inv_add [OF assms] smc_extends_add by simp
  next
    case (old i)
    then show ?thesis using smc_write_entry [OF assms, of i] smc_find_key_Some by fastforce
  qed (use assms in simp_all)
  with read info index assms show ?thesis
    by (simp add: vf_smc_handle_msg_def Let_def split_beta)
qed

section \<open>Properties\<close>

definition smc_run :: "vf_smc_v1 \<Rightarrow> u64 list \<Rightarrow> vf_smc_v1" where
  "smc_run s ws = foldl (\<lambda>s w. snd (vf_smc_handle_msg s w)) s ws"

lemma smc_run_ok: "smc_inv s \<Longrightarrow> smc_inv (smc_run s ws) \<and> smc_extends s (smc_run s ws)"
  unfolding smc_run_def
proof (induction ws arbitrary: s)
  case (Cons w ws)
  then show ?case
    using smc_handle_ok [OF Cons.prems, of w] Cons.IH smc_extends_trans by fastforce
qed simp

definition smc_boot :: vf_smc_v1 where
  "smc_boot = snd (vf_smc_init undefined)"

lemma replicate_8: "replicate 8 x = [x, x, x, x, x, x, x, x]"
  by (simp add: numeral_eq_Suc)

lemma smc_boot_keys:
  "key_count smc_boot = 6"
  "map ent_key (smc_keys smc_boot) = [0x234B4559, 0x434C4B48, 0x5247454E, 0x61444323, 0x4D425345, 0x4E45534E, 0, 0]"
  "map ent_writable (smc_keys smc_boot) = [False, False, False, False, True, True, False, False]"
  "length (smc_keys smc_boot) = 8"
  "\<forall>e \<in> set (smc_keys smc_boot). smc_entry_wf e" "length (smc_sram smc_boot) = 0x4000"
  "ent_readable (smc_keys smc_boot ! 0)" "ent_size (smc_keys smc_boot ! 0) = 4"
  "\<not> ent_writable (smc_keys smc_boot ! 0)" "ent_key (smc_keys smc_boot ! 0) = 0x234B4559"
  by (simp_all add: smc_boot_def vf_smc_init_def smc_seed_boot_keys_def smc_seed_key_def smc_add_key_def
      smc_set_entry_def smc_entry_wf_def smc_zero_entry_def splice_def replicate_8)

lemma smc_boot_inv: "smc_inv smc_boot"
proof -
  have "distinct (map ent_key (take 6 (smc_keys smc_boot)))"
    by (simp add: smc_boot_keys(2) take_map [symmetric])
  then show ?thesis
    using smc_boot_keys by (simp add: smc_inv_def)
qed

text \<open>The reply as the four header bytes and the response bytes.\<close>

lemma smc_encode_bytes:
  "length (resp_response r) = 4 \<Longrightarrow>
   put_le64 (smc_encode_resp r) = [resp_status r, resp_tag r, resp_length r, resp_unk3 r] @ resp_response r"
  unfolding smc_encode_resp_def by (rule put_get_le64) simp

lemma smc_handle_write:
  "msg_cmd (smc_decode_msg w) = VF_SMC_CMD_WRITE_KEY \<Longrightarrow>
   vf_smc_handle_msg s w = (smc_encode_resp (fst (smc_cmd_write_key s (smc_decode_msg w))),
     snd (smc_cmd_write_key s (smc_decode_msg w)))"
  by (simp add: vf_smc_handle_msg_def Let_def split_beta)

lemma smc_read_key_value:
  assumes "smc_inv s" "i < key_count s" "ent_readable (smc_keys s ! i)" "i \<noteq> 0"
    "ent_size (smc_keys s ! i) \<le> n"
  shows "fst (vf_smc_read_key s (ent_key (smc_keys s ! i)) n) =
    Some (take (ent_size (smc_keys s ! i)) (ent_data (smc_keys s ! i)), ent_size (smc_keys s ! i))"
proof -
  have nk: "ent_key (smc_keys s ! i) \<noteq> VF_SMC_KEY_NKEY"
  proof
    assume "ent_key (smc_keys s ! i) = VF_SMC_KEY_NKEY"
    then have "ent_key (smc_keys s ! i) = ent_key (smc_keys s ! 0)" "0 < key_count s"
      using assms(1) by (simp_all add: smc_inv_def)
    then show False using smc_inv_distinct [OF assms(1,2), of 0] assms(4) by simp
  qed
  have wf: "ent_size (smc_keys s ! i) \<le> 8" "length (ent_data (smc_keys s ! i)) = 8"
    using smc_inv_wf [OF assms(1,2)] by (simp_all add: smc_entry_wf_def)
  have sram: "length (smc_sram s) = 0x4000" using assms(1) by (simp add: smc_inv_def)
  show ?thesis
    using assms(3,5) nk wf sram
    by (simp add: vf_smc_read_key_def smc_find_present [OF assms(1,2)] smc_read_key_data_def smc_zero_resp_def
        splice_def min_def Let_def)
qed

text \<open>The key table is well formed after initialisation and after every sequence of messages
  (sizes within the slots, distinct keys, the key counter in slot 0), and no message sequence
  moves or removes a key, changes its permissions, or changes the size or data of a read-only
  key (the counter's cached data aside).\<close>

theorem smc_table_integrity:
  "smc_inv (smc_run smc_boot ws) \<and> smc_extends (smc_run smc_boot ws) (smc_run smc_boot (ws @ vs))"
  using smc_run_ok [OF smc_boot_inv, of ws] smc_run_ok [of "smc_run smc_boot ws" vs]
  by (simp add: smc_run_def)

text \<open>C35. A WRITE_KEY message that reports success on a readable key makes the next direct read of
  that key return exactly the bytes that were staged at the start of the SRAM, with the length of
  the message. A write to a key the table does not have can report success too: it adds the key,
  where \<open>SMC.md\<close> has missing keys answered with \<open>kSMCKeyNotFound\<close> and lists the creation of keys by a
  generic write as deferred.\<close>

theorem smc_write_read_roundtrip:
  assumes "smc_inv s" "msg_cmd (smc_decode_msg w) = VF_SMC_CMD_WRITE_KEY"
    and "put_le64 (fst (vf_smc_handle_msg s w)) ! 0 = VF_SMC_SUCCESS"
    and "\<And>i. smc_find_key s (msg_key (smc_decode_msg w)) = Some i \<Longrightarrow> ent_readable (smc_keys s ! i)"
  shows "fst (vf_smc_read_key (snd (vf_smc_handle_msg s w)) (msg_key (smc_decode_msg w)) 8) =
    Some (take (unat (msg_length (smc_decode_msg w))) (smc_sram s), unat (msg_length (smc_decode_msg w)))
    \<and> key_count (snd (vf_smc_handle_msg s w))
        = key_count s + (if smc_find_key s (msg_key (smc_decode_msg w)) = None then 1 else 0)"
  using assms(1)
proof (cases rule: smc_cmd_write_key_cases [of s "smc_decode_msg w", case_names fail new old])
  case (fail st)
  with assms(3) show ?thesis
    by (simp add: smc_handle_write [OF assms(2)] smc_encode_bytes smc_zero_resp_def)
next
  case (new e)
  let ?t = "s\<lparr>smc_keys := (smc_keys s)[key_count s := e], key_count := key_count s + 1\<rparr>"
  have "smc_inv ?t" using smc_inv_add [OF assms(1) new(1,2,4,5)] .
  moreover have "key_count s < length (smc_keys s)" "key_count s \<noteq> 0"
    using assms(1) new(2) by (simp_all add: smc_inv_def)
  ultimately show ?thesis
    using smc_read_key_value [of ?t "key_count s" 8] new by (simp add: smc_handle_write [OF assms(2)])
next
  case (old i)
  let ?n = "unat (msg_length (smc_decode_msg w))"
  let ?e = "(smc_keys s ! i)\<lparr>ent_size := ?n, ent_data := splice (ent_data (smc_keys s ! i)) 0 (take ?n (smc_sram s))\<rparr>"
  have i: "i < key_count s" "ent_key (smc_keys s ! i) = msg_key (smc_decode_msg w)"
    using smc_find_key_Some [OF old(1)] by simp_all
  have "i \<noteq> 0" using assms(1) old(2) by (metis smc_inv_def)
  moreover have "smc_keys (smc_set_entry s i ?e) ! i = ?e"
    using smc_inv_index [OF assms(1) i(1)] by (simp add: smc_set_entry_def)
  moreover have "take ?n (splice (ent_data (smc_keys s ! i)) 0 (take ?n (smc_sram s))) = take ?n (smc_sram s)"
    using old(3) assms(1) by (simp add: splice_def smc_inv_def)
  moreover have "key_count (smc_set_entry s i ?e) = key_count s" by (simp add: smc_set_entry_def)
  ultimately show ?thesis
    using smc_read_key_value [OF smc_write_entry(1) [OF assms(1) i(1) old(2,3)], of i 8]
      assms(4) [OF old(1)] old(1,3,4) i
    by (simp add: smc_handle_write [OF assms(2)])
qed

text \<open>A write of the four bytes at the start of the SRAM to the new key \<open>0x41414141\<close>, tag 7.\<close>

definition smc_demo_msg :: u64 where
  "smc_demo_msg = 0x4141414100040711"

lemma smc_demo_decode:
  "smc_decode_msg smc_demo_msg =
     \<lparr>msg_cmd = 0x11, msg_tag = 7, msg_length = 4, msg_payload_length = 0, msg_key = 0x41414141\<rparr>"
  by (simp add: smc_decode_msg_def smc_demo_msg_def put_le64_def get_le32_def)

lemma smc_demo_find: "smc_find_key smc_boot 0x41414141 = None"
proof -
  have "ent_key (smc_keys smc_boot ! i) \<noteq> 0x41414141" if "i < 6" for i
  proof -
    have "ent_key (smc_keys smc_boot ! i) = map ent_key (smc_keys smc_boot) ! i"
      using that smc_boot_keys(4) by simp
    moreover from that have "i \<in> {0, 1, 2, 3, 4, 5}" by auto
    ultimately show ?thesis by (auto simp: smc_boot_keys(2))
  qed
  then show ?thesis by (simp add: smc_find_key_None smc_boot_keys(1))
qed

theorem smc_write_read_roundtrip_witness:
  "fst (vf_smc_read_key (snd (vf_smc_handle_msg smc_boot smc_demo_msg)) 0x41414141 8) =
     Some (take 4 (smc_sram smc_boot), 4)
   \<and> key_count (snd (vf_smc_handle_msg smc_boot smc_demo_msg)) = key_count smc_boot + 1"
proof -
  have "put_le64 (fst (vf_smc_handle_msg smc_boot smc_demo_msg)) ! 0 = 0"
    by (simp add: smc_handle_write smc_demo_decode smc_cmd_write_key_def smc_demo_find smc_boot_keys
        smc_add_key_def smc_encode_bytes smc_zero_resp_def)
  then show ?thesis
    using smc_write_read_roundtrip [OF smc_boot_inv, of smc_demo_msg]
    by (simp add: smc_demo_decode smc_demo_find)
qed

end
