(* ===== verification/Pci.thy ===== *)
theory Pci
  imports Prelude
begin

text \<open>
  The PCIe host function, \<open>src/devices/ans_pci_v1.c\<close>. The two callbacks (MSI message sink and
  interrupt-controller line) are caller code: each is a function that decides, from the calls it
  has received so far and the present one, whether it accepts (C result \<open>0\<close>), and the record
  keeps the list of calls made since it was bound. The GPA window is the bytes of the bound host
  buffer.

  Shown: at most one of the INTx, MSI and MSI-X latches is pending, in the mode that is enabled;
  reprogramming the modes never loses or invents an interrupt; a bound controller line always
  carries the delivery level; an MSI message is written little-endian inside the window or not
  at all.
\<close>

section \<open>Model\<close>

abbreviation (input) VF_ANS_PCI_TIER_HOST :: u32 where "VF_ANS_PCI_TIER_HOST \<equiv> 3"
abbreviation (input) VF_ANS_PCI_STATUS_BOOTSTRAP :: u32 where "VF_ANS_PCI_STATUS_BOOTSTRAP \<equiv> 1"
abbreviation (input) VF_ANS_PCI_FLAG_PRESENT :: u32 where "VF_ANS_PCI_FLAG_PRESENT \<equiv> push_bit 0 1"
abbreviation (input) VF_ANS_PCI_FLAG_MMIO_CONTAINER :: u32 where "VF_ANS_PCI_FLAG_MMIO_CONTAINER \<equiv> push_bit 1 1"
abbreviation (input) VF_ANS_PCI_FLAG_IOPORT_CONTAINER :: u32 where "VF_ANS_PCI_FLAG_IOPORT_CONTAINER \<equiv> push_bit 2 1"
abbreviation (input) VF_ANS_PCI_FLAG_MSI_CAPABLE :: u32 where "VF_ANS_PCI_FLAG_MSI_CAPABLE \<equiv> push_bit 3 1"
abbreviation (input) VF_ANS_PCI_FLAG_MSIX_CAPABLE :: u32 where "VF_ANS_PCI_FLAG_MSIX_CAPABLE \<equiv> push_bit 4 1"
abbreviation (input) VF_ANS_PCI_COMMAND_MASTER :: u16 where "VF_ANS_PCI_COMMAND_MASTER \<equiv> push_bit 2 1"
abbreviation (input) VF_ANS_PCI_COMMAND_ENABLE_MASK :: u16 where
  "VF_ANS_PCI_COMMAND_ENABLE_MASK \<equiv> push_bit 1 1 OR push_bit 2 1"
abbreviation (input) VF_ANS_PCI_MSI_ENABLE :: u64 where "VF_ANS_PCI_MSI_ENABLE \<equiv> push_bit 0 1"
abbreviation (input) VF_ANS_PCI_MSIX_ENABLE :: u64 where "VF_ANS_PCI_MSIX_ENABLE \<equiv> push_bit 0 1"
abbreviation (input) VF_ANS_PCI_MSIX_BIR_MASK :: u64 where "VF_ANS_PCI_MSIX_BIR_MASK \<equiv> 7"
abbreviation (input) VF_ANS_PCI_AIC_STORAGE_IRQ_LINE :: nat where "VF_ANS_PCI_AIC_STORAGE_IRQ_LINE \<equiv> 1"
abbreviation (input) VF_ANS_PCI_IOPORT_SIZE :: u64 where "VF_ANS_PCI_IOPORT_SIZE \<equiv> 64 * 1024"
abbreviation (input) VF_ANS_PCI_MMCFG_SIZE :: u64 where "VF_ANS_PCI_MMCFG_SIZE \<equiv> push_bit 28 1"
abbreviation (input) VF_ANS_PCI_MMIO_STATUS :: nat where "VF_ANS_PCI_MMIO_STATUS \<equiv> 0x000"
abbreviation (input) VF_ANS_PCI_MMIO_FLAGS :: nat where "VF_ANS_PCI_MMIO_FLAGS \<equiv> 0x004"
abbreviation (input) VF_ANS_PCI_MMIO_TIER :: nat where "VF_ANS_PCI_MMIO_TIER \<equiv> 0x008"
abbreviation (input) VF_ANS_PCI_MMIO_IOPORT_SIZE :: nat where "VF_ANS_PCI_MMIO_IOPORT_SIZE \<equiv> 0x010"
abbreviation (input) VF_ANS_PCI_MMIO_MMCFG_SIZE :: nat where "VF_ANS_PCI_MMIO_MMCFG_SIZE \<equiv> 0x014"
abbreviation (input) VF_ANS_PCI_MMIO_CONFIG :: nat where "VF_ANS_PCI_MMIO_CONFIG \<equiv> 0x018"
abbreviation (input) VF_ANS_PCI_MMIO_MSI_CTRL :: nat where "VF_ANS_PCI_MMIO_MSI_CTRL \<equiv> 0x020"
abbreviation (input) VF_ANS_PCI_MMIO_MSI_ADDR :: nat where "VF_ANS_PCI_MMIO_MSI_ADDR \<equiv> 0x028"
abbreviation (input) VF_ANS_PCI_MMIO_MSI_DATA :: nat where "VF_ANS_PCI_MMIO_MSI_DATA \<equiv> 0x030"
abbreviation (input) VF_ANS_PCI_MMIO_MSIX_CTRL :: nat where "VF_ANS_PCI_MMIO_MSIX_CTRL \<equiv> 0x038"
abbreviation (input) VF_ANS_PCI_MMIO_MSIX_TABLE_BIR :: nat where "VF_ANS_PCI_MMIO_MSIX_TABLE_BIR \<equiv> 0x03c"
abbreviation (input) VF_ANS_PCI_MMIO_SIZE :: nat where "VF_ANS_PCI_MMIO_SIZE \<equiv> 0x040"
abbreviation (input) VF_ANS_PCI_MSI_MSG_BYTES :: nat where "VF_ANS_PCI_MSI_MSG_BYTES \<equiv> 2"

type_synonym vf_ans_pci_msi_message_fn = "(u64 \<times> u16) list \<Rightarrow> u64 \<times> u16 \<Rightarrow> bool"
type_synonym vf_ans_pci_aic_fn = "(nat \<times> bool) list \<Rightarrow> nat \<times> bool \<Rightarrow> bool"

record vf_ans_pci_v1 =
  pci_status :: u32
  pci_flags :: u32
  pci_command :: u16
  pci_last_config_write :: u64
  pci_config_write_seen :: bool
  intx_pending :: bool
  msi_enabled :: bool
  msi_addr :: u64
  msi_data :: u16
  msi_pending :: bool
  msix_enabled :: bool
  msix_table_bir :: u8
  msix_pending :: bool
  msi_gpa_mem :: "u8 list option"
  msi_gpa_len :: nat
  msi_gpa_base :: u64
  msi_message_fn :: "vf_ans_pci_msi_message_fn option"
  msi_message_log :: "(u64 \<times> u16) list"
  msi_message_written :: bool
  last_msi_message_addr :: u64
  last_msi_message_data :: u16
  pci_aic_fn :: "vf_ans_pci_aic_fn option"
  pci_aic_log :: "(nat \<times> bool) list"
  pci_aic_sync_seen :: bool
  pci_aic_line_high :: bool

definition ans_pci_delivery_pending_level :: "vf_ans_pci_v1 \<Rightarrow> bool" where
  "ans_pci_delivery_pending_level s \<longleftrightarrow> intx_pending s \<or> msi_pending s \<or> msix_pending s"

definition ans_pci_sync_aic :: "vf_ans_pci_v1 \<Rightarrow> rc \<times> vf_ans_pci_v1" where
  "ans_pci_sync_aic s =
     (let high = ans_pci_delivery_pending_level s; arg = (VF_ANS_PCI_AIC_STORAGE_IRQ_LINE, high) in
      case pci_aic_fn s of
        None \<Rightarrow> (ERR, s)
      | Some f \<Rightarrow>
          let ok = f (pci_aic_log s) arg; s1 = s\<lparr>pci_aic_log := pci_aic_log s @ [arg]\<rparr> in
          if \<not> ok then (ERR, s1)
          else (OK, s1\<lparr>pci_aic_sync_seen := True, pci_aic_line_high := high\<rparr>))"

definition ans_pci_message_done :: "vf_ans_pci_v1 \<Rightarrow> vf_ans_pci_v1" where
  "ans_pci_message_done s = s\<lparr>msi_message_written := True, last_msi_message_addr := msi_addr s,
     last_msi_message_data := msi_data s\<rparr>"

definition ans_pci_try_msi_message_write :: "vf_ans_pci_v1 \<Rightarrow> rc \<times> vf_ans_pci_v1" where
  "ans_pci_try_msi_message_write s =
     (case msi_gpa_mem s of
        Some mem \<Rightarrow>
          if msi_addr s < msi_gpa_base s then (ERR, s)
          else
            let off = unat (msi_addr s - msi_gpa_base s) in
            if off > msi_gpa_len s then (ERR, s)
            else if msi_gpa_len s - off < VF_ANS_PCI_MSI_MSG_BYTES then (ERR, s)
            else (OK, ans_pci_message_done
                   (s\<lparr>msi_gpa_mem := Some (mem[off := ucast (msi_data s AND 0xff),
                        off + 1 := ucast (drop_bit 8 (msi_data s) AND 0xff)])\<rparr>))
      | None \<Rightarrow>
          (case msi_message_fn s of
             None \<Rightarrow> (ERR, s)
           | Some f \<Rightarrow>
               let arg = (msi_addr s, msi_data s); ok = f (msi_message_log s) arg;
                   s1 = s\<lparr>msi_message_log := msi_message_log s @ [arg]\<rparr> in
               if \<not> ok then (ERR, s1) else (OK, ans_pci_message_done s1)))"

definition ans_pci_apply_msi_enable :: "vf_ans_pci_v1 \<Rightarrow> bool \<Rightarrow> vf_ans_pci_v1" where
  "ans_pci_apply_msi_enable s now =
     (let was = msi_enabled s; s1 = s\<lparr>msi_enabled := now\<rparr> in
      if msix_enabled s1 then snd (ans_pci_sync_aic s1)
      else
        let s2 =
          (if \<not> was \<and> now then
             (if intx_pending s1
              then snd (ans_pci_try_msi_message_write (s1\<lparr>msi_pending := True, intx_pending := False\<rparr>))
              else s1)
           else if was \<and> \<not> now then
             (if msi_pending s1 then s1\<lparr>intx_pending := True, msi_pending := False\<rparr> else s1)
           else s1) in
        snd (ans_pci_sync_aic s2))"

definition ans_pci_apply_msix_enable :: "vf_ans_pci_v1 \<Rightarrow> bool \<Rightarrow> vf_ans_pci_v1" where
  "ans_pci_apply_msix_enable s now =
     (let was = msix_enabled s; s1 = s\<lparr>msix_enabled := now\<rparr>;
          s2 =
            (if \<not> was \<and> now then
               (if intx_pending s1 \<or> msi_pending s1
                then s1\<lparr>msix_pending := True, intx_pending := False, msi_pending := False\<rparr> else s1)
             else if was \<and> \<not> now then
               (if msix_pending s1 then
                  let s3 = s1\<lparr>msix_pending := False\<rparr> in
                  if msi_enabled s3
                  then snd (ans_pci_try_msi_message_write (s3\<lparr>msi_pending := True, intx_pending := False\<rparr>))
                  else s3\<lparr>intx_pending := True\<rparr>
                else s1)
             else s1) in
      snd (ans_pci_sync_aic s2))"

definition vf_ans_pci_init :: "vf_ans_pci_v1 \<Rightarrow> rc \<times> vf_ans_pci_v1" where
  "vf_ans_pci_init s =
     (OK, \<lparr>pci_status = VF_ANS_PCI_STATUS_BOOTSTRAP,
           pci_flags = VF_ANS_PCI_FLAG_PRESENT OR VF_ANS_PCI_FLAG_MMIO_CONTAINER OR
             VF_ANS_PCI_FLAG_IOPORT_CONTAINER OR VF_ANS_PCI_FLAG_MSI_CAPABLE OR VF_ANS_PCI_FLAG_MSIX_CAPABLE,
           pci_command = 0, pci_last_config_write = 0, pci_config_write_seen = False, intx_pending = False,
           msi_enabled = False, msi_addr = 0, msi_data = 0, msi_pending = False, msix_enabled = False,
           msix_table_bir = 0, msix_pending = False, msi_gpa_mem = None, msi_gpa_len = 0, msi_gpa_base = 0,
           msi_message_fn = None, msi_message_log = [], msi_message_written = False,
           last_msi_message_addr = 0, last_msi_message_data = 0, pci_aic_fn = None, pci_aic_log = [],
           pci_aic_sync_seen = False, pci_aic_line_high = False\<rparr>)"

definition vf_ans_pci_status :: "vf_ans_pci_v1 \<Rightarrow> u32" where "vf_ans_pci_status s = pci_status s"
definition vf_ans_pci_flags :: "vf_ans_pci_v1 \<Rightarrow> u32" where "vf_ans_pci_flags s = pci_flags s"
definition vf_ans_pci_command :: "vf_ans_pci_v1 \<Rightarrow> u16" where "vf_ans_pci_command s = pci_command s"

definition vf_ans_pci_bus_master_enabled :: "vf_ans_pci_v1 \<Rightarrow> bool" where
  "vf_ans_pci_bus_master_enabled s \<longleftrightarrow> pci_command s AND VF_ANS_PCI_COMMAND_MASTER \<noteq> 0"

definition vf_ans_pci_enable_memory_bus_master :: "vf_ans_pci_v1 \<Rightarrow> rc \<times> vf_ans_pci_v1" where
  "vf_ans_pci_enable_memory_bus_master s =
     (OK, s\<lparr>pci_command := pci_command s OR VF_ANS_PCI_COMMAND_ENABLE_MASK\<rparr>)"

definition vf_ans_pci_config_write_seen :: "vf_ans_pci_v1 \<Rightarrow> bool" where
  "vf_ans_pci_config_write_seen s = pci_config_write_seen s"
definition vf_ans_pci_last_config_write :: "vf_ans_pci_v1 \<Rightarrow> u64" where
  "vf_ans_pci_last_config_write s = pci_last_config_write s"

definition vf_ans_pci_set_irq :: "vf_ans_pci_v1 \<Rightarrow> bool \<Rightarrow> rc \<times> vf_ans_pci_v1" where
  "vf_ans_pci_set_irq s level =
     (let s1 =
        (if msix_enabled s then
           s\<lparr>msix_pending := level, intx_pending := False, msi_pending := False\<rparr>
         else if msi_enabled s then
           (let s2 = s\<lparr>msi_pending := level, intx_pending := False, msix_pending := False\<rparr> in
            if level then snd (ans_pci_try_msi_message_write s2) else s2)
         else s\<lparr>intx_pending := level, msi_pending := False, msix_pending := False\<rparr>) in
      (OK, snd (ans_pci_sync_aic s1)))"

definition vf_ans_pci_irq_pending :: "vf_ans_pci_v1 \<Rightarrow> bool" where
  "vf_ans_pci_irq_pending s = intx_pending s"
definition vf_ans_pci_msi_enabled :: "vf_ans_pci_v1 \<Rightarrow> bool" where
  "vf_ans_pci_msi_enabled s = msi_enabled s"
definition vf_ans_pci_msi_pending :: "vf_ans_pci_v1 \<Rightarrow> bool" where
  "vf_ans_pci_msi_pending s = msi_pending s"
definition vf_ans_pci_msix_enabled :: "vf_ans_pci_v1 \<Rightarrow> bool" where
  "vf_ans_pci_msix_enabled s = msix_enabled s"
definition vf_ans_pci_msix_pending :: "vf_ans_pci_v1 \<Rightarrow> bool" where
  "vf_ans_pci_msix_pending s = msix_pending s"
definition vf_ans_pci_msix_table_bir :: "vf_ans_pci_v1 \<Rightarrow> u8" where
  "vf_ans_pci_msix_table_bir s = msix_table_bir s"
definition vf_ans_pci_delivery_pending :: "vf_ans_pci_v1 \<Rightarrow> bool" where
  "vf_ans_pci_delivery_pending s = ans_pci_delivery_pending_level s"
definition vf_ans_pci_msi_addr :: "vf_ans_pci_v1 \<Rightarrow> u64" where "vf_ans_pci_msi_addr s = msi_addr s"
definition vf_ans_pci_msi_data :: "vf_ans_pci_v1 \<Rightarrow> u16" where "vf_ans_pci_msi_data s = msi_data s"

definition vf_ans_pci_bind_msi_gpa ::
  "vf_ans_pci_v1 \<Rightarrow> u8 list option \<Rightarrow> nat \<Rightarrow> u64 \<Rightarrow> rc \<times> vf_ans_pci_v1" where
  "vf_ans_pci_bind_msi_gpa s mem len base_gpa =
     (case mem of
        None \<Rightarrow> (OK, s\<lparr>msi_gpa_mem := None, msi_gpa_len := 0, msi_gpa_base := 0, msi_message_written := False\<rparr>)
      | Some m \<Rightarrow>
          if len < VF_ANS_PCI_MSI_MSG_BYTES then (ERR, s)
          else (OK, s\<lparr>msi_gpa_mem := Some m, msi_gpa_len := len, msi_gpa_base := base_gpa\<rparr>))"

definition vf_ans_pci_msi_gpa_bound :: "vf_ans_pci_v1 \<Rightarrow> bool" where
  "vf_ans_pci_msi_gpa_bound s \<longleftrightarrow> msi_gpa_mem s \<noteq> None"

definition vf_ans_pci_bind_msi_message ::
  "vf_ans_pci_v1 \<Rightarrow> vf_ans_pci_msi_message_fn option \<Rightarrow> rc \<times> vf_ans_pci_v1" where
  "vf_ans_pci_bind_msi_message s fn =
     (let s1 = s\<lparr>msi_message_fn := fn, msi_message_log := []\<rparr> in
      if fn = None \<and> msi_gpa_mem s1 = None then (OK, s1\<lparr>msi_message_written := False\<rparr>) else (OK, s1))"

definition vf_ans_pci_msi_message_written :: "vf_ans_pci_v1 \<Rightarrow> bool" where
  "vf_ans_pci_msi_message_written s = msi_message_written s"
definition vf_ans_pci_last_msi_message_addr :: "vf_ans_pci_v1 \<Rightarrow> u64" where
  "vf_ans_pci_last_msi_message_addr s = last_msi_message_addr s"
definition vf_ans_pci_last_msi_message_data :: "vf_ans_pci_v1 \<Rightarrow> u16" where
  "vf_ans_pci_last_msi_message_data s = last_msi_message_data s"

definition vf_ans_pci_bind_aic :: "vf_ans_pci_v1 \<Rightarrow> vf_ans_pci_aic_fn option \<Rightarrow> rc \<times> vf_ans_pci_v1" where
  "vf_ans_pci_bind_aic s fn =
     (let s1 = s\<lparr>pci_aic_fn := fn, pci_aic_log := []\<rparr> in
      if fn = None then (OK, s1\<lparr>pci_aic_sync_seen := False, pci_aic_line_high := False\<rparr>)
      else ans_pci_sync_aic s1)"

definition vf_ans_pci_aic_sync_seen :: "vf_ans_pci_v1 \<Rightarrow> bool" where
  "vf_ans_pci_aic_sync_seen s = pci_aic_sync_seen s"
definition vf_ans_pci_aic_line_high :: "vf_ans_pci_v1 \<Rightarrow> bool" where
  "vf_ans_pci_aic_line_high s = pci_aic_line_high s"

definition vf_ans_pci_read :: "vf_ans_pci_v1 \<Rightarrow> nat \<Rightarrow> nat \<Rightarrow> u64 option \<times> vf_ans_pci_v1" where
  "vf_ans_pci_read s off width =
     (let r32 = (\<lambda>v. if width \<noteq> 32 then (None, s) else (Some v, s));
          r64 = (\<lambda>v. if width \<noteq> 64 then (None, s) else (Some v, s)) in
      if off \<ge> VF_ANS_PCI_MMIO_SIZE then (None, s)
      else if off = VF_ANS_PCI_MMIO_STATUS then r32 (ucast (pci_status s))
      else if off = VF_ANS_PCI_MMIO_FLAGS then r32 (ucast (pci_flags s))
      else if off = VF_ANS_PCI_MMIO_TIER then r32 (ucast VF_ANS_PCI_TIER_HOST)
      else if off = VF_ANS_PCI_MMIO_IOPORT_SIZE then r32 VF_ANS_PCI_IOPORT_SIZE
      else if off = VF_ANS_PCI_MMIO_MMCFG_SIZE then r32 VF_ANS_PCI_MMCFG_SIZE
      else if off = VF_ANS_PCI_MMIO_CONFIG then r64 (ucast (pci_command s))
      else if off = VF_ANS_PCI_MMIO_MSI_CTRL then r32 (if msi_enabled s then VF_ANS_PCI_MSI_ENABLE else 0)
      else if off = VF_ANS_PCI_MMIO_MSI_ADDR then r64 (msi_addr s)
      else if off = VF_ANS_PCI_MMIO_MSI_DATA then r32 (ucast (msi_data s))
      else if off = VF_ANS_PCI_MMIO_MSIX_CTRL then r32 (if msix_enabled s then VF_ANS_PCI_MSIX_ENABLE else 0)
      else if off = VF_ANS_PCI_MMIO_MSIX_TABLE_BIR then r32 (ucast (msix_table_bir s))
      else (None, s))"

definition vf_ans_pci_write :: "vf_ans_pci_v1 \<Rightarrow> nat \<Rightarrow> nat \<Rightarrow> u64 \<Rightarrow> rc \<times> vf_ans_pci_v1" where
  "vf_ans_pci_write s off width v =
     (if off = VF_ANS_PCI_MMIO_CONFIG then
        (if width \<noteq> 64 then (ERR, s)
         else (OK, s\<lparr>pci_last_config_write := v, pci_config_write_seen := True,
                     pci_command := ucast (v AND ucast VF_ANS_PCI_COMMAND_ENABLE_MASK)\<rparr>))
      else if off = VF_ANS_PCI_MMIO_MSI_CTRL then
        (if width \<noteq> 32 then (ERR, s)
         else (OK, ans_pci_apply_msi_enable s (v AND VF_ANS_PCI_MSI_ENABLE \<noteq> 0)))
      else if off = VF_ANS_PCI_MMIO_MSI_ADDR then
        (if width \<noteq> 64 then (ERR, s) else (OK, s\<lparr>msi_addr := v\<rparr>))
      else if off = VF_ANS_PCI_MMIO_MSI_DATA then
        (if width \<noteq> 32 then (ERR, s) else (OK, s\<lparr>msi_data := ucast (v AND 0xffff)\<rparr>))
      else if off = VF_ANS_PCI_MMIO_MSIX_CTRL then
        (if width \<noteq> 32 then (ERR, s)
         else (OK, ans_pci_apply_msix_enable s (v AND VF_ANS_PCI_MSIX_ENABLE \<noteq> 0)))
      else if off = VF_ANS_PCI_MMIO_MSIX_TABLE_BIR then
        (if width \<noteq> 32 then (ERR, s)
         else (OK, s\<lparr>msix_table_bir := ucast (v AND VF_ANS_PCI_MSIX_BIR_MASK)\<rparr>))
      else (ERR, s))"

section \<open>Invariant\<close>

text \<open>The latch that may be pending is the one of the mode in force (MSI-X before MSI before INTx),
  and a bound controller line was last told the delivery level.\<close>

definition pci_mode_inv :: "vf_ans_pci_v1 \<Rightarrow> bool" where
  "pci_mode_inv s \<longleftrightarrow>
     (intx_pending s \<longrightarrow> \<not> msi_enabled s \<and> \<not> msix_enabled s)
     \<and> (msi_pending s \<longrightarrow> msi_enabled s \<and> \<not> msix_enabled s)
     \<and> (msix_pending s \<longrightarrow> msix_enabled s)"

definition pci_line_inv :: "vf_ans_pci_v1 \<Rightarrow> bool" where
  "pci_line_inv s \<longleftrightarrow> (pci_aic_fn s \<noteq> None \<longrightarrow>
     pci_aic_log s \<noteq> [] \<and> last (pci_aic_log s) = (1, ans_pci_delivery_pending_level s))"

definition pci_inv :: "vf_ans_pci_v1 \<Rightarrow> bool" where
  "pci_inv s \<longleftrightarrow> pci_mode_inv s \<and> pci_line_inv s \<and> pci_status s = VF_ANS_PCI_STATUS_BOOTSTRAP"

text \<open>What the two helpers leave alone.\<close>

lemma pci_message_frame [simp]:
  "intx_pending (snd (ans_pci_try_msi_message_write s)) = intx_pending s"
  "msi_pending (snd (ans_pci_try_msi_message_write s)) = msi_pending s"
  "msix_pending (snd (ans_pci_try_msi_message_write s)) = msix_pending s"
  "msi_enabled (snd (ans_pci_try_msi_message_write s)) = msi_enabled s"
  "msix_enabled (snd (ans_pci_try_msi_message_write s)) = msix_enabled s"
  "pci_aic_fn (snd (ans_pci_try_msi_message_write s)) = pci_aic_fn s"
  "pci_aic_log (snd (ans_pci_try_msi_message_write s)) = pci_aic_log s"
  "pci_status (snd (ans_pci_try_msi_message_write s)) = pci_status s"
  "pci_command (snd (ans_pci_try_msi_message_write s)) = pci_command s"
  by (simp_all add: ans_pci_try_msi_message_write_def ans_pci_message_done_def Let_def split: option.split)

lemma pci_sync_frame [simp]:
  "intx_pending (snd (ans_pci_sync_aic s)) = intx_pending s"
  "msi_pending (snd (ans_pci_sync_aic s)) = msi_pending s"
  "msix_pending (snd (ans_pci_sync_aic s)) = msix_pending s"
  "msi_enabled (snd (ans_pci_sync_aic s)) = msi_enabled s"
  "msix_enabled (snd (ans_pci_sync_aic s)) = msix_enabled s"
  "pci_aic_fn (snd (ans_pci_sync_aic s)) = pci_aic_fn s"
  "pci_status (snd (ans_pci_sync_aic s)) = pci_status s"
  "pci_command (snd (ans_pci_sync_aic s)) = pci_command s"
  "msi_gpa_mem (snd (ans_pci_sync_aic s)) = msi_gpa_mem s"
  by (simp_all add: ans_pci_sync_aic_def Let_def split: option.split)

lemma pci_level_frame [simp]:
  "ans_pci_delivery_pending_level (snd (ans_pci_sync_aic s)) = ans_pci_delivery_pending_level s"
  "ans_pci_delivery_pending_level (snd (ans_pci_try_msi_message_write s)) = ans_pci_delivery_pending_level s"
  by (simp_all add: ans_pci_delivery_pending_level_def)

lemma pci_line_sync [simp]: "pci_line_inv (snd (ans_pci_sync_aic s))"
proof -
  have "ans_pci_delivery_pending_level (snd (ans_pci_sync_aic s)) = ans_pci_delivery_pending_level s" by simp
  then show ?thesis
    by (simp add: pci_line_inv_def) (simp add: ans_pci_sync_aic_def Let_def split: option.split)
qed

lemma pci_mode_sync [simp]: "pci_mode_inv (snd (ans_pci_sync_aic s)) = pci_mode_inv s"
  by (simp add: pci_mode_inv_def)

lemma pci_apply_msi_ok:
  assumes "pci_inv s"
  shows "pci_inv (ans_pci_apply_msi_enable s b)"
    and "ans_pci_delivery_pending_level (ans_pci_apply_msi_enable s b) = ans_pci_delivery_pending_level s"
    and "msi_enabled (ans_pci_apply_msi_enable s b) = b"
  using assms
  by (auto simp: pci_inv_def ans_pci_apply_msi_enable_def Let_def)
    (auto simp: pci_mode_inv_def ans_pci_delivery_pending_level_def)

lemma pci_apply_msix_ok:
  assumes "pci_inv s"
  shows "pci_inv (ans_pci_apply_msix_enable s b)"
    and "ans_pci_delivery_pending_level (ans_pci_apply_msix_enable s b) = ans_pci_delivery_pending_level s"
    and "msix_enabled (ans_pci_apply_msix_enable s b) = b"
  using assms
  by (auto simp: pci_inv_def ans_pci_apply_msix_enable_def Let_def)
    (auto simp: pci_mode_inv_def ans_pci_delivery_pending_level_def)

lemma pci_set_irq_ok:
  "pci_status s = VF_ANS_PCI_STATUS_BOOTSTRAP \<Longrightarrow> pci_inv (snd (vf_ans_pci_set_irq s level))"
  "ans_pci_delivery_pending_level (snd (vf_ans_pci_set_irq s level)) = level"
  by (simp_all add: pci_inv_def vf_ans_pci_set_irq_def Let_def)
    (simp_all add: pci_mode_inv_def ans_pci_delivery_pending_level_def)

lemma pci_frame_inv:
  "pci_inv s \<Longrightarrow> pci_inv (s\<lparr>pci_last_config_write := v, pci_config_write_seen := b, pci_command := c\<rparr>)"
  "pci_inv s \<Longrightarrow> pci_inv (s\<lparr>msi_addr := v\<rparr>)" "pci_inv s \<Longrightarrow> pci_inv (s\<lparr>msi_data := d\<rparr>)"
  "pci_inv s \<Longrightarrow> pci_inv (s\<lparr>msix_table_bir := e\<rparr>)"
  by (simp_all add: pci_inv_def pci_mode_inv_def pci_line_inv_def ans_pci_delivery_pending_level_def)

lemma pci_inv_write: "pci_inv s \<Longrightarrow> pci_inv (snd (vf_ans_pci_write s off w v))"
  by (simp add: vf_ans_pci_write_def pci_frame_inv pci_apply_msi_ok pci_apply_msix_ok)

lemma pci_write_level:
  "pci_inv s \<Longrightarrow> ans_pci_delivery_pending_level (snd (vf_ans_pci_write s off w v)) = ans_pci_delivery_pending_level s"
  by (simp add: vf_ans_pci_write_def pci_apply_msi_ok pci_apply_msix_ok)
    (simp add: ans_pci_delivery_pending_level_def)

lemma pci_read_state: "snd (vf_ans_pci_read s off w) = s"
  by (simp add: vf_ans_pci_read_def Let_def)

lemma pci_write_closed: "wr_keeps s (vf_ans_pci_write s off w v)"
  by (simp add: vf_ans_pci_write_def)

interpretation pci: mmio_fail_closed vf_ans_pci_read vf_ans_pci_write pci_inv
  by unfold_locales (simp_all add: pci_read_state rd_keeps_def pci_inv_write pci_write_closed)

text \<open>The operations of the host side.\<close>

inductive pci_reachable :: "vf_ans_pci_v1 \<Rightarrow> bool" where
  init: "pci_reachable (snd (vf_ans_pci_init s))"
| irq: "pci_reachable s \<Longrightarrow> pci_reachable (snd (vf_ans_pci_set_irq s level))"
| master: "pci_reachable s \<Longrightarrow> pci_reachable (snd (vf_ans_pci_enable_memory_bus_master s))"
| gpa: "pci_reachable s \<Longrightarrow> pci_reachable (snd (vf_ans_pci_bind_msi_gpa s mem len base))"
| sink: "pci_reachable s \<Longrightarrow> pci_reachable (snd (vf_ans_pci_bind_msi_message s fn))"
| aic: "pci_reachable s \<Longrightarrow> pci_reachable (snd (vf_ans_pci_bind_aic s afn))"
| guest: "pci_reachable s \<Longrightarrow> pci_reachable (mmio_run vf_ans_pci_read vf_ans_pci_write s accs)"

lemma pci_bind_inv:
  "pci_inv s \<Longrightarrow> pci_inv (snd (vf_ans_pci_enable_memory_bus_master s))"
  "pci_inv s \<Longrightarrow> pci_inv (snd (vf_ans_pci_bind_msi_gpa s mem len base))"
  "pci_inv s \<Longrightarrow> pci_inv (snd (vf_ans_pci_bind_msi_message s fn))"
  by (simp_all add: vf_ans_pci_enable_memory_bus_master_def vf_ans_pci_bind_msi_gpa_def Let_def
      vf_ans_pci_bind_msi_message_def pci_inv_def pci_mode_inv_def pci_line_inv_def
      ans_pci_delivery_pending_level_def split: option.split)

lemma pci_bind_aic_inv: "pci_inv s \<Longrightarrow> pci_inv (snd (vf_ans_pci_bind_aic s afn))"
  by (simp add: vf_ans_pci_bind_aic_def pci_inv_def Let_def) (simp add: pci_mode_inv_def pci_line_inv_def)

lemma pci_reachable_inv: "pci_reachable s \<Longrightarrow> pci_inv s"
proof (induction rule: pci_reachable.induct)
  case (init s)
  show ?case by (simp add: vf_ans_pci_init_def pci_inv_def pci_mode_inv_def pci_line_inv_def)
next
  case (irq s level)
  then show ?case by (simp add: pci_set_irq_ok pci_inv_def [of s])
qed (auto intro: pci_bind_inv pci_bind_aic_inv pci.run_inv)

section \<open>Properties\<close>

text \<open>In every state reachable by guest accesses, interrupt levels and (re)binding of sinks: at
  most one of the three latches is pending, and it is the one of the enabled mode with MSI-X
  taking precedence over MSI over INTx; the status never claims the function is active; and a
  bound interrupt-controller sink was last called on line 1 with exactly the current delivery
  level, whatever it answered.\<close>

theorem pci_latch_exclusive:
  assumes "pci_reachable s"
  shows "(intx_pending s \<longrightarrow> \<not> msi_enabled s \<and> \<not> msix_enabled s)
    \<and> (msi_pending s \<longrightarrow> msi_enabled s \<and> \<not> msix_enabled s) \<and> (msix_pending s \<longrightarrow> msix_enabled s)
    \<and> vf_ans_pci_status s = VF_ANS_PCI_STATUS_BOOTSTRAP
    \<and> (pci_aic_fn s \<noteq> None \<longrightarrow> pci_aic_log s \<noteq> [] \<and> last (pci_aic_log s) = (1, vf_ans_pci_delivery_pending s))"
  using pci_reachable_inv [OF assms]
  by (simp add: pci_inv_def pci_mode_inv_def pci_line_inv_def vf_ans_pci_status_def vf_ans_pci_delivery_pending_def)

definition pci_boot :: vf_ans_pci_v1 where
  "pci_boot = snd (vf_ans_pci_init undefined)"

lemma pci_boot_reachable: "pci_reachable pci_boot"
  unfolding pci_boot_def by (rule pci_reachable.init)

definition pci_demo :: vf_ans_pci_v1 where
  "pci_demo = snd (vf_ans_pci_set_irq (snd (vf_ans_pci_bind_aic pci_boot (Some (\<lambda>_ _. True)))) True)"

lemma pci_demo_reachable: "pci_reachable pci_demo"
  unfolding pci_demo_def by (intro pci_reachable.irq pci_reachable.aic pci_boot_reachable)

theorem pci_latch_exclusive_witness:
  "pci_reachable pci_demo \<and> last (pci_aic_log pci_demo) = (1, True)"
  using pci_latch_exclusive [OF pci_demo_reachable] pci_demo_reachable
  by (simp add: pci_demo_def vf_ans_pci_delivery_pending_def pci_set_irq_ok)
    (simp add: vf_ans_pci_set_irq_def vf_ans_pci_bind_aic_def pci_boot_def vf_ans_pci_init_def ans_pci_sync_aic_def Let_def)

text \<open>Guest accesses can move a pending interrupt between INTx, MSI and MSI-X but never raise,
  drop or duplicate it: the delivery level after any guest access sequence is the level of the
  last host-side assertion.\<close>

theorem pci_level_preserved:
  assumes "pci_reachable s"
  shows "vf_ans_pci_delivery_pending
      (mmio_run vf_ans_pci_read vf_ans_pci_write (snd (vf_ans_pci_set_irq s level)) accs) = level"
proof -
  have step: "pci_inv s \<Longrightarrow> ans_pci_delivery_pending_level (mmio_step vf_ans_pci_read vf_ans_pci_write s a) =
      ans_pci_delivery_pending_level s" for s a
    by (cases a) (simp_all add: pci_read_state pci_write_level)
  have "pci_inv s \<Longrightarrow> ans_pci_delivery_pending_level (mmio_run vf_ans_pci_read vf_ans_pci_write s accs) =
      ans_pci_delivery_pending_level s" for s
    by (induction accs arbitrary: s) (simp_all add: step pci.step_inv)
  moreover have "pci_inv (snd (vf_ans_pci_set_irq s level))"
    using pci_reachable_inv [OF assms] by (simp add: pci_set_irq_ok pci_inv_def [of s])
  ultimately show ?thesis
    by (simp add: vf_ans_pci_delivery_pending_def pci_set_irq_ok)
qed

theorem pci_level_preserved_witness:
  "vf_ans_pci_delivery_pending (mmio_run vf_ans_pci_read vf_ans_pci_write
     (snd (vf_ans_pci_set_irq pci_boot True)) [Wr 0x38 32 1, Wr 0x20 32 1, Wr 0x38 32 0])"
  using pci_level_preserved [OF pci_boot_reachable, of True] by blast

text \<open>With a GPA window bound, an MSI message write stores the two data bytes little-endian at
  the message address and changes no other byte, exactly when the whole message lies inside the
  window (compared without wrap-around); otherwise it fails and changes nothing.\<close>

theorem pci_msi_write_in_window:
  assumes "msi_gpa_mem s = Some mem" "length mem = msi_gpa_len s"
  defines "base \<equiv> unat (msi_gpa_base s)" and "addr \<equiv> unat (msi_addr s)"
  shows "if base \<le> addr \<and> addr + 2 \<le> base + msi_gpa_len s
    then \<exists>s'. ans_pci_try_msi_message_write s = (OK, s')
      \<and> msi_gpa_mem s' = Some (splice mem (addr - base) [ucast (msi_data s), ucast (drop_bit 8 (msi_data s))])
      \<and> last_msi_message_addr s' = msi_addr s
    else ans_pci_try_msi_message_write s = (ERR, s)"
proof (cases "base \<le> addr")
  case True
  have off: "unat (msi_addr s - msi_gpa_base s) = addr - base"
    using True by (simp add: base_def addr_def unat_sub word_le_nat_alt)
  have upd: "mem[k := x, k + 1 := y] = splice mem k [x, y]" if "k + 2 \<le> length mem" for k x y
    by (rule nth_equalityI) (use that in \<open>auto simp: nth_splice nth_list_update nth_Cons split: nat.split\<close>)
  have "\<not> msi_addr s < msi_gpa_base s"
    using True by (simp add: base_def addr_def word_less_nat_alt)
  then show ?thesis
    using True assms(1,2) off upd [of "addr - base"]
    by (auto simp: ans_pci_try_msi_message_write_def ans_pci_message_done_def Let_def)
next
  case False
  then show ?thesis
    using assms(1) by (simp add: ans_pci_try_msi_message_write_def base_def addr_def word_less_nat_alt)
qed

theorem pci_msi_write_in_window_witness:
  "\<exists>s'. ans_pci_try_msi_message_write (pci_boot\<lparr>msi_gpa_mem := Some [0, 0, 0, 0], msi_gpa_len := 4,
      msi_gpa_base := 0x1000, msi_addr := 0x1002, msi_data := 0xABCD\<rparr>) = (OK, s')
    \<and> msi_gpa_mem s' = Some [0, 0, 0xCD, 0xAB]"
  using pci_msi_write_in_window [of "pci_boot\<lparr>msi_gpa_mem := Some [0, 0, 0, 0], msi_gpa_len := 4,
      msi_gpa_base := 0x1000, msi_addr := 0x1002, msi_data := 0xABCD\<rparr>" "[0, 0, 0, 0]"]
  by (auto simp: splice_def)

end
