(* ===== verification/Sep.thy ===== *)
theory Sep
  imports Prelude
begin

text \<open>
  The secure-enclave mailbox, \<open>src/devices/sep_mailbox_v1.c\<close>, and the contract it shares with
  the storage mailbox of \<open>Mbox\<close>: a codec of 64-bit mailbox words into five fields, and a bootstrap
  endpoint that answers pings and status requests and rejects everything else. The structure
  copies of \<open>pack_msg\<close> and \<open>unpack_msg\<close> are \<open>memcpy\<close> on a little-endian host.

  Shown: the codec is a bijection, every reply follows the protocol and carries the tag and
  endpoint of its request, the device never reports itself active, and the pending flag is the
  interrupt.
\<close>

section \<open>The bootstrap endpoint contract\<close>

type_synonym mbox_fields = "u8 \<times> u8 \<times> u8 \<times> u8 \<times> u32"

text \<open>The protocol: endpoint, tag, operation, parameter and data of the reply to a request.\<close>

fun boot_protocol :: "u32 \<Rightarrow> mbox_fields \<Rightarrow> mbox_fields" where
  "boot_protocol st (ep, tag, op, param, data) =
     (if ep \<noteq> 255 then (ep, tag, 0xFE, op, 0)
      else if op = 1 then (255, tag, 101, 0, 0)
      else if op = 2 then (255, tag, 102, 0, st)
      else (255, tag, 0xFE, op, 0))"

locale boot_endpoint =
  fixes pack :: "u8 \<Rightarrow> u8 \<Rightarrow> u8 \<Rightarrow> u8 \<Rightarrow> u32 \<Rightarrow> u64"
    and fields :: "u64 \<Rightarrow> mbox_fields"
    and reply :: "u32 \<Rightarrow> u64 \<Rightarrow> u64"
  assumes fields_pack: "fields (pack ep tag op param data) = (ep, tag, op, param, data)"
    and fields_inj: "fields v = fields w \<Longrightarrow> v = w"
    and reply_law: "fields (reply st w) = boot_protocol st (fields w)"
begin

lemma pack_fields: "fields w = (ep, tag, op, param, data) \<Longrightarrow> pack ep tag op param data = w"
  using fields_inj fields_pack by metis

lemma reply_echo:
  "fst (fields (reply st w)) = fst (fields w)" "fst (snd (fields (reply st w))) = fst (snd (fields w))"
  by (cases "fields w"; simp add: reply_law)+

lemma reply_status_only:
  "snd (snd (snd (snd (fields (reply st w))))) \<in> {0, st}"
  by (cases "fields w") (simp add: reply_law)

end

section \<open>Model\<close>

abbreviation (input) VF_SEP_TIER_L1_MAILBOX :: u64 where "VF_SEP_TIER_L1_MAILBOX \<equiv> 1"
abbreviation (input) VF_SEP_STATUS_BOOTSTRAP :: u32 where "VF_SEP_STATUS_BOOTSTRAP \<equiv> 1"
abbreviation (input) VF_SEP_EP_BOOTSTRAP :: u8 where "VF_SEP_EP_BOOTSTRAP \<equiv> 255"
abbreviation (input) VF_SEP_BOOTSTRAP_OP_PING :: u8 where "VF_SEP_BOOTSTRAP_OP_PING \<equiv> 1"
abbreviation (input) VF_SEP_BOOTSTRAP_OP_GET_STATUS :: u8 where "VF_SEP_BOOTSTRAP_OP_GET_STATUS \<equiv> 2"
abbreviation (input) VF_SEP_BOOTSTRAP_OP_PING_ACK :: u8 where "VF_SEP_BOOTSTRAP_OP_PING_ACK \<equiv> 101"
abbreviation (input) VF_SEP_BOOTSTRAP_OP_STATUS_REPLY :: u8 where "VF_SEP_BOOTSTRAP_OP_STATUS_REPLY \<equiv> 102"
abbreviation (input) VF_SEP_BOOTSTRAP_OP_ANNOUNCE :: u8 where "VF_SEP_BOOTSTRAP_OP_ANNOUNCE \<equiv> 210"
abbreviation (input) VF_SEP_BOOTSTRAP_OP_L1_REJECT :: u8 where "VF_SEP_BOOTSTRAP_OP_L1_REJECT \<equiv> 0xFE"
abbreviation (input) VF_SEP_FLAG_PRESENT :: u32 where "VF_SEP_FLAG_PRESENT \<equiv> push_bit 0 1"
abbreviation (input) VF_SEP_FLAG_REPLY_PENDING :: u32 where "VF_SEP_FLAG_REPLY_PENDING \<equiv> push_bit 1 1"
abbreviation (input) VF_SEP_MMIO_STATUS :: nat where "VF_SEP_MMIO_STATUS \<equiv> 0x000"
abbreviation (input) VF_SEP_MMIO_TIER :: nat where "VF_SEP_MMIO_TIER \<equiv> 0x004"
abbreviation (input) VF_SEP_MMIO_FLAGS :: nat where "VF_SEP_MMIO_FLAGS \<equiv> 0x008"
abbreviation (input) VF_SEP_MMIO_MSG_OUT :: nat where "VF_SEP_MMIO_MSG_OUT \<equiv> 0x010"
abbreviation (input) VF_SEP_MMIO_MSG_IN :: nat where "VF_SEP_MMIO_MSG_IN \<equiv> 0x018"

record vf_sep_mbox_msg =
  sep_ep :: u8
  sep_tag :: u8
  sep_op :: u8
  sep_param :: u8
  sep_data :: u32

record vf_sep_mailbox_v1 =
  sep_status :: u32
  sep_flags :: u32
  sep_msg_out :: u64
  sep_reply_pending :: bool

definition pack_msg :: "u8 \<Rightarrow> u8 \<Rightarrow> u8 \<Rightarrow> u8 \<Rightarrow> u32 \<Rightarrow> u64" where
  "pack_msg ep tag op param data = get_le64 ([ep, tag, op, param] @ put_le32 data)"

definition unpack_msg :: "u64 \<Rightarrow> vf_sep_mbox_msg" where
  "unpack_msg raw = (let b = put_le64 raw in
     \<lparr>sep_ep = b ! 0, sep_tag = b ! 1, sep_op = b ! 2, sep_param = b ! 3, sep_data = get_le32 (drop 4 b)\<rparr>)"

definition vf_sep_mailbox_init :: "vf_sep_mailbox_v1 \<Rightarrow> rc \<times> vf_sep_mailbox_v1" where
  "vf_sep_mailbox_init s =
     (OK, \<lparr>sep_status = VF_SEP_STATUS_BOOTSTRAP,
           sep_flags = VF_SEP_FLAG_PRESENT OR VF_SEP_FLAG_REPLY_PENDING,
           sep_msg_out = pack_msg VF_SEP_EP_BOOTSTRAP 0 VF_SEP_BOOTSTRAP_OP_ANNOUNCE 0 VF_SEP_STATUS_BOOTSTRAP,
           sep_reply_pending = True\<rparr>)"

definition vf_sep_mailbox_irq_pending :: "vf_sep_mailbox_v1 \<Rightarrow> bool" where
  "vf_sep_mailbox_irq_pending s = sep_reply_pending s"

definition vf_sep_mailbox_status :: "vf_sep_mailbox_v1 \<Rightarrow> u32" where
  "vf_sep_mailbox_status s = sep_status s"

text \<open>The reply word computed by the handler.\<close>

definition sep_reply :: "u32 \<Rightarrow> u64 \<Rightarrow> u64" where
  "sep_reply status msg_in =
     (let m = unpack_msg msg_in in
      if sep_ep m \<noteq> VF_SEP_EP_BOOTSTRAP then
        pack_msg (sep_ep m) (sep_tag m) VF_SEP_BOOTSTRAP_OP_L1_REJECT (sep_op m) 0
      else if sep_op m = VF_SEP_BOOTSTRAP_OP_PING then
        pack_msg VF_SEP_EP_BOOTSTRAP (sep_tag m) VF_SEP_BOOTSTRAP_OP_PING_ACK 0 0
      else if sep_op m = VF_SEP_BOOTSTRAP_OP_GET_STATUS then
        pack_msg VF_SEP_EP_BOOTSTRAP (sep_tag m) VF_SEP_BOOTSTRAP_OP_STATUS_REPLY 0 status
      else pack_msg VF_SEP_EP_BOOTSTRAP (sep_tag m) VF_SEP_BOOTSTRAP_OP_L1_REJECT (sep_op m) 0)"

definition vf_sep_mailbox_handle_msg :: "vf_sep_mailbox_v1 \<Rightarrow> u64 \<Rightarrow> u64 \<times> vf_sep_mailbox_v1" where
  "vf_sep_mailbox_handle_msg s msg_in =
     (let r = sep_reply (sep_status s) msg_in in
      (r, s\<lparr>sep_msg_out := r, sep_reply_pending := True,
            sep_flags := sep_flags s OR VF_SEP_FLAG_REPLY_PENDING\<rparr>))"

definition vf_sep_mailbox_read :: "vf_sep_mailbox_v1 \<Rightarrow> nat \<Rightarrow> nat \<Rightarrow> u64 option \<times> vf_sep_mailbox_v1" where
  "vf_sep_mailbox_read s off width =
     (if off = VF_SEP_MMIO_STATUS then
        (if width \<noteq> 32 then (None, s) else (Some (ucast (sep_status s)), s))
      else if off = VF_SEP_MMIO_TIER then
        (if width \<noteq> 32 then (None, s) else (Some VF_SEP_TIER_L1_MAILBOX, s))
      else if off = VF_SEP_MMIO_FLAGS then
        (if width \<noteq> 32 then (None, s) else (Some (ucast (sep_flags s)), s))
      else if off = VF_SEP_MMIO_MSG_OUT then
        (if width \<noteq> 64 then (None, s)
         else (Some (sep_msg_out s),
               s\<lparr>sep_reply_pending := False, sep_flags := sep_flags s AND NOT VF_SEP_FLAG_REPLY_PENDING\<rparr>))
      else (None, s))"

definition vf_sep_mailbox_write :: "vf_sep_mailbox_v1 \<Rightarrow> nat \<Rightarrow> nat \<Rightarrow> u64 \<Rightarrow> rc \<times> vf_sep_mailbox_v1" where
  "vf_sep_mailbox_write s off width v =
     (if off \<noteq> VF_SEP_MMIO_MSG_IN then (ERR, s)
      else if width \<noteq> 64 then (ERR, s)
      else (OK, snd (vf_sep_mailbox_handle_msg s v)))"

section \<open>The mailbox implements the contract\<close>

definition sep_fields :: "u64 \<Rightarrow> mbox_fields" where
  "sep_fields w = (let m = unpack_msg w in (sep_ep m, sep_tag m, sep_op m, sep_param m, sep_data m))"

lemma sep_fields_pack [simp]: "sep_fields (pack_msg ep tag op param data) = (ep, tag, op, param, data)"
proof -
  have "put_le64 (pack_msg ep tag op param data) = [ep, tag, op, param] @ put_le32 data"
    unfolding pack_msg_def by (rule put_get_le64) simp
  then show ?thesis by (simp add: sep_fields_def unpack_msg_def Let_def)
qed

lemma pack_sep_fields: "sep_fields w = (ep, tag, op, param, data) \<Longrightarrow> pack_msg ep tag op param data = w"
proof -
  assume "sep_fields w = (ep, tag, op, param, data)"
  then have f: "ep = put_le64 w ! 0" "tag = put_le64 w ! 1" "op = put_le64 w ! 2" "param = put_le64 w ! 3"
    "data = get_le32 (drop 4 (put_le64 w))"
    by (auto simp: sep_fields_def unpack_msg_def Let_def)
  have "put_le32 data = drop 4 (put_le64 w)"
    unfolding f by (rule put_get_le32) simp
  moreover have "[ep, tag, op, param] = take 4 (put_le64 w)"
    unfolding f by (simp add: put_le64_def)
  ultimately show ?thesis by (simp only: pack_msg_def append_take_drop_id get_put_le_nil)
qed

interpretation sep: boot_endpoint pack_msg sep_fields sep_reply
proof unfold_locales
  show "sep_fields v = sep_fields w \<Longrightarrow> v = w" for v w
    using pack_sep_fields by (metis prod_cases5)
  show "sep_fields (sep_reply st w) = boot_protocol st (sep_fields w)" for st w
    by (simp add: sep_reply_def Let_def sep_fields_def [of w])
qed simp

definition sep_inv :: "vf_sep_mailbox_v1 \<Rightarrow> bool" where
  "sep_inv s \<longleftrightarrow> sep_status s = VF_SEP_STATUS_BOOTSTRAP \<and> bit (sep_flags s) 0
     \<and> (bit (sep_flags s) 1 \<longleftrightarrow> sep_reply_pending s)"

lemma bit_flag_1: "bit (2 :: u32) n \<longleftrightarrow> n = 1"
  using bit_two_power [where ?'a = 32, of 1 n] by auto

lemma sep_inv_read: "sep_inv s \<Longrightarrow> sep_inv (snd (vf_sep_mailbox_read s off w))"
  by (simp add: vf_sep_mailbox_read_def) (simp add: sep_inv_def bit_simps bit_flag_1)

lemma sep_inv_write: "sep_inv s \<Longrightarrow> sep_inv (snd (vf_sep_mailbox_write s off w v))"
  by (simp add: vf_sep_mailbox_write_def vf_sep_mailbox_handle_msg_def Let_def)
    (simp add: sep_inv_def bit_simps bit_flag_1)

lemma sep_inv_init: "sep_inv (snd (vf_sep_mailbox_init s))"
  by (simp add: vf_sep_mailbox_init_def sep_inv_def bit_simps)

interpretation sepm: mmio_fail_closed vf_sep_mailbox_read vf_sep_mailbox_write sep_inv
  by unfold_locales
    (simp_all add: sep_inv_read sep_inv_write, simp_all add: vf_sep_mailbox_read_def vf_sep_mailbox_write_def)

section \<open>Properties\<close>

text \<open>After initialisation and any guest access sequence, sending a message raises the interrupt
  and the next read of MSG_OUT returns a reply whose endpoint, tag, operation, parameter and data
  are those of the protocol (ping acknowledged, status 1 reported, everything else rejected with
  the operation echoed), and lowers the interrupt again. The status never leaves bootstrap.\<close>

theorem sep_request_reply:
  fixes accs :: "u64 access list" and w :: u64
  defines "s \<equiv> mmio_run vf_sep_mailbox_read vf_sep_mailbox_write (snd (vf_sep_mailbox_init undefined)) accs"
  defines "s1 \<equiv> snd (vf_sep_mailbox_write s VF_SEP_MMIO_MSG_IN 64 w)"
  shows "vf_sep_mailbox_irq_pending s1
    \<and> map_option sep_fields (fst (vf_sep_mailbox_read s1 VF_SEP_MMIO_MSG_OUT 64)) =
        Some (boot_protocol VF_SEP_STATUS_BOOTSTRAP (sep_fields w))
    \<and> \<not> vf_sep_mailbox_irq_pending (snd (vf_sep_mailbox_read s1 VF_SEP_MMIO_MSG_OUT 64))
    \<and> vf_sep_mailbox_status s = VF_SEP_STATUS_BOOTSTRAP"
proof -
  have "sep_inv s"
    unfolding s_def by (rule sepm.run_inv [OF sep_inv_init])
  then have "sep_status s = VF_SEP_STATUS_BOOTSTRAP" by (simp add: sep_inv_def)
  then show ?thesis
    by (simp add: s1_def vf_sep_mailbox_write_def vf_sep_mailbox_handle_msg_def vf_sep_mailbox_read_def
        vf_sep_mailbox_irq_pending_def vf_sep_mailbox_status_def Let_def sep.reply_law)
qed

end
