(* ===== verification/Mbox.thy ===== *)
theory Mbox
  imports Pci Sep
begin

text \<open>
  The storage co-processor's mailbox and the two register maps chained to it:
  \<open>src/devices/ans_mbox_v1.c\<close>, \<open>src/devices/ascwrap_v1.c\<close> and \<open>src/devices/ans_autoboot_v1.c\<close>.
  The devices point at one another (autoboot to ASC wrapper to mailbox to PCI function), and
  several may share a peer, so they live in a store: each device type has its map from addresses
  to records, a pointer is an optional address, and an operation takes the store and the address
  of its device. The store of each component extends that of the component it calls.

  Shown: the mailbox implements the bootstrap endpoint contract of \<open>Sep\<close> with a codec written in
  shifts; the started, ready and armed flags are reported exactly when the whole chain down to
  the bus-master bit supports them, and clearing bus mastering closes every stage at once.
\<close>

section \<open>The mailbox\<close>

abbreviation (input) VF_ANS_MBOX_TIER_AKF_REGMAP :: u64 where "VF_ANS_MBOX_TIER_AKF_REGMAP \<equiv> 0"
abbreviation (input) VF_ANS_MBOX_STATUS_BOOTSTRAP :: u32 where "VF_ANS_MBOX_STATUS_BOOTSTRAP \<equiv> 1"
abbreviation (input) VF_ANS_MBOX_FLAG_PRESENT :: u32 where "VF_ANS_MBOX_FLAG_PRESENT \<equiv> push_bit 0 1"
abbreviation (input) VF_ANS_MBOX_FLAG_STARTED :: u32 where "VF_ANS_MBOX_FLAG_STARTED \<equiv> push_bit 1 1"
abbreviation (input) VF_ANS_MBOX_FLAG_REPLY_PENDING :: u32 where "VF_ANS_MBOX_FLAG_REPLY_PENDING \<equiv> push_bit 2 1"
abbreviation (input) VF_ANS_MBOX_Q_NOT_EMPTY :: u64 where "VF_ANS_MBOX_Q_NOT_EMPTY \<equiv> push_bit 16 1"
abbreviation (input) VF_ANS_MBOX_Q_EMPTY :: u64 where "VF_ANS_MBOX_Q_EMPTY \<equiv> push_bit 17 1"
abbreviation (input) VF_ANS_MBOX_EP_BOOTSTRAP :: u8 where "VF_ANS_MBOX_EP_BOOTSTRAP \<equiv> 255"
abbreviation (input) VF_ANS_MBOX_BOOTSTRAP_OP_PING :: u8 where "VF_ANS_MBOX_BOOTSTRAP_OP_PING \<equiv> 1"
abbreviation (input) VF_ANS_MBOX_BOOTSTRAP_OP_GET_STATUS :: u8 where "VF_ANS_MBOX_BOOTSTRAP_OP_GET_STATUS \<equiv> 2"
abbreviation (input) VF_ANS_MBOX_BOOTSTRAP_OP_PING_ACK :: u8 where "VF_ANS_MBOX_BOOTSTRAP_OP_PING_ACK \<equiv> 101"
abbreviation (input) VF_ANS_MBOX_BOOTSTRAP_OP_STATUS_REPLY :: u8 where "VF_ANS_MBOX_BOOTSTRAP_OP_STATUS_REPLY \<equiv> 102"
abbreviation (input) VF_ANS_MBOX_BOOTSTRAP_OP_ANNOUNCE :: u8 where "VF_ANS_MBOX_BOOTSTRAP_OP_ANNOUNCE \<equiv> 210"
abbreviation (input) VF_ANS_MBOX_BOOTSTRAP_OP_L1_REJECT :: u8 where "VF_ANS_MBOX_BOOTSTRAP_OP_L1_REJECT \<equiv> 0xFE"
abbreviation (input) VF_ANS_MBOX_MMIO_STATUS :: nat where "VF_ANS_MBOX_MMIO_STATUS \<equiv> 0x000"
abbreviation (input) VF_ANS_MBOX_MMIO_FLAGS :: nat where "VF_ANS_MBOX_MMIO_FLAGS \<equiv> 0x004"
abbreviation (input) VF_ANS_MBOX_MMIO_TIER :: nat where "VF_ANS_MBOX_MMIO_TIER \<equiv> 0x008"
abbreviation (input) VF_ANS_MBOX_MMIO_A2I_QSTAT :: nat where "VF_ANS_MBOX_MMIO_A2I_QSTAT \<equiv> 0x010"
abbreviation (input) VF_ANS_MBOX_MMIO_I2A_QSTAT :: nat where "VF_ANS_MBOX_MMIO_I2A_QSTAT \<equiv> 0x014"
abbreviation (input) VF_ANS_MBOX_MMIO_A2I_MSG :: nat where "VF_ANS_MBOX_MMIO_A2I_MSG \<equiv> 0x018"
abbreviation (input) VF_ANS_MBOX_MMIO_I2A_MSG :: nat where "VF_ANS_MBOX_MMIO_I2A_MSG \<equiv> 0x020"
abbreviation (input) VF_ANS_MBOX_MMIO_SIZE :: nat where "VF_ANS_MBOX_MMIO_SIZE \<equiv> 0x028"

record vf_ans_mbox_msg =
  am_ep :: u8
  am_tag :: u8
  am_op :: u8
  am_param :: u8
  am_data :: u32

record vf_ans_mbox_v1 =
  mbox_status :: u32
  mbox_flags :: u32
  mbox_last_a2i_write :: u64
  mbox_a2i_write_seen :: bool
  mbox_i2a_msg :: u64
  mbox_reply_pending :: bool
  mbox_pci :: "nat option"

record mbox_store =
  w_pci :: "nat \<Rightarrow> vf_ans_pci_v1"
  w_mbox :: "nat \<Rightarrow> vf_ans_mbox_v1"

definition mbox_put :: "nat \<Rightarrow> vf_ans_mbox_v1 \<Rightarrow> 'a mbox_store_scheme \<Rightarrow> 'a mbox_store_scheme" where
  "mbox_put p m w = w\<lparr>w_mbox := (w_mbox w)(p := m)\<rparr>"

definition vf_ans_mbox_pack_msg :: "u8 \<Rightarrow> u8 \<Rightarrow> u8 \<Rightarrow> u8 \<Rightarrow> u32 \<Rightarrow> u64" where
  "vf_ans_mbox_pack_msg ep tag op param data =
     ucast ep OR push_bit 8 (ucast tag) OR push_bit 16 (ucast op) OR push_bit 24 (ucast param)
     OR push_bit 32 (ucast data)"

definition vf_ans_mbox_unpack_msg :: "u64 \<Rightarrow> vf_ans_mbox_msg" where
  "vf_ans_mbox_unpack_msg raw =
     \<lparr>am_ep = ucast (raw AND 0xff), am_tag = ucast (drop_bit 8 raw AND 0xff),
      am_op = ucast (drop_bit 16 raw AND 0xff), am_param = ucast (drop_bit 24 raw AND 0xff),
      am_data = ucast (drop_bit 32 raw)\<rparr>"

definition ans_mbox_reconcile_started :: "'a mbox_store_scheme \<Rightarrow> nat \<Rightarrow> 'a mbox_store_scheme" where
  "ans_mbox_reconcile_started w p =
     (let s = w_mbox w p in
      if mbox_flags s AND VF_ANS_MBOX_FLAG_STARTED = 0 then w
      else case mbox_pci s of
        None \<Rightarrow> w
      | Some q \<Rightarrow>
          if \<not> vf_ans_pci_bus_master_enabled (w_pci w q)
          then mbox_put p (s\<lparr>mbox_flags := mbox_flags s AND NOT VF_ANS_MBOX_FLAG_STARTED\<rparr>) w
          else w)"

definition ans_mbox_post_reply :: "vf_ans_mbox_v1 \<Rightarrow> u64 \<Rightarrow> vf_ans_mbox_v1" where
  "ans_mbox_post_reply s msg = s\<lparr>mbox_i2a_msg := msg, mbox_reply_pending := True,
     mbox_flags := mbox_flags s OR VF_ANS_MBOX_FLAG_REPLY_PENDING\<rparr>"

definition ans_mbox_reply :: "u32 \<Rightarrow> u64 \<Rightarrow> u64" where
  "ans_mbox_reply status raw =
     (let m = vf_ans_mbox_unpack_msg raw in
      if am_ep m \<noteq> VF_ANS_MBOX_EP_BOOTSTRAP then
        vf_ans_mbox_pack_msg (am_ep m) (am_tag m) VF_ANS_MBOX_BOOTSTRAP_OP_L1_REJECT (am_op m) 0
      else if am_op m = VF_ANS_MBOX_BOOTSTRAP_OP_PING then
        vf_ans_mbox_pack_msg VF_ANS_MBOX_EP_BOOTSTRAP (am_tag m) VF_ANS_MBOX_BOOTSTRAP_OP_PING_ACK 0 0
      else if am_op m = VF_ANS_MBOX_BOOTSTRAP_OP_GET_STATUS then
        vf_ans_mbox_pack_msg VF_ANS_MBOX_EP_BOOTSTRAP (am_tag m) VF_ANS_MBOX_BOOTSTRAP_OP_STATUS_REPLY 0 status
      else vf_ans_mbox_pack_msg VF_ANS_MBOX_EP_BOOTSTRAP (am_tag m) VF_ANS_MBOX_BOOTSTRAP_OP_L1_REJECT (am_op m) 0)"

definition ans_mbox_handle_endpoint :: "vf_ans_mbox_v1 \<Rightarrow> u64 \<Rightarrow> vf_ans_mbox_v1" where
  "ans_mbox_handle_endpoint s raw = ans_mbox_post_reply s (ans_mbox_reply (mbox_status s) raw)"

definition vf_ans_mbox_init :: "'a mbox_store_scheme \<Rightarrow> nat \<Rightarrow> rc \<times> 'a mbox_store_scheme" where
  "vf_ans_mbox_init w p =
     (OK, mbox_put p \<lparr>mbox_status = VF_ANS_MBOX_STATUS_BOOTSTRAP, mbox_flags = VF_ANS_MBOX_FLAG_PRESENT,
        mbox_last_a2i_write = 0, mbox_a2i_write_seen = False, mbox_i2a_msg = 0,
        mbox_reply_pending = False, mbox_pci = None\<rparr> w)"

definition vf_ans_mbox_status :: "'a mbox_store_scheme \<Rightarrow> nat \<Rightarrow> u32" where
  "vf_ans_mbox_status w p = mbox_status (w_mbox w p)"

definition vf_ans_mbox_flags :: "'a mbox_store_scheme \<Rightarrow> nat \<Rightarrow> u32 \<times> 'a mbox_store_scheme" where
  "vf_ans_mbox_flags w p = (let w1 = ans_mbox_reconcile_started w p in (mbox_flags (w_mbox w1 p), w1))"

definition vf_ans_mbox_a2i_write_seen :: "'a mbox_store_scheme \<Rightarrow> nat \<Rightarrow> bool" where
  "vf_ans_mbox_a2i_write_seen w p = mbox_a2i_write_seen (w_mbox w p)"
definition vf_ans_mbox_last_a2i_write :: "'a mbox_store_scheme \<Rightarrow> nat \<Rightarrow> u64" where
  "vf_ans_mbox_last_a2i_write w p = mbox_last_a2i_write (w_mbox w p)"
definition vf_ans_mbox_reply_pending :: "'a mbox_store_scheme \<Rightarrow> nat \<Rightarrow> bool" where
  "vf_ans_mbox_reply_pending w p = mbox_reply_pending (w_mbox w p)"
definition vf_ans_mbox_i2a_msg :: "'a mbox_store_scheme \<Rightarrow> nat \<Rightarrow> u64" where
  "vf_ans_mbox_i2a_msg w p = mbox_i2a_msg (w_mbox w p)"

definition vf_ans_mbox_bind_pci ::
  "'a mbox_store_scheme \<Rightarrow> nat \<Rightarrow> nat option \<Rightarrow> rc \<times> 'a mbox_store_scheme" where
  "vf_ans_mbox_bind_pci w p pci =
     (OK, ans_mbox_reconcile_started (mbox_put p ((w_mbox w p)\<lparr>mbox_pci := pci\<rparr>) w) p)"

definition ans_mbox_mark_started :: "vf_ans_mbox_v1 \<Rightarrow> vf_ans_mbox_v1" where
  "ans_mbox_mark_started s = ans_mbox_post_reply (s\<lparr>mbox_flags := mbox_flags s OR VF_ANS_MBOX_FLAG_STARTED\<rparr>)
     (vf_ans_mbox_pack_msg VF_ANS_MBOX_EP_BOOTSTRAP 0 VF_ANS_MBOX_BOOTSTRAP_OP_ANNOUNCE 0 VF_ANS_MBOX_STATUS_BOOTSTRAP)"

definition vf_ans_mbox_start :: "'a mbox_store_scheme \<Rightarrow> nat \<Rightarrow> rc \<times> 'a mbox_store_scheme" where
  "vf_ans_mbox_start w p =
     (if mbox_status (w_mbox w p) \<noteq> VF_ANS_MBOX_STATUS_BOOTSTRAP then (ERR, w)
      else case mbox_pci (w_mbox w p) of
        None \<Rightarrow> (OK, mbox_put p (ans_mbox_mark_started (w_mbox w p)) w)
      | Some q \<Rightarrow>
          (case vf_ans_pci_enable_memory_bus_master (w_pci w q) of
             (c, pci1) \<Rightarrow>
               let w1 = w\<lparr>w_pci := (w_pci w)(q := pci1)\<rparr> in
               if c \<noteq> OK then (ERR, w1)
               else if \<not> vf_ans_pci_bus_master_enabled (w_pci w1 q) then (ERR, w1)
               else (OK, mbox_put p (ans_mbox_mark_started (w_mbox w1 p)) w1)))"

definition vf_ans_mbox_wakeup :: "'a mbox_store_scheme \<Rightarrow> nat \<Rightarrow> rc \<times> 'a mbox_store_scheme" where
  "vf_ans_mbox_wakeup w p = vf_ans_mbox_start w p"

definition vf_ans_mbox_started :: "'a mbox_store_scheme \<Rightarrow> nat \<Rightarrow> bool \<times> 'a mbox_store_scheme" where
  "vf_ans_mbox_started w p =
     (let w1 = ans_mbox_reconcile_started w p in
      (mbox_flags (w_mbox w1 p) AND VF_ANS_MBOX_FLAG_STARTED \<noteq> 0, w1))"

definition vf_ans_mbox_read ::
  "'a mbox_store_scheme \<Rightarrow> nat \<Rightarrow> nat \<Rightarrow> nat \<Rightarrow> u64 option \<times> 'a mbox_store_scheme" where
  "vf_ans_mbox_read w p off width =
     (let s = w_mbox w p in
      if off \<ge> VF_ANS_MBOX_MMIO_SIZE then (None, w)
      else if off = VF_ANS_MBOX_MMIO_STATUS then
        (if width \<noteq> 32 then (None, w) else (Some (ucast (mbox_status s)), w))
      else if off = VF_ANS_MBOX_MMIO_FLAGS then
        (if width \<noteq> 32 then (None, w)
         else let w1 = ans_mbox_reconcile_started w p in (Some (ucast (mbox_flags (w_mbox w1 p))), w1))
      else if off = VF_ANS_MBOX_MMIO_TIER then
        (if width \<noteq> 32 then (None, w) else (Some VF_ANS_MBOX_TIER_AKF_REGMAP, w))
      else if off = VF_ANS_MBOX_MMIO_A2I_QSTAT then
        (if width \<noteq> 32 then (None, w) else (Some VF_ANS_MBOX_Q_EMPTY, w))
      else if off = VF_ANS_MBOX_MMIO_I2A_QSTAT then
        (if width \<noteq> 32 then (None, w)
         else (Some (if mbox_reply_pending s then VF_ANS_MBOX_Q_NOT_EMPTY else VF_ANS_MBOX_Q_EMPTY), w))
      else if off = VF_ANS_MBOX_MMIO_A2I_MSG then
        (if width \<noteq> 64 then (None, w) else (Some 0, w))
      else if off = VF_ANS_MBOX_MMIO_I2A_MSG then
        (if width \<noteq> 64 then (None, w)
         else (Some (mbox_i2a_msg s), mbox_put p (s\<lparr>mbox_reply_pending := False,
                 mbox_flags := mbox_flags s AND NOT VF_ANS_MBOX_FLAG_REPLY_PENDING\<rparr>) w))
      else (None, w))"

definition vf_ans_mbox_write ::
  "'a mbox_store_scheme \<Rightarrow> nat \<Rightarrow> nat \<Rightarrow> nat \<Rightarrow> u64 \<Rightarrow> rc \<times> 'a mbox_store_scheme" where
  "vf_ans_mbox_write w p off width v =
     (if off \<noteq> VF_ANS_MBOX_MMIO_A2I_MSG then (ERR, w)
      else if width \<noteq> 64 then (ERR, w)
      else
        let w1 = ans_mbox_reconcile_started
                   (mbox_put p ((w_mbox w p)\<lparr>mbox_last_a2i_write := v, mbox_a2i_write_seen := True\<rparr>) w) p in
        if mbox_flags (w_mbox w1 p) AND VF_ANS_MBOX_FLAG_STARTED \<noteq> 0
        then (OK, mbox_put p (ans_mbox_handle_endpoint (w_mbox w1 p) v) w1)
        else (OK, w1))"

section \<open>The ASC wrapper\<close>

abbreviation (input) VF_ASCWRAP_TIER_CORE_MAP :: u64 where "VF_ASCWRAP_TIER_CORE_MAP \<equiv> 1"
abbreviation (input) VF_ASCWRAP_STATUS_BOOTSTRAP :: u32 where "VF_ASCWRAP_STATUS_BOOTSTRAP \<equiv> 1"
abbreviation (input) VF_ASCWRAP_FLAG_PRESENT :: u32 where "VF_ASCWRAP_FLAG_PRESENT \<equiv> push_bit 0 1"
abbreviation (input) VF_ASCWRAP_FLAG_READY :: u32 where "VF_ASCWRAP_FLAG_READY \<equiv> push_bit 1 1"
abbreviation (input) VF_ASCWRAP_MMIO_STATUS :: nat where "VF_ASCWRAP_MMIO_STATUS \<equiv> 0x000"
abbreviation (input) VF_ASCWRAP_MMIO_FLAGS :: nat where "VF_ASCWRAP_MMIO_FLAGS \<equiv> 0x004"
abbreviation (input) VF_ASCWRAP_MMIO_TIER :: nat where "VF_ASCWRAP_MMIO_TIER \<equiv> 0x008"
abbreviation (input) VF_ASCWRAP_MMIO_CORE :: nat where "VF_ASCWRAP_MMIO_CORE \<equiv> 0x010"
abbreviation (input) VF_ASCWRAP_MMIO_SIZE :: nat where "VF_ASCWRAP_MMIO_SIZE \<equiv> 0x018"

record vf_ascwrap_v1 =
  asc_status :: u32
  asc_flags :: u32
  asc_last_core_write :: u64
  asc_core_write_seen :: bool
  asc_mbox :: "nat option"

record asc_store = mbox_store +
  w_asc :: "nat \<Rightarrow> vf_ascwrap_v1"

definition asc_put :: "nat \<Rightarrow> vf_ascwrap_v1 \<Rightarrow> 'a asc_store_scheme \<Rightarrow> 'a asc_store_scheme" where
  "asc_put p s w = w\<lparr>w_asc := (w_asc w)(p := s)\<rparr>"

definition ascwrap_set_ready :: "vf_ascwrap_v1 \<Rightarrow> bool \<Rightarrow> vf_ascwrap_v1" where
  "ascwrap_set_ready s b = s\<lparr>asc_flags :=
     if b then asc_flags s OR VF_ASCWRAP_FLAG_READY else asc_flags s AND NOT VF_ASCWRAP_FLAG_READY\<rparr>"

definition ascwrap_reconcile_ready :: "'a asc_store_scheme \<Rightarrow> nat \<Rightarrow> 'a asc_store_scheme" where
  "ascwrap_reconcile_ready w p =
     (case asc_mbox (w_asc w p) of
        None \<Rightarrow> asc_put p (ascwrap_set_ready (w_asc w p) False) w
      | Some m \<Rightarrow>
          (case vf_ans_mbox_started w m of
             (st, w1) \<Rightarrow> asc_put p (ascwrap_set_ready (w_asc w1 p) st) w1))"

definition vf_ascwrap_init :: "'a asc_store_scheme \<Rightarrow> nat \<Rightarrow> rc \<times> 'a asc_store_scheme" where
  "vf_ascwrap_init w p = (OK, asc_put p \<lparr>asc_status = VF_ASCWRAP_STATUS_BOOTSTRAP,
     asc_flags = VF_ASCWRAP_FLAG_PRESENT, asc_last_core_write = 0, asc_core_write_seen = False,
     asc_mbox = None\<rparr> w)"

definition vf_ascwrap_status :: "'a asc_store_scheme \<Rightarrow> nat \<Rightarrow> u32" where
  "vf_ascwrap_status w p = asc_status (w_asc w p)"

definition vf_ascwrap_flags :: "'a asc_store_scheme \<Rightarrow> nat \<Rightarrow> u32 \<times> 'a asc_store_scheme" where
  "vf_ascwrap_flags w p = (let w1 = ascwrap_reconcile_ready w p in (asc_flags (w_asc w1 p), w1))"

definition vf_ascwrap_core_write_seen :: "'a asc_store_scheme \<Rightarrow> nat \<Rightarrow> bool" where
  "vf_ascwrap_core_write_seen w p = asc_core_write_seen (w_asc w p)"
definition vf_ascwrap_last_core_write :: "'a asc_store_scheme \<Rightarrow> nat \<Rightarrow> u64" where
  "vf_ascwrap_last_core_write w p = asc_last_core_write (w_asc w p)"

definition vf_ascwrap_bind_mbox ::
  "'a asc_store_scheme \<Rightarrow> nat \<Rightarrow> nat option \<Rightarrow> rc \<times> 'a asc_store_scheme" where
  "vf_ascwrap_bind_mbox w p mbox =
     (OK, ascwrap_reconcile_ready (asc_put p ((w_asc w p)\<lparr>asc_mbox := mbox\<rparr>) w) p)"

definition vf_ascwrap_ready :: "'a asc_store_scheme \<Rightarrow> nat \<Rightarrow> bool \<times> 'a asc_store_scheme" where
  "vf_ascwrap_ready w p =
     (let w1 = ascwrap_reconcile_ready w p in (asc_flags (w_asc w1 p) AND VF_ASCWRAP_FLAG_READY \<noteq> 0, w1))"

definition vf_ascwrap_read ::
  "'a asc_store_scheme \<Rightarrow> nat \<Rightarrow> nat \<Rightarrow> nat \<Rightarrow> u64 option \<times> 'a asc_store_scheme" where
  "vf_ascwrap_read w p off width =
     (if off \<ge> VF_ASCWRAP_MMIO_SIZE then (None, w)
      else if off = VF_ASCWRAP_MMIO_STATUS then
        (if width \<noteq> 32 then (None, w) else (Some (ucast (asc_status (w_asc w p))), w))
      else if off = VF_ASCWRAP_MMIO_FLAGS then
        (if width \<noteq> 32 then (None, w)
         else let w1 = ascwrap_reconcile_ready w p in (Some (ucast (asc_flags (w_asc w1 p))), w1))
      else if off = VF_ASCWRAP_MMIO_TIER then
        (if width \<noteq> 32 then (None, w) else (Some VF_ASCWRAP_TIER_CORE_MAP, w))
      else if off = VF_ASCWRAP_MMIO_CORE then
        (if width \<noteq> 64 then (None, w) else (Some 0, w))
      else (None, w))"

definition vf_ascwrap_write ::
  "'a asc_store_scheme \<Rightarrow> nat \<Rightarrow> nat \<Rightarrow> nat \<Rightarrow> u64 \<Rightarrow> rc \<times> 'a asc_store_scheme" where
  "vf_ascwrap_write w p off width v =
     (if off \<noteq> VF_ASCWRAP_MMIO_CORE then (ERR, w)
      else if width \<noteq> 64 then (ERR, w)
      else (OK, asc_put p ((w_asc w p)\<lparr>asc_last_core_write := v, asc_core_write_seen := True\<rparr>) w))"

section \<open>The autoboot map\<close>

abbreviation (input) VF_ANS_AUTOBOOT_TIER_REGMAP :: u64 where "VF_ANS_AUTOBOOT_TIER_REGMAP \<equiv> 2"
abbreviation (input) VF_ANS_AUTOBOOT_STATUS_BOOTSTRAP :: u32 where "VF_ANS_AUTOBOOT_STATUS_BOOTSTRAP \<equiv> 1"
abbreviation (input) VF_ANS_AUTOBOOT_FLAG_PRESENT :: u32 where "VF_ANS_AUTOBOOT_FLAG_PRESENT \<equiv> push_bit 0 1"
abbreviation (input) VF_ANS_AUTOBOOT_FLAG_ARMED :: u32 where "VF_ANS_AUTOBOOT_FLAG_ARMED \<equiv> push_bit 1 1"
abbreviation (input) VF_ANS_AUTOBOOT_MMIO_STATUS :: nat where "VF_ANS_AUTOBOOT_MMIO_STATUS \<equiv> 0x000"
abbreviation (input) VF_ANS_AUTOBOOT_MMIO_FLAGS :: nat where "VF_ANS_AUTOBOOT_MMIO_FLAGS \<equiv> 0x004"
abbreviation (input) VF_ANS_AUTOBOOT_MMIO_TIER :: nat where "VF_ANS_AUTOBOOT_MMIO_TIER \<equiv> 0x008"
abbreviation (input) VF_ANS_AUTOBOOT_MMIO_MAP :: nat where "VF_ANS_AUTOBOOT_MMIO_MAP \<equiv> 0x010"
abbreviation (input) VF_ANS_AUTOBOOT_MMIO_SIZE :: nat where "VF_ANS_AUTOBOOT_MMIO_SIZE \<equiv> 0x018"

record vf_ans_autoboot_v1 =
  ab_status :: u32
  ab_flags :: u32
  ab_last_write :: u64
  ab_write_seen :: bool
  ab_ascwrap :: "nat option"

record boot_store = asc_store +
  w_boot :: "nat \<Rightarrow> vf_ans_autoboot_v1"

definition boot_put :: "nat \<Rightarrow> vf_ans_autoboot_v1 \<Rightarrow> 'a boot_store_scheme \<Rightarrow> 'a boot_store_scheme" where
  "boot_put p s w = w\<lparr>w_boot := (w_boot w)(p := s)\<rparr>"

definition autoboot_set_armed :: "vf_ans_autoboot_v1 \<Rightarrow> bool \<Rightarrow> vf_ans_autoboot_v1" where
  "autoboot_set_armed s b = s\<lparr>ab_flags :=
     if b then ab_flags s OR VF_ANS_AUTOBOOT_FLAG_ARMED else ab_flags s AND NOT VF_ANS_AUTOBOOT_FLAG_ARMED\<rparr>"

definition ans_autoboot_reconcile_armed :: "'a boot_store_scheme \<Rightarrow> nat \<Rightarrow> 'a boot_store_scheme" where
  "ans_autoboot_reconcile_armed w p =
     (case ab_ascwrap (w_boot w p) of
        None \<Rightarrow> boot_put p (autoboot_set_armed (w_boot w p) False) w
      | Some q \<Rightarrow>
          (case vf_ascwrap_ready w q of
             (rdy, w1) \<Rightarrow> boot_put p (autoboot_set_armed (w_boot w1 p) rdy) w1))"

definition vf_ans_autoboot_init :: "'a boot_store_scheme \<Rightarrow> nat \<Rightarrow> rc \<times> 'a boot_store_scheme" where
  "vf_ans_autoboot_init w p = (OK, boot_put p \<lparr>ab_status = VF_ANS_AUTOBOOT_STATUS_BOOTSTRAP,
     ab_flags = VF_ANS_AUTOBOOT_FLAG_PRESENT, ab_last_write = 0, ab_write_seen = False, ab_ascwrap = None\<rparr> w)"

definition vf_ans_autoboot_status :: "'a boot_store_scheme \<Rightarrow> nat \<Rightarrow> u32" where
  "vf_ans_autoboot_status w p = ab_status (w_boot w p)"

definition vf_ans_autoboot_flags :: "'a boot_store_scheme \<Rightarrow> nat \<Rightarrow> u32 \<times> 'a boot_store_scheme" where
  "vf_ans_autoboot_flags w p = (let w1 = ans_autoboot_reconcile_armed w p in (ab_flags (w_boot w1 p), w1))"

definition vf_ans_autoboot_write_seen :: "'a boot_store_scheme \<Rightarrow> nat \<Rightarrow> bool" where
  "vf_ans_autoboot_write_seen w p = ab_write_seen (w_boot w p)"
definition vf_ans_autoboot_last_write :: "'a boot_store_scheme \<Rightarrow> nat \<Rightarrow> u64" where
  "vf_ans_autoboot_last_write w p = ab_last_write (w_boot w p)"

definition vf_ans_autoboot_bind_ascwrap ::
  "'a boot_store_scheme \<Rightarrow> nat \<Rightarrow> nat option \<Rightarrow> rc \<times> 'a boot_store_scheme" where
  "vf_ans_autoboot_bind_ascwrap w p asc =
     (OK, ans_autoboot_reconcile_armed (boot_put p ((w_boot w p)\<lparr>ab_ascwrap := asc\<rparr>) w) p)"

definition vf_ans_autoboot_armed :: "'a boot_store_scheme \<Rightarrow> nat \<Rightarrow> bool \<times> 'a boot_store_scheme" where
  "vf_ans_autoboot_armed w p =
     (let w1 = ans_autoboot_reconcile_armed w p in
      (ab_flags (w_boot w1 p) AND VF_ANS_AUTOBOOT_FLAG_ARMED \<noteq> 0, w1))"

definition vf_ans_autoboot_read ::
  "'a boot_store_scheme \<Rightarrow> nat \<Rightarrow> nat \<Rightarrow> nat \<Rightarrow> u64 option \<times> 'a boot_store_scheme" where
  "vf_ans_autoboot_read w p off width =
     (if off \<ge> VF_ANS_AUTOBOOT_MMIO_SIZE then (None, w)
      else if off = VF_ANS_AUTOBOOT_MMIO_STATUS then
        (if width \<noteq> 32 then (None, w) else (Some (ucast (ab_status (w_boot w p))), w))
      else if off = VF_ANS_AUTOBOOT_MMIO_FLAGS then
        (if width \<noteq> 32 then (None, w)
         else let w1 = ans_autoboot_reconcile_armed w p in (Some (ucast (ab_flags (w_boot w1 p))), w1))
      else if off = VF_ANS_AUTOBOOT_MMIO_TIER then
        (if width \<noteq> 32 then (None, w) else (Some VF_ANS_AUTOBOOT_TIER_REGMAP, w))
      else if off = VF_ANS_AUTOBOOT_MMIO_MAP then
        (if width \<noteq> 64 then (None, w) else (Some 0, w))
      else (None, w))"

definition vf_ans_autoboot_write ::
  "'a boot_store_scheme \<Rightarrow> nat \<Rightarrow> nat \<Rightarrow> nat \<Rightarrow> u64 \<Rightarrow> rc \<times> 'a boot_store_scheme" where
  "vf_ans_autoboot_write w p off width v =
     (if off \<noteq> VF_ANS_AUTOBOOT_MMIO_MAP then (ERR, w)
      else if width \<noteq> 64 then (ERR, w)
      else
        let w1 = (if ab_ascwrap (w_boot w p) \<noteq> None then ans_autoboot_reconcile_armed w p else w) in
        if ab_ascwrap (w_boot w p) \<noteq> None \<and> ab_flags (w_boot w1 p) AND VF_ANS_AUTOBOOT_FLAG_ARMED = 0
        then (ERR, w1)
        else (OK, boot_put p ((w_boot w1 p)\<lparr>ab_last_write := v, ab_write_seen := True\<rparr>) w1))"

section \<open>The codec and the endpoint\<close>

definition mbox_fields_of :: "u64 \<Rightarrow> mbox_fields" where
  "mbox_fields_of w = (let m = vf_ans_mbox_unpack_msg w in (am_ep m, am_tag m, am_op m, am_param m, am_data m))"

lemma mbox_fields_pack [simp]:
  "mbox_fields_of (vf_ans_mbox_pack_msg ep tag op param data) = (ep, tag, op, param, data)"
proof -
  let ?w = "vf_ans_mbox_pack_msg ep tag op param data"
  have "ucast ?w = ep" "ucast (drop_bit 8 ?w) = tag" "ucast (drop_bit 16 ?w) = op"
    "ucast (drop_bit 24 ?w) = param" "ucast (drop_bit 32 ?w) = data"
    by (rule bit_word_eqI; auto simp: vf_ans_mbox_pack_msg_def bit_simps bit_u8_ge)+
  then show ?thesis by (simp add: mbox_fields_of_def vf_ans_mbox_unpack_msg_def)
qed

text \<open>The structure copy and the shifts are the same encoding.\<close>

lemma mbox_fields_sep: "mbox_fields_of w = sep_fields w"
proof -
  have lane: "ucast (drop_bit k (ucast (drop_bit 32 w) :: u32)) = (ucast (drop_bit (32 + k) w) :: u8)" if "k \<le> 24" for k
    by (rule bit_word_eqI) (use that in \<open>auto simp: bit_simps add.assoc\<close>)
  have "drop 4 (put_le64 w) = put_le32 (ucast (drop_bit 32 w))"
    using lane [of 0] lane [of 8] lane [of 16] lane [of 24] by (simp add: put_le64_def put_le32_def)
  moreover have "put_le64 w ! 0 = ucast w" "put_le64 w ! 1 = ucast (drop_bit 8 w)"
    "put_le64 w ! 2 = ucast (drop_bit 16 w)" "put_le64 w ! 3 = ucast (drop_bit 24 w)"
    by (simp_all add: put_le64_def)
  ultimately show ?thesis
    by (simp add: mbox_fields_of_def sep_fields_def vf_ans_mbox_unpack_msg_def unpack_msg_def Let_def)
qed

interpretation am: boot_endpoint vf_ans_mbox_pack_msg mbox_fields_of ans_mbox_reply
proof unfold_locales
  show "mbox_fields_of v = mbox_fields_of w \<Longrightarrow> v = w" for v w
    by (simp add: mbox_fields_sep sep.fields_inj)
  show "mbox_fields_of (ans_mbox_reply st w) = boot_protocol st (mbox_fields_of w)" for st w
    by (simp add: ans_mbox_reply_def Let_def mbox_fields_of_def [of w])
qed simp

section \<open>Honest flags\<close>

text \<open>What the flags claim, stage by stage, in terms of the devices below.\<close>

definition mbox_honest :: "'a mbox_store_scheme \<Rightarrow> nat \<Rightarrow> bool" where
  "mbox_honest w p \<longleftrightarrow> bit (mbox_flags (w_mbox w p)) 1 \<and>
     (case mbox_pci (w_mbox w p) of None \<Rightarrow> True | Some q \<Rightarrow> bit (pci_command (w_pci w q)) 2)"

definition asc_honest :: "'a asc_store_scheme \<Rightarrow> nat \<Rightarrow> bool" where
  "asc_honest w p \<longleftrightarrow> (case asc_mbox (w_asc w p) of None \<Rightarrow> False | Some m \<Rightarrow> mbox_honest w m)"

definition boot_honest :: "'a boot_store_scheme \<Rightarrow> nat \<Rightarrow> bool" where
  "boot_honest w p \<longleftrightarrow> (case ab_ascwrap (w_boot w p) of None \<Rightarrow> False | Some q \<Rightarrow> asc_honest w q)"

lemma u32_flag_tests:
  "v AND 2 = 0 \<longleftrightarrow> \<not> bit (v :: u32) 1" "v AND 4 = 0 \<longleftrightarrow> \<not> bit (v :: u32) 2"
  by (simp_all add: and_flag_eq_0 [of _ 1] and_flag_eq_0 [of _ 2])

lemma bit_u32_flags:
  "bit (1 :: u32) n \<longleftrightarrow> n = 0" "bit (2 :: u32) n \<longleftrightarrow> n = 1" "bit (4 :: u32) n \<longleftrightarrow> n = 2"
  using bit_two_power [where ?'a = 32, of 0 n] bit_two_power [where ?'a = 32, of 1 n]
    bit_two_power [where ?'a = 32, of 2 n] by auto

lemma bus_master_bit: "vf_ans_pci_bus_master_enabled s \<longleftrightarrow> bit (pci_command s) 2"
  by (simp add: vf_ans_pci_bus_master_enabled_def and_flag_eq_0 [of _ 2])

lemma reconcile_started_eq:
  "ans_mbox_reconcile_started w p =
     (if bit (mbox_flags (w_mbox w p)) 1 \<and> \<not> mbox_honest w p
      then mbox_put p ((w_mbox w p)\<lparr>mbox_flags := mbox_flags (w_mbox w p) AND NOT 2\<rparr>) w else w)"
  by (auto simp: ans_mbox_reconcile_started_def mbox_honest_def Let_def u32_flag_tests bus_master_bit
      split: option.split)

text \<open>Reconciling one mailbox changes at most a dishonest started flag, so it changes no honest
  claim of any mailbox.\<close>

lemma reconcile_started_frame:
  "mbox_honest (ans_mbox_reconcile_started w p) q = mbox_honest w q"
  "w_pci (ans_mbox_reconcile_started w p) = w_pci w"
  "mbox_pci (w_mbox (ans_mbox_reconcile_started w p) q) = mbox_pci (w_mbox w q)"
  "bit (mbox_flags (w_mbox (ans_mbox_reconcile_started w p) p)) (Suc 0) = mbox_honest w p"
  by (auto simp: reconcile_started_eq mbox_put_def mbox_honest_def bit_simps bit_u32_flags split: option.split)

lemma reconcile_started_asc [simp]:
  "w_asc (ans_mbox_reconcile_started w p) = w_asc w"
  by (simp add: reconcile_started_eq mbox_put_def)

lemma reconcile_started_boot [simp]: "w_boot (ans_mbox_reconcile_started w p) = w_boot w"
  by (simp add: reconcile_started_eq mbox_put_def)

lemma mbox_started_iff: "fst (vf_ans_mbox_started w p) = mbox_honest w p"
  by (simp add: vf_ans_mbox_started_def Let_def u32_flag_tests reconcile_started_frame)

lemma mbox_started_store: "snd (vf_ans_mbox_started w p) = ans_mbox_reconcile_started w p"
  by (simp add: vf_ans_mbox_started_def Let_def)

lemma reconcile_ready_eq:
  "ascwrap_reconcile_ready w p =
     asc_put p (ascwrap_set_ready (w_asc w p) (asc_honest w p))
       (case asc_mbox (w_asc w p) of None \<Rightarrow> w | Some m \<Rightarrow> ans_mbox_reconcile_started w m)"
  by (simp add: ascwrap_reconcile_ready_def asc_honest_def case_prod_beta mbox_started_iff mbox_started_store
      split: option.split)

lemma mbox_honest_asc_put [simp]: "mbox_honest (asc_put p s w) q = mbox_honest w q"
  by (simp add: mbox_honest_def asc_put_def split: option.split)

lemma reconcile_ready_frame:
  "mbox_honest (ascwrap_reconcile_ready w p) m = mbox_honest w m"
  "asc_honest (ascwrap_reconcile_ready w p) q = asc_honest w q"
  "w_boot (ascwrap_reconcile_ready (w :: 'a boot_store_scheme) p) = w_boot w"
proof -
  show m: "mbox_honest (ascwrap_reconcile_ready w p) m = mbox_honest w m" for w :: "'b asc_store_scheme" and m
    by (simp add: reconcile_ready_eq reconcile_started_frame split: option.split)
  have "asc_mbox (w_asc (ascwrap_reconcile_ready w p) q) = asc_mbox (w_asc w q)" for q
    by (simp add: reconcile_ready_eq asc_put_def ascwrap_set_ready_def split: option.split)
  then show "asc_honest (ascwrap_reconcile_ready w p) q = asc_honest w q"
    by (simp add: asc_honest_def m split: option.split)
  show "w_boot (ascwrap_reconcile_ready (w :: 'a boot_store_scheme) p) = w_boot w"
    by (simp add: reconcile_ready_eq asc_put_def split: option.split)
qed

lemma ascwrap_ready_iff: "fst (vf_ascwrap_ready w p) = asc_honest w p"
  by (simp add: vf_ascwrap_ready_def Let_def reconcile_ready_eq u32_flag_tests asc_put_def ascwrap_set_ready_def
      bit_simps bit_u32_flags)

lemma ascwrap_ready_store: "snd (vf_ascwrap_ready w p) = ascwrap_reconcile_ready w p"
  by (simp add: vf_ascwrap_ready_def Let_def)

lemma reconcile_armed_eq:
  "ans_autoboot_reconcile_armed w p =
     boot_put p (autoboot_set_armed (w_boot w p) (boot_honest w p))
       (case ab_ascwrap (w_boot w p) of None \<Rightarrow> w | Some q \<Rightarrow> ascwrap_reconcile_ready w q)"
proof (cases "ab_ascwrap (w_boot w p)")
  case None
  then show ?thesis by (simp add: ans_autoboot_reconcile_armed_def boot_honest_def)
next
  case (Some q)
  have "vf_ascwrap_ready w q = (asc_honest w q, ascwrap_reconcile_ready w q)"
    using ascwrap_ready_iff [of w q] by (simp add: vf_ascwrap_ready_def Let_def)
  with Some show ?thesis
    by (simp add: ans_autoboot_reconcile_armed_def boot_honest_def reconcile_ready_frame)
qed

lemma autoboot_armed_iff: "fst (vf_ans_autoboot_armed w p) = boot_honest w p"
  by (simp add: vf_ans_autoboot_armed_def Let_def reconcile_armed_eq u32_flag_tests boot_put_def
      autoboot_set_armed_def bit_simps bit_u32_flags)

lemma autoboot_armed_store: "snd (vf_ans_autoboot_armed w p) = ans_autoboot_reconcile_armed w p"
  by (simp add: vf_ans_autoboot_armed_def Let_def)

lemma mbox_honest_boot_put [simp]: "mbox_honest (boot_put p s w) q = mbox_honest w q"
  by (simp add: mbox_honest_def boot_put_def split: option.split)

lemma asc_honest_boot_put [simp]: "asc_honest (boot_put p s w) q = asc_honest w q"
  by (simp add: asc_honest_def mbox_honest_def boot_put_def split: option.split)

lemma reconcile_armed_frame:
  "mbox_honest (ans_autoboot_reconcile_armed w p) m = mbox_honest w m"
  "asc_honest (ans_autoboot_reconcile_armed w p) q = asc_honest w q"
  "boot_honest (ans_autoboot_reconcile_armed w p) r = boot_honest w r"
proof -
  show "mbox_honest (ans_autoboot_reconcile_armed w p) m = mbox_honest w m"
    by (simp add: reconcile_armed_eq reconcile_ready_frame split: option.split)
  show a: "asc_honest (ans_autoboot_reconcile_armed w p) q = asc_honest w q" for q
    by (simp add: reconcile_armed_eq reconcile_ready_frame split: option.split)
  have "ab_ascwrap (w_boot (ans_autoboot_reconcile_armed w p) r) = ab_ascwrap (w_boot w r)"
    by (simp add: reconcile_armed_eq boot_put_def autoboot_set_armed_def reconcile_ready_frame split: option.split)
  then show "boot_honest (ans_autoboot_reconcile_armed w p) r = boot_honest w r"
    by (simp add: boot_honest_def a split: option.split)
qed

section \<open>Register files\<close>

definition mbox_inv :: "nat \<Rightarrow> 'a mbox_store_scheme \<Rightarrow> bool" where
  "mbox_inv p w \<longleftrightarrow> mbox_status (w_mbox w p) = VF_ANS_MBOX_STATUS_BOOTSTRAP \<and> bit (mbox_flags (w_mbox w p)) 0
     \<and> (bit (mbox_flags (w_mbox w p)) 2 \<longleftrightarrow> mbox_reply_pending (w_mbox w p))"

lemma mbox_inv_reconcile: "mbox_inv p w \<Longrightarrow> mbox_inv p (ans_mbox_reconcile_started w q)"
  by (auto simp: mbox_inv_def reconcile_started_eq mbox_put_def bit_simps bit_u32_flags)

lemma mbox_inv_read: "mbox_inv p w \<Longrightarrow> mbox_inv p (snd (vf_ans_mbox_read w q off width))"
  using mbox_inv_reconcile [of p w q]
  by (simp add: vf_ans_mbox_read_def Let_def) (auto simp: mbox_inv_def mbox_put_def bit_simps bit_u32_flags)

lemma mbox_inv_endpoint: "mbox_inv p w \<Longrightarrow> mbox_inv p (mbox_put q (ans_mbox_handle_endpoint (w_mbox w q) v) w)"
  by (auto simp: mbox_inv_def mbox_put_def ans_mbox_handle_endpoint_def ans_mbox_post_reply_def bit_simps bit_u32_flags)

lemma mbox_inv_write: "mbox_inv p w \<Longrightarrow> mbox_inv p (snd (vf_ans_mbox_write w q off width v))"
proof -
  assume w: "mbox_inv p w"
  let ?w0 = "mbox_put q ((w_mbox w q)\<lparr>mbox_last_a2i_write := v, mbox_a2i_write_seen := True\<rparr>) w"
  have "mbox_inv p ?w0" using w by (auto simp: mbox_inv_def mbox_put_def)
  then have "mbox_inv p (ans_mbox_reconcile_started ?w0 q)" by (rule mbox_inv_reconcile)
  with w mbox_inv_endpoint [OF this, of q v] show ?thesis by (simp add: vf_ans_mbox_write_def Let_def)
qed

interpretation mbox: mmio_fail_closed "\<lambda>w. vf_ans_mbox_read w q" "\<lambda>w. vf_ans_mbox_write w q" "mbox_inv p" for p q
  by unfold_locales
    (simp_all add: mbox_inv_read mbox_inv_write,
     simp_all add: vf_ans_mbox_read_def vf_ans_mbox_write_def Let_def)

text \<open>What guest accesses to the wrapper and the autoboot map leave alone: every honest claim.\<close>

definition chain_claims :: "'a boot_store_scheme \<Rightarrow> (nat \<Rightarrow> bool) \<times> (nat \<Rightarrow> bool) \<times> (nat \<Rightarrow> bool)" where
  "chain_claims w = (mbox_honest w, asc_honest w, boot_honest w)"

lemma chain_claims_ready: "chain_claims (ascwrap_reconcile_ready w p) = chain_claims w"
  by (simp add: chain_claims_def fun_eq_iff reconcile_ready_frame boot_honest_def split: option.split)

lemma chain_claims_armed: "chain_claims (ans_autoboot_reconcile_armed w p) = chain_claims w"
  by (simp add: chain_claims_def fun_eq_iff reconcile_armed_frame)

lemma chain_claims_core:
  "chain_claims (asc_put p ((w_asc w p)\<lparr>asc_last_core_write := v, asc_core_write_seen := True\<rparr>) w) = chain_claims w"
  by (auto simp: chain_claims_def fun_eq_iff asc_honest_def boot_honest_def mbox_honest_def asc_put_def
      split: option.split)

lemma chain_claims_map:
  "chain_claims (boot_put p ((w_boot w p)\<lparr>ab_last_write := v, ab_write_seen := True\<rparr>) w) = chain_claims w"
  by (auto simp: chain_claims_def fun_eq_iff asc_honest_def boot_honest_def mbox_honest_def boot_put_def
      split: option.split)

interpretation asc: mmio_fail_closed "\<lambda>w. vf_ascwrap_read w p" "\<lambda>w. vf_ascwrap_write w p"
  "\<lambda>w. chain_claims w = V" for p V
  by unfold_locales
    (simp_all add: vf_ascwrap_read_def vf_ascwrap_write_def Let_def chain_claims_ready chain_claims_core)

interpretation boot: mmio_invariant "\<lambda>w. vf_ans_autoboot_read w p" "\<lambda>w. vf_ans_autoboot_write w p"
  "\<lambda>w. chain_claims w = V" for p V
  by unfold_locales
    (simp_all add: vf_ans_autoboot_read_def vf_ans_autoboot_write_def Let_def chain_claims_armed chain_claims_map)

section \<open>Properties\<close>

text \<open>The two mailbox codecs, one a structure copy and one built from shifts, are the same
  bijection between 64-bit words and five fields, and both endpoints answer every word with the
  same reply, the one the protocol prescribes.\<close>

theorem mailbox_codecs_agree:
  "pack_msg ep tag op param data = vf_ans_mbox_pack_msg ep tag op param data
   \<and> mbox_fields_of (vf_ans_mbox_pack_msg ep tag op param data) = (ep, tag, op, param, data)
   \<and> (case mbox_fields_of w of (e, t, q, r, d) \<Rightarrow> vf_ans_mbox_pack_msg e t q r d = w)
   \<and> ans_mbox_reply st w = sep_reply st w
   \<and> mbox_fields_of (ans_mbox_reply st w) = boot_protocol st (mbox_fields_of w)"
proof -
  have "pack_msg ep tag op param data = vf_ans_mbox_pack_msg ep tag op param data"
    by (rule sep.fields_inj) (metis sep_fields_pack mbox_fields_sep mbox_fields_pack)
  moreover have "ans_mbox_reply st w = sep_reply st w"
    by (rule sep.fields_inj) (metis am.reply_law sep.reply_law mbox_fields_sep)
  moreover have "case mbox_fields_of w of (e, t, q, r, d) \<Rightarrow> vf_ans_mbox_pack_msg e t q r d = w"
    by (auto dest: am.pack_fields split: prod.split)
  ultimately show ?thesis
    using am.reply_law [of st w] by (simp only: mbox_fields_pack simp_thms)
qed

text \<open>The autoboot map reports armed exactly when it is bound to a wrapper that is bound to a
  mailbox that has been started and whose PCI function, if it has one, is a bus master; the
  wrapper and the mailbox report ready and started exactly when their part of the chain holds.
  Unbound stages never report ready or armed.\<close>

theorem readiness_chain:
  "(fst (vf_ans_mbox_started w m) \<longleftrightarrow> bit (mbox_flags (w_mbox w m)) 1 \<and>
      (case mbox_pci (w_mbox w m) of None \<Rightarrow> True | Some f \<Rightarrow> vf_ans_pci_bus_master_enabled (w_pci w f)))
   \<and> (fst (vf_ascwrap_ready w q) \<longleftrightarrow>
      (case asc_mbox (w_asc w q) of None \<Rightarrow> False | Some m \<Rightarrow> fst (vf_ans_mbox_started w m)))
   \<and> (fst (vf_ans_autoboot_armed w p) \<longleftrightarrow>
      (case ab_ascwrap (w_boot w p) of None \<Rightarrow> False | Some q \<Rightarrow> fst (vf_ascwrap_ready w q)))"
  unfolding mbox_started_iff ascwrap_ready_iff autoboot_armed_iff bus_master_bit
    mbox_honest_def [of w m] asc_honest_def [of w q] boot_honest_def
  by simp

text \<open>Clearing bus mastering in the PCI configuration register at once withdraws the started,
  ready and armed reports of every device chained to that function.\<close>

theorem bus_master_loss_closes_chain:
  assumes "v AND 4 = 0" "mbox_pci (w_mbox w m) = Some f" "asc_mbox (w_asc w q) = Some m"
    "ab_ascwrap (w_boot w p) = Some q"
  defines "w' \<equiv> w\<lparr>w_pci := (w_pci w)(f := snd (vf_ans_pci_write (w_pci w f) VF_ANS_PCI_MMIO_CONFIG 64 v))\<rparr>"
  shows "\<not> fst (vf_ans_mbox_started w' m) \<and> \<not> fst (vf_ascwrap_ready w' q) \<and> \<not> fst (vf_ans_autoboot_armed w' p)"
proof -
  have "\<not> bit v 2" using assms(1) by (simp add: and_flag_eq_0 [of _ 2])
  then have "\<not> bit (pci_command (w_pci w' f)) 2"
    by (simp add: w'_def vf_ans_pci_write_def bit_simps)
  then have "\<not> mbox_honest w' m"
    using assms(2) by (simp add: mbox_honest_def w'_def)
  then show ?thesis
    using assms(3,4)
    by (simp add: mbox_started_iff ascwrap_ready_iff autoboot_armed_iff asc_honest_def boot_honest_def w'_def)
qed

text \<open>A store in which the devices at address 0 are chained and the mailbox is started.\<close>

definition chain_demo :: boot_store where
  "chain_demo =
     \<lparr>w_pci = (\<lambda>_. pci_boot\<lparr>pci_command := 6\<rparr>),
      w_mbox = (\<lambda>_. \<lparr>mbox_status = 1, mbox_flags = 3, mbox_last_a2i_write = 0, mbox_a2i_write_seen = False,
         mbox_i2a_msg = 0, mbox_reply_pending = False, mbox_pci = Some 0\<rparr>),
      w_asc = (\<lambda>_. \<lparr>asc_status = 1, asc_flags = 1, asc_last_core_write = 0, asc_core_write_seen = False,
         asc_mbox = Some 0\<rparr>),
      w_boot = (\<lambda>_. \<lparr>ab_status = 1, ab_flags = 1, ab_last_write = 0, ab_write_seen = False,
         ab_ascwrap = Some 0\<rparr>)\<rparr>"

lemma chain_demo_links:
  "mbox_pci (w_mbox chain_demo 0) = Some 0" "asc_mbox (w_asc chain_demo 0) = Some 0"
  "ab_ascwrap (w_boot chain_demo 0) = Some 0" "mbox_honest chain_demo 0" "mbox_inv 0 chain_demo"
proof -
  have b: "bit (3 :: u32) 0" "bit (3 :: u32) 1" "\<not> bit (3 :: u32) 2" "bit (6 :: u16) 2"
    by (simp_all add: bit_iff_odd)
  then show "mbox_honest chain_demo 0" "mbox_inv 0 chain_demo"
    by (simp_all add: mbox_honest_def mbox_inv_def chain_demo_def)
qed (simp_all add: chain_demo_def)

theorem bus_master_loss_closes_chain_witness:
  "fst (vf_ans_autoboot_armed chain_demo 0) \<and>
   \<not> fst (vf_ans_autoboot_armed (chain_demo\<lparr>w_pci :=
      (w_pci chain_demo)(0 := snd (vf_ans_pci_write (w_pci chain_demo 0) 0x18 64 0))\<rparr>) 0)"
  using bus_master_loss_closes_chain [of 0 chain_demo 0 0 0 0] chain_demo_links
  by (simp add: autoboot_armed_iff boot_honest_def asc_honest_def)

text \<open>Starting a mailbox that is in bootstrap succeeds, makes it a bus master and announces
  itself; from then on, whatever else the guest does to it, a message it writes is answered in
  the I2A slot by the protocol's reply while the mailbox is started, and is swallowed without a
  reply when it is not.\<close>

theorem mbox_request_reply:
  fixes v :: u64
  assumes "mbox_inv p w"
  defines "w1 \<equiv> snd (vf_ans_mbox_write w p VF_ANS_MBOX_MMIO_A2I_MSG 64 v)"
  shows "fst (vf_ans_mbox_start w p) = OK \<and> mbox_honest (snd (vf_ans_mbox_start w p)) p
    \<and> fst (vf_ans_mbox_write w p VF_ANS_MBOX_MMIO_A2I_MSG 64 v) = OK
    \<and> (if mbox_honest w p
       then vf_ans_mbox_reply_pending w1 p
         \<and> map_option mbox_fields_of (fst (vf_ans_mbox_read w1 p VF_ANS_MBOX_MMIO_I2A_MSG 64)) =
             Some (boot_protocol VF_ANS_MBOX_STATUS_BOOTSTRAP (mbox_fields_of v))
         \<and> \<not> vf_ans_mbox_reply_pending (snd (vf_ans_mbox_read w1 p VF_ANS_MBOX_MMIO_I2A_MSG 64)) p
       else vf_ans_mbox_i2a_msg w1 p = vf_ans_mbox_i2a_msg w p
         \<and> vf_ans_mbox_reply_pending w1 p = vf_ans_mbox_reply_pending w p)"
proof -
  let ?w0 = "mbox_put p ((w_mbox w p)\<lparr>mbox_last_a2i_write := v, mbox_a2i_write_seen := True\<rparr>) w"
  have st: "mbox_status (w_mbox w p) = 1" using assms(1) by (simp add: mbox_inv_def)
  have h0: "mbox_honest ?w0 p = mbox_honest w p"
    by (simp add: mbox_honest_def mbox_put_def split: option.split)
  have flag: "bit (mbox_flags (w_mbox (ans_mbox_reconcile_started ?w0 p) p)) (Suc 0) = mbox_honest w p"
    using reconcile_started_frame(4) [of ?w0 p] h0 by simp
  have keep: "mbox_status (w_mbox (ans_mbox_reconcile_started ?w0 p) p) = 1"
    "mbox_i2a_msg (w_mbox (ans_mbox_reconcile_started ?w0 p) p) = mbox_i2a_msg (w_mbox w p)"
    "mbox_reply_pending (w_mbox (ans_mbox_reconcile_started ?w0 p) p) = mbox_reply_pending (w_mbox w p)"
    using st by (simp_all add: reconcile_started_eq mbox_put_def)
  have "fst (vf_ans_mbox_start w p) = OK \<and> mbox_honest (snd (vf_ans_mbox_start w p)) p"
    by (auto simp: vf_ans_mbox_start_def st vf_ans_pci_enable_memory_bus_master_def bus_master_bit mbox_honest_def
        mbox_put_def ans_mbox_mark_started_def ans_mbox_post_reply_def bit_simps bit_u32_flags split: option.split)
  then show ?thesis
    using flag keep
    by (simp add: w1_def vf_ans_mbox_write_def Let_def u32_flag_tests vf_ans_mbox_read_def
        vf_ans_mbox_reply_pending_def vf_ans_mbox_i2a_msg_def ans_mbox_handle_endpoint_def
        ans_mbox_post_reply_def am.reply_law) (simp add: mbox_put_def am.reply_law)
qed

theorem mbox_request_reply_witness:
  "fst (vf_ans_mbox_read (snd (vf_ans_mbox_write chain_demo 0 0x18 64 (vf_ans_mbox_pack_msg 255 9 1 0 0))) 0 0x20 64)
     = Some (vf_ans_mbox_pack_msg 255 9 101 0 0)"
  using mbox_request_reply [OF chain_demo_links(5), of "vf_ans_mbox_pack_msg 255 9 1 0 0"] chain_demo_links(4)
  by (auto dest: am.pack_fields)

end
