(* ===== verification/Ans.thy ===== *)
theory Ans
  imports Mbox
begin

text \<open>
  The NVMe-style storage controller, \<open>src/devices/ans_v1.c\<close>. Its optional peers are addresses in
  the store of \<open>Mbox\<close>; the host buffers it is handed (Identify data, completion, the stand-ins
  for guest queue and PRP pages) are addresses of byte lists in the field \<open>w_mem\<close>, so that buffers
  may coincide. The controller itself is passed as a record beside the store.

  Shown: Identify data is transferred exactly when the controller is enabled and every bound peer
  honestly reports bus mastering, started, ready and armed; the MSI window bound to the PCI function
  takes a message only when the interrupt condition holds and MSI is the mode in force; a doorbell advance consumes the armed
  command at most once and posts one completion; the PCI function's delivery level always equals
  the controller's own interrupt condition; the sparse register table behaves as a finite map
  with a bounded number of keys.
\<close>

section \<open>Constants and records\<close>

abbreviation (input) VF_ANS_VENDOR_SIZE :: nat where "VF_ANS_VENDOR_SIZE \<equiv> 0x60000"
abbreviation (input) VF_ANS_NVME_ALIAS_SIZE :: nat where "VF_ANS_NVME_ALIAS_SIZE \<equiv> 0x1200"
abbreviation (input) VF_ANS_IRQ_ADMIN_CQ :: u32 where "VF_ANS_IRQ_ADMIN_CQ \<equiv> push_bit 0 1"
abbreviation (input) VF_ANS_REG_CAP_LO :: nat where "VF_ANS_REG_CAP_LO \<equiv> 0x0000"
abbreviation (input) VF_ANS_REG_CAP_HI :: nat where "VF_ANS_REG_CAP_HI \<equiv> 0x0004"
abbreviation (input) VF_ANS_REG_VS :: nat where "VF_ANS_REG_VS \<equiv> 0x0008"
abbreviation (input) VF_ANS_REG_INTMS :: nat where "VF_ANS_REG_INTMS \<equiv> 0x000C"
abbreviation (input) VF_ANS_REG_INTMC :: nat where "VF_ANS_REG_INTMC \<equiv> 0x0010"
abbreviation (input) VF_ANS_REG_CC :: nat where "VF_ANS_REG_CC \<equiv> 0x0014"
abbreviation (input) VF_ANS_REG_CSTS :: nat where "VF_ANS_REG_CSTS \<equiv> 0x001C"
abbreviation (input) VF_ANS_REG_AQA :: nat where "VF_ANS_REG_AQA \<equiv> 0x0024"
abbreviation (input) VF_ANS_REG_ASQ_LO :: nat where "VF_ANS_REG_ASQ_LO \<equiv> 0x0028"
abbreviation (input) VF_ANS_REG_ASQ_HI :: nat where "VF_ANS_REG_ASQ_HI \<equiv> 0x002C"
abbreviation (input) VF_ANS_REG_ACQ_LO :: nat where "VF_ANS_REG_ACQ_LO \<equiv> 0x0030"
abbreviation (input) VF_ANS_REG_ACQ_HI :: nat where "VF_ANS_REG_ACQ_HI \<equiv> 0x0034"
abbreviation (input) VF_ANS_DB_BASE :: nat where "VF_ANS_DB_BASE \<equiv> 0x1000"
abbreviation (input) VF_ANS_DB_END :: nat where "VF_ANS_DB_END \<equiv> VF_ANS_NVME_ALIAS_SIZE"
abbreviation (input) VF_ANS_DB_COUNT :: nat where "VF_ANS_DB_COUNT \<equiv> 128"
abbreviation (input) VF_ANS_CAP_LO_VAL :: u32 where "VF_ANS_CAP_LO_VAL \<equiv> 0x0f0107ff"
abbreviation (input) VF_ANS_CAP_HI_VAL :: u32 where "VF_ANS_CAP_HI_VAL \<equiv> 0x00401820"
abbreviation (input) VF_ANS_VS_VAL :: u32 where "VF_ANS_VS_VAL \<equiv> 0x00010400"
abbreviation (input) VF_ANS_CC_EN :: u32 where "VF_ANS_CC_EN \<equiv> push_bit 0 1"
abbreviation (input) VF_ANS_CSTS_RDY :: u32 where "VF_ANS_CSTS_RDY \<equiv> push_bit 0 1"
abbreviation (input) VF_ANS_DB_VALUE_MASK :: u32 where "VF_ANS_DB_VALUE_MASK \<equiv> 0xffff"
abbreviation (input) VF_ANS_ID_CNS_NS :: u8 where "VF_ANS_ID_CNS_NS \<equiv> 0x00"
abbreviation (input) VF_ANS_ID_CNS_CTRL :: u8 where "VF_ANS_ID_CNS_CTRL \<equiv> 0x01"
abbreviation (input) VF_ANS_OPC_IDENTIFY :: u8 where "VF_ANS_OPC_IDENTIFY \<equiv> 0x06"
abbreviation (input) VF_ANS_ID_CTRL_SIZE :: nat where "VF_ANS_ID_CTRL_SIZE \<equiv> 4096"
abbreviation (input) VF_ANS_ID_NS_SIZE :: nat where "VF_ANS_ID_NS_SIZE \<equiv> 4096"
abbreviation (input) VF_ANS_ID_OFF_MDTS :: nat where "VF_ANS_ID_OFF_MDTS \<equiv> 77"
abbreviation (input) VF_ANS_ID_OFF_VER :: nat where "VF_ANS_ID_OFF_VER \<equiv> 80"
abbreviation (input) VF_ANS_ID_OFF_CNTRLTYPE :: nat where "VF_ANS_ID_OFF_CNTRLTYPE \<equiv> 111"
abbreviation (input) VF_ANS_ID_OFF_SQES :: nat where "VF_ANS_ID_OFF_SQES \<equiv> 512"
abbreviation (input) VF_ANS_ID_OFF_CQES :: nat where "VF_ANS_ID_OFF_CQES \<equiv> 513"
abbreviation (input) VF_ANS_ID_OFF_NN :: nat where "VF_ANS_ID_OFF_NN \<equiv> 516"
abbreviation (input) VF_ANS_ID_NS_OFF_NSZE :: nat where "VF_ANS_ID_NS_OFF_NSZE \<equiv> 0"
abbreviation (input) VF_ANS_ID_NS_OFF_NCAP :: nat where "VF_ANS_ID_NS_OFF_NCAP \<equiv> 8"
abbreviation (input) VF_ANS_ID_NS_OFF_NUSE :: nat where "VF_ANS_ID_NS_OFF_NUSE \<equiv> 16"
abbreviation (input) VF_ANS_ID_NS_OFF_NLBAF :: nat where "VF_ANS_ID_NS_OFF_NLBAF \<equiv> 25"
abbreviation (input) VF_ANS_ID_NS_OFF_FLBAS :: nat where "VF_ANS_ID_NS_OFF_FLBAS \<equiv> 26"
abbreviation (input) VF_ANS_ID_SQES_APPLE :: u8 where "VF_ANS_ID_SQES_APPLE \<equiv> push_bit 4 7 OR 6"
abbreviation (input) VF_ANS_ID_SQES_STD :: u8 where "VF_ANS_ID_SQES_STD \<equiv> push_bit 4 6 OR 6"
abbreviation (input) VF_ANS_ID_CQES :: u8 where "VF_ANS_ID_CQES \<equiv> push_bit 4 4 OR 4"
abbreviation (input) VF_ANS_ID_MDTS_APPLE :: u8 where "VF_ANS_ID_MDTS_APPLE \<equiv> 8"
abbreviation (input) VF_ANS_ID_MDTS_STD :: u8 where "VF_ANS_ID_MDTS_STD \<equiv> 7"
abbreviation (input) VF_ANS_ID_NN :: u32 where "VF_ANS_ID_NN \<equiv> 16"
abbreviation (input) VF_ANS_ID_CNTRLTYPE :: u8 where "VF_ANS_ID_CNTRLTYPE \<equiv> 1"
abbreviation (input) VF_ANS_ID_VER :: u32 where "VF_ANS_ID_VER \<equiv> VF_ANS_VS_VAL"
abbreviation (input) VF_ANS_ID_NS_STUB_NSID :: u32 where "VF_ANS_ID_NS_STUB_NSID \<equiv> 1"
abbreviation (input) VF_ANS_SQE_SIZE :: nat where "VF_ANS_SQE_SIZE \<equiv> 64"
abbreviation (input) VF_ANS_SQE_OFF_CDW0 :: nat where "VF_ANS_SQE_OFF_CDW0 \<equiv> 0"
abbreviation (input) VF_ANS_SQE_OFF_NSID :: nat where "VF_ANS_SQE_OFF_NSID \<equiv> 4"
abbreviation (input) VF_ANS_SQE_OFF_PRP1 :: nat where "VF_ANS_SQE_OFF_PRP1 \<equiv> 24"
abbreviation (input) VF_ANS_SQE_OFF_PRP2 :: nat where "VF_ANS_SQE_OFF_PRP2 \<equiv> 32"
abbreviation (input) VF_ANS_SQE_OFF_CDW10 :: nat where "VF_ANS_SQE_OFF_CDW10 \<equiv> 40"
abbreviation (input) VF_ANS_SQE_PSDT_SHIFT :: nat where "VF_ANS_SQE_PSDT_SHIFT \<equiv> 14"
abbreviation (input) VF_ANS_SQE_PSDT_MASK :: u32 where "VF_ANS_SQE_PSDT_MASK \<equiv> 3"
abbreviation (input) VF_ANS_PRP_PAGE_SIZE :: nat where "VF_ANS_PRP_PAGE_SIZE \<equiv> 0x1000"
abbreviation (input) VF_ANS_PRP_PAGE_MASK :: u64 where "VF_ANS_PRP_PAGE_MASK \<equiv> 0xfff"
abbreviation (input) VF_ANS_CQE_SIZE :: nat where "VF_ANS_CQE_SIZE \<equiv> 16"
abbreviation (input) VF_ANS_CQE_OFF_DW2 :: nat where "VF_ANS_CQE_OFF_DW2 \<equiv> 8"
abbreviation (input) VF_ANS_CQE_OFF_DW3 :: nat where "VF_ANS_CQE_OFF_DW3 \<equiv> 12"
abbreviation (input) VF_ANS_CQE_PHASE_SHIFT :: nat where "VF_ANS_CQE_PHASE_SHIFT \<equiv> 16"
abbreviation (input) VF_ANS_REG_MAX_PEND :: nat where "VF_ANS_REG_MAX_PEND \<equiv> 0x1210"
abbreviation (input) VF_ANS_REG_BOOT_STATUS :: nat where "VF_ANS_REG_BOOT_STATUS \<equiv> 0x1300"
abbreviation (input) VF_ANS_REG_MODESEL :: nat where "VF_ANS_REG_MODESEL \<equiv> 0x1304"
abbreviation (input) VF_ANS_REG_BASE_CMD_ID :: nat where "VF_ANS_REG_BASE_CMD_ID \<equiv> 0x1308"
abbreviation (input) VF_ANS_REG_LINEAR_SQ :: nat where "VF_ANS_REG_LINEAR_SQ \<equiv> 0x24908"
abbreviation (input) VF_ANS_MAX_PEND_VAL :: u32 where "VF_ANS_MAX_PEND_VAL \<equiv> push_bit 16 64 OR 64"
abbreviation (input) VF_ANS_BOOT_STATUS_OK :: u32 where "VF_ANS_BOOT_STATUS_OK \<equiv> 0xde71ce55"
abbreviation (input) VF_ANS_BASE_CMD_ID_VAL :: u32 where "VF_ANS_BASE_CMD_ID_VAL \<equiv> 0x6000"
abbreviation (input) VF_ANS_VENDOR_SPARSE_CAP :: nat where "VF_ANS_VENDOR_SPARSE_CAP \<equiv> 48"

record vf_ans_vendor_slot =
  slot_off :: nat
  slot_val :: u32

record vf_ans_v1 =
  ans_modesel :: u32
  ans_linear_sq :: u32
  ans_base_cmd_id :: u32
  ans_cc :: u32
  ans_csts :: u32
  ans_intm :: u32
  ans_irq_status :: u32
  ans_aqa :: u32
  ans_asq_lo :: u32
  ans_asq_hi :: u32
  ans_acq_lo :: u32
  ans_acq_hi :: u32
  ans_doorbell :: "u32 list"
  vendor_sparse :: "vf_ans_vendor_slot list"
  vendor_sparse_used :: nat
  is_apple_ans :: bool
  ans_pci :: "nat option"
  ans_mbox :: "nat option"
  ans_ascwrap :: "nat option"
  ans_autoboot :: "nat option"
  admin_id_armed :: bool
  admin_id_opcode :: u8
  admin_id_cns :: u8
  admin_id_buf :: "nat option"
  admin_id_len :: nat
  admin_id_cq_buf :: "nat option"
  admin_id_cq_len :: nat
  admin_asq_mem :: "nat option"
  admin_asq_len :: nat
  admin_acq_mem :: "nat option"
  admin_acq_len :: nat
  admin_id_prp1_mem :: "nat option"
  admin_id_prp1_len :: nat
  admin_id_prp2_mem :: "nat option"
  admin_id_prp2_len :: nat
  admin_cq_tail :: u16
  admin_cq_phase :: u8

record vf_ans_id_ctrl_meta =
  idc_cns :: u8
  idc_sqes :: u8
  idc_cqes :: u8
  idc_mdts :: u8
  idc_cntrltype :: u8
  idc_nn :: u32
  idc_ver :: u32

record vf_ans_id_ns_meta =
  idn_cns :: u8
  idn_nsid :: u32
  idn_nsze :: u64
  idn_ncap :: u64
  idn_nuse :: u64
  idn_nlbaf :: u8
  idn_flbas :: u8

record ans_store = boot_store +
  w_mem :: "nat \<Rightarrow> u8 list"

text \<open>\<open>memcpy(buf + off, bytes, length bytes)\<close> on the host buffer at address \<open>b\<close>.\<close>

definition mem_put :: "nat \<Rightarrow> nat \<Rightarrow> u8 list \<Rightarrow> ans_store \<Rightarrow> ans_store" where
  "mem_put b off bytes w = w\<lparr>w_mem := (w_mem w)(b := splice (w_mem w b) off bytes)\<rparr>"

section \<open>Registers and the sparse table\<close>

definition ans_bounds :: "nat \<Rightarrow> nat \<Rightarrow> bool" where
  "ans_bounds off width \<longleftrightarrow> width = 4 \<and> off mod 4 = 0 \<and> off < VF_ANS_VENDOR_SIZE"

definition ans_db_index :: "nat \<Rightarrow> nat option" where
  "ans_db_index off =
     (if off < VF_ANS_DB_BASE \<or> off \<ge> VF_ANS_DB_END \<or> off mod 4 \<noteq> 0 then None
      else Some ((off - VF_ANS_DB_BASE) div 4))"

definition ans_sparse_find :: "vf_ans_v1 \<Rightarrow> nat \<Rightarrow> nat option" where
  "ans_sparse_find a off = find (\<lambda>i. slot_off (vendor_sparse a ! i) = off) [0..<vendor_sparse_used a]"

definition ans_sparse_store :: "vf_ans_v1 \<Rightarrow> nat \<Rightarrow> u32 \<Rightarrow> rc \<times> vf_ans_v1" where
  "ans_sparse_store a off v =
     (case ans_sparse_find a off of
        Some i \<Rightarrow> (OK, a\<lparr>vendor_sparse := (vendor_sparse a)[i := (vendor_sparse a ! i)\<lparr>slot_val := v\<rparr>]\<rparr>)
      | None \<Rightarrow>
          if vendor_sparse_used a \<ge> VF_ANS_VENDOR_SPARSE_CAP then (ERR, a)
          else (OK, a\<lparr>vendor_sparse := (vendor_sparse a)[vendor_sparse_used a := \<lparr>slot_off = off, slot_val = v\<rparr>],
                      vendor_sparse_used := vendor_sparse_used a + 1\<rparr>))"

definition ans_sparse_load :: "vf_ans_v1 \<Rightarrow> nat \<Rightarrow> u32" where
  "ans_sparse_load a off =
     (case ans_sparse_find a off of Some i \<Rightarrow> slot_val (vendor_sparse a ! i) | None \<Rightarrow> 0)"

definition ans_store_le32 :: "u32 \<Rightarrow> u8 list" where "ans_store_le32 v = put_le32 v"
definition ans_store_le64 :: "u64 \<Rightarrow> u8 list" where "ans_store_le64 v = put_le64 v"
definition ans_load_le32 :: "u8 list \<Rightarrow> u32" where "ans_load_le32 p = get_le32 p"
definition ans_load_le64 :: "u8 list \<Rightarrow> u64" where "ans_load_le64 p = get_le64 p"

section \<open>Admin Identify\<close>

definition ans_clear_admin_identify :: "vf_ans_v1 \<Rightarrow> vf_ans_v1" where
  "ans_clear_admin_identify a = a\<lparr>admin_id_armed := False, admin_id_opcode := 0, admin_id_cns := 0,
     admin_id_buf := None, admin_id_len := 0, admin_id_cq_buf := None, admin_id_cq_len := 0\<rparr>"

definition ans_check_admin_acq_slot :: "vf_ans_v1 \<Rightarrow> bool" where
  "ans_check_admin_acq_slot a =
     (if admin_acq_mem a = None then True
      else if ans_acq_lo a OR ans_acq_hi a = 0 then False
      else
        let off = unat (admin_cq_tail a) * VF_ANS_CQE_SIZE in
        \<not> admin_acq_len a < off + VF_ANS_CQE_SIZE)"

definition ans_write_admin_acq_cqe :: "vf_ans_v1 \<Rightarrow> u8 list \<Rightarrow> ans_store \<Rightarrow> ans_store" where
  "ans_write_admin_acq_cqe a cqe w =
     (case admin_acq_mem a of None \<Rightarrow> w
      | Some m \<Rightarrow> mem_put m (unat (admin_cq_tail a) * VF_ANS_CQE_SIZE) cqe w)"

definition ans_irq_level :: "vf_ans_v1 \<Rightarrow> bool" where
  "ans_irq_level a \<longleftrightarrow> (ans_irq_status a AND NOT (ans_intm a)) AND VF_ANS_IRQ_ADMIN_CQ \<noteq> 0"

definition ans_sync_pci_irq :: "vf_ans_v1 \<Rightarrow> ans_store \<Rightarrow> ans_store" where
  "ans_sync_pci_irq a w =
     (case ans_pci a of None \<Rightarrow> w
      | Some q \<Rightarrow> w\<lparr>w_pci := (w_pci w)(q := snd (vf_ans_pci_set_irq (w_pci w q) (ans_irq_level a)))\<rparr>)"

text \<open>The 16 bytes of the completion entry.\<close>

definition ans_cqe :: "vf_ans_v1 \<Rightarrow> u8 list" where
  "ans_cqe a =
     (let sqhd = ucast (ans_doorbell a ! 0 AND VF_ANS_DB_VALUE_MASK) :: u16;
          dw2 = ucast sqhd :: u32;
          dw3 = push_bit VF_ANS_CQE_PHASE_SHIFT (ucast (admin_cq_phase a AND 1)) :: u32 in
      splice (splice (replicate VF_ANS_CQE_SIZE 0) VF_ANS_CQE_OFF_DW2 (ans_store_le32 dw2))
        VF_ANS_CQE_OFF_DW3 (ans_store_le32 dw3))"

definition ans_post_admin_identify_cqe ::
  "vf_ans_v1 \<Rightarrow> nat \<Rightarrow> ans_store \<Rightarrow> vf_ans_v1 \<times> ans_store" where
  "ans_post_admin_identify_cqe a cq_buf w =
     (let cqe = ans_cqe a;
          w1 = ans_write_admin_acq_cqe a cqe (mem_put cq_buf 0 cqe w);
          a1 = a\<lparr>admin_cq_phase := admin_cq_phase a XOR 1, admin_cq_tail := admin_cq_tail a + 1,
                 ans_irq_status := ans_irq_status a OR VF_ANS_IRQ_ADMIN_CQ\<rparr> in
      (a1, ans_sync_pci_irq a1 w1))"

definition ans_refresh_admin_cq_irq :: "vf_ans_v1 \<Rightarrow> ans_store \<Rightarrow> vf_ans_v1 \<times> ans_store" where
  "ans_refresh_admin_cq_irq a w =
     (let cqh = ucast (ans_doorbell a ! 1 AND VF_ANS_DB_VALUE_MASK) :: u16;
          a1 = (if admin_cq_tail a - cqh = 0
                then a\<lparr>ans_irq_status := ans_irq_status a AND NOT VF_ANS_IRQ_ADMIN_CQ\<rparr> else a) in
      (a1, ans_sync_pci_irq a1 w))"

text \<open>\<open>Some prp1\<close> to continue (0 when no submission queue page is bound), \<open>None\<close> to fail closed.\<close>

definition ans_fetch_admin_asq_identify ::
  "vf_ans_v1 \<Rightarrow> ans_store \<Rightarrow> u16 \<Rightarrow> u8 \<Rightarrow> u8 \<Rightarrow> u64 option" where
  "ans_fetch_admin_asq_identify a w old_sq_tail expect_opcode expect_cns =
     (case admin_asq_mem a of
        None \<Rightarrow> Some 0
      | Some m \<Rightarrow>
          if ans_asq_lo a OR ans_asq_hi a = 0 then None
          else
            let off = unat old_sq_tail * VF_ANS_SQE_SIZE in
            if admin_asq_len a < off + VF_ANS_SQE_SIZE then None
            else
              let sqe = take VF_ANS_SQE_SIZE (drop off (w_mem w m));
                  cdw0 = ans_load_le32 (drop VF_ANS_SQE_OFF_CDW0 sqe);
                  opcode = ucast (cdw0 AND 0xff) :: u8;
                  psdt = drop_bit VF_ANS_SQE_PSDT_SHIFT cdw0 AND VF_ANS_SQE_PSDT_MASK;
                  cns = sqe ! VF_ANS_SQE_OFF_CDW10;
                  nsid = ans_load_le32 (drop VF_ANS_SQE_OFF_NSID sqe);
                  prp1 = ans_load_le64 (drop VF_ANS_SQE_OFF_PRP1 sqe);
                  prp2 = ans_load_le64 (drop VF_ANS_SQE_OFF_PRP2 sqe) in
              if opcode \<noteq> expect_opcode \<or> cns \<noteq> expect_cns then None
              else if psdt \<noteq> 0 then None
              else if prp1 = 0 then None
              else if expect_cns = VF_ANS_ID_CNS_NS \<and> nsid \<noteq> VF_ANS_ID_NS_STUB_NSID then None
              else if admin_id_prp1_mem a \<noteq> None \<and>
                (admin_id_prp1_len a < VF_ANS_ID_CTRL_SIZE
                 \<or> (if prp1 AND VF_ANS_PRP_PAGE_MASK = 0 then prp2 \<noteq> 0
                    else admin_id_prp2_mem a = None \<or> admin_id_prp2_len a < VF_ANS_ID_CTRL_SIZE
                      \<or> prp2 = 0 \<or> prp2 AND VF_ANS_PRP_PAGE_MASK \<noteq> 0)) then None
              else Some prp1)"

definition ans_write_identify_prp :: "vf_ans_v1 \<Rightarrow> u8 list \<Rightarrow> u64 \<Rightarrow> ans_store \<Rightarrow> ans_store" where
  "ans_write_identify_prp a buf prp1 w =
     (case admin_id_prp1_mem a of
        None \<Rightarrow> w
      | Some m1 \<Rightarrow>
          if admin_id_prp1_len a < VF_ANS_ID_CTRL_SIZE then w
          else
            let prp_off = unat (prp1 AND VF_ANS_PRP_PAGE_MASK) in
            if prp_off = 0 then mem_put m1 0 (take VF_ANS_ID_CTRL_SIZE buf) w
            else
              (case admin_id_prp2_mem a of
                 None \<Rightarrow> w
               | Some m2 \<Rightarrow>
                   if admin_id_prp2_len a < VF_ANS_ID_CTRL_SIZE then w
                   else
                     let first = VF_ANS_PRP_PAGE_SIZE - prp_off in
                     if first \<ge> VF_ANS_ID_CTRL_SIZE then w
                     else mem_put m2 0 (take (VF_ANS_ID_CTRL_SIZE - first) (drop first buf))
                            (mem_put m1 prp_off (take first buf) w)))"

definition vf_ans_identify_sqes :: "vf_ans_v1 \<Rightarrow> u8" where
  "vf_ans_identify_sqes a = (if is_apple_ans a then VF_ANS_ID_SQES_APPLE else VF_ANS_ID_SQES_STD)"

definition vf_ans_identify_cqes :: "vf_ans_v1 \<Rightarrow> u8" where
  "vf_ans_identify_cqes a = VF_ANS_ID_CQES"

definition vf_ans_identify_cns_supported :: "u8 \<Rightarrow> rc" where
  "vf_ans_identify_cns_supported cns = (if cns = VF_ANS_ID_CNS_CTRL \<or> cns = VF_ANS_ID_CNS_NS then OK else ERR)"

definition vf_ans_identify_cns_ctrl :: "vf_ans_v1 \<Rightarrow> vf_ans_id_ctrl_meta" where
  "vf_ans_identify_cns_ctrl a =
     \<lparr>idc_cns = VF_ANS_ID_CNS_CTRL,
      idc_sqes = (if is_apple_ans a then VF_ANS_ID_SQES_APPLE else VF_ANS_ID_SQES_STD),
      idc_cqes = VF_ANS_ID_CQES,
      idc_mdts = (if is_apple_ans a then VF_ANS_ID_MDTS_APPLE else VF_ANS_ID_MDTS_STD),
      idc_cntrltype = VF_ANS_ID_CNTRLTYPE, idc_nn = VF_ANS_ID_NN, idc_ver = VF_ANS_ID_VER\<rparr>"

definition vf_ans_identify_cns_ns :: "vf_ans_v1 \<Rightarrow> vf_ans_id_ns_meta" where
  "vf_ans_identify_cns_ns a =
     \<lparr>idn_cns = VF_ANS_ID_CNS_NS, idn_nsid = VF_ANS_ID_NS_STUB_NSID, idn_nsze = 0, idn_ncap = 0,
      idn_nuse = 0, idn_nlbaf = 0, idn_flbas = 0\<rparr>"

text \<open>The five gates of both DMA functions, in their order. Asking a peer may correct its flags, so
  the store after the gates is part of the result.\<close>

definition ans_peer_gate :: "(ans_store \<Rightarrow> nat \<Rightarrow> bool \<times> ans_store) \<Rightarrow> nat option \<Rightarrow> ans_store \<Rightarrow> bool \<times> ans_store" where
  "ans_peer_gate ask peer w = (case peer of None \<Rightarrow> (True, w) | Some p \<Rightarrow> ask w p)"

definition ans_dma_gates :: "vf_ans_v1 \<Rightarrow> ans_store \<Rightarrow> bool \<times> ans_store" where
  "ans_dma_gates a w =
     (if ans_cc a AND VF_ANS_CC_EN = 0 \<or> ans_csts a AND VF_ANS_CSTS_RDY = 0 then (False, w)
      else if (case ans_pci a of None \<Rightarrow> False | Some q \<Rightarrow> \<not> vf_ans_pci_bus_master_enabled (w_pci w q)) then (False, w)
      else
        (case ans_peer_gate vf_ans_mbox_started (ans_mbox a) w of (ok1, w1) \<Rightarrow>
           if \<not> ok1 then (False, w1)
           else
             (case ans_peer_gate vf_ascwrap_ready (ans_ascwrap a) w1 of (ok2, w2) \<Rightarrow>
                if \<not> ok2 then (False, w2)
                else ans_peer_gate vf_ans_autoboot_armed (ans_autoboot a) w2)))"

definition ans_id_ctrl_data :: "vf_ans_v1 \<Rightarrow> u8 list" where
  "ans_id_ctrl_data a =
     (let meta = vf_ans_identify_cns_ctrl a;
          b0 = replicate VF_ANS_ID_CTRL_SIZE 0;
          b1 = splice b0 VF_ANS_ID_OFF_MDTS [idc_mdts meta];
          b2 = splice b1 VF_ANS_ID_OFF_VER (ans_store_le32 (idc_ver meta));
          b3 = splice b2 VF_ANS_ID_OFF_CNTRLTYPE [idc_cntrltype meta];
          b4 = splice b3 VF_ANS_ID_OFF_SQES [idc_sqes meta];
          b5 = splice b4 VF_ANS_ID_OFF_CQES [idc_cqes meta] in
      splice b5 VF_ANS_ID_OFF_NN (ans_store_le32 (idc_nn meta)))"

definition vf_ans_identify_cns_ctrl_dma ::
  "vf_ans_v1 \<Rightarrow> u8 \<Rightarrow> nat \<Rightarrow> nat \<Rightarrow> ans_store \<Rightarrow> rc \<times> ans_store" where
  "vf_ans_identify_cns_ctrl_dma a cns buf len w =
     (if len < VF_ANS_ID_CTRL_SIZE then (ERR, w)
      else if cns \<noteq> VF_ANS_ID_CNS_CTRL then (ERR, w)
      else (case ans_dma_gates a w of (ok, w1) \<Rightarrow>
              if \<not> ok then (ERR, w1) else (OK, mem_put buf 0 (ans_id_ctrl_data a) w1)))"

definition ans_id_ns_data :: "vf_ans_v1 \<Rightarrow> u8 list" where
  "ans_id_ns_data a =
     (let meta = vf_ans_identify_cns_ns a;
          b0 = replicate VF_ANS_ID_NS_SIZE 0;
          b1 = splice b0 VF_ANS_ID_NS_OFF_NSZE (ans_store_le64 (idn_nsze meta));
          b2 = splice b1 VF_ANS_ID_NS_OFF_NCAP (ans_store_le64 (idn_ncap meta));
          b3 = splice b2 VF_ANS_ID_NS_OFF_NUSE (ans_store_le64 (idn_nuse meta));
          b4 = splice b3 VF_ANS_ID_NS_OFF_NLBAF [idn_nlbaf meta] in
      splice b4 VF_ANS_ID_NS_OFF_FLBAS [idn_flbas meta])"

definition vf_ans_identify_cns_ns_dma ::
  "vf_ans_v1 \<Rightarrow> u8 \<Rightarrow> nat \<Rightarrow> nat \<Rightarrow> ans_store \<Rightarrow> rc \<times> ans_store" where
  "vf_ans_identify_cns_ns_dma a cns buf len w =
     (if len < VF_ANS_ID_NS_SIZE then (ERR, w)
      else if cns \<noteq> VF_ANS_ID_CNS_NS then (ERR, w)
      else (case ans_dma_gates a w of (ok, w1) \<Rightarrow>
              if \<not> ok then (ERR, w1) else (OK, mem_put buf 0 (ans_id_ns_data a) w1)))"

definition ans_try_admin_identify_on_doorbell ::
  "vf_ans_v1 \<Rightarrow> u16 \<Rightarrow> ans_store \<Rightarrow> vf_ans_v1 \<times> ans_store" where
  "ans_try_admin_identify_on_doorbell a old_sq_tail w =
     (if \<not> admin_id_armed a then (a, w)
      else
        let buf = admin_id_buf a; len = admin_id_len a; cq_buf = admin_id_cq_buf a; cq_len = admin_id_cq_len a;
            cns = admin_id_cns a; opcode = admin_id_opcode a; a1 = ans_clear_admin_identify a in
        if opcode \<noteq> VF_ANS_OPC_IDENTIFY then (a1, w)
        else if cns \<noteq> VF_ANS_ID_CNS_CTRL \<and> cns \<noteq> VF_ANS_ID_CNS_NS then (a1, w)
        else
          (case (buf, cq_buf) of
             (Some b, Some c) \<Rightarrow>
               if cq_len < VF_ANS_CQE_SIZE then (a1, w)
               else
                 (case ans_fetch_admin_asq_identify a1 w old_sq_tail opcode cns of
                    None \<Rightarrow> (a1, w)
                  | Some prp1 \<Rightarrow>
                      if \<not> ans_check_admin_acq_slot a1 then (a1, w)
                      else
                        (case (if cns = VF_ANS_ID_CNS_CTRL then vf_ans_identify_cns_ctrl_dma a1 cns b len w
                               else vf_ans_identify_cns_ns_dma a1 cns b len w) of
                           (ERR, w1) \<Rightarrow> (a1, w1)
                         | (OK, w1) \<Rightarrow>
                             ans_post_admin_identify_cqe a1 c (ans_write_identify_prp a1 (w_mem w1 b) prp1 w1)))
           | _ \<Rightarrow> (a1, w)))"

section \<open>Control operations\<close>

definition ans_apply_cc_enable :: "vf_ans_v1 \<Rightarrow> u32 \<Rightarrow> ans_store \<Rightarrow> vf_ans_v1 \<times> ans_store" where
  "ans_apply_cc_enable a cc w =
     (let a0 = a\<lparr>ans_cc := cc\<rparr>;
          a1 = (if cc AND VF_ANS_CC_EN \<noteq> 0 then a0\<lparr>ans_csts := ans_csts a0 OR VF_ANS_CSTS_RDY\<rparr>
                else ans_clear_admin_identify
                  (a0\<lparr>ans_csts := ans_csts a0 AND NOT VF_ANS_CSTS_RDY, ans_doorbell := replicate VF_ANS_DB_COUNT 0,
                      ans_intm := 0, ans_irq_status := 0, admin_cq_tail := 0, admin_cq_phase := 1\<rparr>)) in
      (a1, ans_sync_pci_irq a1 w))"

definition vf_ans_init :: "vf_ans_v1 \<Rightarrow> rc \<times> vf_ans_v1" where
  "vf_ans_init a = (OK, ans_clear_admin_identify
     (a\<lparr>ans_modesel := 0, ans_linear_sq := 0, ans_base_cmd_id := VF_ANS_BASE_CMD_ID_VAL, ans_cc := 0,
        ans_csts := 0, ans_intm := 0, ans_irq_status := 0, ans_aqa := 0, ans_asq_lo := 0, ans_asq_hi := 0,
        ans_acq_lo := 0, ans_acq_hi := 0, ans_doorbell := replicate VF_ANS_DB_COUNT 0,
        vendor_sparse := replicate VF_ANS_VENDOR_SPARSE_CAP \<lparr>slot_off = 0, slot_val = 0\<rparr>,
        vendor_sparse_used := 0, is_apple_ans := True, ans_pci := None, ans_mbox := None, ans_ascwrap := None,
        ans_autoboot := None, admin_cq_tail := 0, admin_cq_phase := 1, admin_asq_mem := None,
        admin_asq_len := 0, admin_acq_mem := None, admin_acq_len := 0, admin_id_prp1_mem := None,
        admin_id_prp1_len := 0, admin_id_prp2_mem := None, admin_id_prp2_len := 0\<rparr>))"

definition vf_ans_bind_pci :: "vf_ans_v1 \<Rightarrow> nat option \<Rightarrow> ans_store \<Rightarrow> vf_ans_v1 \<times> ans_store" where
  "vf_ans_bind_pci a pci w =
     (let w1 = (case ans_pci a of
                  None \<Rightarrow> w
                | Some q \<Rightarrow> if pci \<noteq> Some q
                    then w\<lparr>w_pci := (w_pci w)(q := snd (vf_ans_pci_set_irq (w_pci w q) False))\<rparr> else w);
          a1 = a\<lparr>ans_pci := pci\<rparr> in
      (a1, if pci \<noteq> None then ans_sync_pci_irq a1 w1 else w1))"

definition vf_ans_bind_mbox :: "vf_ans_v1 \<Rightarrow> nat option \<Rightarrow> vf_ans_v1" where
  "vf_ans_bind_mbox a p = a\<lparr>ans_mbox := p\<rparr>"
definition vf_ans_bind_ascwrap :: "vf_ans_v1 \<Rightarrow> nat option \<Rightarrow> vf_ans_v1" where
  "vf_ans_bind_ascwrap a p = a\<lparr>ans_ascwrap := p\<rparr>"
definition vf_ans_bind_autoboot :: "vf_ans_v1 \<Rightarrow> nat option \<Rightarrow> vf_ans_v1" where
  "vf_ans_bind_autoboot a p = a\<lparr>ans_autoboot := p\<rparr>"
definition vf_ans_set_is_apple_ans :: "vf_ans_v1 \<Rightarrow> bool \<Rightarrow> vf_ans_v1" where
  "vf_ans_set_is_apple_ans a b = a\<lparr>is_apple_ans := b\<rparr>"
definition vf_ans_get_is_apple_ans :: "vf_ans_v1 \<Rightarrow> bool" where
  "vf_ans_get_is_apple_ans a = is_apple_ans a"

definition vf_ans_arm_admin_identify ::
  "vf_ans_v1 \<Rightarrow> u8 \<Rightarrow> u8 \<Rightarrow> nat option \<Rightarrow> nat \<Rightarrow> nat option \<Rightarrow> nat \<Rightarrow> rc \<times> vf_ans_v1" where
  "vf_ans_arm_admin_identify a opcode cns buf len cq_buf cq_len =
     (if buf = None \<or> len < VF_ANS_ID_CTRL_SIZE then (ERR, a)
      else if cq_buf = None \<or> cq_len < VF_ANS_CQE_SIZE then (ERR, a)
      else if opcode \<noteq> VF_ANS_OPC_IDENTIFY then (ERR, a)
      else if cns \<noteq> VF_ANS_ID_CNS_CTRL \<and> cns \<noteq> VF_ANS_ID_CNS_NS then (ERR, a)
      else (OK, a\<lparr>admin_id_opcode := opcode, admin_id_cns := cns, admin_id_buf := buf, admin_id_len := len,
                  admin_id_cq_buf := cq_buf, admin_id_cq_len := cq_len, admin_id_armed := True\<rparr>))"

definition vf_ans_admin_identify_armed :: "vf_ans_v1 \<Rightarrow> bool" where
  "vf_ans_admin_identify_armed a = admin_id_armed a"
definition vf_ans_disarm_admin_identify :: "vf_ans_v1 \<Rightarrow> vf_ans_v1" where
  "vf_ans_disarm_admin_identify a = ans_clear_admin_identify a"

definition vf_ans_bind_admin_asq :: "vf_ans_v1 \<Rightarrow> nat option \<Rightarrow> nat \<Rightarrow> rc \<times> vf_ans_v1" where
  "vf_ans_bind_admin_asq a mem len =
     (if mem = None then (OK, a\<lparr>admin_asq_mem := None, admin_asq_len := 0\<rparr>)
      else if len < VF_ANS_SQE_SIZE then (ERR, a)
      else (OK, a\<lparr>admin_asq_mem := mem, admin_asq_len := len\<rparr>))"
definition vf_ans_admin_asq_bound :: "vf_ans_v1 \<Rightarrow> bool" where
  "vf_ans_admin_asq_bound a \<longleftrightarrow> admin_asq_mem a \<noteq> None"

definition vf_ans_bind_admin_acq :: "vf_ans_v1 \<Rightarrow> nat option \<Rightarrow> nat \<Rightarrow> rc \<times> vf_ans_v1" where
  "vf_ans_bind_admin_acq a mem len =
     (if mem = None then (OK, a\<lparr>admin_acq_mem := None, admin_acq_len := 0\<rparr>)
      else if len < VF_ANS_CQE_SIZE then (ERR, a)
      else (OK, a\<lparr>admin_acq_mem := mem, admin_acq_len := len\<rparr>))"
definition vf_ans_admin_acq_bound :: "vf_ans_v1 \<Rightarrow> bool" where
  "vf_ans_admin_acq_bound a \<longleftrightarrow> admin_acq_mem a \<noteq> None"

definition vf_ans_bind_identify_prp1 :: "vf_ans_v1 \<Rightarrow> nat option \<Rightarrow> nat \<Rightarrow> rc \<times> vf_ans_v1" where
  "vf_ans_bind_identify_prp1 a mem len =
     (if mem = None then (OK, a\<lparr>admin_id_prp1_mem := None, admin_id_prp1_len := 0\<rparr>)
      else if len < VF_ANS_ID_CTRL_SIZE then (ERR, a)
      else (OK, a\<lparr>admin_id_prp1_mem := mem, admin_id_prp1_len := len\<rparr>))"
definition vf_ans_identify_prp1_bound :: "vf_ans_v1 \<Rightarrow> bool" where
  "vf_ans_identify_prp1_bound a \<longleftrightarrow> admin_id_prp1_mem a \<noteq> None"

definition vf_ans_bind_identify_prp2 :: "vf_ans_v1 \<Rightarrow> nat option \<Rightarrow> nat \<Rightarrow> rc \<times> vf_ans_v1" where
  "vf_ans_bind_identify_prp2 a mem len =
     (if mem = None then (OK, a\<lparr>admin_id_prp2_mem := None, admin_id_prp2_len := 0\<rparr>)
      else if len < VF_ANS_ID_CTRL_SIZE then (ERR, a)
      else (OK, a\<lparr>admin_id_prp2_mem := mem, admin_id_prp2_len := len\<rparr>))"
definition vf_ans_identify_prp2_bound :: "vf_ans_v1 \<Rightarrow> bool" where
  "vf_ans_identify_prp2_bound a \<longleftrightarrow> admin_id_prp2_mem a \<noteq> None"

definition vf_ans_admin_cq_tail :: "vf_ans_v1 \<Rightarrow> nat" where
  "vf_ans_admin_cq_tail a = unat (admin_cq_tail a)"

definition vf_ans_admin_cq_pending :: "vf_ans_v1 \<Rightarrow> nat" where
  "vf_ans_admin_cq_pending a = unat (admin_cq_tail a - ucast (ans_doorbell a ! 1 AND VF_ANS_DB_VALUE_MASK))"

definition vf_ans_irq_check :: "vf_ans_v1 \<Rightarrow> bool" where
  "vf_ans_irq_check a = ans_irq_level a"

definition vf_ans_read :: "vf_ans_v1 \<Rightarrow> nat \<Rightarrow> nat \<Rightarrow> u32 option" where
  "vf_ans_read a off width =
     (if \<not> ans_bounds off width then None
      else case ans_db_index off of
        Some i \<Rightarrow> Some (ans_doorbell a ! i)
      | None \<Rightarrow>
          if off = VF_ANS_REG_CAP_LO then Some VF_ANS_CAP_LO_VAL
          else if off = VF_ANS_REG_CAP_HI then Some VF_ANS_CAP_HI_VAL
          else if off = VF_ANS_REG_VS then Some VF_ANS_VS_VAL
          else if off = VF_ANS_REG_INTMS \<or> off = VF_ANS_REG_INTMC then Some (ans_intm a)
          else if off = VF_ANS_REG_CC then Some (ans_cc a)
          else if off = VF_ANS_REG_CSTS then Some (ans_csts a)
          else if off = VF_ANS_REG_AQA then Some (ans_aqa a)
          else if off = VF_ANS_REG_ASQ_LO then Some (ans_asq_lo a)
          else if off = VF_ANS_REG_ASQ_HI then Some (ans_asq_hi a)
          else if off = VF_ANS_REG_ACQ_LO then Some (ans_acq_lo a)
          else if off = VF_ANS_REG_ACQ_HI then Some (ans_acq_hi a)
          else if off = VF_ANS_REG_MAX_PEND then Some VF_ANS_MAX_PEND_VAL
          else if off = VF_ANS_REG_BOOT_STATUS then Some VF_ANS_BOOT_STATUS_OK
          else if off = VF_ANS_REG_MODESEL then Some (ans_modesel a)
          else if off = VF_ANS_REG_BASE_CMD_ID then Some VF_ANS_BASE_CMD_ID_VAL
          else if off = VF_ANS_REG_LINEAR_SQ then Some (ans_linear_sq a)
          else if off \<ge> VF_ANS_NVME_ALIAS_SIZE then Some (ans_sparse_load a off)
          else Some 0)"

definition vf_ans_write_doorbell :: "vf_ans_v1 \<Rightarrow> nat \<Rightarrow> u32 \<Rightarrow> ans_store \<Rightarrow> vf_ans_v1 \<times> ans_store" where
  "vf_ans_write_doorbell a i v w =
     (let newv = v AND VF_ANS_DB_VALUE_MASK; oldv = ans_doorbell a ! i;
          a1 = a\<lparr>ans_doorbell := (ans_doorbell a)[i := newv]\<rparr> in
      if i = 0 \<and> newv \<noteq> oldv \<and> admin_id_armed a1
      then ans_try_admin_identify_on_doorbell a1 (ucast (oldv AND VF_ANS_DB_VALUE_MASK)) w
      else if i = 1 then ans_refresh_admin_cq_irq a1 w
      else (a1, w))"

definition vf_ans_write :: "vf_ans_v1 \<Rightarrow> nat \<Rightarrow> nat \<Rightarrow> u32 \<Rightarrow> ans_store \<Rightarrow> rc \<times> vf_ans_v1 \<times> ans_store" where
  "vf_ans_write a off width v w =
     (if \<not> ans_bounds off width then (ERR, a, w)
      else case ans_db_index off of
        Some i \<Rightarrow> (OK, vf_ans_write_doorbell a i v w)
      | None \<Rightarrow>
          if off = VF_ANS_REG_INTMS then
            (let a1 = a\<lparr>ans_intm := ans_intm a OR v\<rparr> in (OK, a1, ans_sync_pci_irq a1 w))
          else if off = VF_ANS_REG_INTMC then
            (let a1 = a\<lparr>ans_intm := ans_intm a AND NOT v\<rparr> in (OK, a1, ans_sync_pci_irq a1 w))
          else if off = VF_ANS_REG_CC then (OK, ans_apply_cc_enable a v w)
          else if off = VF_ANS_REG_CSTS then (OK, a, w)
          else if off = VF_ANS_REG_AQA then (OK, a\<lparr>ans_aqa := v\<rparr>, w)
          else if off = VF_ANS_REG_ASQ_LO then (OK, a\<lparr>ans_asq_lo := v\<rparr>, w)
          else if off = VF_ANS_REG_ASQ_HI then (OK, a\<lparr>ans_asq_hi := v\<rparr>, w)
          else if off = VF_ANS_REG_ACQ_LO then (OK, a\<lparr>ans_acq_lo := v\<rparr>, w)
          else if off = VF_ANS_REG_ACQ_HI then (OK, a\<lparr>ans_acq_hi := v\<rparr>, w)
          else if off = VF_ANS_REG_MODESEL then (OK, a\<lparr>ans_modesel := v\<rparr>, w)
          else if off = VF_ANS_REG_BASE_CMD_ID then (OK, a\<lparr>ans_base_cmd_id := v\<rparr>, w)
          else if off = VF_ANS_REG_LINEAR_SQ then (OK, a\<lparr>ans_linear_sq := v\<rparr>, w)
          else if off = VF_ANS_REG_CAP_LO \<or> off = VF_ANS_REG_CAP_HI \<or> off = VF_ANS_REG_VS then (OK, a, w)
          else if off = VF_ANS_REG_MAX_PEND \<or> off = VF_ANS_REG_BOOT_STATUS \<or> off \<ge> VF_ANS_NVME_ALIAS_SIZE then
            (case ans_sparse_store a off v of (c, a1) \<Rightarrow> (c, a1, w))
          else (OK, a, w))"

section \<open>The sparse table is a bounded finite map\<close>

definition ans_sparse_inv :: "vf_ans_v1 \<Rightarrow> bool" where
  "ans_sparse_inv a \<longleftrightarrow> length (vendor_sparse a) = VF_ANS_VENDOR_SPARSE_CAP
     \<and> vendor_sparse_used a \<le> VF_ANS_VENDOR_SPARSE_CAP
     \<and> distinct (map slot_off (take (vendor_sparse_used a) (vendor_sparse a)))"

definition ans_sparse_map :: "vf_ans_v1 \<Rightarrow> nat \<Rightarrow> u32 option" where
  "ans_sparse_map a off = map_option (\<lambda>i. slot_val (vendor_sparse a ! i)) (ans_sparse_find a off)"

lemma sparse_find_None:
  "ans_sparse_find a off = None \<longleftrightarrow> (\<forall>i < vendor_sparse_used a. slot_off (vendor_sparse a ! i) \<noteq> off)"
  unfolding ans_sparse_find_def by (rule find_upt_None)

lemma sparse_find_Some:
  "ans_sparse_find a off = Some i \<Longrightarrow> i < vendor_sparse_used a \<and> slot_off (vendor_sparse a ! i) = off"
  unfolding ans_sparse_find_def by (simp only: find_upt_Some)

lemma sparse_distinct:
  assumes "ans_sparse_inv a" "i < vendor_sparse_used a" "j < vendor_sparse_used a"
    "slot_off (vendor_sparse a ! i) = slot_off (vendor_sparse a ! j)"
  shows "i = j"
  using nth_eq_iff_index_eq [of "map slot_off (take (vendor_sparse_used a) (vendor_sparse a))" i j] assms
  by (simp add: ans_sparse_inv_def)

lemma sparse_find_eq:
  assumes "ans_sparse_inv a" "i < vendor_sparse_used a" "slot_off (vendor_sparse a ! i) = off"
  shows "ans_sparse_find a off = Some i"
proof (cases "ans_sparse_find a off")
  case None
  with assms(2,3) show ?thesis by (auto simp: sparse_find_None)
next
  case (Some j)
  with sparse_find_Some [OF Some] sparse_distinct [OF assms(1), of i j] assms(2,3) show ?thesis by simp
qed

text \<open>Updating the value in place changes one binding of the map.\<close>

lemma sparse_overwrite:
  fixes v :: u32
  assumes "ans_sparse_inv a" "ans_sparse_find a off = Some i"
  defines "b \<equiv> a\<lparr>vendor_sparse := (vendor_sparse a)[i := (vendor_sparse a ! i)\<lparr>slot_val := v\<rparr>]\<rparr>"
  shows "ans_sparse_inv b" "ans_sparse_map b = (ans_sparse_map a)(off \<mapsto> v)"
proof -
  have i: "i < vendor_sparse_used a" "slot_off (vendor_sparse a ! i) = off" "i < length (vendor_sparse a)"
    using sparse_find_Some [OF assms(2)] assms(1) by (auto simp: ans_sparse_inv_def)
  have offs: "slot_off (vendor_sparse b ! j) = slot_off (vendor_sparse a ! j)" for j
    using i(3) by (simp add: b_def nth_list_update)
  have "map slot_off (take (vendor_sparse_used b) (vendor_sparse b)) = map slot_off (take (vendor_sparse_used a) (vendor_sparse a))"
    using offs by (auto intro!: nth_equalityI simp: b_def)
  then show "ans_sparse_inv b" using assms(1) by (simp add: ans_sparse_inv_def b_def)
  have "ans_sparse_find b = ans_sparse_find a"
    unfolding ans_sparse_find_def offs by (simp add: b_def)
  moreover have "ans_sparse_find a k = Some j \<Longrightarrow> k \<noteq> off \<Longrightarrow> vendor_sparse b ! j = vendor_sparse a ! j" for j k
    using sparse_find_Some [of a k j] i by (cases "j = i") (auto simp: b_def)
  moreover have "slot_val (vendor_sparse b ! i) = v" using i(3) by (simp add: b_def)
  ultimately show "ans_sparse_map b = (ans_sparse_map a)(off \<mapsto> v)"
    using assms(2) by (intro ext, case_tac "ans_sparse_find a x") (auto simp: ans_sparse_map_def)
qed

lemma sparse_append:
  fixes v :: u32
  assumes "ans_sparse_inv a" "ans_sparse_find a off = None" "vendor_sparse_used a < 48"
  defines "b \<equiv> a\<lparr>vendor_sparse := (vendor_sparse a)[vendor_sparse_used a := \<lparr>slot_off = off, slot_val = v\<rparr>],
     vendor_sparse_used := vendor_sparse_used a + 1\<rparr>"
  shows "ans_sparse_inv b" "ans_sparse_map b = (ans_sparse_map a)(off \<mapsto> v)"
proof -
  have n: "vendor_sparse_used a < length (vendor_sparse a)" using assms(1,3) by (simp add: ans_sparse_inv_def)
  have old: "i < vendor_sparse_used a \<Longrightarrow> vendor_sparse b ! i = vendor_sparse a ! i" for i
    by (simp add: b_def)
  have new: "vendor_sparse b ! vendor_sparse_used a = \<lparr>slot_off = off, slot_val = v\<rparr>"
    using n by (simp add: b_def)
  have "off \<notin> slot_off ` set (take (vendor_sparse_used a) (vendor_sparse a))"
  proof
    assume "off \<in> slot_off ` set (take (vendor_sparse_used a) (vendor_sparse a))"
    then obtain i where "i < vendor_sparse_used a" "slot_off (vendor_sparse a ! i) = off"
      by (auto simp: in_set_conv_nth)
    then show False using assms(2) by (simp add: sparse_find_None)
  qed
  then show inv: "ans_sparse_inv b"
    using assms(1,3) n by (simp add: ans_sparse_inv_def b_def take_Suc_conv_app_nth)
  show "ans_sparse_map b = (ans_sparse_map a)(off \<mapsto> v)"
  proof
    fix k
    show "ans_sparse_map b k = ((ans_sparse_map a)(off \<mapsto> v)) k"
    proof (cases "k = off")
      case True
      with sparse_find_eq [OF inv, of "vendor_sparse_used a" off] new show ?thesis
        by (simp add: ans_sparse_map_def b_def)
    next
      case False
      show ?thesis
      proof (cases "ans_sparse_find a k")
        case None
        then have "ans_sparse_find b k = None"
          using False old new by (auto simp: sparse_find_None b_def less_Suc_eq)
        with None False show ?thesis by (simp add: ans_sparse_map_def)
      next
        case (Some i)
        then have "ans_sparse_find b k = Some i"
          using sparse_find_Some [OF Some] old by (intro sparse_find_eq [OF inv]) (auto simp: b_def)
        with Some False old sparse_find_Some [OF Some] show ?thesis by (simp add: ans_sparse_map_def)
      qed
    qed
  qed
qed

lemma sparse_map_dom:
  assumes "ans_sparse_inv a"
  shows "finite (dom (ans_sparse_map a))" "card (dom (ans_sparse_map a)) = vendor_sparse_used a"
proof -
  let ?S = "set (map slot_off (take (vendor_sparse_used a) (vendor_sparse a)))"
  have "dom (ans_sparse_map a) = ?S"
  proof (rule set_eqI)
    fix k
    have "k \<in> dom (ans_sparse_map a) \<longleftrightarrow> (\<exists>i < vendor_sparse_used a. slot_off (vendor_sparse a ! i) = k)"
      using sparse_find_None [of a k] by (auto simp: ans_sparse_map_def dom_def)
    also have "\<dots> \<longleftrightarrow> k \<in> ?S"
      using assms by (fastforce simp: ans_sparse_inv_def in_set_conv_nth)
    finally show "k \<in> dom (ans_sparse_map a) \<longleftrightarrow> k \<in> ?S" .
  qed
  moreover have "card ?S = vendor_sparse_used a"
    using assms distinct_card [of "map slot_off (take (vendor_sparse_used a) (vendor_sparse a))"]
    by (simp add: ans_sparse_inv_def)
  ultimately show "finite (dom (ans_sparse_map a))" "card (dom (ans_sparse_map a)) = vendor_sparse_used a"
    by simp_all
qed

lemma ans_sparse_store_refines:
  assumes "ans_sparse_inv a"
  shows "ans_sparse_store a off v =
      (if ans_sparse_map a off = None \<and> card (dom (ans_sparse_map a)) = 48 then (ERR, a)
       else (OK, snd (ans_sparse_store a off v)))"
    and "ans_sparse_map a off \<noteq> None \<or> card (dom (ans_sparse_map a)) < 48 \<Longrightarrow>
      ans_sparse_inv (snd (ans_sparse_store a off v))
      \<and> ans_sparse_map (snd (ans_sparse_store a off v)) = (ans_sparse_map a)(off \<mapsto> v)"
proof -
  have used: "vendor_sparse_used a \<le> 48" using assms by (simp add: ans_sparse_inv_def)
  show "ans_sparse_store a off v =
      (if ans_sparse_map a off = None \<and> card (dom (ans_sparse_map a)) = 48 then (ERR, a)
       else (OK, snd (ans_sparse_store a off v)))"
    using used by (auto simp: ans_sparse_store_def sparse_map_dom [OF assms] ans_sparse_map_def split: option.split)
  assume "ans_sparse_map a off \<noteq> None \<or> card (dom (ans_sparse_map a)) < 48"
  then show "ans_sparse_inv (snd (ans_sparse_store a off v))
      \<and> ans_sparse_map (snd (ans_sparse_store a off v)) = (ans_sparse_map a)(off \<mapsto> v)"
    using sparse_overwrite [OF assms] sparse_append [OF assms]
    by (auto simp: ans_sparse_store_def sparse_map_dom [OF assms] ans_sparse_map_def split: option.split)
qed

section \<open>The DMA gates\<close>

text \<open>What the gates demand: the controller enabled, and every bound peer honest.\<close>

definition ans_peer :: "(nat \<Rightarrow> bool) \<Rightarrow> nat option \<Rightarrow> bool" where
  "ans_peer claim p \<longleftrightarrow> (case p of None \<Rightarrow> True | Some q \<Rightarrow> claim q)"

definition ans_dma_allowed :: "vf_ans_v1 \<Rightarrow> ans_store \<Rightarrow> bool" where
  "ans_dma_allowed a w \<longleftrightarrow> bit (ans_cc a) 0 \<and> bit (ans_csts a) 0
     \<and> ans_peer (\<lambda>q. bit (pci_command (w_pci w q)) 2) (ans_pci a)
     \<and> ans_peer (mbox_honest w) (ans_mbox a) \<and> ans_peer (asc_honest w) (ans_ascwrap a)
     \<and> ans_peer (boot_honest w) (ans_autoboot a)"

lemma chain_claims_started: "chain_claims (ans_mbox_reconcile_started w p) = chain_claims w"
  by (simp add: chain_claims_def fun_eq_iff reconcile_started_frame asc_honest_def boot_honest_def split: option.split)

lemma reconcile_mem:
  "w_mem (ans_mbox_reconcile_started w p) = w_mem w" "w_mem (ascwrap_reconcile_ready w p) = w_mem w"
  "w_mem (ans_autoboot_reconcile_armed w p) = w_mem w"
  "w_pci (ans_mbox_reconcile_started w p) = w_pci w" "w_pci (ascwrap_reconcile_ready w p) = w_pci w"
  "w_pci (ans_autoboot_reconcile_armed w p) = w_pci w"
  by (simp_all add: reconcile_armed_eq reconcile_ready_eq reconcile_started_eq mbox_put_def asc_put_def boot_put_def
      split: option.split)

lemma peer_gate_started:
  "ans_peer_gate vf_ans_mbox_started p w = (ans_peer (mbox_honest w) p,
     case p of None \<Rightarrow> w | Some q \<Rightarrow> ans_mbox_reconcile_started w q)"
  by (auto simp: ans_peer_gate_def ans_peer_def mbox_started_iff mbox_started_store prod_eq_iff split: option.split)

lemma peer_gate_ready:
  "ans_peer_gate vf_ascwrap_ready p w = (ans_peer (asc_honest w) p,
     case p of None \<Rightarrow> w | Some q \<Rightarrow> ascwrap_reconcile_ready w q)"
  by (auto simp: ans_peer_gate_def ans_peer_def ascwrap_ready_iff ascwrap_ready_store prod_eq_iff
      split: option.split)

lemma peer_gate_armed:
  "ans_peer_gate vf_ans_autoboot_armed p w = (ans_peer (boot_honest w) p,
     case p of None \<Rightarrow> w | Some q \<Rightarrow> ans_autoboot_reconcile_armed w q)"
  by (auto simp: ans_peer_gate_def ans_peer_def autoboot_armed_iff autoboot_armed_store prod_eq_iff
      split: option.split)

text \<open>The gates decide exactly that, and change neither buffers, PCI functions nor claims.\<close>

lemma ans_dma_gates_spec:
  "fst (ans_dma_gates a w) = ans_dma_allowed a w"
  "w_mem (snd (ans_dma_gates a w)) = w_mem w" "w_pci (snd (ans_dma_gates a w)) = w_pci w"
proof -
  define w1 where "w1 = (case ans_mbox a of None \<Rightarrow> w | Some q \<Rightarrow> ans_mbox_reconcile_started w q)"
  define w2 where "w2 = (case ans_ascwrap a of None \<Rightarrow> w1 | Some q \<Rightarrow> ascwrap_reconcile_ready w1 q)"
  define w3 where "w3 = (case ans_autoboot a of None \<Rightarrow> w2 | Some q \<Rightarrow> ans_autoboot_reconcile_armed w2 q)"
  have m: "w_mem w1 = w_mem w" "w_mem w2 = w_mem w" "w_mem w3 = w_mem w"
    "w_pci w1 = w_pci w" "w_pci w2 = w_pci w" "w_pci w3 = w_pci w"
    by (simp_all add: w1_def w2_def w3_def reconcile_mem split: option.split)
  have "chain_claims w1 = chain_claims w" by (simp add: w1_def chain_claims_started split: option.split)
  moreover have "chain_claims w2 = chain_claims w1" by (simp add: w2_def chain_claims_ready split: option.split)
  ultimately have c: "asc_honest w1 = asc_honest w" "boot_honest w2 = boot_honest w"
    by (simp_all add: chain_claims_def)
  have en: "ans_cc a AND 1 = 0 \<longleftrightarrow> \<not> bit (ans_cc a) 0" "ans_csts a AND 1 = 0 \<longleftrightarrow> \<not> bit (ans_csts a) 0"
    by (simp_all add: and_flag_eq_0 [of _ 0])
  have pci: "(case ans_pci a of None \<Rightarrow> False | Some q \<Rightarrow> \<not> vf_ans_pci_bus_master_enabled (w_pci w q)) =
      (\<not> ans_peer (\<lambda>q. bit (pci_command (w_pci w q)) 2) (ans_pci a))"
    by (simp add: ans_peer_def bus_master_bit split: option.split)
  have "ans_dma_gates a w =
     (if \<not> bit (ans_cc a) 0 \<or> \<not> bit (ans_csts a) 0 then (False, w)
      else if \<not> ans_peer (\<lambda>q. bit (pci_command (w_pci w q)) 2) (ans_pci a) then (False, w)
      else if \<not> ans_peer (mbox_honest w) (ans_mbox a) then (False, w1)
      else if \<not> ans_peer (asc_honest w) (ans_ascwrap a) then (False, w2)
      else (ans_peer (boot_honest w) (ans_autoboot a), w3))"
    unfolding ans_dma_gates_def pci peer_gate_started w1_def [symmetric] prod.case peer_gate_ready
      w2_def [symmetric] peer_gate_armed w3_def [symmetric] c
    by (simp add: en)
  then show "fst (ans_dma_gates a w) = ans_dma_allowed a w"
    "w_mem (snd (ans_dma_gates a w)) = w_mem w" "w_pci (snd (ans_dma_gates a w)) = w_pci w"
    by (auto simp: ans_dma_allowed_def m)
qed

section \<open>The interrupt mirror\<close>

definition ans_mirror :: "vf_ans_v1 \<Rightarrow> ans_store \<Rightarrow> bool" where
  "ans_mirror a w \<longleftrightarrow> (\<forall>q. ans_pci a = Some q \<longrightarrow> vf_ans_pci_delivery_pending (w_pci w q) = vf_ans_irq_check a)"

lemma ans_mirror_sync [simp]: "ans_mirror a (ans_sync_pci_irq a w)"
  by (simp add: ans_mirror_def ans_sync_pci_irq_def vf_ans_pci_delivery_pending_def vf_ans_irq_check_def
      pci_set_irq_ok split: option.split)

lemma ans_mirror_cong:
  "ans_mirror a w \<Longrightarrow> ans_pci b = ans_pci a \<Longrightarrow> ans_irq_status b = ans_irq_status a \<Longrightarrow> ans_intm b = ans_intm a \<Longrightarrow>
   w_pci w' = w_pci w \<Longrightarrow> ans_mirror b w'"
  by (simp add: ans_mirror_def vf_ans_irq_check_def ans_irq_level_def)

lemma mem_put_frame [simp]: "w_pci (mem_put b off bs w) = w_pci w"
  by (simp add: mem_put_def)

lemma identify_prp_frame [simp]: "w_pci (ans_write_identify_prp a buf prp1 w) = w_pci w"
  by (simp add: ans_write_identify_prp_def Let_def split: option.split)

lemma clear_identify_frame [simp]:
  "ans_pci (ans_clear_admin_identify a) = ans_pci a" "ans_irq_status (ans_clear_admin_identify a) = ans_irq_status a"
  "ans_intm (ans_clear_admin_identify a) = ans_intm a" "\<not> admin_id_armed (ans_clear_admin_identify a)"
  "admin_cq_tail (ans_clear_admin_identify a) = admin_cq_tail a"
  by (simp_all add: ans_clear_admin_identify_def)

lemma identify_dma_frame:
  "w_pci (snd (vf_ans_identify_cns_ctrl_dma a cns b len w)) = w_pci w"
  "w_pci (snd (vf_ans_identify_cns_ns_dma a cns b len w)) = w_pci w"
  by (simp_all add: vf_ans_identify_cns_ctrl_dma_def vf_ans_identify_cns_ns_dma_def ans_dma_gates_spec
      case_prod_beta)

lemma ans_post_mirror: "ans_mirror (fst (ans_post_admin_identify_cqe a c w)) (snd (ans_post_admin_identify_cqe a c w))"
  by (simp add: ans_post_admin_identify_cqe_def Let_def)

text \<open>The three ways a doorbell advance ends: nothing armed, the armed command dropped without any
  transfer, or the Identify data transferred and a completion posted.\<close>

lemma ans_try_cases:
  obtains (idle) "\<not> admin_id_armed a" "ans_try_admin_identify_on_doorbell a t w = (a, w)"
  | (stop) w' where "w_pci w' = w_pci w" "w_mem w' = w_mem w"
      "ans_try_admin_identify_on_doorbell a t w = (ans_clear_admin_identify a, w')"
  | (post) b c prp1 w1 where "admin_id_armed a" "admin_id_buf a = Some b" "admin_id_cq_buf a = Some c"
      "4096 \<le> admin_id_len a" "16 \<le> admin_id_cq_len a"
      "ans_dma_allowed (ans_clear_admin_identify a) w"
      "ans_fetch_admin_asq_identify (ans_clear_admin_identify a) w t (admin_id_opcode a) (admin_id_cns a) = Some prp1"
      "ans_check_admin_acq_slot (ans_clear_admin_identify a)"
      "w_pci w1 = w_pci w"
      "w_mem w1 = (w_mem w)(b := splice (w_mem w b) 0 (if admin_id_cns a = VF_ANS_ID_CNS_CTRL
          then ans_id_ctrl_data (ans_clear_admin_identify a) else ans_id_ns_data (ans_clear_admin_identify a)))"
      "ans_try_admin_identify_on_doorbell a t w = ans_post_admin_identify_cqe (ans_clear_admin_identify a) c
          (ans_write_identify_prp (ans_clear_admin_identify a) (w_mem w1 b) prp1 w1)"
proof (cases "admin_id_armed a")
  case False
  then show thesis by (intro idle) (simp_all add: ans_try_admin_identify_on_doorbell_def)
next
  case armed: True
  let ?a = "ans_clear_admin_identify a"
  let ?r = "ans_try_admin_identify_on_doorbell a t w"
  note def = ans_try_admin_identify_on_doorbell_def [of a t w, unfolded Let_def]
  show thesis
  proof (cases "admin_id_opcode a = VF_ANS_OPC_IDENTIFY \<and> (admin_id_cns a = VF_ANS_ID_CNS_CTRL \<or> admin_id_cns a = VF_ANS_ID_CNS_NS)
      \<and> admin_id_buf a \<noteq> None \<and> admin_id_cq_buf a \<noteq> None \<and> 16 \<le> admin_id_cq_len a
      \<and> ans_fetch_admin_asq_identify ?a w t (admin_id_opcode a) (admin_id_cns a) \<noteq> None \<and> ans_check_admin_acq_slot ?a")
    case False
    then have "?r = (?a, w)"
      unfolding def using armed by (auto split: option.split)
    then show thesis by (rule stop [OF refl refl])
  next
    case True
    then obtain b c prp1 where s: "admin_id_buf a = Some b" "admin_id_cq_buf a = Some c"
      "ans_fetch_admin_asq_identify ?a w t (admin_id_opcode a) (admin_id_cns a) = Some prp1" by auto
    let ?g = "ans_dma_gates ?a w"
    let ?data = "if admin_id_cns a = VF_ANS_ID_CNS_CTRL then ans_id_ctrl_data ?a else ans_id_ns_data ?a"
    let ?dma = "if admin_id_cns a = VF_ANS_ID_CNS_CTRL then vf_ans_identify_cns_ctrl_dma ?a (admin_id_cns a) b (admin_id_len a) w
      else vf_ans_identify_cns_ns_dma ?a (admin_id_cns a) b (admin_id_len a) w"
    have dma: "?dma = (if admin_id_len a < 4096 then (ERR, w) else if fst ?g then (OK, mem_put b 0 ?data (snd ?g)) else (ERR, snd ?g))"
      using True by (auto simp: vf_ans_identify_cns_ctrl_dma_def vf_ans_identify_cns_ns_dma_def case_prod_beta)
    have r: "?r = (case ?dma of (ERR, w1) \<Rightarrow> (?a, w1)
        | (OK, w1) \<Rightarrow> ans_post_admin_identify_cqe ?a c (ans_write_identify_prp ?a (w_mem w1 b) prp1 w1))"
      unfolding def using armed True s by (elim conjE disjE) simp_all
    show thesis
    proof (cases "admin_id_len a \<ge> 4096 \<and> fst ?g")
      case True
      then have "?dma = (OK, mem_put b 0 ?data (snd ?g))" unfolding dma by simp
      with r show thesis
        using True armed s ans_dma_gates_spec [of ?a w] \<open>_ \<and> _ \<and> _ \<and> _ \<and> _ \<and> _ \<and> ans_check_admin_acq_slot ?a\<close>
        by (intro post [of b c prp1 "mem_put b 0 ?data (snd ?g)"]) (simp_all add: mem_put_def)
    next
      case False
      then obtain w1 where "?dma = (ERR, w1)" "w_pci w1 = w_pci w" "w_mem w1 = w_mem w"
        unfolding dma using ans_dma_gates_spec [of ?a w] by (cases "admin_id_len a < 4096") auto
      with r show thesis by (intro stop [of w1]) simp_all
    qed
  qed
qed

lemma ans_try_mirror:
  assumes "ans_mirror a w"
  shows "ans_mirror (fst (ans_try_admin_identify_on_doorbell a t w)) (snd (ans_try_admin_identify_on_doorbell a t w))"
proof (cases rule: ans_try_cases [of a t w, case_names idle stop post])
  case (stop w')
  then show ?thesis using ans_mirror_cong [OF assms] by simp
next
  case (post b c prp1 w1)
  then show ?thesis by (simp add: ans_post_mirror)
qed (simp add: assms)

lemma ans_doorbell_mirror:
  "ans_mirror a w \<Longrightarrow> ans_mirror (fst (vf_ans_write_doorbell a i v w)) (snd (vf_ans_write_doorbell a i v w))"
proof -
  assume "ans_mirror a w"
  then have db: "ans_mirror (a\<lparr>ans_doorbell := d\<rparr>) w" for d
    by (rule ans_mirror_cong) simp_all
  have "ans_mirror (fst (ans_refresh_admin_cq_irq a' w)) (snd (ans_refresh_admin_cq_irq a' w))" for a'
    by (simp add: ans_refresh_admin_cq_irq_def Let_def)
  with db ans_try_mirror [OF db] show ?thesis
    by (simp only: vf_ans_write_doorbell_def Let_def fst_conv snd_conv split: if_split) simp
qed

lemma ans_sparse_frame:
  "ans_pci (snd (ans_sparse_store a off v)) = ans_pci a"
  "ans_irq_status (snd (ans_sparse_store a off v)) = ans_irq_status a"
  "ans_intm (snd (ans_sparse_store a off v)) = ans_intm a"
  by (simp_all add: ans_sparse_store_def split: option.split)

text \<open>The register part of the invariant.\<close>

definition ans_regs_inv :: "vf_ans_v1 \<Rightarrow> bool" where
  "ans_regs_inv a \<longleftrightarrow> ans_sparse_inv a \<and> length (ans_doorbell a) = VF_ANS_DB_COUNT \<and> bit (ans_csts a) 0 = bit (ans_cc a) 0"

lemma ans_sparse_regs:
  "ans_doorbell (snd (ans_sparse_store a off v)) = ans_doorbell a"
  "ans_csts (snd (ans_sparse_store a off v)) = ans_csts a" "ans_cc (snd (ans_sparse_store a off v)) = ans_cc a"
  by (simp_all add: ans_sparse_store_def split: option.split)

lemma ans_sparse_keeps: "ans_sparse_inv a \<Longrightarrow> ans_sparse_inv (snd (ans_sparse_store a off v))"
  using sparse_overwrite(1) [of a off] sparse_append(1) [of a off]
  by (simp add: ans_sparse_store_def split: option.split)

lemma ans_regs_cong:
  "vendor_sparse b = vendor_sparse a \<Longrightarrow> vendor_sparse_used b = vendor_sparse_used a \<Longrightarrow>
   length (ans_doorbell b) = length (ans_doorbell a) \<Longrightarrow> ans_csts b = ans_csts a \<Longrightarrow> ans_cc b = ans_cc a \<Longrightarrow>
   ans_regs_inv b = ans_regs_inv a"
  by (simp add: ans_regs_inv_def ans_sparse_inv_def)

lemma ans_regs_clear [simp]: "ans_regs_inv (ans_clear_admin_identify a) = ans_regs_inv a"
  by (rule ans_regs_cong) (simp_all add: ans_clear_admin_identify_def)

lemma ans_regs_post [simp]: "ans_regs_inv (fst (ans_post_admin_identify_cqe a c w)) = ans_regs_inv a"
  by (rule ans_regs_cong) (simp_all add: ans_post_admin_identify_cqe_def Let_def)

lemma ans_regs_try: "ans_regs_inv (fst (ans_try_admin_identify_on_doorbell a t w)) = ans_regs_inv a"
  by (cases rule: ans_try_cases [of a t w]) simp_all

lemma ans_regs_bell [simp]: "ans_regs_inv (a\<lparr>ans_doorbell := (ans_doorbell a)[i := u]\<rparr>) = ans_regs_inv a"
  by (rule ans_regs_cong) simp_all

lemma ans_regs_refresh [simp]: "ans_regs_inv (fst (ans_refresh_admin_cq_irq b w)) = ans_regs_inv b"
  by (rule ans_regs_cong) (simp_all add: ans_refresh_admin_cq_irq_def Let_def)

lemma ans_regs_doorbell: "ans_regs_inv (fst (vf_ans_write_doorbell a i v w)) = ans_regs_inv a"
  by (simp only: vf_ans_write_doorbell_def Let_def ans_regs_try ans_regs_refresh ans_regs_bell fst_conv if_cancel if_distrib [of fst] if_distrib [of ans_regs_inv])

lemma ans_regs_cc: "ans_regs_inv a \<Longrightarrow> ans_regs_inv (fst (ans_apply_cc_enable a v w))"
  by (auto simp: ans_apply_cc_enable_def Let_def ans_clear_admin_identify_def ans_regs_inv_def ans_sparse_inv_def
      bit_simps and_flag_eq_0 [of _ 0, simplified])

lemma ans_regs_sparse: "ans_regs_inv a \<Longrightarrow> ans_regs_inv (snd (ans_sparse_store a off v))"
  by (simp add: ans_regs_inv_def ans_sparse_regs ans_sparse_keeps)

text \<open>A register write either keeps the interrupt condition and the store, or synchronises the PCI
  function, or is a doorbell.\<close>

lemma ans_write_rule:
  assumes plain: "\<And>b. ans_pci b = ans_pci a \<Longrightarrow> ans_irq_status b = ans_irq_status a \<Longrightarrow> ans_intm b = ans_intm a \<Longrightarrow>
      (ans_regs_inv a \<Longrightarrow> ans_regs_inv b) \<Longrightarrow> P (b, w)"
    and sync: "\<And>b. ans_pci b = ans_pci a \<Longrightarrow> (ans_regs_inv a \<Longrightarrow> ans_regs_inv b) \<Longrightarrow> P (b, ans_sync_pci_irq b w)"
    and bell: "\<And>i. ans_bounds off width \<Longrightarrow> ans_db_index off = Some i \<Longrightarrow> P (vf_ans_write_doorbell a i v w)"
  shows "P (snd (vf_ans_write a off width v w))"
proof -
  have cc: "P (ans_apply_cc_enable a v w)"
    using sync [of "fst (ans_apply_cc_enable a v w)"] ans_regs_cc [of a v w]
    by (simp add: ans_apply_cc_enable_def Let_def)
  have sp: "P (snd (ans_sparse_store a off v), w)"
    by (rule plain) (simp_all add: ans_sparse_frame ans_regs_sparse)
  have fields: "P (a, w)" "P (a\<lparr>ans_aqa := v\<rparr>, w)" "P (a\<lparr>ans_asq_lo := v\<rparr>, w)" "P (a\<lparr>ans_asq_hi := v\<rparr>, w)"
    "P (a\<lparr>ans_acq_lo := v\<rparr>, w)" "P (a\<lparr>ans_acq_hi := v\<rparr>, w)" "P (a\<lparr>ans_modesel := v\<rparr>, w)"
    "P (a\<lparr>ans_base_cmd_id := v\<rparr>, w)" "P (a\<lparr>ans_linear_sq := v\<rparr>, w)"
    by (rule plain; simp add: ans_regs_inv_def ans_sparse_inv_def)+
  have masks: "P (a\<lparr>ans_intm := m\<rparr>, ans_sync_pci_irq (a\<lparr>ans_intm := m\<rparr>) w)" for m
    by (rule sync) (simp_all add: ans_regs_inv_def ans_sparse_inv_def)
  have I: "\<And>b x y. P (snd x) \<Longrightarrow> (\<not> b \<Longrightarrow> P (snd y)) \<Longrightarrow> P (snd (if b then x else y))" by simp
  have C: "\<And>f y. (\<And>i. ans_db_index off = Some i \<Longrightarrow> P (snd (f i))) \<Longrightarrow> P (snd y) \<Longrightarrow>
      P (snd (case ans_db_index off of Some i \<Rightarrow> f i | None \<Rightarrow> y))"
    by (simp split: option.split)
  show ?thesis
    unfolding vf_ans_write_def Let_def case_prod_beta
    by (intro I C) (simp_all only: snd_conv cc sp fields masks bell simp_thms)
qed

lemma ans_regs_write: "ans_regs_inv a \<Longrightarrow> ans_regs_inv (fst (snd (vf_ans_write a off width v w)))"
  by (rule ans_write_rule) (simp_all add: ans_regs_doorbell)

lemma ans_write_mirror:
  assumes "ans_mirror a w"
  shows "ans_mirror (fst (snd (vf_ans_write a off width v w))) (snd (snd (vf_ans_write a off width v w)))"
  by (rule ans_write_rule [of a _ w])
    (use assms in \<open>auto intro: ans_mirror_cong ans_doorbell_mirror\<close>)

text \<open>Every PCI function of the store keeps its own invariant.\<close>

definition pcis_inv :: "ans_store \<Rightarrow> bool" where
  "pcis_inv w \<longleftrightarrow> (\<forall>q. pci_inv (w_pci w q))"

lemma pcis_inv_upd: "pcis_inv w \<Longrightarrow> pci_inv s \<Longrightarrow> pcis_inv (w\<lparr>w_pci := (w_pci w)(q := s)\<rparr>)"
  by (simp add: pcis_inv_def)

lemma pcis_inv_set_irq: "pcis_inv w \<Longrightarrow> pci_inv (snd (vf_ans_pci_set_irq (w_pci w q) b))"
  by (rule pci_set_irq_ok) (simp add: pcis_inv_def pci_inv_def)

lemma pcis_inv_sync: "pcis_inv w \<Longrightarrow> pcis_inv (ans_sync_pci_irq a w)"
  by (simp add: ans_sync_pci_irq_def pcis_inv_upd pcis_inv_set_irq split: option.split)

lemma ans_acq_frame [simp]: "w_pci (ans_write_admin_acq_cqe a cqe w) = w_pci w"
  by (simp add: ans_write_admin_acq_cqe_def split: option.split)

lemma pcis_inv_post: "pcis_inv w \<Longrightarrow> pcis_inv (snd (ans_post_admin_identify_cqe a c w))"
  by (simp add: ans_post_admin_identify_cqe_def Let_def) (rule pcis_inv_sync, simp add: pcis_inv_def)

lemma pcis_inv_try: "pcis_inv w \<Longrightarrow> pcis_inv (snd (ans_try_admin_identify_on_doorbell a t w))"
proof (cases rule: ans_try_cases [of a t w, case_names idle stop post])
  case (post b c prp1 w1)
  moreover assume "pcis_inv w"
  ultimately have "pcis_inv (ans_write_identify_prp (ans_clear_admin_identify a) (w_mem w1 b) prp1 w1)"
    by (simp add: pcis_inv_def)
  with post show ?thesis by (simp add: pcis_inv_post)
qed (simp_all add: pcis_inv_def)

lemma pcis_inv_write: "pcis_inv w \<Longrightarrow> pcis_inv (snd (snd (vf_ans_write a off width v w)))"
proof (rule ans_write_rule [of a _ w])
  fix i assume "pcis_inv w"
  then show "pcis_inv (snd (vf_ans_write_doorbell a i v w))"
    by (simp add: vf_ans_write_doorbell_def ans_refresh_admin_cq_irq_def Let_def pcis_inv_sync pcis_inv_try)
qed (simp_all add: pcis_inv_sync)


section \<open>Buffers\<close>

text \<open>Which host buffers a posted Identify writes, and that every store stays inside them.\<close>

definition ans_buffers :: "vf_ans_v1 \<Rightarrow> nat option set" where
  "ans_buffers a = {admin_id_buf a, admin_id_cq_buf a, admin_acq_mem a, admin_id_prp1_mem a, admin_id_prp2_mem a}"

definition ans_buffers_ok :: "vf_ans_v1 \<Rightarrow> ans_store \<Rightarrow> bool" where
  "ans_buffers_ok a w \<longleftrightarrow>
     ans_peer (\<lambda>b. admin_id_len a \<le> length (w_mem w b)) (admin_id_buf a)
     \<and> ans_peer (\<lambda>b. admin_id_cq_len a \<le> length (w_mem w b)) (admin_id_cq_buf a)
     \<and> ans_peer (\<lambda>b. admin_acq_len a \<le> length (w_mem w b)) (admin_acq_mem a)
     \<and> ans_peer (\<lambda>b. admin_id_prp1_len a \<le> length (w_mem w b)) (admin_id_prp1_mem a)
     \<and> ans_peer (\<lambda>b. admin_id_prp2_len a \<le> length (w_mem w b)) (admin_id_prp2_mem a)"

lemma sync_mem [simp]: "w_mem (ans_sync_pci_irq a w) = w_mem w"
  by (simp add: ans_sync_pci_irq_def split: option.split)

lemma mem_put_other [simp]: "x \<noteq> b \<Longrightarrow> w_mem (mem_put b off bs w) x = w_mem w x"
  by (simp add: mem_put_def)

lemma mem_put_length:
  "off + length bs \<le> length (w_mem w b) \<Longrightarrow> length (w_mem (mem_put b off bs w) x) = length (w_mem w x)"
  by (simp add: mem_put_def)

lemma le_bytes_length [simp]: "length (ans_store_le32 v) = 4" "length (ans_store_le64 u) = 8"
  by (simp_all add: ans_store_le32_def ans_store_le64_def put_le32_def put_le64_def)

lemma ans_data_length [simp]:
  "length (ans_id_ctrl_data a) = 4096" "length (ans_id_ns_data a) = 4096" "length (ans_cqe a) = 16"
  by (simp_all add: ans_id_ctrl_data_def ans_id_ns_data_def ans_cqe_def Let_def)

lemma identify_prp_mem:
  "admin_id_prp1_mem a \<noteq> Some x \<Longrightarrow> admin_id_prp2_mem a \<noteq> Some x \<Longrightarrow>
   w_mem (ans_write_identify_prp a buf prp1 w) x = w_mem w x"
  by (auto simp: ans_write_identify_prp_def Let_def split: option.split)

lemma prp_offset_lt: "unat (p AND 0xfff :: u64) < 4096"
proof -
  have "p AND 0xfff \<le> 0xfff" by (rule word_and_le1)
  then show ?thesis by (simp add: word_le_nat_alt)
qed

lemma identify_prp_length:
  assumes "ans_peer (\<lambda>b. admin_id_prp1_len a \<le> length (w_mem w b)) (admin_id_prp1_mem a)"
    "ans_peer (\<lambda>b. admin_id_prp2_len a \<le> length (w_mem w b)) (admin_id_prp2_mem a)"
  shows "length (w_mem (ans_write_identify_prp a buf prp1 w) x) = length (w_mem w x)"
  using assms prp_offset_lt [of prp1]
  by (auto simp: ans_write_identify_prp_def Let_def ans_peer_def mem_put_length split: option.splits)

lemma post_mem:
  "x \<noteq> c \<Longrightarrow> admin_acq_mem a \<noteq> Some x \<Longrightarrow> w_mem (snd (ans_post_admin_identify_cqe a c w)) x = w_mem w x"
  by (auto simp: ans_post_admin_identify_cqe_def Let_def ans_write_admin_acq_cqe_def split: option.split)

lemma post_length:
  assumes "16 \<le> length (w_mem w c)" "ans_check_admin_acq_slot a"
    "ans_peer (\<lambda>b. admin_acq_len a \<le> length (w_mem w b)) (admin_acq_mem a)"
  shows "length (w_mem (snd (ans_post_admin_identify_cqe a c w)) x) = length (w_mem w x)"
  using assms
  by (auto simp: ans_post_admin_identify_cqe_def Let_def ans_write_admin_acq_cqe_def ans_peer_def mem_put_length
      ans_check_admin_acq_slot_def split: option.splits if_splits)


lemma clear_identify_keeps [simp]:
  "ans_dma_allowed (ans_clear_admin_identify a) w = ans_dma_allowed a w"
  "ans_check_admin_acq_slot (ans_clear_admin_identify a) = ans_check_admin_acq_slot a"
  "admin_acq_mem (ans_clear_admin_identify a) = admin_acq_mem a" "admin_acq_len (ans_clear_admin_identify a) = admin_acq_len a"
  "admin_id_prp1_mem (ans_clear_admin_identify a) = admin_id_prp1_mem a"
  "admin_id_prp1_len (ans_clear_admin_identify a) = admin_id_prp1_len a"
  "admin_id_prp2_mem (ans_clear_admin_identify a) = admin_id_prp2_mem a"
  "admin_id_prp2_len (ans_clear_admin_identify a) = admin_id_prp2_len a"
  "admin_asq_mem (ans_clear_admin_identify a) = admin_asq_mem a"
  by (simp_all add: ans_clear_admin_identify_def ans_dma_allowed_def ans_check_admin_acq_slot_def)

lemma ans_try_mem:
  assumes "w_mem (snd (ans_try_admin_identify_on_doorbell a t w)) x \<noteq> w_mem w x"
  shows "admin_id_armed a \<and> ans_dma_allowed a w \<and> Some x \<in> ans_buffers a"
proof (cases rule: ans_try_cases [of a t w, case_names idle stop post])
  case (post b c prp1 w1)
  have "w_mem (snd (ans_try_admin_identify_on_doorbell a t w)) x = w_mem w x" if "Some x \<notin> ans_buffers a"
  proof -
    have x: "x \<noteq> b" "x \<noteq> c" "admin_acq_mem a \<noteq> Some x" "admin_id_prp1_mem a \<noteq> Some x" "admin_id_prp2_mem a \<noteq> Some x"
      using that post(2,3) by (auto simp: ans_buffers_def)
    then show ?thesis unfolding post(11) by (simp add: post_mem identify_prp_mem post(10))
  qed
  with assms post show ?thesis by auto
qed (use assms in auto)

lemma ans_try_length:
  assumes "ans_buffers_ok a w"
  shows "length (w_mem (snd (ans_try_admin_identify_on_doorbell a t w)) x) = length (w_mem w x)"
proof (cases rule: ans_try_cases [of a t w, case_names idle stop post])
  case (post b c prp1 w1)
  let ?a = "ans_clear_admin_identify a"
  let ?w2 = "ans_write_identify_prp ?a (w_mem w1 b) prp1 w1"
  have l1: "length (w_mem w1 y) = length (w_mem w y)" for y
    using post assms by (simp add: ans_buffers_ok_def ans_peer_def)
  have l2: "length (w_mem ?w2 y) = length (w_mem w y)" for y
    using assms l1 identify_prp_length [of ?a w1] by (simp add: ans_buffers_ok_def)
  then show ?thesis
    using post assms l2 post_length [of ?w2 c ?a x] by (simp add: ans_buffers_ok_def ans_peer_def)
qed (use assms in auto)

lemma ans_doorbell_update [simp]:
  "ans_dma_allowed (a\<lparr>ans_doorbell := d\<rparr>) w = ans_dma_allowed a w" "ans_buffers (a\<lparr>ans_doorbell := d\<rparr>) = ans_buffers a"
  "ans_buffers_ok (a\<lparr>ans_doorbell := d\<rparr>) w = ans_buffers_ok a w"
  by (simp_all add: ans_dma_allowed_def ans_buffers_def ans_buffers_ok_def)

lemma ans_write_doorbell_off:
  "ans_bounds off width \<Longrightarrow> ans_db_index off = Some i \<Longrightarrow> vf_ans_write a off width v w = (OK, vf_ans_write_doorbell a i v w)"
  unfolding vf_ans_write_def by (simp only: option.case simp_thms if_False)

lemma ans_write_mem:
  "w_mem (snd (snd (vf_ans_write a off width v w))) =
     (if ans_bounds off width \<and> off = VF_ANS_DB_BASE \<and> v AND 0xffff \<noteq> ans_doorbell a ! 0 \<and> admin_id_armed a
      then w_mem (snd (ans_try_admin_identify_on_doorbell (a\<lparr>ans_doorbell := (ans_doorbell a)[0 := v AND 0xffff]\<rparr>)
             (ucast (ans_doorbell a ! 0 AND 0xffff)) w))
      else w_mem w)"
proof (cases "ans_bounds off width \<and> ans_db_index off \<noteq> None")
  case True
  then obtain i where i: "ans_db_index off = Some i" by auto
  then have off: "off = 0x1000 \<longleftrightarrow> i = 0"
    using True by (auto simp: ans_db_index_def ans_bounds_def split: if_splits)
  have b: "ans_bounds off width" using True by simp
  have refresh: "w_mem (snd (ans_refresh_admin_cq_irq a' w)) = w_mem w" for a'
    by (simp add: ans_refresh_admin_cq_irq_def Let_def)
  show ?thesis
    unfolding ans_write_doorbell_off [OF b i] off vf_ans_write_doorbell_def Let_def snd_conv
    by (cases "i = 0") (simp_all add: b refresh)
next
  case False
  then have "w_mem (snd (snd (vf_ans_write a off width v w))) = w_mem w"
    by (intro ans_write_rule [where P = "\<lambda>r. w_mem (snd r) = w_mem w"]) auto
  moreover have "\<not> (ans_bounds off width \<and> off = 0x1000)" using False by (auto simp: ans_db_index_def)
  ultimately show ?thesis by auto
qed

section \<open>Interrupt messages\<close>

text \<open>What an MSI message does to the window bound to a PCI function: the two bytes of the data at the offset of the address.\<close>

definition msi_message_stored :: "vf_ans_pci_v1 \<Rightarrow> vf_ans_pci_v1 \<Rightarrow> bool" where
  "msi_message_stored s s' \<longleftrightarrow> msi_enabled s \<and> \<not> msix_enabled s
     \<and> (let off = unat (msi_addr s) - unat (msi_gpa_base s) in
          unat (msi_gpa_base s) \<le> unat (msi_addr s) \<and> off + 2 \<le> msi_gpa_len s
          \<and> (\<exists>mem. msi_gpa_mem s = Some mem
               \<and> msi_gpa_mem s' = Some (mem[off := ucast (msi_data s), off + 1 := ucast (drop_bit 8 (msi_data s))])))"

lemma low_byte: "(ucast (x AND 0xff) :: u8) = ucast (x :: u16)"
proof -
  have "(0xff :: u16) = mask 8" by (simp add: mask_eq_exp_minus_1)
  then show ?thesis by (simp only:) (rule bit_word_eqI, simp add: bit_simps)
qed

lemma set_irq_window:
  assumes "msi_gpa_mem (snd (vf_ans_pci_set_irq s level)) \<noteq> msi_gpa_mem s"
  shows "level \<and> msi_message_stored s (snd (vf_ans_pci_set_irq s level))"
  using assms
  by (auto simp: vf_ans_pci_set_irq_def Let_def ans_pci_try_msi_message_write_def msi_message_stored_def ans_pci_message_done_def
      low_byte unat_sub not_less word_le_nat_alt word_less_nat_alt split: if_splits option.splits)

text \<open>The PCI functions after a register write are those before it, or those after one synchronisation with the state it leaves.\<close>

definition ans_synced :: "vf_ans_v1 \<Rightarrow> ans_store \<Rightarrow> vf_ans_v1 \<times> ans_store \<Rightarrow> bool" where
  "ans_synced a w r \<longleftrightarrow> w_pci (snd r) = w_pci w
     \<or> ans_pci (fst r) = ans_pci a \<and> w_pci (snd r) = w_pci (ans_sync_pci_irq (fst r) w)"

lemma sync_pci_cong: "w_pci w1 = w_pci w \<Longrightarrow> w_pci (ans_sync_pci_irq a w1) = w_pci (ans_sync_pci_irq a w)"
  by (simp add: ans_sync_pci_irq_def split: option.split)

lemma ans_try_synced:
  shows "ans_synced a w (ans_try_admin_identify_on_doorbell a t w)"
    and "w_pci (snd (ans_try_admin_identify_on_doorbell a t w)) \<noteq> w_pci w \<Longrightarrow> admin_id_armed a \<and> ans_dma_allowed a w"
proof -
  have "ans_synced a w (ans_try_admin_identify_on_doorbell a t w)
      \<and> (w_pci (snd (ans_try_admin_identify_on_doorbell a t w)) \<noteq> w_pci w \<longrightarrow> admin_id_armed a \<and> ans_dma_allowed a w)"
  proof (cases rule: ans_try_cases [of a t w, case_names idle stop post])
    case (post b c prp1 w1)
    let ?w2 = "ans_write_identify_prp (ans_clear_admin_identify a) (w_mem w1 b) prp1 w1"
    have "ans_synced a w (ans_post_admin_identify_cqe (ans_clear_admin_identify a) c ?w2)"
      unfolding ans_synced_def ans_post_admin_identify_cqe_def Let_def fst_conv snd_conv
      by (intro disjI2 conjI sync_pci_cong) (simp_all add: post(9) ans_clear_admin_identify_def)
    with post(1,6,11) show ?thesis by simp
  qed (simp_all add: ans_synced_def)
  then show "ans_synced a w (ans_try_admin_identify_on_doorbell a t w)"
    "w_pci (snd (ans_try_admin_identify_on_doorbell a t w)) \<noteq> w_pci w \<Longrightarrow> admin_id_armed a \<and> ans_dma_allowed a w" by simp_all
qed

lemma ans_write_synced: "ans_synced a w (snd (vf_ans_write a off width v w))"
proof (rule ans_write_rule [of a _ w])
  fix i
  have refresh: "ans_synced a w (ans_refresh_admin_cq_irq (a\<lparr>ans_doorbell := d\<rparr>) w)" for d
    by (simp add: ans_synced_def ans_refresh_admin_cq_irq_def Let_def)
  have fetch: "ans_synced a w (ans_try_admin_identify_on_doorbell (a\<lparr>ans_doorbell := d\<rparr>) t w)" for d t
    using ans_try_synced(1) [of "a\<lparr>ans_doorbell := d\<rparr>" w t] by (simp add: ans_synced_def)
  have plain: "ans_synced a w (a\<lparr>ans_doorbell := d\<rparr>, w)" for d by (simp add: ans_synced_def)
  show "ans_synced a w (vf_ans_write_doorbell a i v w)"
    using refresh [of "ans_doorbell a"] plain [of "ans_doorbell a"] by (simp add: vf_ans_write_doorbell_def Let_def refresh fetch plain)
qed (simp_all add: ans_synced_def)

text \<open>The registers whose writes synchronise.\<close>

lemma ans_write_unsynced:
  assumes "w_pci (snd (snd (vf_ans_write a off width v w))) \<noteq> w_pci w"
  shows "ans_bounds off width \<and>
    (off \<in> {VF_ANS_REG_INTMS, VF_ANS_REG_INTMC, VF_ANS_REG_CC, VF_ANS_DB_BASE + 4}
     \<or> off = VF_ANS_DB_BASE \<and> v AND 0xffff \<noteq> ans_doorbell a ! 0 \<and> admin_id_armed a \<and> ans_dma_allowed a w)"
proof (rule ccontr)
  assume n: "\<not> ?thesis"
  have bell: "w_pci (snd (vf_ans_write_doorbell a i v w)) = w_pci w" if i: "ans_db_index off = Some i" and b: "ans_bounds off width" for i
  proof -
    have off: "off = 0x1000 + 4 * i" using i b by (auto simp: ans_db_index_def ans_bounds_def split: if_splits)
    show ?thesis
    proof (cases "i = 0 \<and> v AND 0xffff \<noteq> ans_doorbell a ! 0 \<and> admin_id_armed a")
      case True
      then show ?thesis
        using n b off ans_try_synced(2) [of "a\<lparr>ans_doorbell := (ans_doorbell a)[0 := v AND 0xffff]\<rparr>"
            "ucast (ans_doorbell a ! 0 AND 0xffff)" w]
        by (auto simp: vf_ans_write_doorbell_def Let_def)
    next
      case False
      then show ?thesis using n b off by (auto simp: vf_ans_write_doorbell_def Let_def)
    qed
  qed
  have I: "(b \<Longrightarrow> w_pci (snd (snd x)) = w_pci w) \<Longrightarrow> (\<not> b \<Longrightarrow> w_pci (snd (snd y)) = w_pci w)
      \<Longrightarrow> w_pci (snd (snd (if b then x else y))) = w_pci w" for b and x y :: "rc \<times> vf_ans_v1 \<times> ans_store" by simp
  have C: "(\<And>i. ans_db_index off = Some i \<Longrightarrow> w_pci (snd (snd (f i))) = w_pci w) \<Longrightarrow> w_pci (snd (snd y)) = w_pci w
      \<Longrightarrow> w_pci (snd (snd (case ans_db_index off of Some i \<Rightarrow> f i | None \<Rightarrow> y))) = w_pci w"
    for f and y :: "rc \<times> vf_ans_v1 \<times> ans_store" by (simp split: option.split)
  have "w_pci (snd (snd (vf_ans_write a off width v w))) = w_pci w"
    unfolding vf_ans_write_def Let_def case_prod_beta by (intro I C) (use n bell in auto)
  with assms show False by simp
qed

lemma ans_write_window:
  assumes "msi_gpa_mem (w_pci (snd (snd (vf_ans_write a off width v w))) q) \<noteq> msi_gpa_mem (w_pci w q)"
  shows "ans_pci a = Some q \<and> vf_ans_irq_check (fst (snd (vf_ans_write a off width v w)))
    \<and> msi_message_stored (w_pci w q) (w_pci (snd (snd (vf_ans_write a off width v w))) q)"
proof -
  let ?r = "snd (vf_ans_write a off width v w)"
  have "w_pci (snd ?r) \<noteq> w_pci w" using assms by auto
  then have s: "ans_pci (fst ?r) = ans_pci a" "w_pci (snd ?r) = w_pci (ans_sync_pci_irq (fst ?r) w)"
    using ans_write_synced [of a w off width v] by (auto simp: ans_synced_def)
  have p: "ans_pci a = Some q"
    using assms unfolding s(2) by (auto simp: ans_sync_pci_irq_def s(1) split: option.splits if_splits)
  then have "w_pci (snd ?r) q = snd (vf_ans_pci_set_irq (w_pci w q) (ans_irq_level (fst ?r)))"
    unfolding s(2) by (simp add: ans_sync_pci_irq_def s(1))
  with p assms set_irq_window [of "w_pci w q" "ans_irq_level (fst ?r)"] show ?thesis by (auto simp: vf_ans_irq_check_def)
qed

section \<open>Properties\<close>

text \<open>The guest's command that may transfer data: a doorbell write of a new submission tail while an Identify is armed,
  the controller is enabled and ready, and every bound peer (PCI bus mastering, mailbox started, wrapper ready, autoboot
  armed) agrees.\<close>

definition ans_identify_command :: "vf_ans_v1 \<Rightarrow> nat \<Rightarrow> u32 \<Rightarrow> ans_store \<Rightarrow> bool" where
  "ans_identify_command a off v w \<longleftrightarrow> off = VF_ANS_DB_BASE \<and> v AND 0xffff \<noteq> ans_doorbell a ! 0 \<and> admin_id_armed a
    \<and> bit (ans_cc a) 0 \<and> bit (ans_csts a) 0
    \<and> (\<forall>q. ans_pci a = Some q \<longrightarrow> vf_ans_pci_bus_master_enabled (w_pci w q))
    \<and> (\<forall>q. ans_mbox a = Some q \<longrightarrow> fst (vf_ans_mbox_started w q))
    \<and> (\<forall>q. ans_ascwrap a = Some q \<longrightarrow> fst (vf_ascwrap_ready w q))
    \<and> (\<forall>q. ans_autoboot a = Some q \<longrightarrow> fst (vf_ans_autoboot_armed w q))"

lemma ans_identify_commandI:
  "off = VF_ANS_DB_BASE \<Longrightarrow> v AND 0xffff \<noteq> ans_doorbell a ! 0 \<Longrightarrow> admin_id_armed a \<Longrightarrow> ans_dma_allowed a w
   \<Longrightarrow> ans_identify_command a off v w"
  by (simp add: ans_identify_command_def ans_dma_allowed_def ans_peer_def bus_master_bit mbox_started_iff
      ascwrap_ready_iff autoboot_armed_iff split: option.splits)

text \<open>C32. The host buffers a register write of the guest may change are those bound for an Identify command and the MSI window
  bound to the controller's PCI function. One of the former changes only if the write is an Identify command
  that the gates admit. The window changes only if the write is such a command, or one to INTMS, INTMC, CC or the
  completion doorbell, and the controller's interrupt condition holds after it and the function has MSI and not MSI-X
  enabled; then exactly the two bytes of the message are stored, at the message's address inside the window.\<close>

theorem ans_dma_only_when_allowed:
  "let (a', w') = snd (vf_ans_write a off width v w) in
    (\<forall>x. w_mem w' x \<noteq> w_mem w x \<longrightarrow>
      width = 4 \<and> ans_identify_command a off v w
      \<and> Some x \<in> {admin_id_buf a, admin_id_cq_buf a, admin_acq_mem a, admin_id_prp1_mem a, admin_id_prp2_mem a})
    \<and> (\<forall>q. msi_gpa_mem (w_pci w' q) \<noteq> msi_gpa_mem (w_pci w q) \<longrightarrow>
      width = 4 \<and> (ans_identify_command a off v w
        \<or> off \<in> {VF_ANS_REG_INTMS, VF_ANS_REG_INTMC, VF_ANS_REG_CC, VF_ANS_DB_BASE + 4})
      \<and> ans_pci a = Some q \<and> vf_ans_irq_check a' \<and> msi_message_stored (w_pci w q) (w_pci w' q))"
  unfolding Let_def case_prod_beta
proof (intro conjI allI impI)
  let ?a = "a\<lparr>ans_doorbell := (ans_doorbell a)[0 := v AND 0xffff]\<rparr>" and ?w = "snd (snd (vf_ans_write a off width v w))"
  fix x assume x: "w_mem ?w x \<noteq> w_mem w x"
  then have c: "off = VF_ANS_DB_BASE" "ans_bounds VF_ANS_DB_BASE width" "v AND 0xffff \<noteq> ans_doorbell a ! 0" "admin_id_armed a"
    by (auto simp: ans_write_mem split: if_splits)
  then have "w_mem (snd (ans_try_admin_identify_on_doorbell ?a (ucast (ans_doorbell a ! 0 AND 0xffff)) w)) x \<noteq> w_mem w x"
    using x by (simp add: ans_write_mem)
  from ans_try_mem [OF this] have "ans_dma_allowed a w" "Some x \<in> ans_buffers a" by simp_all
  with c show "width = 4" "ans_identify_command a off v w"
    "Some x \<in> {admin_id_buf a, admin_id_cq_buf a, admin_acq_mem a, admin_id_prp1_mem a, admin_id_prp2_mem a}"
    by (auto simp: ans_bounds_def ans_buffers_def intro: ans_identify_commandI)
next
  let ?r = "snd (vf_ans_write a off width v w)"
  fix q assume q: "msi_gpa_mem (w_pci (snd ?r) q) \<noteq> msi_gpa_mem (w_pci w q)"
  then have "w_pci (snd ?r) \<noteq> w_pci w" by auto
  from ans_write_unsynced [OF this]
  show "width = 4" "ans_identify_command a off v w
        \<or> off \<in> {VF_ANS_REG_INTMS, VF_ANS_REG_INTMC, VF_ANS_REG_CC, VF_ANS_DB_BASE + 4}"
    by (auto simp: ans_bounds_def intro: ans_identify_commandI)
  show "ans_pci a = Some q" "vf_ans_irq_check (fst ?r)" "msi_message_stored (w_pci w q) (w_pci (snd ?r) q)"
    using ans_write_window [OF q] by simp_all
qed

text \<open>C33. If every buffer bound to the controller is as long as it was declared to be, no register
  write stores outside a buffer: all buffers keep their lengths.\<close>

theorem ans_dma_in_bounds:
  assumes "ans_buffers_ok a w"
  shows "length (w_mem (snd (snd (vf_ans_write a off width v w))) x) = length (w_mem w x)"
  using assms by (simp add: ans_write_mem ans_try_length)


text \<open>A controller with Identify Controller armed, chained peers at address 0, and host buffers 0
  (data) and 1 (completion).\<close>

definition ans_demo_store :: ans_store where
  "ans_demo_store = boot_store.extend chain_demo
     \<lparr>w_mem = (\<lambda>b. if b = 0 then replicate 4096 0xAA else replicate 16 0xAA)\<rparr>"

definition ans_demo :: vf_ans_v1 where
  "ans_demo =
     (let a0 = snd (vf_ans_init undefined);
          a1 = vf_ans_bind_autoboot (vf_ans_bind_ascwrap (vf_ans_bind_mbox (a0\<lparr>ans_pci := Some 0\<rparr>) (Some 0)) (Some 0)) (Some 0);
          a2 = fst (snd (vf_ans_write a1 VF_ANS_REG_CC 4 1 ans_demo_store)) in
      snd (vf_ans_arm_admin_identify a2 VF_ANS_OPC_IDENTIFY VF_ANS_ID_CNS_CTRL (Some 0) 4096 (Some 1) 16))"

lemma ans_demo_fields:
  "admin_id_armed ans_demo" "admin_id_opcode ans_demo = 6" "admin_id_cns ans_demo = 1"
  "admin_id_buf ans_demo = Some 0" "admin_id_len ans_demo = 4096" "admin_id_cq_buf ans_demo = Some 1"
  "admin_id_cq_len ans_demo = 16" "admin_acq_mem ans_demo = None" "admin_asq_mem ans_demo = None"
  "admin_id_prp1_mem ans_demo = None" "admin_id_prp2_mem ans_demo = None"
  "ans_doorbell ans_demo = replicate 128 0" "admin_cq_tail ans_demo = 0" "admin_cq_phase ans_demo = 1"
  "ans_pci ans_demo = Some 0" "ans_mbox ans_demo = Some 0" "ans_ascwrap ans_demo = Some 0"
  "ans_autoboot ans_demo = Some 0" "ans_cc ans_demo = 1" "ans_csts ans_demo = 1" "is_apple_ans ans_demo"
  by (simp_all add: ans_demo_def Let_def vf_ans_arm_admin_identify_def vf_ans_write_def ans_bounds_def
      ans_db_index_def ans_apply_cc_enable_def vf_ans_init_def vf_ans_bind_mbox_def vf_ans_bind_ascwrap_def
      vf_ans_bind_autoboot_def ans_clear_admin_identify_def)

lemma ans_demo_mem: "w_mem ans_demo_store b = (if b = 0 then replicate 4096 0xAA else replicate 16 0xAA)"
  by (simp add: ans_demo_store_def boot_store.defs)

lemma ans_demo_allowed: "ans_dma_allowed ans_demo ans_demo_store"
proof -
  have "mbox_honest ans_demo_store 0 = mbox_honest chain_demo 0" "w_pci ans_demo_store = w_pci chain_demo"
    "w_asc ans_demo_store = w_asc chain_demo" "w_boot ans_demo_store = w_boot chain_demo"
    by (simp_all add: ans_demo_store_def boot_store.defs mbox_honest_def split: option.split)
  moreover have "bit (6 :: u16) 2" by (simp add: bit_iff_odd)
  ultimately show ?thesis
    using chain_demo_links
    by (simp add: ans_dma_allowed_def ans_peer_def ans_demo_fields asc_honest_def boot_honest_def)
      (simp add: chain_demo_def)
qed

theorem ans_dma_in_bounds_witness:
  "ans_buffers_ok ans_demo ans_demo_store \<and>
   length (w_mem (snd (snd (vf_ans_write ans_demo 0x1000 4 1 ans_demo_store))) 0) = 4096"
  using ans_dma_in_bounds [of ans_demo ans_demo_store "0x1000" 4 1 0]
  by (simp add: ans_buffers_ok_def ans_peer_def ans_demo_fields ans_demo_mem)


lemma ans_fetch_frame [simp]:
  "ans_fetch_admin_asq_identify (a\<lparr>ans_doorbell := d\<rparr>) w t opc cns = ans_fetch_admin_asq_identify a w t opc cns"
  "ans_fetch_admin_asq_identify (ans_clear_admin_identify a) w t opc cns = ans_fetch_admin_asq_identify a w t opc cns"
  "ans_check_admin_acq_slot (a\<lparr>ans_doorbell := d\<rparr>) = ans_check_admin_acq_slot a"
  by (simp_all add: ans_fetch_admin_asq_identify_def ans_clear_admin_identify_def ans_check_admin_acq_slot_def
      cong: if_cong option.case_cong)

text \<open>The successful run of an armed Identify.\<close>

lemma ans_try_posts:
  fixes cns :: u8
  assumes "admin_id_armed a" "admin_id_opcode a = VF_ANS_OPC_IDENTIFY" "admin_id_cns a = cns"
    "cns = VF_ANS_ID_CNS_CTRL \<or> cns = VF_ANS_ID_CNS_NS" "admin_id_buf a = Some b" "admin_id_cq_buf a = Some c"
    "4096 \<le> admin_id_len a" "16 \<le> admin_id_cq_len a" "ans_dma_allowed a w"
    "ans_fetch_admin_asq_identify a w t VF_ANS_OPC_IDENTIFY cns = Some prp1" "ans_check_admin_acq_slot a"
  defines "a1 \<equiv> ans_clear_admin_identify a"
  shows "\<exists>w1. w_mem w1 = (w_mem w)(b := splice (w_mem w b) 0
        (if cns = VF_ANS_ID_CNS_CTRL then ans_id_ctrl_data a1 else ans_id_ns_data a1))
    \<and> w_pci w1 = w_pci w
    \<and> ans_try_admin_identify_on_doorbell a t w =
        ans_post_admin_identify_cqe a1 c (ans_write_identify_prp a1 (w_mem w1 b) prp1 w1)"
proof -
  let ?data = "if cns = VF_ANS_ID_CNS_CTRL then ans_id_ctrl_data a1 else ans_id_ns_data a1"
  obtain w2 where g: "ans_dma_gates a1 w = (True, w2)" "w_mem w2 = w_mem w" "w_pci w2 = w_pci w"
    using ans_dma_gates_spec [of a1 w] assms(9) by (cases "ans_dma_gates a1 w") (simp add: a1_def)
  have dma: "(if cns = VF_ANS_ID_CNS_CTRL then vf_ans_identify_cns_ctrl_dma a1 cns b (admin_id_len a) w
      else vf_ans_identify_cns_ns_dma a1 cns b (admin_id_len a) w) = (OK, mem_put b 0 ?data w2)"
    using assms(4,7) g by (auto simp: vf_ans_identify_cns_ctrl_dma_def vf_ans_identify_cns_ns_dma_def)
  have fetch: "ans_fetch_admin_asq_identify a1 w t VF_ANS_OPC_IDENTIFY cns = Some prp1" "ans_check_admin_acq_slot a1"
    using assms(10,11) by (simp_all add: a1_def)
  have "ans_try_admin_identify_on_doorbell a t w =
      ans_post_admin_identify_cqe a1 c (ans_write_identify_prp a1 (w_mem (mem_put b 0 ?data w2) b) prp1 (mem_put b 0 ?data w2))"
    unfolding ans_try_admin_identify_on_doorbell_def Let_def assms(2,3,5,6) a1_def [symmetric] prod.case option.case
      fetch dma
    using assms(1,4,8) fetch(2) by auto
  with g show ?thesis
    by (intro exI [of _ "mem_put b 0 ?data w2"]) (simp add: mem_put_def)
qed

lemma ans_data_fields:
  "ans_id_ctrl_data a ! 77 = (if is_apple_ans a then 8 else 7)" "ans_id_ctrl_data a ! 111 = 1"
  "ans_id_ctrl_data a ! 512 = vf_ans_identify_sqes a" "ans_id_ctrl_data a ! 513 = vf_ans_identify_cqes a"
  "get_le32 (drop 80 (ans_id_ctrl_data a)) = VF_ANS_VS_VAL" "get_le32 (drop 516 (ans_id_ctrl_data a)) = 16"
  by (simp_all add: ans_id_ctrl_data_def Let_def nth_splice get_splice_other ans_store_le32_def
      vf_ans_identify_cns_ctrl_def vf_ans_identify_sqes_def vf_ans_identify_cqes_def)

lemma splice_zeros: "off + n \<le> m \<Longrightarrow> splice (replicate m z) off (replicate n z) = replicate m z"
  by (simp add: splice_def flip: replicate_add)

lemma ans_ns_data_zero: "ans_id_ns_data a = replicate 4096 0"
proof -
  have "ans_store_le64 0 = replicate 8 0"
    by (simp add: ans_store_le64_def put_le64_def numeral_eq_Suc)
  moreover have "off < 4096 \<Longrightarrow> splice (replicate 4096 0) off [0] = replicate 4096 (0 :: u8)" for off
    using splice_zeros [of off 1 4096 "0 :: u8"] by simp
  ultimately show ?thesis
    by (simp add: ans_id_ns_data_def Let_def vf_ans_identify_cns_ns_def splice_zeros)
qed

lemma ans_cqe_fields:
  "get_le32 (drop 8 (ans_cqe a)) = ans_doorbell a ! 0 AND 0xffff"
  "get_le32 (drop 12 (ans_cqe a)) = (if bit (admin_cq_phase a) 0 then 0x10000 else 0)"
proof -
  have m: "(0xffff :: u32) = mask 16" by (simp add: mask_eq_exp_minus_1)
  have "ucast (ucast (x AND 0xffff) :: u16) = (x AND 0xffff :: u32)" for x :: u32
    unfolding m by (rule bit_word_eqI) (auto simp: bit_simps)
  then show "get_le32 (drop 8 (ans_cqe a)) = ans_doorbell a ! 0 AND 0xffff"
    by (simp add: ans_cqe_def Let_def get_splice_other ans_store_le32_def)
  have "admin_cq_phase a AND 1 = (if bit (admin_cq_phase a) 0 then 1 else 0)"
    by (simp add: and_one_eq bit_0 mod2_eq_if)
  then show "get_le32 (drop 12 (ans_cqe a)) = (if bit (admin_cq_phase a) 0 then 0x10000 else 0)"
    by (simp add: ans_cqe_def Let_def get_splice_other ans_store_le32_def push_bit_eq_mult)
qed


lemma ans_identify_run:
  fixes cns :: u8 and v :: u32
  assumes armed: "admin_id_armed a" "admin_id_opcode a = VF_ANS_OPC_IDENTIFY" "admin_id_cns a = cns"
      "cns = VF_ANS_ID_CNS_CTRL \<or> cns = VF_ANS_ID_CNS_NS" "admin_id_buf a = Some b" "admin_id_cq_buf a = Some c"
      "4096 \<le> admin_id_len a" "16 \<le> admin_id_cq_len a"
    and gates: "ans_dma_allowed a w" "ans_check_admin_acq_slot a"
      "ans_fetch_admin_asq_identify a w (ucast (ans_doorbell a ! 0 AND 0xffff)) VF_ANS_OPC_IDENTIFY cns = Some prp1"
    and prp: "admin_id_prp1_mem a = None" and bell: "v AND 0xffff \<noteq> ans_doorbell a ! 0"
  defines "a1 \<equiv> ans_clear_admin_identify (a\<lparr>ans_doorbell := (ans_doorbell a)[0 := v AND 0xffff]\<rparr>)"
  shows "\<exists>w1. w_mem w1 = (w_mem w)(b := splice (w_mem w b) 0
        (if cns = VF_ANS_ID_CNS_CTRL then ans_id_ctrl_data a else replicate 4096 0))
    \<and> vf_ans_write a VF_ANS_DB_BASE 4 v w = (OK, ans_post_admin_identify_cqe a1 c w1)"
proof -
  let ?a = "a\<lparr>ans_doorbell := (ans_doorbell a)[0 := v AND 0xffff]\<rparr>"
  let ?data = "if cns = VF_ANS_ID_CNS_CTRL then ans_id_ctrl_data a1 else ans_id_ns_data a1"
  have data: "?data = (if cns = VF_ANS_ID_CNS_CTRL then ans_id_ctrl_data a else replicate 4096 0)"
    by (simp add: ans_ns_data_zero)
      (simp add: a1_def ans_id_ctrl_data_def vf_ans_identify_cns_ctrl_def ans_clear_admin_identify_def)
  obtain w1 where w1: "w_mem w1 = (w_mem w)(b := splice (w_mem w b) 0 ?data)"
    "ans_try_admin_identify_on_doorbell ?a (ucast (ans_doorbell a ! 0 AND 0xffff)) w =
      ans_post_admin_identify_cqe a1 c (ans_write_identify_prp a1 (w_mem w1 b) prp1 w1)"
    using ans_try_posts [of ?a cns b c w "ucast (ans_doorbell a ! 0 AND 0xffff)" prp1] armed gates
    by (auto simp: a1_def)
  have "ans_write_identify_prp a1 (w_mem w1 b) prp1 w1 = w1"
    using prp by (simp add: ans_write_identify_prp_def a1_def)
  then have "vf_ans_write a VF_ANS_DB_BASE 4 v w = (OK, ans_post_admin_identify_cqe a1 c w1)"
    using bell armed(1) w1(2)
    by (simp add: ans_write_doorbell_off [of "0x1000" 4 0] ans_bounds_def ans_db_index_def
        vf_ans_write_doorbell_def Let_def)
  with w1(1) data show ?thesis by (intro exI [of _ w1]) simp
qed

text \<open>An armed Identify whose gates are open and whose queue slots check out completes on the
  first doorbell write of a new tail: the data buffer holds the Identify structure (controller
  fields, or the all-zero namespace stub), the completion carries the new submission head and the
  phase, is mirrored in the bound queue slot, the tail moves by one, the phase flips, the
  interrupt is raised, and the command is no longer armed.\<close>

theorem ans_identify_completes:
  fixes cns :: u8 and v :: u32
  assumes armed: "admin_id_armed a" "admin_id_opcode a = VF_ANS_OPC_IDENTIFY" "admin_id_cns a = cns"
      "cns = VF_ANS_ID_CNS_CTRL \<or> cns = VF_ANS_ID_CNS_NS" "admin_id_buf a = Some b" "admin_id_cq_buf a = Some c"
      "4096 \<le> admin_id_len a" "16 \<le> admin_id_cq_len a"
    and open_gates: "ans_dma_allowed a w" "ans_check_admin_acq_slot a"
      "ans_fetch_admin_asq_identify a w (ucast (ans_doorbell a ! 0 AND 0xffff)) VF_ANS_OPC_IDENTIFY cns = Some prp1"
    and bufs: "ans_buffers_ok a w" "b \<noteq> c" "admin_acq_mem a \<noteq> Some b" "admin_acq_mem a \<noteq> Some c"
      "admin_id_prp1_mem a = None"
    and bell: "ans_doorbell a \<noteq> []" "v AND 0xffff \<noteq> ans_doorbell a ! 0"
  defines "r \<equiv> vf_ans_write a VF_ANS_DB_BASE 4 v w"
  defines "a' \<equiv> fst (snd r)" and "w' \<equiv> snd (snd r)"
  shows "fst r = OK
    \<and> take 4096 (w_mem w' b) = (if cns = VF_ANS_ID_CNS_CTRL then ans_id_ctrl_data a else replicate 4096 0)
    \<and> get_le32 (drop 8 (w_mem w' c)) = v AND 0xffff
    \<and> get_le32 (drop 12 (w_mem w' c)) = (if bit (admin_cq_phase a) 0 then 0x10000 else 0)
    \<and> ans_peer (\<lambda>m. take 16 (drop (16 * unat (admin_cq_tail a)) (w_mem w' m)) = take 16 (w_mem w' c)) (admin_acq_mem a)
    \<and> admin_cq_tail a' = admin_cq_tail a + 1 \<and> admin_cq_phase a' = admin_cq_phase a XOR 1
    \<and> bit (ans_irq_status a') 0 \<and> \<not> vf_ans_admin_identify_armed a'"
proof -
  let ?a1 = "ans_clear_admin_identify (a\<lparr>ans_doorbell := (ans_doorbell a)[0 := v AND 0xffff]\<rparr>)"
  let ?data = "if cns = VF_ANS_ID_CNS_CTRL then ans_id_ctrl_data a else replicate 4096 0"
  obtain w1 where w1: "w_mem w1 = (w_mem w)(b := splice (w_mem w b) 0 ?data)"
    and r: "r = (OK, ans_post_admin_identify_cqe ?a1 c w1)"
    using ans_identify_run [OF armed open_gates bufs(5) bell(2)] by (auto simp: r_def)
  have l: "length (ans_cqe ?a1) = 16" "16 \<le> length (w_mem w c)" "4096 \<le> length (w_mem w b)"
    using bufs(1) armed by (simp_all add: ans_buffers_ok_def ans_peer_def)
  have mem: "w_mem w' = w_mem (ans_write_admin_acq_cqe ?a1 (ans_cqe ?a1) (mem_put c 0 (ans_cqe ?a1) w1))"
    by (simp add: w'_def r ans_post_admin_identify_cqe_def Let_def)
  have wc: "w_mem w' c = splice (w_mem w c) 0 (ans_cqe ?a1)" and wb: "w_mem w' b = splice (w_mem w b) 0 ?data"
    using bufs(2-4) by (simp_all add: mem ans_write_admin_acq_cqe_def mem_put_def w1 split: option.split)
  have acq: "ans_peer (\<lambda>m. take 16 (drop (16 * unat (admin_cq_tail a)) (w_mem w' m)) = ans_cqe ?a1) (admin_acq_mem a)"
    using bufs open_gates(2) splice_read_back [of _ _ "ans_cqe ?a1"]
    by (auto simp: mem ans_write_admin_acq_cqe_def mem_put_def w1 ans_peer_def ans_buffers_ok_def
        ans_check_admin_acq_slot_def mult.commute split: option.split if_splits)
  have c16: "take 16 (w_mem w' c) = ans_cqe ?a1"
    using l splice_read_back [of 0 "w_mem w c" "ans_cqe ?a1"] by (simp add: wc)
  have f: "get_le32 (drop k (w_mem w' c)) = get_le32 (drop k (ans_cqe ?a1))" if "k + 4 \<le> 16" for k
    using that l by (simp add: get_le32_def wc splice_def nth_append)
  have fields: "ans_doorbell ?a1 ! 0 = v AND 0xffff" "admin_cq_phase ?a1 = admin_cq_phase a" "admin_cq_tail ?a1 = admin_cq_tail a"
    using bell by (simp_all add: ans_clear_admin_identify_def)
  have "length ?data = 4096" by simp
  then have b4096: "take 4096 (w_mem w' b) = ?data" by (simp add: wb splice_def)
  have reg: "admin_cq_tail a' = admin_cq_tail a + 1" "admin_cq_phase a' = admin_cq_phase a XOR 1"
    "bit (ans_irq_status a') 0" "\<not> admin_id_armed a'"
    using fields(2,3) by (simp_all add: a'_def r ans_post_admin_identify_cqe_def Let_def bit_simps)
  show ?thesis
    using acq c16 reg by (simp add: b4096 f ans_cqe_fields fields vf_ans_admin_identify_armed_def r)
qed


lemma ans_demo_run:
  "\<exists>w1. w_mem w1 = (w_mem ans_demo_store)(0 := splice (w_mem ans_demo_store 0) 0 (ans_id_ctrl_data ans_demo))
     \<and> vf_ans_write ans_demo 0x1000 4 1 ans_demo_store =
        (OK, ans_post_admin_identify_cqe (ans_clear_admin_identify (ans_demo\<lparr>ans_doorbell := 1 # replicate 127 0\<rparr>)) 1 w1)"
proof -
  have "(replicate 128 0)[0 := 1 :: u32] = 1 # replicate 127 0" by (simp add: numeral_eq_Suc)
  then show ?thesis
    using ans_identify_run [of ans_demo 1 0 1 ans_demo_store 0 1]
    by (simp add: ans_demo_fields ans_demo_allowed ans_check_admin_acq_slot_def ans_fetch_admin_asq_identify_def)
qed

theorem ans_identify_completes_witness:
  "get_le32 (drop 516 (take 4096 (w_mem (snd (snd (vf_ans_write ans_demo 0x1000 4 1 ans_demo_store))) 0))) = 16
   \<and> get_le32 (drop 8 (w_mem (snd (snd (vf_ans_write ans_demo 0x1000 4 1 ans_demo_store))) 1)) = 1
   \<and> admin_cq_tail (fst (snd (vf_ans_write ans_demo 0x1000 4 1 ans_demo_store))) = 1"
  using ans_identify_completes [of ans_demo 1 0 1 ans_demo_store 0 1]
  by (simp add: ans_demo_fields ans_demo_allowed ans_demo_mem ans_check_admin_acq_slot_def
      ans_fetch_admin_asq_identify_def ans_buffers_ok_def ans_peer_def ans_data_fields)

text \<open>An Identify command that completes; and a controller with an unread completion that is unmasked, whose function sends
  the message 0x1234 to the last two bytes of a window of four.\<close>

definition msi_demo :: vf_ans_pci_v1 where
  "msi_demo = (snd (vf_ans_pci_init undefined))\<lparr>msi_enabled := True, msi_addr := 0x12, msi_data := 0x1234,
     msi_gpa_mem := Some [0, 0, 0, 0], msi_gpa_len := 4, msi_gpa_base := 0x10\<rparr>"

definition msi_demo_store :: ans_store where
  "msi_demo_store = ans_demo_store\<lparr>w_pci := (\<lambda>q. msi_demo)\<rparr>"

definition msi_demo_ans :: vf_ans_v1 where
  "msi_demo_ans = ans_demo\<lparr>ans_irq_status := 1, ans_intm := 1\<rparr>"

lemma msi_demo_window:
  "msi_gpa_mem (w_pci (snd (snd (vf_ans_write msi_demo_ans 0x10 4 1 msi_demo_store))) 0) = Some [0, 0, 0x34, 0x12]"
  by (simp add: vf_ans_write_def ans_bounds_def ans_db_index_def ans_sync_pci_irq_def msi_demo_ans_def ans_demo_fields
      msi_demo_store_def msi_demo_def ans_irq_level_def vf_ans_pci_init_def vf_ans_pci_set_irq_def
      ans_pci_try_msi_message_write_def ans_pci_message_done_def ans_pci_sync_aic_def Let_def)

theorem ans_dma_only_when_allowed_witness:
  "w_mem (snd (snd (vf_ans_write ans_demo 0x1000 4 1 ans_demo_store))) 1 \<noteq> w_mem ans_demo_store 1
   \<and> vf_ans_pci_bus_master_enabled (w_pci ans_demo_store 0) \<and> fst (vf_ans_autoboot_armed ans_demo_store 0)
   \<and> vf_ans_irq_check (fst (snd (vf_ans_write msi_demo_ans 0x10 4 1 msi_demo_store)))
   \<and> msi_message_stored msi_demo (w_pci (snd (snd (vf_ans_write msi_demo_ans 0x10 4 1 msi_demo_store))) 0)"
proof -
  obtain w1 where w1: "w_mem w1 = (w_mem ans_demo_store)(0 := splice (w_mem ans_demo_store 0) 0 (ans_id_ctrl_data ans_demo))"
    "vf_ans_write ans_demo 0x1000 4 1 ans_demo_store =
        (OK, ans_post_admin_identify_cqe (ans_clear_admin_identify (ans_demo\<lparr>ans_doorbell := 1 # replicate 127 0\<rparr>)) 1 w1)"
    using ans_demo_run by auto
  have cqe: "ans_cqe a ! 0 = 0" for a by (simp add: ans_cqe_def Let_def nth_splice)
  have "w_mem (snd (snd (vf_ans_write ans_demo 0x1000 4 1 ans_demo_store))) 1 ! 0 = 0"
    by (simp add: w1 ans_post_admin_identify_cqe_def Let_def ans_write_admin_acq_cqe_def ans_demo_fields mem_put_def
        ans_demo_mem nth_splice cqe)
  then have data: "w_mem (snd (snd (vf_ans_write ans_demo 0x1000 4 1 ans_demo_store))) 1 \<noteq> w_mem ans_demo_store 1"
    by (auto simp: ans_demo_mem)
  have pci: "w_pci msi_demo_store 0 = msi_demo" "msi_gpa_mem msi_demo = Some [0, 0, 0, 0]"
    by (simp_all add: msi_demo_store_def msi_demo_def)
  then have "msi_gpa_mem (w_pci (snd (snd (vf_ans_write msi_demo_ans 0x10 4 1 msi_demo_store))) 0)
      \<noteq> msi_gpa_mem (w_pci msi_demo_store 0)"
    unfolding msi_demo_window by simp
  then have "vf_ans_irq_check (fst (snd (vf_ans_write msi_demo_ans 0x10 4 1 msi_demo_store)))"
    "msi_message_stored msi_demo (w_pci (snd (snd (vf_ans_write msi_demo_ans 0x10 4 1 msi_demo_store))) 0)"
    using ans_dma_only_when_allowed [of msi_demo_ans "0x10" 4 1 msi_demo_store, unfolded case_prod_beta Let_def, THEN conjunct2,
      rule_format, of 0] pci(1) by simp_all
  moreover have "ans_identify_command ans_demo 0x1000 1 ans_demo_store"
    using ans_dma_only_when_allowed [of ans_demo "0x1000" 4 1 ans_demo_store] data unfolding case_prod_beta Let_def by blast
  ultimately show ?thesis using data by (simp add: ans_identify_command_def ans_demo_fields)
qed

section \<open>Reachable states\<close>

text \<open>The controller beside its store under everything that may happen to them: guest accesses to
  the controller, to any PCI function, mailbox, wrapper or autoboot page, and the host's binding
  and arming calls.\<close>

inductive ans_reachable :: "vf_ans_v1 \<Rightarrow> ans_store \<Rightarrow> bool" where
  init: "(\<And>q. pci_reachable (w_pci w q)) \<Longrightarrow> ans_reachable (snd (vf_ans_init a)) w"
| guest: "ans_reachable a w \<Longrightarrow> vf_ans_write a off width v w = (r, a', w') \<Longrightarrow> ans_reachable a' w'"
| pci: "ans_reachable a w \<Longrightarrow>
    ans_reachable a (w\<lparr>w_pci := (w_pci w)(q := snd (vf_ans_pci_write (w_pci w q) off width u))\<rparr>)"
| mbox: "ans_reachable a w \<Longrightarrow> ans_reachable a (snd (vf_ans_mbox_write w q off width u))"
| asc: "ans_reachable a w \<Longrightarrow> ans_reachable a (snd (vf_ascwrap_write w q off width u))"
| boot: "ans_reachable a w \<Longrightarrow> ans_reachable a (snd (vf_ans_autoboot_write w q off width u))"
| start: "ans_reachable a w \<Longrightarrow> ans_reachable a (snd (vf_ans_mbox_start w q))"
| bind: "ans_reachable a w \<Longrightarrow> vf_ans_bind_pci a p w = (a', w') \<Longrightarrow> ans_reachable a' w'"
| peers: "ans_reachable a w \<Longrightarrow>
    ans_reachable (vf_ans_bind_autoboot (vf_ans_bind_ascwrap (vf_ans_bind_mbox a p1) p2) p3) w"
| arm: "ans_reachable a w \<Longrightarrow> ans_reachable (snd (vf_ans_arm_admin_identify a opc cns buf len cq cqlen)) w"
| disarm: "ans_reachable a w \<Longrightarrow> ans_reachable (vf_ans_disarm_admin_identify a) w"
| asq: "ans_reachable a w \<Longrightarrow> ans_reachable (snd (vf_ans_bind_admin_asq a mem len)) w"
| acq: "ans_reachable a w \<Longrightarrow> ans_reachable (snd (vf_ans_bind_admin_acq a mem len)) w"
| prp1: "ans_reachable a w \<Longrightarrow> ans_reachable (snd (vf_ans_bind_identify_prp1 a mem len)) w"
| prp2: "ans_reachable a w \<Longrightarrow> ans_reachable (snd (vf_ans_bind_identify_prp2 a mem len)) w"


definition ans_inv :: "vf_ans_v1 \<Rightarrow> ans_store \<Rightarrow> bool" where
  "ans_inv a w \<longleftrightarrow> pcis_inv w \<and> ans_mirror a w \<and> ans_regs_inv a"

text \<open>Steps that keep every PCI function's invariant and level, and the controller's condition.\<close>

lemma ans_inv_frame:
  assumes "ans_inv a w" "ans_pci b = ans_pci a" "ans_irq_status b = ans_irq_status a" "ans_intm b = ans_intm a"
    "ans_regs_inv b = ans_regs_inv a"
    "\<And>q. pci_inv (w_pci w q) \<Longrightarrow> pci_inv (w_pci w' q)
      \<and> ans_pci_delivery_pending_level (w_pci w' q) = ans_pci_delivery_pending_level (w_pci w q)"
  shows "ans_inv b w'"
  using assms by (simp add: ans_inv_def pcis_inv_def ans_mirror_def vf_ans_pci_delivery_pending_def vf_ans_irq_check_def
      ans_irq_level_def)

lemma ans_peer_writes [simp]:
  fixes w :: ans_store
  shows "w_pci (snd (vf_ans_mbox_write w q off width u)) = w_pci w"
    "w_pci (snd (vf_ascwrap_write w q off width u)) = w_pci w"
    "w_pci (snd (vf_ans_autoboot_write w q off width u)) = w_pci w"
  by (simp_all add: vf_ans_mbox_write_def vf_ascwrap_write_def vf_ans_autoboot_write_def Let_def reconcile_mem
      mbox_put_def asc_put_def boot_put_def)

lemma ans_mbox_start_pci:
  fixes w :: ans_store
  assumes "pci_inv (w_pci w q)"
  shows "pci_inv (w_pci (snd (vf_ans_mbox_start w p)) q)
    \<and> ans_pci_delivery_pending_level (w_pci (snd (vf_ans_mbox_start w p)) q) = ans_pci_delivery_pending_level (w_pci w q)"
  using assms pci_bind_inv(1) [of "w_pci w q"]
  by (auto simp: vf_ans_mbox_start_def vf_ans_pci_enable_memory_bus_master_def Let_def mbox_put_def
      ans_pci_delivery_pending_level_def split: option.split)

lemma ans_inv_bind:
  assumes "ans_inv a w"
  shows "ans_inv (fst (vf_ans_bind_pci a p w)) (snd (vf_ans_bind_pci a p w))"
proof -
  define w1 where "w1 = (case ans_pci a of None \<Rightarrow> w
     | Some q \<Rightarrow> if p \<noteq> Some q then w\<lparr>w_pci := (w_pci w)(q := snd (vf_ans_pci_set_irq (w_pci w q) False))\<rparr> else w)"
  have "pcis_inv w1"
    using assms pcis_inv_set_irq [of w] by (auto simp: w1_def ans_inv_def pcis_inv_upd split: option.split)
  moreover have "ans_regs_inv (a\<lparr>ans_pci := p\<rparr>)"
    using assms by (simp add: ans_inv_def ans_regs_inv_def ans_sparse_inv_def)
  ultimately show ?thesis
    by (simp add: vf_ans_bind_pci_def Let_def w1_def [symmetric] ans_inv_def pcis_inv_sync)
      (simp add: ans_mirror_def)
qed

lemma ans_host_frame:
  assumes "ans_inv a w"
  shows "ans_inv (vf_ans_bind_autoboot (vf_ans_bind_ascwrap (vf_ans_bind_mbox a p1) p2) p3) w"
    and "ans_inv (snd (vf_ans_arm_admin_identify a opc cns buf len cq cqlen)) w"
    and "ans_inv (vf_ans_disarm_admin_identify a) w" and "ans_inv (snd (vf_ans_bind_admin_asq a mem mlen)) w"
    and "ans_inv (snd (vf_ans_bind_admin_acq a mem mlen)) w"
    and "ans_inv (snd (vf_ans_bind_identify_prp1 a mem mlen)) w"
    and "ans_inv (snd (vf_ans_bind_identify_prp2 a mem mlen)) w"
proof -
  have "ans_inv b w" if "ans_pci b = ans_pci a" "ans_irq_status b = ans_irq_status a" "ans_intm b = ans_intm a"
    "vendor_sparse b = vendor_sparse a" "vendor_sparse_used b = vendor_sparse_used a" "ans_doorbell b = ans_doorbell a"
    "ans_csts b = ans_csts a" "ans_cc b = ans_cc a" for b
    using ans_inv_frame [OF assms, of b w] ans_regs_cong [of b a] that by simp
  note keep = this
  show "ans_inv (vf_ans_bind_autoboot (vf_ans_bind_ascwrap (vf_ans_bind_mbox a p1) p2) p3) w"
    by (rule keep) (simp_all add: vf_ans_bind_mbox_def vf_ans_bind_ascwrap_def vf_ans_bind_autoboot_def)
  show "ans_inv (snd (vf_ans_arm_admin_identify a opc cns buf len cq cqlen)) w"
    by (rule keep) (simp_all add: vf_ans_arm_admin_identify_def)
  show "ans_inv (vf_ans_disarm_admin_identify a) w"
    by (rule keep) (simp_all add: vf_ans_disarm_admin_identify_def ans_clear_admin_identify_def)
  show "ans_inv (snd (vf_ans_bind_admin_asq a mem mlen)) w" "ans_inv (snd (vf_ans_bind_admin_acq a mem mlen)) w"
    "ans_inv (snd (vf_ans_bind_identify_prp1 a mem mlen)) w" "ans_inv (snd (vf_ans_bind_identify_prp2 a mem mlen)) w"
    by (rule keep; simp add: vf_ans_bind_admin_asq_def vf_ans_bind_admin_acq_def vf_ans_bind_identify_prp1_def
        vf_ans_bind_identify_prp2_def)+
qed

lemma ans_inv_init:
  assumes "\<And>q. pci_reachable (w_pci w q)"
  shows "ans_inv (snd (vf_ans_init a)) w"
  using pci_reachable_inv [OF assms]
  by (simp add: ans_inv_def pcis_inv_def ans_mirror_def vf_ans_init_def ans_regs_inv_def ans_sparse_inv_def
      ans_clear_admin_identify_def)

lemma ans_reachable_inv: "ans_reachable a w \<Longrightarrow> ans_inv a w"
proof (induction rule: ans_reachable.induct)
  case (init w a)
  then show ?case by (rule ans_inv_init)
next
  case (guest a w off width v r a' w')
  then show ?case
    using pcis_inv_write [of w a off width v] ans_write_mirror [of a w off width v] ans_regs_write [of a off width v w]
    by (simp add: ans_inv_def)
next
  case (pci a w q off width u)
  from pci.IH show ?case by (rule ans_inv_frame) (auto simp: pci_inv_write pci_write_level)
next
  case (start a w q)
  from start.IH show ?case by (rule ans_inv_frame) (simp_all add: ans_mbox_start_pci)
next
  case (bind a w p a' w')
  then show ?case using ans_inv_bind [of a w p] by simp
next
  case (mbox a w q off width u)
  from mbox.IH show ?case by (rule ans_inv_frame) simp_all
next
  case (asc a w q off width u)
  from asc.IH show ?case by (rule ans_inv_frame) simp_all
next
  case (boot a w q off width u)
  from boot.IH show ?case by (rule ans_inv_frame) simp_all
qed (simp_all only: ans_host_frame)

text \<open>In every reachable state of controller, PCI functions and readiness chain: the PCI
  function bound to the controller has its delivery level equal to the controller's interrupt
  condition, whatever the guest did to either side or in which order the host bound them; and
  the ready bit of CSTS equals the enable bit of CC.\<close>

theorem ans_irq_mirrored:
  assumes "ans_reachable a w"
  shows "(\<forall>q. ans_pci a = Some q \<longrightarrow> vf_ans_pci_delivery_pending (w_pci w q) = vf_ans_irq_check a)
    \<and> (\<exists>cc csts. vf_ans_read a VF_ANS_REG_CC 4 = Some cc \<and> vf_ans_read a VF_ANS_REG_CSTS 4 = Some csts
        \<and> bit csts 0 = bit cc 0)"
  using ans_reachable_inv [OF assms]
  by (simp add: ans_inv_def ans_mirror_def ans_regs_inv_def vf_ans_read_def ans_bounds_def ans_db_index_def)


lemma ans_demo_pci: "pci_reachable (w_pci ans_demo_store q)"
proof -
  have "w_pci ans_demo_store q = snd (vf_ans_pci_enable_memory_bus_master pci_boot)"
    by (simp add: ans_demo_store_def boot_store.defs chain_demo_def vf_ans_pci_enable_memory_bus_master_def pci_boot_def
        vf_ans_pci_init_def)
  then show ?thesis by (simp add: pci_reachable.master pci_boot_reachable)
qed

theorem ans_irq_mirrored_witness:
  "vf_ans_pci_delivery_pending (w_pci (snd (vf_ans_bind_pci (snd (vf_ans_init undefined)) (Some 0) ans_demo_store)) 0) =
     vf_ans_irq_check (fst (vf_ans_bind_pci (snd (vf_ans_init undefined)) (Some 0) ans_demo_store))"
proof -
  have "ans_pci (fst (vf_ans_bind_pci a (Some 0) w)) = Some 0" for a w
    by (simp add: vf_ans_bind_pci_def Let_def)
  then show ?thesis
    using ans_irq_mirrored [OF ans_reachable.bind [OF ans_reachable.init [OF ans_demo_pci, of undefined], of "Some 0"]]
    by (metis prod.collapse)
qed

definition ans_vendor_off :: "nat \<Rightarrow> bool" where
  "ans_vendor_off off \<longleftrightarrow> off mod 4 = 0 \<and> VF_ANS_NVME_ALIAS_SIZE \<le> off \<and> off < VF_ANS_VENDOR_SIZE
     \<and> off \<notin> {VF_ANS_REG_MAX_PEND, VF_ANS_REG_BOOT_STATUS, VF_ANS_REG_MODESEL, VF_ANS_REG_BASE_CMD_ID, VF_ANS_REG_LINEAR_SQ}"

lemma ans_vendor_access:
  assumes "ans_vendor_off off"
  shows "vf_ans_read a off 4 = Some (ans_sparse_load a off)"
    and "vf_ans_write a off 4 v w = (case ans_sparse_store a off v of (c, a1) \<Rightarrow> (c, a1, w))"
proof -
  have o: "ans_bounds off 4" "ans_db_index off = None" "0x1200 \<le> off" using assms
    by (auto simp: ans_vendor_off_def ans_bounds_def ans_db_index_def)
  have ne: "off \<noteq> VF_ANS_REG_MODESEL" "off \<noteq> VF_ANS_REG_BASE_CMD_ID" "off \<noteq> VF_ANS_REG_LINEAR_SQ"
    "off \<noteq> VF_ANS_REG_MAX_PEND" "off \<noteq> VF_ANS_REG_BOOT_STATUS"
    "off \<noteq> VF_ANS_REG_CAP_LO" "off \<noteq> VF_ANS_REG_CAP_HI" "off \<noteq> VF_ANS_REG_VS" "off \<noteq> VF_ANS_REG_INTMS"
    "off \<noteq> VF_ANS_REG_INTMC" "off \<noteq> VF_ANS_REG_CC" "off \<noteq> VF_ANS_REG_CSTS" "off \<noteq> VF_ANS_REG_AQA"
    "off \<noteq> VF_ANS_REG_ASQ_LO" "off \<noteq> VF_ANS_REG_ASQ_HI" "off \<noteq> VF_ANS_REG_ACQ_LO" "off \<noteq> VF_ANS_REG_ACQ_HI"
    using assms o(3) by (auto simp: ans_vendor_off_def)
  show "vf_ans_read a off 4 = Some (ans_sparse_load a off)"
    by (simp only: vf_ans_read_def o ne option.case simp_thms if_True if_False)
  show "vf_ans_write a off 4 v w = (case ans_sparse_store a off v of (c, a1) \<Rightarrow> (c, a1, w))"
    by (simp only: vf_ans_write_def o ne option.case simp_thms if_True if_False)
qed

text \<open>In every reachable state the vendor registers (offsets from 0x1200 that no other
  register of the controller claims) are a finite map: a write to one of them succeeds unless 48
  other offsets are already stored, is read back, and leaves every other such register as it was;
  a refused write changes nothing.\<close>

theorem ans_vendor_registers_map:
  assumes "ans_reachable a w" "ans_vendor_off off"
  shows "case vf_ans_write a off 4 v w of
      (OK, a', w') \<Rightarrow> w' = w \<and> vf_ans_read a' off 4 = Some v
        \<and> (\<forall>off'. ans_vendor_off off' \<and> off' \<noteq> off \<longrightarrow> vf_ans_read a' off' 4 = vf_ans_read a off' 4)
    | (ERR, a', w') \<Rightarrow> a' = a \<and> w' = w \<and> card (dom (ans_sparse_map a)) = VF_ANS_VENDOR_SPARSE_CAP
        \<and> ans_sparse_map a off = None"
proof -
  have inv: "ans_sparse_inv a"
    using ans_reachable_inv [OF assms(1)] by (simp add: ans_inv_def ans_regs_inv_def)
  have load: "ans_sparse_load b k = (case ans_sparse_map b k of Some u \<Rightarrow> u | None \<Rightarrow> 0)" for b k
    by (simp add: ans_sparse_load_def ans_sparse_map_def split: option.split)
  have card: "card (dom (ans_sparse_map a)) \<le> 48"
    using inv by (simp add: sparse_map_dom ans_sparse_inv_def)
  show ?thesis
  proof (cases "ans_sparse_map a off = None \<and> card (dom (ans_sparse_map a)) = 48")
    case True
    with ans_sparse_store_refines(1) [OF inv, of off v] show ?thesis
      by (simp add: ans_vendor_access [OF assms(2)])
  next
    case False
    then have "ans_sparse_map a off \<noteq> None \<or> card (dom (ans_sparse_map a)) < 48" using card by auto
    from ans_sparse_store_refines(2) [OF inv this, of v] ans_sparse_store_refines(1) [OF inv, of off v] False
    obtain a' where a': "ans_sparse_store a off v = (OK, a')" "ans_sparse_map a' = (ans_sparse_map a)(off \<mapsto> v)"
      by (metis snd_conv)
    then show ?thesis
      using ans_vendor_access(1) by (simp add: ans_vendor_access [OF assms(2)] load)
  qed
qed

theorem ans_vendor_registers_map_witness:
  "vf_ans_read (fst (snd (vf_ans_write (snd (vf_ans_init undefined)) 0x2000 4 7 ans_demo_store))) 0x2000 4 = Some 7"
  using ans_vendor_registers_map [OF ans_reachable.init [OF ans_demo_pci, of undefined], of "0x2000" 7]
  by (simp add: ans_vendor_off_def vf_ans_init_def vf_ans_write_def ans_bounds_def ans_db_index_def
      ans_sparse_store_def ans_sparse_find_def ans_clear_admin_identify_def)

end
