(* ===== verification/Recovery.thy ===== *)
theory Recovery
  imports Prelude
begin

text \<open>
  The recovery envelope, \<open>src/devices/recovery_v1.c\<close>: a framed transport with a CRC-32 and a
  sequence number. The buffers of \<open>vf_recovery_encode\<close> and \<open>vf_recovery_ingest\<close> are optional byte
  lists (\<open>None\<close> is the null pointer) whose length is the capacity passed by the caller.

  Shown: the frames that are accepted are exactly the encodings of a payload under the expected
  sequence number; accepted frames are numbered consecutively (modulo the width of the counter)
  whatever arrives in between, and no frame ever sets the verified flag; damage to a single payload
  byte is always detected.
\<close>

section \<open>State and results\<close>

abbreviation (input) VF_RECOVERY_MAX_PAYLOAD :: nat where "VF_RECOVERY_MAX_PAYLOAD \<equiv> 1024"
abbreviation (input) VF_RECOVERY_HEADER_BYTES :: nat where "VF_RECOVERY_HEADER_BYTES \<equiv> 20"
abbreviation (input) VF_RECOVERY_MAGIC :: u32 where "VF_RECOVERY_MAGIC \<equiv> 0x31524656"
abbreviation (input) VF_RECOVERY_MMIO_STATUS :: nat where "VF_RECOVERY_MMIO_STATUS \<equiv> 0x000"
abbreviation (input) VF_RECOVERY_MMIO_LAST_SEQUENCE :: nat where "VF_RECOVERY_MMIO_LAST_SEQUENCE \<equiv> 0x004"
abbreviation (input) VF_RECOVERY_MMIO_PAYLOAD_LEN :: nat where "VF_RECOVERY_MMIO_PAYLOAD_LEN \<equiv> 0x008"
abbreviation (input) VF_RECOVERY_STATUS_READY :: u64 where "VF_RECOVERY_STATUS_READY \<equiv> push_bit 0 1"
abbreviation (input) VF_RECOVERY_STATUS_SIGNATURE_VERIFIED :: u64 where
  "VF_RECOVERY_STATUS_SIGNATURE_VERIFIED \<equiv> push_bit 1 1"

text \<open>The negative result codes of the header.\<close>

datatype recovery_error = ERR_SHORT_FRAME | ERR_BAD_MAGIC | ERR_BAD_LENGTH | ERR_BAD_CHECKSUM | ERR_SEQUENCE
  | ERR_PAYLOAD_LARGE | ERR_OUTPUT_SMALL

record vf_recovery_v1 =
  expected_sequence :: u32
  last_sequence :: u32
  rec_flags :: u32
  rec_payload :: "u8 list"
  rec_payload_len :: u32
  rec_ready :: bool
  signature_verified :: bool

section \<open>Operations\<close>

definition recovery_read_u32_le :: "u8 list \<Rightarrow> u32" where
  "recovery_read_u32_le p = ucast (p ! 0) OR push_bit 8 (ucast (p ! 1)) OR push_bit 16 (ucast (p ! 2))
     OR push_bit 24 (ucast (p ! 3))"

definition recovery_put_u32_le :: "u32 \<Rightarrow> u8 list" where
  "recovery_put_u32_le v = [ucast (v AND 0xff), ucast (drop_bit 8 v AND 0xff), ucast (drop_bit 16 v AND 0xff),
     ucast (drop_bit 24 v AND 0xff)]"

definition recovery_crc_bit :: "u32 \<Rightarrow> u32" where
  "recovery_crc_bit crc = (let m = 0 - (crc AND 1) in drop_bit 1 crc XOR (0xedb88320 AND m))"

definition recovery_crc_byte :: "u32 \<Rightarrow> u8 \<Rightarrow> u32" where
  "recovery_crc_byte crc b = (recovery_crc_bit ^^ 8) (crc XOR ucast b)"

definition recovery_crc32 :: "u8 list \<Rightarrow> u32" where
  "recovery_crc32 bytes = NOT (foldl recovery_crc_byte 0xffffffff bytes)"

definition vf_recovery_init :: "vf_recovery_v1 \<Rightarrow> rc \<times> vf_recovery_v1" where
  "vf_recovery_init r = (OK, \<lparr>expected_sequence = 0, last_sequence = 0, rec_flags = 0,
     rec_payload = replicate VF_RECOVERY_MAX_PAYLOAD 0, rec_payload_len = 0, rec_ready = False,
     signature_verified = False\<rparr>)"

text \<open>\<open>Inr (output', out_len)\<close>: the output buffer after the call and the frame's length.\<close>

definition vf_recovery_encode ::
  "u32 \<Rightarrow> u32 \<Rightarrow> u8 list option \<Rightarrow> nat \<Rightarrow> u8 list option \<Rightarrow> recovery_error + u8 list \<times> nat" where
  "vf_recovery_encode seq fl payload payload_len output =
     (case output of
        None \<Rightarrow> Inl ERR_OUTPUT_SMALL
      | Some out \<Rightarrow>
          if payload_len > VF_RECOVERY_MAX_PAYLOAD then Inl ERR_PAYLOAD_LARGE
          else if payload_len > 0 \<and> payload = None then Inl ERR_SHORT_FRAME
          else
            let total = VF_RECOVERY_HEADER_BYTES + payload_len;
                bytes = (case payload of None \<Rightarrow> [] | Some p \<Rightarrow> take payload_len p) in
            if length out < total then Inl ERR_OUTPUT_SMALL
            else
              let o0 = splice out 0 (recovery_put_u32_le VF_RECOVERY_MAGIC);
                  o4 = splice o0 4 (recovery_put_u32_le seq);
                  o8 = splice o4 8 (recovery_put_u32_le fl);
                  o12 = splice o8 12 (recovery_put_u32_le (of_nat payload_len));
                  o16 = splice o12 16 (recovery_put_u32_le (recovery_crc32 bytes));
                  o20 = (if payload_len > 0 then splice o16 VF_RECOVERY_HEADER_BYTES bytes else o16) in
              Inr (o20, total))"

definition vf_recovery_ingest ::
  "vf_recovery_v1 \<Rightarrow> u8 list option \<Rightarrow> recovery_error option \<times> vf_recovery_v1" where
  "vf_recovery_ingest r frame =
     (case frame of
        None \<Rightarrow> (Some ERR_SHORT_FRAME, r)
      | Some fr \<Rightarrow>
          if length fr < VF_RECOVERY_HEADER_BYTES then (Some ERR_SHORT_FRAME, r)
          else if recovery_read_u32_le fr \<noteq> VF_RECOVERY_MAGIC then (Some ERR_BAD_MAGIC, r)
          else
            let seq = recovery_read_u32_le (drop 4 fr);
                fl = recovery_read_u32_le (drop 8 fr);
                len32 = recovery_read_u32_le (drop 12 fr) in
            if unat len32 > VF_RECOVERY_MAX_PAYLOAD then (Some ERR_PAYLOAD_LARGE, r)
            else
              let payload_len = unat len32;
                  total = VF_RECOVERY_HEADER_BYTES + payload_len in
              if length fr \<noteq> total then (Some ERR_BAD_LENGTH, r)
              else
                let payload = take payload_len (drop VF_RECOVERY_HEADER_BYTES fr) in
                if recovery_read_u32_le (drop 16 fr) \<noteq> recovery_crc32 payload then (Some ERR_BAD_CHECKSUM, r)
                else if seq \<noteq> expected_sequence r then (Some ERR_SEQUENCE, r)
                else (None, r\<lparr>rec_payload := (if payload_len > 0 then splice (rec_payload r) 0 payload else rec_payload r),
                        rec_payload_len := len32, rec_flags := fl, last_sequence := seq,
                        expected_sequence := expected_sequence r + 1, rec_ready := True,
                        signature_verified := False\<rparr>))"

definition vf_recovery_clear_ready :: "vf_recovery_v1 \<Rightarrow> rc \<times> vf_recovery_v1" where
  "vf_recovery_clear_ready r = (OK, r\<lparr>rec_ready := False\<rparr>)"

definition vf_recovery_irq_pending :: "vf_recovery_v1 \<Rightarrow> bool" where
  "vf_recovery_irq_pending r = rec_ready r"

text \<open>The payload buffer and the length written to \<open>*len_out\<close>; the caller reads that many bytes.\<close>

definition vf_recovery_payload :: "vf_recovery_v1 \<Rightarrow> u8 list \<times> nat" where
  "vf_recovery_payload r = (rec_payload r, unat (rec_payload_len r))"

definition vf_recovery_read :: "vf_recovery_v1 \<Rightarrow> nat \<Rightarrow> nat \<Rightarrow> u64 option \<times> vf_recovery_v1" where
  "vf_recovery_read r off width =
     (if width \<noteq> 32 then (None, r)
      else if off = VF_RECOVERY_MMIO_STATUS then
        (Some ((if rec_ready r then VF_RECOVERY_STATUS_READY else 0) OR
               (if signature_verified r then VF_RECOVERY_STATUS_SIGNATURE_VERIFIED else 0)), r)
      else if off = VF_RECOVERY_MMIO_LAST_SEQUENCE then (Some (ucast (last_sequence r)), r)
      else if off = VF_RECOVERY_MMIO_PAYLOAD_LEN then (Some (ucast (rec_payload_len r)), r)
      else (None, r))"

definition vf_recovery_write :: "vf_recovery_v1 \<Rightarrow> nat \<Rightarrow> nat \<Rightarrow> u64 \<Rightarrow> rc \<times> vf_recovery_v1" where
  "vf_recovery_write r off width v = (ERR, r)"

section \<open>The checksum\<close>

lemma recovery_codec [simp]:
  "recovery_read_u32_le = get_le32" "recovery_put_u32_le = put_le32"
  by (simp_all add: fun_eq_iff recovery_read_u32_le_def get_le32_def recovery_put_u32_le_def put_le32_def
      ucast_u8_mask)

lemma xor_left_cancel: "a XOR b = a XOR c \<Longrightarrow> b = (c :: 'a::len word)"
  by (metis xor.assoc xor_self_eq xor.left_neutral)

lemma crc_bit_cases:
  "recovery_crc_bit c = (if odd c then drop_bit 1 c XOR 0xedb88320 else drop_bit 1 c)"
proof (cases "odd c")
  case True
  then have "c AND 1 = 1" by (simp add: and_one_eq odd_iff_mod_2_eq_one)
  with True show ?thesis by (simp add: recovery_crc_bit_def Let_def)
next
  case False
  then have "c AND 1 = 0" by (simp add: and_one_eq even_iff_mod_2_eq_zero)
  with False show ?thesis by (simp add: recovery_crc_bit_def Let_def)
qed

text \<open>One step is injective: the top bit of the result is the bit that was shifted out.\<close>

lemma crc_bit_top: "bit (recovery_crc_bit c) 31 = odd c"
proof -
  have "bit (0xedb88320 :: u32) 31" by (simp add: bit_iff_odd)
  moreover have "\<not> bit (drop_bit 1 c) 31" using bit_imp_le_length [of c 32] by (auto simp: bit_drop_bit_eq)
  ultimately show ?thesis by (simp add: crc_bit_cases bit_xor_iff)
qed

lemma crc_bit_inj: "recovery_crc_bit c = recovery_crc_bit d \<Longrightarrow> c = d"
proof -
  assume eq: "recovery_crc_bit c = recovery_crc_bit d"
  then have par: "odd c = odd d" using crc_bit_top [of c] crc_bit_top [of d] by simp
  have "drop_bit 1 c = drop_bit 1 d"
  proof (cases "odd c")
    case True
    then have "drop_bit 1 c XOR 0xedb88320 = drop_bit 1 d XOR 0xedb88320"
      using eq par by (simp add: crc_bit_cases)
    then show ?thesis by (metis xor.commute xor_left_cancel)
  next
    case False
    then show ?thesis using eq par by (simp add: crc_bit_cases)
  qed
  then have "bit c (Suc n) = bit d (Suc n)" for n
    by (metis bit_drop_bit_eq o_apply plus_1_eq_Suc)
  with par show "c = d"
    by (intro bit_word_eqI) (metis bit_0 not0_implies_Suc)
qed

lemma crc_bits_inj: "(recovery_crc_bit ^^ n) c = (recovery_crc_bit ^^ n) d \<Longrightarrow> c = d"
  by (induction n arbitrary: c d) (auto dest: crc_bit_inj)

lemma crc_byte_inj_crc: "recovery_crc_byte c b = recovery_crc_byte d b \<Longrightarrow> c = d"
  unfolding recovery_crc_byte_def by (drule crc_bits_inj) (metis xor.commute xor_left_cancel)

lemma crc_byte_inj_byte: "recovery_crc_byte c b = recovery_crc_byte c b' \<Longrightarrow> b = b'"
proof -
  assume "recovery_crc_byte c b = recovery_crc_byte c b'"
  then have "c XOR ucast b = c XOR ucast b'" unfolding recovery_crc_byte_def by (rule crc_bits_inj)
  then have "ucast b = (ucast b' :: u32)" by (rule xor_left_cancel)
  moreover have "ucast (ucast x :: u32) = x" for x :: u8 by (rule bit_word_eqI) (simp add: bit_simps)
  ultimately show "b = b'" by metis
qed

lemma crc_fold_inj: "foldl recovery_crc_byte c bs = foldl recovery_crc_byte d bs \<Longrightarrow> c = d"
  by (induction bs arbitrary: c d) (auto dest: crc_byte_inj_crc)

lemma crc32_one_byte: "b \<noteq> b' \<Longrightarrow> recovery_crc32 (xs @ b # ys) \<noteq> recovery_crc32 (xs @ b' # ys)"
proof
  assume "recovery_crc32 (xs @ b # ys) = recovery_crc32 (xs @ b' # ys)"
  then have "NOT (NOT (foldl recovery_crc_byte 0xffffffff (xs @ b # ys))) =
      NOT (NOT (foldl recovery_crc_byte 0xffffffff (xs @ b' # ys)))" unfolding recovery_crc32_def by (rule arg_cong)
  then have "foldl recovery_crc_byte (recovery_crc_byte (foldl recovery_crc_byte 0xffffffff xs) b) ys =
      foldl recovery_crc_byte (recovery_crc_byte (foldl recovery_crc_byte 0xffffffff xs) b') ys"
    by simp
  then have "b = b'" by (rule crc_byte_inj_byte [OF crc_fold_inj])
  moreover assume "b \<noteq> b'"
  ultimately show False by simp
qed

section \<open>Frames\<close>

definition recovery_frame :: "u32 \<Rightarrow> u32 \<Rightarrow> u8 list \<Rightarrow> u8 list" where
  "recovery_frame seq fl p = put_le32 VF_RECOVERY_MAGIC @ put_le32 seq @ put_le32 fl @ put_le32 (of_nat (length p))
     @ put_le32 (recovery_crc32 p) @ p"

lemma length_recovery_frame [simp]: "length (recovery_frame seq fl p) = 20 + length p"
  by (simp add: recovery_frame_def)

lemma recovery_encode_frame:
  assumes "length p \<le> 1024" "20 + length p \<le> length out"
  shows "vf_recovery_encode seq fl (Some p) (length p) (Some out) =
    Inr (splice out 0 (recovery_frame seq fl p), 20 + length p)"
  using assms by (simp add: vf_recovery_encode_def Let_def splice_append recovery_frame_def)

lemma recovery_encode_cases:
  assumes "vf_recovery_encode seq fl (Some p) (length p) (Some out) = Inr (out', n)"
  shows "length p \<le> 1024 \<and> 20 + length p \<le> length out \<and> n = 20 + length p
    \<and> out' = splice out 0 (recovery_frame seq fl p)"
proof -
  have c: "length p \<le> 1024" "20 + length p \<le> length out"
    using assms by (simp_all add: vf_recovery_encode_def Let_def split: if_splits)
  with recovery_encode_frame [OF c] assms show ?thesis by simp
qed

lemma recovery_frame_fields [simp]:
  "get_le32 (recovery_frame seq fl p) = VF_RECOVERY_MAGIC" "get_le32 (drop 4 (recovery_frame seq fl p)) = seq"
  "get_le32 (drop 8 (recovery_frame seq fl p)) = fl" "get_le32 (drop 12 (recovery_frame seq fl p)) = of_nat (length p)"
  "get_le32 (drop 16 (recovery_frame seq fl p)) = recovery_crc32 p" "drop 20 (recovery_frame seq fl p) = p"
  by (simp_all add: recovery_frame_def)

lemma frame_length_word: "n \<le> 1024 \<Longrightarrow> unat (of_nat n :: u32) = n"
  by (simp add: unat_of_nat take_bit_eq_mod)

definition recovery_accept :: "u32 \<Rightarrow> u8 list \<Rightarrow> vf_recovery_v1 \<Rightarrow> vf_recovery_v1" where
  "recovery_accept fl p r = r\<lparr>rec_payload := splice (rec_payload r) 0 p, rec_payload_len := of_nat (length p),
     rec_flags := fl, last_sequence := expected_sequence r, expected_sequence := expected_sequence r + 1,
     rec_ready := True, signature_verified := False\<rparr>"

lemma splice_nil [simp]: "off \<le> length xs \<Longrightarrow> splice xs off [] = xs"
  by (simp add: splice_def)

lemma recovery_ingest_frame:
  assumes "length p \<le> 1024"
  shows "vf_recovery_ingest r (Some (recovery_frame seq fl p)) =
    (if seq = expected_sequence r then (None, recovery_accept fl p r) else (Some ERR_SEQUENCE, r))"
  using assms by (simp add: vf_recovery_ingest_def Let_def frame_length_word recovery_accept_def)

text \<open>Every other frame is refused, and a refused frame changes nothing.\<close>

lemma frame_word: "k + 4 \<le> length fr \<Longrightarrow> take 4 (drop k fr) = put_le32 (get_le32 (drop k fr))"
  using put_get_le32 [of "take 4 (drop k fr)"] by (simp add: get_le32_def)

lemma recovery_ingest_cases:
  obtains (refused) e where "vf_recovery_ingest r (Some fr) = (Some e, r)"
  | (accepted) fl p where "length p \<le> 1024" "fr = recovery_frame (expected_sequence r) fl p"
      "vf_recovery_ingest r (Some fr) = (None, recovery_accept fl p r)"
proof (cases "20 \<le> length fr \<and> get_le32 fr = VF_RECOVERY_MAGIC \<and> unat (get_le32 (drop 12 fr)) \<le> 1024
    \<and> length fr = 20 + unat (get_le32 (drop 12 fr)) \<and> get_le32 (drop 16 fr) = recovery_crc32 (drop 20 fr)
    \<and> get_le32 (drop 4 fr) = expected_sequence r")
  case True
  let ?p = "drop 20 fr"
  from True have T: "20 \<le> length fr" "get_le32 fr = VF_RECOVERY_MAGIC" "unat (get_le32 (drop 12 fr)) \<le> 1024"
    "length fr = 20 + unat (get_le32 (drop 12 fr))" "get_le32 (drop 16 fr) = recovery_crc32 ?p"
    "get_le32 (drop 4 fr) = expected_sequence r" by blast+
  have len: "length ?p = unat (get_le32 (drop 12 fr))" using T(4) by (metis add_diff_cancel_left' length_drop)
  have w: "of_nat (length ?p) = get_le32 (drop 12 fr)" unfolding len by simp
  have words: "take 4 fr = put_le32 VF_RECOVERY_MAGIC" "take 4 (drop 4 fr) = put_le32 (expected_sequence r)"
    "take 4 (drop 8 fr) = put_le32 (get_le32 (drop 8 fr))" "take 4 (drop 12 fr) = put_le32 (get_le32 (drop 12 fr))"
    "take 4 (drop 16 fr) = put_le32 (recovery_crc32 ?p)"
    using T(1) frame_word [of 0 fr] frame_word [of 4 fr] frame_word [of 8 fr] frame_word [of 12 fr] frame_word [of 16 fr]
    by (simp_all add: T(2,5,6))
  have "fr = take 4 fr @ take 4 (drop 4 fr) @ take 4 (drop 8 fr) @ take 4 (drop 12 fr) @ take 4 (drop 16 fr) @ drop 20 fr"
    using append_take_drop_id [of 4 "drop 16 fr"] append_take_drop_id [of 4 "drop 12 fr"]
      append_take_drop_id [of 4 "drop 8 fr"] append_take_drop_id [of 4 "drop 4 fr"] append_take_drop_id [of 4 fr]
    by (simp del: append_take_drop_id)
  also have "\<dots> = recovery_frame (expected_sequence r) (get_le32 (drop 8 fr)) ?p"
    unfolding recovery_frame_def w by (simp only: words)
  finally have fr: "fr = recovery_frame (expected_sequence r) (get_le32 (drop 8 fr)) ?p" .
  have "length ?p \<le> 1024" unfolding len by (rule T(3))
  moreover from recovery_ingest_frame [OF this, of r "expected_sequence r" "get_le32 (drop 8 fr)"]
  have "vf_recovery_ingest r (Some fr) = (None, recovery_accept (get_le32 (drop 8 fr)) ?p r)"
    unfolding fr [symmetric] by simp
  ultimately show thesis using fr by (intro accepted)
next
  case False
  define Q :: "recovery_error option \<times> vf_recovery_v1 \<Rightarrow> bool" where "Q x \<longleftrightarrow> fst x \<noteq> None \<and> snd x = r" for x
  have I: "(b \<Longrightarrow> Q x) \<Longrightarrow> (\<not> b \<Longrightarrow> Q y) \<Longrightarrow> Q (if b then x else y)" for b x y by simp
  have E: "Q (Some e, r)" for e by (simp add: Q_def)
  have F: "Q y" if "\<not> length fr < 20" "\<not> get_le32 fr \<noteq> VF_RECOVERY_MAGIC" "\<not> 1024 < unat (get_le32 (drop 12 fr))"
    "\<not> length fr \<noteq> 20 + unat (get_le32 (drop 12 fr))"
    "\<not> get_le32 (drop 16 fr) \<noteq> recovery_crc32 (take (unat (get_le32 (drop 12 fr))) (drop 20 fr))"
    "\<not> get_le32 (drop 4 fr) \<noteq> expected_sequence r" for y
  proof -
    have "take (unat (get_le32 (drop 12 fr))) (drop 20 fr) = drop 20 fr"
      using that(4) by (metis add_diff_cancel_left' length_drop order_refl take_all)
    with that False show ?thesis by (metis not_less)
  qed
  have "Q (vf_recovery_ingest r (Some fr))"
    unfolding vf_recovery_ingest_def Let_def recovery_codec option.case
    by (intro I E) (rule F)
  then show thesis
    by (intro refused [of "the (fst (vf_recovery_ingest r (Some fr)))"]) (auto simp: prod_eq_iff Q_def)
qed

section \<open>Event sequences\<close>

datatype recovery_event = Frame "u8 list option" | ClearReady

fun recovery_apply :: "vf_recovery_v1 \<Rightarrow> recovery_event \<Rightarrow> vf_recovery_v1" where
  "recovery_apply r (Frame fr) = snd (vf_recovery_ingest r fr)"
| "recovery_apply r ClearReady = snd (vf_recovery_clear_ready r)"

text \<open>The sequence numbers in the accepted frames, in order of arrival.\<close>

fun recovery_accepted :: "vf_recovery_v1 \<Rightarrow> recovery_event list \<Rightarrow> u32 list" where
  "recovery_accepted r [] = []"
| "recovery_accepted r (Frame (Some fr) # es) =
     (if fst (vf_recovery_ingest r (Some fr)) = None then [get_le32 (drop 4 fr)] else [])
     @ recovery_accepted (recovery_apply r (Frame (Some fr))) es"
| "recovery_accepted r (e # es) = recovery_accepted (recovery_apply r e) es"

lemma recovery_numbering:
  "recovery_accepted r es = map (\<lambda>i. expected_sequence r + of_nat i) [0..<length (recovery_accepted r es)]
   \<and> expected_sequence (foldl recovery_apply r es) = expected_sequence r + of_nat (length (recovery_accepted r es))
   \<and> (signature_verified (foldl recovery_apply r es) \<longrightarrow> signature_verified r)"
proof (induction r es rule: recovery_accepted.induct)
  case (2 r fr es)
  let ?r' = "recovery_apply r (Frame (Some fr))"
  show ?case
  proof (cases rule: recovery_ingest_cases [of r fr, case_names refused accepted])
    case (refused e)
    with "2.IH" show ?thesis by simp
  next
    case (accepted fl p)
    then have r': "?r' = recovery_accept fl p r" by simp
    then have e: "expected_sequence ?r' = expected_sequence r + 1" "\<not> signature_verified ?r'"
      by (simp_all add: recovery_accept_def)
    have "map (\<lambda>i. expected_sequence r + of_nat i) [0..<Suc n] =
        expected_sequence r # map (\<lambda>i. expected_sequence ?r' + of_nat i) [0..<n]" for n
      by (simp add: upt_conv_Cons map_Suc_upt [symmetric] e(1) comp_def add_ac del: upt_Suc recovery_apply.simps)
    moreover have "recovery_accepted r (Frame (Some fr) # es) = expected_sequence r # recovery_accepted ?r' es"
      using accepted by simp
    ultimately show ?thesis
      using "2.IH" e by (simp add: add_ac del: recovery_accepted.simps recovery_apply.simps upt_Suc)
  qed
qed (simp_all add: vf_recovery_ingest_def vf_recovery_clear_ready_def)

section \<open>Properties\<close>

text \<open>C36. A frame is accepted exactly if the encoder produces it, for some flags and a payload of at
  most 1024 bytes, under the sequence number the receiver expects; accepting it delivers that
  payload and those flags, raises the interrupt level and advances the expected number. Any
  other frame is refused without a change of state.\<close>

theorem recovery_accepts_exactly_encodings:
  assumes "length (rec_payload r) = VF_RECOVERY_MAX_PAYLOAD"
  shows "(fst (vf_recovery_ingest r (Some fr)) = None) =
      (\<exists>fl p out. vf_recovery_encode (expected_sequence r) fl (Some p) (length p) (Some out) = Inr (fr, length fr))
    \<and> (\<forall>fl p out. vf_recovery_encode (expected_sequence r) fl (Some p) (length p) (Some out) = Inr (fr, length fr) \<longrightarrow>
        (let r' = snd (vf_recovery_ingest r (Some fr)) in
         take (snd (vf_recovery_payload r')) (fst (vf_recovery_payload r')) = p \<and> rec_flags r' = fl
         \<and> length (rec_payload r') = VF_RECOVERY_MAX_PAYLOAD \<and> vf_recovery_irq_pending r'
         \<and> last_sequence r' = expected_sequence r \<and> expected_sequence r' = expected_sequence r + 1))
    \<and> (fst (vf_recovery_ingest r (Some fr)) \<noteq> None \<longrightarrow> snd (vf_recovery_ingest r (Some fr)) = r)"
proof -
  have enc: "length p \<le> 1024 \<and> fr = recovery_frame (expected_sequence r) fl p"
    if "vf_recovery_encode (expected_sequence r) fl (Some p) (length p) (Some out) = Inr (fr, length fr)" for fl p out
  proof -
    from recovery_encode_cases [OF that] have c: "length p \<le> 1024" "length fr = 20 + length p"
      "fr = splice out 0 (recovery_frame (expected_sequence r) fl p)" "20 + length p \<le> length out" by auto
    then have "length fr = length out" by simp
    with c show ?thesis by (simp add: splice_all)
  qed
  have dec: "vf_recovery_encode (expected_sequence r) fl (Some p) (length p)
      (Some (recovery_frame (expected_sequence r) fl p)) = Inr (recovery_frame (expected_sequence r) fl p, 20 + length p)"
    if "length p \<le> 1024" for fl p
    using that by (simp add: recovery_encode_frame splice_all)
  have acc: "take (snd (vf_recovery_payload (recovery_accept fl p r))) (fst (vf_recovery_payload (recovery_accept fl p r))) = p
      \<and> length (rec_payload (recovery_accept fl p r)) = 1024" if "length p \<le> 1024" for fl p
    using that assms splice_read_back [of 0 "rec_payload r" p]
    by (simp add: recovery_accept_def vf_recovery_payload_def frame_length_word)
  show ?thesis
  proof (cases rule: recovery_ingest_cases [of r fr, case_names refused accepted])
    case (refused e)
    have "vf_recovery_encode (expected_sequence r) fl (Some p) (length p) (Some out) \<noteq> Inr (fr, length fr)" for fl p out
      using enc [of fl p out] refused recovery_ingest_frame [of p r "expected_sequence r" fl] by auto
    with refused show ?thesis by simp
  next
    case (accepted fl p)
    have "\<exists>fl p out. vf_recovery_encode (expected_sequence r) fl (Some p) (length p) (Some out) = Inr (fr, length fr)"
      using dec [OF accepted(1)] accepted(2) by (metis length_recovery_frame)
    moreover have "q = p \<and> k = fl" if "vf_recovery_encode (expected_sequence r) k (Some q) (length q) (Some out) = Inr (fr, length fr)" for k q out
      using enc [OF that] accepted(2) by (metis recovery_frame_fields(3,6))
    ultimately show ?thesis
      using accepted(3) acc [OF accepted(1)] by (auto simp: Let_def) (simp_all add: recovery_accept_def vf_recovery_irq_pending_def)
  qed
qed


theorem recovery_accepts_exactly_encodings_witness:
  "fst (vf_recovery_ingest (snd (vf_recovery_init undefined)) (Some (recovery_frame 0 5 [1, 2]))) = None"
proof -
  let ?r = "snd (vf_recovery_init undefined)" and ?f = "recovery_frame 0 5 [1, 2]"
  have "vf_recovery_encode (expected_sequence ?r) 5 (Some [1, 2]) (length [1 :: u8, 2]) (Some ?f) = Inr (?f, length ?f)"
    using recovery_encode_frame [of "[1, 2]" ?f 0 5] by (simp add: splice_all vf_recovery_init_def)
  moreover have "length (rec_payload ?r) = VF_RECOVERY_MAX_PAYLOAD" by (simp add: vf_recovery_init_def)
  ultimately show ?thesis
    using recovery_accepts_exactly_encodings [of ?r ?f] by blast
qed

text \<open>From initialisation on, whatever frames arrive and whenever the host clears the level: the
  accepted frames carry the numbers 0, 1, 2, ... (modulo the width of the counter), so no
  frame is accepted twice within one cycle and none is skipped; and the status register never
  claims a verified signature.\<close>

theorem recovery_sequence_consecutive:
  "recovery_accepted (snd (vf_recovery_init r)) es =
     map of_nat [0..<length (recovery_accepted (snd (vf_recovery_init r)) es)]
   \<and> (\<exists>status. fst (vf_recovery_read (foldl recovery_apply (snd (vf_recovery_init r)) es) VF_RECOVERY_MMIO_STATUS 32) = Some status
       \<and> \<not> bit status 1)"
  using recovery_numbering [of "snd (vf_recovery_init r)" es]
  by (auto simp: vf_recovery_init_def vf_recovery_read_def bit_simps comp_def)

text \<open>C37. Damage to one payload byte in transit is always detected: the frame is refused with a bad
  checksum and the receiver keeps its state.\<close>

theorem recovery_detects_byte_damage:
  assumes "vf_recovery_encode seq fl (Some p) (length p) (Some out) = Inr (fr, length fr)"
    and "i < length p" "b \<noteq> p ! i"
  shows "vf_recovery_ingest r (Some (fr[VF_RECOVERY_HEADER_BYTES + i := b])) = (Some ERR_BAD_CHECKSUM, r)"
proof -
  from recovery_encode_cases [OF assms(1)] have c: "length p \<le> 1024" "length fr = 20 + length p"
    "fr = splice out 0 (recovery_frame seq fl p)" "20 + length p \<le> length out" by auto
  then have "length fr = length out" by simp
  with c have fr: "fr = recovery_frame seq fl p" by (simp add: splice_all)
  let ?q = "p[i := b]"
  have f: "fr[20 + i := b] = put_le32 VF_RECOVERY_MAGIC @ put_le32 seq @ put_le32 fl @ put_le32 (of_nat (length p))
     @ put_le32 (recovery_crc32 p) @ ?q"
    unfolding fr recovery_frame_def by (simp add: list_update_append)
  have "p = take i p @ p ! i # drop (Suc i) p" "?q = take i p @ b # drop (Suc i) p"
    using assms(2) by (simp_all add: id_take_nth_drop upd_conv_take_nth_drop)
  then have "recovery_crc32 p \<noteq> recovery_crc32 ?q"
    using crc32_one_byte [OF assms(3), of "take i p" "drop (Suc i) p"] by metis
  then show ?thesis
    unfolding f using c(1) by (simp add: vf_recovery_ingest_def Let_def frame_length_word)
qed

theorem recovery_detects_byte_damage_witness:
  "fst (vf_recovery_ingest (snd (vf_recovery_init undefined)) (Some ((recovery_frame 7 0 [1, 2])[21 := 3]))) =
     Some ERR_BAD_CHECKSUM"
proof -
  let ?f = "recovery_frame 7 0 [1, 2]"
  have "vf_recovery_encode 7 0 (Some [1, 2]) (length [1 :: u8, 2]) (Some ?f) = Inr (?f, length ?f)"
    using recovery_encode_frame [of "[1, 2]" ?f 7 0] by (simp add: splice_all)
  from recovery_detects_byte_damage [OF this, of 1 3 "snd (vf_recovery_init undefined)"] show ?thesis by simp
qed

end
