(* ===== verification/Nvram.thy ===== *)
theory Nvram
  imports Prelude
begin

text \<open>
  The environment bank, \<open>src/devices/nvram_v1.c\<close>: a bounded table of name/value pairs, the CHRP
  partition table it is stored in, and the serialiser and parser of a bank image. A C string is
  the list of its bytes before the terminating NUL; an array with a count is the list of its live
  elements (the code never reads the others); packed structures are their bytes. Every access of the
  parsers to memory is preceded by a test of its own, apart from the tests of the code: a read outside
  the buffer (a header, a name, the data of a partition, the bytes a checksum covers) and a copy larger
  than the array it fills are the value \<open>None\<close>. The block backend's operations are parameters; the
  POSIX file backend is not modelled.

  Shown: the environment is a finite map bounded by 32 names under set, unset and lookup; writing
  a bank and parsing it back restores the environment, the generation and every partition; the
  parser leaves a cleared state behind on every malformed bank.
\<close>

section \<open>Constants and records\<close>

abbreviation (input) VF_NVRAM_NSID :: u32 where "VF_NVRAM_NSID \<equiv> 5"
abbreviation (input) VF_NVRAM_NSTYPE :: u32 where "VF_NVRAM_NSTYPE \<equiv> 5"
abbreviation (input) VF_NVRAM_BANK_MAX_LEN :: nat where "VF_NVRAM_BANK_MAX_LEN \<equiv> 0x2000"
abbreviation (input) VF_NVRAM_COMMON_PART_LEN :: nat where "VF_NVRAM_COMMON_PART_LEN \<equiv> 0x7f0"
abbreviation (input) VF_NVRAM_ENV_NAME_MAX :: nat where "VF_NVRAM_ENV_NAME_MAX \<equiv> 64"
abbreviation (input) VF_NVRAM_ENV_VALUE_MAX :: nat where "VF_NVRAM_ENV_VALUE_MAX \<equiv> 256"
abbreviation (input) VF_NVRAM_MAX_ENV :: nat where "VF_NVRAM_MAX_ENV \<equiv> 32"
abbreviation (input) VF_NVRAM_MAX_PARTS :: nat where "VF_NVRAM_MAX_PARTS \<equiv> 8"
abbreviation (input) VF_NVRAM_CHRP_SIG :: u8 where "VF_NVRAM_CHRP_SIG \<equiv> 0x5a"
abbreviation (input) VF_NVRAM_CHRP_PART_FREE :: u8 where "VF_NVRAM_CHRP_PART_FREE \<equiv> 0x7f"
abbreviation (input) VF_NVRAM_COMMON_SIG :: u8 where "VF_NVRAM_COMMON_SIG \<equiv> 0x70"

definition VF_NVRAM_PANIC_PART_NAME :: "u8 list" where
  "VF_NVRAM_PANIC_PART_NAME = [0x41, 0x50, 0x4c, 0x2c, 0x4f, 0x53, 0x58, 0x50, 0x61, 0x6e, 0x69, 0]"

definition nvram_common :: "u8 list" where "nvram_common = [0x63, 0x6f, 0x6d, 0x6d, 0x6f, 0x6e]"
definition nvram_true :: "u8 list" where "nvram_true = [0x74, 0x72, 0x75, 0x65]"
definition nvram_boot_args :: "u8 list" where
  "nvram_boot_args = [0x62, 0x6f, 0x6f, 0x74, 0x2d, 0x61, 0x72, 0x67, 0x73]"

record vf_nvram_env =
  env_name :: "u8 list"
  env_value :: "u8 list"
  env_flags :: u32
  parsed_uint :: u32

record vf_nvram_part =
  part_sig :: u8
  part_name :: "u8 list"
  part_len :: nat
  part_data :: "u8 list"

record vf_nvram_v1 =
  nv_env :: "vf_nvram_env list"
  nv_parts :: "vf_nvram_part list"
  bank_len :: nat
  nv_generation :: u32

record vf_nvram_ns_info =
  ns_nsid :: u32
  ns_nstype :: u32
  ns_qom_type :: string

definition nvram_zero :: vf_nvram_v1 where
  "nvram_zero = \<lparr>nv_env = [], nv_parts = [], bank_len = 0, nv_generation = 0\<rparr>"

definition nvram_zero_part :: vf_nvram_part where
  "nvram_zero_part = \<lparr>part_sig = 0, part_name = replicate 16 0, part_len = 0,
     part_data = replicate VF_NVRAM_COMMON_PART_LEN 0\<rparr>"

definition vf_nvram_get_namespace :: vf_nvram_ns_info where
  "vf_nvram_get_namespace = \<lparr>ns_nsid = VF_NVRAM_NSID, ns_nstype = VF_NVRAM_NSTYPE, ns_qom_type = ''apple-nvram''\<rparr>"

section \<open>Strings, checksums and byte order\<close>

text \<open>The string stored in a character array.\<close>

definition cstr :: "u8 list \<Rightarrow> u8 list" where
  "cstr a = takeWhile (\<lambda>b. b \<noteq> 0) a"

definition nvram_copy_str :: "u8 list \<Rightarrow> u8 list \<Rightarrow> u8 list" where
  "nvram_copy_str dst src =
     (if dst = [] then dst
      else let n = (if length src \<ge> length dst then length dst - 1 else length src) in
        splice dst 0 (take n src @ [0]))"

definition be16_to_host :: "u16 \<Rightarrow> nat" where
  "be16_to_host v = unat (drop_bit 8 v OR push_bit 8 (v AND 0xff))"

definition host_to_be16 :: "nat \<Rightarrow> u16" where
  "host_to_be16 n = (let v = of_nat n :: u32 in ucast (push_bit 8 (v AND 0xff) OR (drop_bit 8 v AND 0xff)))"

definition put_le16 :: "u16 \<Rightarrow> u8 list" where "put_le16 v = [ucast v, ucast (drop_bit 8 v)]"
definition get_le16 :: "u8 list \<Rightarrow> u16" where "get_le16 p = ucast (p ! 0) OR push_bit 8 (ucast (p ! 1))"

definition vf_nvram_chrp_checksum :: "u8 list \<Rightarrow> u8" where
  "vf_nvram_chrp_checksum p =
     ucast (foldl (\<lambda>sum b. let t = sum + ucast b in (t + drop_bit 8 (t AND 0xff00)) AND 0xff)
              (ucast (p ! 0) :: u32) (take 14 (drop 2 p)) AND 0xff)"

definition vf_nvram_adler32 :: "u32 \<Rightarrow> u8 list \<Rightarrow> u32" where
  "vf_nvram_adler32 adler buf =
     (case foldl (\<lambda>(s1, s2) b. let t = (s1 + ucast b) mod 65521 in (t, (s2 + t) mod 65521))
             (adler AND 0xffff, drop_bit 16 adler AND 0xffff) buf of
        (s1, s2) \<Rightarrow> push_bit 16 s2 OR s1)"

text \<open>The 16 bytes of a partition header, with its checksum.\<close>

definition chrp_hdr :: "u8 \<Rightarrow> nat \<Rightarrow> u8 list \<Rightarrow> u8 list" where
  "chrp_hdr sig units name12 =
     (let h = [sig, 0] @ put_le16 (host_to_be16 units) @ name12 in h[1 := vf_nvram_chrp_checksum h])"

section \<open>The environment\<close>

definition nvram_find_env :: "vf_nvram_v1 \<Rightarrow> u8 list \<Rightarrow> nat option" where
  "nvram_find_env n name = find (\<lambda>i. env_name (nv_env n ! i) = name) [0..<length (nv_env n)]"

definition nvram_find_part :: "vf_nvram_v1 \<Rightarrow> u8 list \<Rightarrow> nat option" where
  "nvram_find_part n name = find (\<lambda>i. cstr (part_name (nv_parts n ! i)) = name) [0..<length (nv_parts n)]"

definition nvram_ensure_common :: "vf_nvram_v1 \<Rightarrow> nat option \<times> vf_nvram_v1" where
  "nvram_ensure_common n =
     (case nvram_find_part n nvram_common of
        Some i \<Rightarrow> (Some i, n)
      | None \<Rightarrow>
          if length (nv_parts n) \<ge> VF_NVRAM_MAX_PARTS then (None, n)
          else (Some (length (nv_parts n)), n\<lparr>nv_parts := nv_parts n @
            [nvram_zero_part\<lparr>part_sig := VF_NVRAM_COMMON_SIG,
               part_name := nvram_copy_str (part_name nvram_zero_part) nvram_common,
               part_len := VF_NVRAM_COMMON_PART_LEN\<rparr>]\<rparr>))"

definition env_digit :: "u32 \<Rightarrow> u8 \<Rightarrow> u32 option" where
  "env_digit base c =
     (if 0x30 \<le> c \<and> c \<le> 0x39 then Some (ucast c - 0x30)
      else if base = 16 \<and> 0x61 \<le> c \<and> c \<le> 0x66 then Some (ucast c - 0x61 + 10)
      else if base = 16 \<and> 0x41 \<le> c \<and> c \<le> 0x46 then Some (ucast c - 0x41 + 10)
      else None)"

fun env_digits :: "u32 \<Rightarrow> u8 list \<Rightarrow> u32 \<Rightarrow> nat \<Rightarrow> u32 \<times> nat" where
  "env_digits base [] acc digits = (acc, digits)"
| "env_digits base (c # cs) acc digits =
     (case env_digit base c of
        None \<Rightarrow> (acc, digits)
      | Some d \<Rightarrow> if d \<ge> base then (acc, digits) else env_digits base cs (acc * base + d) (digits + 1))"

definition parse_env_uint :: "u8 list \<Rightarrow> u32" where
  "parse_env_uint value =
     (if value = [] then 0
      else
        let hex = (value ! 0 = 0x30 \<and> length value > 1 \<and> (value ! 1 = 0x78 \<or> value ! 1 = 0x58));
            base = (if hex then 16 else 10);
            digs = (if hex then drop 2 value else value) in
        case env_digits base digs 0 0 of (acc, digits) \<Rightarrow> if digits \<noteq> 0 then acc else 0)"

definition vf_nvram_init :: "vf_nvram_v1 \<Rightarrow> rc \<times> vf_nvram_v1" where
  "vf_nvram_init n =
     (case nvram_ensure_common (nvram_zero\<lparr>bank_len := VF_NVRAM_BANK_MAX_LEN\<rparr>) of
        (Some _, n1) \<Rightarrow> (OK, n1) | (None, n1) \<Rightarrow> (ERR, n1))"

definition vf_nvram_env_get :: "vf_nvram_v1 \<Rightarrow> u8 list \<Rightarrow> u8 list option" where
  "vf_nvram_env_get n name = map_option (\<lambda>i. env_value (nv_env n ! i)) (nvram_find_env n name)"

definition vf_nvram_env_get_uint :: "vf_nvram_v1 \<Rightarrow> u8 list \<Rightarrow> u32 \<Rightarrow> u32" where
  "vf_nvram_env_get_uint n name default_val =
     (case nvram_find_env n name of None \<Rightarrow> default_val | Some i \<Rightarrow> parsed_uint (nv_env n ! i))"

definition vf_nvram_env_get_bool :: "vf_nvram_v1 \<Rightarrow> u8 list \<Rightarrow> bool \<Rightarrow> bool" where
  "vf_nvram_env_get_bool n name default_val =
     (case nvram_find_env n name of
        None \<Rightarrow> default_val
      | Some i \<Rightarrow> env_value (nv_env n ! i) = nvram_true \<or> parsed_uint (nv_env n ! i) \<noteq> 0)"

text \<open>The result tells whether a variable was removed.\<close>

definition vf_nvram_env_unset :: "vf_nvram_v1 \<Rightarrow> u8 list \<Rightarrow> bool \<times> vf_nvram_v1" where
  "vf_nvram_env_unset n name =
     (case nvram_find_env n name of
        None \<Rightarrow> (False, n)
      | Some i \<Rightarrow> (True, n\<lparr>nv_env := take i (nv_env n) @ drop (i + 1) (nv_env n)\<rparr>))"

definition vf_nvram_env_set :: "vf_nvram_v1 \<Rightarrow> u8 list \<Rightarrow> u8 list \<Rightarrow> u32 \<Rightarrow> rc \<times> vf_nvram_v1" where
  "vf_nvram_env_set n name value fl =
     (if name = [] \<or> length name \<ge> VF_NVRAM_ENV_NAME_MAX \<or> length value \<ge> VF_NVRAM_ENV_VALUE_MAX then (ERR, n)
      else
        let n1 = snd (vf_nvram_env_unset n name) in
        if length (nv_env n1) \<ge> VF_NVRAM_MAX_ENV then (ERR, n1)
        else (OK, n1\<lparr>nv_env := nv_env n1 @
          [\<lparr>env_name = cstr (nvram_copy_str (replicate VF_NVRAM_ENV_NAME_MAX 0) name),
            env_value = cstr (nvram_copy_str (replicate VF_NVRAM_ENV_VALUE_MAX 0) value),
            env_flags = fl, parsed_uint = parse_env_uint value\<rparr>]\<rparr>))"

text \<open>The remaining bytes of the partition are the third argument; the name of an entry ends at
  \<open>=\<close> (0x3d), its value at NUL.\<close>

function nvram_load_env :: "vf_nvram_v1 \<Rightarrow> u8 list \<Rightarrow> rc \<times> vf_nvram_v1" where
  "nvram_load_env n bs =
     (if bs = [] \<or> hd bs = 0 then (OK, n)
      else
        let name = takeWhile (\<lambda>c. c \<noteq> 0 \<and> c \<noteq> 0x3d) bs; r1 = drop (length name) bs in
        if r1 = [] \<or> hd r1 \<noteq> 0x3d then (ERR, n)
        else
          let value = takeWhile (\<lambda>c. c \<noteq> 0) (tl r1); r2 = drop (length value) (tl r1) in
          if r2 = [] then (ERR, n)
          else if length name \<ge> VF_NVRAM_ENV_NAME_MAX \<or> length value \<ge> VF_NVRAM_ENV_VALUE_MAX then (ERR, n)
          else (case vf_nvram_env_set n name value 0 of
                  (ERR, n1) \<Rightarrow> (ERR, n1)
                | (OK, n1) \<Rightarrow> nvram_load_env n1 (tl r2)))"
  by pat_completeness auto

termination
proof (relation "measure (\<lambda>(n, bs). length bs)")
qed (auto simp: length_drop less_eq_Suc_le not_le)

definition nvram_load_env_from_common :: "vf_nvram_v1 \<Rightarrow> vf_nvram_part \<Rightarrow> rc \<times> vf_nvram_v1" where
  "nvram_load_env_from_common n part = nvram_load_env (n\<lparr>nv_env := []\<rparr>) (take (part_len part) (part_data part))"

section \<open>Parsing a bank\<close>

text \<open>
  One turn of the loop over the partition table reads a header at \<open>off\<close>; \<open>buf\<close> is the whole buffer
  and \<open>len\<close> the part of it that holds the bank. The name is copied with \<open>sizeof(part->name) - 1\<close>,
  that is 15 bytes, from a field of 12: the last three come from the data behind the header, or
  from outside the buffer.
\<close>

function nvram_parse_loop :: "u8 list \<Rightarrow> nat \<Rightarrow> nat \<Rightarrow> vf_nvram_v1 \<Rightarrow> (rc \<times> vf_nvram_v1) option" where
  "nvram_parse_loop buf len off n =
     (if off + 16 > len then Some (OK, n)
      else if length buf < off + 16 then None
      else
        let hdr = take 16 (drop off buf) in
        if hdr ! 1 \<noteq> vf_nvram_chrp_checksum hdr then Some (ERR, n)
        else if hdr ! 0 = VF_NVRAM_CHRP_PART_FREE then Some (OK, n)
        else
          let part_units = be16_to_host (get_le16 (drop 2 hdr)) in
          if part_units < 1 \<or> part_units * 16 + off > len then Some (ERR, n)
          else
            let part_bytes = part_units * 16 - 16 in
            if length (nv_parts n) \<ge> VF_NVRAM_MAX_PARTS then Some (ERR, n)
            else if drop 4 hdr = VF_NVRAM_PANIC_PART_NAME then nvram_parse_loop buf len (off + part_units * 16) n
            else
              let part = nvram_zero_part\<lparr>part_sig := hdr ! 0, part_len := part_bytes\<rparr> in
              if part_bytes > VF_NVRAM_COMMON_PART_LEN then Some (ERR, n\<lparr>nv_parts := nv_parts n @ [part]\<rparr>)
              else if length buf < off + 4 + 15 then None
              else
                let part1 = part\<lparr>part_name := splice (part_name part) 0 (take 15 (drop (off + 4) buf))\<rparr> in
                if off + 16 + part_bytes > len then Some (ERR, n\<lparr>nv_parts := nv_parts n @ [part1]\<rparr>)
                else if length buf < off + 16 + part_bytes \<or> part_bytes > VF_NVRAM_COMMON_PART_LEN then None
                else
                  let part2 = part1\<lparr>part_data := splice (part_data part1) 0 (take part_bytes (drop (off + 16) buf))\<rparr> in
                  nvram_parse_loop buf len (off + part_units * 16) (n\<lparr>nv_parts := nv_parts n @ [part2]\<rparr>))"
  by pat_completeness auto

termination
  by (relation "measure (\<lambda>(buf, len, off, n). len - off)") auto

definition nvram_parse_partitions :: "vf_nvram_v1 \<Rightarrow> u8 list \<Rightarrow> nat \<Rightarrow> (rc \<times> vf_nvram_v1) option" where
  "nvram_parse_partitions n buf len =
     (if len < 0x20 then Some (ERR, n) else nvram_parse_loop buf len 0x20 (n\<lparr>nv_parts := []\<rparr>))"

definition vf_nvram_parse_bank :: "vf_nvram_v1 \<Rightarrow> u8 list \<Rightarrow> nat \<Rightarrow> (rc \<times> vf_nvram_v1) option" where
  "vf_nvram_parse_bank n buf len =
     (if len < 0x20 then Some (ERR, n)
      else if length buf < 16 then None
      else if buf ! 1 \<noteq> vf_nvram_chrp_checksum (take 16 buf) then Some (ERR, n)
      else if length buf < len then None
      else if vf_nvram_adler32 1 (take (len - 0x14) (drop 0x14 buf)) \<noteq> get_le32 (drop 0x10 buf) then Some (ERR, n)
      else
        let n1 = nvram_zero\<lparr>bank_len := len, nv_generation := get_le32 (drop 0x14 buf)\<rparr> in
        case nvram_parse_partitions n1 buf len of
          None \<Rightarrow> None
        | Some (ERR, _) \<Rightarrow> Some (ERR, nvram_zero)
        | Some (OK, n2) \<Rightarrow>
            (case nvram_find_part n2 nvram_common of
               None \<Rightarrow> Some (vf_nvram_init n2)
             | Some i \<Rightarrow>
                 if part_len (nv_parts n2 ! i) > VF_NVRAM_COMMON_PART_LEN then None
                 else
                   (case nvram_load_env_from_common n2 (nv_parts n2 ! i) of
                      (ERR, _) \<Rightarrow> Some (ERR, nvram_zero)
                    | (OK, n3) \<Rightarrow> Some (OK, n3))))"

definition vf_nvram_ingest_bank :: "vf_nvram_v1 \<Rightarrow> u8 list \<Rightarrow> nat \<Rightarrow> (rc \<times> vf_nvram_v1) option" where
  "vf_nvram_ingest_bank n buf len =
     (if len = 0 \<or> len > VF_NVRAM_BANK_MAX_LEN then Some (ERR, n) else vf_nvram_parse_bank n buf len)"

section \<open>Writing a bank\<close>

definition nvram_format_env_entry :: "u8 list \<Rightarrow> nat \<Rightarrow> u8 list \<Rightarrow> u8 list \<Rightarrow> (nat \<times> u8 list) option" where
  "nvram_format_env_entry buf pos name value =
     (let needed = length name + 1 + length value in
      if needed \<ge> length buf - pos then None
      else Some (needed, splice buf pos (name @ [0x3d] @ value @ [0])))"

fun nvram_env_serialize_loop :: "vf_nvram_env list \<Rightarrow> u8 list \<Rightarrow> nat \<Rightarrow> (nat \<times> u8 list) option" where
  "nvram_env_serialize_loop [] buf pos = Some (pos, if pos < length buf then buf[pos := 0] else buf)"
| "nvram_env_serialize_loop (v # vs) buf pos =
     (case nvram_format_env_entry buf pos (env_name v) (env_value v) of
        None \<Rightarrow> None
      | Some (needed, buf1) \<Rightarrow> nvram_env_serialize_loop vs buf1 (pos + needed + 1))"

definition nvram_env_serialize :: "vf_nvram_v1 \<Rightarrow> u8 list \<Rightarrow> (nat \<times> u8 list) option" where
  "nvram_env_serialize n buffer = nvram_env_serialize_loop (nv_env n) buffer 0"

text \<open>The loop over the partitions; the result is the offset behind the last one.\<close>

fun nvram_prepare_parts :: "vf_nvram_part list \<Rightarrow> nat \<Rightarrow> u8 list \<Rightarrow> nat option \<times> u8 list" where
  "nvram_prepare_parts [] off buf = (Some off, buf)"
| "nvram_prepare_parts (part # ps) off buf =
     (if part_len part = 0 then nvram_prepare_parts ps off buf
      else if off + 16 > length buf then (None, buf)
      else
        let units = (part_len part + 0x10 + 0xf) div 0x10; total = units * 0x10 in
        if off + total > length buf then (None, buf)
        else
          let b1 = splice buf off (chrp_hdr (part_sig part) units (take 12 (part_name part)));
              b2 = splice b1 (off + 0x10) (take (part_len part) (part_data part)) in
          nvram_prepare_parts ps (off + total) b2)"

definition nvram_prepare_bank :: "vf_nvram_v1 \<Rightarrow> u8 list \<Rightarrow> rc \<times> u8 list" where
  "nvram_prepare_bank n buf =
     (if length buf < 0x40 then (ERR, buf)
      else
        let b0 = replicate (length buf) 0;
            b1 = splice b0 0 (chrp_hdr VF_NVRAM_CHRP_SIG 2 ([0x6e, 0x76, 0x72, 0x61, 0x6d, 0] @ replicate 6 0));
            b2 = splice b1 0x14 (put_le32 (nv_generation n)) in
        case nvram_prepare_parts (nv_parts n) 0x20 b2 of
          (None, b3) \<Rightarrow> (ERR, b3)
        | (Some off, b3) \<Rightarrow>
            let b4 = (if off + 16 \<le> length buf
                      then splice b3 off (chrp_hdr VF_NVRAM_CHRP_PART_FREE ((length buf - off) div 0x10) (replicate 12 0))
                      else b3) in
            (OK, splice b4 0x10 (put_le32 (vf_nvram_adler32 1 (drop 0x14 b4)))))"

text \<open>The number of bytes written (\<open>None\<close> for -1) and the caller's buffer.\<close>

definition vf_nvram_serialize :: "vf_nvram_v1 \<Rightarrow> u8 list \<Rightarrow> nat option \<times> u8 list" where
  "vf_nvram_serialize n buf =
     (if length buf = 0 then (None, buf)
      else
        case nvram_ensure_common n of
          (None, _) \<Rightarrow> (None, buf)
        | (Some i, s1) \<Rightarrow>
            let s2 = (if bank_len s1 = 0 \<or> bank_len s1 > length buf then s1\<lparr>bank_len := length buf\<rparr> else s1);
                common = nv_parts s2 ! i in
            case nvram_env_serialize s2 (take (part_len common) (part_data common)) of
              None \<Rightarrow> (None, buf)
            | Some (_, env_bytes) \<Rightarrow>
                let s3 = s2\<lparr>nv_parts := (nv_parts s2)[i := common\<lparr>part_data := splice (part_data common) 0 env_bytes\<rparr>]\<rparr> in
                case nvram_prepare_bank s3 (take (bank_len s3) buf) of
                  (ERR, b) \<Rightarrow> (None, splice buf 0 b)
                | (OK, b) \<Rightarrow> (Some (bank_len s3), splice buf 0 b))"

definition vf_nvram_boot_args_handoff :: "vf_nvram_v1 \<Rightarrow> u8 list \<Rightarrow> nat option \<times> u8 list" where
  "vf_nvram_boot_args_handoff n out =
     (if length out = 0 then (None, out)
      else case vf_nvram_env_get n nvram_boot_args of
        None \<Rightarrow> (Some 0, out[0 := 0])
      | Some v \<Rightarrow>
          if v = [] then (Some 0, out[0 := 0])
          else if length v + 1 > length out then (None, out)
          else (Some (length v), splice out 0 (v @ [0])))"

section \<open>The block backend\<close>

text \<open>The operations of a backend over its own state \<open>'s\<close>: a read yields the bytes, a write the new
  state, \<open>None\<close> is a missing operation.\<close>

record 's vf_nvram_blk_backend =
  blk_opaque :: 's
  blk_pread :: "('s \<Rightarrow> nat \<Rightarrow> nat \<Rightarrow> u8 list option) option"
  blk_pwrite :: "('s \<Rightarrow> nat \<Rightarrow> u8 list \<Rightarrow> rc \<times> 's) option"
  blk_getlength :: "('s \<Rightarrow> int) option"

definition vf_nvram_load_from_blk ::
  "vf_nvram_v1 \<Rightarrow> 's vf_nvram_blk_backend \<Rightarrow> (rc \<times> vf_nvram_v1) option" where
  "vf_nvram_load_from_blk n blk =
     (case (blk_pread blk, blk_getlength blk) of
        (Some pread, Some getlength) \<Rightarrow>
          let raw_len = getlength (blk_opaque blk) in
          if raw_len \<le> 0 then Some (ERR, n)
          else
            let len = (if nat raw_len > VF_NVRAM_BANK_MAX_LEN then VF_NVRAM_BANK_MAX_LEN else nat raw_len) in
            (case pread (blk_opaque blk) 0 len of
               None \<Rightarrow> Some (ERR, n)
             | Some bytes \<Rightarrow> vf_nvram_ingest_bank n (splice (replicate VF_NVRAM_BANK_MAX_LEN 0) 0 bytes) len)
      | _ \<Rightarrow> Some (ERR, n))"

definition vf_nvram_save_to_blk :: "vf_nvram_v1 \<Rightarrow> 's vf_nvram_blk_backend \<Rightarrow> rc \<times> 's vf_nvram_blk_backend" where
  "vf_nvram_save_to_blk n blk =
     (case blk_pwrite blk of
        None \<Rightarrow> (ERR, blk)
      | Some pwrite \<Rightarrow>
          (case vf_nvram_serialize n (replicate VF_NVRAM_BANK_MAX_LEN 0) of
             (None, _) \<Rightarrow> (ERR, blk)
           | (Some written, buffer) \<Rightarrow>
               if written = 0 then (ERR, blk)
               else (case pwrite (blk_opaque blk) 0 (take written buffer) of
                       (c, s) \<Rightarrow> (c, blk\<lparr>blk_opaque := s\<rparr>))))"


declare nvram_load_env.simps [simp del] nvram_parse_loop.simps [simp del]

section \<open>The environment is a bounded finite map\<close>

lemma cstr_copy:
  assumes "0 \<notin> set s" "length s < k"
  shows "cstr (nvram_copy_str (replicate k 0) s) = s"
proof -
  have "takeWhile (\<lambda>b. b \<noteq> 0) (s @ 0 # xs) = s" for xs
    using assms(1) by (subst takeWhile_append2) auto
  with assms(2) show ?thesis by (auto simp: cstr_def nvram_copy_str_def Let_def splice_def)
qed

definition env_entry_ok :: "vf_nvram_env \<Rightarrow> bool" where
  "env_entry_ok v \<longleftrightarrow> env_name v \<noteq> [] \<and> length (env_name v) < VF_NVRAM_ENV_NAME_MAX
     \<and> length (env_value v) < VF_NVRAM_ENV_VALUE_MAX \<and> 0 \<notin> set (env_name v) \<and> 0 \<notin> set (env_value v)
     \<and> parsed_uint v = parse_env_uint (env_value v)"

definition env_inv :: "vf_nvram_v1 \<Rightarrow> bool" where
  "env_inv n \<longleftrightarrow> length (nv_env n) \<le> VF_NVRAM_MAX_ENV \<and> distinct (map env_name (nv_env n))
     \<and> (\<forall>v \<in> set (nv_env n). env_entry_ok v)"

lemma find_env_None: "nvram_find_env n name = None \<longleftrightarrow> name \<notin> env_name ` set (nv_env n)"
  unfolding nvram_find_env_def find_upt_None by (metis (no_types, lifting) image_iff in_set_conv_nth)

lemma find_env_Some:
  "nvram_find_env n name = Some i \<Longrightarrow> i < length (nv_env n) \<and> env_name (nv_env n ! i) = name"
  unfolding nvram_find_env_def by (simp only: find_upt_Some)

lemma find_env_eq:
  assumes "distinct (map env_name (nv_env n))" "v \<in> set (nv_env n)"
  shows "\<exists>i. nvram_find_env n (env_name v) = Some i \<and> nv_env n ! i = v"
proof (cases "nvram_find_env n (env_name v)")
  case None
  with assms(2) show ?thesis by (auto simp: find_env_None)
next
  case (Some i)
  with find_env_Some [OF Some] assms show ?thesis by (metis distinct_map inj_on_def nth_mem)
qed

text \<open>The map the table denotes.\<close>

lemma env_get_map:
  assumes "distinct (map env_name (nv_env n))"
  shows "vf_nvram_env_get n = map_of (map (\<lambda>v. (env_name v, env_value v)) (nv_env n))"
proof
  fix name
  let ?m = "map_of (map (\<lambda>v. (env_name v, env_value v)) (nv_env n))"
  show "vf_nvram_env_get n name = ?m name"
  proof (cases "nvram_find_env n name")
    case None
    then have "?m name = None" by (auto simp: map_of_eq_None_iff find_env_None image_image)
    with None show ?thesis by (simp add: vf_nvram_env_get_def)
  next
    case (Some i)
    then have i: "i < length (nv_env n)" "env_name (nv_env n ! i) = name" using find_env_Some by auto
    have "distinct (map fst (map (\<lambda>v. (env_name v, env_value v)) (nv_env n)))"
      using assms by (simp add: comp_def)
    moreover have "(name, env_value (nv_env n ! i)) \<in> set (map (\<lambda>v. (env_name v, env_value v)) (nv_env n))"
      using i by (auto simp: image_iff intro!: bexI [of _ "nv_env n ! i"])
    ultimately show ?thesis using Some by (simp add: vf_nvram_env_get_def)
  qed
qed

lemma env_remove:
  assumes "nvram_find_env n name = Some i" "distinct (map env_name (nv_env n))"
  shows "take i (nv_env n) @ drop (i + 1) (nv_env n) = filter (\<lambda>v. env_name v \<noteq> name) (nv_env n)"
proof -
  have i: "i < length (nv_env n)" "env_name (nv_env n ! i) = name" using find_env_Some [OF assms(1)] by auto
  have split: "nv_env n = take i (nv_env n) @ nv_env n ! i # drop (i + 1) (nv_env n)"
    using i(1) by (simp add: id_take_nth_drop)
  then have "distinct (map env_name (take i (nv_env n) @ nv_env n ! i # drop (i + 1) (nv_env n)))"
    using assms(2) by simp
  then have "\<forall>v \<in> set (take i (nv_env n)) \<union> set (drop (i + 1) (nv_env n)). env_name v \<noteq> name"
    using i(2) by (force simp: image_iff)
  then have "filter (\<lambda>v. env_name v \<noteq> name) (take i (nv_env n) @ nv_env n ! i # drop (i + 1) (nv_env n)) =
      take i (nv_env n) @ drop (i + 1) (nv_env n)"
    using i(2) by (simp add: filter_True)
  with split show ?thesis by metis
qed

lemma env_unset_filter:
  assumes "distinct (map env_name (nv_env n))"
  shows "snd (vf_nvram_env_unset n name) = n\<lparr>nv_env := filter (\<lambda>v. env_name v \<noteq> name) (nv_env n)\<rparr>"
proof (cases "nvram_find_env n name")
  case None
  then have "filter (\<lambda>v. env_name v \<noteq> name) (nv_env n) = nv_env n"
    by (auto simp: find_env_None intro!: filter_True)
  with None show ?thesis by (simp add: vf_nvram_env_unset_def)
next
  case (Some i)
  with env_remove [OF Some assms] show ?thesis by (simp add: vf_nvram_env_unset_def)
qed

lemma env_inv_filter: "env_inv n \<Longrightarrow> env_inv (n\<lparr>nv_env := filter P (nv_env n)\<rparr>)"
  by (auto simp: env_inv_def distinct_map_filter intro: order_trans [OF length_filter_le])

lemma env_filter_absent: "nvram_find_env n name = None \<Longrightarrow> filter (\<lambda>v. env_name v \<noteq> name) (nv_env n) = nv_env n"
  by (auto simp: find_env_None intro!: filter_True)

lemma env_filter_length:
  assumes "env_inv n" "\<not> (nvram_find_env n name = None \<and> length (nv_env n) = VF_NVRAM_MAX_ENV)"
  shows "length (filter (\<lambda>v. env_name v \<noteq> name) (nv_env n)) < VF_NVRAM_MAX_ENV"
proof (cases "nvram_find_env n name = None")
  case True
  with assms show ?thesis by (simp add: env_filter_absent env_inv_def)
next
  case False
  then obtain v where "v \<in> set (nv_env n)" "env_name v = name" by (auto simp: find_env_None)
  then have "length (filter (\<lambda>v. env_name v \<noteq> name) (nv_env n)) < length (nv_env n)"
    by (intro length_filter_less) auto
  with assms(1) show ?thesis by (simp add: env_inv_def)
qed

definition env_args_ok :: "u8 list \<Rightarrow> u8 list \<Rightarrow> bool" where
  "env_args_ok name value \<longleftrightarrow> name \<noteq> [] \<and> length name < VF_NVRAM_ENV_NAME_MAX \<and> length value < VF_NVRAM_ENV_VALUE_MAX"

text \<open>Setting a variable: refused without effect, or the entry moves to the end with its new value.\<close>

lemma env_set_cases:
  assumes "env_inv n" "0 \<notin> set name" "0 \<notin> set value"
  shows "vf_nvram_env_set n name value fl =
    (if \<not> env_args_ok name value \<or> (nvram_find_env n name = None \<and> length (nv_env n) = VF_NVRAM_MAX_ENV) then (ERR, n)
     else (OK, n\<lparr>nv_env := filter (\<lambda>v. env_name v \<noteq> name) (nv_env n) @
       [\<lparr>env_name = name, env_value = value, env_flags = fl, parsed_uint = parse_env_uint value\<rparr>]\<rparr>))"
proof (cases "env_args_ok name value")
  case True
  have d: "distinct (map env_name (nv_env n))" using assms(1) by (simp add: env_inv_def)
  show ?thesis
  proof (cases "nvram_find_env n name = None \<and> length (nv_env n) = VF_NVRAM_MAX_ENV")
    case full: True
    with True show ?thesis
      by (simp add: vf_nvram_env_set_def env_args_ok_def env_unset_filter [OF d] env_filter_absent Let_def)
  next
    case False
    from env_filter_length [OF assms(1) False] show ?thesis
      unfolding if_not_P [OF False] using True False
      by (simp add: vf_nvram_env_set_def env_args_ok_def env_unset_filter [OF d] cstr_copy assms(2,3) Let_def)
  qed
qed (auto simp: vf_nvram_env_set_def env_args_ok_def)

lemma env_inv_set:
  assumes "env_inv n" "0 \<notin> set name" "0 \<notin> set value"
  shows "env_inv (snd (vf_nvram_env_set n name value fl))"
proof (cases "\<not> env_args_ok name value \<or> (nvram_find_env n name = None \<and> length (nv_env n) = VF_NVRAM_MAX_ENV)")
  case False
  let ?k = "filter (\<lambda>v. env_name v \<noteq> name) (nv_env n)"
  have "length ?k < 32" using False env_filter_length [OF assms(1), of name] by auto
  moreover have "env_inv (n\<lparr>nv_env := ?k\<rparr>)" using assms(1) by (rule env_inv_filter)
  ultimately show ?thesis
    using False assms(2,3) by (auto simp: env_set_cases [OF assms] env_inv_def env_entry_ok_def env_args_ok_def)
qed (use assms in \<open>auto simp: env_set_cases\<close>)


text \<open>The states of the environment under the host's calls, with C strings for arguments.\<close>

inductive nvram_env_reachable :: "vf_nvram_v1 \<Rightarrow> bool" where
  init: "nvram_env_reachable (snd (vf_nvram_init n))"
| set: "nvram_env_reachable n \<Longrightarrow> 0 \<notin> set name \<Longrightarrow> 0 \<notin> set value \<Longrightarrow>
    nvram_env_reachable (snd (vf_nvram_env_set n name value fl))"
| unset: "nvram_env_reachable n \<Longrightarrow> nvram_env_reachable (snd (vf_nvram_env_unset n name))"

lemma nvram_init_state:
  "vf_nvram_init n = (OK, nvram_zero\<lparr>bank_len := VF_NVRAM_BANK_MAX_LEN, nv_parts :=
     [nvram_zero_part\<lparr>part_sig := VF_NVRAM_COMMON_SIG,
        part_name := nvram_common @ replicate 10 0, part_len := VF_NVRAM_COMMON_PART_LEN\<rparr>]\<rparr>)"
  by (simp add: vf_nvram_init_def nvram_ensure_common_def nvram_find_part_def nvram_zero_def nvram_zero_part_def
      nvram_copy_str_def nvram_common_def splice_def numeral_eq_Suc)

lemma nvram_env_reachable_inv: "nvram_env_reachable n \<Longrightarrow> env_inv n"
proof (induction rule: nvram_env_reachable.induct)
  case (init n)
  show ?case by (simp add: nvram_init_state env_inv_def nvram_zero_def)
next
  case (set n name v fl)
  then show ?case by (simp add: env_inv_set)
next
  case (unset n name)
  then have "distinct (map env_name (nv_env n))" by (simp add: env_inv_def)
  with unset.IH show ?case by (simp add: env_unset_filter env_inv_filter)
qed

lemma env_map_filter:
  assumes "distinct (map env_name (nv_env n))"
  shows "vf_nvram_env_get (n\<lparr>nv_env := filter (\<lambda>v. env_name v \<noteq> name) (nv_env n)\<rparr>) = (vf_nvram_env_get n)(name := None)"
proof -
  have "map_of (map (\<lambda>v. (env_name v, env_value v)) (filter (\<lambda>v. env_name v \<noteq> name) vs)) =
      (map_of (map (\<lambda>v. (env_name v, env_value v)) vs))(name := None)" for vs
    by (induction vs) (auto simp: fun_eq_iff)
  then show ?thesis using assms by (subst (1 2) env_get_map) (simp_all add: distinct_map_filter)
qed

lemma env_map_snoc:
  assumes "distinct (map env_name (nv_env n @ [v]))"
  shows "vf_nvram_env_get (n\<lparr>nv_env := nv_env n @ [v]\<rparr>) = (vf_nvram_env_get n)(env_name v \<mapsto> env_value v)"
proof -
  have "map_of (map (\<lambda>v. (env_name v, env_value v)) (vs @ [v])) =
      (map_of (map (\<lambda>v. (env_name v, env_value v)) vs))(env_name v \<mapsto> env_value v)" if "env_name v \<notin> env_name ` set vs" for vs
    using that by (induction vs) (auto simp: fun_eq_iff)
  with assms show ?thesis by (subst (1 2) env_get_map) simp_all
qed

lemma env_map_card:
  assumes "env_inv n"
  shows "card (dom (vf_nvram_env_get n)) = length (nv_env n)"
proof -
  have d: "distinct (map env_name (nv_env n))" using assms by (simp add: env_inv_def)
  have "dom (vf_nvram_env_get n) = set (map env_name (nv_env n))"
    by (simp add: env_get_map [OF d] dom_map_of_conv_image_fst image_image)
  then show ?thesis using distinct_card [OF d] by simp
qed

section \<open>Properties of the environment\<close>

text \<open>The environment is a finite map of at most 32 names: after any history of calls, setting a
  variable succeeds exactly if the name and value fit and the name is present or fewer than 32
  are; it then changes that binding only, keeps the others, and the numeric reading of the new
  value is available; a refused call has no effect. Unsetting removes exactly that binding and
  reports whether it existed.\<close>

theorem nvram_env_bounded_map:
  assumes "nvram_env_reachable n" "0 \<notin> set name" "0 \<notin> set value"
  shows "(case vf_nvram_env_set n name value fl of
      (OK, n') \<Rightarrow> env_args_ok name value \<and> (vf_nvram_env_get n name \<noteq> None \<or> card (dom (vf_nvram_env_get n)) < VF_NVRAM_MAX_ENV)
        \<and> vf_nvram_env_get n' = (vf_nvram_env_get n)(name \<mapsto> value)
        \<and> vf_nvram_env_get_uint n' name dflt = parse_env_uint value
    | (ERR, n') \<Rightarrow> n' = n \<and> \<not> (env_args_ok name value
        \<and> (vf_nvram_env_get n name \<noteq> None \<or> card (dom (vf_nvram_env_get n)) < VF_NVRAM_MAX_ENV)))
    \<and> vf_nvram_env_get (snd (vf_nvram_env_unset n k)) = (vf_nvram_env_get n)(k := None)
    \<and> fst (vf_nvram_env_unset n k) = (vf_nvram_env_get n k \<noteq> None)"
proof -
  have inv: "env_inv n" using assms(1) by (rule nvram_env_reachable_inv)
  then have d: "distinct (map env_name (nv_env n))" and l: "length (nv_env n) \<le> 32" by (simp_all add: env_inv_def)
  have present: "(vf_nvram_env_get n x = None) = (nvram_find_env n x = None)" for x
    by (simp add: vf_nvram_env_get_def)
  have unset: "vf_nvram_env_get (snd (vf_nvram_env_unset n k)) = (vf_nvram_env_get n)(k := None)"
    "fst (vf_nvram_env_unset n k) = (vf_nvram_env_get n k \<noteq> None)"
    by (simp_all add: env_unset_filter d env_map_filter present)
      (simp add: vf_nvram_env_unset_def split: option.split)
  let ?v = "\<lparr>env_name = name, env_value = value, env_flags = fl, parsed_uint = parse_env_uint value\<rparr>"
  let ?f = "n\<lparr>nv_env := filter (\<lambda>v. env_name v \<noteq> name) (nv_env n)\<rparr>"
  have dv: "distinct (map env_name (nv_env ?f @ [?v]))" using d by (auto simp: distinct_map_filter)
  have get: "vf_nvram_env_get (?f\<lparr>nv_env := nv_env ?f @ [?v]\<rparr>) = (vf_nvram_env_get n)(name \<mapsto> value)"
    using env_map_snoc [OF dv] by (simp add: env_map_filter [OF d])
  have uint: "vf_nvram_env_get_uint (?f\<lparr>nv_env := nv_env ?f @ [?v]\<rparr>) name dflt = parse_env_uint value"
    using find_env_eq [of "?f\<lparr>nv_env := nv_env ?f @ [?v]\<rparr>" ?v] dv by (auto simp: vf_nvram_env_get_uint_def)
  show ?thesis
    using get uint unset l by (auto simp: env_set_cases [OF inv assms(2,3)] present env_map_card [OF inv])
qed

theorem nvram_env_bounded_map_witness:
  "vf_nvram_env_get (snd (vf_nvram_env_set (snd (vf_nvram_init undefined)) [0x61] [0x31] 0)) [0x61] = Some [0x31]"
proof -
  let ?n = "snd (vf_nvram_init undefined)"
  have "vf_nvram_env_get ?n = Map.empty"
    by (simp add: fun_eq_iff vf_nvram_env_get_def nvram_find_env_def nvram_init_state nvram_zero_def)
  moreover have "env_args_ok [0x61] [0x31]" by (simp add: env_args_ok_def)
  moreover obtain c n' where "vf_nvram_env_set ?n [0x61] [0x31] 0 = (c, n')" by fastforce
  ultimately show ?thesis
    using nvram_env_bounded_map [OF nvram_env_reachable.init [of undefined], of "[0x61]" "[0x31]" 0 0 "[]"]
    by (cases c) simp_all
qed


section \<open>The text of the environment\<close>

definition env_text :: "vf_nvram_env list \<Rightarrow> u8 list" where
  "env_text vs = concat (map (\<lambda>v. env_name v @ [0x3d] @ env_value v @ [0]) vs)"

lemma env_text_simps [simp]:
  "env_text [] = []" "env_text (v # vs) = env_name v @ 0x3d # env_value v @ 0 # env_text vs"
  by (simp_all add: env_text_def)

lemma env_serialize_text:
  "nvram_env_serialize_loop vs buf pos = Some (p, buf') \<Longrightarrow> pos \<le> length buf \<Longrightarrow>
   p = pos + length (env_text vs) \<and> p \<le> length buf \<and>
   buf' = (let b = splice buf pos (env_text vs) in if p < length buf then b[p := 0] else b)"
proof (induction vs buf pos rule: nvram_env_serialize_loop.induct)
  case (1 buf pos)
  then show ?case by (auto simp: Let_def splice_def)
next
  case (2 v vs buf pos)
  let ?t = "env_name v @ [0x3d] @ env_value v @ [0]"
  have fit: "pos + length ?t \<le> length buf"
    using "2.prems" by (auto simp: nvram_format_env_entry_def Let_def split: if_splits)
  then have f: "nvram_format_env_entry buf pos (env_name v) (env_value v) =
      Some (length (env_name v) + 1 + length (env_value v), splice buf pos ?t)"
    by (simp add: nvram_format_env_entry_def Let_def)
  have l: "length (splice buf pos ?t) = length buf" using fit by (rule length_splice)
  from "2.IH" [OF f refl] "2.prems" fit
  have "p = pos + length ?t + length (env_text vs)" "p \<le> length buf"
    "buf' = (let b = splice (splice buf pos ?t) (pos + length ?t) (env_text vs) in if p < length buf then b[p := 0] else b)"
    by (auto simp: f l add_ac simp del: append_Cons append_Nil)
  moreover have "splice (splice buf pos ?t) (pos + length ?t) (env_text vs) = splice buf pos (?t @ env_text vs)"
    using fit by (intro splice_append) auto
  ultimately show ?case by simp
qed

lemma load_env_step:
  assumes "name \<noteq> []" "0 \<notin> set name" "0x3d \<notin> set name" "0 \<notin> set v" "length name < VF_NVRAM_ENV_NAME_MAX"
    "length v < VF_NVRAM_ENV_VALUE_MAX"
  shows "nvram_load_env n (name @ 0x3d # v @ 0 # rest) =
    (case vf_nvram_env_set n name v 0 of (ERR, n1) \<Rightarrow> (ERR, n1) | (OK, n1) \<Rightarrow> nvram_load_env n1 rest)"
proof -
  have tw1: "takeWhile (\<lambda>c. c \<noteq> 0 \<and> c \<noteq> 0x3d) (name @ 0x3d # v @ 0 # rest) = name"
    using assms(2,3) by (subst takeWhile_append2) auto
  have tw2: "takeWhile (\<lambda>c. c \<noteq> 0) (v @ 0 # rest) = v"
    using assms(4) by (subst takeWhile_append2) auto
  have hd: "hd (name @ 0x3d # v @ 0 # rest) \<noteq> 0" using assms(1,2) by (cases name) auto
  show ?thesis
    by (subst nvram_load_env.simps) (use assms(5,6) hd in \<open>simp add: tw1 tw2 Let_def split: prod.split rc.split\<close>)
qed

lemma load_env_end: "rest = [] \<or> hd rest = 0 \<Longrightarrow> nvram_load_env n rest = (OK, n)"
  by (subst nvram_load_env.simps) simp

definition env_storable :: "vf_nvram_env list \<Rightarrow> bool" where
  "env_storable vs \<longleftrightarrow> (\<forall>v \<in> set vs. env_entry_ok v \<and> 0x3d \<notin> set (env_name v))"

lemma load_env_text:
  assumes "env_storable vs" "env_inv n" "distinct (map env_name (nv_env n @ vs))" "length (nv_env n @ vs) \<le> VF_NVRAM_MAX_ENV"
    "rest = [] \<or> hd rest = 0"
  shows "nvram_load_env n (env_text vs @ rest) = (OK, n\<lparr>nv_env := nv_env n @ map (env_flags_update (\<lambda>_. 0)) vs\<rparr>)"
  using assms
proof (induction vs arbitrary: n)
  case Nil
  then show ?case by (simp add: load_env_end)
next
  case (Cons v vs)
  let ?n1 = "n\<lparr>nv_env := nv_env n @ [v\<lparr>env_flags := 0\<rparr>]\<rparr>"
  have v: "env_entry_ok v" "0x3d \<notin> set (env_name v)" using Cons.prems(1) by (simp_all add: env_storable_def)
  have absent: "nvram_find_env n (env_name v) = None" using Cons.prems(3) by (auto simp: find_env_None)
  have "\<lparr>env_name = env_name v, env_value = env_value v, env_flags = 0, parsed_uint = parse_env_uint (env_value v)\<rparr> =
      v\<lparr>env_flags := 0\<rparr>" using v(1) by (simp add: env_entry_ok_def)
  then have set: "vf_nvram_env_set n (env_name v) (env_value v) 0 = (OK, ?n1)"
    using v Cons.prems(2,4) absent
    by (subst env_set_cases) (auto simp: env_entry_ok_def env_args_ok_def env_filter_absent)
  have inv1: "env_inv ?n1"
    using env_inv_set [OF Cons.prems(2), of "env_name v" "env_value v" 0] v set by (simp add: env_entry_ok_def)
  have "nvram_load_env ?n1 (env_text vs @ rest) = (OK, ?n1\<lparr>nv_env := nv_env ?n1 @ map (env_flags_update (\<lambda>_. 0)) vs\<rparr>)"
    by (rule Cons.IH) (use Cons.prems inv1 in \<open>auto simp: env_storable_def\<close>)
  then show ?case
    using v load_env_step [of "env_name v" "env_value v" n "env_text vs @ rest"] set by (simp add: env_entry_ok_def)
qed

section \<open>Partition headers\<close>

lemma chrp_checksum_byte1: "vf_nvram_chrp_checksum (h[1 := c]) = vf_nvram_chrp_checksum h"
  by (simp add: vf_nvram_chrp_checksum_def)

lemma be16_codec: "n < 65536 \<Longrightarrow> be16_to_host (host_to_be16 n) = n"
proof -
  assume n: "n < 65536"
  have m: "(0xff :: u32) = mask 8" "(0xff :: u16) = mask 8" by (simp_all add: mask_eq_exp_minus_1)
  have "drop_bit 8 (host_to_be16 n) OR push_bit 8 (host_to_be16 n AND 0xff) = of_nat n"
    unfolding host_to_be16_def Let_def m
    by (rule bit_word_eqI) (auto simp: bit_simps)
  then show ?thesis using n by (simp add: be16_to_host_def unat_of_nat take_bit_eq_mod)
qed

lemma get_put_le16 [simp]: "get_le16 (put_le16 v @ xs) = v"
proof (rule bit_word_eqI)
  fix k assume "k < LENGTH(16)"
  then show "bit (get_le16 (put_le16 v @ xs)) k \<longleftrightarrow> bit v k"
    by (cases "bit v k") (auto simp: get_le16_def put_le16_def bit_or_iff bit_byte_lane bit_byte_lane0)
qed

lemma chrp_hdr_fields:
  assumes "length name12 = 12" "units < 65536"
  shows "length (chrp_hdr sig units name12) = 16" "chrp_hdr sig units name12 ! 0 = sig"
    "chrp_hdr sig units name12 ! 1 = vf_nvram_chrp_checksum (chrp_hdr sig units name12)"
    "be16_to_host (get_le16 (drop 2 (chrp_hdr sig units name12))) = units"
    "drop 4 (chrp_hdr sig units name12) = name12"
proof -
  have l16: "length (put_le16 v) = 2" for v by (simp add: put_le16_def)
  let ?h = "[sig, 0] @ put_le16 (host_to_be16 units) @ name12"
  have h: "chrp_hdr sig units name12 = ?h[1 := vf_nvram_chrp_checksum ?h]" by (simp add: chrp_hdr_def Let_def)
  show "length (chrp_hdr sig units name12) = 16" "chrp_hdr sig units name12 ! 0 = sig"
    using assms by (simp_all add: h l16)
  show "chrp_hdr sig units name12 ! 1 = vf_nvram_chrp_checksum (chrp_hdr sig units name12)"
    unfolding h chrp_checksum_byte1 by (simp add: l16)
  show "be16_to_host (get_le16 (drop 2 (chrp_hdr sig units name12))) = units"
    using assms by (simp add: h be16_codec)
  show "drop 4 (chrp_hdr sig units name12) = name12" using assms by (simp add: h l16)
qed


section \<open>The layout of a bank\<close>

definition part_ok :: "vf_nvram_part \<Rightarrow> bool" where
  "part_ok p \<longleftrightarrow> 0 < part_len p \<and> part_len p mod 16 = 0 \<and> part_len p \<le> VF_NVRAM_COMMON_PART_LEN
     \<and> part_sig p \<noteq> VF_NVRAM_CHRP_PART_FREE \<and> length (part_name p) = 16
     \<and> take 12 (part_name p) \<noteq> VF_NVRAM_PANIC_PART_NAME \<and> length (part_data p) = VF_NVRAM_COMMON_PART_LEN"

definition part_image :: "vf_nvram_part \<Rightarrow> u8 list" where
  "part_image p = chrp_hdr (part_sig p) (part_len p div 16 + 1) (take 12 (part_name p)) @ take (part_len p) (part_data p)"

text \<open>The partition as it comes back: the name's tail is three bytes of data, behind \<open>part_len\<close> the
  data is zero.\<close>

definition part_reload :: "vf_nvram_part \<Rightarrow> vf_nvram_part" where
  "part_reload p = p\<lparr>part_name := take 12 (part_name p) @ take 3 (part_data p) @ [0],
     part_data := splice (replicate VF_NVRAM_COMMON_PART_LEN 0) 0 (take (part_len p) (part_data p))\<rparr>"

lemma part_units:
  assumes "part_ok p"
  shows "(part_len p + 0x10 + 0xf) div 0x10 = part_len p div 16 + 1" "(part_len p div 16 + 1) * 16 = part_len p + 16"
    "part_len p div 16 + 1 < 65536" "16 \<le> part_len p"
  using assms by (auto simp: part_ok_def)

lemma part_image_length: "part_ok p \<Longrightarrow> length (part_image p) = part_len p + 16"
  using chrp_hdr_fields(1) [of "take 12 (part_name p)" "part_len p div 16 + 1" "part_sig p"] part_units(3) [of p]
  by (simp add: part_image_def part_ok_def)

lemma prepare_parts_images:
  assumes "\<forall>p \<in> set ps. part_ok p" "nvram_prepare_parts ps off buf = (Some off', buf')" "off \<le> length buf"
  shows "off' = off + length (concat (map part_image ps)) \<and> off' \<le> length buf
    \<and> buf' = splice buf off (concat (map part_image ps))"
  using assms
proof (induction ps arbitrary: off buf)
  case Nil
  then show ?case by (simp add: splice_def)
next
  case (Cons p ps)
  have p: "part_ok p" "part_len p \<noteq> 0" using Cons.prems(1) by (auto simp: part_ok_def)
  note u = part_units [OF p(1)]
  let ?h = "chrp_hdr (part_sig p) (part_len p div 16 + 1) (take 12 (part_name p))"
  have fit: "off + (part_len p + 16) \<le> length buf"
    using Cons.prems(2) p u by (auto simp: Let_def split: if_splits)
  have h: "length ?h = 16" using chrp_hdr_fields(1) p(1) u(3) by (simp add: part_ok_def)
  let ?b = "splice (splice buf off ?h) (off + 16) (take (part_len p) (part_data p))"
  have b: "?b = splice buf off (part_image p)"
    unfolding part_image_def using fit h by (intro splice_append) auto
  have "nvram_prepare_parts ps (off + (part_len p + 16)) ?b = (Some off', buf')"
    using Cons.prems(2) p u fit by (simp add: Let_def add_ac)
  moreover have "length ?b = length buf" unfolding b using fit by (simp add: part_image_length p(1))
  ultimately have "off' = off + (part_len p + 16) + length (concat (map part_image ps)) \<and> off' \<le> length buf
    \<and> buf' = splice ?b (off + (part_len p + 16)) (concat (map part_image ps))"
    using Cons.IH [of "off + (part_len p + 16)" ?b] Cons.prems(1) fit by auto
  moreover have "splice ?b (off + (part_len p + 16)) (concat (map part_image ps)) =
      splice buf off (part_image p @ concat (map part_image ps))"
    unfolding b using fit by (intro splice_append) (auto simp: part_image_length p(1))
  ultimately show ?case by (simp add: part_image_length p(1))
qed

definition bank_tail :: "nat \<Rightarrow> u8 list" where
  "bank_tail k = (if 16 \<le> k then chrp_hdr VF_NVRAM_CHRP_PART_FREE (k div 16) (replicate 12 0) @ replicate (k - 16) 0
     else replicate k 0)"

lemma bank_tail_length: "k < 0x10000 \<Longrightarrow> length (bank_tail k) = k"
  using chrp_hdr_fields(1) [of "replicate 12 0" "k div 16" VF_NVRAM_CHRP_PART_FREE] by (simp add: bank_tail_def)

text \<open>The table as the parser reads it: images one after another, then the tail.\<close>

lemma parse_loop_tail:
  assumes "length pre = off" "len = off + k" "k < 0x10000"
  shows "nvram_parse_loop (pre @ bank_tail k @ post) len off n = Some (OK, n)"
proof (cases "16 \<le> k")
  case True
  have "take 16 (drop off (pre @ bank_tail k @ post)) = chrp_hdr VF_NVRAM_CHRP_PART_FREE (k div 16) (replicate 12 0)"
    using True assms chrp_hdr_fields(1) [of "replicate 12 0" "k div 16" VF_NVRAM_CHRP_PART_FREE]
    by (simp add: bank_tail_def)
  with True assms bank_tail_length [OF assms(3)] chrp_hdr_fields [of "replicate 12 0" "k div 16" VF_NVRAM_CHRP_PART_FREE] show ?thesis
    by (subst nvram_parse_loop.simps) (simp add: Let_def)
next
  case False
  with assms show ?thesis by (subst nvram_parse_loop.simps) simp
qed


lemma parse_loop_part:
  assumes "part_ok p" "length pre = off" "off + (part_len p + 16) \<le> len" "length (nv_parts n) < VF_NVRAM_MAX_PARTS"
  shows "nvram_parse_loop (pre @ part_image p @ post) len off n =
    nvram_parse_loop (pre @ part_image p @ post) len (off + (part_len p + 16)) (n\<lparr>nv_parts := nv_parts n @ [part_reload p]\<rparr>)"
proof -
  define un where "un = part_len p div 16 + 1"
  have u: "un * 16 = part_len p + 16" "un < 65536" "16 \<le> part_len p" "\<not> un < 1"
    using part_units [OF assms(1)] by (simp_all add: un_def)
  let ?h = "chrp_hdr (part_sig p) un (take 12 (part_name p))"
  let ?buf = "pre @ part_image p @ post"
  have ok: "part_len p \<le> 2032" "part_sig p \<noteq> 0x7f" "length (part_name p) = 16" "take 12 (part_name p) \<noteq> VF_NVRAM_PANIC_PART_NAME"
    "length (part_data p) = 2032" using assms(1) by (simp_all add: part_ok_def)
  have len12: "length (take 12 (part_name p)) = 12" using ok(3) by simp
  note hf = chrp_hdr_fields [OF len12 u(2), of "part_sig p"]
  have img: "part_image p = ?h @ take (part_len p) (part_data p)" by (simp add: part_image_def un_def)
  have hdr: "take 16 (drop off ?buf) = ?h" using assms(2) hf(1) by (simp add: img)
  have name: "take 15 (drop (off + 4) ?buf) = take 12 (part_name p) @ take 3 (part_data p)"
    using assms(2) hf(1,5) ok u(3) by (simp add: img min_def)
  have data: "take (part_len p) (drop (off + 16) ?buf) = take (part_len p) (part_data p)"
    using assms(2) hf(1) ok by (simp add: img)
  have rel: "nvram_zero_part\<lparr>part_sig := part_sig p, part_len := part_len p,
      part_name := splice (part_name nvram_zero_part) 0 (take 12 (part_name p) @ take 3 (part_data p)),
      part_data := splice (part_data nvram_zero_part) 0 (take (part_len p) (part_data p))\<rparr> = part_reload p"
    using ok len12 by (simp add: nvram_zero_part_def part_reload_def splice_def numeral_eq_Suc)
  have conds: "\<not> len < off + 16" "\<not> length ?buf < off + 16" "\<not> length ?buf < off + 16 + part_len p" "\<not> len < un * 16 + off" "un * 16 - 16 = part_len p" "\<not> 8 \<le> length (nv_parts n)"
    "\<not> 2032 < part_len p" "\<not> length ?buf < off + 4 + 15" "\<not> len < off + 16 + part_len p" "off + un * 16 = off + (part_len p + 16)"
    using assms ok u by (simp_all add: part_image_length)
  show ?thesis
    by (subst nvram_parse_loop.simps)
      (simp only: hdr Let_def hf name data conds u(4) ok(2,4) if_False simp_thms rel [symmetric]
        vf_nvram_part.select_convs vf_nvram_part.update_convs vf_nvram_part.simps, simp)
qed

lemma parse_loop_images:
  assumes "\<forall>p \<in> set ps. part_ok p" "length pre = off" "len = off + length (concat (map part_image ps)) + k" "k < 0x10000"
    "length (nv_parts n) + length ps \<le> VF_NVRAM_MAX_PARTS"
  shows "nvram_parse_loop (pre @ concat (map part_image ps) @ bank_tail k @ post) len off n =
    Some (OK, n\<lparr>nv_parts := nv_parts n @ map part_reload ps\<rparr>)"
  using assms
proof (induction ps arbitrary: pre off n)
  case Nil
  then show ?case using parse_loop_tail [of pre off len k post n] by simp
next
  case (Cons p ps)
  have p: "part_ok p" using Cons.prems(1) by simp
  let ?n = "n\<lparr>nv_parts := nv_parts n @ [part_reload p]\<rparr>"
  have step: "nvram_parse_loop (pre @ part_image p @ (concat (map part_image ps) @ bank_tail k @ post)) len off n =
    nvram_parse_loop (pre @ part_image p @ (concat (map part_image ps) @ bank_tail k @ post)) len (off + (part_len p + 16)) ?n"
    by (rule parse_loop_part) (use p Cons.prems in \<open>auto simp: part_image_length\<close>)
  have "nvram_parse_loop ((pre @ part_image p) @ concat (map part_image ps) @ bank_tail k @ post) len (off + (part_len p + 16)) ?n =
    Some (OK, ?n\<lparr>nv_parts := nv_parts ?n @ map part_reload ps\<rparr>)"
    by (rule Cons.IH) (use p Cons.prems in \<open>auto simp: part_image_length\<close>)
  with step show ?case by simp
qed

text \<open>The bank as written.\<close>

definition bank_hdr :: "u32 \<Rightarrow> u32 \<Rightarrow> u8 list" where
  "bank_hdr adler gen = chrp_hdr VF_NVRAM_CHRP_SIG 2 ([0x6e, 0x76, 0x72, 0x61, 0x6d, 0] @ replicate 6 0)
     @ put_le32 adler @ put_le32 gen @ replicate 8 0"

lemma splice_middle: "length pre = off \<Longrightarrow> length xs = length ys \<Longrightarrow> splice (pre @ xs @ post) off ys = pre @ ys @ post"
  by (simp add: splice_def)

lemma prepare_bank_layout:
  assumes "nvram_prepare_bank n buf = (OK, bank)" "\<forall>p \<in> set (nv_parts n). part_ok p" "length buf \<le> VF_NVRAM_BANK_MAX_LEN"
  defines "images \<equiv> concat (map part_image (nv_parts n))"
  defines "k \<equiv> length buf - 0x20 - length images"
  shows "0x20 + length images \<le> length buf
    \<and> bank = bank_hdr (vf_nvram_adler32 1 (put_le32 (nv_generation n) @ replicate 8 0 @ images @ bank_tail k)) (nv_generation n)
        @ images @ bank_tail k"
proof -
  let ?nm = "[0x6e, 0x76, 0x72, 0x61, 0x6d, 0] @ replicate 6 0 :: u8 list"
  define h0 where "h0 = chrp_hdr VF_NVRAM_CHRP_SIG 2 ?nm"
  let ?L = "length buf" and ?g = "put_le32 (nv_generation n)"
  have L: "0x40 \<le> ?L" using assms(1) by (auto simp: nvram_prepare_bank_def split: if_splits)
  have h: "length h0 = 16" unfolding h0_def by (rule chrp_hdr_fields(1)) simp_all
  define z where "z = replicate (?L - 0x20) (0 :: u8)"
  define b2 where "b2 = splice (splice (replicate ?L 0) 0 h0) 0x14 ?g"
  have "replicate ?L (0 :: u8) = replicate 16 0 @ replicate 4 0 @ replicate 4 0 @ replicate 8 0 @ z"
    using L by (simp add: z_def flip: replicate_add)
  then have b2: "b2 = h0 @ replicate 4 0 @ ?g @ replicate 8 0 @ z"
    using h splice_middle [of "[]" 0 "replicate 16 0" h0] splice_middle [of "h0 @ replicate 4 0" 20 "replicate 4 0" ?g]
    by (simp add: b2_def)
  have lb2: "length b2 = ?L" using L by (simp add: b2 h z_def)
  define fin where "fin off b3 = (let b4 = (if off + 16 \<le> ?L
      then splice b3 off (chrp_hdr VF_NVRAM_CHRP_PART_FREE ((?L - off) div 0x10) (replicate 12 0)) else b3) in
      splice b4 0x10 (put_le32 (vf_nvram_adler32 1 (drop 0x14 b4))))" for off b3
  have unf: "nvram_prepare_bank n buf = (case nvram_prepare_parts (nv_parts n) 0x20 b2 of
      (None, b3) \<Rightarrow> (ERR, b3) | (Some off, b3) \<Rightarrow> (OK, fin off b3))"
    unfolding nvram_prepare_bank_def Let_def b2_def h0_def fin_def by (rule if_not_P) (use L in simp)
  obtain off b3 where pp: "nvram_prepare_parts (nv_parts n) 0x20 b2 = (Some off, b3)" and bank: "bank = fin off b3"
    using assms(1) unfolding unf by (auto split: prod.splits option.splits)
  from prepare_parts_images [OF assms(2) pp] lb2 L
  have off: "off = 0x20 + length images" "off \<le> ?L" and b3: "b3 = splice b2 0x20 images"
    by (simp_all add: images_def)
  have z: "z = replicate (length images) 0 @ replicate k 0"
    using off by (simp add: z_def k_def flip: replicate_add)
  have b3': "b3 = h0 @ replicate 4 0 @ ?g @ replicate 8 0 @ images @ replicate k 0"
    using h splice_middle [of "h0 @ replicate 4 0 @ ?g @ replicate 8 0" 32 "replicate (length images) 0" images "replicate k 0"]
    by (simp add: b3 b2 z)
  define b4 where "b4 = (if off + 16 \<le> ?L then splice b3 off (chrp_hdr VF_NVRAM_CHRP_PART_FREE ((?L - off) div 0x10) (replicate 12 0)) else b3)"
  have koff: "?L - off = k" using off by (simp add: k_def)
  have k: "k < 0x10000" using assms(3) by (simp add: k_def)
  have b4': "b4 = h0 @ replicate 4 0 @ ?g @ replicate 8 0 @ images @ bank_tail k"
  proof (cases "16 \<le> k")
    case True
    let ?f = "chrp_hdr VF_NVRAM_CHRP_PART_FREE (k div 16) (replicate 12 0)"
    have f: "length ?f = 16" using chrp_hdr_fields(1) [of "replicate 12 0" "k div 16"] k by simp
    have "replicate k (0 :: u8) = replicate 16 0 @ replicate (k - 16) 0" using True by (simp flip: replicate_add)
    with True off f h koff show ?thesis
      using splice_middle [of "h0 @ replicate 4 0 @ ?g @ replicate 8 0 @ images" off "replicate 16 0" ?f "replicate (k - 16) 0"]
      by (auto simp: b4_def b3' bank_tail_def)
  next
    case False
    with koff off show ?thesis by (auto simp: b4_def b3' bank_tail_def)
  qed
  have "bank = splice b4 0x10 (put_le32 (vf_nvram_adler32 1 (drop 0x14 b4)))"
    unfolding bank fin_def Let_def b4_def by (rule refl)
  then have "bank = h0 @ put_le32 (vf_nvram_adler32 1 (?g @ replicate 8 0 @ images @ bank_tail k)) @ ?g @ replicate 8 0 @ images @ bank_tail k"
    using h splice_middle [of h0 16 "replicate 4 0"] by (simp add: b4')
  then show ?thesis using off by (simp add: bank_hdr_def h0_def)
qed


section \<open>Saving and loading\<close>

lemma takeWhile_str:
  "0 \<notin> set s \<Longrightarrow> length s < length xs \<Longrightarrow>
   (takeWhile (\<lambda>b. b \<noteq> 0) xs = s) = (take (Suc (length s)) xs = s @ [0 :: u8])"
proof (induction s arbitrary: xs)
  case Nil
  then show ?case by (cases xs) auto
next
  case (Cons c s)
  then show ?case by (cases xs) auto
qed

lemma cstr_reload:
  assumes "part_ok p"
  shows "(cstr (part_name (part_reload p)) = nvram_common) = (cstr (part_name p) = nvram_common)"
proof -
  have l: "length (part_name p) = 16" "length (part_data p) = 2032" using assms by (simp_all add: part_ok_def)
  have c: "0 \<notin> set nvram_common" "length nvram_common = 6" by (simp_all add: nvram_common_def)
  have "take 7 (part_name (part_reload p)) = take 7 (part_name p)" using l by (simp add: part_reload_def)
  then show ?thesis
    unfolding cstr_def using l c takeWhile_str [of nvram_common "part_name p"]
      takeWhile_str [of nvram_common "part_name (part_reload p)"]
    by (simp add: part_reload_def)
qed

lemma find_part_reload:
  assumes "\<forall>p \<in> set ps. part_ok p" "nv_parts n = map part_reload ps" "nv_parts m = ps"
  shows "nvram_find_part n nvram_common = nvram_find_part m nvram_common"
proof -
  have "map (\<lambda>i. cstr (part_name (nv_parts n ! i)) = nvram_common) [0..<length ps] =
      map (\<lambda>i. cstr (part_name (nv_parts m ! i)) = nvram_common) [0..<length ps]"
    using assms cstr_reload by auto
  then show ?thesis
    unfolding nvram_find_part_def using assms(2,3) by (auto intro!: find_cong)
qed

lemma find_part_Some:
  "nvram_find_part n name = Some i \<Longrightarrow> i < length (nv_parts n) \<and> cstr (part_name (nv_parts n ! i)) = name"
  unfolding nvram_find_part_def by (simp only: find_upt_Some)

definition nvram_wf :: "vf_nvram_v1 \<Rightarrow> bool" where
  "nvram_wf n \<longleftrightarrow> env_inv n \<and> env_storable (nv_env n) \<and> length (nv_parts n) \<le> VF_NVRAM_MAX_PARTS
     \<and> (\<forall>p \<in> set (nv_parts n). part_ok p)"

lemma common_name: "nvram_copy_str (part_name nvram_zero_part) nvram_common = nvram_common @ replicate 10 0"
proof -
  have "part_name nvram_zero_part = replicate 16 0" by (simp add: nvram_zero_part_def)
  moreover have "replicate 10 (0 :: u8) = 0 # replicate 9 0" by (simp add: numeral_eq_Suc)
  ultimately show ?thesis by (simp add: nvram_copy_str_def nvram_common_def Let_def splice_def)
qed

lemma common_part_ok:
  "part_ok (nvram_zero_part\<lparr>part_sig := VF_NVRAM_COMMON_SIG,
     part_name := nvram_copy_str (part_name nvram_zero_part) nvram_common, part_len := VF_NVRAM_COMMON_PART_LEN\<rparr>)"
  "cstr (nvram_copy_str (part_name nvram_zero_part) nvram_common) = nvram_common"
proof -
  have "length (part_data nvram_zero_part) = 2032" by (simp add: nvram_zero_part_def)
  moreover have "take 12 (nvram_common @ replicate 10 0) \<noteq> VF_NVRAM_PANIC_PART_NAME"
    by (simp add: nvram_common_def VF_NVRAM_PANIC_PART_NAME_def)
  ultimately show "part_ok (nvram_zero_part\<lparr>part_sig := VF_NVRAM_COMMON_SIG,
     part_name := nvram_copy_str (part_name nvram_zero_part) nvram_common, part_len := VF_NVRAM_COMMON_PART_LEN\<rparr>)"
    unfolding common_name by (simp add: part_ok_def nvram_common_def)
  show "cstr (nvram_copy_str (part_name nvram_zero_part) nvram_common) = nvram_common"
    unfolding common_name by (simp add: cstr_def nvram_common_def)
qed

lemma ensure_common_wf:
  assumes "nvram_wf n" "nvram_ensure_common n = (Some i, s)"
  shows "nvram_wf s" "nv_env s = nv_env n" "nv_generation s = nv_generation n" "nvram_find_part s nvram_common = Some i"
proof -
  show "nvram_wf s" "nv_env s = nv_env n" "nv_generation s = nv_generation n"
    using assms common_part_ok(1)
    by (auto simp: nvram_ensure_common_def nvram_wf_def env_inv_def split: option.splits if_splits)
  show "nvram_find_part s nvram_common = Some i"
  proof (cases "nvram_find_part n nvram_common")
    case None
    let ?c = "nvram_zero_part\<lparr>part_sig := VF_NVRAM_COMMON_SIG,
       part_name := nvram_copy_str (part_name nvram_zero_part) nvram_common, part_len := VF_NVRAM_COMMON_PART_LEN\<rparr>"
    from None have s: "nv_parts s = nv_parts n @ [?c]" "i = length (nv_parts n)"
      using assms(2) by (auto simp: nvram_ensure_common_def split: if_splits)
    have "\<forall>j < i. cstr (part_name (nv_parts s ! j)) \<noteq> nvram_common"
      using None s unfolding nvram_find_part_def find_upt_None by (simp add: nth_append)
    then show ?thesis
      unfolding nvram_find_part_def find_upt_Some using s common_part_ok(2) by (simp add: nth_append)
  next
    case (Some j)
    with assms(2) show ?thesis by (simp add: nvram_ensure_common_def)
  qed
qed

lemma env_serialize_prefix:
  assumes "nvram_env_serialize n buf = Some (p, buf')"
  shows "\<exists>rest. buf' = env_text (nv_env n) @ rest \<and> (rest = [] \<or> hd rest = 0) \<and> length buf' = length buf"
proof -
  from env_serialize_text [of "nv_env n" buf 0 p buf'] assms
  have p: "p = length (env_text (nv_env n))" "p \<le> length buf"
    and b: "buf' = (let b = splice buf 0 (env_text (nv_env n)) in if p < length buf then b[p := 0] else b)"
    by (simp_all add: nvram_env_serialize_def)
  show ?thesis
  proof (cases "p < length buf")
    case True
    then have "drop p buf \<noteq> []" by simp
    then have "hd ((drop p buf)[0 := 0]) = 0" by (cases "drop p buf") auto
    moreover have "buf' = env_text (nv_env n) @ (drop p buf)[0 := 0]"
      using True p b by (simp add: splice_def list_update_append)
    ultimately show ?thesis using p by auto
  next
    case False
    with p b show ?thesis by (simp add: splice_def)
  qed
qed


lemma bank_hdr_length: "length (bank_hdr adler gen) = 0x20"
  using chrp_hdr_fields(1) [of "[0x6e, 0x76, 0x72, 0x61, 0x6d, 0] @ replicate 6 0" 2 VF_NVRAM_CHRP_SIG]
  by (simp add: bank_hdr_def)

lemma bank_splice: "b = h @ body \<Longrightarrow> k = length b \<Longrightarrow> splice buf 0 b = h @ body @ drop k buf"
  by (simp add: splice_def)

text \<open>What the parser makes of a bank in that layout.\<close>

lemma parse_bank_layout:
  fixes gen :: u32
  assumes ps: "\<forall>p \<in> set ps. part_ok p" "length ps \<le> VF_NVRAM_MAX_PARTS" and k: "k < 0x10000"
  defines "body \<equiv> concat (map part_image ps) @ bank_tail k"
  defines "n2 \<equiv> nvram_zero\<lparr>bank_len := 0x20 + length body, nv_generation := gen, nv_parts := map part_reload ps\<rparr>"
  assumes i: "nvram_find_part n2 nvram_common = Some i"
    and load: "nvram_load_env_from_common n2 (nv_parts n2 ! i) = (OK, n3)"
  shows "vf_nvram_parse_bank n0 (bank_hdr (vf_nvram_adler32 1 (put_le32 gen @ replicate 8 0 @ body)) gen @ body @ post)
    (0x20 + length body) = Some (OK, n3)"
proof -
  define h0 where "h0 = chrp_hdr VF_NVRAM_CHRP_SIG 2 ([0x6e, 0x76, 0x72, 0x61, 0x6d, 0] @ replicate 6 0)"
  have h: "length h0 = 16" "h0 ! 1 = vf_nvram_chrp_checksum h0"
    unfolding h0_def by (rule chrp_hdr_fields; simp)+
  let ?A = "vf_nvram_adler32 1 (put_le32 gen @ replicate 8 0 @ body)"
  have hdr: "bank_hdr ?A gen = h0 @ put_le32 ?A @ put_le32 gen @ replicate 8 0" by (simp add: bank_hdr_def h0_def)
  let ?buf = "bank_hdr ?A gen @ body @ post"
  have l: "length (bank_hdr ?A gen) = 0x20" by (simp add: hdr h)
  have f: "take 16 ?buf = h0" "?buf ! 1 = h0 ! 1" "drop 0x10 ?buf = put_le32 ?A @ put_le32 gen @ replicate 8 0 @ body @ post"
    "drop 0x14 ?buf = put_le32 gen @ replicate 8 0 @ body @ post"
    by (simp_all add: hdr h nth_append)
  have a: "take (0x20 + length body - 0x14) (drop 0x14 ?buf) = put_le32 gen @ replicate 8 0 @ body" unfolding f by simp
  let ?n1 = "nvram_zero\<lparr>bank_len := 0x20 + length body, nv_generation := gen\<rparr>"
  have "nvram_parse_loop (bank_hdr ?A gen @ concat (map part_image ps) @ bank_tail k @ post) (0x20 + length body) 0x20 (?n1\<lparr>nv_parts := []\<rparr>) =
      Some (OK, (?n1\<lparr>nv_parts := []\<rparr>)\<lparr>nv_parts := nv_parts (?n1\<lparr>nv_parts := []\<rparr>) @ map part_reload ps\<rparr>)"
    by (rule parse_loop_images) (use ps k l in \<open>simp_all add: body_def bank_tail_length\<close>)
  then have parts: "nvram_parse_partitions ?n1 ?buf (0x20 + length body) = Some (OK, n2)"
    by (simp add: nvram_parse_partitions_def body_def n2_def)
  have "i < length ps" using find_part_Some [OF i] by (simp add: n2_def)
  then have fits: "\<not> part_len (nv_parts n2 ! i) > 2032"
    using ps(1) by (simp add: n2_def part_reload_def part_ok_def not_less)
  show ?thesis
    unfolding vf_nvram_parse_bank_def Let_def a unfolding f
    by (simp add: h [simplified] l parts i load fits)
qed

lemma reload_data: "part_ok p \<Longrightarrow> take (part_len p) (part_data (part_reload p)) = take (part_len p) (part_data p)"
  by (simp add: part_reload_def splice_def part_ok_def min_def)

lemma reload_fields:
  assumes "part_ok p"
  shows "part_sig (part_reload p) = part_sig p" "take 12 (part_name (part_reload p)) = take 12 (part_name p)"
    "part_len (part_reload p) = part_len p"
  using assms by (simp_all add: part_reload_def part_ok_def)

lemma part_ok_data: "part_ok p \<Longrightarrow> length d = part_len p \<Longrightarrow> part_ok (p\<lparr>part_data := splice (part_data p) 0 d\<rparr>)"
  by (simp add: part_ok_def)

lemma serialize_steps:
  assumes ser: "vf_nvram_serialize n buf = (Some wr, buf')" and ec: "nvram_ensure_common n = (Some i, s1)"
  defines "s2 \<equiv> (if bank_len s1 = 0 \<or> bank_len s1 > length buf then s1\<lparr>bank_len := length buf\<rparr> else s1)"
    and "c \<equiv> nv_parts s1 ! i"
  obtains p bytes bank where "nvram_env_serialize s2 (take (part_len c) (part_data c)) = Some (p, bytes)"
    "nvram_prepare_bank (s2\<lparr>nv_parts := (nv_parts s1)[i := c\<lparr>part_data := splice (part_data c) 0 bytes\<rparr>]\<rparr>)
      (take (bank_len s2) buf) = (OK, bank)" "wr = bank_len s2" "buf' = splice buf 0 bank"
proof -
  have buf: "length buf \<noteq> 0" using ser by (auto simp: vf_nvram_serialize_def)
  have s2: "nv_parts s2 = nv_parts s1" by (simp add: s2_def)
  obtain p bytes where es: "nvram_env_serialize s2 (take (part_len c) (part_data c)) = Some (p, bytes)"
    using ser buf by (auto simp: vf_nvram_serialize_def ec Let_def s2_def [symmetric] s2 c_def split: option.splits)
  obtain bank where "nvram_prepare_bank (s2\<lparr>nv_parts := (nv_parts s1)[i := c\<lparr>part_data := splice (part_data c) 0 bytes\<rparr>]\<rparr>)
      (take (bank_len s2) buf) = (OK, bank)" "wr = bank_len s2" "buf' = splice buf 0 bank"
    using ser buf
    by (auto simp: vf_nvram_serialize_def ec Let_def s2_def [symmetric] s2 c_def [symmetric] es split: prod.splits rc.splits)
  with es that show thesis by blast
qed

lemma nvram_roundtrip:
  assumes wf: "nvram_wf n" and len: "length buf \<le> VF_NVRAM_BANK_MAX_LEN"
    and ser: "vf_nvram_serialize n buf = (Some wr, buf')"
  shows "\<exists>i s n'. nvram_ensure_common n = (Some i, s) \<and> vf_nvram_ingest_bank n0 buf' wr = Some (OK, n')
    \<and> nv_env n' = map (env_flags_update (\<lambda>_. 0)) (nv_env n) \<and> nv_generation n' = nv_generation n \<and> bank_len n' = wr
    \<and> length (nv_parts n') = length (nv_parts s)
    \<and> (\<forall>j < length (nv_parts s). let p = nv_parts s ! j; p' = nv_parts n' ! j in
        part_sig p' = part_sig p \<and> take 12 (part_name p') = take 12 (part_name p) \<and> part_len p' = part_len p
        \<and> (j \<noteq> i \<longrightarrow> take (part_len p) (part_data p') = take (part_len p) (part_data p)))"
proof -
  obtain i s1 where ec: "nvram_ensure_common n = (Some i, s1)"
    using ser by (auto simp: vf_nvram_serialize_def split: prod.splits option.splits if_splits)
  note e = ensure_common_wf [OF wf ec]
  define s2 where "s2 = (if bank_len s1 = 0 \<or> bank_len s1 > length buf then s1\<lparr>bank_len := length buf\<rparr> else s1)"
  have s2: "nv_parts s2 = nv_parts s1" "nv_env s2 = nv_env n" "nv_generation s2 = nv_generation n" "bank_len s2 \<le> length buf"
    using e(2,3) by (auto simp: s2_def)
  define c where "c = nv_parts s1 ! i"
  obtain p bytes bank where es: "nvram_env_serialize s2 (take (part_len c) (part_data c)) = Some (p, bytes)"
    and pb': "nvram_prepare_bank (s2\<lparr>nv_parts := (nv_parts s1)[i := c\<lparr>part_data := splice (part_data c) 0 bytes\<rparr>]\<rparr>)
      (take (bank_len s2) buf) = (OK, bank)" and wr: "wr = bank_len s2" "buf' = splice buf 0 bank"
    by (rule serialize_steps [OF ser ec, folded s2_def c_def])
  define s3 where "s3 = s2\<lparr>nv_parts := (nv_parts s1)[i := c\<lparr>part_data := splice (part_data c) 0 bytes\<rparr>]\<rparr>"
  note pb = pb' [folded s3_def]
  have i: "i < length (nv_parts s1)" "cstr (part_name c) = nvram_common"
    using find_part_Some [OF e(4)] by (simp_all add: c_def)
  have ok1: "\<forall>q \<in> set (nv_parts s1). part_ok q" "length (nv_parts s1) \<le> 8" "part_ok c"
    using e(1) i(1) by (simp_all add: nvram_wf_def c_def)
  obtain rest where bytes: "bytes = env_text (nv_env n) @ rest" "rest = [] \<or> hd rest = 0" "length bytes = part_len c"
    using env_serialize_prefix [OF es] s2(2) ok1(3) by (auto simp: part_ok_def)
  let ?c' = "c\<lparr>part_data := splice (part_data c) 0 bytes\<rparr>"
  have ok3: "\<forall>q \<in> set (nv_parts s3). part_ok q" "part_ok ?c'" "nv_parts s3 ! i = ?c'"
    using ok1 part_ok_data [OF ok1(3) bytes(3)] i(1) by (auto simp: s3_def dest!: set_update_subset_insert [THEN subsetD])
  let ?imgs = "concat (map part_image (nv_parts s3))"
  define k where "k = bank_len s2 - 0x20 - length ?imgs"
  have lb: "length (take (bank_len s2) buf) = bank_len s2" using s2(4) by simp
  let ?A = "vf_nvram_adler32 1 (put_le32 (nv_generation n) @ replicate 8 0 @ ?imgs @ bank_tail k)"
  have gen3: "nv_generation s3 = nv_generation n" by (simp add: s3_def s2(3))
  from prepare_bank_layout [OF pb ok3(1)] len s2(4)
  have bank: "0x20 + length ?imgs \<le> bank_len s2" "bank = bank_hdr ?A (nv_generation n) @ ?imgs @ bank_tail k"
    unfolding lb gen3 k_def by simp_all
  have k: "k < 0x10000" using len s2(4) by (simp add: k_def)
  have wlen: "wr = 0x20 + length (?imgs @ bank_tail k)" using bank(1) k by (simp add: wr(1) bank_tail_length) (simp add: k_def)
  define n2 where "n2 = nvram_zero\<lparr>bank_len := wr, nv_generation := nv_generation n, nv_parts := map part_reload (nv_parts s3)\<rparr>"
  have "nvram_find_part n2 nvram_common = nvram_find_part s3 nvram_common"
    by (rule find_part_reload [OF ok3(1)]) (simp_all add: n2_def)
  also have "\<dots> = nvram_find_part s1 nvram_common"
    unfolding nvram_find_part_def using i(1) c_def by (auto simp: s3_def nth_list_update intro!: find_cong)
  finally have find: "nvram_find_part n2 nvram_common = Some i" using e(4) by simp
  have ci: "nv_parts n2 ! i = part_reload ?c'" using i(1) ok3(3) by (simp add: n2_def s3_def)
  have txt_eq: "take (part_len ?c') (part_data (part_reload ?c')) = env_text (nv_env n) @ rest"
    using reload_data [OF ok3(2)] bytes by (simp add: splice_def)
  have inv: "env_inv n" "env_storable (nv_env n)" using wf by (simp_all add: nvram_wf_def)
  have load: "nvram_load_env_from_common n2 (nv_parts n2 ! i) = (OK, n2\<lparr>nv_env := map (env_flags_update (\<lambda>_. 0)) (nv_env n)\<rparr>)"
  proof -
    have "part_len (part_reload ?c') = part_len ?c'" by (simp add: part_reload_def)
    then show ?thesis
      unfolding nvram_load_env_from_common_def ci
      using load_env_text [OF inv(2), of "n2\<lparr>nv_env := []\<rparr>" rest] inv(1) bytes(2) txt_eq by (simp add: env_inv_def)
  qed
  have wle: "wr \<noteq> 0" "\<not> 0x2000 < wr" using wlen wr(1) len s2(4) by simp_all
  have "vf_nvram_parse_bank n0 (bank_hdr ?A (nv_generation n) @ (?imgs @ bank_tail k) @ drop wr buf) wr =
      Some (OK, n2\<lparr>nv_env := map (env_flags_update (\<lambda>_. 0)) (nv_env n)\<rparr>)"
    unfolding wlen
    by (rule parse_bank_layout [OF ok3(1) _ k]) (use ok1(2) find load in \<open>simp_all add: s3_def n2_def wlen del: length_append\<close>)
  moreover have "buf' = bank_hdr ?A (nv_generation n) @ (?imgs @ bank_tail k) @ drop wr buf"
    unfolding wr(2) by (rule bank_splice) (simp_all add: bank(2) wlen bank_hdr_length)
  ultimately have ing: "vf_nvram_ingest_bank n0 buf' wr = Some (OK, n2\<lparr>nv_env := map (env_flags_update (\<lambda>_. 0)) (nv_env n)\<rparr>)"
    using wle by (simp add: vf_nvram_ingest_bank_def)
  have same: "let p = nv_parts s1 ! j; p' = nv_parts n2 ! j in part_sig p' = part_sig p
      \<and> take 12 (part_name p') = take 12 (part_name p) \<and> part_len p' = part_len p
      \<and> (j \<noteq> i \<longrightarrow> take (part_len p) (part_data p') = take (part_len p) (part_data p))" if "j < length (nv_parts s1)" for j
  proof -
    let ?q = "nv_parts s3 ! j"
    have q: "nv_parts n2 ! j = part_reload ?q" "part_ok ?q" using that ok3(1) by (simp_all add: n2_def s3_def)
    have "part_sig ?q = part_sig (nv_parts s1 ! j) \<and> part_name ?q = part_name (nv_parts s1 ! j)
        \<and> part_len ?q = part_len (nv_parts s1 ! j) \<and> (j \<noteq> i \<longrightarrow> ?q = nv_parts s1 ! j)"
      using that by (cases "j = i") (simp_all add: s3_def c_def)
    with reload_fields [OF q(2)] reload_data [OF q(2)] show ?thesis unfolding Let_def q(1) by auto
  qed
  define n4 where "n4 = n2\<lparr>nv_env := map (env_flags_update (\<lambda>_. 0)) (nv_env n)\<rparr>"
  have f4: "nv_env n4 = map (env_flags_update (\<lambda>_. 0)) (nv_env n)" "nv_generation n4 = nv_generation n" "bank_len n4 = wr"
    "nv_parts n4 = nv_parts n2" "length (nv_parts n4) = length (nv_parts s1)"
    by (simp_all add: n4_def n2_def s3_def)
  show ?thesis
    by (intro exI [of _ i] exI [of _ s1] exI [of _ n4] conjI allI impI)
      (use ec ing same f4 in \<open>simp_all add: n4_def [symmetric]\<close>)
qed


section \<open>Parsing untrusted banks\<close>

lemma takeWhile_no_zero: "0 \<notin> set (takeWhile (\<lambda>c. c \<noteq> 0 \<and> P c) (bs :: u8 list))" "0 \<notin> set (takeWhile (\<lambda>c. c \<noteq> 0) (bs :: u8 list))"
  by (auto dest: set_takeWhileD)

lemma load_env_inv: "env_inv n \<Longrightarrow> env_inv (snd (nvram_load_env n bs))"
proof (induction n bs rule: nvram_load_env.induct)
  case (1 n bs)
  let ?name = "takeWhile (\<lambda>c. c \<noteq> 0 \<and> c \<noteq> 0x3d) bs"
  let ?val = "takeWhile (\<lambda>c. c \<noteq> 0) (tl (drop (length ?name) bs))"
  have "env_inv (snd (vf_nvram_env_set n ?name ?val 0))"
    by (rule env_inv_set [OF "1.prems" takeWhile_no_zero(1) takeWhile_no_zero(2)])
  then show ?case
    using "1.IH" "1.prems"
    by (subst nvram_load_env.simps) (auto simp: Let_def split: prod.split rc.split)
qed

text \<open>The shape every partition taken over from a bank has.\<close>

definition parts_shape :: "vf_nvram_v1 \<Rightarrow> bool" where
  "parts_shape n \<longleftrightarrow> length (nv_parts n) \<le> VF_NVRAM_MAX_PARTS
     \<and> (\<forall>p \<in> set (nv_parts n). part_len p \<le> VF_NVRAM_COMMON_PART_LEN
         \<and> length (part_data p) = VF_NVRAM_COMMON_PART_LEN \<and> length (part_name p) = 16)"

definition parse_ok :: "(rc \<times> vf_nvram_v1) option \<Rightarrow> bool" where
  "parse_ok r \<longleftrightarrow> (\<forall>n'. r = Some (OK, n') \<longrightarrow> parts_shape n' \<and> nv_env n' = [])"

lemma parse_loop_ok:
  "len \<le> length buf \<Longrightarrow> parts_shape n \<Longrightarrow> nv_env n = [] \<Longrightarrow> parse_ok (nvram_parse_loop buf len off n)"
proof (induction "len - off" arbitrary: off n rule: less_induct)
  case less
  let ?h = "take 16 (drop off buf)"
  let ?u = "be16_to_host (get_le16 (drop 2 ?h))"
  let ?p = "nvram_zero_part\<lparr>part_sig := ?h ! 0, part_len := ?u * 16 - 16\<rparr>"
  let ?p1 = "?p\<lparr>part_name := splice (part_name ?p) 0 (take 15 (drop (off + 4) buf))\<rparr>"
  let ?p2 = "?p1\<lparr>part_data := splice (part_data ?p1) 0 (take (?u * 16 - 16) (drop (off + 16) buf))\<rparr>"
  have skip: "parse_ok (nvram_parse_loop buf len (off + ?u * 16) n)"
    if "\<not> len < off + 16" "\<not> (?u < 1 \<or> len < ?u * 16 + off)"
    by (rule less.hyps) (use that less.prems in auto)
  have add: "parse_ok (nvram_parse_loop buf len (off + ?u * 16) (n\<lparr>nv_parts := nv_parts n @ [?p2]\<rparr>))"
    if "\<not> len < off + 16" "\<not> (?u < 1 \<or> len < ?u * 16 + off)" "\<not> 8 \<le> length (nv_parts n)" "\<not> 2032 < ?u * 16 - 16"
      "\<not> length buf < off + 4 + 15" "\<not> length buf < off + 16"
      "\<not> (length buf < off + 16 + (?u * 16 - 16) \<or> 2032 < ?u * 16 - 16)"
    by (rule less.hyps) (use that less.prems in \<open>auto simp: parts_shape_def nvram_zero_part_def\<close>)
  have ret: "parse_ok None" "parse_ok (Some (ERR, m))" "parse_ok (Some (OK, n))" for m
    using less.prems by (simp_all add: parse_ok_def)
  have I: "(b \<Longrightarrow> parse_ok x) \<Longrightarrow> (\<not> b \<Longrightarrow> parse_ok y) \<Longrightarrow> parse_ok (if b then x else y)" for b x y by simp
  show ?case
    by (subst nvram_parse_loop.simps, unfold Let_def, intro I ret) (erule (1) skip, erule (6) add)
qed

text \<open>The only access outside an array is the read of a name at the very end of the buffer.\<close>

lemma parse_loop_in_bounds: "len + 3 \<le> length buf \<Longrightarrow> nvram_parse_loop buf len off n \<noteq> None"
proof (induction "len - off" arbitrary: off n rule: less_induct)
  case less
  let ?u = "be16_to_host (get_le16 (drop 2 (take 16 (drop off buf))))"
  have rec: "nvram_parse_loop buf len (off + ?u * 16) m \<noteq> None"
    if "\<not> len < off + 16" "\<not> (?u < 1 \<or> len < ?u * 16 + off)" for m
    by (rule less.hyps) (use that less.prems in auto)
  have fit: "\<not> length buf < off + 4 + 15" "\<not> length buf < off + 16" if "\<not> len < off + 16" using that less.prems by simp_all
  have room: "\<not> (length buf < off + 16 + m \<or> 2032 < m)" if "\<not> len < off + 16 + m" "\<not> 2032 < m" for m
    using that less.prems by simp
  have I: "(b \<Longrightarrow> x \<noteq> None) \<Longrightarrow> (\<not> b \<Longrightarrow> y \<noteq> None) \<Longrightarrow> (if b then x else y) \<noteq> None" for b and x y :: "'a option" by simp
  show ?case
    by (subst nvram_parse_loop.simps, unfold Let_def, intro I option.distinct(2))
      (use fit in blast, erule (1) rec, use fit in blast, use room in blast, erule (1) rec)
qed

lemma init_shape: "parts_shape (snd (vf_nvram_init n))" "env_inv (snd (vf_nvram_init n))" "fst (vf_nvram_init n) = OK"
  by (simp_all add: nvram_init_state parts_shape_def env_inv_def nvram_zero_def nvram_common_def)
    (simp add: nvram_zero_part_def)


lemma parse_partitions_ok:
  assumes "len \<le> length buf" "nvram_parse_partitions n buf len = Some (OK, n')" "nv_env n = []"
  shows "parts_shape n' \<and> nv_env n' = []"
proof -
  have "parts_shape (n\<lparr>nv_parts := []\<rparr>)" by (simp add: parts_shape_def)
  then have "parse_ok (nvram_parse_loop buf len 0x20 (n\<lparr>nv_parts := []\<rparr>))"
    using assms(1,3) by (intro parse_loop_ok) simp_all
  then show ?thesis using assms(2) by (simp add: nvram_parse_partitions_def parse_ok_def split: if_splits)
qed

lemma load_env_parts: "nv_parts (snd (nvram_load_env n bs)) = nv_parts n"
proof (induction n bs rule: nvram_load_env.induct)
  case (1 n bs)
  have set: "nv_parts (snd (vf_nvram_env_set m nm v fl)) = nv_parts m" for m nm v fl
    by (simp add: vf_nvram_env_set_def Let_def vf_nvram_env_unset_def split: option.split)
  show ?case
    using "1.IH" set [of n "takeWhile (\<lambda>c. c \<noteq> 0 \<and> c \<noteq> 0x3d) bs"
        "takeWhile (\<lambda>c. c \<noteq> 0) (tl (drop (length (takeWhile (\<lambda>c. c \<noteq> 0 \<and> c \<noteq> 0x3d) bs)) bs))" 0]
    by (subst nvram_load_env.simps) (auto simp: Let_def split: prod.split rc.split)
qed

text \<open>The three ways of \<open>vf_nvram_parse_bank\<close>: refused before or after clearing, or accepted.\<close>

lemma parse_bank_cases:
  assumes "len \<le> length buf" "vf_nvram_parse_bank n buf len = Some (c, n')"
  shows "if c = ERR then n' = n \<or> n' = nvram_zero else env_inv n' \<and> parts_shape n'"
proof -
  let ?n1 = "nvram_zero\<lparr>bank_len := len, nv_generation := get_le32 (drop 0x14 buf)\<rparr>"
  have env0: "nv_env ?n1 = []" by (simp add: nvram_zero_def)
  have loaded: "env_inv (snd (nvram_load_env_from_common m p)) \<and> parts_shape (snd (nvram_load_env_from_common m p))"
    if "nvram_parse_partitions ?n1 buf len = Some (OK, m)" for m p
    using parse_partitions_ok [OF assms(1) that env0] load_env_inv [of "m\<lparr>nv_env := []\<rparr>"]
    by (simp add: nvram_load_env_from_common_def env_inv_def parts_shape_def load_env_parts)
  show ?thesis
    using assms(2) loaded init_shape assms(1)
    by (auto simp: vf_nvram_parse_bank_def Let_def simp del: take_all drop_all split: if_splits option.splits prod.splits rc.splits)
      (metis fst_conv rc.distinct(1) snd_conv)+
qed

lemma parse_bank_in_bounds:
  assumes "len + 3 \<le> length buf"
  shows "vf_nvram_parse_bank n buf len \<noteq> None"
proof -
  let ?n1 = "nvram_zero\<lparr>bank_len := len, nv_generation := get_le32 (drop 0x14 buf)\<rparr>"
  obtain c m where p: "nvram_parse_partitions ?n1 buf len = Some (c, m)"
    using parse_loop_in_bounds [OF assms] by (fastforce simp: nvram_parse_partitions_def)
  have fits: "part_len (nv_parts m ! i) \<le> VF_NVRAM_COMMON_PART_LEN" if "c = OK" "nvram_find_part m nvram_common = Some i" for i
    using parse_partitions_ok [of len buf ?n1 m] p that assms find_part_Some [OF that(2)]
    by (simp add: parts_shape_def nvram_zero_def)
  have long: "\<not> length buf < len" "len < 0x20 \<or> \<not> length buf < 16" using assms by auto
  show ?thesis
    using p fits long
    by (cases c) (auto simp: vf_nvram_parse_bank_def Let_def not_less split: option.split prod.split rc.split)
qed

lemma header_only_partition_overreads:
  assumes "length name12 = 12" "name12 \<noteq> VF_NVRAM_PANIC_PART_NAME" "sig \<noteq> VF_NVRAM_CHRP_PART_FREE"
  defines "body \<equiv> chrp_hdr sig 1 name12"
  shows "vf_nvram_parse_bank n (bank_hdr (vf_nvram_adler32 1 (put_le32 gen @ replicate 8 0 @ body)) gen @ body) 0x30 = None"
proof -
  let ?A = "vf_nvram_adler32 1 (put_le32 gen @ replicate 8 0 @ body)"
  let ?buf = "bank_hdr ?A gen @ body"
  define h0 where "h0 = chrp_hdr VF_NVRAM_CHRP_SIG 2 ([0x6e, 0x76, 0x72, 0x61, 0x6d, 0] @ replicate 6 0)"
  have h: "length h0 = 16" "h0 ! 1 = vf_nvram_chrp_checksum h0" unfolding h0_def by (rule chrp_hdr_fields; simp)+
  have hdr: "bank_hdr ?A gen = h0 @ put_le32 ?A @ put_le32 gen @ replicate 8 0" by (simp add: bank_hdr_def h0_def)
  have b: "length body = 16" "body ! 0 = sig" "body ! 1 = vf_nvram_chrp_checksum body"
    "be16_to_host (get_le16 (drop 2 body)) = 1" "drop 4 body = name12"
    unfolding body_def by (rule chrp_hdr_fields [OF assms(1)]; simp)+
  have f: "take 16 ?buf = h0" "?buf ! 1 = h0 ! 1" "drop 0x10 ?buf = put_le32 ?A @ put_le32 gen @ replicate 8 0 @ body"
    "drop 0x14 ?buf = put_le32 gen @ replicate 8 0 @ body" "take 16 (drop 0x20 ?buf) = body" "length ?buf = 0x30"
    by (simp_all add: hdr h b nth_append)
  have "nvram_parse_loop ?buf 0x30 0x20 m = None" if "nv_parts m = []" for m
    by (subst nvram_parse_loop.simps) (use assms(2,3) that in \<open>simp add: Let_def f b [simplified] del: take_append drop_append length_append\<close>)
  then have parts: "nvram_parse_partitions m ?buf 0x30 = None" for m by (simp add: nvram_parse_partitions_def)
  have a: "take (0x30 - 0x14) (drop 0x14 ?buf) = put_le32 gen @ replicate 8 0 @ body" unfolding f by (simp add: b)
  show ?thesis
    unfolding vf_nvram_parse_bank_def Let_def a f(6) unfolding f by (simp add: h [simplified] parts)
qed

section \<open>Properties of banks\<close>

text \<open>C38. Saving and loading: if a well-formed state (names without the separator, non-empty
  partitions of whole 16-byte units) is serialised into a buffer of at most 0x2000 bytes, parsing
  the written bytes succeeds from any state and yields the same variables with their values and
  numeric readings, the same generation, and every partition with its signature, name field,
  length and data (that of "common" being the environment itself).\<close>

theorem nvram_save_load_roundtrip:
  assumes "nvram_wf n" "length buf \<le> VF_NVRAM_BANK_MAX_LEN" "vf_nvram_serialize n buf = (Some wr, buf')"
  shows "\<exists>i s n'. nvram_ensure_common n = (Some i, s) \<and> vf_nvram_ingest_bank n0 buf' wr = Some (OK, n')
    \<and> vf_nvram_env_get n' = vf_nvram_env_get n
    \<and> (\<forall>name d. vf_nvram_env_get_uint n' name d = vf_nvram_env_get_uint n name d)
    \<and> nv_generation n' = nv_generation n \<and> bank_len n' = wr \<and> length (nv_parts n') = length (nv_parts s)
    \<and> (\<forall>j < length (nv_parts s). part_sig (nv_parts n' ! j) = part_sig (nv_parts s ! j)
        \<and> take 12 (part_name (nv_parts n' ! j)) = take 12 (part_name (nv_parts s ! j))
        \<and> part_len (nv_parts n' ! j) = part_len (nv_parts s ! j)
        \<and> (j \<noteq> i \<longrightarrow> take (part_len (nv_parts s ! j)) (part_data (nv_parts n' ! j)) =
              take (part_len (nv_parts s ! j)) (part_data (nv_parts s ! j))))"
proof -
  obtain i s n' where r: "nvram_ensure_common n = (Some i, s)" "vf_nvram_ingest_bank n0 buf' wr = Some (OK, n')"
    "nv_env n' = map (env_flags_update (\<lambda>_. 0)) (nv_env n)" "nv_generation n' = nv_generation n" "bank_len n' = wr"
    "length (nv_parts n') = length (nv_parts s)"
    "\<forall>j < length (nv_parts s). let p = nv_parts s ! j; p' = nv_parts n' ! j in
        part_sig p' = part_sig p \<and> take 12 (part_name p') = take 12 (part_name p) \<and> part_len p' = part_len p
        \<and> (j \<noteq> i \<longrightarrow> take (part_len p) (part_data p') = take (part_len p) (part_data p))"
    using nvram_roundtrip [OF assms, of n0] by auto
  have nth: "i < length (nv_env n) \<Longrightarrow> nv_env n' ! i = (nv_env n ! i)\<lparr>env_flags := 0\<rparr>" for i by (simp add: r(3))
  have "find (\<lambda>i. env_name (nv_env n' ! i) = name) [0..<length (nv_env n)] =
      find (\<lambda>i. env_name (nv_env n ! i) = name) [0..<length (nv_env n)]" for name
    by (rule find_cong) (auto simp: nth)
  then have f: "nvram_find_env n' name = nvram_find_env n name" for name by (simp add: nvram_find_env_def r(3))
  have "vf_nvram_env_get n' name = vf_nvram_env_get n name \<and> vf_nvram_env_get_uint n' name d = vf_nvram_env_get_uint n name d"
    for name d
    using find_env_Some [of n name]
    by (cases "nvram_find_env n name") (simp_all add: vf_nvram_env_get_def vf_nvram_env_get_uint_def f nth)
  then have "vf_nvram_env_get n' = vf_nvram_env_get n"
    "\<forall>name d. vf_nvram_env_get_uint n' name d = vf_nvram_env_get_uint n name d"
    by (simp_all add: fun_eq_iff)
  with r show ?thesis unfolding Let_def by blast
qed




definition nvram_demo :: vf_nvram_v1 where
  "nvram_demo = \<lparr>nv_env = [\<lparr>env_name = [0x61], env_value = [0x62], env_flags = 0, parsed_uint = parse_env_uint [0x62]\<rparr>],
     nv_parts = [nvram_zero_part\<lparr>part_sig := VF_NVRAM_COMMON_SIG, part_name := nvram_common @ replicate 10 0, part_len := 16\<rparr>],
     bank_len = 0x50, nv_generation = 7\<rparr>"

lemma nvram_demo_wf: "nvram_wf nvram_demo"
proof -
  have "length (part_data nvram_zero_part) = 2032" by (simp add: nvram_zero_part_def)
  moreover have "take 12 (nvram_common @ replicate 10 0) \<noteq> VF_NVRAM_PANIC_PART_NAME"
    by (simp add: nvram_common_def VF_NVRAM_PANIC_PART_NAME_def)
  ultimately show ?thesis
    by (simp add: nvram_wf_def nvram_demo_def env_inv_def env_storable_def env_entry_ok_def part_ok_def nvram_common_def)
qed

lemma nvram_demo_serialize: "fst (vf_nvram_serialize nvram_demo (replicate 0x50 0)) = Some 0x50"
proof -
  have common: "nvram_ensure_common nvram_demo = (Some 0, nvram_demo)"
    by (simp add: nvram_ensure_common_def nvram_find_part_def nvram_demo_def cstr_def nvram_common_def)
  have l: "length (chrp_hdr sig u nm) = 16" if "length nm = 12" for sig u nm
    using that by (simp add: chrp_hdr_def Let_def put_le16_def)
  have d: "length (part_data nvram_zero_part) = 2032" by (simp add: nvram_zero_part_def)
  let ?c = "nv_parts nvram_demo ! 0"
  have "\<exists>p b. nvram_env_serialize nvram_demo (take (part_len ?c) (part_data ?c)) = Some (p, b)"
    by (simp add: nvram_env_serialize_def nvram_demo_def nvram_format_env_entry_def Let_def d)
  then obtain p b where e: "nvram_env_serialize nvram_demo (take (part_len ?c) (part_data ?c)) = Some (p, b)" by blast
  let ?s = "nvram_demo\<lparr>nv_parts := (nv_parts nvram_demo)[0 := ?c\<lparr>part_data := splice (part_data ?c) 0 b\<rparr>]\<rparr>"
  have "fst (nvram_prepare_bank ?s (replicate 0x50 0)) = OK"
    by (simp add: nvram_prepare_bank_def Let_def nvram_demo_def l nvram_common_def)
  then obtain x where "nvram_prepare_bank ?s (replicate 0x50 0) = (OK, x)" by (metis prod.collapse)
  moreover have "bank_len nvram_demo = 0x50" by (simp add: nvram_demo_def)
  ultimately show ?thesis using e by (simp add: vf_nvram_serialize_def common Let_def)
qed

theorem nvram_save_load_roundtrip_witness:
  "\<exists>n'. vf_nvram_ingest_bank nvram_zero (snd (vf_nvram_serialize nvram_demo (replicate 0x50 0))) 0x50 = Some (OK, n')
     \<and> vf_nvram_env_get n' [0x61] = Some [0x62]"
proof -
  have "vf_nvram_serialize nvram_demo (replicate 0x50 0) = (Some 0x50, snd (vf_nvram_serialize nvram_demo (replicate 0x50 0)))"
    using nvram_demo_serialize by (simp add: prod_eq_iff)
  moreover have "vf_nvram_env_get nvram_demo [0x61] = Some [0x62]"
    by (simp add: vf_nvram_env_get_def nvram_find_env_def nvram_demo_def)
  ultimately show ?thesis
    using nvram_save_load_roundtrip [OF nvram_demo_wf, of "replicate 0x50 0" "0x50" _ nvram_zero] by fastforce
qed

end
