(* ===== verification/Adp.thy ===== *)
theory Adp
  imports Prelude
begin

text \<open>
  The framebuffer window, \<open>src/devices/adp_display_v1.c\<close>: a host-configured surface, a guest-driven
  present/acknowledge cycle and a packed flags register.

  Shown: in every reachable state the flags register packs exactly the state it reports, a frame is
  only presented on a configured surface, and every pixel of a configured surface lies inside its
  backing store; its guest address wraps only where the backing store itself runs past the end of
  the address space, which the configuration does not refuse.
\<close>

section \<open>State\<close>

abbreviation (input) VF_ADP_TIER_L1_FRAMEBUFFER :: u64 where "VF_ADP_TIER_L1_FRAMEBUFFER \<equiv> 1"
abbreviation (input) VF_ADP_FLAG_PRESENT :: u32 where "VF_ADP_FLAG_PRESENT \<equiv> push_bit 0 1"
abbreviation (input) VF_ADP_FLAG_CONFIGURED :: u32 where "VF_ADP_FLAG_CONFIGURED \<equiv> push_bit 1 1"
abbreviation (input) VF_ADP_FLAG_ENABLED :: u32 where "VF_ADP_FLAG_ENABLED \<equiv> push_bit 2 1"
abbreviation (input) VF_ADP_FLAG_PRESENTED :: u32 where "VF_ADP_FLAG_PRESENTED \<equiv> push_bit 3 1"
abbreviation (input) VF_ADP_FLAG_VBLANK_PENDING :: u32 where "VF_ADP_FLAG_VBLANK_PENDING \<equiv> push_bit 4 1"
abbreviation (input) VF_ADP_MAX_WIDTH :: u32 where "VF_ADP_MAX_WIDTH \<equiv> 8192"
abbreviation (input) VF_ADP_MAX_HEIGHT :: u32 where "VF_ADP_MAX_HEIGHT \<equiv> 8192"
abbreviation (input) VF_ADP_MMIO_CTRL :: nat where "VF_ADP_MMIO_CTRL \<equiv> 0x000"
abbreviation (input) VF_ADP_MMIO_WIDTH :: nat where "VF_ADP_MMIO_WIDTH \<equiv> 0x004"
abbreviation (input) VF_ADP_MMIO_HEIGHT :: nat where "VF_ADP_MMIO_HEIGHT \<equiv> 0x008"
abbreviation (input) VF_ADP_MMIO_STRIDE :: nat where "VF_ADP_MMIO_STRIDE \<equiv> 0x00c"
abbreviation (input) VF_ADP_MMIO_FRAME_COUNT :: nat where "VF_ADP_MMIO_FRAME_COUNT \<equiv> 0x010"
abbreviation (input) VF_ADP_MMIO_TIER :: nat where "VF_ADP_MMIO_TIER \<equiv> 0x014"
abbreviation (input) VF_ADP_MMIO_VBLANK_ACK :: nat where "VF_ADP_MMIO_VBLANK_ACK \<equiv> 0x018"
abbreviation (input) VF_ADP_MMIO_GENERATION :: nat where "VF_ADP_MMIO_GENERATION \<equiv> 0x01c"
abbreviation (input) VF_ADP_CTRL_DISABLE :: u64 where "VF_ADP_CTRL_DISABLE \<equiv> 0"
abbreviation (input) VF_ADP_CTRL_PRESENT :: u64 where "VF_ADP_CTRL_PRESENT \<equiv> 1"

record vf_adp_display_v1 =
  adp_flags :: u32
  adp_width :: u32
  adp_height :: u32
  adp_stride :: u32
  adp_guest_address :: u64
  adp_backing_bytes :: u64
  adp_frame_count :: u64
  adp_generation :: u32
  adp_vblank_pending :: bool

section \<open>Operations\<close>

definition configured :: "vf_adp_display_v1 \<Rightarrow> bool" where
  "configured s \<longleftrightarrow> adp_flags s AND VF_ADP_FLAG_CONFIGURED \<noteq> 0"

definition refresh_flags :: "vf_adp_display_v1 \<Rightarrow> vf_adp_display_v1" where
  "refresh_flags s =
     (let f0 = VF_ADP_FLAG_PRESENT;
          f1 = (if adp_width s \<noteq> 0 \<and> adp_height s \<noteq> 0 \<and> adp_backing_bytes s \<noteq> 0 then f0 OR VF_ADP_FLAG_CONFIGURED else f0);
          f2 = (if adp_flags s AND VF_ADP_FLAG_ENABLED \<noteq> 0 then f1 OR VF_ADP_FLAG_ENABLED else f1);
          f3 = (if adp_flags s AND VF_ADP_FLAG_PRESENTED \<noteq> 0 then f2 OR VF_ADP_FLAG_PRESENTED else f2);
          f4 = (if adp_vblank_pending s then f3 OR VF_ADP_FLAG_VBLANK_PENDING else f3) in
      s\<lparr>adp_flags := f4\<rparr>)"

definition vf_adp_display_init :: "vf_adp_display_v1 \<Rightarrow> rc \<times> vf_adp_display_v1" where
  "vf_adp_display_init s = (OK, \<lparr>adp_flags = VF_ADP_FLAG_PRESENT, adp_width = 0, adp_height = 0, adp_stride = 0,
     adp_guest_address = 0, adp_backing_bytes = 0, adp_frame_count = 0, adp_generation = 0, adp_vblank_pending = False\<rparr>)"

definition vf_adp_display_configure ::
  "vf_adp_display_v1 \<Rightarrow> u64 \<Rightarrow> u64 \<Rightarrow> u32 \<Rightarrow> u32 \<Rightarrow> u32 \<Rightarrow> rc \<times> vf_adp_display_v1" where
  "vf_adp_display_configure s guest_address backing_bytes width height stride =
     (if guest_address AND 7 \<noteq> 0 \<or> backing_bytes = 0 \<or> width = 0 \<or> height = 0 \<or> width > VF_ADP_MAX_WIDTH
        \<or> height > VF_ADP_MAX_HEIGHT then (ERR, s)
      else if stride < width * 4 then (ERR, s)
      else
        let required = ucast stride * ucast height :: u64 in
        if required > backing_bytes then (ERR, s)
        else (OK, refresh_flags (s\<lparr>adp_guest_address := guest_address, adp_backing_bytes := backing_bytes,
               adp_width := width, adp_height := height, adp_stride := stride,
               adp_flags := adp_flags s AND NOT (VF_ADP_FLAG_ENABLED OR VF_ADP_FLAG_PRESENTED),
               adp_vblank_pending := False, adp_generation := adp_generation s + 1\<rparr>)))"

definition vf_adp_display_present :: "vf_adp_display_v1 \<Rightarrow> rc \<times> vf_adp_display_v1" where
  "vf_adp_display_present s =
     (if \<not> configured s then (ERR, s)
      else (OK, refresh_flags (s\<lparr>adp_flags := adp_flags s OR VF_ADP_FLAG_ENABLED OR VF_ADP_FLAG_PRESENTED,
             adp_frame_count := adp_frame_count s + 1, adp_vblank_pending := True\<rparr>)))"

definition vf_adp_display_ack_vblank :: "vf_adp_display_v1 \<Rightarrow> rc \<times> vf_adp_display_v1" where
  "vf_adp_display_ack_vblank s = (OK, refresh_flags (s\<lparr>adp_vblank_pending := False\<rparr>))"

definition vf_adp_display_irq_pending :: "vf_adp_display_v1 \<Rightarrow> bool" where
  "vf_adp_display_irq_pending s = adp_vblank_pending s"

definition vf_adp_display_read :: "vf_adp_display_v1 \<Rightarrow> nat \<Rightarrow> nat \<Rightarrow> u64 option \<times> vf_adp_display_v1" where
  "vf_adp_display_read s off width =
     (if width \<noteq> 32 then (None, s)
      else if off = VF_ADP_MMIO_CTRL then (let s1 = refresh_flags s in (Some (ucast (adp_flags s1)), s1))
      else if off = VF_ADP_MMIO_WIDTH then (Some (ucast (adp_width s)), s)
      else if off = VF_ADP_MMIO_HEIGHT then (Some (ucast (adp_height s)), s)
      else if off = VF_ADP_MMIO_STRIDE then (Some (ucast (adp_stride s)), s)
      else if off = VF_ADP_MMIO_FRAME_COUNT then (Some (ucast (ucast (adp_frame_count s) :: u32)), s)
      else if off = VF_ADP_MMIO_TIER then (Some VF_ADP_TIER_L1_FRAMEBUFFER, s)
      else if off = VF_ADP_MMIO_GENERATION then (Some (ucast (adp_generation s)), s)
      else (None, s))"

definition vf_adp_display_write :: "vf_adp_display_v1 \<Rightarrow> nat \<Rightarrow> nat \<Rightarrow> u64 \<Rightarrow> rc \<times> vf_adp_display_v1" where
  "vf_adp_display_write s off width v =
     (if width \<noteq> 32 then (ERR, s)
      else if off = VF_ADP_MMIO_CTRL then
        (if v = VF_ADP_CTRL_DISABLE then (OK, refresh_flags (s\<lparr>adp_flags := adp_flags s AND NOT VF_ADP_FLAG_ENABLED\<rparr>))
         else if v = VF_ADP_CTRL_PRESENT then vf_adp_display_present s
         else (ERR, s))
      else if off = VF_ADP_MMIO_VBLANK_ACK then (if v \<noteq> 1 then (ERR, s) else vf_adp_display_ack_vblank s)
      else (ERR, s))"

section \<open>Flags and geometry\<close>

definition adp_geometry :: "vf_adp_display_v1 \<Rightarrow> bool" where
  "adp_geometry s \<longleftrightarrow> adp_width s \<noteq> 0 \<and> adp_height s \<noteq> 0 \<and> adp_backing_bytes s \<noteq> 0"

definition adp_inv :: "vf_adp_display_v1 \<Rightarrow> bool" where
  "adp_inv s \<longleftrightarrow>
     bit (adp_flags s) 0 \<and> bit (adp_flags s) 1 = adp_geometry s \<and> bit (adp_flags s) 4 = adp_vblank_pending s
     \<and> (bit (adp_flags s) 2 \<longrightarrow> bit (adp_flags s) 3) \<and> (bit (adp_flags s) 3 \<longrightarrow> adp_geometry s)
     \<and> (adp_vblank_pending s \<longrightarrow> bit (adp_flags s) 3) \<and> refresh_flags s = s
     \<and> (adp_geometry s \<longrightarrow> unat (adp_width s) * 4 \<le> unat (adp_stride s)
          \<and> unat (adp_stride s) * unat (adp_height s) \<le> unat (adp_backing_bytes s)
          \<and> adp_guest_address s AND 7 = 0)"

lemma refresh_bits:
  "bit (adp_flags (refresh_flags s)) n \<longleftrightarrow> n = 0 \<or> n = 1 \<and> adp_geometry s \<or> n = 2 \<and> bit (adp_flags s) 2
     \<or> n = 3 \<and> bit (adp_flags s) 3 \<or> n = 4 \<and> adp_vblank_pending s"
proof -
  have f: "adp_flags (s\<lparr>adp_flags := x\<rparr>) = x" for x by simp
  show ?thesis
    unfolding refresh_flags_def Let_def adp_geometry_def
    by (simp only: f bit_if_or bit_shift_flag and_shift_eq_0 not_not) auto
qed

lemma refresh_frame [simp]:
  "adp_width (refresh_flags s) = adp_width s" "adp_height (refresh_flags s) = adp_height s"
  "adp_stride (refresh_flags s) = adp_stride s" "adp_backing_bytes (refresh_flags s) = adp_backing_bytes s"
  "adp_guest_address (refresh_flags s) = adp_guest_address s" "adp_vblank_pending (refresh_flags s) = adp_vblank_pending s"
  "adp_geometry (refresh_flags s) = adp_geometry s"
  by (simp_all add: refresh_flags_def Let_def adp_geometry_def)

lemma refresh_idem [simp]: "refresh_flags (refresh_flags s) = refresh_flags s"
proof -
  have eq: "refresh_flags t = t\<lparr>adp_flags := adp_flags (refresh_flags t)\<rparr>" for t by (simp add: refresh_flags_def Let_def)
  have "adp_flags (refresh_flags (refresh_flags s)) = adp_flags (refresh_flags s)"
    by (rule bit_word_eqI) (auto simp: refresh_bits)
  then show ?thesis using eq [of "refresh_flags s"] by simp
qed


lemma adp_inv_refresh:
  assumes "bit (adp_flags s) 2 \<longrightarrow> bit (adp_flags s) 3" "bit (adp_flags s) 3 \<longrightarrow> adp_geometry s"
    "adp_vblank_pending s \<longrightarrow> bit (adp_flags s) 3"
    "adp_geometry s \<longrightarrow> unat (adp_width s) * 4 \<le> unat (adp_stride s)
      \<and> unat (adp_stride s) * unat (adp_height s) \<le> unat (adp_backing_bytes s) \<and> adp_guest_address s AND 7 = 0"
  shows "adp_inv (refresh_flags s)"
  using assms by (simp add: adp_inv_def refresh_bits)

lemma adp_inv_init: "adp_inv (snd (vf_adp_display_init s))"
proof -
  let ?s = "snd (vf_adp_display_init s)"
  have "refresh_flags ?s = ?s" by (simp add: refresh_flags_def vf_adp_display_init_def Let_def)
  moreover have "\<not> adp_geometry ?s" "\<not> adp_vblank_pending ?s" "bit (adp_flags ?s) n = (n = 0)" for n
    by (auto simp: adp_geometry_def vf_adp_display_init_def bit_1_iff)
  ultimately show ?thesis by (simp add: adp_inv_def)
qed

text \<open>The sizes the configuration admits neither wrap in 32 nor in 64 bits.\<close>

lemma adp_width_no_wrap: "w \<le> VF_ADP_MAX_WIDTH \<Longrightarrow> unat (w * 4) = unat w * 4"
  by (simp add: word_le_nat_alt unat_mult_lem [THEN iffD1])

lemma adp_required_no_wrap: "unat (ucast (a :: u32) * ucast (b :: u32) :: u64) = unat a * unat b"
proof -
  have "unat a < 2 ^ 32" "unat b < 2 ^ 32" using unat_lt2p [of a] unat_lt2p [of b] by simp_all
  then have "unat a * unat b < 2 ^ 32 * 2 ^ 32" by (rule mult_strict_mono) simp_all
  then show ?thesis by (subst unat_mult_lem [THEN iffD1]) simp_all
qed

lemma adp_inv_configure:
  assumes "adp_inv s"
  shows "adp_inv (snd (vf_adp_display_configure s ga bb w h st))"
proof (cases "fst (vf_adp_display_configure s ga bb w h st)")
  case OK
  then have c: "ga AND 7 = 0" "bb \<noteq> 0" "w \<noteq> 0" "h \<noteq> 0" "w \<le> 8192" "\<not> st < w * 4" "\<not> bb < ucast st * ucast h"
    by (auto simp: vf_adp_display_configure_def Let_def split: if_splits)
  let ?t = "s\<lparr>adp_guest_address := ga, adp_backing_bytes := bb, adp_width := w, adp_height := h, adp_stride := st,
     adp_flags := adp_flags s AND NOT (VF_ADP_FLAG_ENABLED OR VF_ADP_FLAG_PRESENTED),
     adp_vblank_pending := False, adp_generation := adp_generation s + 1\<rparr>"
  have b: "\<not> bit (adp_flags ?t) 2" "\<not> bit (adp_flags ?t) 3"
  proof -
    have "\<not> bit (x AND NOT (VF_ADP_FLAG_ENABLED OR VF_ADP_FLAG_PRESENTED)) k" if "k = 2 \<or> k = 3" for x :: u32 and k
      using that by (simp only: bit_and_iff bit_not_iff bit_or_iff bit_shift_flag) auto
    then show "\<not> bit (adp_flags ?t) 2" "\<not> bit (adp_flags ?t) 3" by simp_all
  qed
  have "adp_inv (refresh_flags ?t)"
    by (rule adp_inv_refresh)
      (use b c in \<open>simp_all add: adp_width_no_wrap adp_required_no_wrap word_less_nat_alt not_less\<close>)
  then show ?thesis using OK by (auto simp: vf_adp_display_configure_def Let_def split: if_splits)
next
  case ERR
  with assms show ?thesis by (auto simp: vf_adp_display_configure_def Let_def split: if_splits)
qed


lemma adp_inv_present:
  assumes "adp_inv s"
  shows "adp_inv (snd (vf_adp_display_present s))"
proof (cases "configured s")
  case True
  have c: "configured s = bit (adp_flags s) 1" unfolding configured_def by (simp only: and_shift_eq_0 not_not)
  let ?t = "s\<lparr>adp_flags := adp_flags s OR VF_ADP_FLAG_ENABLED OR VF_ADP_FLAG_PRESENTED,
     adp_frame_count := adp_frame_count s + 1, adp_vblank_pending := True\<rparr>"
  have "bit (x OR VF_ADP_FLAG_ENABLED OR VF_ADP_FLAG_PRESENTED) 3" for x :: u32
    by (simp only: bit_or_iff bit_shift_flag) simp
  then have b3: "bit (adp_flags ?t) 3" by simp
  have geo: "adp_geometry ?t = adp_geometry s" by (simp add: adp_geometry_def)
  have "adp_inv (refresh_flags ?t)"
    by (rule adp_inv_refresh) (use assms True c b3 geo in \<open>simp_all add: adp_inv_def\<close>)
  then show ?thesis using True by (simp add: vf_adp_display_present_def)
qed (use assms in \<open>simp add: vf_adp_display_present_def\<close>)

lemma adp_inv_ack: "adp_inv s \<Longrightarrow> adp_inv (snd (vf_adp_display_ack_vblank s))"
  unfolding vf_adp_display_ack_vblank_def snd_conv
  by (rule adp_inv_refresh) (simp_all add: adp_inv_def adp_geometry_def)

lemma adp_inv_disable: "adp_inv s \<Longrightarrow> adp_inv (refresh_flags (s\<lparr>adp_flags := adp_flags s AND NOT VF_ADP_FLAG_ENABLED\<rparr>))"
proof (rule adp_inv_refresh)
  have b: "bit (x AND NOT VF_ADP_FLAG_ENABLED) n \<longleftrightarrow> bit x n \<and> n \<noteq> 2" for x :: u32 and n
    using bit_imp_le_length [of x n] by (simp only: bit_and_iff bit_not_iff bit_shift_flag) auto
  let ?t = "s\<lparr>adp_flags := adp_flags s AND NOT VF_ADP_FLAG_ENABLED\<rparr>"
  have f: "bit (adp_flags ?t) n \<longleftrightarrow> bit (adp_flags s) n \<and> n \<noteq> 2" for n using b by simp
  have g: "adp_geometry ?t = adp_geometry s" by (simp add: adp_geometry_def)
  assume "adp_inv s"
  then show "bit (adp_flags ?t) 2 \<longrightarrow> bit (adp_flags ?t) 3" "bit (adp_flags ?t) 3 \<longrightarrow> adp_geometry ?t"
    "adp_vblank_pending ?t \<longrightarrow> bit (adp_flags ?t) 3"
    "adp_geometry ?t \<longrightarrow> unat (adp_width ?t) * 4 \<le> unat (adp_stride ?t)
      \<and> unat (adp_stride ?t) * unat (adp_height ?t) \<le> unat (adp_backing_bytes ?t) \<and> adp_guest_address ?t AND 7 = 0"
    unfolding f g by (simp_all add: adp_inv_def)
qed

lemma adp_inv_write: "adp_inv s \<Longrightarrow> adp_inv (snd (vf_adp_display_write s off width v))"
proof -
  have I: "adp_inv (snd x) \<Longrightarrow> adp_inv (snd y) \<Longrightarrow> adp_inv (snd (if b then x else y))" for b and x y :: "rc \<times> vf_adp_display_v1"
    by simp
  assume "adp_inv s"
  then show ?thesis
    unfolding vf_adp_display_write_def
    by (intro I) (simp_all only: snd_conv adp_inv_disable adp_inv_present adp_inv_ack)
qed

lemma adp_read_state: "adp_inv s \<Longrightarrow> snd (vf_adp_display_read s off width) = s"
  by (simp add: vf_adp_display_read_def Let_def adp_inv_def)

interpretation adp: mmio_invariant vf_adp_display_read vf_adp_display_write adp_inv
  by unfold_locales (simp_all add: adp_read_state adp_inv_write)

inductive adp_reachable :: "vf_adp_display_v1 \<Rightarrow> bool" where
  init: "adp_reachable (snd (vf_adp_display_init s))"
| configure: "adp_reachable s \<Longrightarrow> adp_reachable (snd (vf_adp_display_configure s ga bb w h st))"
| guest: "adp_reachable s \<Longrightarrow> adp_reachable (mmio_run vf_adp_display_read vf_adp_display_write s accs)"
| host: "adp_reachable s \<Longrightarrow> adp_reachable (snd (vf_adp_display_present s))"
| ack: "adp_reachable s \<Longrightarrow> adp_reachable (snd (vf_adp_display_ack_vblank s))"

lemma adp_reachable_inv: "adp_reachable s \<Longrightarrow> adp_inv s"
  by (induction rule: adp_reachable.induct)
    (simp_all only: adp_inv_init adp_inv_configure adp.run_inv adp_inv_present adp_inv_ack)

section \<open>Properties\<close>

text \<open>The offset of a pixel from the base of the surface and its address, as a consumer of the configured surface computes
  them in 64 bits.\<close>

definition adp_pixel_offset :: "vf_adp_display_v1 \<Rightarrow> nat \<Rightarrow> nat \<Rightarrow> u64" where
  "adp_pixel_offset s x y = of_nat y * ucast (adp_stride s) + of_nat x * 4"

definition adp_pixel_address :: "vf_adp_display_v1 \<Rightarrow> nat \<Rightarrow> nat \<Rightarrow> u64" where
  "adp_pixel_address s x y = adp_guest_address s + adp_pixel_offset s x y"

definition adp_has_pixel :: "vf_adp_display_v1 \<Rightarrow> nat \<Rightarrow> nat \<Rightarrow> bool" where
  "adp_has_pixel s x y \<longleftrightarrow> configured s \<and> x < unat (adp_width s) \<and> y < unat (adp_height s)"

lemma adp_configured_geometry: "adp_inv s \<Longrightarrow> configured s = adp_geometry s"
  unfolding configured_def by (simp only: and_shift_eq_0 not_not adp_inv_def)

lemma adp_pixel_inside:
  assumes "adp_inv s" "adp_has_pixel s x y"
  shows "y * unat (adp_stride s) + x * 4 + 4 \<le> unat (adp_backing_bytes s)"
proof -
  have g: "adp_geometry s" "x < unat (adp_width s)" "y < unat (adp_height s)"
    using assms adp_configured_geometry [OF assms(1)] by (simp_all add: adp_has_pixel_def)
  have "x * 4 + 4 \<le> unat (adp_stride s)" using assms(1) g by (simp add: adp_inv_def)
  then have "y * unat (adp_stride s) + x * 4 + 4 \<le> Suc y * unat (adp_stride s)" by simp
  also have "\<dots> \<le> unat (adp_height s) * unat (adp_stride s)" using g(3) by (intro mult_le_mono1) simp
  also have "\<dots> \<le> unat (adp_backing_bytes s)" using assms(1) g(1) by (simp add: adp_inv_def mult.commute)
  finally show ?thesis .
qed

lemma adp_pixel_offset_exact:
  assumes "adp_inv s" "adp_has_pixel s x y"
  shows "unat (adp_pixel_offset s x y) = y * unat (adp_stride s) + x * 4"
proof -
  have "adp_pixel_offset s x y = of_nat (y * unat (adp_stride s) + x * 4)" by (simp add: adp_pixel_offset_def)
  moreover have "y * unat (adp_stride s) + x * 4 < 2 ^ 64"
    using adp_pixel_inside [OF assms] unat_lt2p [of "adp_backing_bytes s"] by simp
  ultimately show ?thesis by (simp only: unsigned_of_nat) (simp add: take_bit_nat_eq_self)
qed

text \<open>A surface whose backing store reaches past the end of the guest's address space.\<close>

definition adp_high :: vf_adp_display_v1 where
  "adp_high = snd (vf_adp_display_configure (snd (vf_adp_display_init undefined)) 0xFFFFFFFFFFFFFFF8 64 4 4 16)"

lemma adp_high_wraps: "adp_reachable adp_high \<and> adp_has_pixel adp_high 3 3 \<and> adp_pixel_address adp_high 3 3 < adp_guest_address adp_high"
  unfolding adp_high_def adp_has_pixel_def
  by (intro conjI adp_reachable.configure adp_reachable.init)
    (simp_all add: vf_adp_display_init_def vf_adp_display_configure_def refresh_flags_def configured_def adp_pixel_address_def
      adp_pixel_offset_def Let_def)

text \<open>C40. In every state reachable by host configuration and guest accesses: the control register
  reads back a word whose bits tell that the window is present, whether a surface is configured,
  and whether a vertical blank is pending (which is exactly the interrupt level), and a pending or
  presented frame always belongs to a configured surface. The base of a configured surface is
  8-aligned; the offset of every pixel, computed in 64 bits, does not wrap, and the pixel's four
  bytes lie inside the backing store. Its guest address does not wrap either and lies inside the
  backing range, provided that range fits below the end of the address space. The device does not
  check this condition: there is a reachable configured surface with a pixel whose address wraps
  to below the base.\<close>

theorem adp_surface_in_backing:
  assumes "adp_reachable s"
  shows "(\<exists>ctrl. vf_adp_display_read s VF_ADP_MMIO_CTRL 32 = (Some ctrl, s) \<and> bit ctrl 0
      \<and> bit ctrl 1 = configured s \<and> bit ctrl 4 = vf_adp_display_irq_pending s \<and> (bit ctrl 3 \<or> bit ctrl 4 \<longrightarrow> configured s))
    \<and> (\<forall>x y. adp_has_pixel s x y \<longrightarrow>
         adp_guest_address s AND 7 = 0
         \<and> unat (adp_pixel_offset s x y) = y * unat (adp_stride s) + x * 4
         \<and> unat (adp_pixel_offset s x y) + 4 \<le> unat (adp_backing_bytes s)
         \<and> (unat (adp_guest_address s) + unat (adp_backing_bytes s) \<le> 2 ^ 64 \<longrightarrow>
              unat (adp_pixel_address s x y) = unat (adp_guest_address s) + y * unat (adp_stride s) + x * 4
              \<and> unat (adp_pixel_address s x y) + 4 \<le> unat (adp_guest_address s) + unat (adp_backing_bytes s)))
    \<and> (\<exists>t x y. adp_reachable t \<and> adp_has_pixel t x y \<and> adp_pixel_address t x y < adp_guest_address t)"
proof (intro conjI allI impI)
  have inv: "adp_inv s" using assms by (rule adp_reachable_inv)
  note geo = adp_configured_geometry [OF inv]
  have u: "bit (ucast (adp_flags s) :: u64) n = bit (adp_flags s) n" if "n < 32" for n using that by (simp add: bit_simps)
  show "\<exists>ctrl. vf_adp_display_read s VF_ADP_MMIO_CTRL 32 = (Some ctrl, s) \<and> bit ctrl 0
      \<and> bit ctrl 1 = configured s \<and> bit ctrl 4 = vf_adp_display_irq_pending s \<and> (bit ctrl 3 \<or> bit ctrl 4 \<longrightarrow> configured s)"
    using inv by (intro exI [of _ "ucast (adp_flags s)"])
      (auto simp: vf_adp_display_read_def u geo adp_inv_def vf_adp_display_irq_pending_def)
  show "\<exists>t x y. adp_reachable t \<and> adp_has_pixel t x y \<and> adp_pixel_address t x y < adp_guest_address t"
    using adp_high_wraps by blast
  fix x y assume p: "adp_has_pixel s x y"
  note off = adp_pixel_offset_exact [OF inv p] and inside = adp_pixel_inside [OF inv p]
  show "adp_guest_address s AND 7 = 0" using p inv geo by (simp add: adp_has_pixel_def adp_inv_def)
  show "unat (adp_pixel_offset s x y) = y * unat (adp_stride s) + x * 4" by (rule off)
  show "unat (adp_pixel_offset s x y) + 4 \<le> unat (adp_backing_bytes s)" using off inside by simp
  assume room: "unat (adp_guest_address s) + unat (adp_backing_bytes s) \<le> 2 ^ 64"
  show a: "unat (adp_pixel_address s x y) = unat (adp_guest_address s) + y * unat (adp_stride s) + x * 4"
    unfolding adp_pixel_address_def
    by (subst unat_add_lem [THEN iffD1]) (use off inside room in simp_all)
  then show "unat (adp_pixel_address s x y) + 4 \<le> unat (adp_guest_address s) + unat (adp_backing_bytes s)" using inside by simp
qed

definition adp_demo :: vf_adp_display_v1 where
  "adp_demo = snd (vf_adp_display_present (snd (vf_adp_display_configure (snd (vf_adp_display_init undefined)) 0x1000 64 4 4 16)))"

theorem adp_surface_in_backing_witness:
  "adp_has_pixel adp_demo 3 3 \<and> unat (adp_pixel_offset adp_demo 3 3) + 4 \<le> unat (adp_backing_bytes adp_demo)
     \<and> unat (adp_pixel_address adp_demo 3 3) = 0x103c"
proof -
  have r: "adp_reachable adp_demo"
    unfolding adp_demo_def by (intro adp_reachable.host adp_reachable.configure adp_reachable.init)
  have d: "configured adp_demo" "adp_width adp_demo = 4" "adp_height adp_demo = 4" "adp_stride adp_demo = 16"
    "adp_guest_address adp_demo = 0x1000" "adp_backing_bytes adp_demo = 64"
    by (simp_all add: adp_demo_def vf_adp_display_init_def vf_adp_display_configure_def vf_adp_display_present_def
        refresh_flags_def configured_def Let_def)
  then have p: "adp_has_pixel adp_demo 3 3" by (simp add: adp_has_pixel_def)
  show ?thesis using adp_surface_in_backing [OF r, THEN conjunct2, THEN conjunct1, rule_format, OF p] p d by simp
qed

end
