(* ===== verification/Gxf.thy ===== *)
theory Gxf
  imports Prelude
begin

text \<open>
  The guarded-execution and permission-remap system registers, \<open>src/devices/apple_gxf_v1.c\<close>:
  the register file with its guarded-only bank, the EL1 encodings that name one bank or the other
  depending on the mode, the \<open>VMSA_LOCK_EL1\<close> write locks, the merge of EL0 permission writes, and the
  mode changes GENTER, GEXIT, GXF_ABORT and exception entry. The permission-change hook is recorded
  as the list of its calls; it is assumed not to call back into the register file.

  Shown: the guarded flag always mirrors the status bit and the modes follow the three-state machine
  of an outer level, a guarded level and one nested guarded level; a lock bit is sticky and, once
  set, no unguarded EL1 write changes the register it protects; an EL0 write changes
  exactly the permission bits its mask allows.
\<close>

section \<open>Registers\<close>

definition VF_GXF_SYSREG :: "nat \<Rightarrow> nat \<Rightarrow> nat \<Rightarrow> nat \<Rightarrow> nat \<Rightarrow> u32" where
  "VF_GXF_SYSREG op0 op1 crn crm op2 =
     of_nat (push_bit 16 op0 OR push_bit 12 op1 OR push_bit 8 crn OR push_bit 4 crm OR op2)"

abbreviation (input) VF_GXF_REG_GXF_CONFIG_EL1 :: u32 where "VF_GXF_REG_GXF_CONFIG_EL1 \<equiv> VF_GXF_SYSREG 3 6 15 1 2"
abbreviation (input) VF_GXF_REG_GXF_STATUS_EL1 :: u32 where "VF_GXF_REG_GXF_STATUS_EL1 \<equiv> VF_GXF_SYSREG 3 6 15 8 0"
abbreviation (input) VF_GXF_REG_GXF_ENTER_EL1 :: u32 where "VF_GXF_REG_GXF_ENTER_EL1 \<equiv> VF_GXF_SYSREG 3 6 15 8 1"
abbreviation (input) VF_GXF_REG_GXF_ABORT_EL1 :: u32 where "VF_GXF_REG_GXF_ABORT_EL1 \<equiv> VF_GXF_SYSREG 3 6 15 8 2"
abbreviation (input) VF_GXF_REG_ASPSR_GL11 :: u32 where "VF_GXF_REG_ASPSR_GL11 \<equiv> VF_GXF_SYSREG 3 6 15 8 3"
abbreviation (input) VF_GXF_REG_SP_GL11 :: u32 where "VF_GXF_REG_SP_GL11 \<equiv> VF_GXF_SYSREG 3 6 15 9 0"
abbreviation (input) VF_GXF_REG_TPIDR_GL11 :: u32 where "VF_GXF_REG_TPIDR_GL11 \<equiv> VF_GXF_SYSREG 3 6 15 9 1"
abbreviation (input) VF_GXF_REG_VBAR_GL11 :: u32 where "VF_GXF_REG_VBAR_GL11 \<equiv> VF_GXF_SYSREG 3 6 15 9 2"
abbreviation (input) VF_GXF_REG_SPSR_GL11 :: u32 where "VF_GXF_REG_SPSR_GL11 \<equiv> VF_GXF_SYSREG 3 6 15 9 3"
abbreviation (input) VF_GXF_REG_ESR_GL11 :: u32 where "VF_GXF_REG_ESR_GL11 \<equiv> VF_GXF_SYSREG 3 6 15 9 5"
abbreviation (input) VF_GXF_REG_ELR_GL11 :: u32 where "VF_GXF_REG_ELR_GL11 \<equiv> VF_GXF_SYSREG 3 6 15 9 6"
abbreviation (input) VF_GXF_REG_FAR_GL11 :: u32 where "VF_GXF_REG_FAR_GL11 \<equiv> VF_GXF_SYSREG 3 6 15 9 7"
abbreviation (input) VF_GXF_REG_TPIDR_EL1 :: u32 where "VF_GXF_REG_TPIDR_EL1 \<equiv> VF_GXF_SYSREG 3 0 13 0 4"
abbreviation (input) VF_GXF_REG_VBAR_EL1 :: u32 where "VF_GXF_REG_VBAR_EL1 \<equiv> VF_GXF_SYSREG 3 0 12 0 0"
abbreviation (input) VF_GXF_REG_SPSR_EL1 :: u32 where "VF_GXF_REG_SPSR_EL1 \<equiv> VF_GXF_SYSREG 3 0 4 0 0"
abbreviation (input) VF_GXF_REG_ELR_EL1 :: u32 where "VF_GXF_REG_ELR_EL1 \<equiv> VF_GXF_SYSREG 3 0 4 0 1"
abbreviation (input) VF_GXF_REG_ESR_EL1 :: u32 where "VF_GXF_REG_ESR_EL1 \<equiv> VF_GXF_SYSREG 3 0 5 2 0"
abbreviation (input) VF_GXF_REG_FAR_EL1 :: u32 where "VF_GXF_REG_FAR_EL1 \<equiv> VF_GXF_SYSREG 3 0 6 0 0"
abbreviation (input) VF_GXF_REG_SCTLR_EL1 :: u32 where "VF_GXF_REG_SCTLR_EL1 \<equiv> VF_GXF_SYSREG 3 0 1 0 0"
abbreviation (input) VF_GXF_REG_TTBR0_EL1 :: u32 where "VF_GXF_REG_TTBR0_EL1 \<equiv> VF_GXF_SYSREG 3 0 2 0 0"
abbreviation (input) VF_GXF_REG_TTBR1_EL1 :: u32 where "VF_GXF_REG_TTBR1_EL1 \<equiv> VF_GXF_SYSREG 3 0 2 0 1"
abbreviation (input) VF_GXF_REG_TCR_EL1 :: u32 where "VF_GXF_REG_TCR_EL1 \<equiv> VF_GXF_SYSREG 3 0 2 0 2"
abbreviation (input) VF_GXF_REG_HCR_EL2 :: u32 where "VF_GXF_REG_HCR_EL2 \<equiv> VF_GXF_SYSREG 3 4 1 1 0"
abbreviation (input) VF_GXF_REG_VMSA_LOCK_EL1 :: u32 where "VF_GXF_REG_VMSA_LOCK_EL1 \<equiv> VF_GXF_SYSREG 3 4 15 1 2"
abbreviation (input) VF_GXF_REG_SPRR_CONFIG_EL1 :: u32 where "VF_GXF_REG_SPRR_CONFIG_EL1 \<equiv> VF_GXF_SYSREG 3 6 15 1 0"
abbreviation (input) VF_GXF_REG_SPRR_CONFIG_EL0 :: u32 where "VF_GXF_REG_SPRR_CONFIG_EL0 \<equiv> VF_GXF_SYSREG 3 6 15 1 1"
abbreviation (input) VF_GXF_REG_SPRR_EL0BR0_EL1 :: u32 where "VF_GXF_REG_SPRR_EL0BR0_EL1 \<equiv> VF_GXF_SYSREG 3 6 15 1 5"
abbreviation (input) VF_GXF_REG_SPRR_EL0BR1_EL1 :: u32 where "VF_GXF_REG_SPRR_EL0BR1_EL1 \<equiv> VF_GXF_SYSREG 3 6 15 1 6"
abbreviation (input) VF_GXF_REG_SPRR_EL1BR0_EL1 :: u32 where "VF_GXF_REG_SPRR_EL1BR0_EL1 \<equiv> VF_GXF_SYSREG 3 6 15 1 7"
abbreviation (input) VF_GXF_REG_SPRR_EL1BR1_EL1 :: u32 where "VF_GXF_REG_SPRR_EL1BR1_EL1 \<equiv> VF_GXF_SYSREG 3 6 15 3 0"
abbreviation (input) VF_GXF_REG_MPRR_EL0BR0_EL1 :: u32 where "VF_GXF_REG_MPRR_EL0BR0_EL1 \<equiv> VF_GXF_SYSREG 3 6 15 3 1"
abbreviation (input) VF_GXF_REG_MPRR_EL0BR1_EL1 :: u32 where "VF_GXF_REG_MPRR_EL0BR1_EL1 \<equiv> VF_GXF_SYSREG 3 6 15 3 2"
abbreviation (input) VF_GXF_REG_MPRR_EL1BR0_EL1 :: u32 where "VF_GXF_REG_MPRR_EL1BR0_EL1 \<equiv> VF_GXF_SYSREG 3 6 15 3 3"
abbreviation (input) VF_GXF_REG_MPRR_EL1BR1_EL1 :: u32 where "VF_GXF_REG_MPRR_EL1BR1_EL1 \<equiv> VF_GXF_SYSREG 3 6 15 3 4"

abbreviation (input) VF_GXF_CONFIG_EN :: u64 where "VF_GXF_CONFIG_EN \<equiv> push_bit 0 1"
abbreviation (input) VF_GXF_STATUS_GUARDED :: u64 where "VF_GXF_STATUS_GUARDED \<equiv> push_bit 0 1"
abbreviation (input) VF_GXF_ASPSR_NEST :: u64 where "VF_GXF_ASPSR_NEST \<equiv> push_bit 0 1"
abbreviation (input) VF_GXF_HCR_TVM :: u64 where "VF_GXF_HCR_TVM \<equiv> push_bit 26 1"
abbreviation (input) VF_GXF_HCR_TRVM :: u64 where "VF_GXF_HCR_TRVM \<equiv> push_bit 30 1"
abbreviation (input) VF_GXF_VMSA_LOCK_VBAR_EL1 :: u64 where "VF_GXF_VMSA_LOCK_VBAR_EL1 \<equiv> push_bit 0 1"
abbreviation (input) VF_GXF_VMSA_LOCK_SCTLR_EL1 :: u64 where "VF_GXF_VMSA_LOCK_SCTLR_EL1 \<equiv> push_bit 1 1"
abbreviation (input) VF_GXF_VMSA_LOCK_TCR_EL1 :: u64 where "VF_GXF_VMSA_LOCK_TCR_EL1 \<equiv> push_bit 2 1"
abbreviation (input) VF_GXF_VMSA_LOCK_TTBR0_EL1 :: u64 where "VF_GXF_VMSA_LOCK_TTBR0_EL1 \<equiv> push_bit 3 1"
abbreviation (input) VF_GXF_VMSA_LOCK_TTBR1_EL1 :: u64 where "VF_GXF_VMSA_LOCK_TTBR1_EL1 \<equiv> push_bit 4 1"
abbreviation (input) VF_GXF_VMSA_LOCK_SCTLR_M_BIT :: u64 where "VF_GXF_VMSA_LOCK_SCTLR_M_BIT \<equiv> push_bit 63 1"
abbreviation (input) VF_GXF_SCTLR_M :: u64 where "VF_GXF_SCTLR_M \<equiv> push_bit 0 1"

abbreviation (input) VF_GXF_EXCP_SYNC :: nat where "VF_GXF_EXCP_SYNC \<equiv> 0"
abbreviation (input) VF_GXF_EXCP_IRQ :: nat where "VF_GXF_EXCP_IRQ \<equiv> 1"
abbreviation (input) VF_GXF_EXCP_FIQ :: nat where "VF_GXF_EXCP_FIQ \<equiv> 2"
abbreviation (input) VF_GXF_EXCP_SERR :: nat where "VF_GXF_EXCP_SERR \<equiv> 3"
abbreviation (input) VF_GXF_VBAR_TABLE_CURRENT_SP0 :: nat where "VF_GXF_VBAR_TABLE_CURRENT_SP0 \<equiv> 0"
abbreviation (input) VF_GXF_VBAR_TABLE_CURRENT_SPX :: nat where "VF_GXF_VBAR_TABLE_CURRENT_SPX \<equiv> 1"
abbreviation (input) VF_GXF_VBAR_TABLE_LOWER_A64 :: nat where "VF_GXF_VBAR_TABLE_LOWER_A64 \<equiv> 2"
abbreviation (input) VF_GXF_VBAR_TABLE_LOWER_A32 :: nat where "VF_GXF_VBAR_TABLE_LOWER_A32 \<equiv> 3"
abbreviation (input) VF_GXF_TCG_INSN_GENTER :: u32 where "VF_GXF_TCG_INSN_GENTER \<equiv> 0x00201420"
abbreviation (input) VF_GXF_TCG_INSN_GEXIT :: u32 where "VF_GXF_TCG_INSN_GEXIT \<equiv> 0x00201400"
abbreviation (input) VF_GXF_TCG_APPLE_OP_GXF :: u32 where "VF_GXF_TCG_APPLE_OP_GXF \<equiv> 5"
abbreviation (input) VF_GXF_TCG_RN_GEXIT :: u32 where "VF_GXF_TCG_RN_GEXIT \<equiv> 0"
abbreviation (input) VF_GXF_TCG_RN_GENTER :: u32 where "VF_GXF_TCG_RN_GENTER \<equiv> 1"

definition VF_GXF_VBAR_KIND_OFFSET :: "nat \<Rightarrow> u64" where
  "VF_GXF_VBAR_KIND_OFFSET kind = of_nat kind * 0x80"

definition VF_GXF_VBAR_TABLE_OFFSET :: "nat \<Rightarrow> u64" where
  "VF_GXF_VBAR_TABLE_OFFSET tbl = of_nat tbl * 0x200"

datatype gxf_tcg_kind = VF_GXF_TCG_KIND_NONE | VF_GXF_TCG_KIND_GENTER | VF_GXF_TCG_KIND_GEXIT

text \<open>
  The structure of the header. A hook is a function name (a number) with its context; the last field is
  not in the structure: it records the calls made to hooks, each with the context and the
  generation passed.
\<close>

record vf_apple_gxf_v1 =
  guarded :: bool
  gxf_config_el1 :: u64
  gxf_status_el1 :: u64
  gxf_enter_el1 :: u64
  gxf_abort_el1 :: u64
  aspsr_gl11 :: u64
  sp_gl11 :: u64
  tpidr_gl11 :: u64
  vbar_gl11 :: u64
  spsr_gl11 :: u64
  esr_gl11 :: u64
  elr_gl11 :: u64
  far_gl11 :: u64
  tpidr_el1 :: u64
  vbar_el1 :: u64
  spsr_el1 :: u64
  elr_el1 :: u64
  esr_el1 :: u64
  far_el1 :: u64
  hcr_el2 :: u64
  vmsa_lock_el1 :: u64
  sctlr_el1 :: u64
  tcr_el1 :: u64
  ttbr0_el1 :: u64
  ttbr1_el1 :: u64
  sprr_config_el1 :: u64
  sprr_config_el0 :: u64
  sprr_el0br0_el1 :: u64
  sprr_el0br1_el1 :: u64
  sprr_el1br0_el1 :: u64
  sprr_el1br1_el1 :: u64
  mprr_el0br0_el1 :: u64
  mprr_el0br1_el1 :: u64
  mprr_el1br0_el1 :: u64
  mprr_el1br1_el1 :: u64
  sprr_perm_generation :: u64
  sprr_tlb_flush_count :: u64
  sprr_tlb_flush :: "nat option"
  sprr_tlb_flush_ctx :: u64
  gxf_mode_generation :: u64
  sprr_tlb_flush_calls :: "(nat \<times> u64 \<times> u64) list"

section \<open>Access gates\<close>

definition gxf_sync_guarded_from_status :: "vf_apple_gxf_v1 \<Rightarrow> vf_apple_gxf_v1" where
  "gxf_sync_guarded_from_status g = g\<lparr>guarded := gxf_status_el1 g AND VF_GXF_STATUS_GUARDED \<noteq> 0\<rparr>"

definition gxf_guarded_only :: "vf_apple_gxf_v1 \<Rightarrow> u32 \<Rightarrow> bool" where
  "gxf_guarded_only g reg \<longleftrightarrow>
     (if reg \<in> {VF_GXF_REG_ASPSR_GL11, VF_GXF_REG_SP_GL11, VF_GXF_REG_TPIDR_GL11, VF_GXF_REG_VBAR_GL11,
         VF_GXF_REG_SPSR_GL11, VF_GXF_REG_ESR_GL11, VF_GXF_REG_ELR_GL11, VF_GXF_REG_FAR_GL11}
      then \<not> guarded g else False)"

definition gxf_tvm_trvm_blocks :: "vf_apple_gxf_v1 \<Rightarrow> u32 \<Rightarrow> bool \<Rightarrow> nat \<Rightarrow> bool" where
  "gxf_tvm_trvm_blocks g reg isread el \<longleftrightarrow>
     (if el \<noteq> 1 then False
      else if reg \<in> {VF_GXF_REG_ESR_EL1, VF_GXF_REG_FAR_EL1} then
        (if isread then hcr_el2 g AND VF_GXF_HCR_TRVM \<noteq> 0 else hcr_el2 g AND VF_GXF_HCR_TVM \<noteq> 0)
      else False)"

definition gxf_vmsa_locked :: "vf_apple_gxf_v1 \<Rightarrow> bool \<Rightarrow> nat \<Rightarrow> u64 \<Rightarrow> bool" where
  "gxf_vmsa_locked g grd el lock_bit \<longleftrightarrow>
     (if grd \<or> el \<noteq> 1 then False else vmsa_lock_el1 g AND lock_bit \<noteq> 0)"

definition gxf_el1_alias_read :: "vf_apple_gxf_v1 \<Rightarrow> u32 \<Rightarrow> nat \<Rightarrow> u64 option" where
  "gxf_el1_alias_read g reg el =
     (if gxf_tvm_trvm_blocks g reg True el then None
      else if reg = VF_GXF_REG_TPIDR_EL1 then Some (if guarded g then tpidr_gl11 g else tpidr_el1 g)
      else if reg = VF_GXF_REG_VBAR_EL1 then Some (if guarded g then vbar_gl11 g else vbar_el1 g)
      else if reg = VF_GXF_REG_SPSR_EL1 then Some (if guarded g then spsr_gl11 g else spsr_el1 g)
      else if reg = VF_GXF_REG_ELR_EL1 then Some (if guarded g then elr_gl11 g else elr_el1 g)
      else if reg = VF_GXF_REG_ESR_EL1 then Some (if guarded g then esr_gl11 g else esr_el1 g)
      else if reg = VF_GXF_REG_FAR_EL1 then Some (if guarded g then far_gl11 g else far_el1 g)
      else None)"

definition gxf_el1_alias_write :: "vf_apple_gxf_v1 \<Rightarrow> u32 \<Rightarrow> u64 \<Rightarrow> nat \<Rightarrow> rc \<times> vf_apple_gxf_v1" where
  "gxf_el1_alias_write g reg v el =
     (let vbar = v AND NOT 0x1f in
      if gxf_tvm_trvm_blocks g reg False el then (ERR, g)
      else if reg = VF_GXF_REG_TPIDR_EL1 then (OK, if guarded g then g\<lparr>tpidr_gl11 := v\<rparr> else g\<lparr>tpidr_el1 := v\<rparr>)
      else if reg = VF_GXF_REG_VBAR_EL1 then
        (if gxf_vmsa_locked g (guarded g) el VF_GXF_VMSA_LOCK_VBAR_EL1 then (OK, g)
         else (OK, if guarded g then g\<lparr>vbar_gl11 := vbar\<rparr> else g\<lparr>vbar_el1 := vbar\<rparr>))
      else if reg = VF_GXF_REG_SPSR_EL1 then (OK, if guarded g then g\<lparr>spsr_gl11 := v\<rparr> else g\<lparr>spsr_el1 := v\<rparr>)
      else if reg = VF_GXF_REG_ELR_EL1 then (OK, if guarded g then g\<lparr>elr_gl11 := v\<rparr> else g\<lparr>elr_el1 := v\<rparr>)
      else if reg = VF_GXF_REG_ESR_EL1 then (OK, if guarded g then g\<lparr>esr_gl11 := v\<rparr> else g\<lparr>esr_el1 := v\<rparr>)
      else if reg = VF_GXF_REG_FAR_EL1 then (OK, if guarded g then g\<lparr>far_gl11 := v\<rparr> else g\<lparr>far_el1 := v\<rparr>)
      else (ERR, g))"

section \<open>The permission merge\<close>

abbreviation (input) VF_GXF_SPRR_RWX_MASK :: u64 where "VF_GXF_SPRR_RWX_MASK \<equiv> 0x7"
abbreviation (input) VF_GXF_MPRR_ALLOW_MASK :: u64 where "VF_GXF_MPRR_ALLOW_MASK \<equiv> 0x3"

definition VF_GXF_SPRR_SLOT_SHIFT :: "nat \<Rightarrow> nat" where "VF_GXF_SPRR_SLOT_SHIFT i = i * 4"
definition VF_GXF_MPRR_ALLOW_SHIFT :: "nat \<Rightarrow> nat" where "VF_GXF_MPRR_ALLOW_SHIFT i = i * 2"

definition gxf_merge_slot :: "u64 \<Rightarrow> u64 \<Rightarrow> u64 \<Rightarrow> u64 \<Rightarrow> nat \<Rightarrow> u64" where
  "gxf_merge_slot orig requested mprr perm i =
     (let shift = VF_GXF_SPRR_SLOT_SHIFT i;
          allow = drop_bit (VF_GXF_MPRR_ALLOW_SHIFT i) mprr AND VF_GXF_MPRR_ALLOW_MASK;
          req = drop_bit shift requested AND VF_GXF_SPRR_RWX_MASK;
          old = drop_bit shift orig AND VF_GXF_SPRR_RWX_MASK;
          changed = (req XOR old) AND allow;
          result = (old AND NOT changed) OR (req AND changed) in
      (perm AND NOT (push_bit shift VF_GXF_SPRR_RWX_MASK)) OR push_bit shift result)"

definition gxf_merge_sprr_el0br0 :: "u64 \<Rightarrow> u64 \<Rightarrow> u64 \<Rightarrow> u64" where
  "gxf_merge_sprr_el0br0 orig requested mprr = foldl (gxf_merge_slot orig requested mprr) orig [0..<16]"

definition gxf_sprr_perm_changed :: "vf_apple_gxf_v1 \<Rightarrow> vf_apple_gxf_v1" where
  "gxf_sprr_perm_changed g =
     (let g1 = g\<lparr>sprr_perm_generation := sprr_perm_generation g + 1, sprr_tlb_flush_count := sprr_tlb_flush_count g + 1\<rparr> in
      case sprr_tlb_flush g1 of
        None \<Rightarrow> g1
      | Some fn \<Rightarrow> g1\<lparr>sprr_tlb_flush_calls := sprr_tlb_flush_calls g1 @ [(fn, sprr_tlb_flush_ctx g1, sprr_perm_generation g1)]\<rparr>)"

section \<open>Host operations\<close>

definition vf_apple_gxf_init :: "vf_apple_gxf_v1 \<Rightarrow> rc \<times> vf_apple_gxf_v1" where
  "vf_apple_gxf_init g = (OK, g\<lparr>
      guarded := False, gxf_config_el1 := 0, gxf_status_el1 := 0, gxf_enter_el1 := 0, gxf_abort_el1 := 0,
      aspsr_gl11 := 0, sp_gl11 := 0, tpidr_gl11 := 0, vbar_gl11 := 0, spsr_gl11 := 0, esr_gl11 := 0,
      elr_gl11 := 0, far_gl11 := 0, tpidr_el1 := 0, vbar_el1 := 0, spsr_el1 := 0, elr_el1 := 0,
      esr_el1 := 0, far_el1 := 0, hcr_el2 := 0, vmsa_lock_el1 := 0, sctlr_el1 := 0, tcr_el1 := 0,
      ttbr0_el1 := 0, ttbr1_el1 := 0, sprr_config_el1 := 0, sprr_config_el0 := 0, sprr_el0br0_el1 := 0,
      sprr_el0br1_el1 := 0, sprr_el1br0_el1 := 0, sprr_el1br1_el1 := 0, mprr_el0br0_el1 := 0, mprr_el0br1_el1 := 0,
      mprr_el1br0_el1 := 0, mprr_el1br1_el1 := 0, sprr_perm_generation := 0, sprr_tlb_flush_count := 0,
      sprr_tlb_flush := None, sprr_tlb_flush_ctx := 0, gxf_mode_generation := 0\<rparr>)"

definition vf_apple_gxf_set_guarded :: "vf_apple_gxf_v1 \<Rightarrow> bool \<Rightarrow> vf_apple_gxf_v1" where
  "vf_apple_gxf_set_guarded g grd =
     gxf_sync_guarded_from_status
       (if grd then g\<lparr>gxf_status_el1 := gxf_status_el1 g OR VF_GXF_STATUS_GUARDED\<rparr>
        else g\<lparr>gxf_status_el1 := gxf_status_el1 g AND NOT VF_GXF_STATUS_GUARDED\<rparr>)"

definition vf_apple_gxf_is_guarded :: "vf_apple_gxf_v1 \<Rightarrow> bool" where
  "vf_apple_gxf_is_guarded g \<longleftrightarrow> gxf_status_el1 g AND VF_GXF_STATUS_GUARDED \<noteq> 0"

definition vf_apple_gxf_set_hcr_el2 :: "vf_apple_gxf_v1 \<Rightarrow> u64 \<Rightarrow> vf_apple_gxf_v1" where
  "vf_apple_gxf_set_hcr_el2 g v = g\<lparr>hcr_el2 := v\<rparr>"

definition vf_apple_gxf_get_hcr_el2 :: "vf_apple_gxf_v1 \<Rightarrow> u64" where
  "vf_apple_gxf_get_hcr_el2 g = hcr_el2 g"

definition vf_apple_gxf_set_vmsa_lock_el1 :: "vf_apple_gxf_v1 \<Rightarrow> u64 \<Rightarrow> vf_apple_gxf_v1" where
  "vf_apple_gxf_set_vmsa_lock_el1 g v = g\<lparr>vmsa_lock_el1 := v\<rparr>"

definition vf_apple_gxf_get_vmsa_lock_el1 :: "vf_apple_gxf_v1 \<Rightarrow> u64" where
  "vf_apple_gxf_get_vmsa_lock_el1 g = vmsa_lock_el1 g"

definition vf_apple_gxf_set_sprr_tlb_flush :: "vf_apple_gxf_v1 \<Rightarrow> nat option \<Rightarrow> u64 \<Rightarrow> vf_apple_gxf_v1" where
  "vf_apple_gxf_set_sprr_tlb_flush g fn ctx = g\<lparr>sprr_tlb_flush := fn, sprr_tlb_flush_ctx := ctx\<rparr>"

definition vf_apple_gxf_sprr_perm_generation :: "vf_apple_gxf_v1 \<Rightarrow> u64" where
  "vf_apple_gxf_sprr_perm_generation g = sprr_perm_generation g"

definition vf_apple_gxf_sprr_tlb_flush_count :: "vf_apple_gxf_v1 \<Rightarrow> u64" where
  "vf_apple_gxf_sprr_tlb_flush_count g = sprr_tlb_flush_count g"

section \<open>Mode changes\<close>

definition vf_apple_gxf_genter :: "vf_apple_gxf_v1 \<Rightarrow> u64 \<Rightarrow> u64 \<Rightarrow> u64 option \<times> vf_apple_gxf_v1" where
  "vf_apple_gxf_genter g return_pc spsr =
     (if gxf_config_el1 g AND VF_GXF_CONFIG_EN = 0 then (None, g)
      else if vf_apple_gxf_is_guarded g then (None, g)
      else
        let g1 = g\<lparr>elr_gl11 := return_pc, spsr_gl11 := spsr, aspsr_gl11 := aspsr_gl11 g AND NOT VF_GXF_ASPSR_NEST,
              gxf_status_el1 := gxf_status_el1 g OR VF_GXF_STATUS_GUARDED\<rparr>;
            g2 = gxf_sync_guarded_from_status g1;
            g3 = g2\<lparr>gxf_mode_generation := gxf_mode_generation g2 + 1\<rparr> in
        (Some (gxf_enter_el1 g3), g3))"

definition vf_apple_gxf_abort ::
  "vf_apple_gxf_v1 \<Rightarrow> u64 \<Rightarrow> u64 \<Rightarrow> u64 \<Rightarrow> u64 \<Rightarrow> u64 option \<times> vf_apple_gxf_v1" where
  "vf_apple_gxf_abort g return_pc spsr esr far =
     (if gxf_config_el1 g AND VF_GXF_CONFIG_EN = 0 then (None, g)
      else
        let already_guarded = vf_apple_gxf_is_guarded g;
            g1 = g\<lparr>elr_gl11 := return_pc, spsr_gl11 := spsr, esr_gl11 := esr, far_gl11 := far\<rparr>;
            g2 = (if already_guarded then g1\<lparr>aspsr_gl11 := aspsr_gl11 g1 OR VF_GXF_ASPSR_NEST\<rparr>
                  else gxf_sync_guarded_from_status
                    (g1\<lparr>aspsr_gl11 := aspsr_gl11 g1 AND NOT VF_GXF_ASPSR_NEST,
                        gxf_status_el1 := gxf_status_el1 g1 OR VF_GXF_STATUS_GUARDED\<rparr>));
            g3 = g2\<lparr>gxf_mode_generation := gxf_mode_generation g2 + 1\<rparr> in
        (Some (gxf_abort_el1 g3), g3))"

definition vf_apple_gxf_take_exception ::
  "vf_apple_gxf_v1 \<Rightarrow> nat \<Rightarrow> nat \<Rightarrow> u64 \<Rightarrow> u64 \<Rightarrow> u64 \<Rightarrow> u64 \<Rightarrow> u64 option \<times> vf_apple_gxf_v1" where
  "vf_apple_gxf_take_exception g kind tbl return_pc spsr esr far =
     (if kind > VF_GXF_EXCP_SERR \<or> tbl > VF_GXF_VBAR_TABLE_LOWER_A32 then (None, g)
      else
        let grd = vf_apple_gxf_is_guarded g;
            base = (if grd then vbar_gl11 g else vbar_el1 g);
            offset = VF_GXF_VBAR_TABLE_OFFSET tbl + VF_GXF_VBAR_KIND_OFFSET kind in
        if base > - 1 - offset then (None, g)
        else
          let g1 = (if grd then g\<lparr>elr_gl11 := return_pc, spsr_gl11 := spsr\<rparr> else g\<lparr>elr_el1 := return_pc, spsr_el1 := spsr\<rparr>);
              g2 = (if kind = VF_GXF_EXCP_SYNC \<or> kind = VF_GXF_EXCP_SERR
                    then (if grd then g1\<lparr>esr_gl11 := esr\<rparr> else g1\<lparr>esr_el1 := esr\<rparr>) else g1);
              g3 = (if kind = VF_GXF_EXCP_SYNC then (if grd then g2\<lparr>far_gl11 := far\<rparr> else g2\<lparr>far_el1 := far\<rparr>) else g2) in
          (Some (base + offset), g3))"

definition vf_apple_gxf_gexit :: "vf_apple_gxf_v1 \<Rightarrow> u64 option \<times> vf_apple_gxf_v1" where
  "vf_apple_gxf_gexit g =
     (if \<not> vf_apple_gxf_is_guarded g then (None, g)
      else
        let g1 = (if aspsr_gl11 g AND VF_GXF_ASPSR_NEST \<noteq> 0 then g\<lparr>aspsr_gl11 := aspsr_gl11 g AND NOT VF_GXF_ASPSR_NEST\<rparr>
                  else gxf_sync_guarded_from_status
                    (g\<lparr>gxf_status_el1 := gxf_status_el1 g AND NOT VF_GXF_STATUS_GUARDED\<rparr>)) in
        (Some (elr_gl11 g), g1\<lparr>gxf_mode_generation := gxf_mode_generation g1 + 1\<rparr>))"

definition vf_apple_gxf_tcg_classify :: "u32 \<Rightarrow> gxf_tcg_kind" where
  "vf_apple_gxf_tcg_classify insn =
     (if drop_bit 31 insn AND 1 \<noteq> 0 then VF_GXF_TCG_KIND_NONE
      else if drop_bit 25 insn AND 0xf \<noteq> 0 then VF_GXF_TCG_KIND_NONE
      else if drop_bit 10 insn AND 0x3f \<noteq> VF_GXF_TCG_APPLE_OP_GXF then VF_GXF_TCG_KIND_NONE
      else
        let rn = drop_bit 5 insn AND 0x1f in
        if rn = VF_GXF_TCG_RN_GENTER then VF_GXF_TCG_KIND_GENTER
        else if rn = VF_GXF_TCG_RN_GEXIT then VF_GXF_TCG_KIND_GEXIT
        else VF_GXF_TCG_KIND_NONE)"

definition vf_apple_gxf_tcg_exec ::
  "vf_apple_gxf_v1 \<Rightarrow> u32 \<Rightarrow> nat \<Rightarrow> u64 \<Rightarrow> u64 \<Rightarrow> u64 option \<times> vf_apple_gxf_v1" where
  "vf_apple_gxf_tcg_exec g insn el return_pc spsr =
     (if el = 0 then (None, g)
      else case vf_apple_gxf_tcg_classify insn of
          VF_GXF_TCG_KIND_GENTER \<Rightarrow> vf_apple_gxf_genter g return_pc spsr
        | VF_GXF_TCG_KIND_GEXIT \<Rightarrow> vf_apple_gxf_gexit g
        | VF_GXF_TCG_KIND_NONE \<Rightarrow> (None, g))"

section \<open>Register access\<close>

definition vf_apple_gxf_read :: "vf_apple_gxf_v1 \<Rightarrow> u32 \<Rightarrow> u64 option" where
  "vf_apple_gxf_read g reg =
     (if gxf_guarded_only g reg then None
      else if gxf_el1_alias_read g reg 1 \<noteq> None then gxf_el1_alias_read g reg 1
      else if reg = VF_GXF_REG_GXF_CONFIG_EL1 then Some (gxf_config_el1 g)
      else if reg = VF_GXF_REG_GXF_STATUS_EL1 then Some (gxf_status_el1 g)
      else if reg = VF_GXF_REG_GXF_ENTER_EL1 then Some (gxf_enter_el1 g)
      else if reg = VF_GXF_REG_GXF_ABORT_EL1 then Some (gxf_abort_el1 g)
      else if reg = VF_GXF_REG_ASPSR_GL11 then Some (aspsr_gl11 g)
      else if reg = VF_GXF_REG_SP_GL11 then Some (sp_gl11 g)
      else if reg = VF_GXF_REG_TPIDR_GL11 then Some (tpidr_gl11 g)
      else if reg = VF_GXF_REG_VBAR_GL11 then Some (vbar_gl11 g)
      else if reg = VF_GXF_REG_SPSR_GL11 then Some (spsr_gl11 g)
      else if reg = VF_GXF_REG_ESR_GL11 then Some (esr_gl11 g)
      else if reg = VF_GXF_REG_ELR_GL11 then Some (elr_gl11 g)
      else if reg = VF_GXF_REG_FAR_GL11 then Some (far_gl11 g)
      else if reg = VF_GXF_REG_HCR_EL2 then None
      else if reg = VF_GXF_REG_VMSA_LOCK_EL1 then Some (vmsa_lock_el1 g)
      else if reg = VF_GXF_REG_SCTLR_EL1 then Some (sctlr_el1 g)
      else if reg = VF_GXF_REG_TCR_EL1 then Some (tcr_el1 g)
      else if reg = VF_GXF_REG_TTBR0_EL1 then Some (ttbr0_el1 g)
      else if reg = VF_GXF_REG_TTBR1_EL1 then Some (ttbr1_el1 g)
      else if reg = VF_GXF_REG_SPRR_CONFIG_EL1 then Some (sprr_config_el1 g)
      else if reg = VF_GXF_REG_SPRR_CONFIG_EL0 then Some (sprr_config_el0 g)
      else if reg = VF_GXF_REG_SPRR_EL0BR0_EL1 then Some (sprr_el0br0_el1 g)
      else if reg = VF_GXF_REG_SPRR_EL0BR1_EL1 then Some (sprr_el0br1_el1 g)
      else if reg = VF_GXF_REG_SPRR_EL1BR0_EL1 then Some (sprr_el1br0_el1 g)
      else if reg = VF_GXF_REG_SPRR_EL1BR1_EL1 then Some (sprr_el1br1_el1 g)
      else if reg = VF_GXF_REG_MPRR_EL0BR0_EL1 then Some (mprr_el0br0_el1 g)
      else if reg = VF_GXF_REG_MPRR_EL0BR1_EL1 then Some (mprr_el0br1_el1 g)
      else if reg = VF_GXF_REG_MPRR_EL1BR0_EL1 then Some (mprr_el1br0_el1 g)
      else if reg = VF_GXF_REG_MPRR_EL1BR1_EL1 then Some (mprr_el1br1_el1 g)
      else None)"

definition vf_apple_gxf_write_el :: "vf_apple_gxf_v1 \<Rightarrow> u32 \<Rightarrow> u64 \<Rightarrow> nat \<Rightarrow> rc \<times> vf_apple_gxf_v1" where
  "vf_apple_gxf_write_el g reg v el =
     (if gxf_guarded_only g reg then (ERR, g)
      else if fst (gxf_el1_alias_write g reg v el) = OK then (OK, snd (gxf_el1_alias_write g reg v el))
      else if reg = VF_GXF_REG_GXF_CONFIG_EL1 then (OK, g\<lparr>gxf_config_el1 := v\<rparr>)
      else if reg = VF_GXF_REG_GXF_ENTER_EL1 then (OK, g\<lparr>gxf_enter_el1 := v\<rparr>)
      else if reg = VF_GXF_REG_GXF_ABORT_EL1 then (OK, g\<lparr>gxf_abort_el1 := v\<rparr>)
      else if reg = VF_GXF_REG_ASPSR_GL11 then (OK, g\<lparr>aspsr_gl11 := v\<rparr>)
      else if reg = VF_GXF_REG_SP_GL11 then (OK, g\<lparr>sp_gl11 := v\<rparr>)
      else if reg = VF_GXF_REG_TPIDR_GL11 then (OK, g\<lparr>tpidr_gl11 := v\<rparr>)
      else if reg = VF_GXF_REG_VBAR_GL11 then (OK, g\<lparr>vbar_gl11 := v AND NOT 0x1f\<rparr>)
      else if reg = VF_GXF_REG_SPSR_GL11 then (OK, g\<lparr>spsr_gl11 := v\<rparr>)
      else if reg = VF_GXF_REG_ESR_GL11 then (OK, g\<lparr>esr_gl11 := v\<rparr>)
      else if reg = VF_GXF_REG_ELR_GL11 then (OK, g\<lparr>elr_gl11 := v\<rparr>)
      else if reg = VF_GXF_REG_FAR_GL11 then (OK, g\<lparr>far_gl11 := v\<rparr>)
      else if reg = VF_GXF_REG_HCR_EL2 then (if el < 2 then (ERR, g) else (OK, g\<lparr>hcr_el2 := v\<rparr>))
      else if reg = VF_GXF_REG_VMSA_LOCK_EL1 then (OK, g\<lparr>vmsa_lock_el1 := vmsa_lock_el1 g OR v\<rparr>)
      else if reg = VF_GXF_REG_SCTLR_EL1 then
        (if gxf_vmsa_locked g (guarded g) el VF_GXF_VMSA_LOCK_SCTLR_EL1 then (OK, g)
         else
           let v1 = (if gxf_vmsa_locked g (guarded g) el VF_GXF_VMSA_LOCK_SCTLR_M_BIT
                     then (v AND NOT VF_GXF_SCTLR_M) OR (sctlr_el1 g AND VF_GXF_SCTLR_M) else v) in
           (OK, g\<lparr>sctlr_el1 := v1\<rparr>))
      else if reg = VF_GXF_REG_TCR_EL1 then
        (if gxf_vmsa_locked g (guarded g) el VF_GXF_VMSA_LOCK_TCR_EL1 then (OK, g) else (OK, g\<lparr>tcr_el1 := v\<rparr>))
      else if reg = VF_GXF_REG_TTBR0_EL1 then
        (if gxf_vmsa_locked g (guarded g) el VF_GXF_VMSA_LOCK_TTBR0_EL1 then (OK, g) else (OK, g\<lparr>ttbr0_el1 := v\<rparr>))
      else if reg = VF_GXF_REG_TTBR1_EL1 then
        (if gxf_vmsa_locked g (guarded g) el VF_GXF_VMSA_LOCK_TTBR1_EL1 then (OK, g) else (OK, g\<lparr>ttbr1_el1 := v\<rparr>))
      else if reg = VF_GXF_REG_SPRR_CONFIG_EL1 then (OK, g\<lparr>sprr_config_el1 := v\<rparr>)
      else if reg = VF_GXF_REG_SPRR_CONFIG_EL0 then (OK, g\<lparr>sprr_config_el0 := v\<rparr>)
      else if reg = VF_GXF_REG_SPRR_EL0BR0_EL1 then
        (if el = 0 then (OK, gxf_sprr_perm_changed
             (g\<lparr>sprr_el0br0_el1 := gxf_merge_sprr_el0br0 (sprr_el0br0_el1 g) v (mprr_el0br0_el1 g)\<rparr>))
         else (OK, g\<lparr>sprr_el0br0_el1 := v\<rparr>))
      else if reg = VF_GXF_REG_SPRR_EL0BR1_EL1 then (OK, g\<lparr>sprr_el0br1_el1 := v\<rparr>)
      else if reg = VF_GXF_REG_SPRR_EL1BR0_EL1 then (OK, g\<lparr>sprr_el1br0_el1 := v\<rparr>)
      else if reg = VF_GXF_REG_SPRR_EL1BR1_EL1 then (OK, g\<lparr>sprr_el1br1_el1 := v\<rparr>)
      else if reg = VF_GXF_REG_MPRR_EL0BR0_EL1 then (OK, g\<lparr>mprr_el0br0_el1 := v\<rparr>)
      else if reg = VF_GXF_REG_MPRR_EL0BR1_EL1 then (OK, g\<lparr>mprr_el0br1_el1 := v\<rparr>)
      else if reg = VF_GXF_REG_MPRR_EL1BR0_EL1 then (OK, g\<lparr>mprr_el1br0_el1 := v\<rparr>)
      else if reg = VF_GXF_REG_MPRR_EL1BR1_EL1 then (OK, g\<lparr>mprr_el1br1_el1 := v\<rparr>)
      else (ERR, g))"

definition vf_apple_gxf_write :: "vf_apple_gxf_v1 \<Rightarrow> u32 \<Rightarrow> u64 \<Rightarrow> rc \<times> vf_apple_gxf_v1" where
  "vf_apple_gxf_write g reg v = vf_apple_gxf_write_el g reg v 1"

section \<open>Events\<close>

text \<open>What a guest can make the register file do: a register write at some exception level, and the mode changes.\<close>

datatype gxf_event =
    Msr u32 u64 nat
  | Genter u64 u64
  | Gexit
  | Abort u64 u64 u64 u64
  | Exception nat nat u64 u64 u64 u64
  | Tcg u32 nat u64 u64

fun gxf_apply :: "vf_apple_gxf_v1 \<Rightarrow> gxf_event \<Rightarrow> vf_apple_gxf_v1" where
  "gxf_apply g (Msr reg v el) = snd (vf_apple_gxf_write_el g reg v el)"
| "gxf_apply g (Genter pc spsr) = snd (vf_apple_gxf_genter g pc spsr)"
| "gxf_apply g Gexit = snd (vf_apple_gxf_gexit g)"
| "gxf_apply g (Abort pc spsr esr far) = snd (vf_apple_gxf_abort g pc spsr esr far)"
| "gxf_apply g (Exception kind tbl pc spsr esr far) = snd (vf_apple_gxf_take_exception g kind tbl pc spsr esr far)"
| "gxf_apply g (Tcg insn el pc spsr) = snd (vf_apple_gxf_tcg_exec g insn el pc spsr)"

definition gxf_run :: "vf_apple_gxf_v1 \<Rightarrow> gxf_event list \<Rightarrow> vf_apple_gxf_v1" where
  "gxf_run = foldl gxf_apply"

lemma gxf_run_simps [simp]: "gxf_run g [] = g" "gxf_run g (e # es) = gxf_run (gxf_apply g e) es"
  by (simp_all add: gxf_run_def)

lemma sprr_perm_frame [simp]:
  "guarded (gxf_sprr_perm_changed g) = guarded g" "gxf_status_el1 (gxf_sprr_perm_changed g) = gxf_status_el1 g"
  "aspsr_gl11 (gxf_sprr_perm_changed g) = aspsr_gl11 g" "gxf_config_el1 (gxf_sprr_perm_changed g) = gxf_config_el1 g"
  "vmsa_lock_el1 (gxf_sprr_perm_changed g) = vmsa_lock_el1 g" "vbar_el1 (gxf_sprr_perm_changed g) = vbar_el1 g"
  "sctlr_el1 (gxf_sprr_perm_changed g) = sctlr_el1 g" "tcr_el1 (gxf_sprr_perm_changed g) = tcr_el1 g"
  "ttbr0_el1 (gxf_sprr_perm_changed g) = ttbr0_el1 g" "ttbr1_el1 (gxf_sprr_perm_changed g) = ttbr1_el1 g"
  "sprr_el0br0_el1 (gxf_sprr_perm_changed g) = sprr_el0br0_el1 g"
  by (simp_all add: gxf_sprr_perm_changed_def Let_def split: option.split)

text \<open>A write is either its alias half or its own switch; a relation both halves respect, every write respects.\<close>

definition gxf_mode_frame :: "vf_apple_gxf_v1 \<Rightarrow> rc \<times> vf_apple_gxf_v1 \<Rightarrow> bool" where
  "gxf_mode_frame g r \<longleftrightarrow>
     guarded (snd r) = guarded g \<and> gxf_status_el1 (snd r) = gxf_status_el1 g"

lemma alias_mode_frame: "gxf_mode_frame g (gxf_el1_alias_write g reg v el)"
  unfolding gxf_el1_alias_write_def Let_def by (intro if_arm [where P = "gxf_mode_frame g"]) (simp_all add: gxf_mode_frame_def)

lemma write_mode_frame: "gxf_mode_frame g (vf_apple_gxf_write_el g reg v el)"
  unfolding vf_apple_gxf_write_el_def Let_def
  by (intro if_arm [where P = "gxf_mode_frame g"])
     (use alias_mode_frame [of g reg v el] in \<open>simp_all add: gxf_mode_frame_def\<close>)

section \<open>The mode machine\<close>

text \<open>
  The abstract machine: whether guarded entry is enabled, and the level: outside, guarded, or
  guarded with one abort outstanding.
\<close>

datatype gxf_level = Outside | Inside | Nested

fun gxf_enter_level :: "gxf_level \<Rightarrow> gxf_level" where
  "gxf_enter_level Outside = Inside"
| "gxf_enter_level l = l"

fun gxf_exit_level :: "gxf_level \<Rightarrow> gxf_level" where
  "gxf_exit_level Nested = Inside"
| "gxf_exit_level _ = Outside"

fun gxf_abort_level :: "gxf_level \<Rightarrow> gxf_level" where
  "gxf_abort_level Outside = Inside"
| "gxf_abort_level _ = Nested"

fun gxf_machine :: "bool \<times> gxf_level \<Rightarrow> gxf_event \<Rightarrow> bool \<times> gxf_level" where
  "gxf_machine (en, l) (Msr reg v el) =
     (if reg = VF_GXF_REG_GXF_CONFIG_EL1 then bit v 0 else en,
      if reg = VF_GXF_REG_ASPSR_GL11 \<and> l \<noteq> Outside then (if bit v 0 then Nested else Inside) else l)"
| "gxf_machine (en, l) (Genter _ _) = (en, if en then gxf_enter_level l else l)"
| "gxf_machine (en, l) Gexit = (en, gxf_exit_level l)"
| "gxf_machine (en, l) (Abort _ _ _ _) = (en, if en then gxf_abort_level l else l)"
| "gxf_machine (en, l) (Exception _ _ _ _ _ _) = (en, l)"
| "gxf_machine (en, l) (Tcg insn el _ _) =
     (en, if el = 0 then l
          else case vf_apple_gxf_tcg_classify insn of
              VF_GXF_TCG_KIND_GENTER \<Rightarrow> if en then gxf_enter_level l else l
            | VF_GXF_TCG_KIND_GEXIT \<Rightarrow> gxf_exit_level l
            | VF_GXF_TCG_KIND_NONE \<Rightarrow> l)"

definition gxf_abs :: "vf_apple_gxf_v1 \<Rightarrow> bool \<times> gxf_level" where
  "gxf_abs g = (bit (gxf_config_el1 g) 0,
     if \<not> bit (gxf_status_el1 g) 0 then Outside else if bit (aspsr_gl11 g) 0 then Nested else Inside)"

definition gxf_inv :: "vf_apple_gxf_v1 \<Rightarrow> bool" where
  "gxf_inv g \<longleftrightarrow> guarded g = bit (gxf_status_el1 g) 0"

lemma bit_or_1: "bit (w OR 1 :: 'a::len word) n \<longleftrightarrow> bit w n \<or> n = 0"
  by (auto simp: bit_simps)

lemma bit_and_not_1: "bit (w AND - 2 :: 'a::len word) n \<longleftrightarrow> bit w n \<and> n \<noteq> 0"
proof -
  have "bit (w AND NOT 1) n \<longleftrightarrow> bit w n \<and> n \<noteq> 0" by (auto simp: bit_simps dest: bit_imp_le_length)
  then show ?thesis by simp
qed

lemmas gxf_flag_simps = word_and_1_eq_0 bit_or_1 bit_and_not_1 vf_apple_gxf_is_guarded_def
  gxf_sync_guarded_from_status_def Let_def

lemma gxf_genter_level:
  "gxf_inv g \<Longrightarrow> gxf_inv (snd (vf_apple_gxf_genter g pc spsr))"
  "gxf_abs (snd (vf_apple_gxf_genter g pc spsr)) = gxf_machine (gxf_abs g) (Genter pc spsr)"
  by (simp_all add: vf_apple_gxf_genter_def gxf_flag_simps gxf_inv_def gxf_abs_def)

lemma gxf_gexit_level:
  "gxf_inv g \<Longrightarrow> gxf_inv (snd (vf_apple_gxf_gexit g))"
  "gxf_abs (snd (vf_apple_gxf_gexit g)) = gxf_machine (gxf_abs g) Gexit"
  by (simp_all add: vf_apple_gxf_gexit_def gxf_flag_simps gxf_inv_def gxf_abs_def)

lemma gxf_abort_steps:
  "gxf_inv g \<Longrightarrow> gxf_inv (snd (vf_apple_gxf_abort g pc spsr esr far))"
  "gxf_abs (snd (vf_apple_gxf_abort g pc spsr esr far)) = gxf_machine (gxf_abs g) (Abort pc spsr esr far)"
  by (simp_all add: vf_apple_gxf_abort_def gxf_flag_simps gxf_inv_def gxf_abs_def)

lemma gxf_exception_frame:
  fixes g kind tbl pc spsr esr far
  defines "g' \<equiv> snd (vf_apple_gxf_take_exception g kind tbl pc spsr esr far)"
  shows "guarded g' = guarded g" "gxf_status_el1 g' = gxf_status_el1 g" "aspsr_gl11 g' = aspsr_gl11 g"
    "gxf_config_el1 g' = gxf_config_el1 g" "vmsa_lock_el1 g' = vmsa_lock_el1 g" "vbar_el1 g' = vbar_el1 g"
    "sctlr_el1 g' = sctlr_el1 g" "tcr_el1 g' = tcr_el1 g" "ttbr0_el1 g' = ttbr0_el1 g" "ttbr1_el1 g' = ttbr1_el1 g"
  unfolding g'_def by (simp_all add: vf_apple_gxf_take_exception_def Let_def)

text \<open>A write moves the machine only through the configuration register and, when guarded, the nesting bit.\<close>

definition gxf_ctl_frame :: "vf_apple_gxf_v1 \<Rightarrow> u32 \<Rightarrow> u64 \<Rightarrow> rc \<times> vf_apple_gxf_v1 \<Rightarrow> bool" where
  "gxf_ctl_frame g reg v r \<longleftrightarrow>
     gxf_config_el1 (snd r) = (if reg = VF_GXF_REG_GXF_CONFIG_EL1 then v else gxf_config_el1 g)
     \<and> aspsr_gl11 (snd r) = (if reg = VF_GXF_REG_ASPSR_GL11 \<and> guarded g then v else aspsr_gl11 g)"

lemma alias_not_ctl:
  "fst (gxf_el1_alias_write g reg v el) = OK \<Longrightarrow> reg \<noteq> VF_GXF_REG_GXF_CONFIG_EL1 \<and> reg \<noteq> VF_GXF_REG_ASPSR_GL11"
  by (cases "gxf_tvm_trvm_blocks g reg False el") (auto simp: gxf_el1_alias_write_def VF_GXF_SYSREG_def)

lemma alias_ctl_frame:
  "gxf_config_el1 (snd (gxf_el1_alias_write g reg v el)) = gxf_config_el1 g"
  "aspsr_gl11 (snd (gxf_el1_alias_write g reg v el)) = aspsr_gl11 g"
  by (simp_all add: gxf_el1_alias_write_def Let_def)

lemma write_ctl_frame: "gxf_ctl_frame g reg v (vf_apple_gxf_write_el g reg v el)"
proof (cases "reg = VF_GXF_REG_GXF_CONFIG_EL1 \<or> reg = VF_GXF_REG_ASPSR_GL11")
  case True
  then have "fst (gxf_el1_alias_write g reg v el) \<noteq> OK" using alias_not_ctl by blast
  with True show ?thesis
    by (auto simp: vf_apple_gxf_write_el_def gxf_ctl_frame_def gxf_guarded_only_def VF_GXF_SYSREG_def)
next
  case False
  then show ?thesis
    unfolding vf_apple_gxf_write_el_def Let_def
    by (intro if_arm [where P = "gxf_ctl_frame g reg v"]) (simp_all add: gxf_ctl_frame_def alias_ctl_frame)
qed

lemma gxf_step_machine:
  assumes "gxf_inv g"
  shows "gxf_inv (gxf_apply g e) \<and> gxf_abs (gxf_apply g e) = gxf_machine (gxf_abs g) e"
proof (cases e)
  case (Msr reg v el)
  then show ?thesis
    using assms write_ctl_frame [of g reg v el] write_mode_frame [of g reg v el]
    by (auto simp: gxf_inv_def gxf_abs_def gxf_ctl_frame_def gxf_mode_frame_def)
next
  case (Tcg insn el pc spsr)
  then show ?thesis
    using assms gxf_genter_level [of g pc spsr] gxf_gexit_level [of g]
    by (cases "vf_apple_gxf_tcg_classify insn"; cases "gxf_abs g") (auto simp: vf_apple_gxf_tcg_exec_def)
next
  case (Exception kind tbl pc spsr esr far)
  then show ?thesis using assms by (simp add: gxf_inv_def gxf_abs_def gxf_exception_frame)
qed (use assms in \<open>simp_all add: gxf_genter_level gxf_gexit_level gxf_abort_steps\<close>)

lemma gxf_run_machine:
  "gxf_inv g \<Longrightarrow> gxf_inv (gxf_run g es) \<and> gxf_abs (gxf_run g es) = foldl gxf_machine (gxf_abs g) es"
  by (induction es arbitrary: g) (simp_all add: gxf_step_machine)

lemma gxf_init_machine:
  "gxf_inv (snd (vf_apple_gxf_init g))" "gxf_abs (snd (vf_apple_gxf_init g)) = (False, Outside)"
  by (simp_all add: vf_apple_gxf_init_def gxf_inv_def gxf_abs_def)

section \<open>Locks\<close>

text \<open>The registers protected by lock bits 0 to 4, in the order of the bits.\<close>

definition gxf_mmu :: "vf_apple_gxf_v1 \<Rightarrow> u64 list" where
  "gxf_mmu g = [vbar_el1 g, sctlr_el1 g, tcr_el1 g, ttbr0_el1 g, ttbr1_el1 g]"

definition gxf_mmu_regs :: "u32 list" where
  "gxf_mmu_regs = [VF_GXF_REG_VBAR_EL1, VF_GXF_REG_SCTLR_EL1, VF_GXF_REG_TCR_EL1, VF_GXF_REG_TTBR0_EL1, VF_GXF_REG_TTBR1_EL1]"

definition gxf_locked_same :: "vf_apple_gxf_v1 \<Rightarrow> vf_apple_gxf_v1 \<Rightarrow> bool" where
  "gxf_locked_same g g' \<longleftrightarrow>
     (\<forall>n. bit (vmsa_lock_el1 g) n \<longrightarrow> bit (vmsa_lock_el1 g') n)
     \<and> (\<forall>k < 5. bit (vmsa_lock_el1 g) k \<longrightarrow> gxf_mmu g' ! k = gxf_mmu g ! k)
     \<and> (bit (vmsa_lock_el1 g) 63 \<longrightarrow> bit (sctlr_el1 g') 0 = bit (sctlr_el1 g) 0)"

lemma gxf_locked_same_refl [simp]: "gxf_locked_same g g"
  by (simp add: gxf_locked_same_def)

lemma gxf_locked_same_trans: "gxf_locked_same a b \<Longrightarrow> gxf_locked_same b c \<Longrightarrow> gxf_locked_same a c"
  unfolding gxf_locked_same_def by metis

lemma gxf_locked_same_frame:
  "vmsa_lock_el1 g' = vmsa_lock_el1 g \<Longrightarrow> gxf_mmu g' = gxf_mmu g \<Longrightarrow> gxf_locked_same g g'"
  by (auto simp: gxf_locked_same_def gxf_mmu_def)

lemma gxf_mode_ops_mmu:
  "vmsa_lock_el1 (snd (vf_apple_gxf_genter g pc spsr)) = vmsa_lock_el1 g" "gxf_mmu (snd (vf_apple_gxf_genter g pc spsr)) = gxf_mmu g"
  "vmsa_lock_el1 (snd (vf_apple_gxf_gexit g)) = vmsa_lock_el1 g" "gxf_mmu (snd (vf_apple_gxf_gexit g)) = gxf_mmu g"
  "vmsa_lock_el1 (snd (vf_apple_gxf_abort g pc spsr esr far)) = vmsa_lock_el1 g"
  "gxf_mmu (snd (vf_apple_gxf_abort g pc spsr esr far)) = gxf_mmu g"
  "gxf_mmu (snd (vf_apple_gxf_take_exception g kind tbl pc spsr esr far)) = gxf_mmu g"
  by (simp_all add: vf_apple_gxf_genter_def vf_apple_gxf_gexit_def vf_apple_gxf_abort_def gxf_mmu_def
      gxf_exception_frame gxf_sync_guarded_from_status_def Let_def)

text \<open>A write that touches a protected register is made at EL1 outside guarded mode.\<close>

definition gxf_el1_write :: "vf_apple_gxf_v1 \<Rightarrow> u32 \<Rightarrow> nat \<Rightarrow> bool" where
  "gxf_el1_write g reg el \<longleftrightarrow> (reg \<in> set gxf_mmu_regs \<longrightarrow> el = 1 \<and> \<not> guarded g)"

lemma all_less_5: "(\<forall>k < 5. P k) \<longleftrightarrow> P 0 \<and> P 1 \<and> P 2 \<and> P 3 \<and> P (4 :: nat)"
  by (auto simp: numeral_eq_Suc All_less_Suc)

lemma gxf_vmsa_locked_el1: "\<not> guarded g \<Longrightarrow> gxf_vmsa_locked g (guarded g) (Suc 0) (push_bit k 1) \<longleftrightarrow> bit (vmsa_lock_el1 g) k"
  by (simp only: gxf_vmsa_locked_def and_shift_eq_0) simp

lemma alias_locked_same:
  assumes "gxf_el1_write g reg el"
  shows "gxf_locked_same g (snd (gxf_el1_alias_write g reg v el))"
  unfolding gxf_el1_alias_write_def Let_def
  by (intro if_arm [where P = "\<lambda>r. gxf_locked_same g (snd r)"])
     (use assms gxf_vmsa_locked_el1 [of g 0] in
       \<open>simp_all add: gxf_locked_same_def gxf_mmu_def gxf_el1_write_def gxf_mmu_regs_def all_less_5\<close>)

text \<open>The write of each protected register at EL1 outside guarded mode.\<close>

lemma gxf_locked_writes:
  assumes "\<not> guarded g"
  shows "snd (vf_apple_gxf_write_el g VF_GXF_REG_SCTLR_EL1 v 1) =
      (if bit (vmsa_lock_el1 g) 1 then g
       else g\<lparr>sctlr_el1 := (if bit (vmsa_lock_el1 g) 63 then (v AND NOT 1) OR (sctlr_el1 g AND 1) else v)\<rparr>)"
    and "snd (vf_apple_gxf_write_el g VF_GXF_REG_TCR_EL1 v 1) = (if bit (vmsa_lock_el1 g) 2 then g else g\<lparr>tcr_el1 := v\<rparr>)"
    and "snd (vf_apple_gxf_write_el g VF_GXF_REG_TTBR0_EL1 v 1) = (if bit (vmsa_lock_el1 g) 3 then g else g\<lparr>ttbr0_el1 := v\<rparr>)"
    and "snd (vf_apple_gxf_write_el g VF_GXF_REG_TTBR1_EL1 v 1) = (if bit (vmsa_lock_el1 g) 4 then g else g\<lparr>ttbr1_el1 := v\<rparr>)"
  using assms gxf_vmsa_locked_el1 [of g 1] gxf_vmsa_locked_el1 [of g 2]
    gxf_vmsa_locked_el1 [of g 3] gxf_vmsa_locked_el1 [of g 4] gxf_vmsa_locked_el1 [of g 63]
  by (simp_all add: vf_apple_gxf_write_el_def gxf_guarded_only_def gxf_el1_alias_write_def gxf_tvm_trvm_blocks_def VF_GXF_SYSREG_def)

lemma write_locked_same:
  assumes "gxf_el1_write g reg el"
  shows "gxf_locked_same g (snd (vf_apple_gxf_write_el g reg v el))"
proof (cases "reg \<in> set (tl gxf_mmu_regs)")
  case True
  with assms have "el = 1" "\<not> guarded g" by (auto simp: gxf_el1_write_def gxf_mmu_regs_def)
  with True show ?thesis
    by (auto simp: gxf_mmu_regs_def gxf_locked_writes [simplified] gxf_locked_same_def gxf_mmu_def all_less_5 bit_simps split: if_splits)
next
  case False
  then show ?thesis
    unfolding vf_apple_gxf_write_el_def Let_def
    by (intro if_arm [where P = "\<lambda>r. gxf_locked_same g (snd r)"])
       (use alias_locked_same [OF assms] in
         \<open>simp_all add: gxf_locked_same_def gxf_mmu_def gxf_mmu_regs_def all_less_5 bit_or_iff\<close>)
qed

fun gxf_el1_only :: "vf_apple_gxf_v1 \<Rightarrow> gxf_event list \<Rightarrow> bool" where
  "gxf_el1_only g [] \<longleftrightarrow> True"
| "gxf_el1_only g (e # es) \<longleftrightarrow>
     (case e of Msr reg v el \<Rightarrow> gxf_el1_write g reg el | _ \<Rightarrow> True) \<and> gxf_el1_only (gxf_apply g e) es"

lemma gxf_step_locked:
  assumes "gxf_el1_only g (e # es)"
  shows "gxf_locked_same g (gxf_apply g e)"
proof (cases e)
  case (Msr reg v el)
  with assms show ?thesis by (simp add: write_locked_same)
next
  case (Tcg insn el pc spsr)
  then show ?thesis
    by (cases "vf_apple_gxf_tcg_classify insn")
       (simp_all add: vf_apple_gxf_tcg_exec_def gxf_locked_same_frame gxf_mode_ops_mmu)
qed (simp_all add: gxf_locked_same_frame gxf_mode_ops_mmu gxf_exception_frame)

lemma gxf_run_locked: "gxf_el1_only g es \<Longrightarrow> gxf_locked_same g (gxf_run g es)"
proof (induction es arbitrary: g)
  case (Cons e es)
  then show ?case using gxf_step_locked [OF Cons.prems] by (auto intro: gxf_locked_same_trans)
qed simp

section \<open>The merge, bit by bit\<close>

definition gxf_merged_bit :: "u64 \<Rightarrow> u64 \<Rightarrow> u64 \<Rightarrow> nat \<Rightarrow> bool" where
  "gxf_merged_bit orig requested mprr n \<longleftrightarrow>
     (if n mod 4 < 2 \<and> bit mprr (2 * (n div 4) + n mod 4) then bit requested n else bit orig n)"

lemma bit_low_masks: "bit (7 :: int) j \<longleftrightarrow> j < 3" "bit (3 :: int) j \<longleftrightarrow> j < 2"
  using bit_mask_iff [of 3 j, where ?'a = int] bit_mask_iff [of 2 j, where ?'a = int] by (auto simp: mask_eq_exp_minus_1)

lemma gxf_merge_slot_bit:
  assumes "n < 64" "n div 4 = i \<Longrightarrow> bit perm n = bit orig n"
  shows "bit (gxf_merge_slot orig requested mprr perm i) n \<longleftrightarrow>
    (if n div 4 = i then gxf_merged_bit orig requested mprr n else bit perm n)"
proof (cases "n div 4 = i")
  case True
  define j where "j = n mod 4"
  have n: "n = i * 4 + j" using True by (auto simp: j_def)
  have "gxf_merged_bit orig requested mprr n \<longleftrightarrow>
      (if j < 2 \<and> bit mprr (i * 2 + j) then bit requested n else bit orig n)"
    by (simp add: gxf_merged_bit_def True j_def mult.commute)
  moreover have "j = 0 \<or> j = 1 \<or> j = 2 \<or> j = 3" by (auto simp: j_def)
  then have "bit (gxf_merge_slot orig requested mprr perm i) n \<longleftrightarrow>
      (if j < 2 \<and> bit mprr (i * 2 + j) then bit requested n else bit orig n)"
    using assms True unfolding n
    by (elim disjE) (auto simp: gxf_merge_slot_def Let_def VF_GXF_SPRR_SLOT_SHIFT_def VF_GXF_MPRR_ALLOW_SHIFT_def
      bit_low_masks bit_simps)
  ultimately show ?thesis using True by simp
next
  case False
  then have "\<not> (4 * i \<le> n \<and> n - 4 * i < 3)" by auto
  with False assms show ?thesis
    by (auto simp: gxf_merge_slot_def Let_def VF_GXF_SPRR_SLOT_SHIFT_def bit_low_masks bit_simps mult.commute)
qed

lemma gxf_merge_bit_low:
  assumes "n < 64"
  shows "bit (gxf_merge_sprr_el0br0 orig requested mprr) n = gxf_merged_bit orig requested mprr n"
proof -
  have "bit (foldl (gxf_merge_slot orig requested mprr) orig [0..<k]) n =
      (if n div 4 < k then gxf_merged_bit orig requested mprr n else bit orig n)" for k
  proof (induction k)
    case (Suc k)
    then show ?case
      using gxf_merge_slot_bit [OF assms, of k "foldl (gxf_merge_slot orig requested mprr) orig [0..<k]" orig] by auto
  qed simp
  moreover have "n div 4 < 16" using assms by auto
  ultimately show ?thesis by (simp add: gxf_merge_sprr_el0br0_def)
qed

lemma gxf_merge_bit: "bit (gxf_merge_sprr_el0br0 orig requested mprr) n = gxf_merged_bit orig requested mprr n"
  by (cases "n < 64") (auto simp: gxf_merge_bit_low gxf_merged_bit_def dest: bit_imp_le_length)

lemma gxf_write_el0_sprr:
  "vf_apple_gxf_write_el g VF_GXF_REG_SPRR_EL0BR0_EL1 v 0 =
     (OK, gxf_sprr_perm_changed (g\<lparr>sprr_el0br0_el1 := gxf_merge_sprr_el0br0 (sprr_el0br0_el1 g) v (mprr_el0br0_el1 g)\<rparr>))"
  by (simp add: vf_apple_gxf_write_el_def gxf_guarded_only_def gxf_el1_alias_write_def gxf_tvm_trvm_blocks_def VF_GXF_SYSREG_def)

section \<open>Properties\<close>

text \<open>C26. From reset, whatever registers the guest writes and however it enters, leaves, aborts or takes
exceptions, the register file follows the three-level mode machine: the cached guarded flag is the
status bit, GENTER succeeds exactly when entry is enabled and the level is outside and then branches to
the entry register, and GEXIT succeeds exactly from a guarded level and branches to the saved return
address. Nesting is one level deep: an abort of a nested level stays nested.
\<close>
theorem gxf_refines_mode_machine:
  "let s = gxf_run (snd (vf_apple_gxf_init g)) es; (enabled, level) = foldl gxf_machine (False, Outside) es in
     gxf_abs s = (enabled, level)
     \<and> guarded s = vf_apple_gxf_is_guarded s \<and> vf_apple_gxf_is_guarded s = (level \<noteq> Outside)
     \<and> fst (vf_apple_gxf_genter s pc spsr) = (if enabled \<and> level = Outside then Some (gxf_enter_el1 s) else None)
     \<and> fst (vf_apple_gxf_abort s pc spsr esr far) = (if enabled then Some (gxf_abort_el1 s) else None)
     \<and> fst (vf_apple_gxf_gexit s) = (if level = Outside then None else Some (elr_gl11 s))"
proof -
  define s where "s = gxf_run (snd (vf_apple_gxf_init g)) es"
  have m: "gxf_inv s" "gxf_abs s = foldl gxf_machine (False, Outside) es"
    using gxf_run_machine [OF gxf_init_machine(1)] by (simp_all add: s_def gxf_init_machine)
  from m(1) show ?thesis
    unfolding s_def [symmetric] m(2) [symmetric] Let_def
    by (auto simp: gxf_abs_def gxf_inv_def vf_apple_gxf_genter_def vf_apple_gxf_abort_def vf_apple_gxf_gexit_def
        gxf_sync_guarded_from_status_def vf_apple_gxf_is_guarded_def word_and_1_eq_0 Let_def)
qed

text \<open>C27. The locks hold: over a run in which the five memory-management registers are only written at EL1 outside
guarded mode, a set lock bit stays set, the register it protects (VBAR, SCTLR, TCR, TTBR0, TTBR1 for
bits 0 to 4) keeps its value, and bit 63 keeps the MMU enable bit of SCTLR. Mode changes,
exceptions and writes of all other registers, from any level, may come in between.
\<close>
theorem gxf_locked_mmu_fixed:
  assumes "gxf_el1_only g es"
  shows "(bit (vmsa_lock_el1 g) n \<longrightarrow> bit (vmsa_lock_el1 (gxf_run g es)) n)
    \<and> (k < 5 \<and> bit (vmsa_lock_el1 g) k \<longrightarrow> gxf_mmu (gxf_run g es) ! k = gxf_mmu g ! k)
    \<and> (bit (vmsa_lock_el1 g) 63 \<longrightarrow> bit (sctlr_el1 (gxf_run g es)) 0 = bit (sctlr_el1 g) 0)"
  using gxf_run_locked [OF assms] by (simp add: gxf_locked_same_def)

definition gxf_demo :: vf_apple_gxf_v1 where
  "gxf_demo = (snd (vf_apple_gxf_init undefined))\<lparr>vmsa_lock_el1 := 4, tcr_el1 := 0x10\<rparr>"

theorem gxf_locked_mmu_fixed_witness:
  "gxf_el1_only gxf_demo [Msr VF_GXF_REG_VMSA_LOCK_EL1 1 1, Msr VF_GXF_REG_TCR_EL1 0x20 1]
   \<and> tcr_el1 (gxf_run gxf_demo [Msr VF_GXF_REG_VMSA_LOCK_EL1 1 1, Msr VF_GXF_REG_TCR_EL1 0x20 1]) = 0x10"
proof -
  let ?es = "[Msr VF_GXF_REG_VMSA_LOCK_EL1 1 1, Msr VF_GXF_REG_TCR_EL1 0x20 1]"
  have "guarded gxf_demo = False" "bit (vmsa_lock_el1 gxf_demo) 2" "gxf_mmu gxf_demo ! 2 = 0x10"
    by (simp_all add: gxf_demo_def vf_apple_gxf_init_def gxf_mmu_def bit_numeral_rec)
  moreover from this have e: "gxf_el1_only gxf_demo ?es"
    using write_mode_frame [of gxf_demo "VF_GXF_REG_VMSA_LOCK_EL1" 1 1] by (simp add: gxf_el1_write_def gxf_mode_frame_def)
  ultimately have "gxf_mmu (gxf_run gxf_demo ?es) ! 2 = 0x10"
    using gxf_locked_mmu_fixed [OF e, of 0 2] by simp
  then have "tcr_el1 (gxf_run gxf_demo ?es) = 0x10" by (simp add: gxf_mmu_def)
  with e show ?thesis by blast
qed

text \<open>An EL0 write of the permission register changes exactly the bits its mask allows: bit \<open>j\<close> of slot \<open>i\<close>
takes the requested value when \<open>j < 2\<close> and bit \<open>2 i + j\<close> of the mask register is set, and every
other bit, the third and fourth of each slot included, is kept; the permission generation and the flush count
advance by one, and an installed hook is called once, with its context and the new generation.
\<close>
theorem gxf_el0_write_exact:
  "\<exists>g'. vf_apple_gxf_write_el g VF_GXF_REG_SPRR_EL0BR0_EL1 v 0 = (OK, g')
     \<and> bit (sprr_el0br0_el1 g') n =
         (if n mod 4 < 2 \<and> bit (mprr_el0br0_el1 g) (2 * (n div 4) + n mod 4) then bit v n else bit (sprr_el0br0_el1 g) n)
     \<and> sprr_perm_generation g' = sprr_perm_generation g + 1 \<and> sprr_tlb_flush_count g' = sprr_tlb_flush_count g + 1
     \<and> sprr_tlb_flush_calls g' = sprr_tlb_flush_calls g @
         (case sprr_tlb_flush g of None \<Rightarrow> [] | Some fn \<Rightarrow> [(fn, sprr_tlb_flush_ctx g, sprr_perm_generation g + 1)])"
  unfolding gxf_write_el0_sprr
  by (simp add: gxf_merge_bit gxf_merged_bit_def) (simp add: gxf_sprr_perm_changed_def Let_def split: option.split)

end
