(* ===== verification/FpScalar.thy ===== *)
theory FpScalar
  imports Prelude Complex_Main
begin

text \<open>
  Binary32 addition and division in software, \<open>src/runtime/fp_scalar.c\<close>: rounding mode and cumulative
  status, special operands, alignment with a sticky bit, normalisation and rounding.
  Two loops of the code shift until a leading bit appears; they would not end on zero, so they
  are partial functions whose value is \<open>None\<close> when they do not return, and every operation is an option.

  Shown: both operations return on every input; on finite operands the result is the exact
  sum or quotient correctly rounded in each of the four modes, with the inexact, underflow and overflow
  flags exact.
\<close>

section \<open>State\<close>

abbreviation (input) FP_SIGN :: u32 where "FP_SIGN \<equiv> 0x80000000"
abbreviation (input) FP_ABS :: u32 where "FP_ABS \<equiv> 0x7fffffff"
abbreviation (input) FP_INF :: u32 where "FP_INF \<equiv> 0x7f800000"
abbreviation (input) FP_QUIET :: u32 where "FP_QUIET \<equiv> 0x00400000"
abbreviation (input) FP_FRACTION :: u32 where "FP_FRACTION \<equiv> 0x007fffff"
abbreviation (input) FP_HIDDEN :: u32 where "FP_HIDDEN \<equiv> 0x00800000"

datatype nc_fp_rounding = NC_FP_RN | NC_FP_RP | NC_FP_RM | NC_FP_RZ

abbreviation (input) NC_FP_IOC :: u32 where "NC_FP_IOC \<equiv> 1"
abbreviation (input) NC_FP_DZC :: u32 where "NC_FP_DZC \<equiv> 2"
abbreviation (input) NC_FP_OFC :: u32 where "NC_FP_OFC \<equiv> 4"
abbreviation (input) NC_FP_UFC :: u32 where "NC_FP_UFC \<equiv> 8"
abbreviation (input) NC_FP_IXC :: u32 where "NC_FP_IXC \<equiv> 16"
abbreviation (input) NC_FP_STATUS_MASK :: u32 where "NC_FP_STATUS_MASK \<equiv> 31"

record nc_fp32_state =
  rounding :: nc_fp_rounding
  fp_status :: u32

record nc_fp32_result =
  fp_bits :: u32
  fp_cumulative :: u32

text \<open>The cast of the two mode bits to the enumeration.\<close>

definition rounding_of :: "u32 \<Rightarrow> nc_fp_rounding" where
  "rounding_of n = (if n = 0 then NC_FP_RN else if n = 1 then NC_FP_RP else if n = 2 then NC_FP_RM else NC_FP_RZ)"

section \<open>Operations\<close>

definition nc_fp32_init :: "nc_fp32_state \<Rightarrow> nc_fp32_state" where
  "nc_fp32_init st = st\<lparr>rounding := NC_FP_RN, fp_status := 0\<rparr>"

definition nc_fp32_configure :: "nc_fp32_state \<Rightarrow> u32 \<Rightarrow> bool \<times> nc_fp32_state" where
  "nc_fp32_configure st control =
     (if control AND NOT 0x00c00000 \<noteq> 0 then (False, st)
      else (True, st\<lparr>rounding := rounding_of (drop_bit 22 control)\<rparr>))"

definition nc_fp32_clear_status :: "nc_fp32_state \<Rightarrow> u32 \<Rightarrow> nc_fp32_state" where
  "nc_fp32_clear_status st m = st\<lparr>fp_status := fp_status st AND NOT (m AND NC_FP_STATUS_MASK)\<rparr>"

definition fp_result :: "nc_fp32_state \<Rightarrow> u32 \<Rightarrow> u32 \<Rightarrow> nc_fp32_result \<times> nc_fp32_state" where
  "fp_result st bits flags =
     (let st1 = st\<lparr>fp_status := fp_status st OR flags\<rparr> in (\<lparr>fp_bits = bits, fp_cumulative = fp_status st1\<rparr>, st1))"

definition is_nan :: "u32 \<Rightarrow> bool" where "is_nan bits \<longleftrightarrow> bits AND FP_ABS > FP_INF"

definition is_snan :: "u32 \<Rightarrow> bool" where "is_snan bits \<longleftrightarrow> is_nan bits \<and> bits AND FP_QUIET = 0"

definition nan_result :: "nc_fp32_state \<Rightarrow> u32 \<Rightarrow> u32 \<Rightarrow> nc_fp32_result \<times> nc_fp32_state" where
  "nan_result st a b =
     (if is_snan a then fp_result st (a OR FP_QUIET) NC_FP_IOC
      else if is_snan b then fp_result st (b OR FP_QUIET) NC_FP_IOC
      else fp_result st (if is_nan a then a else b) 0)"

definition shift_jam :: "u64 \<Rightarrow> nat \<Rightarrow> u64" where
  "shift_jam v distance =
     (if distance = 0 then v
      else if distance \<ge> 64 then (if v \<noteq> 0 then 1 else 0)
      else drop_bit distance v OR (if push_bit (64 - distance) v \<noteq> 0 then 1 else 0))"

partial_function (option) unpack_loop :: "u32 \<Rightarrow> int \<Rightarrow> (u32 \<times> int) option" where
  "unpack_loop fraction exponent =
     (if fraction AND FP_HIDDEN = 0 then unpack_loop (push_bit 1 fraction) (exponent - 1) else Some (fraction, exponent))"

definition unpack :: "u32 \<Rightarrow> (u32 \<times> int) option" where
  "unpack bits =
     (let fraction = bits AND FP_FRACTION; encoded = unat (drop_bit 23 bits AND 255) in
      if encoded \<noteq> 0 then Some (fraction OR FP_HIDDEN, int encoded - 127)
      else unpack_loop fraction (- 126))"

definition fp_overflow :: "nc_fp32_state \<Rightarrow> u32 \<Rightarrow> nc_fp32_result \<times> nc_fp32_state" where
  "fp_overflow st sign =
     (let infinity = (rounding st = NC_FP_RN \<or> (rounding st = NC_FP_RP \<and> sign = 0) \<or> (rounding st = NC_FP_RM \<and> sign \<noteq> 0)) in
      fp_result st (sign OR (if infinity then FP_INF else FP_INF - 1)) (NC_FP_OFC OR NC_FP_IXC))"

definition fp_increment :: "nc_fp32_state \<Rightarrow> u32 \<Rightarrow> u32 \<Rightarrow> u32 \<Rightarrow> bool" where
  "fp_increment st sign tail rounded \<longleftrightarrow>
     (if rounding st = NC_FP_RN then tail > 4 \<or> (tail = 4 \<and> rounded AND 1 \<noteq> 0)
      else tail \<noteq> 0 \<and> ((rounding st = NC_FP_RP \<and> sign = 0) \<or> (rounding st = NC_FP_RM \<and> sign \<noteq> 0)))"

definition pack :: "nc_fp32_state \<Rightarrow> u32 \<Rightarrow> int \<Rightarrow> u64 \<Rightarrow> nc_fp32_result \<times> nc_fp32_state" where
  "pack st sign exponent significand =
     (let tiny = exponent < - 126;
          significand1 = (if tiny then shift_jam significand (nat (- 126 - exponent)) else significand);
          exponent1 = (if tiny then - 126 else exponent);
          tail = ucast (significand1 AND 7) :: u32;
          rounded = ucast (drop_bit 3 significand1) :: u32;
          flags = (if tail \<noteq> 0 then NC_FP_IXC OR (if tiny then NC_FP_UFC else 0) else 0);
          rounded1 = rounded + (if fp_increment st sign tail rounded then 1 else 0);
          carry = (rounded1 \<ge> push_bit 1 FP_HIDDEN);
          rounded2 = (if carry then drop_bit 1 rounded1 else rounded1);
          exponent2 = (if carry then exponent1 + 1 else exponent1) in
      if exponent2 > 127 then fp_overflow st sign
      else
        let encoded = (if rounded2 \<ge> FP_HIDDEN then push_bit 23 (of_int (exponent2 + 127)) else 0) in
        fp_result st (sign OR encoded OR (rounded2 AND FP_FRACTION)) flags)"

partial_function (option) normalise_loop :: "u64 \<Rightarrow> int \<Rightarrow> (u64 \<times> int) option" where
  "normalise_loop msum ea =
     (if msum AND push_bit 26 1 = 0 then normalise_loop (push_bit 1 msum) (ea - 1) else Some (msum, ea))"

text \<open>The finite part of an addition, from the comparison of the two unpacked operands on.\<close>

definition fp_add_finite ::
  "nc_fp32_state \<Rightarrow> u32 \<Rightarrow> int \<Rightarrow> u64 \<Rightarrow> u32 \<Rightarrow> int \<Rightarrow> u64 \<Rightarrow> (nc_fp32_result \<times> nc_fp32_state) option" where
  "fp_add_finite st sa ea ma sb eb mb =
     (let swap = (ea < eb \<or> (ea = eb \<and> ma < mb));
          (sa1, ea1, ma1, sb1, eb1, mb1) = (if swap then (sb, eb, mb, sa, ea, ma) else (sa, ea, ma, sb, eb, mb));
          mb2 = shift_jam mb1 (nat (ea1 - eb1));
          msum = (if sa1 = sb1 then ma1 + mb2 else ma1 - mb2) in
      if msum = 0 then Some (fp_result st (if rounding st = NC_FP_RM then FP_SIGN else 0) 0)
      else
        let (msum1, ea2) = (if msum AND push_bit 27 1 \<noteq> 0 then (shift_jam msum 1, ea1 + 1) else (msum, ea1)) in
        case normalise_loop msum1 ea2 of
          None \<Rightarrow> None
        | Some (msum2, ea3) \<Rightarrow> Some (pack st sa1 ea3 msum2))"

definition nc_fp32_add :: "nc_fp32_state \<Rightarrow> u32 \<Rightarrow> u32 \<Rightarrow> (nc_fp32_result \<times> nc_fp32_state) option" where
  "nc_fp32_add st a b =
     (let aa = a AND FP_ABS; ab = b AND FP_ABS; sa = a AND FP_SIGN; sb = b AND FP_SIGN in
      if is_nan a \<or> is_nan b then Some (nan_result st a b)
      else if aa = FP_INF \<or> ab = FP_INF then
        (if aa = FP_INF \<and> ab = FP_INF \<and> sa \<noteq> sb then Some (fp_result st (FP_INF OR FP_QUIET) NC_FP_IOC)
         else Some (fp_result st (if aa = FP_INF then a else b) 0))
      else if aa = 0 \<and> ab = 0 then
        Some (fp_result st (if sa = sb then sa else if rounding st = NC_FP_RM then FP_SIGN else 0) 0)
      else if aa = 0 \<or> ab = 0 then Some (fp_result st (if aa = 0 then b else a) 0)
      else
        case unpack a of
          None \<Rightarrow> None
        | Some (fa, ea) \<Rightarrow>
            (case unpack b of
               None \<Rightarrow> None
             | Some (fb, eb) \<Rightarrow>
                 fp_add_finite st sa ea (push_bit 3 (ucast fa)) sb eb (push_bit 3 (ucast fb))))"

definition nc_fp32_div :: "nc_fp32_state \<Rightarrow> u32 \<Rightarrow> u32 \<Rightarrow> (nc_fp32_result \<times> nc_fp32_state) option" where
  "nc_fp32_div st a b =
     (let aa = a AND FP_ABS; ab = b AND FP_ABS; sign = (a XOR b) AND FP_SIGN in
      if is_nan a \<or> is_nan b then Some (nan_result st a b)
      else if (aa = 0 \<and> ab = 0) \<or> (aa = FP_INF \<and> ab = FP_INF) then Some (fp_result st (FP_INF OR FP_QUIET) NC_FP_IOC)
      else if aa = FP_INF then Some (fp_result st (sign OR FP_INF) 0)
      else if ab = FP_INF then Some (fp_result st sign 0)
      else if ab = 0 then Some (fp_result st (sign OR FP_INF) NC_FP_DZC)
      else if aa = 0 then Some (fp_result st sign 0)
      else
        case unpack a of
          None \<Rightarrow> None
        | Some (ma, ea) \<Rightarrow>
            (case unpack b of
               None \<Rightarrow> None
             | Some (mb, eb) \<Rightarrow>
                 let exponent = ea - eb;
                     (ma1, exponent1) = (if ma < mb then (push_bit 1 ma, exponent - 1) else (ma, exponent));
                     numerator = push_bit 26 (ucast ma1) :: u64;
                     quotient = numerator div ucast mb;
                     quotient1 = (if numerator mod ucast mb \<noteq> 0 then quotient OR 1 else quotient) in
                 Some (pack st sign exponent1 quotient1)))"

section \<open>Sticky shifts\<close>

text \<open>
  An integer \<open>q\<close> stands for a real \<open>x\<close> as far as multiples of \<open>k\<close> can tell: it lies on the same side of, or
  on, each of them. Rounding decisions compare against multiples of four only.
\<close>

definition sides :: "int \<Rightarrow> real \<Rightarrow> int \<Rightarrow> bool" where
  "sides k x q \<longleftrightarrow> (\<forall>n. k dvd n \<longrightarrow> (real_of_int n < x \<longleftrightarrow> n < q) \<and> (x < real_of_int n \<longleftrightarrow> q < n))"

lemma sidesD: "sides k x q \<Longrightarrow> k dvd n \<Longrightarrow> (real_of_int n < x \<longleftrightarrow> n < q) \<and> (x < real_of_int n \<longleftrightarrow> q < n)"
  by (simp add: sides_def)

lemma sides_exact [simp]: "sides k (real_of_int q) q"
  by (simp add: sides_def)

lemma sides_mono: "sides k x q \<Longrightarrow> k dvd l \<Longrightarrow> sides l x q"
  unfolding sides_def by (meson dvd_trans)

lemma sides_add: "sides k x q \<Longrightarrow> k dvd m \<Longrightarrow> sides k (real_of_int m + x) (m + q)"
  unfolding sides_def
proof (intro allI impI)
  fix n assume h: "\<forall>n. k dvd n \<longrightarrow> (real_of_int n < x \<longleftrightarrow> n < q) \<and> (x < real_of_int n \<longleftrightarrow> q < n)" and "k dvd m" "k dvd n"
  then have "k dvd n - m" by simp
  with h have "(real_of_int (n - m) < x \<longleftrightarrow> n - m < q) \<and> (x < real_of_int (n - m) \<longleftrightarrow> q < n - m)" by blast
  then show "(real_of_int n < real_of_int m + x \<longleftrightarrow> n < m + q) \<and> (real_of_int m + x < real_of_int n \<longleftrightarrow> m + q < n)" by auto
qed

lemma sides_uminus: "sides k x q \<Longrightarrow> sides k (- x) (- q)"
  unfolding sides_def
proof (intro allI impI)
  fix n assume h: "\<forall>n. k dvd n \<longrightarrow> (real_of_int n < x \<longleftrightarrow> n < q) \<and> (x < real_of_int n \<longleftrightarrow> q < n)" and "k dvd n"
  then have "(real_of_int (- n) < x \<longleftrightarrow> - n < q) \<and> (x < real_of_int (- n) \<longleftrightarrow> q < - n)" by (metis dvd_minus_iff)
  then show "(real_of_int n < - x \<longleftrightarrow> n < - q) \<and> (- x < real_of_int n \<longleftrightarrow> - q < n)" by auto
qed

lemma sides_double: "sides k x q \<Longrightarrow> sides (2 * k) (2 * x) (2 * q)"
  unfolding sides_def
proof (intro allI impI)
  fix n assume h: "\<forall>n. k dvd n \<longrightarrow> (real_of_int n < x \<longleftrightarrow> n < q) \<and> (x < real_of_int n \<longleftrightarrow> q < n)" and "2 * k dvd n"
  then obtain m where n: "n = 2 * m" "k dvd m" by (metis dvd_def mult.assoc)
  with h have "(real_of_int m < x \<longleftrightarrow> m < q) \<and> (x < real_of_int m \<longleftrightarrow> q < m)" by blast
  then show "(real_of_int n < 2 * x \<longleftrightarrow> n < 2 * q) \<and> (2 * x < real_of_int n \<longleftrightarrow> 2 * q < n)" by (simp add: n)
qed

text \<open>The value of a sticky shift.\<close>

definition jam :: "nat \<Rightarrow> nat \<Rightarrow> nat" where
  "jam v d = (if v mod 2 ^ d = 0 \<or> odd (v div 2 ^ d) then v div 2 ^ d else v div 2 ^ d + 1)"

lemma unat_or_1: "unat (w OR 1 :: u64) = (if even (unat w) then unat w + 1 else unat w)"
proof -
  have "unat (w OR 1) = unat w OR 1" by (simp add: unsigned_or_eq)
  also have "\<dots> = (if even (unat w) then unat w + 1 else unat w)"
    by (simp add: or_Suc_0_eq)
  finally show ?thesis .
qed

lemma unat_drop_div: "unat (drop_bit d (w :: 'a::len word)) = unat w div 2 ^ d"
proof -
  have "unat (drop_bit d w) = drop_bit d (unat w)" by (rule unat_drop_bit_eq)
  then show ?thesis by (simp only: drop_bit_eq_div)
qed

lemma push_bit_low_zero:
  assumes "0 < d" "d < 64"
  shows "push_bit (64 - d) (v :: u64) = 0 \<longleftrightarrow> unat v mod 2 ^ d = 0"
proof -
  have "push_bit (64 - d) v = 0 \<longleftrightarrow> (\<forall>n < d. \<not> bit v n)"
  proof
    assume z: "push_bit (64 - d) v = 0"
    show "\<forall>n < d. \<not> bit v n"
    proof (intro allI impI)
      fix n assume "n < d"
      with assms have "bit (push_bit (64 - d) v) (64 - d + n) = bit v n" by (auto simp: bit_push_bit_iff)
      with z show "\<not> bit v n" by simp
    qed
  next
    assume "\<forall>n < d. \<not> bit v n"
    with assms show "push_bit (64 - d) v = 0" by (auto intro!: bit_word_eqI simp: bit_push_bit_iff)
  qed
  also have "\<dots> \<longleftrightarrow> take_bit d v = 0" using assms by (auto simp: bit_eq_iff bit_take_bit_iff)
  also have "\<dots> \<longleftrightarrow> unat (take_bit d v) = 0" by (simp only: unat_eq_0)
  also have "unat (take_bit d v) = unat v mod 2 ^ d" using assms by (simp only: unsigned_take_bit_eq) (simp only: take_bit_eq_mod)
  finally show ?thesis .
qed

lemma unat_shift_jam: "unat (shift_jam v d) = jam (unat v) d"
proof -
  consider "d = 0" | "64 \<le> d" | "0 < d" "d < 64" by linarith
  then show ?thesis
  proof cases
    case 2
    have "unat v < 2 ^ 64" using unat_lt2p [of v] by simp
    also have "(2 :: nat) ^ 64 \<le> 2 ^ d" using 2 by (intro power_increasing) auto
    finally have "unat v < 2 ^ d" .
    then show ?thesis using 2 by (auto simp: shift_jam_def jam_def unat_eq_0)
  next
    case 3
    have "unat (drop_bit d v) = unat v div 2 ^ d" by (rule unat_drop_div)
    with 3 show ?thesis by (simp add: shift_jam_def jam_def push_bit_low_zero unat_or_1)
  qed (simp add: shift_jam_def jam_def)
qed

definition sticky :: "nat \<Rightarrow> nat \<Rightarrow> nat" where
  "sticky v m = (if v mod m = 0 \<or> odd (v div m) then v div m else v div m + 1)"

lemma sticky_sides:
  assumes n: "even n" and m: "0 < m"
  shows "(n * m < v \<longleftrightarrow> n < sticky v m) \<and> (v < n * m \<longleftrightarrow> sticky v m < n)"
proof -
  define f where "f = v div m"
  define r where "r = v mod m"
  have v: "v = f * m + r" and r: "r < m" using m by (simp_all only: f_def r_def div_mult_mod_eq) simp
  have lt: "v < n * m \<longleftrightarrow> f < n" unfolding f_def by (simp add: less_mult_imp_div_less div_less_iff_less_mult m)
  have gt: "n * m < v \<longleftrightarrow> (if r = 0 then n < f else n \<le> f)"
  proof (cases "n \<le> f")
    case True
    show ?thesis
    proof (cases "n = f")
      case False
      with True have "n * m < f * m" using m by simp
      then have "n * m < v" unfolding v by linarith
      with True False show ?thesis by auto
    qed (simp add: v)
  next
    case False
    with lt show ?thesis by auto
  qed
  have j: "sticky v m = (if r = 0 \<or> odd f then f else f + 1)" by (simp add: sticky_def f_def r_def)
  show ?thesis
  proof (cases "even f")
    case True
    with n have "f < n \<longleftrightarrow> f + 1 < n" by (metis Suc_eq_plus1 Suc_lessD Suc_lessI even_Suc)
    with True show ?thesis by (auto simp: lt gt j)
  next
    case False
    with n have "n \<le> f \<longleftrightarrow> n < f" by (metis order.order_iff_strict)
    with False show ?thesis by (auto simp: lt gt j)
  qed
qed

lemma jam_sides: "even n \<Longrightarrow> (n * 2 ^ d < v \<longleftrightarrow> n < jam v d) \<and> (v < n * 2 ^ d \<longleftrightarrow> jam v d < n)"
  using sticky_sides [of n "2 ^ d" v] by (simp add: jam_def sticky_def)

lemma sides_sticky:
  assumes m: "0 < m"
  shows "sides 2 (real v / real m) (int (sticky v m))"
  unfolding sides_def
proof (intro allI impI)
  fix n :: int assume "2 dvd n"
  show "(real_of_int n < real v / real m \<longleftrightarrow> n < int (sticky v m)) \<and> (real v / real m < real_of_int n \<longleftrightarrow> int (sticky v m) < n)"
  proof (cases "0 \<le> n")
    case True
    then obtain k where k: "n = int k" using nonneg_int_cases by blast
    have "(real k < real v / real m \<longleftrightarrow> k * m < v) \<and> (real v / real m < real k \<longleftrightarrow> v < k * m)"
      using m by (simp add: less_divide_eq divide_less_eq flip: of_nat_mult)
    then show ?thesis using sticky_sides [of k m v] m \<open>2 dvd n\<close> by (simp add: k)
  next
    case False
    then have "real_of_int n < 0" by simp
    moreover have "0 \<le> real v / real m" by simp
    ultimately show ?thesis using False by (smt (verit) of_nat_0_le_iff)
  qed
qed

lemma sides_jam:
  assumes "sides (k * 2 ^ d) x (int v)" "even k"
  shows "sides k (x / 2 ^ d) (int (jam v d))"
  unfolding sides_def
proof (intro allI impI)
  fix n assume "k dvd n"
  then have "k * 2 ^ d dvd n * 2 ^ d" by simp
  from sidesD [OF assms(1) this]
  have x: "(real_of_int n < x / 2 ^ d \<longleftrightarrow> n * 2 ^ d < int v) \<and> (x / 2 ^ d < real_of_int n \<longleftrightarrow> int v < n * 2 ^ d)"
    by (simp add: field_simps)
  have "even n" using \<open>k dvd n\<close> assms(2) dvd_trans by blast
  have "(n * 2 ^ d < int v \<longleftrightarrow> n < int (jam v d)) \<and> (int v < n * 2 ^ d \<longleftrightarrow> int (jam v d) < n)"
  proof (cases "0 \<le> n")
    case True
    then obtain m where n: "n = int m" using nonneg_int_cases by blast
    then have "(m * 2 ^ d < v \<longleftrightarrow> m < jam v d) \<and> (v < m * 2 ^ d \<longleftrightarrow> jam v d < m)" using \<open>even n\<close> by (intro jam_sides) simp
    moreover have "int m * 2 ^ d = int (m * 2 ^ d)" by simp
    ultimately show ?thesis unfolding n by (simp only: of_nat_less_iff)
  next
    case False
    then have "n * 2 ^ d < 0" by (simp add: mult_neg_pos)
    with False show ?thesis by (simp add: not_less)
  qed
  with x show "(real_of_int n < x / 2 ^ d \<longleftrightarrow> n < int (jam v d)) \<and> (x / 2 ^ d < real_of_int n \<longleftrightarrow> int (jam v d) < n)" by simp
qed

section \<open>Normalising loops\<close>

lemma unat_push_1: "unat w * 2 < 2 ^ LENGTH('a) \<Longrightarrow> unat (push_bit 1 (w :: 'a::len word)) = unat w * 2"
  by (simp add: push_bit_eq_mult unat_word_ariths mod_less_eq_dividend take_bit_nat_eq_self flip: take_bit_eq_mod) (cases "LENGTH('a) = 1"; simp)

lemma top_bit_clear:
  assumes "unat (w :: 'a::len word) < 2 ^ Suc k" "k < LENGTH('a)"
  shows "bit w k \<longleftrightarrow> 2 ^ k \<le> unat w"
proof -
  have "bit w k \<longleftrightarrow> odd (unat w div 2 ^ k)" using assms(2) by (simp only: bit_unsigned_iff bit_iff_odd [of "unat w", symmetric]) simp
  moreover have "unat w div 2 ^ k < 2" using assms(1) by (simp add: div_less_iff_less_mult)
  ultimately show ?thesis by (cases "unat w div 2 ^ k = 0") (auto simp: div_eq_0_iff not_less less_2_cases_iff)
qed

lemma unpack_loop_returns:
  assumes "0 < unat f" "unat f < 2 ^ 24"
  shows "\<exists>k g. unpack_loop f e = Some (g, e - int k) \<and> unat g = unat f * 2 ^ k \<and> 2 ^ 23 \<le> unat g \<and> unat g < 2 ^ 24"
  using assms
proof (induction "2 ^ 24 - unat f" arbitrary: f e rule: less_induct)
  case less
  have hid: "f AND 0x800000 = 0 \<longleftrightarrow> unat f < 2 ^ 23"
    using and_shift_eq_0 [of f 23] top_bit_clear [of f 23] less.prems by (simp add: not_le)
  show ?case
  proof (cases "unat f < 2 ^ 23")
    case False
    then have "unpack_loop f e = Some (f, e - int 0)" using hid by (simp add: unpack_loop.simps)
    with False less.prems show ?thesis by (intro exI [of _ 0] exI [of _ f]) simp
  next
    case True
    then have u: "unat (push_bit 1 f) = unat f * 2" by (intro unat_push_1) simp
    have "2 ^ 24 - unat (push_bit 1 f) < 2 ^ 24 - unat f" using True less.prems unfolding u by simp
    from less.hyps [OF this, of "e - 1"] u True less.prems
    obtain k g where "unpack_loop (push_bit 1 f) (e - 1) = Some (g, e - 1 - int k)" "unat g = unat f * 2 * 2 ^ k"
      "2 ^ 23 \<le> unat g" "unat g < 2 ^ 24" by auto
    moreover have "unpack_loop f e = unpack_loop (push_bit 1 f) (e - 1)"
      using hid True by (subst unpack_loop.simps) simp
    ultimately show ?thesis by (intro exI [of _ "Suc k"] exI [of _ g]) simp
  qed
qed

lemma normalise_loop_returns:
  assumes "0 < unat s" "unat s < 2 ^ 27"
  shows "\<exists>k g. normalise_loop s e = Some (g, e - int k) \<and> unat g = unat s * 2 ^ k \<and> 2 ^ 26 \<le> unat g \<and> unat g < 2 ^ 27"
  using assms
proof (induction "2 ^ 27 - unat s" arbitrary: s e rule: less_induct)
  case less
  have hid: "s AND push_bit 26 1 = 0 \<longleftrightarrow> unat s < 2 ^ 26"
    using top_bit_clear [of s 26] less.prems by (simp only: and_shift_eq_0) (simp add: not_le)
  show ?case
  proof (cases "unat s < 2 ^ 26")
    case False
    then have "normalise_loop s e = Some (s, e - int 0)" using hid by (subst normalise_loop.simps) simp
    with False less.prems show ?thesis by (intro exI [of _ 0] exI [of _ s]) simp
  next
    case True
    then have u: "unat (push_bit 1 s) = unat s * 2" by (intro unat_push_1) simp
    have "2 ^ 27 - unat (push_bit 1 s) < 2 ^ 27 - unat s" using True less.prems unfolding u by simp
    from less.hyps [OF this, of "e - 1"] u True less.prems
    obtain k g where "normalise_loop (push_bit 1 s) (e - 1) = Some (g, e - 1 - int k)" "unat g = unat s * 2 * 2 ^ k"
      "2 ^ 26 \<le> unat g" "unat g < 2 ^ 27" by auto
    moreover have "normalise_loop s e = normalise_loop (push_bit 1 s) (e - 1)"
      using hid True by (subst normalise_loop.simps) simp
    ultimately show ?thesis by (intro exI [of _ "Suc k"] exI [of _ g]) simp
  qed
qed

section \<open>Values\<close>

text \<open>
  The 31 magnitude bits as a number. Magnitudes are ordered as their codes, and the value of a code,
  in multiples of the least subnormal \<open>2\<^sup>-\<^sup>1\<^sup>4\<^sup>9\<close>, is a natural number; code \<open>fp_inf\<close> would be \<open>2\<^sup>1\<^sup>2\<^sup>8\<close>.
\<close>

definition fp_code :: "u32 \<Rightarrow> nat" where "fp_code w = unat (w AND FP_ABS)"

abbreviation (input) fp_inf :: nat where "fp_inf \<equiv> 0x7f800000"

definition magn :: "nat \<Rightarrow> nat" where
  "magn m = (if m < 2 ^ 23 then m else (m mod 2 ^ 23 + 2 ^ 23) * 2 ^ (m div 2 ^ 23 - 1))"

definition fp_value :: "u32 \<Rightarrow> real" where
  "fp_value w = (if bit w 31 then - real (magn (fp_code w)) else real (magn (fp_code w)))"

definition fp_finite :: "u32 \<Rightarrow> bool" where "fp_finite w \<longleftrightarrow> fp_code w < fp_inf"

lemma magn_block:
  assumes "2 ^ 23 \<le> n" "n \<le> 2 ^ 24"
  shows "magn (E * 2 ^ 23 + n) = n * 2 ^ E"
proof (cases "n = 2 ^ 24")
  case True
  then have "E * 2 ^ 23 + n = (E + 2) * 2 ^ 23" by simp
  then show ?thesis using True by (simp only: magn_def) (simp add: algebra_simps)
next
  case False
  define r where "r = n - 2 ^ 23"
  then have r: "r < 2 ^ 23" "n = 2 ^ 23 + r" using assms False by auto
  then have e: "E * 2 ^ 23 + n = r + Suc E * 2 ^ 23" by simp
  have "(r + Suc E * 2 ^ 23) div 2 ^ 23 = Suc E" "(r + Suc E * 2 ^ 23) mod 2 ^ 23 = r"
    using r(1) by (simp_all only: div_mult_self1 mod_mult_self1) simp_all
  then show ?thesis unfolding e using r by (simp add: magn_def algebra_simps)
qed

lemma magn_small: "n \<le> 2 ^ 24 \<Longrightarrow> magn n = n"
  using magn_block [of n 0] by (cases "2 ^ 23 \<le> n") (auto simp: magn_def)

lemma magn_step: "magn m < magn (Suc m)"
proof (cases "m < 2 ^ 23")
  case True
  then show ?thesis by (simp add: magn_small)
next
  case False
  define E n where "E = m div 2 ^ 23 - 1" and "n = m mod 2 ^ 23 + 2 ^ 23"
  have d: "m div 2 ^ 23 = Suc E" using False by (simp add: E_def)
  have "m = (m div 2 ^ 23) * 2 ^ 23 + m mod 2 ^ 23" by (rule div_mult_mod_eq [symmetric])
  then have m: "m = E * 2 ^ 23 + n" unfolding d n_def by simp
  have "m mod 2 ^ 23 < 2 ^ 23" by simp
  then have n: "2 ^ 23 \<le> n" "Suc n \<le> 2 ^ 24" unfolding n_def by simp_all
  have "magn m = n * 2 ^ E" using n magn_block [of n E] unfolding m by simp
  moreover have "magn (Suc m) = Suc n * 2 ^ E" using n magn_block [of "Suc n" E] unfolding m by simp
  ultimately show ?thesis by simp
qed

lemma magn_less_iff [simp]: "magn m < magn n \<longleftrightarrow> m < n"
  using strict_mono_Suc_iff [of magn] magn_step by (metis strict_mono_less)

lemma magn_le_iff [simp]: "magn m \<le> magn n \<longleftrightarrow> m \<le> n"
  by (meson magn_less_iff not_less)

lemma magn_eq_iff [simp]: "magn m = magn n \<longleftrightarrow> m = n"
  by (metis magn_less_iff nat_neq_iff)

lemma magn_0 [simp]: "magn 0 = 0"
  by (simp add: magn_def)

lemma fp_code_fields:
  "unat (w AND FP_FRACTION) = fp_code w mod 2 ^ 23"
  "unat (drop_bit 23 w AND 255) = fp_code w div 2 ^ 23"
  "unat ((w AND FP_FRACTION) OR FP_HIDDEN) = fp_code w mod 2 ^ 23 + 2 ^ 23"
proof -
  have m: "(0x7fffff :: u32) = mask 23" "(0x7fffffff :: u32) = mask 31" "(255 :: u32) = mask 8"
    by (simp_all add: mask_eq_exp_minus_1)
  have "w AND 0x7fffff = take_bit 23 (w AND 0x7fffffff)" unfolding m
    by (rule bit_word_eqI) (auto simp: bit_simps)
  then show f: "unat (w AND 0x7fffff) = fp_code w mod 2 ^ 23"
    by (simp only: fp_code_def unsigned_take_bit_eq) (simp only: take_bit_eq_mod)
  have "drop_bit 23 w AND 255 = drop_bit 23 (w AND 0x7fffffff)" unfolding m
    by (rule bit_word_eqI) (auto simp: bit_simps)
  then show "unat (drop_bit 23 w AND 255) = fp_code w div 2 ^ 23" by (simp only: fp_code_def unat_drop_div)
  have "(w AND 0x7fffff) OR 0x800000 = (w AND 0x7fffff) + 0x800000"
  proof -
    have h: "(0x800000 :: u32) = push_bit 23 1" by simp
    show ?thesis unfolding m h
      by (rule disjunctive_add [symmetric]) (auto simp only: bit_and_iff bit_mask_iff bit_shift_flag)
  qed
  moreover have "unat ((w AND 0x7fffff) + 0x800000) = unat (w AND 0x7fffff) + unat (0x800000 :: u32)"
    by (rule unat_add_no_wrap) (simp add: f)
  ultimately show "unat ((w AND 0x7fffff) OR 0x800000) = fp_code w mod 2 ^ 23 + 2 ^ 23"
    using f by simp
qed

lemma unpack_value:
  assumes "fp_code w \<noteq> 0"
  shows "\<exists>f e. unpack w = Some (f, e) \<and> 2 ^ 23 \<le> unat f \<and> unat f < 2 ^ 24
    \<and> real (magn (fp_code w)) = real (unat f) * 2 powi (e + 126)"
proof (cases "fp_code w div 2 ^ 23 = 0")
  case False
  let ?f = "(w AND FP_FRACTION) OR FP_HIDDEN"
  define E where "E = fp_code w div 2 ^ 23 - 1"
  have E: "fp_code w div 2 ^ 23 = Suc E" using False by (simp add: E_def)
  have u: "unpack w = Some (?f, int E - 126)" using E by (simp only: unpack_def Let_def fp_code_fields) simp
  have "fp_code w mod 2 ^ 23 < 2 ^ 23" by simp
  moreover have "\<not> fp_code w < 2 ^ 23" using False by (metis div_less)
  then have "magn (fp_code w) = unat ?f * 2 ^ E"
    using E by (simp only: fp_code_fields magn_def) simp
  ultimately show ?thesis
    by (intro exI [of _ ?f] exI [of _ "int E - 126"]) (simp add: u fp_code_fields power_int_def)
next
  case True
  let ?f = "w AND FP_FRACTION"
  have c: "fp_code w < 2 ^ 23" using True by (simp add: div_eq_0_iff)
  then have f: "unat ?f = fp_code w" by (simp only: fp_code_fields mod_less)
  obtain k g where g: "unpack_loop ?f (- 126) = Some (g, - 126 - int k)" "unat g = fp_code w * 2 ^ k" "2 ^ 23 \<le> unat g" "unat g < 2 ^ 24"
    using unpack_loop_returns [of ?f "- 126"] assms c unfolding f by auto
  have u: "unpack w = Some (g, - 126 - int k)" using True g(1) by (simp only: unpack_def Let_def fp_code_fields) simp
  have "real (magn (fp_code w)) = real (unat g) * 2 powi (- int k)"
    using c by (simp add: g(2) magn_small power_int_minus)
  then show ?thesis using u g(3,4) by (intro exI [of _ g] exI [of _ "- 126 - int k"]) simp
qed

section \<open>Rounding\<close>

lemma magn_grid: "2 ^ 23 \<le> n \<or> E = 0 \<Longrightarrow> n \<le> 2 ^ 24 \<Longrightarrow> magn (E * 2 ^ 23 + n) = n * 2 ^ E"
  using magn_block [of n E] magn_small [of n] by auto

lemma jam_0 [simp]: "jam v 0 = v"
  by (simp add: jam_def)

lemma jam_le: "jam v d \<le> v div 2 ^ d + 1"
  by (simp add: jam_def)

lemma encode_fields: "push_bit 23 (of_nat k :: u32) OR (of_nat r AND 0x7fffff) = of_nat (k * 2 ^ 23 + r mod 2 ^ 23)"
proof -
  have m: "(of_nat r :: u32) AND 0x7fffff = of_nat (r mod 2 ^ 23)"
  proof -
    have "(of_nat r :: u32) AND 0x7fffff = take_bit 23 (of_nat r)" by (simp add: take_bit_eq_mask mask_eq_exp_minus_1)
    also have "\<dots> = of_nat (take_bit 23 r)" by (simp add: take_bit_of_nat)
    finally show ?thesis by (simp only: take_bit_eq_mod)
  qed
  have "push_bit 23 (of_nat k :: u32) OR (of_nat r AND 0x7fffff) = push_bit 23 (of_nat k) + (of_nat r AND 0x7fffff)"
  proof (rule disjunctive_add [symmetric])
    fix n
    have "(0x7fffff :: u32) = mask 23" by (simp add: mask_eq_exp_minus_1)
    then show "\<not> bit (push_bit 23 (of_nat k :: u32)) n \<or> \<not> bit ((of_nat r :: u32) AND 0x7fffff) n"
      by (auto simp only: bit_and_iff bit_mask_iff bit_push_bit_iff)
  qed
  also have "\<dots> = of_nat (k * 2 ^ 23) + of_nat (r mod 2 ^ 23)" unfolding m by (simp add: push_bit_eq_mult)
  finally show ?thesis by (simp only: of_nat_add)
qed

text \<open>The word computation of \<open>pack\<close>, in numbers.\<close>

definition fp_inc :: "nc_fp_rounding \<Rightarrow> bool \<Rightarrow> nat \<Rightarrow> nat \<Rightarrow> bool" where
  "fp_inc mode neg t n \<longleftrightarrow>
     (case mode of NC_FP_RN \<Rightarrow> 4 < t \<or> (t = 4 \<and> odd n) | NC_FP_RP \<Rightarrow> t \<noteq> 0 \<and> \<not> neg | NC_FP_RM \<Rightarrow> t \<noteq> 0 \<and> neg | NC_FP_RZ \<Rightarrow> False)"

lemma pack_encode:
  fixes m E :: nat
  defines "r \<equiv> of_nat m :: u32" and "x \<equiv> int E - 126"
  assumes m: "2 ^ 23 \<le> m \<or> E = 0" "m \<le> 2 ^ 24"
  shows "(let carry = (r \<ge> push_bit 1 FP_HIDDEN); r2 = (if carry then drop_bit 1 r else r); x2 = (if carry then x + 1 else x) in
      if x2 > 127 then A
      else B (sign OR (if r2 \<ge> FP_HIDDEN then push_bit 23 (of_int (x2 + 127)) else 0) OR (r2 AND FP_FRACTION)))
    = (if fp_inf \<le> E * 2 ^ 23 + m then A else B (sign OR of_nat (E * 2 ^ 23 + m)))"
proof -
  have u: "unat r = m" using m(2) by (simp add: r_def unat_of_nat)
  have carry: "r \<ge> push_bit 1 FP_HIDDEN \<longleftrightarrow> m = 2 ^ 24" using m(2) by (simp add: word_le_nat_alt u)
  consider "m = 2 ^ 24" | "m < 2 ^ 24" "2 ^ 23 \<le> m" | "m < 2 ^ 23" "E = 0" using m by linarith
  then show ?thesis
  proof cases
    case 1
    have d: "drop_bit 1 r = 0x800000" unfolding r_def 1 by simp
    have c: "push_bit 23 (of_int (int E + 2)) OR (0x800000 AND FP_FRACTION) = (of_nat (E * 2 ^ 23 + m) :: u32)"
      using encode_fields [of "E + 2" "2 ^ 23"] 1 by (simp add: algebra_simps)
    show ?thesis unfolding carry Let_def using 1 c by (simp add: d [simplified] x_def algebra_simps or.assoc)
  next
    case 2
    have h: "r \<ge> FP_HIDDEN" using 2 by (simp add: word_le_nat_alt u)
    have "m mod 2 ^ 23 = m - 2 ^ 23" using 2 by (simp add: le_mod_geq)
    then have c: "push_bit 23 (of_int (int E + 1)) OR (r AND FP_FRACTION) = (of_nat (E * 2 ^ 23 + m) :: u32)"
      using encode_fields [of "E + 1" m] 2 by (simp add: r_def algebra_simps)
    show ?thesis unfolding carry Let_def using 2 c h by (simp add: x_def algebra_simps or.assoc)
  next
    case 3
    have h: "\<not> r \<ge> FP_HIDDEN" using 3 by (simp add: word_le_nat_alt u)
    have c: "r AND FP_FRACTION = (of_nat m :: u32)" using encode_fields [of 0 m] 3 by (simp add: r_def)
    show ?thesis unfolding carry Let_def using 3 c h by (simp add: x_def)
  qed
qed

lemma pack_numbers:
  fixes q :: u64 and e :: int
  defines "E \<equiv> nat (e + 126)" and "v \<equiv> jam (unat q) (nat (- 126 - e))"
  assumes q: "2 ^ 26 \<le> unat q" "unat q < 2 ^ 27"
  shows "pack st sign e q =
    (let c = E * 2 ^ 23 + v div 8; c' = (if fp_inc (rounding st) (sign \<noteq> 0) (v mod 8) (v div 8) then Suc c else c);
         flags = (if v mod 8 \<noteq> 0 then NC_FP_IXC OR (if e < - 126 then NC_FP_UFC else 0) else 0) in
     if fp_inf \<le> c' then fp_overflow st sign else fp_result st (sign OR of_nat c') flags)"
    and "v < 2 ^ 27" "2 ^ 23 \<le> v div 8 \<or> E = 0"
proof -
  define w where "w = (if e < - 126 then shift_jam q (nat (- 126 - e)) else q)"
  have w: "unat w = v" by (simp add: w_def v_def unat_shift_jam)
  show v: "v < 2 ^ 27"
  proof (cases "e < - 126")
    case True
    then obtain d where d: "nat (- 126 - e) = Suc d" by (metis Suc_pred zero_less_nat_eq diff_gt_0_iff_gt)
    have "unat q div 2 ^ Suc d \<le> unat q div 2 ^ 1" by (rule div_le_mono2) simp_all
    then show ?thesis using q(2) jam_le [of "unat q" "Suc d"] by (simp add: v_def d)
  qed (use q in \<open>simp add: v_def\<close>)
  show m: "2 ^ 23 \<le> v div 8 \<or> E = 0" using q(1) by (cases "e < - 126") (auto simp: v_def E_def)
  have tail: "unat (ucast (w AND 7) :: u32) = v mod 8"
  proof -
    have "w AND 7 = take_bit 3 w" by (simp add: take_bit_eq_mask mask_eq_exp_minus_1)
    then have "unat (w AND 7) = v mod 2 ^ 3" by (simp only: unsigned_take_bit_eq w) (simp only: take_bit_eq_mod)
    then show ?thesis by (simp add: unsigned_ucast_eq take_bit_eq_mod)
  qed
  have "unat (drop_bit 3 w) = v div 8" using unat_drop_div [of 3 w] w by simp
  then have rnd: "ucast (drop_bit 3 w) = (of_nat (v div 8) :: u32)"
    by (metis of_nat_unat)
  have n: "v div 8 < 2 ^ 24" using v by simp
  then have un: "unat (of_nat (v div 8) :: u32) = v div 8" by (simp add: unat_of_nat)
  have "(of_nat (v div 8) :: u32) AND 1 \<noteq> 0 \<longleftrightarrow> odd (v div 8)"
    using un by (simp add: and_one_eq odd_iff_mod_2_eq_one flip: even_iff_mod_2_eq_zero)
  then have inc: "fp_increment st sign (ucast (w AND 7)) (ucast (drop_bit 3 w)) = fp_inc (rounding st) (sign \<noteq> 0) (v mod 8) (v div 8)"
    unfolding rnd fp_increment_def fp_inc_def
    by (cases "rounding st") (auto simp: word_less_nat_alt tail unat_eq_0 [symmetric] word_unat_eq_iff)
  have t: "(ucast (w AND 7) :: u32) \<noteq> 0 \<longleftrightarrow> v mod 8 \<noteq> 0" by (metis tail unat_eq_0)
  show "pack st sign e q =
    (let c = E * 2 ^ 23 + v div 8; c' = (if fp_inc (rounding st) (sign \<noteq> 0) (v mod 8) (v div 8) then Suc c else c);
         flags = (if v mod 8 \<noteq> 0 then NC_FP_IXC OR (if e < - 126 then NC_FP_UFC else 0) else 0) in
     if fp_inf \<le> c' then fp_overflow st sign else fp_result st (sign OR of_nat c') flags)" (is "_ = ?rhs")
  proof -
    define up where "up = fp_inc (rounding st) (sign \<noteq> 0) (v mod 8) (v div 8)"
    define k where "k = v div 8 + (if up then 1 else 0)"
    define flags :: u32 where "flags = (if v mod 8 \<noteq> 0 then NC_FP_IXC OR (if e < - 126 then NC_FP_UFC else 0) else 0)"
    have x: "(if e < - 126 then - 126 else e) = int E - 126" by (simp add: E_def)
    have k: "2 ^ 23 \<le> k \<or> E = 0" "k \<le> 2 ^ 24" using m n by (auto simp: k_def)
    have r: "(ucast (drop_bit 3 w) :: u32) + (if up then 1 else 0) = of_nat k" by (simp add: rnd k_def)
    have "pack st sign e q = (if fp_inf \<le> E * 2 ^ 23 + k then fp_overflow st sign
        else fp_result st (sign OR of_nat (E * 2 ^ 23 + k)) flags)"
      unfolding pack_encode [OF k, where B = "\<lambda>b. fp_result st b flags" and A = "fp_overflow st sign" and sign = sign, symmetric]
      unfolding pack_def Let_def w_def [symmetric] inc up_def [symmetric] r x t flags_def [symmetric] ..
    also have "\<dots> = ?rhs" by (simp add: k_def up_def flags_def Let_def ac_simps)
    finally show ?thesis .
  qed
qed

text \<open>
  Delivery of an exact magnitude \<open>u\<close> that lies between the codes \<open>c\<close> and \<open>c + 1\<close>: the code above when the
  mode says so, infinity or the greatest finite number beyond the range, and the flags.
\<close>

definition fp_up :: "nc_fp_rounding \<Rightarrow> bool \<Rightarrow> real \<Rightarrow> nat \<Rightarrow> bool" where
  "fp_up mode neg u c \<longleftrightarrow>
     (case mode of
        NC_FP_RN \<Rightarrow> real (magn c) + real (magn (Suc c)) < 2 * u \<or> (real (magn c) + real (magn (Suc c)) = 2 * u \<and> odd c)
      | NC_FP_RP \<Rightarrow> u \<noteq> real (magn c) \<and> \<not> neg
      | NC_FP_RM \<Rightarrow> u \<noteq> real (magn c) \<and> neg
      | NC_FP_RZ \<Rightarrow> False)"

definition fp_deliver :: "nc_fp32_state \<Rightarrow> u32 \<Rightarrow> real \<Rightarrow> nat \<Rightarrow> nc_fp32_result \<times> nc_fp32_state" where
  "fp_deliver st sign u c =
     (let c' = (if fp_up (rounding st) (sign \<noteq> 0) u c then Suc c else c) in
      if fp_inf \<le> c' then fp_overflow st sign
      else fp_result st (sign OR of_nat c')
        (if u = real (magn c) then 0 else NC_FP_IXC OR (if u < 2 ^ 23 then NC_FP_UFC else 0)))"

lemma divide_le_self: "0 \<le> a \<Longrightarrow> 1 \<le> b \<Longrightarrow> a / b \<le> (a :: real)"
  using mult_left_mono [of 1 b a] by (simp add: divide_le_eq)

lemma pack_delivers:
  assumes q: "2 ^ 26 \<le> unat q" "unat q < 2 ^ 27" and x: "sides 4 x (int (unat q))" and u: "u = x * 2 powi (e + 123)"
  shows "\<exists>c. real (magn c) \<le> u \<and> u < real (magn (Suc c)) \<and> pack st sign e q = fp_deliver st sign u c"
proof -
  define d where "d = nat (- 126 - e)"
  define E where "E = nat (e + 126)"
  define v where "v = jam (unat q) d"
  define y where "y = x / 2 ^ d"
  define n where "n = v div 8"
  define t where "t = v mod 8"
  have "v = 8 * n + t" by (simp add: n_def t_def)
  then have v: "int v = 8 * int n + int t" and t: "t < 8" by (simp_all add: t_def)
  note pk = pack_numbers(1) [OF q, where st = st and sign = sign and e = e, folded E_def d_def, folded v_def, folded n_def t_def]
    pack_numbers(2,3) [OF q, where e = e, folded E_def d_def, folded v_def, folded n_def t_def]
  have ev: "e = int E - 126 - int d" "E = 0 \<or> d = 0" by (auto simp: E_def d_def)
  have e3: "e + 123 = int E - int d - 3" using ev(1) by simp
  have uy: "u = y / 8 * 2 ^ E" unfolding u e3 by (simp add: y_def power_int_diff)
  have "sides (4 * 2 ^ d) x (int (unat q))" using x by (rule sides_mono) simp
  then have s: "sides 4 y (int v)" unfolding y_def v_def by (rule sides_jam) simp
  have y: "8 * real n \<le> y" "y < 8 * real n + 8" "y = 8 * real n \<longleftrightarrow> t = 0"
    "8 * real n + 4 < y \<longleftrightarrow> 4 < t" "y = 8 * real n + 4 \<longleftrightarrow> t = 4"
    using sidesD [OF s, of "8 * int n"] sidesD [OF s, of "8 * int n + 4"] sidesD [OF s, of "8 * int n + 8"] t by (auto simp: v)
  have n: "Suc n \<le> 2 ^ 24" "2 ^ 23 \<le> n \<or> E = 0" using pk(2,3) by (auto simp: n_def)
  define c where "c = E * 2 ^ 23 + n"
  have c: "magn c = n * 2 ^ E" "magn (Suc c) = Suc n * 2 ^ E"
    using magn_grid [of n E] magn_grid [of "Suc n" E] n by (auto simp: c_def)
  have g: "real (magn c) = (8 * real n) * (2 ^ E / 8)" "real (magn (Suc c)) = (8 * real n + 8) * (2 ^ E / 8)" "u = y * (2 ^ E / 8)"
    by (simp_all add: c uy field_simps)
  have "real (magn c) \<le> u" "u < real (magn (Suc c))"
    unfolding g using y(1,2) by (intro mult_right_mono mult_strict_right_mono; simp)+
  moreover have "u = real (magn c) \<longleftrightarrow> t = 0" unfolding g using y(3) by (simp add: mult.commute)
  moreover have "fp_up (rounding st) (sign \<noteq> 0) u c = fp_inc (rounding st) (sign \<noteq> 0) t n"
  proof -
    have half: "real (magn c) + real (magn (Suc c)) = (8 * real n + 4) * (2 ^ E / 4)" "2 * u = y * (2 ^ E / 4)"
      by (simp_all add: c uy field_simps)
    have "real (magn c) + real (magn (Suc c)) < 2 * u \<longleftrightarrow> 4 < t" "real (magn c) + real (magn (Suc c)) = 2 * u \<longleftrightarrow> t = 4"
      unfolding half using y(4,5) by auto
    moreover have "odd c \<longleftrightarrow> odd n" by (simp add: c_def)
    ultimately show ?thesis using \<open>u = real (magn c) \<longleftrightarrow> t = 0\<close>
      by (cases "rounding st") (auto simp: fp_up_def fp_inc_def)
  qed
  moreover have "u < 2 ^ 23 \<longleftrightarrow> e < - 126"
  proof (cases "e < - 126")
    case True
    then obtain k where k: "d = Suc k" "E = 0" using ev by (cases d) auto
    have "x < 2 ^ 27" using sidesD [OF x, of "2 ^ 27"] q(2) by (simp del: of_nat_unat)
    then have "x / 2 < 2 ^ 26" by simp
    moreover have "y = (x / 2) / 2 ^ k" by (simp add: y_def k)
    moreover have "0 \<le> y" using y(1) by (rule order_trans [rotated]) simp
    moreover have "x = y * 2 ^ d" by (simp add: y_def)
    then have "0 \<le> x / 2" using \<open>0 \<le> y\<close> by simp
    then have "(x / 2) / 2 ^ k \<le> x / 2" by (rule divide_le_self) simp
    ultimately have "y < 2 ^ 26" by linarith
    with True show ?thesis by (simp add: uy k)
  next
    case False
    then have "d = 0" by (simp add: d_def)
    then have "2 ^ 23 \<le> n" using q(1) by (simp add: n_def v_def)
    then have "(2 :: real) ^ 23 * 1 \<le> real n * 2 ^ E" by (intro mult_mono) auto
    with \<open>real (magn c) \<le> u\<close> False show ?thesis by (simp add: c)
  qed
  ultimately show ?thesis using pk(1) by (intro exI [of _ c]) (simp add: fp_deliver_def c_def Let_def)
qed

section \<open>Correct rounding\<close>

text \<open>
  What the four modes promise of the exact value \<open>v\<close> and the delivered bits \<open>r\<close>, over all finite numbers: the least above, the
  greatest below, the largest towards zero, or a nearest one (the even one on a tie), and infinity
  exactly when there is none or, to nearest, from half a step beyond the greatest finite number on.
\<close>

definition fp_rounded :: "nc_fp_rounding \<Rightarrow> real \<Rightarrow> u32 \<Rightarrow> bool" where
  "fp_rounded mode v r \<longleftrightarrow>
     (case mode of
        NC_FP_RP \<Rightarrow>
          if fp_finite r then v \<le> fp_value r \<and> (\<forall>f. fp_finite f \<and> v \<le> fp_value f \<longrightarrow> fp_value r \<le> fp_value f)
          else r = FP_INF \<and> (\<forall>f. fp_finite f \<longrightarrow> fp_value f < v)
      | NC_FP_RM \<Rightarrow>
          if fp_finite r then fp_value r \<le> v \<and> (\<forall>f. fp_finite f \<and> fp_value f \<le> v \<longrightarrow> fp_value f \<le> fp_value r)
          else r = FP_SIGN OR FP_INF \<and> (\<forall>f. fp_finite f \<longrightarrow> v < fp_value f)
      | NC_FP_RZ \<Rightarrow>
          fp_finite r \<and> \<bar>fp_value r\<bar> \<le> \<bar>v\<bar> \<and> 0 \<le> v * fp_value r
          \<and> (\<forall>f. fp_finite f \<and> \<bar>fp_value f\<bar> \<le> \<bar>v\<bar> \<longrightarrow> \<bar>fp_value f\<bar> \<le> \<bar>fp_value r\<bar>)
      | NC_FP_RN \<Rightarrow>
          if \<bar>v\<bar> < 2 ^ 277 - 2 ^ 252
          then fp_finite r \<and> (\<forall>f. fp_finite f \<longrightarrow> \<bar>v - fp_value r\<bar> \<le> \<bar>v - fp_value f\<bar>)
            \<and> (odd (fp_code r) \<longrightarrow> (\<forall>f. fp_finite f \<and> fp_value f \<noteq> fp_value r \<longrightarrow> \<bar>v - fp_value r\<bar> < \<bar>v - fp_value f\<bar>))
          else r = (if v < 0 then FP_SIGN OR FP_INF else FP_INF))"

definition fp_flags :: "real \<Rightarrow> u32 \<Rightarrow> u32" where
  "fp_flags v r =
     (if \<not> fp_finite r \<or> 2 ^ 277 \<le> \<bar>v\<bar> then NC_FP_OFC OR NC_FP_IXC
      else if v = fp_value r then 0
      else NC_FP_IXC OR (if \<bar>v\<bar> < 2 ^ 23 then NC_FP_UFC else 0))"

lemma magn_max: "magn (fp_inf - 1) = (2 ^ 24 - 1) * 2 ^ 253" "magn fp_inf = 2 ^ 277"
  using magn_block [of "2 ^ 24 - 1" 253] magn_block [of "2 ^ 24" 253] by simp_all

lemma fp_finite_value: "fp_finite f \<Longrightarrow> \<exists>m \<le> fp_inf - 1. fp_value f = real (magn m) \<or> fp_value f = - real (magn m)"
  by (intro exI [of _ "fp_code f"]) (auto simp: fp_finite_def fp_value_def)

lemma fp_signed_bits:
  assumes "sign = 0 \<or> sign = FP_SIGN" "k \<le> fp_inf"
  shows "fp_code (sign OR of_nat k) = k" "bit (sign OR of_nat k) 31 \<longleftrightarrow> sign \<noteq> 0"
proof -
  have h: "(0x80000000 :: u32) = push_bit 31 1" "(0x7fffffff :: u32) = mask 31" by (simp_all add: mask_eq_exp_minus_1)
  have u: "unat (of_nat k :: u32) = k" using assms(2) by (simp add: unat_of_nat)
  then have small: "\<not> bit (of_nat k :: u32) n" if "31 \<le> n" for n
    using that top_bit_clear [of "of_nat k :: u32" 31] unat_lt2p [of "of_nat k :: u32"] assms(2) u
    by (cases "n = 31") (auto dest: bit_imp_le_length)
  have sg: "bit sign n \<longleftrightarrow> n = 31 \<and> sign \<noteq> 0" for n
    using assms(1) by (elim disjE) (simp, simp only: h bit_shift_flag, simp)
  have "(sign OR of_nat k) AND 0x7fffffff = of_nat k"
  proof (rule bit_word_eqI)
    fix n assume n: "n < LENGTH(32)"
    have "bit (0x7fffffff :: u32) n \<longleftrightarrow> n < 31" using n by (simp only: h bit_mask_iff) simp
    then show "bit ((sign OR of_nat k) AND 0x7fffffff) n = bit (of_nat k :: u32) n"
      using small [of n] sg [of n] by (metis bit_and_iff bit_or_iff not_less nat_neq_iff)
  qed
  then show "fp_code (sign OR of_nat k) = k" by (simp only: fp_code_def u)
  show "bit (sign OR of_nat k) 31 \<longleftrightarrow> sign \<noteq> 0" using small [of 31] sg [of 31] by (auto simp only: bit_or_iff)
qed

lemma fp_signed_value:
  assumes "sign = 0 \<or> sign = FP_SIGN" "k \<le> fp_inf"
  shows "fp_value (sign OR of_nat k) = (if sign \<noteq> 0 then - real (magn k) else real (magn k))"
    and "fp_finite (sign OR of_nat k) \<longleftrightarrow> k < fp_inf"
  unfolding fp_value_def fp_finite_def fp_signed_bits [OF assms] by (rule refl)+

text \<open>The code that is delivered, capped at the range.\<close>

definition fp_capped :: "nc_fp_rounding \<Rightarrow> bool \<Rightarrow> nat \<Rightarrow> nat" where
  "fp_capped mode neg k =
     (if k < fp_inf then k
      else if mode = NC_FP_RN \<or> (mode = NC_FP_RP \<and> \<not> neg) \<or> (mode = NC_FP_RM \<and> neg) then fp_inf else fp_inf - 1)"

lemma fp_capped_le: "fp_capped mode neg k \<le> fp_inf"
  by (simp add: fp_capped_def)

lemma fp_deliver_bits:
  fixes st sign u c
  defines "k \<equiv> (if fp_up (rounding st) (sign \<noteq> 0) u c then Suc c else c)"
  shows "fp_deliver st sign u c =
    fp_result st (sign OR of_nat (fp_capped (rounding st) (sign \<noteq> 0) k))
      (if fp_inf \<le> k then NC_FP_OFC OR NC_FP_IXC
       else if u = real (magn c) then 0 else NC_FP_IXC OR (if u < 2 ^ 23 then NC_FP_UFC else 0))"
  by (auto simp: fp_deliver_def k_def [symmetric] Let_def fp_overflow_def fp_capped_def)

text \<open>Delivery is correct rounding of the magnitude, in each direction.\<close>

lemma deliver_toward:
  assumes c: "real (magn c) \<le> u" "u < real (magn (Suc c))"
  defines "k \<equiv> min c (fp_inf - 1)"
  shows "real (magn k) \<le> u" "m \<le> fp_inf - 1 \<Longrightarrow> real (magn m) \<le> u \<Longrightarrow> magn m \<le> magn k"
proof -
  have "magn k \<le> magn c" by (simp add: k_def)
  then show "real (magn k) \<le> u" using c(1) by linarith
  assume m: "m \<le> fp_inf - 1" "real (magn m) \<le> u"
  then have "magn m < magn (Suc c)" using c(2) by linarith
  then show "magn m \<le> magn k" using m(1) by (simp add: k_def)
qed

lemma deliver_away:
  assumes c: "real (magn c) \<le> u" "u < real (magn (Suc c))"
  defines "k \<equiv> (if u = real (magn c) then c else Suc c)"
  shows "u \<le> real (magn k)" "u \<le> real (magn m) \<Longrightarrow> magn k \<le> magn m"
proof -
  show "u \<le> real (magn k)" using c(2) by (simp add: k_def)
  assume m: "u \<le> real (magn m)"
  show "magn k \<le> magn m"
  proof (cases "u = real (magn c)")
    case True
    then show ?thesis using m by (simp add: k_def)
  next
    case False
    then have "magn c < magn m" using m c(1) by linarith
    then show ?thesis using False by (simp add: k_def)
  qed
qed

lemma deliver_nearest:
  fixes neg :: bool
  assumes c: "real (magn c) \<le> u" "u < real (magn (Suc c))"
  defines "k \<equiv> (if fp_up NC_FP_RN neg u c then Suc c else c)"
  shows "\<bar>u - real (magn k)\<bar> \<le> \<bar>u - real (magn m)\<bar>"
    and "odd k \<Longrightarrow> m \<noteq> k \<Longrightarrow> \<bar>u - real (magn k)\<bar> < \<bar>u - real (magn m)\<bar>"
proof -
  define A B x where "A = real (magn c)" and "B = real (magn (Suc c))" and "x = real (magn m)"
  have far: "x \<le> A \<or> B \<le> x"
    using magn_le_iff [of m c] magn_le_iff [of "Suc c" m] unfolding A_def B_def x_def by (simp only: of_nat_le_iff) linarith
  have up: "fp_up NC_FP_RN neg u c \<longleftrightarrow> A + B < 2 * u \<or> (A + B = 2 * u \<and> odd c)" by (simp add: fp_up_def A_def B_def)
  have k: "real (magn k) = (if fp_up NC_FP_RN neg u c then B else A)" by (simp add: k_def A_def B_def)
  show "\<bar>u - real (magn k)\<bar> \<le> \<bar>u - real (magn m)\<bar>"
    using far c [folded A_def B_def] unfolding k up x_def [symmetric] by auto
  assume odd: "odd k" "m \<noteq> k"
  then have "x \<noteq> real (magn k)" by (simp add: x_def)
  moreover have "A + B \<noteq> 2 * u" using odd(1) up by (auto simp: k_def split: if_splits)
  ultimately show "\<bar>u - real (magn k)\<bar> < \<bar>u - real (magn m)\<bar>"
    using far c [folded A_def B_def] unfolding k up x_def [symmetric] by (auto split: if_splits)
qed

lemma fp_up_exact: "\<not> fp_up mode neg (real (magn c)) c"
  using magn_step [of c] by (cases mode) (auto simp: fp_up_def)

lemma deliver_threshold:
  assumes c: "real (magn c) \<le> u" "u < real (magn (Suc c))"
  shows "(if fp_up NC_FP_RN neg u c then Suc c else c) < fp_inf \<longleftrightarrow> u < 2 ^ 277 - 2 ^ 252"
proof -
  have mx: "real (magn (fp_inf - 1)) + real (magn fp_inf) = 2 * (2 ^ 277 - 2 ^ 252)" unfolding magn_max by simp
  consider "Suc c \<le> fp_inf - 1" | "c = fp_inf - 1" | "fp_inf \<le> c" by linarith
  then show ?thesis
  proof cases
    case 1
    then have "real (magn (Suc c)) \<le> real (magn (fp_inf - 1))" by (simp only: of_nat_le_iff magn_le_iff)
    with c(2) have "u < 2 ^ 277 - 2 ^ 252" unfolding magn_max by simp
    with 1 show ?thesis by simp
  next
    case 2
    then have s: "Suc c = fp_inf" "odd c" by simp_all
    have "fp_up NC_FP_RN neg u c \<longleftrightarrow> 2 * (2 ^ 277 - 2 ^ 252) \<le> 2 * u"
      unfolding fp_up_def s(1) using mx s(2) unfolding 2 by auto
    with s(1) show ?thesis by auto
  next
    case 3
    then have "real (magn fp_inf) \<le> real (magn c)" by (simp only: of_nat_le_iff magn_le_iff)
    with c(1) have "\<not> u < 2 ^ 277 - 2 ^ 252" unfolding magn_max by simp
    with 3 show ?thesis by simp
  qed
qed

lemma deliver_flags:
  fixes mode :: nc_fp_rounding and sign :: u32
  assumes c: "real (magn c) \<le> u" "u < real (magn (Suc c))" and s: "sign = 0 \<or> sign = FP_SIGN"
  defines "k \<equiv> (if fp_up mode (sign \<noteq> 0) u c then Suc c else c)"
  shows "fp_flags (if sign \<noteq> 0 then - u else u) (sign OR of_nat (fp_capped mode (sign \<noteq> 0) k)) =
    (if fp_inf \<le> k then NC_FP_OFC OR NC_FP_IXC
     else if u = real (magn c) then 0 else NC_FP_IXC OR (if u < 2 ^ 23 then NC_FP_UFC else 0))"
proof -
  let ?k = "fp_capped mode (sign \<noteq> 0) k"
  have abs: "\<bar>if sign \<noteq> 0 then - u else u\<bar> = u" using c(1) by (simp add: order_trans [OF of_nat_0_le_iff])
  have fin: "fp_finite (sign OR of_nat ?k) \<longleftrightarrow> ?k < fp_inf" using fp_signed_value(2) [OF s fp_capped_le] .
  have val: "(if sign \<noteq> 0 then - u else u) = fp_value (sign OR of_nat ?k) \<longleftrightarrow> u = real (magn ?k)"
    using fp_signed_value(1) [OF s fp_capped_le] by simp
  have big: "2 ^ 277 \<le> u \<longleftrightarrow> fp_inf \<le> c"
  proof -
    have "2 ^ 277 \<le> u \<longleftrightarrow> real (magn fp_inf) \<le> u" unfolding magn_max by simp
    also have "\<dots> \<longleftrightarrow> fp_inf \<le> c"
    proof
      assume "real (magn fp_inf) \<le> u"
      with c(2) have "magn fp_inf < magn (Suc c)" by linarith
      then show "fp_inf \<le> c" by simp
    next
      assume "fp_inf \<le> c"
      then have "magn fp_inf \<le> magn c" by simp
      with c(1) show "real (magn fp_inf) \<le> u" by linarith
    qed
    finally show ?thesis .
  qed
  have over: "\<not> ?k < fp_inf \<or> fp_inf \<le> c \<longleftrightarrow> fp_inf \<le> k"
    by (cases mode) (auto simp: fp_capped_def k_def fp_up_def)
  have exact: "u = real (magn k) \<longleftrightarrow> u = real (magn c)"
    using c fp_up_exact [of mode "sign \<noteq> 0" c] by (auto simp: k_def)
  show ?thesis
    unfolding fp_flags_def abs fin val big over by (auto simp: fp_capped_def exact)
qed

text \<open>The four modes, for a result of either sign.\<close>

lemma fp_finite_abs: "fp_finite f \<Longrightarrow> \<exists>m \<le> fp_inf - 1. \<bar>fp_value f\<bar> = real (magn m)"
  using fp_finite_value [of f] by auto

lemma rounded_toward:
  assumes c: "real (magn c) \<le> u" "u < real (magn (Suc c))" and s: "sign = 0 \<or> sign = FP_SIGN"
    and m: "mode = NC_FP_RZ \<or> (mode = NC_FP_RP \<and> sign \<noteq> 0) \<or> (mode = NC_FP_RM \<and> sign = 0)"
  shows "fp_rounded mode (if sign \<noteq> 0 then - u else u)
    (sign OR of_nat (fp_capped mode (sign \<noteq> 0) (if fp_up mode (sign \<noteq> 0) u c then Suc c else c)))"
proof -
  define k where "k = min c (fp_inf - 1)"
  have r: "fp_capped mode (sign \<noteq> 0) (if fp_up mode (sign \<noteq> 0) u c then Suc c else c) = k"
    using m by (auto simp: fp_capped_def fp_up_def k_def)
  have k: "k \<le> fp_inf" "k < fp_inf" by (simp_all add: k_def)
  note val = fp_signed_value [OF s k(1)]
  have low: "real (magn k) \<le> u" "0 \<le> u" using deliver_toward(1) [OF c] c(1) by (auto simp: k_def)
  have best: "\<bar>fp_value f\<bar> \<le> real (magn k)" if f: "fp_finite f" and "\<bar>fp_value f\<bar> \<le> u" for f
  proof -
    obtain j where "j \<le> fp_inf - 1" "\<bar>fp_value f\<bar> = real (magn j)" using fp_finite_abs [OF f] by blast
    with deliver_toward(2) [OF c, of j] that(2) show ?thesis by (simp only: k_def of_nat_le_iff)
  qed
  show ?thesis
  proof (cases "sign \<noteq> 0")
    case True
    have "- real (magn k) \<le> fp_value f" if "fp_finite f" "- u \<le> fp_value f" for f
      using best [OF that(1)] that(2) low by (cases "0 \<le> fp_value f") auto
    with m True show ?thesis unfolding fp_rounded_def r val using k(2) low best by (auto simp: mult_nonpos_nonpos)
  next
    case False
    have "fp_value f \<le> real (magn k)" if "fp_finite f" "fp_value f \<le> u" for f
      using best [OF that(1)] that(2) low by (cases "0 \<le> fp_value f") auto
    with m False show ?thesis unfolding fp_rounded_def r val using k(2) low best by auto
  qed
qed

lemma rounded_away:
  assumes c: "real (magn c) \<le> u" "u < real (magn (Suc c))" and s: "sign = 0 \<or> sign = FP_SIGN"
    and m: "(mode = NC_FP_RP \<and> sign = 0) \<or> (mode = NC_FP_RM \<and> sign \<noteq> 0)"
  shows "fp_rounded mode (if sign \<noteq> 0 then - u else u)
    (sign OR of_nat (fp_capped mode (sign \<noteq> 0) (if fp_up mode (sign \<noteq> 0) u c then Suc c else c)))"
proof -
  define k where "k = (if u = real (magn c) then c else Suc c)"
  have r: "fp_capped mode (sign \<noteq> 0) (if fp_up mode (sign \<noteq> 0) u c then Suc c else c) = min k fp_inf"
    using m by (auto simp: fp_capped_def fp_up_def k_def)
  note val = fp_signed_value [OF s, of "min k fp_inf"]
  have u: "u \<le> real (magn k)" "0 \<le> u" using deliver_away(1) [OF c] c(1) by (auto simp: k_def)
  have best: "k < fp_inf \<and> real (magn k) \<le> \<bar>fp_value f\<bar>" if f: "fp_finite f" and "u \<le> \<bar>fp_value f\<bar>" for f
  proof -
    obtain j where j: "j \<le> fp_inf - 1" "\<bar>fp_value f\<bar> = real (magn j)" using fp_finite_abs [OF f] by blast
    with deliver_away(2) [OF c, of j] that(2) have "magn k \<le> magn j" by (simp only: k_def)
    with j show ?thesis by auto
  qed
  have inf: "0x7f800000 = (of_nat fp_inf :: u32)" by simp
  show ?thesis
  proof (cases "k < fp_inf")
    case True
    then have k: "min k fp_inf = k" by simp
    show ?thesis
    proof (cases "sign = 0")
      case zero: True
      have "real (magn k) \<le> fp_value f" if "fp_finite f" "u \<le> fp_value f" for f
        using best [OF that(1)] that(2) u by auto
      with m zero True u show ?thesis unfolding fp_rounded_def r using val unfolding k by auto
    next
      case False
      have "fp_value f \<le> - real (magn k)" if "fp_finite f" "fp_value f \<le> - u" for f
        using best [OF that(1)] that(2) u by auto
      with m False True u show ?thesis unfolding fp_rounded_def r using val unfolding k by auto
    qed
  next
    case False
    then have k: "min k fp_inf = fp_inf" by simp
    have none: "\<bar>fp_value f\<bar> < u" if "fp_finite f" for f
      using best [OF that] False by (meson not_less)
    have "fp_value f < u" "- u < fp_value f" if "fp_finite f" for f using none [OF that] by auto
    with m show ?thesis unfolding fp_rounded_def r k using val [unfolded k] s by auto
  qed
qed

lemma rounded_nearest:
  assumes c: "real (magn c) \<le> u" "u < real (magn (Suc c))" and s: "sign = 0 \<or> sign = FP_SIGN"
    and z: "sign \<noteq> 0 \<Longrightarrow> 0 < u"
  shows "fp_rounded NC_FP_RN (if sign \<noteq> 0 then - u else u)
    (sign OR of_nat (fp_capped NC_FP_RN (sign \<noteq> 0) (if fp_up NC_FP_RN (sign \<noteq> 0) u c then Suc c else c)))"
proof -
  define k where "k = (if fp_up NC_FP_RN (sign \<noteq> 0) u c then Suc c else c)"
  let ?v = "if sign \<noteq> 0 then - u else u"
  have u: "0 \<le> u" "\<bar>?v\<bar> = u" using c(1) by (auto simp: order_trans [OF of_nat_0_le_iff])
  show ?thesis
  proof (cases "k < fp_inf")
    case False
    then have "\<not> \<bar>?v\<bar> < 2 ^ 277 - 2 ^ 252" using deliver_threshold [OF c, of "sign \<noteq> 0"] unfolding u(2) k_def by blast
    moreover have "sign OR of_nat (fp_capped NC_FP_RN (sign \<noteq> 0) k) = (if ?v < 0 then FP_SIGN OR FP_INF else FP_INF)"
      using False s z u(1) by (auto simp: fp_capped_def)
    ultimately show ?thesis unfolding k_def [symmetric] fp_rounded_def by simp
  next
    case True
    then have r: "fp_capped NC_FP_RN (sign \<noteq> 0) k = k" "k \<le> fp_inf" by (simp_all add: fp_capped_def)
    let ?r = "sign OR of_nat k"
    have thr: "\<bar>?v\<bar> < 2 ^ 277 - 2 ^ 252" using True deliver_threshold [OF c, of "sign \<noteq> 0"] unfolding u(2) k_def by blast
    have val: "fp_value ?r = (if sign \<noteq> 0 then - real (magn k) else real (magn k))" "fp_finite ?r" "fp_code ?r = k"
      using fp_signed_value [OF s r(2)] fp_signed_bits [OF s r(2)] True by simp_all
    have err: "\<bar>?v - fp_value ?r\<bar> = \<bar>u - real (magn k)\<bar>" by (auto simp: val)
    have dist: "\<bar>u - \<bar>x\<bar>\<bar> \<le> \<bar>?v - x\<bar>" for x using u(1) by auto
    have near: "\<bar>?v - fp_value ?r\<bar> \<le> \<bar>?v - fp_value f\<bar>" if f: "fp_finite f" for f
    proof -
      obtain j where "\<bar>fp_value f\<bar> = real (magn j)" using fp_finite_abs [OF f] by blast
      then have "\<bar>u - real (magn k)\<bar> \<le> \<bar>u - \<bar>fp_value f\<bar>\<bar>"
        using deliver_nearest(1) [OF c, of "sign \<noteq> 0" j] by (simp add: k_def)
      with err dist [of "fp_value f"] show ?thesis by linarith
    qed
    have strict: "\<bar>?v - fp_value ?r\<bar> < \<bar>?v - fp_value f\<bar>" if o: "odd k" and f: "fp_finite f" "fp_value f \<noteq> fp_value ?r" for f
    proof -
      obtain j where j: "\<bar>fp_value f\<bar> = real (magn j)" using fp_finite_abs [OF f(1)] by blast
      note st = deliver_nearest(2) [OF c, of "sign \<noteq> 0", folded k_def, OF o]
      show ?thesis
      proof (cases "j = k")
        case False
        then have "\<bar>u - real (magn k)\<bar> < \<bar>u - \<bar>fp_value f\<bar>\<bar>" using st [of j] j by simp
        with err dist [of "fp_value f"] show ?thesis by linarith
      next
        case True
        have "k \<noteq> 0" using o by (cases k) auto
        then have k0: "0 < real (magn k)" and u0: "\<bar>u - real (magn k)\<bar> < u" using st [of 0] magn_less_iff [of 0 k] u(1) by auto
        have "fp_value f = - fp_value ?r" using True j f(2) val(1) by (auto split: if_splits)
        then show ?thesis unfolding err using val(1) k0 u0 u(1) by auto
      qed
    qed
    show ?thesis unfolding k_def [symmetric] r(1) fp_rounded_def using thr val(2,3) near strict by simp
  qed
qed

lemma deliver_correct:
  assumes c: "real (magn c) \<le> u" "u < real (magn (Suc c))" and s: "sign = 0 \<or> sign = FP_SIGN"
    and z: "sign \<noteq> 0 \<Longrightarrow> 0 < u"
  shows "\<exists>r. fp_deliver st sign u c = fp_result st r (fp_flags (if sign \<noteq> 0 then - u else u) r)
    \<and> fp_rounded (rounding st) (if sign \<noteq> 0 then - u else u) r"
proof -
  let ?k = "if fp_up (rounding st) (sign \<noteq> 0) u c then Suc c else c"
  let ?r = "sign OR of_nat (fp_capped (rounding st) (sign \<noteq> 0) ?k)"
  have "fp_rounded (rounding st) (if sign \<noteq> 0 then - u else u) ?r"
  proof (cases "rounding st")
    case NC_FP_RN
    then show ?thesis using rounded_nearest [OF c s z] by simp
  next
    case NC_FP_RP
    then show ?thesis using rounded_toward [OF c s, of NC_FP_RP] rounded_away [OF c s, of NC_FP_RP] by (cases "sign = 0") simp_all
  next
    case NC_FP_RM
    then show ?thesis using rounded_toward [OF c s, of NC_FP_RM] rounded_away [OF c s, of NC_FP_RM] by (cases "sign = 0") simp_all
  next
    case NC_FP_RZ
    then show ?thesis using rounded_toward [OF c s, of NC_FP_RZ] by simp
  qed
  then show ?thesis unfolding fp_deliver_bits deliver_flags [OF c s, symmetric] by blast
qed

lemma pack_correct:
  assumes "2 ^ 26 \<le> unat q" "unat q < 2 ^ 27" "sides 4 x (int (unat q))" "u = x * 2 powi (e + 123)" "sign = 0 \<or> sign = FP_SIGN"
  shows "\<exists>r. pack st sign e q = fp_result st r (fp_flags (if sign \<noteq> 0 then - u else u) r)
    \<and> fp_rounded (rounding st) (if sign \<noteq> 0 then - u else u) r"
proof -
  have "2 ^ 26 - 4 < x" using sidesD [OF assms(3), of "2 ^ 26 - 4"] assms(1) by (simp del: of_nat_unat)
  then have "0 < u" unfolding assms(4) by simp
  then show ?thesis using pack_delivers [OF assms(1-4), of st sign] deliver_correct [OF _ _ assms(5), of _ u st] by metis
qed

text \<open>A finite number is its own rounding, with no flags.\<close>

lemma fp_exact:
  assumes "fp_finite r"
  shows "fp_rounded mode (fp_value r) r" "fp_flags (fp_value r) r = 0"
proof -
  obtain m where m: "m \<le> fp_inf - 1" "\<bar>fp_value r\<bar> = real (magn m)" using fp_finite_abs [OF assms] by blast
  then have "real (magn m) \<le> real (magn (fp_inf - 1))" by (simp only: of_nat_le_iff magn_le_iff)
  then have b: "\<bar>fp_value r\<bar> < 2 ^ 277 - 2 ^ 252" "\<bar>fp_value r\<bar> < 2 ^ 277" unfolding m(2) magn_max by simp_all
  show "fp_rounded mode (fp_value r) r" using assms b(1) by (cases mode) (auto simp: fp_rounded_def)
  show "fp_flags (fp_value r) r = 0" using assms b(2) by (auto simp: fp_flags_def)
qed

lemma fp_zero_rounded:
  "fp_rounded mode 0 0" "fp_rounded mode 0 FP_SIGN" "fp_flags 0 0 = 0" "fp_flags 0 FP_SIGN = 0"
  using fp_exact(1) [of 0 mode] fp_exact(1) [of FP_SIGN mode] fp_exact(2) [of 0] fp_exact(2) [of FP_SIGN] by (simp_all add: fp_finite_def fp_value_def fp_code_def)

lemma fp_value_zero: "fp_code w = 0 \<Longrightarrow> fp_value w = 0"
  by (simp add: fp_value_def)

lemma fp_zero_either: "z = 0 \<or> z = FP_SIGN \<Longrightarrow> fp_rounded mode 0 z \<and> fp_flags 0 z = 0"
  using fp_zero_rounded by auto

section \<open>Addition\<close>

lemma jam_exact: "2 ^ d dvd v \<Longrightarrow> jam v d = v div 2 ^ d"
  by (simp add: jam_def)

lemma sides_scaled:
  assumes "sides 2 x (int S)" "2 \<le> k \<Longrightarrow> x = real S"
  shows "sides 4 (x * 2 ^ k) (int (S * 2 ^ k))"
proof -
  consider "k = 0" | "k = 1" | "2 \<le> k" by linarith
  then show ?thesis
  proof cases
    case 1
    then show ?thesis using sides_mono [OF assms(1), of 4] by simp
  next
    case 2
    then show ?thesis using sides_double [OF assms(1)] by (simp add: mult.commute)
  next
    case 3
    then have "x * 2 ^ k = real_of_int (int (S * 2 ^ k))" using assms(2) by simp
    then show ?thesis by (simp only: sides_exact)
  qed
qed

text \<open>Normalising and packing a nonzero sum \<open>S\<close> that stands for \<open>x\<close>.\<close>

lemma normalise_pack:
  fixes w :: u64
  assumes w: "0 < unat w" "unat w < 2 ^ 28" and x: "sides 2 x (int (unat w))" "unat w < 2 ^ 25 \<Longrightarrow> x = real (unat w)"
    and u: "u = x * 2 powi (e + 123)" and s: "sign = 0 \<or> sign = FP_SIGN"
  shows "\<exists>r. (let (w1, e1) = (if w AND push_bit 27 1 \<noteq> 0 then (shift_jam w 1, e + 1) else (w, e)) in
      case normalise_loop w1 e1 of None \<Rightarrow> None | Some (w2, e2) \<Rightarrow> Some (pack st sign e2 w2))
    = Some (fp_result st r (fp_flags (if sign \<noteq> 0 then - u else u) r))
    \<and> fp_rounded (rounding st) (if sign \<noteq> 0 then - u else u) r"
proof -
  have top: "w AND push_bit 27 1 \<noteq> 0 \<longleftrightarrow> 2 ^ 27 \<le> unat w"
    using top_bit_clear [of w 27] w(2) by (simp only: and_shift_eq_0 not_not) simp
  show ?thesis
  proof (cases "2 ^ 27 \<le> unat w")
    case True
    let ?q = "shift_jam w 1"
    have q: "unat ?q = jam (unat w) 1" by (rule unat_shift_jam)
    have f: "2 ^ 26 \<le> unat w div 2" "unat w div 2 < 2 ^ 27" using True w(2) by auto
    have b: "2 ^ 26 \<le> unat ?q" "unat ?q < 2 ^ 27"
    proof -
      show "2 ^ 26 \<le> unat ?q" unfolding q jam_def using f(1) by simp
      have "unat w div 2 \<noteq> 2 ^ 27 - 1" if "even (unat w div 2)" using that by auto
      then show "unat ?q < 2 ^ 27" unfolding q jam_def using f(2) by auto
    qed
    have "sides (2 * 2 ^ 1) x (int (unat w))" using x(1) by (rule sides_mono) simp
    then have "sides 2 (x / 2 ^ 1) (int (unat ?q))" unfolding q by (rule sides_jam) simp
    then have sd: "sides 4 (x / 2) (int (unat ?q))" using sides_mono [of 2 "x / 2" "int (unat ?q)" 4] by simp
    obtain k g where g: "normalise_loop ?q (e + 1) = Some (g, e + 1 - int k)" "unat g = unat ?q * 2 ^ k" "unat g < 2 ^ 27"
      using normalise_loop_returns [of ?q "e + 1"] b by auto
    have "k = 0"
    proof (rule ccontr)
      assume "k \<noteq> 0"
      then have "unat ?q * 2 ^ 1 \<le> unat g" unfolding g(2) by (intro mult_left_mono power_increasing) auto
      with b(1) g(3) show False by simp
    qed
    then have n: "normalise_loop ?q (e + 1) = Some (?q, e + 1)" using g word_unat_eq_iff [of g ?q] by simp
    have "u = x / 2 * 2 powi (e + 1 + 123)" unfolding u by (simp add: power_int_add)
    from pack_correct [OF b sd this s, of st] show ?thesis using True top n by auto
  next
    case False
    then obtain k g where g: "normalise_loop w e = Some (g, e - int k)" "unat g = unat w * 2 ^ k" "2 ^ 26 \<le> unat g" "unat g < 2 ^ 27"
      using normalise_loop_returns [of w e] w(1) by auto
    have "x = real (unat w)" if "2 \<le> k"
    proof (rule x(2), rule ccontr)
      assume "\<not> unat w < 2 ^ 25"
      then have "2 ^ 25 * 2 ^ 2 \<le> unat w * 2 ^ k" using that by (intro mult_mono power_increasing) auto
      with g(2,4) show False by simp
    qed
    with x(1) have sd: "sides 4 (x * 2 ^ k) (int (unat g))" unfolding g(2) by (rule sides_scaled)
    have "u = x * 2 ^ k * 2 powi (e - int k + 123)" unfolding u by (simp add: power_int_add power_int_diff)
    from pack_correct [OF g(3,4) sd this s, of st] show ?thesis using False top g(1) by auto
  qed
qed

definition fp_signed :: "u32 \<Rightarrow> real \<Rightarrow> real" where
  "fp_signed sign a = (if sign \<noteq> 0 then - a else a)"

lemma add_aligned:
  fixes ma mb :: u64 and d :: nat
  defines "mb' \<equiv> shift_jam mb d" and "y \<equiv> real (unat mb) / 2 ^ d"
  assumes ma: "2 ^ 26 \<le> unat ma" "unat ma < 2 ^ 27" "8 dvd unat ma" and mb: "unat mb < 2 ^ 27" "8 dvd unat mb"
    and ord: "d = 0 \<Longrightarrow> unat mb \<le> unat ma"
  shows "unat (ma + mb') = unat ma + unat mb'" "unat (ma + mb') < 2 ^ 28" "sides 2 (real (unat ma) + y) (int (unat (ma + mb')))"
    "unat (ma - mb') = unat ma - unat mb'" "unat mb' \<le> unat ma" "sides 2 (real (unat ma) - y) (int (unat (ma - mb')))"
    "unat (ma - mb') < 2 ^ 25 \<Longrightarrow> real (unat ma) - y = real (unat (ma - mb'))"
proof -
  have j: "unat mb' = jam (unat mb) d" by (simp add: mb'_def unat_shift_jam)
  have shift: "unat mb' \<le> unat mb div 2 ^ k + 1" if "k \<le> d" for k
  proof -
    have "unat mb div 2 ^ d \<le> unat mb div 2 ^ k" using that by (intro div_le_mono2 power_increasing) simp_all
    with jam_le [of "unat mb" d] show ?thesis unfolding j by linarith
  qed
  show le: "unat mb' \<le> unat ma"
  proof (cases "d = 0")
    case True
    then show ?thesis using ord unfolding j by simp
  next
    case False
    then show ?thesis using shift [of 1] ma(1) mb(1) by simp
  qed
  show s: "unat (ma - mb') = unat ma - unat mb'"
    using le by (simp add: unat_sub word_le_nat_alt)
  show a: "unat (ma + mb') = unat ma + unat mb'"
    using le ma(2) by (intro unat_add_no_wrap) simp
  then show "unat (ma + mb') < 2 ^ 28" using le ma(2) by simp
  have "sides (2 * 2 ^ d) (real_of_int (int (unat mb))) (int (unat mb))" by (rule sides_exact)
  then have "sides 2 (real_of_int (int (unat mb)) / 2 ^ d) (int (jam (unat mb) d))" by (rule sides_jam) simp
  then have sd: "sides 2 y (int (unat mb'))" unfolding j y_def by simp
  have ev: "2 dvd int (unat ma)" using ma(3) dvd_trans [of 2 8 "unat ma"] by (simp del: of_nat_unat)
  show "sides 2 (real (unat ma) + y) (int (unat (ma + mb')))"
    using sides_add [OF sd ev] unfolding a by (simp del: of_nat_unat)
  show "sides 2 (real (unat ma) - y) (int (unat (ma - mb')))"
    using sides_add [OF sides_uminus [OF sd] ev] le unfolding s by (simp add: of_nat_diff del: of_nat_unat)
  assume small: "unat (ma - mb') < 2 ^ 25"
  have d: "d \<le> 1"
  proof (rule ccontr)
    assume "\<not> d \<le> 1"
    then have "unat mb' \<le> unat mb div 4 + 1" using shift [of 2] by simp
    with small ma(1) mb(1) le s show False by simp
  qed
  then have "(2 :: nat) ^ d dvd 2 ^ 3" by (intro le_imp_power_dvd) simp
  then have "2 ^ d dvd (8 :: nat)" by simp
  then have "2 ^ d dvd unat mb" by (rule dvd_trans) (rule mb(2))
  then have "real (unat mb') = y" unfolding j y_def by (simp add: jam_exact real_of_nat_div)
  then show "real (unat ma) - y = real (unat (ma - mb'))" using le unfolding s by (simp add: of_nat_diff)
qed

lemma fp_add_ordered:
  assumes ma: "2 ^ 26 \<le> unat ma" "unat ma < 2 ^ 27" "8 dvd unat ma" and mb: "2 ^ 26 \<le> unat mb" "unat mb < 2 ^ 27" "8 dvd unat mb"
    and s: "sa = 0 \<or> sa = FP_SIGN" "sb = 0 \<or> sb = FP_SIGN"
    and ord: "eb < ea \<or> (eb = ea \<and> unat mb \<le> unat ma)"
    and v: "v = fp_signed sa (real (unat ma) * 2 powi (ea + 123)) + fp_signed sb (real (unat mb) * 2 powi (eb + 123))"
  shows "\<exists>r. fp_add_finite st sa ea ma sb eb mb = Some (fp_result st r (fp_flags v r))
    \<and> fp_rounded (rounding st) v r \<and> (v = 0 \<longrightarrow> r = (if rounding st = NC_FP_RM then FP_SIGN else 0))"
proof -
  define d where "d = nat (ea - eb)"
  have e: "eb = ea - int d" and ord': "d = 0 \<Longrightarrow> unat mb \<le> unat ma" using ord by (auto simp: d_def)
  define y where "y = real (unat mb) / 2 ^ d"
  define w where "w = (if sa = sb then ma + shift_jam mb d else ma - shift_jam mb d)"
  define x where "x = (if sa = sb then real (unat ma) + y else real (unat ma) - y)"
  note al = add_aligned [where d = d, OF ma mb(2,3) ord', folded y_def]
  have noswap: "\<not> (ea < eb \<or> (ea = eb \<and> ma < mb))" using ord by (auto simp: word_less_nat_alt)
  have vx: "v = fp_signed sa (x * 2 powi (ea + 123))"
    using s unfolding v e by (auto simp: fp_signed_def x_def y_def power_int_add power_int_diff field_simps)
  have xw: "sides 2 x (int (unat w))" "unat w < 2 ^ 28" "unat w < 2 ^ 25 \<Longrightarrow> x = real (unat w)"
    by (cases "sa = sb"; use al(1,2,3,4,6,7) ma(1,2) in \<open>simp add: x_def w_def del: of_nat_unat\<close>)+
  have fin: "fp_add_finite st sa ea ma sb eb mb =
      (if w = 0 then Some (fp_result st (if rounding st = NC_FP_RM then FP_SIGN else 0) 0)
       else let (w1, e1) = (if w AND push_bit 27 1 \<noteq> 0 then (shift_jam w 1, ea + 1) else (w, ea)) in
         case normalise_loop w1 e1 of None \<Rightarrow> None | Some (w2, e2) \<Rightarrow> Some (pack st sa e2 w2))"
    unfolding fp_add_finite_def Let_def if_not_P [OF noswap] prod.case d_def [symmetric] w_def [symmetric] by (rule refl)
  show ?thesis
  proof (cases "w = 0")
    case True
    then have "x = 0" using xw(3) by simp
    then have "v = 0" by (simp add: vx fp_signed_def)
    then show ?thesis using True fp_zero_rounded(1,2) [of "rounding st"] fp_zero_rounded(3,4) unfolding fin
      by (intro exI [of _ "if rounding st = NC_FP_RM then FP_SIGN else 0"]) auto
  next
    case False
    then have "0 < unat w" by (simp add: unat_gt_0)
    have "x \<noteq> 0" using sidesD [OF xw(1), of 0] \<open>0 < unat w\<close> by (simp del: of_nat_unat)
    then have "v \<noteq> 0" by (simp add: vx fp_signed_def)
    then show ?thesis
      using False normalise_pack [OF \<open>0 < unat w\<close> xw(2) xw(1) xw(3) refl s(1), of ea st] unfolding fin vx fp_signed_def by simp
  qed
qed

lemma fp_add_finite_correct:
  assumes ma: "2 ^ 26 \<le> unat ma" "unat ma < 2 ^ 27" "8 dvd unat ma" and mb: "2 ^ 26 \<le> unat mb" "unat mb < 2 ^ 27" "8 dvd unat mb"
    and s: "sa = 0 \<or> sa = FP_SIGN" "sb = 0 \<or> sb = FP_SIGN"
    and v: "v = fp_signed sa (real (unat ma) * 2 powi (ea + 123)) + fp_signed sb (real (unat mb) * 2 powi (eb + 123))"
  shows "\<exists>r. fp_add_finite st sa ea ma sb eb mb = Some (fp_result st r (fp_flags v r))
    \<and> fp_rounded (rounding st) v r \<and> (v = 0 \<longrightarrow> r = (if rounding st = NC_FP_RM then FP_SIGN else 0))"
proof (cases "ea < eb \<or> (ea = eb \<and> ma < mb)")
  case False
  then have "eb < ea \<or> (eb = ea \<and> unat mb \<le> unat ma)" by (auto simp: word_le_nat_alt not_less)
  from fp_add_ordered [OF ma mb s this v] show ?thesis .
next
  case True
  then have other: "\<not> (eb < ea \<or> (eb = ea \<and> mb < ma))" by auto
  have "fp_add_finite st sa ea ma sb eb mb = fp_add_finite st sb eb mb sa ea ma"
    unfolding fp_add_finite_def Let_def if_P [OF True] if_not_P [OF other] prod.case by (rule refl)
  moreover have "ea < eb \<or> (ea = eb \<and> unat ma \<le> unat mb)" using True by (auto simp: word_less_nat_alt)
  moreover have "v = fp_signed sb (real (unat mb) * 2 powi (eb + 123)) + fp_signed sa (real (unat ma) * 2 powi (ea + 123))"
    using v by simp
  ultimately show ?thesis using fp_add_ordered [OF mb ma s(2,1), of ea eb v st] by simp
qed

lemma fp_word_facts:
  "w AND FP_ABS = 0 \<longleftrightarrow> fp_code w = 0" "w AND FP_ABS = FP_INF \<longleftrightarrow> fp_code w = fp_inf" "is_nan w \<longleftrightarrow> fp_inf < fp_code w"
  "w AND FP_SIGN = 0 \<or> w AND FP_SIGN = FP_SIGN" "w AND FP_SIGN \<noteq> 0 \<longleftrightarrow> bit w 31"
proof -
  show "w AND FP_ABS = 0 \<longleftrightarrow> fp_code w = 0" by (simp only: fp_code_def unat_eq_0)
  show "w AND FP_ABS = FP_INF \<longleftrightarrow> fp_code w = fp_inf" by (simp add: fp_code_def word_unat_eq_iff)
  show "is_nan w \<longleftrightarrow> fp_inf < fp_code w" by (simp add: fp_code_def is_nan_def word_less_nat_alt)
  have h: "(0x80000000 :: u32) = push_bit 31 1" by simp
  show "w AND FP_SIGN \<noteq> 0 \<longleftrightarrow> bit w 31" unfolding h by (simp only: and_shift_eq_0 not_not)
  have "w AND push_bit 31 1 = (if bit w 31 then push_bit 31 1 else 0)"
  proof (rule bit_word_eqI)
    fix n
    have "\<not> bit (0 :: u32) n" by simp
    then show "bit (w AND push_bit 31 1) n = bit (if bit w 31 then push_bit 31 1 else 0 :: u32) n"
      by (cases "bit w 31") (auto simp only: bit_and_iff bit_shift_flag if_True if_False)
  qed
  then show "w AND FP_SIGN = 0 \<or> w AND FP_SIGN = FP_SIGN" unfolding h by presburger
qed

lemma fp_value_signed: "fp_value w = fp_signed (w AND FP_SIGN) (real (magn (fp_code w)))"
  unfolding fp_value_def fp_signed_def fp_word_facts ..

lemma unpack_shifted:
  assumes "fp_code w \<noteq> 0"
  shows "\<exists>f e. unpack w = Some (f, e) \<and> 2 ^ 26 \<le> unat (push_bit 3 (ucast f) :: u64) \<and> unat (push_bit 3 (ucast f) :: u64) < 2 ^ 27
    \<and> 8 dvd unat (push_bit 3 (ucast f) :: u64) \<and> real (magn (fp_code w)) = real (unat (push_bit 3 (ucast f) :: u64)) * 2 powi (e + 123)"
proof -
  obtain f e where f: "unpack w = Some (f, e)" "2 ^ 23 \<le> unat f" "unat f < 2 ^ 24" "real (magn (fp_code w)) = real (unat f) * 2 powi (e + 126)"
    using unpack_value [OF assms] by blast
  have "unat (ucast f * 2 ^ 3 :: u64) = unat (ucast f :: u64) * unat (2 ^ 3 :: u64)"
    using f(3) by (subst unat_mult_lem [symmetric]) simp
  then have u: "unat (push_bit 3 (ucast f) :: u64) = 8 * unat f" by (simp add: push_bit_eq_mult)
  have "(2 :: real) powi (e + 126) = 8 * 2 powi (e + 123)" using power_int_add [of "2 :: real" "e + 123" 3] by (simp add: ac_simps)
  then show ?thesis using f by (intro exI [of _ f] exI [of _ e]) (simp add: u)
qed

lemma fp_add_correct:
  assumes a: "fp_finite a" and b: "fp_finite b"
  shows "\<exists>r. nc_fp32_add st a b = Some (fp_result st r (fp_flags (fp_value a + fp_value b) r))
    \<and> fp_rounded (rounding st) (fp_value a + fp_value b) r
    \<and> (fp_value a + fp_value b = 0 \<longrightarrow>
        r = (if a AND FP_SIGN = b AND FP_SIGN then a AND FP_SIGN else if rounding st = NC_FP_RM then FP_SIGN else 0))"
proof -
  have fin: "\<not> is_nan a" "\<not> is_nan b" "a AND FP_ABS \<noteq> FP_INF" "b AND FP_ABS \<noteq> FP_INF"
    using a b unfolding fp_word_facts fp_finite_def by simp_all
  have zero: "fp_value w = 0 \<longleftrightarrow> fp_code w = 0" for w using magn_eq_iff [of "fp_code w" 0] by (auto simp: fp_value_def)
  consider (zz) "fp_code a = 0" "fp_code b = 0" | (za) "fp_code a = 0" "fp_code b \<noteq> 0" | (zb) "fp_code a \<noteq> 0" "fp_code b = 0"
    | (nz) "fp_code a \<noteq> 0" "fp_code b \<noteq> 0" by blast
  then show ?thesis
  proof cases
    case zz
    define z where "z = (if a AND FP_SIGN = b AND FP_SIGN then a AND FP_SIGN else if rounding st = NC_FP_RM then FP_SIGN else 0)"
    have "z = 0 \<or> z = FP_SIGN" using fp_word_facts(4) [of a] by (auto simp: z_def)
    then have "fp_rounded (rounding st) 0 z \<and> fp_flags 0 z = 0" by (rule fp_zero_either)
    moreover have "nc_fp32_add st a b = Some (fp_result st z 0)" using zz fin by (simp add: nc_fp32_add_def Let_def fp_word_facts(1) z_def)
    moreover have "fp_value a + fp_value b = 0" using zz zero [of a] zero [of b] by linarith
    ultimately show ?thesis unfolding z_def [symmetric] by (intro exI [of _ z]) simp
  next
    case za
    then have "nc_fp32_add st a b = Some (fp_result st b 0)" using fin by (simp add: nc_fp32_add_def Let_def fp_word_facts(1))
    moreover have "fp_value a + fp_value b = fp_value b" "fp_value b \<noteq> 0" using za zero [of a] zero [of b] by auto
    ultimately show ?thesis using fp_exact [OF b] by (intro exI [of _ b]) simp
  next
    case zb
    then have "nc_fp32_add st a b = Some (fp_result st a 0)" using fin by (simp add: nc_fp32_add_def Let_def fp_word_facts(1))
    moreover have "fp_value a + fp_value b = fp_value a" "fp_value a \<noteq> 0" using zb zero [of a] zero [of b] by auto
    ultimately show ?thesis using fp_exact [OF a] by (intro exI [of _ a]) simp
  next
    case nz
    obtain fa ea where fa: "unpack a = Some (fa, ea)" "2 ^ 26 \<le> unat (push_bit 3 (ucast fa) :: u64)" "unat (push_bit 3 (ucast fa) :: u64) < 2 ^ 27"
      "8 dvd unat (push_bit 3 (ucast fa) :: u64)" "real (magn (fp_code a)) = real (unat (push_bit 3 (ucast fa) :: u64)) * 2 powi (ea + 123)"
      using unpack_shifted [OF nz(1)] by blast
    obtain fb eb where fb: "unpack b = Some (fb, eb)" "2 ^ 26 \<le> unat (push_bit 3 (ucast fb) :: u64)" "unat (push_bit 3 (ucast fb) :: u64) < 2 ^ 27"
      "8 dvd unat (push_bit 3 (ucast fb) :: u64)" "real (magn (fp_code b)) = real (unat (push_bit 3 (ucast fb) :: u64)) * 2 powi (eb + 123)"
      using unpack_shifted [OF nz(2)] by blast
    have add: "nc_fp32_add st a b =
        fp_add_finite st (a AND FP_SIGN) ea (push_bit 3 (ucast fa)) (b AND FP_SIGN) eb (push_bit 3 (ucast fb))"
      unfolding nc_fp32_add_def Let_def fa(1) fb(1) using fin nz unfolding fp_word_facts(1)
      by (simp only: if_False if_True option.case prod.case simp_thms)
    have ne: "a AND FP_SIGN \<noteq> b AND FP_SIGN" if "fp_value a + fp_value b = 0"
    proof
      assume "a AND FP_SIGN = b AND FP_SIGN"
      then have "magn (fp_code a) + magn (fp_code b) = 0"
        using that unfolding fp_value_signed fp_signed_def by (auto split: if_splits)
      with nz show False using magn_eq_iff [of "fp_code a" 0] by simp
    qed
    have "fp_value a + fp_value b = fp_signed (a AND FP_SIGN) (real (unat (push_bit 3 (ucast fa) :: u64)) * 2 powi (ea + 123))
        + fp_signed (b AND FP_SIGN) (real (unat (push_bit 3 (ucast fb) :: u64)) * 2 powi (eb + 123))"
      unfolding fp_value_signed fa(5) fb(5) ..
    from fp_add_finite_correct [OF fa(2-4) fb(2-4) fp_word_facts(4) fp_word_facts(4) this, of st]
    show ?thesis unfolding add using ne by auto
  qed
qed

section \<open>Division\<close>

lemma quotient_sticky:
  fixes ma mb :: u32
  defines "n \<equiv> push_bit 26 (ucast ma) :: u64"
  defines "q \<equiv> (if n mod ucast mb \<noteq> 0 then n div ucast mb OR 1 else n div ucast mb)"
  assumes b: "2 ^ 23 \<le> unat mb" "unat mb < 2 ^ 24" and a: "unat mb \<le> unat ma" "unat ma < 2 * unat mb"
  shows "2 ^ 26 \<le> unat q" "unat q < 2 ^ 27" "sides 4 (real (unat ma * 2 ^ 26) / real (unat mb)) (int (unat q))"
proof -
  let ?N = "unat ma * 2 ^ 26"
  have "unat (ucast ma * 2 ^ 26 :: u64) = unat (ucast ma :: u64) * unat (2 ^ 26 :: u64)"
    using a b by (subst unat_mult_lem [symmetric]) simp
  then have n: "unat n = ?N" by (simp add: n_def push_bit_eq_mult)
  have q: "unat q = sticky ?N (unat mb)"
    by (auto simp: q_def sticky_def unat_or_1 unat_div_distrib unat_mod_distrib n word_unat_eq_iff)
  have lo: "2 ^ 26 \<le> ?N div unat mb"
    using a(1) b(1) by (simp add: less_eq_div_iff_mult_less_eq mult.commute)
  have hi: "?N div unat mb < 2 ^ 27" using a(2) b(1) by (simp add: div_less_iff_less_mult)
  show "2 ^ 26 \<le> unat q" unfolding q sticky_def using lo by simp
  have "?N div unat mb \<noteq> 2 ^ 27 - 1" if "even (?N div unat mb)" using that by auto
  then show "unat q < 2 ^ 27" unfolding q sticky_def using hi by auto
  have "sides 2 (real ?N / real (unat mb)) (int (unat q))" unfolding q using b(1) by (intro sides_sticky) simp
  then show "sides 4 (real ?N / real (unat mb)) (int (unat q))" by (rule sides_mono) simp
qed

lemma fp_div_correct:
  assumes a: "fp_finite a" and b: "fp_finite b" "fp_code b \<noteq> 0"
  defines "v \<equiv> fp_value a / fp_value b * 2 ^ 149"
  shows "\<exists>r. nc_fp32_div st a b = Some (fp_result st r (fp_flags v r)) \<and> fp_rounded (rounding st) v r
    \<and> (v = 0 \<longrightarrow> r = (a XOR b) AND FP_SIGN)"
proof -
  let ?s = "(a XOR b) AND FP_SIGN"
  have fin: "\<not> is_nan a" "\<not> is_nan b" "a AND FP_ABS \<noteq> FP_INF" "b AND FP_ABS \<noteq> FP_INF" "b AND FP_ABS \<noteq> 0"
    using a b unfolding fp_word_facts fp_finite_def by simp_all
  have s: "?s = 0 \<or> ?s = FP_SIGN" by (rule fp_word_facts(4))
  have sgn: "?s \<noteq> 0 \<longleftrightarrow> bit a 31 \<noteq> bit b 31" unfolding fp_word_facts(5) by (simp add: bit_xor_iff)
  have v: "v = fp_signed ?s (real (magn (fp_code a)) / real (magn (fp_code b)) * 2 ^ 149)"
    unfolding v_def fp_signed_def sgn by (simp add: fp_value_def)
  show ?thesis
  proof (cases "fp_code a = 0")
    case True
    then have "nc_fp32_div st a b = Some (fp_result st ?s 0)" using fin by (simp add: nc_fp32_div_def Let_def fp_word_facts(1))
    moreover have "v = 0" using True by (simp add: v fp_signed_def)
    ultimately show ?thesis using fp_zero_either [OF s, of "rounding st"] by (intro exI [of _ ?s]) simp
  next
    case False
    obtain ma ea where ma: "unpack a = Some (ma, ea)" "2 ^ 23 \<le> unat ma" "unat ma < 2 ^ 24"
      "real (magn (fp_code a)) = real (unat ma) * 2 powi (ea + 126)" using unpack_value [OF False] by blast
    obtain mb eb where mb: "unpack b = Some (mb, eb)" "2 ^ 23 \<le> unat mb" "unat mb < 2 ^ 24"
      "real (magn (fp_code b)) = real (unat mb) * 2 powi (eb + 126)" using unpack_value [OF b(2)] by blast
    define m e where "m = (if ma < mb then push_bit 1 ma else ma)" and "e = (if ma < mb then ea - eb - 1 else ea - eb)"
    define q :: u64 where "q = (if push_bit 26 (ucast m) mod ucast mb \<noteq> (0 :: u64)
      then push_bit 26 (ucast m) div ucast mb OR 1 else push_bit 26 (ucast m) div ucast mb)"
    have pair: "(if ma < mb then (push_bit 1 ma, ea - eb - 1) else (ma, ea - eb)) = (m, e)" by (simp add: m_def e_def)
    have div: "nc_fp32_div st a b = Some (pack st ?s e q)"
      unfolding nc_fp32_div_def Let_def ma(1) mb(1) option.case prod.case pair q_def
      using fin False unfolding fp_word_facts(1) by (simp only: if_False if_True simp_thms)
    have um: "unat (push_bit 1 ma) = unat ma * 2" using ma(3) by (intro unat_push_1) simp
    have m: "unat mb \<le> unat m" "unat m < 2 * unat mb"
      using ma(2,3) mb(2,3) um by (auto simp: m_def word_less_nat_alt)
    have "real (magn (fp_code a)) / real (magn (fp_code b)) * 2 ^ 149 = (real (unat m * 2 ^ 26) / real (unat mb)) * 2 powi (e + 123)"
    proof (cases "ma < mb")
      case True
      then have e: "e = ea - eb - 1" "unat m = unat ma * 2" using um by (simp_all add: e_def m_def)
      show ?thesis unfolding e ma(4) mb(4) by (simp add: power_int_add power_int_diff field_simps)
    next
      case False
      then have e: "e = ea - eb" "m = ma" by (simp_all add: e_def m_def)
      show ?thesis unfolding e ma(4) mb(4) by (simp add: power_int_add power_int_diff field_simps)
    qed
    from pack_correct [OF quotient_sticky [OF mb(2,3) m, folded q_def] this s, of st]
    obtain r where "pack st ?s e q = fp_result st r (fp_flags v r)" "fp_rounded (rounding st) v r"
      unfolding v fp_signed_def by blast
    moreover have "v \<noteq> 0" using False b(2) magn_eq_iff [of _ 0] by (auto simp: v fp_signed_def)
    ultimately show ?thesis unfolding div by blast
  qed
qed

text \<open>Both operations return.\<close>

lemma fp_add_returns: "\<exists>x. nc_fp32_add st a b = Some x"
proof (cases "fp_finite a \<and> fp_finite b")
  case True
  then show ?thesis using fp_add_correct [of a b st] by blast
next
  case False
  then show ?thesis by (auto simp: nc_fp32_add_def Let_def fp_word_facts(1,2,3) fp_finite_def)
qed

lemma fp_div_returns: "\<exists>y. nc_fp32_div st a b = Some y"
proof (cases "fp_finite a \<and> fp_finite b \<and> fp_code b \<noteq> 0")
  case True
  then show ?thesis using fp_div_correct [of a b st] by blast
next
  case False
  then show ?thesis by (auto simp: nc_fp32_div_def Let_def fp_word_facts(1,2,3) fp_finite_def)
qed

section \<open>Properties\<close>

text \<open>C24. Addition is correctly rounded: for finite operands the code returns, and the bits are the rounding of the exact
sum (in units of the least subnormal) in the mode that is set: least above, greatest below, largest towards zero, or
nearest with ties to even, infinity included. The status gains exactly inexact, underflow (tiny before rounding and
inexact) and overflow, the mode is kept, and a zero sum has the sign the standard gives it.
\<close>
theorem fp32_add_correctly_rounded:
  assumes "fp_finite a" "fp_finite b"
  shows "\<exists>out st'. nc_fp32_add st a b = Some (out, st')
    \<and> fp_rounded (rounding st) (fp_value a + fp_value b) (fp_bits out)
    \<and> fp_status st' = fp_status st OR fp_flags (fp_value a + fp_value b) (fp_bits out)
    \<and> fp_cumulative out = fp_status st' \<and> rounding st' = rounding st
    \<and> (fp_value a + fp_value b = 0 \<longrightarrow> fp_bits out =
        (if a AND FP_SIGN = b AND FP_SIGN then a AND FP_SIGN else if rounding st = NC_FP_RM then FP_SIGN else 0))"
  using fp_add_correct [OF assms, of st] by (auto simp: fp_result_def Let_def)

theorem fp32_add_correctly_rounded_witness:
  "fp_finite 0x3f800000 \<and> fp_finite 0x33800001
   \<and> (\<exists>out st'. nc_fp32_add \<lparr>rounding = NC_FP_RP, fp_status = 0\<rparr> 0x3f800000 0x33800001 = Some (out, st')
        \<and> fp_rounded NC_FP_RP (fp_value 0x3f800000 + fp_value 0x33800001) (fp_bits out))"
proof -
  have f: "fp_finite 0x3f800000" "fp_finite 0x33800001" by (simp_all add: fp_finite_def fp_code_def)
  from fp32_add_correctly_rounded [OF f, of "\<lparr>rounding = NC_FP_RP, fp_status = 0\<rparr>"] f show ?thesis by auto
qed

text \<open>C25. Division is correctly rounded: for finite operands with a nonzero divisor the code returns, and the bits are the
rounding of the exact quotient in the mode that is set, with exactly the inexact, underflow and overflow flags; a
zero quotient has the sign of the operands.
\<close>
theorem fp32_div_correctly_rounded:
  assumes "fp_finite a" "fp_finite b" "fp_value b \<noteq> 0"
  shows "\<exists>out st'. nc_fp32_div st a b = Some (out, st')
    \<and> fp_rounded (rounding st) (fp_value a / fp_value b * 2 ^ 149) (fp_bits out)
    \<and> fp_status st' = fp_status st OR fp_flags (fp_value a / fp_value b * 2 ^ 149) (fp_bits out)
    \<and> fp_cumulative out = fp_status st' \<and> rounding st' = rounding st
    \<and> (fp_value a = 0 \<longrightarrow> fp_bits out = (a XOR b) AND FP_SIGN)"
proof -
  have "fp_code b \<noteq> 0" using assms(3) fp_value_zero by blast
  from fp_div_correct [OF assms(1,2) this, of st] show ?thesis by (auto simp: fp_result_def Let_def)
qed

theorem fp32_div_correctly_rounded_witness:
  "fp_finite 0x3f800000 \<and> fp_finite 0x40400000 \<and> fp_value 0x40400000 \<noteq> 0
   \<and> (\<exists>out st'. nc_fp32_div \<lparr>rounding = NC_FP_RN, fp_status = 0\<rparr> 0x3f800000 0x40400000 = Some (out, st')
        \<and> fp_rounded NC_FP_RN (fp_value 0x3f800000 / fp_value 0x40400000 * 2 ^ 149) (fp_bits out))"
proof -
  have f: "fp_finite 0x3f800000" "fp_finite 0x40400000" "fp_value 0x40400000 \<noteq> 0"
    by (simp_all add: fp_finite_def fp_value_def fp_code_def magn_def)
  from fp32_div_correctly_rounded [OF f, of "\<lparr>rounding = NC_FP_RN, fp_status = 0\<rparr>"] f show ?thesis by auto
qed

text \<open>Both operations return on all operands, the normalising loops included, and every special case is the
standard's: a signalling NaN is quieted and sets invalid, a quiet one is passed on, opposite infinities and zero over zero
make the default NaN with invalid, and a nonzero finite number over zero is a signed infinity with divide-by-zero.
\<close>
theorem fp32_operations_return:
  "(\<exists>x. nc_fp32_add st a b = Some x) \<and> (\<exists>y. nc_fp32_div st a b = Some y)
   \<and> (is_nan a \<or> is_nan b \<longrightarrow> nc_fp32_add st a b = Some (nan_result st a b) \<and> nc_fp32_div st a b = Some (nan_result st a b))
   \<and> (fp_code a = fp_inf \<and> fp_code b = fp_inf \<longrightarrow> nc_fp32_div st a b = Some (fp_result st 0x7fc00000 NC_FP_IOC)
        \<and> nc_fp32_add st a b = Some (if a AND FP_SIGN = b AND FP_SIGN then fp_result st a 0 else fp_result st 0x7fc00000 NC_FP_IOC))
   \<and> (fp_finite a \<and> fp_code b = 0 \<longrightarrow> nc_fp32_div st a b =
        Some (if fp_code a = 0 then fp_result st 0x7fc00000 NC_FP_IOC else fp_result st ((a XOR b) AND FP_SIGN OR FP_INF) NC_FP_DZC))"
  using fp_add_returns [of st a b] fp_div_returns [of st a b]
  by (auto simp: nc_fp32_add_def nc_fp32_div_def Let_def fp_word_facts(1,2,3) fp_finite_def)

theorem fp32_operations_return_witness:
  "is_nan 0x7f800001 \<and> nc_fp32_add \<lparr>rounding = NC_FP_RN, fp_status = 0\<rparr> 0x7f800001 0 =
     Some (\<lparr>fp_bits = 0x7fc00001, fp_cumulative = NC_FP_IOC\<rparr>, \<lparr>rounding = NC_FP_RN, fp_status = NC_FP_IOC\<rparr>)"
proof -
  have n: "is_nan 0x7f800001" by (simp add: is_nan_def)
  then show ?thesis
    using fp32_operations_return [of "\<lparr>rounding = NC_FP_RN, fp_status = 0\<rparr>" "0x7f800001" 0]
    by (simp add: nan_result_def is_snan_def fp_result_def)
qed

end
