(* ===== verification/Fp.thy ===== *)
theory Fp
  imports FpScalar
begin

text \<open>
  The guest floating-point bank and the instruction services on it: \<open>src/runtime/fp_guest.c\<close>,
  \<open>fp_control.c\<close>, \<open>fp_instruction.c\<close>, \<open>simd_bitwise.c\<close>, \<open>simd_transfer.c\<close>, \<open>simd_copy.c\<close> and
  \<open>simd_memory.c\<close>. A vector register is the pair of its low and high halves; the general registers
  are a list of 31 words (in \<open>simd_memory.c\<close> with the stack pointer). The services take the bank, the registers and the memory
  as separate values, so the tests that refuse overlapping host storage have no counterpart, and neither
  has the test that the host mapping does not wrap.

  Shown: no service corrupts the bank (32 registers, representable control and status), a rejected
  instruction changes nothing, lane copies read and write exactly their lane, and the 128-bit load and
  store succeed exactly under their conditions, at the address their addressing mode gives and with its
  write-back, as an account of that mode apart from the code has it.
\<close>

section \<open>The bank\<close>

record nc_fp_bank =
  bank_v :: "(u64 \<times> u64) list"
  fpcr :: u32
  fpsr :: u32

datatype nc_fp_result = NC_FP_OK | NC_FP_INVALID | NC_FP_UNDEFINED | NC_FP_TRAP_EL1 | NC_FP_UNSUPPORTED

abbreviation (input) RMODE_MASK :: u32 where "RMODE_MASK \<equiv> 0x00c00000"
abbreviation (input) ENABLE_MASK :: u32 where "ENABLE_MASK \<equiv> 0x00009f00"

definition nc_fp_bank_reset :: "nc_fp_bank \<Rightarrow> nc_fp_result \<times> nc_fp_bank" where
  "nc_fp_bank_reset bank = (NC_FP_OK, bank\<lparr>bank_v := replicate 32 (0, 0), fpcr := 0, fpsr := 0\<rparr>)"

definition nc_fp_bank_get_s :: "nc_fp_bank \<Rightarrow> nat \<Rightarrow> u32 option" where
  "nc_fp_bank_get_s bank reg = (if reg \<ge> 32 then None else Some (ucast (fst (bank_v bank ! reg))))"

definition nc_fp_bank_get_d :: "nc_fp_bank \<Rightarrow> nat \<Rightarrow> u64 option" where
  "nc_fp_bank_get_d bank reg = (if reg \<ge> 32 then None else Some (fst (bank_v bank ! reg)))"

definition nc_fp_bank_get_q :: "nc_fp_bank \<Rightarrow> nat \<Rightarrow> (u64 \<times> u64) option" where
  "nc_fp_bank_get_q bank reg = (if reg \<ge> 32 then None else Some (bank_v bank ! reg))"

definition nc_fp_bank_write_s :: "nc_fp_bank \<Rightarrow> nat \<Rightarrow> u32 \<Rightarrow> nc_fp_result \<times> nc_fp_bank" where
  "nc_fp_bank_write_s bank reg bits =
     (if reg \<ge> 32 then (NC_FP_INVALID, bank) else (NC_FP_OK, bank\<lparr>bank_v := (bank_v bank)[reg := (ucast bits, 0)]\<rparr>))"

definition nc_fp_bank_write_d :: "nc_fp_bank \<Rightarrow> nat \<Rightarrow> u64 \<Rightarrow> nc_fp_result \<times> nc_fp_bank" where
  "nc_fp_bank_write_d bank reg bits =
     (if reg \<ge> 32 then (NC_FP_INVALID, bank) else (NC_FP_OK, bank\<lparr>bank_v := (bank_v bank)[reg := (bits, 0)]\<rparr>))"

definition nc_fp_bank_write_q :: "nc_fp_bank \<Rightarrow> nat \<Rightarrow> u64 \<Rightarrow> u64 \<Rightarrow> nc_fp_result \<times> nc_fp_bank" where
  "nc_fp_bank_write_q bank reg low high =
     (if reg \<ge> 32 then (NC_FP_INVALID, bank) else (NC_FP_OK, bank\<lparr>bank_v := (bank_v bank)[reg := (low, high)]\<rparr>))"

definition nc_fp_bank_write_fpcr :: "nc_fp_bank \<Rightarrow> u32 \<Rightarrow> nc_fp_result \<times> nc_fp_bank" where
  "nc_fp_bank_write_fpcr bank bits =
     (if bits AND NOT RMODE_MASK \<noteq> 0 then (NC_FP_INVALID, bank) else (NC_FP_OK, bank\<lparr>fpcr := bits\<rparr>))"

definition nc_fp_bank_write_fpsr :: "nc_fp_bank \<Rightarrow> u32 \<Rightarrow> nc_fp_result \<times> nc_fp_bank" where
  "nc_fp_bank_write_fpsr bank bits =
     (if bits AND NOT NC_FP_STATUS_MASK \<noteq> 0 then (NC_FP_INVALID, bank) else (NC_FP_OK, bank\<lparr>fpsr := bits\<rparr>))"

text \<open>The bank test shared by the services: only the mode bits and the five status flags are ever set.\<close>

definition bank_malformed :: "nc_fp_bank \<Rightarrow> bool" where
  "bank_malformed bank \<longleftrightarrow> fpcr bank AND NOT RMODE_MASK \<noteq> 0 \<or> fpsr bank AND NOT NC_FP_STATUS_MASK \<noteq> 0"

definition binary32 :: "nc_fp_bank \<Rightarrow> nat \<Rightarrow> nat \<Rightarrow> nat \<Rightarrow> bool \<Rightarrow> (nc_fp_result \<times> nc_fp_bank) option" where
  "binary32 bank dst left right dividing =
     (if dst \<ge> 32 \<or> left \<ge> 32 \<or> right \<ge> 32 \<or> bank_malformed bank then Some (NC_FP_INVALID, bank)
      else
        let state0 = nc_fp32_init \<lparr>rounding = NC_FP_RN, fp_status = 0\<rparr>;
            (configured, state1) = nc_fp32_configure state0 (fpcr bank) in
        if \<not> configured then Some (NC_FP_INVALID, bank)
        else
          let state2 = state1\<lparr>fp_status := fpsr bank\<rparr>;
              a = ucast (fst (bank_v bank ! left));
              b = ucast (fst (bank_v bank ! right)) in
          case (if dividing then nc_fp32_div state2 a b else nc_fp32_add state2 a b) of
            None \<Rightarrow> None
          | Some (out, _) \<Rightarrow>
              Some (NC_FP_OK, bank\<lparr>bank_v := (bank_v bank)[dst := (ucast (fp_bits out), 0)], fpsr := fp_cumulative out\<rparr>))"

definition nc_fp_bank_add32 :: "nc_fp_bank \<Rightarrow> nat \<Rightarrow> nat \<Rightarrow> nat \<Rightarrow> (nc_fp_result \<times> nc_fp_bank) option" where
  "nc_fp_bank_add32 bank dst left right = binary32 bank dst left right False"

definition nc_fp_bank_div32 :: "nc_fp_bank \<Rightarrow> nat \<Rightarrow> nat \<Rightarrow> nat \<Rightarrow> (nc_fp_result \<times> nc_fp_bank) option" where
  "nc_fp_bank_div32 bank dst left right = binary32 bank dst left right True"

definition nc_fp_access_check :: "nat \<Rightarrow> nat \<Rightarrow> u64 \<Rightarrow> nat \<Rightarrow> nc_fp_result" where
  "nc_fp_access_check fp_present el cpacr_el1 higher_el_enabled =
     (if fp_present > 1 \<or> higher_el_enabled > 1 \<or> el > 3 then NC_FP_INVALID
      else if fp_present = 0 then NC_FP_UNDEFINED
      else if el > 1 \<or> higher_el_enabled \<noteq> 0 \<or> cpacr_el1 AND NOT 0x00300000 \<noteq> 0 then NC_FP_UNSUPPORTED
      else
        let fpen = ucast (drop_bit 20 cpacr_el1) :: u32 in
        if fpen AND 1 = 0 \<or> (fpen = 1 \<and> el = 0) then NC_FP_TRAP_EL1 else NC_FP_OK)"

section \<open>Control and scalar instructions\<close>

definition nc_fp_execute_control ::
  "nc_fp_bank \<Rightarrow> u64 list \<Rightarrow> u32 \<Rightarrow> nat \<Rightarrow> nat \<Rightarrow> u64 \<Rightarrow> nat \<Rightarrow> nc_fp_result \<times> nc_fp_bank \<times> u64 list" where
  "nc_fp_execute_control bank x word fp_present el cpacr_el1 higher_el_enabled =
     (let fixed = word AND 0xffffffe0;
          form = (if fixed = 0xd53b4400 then Some (True, False)
                  else if fixed = 0xd51b4400 then Some (False, False)
                  else if fixed = 0xd53b4420 then Some (True, True)
                  else if fixed = 0xd51b4420 then Some (False, True)
                  else None) in
      case form of
        None \<Rightarrow> (NC_FP_UNSUPPORTED, bank, x)
      | Some (rd, status) \<Rightarrow>
          let chk = nc_fp_access_check fp_present el cpacr_el1 higher_el_enabled in
          if chk \<noteq> NC_FP_OK then (chk, bank, x)
          else if bank_malformed bank then (NC_FP_INVALID, bank, x)
          else
            let rt = unat (word AND 31) in
            if rd then
              (NC_FP_OK, bank, if rt \<noteq> 31 then x[rt := ucast (if status then fpsr bank else fpcr bank)] else x)
            else
              let val = (if rt = 31 then 0 else ucast (x ! rt) :: u32) in
              if status then
                (if val AND NOT NC_FP_STATUS_MASK \<noteq> 0 then (NC_FP_UNSUPPORTED, bank, x)
                 else (case nc_fp_bank_write_fpsr bank val of (r, bank') \<Rightarrow> (r, bank', x)))
              else
                (if val AND NOT (RMODE_MASK OR ENABLE_MASK) \<noteq> 0 then (NC_FP_UNSUPPORTED, bank, x)
                 else (case nc_fp_bank_write_fpcr bank (val AND RMODE_MASK) of (r, bank') \<Rightarrow> (r, bank', x))))"

definition nc_fp_execute32 :: "nc_fp_bank \<Rightarrow> u64 list \<Rightarrow> u32 \<Rightarrow> (nc_fp_result \<times> nc_fp_bank \<times> u64 list) option" where
  "nc_fp_execute32 bank x w =
     (let dst = unat (w AND 31); left = unat (drop_bit 5 w AND 31); right = unat (drop_bit 16 w AND 31);
          binary = w AND 0xffe0fc00; move = w AND 0xfffffc00 in
      if binary \<noteq> 0x1e202800 \<and> binary \<noteq> 0x1e201800 \<and> move \<noteq> 0x1e270000 \<and> move \<noteq> 0x1e260000
        then Some (NC_FP_UNSUPPORTED, bank, x)
      else if bank_malformed bank then Some (NC_FP_INVALID, bank, x)
      else if binary = 0x1e202800 then map_option (\<lambda>(r, bank'). (r, bank', x)) (nc_fp_bank_add32 bank dst left right)
      else if binary = 0x1e201800 then map_option (\<lambda>(r, bank'). (r, bank', x)) (nc_fp_bank_div32 bank dst left right)
      else if move = 0x1e270000 then
        (case nc_fp_bank_write_s bank dst (if left = 31 then 0 else ucast (x ! left)) of (r, bank') \<Rightarrow> Some (r, bank', x))
      else
        Some (NC_FP_OK, bank, if dst \<noteq> 31 then x[dst := ucast (ucast (fst (bank_v bank ! left)) :: u32)] else x))"

section \<open>Vector logic and transfers\<close>

definition bitwise_apply :: "u32 \<Rightarrow> u64 \<Rightarrow> u64 \<Rightarrow> u64 \<Rightarrow> u64" where
  "bitwise_apply operation dst left right =
     (if operation = 0x0e201c00 then left AND right
      else if operation = 0x0e601c00 then left AND NOT right
      else if operation = 0x0ea01c00 then left OR right
      else if operation = 0x0ee01c00 then left OR NOT right
      else if operation = 0x2e201c00 then left XOR right
      else if operation = 0x2e601c00 then (dst AND left) OR (NOT dst AND right)
      else if operation = 0x2ea01c00 then (dst AND NOT right) OR (left AND right)
      else if operation = 0x2ee01c00 then (dst AND right) OR (left AND NOT right)
      else 0)"

definition nc_simd_execute_bitwise ::
  "nc_fp_bank \<Rightarrow> u32 \<Rightarrow> nat \<Rightarrow> nat \<Rightarrow> u64 \<Rightarrow> nat \<Rightarrow> nc_fp_result \<times> nc_fp_bank" where
  "nc_simd_execute_bitwise bank instruction simd_present el cpacr_el1 higher_el_enabled =
     (if instruction AND 0x9f20fc00 \<noteq> 0x0e201c00 then (NC_FP_UNSUPPORTED, bank)
      else
        let chk = nc_fp_access_check simd_present el cpacr_el1 higher_el_enabled in
        if chk \<noteq> NC_FP_OK then (chk, bank)
        else if bank_malformed bank then (NC_FP_INVALID, bank)
        else
          let dst = unat (instruction AND 31); left = unat (drop_bit 5 instruction AND 31);
              right = unat (drop_bit 16 instruction AND 31);
              operation = instruction AND 0xbfe0fc00;
              low = bitwise_apply operation (fst (bank_v bank ! dst)) (fst (bank_v bank ! left)) (fst (bank_v bank ! right));
              high = (if instruction AND 0x40000000 \<noteq> 0
                      then bitwise_apply operation (snd (bank_v bank ! dst)) (snd (bank_v bank ! left)) (snd (bank_v bank ! right))
                      else 0) in
          nc_fp_bank_write_q bank dst low high)"

definition nc_simd_execute_eor ::
  "nc_fp_bank \<Rightarrow> u32 \<Rightarrow> nat \<Rightarrow> nat \<Rightarrow> u64 \<Rightarrow> nat \<Rightarrow> nc_fp_result \<times> nc_fp_bank" where
  "nc_simd_execute_eor bank instruction simd_present el cpacr_el1 higher_el_enabled =
     (if instruction AND 0xbfe0fc00 \<noteq> 0x2e201c00 then (NC_FP_UNSUPPORTED, bank)
      else nc_simd_execute_bitwise bank instruction simd_present el cpacr_el1 higher_el_enabled)"

definition nc_simd_transfer_execute ::
  "nc_fp_bank \<Rightarrow> u64 list \<Rightarrow> u32 \<Rightarrow> nat \<Rightarrow> nat \<Rightarrow> u64 \<Rightarrow> nat \<Rightarrow> nc_fp_result \<times> nc_fp_bank \<times> u64 list" where
  "nc_simd_transfer_execute bank x instruction fp_present el cpacr_el1 higher_el_enabled =
     (let operation = instruction AND 0xfffffc00 in
      if operation \<noteq> 0x9e670000 \<and> operation \<noteq> 0x9e660000 \<and> operation \<noteq> 0x9eaf0000 \<and> operation \<noteq> 0x9eae0000
        then (NC_FP_UNSUPPORTED, bank, x)
      else
        let chk = nc_fp_access_check fp_present el cpacr_el1 higher_el_enabled in
        if chk \<noteq> NC_FP_OK then (chk, bank, x)
        else if bank_malformed bank then (NC_FP_INVALID, bank, x)
        else
          let dst = unat (instruction AND 31); src = unat (drop_bit 5 instruction AND 31) in
          if operation = 0x9e670000 then
            (case nc_fp_bank_write_d bank dst (if src = 31 then 0 else x ! src) of (r, bank') \<Rightarrow> (r, bank', x))
          else if operation = 0x9eaf0000 then
            (case nc_fp_bank_write_q bank dst (fst (bank_v bank ! dst)) (if src = 31 then 0 else x ! src) of
               (r, bank') \<Rightarrow> (r, bank', x))
          else
            let bits = (if operation = 0x9eae0000 then snd (bank_v bank ! src) else fst (bank_v bank ! src)) in
            (NC_FP_OK, bank, if dst \<noteq> 31 then x[dst := bits] else x))"

section \<open>Lane copies\<close>

datatype copy_operation = COPY_DUP_ELEMENT | COPY_DUP_GENERAL | COPY_INS_GENERAL | COPY_INS_ELEMENT | COPY_UMOV | COPY_SMOV

definition lane_mask :: "nat \<Rightarrow> u64" where
  "lane_mask bits = (if bits = 64 then - 1 else push_bit bits 1 - 1)"

text \<open>Half \<open>0\<close> or \<open>1\<close> of a register, and its update.\<close>

definition bank_half :: "nc_fp_bank \<Rightarrow> nat \<Rightarrow> nat \<Rightarrow> u64" where
  "bank_half bank reg h = (if h = 0 then fst (bank_v bank ! reg) else snd (bank_v bank ! reg))"

definition bank_set_half :: "nc_fp_bank \<Rightarrow> nat \<Rightarrow> nat \<Rightarrow> u64 \<Rightarrow> nc_fp_bank" where
  "bank_set_half bank reg h w =
     bank\<lparr>bank_v := (bank_v bank)[reg := (if h = 0 then (w, snd (bank_v bank ! reg)) else (fst (bank_v bank ! reg), w))]\<rparr>"

definition read_lane :: "nc_fp_bank \<Rightarrow> nat \<Rightarrow> nat \<Rightarrow> nat \<Rightarrow> u64" where
  "read_lane bank reg lane bits =
     (let offset = lane * bits in
      drop_bit (offset mod 64) (bank_half bank reg (offset div 64)) AND lane_mask bits)"

definition write_lane :: "nc_fp_bank \<Rightarrow> nat \<Rightarrow> nat \<Rightarrow> nat \<Rightarrow> u64 \<Rightarrow> nc_fp_bank" where
  "write_lane bank reg lane bits v =
     (let offset = lane * bits; half = offset div 64; shift = offset mod 64; m = lane_mask bits in
      bank_set_half bank reg half
        ((bank_half bank reg half AND NOT (push_bit shift m)) OR push_bit shift (v AND m)))"

definition copy_decode :: "u32 \<Rightarrow> copy_operation option" where
  "copy_decode instruction =
     (let selector = instruction AND 0xbfe0fc00 in
      if selector = 0x0e000400 then Some COPY_DUP_ELEMENT
      else if selector = 0x0e000c00 then Some COPY_DUP_GENERAL
      else if selector = 0x0e003c00 then Some COPY_UMOV
      else if selector = 0x0e002c00 then Some COPY_SMOV
      else if instruction AND 0xffe0fc00 = 0x4e001c00 then Some COPY_INS_GENERAL
      else if instruction AND 0xffe08400 = 0x6e000400 then Some COPY_INS_ELEMENT
      else None)"

text \<open>The search for the lowest set bit of the immediate; it would not end without one.\<close>

partial_function (option) copy_size :: "u32 \<Rightarrow> nat \<Rightarrow> nat option" where
  "copy_size imm5 n = (if imm5 AND push_bit n 1 = 0 then copy_size imm5 (n + 1) else Some n)"

definition copy_repeat :: "u64 \<Rightarrow> nat \<Rightarrow> u64" where
  "copy_repeat v bits = foldl (\<lambda>acc i. acc OR push_bit (i * bits) v) 0 [0..<64 div bits]"

definition nc_simd_execute_copy ::
  "nc_fp_bank \<Rightarrow> u64 list \<Rightarrow> u32 \<Rightarrow> nat \<Rightarrow> nat \<Rightarrow> u64 \<Rightarrow> nat \<Rightarrow> (nc_fp_result \<times> nc_fp_bank \<times> u64 list) option" where
  "nc_simd_execute_copy bank x instruction simd_present el cpacr_el1 higher_el_enabled =
     (case copy_decode instruction of
        None \<Rightarrow> Some (NC_FP_UNSUPPORTED, bank, x)
      | Some operation \<Rightarrow>
          let imm5 = drop_bit 16 instruction AND 31 in
          if imm5 AND 15 = 0 then Some (NC_FP_UNSUPPORTED, bank, x)
          else
            case copy_size imm5 0 of
              None \<Rightarrow> None
            | Some sz \<Rightarrow>
                let bits = 8 * 2 ^ sz; q = (drop_bit 30 instruction AND 1 \<noteq> 0) in
                if (operation = COPY_DUP_ELEMENT \<or> operation = COPY_DUP_GENERAL) \<and> sz = 3 \<and> \<not> q
                  then Some (NC_FP_UNSUPPORTED, bank, x)
                else if operation = COPY_UMOV \<and> (if q then sz \<noteq> 3 else sz > 2) then Some (NC_FP_UNSUPPORTED, bank, x)
                else if operation = COPY_SMOV \<and> (if q then sz > 2 else sz > 1) then Some (NC_FP_UNSUPPORTED, bank, x)
                else
                  let chk = nc_fp_access_check simd_present el cpacr_el1 higher_el_enabled in
                  if chk \<noteq> NC_FP_OK then Some (chk, bank, x)
                  else if bank_malformed bank then Some (NC_FP_INVALID, bank, x)
                  else
                    let dst = unat (instruction AND 31); src = unat (drop_bit 5 instruction AND 31);
                        lane = unat (drop_bit (sz + 1) imm5);
                        v = (if operation = COPY_DUP_GENERAL \<or> operation = COPY_INS_GENERAL
                             then (if src = 31 then 0 else x ! src AND lane_mask bits)
                             else if operation = COPY_INS_ELEMENT
                             then read_lane bank src (unat (drop_bit sz (drop_bit 11 instruction AND 15))) bits
                             else read_lane bank src lane bits) in
                    if operation = COPY_DUP_ELEMENT \<or> operation = COPY_DUP_GENERAL then
                      (let repeated = copy_repeat v bits in
                       Some (NC_FP_OK, bank\<lparr>bank_v := (bank_v bank)[dst := (repeated, if q then repeated else 0)]\<rparr>, x))
                    else if operation = COPY_INS_GENERAL \<or> operation = COPY_INS_ELEMENT then
                      Some (NC_FP_OK, write_lane bank dst lane bits v, x)
                    else
                      (let v1 = (if operation = COPY_SMOV
                                 then (let sign = push_bit (bits - 1) 1 in (v XOR sign) - sign) else v) in
                       Some (NC_FP_OK, bank, if dst \<noteq> 31 then x[dst := (if q then v1 else ucast (ucast v1 :: u32))] else x)))"

section \<open>Vector memory\<close>

record nc_simd_gprs =
  gx :: "u64 list"
  gsp :: u64

text \<open>The view of guest memory; the length of the array is the length of the list.\<close>

record nc_simd_memory =
  sm_bytes :: "u8 list"
  guest_base :: u64
  readable :: nat
  writable :: nat
  sp_alignment :: nat
  data_alignment :: nat
  big_endian :: nat

datatype nc_simd_mem_result = NC_SIMD_MEM_OK | NC_SIMD_MEM_INVALID | NC_SIMD_MEM_UNDEFINED | NC_SIMD_MEM_TRAP_EL1
  | NC_SIMD_MEM_UNSUPPORTED | NC_SIMD_MEM_SP_ALIGNMENT | NC_SIMD_MEM_DATA_ALIGNMENT | NC_SIMD_MEM_DATA_ABORT

text \<open>The cast of an access result: the first five names agree in number.\<close>

definition mem_result_of :: "nc_fp_result \<Rightarrow> nc_simd_mem_result" where
  "mem_result_of r =
     (case r of NC_FP_OK \<Rightarrow> NC_SIMD_MEM_OK | NC_FP_INVALID \<Rightarrow> NC_SIMD_MEM_INVALID | NC_FP_UNDEFINED \<Rightarrow> NC_SIMD_MEM_UNDEFINED
      | NC_FP_TRAP_EL1 \<Rightarrow> NC_SIMD_MEM_TRAP_EL1 | NC_FP_UNSUPPORTED \<Rightarrow> NC_SIMD_MEM_UNSUPPORTED)"

definition q_memory_decode :: "u32 \<Rightarrow> (u64 \<times> nat) option" where
  "q_memory_decode instruction =
     (if instruction AND 0xff800000 = 0x3d800000 then Some (push_bit 4 (ucast (drop_bit 10 instruction AND 4095)), 0)
      else if instruction AND 0xffa00000 = 0x3c800000 then
        (let mode = unat (drop_bit 10 instruction AND 3) in
         if mode = 2 then None
         else
           let imm = drop_bit 12 instruction AND 511;
               signed_offset = int (unat imm) - (if imm AND 256 \<noteq> 0 then 512 else 0) in
           Some (of_int signed_offset, mode))
      else None)"

definition memory_view_bad :: "nc_simd_memory \<Rightarrow> bool" where
  "memory_view_bad m \<longleftrightarrow>
     sm_bytes m = [] \<or> readable m > 1 \<or> writable m > 1 \<or> sp_alignment m > 1 \<or> data_alignment m > 1 \<or> big_endian m > 1
     \<or> length (sm_bytes m) - 1 > unat (- 1 - guest_base m)"

definition nc_simd_execute_q_memory ::
  "nc_fp_bank \<Rightarrow> nc_simd_gprs \<Rightarrow> nc_simd_memory \<Rightarrow> u32 \<Rightarrow> nat \<Rightarrow> nat \<Rightarrow> u64 \<Rightarrow> nat \<Rightarrow>
     nc_simd_mem_result \<times> nc_fp_bank \<times> nc_simd_gprs \<times> nc_simd_memory" where
  "nc_simd_execute_q_memory bank gprs m instruction fp_present el cpacr_el1 higher_el_enabled =
     (case q_memory_decode instruction of
        None \<Rightarrow> (NC_SIMD_MEM_UNSUPPORTED, bank, gprs, m)
      | Some (offset, mode) \<Rightarrow>
          let chk = nc_fp_access_check fp_present el cpacr_el1 higher_el_enabled in
          if chk \<noteq> NC_FP_OK then (mem_result_of chk, bank, gprs, m)
          else if bank_malformed bank then (NC_SIMD_MEM_INVALID, bank, gprs, m)
          else if memory_view_bad m then (NC_SIMD_MEM_INVALID, bank, gprs, m)
          else if big_endian m \<noteq> 0 then (NC_SIMD_MEM_UNSUPPORTED, bank, gprs, m)
          else
            let rn = unat (drop_bit 5 instruction AND 31); rt = unat (instruction AND 31);
                load = (drop_bit 22 instruction AND 1 \<noteq> 0);
                base = (if rn = 31 then gsp gprs else gx gprs ! rn) in
            if rn = 31 \<and> sp_alignment m \<noteq> 0 \<and> base AND 15 \<noteq> 0 then (NC_SIMD_MEM_SP_ALIGNMENT, bank, gprs, m)
            else
              let updated = base + offset;
                  address = (if mode = 1 then base else updated) in
              if data_alignment m \<noteq> 0 \<and> address AND 15 \<noteq> 0 then (NC_SIMD_MEM_DATA_ALIGNMENT, bank, gprs, m)
              else if (if load then readable m = 0 else writable m = 0) \<or> address > - 1 - 15 \<or> address < guest_base m
                then (NC_SIMD_MEM_DATA_ABORT, bank, gprs, m)
              else
                let index = unat (address - guest_base m) in
                if length (sm_bytes m) < 16 \<or> index > length (sm_bytes m) - 16 then (NC_SIMD_MEM_DATA_ABORT, bank, gprs, m)
                else
                  let (bank', m') =
                        (if load then
                           (bank\<lparr>bank_v := (bank_v bank)[rt := (get_le64 (drop index (sm_bytes m)), get_le64 (drop (index + 8) (sm_bytes m)))]\<rparr>, m)
                         else
                           (bank, m\<lparr>sm_bytes := splice (sm_bytes m) index
                              (put_le64 (fst (bank_v bank ! rt)) @ put_le64 (snd (bank_v bank ! rt)))\<rparr>));
                      gprs' = (if mode \<noteq> 0 then (if rn = 31 then gprs\<lparr>gsp := updated\<rparr> else gprs\<lparr>gx := (gx gprs)[rn := updated]\<rparr>)
                               else gprs) in
                  (NC_SIMD_MEM_OK, bank', gprs', m'))"

section \<open>What the services keep\<close>

definition bank_ok :: "nc_fp_bank \<Rightarrow> bool" where
  "bank_ok bank \<longleftrightarrow> length (bank_v bank) = 32 \<and> \<not> bank_malformed bank"

text \<open>An arithmetic result only ever adds status flags.\<close>

definition fp_adds_flags :: "nc_fp32_state \<Rightarrow> nc_fp32_result \<times> nc_fp32_state \<Rightarrow> bool" where
  "fp_adds_flags st r \<longleftrightarrow> (\<exists>bits flags. r = fp_result st bits flags \<and> flags AND NOT NC_FP_STATUS_MASK = 0)"

lemma fp_adds_flagsI: "flags AND NOT NC_FP_STATUS_MASK = 0 \<Longrightarrow> fp_adds_flags st (fp_result st bits flags)"
  by (auto simp: fp_adds_flags_def)

lemma pack_adds_flags: "fp_adds_flags st (pack st sign e q)"
  unfolding pack_def Let_def fp_overflow_def
  by (intro if_split [where P = "fp_adds_flags st", THEN iffD2] conjI impI fp_adds_flagsI) auto

lemma nan_adds_flags: "fp_adds_flags st (nan_result st a b)"
  by (auto simp: nan_result_def intro!: fp_adds_flagsI)

lemma add_adds_flags:
  assumes "nc_fp32_add st a b = Some r"
  shows "fp_adds_flags st r"
proof -
  have z: "fp_adds_flags st (fp_result st bits 0)" "fp_adds_flags st (fp_result st bits NC_FP_IOC)" for bits
    by (rule fp_adds_flagsI, simp)+
  show ?thesis
    using assms z pack_adds_flags nan_adds_flags
    by (auto simp: nc_fp32_add_def fp_add_finite_def Let_def split: if_splits option.splits prod.splits)
qed

lemma div_adds_flags:
  assumes "nc_fp32_div st a b = Some r"
  shows "fp_adds_flags st r"
proof -
  have z: "fp_adds_flags st (fp_result st bits 0)" "fp_adds_flags st (fp_result st bits NC_FP_IOC)"
    "fp_adds_flags st (fp_result st bits NC_FP_DZC)" for bits
    by (rule fp_adds_flagsI, simp)+
  show ?thesis
    using assms z pack_adds_flags nan_adds_flags
    by (auto simp: nc_fp32_div_def Let_def split: if_splits option.splits prod.splits)
qed

lemma fp_flags_masked: "(w OR f) AND k = 0 \<longleftrightarrow> w AND k = 0 \<and> f AND k = (0 :: u32)"
  by (simp add: bit.conj_disj_distrib2 or_eq_0_iff)

text \<open>
  What a service promises of its result: it returns, keeps a well-formed bank well formed and the number of general
  registers, and changes nothing unless it succeeds.
\<close>

definition fp_service_ok :: "nc_fp_bank \<Rightarrow> u64 list \<Rightarrow> nc_fp_result \<times> nc_fp_bank \<times> u64 list \<Rightarrow> bool" where
  "fp_service_ok bank x r \<longleftrightarrow>
     (case r of (res, bank', x') \<Rightarrow>
        (bank_ok bank \<longrightarrow> bank_ok bank') \<and> length x' = length x \<and> (res \<noteq> NC_FP_OK \<longrightarrow> bank' = bank \<and> x' = x))"

lemma service_same [simp]: "fp_service_ok bank x (r, bank, x)"
  by (simp add: fp_service_ok_def)

lemma service_x [simp]: "length x' = length x \<Longrightarrow> fp_service_ok bank x (NC_FP_OK, bank, x')"
  by (simp add: fp_service_ok_def)

lemma service_v [simp]:
  "length vs = length (bank_v bank) \<Longrightarrow> fp_service_ok bank x (NC_FP_OK, bank\<lparr>bank_v := vs\<rparr>, x)"
  by (simp add: fp_service_ok_def bank_ok_def bank_malformed_def)

lemma bank_writes:
  "nc_fp_bank_write_s bank reg s = (r, bank') \<Longrightarrow> fp_service_ok bank x (r, bank', x)"
  "nc_fp_bank_write_d bank reg d = (r, bank') \<Longrightarrow> fp_service_ok bank x (r, bank', x)"
  "nc_fp_bank_write_q bank reg low high = (r, bank') \<Longrightarrow> fp_service_ok bank x (r, bank', x)"
  by (auto simp: nc_fp_bank_write_s_def nc_fp_bank_write_d_def nc_fp_bank_write_q_def split: if_splits)

lemma bank_control_writes:
  "nc_fp_bank_write_fpcr bank w = (r, bank') \<Longrightarrow> fp_service_ok bank x (r, bank', x)"
  "nc_fp_bank_write_fpsr bank w = (r, bank') \<Longrightarrow> fp_service_ok bank x (r, bank', x)"
  by (auto simp: nc_fp_bank_write_fpcr_def nc_fp_bank_write_fpsr_def fp_service_ok_def bank_ok_def bank_malformed_def split: if_splits)

lemma binary32_service: "\<exists>r bank'. binary32 bank dst left right dv = Some (r, bank') \<and> fp_service_ok bank x (r, bank', x)"
proof (cases "dst \<ge> 32 \<or> left \<ge> 32 \<or> right \<ge> 32 \<or> bank_malformed bank")
  case True
  then show ?thesis by (simp add: binary32_def)
next
  case False
  have conf: "fpcr bank AND NOT RMODE_MASK = 0" "fpsr bank AND NOT NC_FP_STATUS_MASK = 0" using False by (simp_all add: bank_malformed_def)
  obtain st1 where cfg: "nc_fp32_configure (nc_fp32_init \<lparr>rounding = NC_FP_RN, fp_status = 0\<rparr>) (fpcr bank) = (True, st1)"
    using conf(1) by (simp add: nc_fp32_configure_def)
  define st where "st = st1\<lparr>fp_status := fpsr bank\<rparr>"
  define a b where "a = (ucast (fst (bank_v bank ! left)) :: u32)" and "b = (ucast (fst (bank_v bank ! right)) :: u32)"
  obtain out st' where out: "(if dv then nc_fp32_div st a b else nc_fp32_add st a b) = Some (out, st')"
    using fp_add_returns [of st a b] fp_div_returns [of st a b] by (cases dv) auto
  have "fp_adds_flags st (out, st')" using out add_adds_flags div_adds_flags by (metis (full_types))
  then have fl: "fp_cumulative out AND NOT NC_FP_STATUS_MASK = 0"
    using conf(2) by (auto simp: fp_adds_flags_def fp_result_def Let_def fp_flags_masked st_def)
  have "binary32 bank dst left right dv =
      Some (NC_FP_OK, bank\<lparr>bank_v := (bank_v bank)[dst := (ucast (fp_bits out), 0)], fpsr := fp_cumulative out\<rparr>)"
    unfolding binary32_def if_not_P [OF False] cfg Let_def prod.case st_def [symmetric] a_def [symmetric] b_def [symmetric] out
    by simp
  then show ?thesis using fl by (simp add: fp_service_ok_def bank_ok_def bank_malformed_def)
qed

lemma control_service: "fp_service_ok bank x (nc_fp_execute_control bank x w present el cpacr higher)"
  by (auto simp: nc_fp_execute_control_def Let_def split: prod.split intro: bank_control_writes)

lemma execute32_service: "\<exists>r. nc_fp_execute32 bank x w = Some r \<and> fp_service_ok bank x r"
proof -
  have m: "\<exists>r. map_option (\<lambda>(r, bank'). (r, bank', x)) (binary32 bank dst left right dv) = Some r \<and> fp_service_ok bank x r"
    for dst left right dv
    using binary32_service [of bank dst left right dv x] by auto
  show ?thesis
    unfolding nc_fp_execute32_def Let_def nc_fp_bank_add32_def nc_fp_bank_div32_def
    using m by (auto split: prod.split intro: bank_writes)
qed

lemma bitwise_service:
  "nc_simd_execute_bitwise bank w present el cpacr higher = (r, bank') \<Longrightarrow> fp_service_ok bank x (r, bank', x)"
  "nc_simd_execute_eor bank w present el cpacr higher = (r, bank') \<Longrightarrow> fp_service_ok bank x (r, bank', x)"
  by (auto simp: nc_simd_execute_bitwise_def nc_simd_execute_eor_def Let_def split: if_splits intro: bank_writes)

lemma transfer_service: "fp_service_ok bank x (nc_simd_transfer_execute bank x w present el cpacr higher)"
  by (auto simp: nc_simd_transfer_execute_def Let_def split: prod.split intro: bank_writes)

text \<open>The size search ends below bit four.\<close>

lemma copy_size_returns:
  assumes "bit imm5 k" "n \<le> k"
  shows "\<exists>sz. copy_size imm5 n = Some sz \<and> n \<le> sz \<and> sz \<le> k \<and> bit imm5 sz \<and> (\<forall>j. n \<le> j \<and> j < sz \<longrightarrow> \<not> bit imm5 j)"
  using assms(2)
proof (induction n rule: inc_induct)
  case base
  have "copy_size imm5 k = Some k" using assms(1) by (subst copy_size.simps) (simp only: and_shift_eq_0 not_True_eq_False if_False)
  then show ?case using assms(1) by auto
next
  case (step n)
  show ?case
  proof (cases "bit imm5 n")
    case True
    then have "copy_size imm5 n = Some n" by (subst copy_size.simps) (simp only: and_shift_eq_0 not_True_eq_False if_False)
    then show ?thesis using True step.hyps by (auto intro!: exI [of _ n])
  next
    case False
    then have "copy_size imm5 n = copy_size imm5 (Suc n)" by (subst copy_size.simps) (simp only: and_shift_eq_0 not_False_eq_True if_True Suc_eq_plus1)
    with step.IH False show ?thesis by (metis Suc_leD le_antisym not_less_eq_eq)
  qed
qed

lemma low_bits_set: "(imm5 :: u32) AND 15 \<noteq> 0 \<Longrightarrow> \<exists>k < 4. bit imm5 k"
proof -
  assume "imm5 AND 15 \<noteq> 0"
  then obtain k where "bit (imm5 AND 15) k" using nonzero_word_bit by blast
  moreover have "(15 :: u32) = mask 4" by (simp add: mask_eq_exp_minus_1)
  ultimately show ?thesis by (auto simp only: bit_and_iff bit_mask_iff)
qed

lemma length_half [simp]: "length (bank_v (bank_set_half bank reg h w)) = length (bank_v bank)"
  by (simp add: bank_set_half_def)

lemma write_lane_service: "fp_service_ok bank x (NC_FP_OK, write_lane bank reg lane bits v, x)"
  by (simp add: write_lane_def bank_set_half_def Let_def)

lemma copy_service: "\<exists>r. nc_simd_execute_copy bank x w present el cpacr higher = Some r \<and> fp_service_ok bank x r"
proof (cases "copy_decode w = None \<or> (drop_bit 16 w AND 31) AND 15 = 0")
  case True
  then show ?thesis by (auto simp: nc_simd_execute_copy_def Let_def split: option.split)
next
  case False
  then obtain oper where oper: "copy_decode w = Some oper" by auto
  obtain sz where sz: "copy_size (drop_bit 16 w AND 31) 0 = Some sz"
    using low_bits_set [of "drop_bit 16 w AND 31"] copy_size_returns [of _ _ 0] False by (metis le0)
  show ?thesis using False write_lane_service
    unfolding nc_simd_execute_copy_def oper option.case Let_def sz
    by (cases oper) simp_all
qed

section \<open>Programs of services\<close>

text \<open>
  The contract of an instruction service, and what it gives for a sequence of instructions: the sequence
  runs to its end and leaves a well-formed bank.
\<close>

fun fp_program :: "('i \<Rightarrow> nc_fp_bank \<Rightarrow> u64 list \<Rightarrow> (nc_fp_result \<times> nc_fp_bank \<times> u64 list) option) \<Rightarrow>
    'i list \<Rightarrow> nc_fp_bank \<Rightarrow> u64 list \<Rightarrow> (nc_fp_bank \<times> u64 list) option" where
  "fp_program exec [] bank x = Some (bank, x)"
| "fp_program exec (i # is) bank x =
     (case exec i bank x of None \<Rightarrow> None | Some (r, bank', x') \<Rightarrow> fp_program exec is bank' x')"

locale fp_services =
  fixes exec :: "'i \<Rightarrow> nc_fp_bank \<Rightarrow> u64 list \<Rightarrow> (nc_fp_result \<times> nc_fp_bank \<times> u64 list) option"
  assumes service_returns: "\<exists>r. exec i bank x = Some r \<and> fp_service_ok bank x r"
begin

lemma program_returns:
  "bank_ok bank \<Longrightarrow> \<exists>bank' x'. fp_program exec is bank x = Some (bank', x') \<and> bank_ok bank' \<and> length x' = length x"
proof (induction "is" arbitrary: bank x)
  case (Cons i "is")
  obtain r b y where e: "exec i bank x = Some (r, b, y)" "fp_service_ok bank x (r, b, y)"
    using service_returns [of i bank x] by auto
  then have "bank_ok b" "length y = length x" using Cons.prems by (auto simp: fp_service_ok_def)
  with Cons.IH [of b y] e(1) show ?case by simp
qed simp

lemma rejected_unchanged:
  "exec i bank x = Some (r, bank', x') \<Longrightarrow> r \<noteq> NC_FP_OK \<Longrightarrow> bank' = bank \<and> x' = x"
  using service_returns [of i bank x] by (auto simp: fp_service_ok_def)

end

text \<open>The services with the access context they are called in.\<close>

record fp_context =
  cx_present :: nat
  cx_el :: nat
  cx_cpacr :: u64
  cx_higher :: nat

datatype fp_service = Control u32 | Scalar u32 | Bitwise u32 | Eor u32 | Transfer u32 | Copy u32

fun fp_execute :: "fp_context \<times> fp_service \<Rightarrow> nc_fp_bank \<Rightarrow> u64 list \<Rightarrow> (nc_fp_result \<times> nc_fp_bank \<times> u64 list) option" where
  "fp_execute (c, Control w) bank x = Some (nc_fp_execute_control bank x w (cx_present c) (cx_el c) (cx_cpacr c) (cx_higher c))"
| "fp_execute (c, Scalar w) bank x = nc_fp_execute32 bank x w"
| "fp_execute (c, Bitwise w) bank x =
     Some (case nc_simd_execute_bitwise bank w (cx_present c) (cx_el c) (cx_cpacr c) (cx_higher c) of (r, b) \<Rightarrow> (r, b, x))"
| "fp_execute (c, Eor w) bank x =
     Some (case nc_simd_execute_eor bank w (cx_present c) (cx_el c) (cx_cpacr c) (cx_higher c) of (r, b) \<Rightarrow> (r, b, x))"
| "fp_execute (c, Transfer w) bank x =
     Some (nc_simd_transfer_execute bank x w (cx_present c) (cx_el c) (cx_cpacr c) (cx_higher c))"
| "fp_execute (c, Copy w) bank x = nc_simd_execute_copy bank x w (cx_present c) (cx_el c) (cx_cpacr c) (cx_higher c)"

interpretation guest_fp: fp_services fp_execute
proof
  fix i :: "fp_context \<times> fp_service" and bank x
  obtain c s where i: "i = (c, s)" by (cases i)
  show "\<exists>r. fp_execute i bank x = Some r \<and> fp_service_ok bank x r"
  proof (cases s)
    case (Scalar w)
    then show ?thesis unfolding i by (simp only: fp_execute.simps execute32_service)
  next
    case (Copy w)
    then show ?thesis unfolding i by (simp only: fp_execute.simps copy_service)
  qed (auto simp: i control_service transfer_service split: prod.split intro: bitwise_service)
qed

text \<open>C28. Every sequence of floating-point and vector instructions, legal or not, in any access context, runs to its
end: each service returns, the bank keeps its 32 registers and only representable control and status bits, and the
general registers keep their number. A service that answers anything but success has changed nothing.
\<close>
theorem fp_services_closed:
  assumes "bank_ok bank"
  shows "(\<exists>bank' x'. fp_program fp_execute is bank x = Some (bank', x') \<and> bank_ok bank' \<and> length x' = length x)
    \<and> (\<exists>r bank' x'. fp_execute (c, s) bank x = Some (r, bank', x') \<and> (r \<noteq> NC_FP_OK \<longrightarrow> bank' = bank \<and> x' = x))"
proof -
  obtain r b y where "fp_execute (c, s) bank x = Some (r, b, y)" using guest_fp.service_returns [of "(c, s)" bank x] by auto
  then show ?thesis using guest_fp.program_returns [OF assms, of "is" x] guest_fp.rejected_unchanged by blast
qed

definition fp_demo_bank :: nc_fp_bank where
  "fp_demo_bank = \<lparr>bank_v = replicate 32 (0, 0), fpcr = 0, fpsr = 0\<rparr>"

theorem fp_services_closed_witness:
  "bank_ok fp_demo_bank
   \<and> (\<exists>bank' x'. fp_program fp_execute [(\<lparr>cx_present = 1, cx_el = 1, cx_cpacr = 0x300000, cx_higher = 0\<rparr>, Scalar 0x1e202800)]
        fp_demo_bank (replicate 31 7) = Some (bank', x') \<and> bank_ok bank' \<and> length x' = 31)"
proof -
  have b: "bank_ok fp_demo_bank" by (simp add: bank_ok_def fp_demo_bank_def bank_malformed_def)
  show ?thesis
    using b fp_services_closed [OF b, of "[(\<lparr>cx_present = 1, cx_el = 1, cx_cpacr = 0x300000, cx_higher = 0\<rparr>, Scalar 0x1e202800)]" "replicate 31 7"]
    by (simp only: length_replicate)
qed

section \<open>Lanes\<close>

definition bank_bit :: "nc_fp_bank \<Rightarrow> nat \<Rightarrow> nat \<Rightarrow> bool" where
  "bank_bit bank reg n = bit (bank_half bank reg (n div 64)) (n mod 64)"

lemma bit_lane_mask: "0 < bits \<Longrightarrow> bits \<le> 64 \<Longrightarrow> bit (lane_mask bits) n \<longleftrightarrow> n < bits"
proof -
  assume b: "0 < bits" "bits \<le> 64"
  have "lane_mask bits = mask bits" using b by (auto simp: lane_mask_def mask_eq_exp_minus_1 push_bit_of_1)
  then show ?thesis using b by (auto simp: bit_mask_iff)
qed

text \<open>A lane of width 8, 16, 32 or 64 never straddles the halves.\<close>

lemma lane_fits:
  fixes bits lane j :: nat
  assumes "bits dvd 64" "lane * bits < 128"
  shows "lane * bits mod 64 + bits \<le> 64" "j < bits \<Longrightarrow> (lane * bits + j) div 64 = lane * bits div 64 \<and> (lane * bits + j) mod 64 = lane * bits mod 64 + j"
proof -
  obtain k where "64 = bits * k" using assms(1) by (rule dvdE)
  then have k: "64 = k * bits" by (simp add: mult.commute)
  then have "0 < k" by (cases k) auto
  have "lane * bits mod 64 = (lane mod k) * bits" unfolding k by (simp add: mult_mod_left)
  moreover have "(lane mod k) * bits + bits \<le> k * bits" 
    using mult_le_mono1 [of "Suc (lane mod k)" k bits] mod_less_divisor [OF \<open>0 < k\<close>, of lane] by simp
  ultimately show f: "lane * bits mod 64 + bits \<le> 64" unfolding k [symmetric] by linarith
  assume j: "j < bits"
  define d m where "d = lane * bits div 64" and "m = lane * bits mod 64"
  have "lane * bits = d * 64 + m" unfolding d_def m_def by (rule div_mult_mod_eq [symmetric])
  then have e: "lane * bits + j = (m + j) + d * 64" by simp
  have "m + j < 64" using f j by (simp add: m_def)
  then show "(lane * bits + j) div 64 = lane * bits div 64 \<and> (lane * bits + j) mod 64 = lane * bits mod 64 + j"
    unfolding e d_def [symmetric] m_def [symmetric] by (simp only: div_mult_self1 mod_mult_self1) simp
qed

lemma read_lane_bits:
  assumes "bits dvd 64" "lane * bits < 128"
  shows "bit (read_lane bank reg lane bits) j \<longleftrightarrow> j < bits \<and> bank_bit bank reg (lane * bits + j)"
proof -
  have b: "0 < bits" "bits \<le> 64" using assms(1) dvd_imp_le [of bits 64] by (auto intro: Nat.gr0I)
  show ?thesis
  proof (cases "j < bits")
    case True
    then show ?thesis using lane_fits(2) [OF assms True] b
      by (simp add: read_lane_def Let_def bank_bit_def bit_and_iff bit_drop_bit_eq bit_lane_mask)
  qed (simp add: read_lane_def Let_def bit_and_iff bit_lane_mask b)
qed

lemma write_lane_bits:
  assumes "bits dvd 64" "lane * bits < 128" "reg < length (bank_v bank)" "n < 128"
  shows "bank_bit (write_lane bank reg lane bits v) reg' n =
    (if reg' = reg \<and> lane * bits \<le> n \<and> n < lane * bits + bits then bit v (n - lane * bits) else bank_bit bank reg' n)"
proof -
  have b: "0 < bits" "bits \<le> 64" using assms(1) dvd_imp_le [of bits 64] by (auto intro: Nat.gr0I)
  define h s where "h = lane * bits div 64" and "s = lane * bits mod 64"
  have off: "lane * bits = 64 * h + s" "s < 64" by (simp_all add: h_def s_def)
  have fit: "s + bits \<le> 64" using lane_fits(1) [OF assms(1,2)] by (simp add: s_def)
  have h2: "h < 2" using assms(2) off by simp
  have half: "bank_half (write_lane bank reg lane bits v) reg' k =
      (if reg' = reg \<and> k = h then (bank_half bank reg h AND NOT (push_bit s (lane_mask bits))) OR push_bit s (v AND lane_mask bits)
       else bank_half bank reg' k)" if "k < 2" for k
    using assms(3) that h2 by (auto simp: write_lane_def Let_def bank_set_half_def bank_half_def nth_list_update h_def [symmetric] s_def [symmetric])
  have inlane: "n div 64 = h \<and> s \<le> n mod 64 \<and> n mod 64 < s + bits \<longleftrightarrow> lane * bits \<le> n \<and> n < lane * bits + bits"
  proof -
    have n: "n = 64 * (n div 64) + n mod 64" "n mod 64 < 64" by simp_all
    consider "n div 64 < h" | "n div 64 = h" | "h < n div 64" by linarith
    then show ?thesis
    proof cases
      case 2
      then show ?thesis using n off by linarith
    qed (use n off fit in linarith)+
  qed
  have "n mod 64 - s = n - lane * bits" if "n div 64 = h" "s \<le> n mod 64"
    using that off div_mult_mod_eq [of n 64] by linarith
  moreover have "n div 64 < 2" using assms(4) by simp
  ultimately show ?thesis using inlane b
    by (auto simp: bank_bit_def half bit_or_iff bit_and_iff bit_not_iff bit_push_bit_iff bit_lane_mask)
qed

lemma lanes_disjoint:
  fixes bits lane lane' j :: nat
  assumes "lane' \<noteq> lane" "j < bits"
  shows "\<not> (lane * bits \<le> lane' * bits + j \<and> lane' * bits + j < lane * bits + bits)"
proof (cases "lane' < lane")
  case True
  then have "Suc lane' * bits \<le> lane * bits" by (intro mult_le_mono1) simp
  with assms(2) show ?thesis by simp
next
  case False
  with assms(1) have "Suc lane * bits \<le> lane' * bits" by (intro mult_le_mono1) simp
  then show ?thesis by simp
qed

lemma lane_range:
  fixes bits lane j :: nat
  assumes "bits dvd 64" "lane * bits < 128" "j < bits"
  shows "lane * bits + j < 128"
proof -
  have "(lane * bits + j) div 64 = lane * bits div 64" using lane_fits(2) [OF assms] by simp
  moreover have "lane * bits div 64 < 2" using assms(2) by simp
  ultimately have "(lane * bits + j) div 64 < 2" by simp
  then show ?thesis by (simp add: div_less_iff_less_mult)
qed

text \<open>Vector lanes are independent: writing a lane of width 8, 16, 32 or 64 stores exactly the low bits of the
value there, and every other lane of that width, in this and in the other registers, keeps its value.
\<close>
theorem simd_lane_exact:
  assumes "bits dvd 64" "lane * bits < 128" "reg < length (bank_v bank)"
  shows "read_lane (write_lane bank reg lane bits v) reg lane bits = v AND lane_mask bits
    \<and> (\<forall>reg' lane'. lane' * bits < 128 \<and> (reg', lane') \<noteq> (reg, lane) \<longrightarrow>
         read_lane (write_lane bank reg lane bits v) reg' lane' bits = read_lane bank reg' lane' bits)"
proof -
  have b: "0 < bits" "bits \<le> 64" using assms(1) dvd_imp_le [of bits 64] by (auto intro: Nat.gr0I)
  have "read_lane (write_lane bank reg lane bits v) reg lane bits = v AND lane_mask bits"
    using lane_range [OF assms(1,2)] b
    by (intro bit_word_eqI) (auto simp: read_lane_bits [OF assms(1,2)] write_lane_bits [OF assms] bit_and_iff bit_lane_mask)
  moreover have other: "read_lane (write_lane bank reg lane bits v) reg' lane' bits = read_lane bank reg' lane' bits"
    if "lane' * bits < 128" "(reg', lane') \<noteq> (reg, lane)" for reg' lane'
  proof (rule bit_word_eqI)
    fix j
    show "bit (read_lane (write_lane bank reg lane bits v) reg' lane' bits) j = bit (read_lane bank reg' lane' bits) j"
    proof (cases "j < bits")
      case True
      then have "reg' \<noteq> reg \<or> \<not> (lane * bits \<le> lane' * bits + j \<and> lane' * bits + j < lane * bits + bits)"
        using that(2) lanes_disjoint [of lane' lane j bits] by (cases "reg' = reg") simp_all
      then show ?thesis
        unfolding read_lane_bits [OF assms(1) that(1)] write_lane_bits [OF assms lane_range [OF assms(1) that(1) True]] by auto
    qed (simp add: read_lane_bits [OF assms(1) that(1)])
  qed
  ultimately show ?thesis by (intro conjI allI impI) (assumption, elim conjE, rule other)
qed

theorem simd_lane_exact_witness:
  "read_lane (write_lane fp_demo_bank 3 5 16 0x12345) 3 5 16 = 0x2345
   \<and> read_lane (write_lane fp_demo_bank 3 5 16 0x12345) 3 4 16 = read_lane fp_demo_bank 3 4 16"
proof -
  have a: "(16 :: nat) dvd 64" "(5 :: nat) * 16 < 128" "3 < length (bank_v fp_demo_bank)" by (simp_all add: fp_demo_bank_def)
  have m: "0x12345 AND lane_mask 16 = 0x2345" by (simp add: lane_mask_def)
  show ?thesis using simd_lane_exact [OF a, of "0x12345"] unfolding m by auto
qed

section \<open>Memory\<close>

text \<open>The load and store as the architecture has them, apart from the code: the encodings with a displacement of twelve unsigned
  bits in units of 16 bytes or of nine signed bits; the latter with no write-back, after the access (post-index) or
  before it (pre-index).\<close>

definition q_legal :: "u32 \<Rightarrow> bool" where
  "q_legal w \<longleftrightarrow> w AND 0xff800000 = 0x3d800000 \<or> w AND 0xffa00000 = 0x3c800000 \<and> (bit w 11 \<longrightarrow> bit w 10)"

definition q_displacement :: "u32 \<Rightarrow> int" where
  "q_displacement w = (if bit w 24 then 16 * uint (ucast (drop_bit 10 w) :: 12 word) else sint (ucast (drop_bit 12 w) :: 9 word))"

definition q_writes_back :: "u32 \<Rightarrow> bool" where
  "q_writes_back w \<longleftrightarrow> \<not> bit w 24 \<and> bit w 10"

definition q_post_index :: "u32 \<Rightarrow> bool" where
  "q_post_index w \<longleftrightarrow> q_writes_back w \<and> \<not> bit w 11"

lemma low_two: "unat (drop_bit 10 w AND 3 :: u32) = of_bool (bit w 10) + 2 * of_bool (bit w 11)"
proof -
  have m: "(3 :: u32) = mask 2" by (simp add: mask_eq_exp_minus_1)
  have "unat (drop_bit 10 w AND 3 :: u32) = unat w div 2 ^ 10 mod 4"
    unfolding m take_bit_eq_mask [symmetric] unsigned_take_bit_eq unsigned_drop_bit_eq
    using unat_lt2p [of w] by (simp add: take_bit_eq_mod drop_bit_eq_div)
  moreover have b: "bit w n = odd (unat w div 2 ^ n)" for n
    using bit_iff_odd [of "unat w" n] by (simp add: bit_unsigned_iff)
  have "bit w 10 = odd (unat w div 2 ^ 10)" "bit w 11 = odd (unat w div 2 ^ 10 div 2)"
    by (simp_all add: b flip: div_mult2_eq)
  moreover have "n mod 4 = of_bool (odd n) + 2 * of_bool (odd (n div 2))" for n :: nat
    unfolding of_bool_def by presburger
  ultimately show ?thesis by simp
qed

lemma imm12: "push_bit 4 (ucast (drop_bit 10 w AND 4095)) = (of_int (16 * uint (ucast (drop_bit 10 (w :: u32)) :: 12 word)) :: u64)"
proof -
  have m: "(4095 :: u32) = mask 12" by (simp add: mask_eq_exp_minus_1)
  have "(of_int (uint (ucast (drop_bit 10 w) :: 12 word)) :: u64) = ucast (drop_bit 10 w AND 4095)"
    unfolding m by (rule bit_word_eqI) (auto simp: bit_simps)
  then show ?thesis by (simp add: push_bit_eq_mult)
qed

lemma imm9:
  fixes w :: u32
  defines "i \<equiv> drop_bit 12 w AND 511"
  shows "int (unat i) - (if i AND 256 \<noteq> 0 then 512 else 0) = sint (ucast (drop_bit 12 w) :: 9 word)"
proof -
  have m: "(511 :: u32) = mask 9" by (simp add: mask_eq_exp_minus_1)
  have u: "int (unat i) = take_bit 9 (uint (drop_bit 12 w))"
    unfolding i_def m take_bit_eq_mask [symmetric] by (simp add: unsigned_take_bit_eq of_nat_take_bit)
  have b: "i AND 256 \<noteq> 0 \<longleftrightarrow> bit (uint (drop_bit 12 w)) 8"
    by (simp add: and_flag_eq_0 [of 256 8] i_def m bit_simps)
  have "sint (ucast (drop_bit 12 w) :: 9 word) = signed_take_bit 8 (uint (drop_bit 12 w))"
    by (simp add: sint_uint unsigned_ucast_eq signed_take_bit_take_bit)
  then show ?thesis
    unfolding u b by (simp add: signed_take_bit_eq_take_bit_minus)
qed

lemma q_mode_bits:
  "unat (drop_bit 10 w AND 3 :: u32) = 2 \<longleftrightarrow> bit w 11 \<and> \<not> bit w 10"
  "unat (drop_bit 10 w AND 3 :: u32) = 1 \<longleftrightarrow> bit w 10 \<and> \<not> bit w 11"
  "unat (drop_bit 10 w AND 3 :: u32) = 0 \<longleftrightarrow> \<not> bit w 10 \<and> \<not> bit w 11"
  unfolding low_two by (auto simp: of_bool_def split: if_splits)

lemma q_kind:
  "w AND 0xff800000 = 0x3d800000 \<Longrightarrow> bit (w :: u32) 24" "w AND 0xffa00000 = 0x3c800000 \<Longrightarrow> \<not> bit w 24"
proof -
  have a: "bit (w AND 0xff800000) 24 = bit w 24" "bit (w AND 0xffa00000) 24 = bit w 24"
    by (simp_all add: bit_and_iff)
  show "w AND 0xff800000 = 0x3d800000 \<Longrightarrow> bit w 24" using a(1) by simp
  show "w AND 0xffa00000 = 0x3c800000 \<Longrightarrow> \<not> bit w 24" using a(2) by simp
qed

lemma q_decode_exact:
  "q_memory_decode w =
     (if q_legal w then Some (of_int (q_displacement w), if bit w 24 then 0 else unat (drop_bit 10 w AND 3)) else None)"
  using q_kind [of w] q_mode_bits(1) [of w]
  unfolding q_memory_decode_def Let_def imm12 imm9 by (auto simp: q_legal_def q_displacement_def)

lemma q_decode_mode:
  assumes "q_memory_decode w = Some (offset, mode)"
  shows "q_legal w" "offset = of_int (q_displacement w)" "mode = 1 \<longleftrightarrow> q_post_index w" "mode \<noteq> 0 \<longleftrightarrow> q_writes_back w"
  using assms q_mode_bits [of w]
  by (auto simp: q_decode_exact q_post_index_def q_writes_back_def q_legal_def q_kind split: if_splits)

text \<open>The base register, 31 being the stack pointer; the address; and the registers after the write-back.\<close>

definition q_base :: "nc_simd_gprs \<Rightarrow> u32 \<Rightarrow> u64" where
  "q_base g w = (if drop_bit 5 w AND 31 = 31 then gsp g else gx g ! unat (drop_bit 5 w AND 31))"

definition q_address :: "nc_simd_gprs \<Rightarrow> u32 \<Rightarrow> u64" where
  "q_address g w = (if q_post_index w then q_base g w else q_base g w + of_int (q_displacement w))"

definition q_registers :: "nc_simd_gprs \<Rightarrow> u32 \<Rightarrow> nc_simd_gprs" where
  "q_registers g w =
     (if q_writes_back w then
        (if drop_bit 5 w AND 31 = 31 then g\<lparr>gsp := q_base g w + of_int (q_displacement w)\<rparr>
         else g\<lparr>gx := (gx g)[unat (drop_bit 5 w AND 31) := q_base g w + of_int (q_displacement w)]\<rparr>)
      else g)"

text \<open>When the access succeeds: the encoding is legal, the registers may be accessed, the arguments are sound, and the sixteen
  bytes are aligned as asked and lie in a view with the right permission.\<close>

definition q_permitted :: "nc_fp_bank \<Rightarrow> nc_simd_gprs \<Rightarrow> nc_simd_memory \<Rightarrow> u32 \<Rightarrow> nat \<Rightarrow> nat \<Rightarrow> u64 \<Rightarrow> nat \<Rightarrow> bool" where
  "q_permitted bank g m w present el cpacr higher \<longleftrightarrow>
     q_legal w \<and> nc_fp_access_check present el cpacr higher = NC_FP_OK \<and> \<not> bank_malformed bank
     \<and> \<not> memory_view_bad m \<and> big_endian m = 0
     \<and> (drop_bit 5 w AND 31 = 31 \<and> sp_alignment m \<noteq> 0 \<longrightarrow> 16 dvd unat (gsp g))
     \<and> (data_alignment m \<noteq> 0 \<longrightarrow> 16 dvd unat (q_address g w))
     \<and> (if bit w 22 then readable m else writable m) \<noteq> 0
     \<and> unat (guest_base m) \<le> unat (q_address g w)
     \<and> unat (q_address g w) + 16 \<le> unat (guest_base m) + length (sm_bytes m)"

lemma and_15: "x AND 15 = 0 \<longleftrightarrow> 16 dvd unat (x :: u64)"
proof -
  have m: "(15 :: u64) = mask 4" by (simp add: mask_eq_exp_minus_1)
  have "x AND 15 = 0 \<longleftrightarrow> unat (take_bit 4 x) = 0" unfolding m take_bit_eq_mask [symmetric] by (simp add: unsigned_eq_0_iff)
  then show ?thesis by (simp add: take_bit_eq_mod dvd_eq_mod_eq_0 unat_mod_distrib)
qed

text \<open>The last three guards of the code together say that the sixteen bytes lie in the view.\<close>

lemma q_window:
  assumes "\<not> memory_view_bad m"
  shows "\<not> (address > - 1 - 15 \<or> address < guest_base m)
      \<and> \<not> (length (sm_bytes m) < 16 \<or> unat (address - guest_base m) > length (sm_bytes m) - 16)
    \<longleftrightarrow> unat (guest_base m) \<le> unat address \<and> unat address + 16 \<le> unat (guest_base m) + length (sm_bytes m)"
proof -
  have top: "unat (- 1 - guest_base m) = 2 ^ 64 - 1 - unat (guest_base m)"
    by (subst unat_sub) (simp_all add: unsigned_minus_1_eq_mask mask_eq_exp_minus_1)
  have room: "unat (guest_base m) + length (sm_bytes m) \<le> 2 ^ 64" "sm_bytes m \<noteq> []"
    using assms unat_lt2p [of "guest_base m"] unfolding memory_view_bad_def top by auto
  have high: "address > - 1 - 15 \<longleftrightarrow> unat address > 2 ^ 64 - 16" by (simp add: word_less_nat_alt)
  have low: "address < guest_base m \<longleftrightarrow> unat address < unat (guest_base m)" by (simp add: word_less_nat_alt)
  have off: "unat (address - guest_base m) = unat address - unat (guest_base m)" if "unat (guest_base m) \<le> unat address"
    using that by (simp add: unat_sub word_le_nat_alt)
  show ?thesis
  proof (cases "unat (guest_base m) \<le> unat address")
    case True
    show ?thesis unfolding high low off [OF True] using True room by auto
  qed (simp add: high low)
qed

text \<open>The transfer at an offset of the view.\<close>

definition q_transfer :: "nc_fp_bank \<Rightarrow> nc_simd_memory \<Rightarrow> u32 \<Rightarrow> nat \<Rightarrow> nc_fp_bank \<times> nc_simd_memory" where
  "q_transfer bank m w i =
     (if bit w 22
      then (bank\<lparr>bank_v := (bank_v bank)[unat (w AND 31) := (get_le64 (drop i (sm_bytes m)), get_le64 (drop (i + 8) (sm_bytes m)))]\<rparr>, m)
      else (bank, m\<lparr>sm_bytes := splice (sm_bytes m) i
        (put_le64 (fst (bank_v bank ! unat (w AND 31))) @ put_le64 (snd (bank_v bank ! unat (w AND 31))))\<rparr>))"

lemma q_memory_exact:
  "if q_permitted bank g m w present el cpacr higher
   then nc_simd_execute_q_memory bank g m w present el cpacr higher =
     (case q_transfer bank m w (unat (q_address g w - guest_base m)) of (b, n) \<Rightarrow> (NC_SIMD_MEM_OK, b, q_registers g w, n))
   else \<exists>x. x \<noteq> NC_SIMD_MEM_OK \<and> nc_simd_execute_q_memory bank g m w present el cpacr higher = (x, bank, g, m)"
proof (cases "q_memory_decode w")
  case None
  then have "\<not> q_permitted bank g m w present el cpacr higher" by (auto simp: q_decode_exact q_permitted_def split: if_splits)
  with None show ?thesis by (simp add: nc_simd_execute_q_memory_def)
next
  case (Some d)
  obtain offset mode where d: "q_memory_decode w = Some (offset, mode)" using Some by (cases d) auto
  note dm = q_decode_mode [OF d]
  have b: "drop_bit 22 w AND 1 \<noteq> 0 \<longleftrightarrow> bit w 22" by (simp add: word_and_1_eq_0 bit_drop_bit_eq)
  have rn: "unat (drop_bit 5 w AND 31) = 31 \<longleftrightarrow> drop_bit 5 w AND 31 = 31"
    using word_unat_eq_iff [of "drop_bit 5 w AND 31" 31] by simp
  have chk: "mem_result_of r \<noteq> NC_SIMD_MEM_OK" if "r \<noteq> NC_FP_OK" for r using that by (cases r) (simp_all add: mem_result_of_def)
  define perm where "perm = q_permitted bank g m w present el cpacr higher"
  have perm: "perm \<longleftrightarrow> \<not> nc_fp_access_check present el cpacr higher \<noteq> NC_FP_OK \<and> \<not> bank_malformed bank \<and> \<not> memory_view_bad m
      \<and> \<not> big_endian m \<noteq> 0 \<and> \<not> (drop_bit 5 w AND 31 = 31 \<and> sp_alignment m \<noteq> 0 \<and> q_base g w AND 15 \<noteq> 0)
      \<and> \<not> (data_alignment m \<noteq> 0 \<and> q_address g w AND 15 \<noteq> 0)
      \<and> \<not> ((if bit w 22 then readable m = 0 else writable m = 0) \<or> q_address g w > - 1 - 15 \<or> q_address g w < guest_base m)
      \<and> \<not> (length (sm_bytes m) < 16 \<or> unat (q_address g w - guest_base m) > length (sm_bytes m) - 16)"
    using q_window [of m "q_address g w"] dm(1) by (auto simp: perm_def q_permitted_def and_15 q_base_def)
  let ?P = "\<lambda>r. if perm then r = (case q_transfer bank m w (unat (q_address g w - guest_base m)) of
      (b, n) \<Rightarrow> (NC_SIMD_MEM_OK, b, q_registers g w, n)) else \<exists>x. x \<noteq> NC_SIMD_MEM_OK \<and> r = (x, bank, g, m)"
  have bad: "x \<noteq> NC_SIMD_MEM_OK \<Longrightarrow> \<not> perm \<Longrightarrow> ?P (x, bank, g, m)" for x by simp
  show ?thesis
    unfolding perm_def [symmetric] nc_simd_execute_q_memory_def d option.case prod.case Let_def b rn dm
      q_base_def [symmetric] q_address_def [symmetric] q_registers_def [symmetric] q_transfer_def [symmetric]
    by (intro if_arm [where P = ?P], rule bad, erule chk, simp add: perm, (rule bad, simp, simp only: perm simp_thms)+,
        simp only: perm if_True simp_thms)
qed

text \<open>C29. The 128-bit load and store are exact. They succeed exactly if the encoding is legal, the registers may be accessed, the
  bank and the view are well formed and little-endian, the stack pointer and the address are aligned where that is checked,
  and the sixteen bytes at the address of the access lie in a view that may be read or written. That address is the base plus
  the displacement of the encoding, or the base alone if it is post-indexed. A success moves the sixteen bytes at just that address
  between the view and one vector register, and writes the base plus the displacement back to the base register (the stack
  pointer for 31) if the encoding is indexed and changes no general register if it is not; the control and status registers are kept.
  Any other result changes nothing at all.\<close>

theorem simd_q_memory_exact:
  assumes "nc_simd_execute_q_memory bank g m w present el cpacr higher = (res, bank', g', m')"
  shows "(res \<noteq> NC_SIMD_MEM_OK \<longrightarrow> bank' = bank \<and> g' = g \<and> m' = m)
    \<and> (res = NC_SIMD_MEM_OK \<longleftrightarrow> q_permitted bank g m w present el cpacr higher)
    \<and> (res = NC_SIMD_MEM_OK \<longrightarrow> g' = q_registers g w \<and>
        (let i = unat (q_address g w) - unat (guest_base m) in
         i + 16 \<le> length (sm_bytes m) \<and>
         (if bit w 22
          then m' = m \<and> readable m \<noteq> 0 \<and> bank' = bank\<lparr>bank_v := (bank_v bank)[unat (w AND 31) :=
                 (get_le64 (drop i (sm_bytes m)), get_le64 (drop (i + 8) (sm_bytes m)))]\<rparr>
          else bank' = bank \<and> writable m \<noteq> 0 \<and> m' = m\<lparr>sm_bytes := splice (sm_bytes m) i
                 (put_le64 (fst (bank_v bank ! unat (w AND 31))) @ put_le64 (snd (bank_v bank ! unat (w AND 31))))\<rparr>)))"
proof (cases "q_permitted bank g m w present el cpacr higher")
  case True
  then have i: "unat (q_address g w - guest_base m) = unat (q_address g w) - unat (guest_base m)"
    "unat (q_address g w) - unat (guest_base m) + 16 \<le> length (sm_bytes m)"
    "if bit w 22 then readable m \<noteq> 0 else writable m \<noteq> 0"
    by (auto simp: q_permitted_def unat_sub word_le_nat_alt)
  show ?thesis
    using q_memory_exact [of bank g m w present el cpacr higher] True i
    unfolding assms Let_def by (auto simp: q_transfer_def split: if_splits)
next
  case False
  then show ?thesis using q_memory_exact [of bank g m w present el cpacr higher] unfolding assms by auto
qed

definition simd_demo_memory :: nc_simd_memory where
  "simd_demo_memory = \<lparr>sm_bytes = replicate 32 9, guest_base = 0x1000, readable = 1, writable = 1, sp_alignment = 1,
     data_alignment = 0, big_endian = 0\<rparr>"

definition simd_demo_gprs :: nc_simd_gprs where
  "simd_demo_gprs = \<lparr>gx = replicate 31 0x1010, gsp = 0x1000\<rparr>"

text \<open>A post-indexed store of register 0 to the address in x1, which steps back by 16 bytes.\<close>

theorem simd_q_memory_exact_witness:
  "\<exists>m'. nc_simd_execute_q_memory fp_demo_bank simd_demo_gprs simd_demo_memory 0x3c9f0420 1 1 0x300000 0
       = (NC_SIMD_MEM_OK, fp_demo_bank, simd_demo_gprs\<lparr>gx := (replicate 31 0x1010)[1 := 0x1000]\<rparr>, m')
     \<and> sm_bytes m' = splice (replicate 32 9) 16 (replicate 16 0)"
proof -
  let ?w = "0x3c9f0420 :: u32"
  obtain res b g m where r: "nc_simd_execute_q_memory fp_demo_bank simd_demo_gprs simd_demo_memory ?w 1 1 0x300000 0 = (res, b, g, m)"
    by (metis prod_cases4)
  have d: "q_displacement ?w = -16" "q_writes_back ?w" "q_post_index ?w" "\<not> bit ?w 22" "q_legal ?w"
    by (simp_all add: q_displacement_def q_writes_back_def q_post_index_def q_legal_def)
  have a: "q_address simd_demo_gprs ?w = 0x1010"
    by (simp add: q_address_def d q_base_def simd_demo_gprs_def)
  have "q_permitted fp_demo_bank simd_demo_gprs simd_demo_memory ?w 1 1 0x300000 0"
    using d a by (simp add: q_permitted_def nc_fp_access_check_def bank_malformed_def memory_view_bad_def fp_demo_bank_def simd_demo_memory_def)
  then have "res = NC_SIMD_MEM_OK" using simd_q_memory_exact [OF r] by simp
  moreover have "q_registers simd_demo_gprs ?w = simd_demo_gprs\<lparr>gx := (replicate 31 0x1010)[1 := 0x1000]\<rparr>"
    by (simp add: q_registers_def q_base_def d simd_demo_gprs_def)
  moreover have "put_le64 0 @ put_le64 0 = replicate 16 0" by (simp add: put_le64_def numeral_eq_Suc)
  ultimately show ?thesis
    using simd_q_memory_exact [OF r] r d a by (auto simp: Let_def simd_demo_memory_def fp_demo_bank_def)
qed

end
