(* ===== verification/CpuState.thy ===== *)
theory CpuState
  imports Fp
begin

text \<open>
  The state of the guest processor as \<open>src/runtime/jit.h\<close> declares it, with its statuses, exception kinds
  and register keys. The operations on it are in the theory \<open>Cpu\<close>.
\<close>

section \<open>State\<close>

text \<open>Statuses of the execution layer, as the code numbers them.\<close>

abbreviation (input) VF_NEXT :: u32 where "VF_NEXT \<equiv> 0"
abbreviation (input) VF_HALT :: u32 where "VF_HALT \<equiv> 1"
abbreviation (input) VF_BAD_INSTRUCTION :: u32 where "VF_BAD_INSTRUCTION \<equiv> 2"
abbreviation (input) VF_FETCH_FAULT :: u32 where "VF_FETCH_FAULT \<equiv> 3"
abbreviation (input) VF_DATA_FAULT :: u32 where "VF_DATA_FAULT \<equiv> 4"
abbreviation (input) VF_BUDGET :: u32 where "VF_BUDGET \<equiv> 5"
abbreviation (input) VF_CODE_FULL :: u32 where "VF_CODE_FULL \<equiv> 6"
abbreviation (input) VF_PROTECTION :: u32 where "VF_PROTECTION \<equiv> 7"
abbreviation (input) VF_UNDEFINED_INSTRUCTION :: u32 where "VF_UNDEFINED_INSTRUCTION \<equiv> 8"
abbreviation (input) VF_PRIVILEGE_FAULT :: u32 where "VF_PRIVILEGE_FAULT \<equiv> 9"
abbreviation (input) VF_TRANSLATION_FAULT :: u32 where "VF_TRANSLATION_FAULT \<equiv> 10"
abbreviation (input) VF_PERMISSION_FAULT :: u32 where "VF_PERMISSION_FAULT \<equiv> 11"
abbreviation (input) VF_ALIGNMENT_FAULT :: u32 where "VF_ALIGNMENT_FAULT \<equiv> 12"
abbreviation (input) VF_SYSTEM_REGISTER_TRAP :: u32 where "VF_SYSTEM_REGISTER_TRAP \<equiv> 13"
abbreviation (input) VF_TIMER_INTERRUPT :: u32 where "VF_TIMER_INTERRUPT \<equiv> 14"
abbreviation (input) VF_EXTERNAL_INTERRUPT :: u32 where "VF_EXTERNAL_INTERRUPT \<equiv> 15"
abbreviation (input) VF_INSTRUCTION_ABORT :: u32 where "VF_INSTRUCTION_ABORT \<equiv> 16"
abbreviation (input) VF_DATA_ABORT :: u32 where "VF_DATA_ABORT \<equiv> 17"
abbreviation (input) VF_FIQ_INTERRUPT :: u32 where "VF_FIQ_INTERRUPT \<equiv> 18"
abbreviation (input) VF_SP_ALIGNMENT_FAULT :: u32 where "VF_SP_ALIGNMENT_FAULT \<equiv> 19"
abbreviation (input) VF_IMPLEMENTATION_GAP :: u32 where "VF_IMPLEMENTATION_GAP \<equiv> 20"
abbreviation (input) VF_FP_ACCESS_TRAP :: u32 where "VF_FP_ACCESS_TRAP \<equiv> 21"

datatype vf_exception_kind = VF_EXCEPTION_NONE | VF_EXCEPTION_UNDEFINED_INSTRUCTION | VF_EXCEPTION_PRIVILEGED_INSTRUCTION
  | VF_EXCEPTION_INSTRUCTION_ABORT | VF_EXCEPTION_DATA_ABORT | VF_EXCEPTION_TRANSLATION_FAULT
  | VF_EXCEPTION_PERMISSION_FAULT | VF_EXCEPTION_ALIGNMENT_FAULT | VF_EXCEPTION_SYSTEM_REGISTER_TRAP
  | VF_EXCEPTION_TIMER_INTERRUPT | VF_EXCEPTION_EXTERNAL_INTERRUPT | VF_EXCEPTION_FIQ_INTERRUPT
  | VF_EXCEPTION_SP_ALIGNMENT_FAULT | VF_EXCEPTION_FP_ACCESS

text \<open>The numbers of the enumeration: the state holds them in a plain 32-bit field.\<close>

fun exception_code :: "vf_exception_kind \<Rightarrow> u32" where
  "exception_code VF_EXCEPTION_NONE = 0"
| "exception_code VF_EXCEPTION_UNDEFINED_INSTRUCTION = 1"
| "exception_code VF_EXCEPTION_PRIVILEGED_INSTRUCTION = 2"
| "exception_code VF_EXCEPTION_INSTRUCTION_ABORT = 3"
| "exception_code VF_EXCEPTION_DATA_ABORT = 4"
| "exception_code VF_EXCEPTION_TRANSLATION_FAULT = 5"
| "exception_code VF_EXCEPTION_PERMISSION_FAULT = 6"
| "exception_code VF_EXCEPTION_ALIGNMENT_FAULT = 7"
| "exception_code VF_EXCEPTION_SYSTEM_REGISTER_TRAP = 8"
| "exception_code VF_EXCEPTION_TIMER_INTERRUPT = 9"
| "exception_code VF_EXCEPTION_EXTERNAL_INTERRUPT = 10"
| "exception_code VF_EXCEPTION_FIQ_INTERRUPT = 13"
| "exception_code VF_EXCEPTION_SP_ALIGNMENT_FAULT = 14"
| "exception_code VF_EXCEPTION_FP_ACCESS = 15"

datatype vf_sysreg_result = VF_SYSREG_OK | VF_SYSREG_UNKNOWN | VF_SYSREG_PRIVILEGE | VF_SYSREG_READ_ONLY
  | VF_SYSREG_INVALID_VALUE | VF_SYSREG_UNDEFINED

abbreviation (input) VF_EL0 :: u32 where "VF_EL0 \<equiv> 0"
abbreviation (input) VF_EL1 :: u32 where "VF_EL1 \<equiv> 1"
abbreviation (input) VF_EL2 :: u32 where "VF_EL2 \<equiv> 2"
abbreviation (input) VF_EL3 :: u32 where "VF_EL3 \<equiv> 3"

abbreviation (input) VF_ESR_EC_UNKNOWN :: u32 where "VF_ESR_EC_UNKNOWN \<equiv> 0x00"
abbreviation (input) VF_ESR_EC_SYSREG :: u32 where "VF_ESR_EC_SYSREG \<equiv> 0x18"
abbreviation (input) VF_ESR_EC_FP_ACCESS :: u32 where "VF_ESR_EC_FP_ACCESS \<equiv> 0x07"
abbreviation (input) VF_ESR_EC_IABT_LOWER :: u32 where "VF_ESR_EC_IABT_LOWER \<equiv> 0x20"
abbreviation (input) VF_ESR_EC_IABT_SAME :: u32 where "VF_ESR_EC_IABT_SAME \<equiv> 0x21"
abbreviation (input) VF_ESR_EC_DABT_LOWER :: u32 where "VF_ESR_EC_DABT_LOWER \<equiv> 0x24"
abbreviation (input) VF_ESR_EC_DABT_SAME :: u32 where "VF_ESR_EC_DABT_SAME \<equiv> 0x25"
abbreviation (input) VF_ESR_EC_PC_ALIGNMENT :: u32 where "VF_ESR_EC_PC_ALIGNMENT \<equiv> 0x22"
abbreviation (input) VF_ESR_FSC_TRANSLATION_L3 :: u32 where "VF_ESR_FSC_TRANSLATION_L3 \<equiv> 0x07"
abbreviation (input) VF_ESR_FSC_PERMISSION_L3 :: u32 where "VF_ESR_FSC_PERMISSION_L3 \<equiv> 0x0d"
abbreviation (input) VF_ESR_FSC_ALIGNMENT :: u32 where "VF_ESR_FSC_ALIGNMENT \<equiv> 0x21"
abbreviation (input) VF_TIMER_CTL_ENABLE :: u64 where "VF_TIMER_CTL_ENABLE \<equiv> 1"
abbreviation (input) VF_TIMER_CTL_IMASK :: u64 where "VF_TIMER_CTL_IMASK \<equiv> 2"
abbreviation (input) VF_TIMER_CTL_ISTATUS :: u64 where "VF_TIMER_CTL_ISTATUS \<equiv> 4"
abbreviation (input) VF_PSTATE_MODE_MASK :: u64 where "VF_PSTATE_MODE_MASK \<equiv> 0x0f"
abbreviation (input) VF_PSTATE_DAIF_MASK :: u64 where "VF_PSTATE_DAIF_MASK \<equiv> 0x3c0"

text \<open>Register keys.\<close>

abbreviation (input) VF_SYSREG_KEY_CNTFRQ_EL0 :: u32 where "VF_SYSREG_KEY_CNTFRQ_EL0 \<equiv> 0x5f00"
abbreviation (input) VF_SYSREG_KEY_CNTPCT_EL0 :: u32 where "VF_SYSREG_KEY_CNTPCT_EL0 \<equiv> 0x5f01"
abbreviation (input) VF_SYSREG_KEY_CNTVCT_EL0 :: u32 where "VF_SYSREG_KEY_CNTVCT_EL0 \<equiv> 0x5f02"
abbreviation (input) VF_SYSREG_KEY_CNTP_TVAL_EL0 :: u32 where "VF_SYSREG_KEY_CNTP_TVAL_EL0 \<equiv> 0x5f10"
abbreviation (input) VF_SYSREG_KEY_CNTP_CTL_EL0 :: u32 where "VF_SYSREG_KEY_CNTP_CTL_EL0 \<equiv> 0x5f11"
abbreviation (input) VF_SYSREG_KEY_CNTP_CVAL_EL0 :: u32 where "VF_SYSREG_KEY_CNTP_CVAL_EL0 \<equiv> 0x5f12"
abbreviation (input) VF_SYSREG_KEY_CNTV_CTL_EL0 :: u32 where "VF_SYSREG_KEY_CNTV_CTL_EL0 \<equiv> 0x5f19"
abbreviation (input) VF_SYSREG_KEY_CNTV_CVAL_EL0 :: u32 where "VF_SYSREG_KEY_CNTV_CVAL_EL0 \<equiv> 0x5f1a"
abbreviation (input) VF_SYSREG_KEY_CURRENT_EL :: u32 where "VF_SYSREG_KEY_CURRENT_EL \<equiv> 0x4212"
abbreviation (input) VF_SYSREG_KEY_TPIDR_EL0 :: u32 where "VF_SYSREG_KEY_TPIDR_EL0 \<equiv> 0x5e82"
abbreviation (input) VF_SYSREG_KEY_TPIDRRO_EL0 :: u32 where "VF_SYSREG_KEY_TPIDRRO_EL0 \<equiv> 0x5e83"
abbreviation (input) VF_SYSREG_KEY_TPIDR_EL1 :: u32 where "VF_SYSREG_KEY_TPIDR_EL1 \<equiv> 0x4684"
abbreviation (input) VF_SYSREG_KEY_ID_AA64ISAR1_EL1 :: u32 where "VF_SYSREG_KEY_ID_AA64ISAR1_EL1 \<equiv> 0x4031"
abbreviation (input) VF_SYSREG_KEY_ID_AA64ISAR3_EL1 :: u32 where "VF_SYSREG_KEY_ID_AA64ISAR3_EL1 \<equiv> 0x4033"
abbreviation (input) VF_SYSREG_KEY_ID_AA64PFR0_EL1 :: u32 where "VF_SYSREG_KEY_ID_AA64PFR0_EL1 \<equiv> 0x4020"
abbreviation (input) VF_SYSREG_KEY_ID_AA64PFR1_EL1 :: u32 where "VF_SYSREG_KEY_ID_AA64PFR1_EL1 \<equiv> 0x4021"
abbreviation (input) VF_SYSREG_KEY_ID_AA64PFR2_EL1 :: u32 where "VF_SYSREG_KEY_ID_AA64PFR2_EL1 \<equiv> 0x4022"
abbreviation (input) VF_SYSREG_KEY_FPCR :: u32 where "VF_SYSREG_KEY_FPCR \<equiv> 0x5a20"
abbreviation (input) VF_SYSREG_KEY_CPACR_EL1 :: u32 where "VF_SYSREG_KEY_CPACR_EL1 \<equiv> 0x4082"
abbreviation (input) VF_SYSREG_KEY_FPSR :: u32 where "VF_SYSREG_KEY_FPSR \<equiv> 0x5a21"
abbreviation (input) VF_SYSREG_KEY_ID_AA64MMFR0_EL1 :: u32 where "VF_SYSREG_KEY_ID_AA64MMFR0_EL1 \<equiv> 0x4038"
abbreviation (input) VF_SYSREG_KEY_ID_AA64MMFR1_EL1 :: u32 where "VF_SYSREG_KEY_ID_AA64MMFR1_EL1 \<equiv> 0x4039"
abbreviation (input) VF_SYSREG_KEY_ID_AA64MMFR2_EL1 :: u32 where "VF_SYSREG_KEY_ID_AA64MMFR2_EL1 \<equiv> 0x403a"
abbreviation (input) VF_SYSREG_KEY_SCTLR_EL1 :: u32 where "VF_SYSREG_KEY_SCTLR_EL1 \<equiv> 0x4080"
abbreviation (input) VF_SYSREG_KEY_TTBR0_EL1 :: u32 where "VF_SYSREG_KEY_TTBR0_EL1 \<equiv> 0x4100"
abbreviation (input) VF_SYSREG_KEY_TTBR1_EL1 :: u32 where "VF_SYSREG_KEY_TTBR1_EL1 \<equiv> 0x4101"
abbreviation (input) VF_SYSREG_KEY_TCR_EL1 :: u32 where "VF_SYSREG_KEY_TCR_EL1 \<equiv> 0x4102"
abbreviation (input) VF_SYSREG_KEY_SPSR_EL1 :: u32 where "VF_SYSREG_KEY_SPSR_EL1 \<equiv> 0x4200"
abbreviation (input) VF_SYSREG_KEY_ELR_EL1 :: u32 where "VF_SYSREG_KEY_ELR_EL1 \<equiv> 0x4201"
abbreviation (input) VF_SYSREG_KEY_ESR_EL1 :: u32 where "VF_SYSREG_KEY_ESR_EL1 \<equiv> 0x4290"
abbreviation (input) VF_SYSREG_KEY_FAR_EL1 :: u32 where "VF_SYSREG_KEY_FAR_EL1 \<equiv> 0x4300"
abbreviation (input) VF_SYSREG_KEY_MAIR_EL1 :: u32 where "VF_SYSREG_KEY_MAIR_EL1 \<equiv> 0x4510"
abbreviation (input) VF_SYSREG_KEY_VBAR_EL1 :: u32 where "VF_SYSREG_KEY_VBAR_EL1 \<equiv> 0x4600"
abbreviation (input) VF_SYSREG_KEY_HCR_EL2 :: u32 where "VF_SYSREG_KEY_HCR_EL2 \<equiv> 0x6088"
abbreviation (input) VF_SYSREG_KEY_CNTHCTL_EL2 :: u32 where "VF_SYSREG_KEY_CNTHCTL_EL2 \<equiv> 0x6708"
abbreviation (input) VF_SYSREG_KEY_SPSR_EL2 :: u32 where "VF_SYSREG_KEY_SPSR_EL2 \<equiv> 0x6200"
abbreviation (input) VF_SYSREG_KEY_ELR_EL2 :: u32 where "VF_SYSREG_KEY_ELR_EL2 \<equiv> 0x6201"
abbreviation (input) VF_SYSREG_KEY_ESR_EL2 :: u32 where "VF_SYSREG_KEY_ESR_EL2 \<equiv> 0x6290"
abbreviation (input) VF_SYSREG_KEY_FAR_EL2 :: u32 where "VF_SYSREG_KEY_FAR_EL2 \<equiv> 0x6300"
abbreviation (input) VF_SYSREG_KEY_VBAR_EL2 :: u32 where "VF_SYSREG_KEY_VBAR_EL2 \<equiv> 0x6600"
abbreviation (input) VF_SYSREG_KEY_SCR_EL3 :: u32 where "VF_SYSREG_KEY_SCR_EL3 \<equiv> 0x7088"
abbreviation (input) VF_SYSREG_KEY_SPSR_EL3 :: u32 where "VF_SYSREG_KEY_SPSR_EL3 \<equiv> 0x7200"
abbreviation (input) VF_SYSREG_KEY_ELR_EL3 :: u32 where "VF_SYSREG_KEY_ELR_EL3 \<equiv> 0x7201"
abbreviation (input) VF_SYSREG_KEY_ESR_EL3 :: u32 where "VF_SYSREG_KEY_ESR_EL3 \<equiv> 0x7290"
abbreviation (input) VF_SYSREG_KEY_FAR_EL3 :: u32 where "VF_SYSREG_KEY_FAR_EL3 \<equiv> 0x7300"
abbreviation (input) VF_SYSREG_KEY_VBAR_EL3 :: u32 where "VF_SYSREG_KEY_VBAR_EL3 \<equiv> 0x7600"
abbreviation (input) VF_FP_EXECUTION_ABSENT :: u32 where "VF_FP_EXECUTION_ABSENT \<equiv> 0"
abbreviation (input) VF_FP_EXECUTION_PARTIAL :: u32 where "VF_FP_EXECUTION_PARTIAL \<equiv> 1"
abbreviation (input) VF_PFR0_FP_RESEARCH :: u64 where "VF_PFR0_FP_RESEARCH \<equiv> 0x00000011"
abbreviation (input) VF_PFR0_SCALAR_PROFILE :: u64 where "VF_PFR0_SCALAR_PROFILE \<equiv> 0x00ff0011"
abbreviation (input) VF_PLATFORM_NONE :: u32 where "VF_PLATFORM_NONE \<equiv> 0"
abbreviation (input) VF_PLATFORM_IRQ_COMPAT_V1 :: u32 where "VF_PLATFORM_IRQ_COMPAT_V1 \<equiv> 1"
abbreviation (input) VF_PLATFORM_OVERRIDE_KEY :: u32 where "VF_PLATFORM_OVERRIDE_KEY \<equiv> 0x6fa8"
abbreviation (input) VF_PLATFORM_OVERRIDE_MASK :: u64 where "VF_PLATFORM_OVERRIDE_MASK \<equiv> 0x00f00000"

record vf_pauth_context =
  pa_x :: "u64 list"
  pa_sp :: u64
  pa_pc :: u64
  pa_sctlr :: u64
  pa_tcr :: u64
  pa_keys :: "u64 list"
  pa_current_el :: u32
  pa_reserved :: u32

text \<open>A provider returns zero on success and the context it was given, updated.\<close>

type_synonym vf_pauth_step = "vf_pauth_context \<Rightarrow> u32 \<Rightarrow> nat \<times> vf_pauth_context"

text \<open>The processor. Register files and the banks per exception level are lists; the five key pairs are ten words.\<close>

record vf_cpu =
  cpu_x :: "u64 list"
  cpu_sp :: u64
  cpu_pc :: u64
  cpu_pstate :: u64
  cpu_sctlr :: u64
  cpu_ttbr0 :: u64
  cpu_ttbr1 :: u64
  cpu_tcr :: u64
  cpu_mair :: u64
  cpu_vbar :: u64
  cpu_esr :: u64
  cpu_far :: u64
  cpu_elr :: u64
  cpu_sp_el :: "u64 list"
  cpu_spsr_el :: "u64 list"
  cpu_vbar_el :: "u64 list"
  cpu_esr_el :: "u64 list"
  cpu_far_el :: "u64 list"
  cpu_elr_el :: "u64 list"
  cpu_exception_syndrome :: u64
  cpu_exception_far :: u64
  cpu_exception_pc :: u64
  cpu_exception_vector :: u64
  cpu_cntfrq :: u64
  cpu_cntpct :: u64
  cpu_cntp_ctl :: u64
  cpu_cntp_cval :: u64
  cpu_id_aa64mmfr0 :: u64
  cpu_id_aa64isar1 :: u64
  cpu_cntvct :: u64
  cpu_cntv_ctl :: u64
  cpu_cntv_cval :: u64
  cpu_cntp_tval :: u64
  cpu_hcr_el2 :: u64
  cpu_cnthctl_el2 :: u64
  cpu_scr_el3 :: u64
  cpu_retired :: u64
  cpu_tlb_tag :: u64
  cpu_tlb_pa :: u64
  cpu_tlb_generation :: u64
  cpu_current_el :: u32
  cpu_exception_pending :: u32
  cpu_exception_target_el :: u32
  cpu_exception_from_lower_el :: u32
  cpu_instruction :: u32
  cpu_status :: u32
  cpu_guest_ram_base :: u64
  cpu_compiled_blocks :: u64
  cpu_pauth_keys :: "u64 list"
  cpu_pauth_step :: "vf_pauth_step option"
  cpu_tpidr_el0 :: u64
  cpu_tpidrro_el0 :: u64
  cpu_tpidr_el1 :: u64
  cpu_platform_override :: u64
  cpu_platform_profile :: u32
  cpu_irq_level :: u32
  cpu_fiq_level :: u32
  cpu_fp :: nc_fp_bank
  cpu_cpacr_el1 :: u64
  cpu_fp_execution_profile :: u32
  cpu_fp_execution_reserved :: u32

end
