(* ===== verification/Cpu.thy ===== *)
theory Cpu
  imports CpuState
begin

text \<open>
  The architectural state of the guest processor: \<open>src/runtime/arch.c\<close> (exception levels, exception entry,
  system registers, timers, interrupt lines), \<open>fp_execution.c\<close> (the floating-point step) and, from
  \<open>jit.c\<close>, the software steps that the translator leaves to C (\<open>MRS\<close>/\<open>MSR\<close>, \<open>DAIF\<close>/\<open>SPSel\<close>, pointer
  authentication) with the preparation of the boot state, and the snapshot of \<open>boot_jit.c\<close>. The pointer to
  the processor is never null here, so the tests for it have no counterpart. The pointer-authentication
  provider is code of the host: it is a function held in the state, as the code holds a pointer to it.

  Shown: every operation keeps the state well formed, with the timer status bits always those of the
  comparators; a deliverable interrupt is delivered at once, to the right vector and with the return state
  saved, and is not delivered twice; no system-register write reaches the registers of a higher level; a
  step that does not retire an instruction changes nothing; a prepared boot state is exactly the requested one.
\<close>

section \<open>Exception levels and exceptions\<close>

definition cpu_zero :: vf_cpu where
  "cpu_zero =
     \<lparr>cpu_x = replicate 32 0, cpu_sp = 0, cpu_pc = 0, cpu_pstate = 0, cpu_sctlr = 0, cpu_ttbr0 = 0, cpu_ttbr1 = 0,
      cpu_tcr = 0, cpu_mair = 0, cpu_vbar = 0, cpu_esr = 0, cpu_far = 0, cpu_elr = 0,
      cpu_sp_el = replicate 4 0, cpu_spsr_el = replicate 4 0, cpu_vbar_el = replicate 4 0, cpu_esr_el = replicate 4 0,
      cpu_far_el = replicate 4 0, cpu_elr_el = replicate 4 0, cpu_exception_syndrome = 0, cpu_exception_far = 0,
      cpu_exception_pc = 0, cpu_exception_vector = 0, cpu_cntfrq = 0, cpu_cntpct = 0, cpu_cntp_ctl = 0,
      cpu_cntp_cval = 0, cpu_id_aa64mmfr0 = 0, cpu_id_aa64isar1 = 0, cpu_cntvct = 0, cpu_cntv_ctl = 0,
      cpu_cntv_cval = 0, cpu_cntp_tval = 0, cpu_hcr_el2 = 0, cpu_cnthctl_el2 = 0, cpu_scr_el3 = 0, cpu_retired = 0,
      cpu_tlb_tag = 0, cpu_tlb_pa = 0, cpu_tlb_generation = 0, cpu_current_el = 0, cpu_exception_pending = 0,
      cpu_exception_target_el = 0, cpu_exception_from_lower_el = 0, cpu_instruction = 0, cpu_status = 0,
      cpu_guest_ram_base = 0, cpu_compiled_blocks = 0, cpu_pauth_keys = replicate 10 0, cpu_pauth_step = None,
      cpu_tpidr_el0 = 0, cpu_tpidrro_el0 = 0, cpu_tpidr_el1 = 0, cpu_platform_override = 0, cpu_platform_profile = 0,
      cpu_irq_level = 0, cpu_fiq_level = 0, cpu_fp = \<lparr>bank_v = replicate 32 (0, 0), fpcr = 0, fpsr = 0\<rparr>,
      cpu_cpacr_el1 = 0, cpu_fp_execution_profile = 0, cpu_fp_execution_reserved = 0\<rparr>"

definition sysreg_min_el :: "u32 \<Rightarrow> int" where
  "sysreg_min_el key =
     (if key \<in> {VF_SYSREG_KEY_TPIDR_EL0, VF_SYSREG_KEY_TPIDRRO_EL0, VF_SYSREG_KEY_CNTFRQ_EL0, VF_SYSREG_KEY_CNTPCT_EL0,
        VF_SYSREG_KEY_CNTVCT_EL0, VF_SYSREG_KEY_CNTP_TVAL_EL0, VF_SYSREG_KEY_CNTP_CTL_EL0, VF_SYSREG_KEY_CNTP_CVAL_EL0,
        VF_SYSREG_KEY_CNTV_CTL_EL0, VF_SYSREG_KEY_CNTV_CVAL_EL0, VF_SYSREG_KEY_CURRENT_EL} then 0
      else if key \<in> {VF_SYSREG_KEY_ID_AA64ISAR1_EL1, VF_SYSREG_KEY_CPACR_EL1, VF_SYSREG_KEY_ID_AA64PFR0_EL1, VF_SYSREG_KEY_ID_AA64PFR1_EL1,
        VF_SYSREG_KEY_ID_AA64PFR2_EL1, VF_SYSREG_KEY_TPIDR_EL1, VF_SYSREG_KEY_ID_AA64MMFR0_EL1, VF_SYSREG_KEY_ID_AA64MMFR2_EL1,
        VF_SYSREG_KEY_SCTLR_EL1, VF_SYSREG_KEY_TTBR0_EL1, VF_SYSREG_KEY_TTBR1_EL1, VF_SYSREG_KEY_TCR_EL1,
        VF_SYSREG_KEY_SPSR_EL1, VF_SYSREG_KEY_ELR_EL1, VF_SYSREG_KEY_ESR_EL1, VF_SYSREG_KEY_FAR_EL1,
        VF_SYSREG_KEY_MAIR_EL1, VF_SYSREG_KEY_VBAR_EL1} then 1
      else if key \<in> {VF_SYSREG_KEY_HCR_EL2, VF_SYSREG_KEY_CNTHCTL_EL2, VF_SYSREG_KEY_SPSR_EL2, VF_SYSREG_KEY_ELR_EL2,
        VF_SYSREG_KEY_ESR_EL2, VF_SYSREG_KEY_FAR_EL2, VF_SYSREG_KEY_VBAR_EL2} then 2
      else if key \<in> {VF_SYSREG_KEY_SCR_EL3, VF_SYSREG_KEY_SPSR_EL3, VF_SYSREG_KEY_ELR_EL3, VF_SYSREG_KEY_ESR_EL3,
        VF_SYSREG_KEY_FAR_EL3, VF_SYSREG_KEY_VBAR_EL3} then 3
      else - 1)"

definition timer_status :: "u64 \<Rightarrow> u64 \<Rightarrow> u64 \<Rightarrow> u64" where
  "timer_status ctl cnt cval =
     (if ctl AND VF_TIMER_CTL_ENABLE \<noteq> 0 \<and> ctl AND VF_TIMER_CTL_IMASK = 0 \<and> cnt \<ge> cval
      then ctl OR VF_TIMER_CTL_ISTATUS else ctl AND NOT VF_TIMER_CTL_ISTATUS)"

definition update_timer_status :: "vf_cpu \<Rightarrow> vf_cpu" where
  "update_timer_status cpu =
     cpu\<lparr>cpu_cntp_ctl := timer_status (cpu_cntp_ctl cpu) (cpu_cntpct cpu) (cpu_cntp_cval cpu),
         cpu_cntv_ctl := timer_status (cpu_cntv_ctl cpu) (cpu_cntvct cpu) (cpu_cntv_cval cpu),
         cpu_cntp_tval := (if cpu_cntp_cval cpu \<ge> cpu_cntpct cpu then cpu_cntp_cval cpu - cpu_cntpct cpu else 0)\<rparr>"

definition valid_exception_kind :: "u32 \<Rightarrow> bool" where
  "valid_exception_kind kind \<longleftrightarrow>
     (kind \<ge> exception_code VF_EXCEPTION_UNDEFINED_INSTRUCTION \<and> kind \<le> exception_code VF_EXCEPTION_EXTERNAL_INTERRUPT)
     \<or> kind = exception_code VF_EXCEPTION_FIQ_INTERRUPT \<or> kind = exception_code VF_EXCEPTION_SP_ALIGNMENT_FAULT
     \<or> kind = exception_code VF_EXCEPTION_FP_ACCESS"

definition mode_for_el :: "u32 \<Rightarrow> u64" where
  "mode_for_el el =
     (if el = VF_EL0 then 0 else if el = VF_EL1 then 5 else if el = VF_EL2 then 9 else if el = VF_EL3 then 13 else 0)"

definition active_sp_index :: "vf_cpu \<Rightarrow> u32" where
  "active_sp_index cpu =
     (if cpu_current_el cpu = VF_EL0 \<or> cpu_pstate cpu AND 1 = 0 then VF_EL0 else cpu_current_el cpu)"

definition save_active_sp :: "vf_cpu \<Rightarrow> vf_cpu" where
  "save_active_sp cpu =
     (if cpu_current_el cpu \<le> VF_EL3
      then cpu\<lparr>cpu_sp_el := (cpu_sp_el cpu)[unat (active_sp_index cpu) := cpu_sp cpu]\<rparr> else cpu)"

definition target_el :: "vf_cpu \<Rightarrow> u32" where
  "target_el cpu = (if cpu_current_el cpu = VF_EL0 then VF_EL1 else cpu_current_el cpu)"

text \<open>The syndrome extension of a data abort by the kind of instruction: pairs, then single integer registers.\<close>

definition syndrome_extra :: "vf_exception_kind \<Rightarrow> u32 \<Rightarrow> u32" where
  "syndrome_extra kind instruction =
     (let access = (kind = VF_EXCEPTION_DATA_ABORT \<or> kind = VF_EXCEPTION_ALIGNMENT_FAULT);
          extra = (if access \<and> instruction AND 0x3e000000 = 0x28000000
                   then push_bit 25 1 OR (if instruction AND 0x00400000 = 0 then push_bit 6 1 else 0) else 0) in
      if access
         \<and> (instruction AND 0x3f000000 = 0x39000000 \<or> instruction AND 0x3f200c00 = 0x38000000
            \<or> instruction AND 0x3f200400 = 0x38000400
            \<or> (instruction AND 0x3f200c00 = 0x38200800 \<and> instruction AND push_bit 14 1 \<noteq> 0))
         \<and> (drop_bit 30 instruction < 3 \<or> drop_bit 22 instruction AND 3 < 2)
         \<and> \<not> (drop_bit 30 instruction = 2 \<and> drop_bit 22 instruction AND 3 = 3)
      then push_bit 25 1 OR (if instruction AND 0x00c00000 = 0 then push_bit 6 1 else 0)
      else extra)"

definition exception_syndrome :: "vf_exception_kind \<Rightarrow> u32 \<Rightarrow> u64 \<Rightarrow> u32 \<Rightarrow> u32" where
  "exception_syndrome kind current_el pc instruction =
     (let dabt = (if current_el = VF_EL0 then VF_ESR_EC_DABT_LOWER else VF_ESR_EC_DABT_SAME);
          iabt = (if current_el = VF_EL0 then VF_ESR_EC_IABT_LOWER else VF_ESR_EC_IABT_SAME);
          abort = (\<lambda>ec fsc. push_bit 26 ec OR syndrome_extra kind instruction OR fsc) in
      case kind of
        VF_EXCEPTION_FP_ACCESS \<Rightarrow> push_bit 26 VF_ESR_EC_FP_ACCESS OR push_bit 25 1 OR push_bit 20 0x1e
      | VF_EXCEPTION_SYSTEM_REGISTER_TRAP \<Rightarrow> push_bit 26 VF_ESR_EC_SYSREG OR (instruction AND 0x01ffffff)
      | VF_EXCEPTION_INSTRUCTION_ABORT \<Rightarrow>
          if pc AND 3 \<noteq> 0 then push_bit 26 VF_ESR_EC_PC_ALIGNMENT else abort iabt VF_ESR_FSC_TRANSLATION_L3
      | VF_EXCEPTION_DATA_ABORT \<Rightarrow> abort dabt VF_ESR_FSC_TRANSLATION_L3
      | VF_EXCEPTION_TRANSLATION_FAULT \<Rightarrow> abort dabt VF_ESR_FSC_TRANSLATION_L3
      | VF_EXCEPTION_PERMISSION_FAULT \<Rightarrow> abort dabt VF_ESR_FSC_PERMISSION_L3
      | VF_EXCEPTION_ALIGNMENT_FAULT \<Rightarrow> abort dabt VF_ESR_FSC_ALIGNMENT
      | VF_EXCEPTION_SP_ALIGNMENT_FAULT \<Rightarrow> push_bit 26 0x26 OR push_bit 25 1
      | VF_EXCEPTION_UNDEFINED_INSTRUCTION \<Rightarrow> push_bit 26 VF_ESR_EC_UNKNOWN OR push_bit 25 1
      | VF_EXCEPTION_PRIVILEGED_INSTRUCTION \<Rightarrow> push_bit 26 VF_ESR_EC_UNKNOWN OR push_bit 25 1
      | VF_EXCEPTION_TIMER_INTERRUPT \<Rightarrow> 0
      | VF_EXCEPTION_EXTERNAL_INTERRUPT \<Rightarrow> 0
      | VF_EXCEPTION_FIQ_INTERRUPT \<Rightarrow> 0
      | VF_EXCEPTION_NONE \<Rightarrow> 0)"

definition vf_cpu_reset :: "vf_cpu \<Rightarrow> u32 \<Rightarrow> vf_cpu" where
  "vf_cpu_reset cpu initial_el =
     (let el = (if initial_el > VF_EL3 then VF_EL0 else initial_el) in
      cpu_zero\<lparr>cpu_current_el := el, cpu_pstate := mode_for_el el, cpu_cntfrq := 24000000,
               cpu_id_aa64mmfr0 := 0x0f100005, cpu_id_aa64isar1 := 0, cpu_tcr := 16, cpu_status := VF_NEXT\<rparr>)"

definition vf_cpu_state_valid :: "vf_cpu \<Rightarrow> bool" where
  "vf_cpu_state_valid cpu =
     (if cpu_current_el cpu > VF_EL3 \<or> cpu_fp_execution_profile cpu > VF_FP_EXECUTION_PARTIAL
         \<or> cpu_fp_execution_reserved cpu \<noteq> 0 \<or> cpu_cpacr_el1 cpu AND NOT 0x00300000 \<noteq> 0
         \<or> (cpu_fp_execution_profile cpu = VF_FP_EXECUTION_ABSENT \<and> cpu_cpacr_el1 cpu \<noteq> 0)
         \<or> (cpu_exception_pending cpu \<noteq> exception_code VF_EXCEPTION_NONE
            \<and> \<not> valid_exception_kind (cpu_exception_pending cpu))
         \<or> cpu_exception_target_el cpu > VF_EL3 \<or> cpu_exception_from_lower_el cpu > 1
      then False
      else
        let mode = cpu_pstate cpu AND VF_PSTATE_MODE_MASK in
        if cpu_current_el cpu = VF_EL0 then mode = 0
        else if cpu_current_el cpu = VF_EL1 then mode = 4 \<or> mode = 5
        else if cpu_current_el cpu = VF_EL2 then mode = 8 \<or> mode = 9
        else if cpu_current_el cpu = VF_EL3 then mode = 12 \<or> mode = 13
        else False)"

definition vf_cpu_set_current_el :: "vf_cpu \<Rightarrow> u32 \<Rightarrow> rc \<times> vf_cpu" where
  "vf_cpu_set_current_el cpu el =
     (if el > VF_EL3 \<or> \<not> vf_cpu_state_valid cpu then (ERR, cpu)
      else
        let cpu1 = save_active_sp cpu in
        (OK, cpu1\<lparr>cpu_current_el := el,
                  cpu_pstate := (cpu_pstate cpu1 AND NOT VF_PSTATE_MODE_MASK) OR mode_for_el el,
                  cpu_sp := cpu_sp_el cpu1 ! unat el\<rparr>))"

definition vf_cpu_clear_exception :: "vf_cpu \<Rightarrow> vf_cpu" where
  "vf_cpu_clear_exception cpu =
     cpu\<lparr>cpu_exception_pending := exception_code VF_EXCEPTION_NONE, cpu_exception_target_el := VF_EL0,
         cpu_exception_from_lower_el := 0, cpu_exception_syndrome := 0, cpu_exception_far := 0, cpu_exception_pc := 0\<rparr>"

definition asynchronous :: "vf_exception_kind \<Rightarrow> bool" where
  "asynchronous kind \<longleftrightarrow>
     kind = VF_EXCEPTION_TIMER_INTERRUPT \<or> kind = VF_EXCEPTION_EXTERNAL_INTERRUPT \<or> kind = VF_EXCEPTION_FIQ_INTERRUPT"

definition vf_cpu_raise_exception ::
  "vf_cpu \<Rightarrow> vf_exception_kind \<Rightarrow> u64 \<Rightarrow> u64 \<Rightarrow> u32 \<Rightarrow> u32 \<Rightarrow> rc \<times> vf_cpu" where
  "vf_cpu_raise_exception cpu kind pc far syndrome0 instruction =
     (if \<not> vf_cpu_state_valid cpu \<or> \<not> valid_exception_kind (exception_code kind)
         \<or> cpu_exception_pending cpu \<noteq> exception_code VF_EXCEPTION_NONE then (ERR, cpu)
      else
        let target = target_el cpu; t = unat target;
            syndrome = (if syndrome0 = 0 then exception_syndrome kind (cpu_current_el cpu) pc instruction else syndrome0);
            cpu1 = save_active_sp cpu;
            cpu2 = cpu1\<lparr>cpu_exception_pending := exception_code kind, cpu_exception_target_el := target,
                        cpu_exception_from_lower_el := (if cpu_current_el cpu1 < target then 1 else 0),
                        cpu_exception_syndrome := ucast syndrome, cpu_exception_far := far, cpu_exception_pc := pc,
                        cpu_instruction := instruction,
                        cpu_spsr_el := (cpu_spsr_el cpu1)[t := cpu_pstate cpu1],
                        cpu_elr_el := (cpu_elr_el cpu1)[t := pc]\<rparr>;
            cpu3 = (if asynchronous kind then cpu2
                    else cpu2\<lparr>cpu_esr_el := (cpu_esr_el cpu2)[t := ucast syndrome],
                              cpu_far_el := (cpu_far_el cpu2)[t := far]\<rparr>) in
        (OK, cpu3\<lparr>cpu_vbar := cpu_vbar_el cpu3 ! t, cpu_esr := cpu_esr_el cpu3 ! t, cpu_far := cpu_far_el cpu3 ! t,
                  cpu_elr := pc\<rparr>))"

definition vector_offset :: "vf_cpu \<Rightarrow> u64" where
  "vector_offset cpu =
     (let target = cpu_exception_target_el cpu;
          offset = (if cpu_exception_from_lower_el cpu \<noteq> 0 then 0x400
                    else if cpu_spsr_el cpu ! unat target AND 1 \<noteq> 0 then 0x200 else 0) in
      if cpu_exception_pending cpu = exception_code VF_EXCEPTION_TIMER_INTERRUPT
         \<or> cpu_exception_pending cpu = exception_code VF_EXCEPTION_EXTERNAL_INTERRUPT then offset + 0x80
      else if cpu_exception_pending cpu = exception_code VF_EXCEPTION_FIQ_INTERRUPT then offset + 0x100
      else offset)"

definition vf_cpu_take_exception :: "vf_cpu \<Rightarrow> rc \<times> vf_cpu" where
  "vf_cpu_take_exception cpu =
     (if \<not> vf_cpu_state_valid cpu \<or> cpu_exception_pending cpu = exception_code VF_EXCEPTION_NONE
         \<or> cpu_exception_target_el cpu > VF_EL3 then (ERR, cpu)
      else
        let target = cpu_exception_target_el cpu; t = unat target;
            base = cpu_vbar_el cpu ! t AND NOT 0x7ff;
            offset = vector_offset cpu in
        if base > - 1 - offset then (ERR, cpu)
        else
          let vector = base + offset in
          (OK, vf_cpu_clear_exception
                 (cpu\<lparr>cpu_current_el := target,
                      cpu_pstate := (cpu_spsr_el cpu ! t AND NOT VF_PSTATE_MODE_MASK) OR mode_for_el target
                                    OR VF_PSTATE_DAIF_MASK,
                      cpu_sp := cpu_sp_el cpu ! t, cpu_pc := vector, cpu_exception_vector := vector, cpu_vbar := base,
                      cpu_esr := cpu_esr_el cpu ! t, cpu_far := cpu_far_el cpu ! t, cpu_elr := cpu_elr_el cpu ! t\<rparr>)))"

text \<open>The exception kind of a status, with the fault address and instruction it is raised with.\<close>

definition commit_kind :: "vf_cpu \<Rightarrow> u32 \<Rightarrow> (vf_exception_kind \<times> u64 \<times> u32) option" where
  "commit_kind cpu status =
     (let far = cpu_far cpu; w = cpu_instruction cpu in
      if status = VF_FP_ACCESS_TRAP then Some (VF_EXCEPTION_FP_ACCESS, 0, w)
      else if status = VF_BAD_INSTRUCTION \<or> status = VF_UNDEFINED_INSTRUCTION then
        Some (VF_EXCEPTION_UNDEFINED_INSTRUCTION, far, w)
      else if status = VF_FETCH_FAULT \<or> status = VF_INSTRUCTION_ABORT then
        Some (VF_EXCEPTION_INSTRUCTION_ABORT, cpu_pc cpu, 0)
      else if status = VF_DATA_FAULT \<or> status = VF_DATA_ABORT then Some (VF_EXCEPTION_DATA_ABORT, far, w)
      else if status = VF_TRANSLATION_FAULT then Some (VF_EXCEPTION_TRANSLATION_FAULT, far, w)
      else if status = VF_PERMISSION_FAULT then Some (VF_EXCEPTION_PERMISSION_FAULT, far, w)
      else if status = VF_ALIGNMENT_FAULT then Some (VF_EXCEPTION_ALIGNMENT_FAULT, far, w)
      else if status = VF_SP_ALIGNMENT_FAULT then Some (VF_EXCEPTION_SP_ALIGNMENT_FAULT, far, w)
      else if status = VF_PRIVILEGE_FAULT then Some (VF_EXCEPTION_PRIVILEGED_INSTRUCTION, far, w)
      else if status = VF_SYSTEM_REGISTER_TRAP then Some (VF_EXCEPTION_SYSTEM_REGISTER_TRAP, far, w)
      else if status = VF_TIMER_INTERRUPT then Some (VF_EXCEPTION_TIMER_INTERRUPT, far, w)
      else if status = VF_EXTERNAL_INTERRUPT then Some (VF_EXCEPTION_EXTERNAL_INTERRUPT, far, w)
      else if status = VF_FIQ_INTERRUPT then Some (VF_EXCEPTION_FIQ_INTERRUPT, far, w)
      else None)"

definition vf_cpu_commit_status :: "vf_cpu \<Rightarrow> u32 \<Rightarrow> rc \<times> vf_cpu" where
  "vf_cpu_commit_status cpu status =
     (let cpu1 = cpu\<lparr>cpu_status := status\<rparr> in
      case commit_kind cpu1 status of
        None \<Rightarrow> (OK, cpu1)
      | Some (kind, far, w) \<Rightarrow> vf_cpu_raise_exception cpu1 kind (cpu_pc cpu1) far 0 w)"

section \<open>System registers, timers and interrupt lines\<close>

definition vf_cpu_invalidate_tlb :: "vf_cpu \<Rightarrow> vf_cpu" where
  "vf_cpu_invalidate_tlb cpu =
     cpu\<lparr>cpu_tlb_tag := 0, cpu_tlb_pa := 0, cpu_tlb_generation := cpu_tlb_generation cpu + 1\<rparr>"

definition vf_cpu_configure_platform :: "vf_cpu \<Rightarrow> u32 \<Rightarrow> u64 \<Rightarrow> vf_sysreg_result \<times> vf_cpu" where
  "vf_cpu_configure_platform cpu profile v =
     (if profile > VF_PLATFORM_IRQ_COMPAT_V1 \<or> (profile = VF_PLATFORM_NONE \<and> v \<noteq> 0)
         \<or> v AND NOT VF_PLATFORM_OVERRIDE_MASK \<noteq> 0
         \<or> (drop_bit 20 v AND 3 \<noteq> 0 \<and> drop_bit 20 v AND 3 \<noteq> 2)
         \<or> (drop_bit 22 v AND 3 \<noteq> 0 \<and> drop_bit 22 v AND 3 \<noteq> 2) then (VF_SYSREG_INVALID_VALUE, cpu)
      else (VF_SYSREG_OK, cpu\<lparr>cpu_platform_profile := profile, cpu_platform_override := v\<rparr>))"

text \<open>The register bank behind the checks: the switch of the read and of the write.\<close>

definition sysreg_value :: "vf_cpu \<Rightarrow> u32 \<Rightarrow> u64 option" where
  "sysreg_value cpu key =
     (if key = VF_SYSREG_KEY_TPIDR_EL0 then Some (cpu_tpidr_el0 cpu)
      else if key = VF_SYSREG_KEY_TPIDRRO_EL0 then Some (cpu_tpidrro_el0 cpu)
      else if key = VF_SYSREG_KEY_TPIDR_EL1 then Some (cpu_tpidr_el1 cpu)
      else if key = VF_SYSREG_KEY_CNTFRQ_EL0 then Some (cpu_cntfrq cpu)
      else if key = VF_SYSREG_KEY_CNTPCT_EL0 then Some (cpu_cntpct cpu)
      else if key = VF_SYSREG_KEY_CNTVCT_EL0 then Some (cpu_cntvct cpu)
      else if key = VF_SYSREG_KEY_CNTP_TVAL_EL0 then Some (cpu_cntp_tval cpu)
      else if key = VF_SYSREG_KEY_CNTP_CTL_EL0 then Some (cpu_cntp_ctl cpu)
      else if key = VF_SYSREG_KEY_CNTP_CVAL_EL0 then Some (cpu_cntp_cval cpu)
      else if key = VF_SYSREG_KEY_CNTV_CTL_EL0 then Some (cpu_cntv_ctl cpu)
      else if key = VF_SYSREG_KEY_CNTV_CVAL_EL0 then Some (cpu_cntv_cval cpu)
      else if key = VF_SYSREG_KEY_CURRENT_EL then Some (push_bit 2 (ucast (cpu_current_el cpu)))
      else if key = VF_SYSREG_KEY_ID_AA64MMFR0_EL1 then Some (cpu_id_aa64mmfr0 cpu)
      else if key = VF_SYSREG_KEY_ID_AA64ISAR1_EL1 then Some (cpu_id_aa64isar1 cpu)
      else if key = VF_SYSREG_KEY_SCTLR_EL1 then Some (cpu_sctlr cpu)
      else if key = VF_SYSREG_KEY_TTBR0_EL1 then Some (cpu_ttbr0 cpu)
      else if key = VF_SYSREG_KEY_TTBR1_EL1 then Some (cpu_ttbr1 cpu)
      else if key = VF_SYSREG_KEY_TCR_EL1 then Some (cpu_tcr cpu)
      else if key = VF_SYSREG_KEY_SPSR_EL1 then Some (cpu_spsr_el cpu ! 1)
      else if key = VF_SYSREG_KEY_ELR_EL1 then Some (cpu_elr_el cpu ! 1)
      else if key = VF_SYSREG_KEY_ESR_EL1 then Some (cpu_esr_el cpu ! 1)
      else if key = VF_SYSREG_KEY_FAR_EL1 then Some (cpu_far_el cpu ! 1)
      else if key = VF_SYSREG_KEY_MAIR_EL1 then Some (cpu_mair cpu)
      else if key = VF_SYSREG_KEY_VBAR_EL1 then Some (cpu_vbar_el cpu ! 1)
      else if key = VF_SYSREG_KEY_HCR_EL2 then Some (cpu_hcr_el2 cpu)
      else if key = VF_SYSREG_KEY_CNTHCTL_EL2 then Some (cpu_cnthctl_el2 cpu)
      else if key = VF_SYSREG_KEY_SPSR_EL2 then Some (cpu_spsr_el cpu ! 2)
      else if key = VF_SYSREG_KEY_ELR_EL2 then Some (cpu_elr_el cpu ! 2)
      else if key = VF_SYSREG_KEY_ESR_EL2 then Some (cpu_esr_el cpu ! 2)
      else if key = VF_SYSREG_KEY_FAR_EL2 then Some (cpu_far_el cpu ! 2)
      else if key = VF_SYSREG_KEY_VBAR_EL2 then Some (cpu_vbar_el cpu ! 2)
      else if key = VF_SYSREG_KEY_SCR_EL3 then Some (cpu_scr_el3 cpu)
      else if key = VF_SYSREG_KEY_SPSR_EL3 then Some (cpu_spsr_el cpu ! 3)
      else if key = VF_SYSREG_KEY_ELR_EL3 then Some (cpu_elr_el cpu ! 3)
      else if key = VF_SYSREG_KEY_ESR_EL3 then Some (cpu_esr_el cpu ! 3)
      else if key = VF_SYSREG_KEY_FAR_EL3 then Some (cpu_far_el cpu ! 3)
      else if key = VF_SYSREG_KEY_VBAR_EL3 then Some (cpu_vbar_el cpu ! 3)
      else None)"

definition sysreg_store :: "vf_cpu \<Rightarrow> u32 \<Rightarrow> u64 \<Rightarrow> vf_sysreg_result \<times> vf_cpu" where
  "sysreg_store cpu key v =
     (if key = VF_SYSREG_KEY_TPIDR_EL0 then (VF_SYSREG_OK, cpu\<lparr>cpu_tpidr_el0 := v\<rparr>)
      else if key = VF_SYSREG_KEY_TPIDRRO_EL0 then
        (if cpu_current_el cpu = VF_EL0 then (VF_SYSREG_UNDEFINED, cpu)
         else (VF_SYSREG_OK, cpu\<lparr>cpu_tpidrro_el0 := v\<rparr>))
      else if key = VF_SYSREG_KEY_TPIDR_EL1 then (VF_SYSREG_OK, cpu\<lparr>cpu_tpidr_el1 := v\<rparr>)
      else if key \<in> {VF_SYSREG_KEY_CNTFRQ_EL0, VF_SYSREG_KEY_CNTPCT_EL0, VF_SYSREG_KEY_CNTVCT_EL0, VF_SYSREG_KEY_CURRENT_EL,
        VF_SYSREG_KEY_ID_AA64MMFR0_EL1, VF_SYSREG_KEY_ID_AA64PFR0_EL1, VF_SYSREG_KEY_ID_AA64PFR1_EL1, VF_SYSREG_KEY_ID_AA64PFR2_EL1,
        VF_SYSREG_KEY_ID_AA64MMFR2_EL1, VF_SYSREG_KEY_ID_AA64ISAR1_EL1} then (VF_SYSREG_READ_ONLY, cpu)
      else if key = VF_SYSREG_KEY_CNTP_TVAL_EL0 then (VF_SYSREG_OK, cpu\<lparr>cpu_cntp_cval := cpu_cntpct cpu + v, cpu_cntp_tval := v\<rparr>)
      else if key = VF_SYSREG_KEY_CNTP_CTL_EL0 then (VF_SYSREG_OK, cpu\<lparr>cpu_cntp_ctl := v AND (VF_TIMER_CTL_ENABLE OR VF_TIMER_CTL_IMASK)\<rparr>)
      else if key = VF_SYSREG_KEY_CNTP_CVAL_EL0 then (VF_SYSREG_OK, cpu\<lparr>cpu_cntp_cval := v\<rparr>)
      else if key = VF_SYSREG_KEY_CNTV_CTL_EL0 then (VF_SYSREG_OK, cpu\<lparr>cpu_cntv_ctl := v AND (VF_TIMER_CTL_ENABLE OR VF_TIMER_CTL_IMASK)\<rparr>)
      else if key = VF_SYSREG_KEY_CNTV_CVAL_EL0 then (VF_SYSREG_OK, cpu\<lparr>cpu_cntv_cval := v\<rparr>)
      else if key = VF_SYSREG_KEY_SCTLR_EL1 then (VF_SYSREG_OK, cpu\<lparr>cpu_sctlr := v\<rparr>)
      else if key = VF_SYSREG_KEY_TTBR0_EL1 then
        (if v AND 0xfff \<noteq> 0 then (VF_SYSREG_INVALID_VALUE, cpu)
         else (VF_SYSREG_OK, vf_cpu_invalidate_tlb (cpu\<lparr>cpu_ttbr0 := v\<rparr>)))
      else if key = VF_SYSREG_KEY_TTBR1_EL1 then
        (if v AND 0xfff \<noteq> 0 then (VF_SYSREG_INVALID_VALUE, cpu)
         else (VF_SYSREG_OK, vf_cpu_invalidate_tlb (cpu\<lparr>cpu_ttbr1 := v\<rparr>)))
      else if key = VF_SYSREG_KEY_TCR_EL1 then
        (if v AND push_bit 39 0xf \<noteq> 0 then (VF_SYSREG_INVALID_VALUE, cpu)
         else (VF_SYSREG_OK, vf_cpu_invalidate_tlb (cpu\<lparr>cpu_tcr := v\<rparr>)))
      else if key = VF_SYSREG_KEY_SPSR_EL1 then (VF_SYSREG_OK, cpu\<lparr>cpu_spsr_el := (cpu_spsr_el cpu)[1 := v]\<rparr>)
      else if key = VF_SYSREG_KEY_ELR_EL1 then (VF_SYSREG_OK, cpu\<lparr>cpu_elr_el := (cpu_elr_el cpu)[1 := v]\<rparr>)
      else if key = VF_SYSREG_KEY_ESR_EL1 then (VF_SYSREG_OK, cpu\<lparr>cpu_esr_el := (cpu_esr_el cpu)[1 := v]\<rparr>)
      else if key = VF_SYSREG_KEY_FAR_EL1 then (VF_SYSREG_OK, cpu\<lparr>cpu_far_el := (cpu_far_el cpu)[1 := v]\<rparr>)
      else if key = VF_SYSREG_KEY_MAIR_EL1 then (VF_SYSREG_OK, cpu\<lparr>cpu_mair := v\<rparr>)
      else if key = VF_SYSREG_KEY_VBAR_EL1 then (VF_SYSREG_OK, cpu\<lparr>cpu_vbar_el := (cpu_vbar_el cpu)[1 := v AND NOT 0x7ff]\<rparr>)
      else if key = VF_SYSREG_KEY_HCR_EL2 then (VF_SYSREG_OK, cpu\<lparr>cpu_hcr_el2 := v\<rparr>)
      else if key = VF_SYSREG_KEY_CNTHCTL_EL2 then (VF_SYSREG_OK, cpu\<lparr>cpu_cnthctl_el2 := v\<rparr>)
      else if key = VF_SYSREG_KEY_SPSR_EL2 then (VF_SYSREG_OK, cpu\<lparr>cpu_spsr_el := (cpu_spsr_el cpu)[2 := v]\<rparr>)
      else if key = VF_SYSREG_KEY_ELR_EL2 then (VF_SYSREG_OK, cpu\<lparr>cpu_elr_el := (cpu_elr_el cpu)[2 := v]\<rparr>)
      else if key = VF_SYSREG_KEY_ESR_EL2 then (VF_SYSREG_OK, cpu\<lparr>cpu_esr_el := (cpu_esr_el cpu)[2 := v]\<rparr>)
      else if key = VF_SYSREG_KEY_FAR_EL2 then (VF_SYSREG_OK, cpu\<lparr>cpu_far_el := (cpu_far_el cpu)[2 := v]\<rparr>)
      else if key = VF_SYSREG_KEY_VBAR_EL2 then (VF_SYSREG_OK, cpu\<lparr>cpu_vbar_el := (cpu_vbar_el cpu)[2 := v AND NOT 0x7ff]\<rparr>)
      else if key = VF_SYSREG_KEY_SCR_EL3 then (VF_SYSREG_OK, cpu\<lparr>cpu_scr_el3 := v\<rparr>)
      else if key = VF_SYSREG_KEY_SPSR_EL3 then (VF_SYSREG_OK, cpu\<lparr>cpu_spsr_el := (cpu_spsr_el cpu)[3 := v]\<rparr>)
      else if key = VF_SYSREG_KEY_ELR_EL3 then (VF_SYSREG_OK, cpu\<lparr>cpu_elr_el := (cpu_elr_el cpu)[3 := v]\<rparr>)
      else if key = VF_SYSREG_KEY_ESR_EL3 then (VF_SYSREG_OK, cpu\<lparr>cpu_esr_el := (cpu_esr_el cpu)[3 := v]\<rparr>)
      else if key = VF_SYSREG_KEY_FAR_EL3 then (VF_SYSREG_OK, cpu\<lparr>cpu_far_el := (cpu_far_el cpu)[3 := v]\<rparr>)
      else if key = VF_SYSREG_KEY_VBAR_EL3 then (VF_SYSREG_OK, cpu\<lparr>cpu_vbar_el := (cpu_vbar_el cpu)[3 := v AND NOT 0x7ff]\<rparr>)
      else (VF_SYSREG_UNKNOWN, cpu))"

definition el1_identity_key :: "u32 \<Rightarrow> bool" where
  "el1_identity_key key \<longleftrightarrow>
     key \<in> {VF_SYSREG_KEY_ID_AA64PFR0_EL1, VF_SYSREG_KEY_ID_AA64PFR1_EL1, VF_SYSREG_KEY_ID_AA64PFR2_EL1, 0x4024, 0x4030,
            0x4032, VF_SYSREG_KEY_ID_AA64ISAR3_EL1, 0x4038, VF_SYSREG_KEY_ID_AA64MMFR1_EL1, VF_SYSREG_KEY_ID_AA64MMFR2_EL1}"

definition higher_el_active :: "vf_cpu \<Rightarrow> bool" where
  "higher_el_active cpu \<longleftrightarrow> cpu_hcr_el2 cpu \<noteq> 0 \<or> cpu_scr_el3 cpu \<noteq> 0"

definition vf_cpu_read_sysreg :: "vf_cpu \<Rightarrow> u32 \<Rightarrow> vf_sysreg_result + u64" where
  "vf_cpu_read_sysreg cpu key =
     (if \<not> vf_cpu_state_valid cpu then Inl VF_SYSREG_INVALID_VALUE
      else if key = VF_SYSREG_KEY_FPCR \<or> key = VF_SYSREG_KEY_FPSR then Inl VF_SYSREG_UNDEFINED
      else if key = VF_SYSREG_KEY_CPACR_EL1 then
        (if cpu_fp_execution_profile cpu \<noteq> VF_FP_EXECUTION_PARTIAL then Inl VF_SYSREG_UNKNOWN
         else if cpu_current_el cpu = VF_EL0 then Inl VF_SYSREG_UNDEFINED
         else if cpu_current_el cpu \<noteq> VF_EL1 \<or> higher_el_active cpu then Inl VF_SYSREG_UNKNOWN
         else Inr (cpu_cpacr_el1 cpu))
      else if key = VF_PLATFORM_OVERRIDE_KEY then
        (if cpu_platform_profile cpu \<noteq> VF_PLATFORM_IRQ_COMPAT_V1 \<or> cpu_current_el cpu \<noteq> VF_EL1 \<or> higher_el_active cpu
         then Inl VF_SYSREG_UNKNOWN else Inr (cpu_platform_override cpu))
      else if el1_identity_key key then
        (if cpu_current_el cpu \<noteq> VF_EL1 \<or> higher_el_active cpu then Inl VF_SYSREG_UNKNOWN
         else Inr (if key = 0x4038 then 0x0f100005
                   else if key = VF_SYSREG_KEY_ID_AA64PFR0_EL1 then
                     (if cpu_fp_execution_profile cpu = VF_FP_EXECUTION_PARTIAL then VF_PFR0_FP_RESEARCH else VF_PFR0_SCALAR_PROFILE)
                   else 0))
      else
        let minimum = sysreg_min_el key in
        if minimum < 0 then Inl VF_SYSREG_UNKNOWN
        else if int (unat (cpu_current_el cpu)) < minimum then
          Inl (if key = VF_SYSREG_KEY_TPIDR_EL1 then VF_SYSREG_UNDEFINED else VF_SYSREG_PRIVILEGE)
        else case sysreg_value cpu key of None \<Rightarrow> Inl VF_SYSREG_UNKNOWN | Some v \<Rightarrow> Inr v)"

definition vf_cpu_write_sysreg :: "vf_cpu \<Rightarrow> u32 \<Rightarrow> u64 \<Rightarrow> vf_sysreg_result \<times> vf_cpu" where
  "vf_cpu_write_sysreg cpu key v =
     (if \<not> vf_cpu_state_valid cpu then (VF_SYSREG_INVALID_VALUE, cpu)
      else if key = VF_SYSREG_KEY_FPCR \<or> key = VF_SYSREG_KEY_FPSR then (VF_SYSREG_UNDEFINED, cpu)
      else if key = VF_SYSREG_KEY_CPACR_EL1 then
        (if cpu_fp_execution_profile cpu \<noteq> VF_FP_EXECUTION_PARTIAL then (VF_SYSREG_UNKNOWN, cpu)
         else if cpu_current_el cpu = VF_EL0 then (VF_SYSREG_UNDEFINED, cpu)
         else if cpu_current_el cpu \<noteq> VF_EL1 \<or> higher_el_active cpu then (VF_SYSREG_UNKNOWN, cpu)
         else if v AND NOT 0x00300000 \<noteq> 0 then (VF_SYSREG_INVALID_VALUE, cpu)
         else (VF_SYSREG_OK, cpu\<lparr>cpu_cpacr_el1 := v\<rparr>))
      else if key = VF_PLATFORM_OVERRIDE_KEY then
        (if cpu_platform_profile cpu \<noteq> VF_PLATFORM_IRQ_COMPAT_V1 \<or> cpu_current_el cpu \<noteq> VF_EL1 \<or> higher_el_active cpu
         then (VF_SYSREG_UNKNOWN, cpu) else vf_cpu_configure_platform cpu (cpu_platform_profile cpu) v)
      else
        let minimum = sysreg_min_el key in
        if minimum < 0 then (VF_SYSREG_UNKNOWN, cpu)
        else if int (unat (cpu_current_el cpu)) < minimum then
          (if key = VF_SYSREG_KEY_TPIDR_EL1 then VF_SYSREG_UNDEFINED else VF_SYSREG_PRIVILEGE, cpu)
        else
          let (r, cpu1) = sysreg_store cpu key v in
          if r = VF_SYSREG_OK then (VF_SYSREG_OK, update_timer_status cpu1) else (r, cpu1))"

definition vf_cpu_advance_counter :: "vf_cpu \<Rightarrow> u64 \<Rightarrow> vf_cpu" where
  "vf_cpu_advance_counter cpu ticks =
     update_timer_status (cpu\<lparr>cpu_cntpct := cpu_cntpct cpu + ticks, cpu_cntvct := cpu_cntvct cpu + ticks\<rparr>)"

definition vf_cpu_timer_pending :: "vf_cpu \<Rightarrow> bool" where
  "vf_cpu_timer_pending cpu \<longleftrightarrow>
     cpu_cntp_ctl cpu AND VF_TIMER_CTL_ISTATUS \<noteq> 0 \<or> cpu_cntv_ctl cpu AND VF_TIMER_CTL_ISTATUS \<noteq> 0"

definition vf_cpu_set_interrupt_lines :: "vf_cpu \<Rightarrow> u32 \<Rightarrow> u32 \<Rightarrow> rc \<times> vf_cpu" where
  "vf_cpu_set_interrupt_lines cpu irq fiq =
     (if irq > 1 \<or> fiq > 1 then (ERR, cpu) else (OK, cpu\<lparr>cpu_irq_level := irq, cpu_fiq_level := fiq\<rparr>))"

text \<open>Which interrupt a poll selects: the fast one first, then a timer, then the external line.\<close>

definition interrupt_choice :: "vf_cpu \<Rightarrow> (u32 \<times> vf_exception_kind) option" where
  "interrupt_choice cpu =
     (let ov = (if cpu_platform_profile cpu = VF_PLATFORM_IRQ_COMPAT_V1 then cpu_platform_override cpu else 0) in
      if cpu_fiq_level cpu \<noteq> 0 \<and> cpu_pstate cpu AND push_bit 6 1 = 0 \<and> drop_bit 20 ov AND 3 \<noteq> 2 then
        Some (VF_FIQ_INTERRUPT, VF_EXCEPTION_FIQ_INTERRUPT)
      else if cpu_pstate cpu AND push_bit 7 1 = 0 \<and> drop_bit 22 ov AND 3 \<noteq> 2 then
        (if vf_cpu_timer_pending cpu then Some (VF_TIMER_INTERRUPT, VF_EXCEPTION_TIMER_INTERRUPT)
         else if cpu_irq_level cpu \<noteq> 0 then Some (VF_EXTERNAL_INTERRUPT, VF_EXCEPTION_EXTERNAL_INTERRUPT)
         else None)
      else None)"

definition vf_cpu_poll_interrupt :: "vf_cpu \<Rightarrow> u32 \<times> vf_cpu" where
  "vf_cpu_poll_interrupt cpu =
     (if \<not> vf_cpu_state_valid cpu \<or> cpu_exception_pending cpu \<noteq> 0 then (VF_NEXT, cpu)
      else if (cpu_irq_level cpu \<noteq> 0 \<or> cpu_fiq_level cpu \<noteq> 0 \<or> vf_cpu_timer_pending cpu)
              \<and> (cpu_current_el cpu > VF_EL1 \<or> cpu_hcr_el2 cpu AND 0x18 \<noteq> 0 \<or> cpu_scr_el3 cpu AND 6 \<noteq> 0) then
        (let cpu1 = cpu\<lparr>cpu_instruction := 0\<rparr>;
             (_, cpu2) = vf_cpu_raise_exception cpu1 VF_EXCEPTION_SYSTEM_REGISTER_TRAP (cpu_pc cpu1) 0 0 0 in
         (VF_SYSTEM_REGISTER_TRAP, cpu2\<lparr>cpu_status := VF_SYSTEM_REGISTER_TRAP\<rparr>))
      else
        case interrupt_choice cpu of
          None \<Rightarrow> (VF_NEXT, cpu)
        | Some (status, kind) \<Rightarrow>
            (case vf_cpu_raise_exception cpu kind (cpu_pc cpu) 0 0 0 of
               (ERR, cpu1) \<Rightarrow> (VF_DATA_FAULT, cpu1)
             | (OK, cpu1) \<Rightarrow>
                 (case vf_cpu_take_exception cpu1 of
                    (ERR, cpu2) \<Rightarrow> (VF_DATA_FAULT, cpu2)
                  | (OK, cpu2) \<Rightarrow> (status, cpu2\<lparr>cpu_status := status\<rparr>))))"

section \<open>The software steps\<close>

datatype fp_operation = FP_UNKNOWN | FP_CONTROL | FP_SCALAR32 | FP_BITWISE

definition supported_operation :: "u32 \<Rightarrow> fp_operation" where
  "supported_operation w =
     (if w AND 0xffffffe0 \<in> {0xd53b4400, 0xd51b4400, 0xd53b4420, 0xd51b4420} then FP_CONTROL
      else
        let binary = w AND 0xffe0fc00; move = w AND 0xfffffc00 in
        if binary = 0x1e202800 \<or> binary = 0x1e201800 \<or> move = 0x1e270000 \<or> move = 0x1e260000 then FP_SCALAR32
        else if w AND 0x9f20fc00 = 0x0e201c00 then FP_BITWISE
        else FP_UNKNOWN)"

definition vf_fp_instruction_class :: "u32 \<Rightarrow> bool" where
  "vf_fp_instruction_class w \<longleftrightarrow>
     w AND 0x0e000000 = 0x0e000000 \<or> w AND 0x0e000000 = 0x0c000000 \<or> supported_operation w = FP_CONTROL"

text \<open>The instruction retires: the end of every step.\<close>

definition retire :: "vf_cpu \<Rightarrow> vf_cpu" where
  "retire cpu = vf_cpu_advance_counter (cpu\<lparr>cpu_pc := cpu_pc cpu + 4, cpu_retired := cpu_retired cpu + 1\<rparr>) 1"

definition fp_execute_operation ::
  "fp_operation \<Rightarrow> nc_fp_bank \<Rightarrow> u64 list \<Rightarrow> u32 \<Rightarrow> nat \<Rightarrow> u64 \<Rightarrow> nat \<Rightarrow> (nc_fp_result \<times> nc_fp_bank \<times> u64 list) option" where
  "fp_execute_operation operation bank x w el cpacr higher =
     (case operation of
        FP_CONTROL \<Rightarrow> Some (nc_fp_execute_control bank x w 1 el cpacr higher)
      | FP_SCALAR32 \<Rightarrow> nc_fp_execute32 bank x w
      | FP_BITWISE \<Rightarrow> (case nc_simd_execute_bitwise bank w 1 el cpacr higher of (r, bank') \<Rightarrow> Some (r, bank', x))
      | FP_UNKNOWN \<Rightarrow> Some (NC_FP_UNSUPPORTED, bank, x))"

definition vf_fp_step :: "vf_cpu \<Rightarrow> (u32 \<times> vf_cpu) option" where
  "vf_fp_step cpu =
     (if cpu_fp_execution_profile cpu = 0 then Some (VF_UNDEFINED_INSTRUCTION, cpu)
      else if cpu_fp_execution_profile cpu \<noteq> VF_FP_EXECUTION_PARTIAL \<or> \<not> vf_cpu_state_valid cpu
              \<or> cpu_exception_pending cpu \<noteq> exception_code VF_EXCEPTION_NONE then Some (VF_IMPLEMENTATION_GAP, cpu)
      else
        let operation = supported_operation (cpu_instruction cpu);
            el = unat (cpu_current_el cpu);
            higher = (if higher_el_active cpu then 1 else 0);
            chk = nc_fp_access_check 1 el (cpu_cpacr_el1 cpu) higher in
        if operation = FP_UNKNOWN then Some (VF_IMPLEMENTATION_GAP, cpu)
        else if chk = NC_FP_TRAP_EL1 then Some (VF_FP_ACCESS_TRAP, cpu)
        else if chk \<noteq> NC_FP_OK then Some (VF_IMPLEMENTATION_GAP, cpu)
        else
          case fp_execute_operation operation (cpu_fp cpu) (cpu_x cpu) (cpu_instruction cpu) el (cpu_cpacr_el1 cpu) higher of
            None \<Rightarrow> None
          | Some (r, bank, x) \<Rightarrow>
              let cpu1 = cpu\<lparr>cpu_fp := bank, cpu_x := x\<rparr> in
              if r \<noteq> NC_FP_OK then Some (VF_IMPLEMENTATION_GAP, cpu1) else Some (VF_NEXT, retire cpu1))"

text \<open>The flag is the build option \<open>NEXTCORE_FP_EXECUTION\<close>.\<close>

definition vf_cpu_enable_fp_research :: "bool \<Rightarrow> vf_cpu \<Rightarrow> rc \<times> vf_cpu" where
  "vf_cpu_enable_fp_research fp_execution cpu =
     (if \<not> fp_execution then (ERR, cpu)
      else if \<not> vf_cpu_state_valid cpu \<or> cpu_current_el cpu > VF_EL1 \<or> higher_el_active cpu
              \<or> cpu_exception_pending cpu \<noteq> 0 \<or> cpu_fp_execution_profile cpu \<noteq> VF_FP_EXECUTION_ABSENT
              \<or> nc_fp_bank_get_q (cpu_fp cpu) 0 = None then (ERR, cpu)
      else (OK, cpu\<lparr>cpu_fp_execution_profile := VF_FP_EXECUTION_PARTIAL\<rparr>))"

definition sysreg_key :: "u32 \<Rightarrow> u32" where
  "sysreg_key w = drop_bit 5 w AND 0x7fff"

definition is_mrs_msr :: "u32 \<Rightarrow> bool" where
  "is_mrs_msr w \<longleftrightarrow> w AND 0xffe00000 = 0xd5200000 \<or> w AND 0xffe00000 = 0xd5000000"

definition pauth_context_of :: "vf_cpu \<Rightarrow> vf_pauth_context" where
  "pauth_context_of cpu =
     \<lparr>pa_x = take 31 (cpu_x cpu), pa_sp = cpu_sp cpu, pa_pc = cpu_pc cpu, pa_sctlr = cpu_sctlr cpu, pa_tcr = cpu_tcr cpu,
      pa_keys = cpu_pauth_keys cpu, pa_current_el = cpu_current_el cpu, pa_reserved = 0\<rparr>"

definition pauth_slow_step :: "vf_cpu \<Rightarrow> bool \<times> vf_cpu" where
  "pauth_slow_step cpu =
     (case cpu_pauth_step cpu of
        None \<Rightarrow> (False, cpu)
      | Some step \<Rightarrow>
          if cpu_current_el cpu > VF_EL1 \<or> cpu_sctlr cpu AND 1 \<noteq> 0 \<or> higher_el_active cpu then (False, cpu)
          else
            let (failed, context) = step (pauth_context_of cpu) (cpu_instruction cpu) in
            if failed \<noteq> 0 then (False, cpu)
            else
              let cpu1 = cpu\<lparr>cpu_x := map (\<lambda>i. pa_x context ! i) [0..<31] @ drop 31 (cpu_x cpu),
                             cpu_pauth_keys := map (\<lambda>i. pa_keys context ! i) [0..<10],
                             cpu_sp := pa_sp context, cpu_pc := pa_pc context, cpu_sctlr := pa_sctlr context,
                             cpu_tcr := pa_tcr context, cpu_retired := cpu_retired cpu + 1\<rparr> in
              (True, vf_cpu_advance_counter cpu1 1))"

definition system_register_slow_step :: "vf_cpu \<Rightarrow> bool \<times> vf_cpu" where
  "system_register_slow_step cpu =
     (let w = cpu_instruction cpu; key = sysreg_key w; rt = unat (w AND 31) in
      if \<not> is_mrs_msr w then (False, cpu)
      else if w AND 0x00200000 \<noteq> 0 then
        (case vf_cpu_read_sysreg cpu key of
           Inl _ \<Rightarrow> (False, cpu)
         | Inr v \<Rightarrow> (True, retire (if rt \<noteq> 31 then cpu\<lparr>cpu_x := (cpu_x cpu)[rt := v]\<rparr> else cpu)))
      else
        let (r, cpu1) = vf_cpu_write_sysreg cpu key (if rt = 31 then 0 else cpu_x cpu ! rt) in
        if r \<noteq> VF_SYSREG_OK then (False, cpu1) else (True, retire cpu1))"

definition system_register_read_slow_step :: "vf_cpu \<Rightarrow> bool \<times> vf_cpu" where
  "system_register_read_slow_step cpu =
     (if \<not> is_mrs_msr (cpu_instruction cpu) \<or> cpu_instruction cpu AND 0x00200000 = 0 then (False, cpu)
      else system_register_slow_step cpu)"

definition platform_override_write_slow_step :: "vf_cpu \<Rightarrow> bool \<times> vf_cpu" where
  "platform_override_write_slow_step cpu =
     (if \<not> is_mrs_msr (cpu_instruction cpu) \<or> cpu_instruction cpu AND 0x00200000 \<noteq> 0
         \<or> sysreg_key (cpu_instruction cpu) \<noteq> VF_PLATFORM_OVERRIDE_KEY then (False, cpu)
      else system_register_slow_step cpu)"

definition fp_access_control_write_slow_step :: "vf_cpu \<Rightarrow> bool \<times> vf_cpu" where
  "fp_access_control_write_slow_step cpu =
     (if \<not> is_mrs_msr (cpu_instruction cpu) \<or> cpu_instruction cpu AND 0x00200000 \<noteq> 0
         \<or> sysreg_key (cpu_instruction cpu) \<noteq> VF_SYSREG_KEY_CPACR_EL1 then (False, cpu)
      else system_register_slow_step cpu)"

definition research_system_register_failure :: "vf_cpu \<Rightarrow> u32 \<Rightarrow> u32" where
  "research_system_register_failure cpu status =
     (if status = VF_SYSTEM_REGISTER_TRAP \<and> cpu_fp_execution_profile cpu = VF_FP_EXECUTION_PARTIAL
         \<and> cpu_current_el cpu = VF_EL1 \<and> is_mrs_msr (cpu_instruction cpu)
         \<and> sysreg_key (cpu_instruction cpu) = VF_SYSREG_KEY_CPACR_EL1 then VF_IMPLEMENTATION_GAP
      else status)"

definition pstate_slow_step :: "vf_cpu \<Rightarrow> bool \<times> vf_cpu" where
  "pstate_slow_step cpu =
     (let w = cpu_instruction cpu in
      if cpu_current_el cpu = VF_EL0 \<or> cpu_sctlr cpu AND 1 \<noteq> 0 then (False, cpu)
      else if w AND 0xfffff0ff = 0xd50340df \<or> w AND 0xfffff0ff = 0xd50340ff then
        (let m = push_bit 6 (ucast (drop_bit 8 w AND 15)) in
         (True, retire (cpu\<lparr>cpu_pstate := (if w AND 255 = 0xdf then cpu_pstate cpu OR m else cpu_pstate cpu AND NOT m)\<rparr>)))
      else if w AND 0xfffffeff = 0xd50040bf then
        (let old = unat (if cpu_pstate cpu AND 1 \<noteq> 0 then cpu_current_el cpu else VF_EL0);
             banks = (cpu_sp_el cpu)[old := cpu_sp cpu];
             ps = (cpu_pstate cpu AND NOT 1) OR ucast (drop_bit 8 w AND 1);
             new = unat (if ps AND 1 \<noteq> 0 then cpu_current_el cpu else VF_EL0) in
         (True, retire (cpu\<lparr>cpu_sp_el := banks, cpu_pstate := ps, cpu_sp := banks ! new\<rparr>)))
      else (False, cpu))"

section \<open>The boot state\<close>

record vf_boot_options_v2 =
  bo_abi_version :: u32
  bo_struct_size :: u32
  bo_platform_profile :: u32
  bo_flags :: u32
  bo_initial_override :: u64
  bo_initial_pstate :: u64
  bo_vbar :: u64
  bo_irq_level :: u64
  bo_fiq_level :: u64
  bo_reserved :: u64

definition boot_defaults :: vf_boot_options_v2 where
  "boot_defaults = \<lparr>bo_abi_version = 2, bo_struct_size = 64, bo_platform_profile = 0, bo_flags = 0, bo_initial_override = 0,
                    bo_initial_pstate = 0x3c5, bo_vbar = 0, bo_irq_level = 0, bo_fiq_level = 0, bo_reserved = 0\<rparr>"

definition vf_cpu_prepare_boot ::
  "vf_cpu \<Rightarrow> u64 \<Rightarrow> u64 \<Rightarrow> u64 \<Rightarrow> u64 \<Rightarrow> u64 \<Rightarrow> u64 list \<Rightarrow> vf_pauth_step option \<Rightarrow> vf_boot_options_v2 option \<Rightarrow> u64
   \<Rightarrow> u32 \<times> vf_cpu" where
  "vf_cpu_prepare_boot cpu ram_size base entry args stack registers pauth options budget =
     (if ram_size < 8 \<or> base > - 1 - ram_size \<or> base AND 0x3fff \<noteq> 0 \<or> entry AND 3 \<noteq> 0 \<or> entry < base
         \<or> entry - base > ram_size - 4 \<or> args AND 7 \<noteq> 0 \<or> args < base \<or> args - base \<ge> ram_size
         \<or> stack AND 15 \<noteq> 0 \<or> stack \<le> base \<or> stack - base > ram_size \<or> budget = 0 then (VF_DATA_FAULT, cpu)
      else
        let config = (case options of None \<Rightarrow> boot_defaults | Some opts \<Rightarrow> opts) in
        if bo_abi_version config \<noteq> 2 \<or> bo_struct_size config \<noteq> 64 \<or> bo_flags config \<noteq> 0 \<or> bo_reserved config \<noteq> 0
           \<or> bo_irq_level config > 1 \<or> bo_fiq_level config > 1
           \<or> (bo_initial_pstate config AND 15 \<noteq> 4 \<and> bo_initial_pstate config AND 15 \<noteq> 5)
           \<or> bo_initial_pstate config AND NOT 0xf00003cf \<noteq> 0
           \<or> (bo_vbar config \<noteq> 0
              \<and> (bo_vbar config AND 0x7ff \<noteq> 0 \<or> bo_vbar config < base \<or> ram_size < 0x800
                 \<or> bo_vbar config - base > ram_size - 0x800)) then (VF_DATA_FAULT, cpu)
        else
          case vf_cpu_configure_platform (vf_cpu_reset cpu VF_EL1) (bo_platform_profile config) (bo_initial_override config) of
            (VF_SYSREG_OK, cpu1) \<Rightarrow>
              let cpu2 = cpu1\<lparr>cpu_pc := entry, cpu_x := map (\<lambda>i. registers ! i) [0..<4] @ drop 4 (cpu_x cpu1), cpu_sp := stack,
                              cpu_sp_el := (cpu_sp_el cpu1)[1 := stack, 0 := stack],
                              cpu_pstate := bo_initial_pstate config,
                              cpu_vbar_el := (cpu_vbar_el cpu1)[1 := bo_vbar config]\<rparr>;
                  (_, cpu3) = vf_cpu_set_interrupt_lines cpu2 (ucast (bo_irq_level config)) (ucast (bo_fiq_level config)) in
              (VF_NEXT, cpu3\<lparr>cpu_guest_ram_base := base, cpu_pauth_step := pauth\<rparr>)
          | (_, cpu1) \<Rightarrow> (VF_DATA_FAULT, cpu1))"

record vf_boot_result =
  br_status :: u32
  br_fault_instruction :: u32
  br_retired :: u64
  br_pc :: u64
  br_x :: "u64 list"
  br_compiled_blocks :: u64

record vf_boot_result_v2 =
  br_base :: vf_boot_result
  br_platform_override :: u64
  br_pending_lines :: u32
  br_platform_profile :: u32
  br_elr :: u64
  br_spsr :: u64
  br_exception_vector :: u64
  br_esr :: u64
  br_pstate :: u64
  br_sp :: u64

definition decoded_fault_instruction :: "vf_cpu \<Rightarrow> u32 \<Rightarrow> u32" where
  "decoded_fault_instruction cpu status =
     (if status \<in> {VF_BAD_INSTRUCTION, VF_UNDEFINED_INSTRUCTION, VF_PRIVILEGE_FAULT, VF_DATA_FAULT, VF_TRANSLATION_FAULT,
                   VF_PERMISSION_FAULT, VF_ALIGNMENT_FAULT, VF_SP_ALIGNMENT_FAULT, VF_SYSTEM_REGISTER_TRAP,
                   VF_FP_ACCESS_TRAP, VF_IMPLEMENTATION_GAP, VF_DATA_ABORT}
      then cpu_instruction cpu else 0)"

definition vf_boot_snapshot :: "vf_cpu \<Rightarrow> u32 \<Rightarrow> vf_boot_result_v2" where
  "vf_boot_snapshot cpu status =
     \<lparr>br_base = \<lparr>br_status = status, br_fault_instruction = decoded_fault_instruction cpu status,
                 br_retired = cpu_retired cpu, br_pc = cpu_pc cpu, br_x = take 4 (cpu_x cpu),
                 br_compiled_blocks = cpu_compiled_blocks cpu\<rparr>,
      br_platform_override = cpu_platform_override cpu,
      br_pending_lines = cpu_irq_level cpu OR push_bit 1 (cpu_fiq_level cpu),
      br_platform_profile = cpu_platform_profile cpu, br_elr = cpu_elr_el cpu ! 1, br_spsr = cpu_spsr_el cpu ! 1,
      br_exception_vector = cpu_exception_vector cpu, br_esr = cpu_esr_el cpu ! 1, br_pstate = cpu_pstate cpu,
      br_sp = cpu_sp cpu\<rparr>"

section \<open>Well-formed states\<close>

definition mode_ok :: "u32 \<Rightarrow> u64 \<Rightarrow> bool" where
  "mode_ok el mode \<longleftrightarrow>
     el = VF_EL0 \<and> mode = 0 \<or> el = VF_EL1 \<and> mode \<in> {4, 5} \<or> el = VF_EL2 \<and> mode \<in> {8, 9} \<or> el = VF_EL3 \<and> mode \<in> {12, 13}"

definition pending_ok :: "u32 \<Rightarrow> bool" where
  "pending_ok k \<longleftrightarrow> k = 0 \<or> valid_exception_kind k"

definition fp_profile_ok :: "vf_cpu \<Rightarrow> bool" where
  "fp_profile_ok c \<longleftrightarrow>
     cpu_fp_execution_profile c \<le> VF_FP_EXECUTION_PARTIAL \<and> cpu_fp_execution_reserved c = 0
     \<and> cpu_cpacr_el1 c AND NOT 0x00300000 = 0 \<and> (cpu_fp_execution_profile c = VF_FP_EXECUTION_ABSENT \<longrightarrow> cpu_cpacr_el1 c = 0)"

lemma valid_iff:
  "vf_cpu_state_valid c \<longleftrightarrow>
     mode_ok (cpu_current_el c) (cpu_pstate c AND 15) \<and> fp_profile_ok c \<and> pending_ok (cpu_exception_pending c)
     \<and> cpu_exception_target_el c \<le> VF_EL3 \<and> cpu_exception_from_lower_el c \<le> 1"
  unfolding vf_cpu_state_valid_def mode_ok_def pending_ok_def fp_profile_ok_def
  by (auto simp: not_less Let_def)

lemma pending_ok_kind [simp]: "pending_ok (exception_code k)"
  by (cases k) (simp_all add: pending_ok_def valid_exception_kind_def)

lemma pending_ok_0 [simp]: "pending_ok 0"
  by (simp add: pending_ok_def)

lemma valid_kind_iff [simp]: "valid_exception_kind (exception_code k) \<longleftrightarrow> k \<noteq> VF_EXCEPTION_NONE"
  by (cases k) (simp_all add: valid_exception_kind_def)

lemma mode_ok_el: "mode_ok el m \<Longrightarrow> el \<le> 3"
  by (auto simp: mode_ok_def)

lemma el_cases:
  assumes "(el :: u32) \<le> 3" shows "el = 0 \<or> el = 1 \<or> el = 2 \<or> el = 3"
proof -
  have "unat el = 0 \<or> unat el = 1 \<or> unat el = 2 \<or> unat el = 3" using assms by (auto simp: word_le_nat_alt)
  then show ?thesis by (auto simp: word_unat_eq_iff)
qed

lemma unat_el: "(el :: u32) \<le> 3 \<Longrightarrow> unat el < 4"
  by (drule el_cases) auto

text \<open>The banks and register files have the sizes of the arrays.\<close>

definition cpu_shape :: "vf_cpu \<Rightarrow> bool" where
  "cpu_shape c \<longleftrightarrow>
     length (cpu_x c) = 32 \<and> length (cpu_sp_el c) = 4 \<and> length (cpu_spsr_el c) = 4 \<and> length (cpu_vbar_el c) = 4
     \<and> length (cpu_esr_el c) = 4 \<and> length (cpu_far_el c) = 4 \<and> length (cpu_elr_el c) = 4
     \<and> length (cpu_pauth_keys c) = 10 \<and> bank_ok (cpu_fp c)"

text \<open>The timer status bits are those of the comparators, and the countdown is the distance to the comparator.\<close>

definition timer_fires :: "u64 \<Rightarrow> u64 \<Rightarrow> u64 \<Rightarrow> bool" where
  "timer_fires ctl cnt cval \<longleftrightarrow> bit ctl 0 \<and> \<not> bit ctl 1 \<and> cval \<le> cnt"

definition cpu_timers :: "vf_cpu \<Rightarrow> bool" where
  "cpu_timers c \<longleftrightarrow>
     (bit (cpu_cntp_ctl c) 2 \<longleftrightarrow> timer_fires (cpu_cntp_ctl c) (cpu_cntpct c) (cpu_cntp_cval c))
     \<and> (bit (cpu_cntv_ctl c) 2 \<longleftrightarrow> timer_fires (cpu_cntv_ctl c) (cpu_cntvct c) (cpu_cntv_cval c))
     \<and> cpu_cntp_tval c = (if cpu_cntpct c \<le> cpu_cntp_cval c then cpu_cntp_cval c - cpu_cntpct c else 0)"

definition cpu_wf :: "vf_cpu \<Rightarrow> bool" where
  "cpu_wf c \<longleftrightarrow> vf_cpu_state_valid c \<and> cpu_shape c \<and> cpu_timers c"

lemma and_4_bit: "(w :: u64) AND 4 = 0 \<longleftrightarrow> \<not> bit w 2"
  by (rule and_flag_eq_0) simp

lemma and_2_bit: "(w :: u64) AND 2 = 0 \<longleftrightarrow> \<not> bit w 1"
  by (rule and_flag_eq_0) simp

lemma timer_status_bits:
  "bit (timer_status ctl cnt cval) 0 \<longleftrightarrow> bit ctl 0" "bit (timer_status ctl cnt cval) 1 \<longleftrightarrow> bit ctl 1"
  "bit (timer_status ctl cnt cval) 2 \<longleftrightarrow> timer_fires ctl cnt cval"
  unfolding timer_status_def timer_fires_def and_2_bit word_and_1_eq_0
  by (simp_all add: bit_simps)

lemma timer_fires_status [simp]: "timer_fires (timer_status ctl cnt cval) cnt cval \<longleftrightarrow> timer_fires ctl cnt cval"
  unfolding timer_fires_def timer_status_bits ..

lemma update_timers [simp]: "cpu_timers (update_timer_status c)"
  by (simp add: cpu_timers_def update_timer_status_def timer_status_bits)

lemma update_frame [simp]:
  "vf_cpu_state_valid (update_timer_status c) = vf_cpu_state_valid c" "cpu_shape (update_timer_status c) = cpu_shape c"
  by (simp_all add: update_timer_status_def valid_iff fp_profile_ok_def cpu_shape_def)

lemma advance_wf [simp]: "cpu_wf (vf_cpu_advance_counter c n) \<longleftrightarrow> vf_cpu_state_valid c \<and> cpu_shape c"
  by (simp add: cpu_wf_def vf_cpu_advance_counter_def) (simp add: valid_iff fp_profile_ok_def cpu_shape_def)

lemma retire_wf [simp]: "cpu_wf (retire c) \<longleftrightarrow> vf_cpu_state_valid c \<and> cpu_shape c"
  by (simp add: retire_def) (simp add: valid_iff fp_profile_ok_def cpu_shape_def)

section \<open>Every operation keeps the state well formed\<close>

named_theorems cpu_wf_intros

lemmas cpu_fields = valid_iff fp_profile_ok_def cpu_shape_def cpu_timers_def

lemma mode_for_el_ok: "el \<le> 3 \<Longrightarrow> mode_ok el (mode_for_el el)" "el \<le> 3 \<Longrightarrow> mode_for_el el AND 15 = mode_for_el el"
  by (auto dest!: el_cases simp: mode_ok_def mode_for_el_def)

lemma mode_cleared: "((x :: u64) AND - 16) AND 15 = 0"
  using and_not_and_same [of x 15] by simp

lemma mode_replaced:
  assumes "el \<le> 3"
  shows "mode_ok el (((p AND - 16) OR mode_for_el el) AND 15)"
    "mode_ok el (((p AND - 16) OR mode_for_el el OR 0x3c0) AND 15)"
  by (simp_all only: bit.conj_disj_distrib2 mode_cleared mode_for_el_ok [OF assms] or.left_neutral) (simp add: mode_for_el_ok [OF assms])

lemma reset_wf [cpu_wf_intros]: "cpu_wf (vf_cpu_reset c el)"
  by (auto simp: cpu_wf_def cpu_fields vf_cpu_reset_def cpu_zero_def Let_def mode_for_el_ok timer_fires_def bank_ok_def bank_malformed_def)

lemma save_wf: "cpu_wf c \<Longrightarrow> cpu_wf (save_active_sp c)"
  by (simp add: save_active_sp_def cpu_wf_def cpu_fields)

lemma wf_el: "cpu_wf c \<Longrightarrow> cpu_current_el c \<le> 3"
  by (auto simp: cpu_wf_def valid_iff dest: mode_ok_el)

lemma set_el_wf [cpu_wf_intros]: "cpu_wf c \<Longrightarrow> cpu_wf (snd (vf_cpu_set_current_el c el))"
  by (auto simp: vf_cpu_set_current_el_def Let_def cpu_wf_def cpu_fields save_active_sp_def mode_replaced mode_for_el_ok not_less)

lemma clear_wf [cpu_wf_intros]: "cpu_wf c \<Longrightarrow> cpu_wf (vf_cpu_clear_exception c)"
  by (simp add: vf_cpu_clear_exception_def cpu_wf_def cpu_fields)

lemma target_el_le: "cpu_wf c \<Longrightarrow> target_el c \<le> 3"
  using wf_el [of c] by (simp add: target_el_def)

lemma raise_wf [cpu_wf_intros]: "cpu_wf c \<Longrightarrow> cpu_wf (snd (vf_cpu_raise_exception c k pc far syn w))"
  using target_el_le [of c]
  by (simp add: vf_cpu_raise_exception_def Let_def) (simp add: cpu_wf_def cpu_fields save_active_sp_def)

lemma take_wf [cpu_wf_intros]: "cpu_wf c \<Longrightarrow> cpu_wf (snd (vf_cpu_take_exception c))"
  by (auto simp: vf_cpu_take_exception_def vf_cpu_clear_exception_def Let_def cpu_wf_def cpu_fields mode_replaced
      mode_for_el_ok not_less)

lemma status_wf [simp]: "cpu_wf (c\<lparr>cpu_status := st\<rparr>) \<longleftrightarrow> cpu_wf c" "cpu_wf (c\<lparr>cpu_instruction := w\<rparr>) \<longleftrightarrow> cpu_wf c"
  "cpu_wf (c\<lparr>cpu_pc := pc\<rparr>) \<longleftrightarrow> cpu_wf c"
  by (simp_all add: cpu_wf_def cpu_fields)

lemma commit_wf [cpu_wf_intros]: "cpu_wf c \<Longrightarrow> cpu_wf (snd (vf_cpu_commit_status c st))"
  by (simp add: vf_cpu_commit_status_def Let_def raise_wf split: option.split prod.split)

lemma invalidate_wf [cpu_wf_intros]: "cpu_wf c \<Longrightarrow> cpu_wf (vf_cpu_invalidate_tlb c)"
  by (simp add: vf_cpu_invalidate_tlb_def cpu_wf_def cpu_fields)

lemma platform_wf [cpu_wf_intros]: "cpu_wf c \<Longrightarrow> cpu_wf (snd (vf_cpu_configure_platform c profile v))"
  by (simp add: vf_cpu_configure_platform_def cpu_wf_def cpu_fields)

lemma lines_wf [cpu_wf_intros]: "cpu_wf c \<Longrightarrow> cpu_wf (snd (vf_cpu_set_interrupt_lines c irq fiq))"
  by (simp add: vf_cpu_set_interrupt_lines_def cpu_wf_def cpu_fields)

text \<open>Validity and shape together, without the timers: what the register switch keeps before the timers are updated.\<close>

definition cpu_base :: "vf_cpu \<Rightarrow> bool" where
  "cpu_base c \<longleftrightarrow> vf_cpu_state_valid c \<and> cpu_shape c"

lemma wf_base: "cpu_wf c \<Longrightarrow> cpu_base c"
  by (simp add: cpu_wf_def cpu_base_def)

lemma update_wf: "cpu_base c \<Longrightarrow> cpu_wf (update_timer_status c)"
  by (simp add: cpu_wf_def cpu_base_def)

lemma retire_base_wf: "cpu_base c \<Longrightarrow> cpu_wf (retire c)"
  by (simp add: cpu_base_def)

lemma store_base: "cpu_base c \<Longrightarrow> cpu_base (snd (sysreg_store c key v))"
  unfolding sysreg_store_def
  by (intro if_arm [where P = "\<lambda>r. cpu_base (snd r)"]; (simp only: snd_conv)?;
      simp add: cpu_base_def valid_iff fp_profile_ok_def cpu_shape_def vf_cpu_invalidate_tlb_def)

text \<open>A refused register access leaves the processor as it was.\<close>

definition sysreg_closed :: "vf_cpu \<Rightarrow> vf_sysreg_result \<times> vf_cpu \<Rightarrow> bool" where
  "sysreg_closed c r \<longleftrightarrow> (fst r \<noteq> VF_SYSREG_OK \<longrightarrow> snd r = c)"

lemma closed_simps [simp]: "sysreg_closed c (r, c)" "sysreg_closed c (VF_SYSREG_OK, c')"
  by (simp_all add: sysreg_closed_def)

lemma store_closed: "sysreg_closed c (sysreg_store c key v)"
  unfolding sysreg_store_def by (intro if_arm [where P = "sysreg_closed c"]; simp only: closed_simps)

lemma platform_closed: "sysreg_closed c (vf_cpu_configure_platform c profile v)"
  by (simp add: vf_cpu_configure_platform_def)

text \<open>What a register write can do.\<close>

definition write_effect :: "vf_cpu \<Rightarrow> u32 \<Rightarrow> u64 \<Rightarrow> vf_sysreg_result \<times> vf_cpu \<Rightarrow> bool" where
  "write_effect c key v w \<longleftrightarrow>
     (\<exists>r. r \<noteq> VF_SYSREG_OK \<and> w = (r, c))
     \<or> key = VF_SYSREG_KEY_CPACR_EL1 \<and> cpu_current_el c = VF_EL1 \<and> cpu_fp_execution_profile c = VF_FP_EXECUTION_PARTIAL
        \<and> v AND NOT 0x00300000 = 0 \<and> w = (VF_SYSREG_OK, c\<lparr>cpu_cpacr_el1 := v\<rparr>)
     \<or> key = VF_PLATFORM_OVERRIDE_KEY \<and> cpu_current_el c = VF_EL1 \<and> w = (VF_SYSREG_OK, c\<lparr>cpu_platform_override := v\<rparr>)
     \<or> (\<exists>c1. 0 \<le> sysreg_min_el key \<and> sysreg_min_el key \<le> int (unat (cpu_current_el c))
           \<and> sysreg_store c key v = (VF_SYSREG_OK, c1) \<and> w = (VF_SYSREG_OK, update_timer_status c1))"

lemma write_effect_refused [simp]: "r \<noteq> VF_SYSREG_OK \<Longrightarrow> write_effect c key v (r, c)"
  by (simp add: write_effect_def)

lemma write_effect_platform:
  "cpu_current_el c = VF_EL1 \<Longrightarrow> cpu_platform_profile c = p \<Longrightarrow>
   write_effect c VF_PLATFORM_OVERRIDE_KEY v (vf_cpu_configure_platform c p v)"
  by (simp add: vf_cpu_configure_platform_def) (simp add: write_effect_def)

lemma write_effect_store:
  assumes "0 \<le> sysreg_min_el key" "sysreg_min_el key \<le> int (unat (cpu_current_el c))"
  shows "write_effect c key v (let (r, c1) = sysreg_store c key v in
                               if r = VF_SYSREG_OK then (VF_SYSREG_OK, update_timer_status c1) else (r, c1))"
  using assms store_closed [of c key v]
  by (cases "sysreg_store c key v") (auto simp: write_effect_def sysreg_closed_def)

lemma write_sysreg_effect: "write_effect c key v (vf_cpu_write_sysreg c key v)"
proof -
  have "write_effect c VF_SYSREG_KEY_CPACR_EL1 v (VF_SYSREG_OK, c\<lparr>cpu_cpacr_el1 := v\<rparr>)"
    if "cpu_current_el c = VF_EL1" "cpu_fp_execution_profile c = VF_FP_EXECUTION_PARTIAL" "v AND NOT 0x00300000 = 0"
    using that by (simp add: write_effect_def)
  then show ?thesis
    unfolding vf_cpu_write_sysreg_def Let_def [of "sysreg_min_el key"]
    by (intro if_arm [where P = "write_effect c key v"])
      (auto simp only: not_less de_Morgan_disj not_not simp_thms write_effect_refused write_effect_platform
        vf_sysreg_result.distinct split: if_split intro!: write_effect_store)
qed

lemma store_wf: "cpu_wf c \<Longrightarrow> sysreg_store c key v = (r, c1) \<Longrightarrow> cpu_wf (update_timer_status c1)"
  using store_base [of c key v] by (simp add: update_wf wf_base)

lemma write_wf [cpu_wf_intros]: "cpu_wf c \<Longrightarrow> cpu_wf (snd (vf_cpu_write_sysreg c key v))"
  using write_sysreg_effect [of c key v] unfolding write_effect_def
  by (elim disjE exE conjE; simp add: store_wf; simp add: cpu_wf_def cpu_fields)

lemma take_interrupt_wf: "cpu_wf c \<Longrightarrow> vf_cpu_take_exception c = (r, c') \<Longrightarrow> cpu_wf c'"
  using take_wf [of c] by simp

lemma raise_interrupt_wf: "cpu_wf c \<Longrightarrow> vf_cpu_raise_exception c k pc far syn w = (r, c') \<Longrightarrow> cpu_wf c'"
  using raise_wf [of c k pc far syn w] by simp

lemma poll_wf [cpu_wf_intros]: "cpu_wf c \<Longrightarrow> cpu_wf (snd (vf_cpu_poll_interrupt c))"
  unfolding vf_cpu_poll_interrupt_def Let_def
  by (intro if_arm [where P = "\<lambda>r. cpu_wf (snd r)"])
    (auto split: option.split prod.split rc.split dest: raise_interrupt_wf [rotated] take_interrupt_wf [rotated])

lemma enable_wf [cpu_wf_intros]: "cpu_wf c \<Longrightarrow> cpu_wf (snd (vf_cpu_enable_fp_research b c))"
  by (simp add: vf_cpu_enable_fp_research_def cpu_wf_def cpu_fields)

lemma register_base: "cpu_base c \<Longrightarrow> length xs = 32 \<Longrightarrow> cpu_base (c\<lparr>cpu_x := xs\<rparr>)"
  by (simp add: cpu_base_def valid_iff fp_profile_ok_def cpu_shape_def)

lemma base_x: "cpu_base c \<Longrightarrow> length (cpu_x c) = 32"
  by (simp add: cpu_base_def cpu_shape_def)

lemma sysreg_step_wf [cpu_wf_intros]: "cpu_wf c \<Longrightarrow> cpu_wf (snd (system_register_slow_step c))"
  using write_wf [of c "sysreg_key (cpu_instruction c)"]
  by (auto simp: system_register_slow_step_def Let_def case_prod_beta retire_base_wf register_base base_x wf_base
      split: sum.split simp del: retire_wf)

lemma bit_low_nibble: "bit (15 :: u64) n \<longleftrightarrow> n < 4"
proof -
  have "(15 :: u64) = mask 4" by (simp add: mask_eq_exp_minus_1)
  then show ?thesis by (simp only: bit_mask_iff) auto
qed

lemma spsel_mode:
  assumes "mode_ok el (p AND 15)" "el \<noteq> 0" "b = 0 \<or> b = 1"
  shows "mode_ok el (((p AND NOT 1) OR b) AND 15)"
proof -
  have "b AND 15 = b" using assms(3) by auto
  then have "((p AND NOT 1) OR b) AND 15 = ((p AND 15) AND NOT 1) OR b"
    by (simp only: bit.conj_disj_distrib2) (simp only: ac_simps)
  then show ?thesis using assms by (auto simp: mode_ok_def)
qed

lemma bool_word: "(w :: u32) AND 1 = 0 \<or> w AND 1 = 1"
  by (simp add: and_one_eq mod_2_eq_odd)

lemma pstate_step_wf [cpu_wf_intros]:
  assumes wf: "cpu_wf c" shows "cpu_wf (snd (pstate_slow_step c))"
proof -
  define w where "w = cpu_instruction c"
  let ?m = "push_bit 6 (ucast (drop_bit 8 w AND 15)) :: u64"
  have "?m AND 15 = 0"
    by (rule bit_eqI) (simp only: bit_and_iff bit_push_bit_iff bit_low_nibble, simp)
  then have keep: "(cpu_pstate c OR ?m) AND 15 = cpu_pstate c AND 15" "(cpu_pstate c AND NOT ?m) AND 15 = cpu_pstate c AND 15"
    by (simp_all only: or_and_disjoint and_not_and_disjoint)
  have base: "cpu_base (c\<lparr>cpu_pstate := p\<rparr>)" if "p AND 15 = cpu_pstate c AND 15" for p
    using wf that by (simp add: cpu_wf_def cpu_base_def valid_iff fp_profile_ok_def cpu_shape_def)
  have daif: "cpu_base (c\<lparr>cpu_pstate := if b then cpu_pstate c OR ?m else cpu_pstate c AND NOT ?m\<rparr>)" for b
    by (cases b) (simp_all only: if_True if_False keep base)
  have "ucast (drop_bit 8 w AND 1 :: u32) = (0 :: u64) \<or> ucast (drop_bit 8 w AND 1 :: u32) = (1 :: u64)"
    using bool_word [of "drop_bit 8 w"] by auto
  then have mode: "cpu_current_el c \<noteq> 0 \<Longrightarrow> mode_ok (cpu_current_el c) ((cpu_pstate c AND NOT 1 OR ucast (drop_bit 8 w AND 1)) AND 15)"
    using wf by (intro spsel_mode) (simp_all add: cpu_wf_def valid_iff)
  have spsel: "cpu_current_el c \<noteq> 0 \<Longrightarrow>
      cpu_base (c\<lparr>cpu_sp_el := (cpu_sp_el c)[i := x], cpu_pstate := cpu_pstate c AND NOT 1 OR ucast (drop_bit 8 w AND 1), cpu_sp := y\<rparr>)" for i x y
    using wf mode by (simp add: cpu_wf_def cpu_base_def valid_iff fp_profile_ok_def cpu_shape_def)
  show ?thesis
    unfolding pstate_slow_step_def Let_def w_def [symmetric]
    by (intro if_arm [where P = "\<lambda>r. cpu_wf (snd r)"])
      (auto simp only: snd_conv wf de_Morgan_disj intro!: retire_base_wf daif spsel)
qed

lemma pauth_step_wf [cpu_wf_intros]: "cpu_wf c \<Longrightarrow> cpu_wf (snd (pauth_slow_step c))"
  by (auto simp: pauth_slow_step_def Let_def case_prod_beta split: option.split)
    (simp_all add: cpu_wf_def cpu_fields)

lemma fp_operation_service:
  "\<exists>r. fp_execute_operation operation bank x w el cpacr higher = Some r \<and> fp_service_ok bank x r"
proof (cases operation)
  case FP_CONTROL
  then show ?thesis by (simp add: fp_execute_operation_def control_service del: One_nat_def)
next
  case FP_BITWISE
  then show ?thesis by (auto simp: fp_execute_operation_def split: prod.split intro: bitwise_service)
qed (simp_all add: fp_execute_operation_def execute32_service del: split_paired_Ex)

text \<open>A floating-point step always ends; unless it retires, the processor is unchanged.\<close>

definition fp_step_effect :: "vf_cpu \<Rightarrow> (u32 \<times> vf_cpu) option \<Rightarrow> bool" where
  "fp_step_effect c out \<longleftrightarrow>
     (\<exists>st. st \<noteq> VF_NEXT \<and> out = Some (st, c))
     \<or> (\<exists>bank x. fp_service_ok (cpu_fp c) (cpu_x c) (NC_FP_OK, bank, x)
           \<and> out = Some (VF_NEXT, retire (c\<lparr>cpu_fp := bank, cpu_x := x\<rparr>)))"

lemma fp_step_same [simp]: "st \<noteq> VF_NEXT \<Longrightarrow> fp_step_effect c (Some (st, c))"
  by (simp add: fp_step_effect_def)

lemma fp_step_tail:
  "fp_step_effect c
     (case fp_execute_operation operation (cpu_fp c) (cpu_x c) w el cpacr higher of
        None \<Rightarrow> None
      | Some (r, bank, x) \<Rightarrow>
          let cpu1 = c\<lparr>cpu_fp := bank, cpu_x := x\<rparr> in
          if r \<noteq> NC_FP_OK then Some (VF_IMPLEMENTATION_GAP, cpu1) else Some (VF_NEXT, retire cpu1))"
proof -
  obtain r bank x where e: "fp_execute_operation operation (cpu_fp c) (cpu_x c) w el cpacr higher = Some (r, bank, x)"
    and ok: "fp_service_ok (cpu_fp c) (cpu_x c) (r, bank, x)"
    using fp_operation_service [of operation "cpu_fp c" "cpu_x c" w el cpacr higher] by auto
  show ?thesis
  proof (cases "r = NC_FP_OK")
    case True
    with e ok show ?thesis by (auto simp: fp_step_effect_def)
  next
    case False
    with ok have "bank = cpu_fp c" "x = cpu_x c" by (simp_all add: fp_service_ok_def)
    with e False show ?thesis by simp
  qed
qed

lemma fp_step_returns: "fp_step_effect c (vf_fp_step c)"
  unfolding vf_fp_step_def Let_def [of "supported_operation _"] Let_def [of "unat _"] Let_def [of "if _ then _ else _"]
    Let_def [of "nc_fp_access_check _ _ _ _"]
  by (intro if_arm [where P = "fp_step_effect c"] fp_step_tail fp_step_same; simp)

lemma fp_step_wf:
  assumes wf: "cpu_wf c" shows "\<exists>st c'. vf_fp_step c = Some (st, c') \<and> cpu_wf c'"
  using fp_step_returns [of c] unfolding fp_step_effect_def
proof (elim disjE exE conjE)
  fix bank x
  assume "fp_service_ok (cpu_fp c) (cpu_x c) (NC_FP_OK, bank, x)"
    and r: "vf_fp_step c = Some (VF_NEXT, retire (c\<lparr>cpu_fp := bank, cpu_x := x\<rparr>))"
  then have "cpu_base (c\<lparr>cpu_fp := bank, cpu_x := x\<rparr>)"
    using wf by (simp add: fp_service_ok_def cpu_wf_def cpu_base_def valid_iff fp_profile_ok_def cpu_shape_def)
  with r show ?thesis by (simp add: retire_base_wf del: retire_wf)
qed (use wf in auto)

section \<open>Operations in any order\<close>

text \<open>
  The calls that the execution loops make on the processor; \<open>Op_fetch\<close> is the instruction word that generated
  code stores before it hands an instruction to the software steps.
\<close>

datatype cpu_op = Op_reset u32 | Op_set_el u32 | Op_raise vf_exception_kind u64 u64 u32 u32 | Op_take | Op_clear
  | Op_commit u32 | Op_write u32 u64 | Op_advance u64 | Op_platform u32 u64 | Op_lines u32 u32 | Op_poll | Op_tlb
  | Op_enable_fp bool | Op_fetch u32 | Op_fp_step | Op_sysreg_step | Op_pstate_step | Op_pauth_step

fun cpu_apply :: "vf_cpu \<Rightarrow> cpu_op \<Rightarrow> vf_cpu option" where
  "cpu_apply c (Op_reset el) = Some (vf_cpu_reset c el)"
| "cpu_apply c (Op_set_el el) = Some (snd (vf_cpu_set_current_el c el))"
| "cpu_apply c (Op_raise k pc far syn w) = Some (snd (vf_cpu_raise_exception c k pc far syn w))"
| "cpu_apply c Op_take = Some (snd (vf_cpu_take_exception c))"
| "cpu_apply c Op_clear = Some (vf_cpu_clear_exception c)"
| "cpu_apply c (Op_commit st) = Some (snd (vf_cpu_commit_status c st))"
| "cpu_apply c (Op_write key v) = Some (snd (vf_cpu_write_sysreg c key v))"
| "cpu_apply c (Op_advance n) = Some (vf_cpu_advance_counter c n)"
| "cpu_apply c (Op_platform p v) = Some (snd (vf_cpu_configure_platform c p v))"
| "cpu_apply c (Op_lines irq fiq) = Some (snd (vf_cpu_set_interrupt_lines c irq fiq))"
| "cpu_apply c Op_poll = Some (snd (vf_cpu_poll_interrupt c))"
| "cpu_apply c Op_tlb = Some (vf_cpu_invalidate_tlb c)"
| "cpu_apply c (Op_enable_fp b) = Some (snd (vf_cpu_enable_fp_research b c))"
| "cpu_apply c (Op_fetch w) = Some (c\<lparr>cpu_instruction := w\<rparr>)"
| "cpu_apply c Op_fp_step = map_option snd (vf_fp_step c)"
| "cpu_apply c Op_sysreg_step = Some (snd (system_register_slow_step c))"
| "cpu_apply c Op_pstate_step = Some (snd (pstate_slow_step c))"
| "cpu_apply c Op_pauth_step = Some (snd (pauth_slow_step c))"

fun cpu_run :: "vf_cpu \<Rightarrow> cpu_op list \<Rightarrow> vf_cpu option" where
  "cpu_run c [] = Some c"
| "cpu_run c (a # as) = (case cpu_apply c a of None \<Rightarrow> None | Some c' \<Rightarrow> cpu_run c' as)"

lemma advance_keeps_wf [cpu_wf_intros]: "cpu_wf c \<Longrightarrow> cpu_wf (vf_cpu_advance_counter c n)"
  by (simp add: cpu_wf_def [of c])

lemma apply_wf: "cpu_wf c \<Longrightarrow> \<exists>c'. cpu_apply c a = Some c' \<and> cpu_wf c'"
proof (cases a)
  case Op_fp_step
  assume "cpu_wf c"
  then show ?thesis using fp_step_wf [of c] Op_fp_step by auto
qed (simp_all add: cpu_wf_intros del: advance_wf)

lemma run_wf: "cpu_wf c \<Longrightarrow> \<exists>c'. cpu_run c as = Some c' \<and> cpu_wf c'"
proof (induction as arbitrary: c)
  case (Cons a as)
  then obtain c' where "cpu_apply c a = Some c'" "cpu_wf c'" using apply_wf by blast
  with Cons.IH show ?case by simp
qed simp

text \<open>C22. Whatever sequence of operations the loops apply to a reset processor, in any order and with any
  arguments, it ends; the state then satisfies \<open>vf_cpu_state_valid\<close>, its banks have the sizes of the
  arrays and the floating-point bank holds only representable control and status values; and a timer
  interrupt is pending exactly when an enabled and unmasked comparator has been reached.\<close>

theorem cpu_reachable_wellformed:
  "\<exists>c. cpu_run (vf_cpu_reset c0 el) as = Some c \<and> vf_cpu_state_valid c \<and> cpu_shape c
     \<and> (vf_cpu_timer_pending c \<longleftrightarrow>
          timer_fires (cpu_cntp_ctl c) (cpu_cntpct c) (cpu_cntp_cval c)
          \<or> timer_fires (cpu_cntv_ctl c) (cpu_cntvct c) (cpu_cntv_cval c))"
  using run_wf [OF reset_wf, of c0 el as]
  by (auto simp: cpu_wf_def cpu_timers_def vf_cpu_timer_pending_def and_4_bit)

section \<open>Interrupt delivery\<close>

text \<open>The two masks: the \<open>PSTATE\<close> bit and the platform override, which disables an interrupt with the value two.\<close>

definition override_of :: "vf_cpu \<Rightarrow> u64" where
  "override_of c = (if cpu_platform_profile c = VF_PLATFORM_IRQ_COMPAT_V1 then cpu_platform_override c else 0)"

definition fiq_deliverable :: "vf_cpu \<Rightarrow> bool" where
  "fiq_deliverable c \<longleftrightarrow> cpu_fiq_level c \<noteq> 0 \<and> \<not> bit (cpu_pstate c) 6 \<and> drop_bit 20 (override_of c) AND 3 \<noteq> 2"

definition irq_deliverable :: "vf_cpu \<Rightarrow> bool" where
  "irq_deliverable c \<longleftrightarrow>
     (vf_cpu_timer_pending c \<or> cpu_irq_level c \<noteq> 0) \<and> \<not> bit (cpu_pstate c) 7 \<and> drop_bit 22 (override_of c) AND 3 \<noteq> 2"

lemma choice_exact:
  "interrupt_choice c =
     (if fiq_deliverable c then Some (VF_FIQ_INTERRUPT, VF_EXCEPTION_FIQ_INTERRUPT)
      else if irq_deliverable c then
        (if vf_cpu_timer_pending c then Some (VF_TIMER_INTERRUPT, VF_EXCEPTION_TIMER_INTERRUPT)
         else Some (VF_EXTERNAL_INTERRUPT, VF_EXCEPTION_EXTERNAL_INTERRUPT))
      else None)"
  unfolding interrupt_choice_def fiq_deliverable_def irq_deliverable_def override_of_def Let_def and_shift_eq_0 by simp

lemma vector_fits:
  assumes "off \<le> (0x7ff :: u64)" shows "\<not> - 1 - off < v AND NOT 0x7ff"
proof -
  have top: "unat (- 1 - y :: u64) = unat (- 1 :: u64) - unat y" for y by (intro unat_sub word_order.extremum)
  have "v AND NOT 0x7ff \<le> NOT 0x7ff" by (rule word_and_le1)
  also have "NOT 0x7ff = - 1 - (0x7ff :: u64)" by (simp add: not_eq_complement)
  also have "\<dots> \<le> - 1 - off" using assms unfolding word_le_nat_alt top by (rule diff_le_mono2)
  finally show ?thesis by (simp only: not_less)
qed

text \<open>The offset of the vector entry: by the level and stack the interrupt was taken from, and by its class.\<close>

definition irq_vector_offset :: "vf_cpu \<Rightarrow> vf_exception_kind \<Rightarrow> u64" where
  "irq_vector_offset c k =
     (if cpu_current_el c = VF_EL0 then 0x400 else if bit (cpu_pstate c) 0 then 0x200 else 0)
     + (if k = VF_EXCEPTION_FIQ_INTERRUPT then 0x100 else 0x80)"

lemma irq_vector_offset_le: "irq_vector_offset c k \<le> 0x7ff"
  by (simp add: irq_vector_offset_def)

definition irq_entered :: "vf_cpu \<Rightarrow> vf_exception_kind \<Rightarrow> vf_cpu \<Rightarrow> bool" where
  "irq_entered c k c' \<longleftrightarrow>
     cpu_current_el c' = VF_EL1
     \<and> cpu_pc c' = (cpu_vbar_el c ! 1 AND NOT 0x7ff) + irq_vector_offset c k
     \<and> cpu_elr_el c' ! 1 = cpu_pc c \<and> cpu_spsr_el c' ! 1 = cpu_pstate c
     \<and> cpu_pstate c' AND VF_PSTATE_DAIF_MASK = VF_PSTATE_DAIF_MASK
     \<and> cpu_sp_el c' ! (if cpu_current_el c = VF_EL0 \<or> \<not> bit (cpu_pstate c) 0 then 0 else 1) = cpu_sp c
     \<and> cpu_sp c' = cpu_sp_el c' ! 1
     \<and> cpu_x c' = cpu_x c \<and> cpu_fp c' = cpu_fp c \<and> cpu_esr_el c' = cpu_esr_el c \<and> cpu_far_el c' = cpu_far_el c
     \<and> cpu_exception_pending c' = 0 \<and> cpu_hcr_el2 c' = cpu_hcr_el2 c \<and> cpu_scr_el3 c' = cpu_scr_el3 c"

lemma el_below_2: "(el :: u32) \<le> 1 \<Longrightarrow> el = 0 \<or> el = 1"
  using el_cases [of el] by (auto simp: word_le_nat_alt)

lemma irq_entry:
  assumes wf: "cpu_wf c" and pend: "cpu_exception_pending c = 0" and el: "cpu_current_el c \<le> 1" and k: "asynchronous k"
  shows "\<exists>c1 c2. vf_cpu_raise_exception c k (cpu_pc c) 0 0 0 = (OK, c1) \<and> vf_cpu_take_exception c1 = (OK, c2) \<and> irq_entered c k c2"
proof -
  define c1 where "c1 = snd (vf_cpu_raise_exception c k (cpu_pc c) 0 0 0)"
  have v: "vf_cpu_state_valid c" and sh: "cpu_shape c" using wf by (simp_all add: cpu_wf_def)
  have t: "target_el c = 1" using el_below_2 [OF el] by (auto simp: target_el_def)
  have kn: "k \<noteq> VF_EXCEPTION_NONE" using k by (auto simp: asynchronous_def)
  have r: "vf_cpu_raise_exception c k (cpu_pc c) 0 0 0 = (OK, c1)"
    using v pend kn by (simp add: c1_def vf_cpu_raise_exception_def Let_def)
  have f: "cpu_exception_pending c1 = exception_code k" "cpu_exception_target_el c1 = 1"
    "cpu_exception_from_lower_el c1 = (if cpu_current_el c = 0 then 1 else 0)"
    "cpu_spsr_el c1 ! 1 = cpu_pstate c" "cpu_elr_el c1 ! 1 = cpu_pc c" "cpu_vbar_el c1 = cpu_vbar_el c"
    "cpu_esr_el c1 = cpu_esr_el c" "cpu_far_el c1 = cpu_far_el c" "cpu_x c1 = cpu_x c" "cpu_fp c1 = cpu_fp c"
    "cpu_sp_el c1 = (cpu_sp_el c)[unat (active_sp_index c) := cpu_sp c]"
    "cpu_hcr_el2 c1 = cpu_hcr_el2 c" "cpu_scr_el3 c1 = cpu_scr_el3 c"
    using v pend kn k t sh el el_below_2 [OF el]
    by (auto simp: c1_def vf_cpu_raise_exception_def Let_def save_active_sp_def cpu_shape_def)
  have v1: "vf_cpu_state_valid c1" using raise_wf [OF wf] by (simp add: c1_def cpu_wf_def)
  have off: "vector_offset c1 = irq_vector_offset c k"
    using k f(4) unfolding vector_offset_def irq_vector_offset_def Let_def f(1-3) word_and_1_eq_0 asynchronous_def
    by auto
  have ck: "exception_code k \<noteq> 0" using k by (auto simp: asynchronous_def)
  define c2 where "c2 = snd (vf_cpu_take_exception c1)"
  have tk: "vf_cpu_take_exception c1 = (OK, c2)"
    using v1 ck vector_fits [OF irq_vector_offset_le]
    by (simp add: c2_def vf_cpu_take_exception_def Let_def f off del: word_not_simps)
  have sp: "cpu_sp_el c1 ! (if cpu_current_el c = 0 \<or> \<not> bit (cpu_pstate c) 0 then 0 else 1) = cpu_sp c"
    using sh el_below_2 [OF el] unfolding f(11) active_sp_index_def word_and_1_eq_0 cpu_shape_def by auto
  have daif: "(p OR q OR VF_PSTATE_DAIF_MASK) AND VF_PSTATE_DAIF_MASK = VF_PSTATE_DAIF_MASK" for p q
    by (simp only: or.assoc [symmetric] or_and_same)
  have "irq_entered c k c2"
    using v1 ck sp daif vector_fits [OF irq_vector_offset_le] f
    by (simp add: irq_entered_def c2_def vf_cpu_take_exception_def vf_cpu_clear_exception_def Let_def off)
  with r tk show ?thesis by blast
qed

lemma masked_bits:
  assumes "(p :: u64) AND VF_PSTATE_DAIF_MASK = VF_PSTATE_DAIF_MASK" shows "bit p 6" "bit p 7"
proof -
  have "bit (p AND 0x3c0) 6" "bit (p AND 0x3c0) 7" unfolding assms by simp_all
  then show "bit p 6" "bit p 7" by (simp_all only: bit_and_iff)
qed

definition cpu_demo :: vf_cpu where
  "cpu_demo = (vf_cpu_reset cpu_zero VF_EL1)\<lparr>cpu_pc := 0x8000, cpu_vbar_el := [0, 0x4000, 0, 0], cpu_irq_level := 1\<rparr>"

lemma poll_interrupt_open:
  assumes "vf_cpu_state_valid c" "cpu_exception_pending c = 0" "cpu_current_el c \<le> VF_EL1"
    and "cpu_hcr_el2 c AND 0x18 = 0" "cpu_scr_el3 c AND 6 = 0"
  shows "interrupt_choice c = None \<Longrightarrow> vf_cpu_poll_interrupt c = (VF_NEXT, c)"
    and "interrupt_choice c = Some (st, k) \<Longrightarrow> vf_cpu_raise_exception c k (cpu_pc c) 0 0 0 = (OK, c1) \<Longrightarrow>
         vf_cpu_take_exception c1 = (OK, c2) \<Longrightarrow> vf_cpu_poll_interrupt c = (st, c2\<lparr>cpu_status := st\<rparr>)"
proof -
  have "\<not> VF_EL1 < cpu_current_el c" using assms(3) by (simp only: not_less)
  note idle = this assms
  show "interrupt_choice c = None \<Longrightarrow> vf_cpu_poll_interrupt c = (VF_NEXT, c)"
    using idle by (simp add: vf_cpu_poll_interrupt_def)
  show "interrupt_choice c = Some (st, k) \<Longrightarrow> vf_cpu_raise_exception c k (cpu_pc c) 0 0 0 = (OK, c1) \<Longrightarrow>
         vf_cpu_take_exception c1 = (OK, c2) \<Longrightarrow> vf_cpu_poll_interrupt c = (st, c2\<lparr>cpu_status := st\<rparr>)"
    using idle by (simp add: vf_cpu_poll_interrupt_def)
qed

text \<open>C20. On a well-formed processor at the lower two levels, with no exception pending and no routing to a
  higher level, an interrupt that is asserted and not masked is delivered by the very next poll: fast
  interrupts before timers, timers before the external line. The processor enters level one at the right
  entry of the vector table with the program counter, the processor state and the stack pointer saved,
  every interrupt class masked, and the registers and the syndrome and fault-address banks untouched;
  and the next poll does not deliver it a second time.\<close>

theorem cpu_interrupt_delivered:
  assumes wf: "cpu_wf c" and pend: "cpu_exception_pending c = 0" and el: "cpu_current_el c \<le> VF_EL1"
    and hcr: "cpu_hcr_el2 c AND 0x18 = 0" and scr: "cpu_scr_el3 c AND 6 = 0"
    and up: "fiq_deliverable c \<or> irq_deliverable c"
  shows "\<exists>st k c'. vf_cpu_poll_interrupt c = (st, c')
     \<and> (st, k) = (if fiq_deliverable c then (VF_FIQ_INTERRUPT, VF_EXCEPTION_FIQ_INTERRUPT)
                  else if vf_cpu_timer_pending c then (VF_TIMER_INTERRUPT, VF_EXCEPTION_TIMER_INTERRUPT)
                  else (VF_EXTERNAL_INTERRUPT, VF_EXCEPTION_EXTERNAL_INTERRUPT))
     \<and> irq_entered c k c' \<and> cpu_wf c' \<and> vf_cpu_poll_interrupt c' = (VF_NEXT, c')"
proof -
  obtain st k where sk: "(st, k) = (if fiq_deliverable c then (VF_FIQ_INTERRUPT, VF_EXCEPTION_FIQ_INTERRUPT)
                  else if vf_cpu_timer_pending c then (VF_TIMER_INTERRUPT, VF_EXCEPTION_TIMER_INTERRUPT)
                  else (VF_EXTERNAL_INTERRUPT, VF_EXCEPTION_EXTERNAL_INTERRUPT))"
    by (metis surj_pair)
  have ch: "interrupt_choice c = Some (st, k)" using up sk by (auto simp: choice_exact split: if_splits)
  have k: "asynchronous k" using sk by (auto simp: asynchronous_def split: if_splits)
  obtain c1 c2 where r: "vf_cpu_raise_exception c k (cpu_pc c) 0 0 0 = (OK, c1)" "vf_cpu_take_exception c1 = (OK, c2)"
    and en: "irq_entered c k c2" using irq_entry [OF wf pend el k] by blast
  let ?c = "c2\<lparr>cpu_status := st\<rparr>"
  have v: "vf_cpu_state_valid c" using wf by (simp add: cpu_wf_def)
  have p: "vf_cpu_poll_interrupt c = (st, ?c)" by (rule poll_interrupt_open(2) [OF v pend el hcr scr ch r])
  then have wf': "cpu_wf ?c" using poll_wf [OF wf] by simp
  have en': "irq_entered c k ?c" using en by (simp add: irq_entered_def)
  have "interrupt_choice ?c = None"
    using masked_bits [of "cpu_pstate ?c"] en' by (simp add: choice_exact fiq_deliverable_def irq_deliverable_def irq_entered_def)
  then have "vf_cpu_poll_interrupt ?c = (VF_NEXT, ?c)"
    using wf' en' hcr scr by (intro poll_interrupt_open(1)) (simp_all add: cpu_wf_def irq_entered_def)
  with p sk en' wf' show ?thesis by blast
qed

lemma demo_wf: "cpu_wf cpu_demo"
  using reset_wf [of cpu_zero VF_EL1] by (simp add: cpu_demo_def cpu_wf_def cpu_fields)

theorem cpu_interrupt_delivered_witness:
  "irq_deliverable cpu_demo \<and> fst (vf_cpu_poll_interrupt cpu_demo) = VF_EXTERNAL_INTERRUPT
   \<and> cpu_pc (snd (vf_cpu_poll_interrupt cpu_demo)) = 0x4280"
proof -
  have d: "cpu_exception_pending cpu_demo = 0" "cpu_current_el cpu_demo \<le> VF_EL1" "cpu_hcr_el2 cpu_demo AND 0x18 = 0" "cpu_scr_el3 cpu_demo AND 6 = 0"
    "irq_deliverable cpu_demo" "\<not> fiq_deliverable cpu_demo" "\<not> vf_cpu_timer_pending cpu_demo"
    "(cpu_vbar_el cpu_demo ! 1 AND NOT 0x7ff) + irq_vector_offset cpu_demo VF_EXCEPTION_EXTERNAL_INTERRUPT = 0x4280"
    by (simp_all add: cpu_demo_def vf_cpu_reset_def cpu_zero_def irq_deliverable_def fiq_deliverable_def vf_cpu_timer_pending_def
        override_of_def irq_vector_offset_def mode_for_el_def)
  then show ?thesis
    using cpu_interrupt_delivered [OF demo_wf d(1-4) disjI2 [OF d(5)]] by (auto simp: irq_entered_def)
qed

section \<open>Privilege\<close>

text \<open>A store to one register leaves the value of every register above level zero but its own.\<close>

definition store_frame :: "vf_cpu \<Rightarrow> u32 \<Rightarrow> vf_sysreg_result \<times> vf_cpu \<Rightarrow> bool" where
  "store_frame c key r \<longleftrightarrow>
     (\<forall>k. 0 < sysreg_min_el k \<longrightarrow> k \<noteq> key \<longrightarrow> sysreg_value (update_timer_status (snd r)) k = sysreg_value c k)
     \<and> cpu_current_el (snd r) = cpu_current_el c \<and> cpu_pstate (snd r) = cpu_pstate c \<and> cpu_x (snd r) = cpu_x c
     \<and> cpu_cpacr_el1 (snd r) = cpu_cpacr_el1 c \<and> cpu_platform_override (snd r) = cpu_platform_override c"

lemma update_value: "0 < sysreg_min_el k \<Longrightarrow> sysreg_value (update_timer_status c) k = sysreg_value c k"
  by (cases "k \<in> {0x5f10, 0x5f11, 0x5f19}") (auto simp: sysreg_min_el_def, simp add: sysreg_value_def update_timer_status_def)

lemma store_frameI:
  assumes "\<And>k. 0 < sysreg_min_el k \<Longrightarrow> k \<noteq> key \<Longrightarrow> sysreg_value c1 k = sysreg_value c k"
    and "cpu_current_el c1 = cpu_current_el c" "cpu_pstate c1 = cpu_pstate c" "cpu_x c1 = cpu_x c"
      "cpu_cpacr_el1 c1 = cpu_cpacr_el1 c" "cpu_platform_override c1 = cpu_platform_override c"
  shows "store_frame c key (r, c1)"
  using assms by (simp add: store_frame_def update_value)

lemma value_above: "0 < sysreg_min_el k \<Longrightarrow> k \<notin> {0x5e82, 0x5e83, 0x5f10, 0x5f11, 0x5f12, 0x5f19, 0x5f1a}"
  by (auto simp: sysreg_min_el_def)

lemma if_branch: "(b \<Longrightarrow> P x) \<Longrightarrow> P y \<Longrightarrow> P (if b then x else y)"
  by simp

lemma store_frame_ok: "store_frame c key (sysreg_store c key v)"
  unfolding sysreg_store_def
  by (intro if_branch [where P = "store_frame c key"];
      rule store_frameI; (drule value_above)?; simp add: sysreg_value_def vf_cpu_invalidate_tlb_def cong: if_cong)

lemma value_frame [simp]:
  "sysreg_value (c\<lparr>cpu_cpacr_el1 := v\<rparr>) k = sysreg_value c k" "sysreg_value (c\<lparr>cpu_platform_override := v\<rparr>) k = sysreg_value c k"
  by (simp_all add: sysreg_value_def)

lemma update_fields [simp]:
  "cpu_current_el (update_timer_status c) = cpu_current_el c" "cpu_pstate (update_timer_status c) = cpu_pstate c"
  "cpu_cpacr_el1 (update_timer_status c) = cpu_cpacr_el1 c"
  "cpu_platform_override (update_timer_status c) = cpu_platform_override c"
  by (simp_all add: update_timer_status_def)

lemma store_above:
  assumes "sysreg_store c key v = (r, c1)" "0 \<le> sysreg_min_el key" "sysreg_min_el key \<le> e" "e < sysreg_min_el k"
  shows "sysreg_value (update_timer_status c1) k = sysreg_value c k"
  using store_frame_ok [of c key v] assms by (cases "k = key") (auto simp: store_frame_def)

text \<open>C21. No register write reaches above its own level: the value of any register whose minimal level is
  above the current one is the same after the write, the level and the processor state are too, and at
  level zero neither the floating-point access control nor the interrupt override can change. A refused
  write changes nothing at all.\<close>

theorem cpu_write_respects_levels:
  "(int (unat (cpu_current_el c)) < sysreg_min_el k \<longrightarrow> sysreg_value (snd (vf_cpu_write_sysreg c key v)) k = sysreg_value c k)
   \<and> cpu_current_el (snd (vf_cpu_write_sysreg c key v)) = cpu_current_el c
   \<and> cpu_pstate (snd (vf_cpu_write_sysreg c key v)) = cpu_pstate c
   \<and> (cpu_current_el c = VF_EL0 \<longrightarrow>
        cpu_cpacr_el1 (snd (vf_cpu_write_sysreg c key v)) = cpu_cpacr_el1 c
        \<and> cpu_platform_override (snd (vf_cpu_write_sysreg c key v)) = cpu_platform_override c)
   \<and> (fst (vf_cpu_write_sysreg c key v) \<noteq> VF_SYSREG_OK \<longrightarrow> snd (vf_cpu_write_sysreg c key v) = c)"
  using write_sysreg_effect [of c key v] unfolding write_effect_def
proof (elim disjE exE conjE)
  fix c1 assume "sysreg_store c key v = (VF_SYSREG_OK, c1)" "0 \<le> sysreg_min_el key"
    "sysreg_min_el key \<le> int (unat (cpu_current_el c))"
    "vf_cpu_write_sysreg c key v = (VF_SYSREG_OK, update_timer_status c1)"
  then show ?thesis using store_above [of c key v] store_frame_ok [of c key v] by (auto simp: store_frame_def)
qed auto

theorem cpu_write_respects_levels_witness:
  "sysreg_value (snd (vf_cpu_write_sysreg cpu_demo VF_SYSREG_KEY_VBAR_EL1 0x6000)) VF_SYSREG_KEY_HCR_EL2
     = sysreg_value cpu_demo VF_SYSREG_KEY_HCR_EL2
   \<and> vf_cpu_write_sysreg cpu_demo VF_SYSREG_KEY_HCR_EL2 1 = (VF_SYSREG_PRIVILEGE, cpu_demo)"
proof -
  have el: "int (unat (cpu_current_el cpu_demo)) < sysreg_min_el VF_SYSREG_KEY_HCR_EL2"
    by (simp add: cpu_demo_def vf_cpu_reset_def cpu_zero_def sysreg_min_el_def)
  have "fst (vf_cpu_write_sysreg cpu_demo VF_SYSREG_KEY_HCR_EL2 1) = VF_SYSREG_PRIVILEGE"
    using el demo_wf by (simp add: vf_cpu_write_sysreg_def cpu_wf_def sysreg_min_el_def)
  then show ?thesis
    using el cpu_write_respects_levels [of cpu_demo VF_SYSREG_KEY_HCR_EL2 VF_SYSREG_KEY_VBAR_EL1 "0x6000"]
      cpu_write_respects_levels [of cpu_demo VF_SYSREG_KEY_HCR_EL2 VF_SYSREG_KEY_HCR_EL2 1]
    by (simp add: prod_eq_iff)
qed

section \<open>The prepared boot state\<close>

lemma word_offset_bound:
  assumes "(b :: u64) \<le> a" "a - b \<le> n" shows "unat a \<le> unat b + unat n"
  using assms by (simp add: word_le_nat_alt unat_sub)

lemma reset_fields:
  "cpu_x (vf_cpu_reset c 1) = replicate 32 0" "cpu_exception_pending (vf_cpu_reset c 1) = 0"
  "cpu_current_el (vf_cpu_reset c 1) = 1" "cpu_sp_el (vf_cpu_reset c 1) = replicate 4 0"
  "cpu_retired (vf_cpu_reset c 1) = 0"
  by (simp_all add: vf_cpu_reset_def cpu_zero_def)

text \<open>What an accepted boot request gives: the bounds the checks establish, over unbounded numbers.\<close>

definition boot_in_ram :: "u64 \<Rightarrow> u64 \<Rightarrow> u64 \<Rightarrow> u64 \<Rightarrow> u64 \<Rightarrow> bool" where
  "boot_in_ram ram base entry stack vbar \<longleftrightarrow>
     unat base + unat ram < 2 ^ 64
     \<and> entry AND 3 = 0 \<and> unat base \<le> unat entry \<and> unat entry + 4 \<le> unat base + unat ram
     \<and> stack AND 15 = 0 \<and> unat base < unat stack \<and> unat stack \<le> unat base + unat ram
     \<and> (vbar \<noteq> 0 \<longrightarrow> vbar AND 0x7ff = 0 \<and> unat base \<le> unat vbar \<and> unat vbar + 0x800 \<le> unat base + unat ram)"

definition boot_checks :: "u64 \<Rightarrow> u64 \<Rightarrow> u64 \<Rightarrow> u64 \<Rightarrow> u64 \<Rightarrow> bool" where
  "boot_checks ram base entry stack vbar \<longleftrightarrow>
     \<not> ram < 8 \<and> \<not> base > - 1 - ram \<and> entry AND 3 = 0 \<and> \<not> entry < base \<and> \<not> entry - base > ram - 4
     \<and> stack AND 15 = 0 \<and> \<not> stack \<le> base \<and> \<not> stack - base > ram
     \<and> (vbar \<noteq> 0 \<longrightarrow> vbar AND 0x7ff = 0 \<and> \<not> vbar < base \<and> \<not> ram < 0x800 \<and> \<not> vbar - base > ram - 0x800)"

lemma boot_checks_sound: "boot_checks ram base entry stack vbar \<Longrightarrow> boot_in_ram ram base entry stack vbar"
proof -
  assume ck: "boot_checks ram base entry stack vbar"
  have top: "unat (- 1 - y :: u64) = 2 ^ 64 - 1 - unat y" for y :: u64
    by (subst unat_sub) (simp_all add: unat_max_word word_order.extremum)
  have sub: "unat (ram - 4) = unat ram - 4" "vbar \<noteq> 0 \<Longrightarrow> unat (ram - 0x800) = unat ram - 0x800"
    using ck by (subst unat_sub; simp add: boot_checks_def not_less word_le_nat_alt)+
  have big: "8 \<le> unat ram" "vbar \<noteq> 0 \<Longrightarrow> 0x800 \<le> unat ram"
    using ck by (auto simp: boot_checks_def not_less word_le_nat_alt)
  have le: "unat base \<le> 2 ^ 64 - 1 - unat ram" using ck by (simp add: boot_checks_def not_less word_le_nat_alt top)
  have lt: "unat ram < 2 ^ 64" using unat_lt2p [of ram] by simp
  have e: "unat entry \<le> unat base + unat (ram - 4)" "unat stack \<le> unat base + unat ram"
    "vbar \<noteq> 0 \<Longrightarrow> unat vbar \<le> unat base + unat (ram - 0x800)"
    using ck by (auto simp: boot_checks_def not_less not_le intro!: word_offset_bound)
  have o: "unat base \<le> unat entry" "unat base < unat stack" "vbar \<noteq> 0 \<Longrightarrow> unat base \<le> unat vbar"
    using ck by (auto simp: boot_checks_def not_less not_le word_le_nat_alt word_less_nat_alt)
  show ?thesis using ck e o sub big le lt unfolding boot_in_ram_def boot_checks_def by auto
qed

lemma ucast_flag:
  assumes "(w :: u64) \<le> 1" shows "ucast w \<le> (1 :: u32)"
proof -
  have "unat w = 0 \<or> unat w = 1" using assms by (auto simp: word_le_nat_alt)
  then have "w = 0 \<or> w = 1" by (auto simp: word_unat_eq_iff)
  then show ?thesis by auto
qed

lemma configure_accepted:
  "vf_cpu_configure_platform c p v = (VF_SYSREG_OK, c') \<Longrightarrow> c' = c\<lparr>cpu_platform_profile := p, cpu_platform_override := v\<rparr>"
  by (simp add: vf_cpu_configure_platform_def split: if_splits)

lemma prepared_state:
  assumes "vf_cpu_prepare_boot c ram base entry args stack regs pauth opts budget = (VF_NEXT, c')"
  shows "cpu_wf c' \<and> cpu_current_el c' = VF_EL1 \<and> cpu_exception_pending c' = 0 \<and> cpu_pc c' = entry \<and> cpu_sp c' = stack
     \<and> take 4 (cpu_x c') = map (\<lambda>i. regs ! i) [0..<4] \<and> drop 4 (cpu_x c') = replicate 28 0
     \<and> cpu_guest_ram_base c' = base \<and> budget \<noteq> 0
     \<and> boot_in_ram ram base entry stack (cpu_vbar_el c' ! 1) \<and> cpu_retired c' = 0"
proof -
  define config where "config = (case opts of None \<Rightarrow> boot_defaults | Some opts \<Rightarrow> opts)"
  note accepted = assms [unfolded vf_cpu_prepare_boot_def Let_def config_def [symmetric]]
  obtain c1 where c1: "vf_cpu_configure_platform (vf_cpu_reset c VF_EL1) (bo_platform_profile config) (bo_initial_override config)
      = (VF_SYSREG_OK, c1)"
    using accepted by (auto split: if_splits prod.splits vf_sysreg_result.splits)
  have ck: "boot_checks ram base entry stack (bo_vbar config)" "budget \<noteq> 0"
    using accepted by (auto simp: boot_checks_def split: if_splits)
  have mode: "bo_initial_pstate config AND 15 = 4 \<or> bo_initial_pstate config AND 15 = 5"
    and lines: "\<not> 1 < bo_irq_level config" "\<not> 1 < bo_fiq_level config"
    using accepted by (auto split: if_splits)
  have "ucast (bo_irq_level config) \<le> (1 :: u32)" "ucast (bo_fiq_level config) \<le> (1 :: u32)"
    using lines by (simp_all only: not_less ucast_flag)
  then have c': "c' = c1\<lparr>cpu_pc := entry, cpu_x := map (\<lambda>i. regs ! i) [0..<4] @ drop 4 (cpu_x c1), cpu_sp := stack,
      cpu_sp_el := (cpu_sp_el c1)[1 := stack, 0 := stack], cpu_pstate := bo_initial_pstate config,
      cpu_vbar_el := (cpu_vbar_el c1)[1 := bo_vbar config], cpu_irq_level := ucast (bo_irq_level config),
      cpu_fiq_level := ucast (bo_fiq_level config), cpu_guest_ram_base := base, cpu_pauth_step := pauth\<rparr>"
    using accepted c1 by (auto simp: vf_cpu_set_interrupt_lines_def split: if_splits)
  have wf1: "cpu_wf c1" using platform_wf [OF reset_wf] c1 by (metis snd_conv)
  have f1: "cpu_current_el c1 = 1" "cpu_exception_pending c1 = 0" "cpu_x c1 = replicate 32 0" "cpu_retired c1 = 0"
    using configure_accepted [OF c1] by (simp_all add: reset_fields)
  have "cpu_wf c'" using wf1 mode f1 by (simp add: c' cpu_wf_def cpu_fields mode_ok_def)
  moreover have "cpu_vbar_el c' ! 1 = bo_vbar config" using wf1 by (simp add: c' cpu_wf_def cpu_shape_def)
  ultimately show ?thesis using f1 ck boot_checks_sound [OF ck(1)] by (simp add: c')
qed

text \<open>Preparing the boot state either fails or gives a well-formed processor at level one with no exception
  pending, at the entry point, with the four requested registers and zero in the others and with the
  requested stack; and then, over unbounded numbers, the first instruction, the stack top and the vector
  table lie inside the guest memory, aligned.\<close>

theorem cpu_boot_state:
  assumes "vf_cpu_prepare_boot c ram base entry args stack regs pauth opts budget = (VF_NEXT, c')"
  shows "cpu_wf c' \<and> cpu_current_el c' = VF_EL1 \<and> cpu_exception_pending c' = 0 \<and> cpu_pc c' = entry \<and> cpu_sp c' = stack
     \<and> take 4 (cpu_x c') = map (\<lambda>i. regs ! i) [0..<4] \<and> drop 4 (cpu_x c') = replicate 28 0
     \<and> cpu_guest_ram_base c' = base \<and> budget \<noteq> 0
     \<and> boot_in_ram ram base entry stack (cpu_vbar_el c' ! 1)"
  using prepared_state [OF assms] by simp

theorem cpu_boot_state_witness:
  "\<exists>c'. vf_cpu_prepare_boot cpu_zero 0x10000 0x40000000 0x40000100 0x40000000 0x40008000 [7, 0, 0, 0] None None 1 = (VF_NEXT, c')
     \<and> cpu_wf c' \<and> cpu_pc c' = 0x40000100 \<and> cpu_x c' ! 0 = 7"
proof -
  let ?b = "vf_cpu_prepare_boot cpu_zero 0x10000 0x40000000 0x40000100 0x40000000 0x40008000 [7, 0, 0, 0] None None 1"
  have "fst ?b = VF_NEXT" "cpu_x (snd ?b) ! 0 = 7"
    by (simp_all add: vf_cpu_prepare_boot_def boot_defaults_def vf_cpu_configure_platform_def vf_cpu_set_interrupt_lines_def
        Let_def upt_rec)
  moreover from this have e: "?b = (VF_NEXT, snd ?b)" by (simp add: prod_eq_iff)
  ultimately show ?thesis using cpu_boot_state [OF e] by blast
qed

end
