(* ===== verification/Provider.thy ===== *)
theory Provider
  imports Cpu
begin

text \<open>
  Guest memory through an external provider: the load/store decoder and the first-generation exchange of
  \<open>src/runtime/jit.c\<close> with the records of \<open>memory_abi.h\<close> and \<open>memory_boot.h\<close>, and the second generation with
  translation provenance of \<open>memory_stage1.inc\<close>, \<open>memory_abi_v2.h\<close> and \<open>memory_boot_v2.h\<close>. The provider
  itself is foreign code: a callback on a state of its own, which may fail and may answer anything. An
  exchange is split into the verdict on the reply, a function of request and reply only, and what the
  verdict does to the processor and to the record of the run.

  Shown, for every provider: a decoded access is one the step can carry out; an exchange is accepted, refused
  with the processor untouched, or commits exactly the fault the request admits; a data step changes only the
  registers the instruction names and keeps the processor well formed; an accepted translation fault lies in
  the access, respects the alignment priority and has the architectural syndrome.
\<close>

section \<open>Loads and stores\<close>

definition sext :: "u32 \<Rightarrow> nat \<Rightarrow> int" where
  "sext x bits = drop_bit (32 - bits) (sint (push_bit (32 - bits) x))"

record memory_shape =
  ms_width :: nat
  ms_count :: nat
  ms_read :: bool
  ms_signed_load :: bool
  ms_result64 :: bool
  ms_mode :: nat
  ms_rn :: nat
  ms_rt :: nat
  ms_rt2 :: nat
  ms_displacement :: int
  ms_register_offset :: bool
  ms_rm :: nat
  ms_option :: nat
  ms_shift :: nat

definition register_offset_family :: "u32 \<Rightarrow> bool" where
  "register_offset_family w \<longleftrightarrow> w AND 0x3b200c00 = 0x38200800"

definition unscaled_offset_family :: "u32 \<Rightarrow> bool" where
  "unscaled_offset_family w \<longleftrightarrow> w AND 0x3b200c00 = 0x38000000"

definition scalar_writeback_family :: "u32 \<Rightarrow> bool" where
  "scalar_writeback_family w \<longleftrightarrow> w AND 0x3b200400 = 0x38000400"

definition memory_family :: "u32 \<Rightarrow> bool" where
  "memory_family w \<longleftrightarrow>
     w AND 0x3a000000 = 0x28000000 \<or> w AND 0x3b000000 = 0x39000000 \<or> register_offset_family w \<or> unscaled_offset_family w
     \<or> scalar_writeback_family w"

definition shape_zero :: "nat \<Rightarrow> nat \<Rightarrow> memory_shape" where
  "shape_zero rn rt =
     \<lparr>ms_width = 0, ms_count = 0, ms_read = False, ms_signed_load = False, ms_result64 = False, ms_mode = 0, ms_rn = rn,
      ms_rt = rt, ms_rt2 = 0, ms_displacement = 0, ms_register_offset = False, ms_rm = 0, ms_option = 0, ms_shift = 0\<rparr>"

definition decode_pair :: "u32 \<Rightarrow> memory_shape option" where
  "decode_pair w =
     (let rn = unat (drop_bit 5 w AND 31); rt = unat (w AND 31); opc = drop_bit 30 w; mode = unat (drop_bit 23 w AND 3);
          rd = (drop_bit 22 w AND 1 \<noteq> 0); rt2 = unat (drop_bit 10 w AND 31) in
      if w AND push_bit 26 1 \<noteq> 0 \<or> (opc \<noteq> 0 \<and> opc \<noteq> 2) \<or> mode = 0
         \<or> (mode \<noteq> 2 \<and> rn \<noteq> 31 \<and> (rn = rt \<or> rn = rt2)) \<or> (rd \<and> rt = rt2) then None
      else
        let width = (if opc = 2 then 8 else 4) in
        Some ((shape_zero rn rt)\<lparr>ms_mode := mode, ms_read := rd, ms_rt2 := rt2, ms_width := width, ms_count := 2,
                                ms_result64 := (opc = 2),
                                ms_displacement := sext (drop_bit 15 w AND 127) 7 * int width\<rparr>))"

definition decode_single :: "u32 \<Rightarrow> memory_shape option" where
  "decode_single w =
     (let rn = unat (drop_bit 5 w AND 31); rt = unat (w AND 31); sz = unat (drop_bit 30 w); opc = unat (drop_bit 22 w AND 3);
          byreg = register_offset_family w;
          rm = (if byreg then unat (drop_bit 16 w AND 31) else 0);
          opt = (if byreg then unat (drop_bit 13 w AND 7) else 0);
          sh = (if byreg \<and> w AND push_bit 12 1 \<noteq> 0 then sz else 0) in
      if byreg \<and> drop_bit 13 w AND 2 = 0 then None
      else if w AND push_bit 26 1 \<noteq> 0 \<or> (opc \<ge> 2 \<and> (sz = 3 \<or> (opc = 3 \<and> sz = 2))) then None
      else if scalar_writeback_family w \<and> rn \<noteq> 31 \<and> rn = rt then None
      else
        Some ((shape_zero rn rt)\<lparr>ms_register_offset := byreg, ms_rm := rm, ms_option := opt, ms_shift := sh,
                 ms_width := 2 ^ sz, ms_count := 1, ms_read := (opc \<noteq> 0), ms_signed_load := (opc \<ge> 2),
                 ms_result64 := (opc = 2 \<or> sz = 3),
                 ms_mode := (if scalar_writeback_family w then unat (drop_bit 10 w AND 3) else 2),
                 ms_displacement :=
                   (if unscaled_offset_family w \<or> scalar_writeback_family w then sext (drop_bit 12 w AND 511) 9
                    else if \<not> byreg then int (unat (drop_bit 10 w AND 4095) * 2 ^ sz) else 0)\<rparr>))"

definition decode_memory :: "u32 \<Rightarrow> memory_shape option" where
  "decode_memory w =
     (if w AND 0x3a000000 = 0x28000000 then decode_pair w
      else if w AND 0x3b000000 = 0x39000000 \<or> register_offset_family w \<or> unscaled_offset_family w
              \<or> scalar_writeback_family w then decode_single w
      else None)"

definition memory_register :: "vf_cpu \<Rightarrow> nat \<Rightarrow> bool \<Rightarrow> u64" where
  "memory_register cpu reg sp = (if reg = 31 then (if sp then cpu_sp cpu else 0) else cpu_x cpu ! reg)"

definition memory_save :: "vf_cpu \<Rightarrow> nat \<Rightarrow> u64 \<Rightarrow> bool \<Rightarrow> vf_cpu" where
  "memory_save cpu reg v wide =
     (if reg \<noteq> 31 then cpu\<lparr>cpu_x := (cpu_x cpu)[reg := (if wide then v else ucast (ucast v :: u32))]\<rparr> else cpu)"

definition memory_offset :: "vf_cpu \<Rightarrow> memory_shape \<Rightarrow> u64" where
  "memory_offset cpu shape =
     (if \<not> ms_register_offset shape then of_int (ms_displacement shape)
      else
        let v = memory_register cpu (ms_rm shape) False;
            v1 = (if even (ms_option shape)
                  then (let lo = ucast (ucast v :: u32) in
                        if ms_option shape = 6 \<and> lo AND push_bit 31 1 \<noteq> 0 then lo OR 0xffffffff00000000 else lo)
                  else v) in
        push_bit (ms_shift shape) v1)"

definition width_mask :: "nat \<Rightarrow> u64" where
  "width_mask width = (if width = 8 then - 1 else push_bit (width * 8) 1 - 1)"

section \<open>First generation\<close>

abbreviation (input) VF_MEMORY_FETCH :: u32 where "VF_MEMORY_FETCH \<equiv> 1"
abbreviation (input) VF_MEMORY_LOAD :: u32 where "VF_MEMORY_LOAD \<equiv> 2"
abbreviation (input) VF_MEMORY_STORE :: u32 where "VF_MEMORY_STORE \<equiv> 3"
abbreviation (input) VF_MEMORY_OK :: u32 where "VF_MEMORY_OK \<equiv> 0"
abbreviation (input) VF_MEMORY_GUEST_FAULT :: u32 where "VF_MEMORY_GUEST_FAULT \<equiv> 1"
abbreviation (input) VF_MEMORY_UNSUPPORTED :: u32 where "VF_MEMORY_UNSUPPORTED \<equiv> 2"
abbreviation (input) VF_MEMORY_INVALID_REQUEST :: u32 where "VF_MEMORY_INVALID_REQUEST \<equiv> 3"
abbreviation (input) VF_MEMORY_PC_ALIGNMENT :: u32 where "VF_MEMORY_PC_ALIGNMENT \<equiv> 1"
abbreviation (input) VF_MEMORY_DATA_ALIGNMENT :: u32 where "VF_MEMORY_DATA_ALIGNMENT \<equiv> 2"
abbreviation (input) VF_PROVIDER_OK :: u32 where "VF_PROVIDER_OK \<equiv> 0"
abbreviation (input) VF_PROVIDER_UNSUPPORTED :: u32 where "VF_PROVIDER_UNSUPPORTED \<equiv> 1"
abbreviation (input) VF_PROVIDER_INVALID_REQUEST :: u32 where "VF_PROVIDER_INVALID_REQUEST \<equiv> 2"
abbreviation (input) VF_PROVIDER_INVALID_REPLY :: u32 where "VF_PROVIDER_INVALID_REPLY \<equiv> 3"
abbreviation (input) VF_PROVIDER_CALLBACK_FAILURE :: u32 where "VF_PROVIDER_CALLBACK_FAILURE \<equiv> 4"
abbreviation (input) VF_PROVIDER_UNAVAILABLE_V2 :: u32 where "VF_PROVIDER_UNAVAILABLE_V2 \<equiv> 5"

record vf_memory_request_v1 =
  q1_abi_version :: u32
  q1_struct_size :: u32
  q1_operation :: u32
  q1_flags :: u32
  q1_pc :: u64
  q1_address :: u64
  q1_value0 :: u64
  q1_value1 :: u64
  q1_sctlr :: u64
  q1_epoch :: u64
  q1_width :: nat
  q1_count :: nat
  q1_current_el :: u32
  q1_reserved :: u32

record vf_memory_reply_v1 =
  r1_abi_version :: u32
  r1_struct_size :: u32
  r1_result :: u32
  r1_fault :: u32
  r1_value0 :: u64
  r1_value1 :: u64
  r1_address :: u64
  r1_esr :: u64
  r1_epoch :: u64
  r1_reserved :: "u64 \<times> u64 \<times> u64"

text \<open>The record of a run: the counters and the reason of a failure are what the exchange writes.\<close>

record vf_memory_run_result_v1 =
  mr_abi_version :: u32
  mr_struct_size :: u32
  mr_provider_status :: u32
  mr_reserved0 :: u32
  mr_execution :: vf_boot_result_v2
  mr_guest_far :: u64
  mr_last_address :: u64
  mr_fetch_requests :: u64
  mr_data_requests :: u64
  mr_completed_data_operations :: u64
  mr_reserved1 :: u64

definition provider_error :: "vf_memory_run_result_v1 \<Rightarrow> u32 \<Rightarrow> u32 \<times> vf_memory_run_result_v1" where
  "provider_error res reason = (VF_DATA_FAULT, res\<lparr>mr_provider_status := reason\<rparr>)"

text \<open>
  The verdict on a reply: accepted; malformed; a reason reported, with the address it names; or a guest fault of a kind,
  with the status of the step and the syndrome.
\<close>

datatype verdict = Accept | Malformed | Report u32 "u64 option" | Fault vf_exception_kind u32 u64

definition memory_verdict :: "vf_memory_request_v1 \<Rightarrow> vf_memory_reply_v1 \<Rightarrow> verdict" where
  "memory_verdict q r =
     (let m = width_mask (q1_width q) in
      if r1_abi_version r \<noteq> 1 \<or> r1_struct_size r \<noteq> 80 \<or> r1_epoch r \<noteq> 0 \<or> r1_reserved r \<noteq> (0, 0, 0)
         \<or> r1_result r > VF_MEMORY_INVALID_REQUEST then Malformed
      else if r1_result r = VF_MEMORY_OK then
        (if r1_fault r \<noteq> 0 \<or> r1_address r \<noteq> 0 \<or> r1_esr r \<noteq> 0 \<or> r1_value0 r AND NOT m \<noteq> 0 \<or> r1_value1 r AND NOT m \<noteq> 0
            \<or> (q1_count q = 1 \<and> r1_value1 r \<noteq> 0)
            \<or> (q1_operation q = VF_MEMORY_STORE \<and> (r1_value0 r \<noteq> 0 \<or> r1_value1 r \<noteq> 0)) then Malformed
         else Accept)
      else if r1_value0 r \<noteq> 0 \<or> r1_value1 r \<noteq> 0 then Malformed
      else if r1_result r = VF_MEMORY_INVALID_REQUEST then
        (if r1_fault r \<noteq> 0 \<or> r1_address r \<noteq> 0 \<or> r1_esr r \<noteq> 0 then Malformed
         else Report VF_PROVIDER_INVALID_REQUEST None)
      else if r1_result r = VF_MEMORY_UNSUPPORTED then
        (if r1_fault r \<noteq> 0 \<or> r1_esr r \<noteq> 0
            \<or> (r1_address r \<noteq> q1_address q
               \<and> \<not> (q1_count q = 2 \<and> r1_address r = q1_address q + of_nat (q1_width q))) then Malformed
         else Report VF_PROVIDER_UNSUPPORTED (Some (r1_address r)))
      else
        let fetch = (q1_operation q = VF_MEMORY_FETCH);
            kind = (if fetch then VF_EXCEPTION_INSTRUCTION_ABORT else VF_EXCEPTION_ALIGNMENT_FAULT);
            status = (if fetch then VF_INSTRUCTION_ABORT else VF_ALIGNMENT_FAULT);
            expected = (if fetch then 0x8a000000
                        else push_bit 26 (0x24 + ucast (q1_current_el q)) OR push_bit 25 1 OR 0x21
                             OR (if q1_operation q = VF_MEMORY_STORE then 64 else 0)) in
        if fetch \<and> (r1_fault r \<noteq> VF_MEMORY_PC_ALIGNMENT \<or> q1_pc q AND 3 = 0) then Malformed
        else if \<not> fetch \<and> (r1_fault r \<noteq> VF_MEMORY_DATA_ALIGNMENT \<or> q1_address q AND (of_nat (q1_width q) - 1) = 0) then Malformed
        else if r1_address r \<noteq> q1_address q \<or> r1_esr r \<noteq> expected then Malformed
        else Fault kind status expected)"

text \<open>A fault is raised with the program counter of the request; a fetch has no instruction.\<close>

definition raise_fault :: "vf_cpu \<Rightarrow> bool \<Rightarrow> vf_exception_kind \<Rightarrow> u64 \<Rightarrow> u64 \<Rightarrow> rc \<times> vf_cpu" where
  "raise_fault cpu fetch kind addr esr =
     vf_cpu_raise_exception cpu kind (cpu_pc cpu) addr (ucast esr) (if fetch then 0 else cpu_instruction cpu)"

type_synonym 's memory_callback_v1 = "'s \<Rightarrow> vf_memory_request_v1 \<Rightarrow> bool \<times> vf_memory_reply_v1 \<times> 's"

definition count_request :: "u32 \<Rightarrow> u64 \<Rightarrow> vf_memory_run_result_v1 \<Rightarrow> vf_memory_run_result_v1" where
  "count_request operation addr res =
     (let res1 = res\<lparr>mr_last_address := addr\<rparr> in
      if operation = VF_MEMORY_FETCH then res1\<lparr>mr_fetch_requests := mr_fetch_requests res1 + 1\<rparr>
      else res1\<lparr>mr_data_requests := mr_data_requests res1 + 1\<rparr>)"

definition memory_exchange ::
  "'s memory_callback_v1 \<Rightarrow> vf_cpu \<Rightarrow> 's \<Rightarrow> vf_memory_request_v1 \<Rightarrow> vf_memory_run_result_v1
   \<Rightarrow> u32 \<times> vf_memory_reply_v1 \<times> vf_cpu \<times> 's \<times> vf_memory_run_result_v1" where
  "memory_exchange callback cpu owner q res =
     (let res1 = count_request (q1_operation q) (q1_address q) res;
          (failed, r, owner1) = callback owner q in
      if failed then (case provider_error res1 VF_PROVIDER_CALLBACK_FAILURE of (st, res2) \<Rightarrow> (st, r, cpu, owner1, res2))
      else
        case memory_verdict q r of
          Accept \<Rightarrow> (VF_NEXT, r, cpu, owner1, res1)
        | Malformed \<Rightarrow> (case provider_error res1 VF_PROVIDER_INVALID_REPLY of (st, res2) \<Rightarrow> (st, r, cpu, owner1, res2))
        | Report reason addr \<Rightarrow>
            (case provider_error (case addr of None \<Rightarrow> res1 | Some a \<Rightarrow> res1\<lparr>mr_last_address := a\<rparr>) reason of
               (st, res2) \<Rightarrow> (st, r, cpu, owner1, res2))
        | Fault kind status esr \<Rightarrow>
            (case raise_fault cpu (q1_operation q = VF_MEMORY_FETCH) kind (r1_address r) esr of
               (ERR, cpu1) \<Rightarrow> (case provider_error res1 VF_PROVIDER_INVALID_REPLY of (st, res2) \<Rightarrow> (st, r, cpu1, owner1, res2))
             | (OK, cpu1) \<Rightarrow> (status, r, cpu1, owner1, res1\<lparr>mr_last_address := r1_address r\<rparr>)))"

text \<open>The stack pointer, when it is the base, must be aligned where the control register asks for it.\<close>

definition sp_misaligned :: "vf_cpu \<Rightarrow> memory_shape \<Rightarrow> u64 \<Rightarrow> bool" where
  "sp_misaligned cpu shape base \<longleftrightarrow>
     ms_rn shape = 31 \<and> cpu_sctlr cpu AND (if cpu_current_el cpu = VF_EL0 then 16 else 8) \<noteq> 0 \<and> base AND 15 \<noteq> 0"

text \<open>The end of a completed access: the loaded values, then the written-back base, then retirement.\<close>

definition memory_complete :: "vf_cpu \<Rightarrow> memory_shape \<Rightarrow> u64 \<Rightarrow> u64 \<Rightarrow> u64 \<Rightarrow> vf_cpu" where
  "memory_complete cpu shape updated value0 value1 =
     (let cpu1 = (if ms_read shape then
                    (let v = (if ms_signed_load shape then of_int (sext (ucast value0) (ms_width shape * 8)) else value0);
                         cpu' = memory_save cpu (ms_rt shape) v (ms_result64 shape) in
                     if ms_count shape = 2 then memory_save cpu' (ms_rt2 shape) value1 (ms_result64 shape) else cpu')
                  else cpu);
          cpu2 = (if ms_mode shape \<noteq> 2 then
                    (if ms_rn shape = 31 then cpu1\<lparr>cpu_sp := updated\<rparr>
                     else cpu1\<lparr>cpu_x := (cpu_x cpu1)[ms_rn shape := updated]\<rparr>)
                  else cpu1) in
      retire cpu2)"

definition memory_address :: "vf_cpu \<Rightarrow> memory_shape \<Rightarrow> u64" where
  "memory_address cpu shape =
     (let base = memory_register cpu (ms_rn shape) True in
      if ms_mode shape = 1 then base else base + memory_offset cpu shape)"

definition step_request :: "vf_cpu \<Rightarrow> memory_shape \<Rightarrow> vf_memory_request_v1" where
  "step_request cpu shape =
     (let m = width_mask (ms_width shape) in
      \<lparr>q1_abi_version = 1, q1_struct_size = 80, q1_operation = (if ms_read shape then VF_MEMORY_LOAD else VF_MEMORY_STORE),
       q1_flags = 0, q1_pc = cpu_pc cpu, q1_address = memory_address cpu shape,
       q1_value0 = (if ms_read shape then 0 else memory_register cpu (ms_rt shape) False AND m),
       q1_value1 = (if ms_read shape \<or> ms_count shape \<noteq> 2 then 0 else memory_register cpu (ms_rt2 shape) False AND m),
       q1_sctlr = cpu_sctlr cpu, q1_epoch = 0, q1_width = ms_width shape, q1_count = ms_count shape,
       q1_current_el = cpu_current_el cpu, q1_reserved = 0\<rparr>)"

definition memory_data_step ::
  "'s memory_callback_v1 \<Rightarrow> vf_cpu \<Rightarrow> 's \<Rightarrow> vf_memory_run_result_v1 \<Rightarrow> u32 \<times> vf_cpu \<times> 's \<times> vf_memory_run_result_v1" where
  "memory_data_step callback cpu owner res =
     (case decode_memory (cpu_instruction cpu) of
        None \<Rightarrow> (VF_UNDEFINED_INSTRUCTION, snd (vf_cpu_commit_status cpu VF_UNDEFINED_INSTRUCTION), owner, res)
      | Some shape \<Rightarrow>
          let base = memory_register cpu (ms_rn shape) True in
          if sp_misaligned cpu shape base then
            (VF_SP_ALIGNMENT_FAULT, snd (vf_cpu_commit_status (cpu\<lparr>cpu_far := base\<rparr>) VF_SP_ALIGNMENT_FAULT), owner, res)
          else
            let updated = base + memory_offset cpu shape;
                (status, r, cpu1, owner1, res1) = memory_exchange callback cpu owner (step_request cpu shape) res in
            if status \<noteq> VF_NEXT then (status, cpu1, owner1, res1)
            else
              (VF_NEXT, memory_complete cpu1 shape updated (r1_value0 r) (r1_value1 r), owner1,
               res1\<lparr>mr_completed_data_operations := mr_completed_data_operations res1 + 1\<rparr>))"

section \<open>Second generation\<close>

abbreviation (input) VF_MEMORY_V2_FIXED_NC :: u32 where "VF_MEMORY_V2_FIXED_NC \<equiv> 1"
abbreviation (input) VF_MEMORY_V2_FIXED_NC_UNALIGNED :: u32 where "VF_MEMORY_V2_FIXED_NC_UNALIGNED \<equiv> 3"
abbreviation (input) VF_MEMORY_V2_OK :: u32 where "VF_MEMORY_V2_OK \<equiv> 0"
abbreviation (input) VF_MEMORY_V2_GUEST_FAULT :: u32 where "VF_MEMORY_V2_GUEST_FAULT \<equiv> 1"
abbreviation (input) VF_MEMORY_V2_UNSUPPORTED :: u32 where "VF_MEMORY_V2_UNSUPPORTED \<equiv> 2"
abbreviation (input) VF_MEMORY_V2_UNAVAILABLE :: u32 where "VF_MEMORY_V2_UNAVAILABLE \<equiv> 3"
abbreviation (input) VF_MEMORY_V2_INVALID_REQUEST :: u32 where "VF_MEMORY_V2_INVALID_REQUEST \<equiv> 4"
abbreviation (input) VF_MEMORY_V2_PC_ALIGNMENT :: u32 where "VF_MEMORY_V2_PC_ALIGNMENT \<equiv> 1"
abbreviation (input) VF_MEMORY_V2_DATA_ALIGNMENT :: u32 where "VF_MEMORY_V2_DATA_ALIGNMENT \<equiv> 2"
abbreviation (input) VF_MEMORY_V2_ADDRESS_SIZE :: u32 where "VF_MEMORY_V2_ADDRESS_SIZE \<equiv> 3"
abbreviation (input) VF_MEMORY_V2_TRANSLATION :: u32 where "VF_MEMORY_V2_TRANSLATION \<equiv> 4"
abbreviation (input) VF_MEMORY_V2_PERMISSION :: u32 where "VF_MEMORY_V2_PERMISSION \<equiv> 5"
abbreviation (input) VF_MEMORY_V2_ACCESS_FLAG :: u32 where "VF_MEMORY_V2_ACCESS_FLAG \<equiv> 6"
abbreviation (input) VF_MEMORY_V2_NO_LEVEL :: u32 where "VF_MEMORY_V2_NO_LEVEL \<equiv> - 1"
abbreviation (input) VF_MEMORY_V2_INPUT :: u32 where "VF_MEMORY_V2_INPUT \<equiv> 1"
abbreviation (input) VF_MEMORY_V2_WALK :: u32 where "VF_MEMORY_V2_WALK \<equiv> 2"
abbreviation (input) VF_MEMORY_V2_LEAF :: u32 where "VF_MEMORY_V2_LEAF \<equiv> 3"
abbreviation (input) VF_MEMORY_V2_CACHED_LEAF :: u32 where "VF_MEMORY_V2_CACHED_LEAF \<equiv> 4"

record vf_memory_controls_v2 =
  mc_abi_version :: u32
  mc_struct_size :: u32
  mc_profile :: u32
  mc_reserved :: u32
  mc_sctlr :: u64
  mc_ttbr0 :: u64
  mc_ttbr1 :: u64
  mc_tcr :: u64
  mc_mair :: u64
  mc_hcr :: u64
  mc_scr :: u64
  mc_epoch :: u64

record vf_memory_request_v2 =
  q_abi_version :: u32
  q_struct_size :: u32
  q_operation :: u32
  q_flags :: u32
  q_width :: nat
  q_count :: nat
  q_current_el :: u32
  q_reserved0 :: u32
  q_pc :: u64
  q_address :: u64
  q_value0 :: u64
  q_value1 :: u64
  q_pstate :: u64
  q_controls :: vf_memory_controls_v2
  q_reserved1 :: u64

record vf_memory_reply_v2 =
  r_abi_version :: u32
  r_struct_size :: u32
  r_result :: u32
  r_fault :: u32
  r_level :: u32
  r_context :: u32
  r_fsc :: u32
  r_metadata_flags :: u32
  r_value0 :: u64
  r_value1 :: u64
  r_address :: u64
  r_esr :: u64
  r_epoch :: u64
  r_descriptor_pa :: u64
  r_output_pa :: u64
  r_reserved :: "u64 list"

record vf_memory_run_result_v2 =
  mv_base :: vf_memory_run_result_v1
  mv_last_reply :: vf_memory_reply_v2

definition vf_memory_controls_valid_v2 :: "vf_memory_controls_v2 \<Rightarrow> bool" where
  "vf_memory_controls_valid_v2 c =
     (let m = 0x3f OR push_bit 7 1 OR push_bit 14 3 OR push_bit 16 0x3f OR push_bit 22 1 OR push_bit 23 1 OR push_bit 30 3 OR push_bit 32 7;
          sctlr = (if mc_profile c = VF_MEMORY_V2_FIXED_NC then 0x30d00803 else 0x30d00801) in
      if mc_profile c \<noteq> VF_MEMORY_V2_FIXED_NC \<and> mc_profile c \<noteq> VF_MEMORY_V2_FIXED_NC_UNALIGNED then False
      else if mc_abi_version c \<noteq> 2 \<or> mc_struct_size c \<noteq> 80 \<or> mc_reserved c \<noteq> 0 \<or> mc_epoch c \<noteq> 1 \<or> mc_mair c \<noteq> 0x44
              \<or> mc_hcr c \<noteq> 0 \<or> mc_scr c \<noteq> 0 \<or> mc_sctlr c AND NOT 0x18 \<noteq> sctlr \<or> mc_tcr c AND NOT m \<noteq> 0
              \<or> drop_bit 32 (mc_tcr c) AND 7 > 5 then False
      else
        let tg0 = drop_bit 14 (mc_tcr c) AND 3; tg1 = drop_bit 30 (mc_tcr c) AND 3;
            t0 = mc_tcr c AND 63; t1 = drop_bit 16 (mc_tcr c) AND 63;
            accept = (\<lambda>tmin tmax alignment.
                        if t0 < tmin \<or> t0 > tmax \<or> t1 < tmin \<or> t1 > tmax then False
                        else (let allowed = (0x0000ffffffffffff AND NOT (alignment - 1)) OR 0x00ff000000000000 in
                              mc_ttbr0 c AND NOT allowed = 0 \<and> mc_ttbr1 c AND NOT allowed = 0)) in
        if tg0 = 0 \<and> tg1 = 2 then accept 16 39 0x1000
        else if tg0 = 2 \<and> tg1 = 1 then accept 17 47 0x4000
        else False)"

definition v2_controls_match :: "vf_cpu \<Rightarrow> vf_memory_controls_v2 \<Rightarrow> bool" where
  "v2_controls_match cpu c \<longleftrightarrow>
     cpu_sctlr cpu = mc_sctlr c \<and> cpu_ttbr0 cpu = mc_ttbr0 c \<and> cpu_ttbr1 cpu = mc_ttbr1 c \<and> cpu_tcr cpu = mc_tcr c
     \<and> cpu_mair cpu = mc_mair c \<and> cpu_hcr_el2 cpu = mc_hcr c \<and> cpu_scr_el3 cpu = mc_scr c \<and> cpu_current_el cpu \<le> VF_EL1
     \<and> cpu_pstate cpu AND NOT 0xf00003cf = 0"

definition v2_provenance_valid :: "vf_memory_reply_v2 \<Rightarrow> bool" where
  "v2_provenance_valid r =
     (let f = r_metadata_flags r in
      if f AND NOT 3 \<noteq> 0 \<or> (f AND 1 = 0 \<and> r_descriptor_pa r \<noteq> 0) \<or> (f AND 2 = 0 \<and> r_output_pa r \<noteq> 0)
         \<or> (f AND 1 \<noteq> 0 \<and> (r_descriptor_pa r AND 7 \<noteq> 0 \<or> drop_bit 48 (r_descriptor_pa r) \<noteq> 0))
         \<or> (f AND 2 \<noteq> 0 \<and> drop_bit 48 (r_output_pa r) \<noteq> 0) \<or> r_context r > 4 then False
      else if r_context r = 0 then r_level r = VF_MEMORY_V2_NO_LEVEL \<and> f AND 1 = 0
      else if r_context r = VF_MEMORY_V2_INPUT then f AND 1 = 0 \<and> (r_level r = 0 \<or> r_level r = VF_MEMORY_V2_NO_LEVEL)
      else r_level r \<le> 3 \<and> f AND 1 \<noteq> 0)"

definition v2_alignment_required :: "vf_memory_request_v2 \<Rightarrow> bool" where
  "v2_alignment_required q \<longleftrightarrow>
     q_address q AND (of_nat (q_width q) - 1) \<noteq> 0 \<and> (q_operation q = VF_MEMORY_FETCH \<or> mc_sctlr (q_controls q) AND 2 \<noteq> 0)"

text \<open>The parts of the fault check: the code of a fault, the width of physical addresses, and the provenance of each context.\<close>

definition fault_fsc :: "u32 \<Rightarrow> u32 \<Rightarrow> u32" where
  "fault_fsc fault level =
     (if fault = VF_MEMORY_V2_ADDRESS_SIZE then level else if fault = VF_MEMORY_V2_TRANSLATION then 4 + level
      else if fault = VF_MEMORY_V2_PERMISSION then 12 + level else 8 + level)"

definition physical_mask :: "u64 \<Rightarrow> u64" where
  "physical_mask tcr = push_bit ([32, 36, 40, 42, 44, 48] ! unat (drop_bit 32 tcr AND 7)) 1 - 1"

definition start_level :: "u64 \<Rightarrow> u64 \<Rightarrow> u32" where
  "start_level tcr addr =
     (let sixteen = (drop_bit 14 tcr AND 3 = 2);
          tsz = ucast (if drop_bit 63 addr \<noteq> 0 then drop_bit 16 tcr AND 63 else tcr AND 63) :: u32;
          page = (if sixteen then 14 else 12); bits = (if sixteen then 11 else 9);
          levels = (64 - tsz - page + bits - 1) div bits in
      4 - levels)"

definition v2_context_valid :: "vf_memory_request_v2 \<Rightarrow> vf_memory_reply_v2 \<Rightarrow> bool" where
  "v2_context_valid q r =
     (let sixteen = (drop_bit 14 (mc_tcr (q_controls q)) AND 3 = 2); pm = physical_mask (mc_tcr (q_controls q));
          f = r_metadata_flags r; fault = r_fault r in
      if r_context r = VF_MEMORY_V2_INPUT then
        (if r_level r \<noteq> 0 then False
         else if fault = VF_MEMORY_V2_TRANSLATION then f = 0
         else if fault = VF_MEMORY_V2_ADDRESS_SIZE then f = 2 \<and> r_output_pa r AND NOT pm \<noteq> 0
         else False)
      else if r_level r < start_level (mc_tcr (q_controls q)) (r_address r) then False
      else if r_context r = VF_MEMORY_V2_WALK then
        (if fault = VF_MEMORY_V2_TRANSLATION then f = 1 \<and> \<not> r_descriptor_pa r > pm - 7
         else if fault = VF_MEMORY_V2_ADDRESS_SIZE then
           f AND 1 \<noteq> 0 \<and> \<not> (r_descriptor_pa r \<le> pm - 7 \<and> (f AND 2 = 0 \<or> r_output_pa r AND NOT pm = 0))
         else False)
      else
        if r_level r < (if sixteen then 2 else 1) \<or> f \<noteq> 3 \<or> r_descriptor_pa r > pm - 7 then False
        else if r_context r = VF_MEMORY_V2_CACHED_LEAF \<and> fault \<noteq> VF_MEMORY_V2_PERMISSION then False
        else if r_context r \<noteq> VF_MEMORY_V2_CACHED_LEAF
                \<and> (r_context r \<noteq> VF_MEMORY_V2_LEAF
                   \<or> (fault \<noteq> VF_MEMORY_V2_PERMISSION \<and> fault \<noteq> VF_MEMORY_V2_ACCESS_FLAG \<and> fault \<noteq> VF_MEMORY_V2_ADDRESS_SIZE))
          then False
        else if r_output_pa r AND NOT pm \<noteq> 0 then fault = VF_MEMORY_V2_ADDRESS_SIZE
        else fault \<noteq> VF_MEMORY_V2_ADDRESS_SIZE)"

definition abort_esr :: "vf_memory_request_v2 \<Rightarrow> u64 \<Rightarrow> u64" where
  "abort_esr q fsc =
     push_bit 26 ((if q_operation q = VF_MEMORY_FETCH then 0x20 else 0x24) + ucast (q_current_el q)) OR push_bit 25 1 OR fsc
     OR (if q_operation q = VF_MEMORY_STORE then 64 else 0)"

definition v2_fault_valid :: "vf_memory_request_v2 \<Rightarrow> vf_memory_reply_v2 \<Rightarrow> u64 option" where
  "v2_fault_valid q r =
     (let fetch = (q_operation q = VF_MEMORY_FETCH) in
      if v2_alignment_required q
         \<and> r_fault r \<noteq> (if fetch then VF_MEMORY_V2_PC_ALIGNMENT else VF_MEMORY_V2_DATA_ALIGNMENT) then None
      else if r_fault r = VF_MEMORY_V2_PC_ALIGNMENT \<or> r_fault r = VF_MEMORY_V2_DATA_ALIGNMENT then
        (if r_address r \<noteq> q_address q \<or> r_level r \<noteq> VF_MEMORY_V2_NO_LEVEL \<or> r_context r \<noteq> VF_MEMORY_V2_INPUT
            \<or> r_metadata_flags r \<noteq> 0 then None
         else if r_fault r = VF_MEMORY_V2_PC_ALIGNMENT then
           (if \<not> fetch \<or> q_pc q AND 3 = 0 \<or> r_fsc r \<noteq> 0 then None else Some 0x8a000000)
         else if fetch \<or> \<not> v2_alignment_required q \<or> r_fsc r \<noteq> 0x21 then None
         else Some (abort_esr q 0x21))
      else if r_level r > 3 \<or> r_fault r < VF_MEMORY_V2_ADDRESS_SIZE \<or> r_fault r > VF_MEMORY_V2_ACCESS_FLAG
              \<or> ((fetch \<or> mc_sctlr (q_controls q) AND 2 \<noteq> 0) \<and> (r_address r - q_address q) mod of_nat (q_width q) \<noteq> 0) then None
      else if fault_fsc (r_fault r) (r_level r) \<noteq> r_fsc r \<or> r_context r = 0 then None
      else if \<not> v2_context_valid q r then None
      else Some (abort_esr q (ucast (fault_fsc (r_fault r) (r_level r)))))"

definition v2_verdict :: "u32 \<Rightarrow> vf_memory_request_v2 \<Rightarrow> vf_memory_reply_v2 \<Rightarrow> verdict" where
  "v2_verdict version q r =
     (let m = width_mask (q_width q);
          bytes = of_nat (q_width q * q_count q) :: u64;
          wrapping = (q_address q > - 1 - (bytes - 1));
          physical_dynamic = (version = 3 \<and> mc_sctlr (q_controls q) AND 1 = 0) in
      if r_abi_version r \<noteq> version \<or> r_struct_size r \<noteq> 128 \<or> r_epoch r \<noteq> mc_epoch (q_controls q) \<or> r_result r > 4
         \<or> r_reserved r \<noteq> [0, 0, 0, 0, 0] \<or> \<not> v2_provenance_valid r then Malformed
      else if r_result r = VF_MEMORY_V2_OK then
        (if wrapping
            \<or> (physical_dynamic \<and> (q_address q \<ge> push_bit 48 1 \<or> bytes > push_bit 48 1 - q_address q))
            \<or> v2_alignment_required q \<or> r_fault r \<noteq> 0 \<or> r_fsc r \<noteq> 0 \<or> r_esr r \<noteq> 0 \<or> r_address r \<noteq> 0 \<or> r_context r \<noteq> 0
            \<or> r_level r \<noteq> VF_MEMORY_V2_NO_LEVEL \<or> r_metadata_flags r \<noteq> 0 \<or> r_value0 r AND NOT m \<noteq> 0
            \<or> r_value1 r AND NOT m \<noteq> 0 \<or> (q_count q = 1 \<and> r_value1 r \<noteq> 0)
            \<or> (q_operation q = VF_MEMORY_STORE \<and> (r_value0 r \<noteq> 0 \<or> r_value1 r \<noteq> 0)) then Malformed
         else Accept)
      else if r_value0 r \<noteq> 0 \<or> r_value1 r \<noteq> 0 then Malformed
      else if r_result r = VF_MEMORY_V2_INVALID_REQUEST then
        (if r_fault r \<noteq> 0 \<or> r_fsc r \<noteq> 0 \<or> r_esr r \<noteq> 0 \<or> r_address r \<noteq> 0 \<or> r_context r \<noteq> 0
            \<or> r_level r \<noteq> VF_MEMORY_V2_NO_LEVEL \<or> r_metadata_flags r \<noteq> 0 then Malformed
         else Report VF_PROVIDER_INVALID_REQUEST None)
      else if r_address r < q_address q \<or> r_address r - q_address q \<ge> bytes then Malformed
      else if r_result r = VF_MEMORY_V2_UNSUPPORTED \<or> r_result r = VF_MEMORY_V2_UNAVAILABLE then
        (if r_fault r \<noteq> 0 \<or> r_fsc r \<noteq> 0 \<or> r_esr r \<noteq> 0 then Malformed
         else if physical_dynamic
                 \<and> (r_context r \<noteq> 0 \<or> r_level r \<noteq> VF_MEMORY_V2_NO_LEVEL
                    \<or> (if r_result r = VF_MEMORY_V2_UNSUPPORTED then r_metadata_flags r \<noteq> 0
                       else r_metadata_flags r \<noteq> 2 \<or> r_output_pa r \<noteq> r_address r)) then Malformed
         else Report (if r_result r = VF_MEMORY_V2_UNAVAILABLE then VF_PROVIDER_UNAVAILABLE_V2 else VF_PROVIDER_UNSUPPORTED)
                     (Some (r_address r)))
      else if wrapping \<and> \<not> v2_alignment_required q then Malformed
      else if physical_dynamic \<and> r_fault r \<noteq> VF_MEMORY_V2_PC_ALIGNMENT \<and> r_fault r \<noteq> VF_MEMORY_V2_DATA_ALIGNMENT then Malformed
      else
        case v2_fault_valid q r of
          None \<Rightarrow> Malformed
        | Some esr \<Rightarrow>
            if r_esr r \<noteq> esr then Malformed
            else if q_operation q = VF_MEMORY_FETCH then Fault VF_EXCEPTION_INSTRUCTION_ABORT VF_INSTRUCTION_ABORT esr
            else if r_fault r = VF_MEMORY_V2_DATA_ALIGNMENT then Fault VF_EXCEPTION_ALIGNMENT_FAULT VF_ALIGNMENT_FAULT esr
            else Fault VF_EXCEPTION_DATA_ABORT VF_DATA_ABORT esr)"

type_synonym 's memory_callback_v2 = "'s \<Rightarrow> vf_memory_request_v2 \<Rightarrow> bool \<times> vf_memory_reply_v2 \<times> 's"

definition v2_error :: "vf_memory_run_result_v2 \<Rightarrow> u32 \<Rightarrow> u32 \<times> vf_memory_run_result_v2" where
  "v2_error res reason =
     (case provider_error (mv_base res) reason of (st, base) \<Rightarrow> (st, res\<lparr>mv_base := base\<rparr>))"

definition empty_reply :: "u32 \<Rightarrow> u64 \<Rightarrow> vf_memory_reply_v2" where
  "empty_reply version epoch =
     \<lparr>r_abi_version = version, r_struct_size = 128, r_result = 0, r_fault = 0, r_level = VF_MEMORY_V2_NO_LEVEL, r_context = 0,
      r_fsc = 0, r_metadata_flags = 0, r_value0 = 0, r_value1 = 0, r_address = 0, r_esr = 0, r_epoch = epoch,
      r_descriptor_pa = 0, r_output_pa = 0, r_reserved = [0, 0, 0, 0, 0]\<rparr>"

definition memory_exchange_version ::
  "'s memory_callback_v2 \<Rightarrow> vf_cpu \<Rightarrow> 's \<Rightarrow> vf_memory_request_v2 \<Rightarrow> vf_memory_run_result_v2 \<Rightarrow> u32
   \<Rightarrow> u32 \<times> vf_memory_reply_v2 \<times> vf_cpu \<times> 's \<times> vf_memory_run_result_v2" where
  "memory_exchange_version callback cpu owner q res version =
     (let res1 = res\<lparr>mv_last_reply := empty_reply version (mc_epoch (q_controls q)),
                     mv_base := count_request (q_operation q) (q_address q) (mv_base res)\<rparr>;
          (failed, r, owner1) = callback owner q in
      if failed then (case v2_error res1 VF_PROVIDER_CALLBACK_FAILURE of (st, res2) \<Rightarrow> (st, r, cpu, owner1, res2))
      else
        case v2_verdict version q r of
          Accept \<Rightarrow> (VF_NEXT, r, cpu, owner1, res1\<lparr>mv_last_reply := r\<rparr>)
        | Malformed \<Rightarrow> (case v2_error res1 VF_PROVIDER_INVALID_REPLY of (st, res2) \<Rightarrow> (st, r, cpu, owner1, res2))
        | Report reason addr \<Rightarrow>
            (case v2_error (case addr of
                              None \<Rightarrow> res1\<lparr>mv_last_reply := r\<rparr>
                            | Some a \<Rightarrow> res1\<lparr>mv_last_reply := r, mv_base := (mv_base res1)\<lparr>mr_last_address := a\<rparr>\<rparr>) reason of
               (st, res2) \<Rightarrow> (st, r, cpu, owner1, res2))
        | Fault kind status esr \<Rightarrow>
            (case raise_fault cpu (q_operation q = VF_MEMORY_FETCH) kind (r_address r) esr of
               (ERR, cpu1) \<Rightarrow> (case v2_error res1 VF_PROVIDER_INVALID_REPLY of (st, res2) \<Rightarrow> (st, r, cpu1, owner1, res2))
             | (OK, cpu1) \<Rightarrow>
                 (status, r, cpu1, owner1,
                  res1\<lparr>mv_last_reply := r, mv_base := (mv_base res1)\<lparr>mr_last_address := r_address r\<rparr>\<rparr>)))"

definition memory_exchange_v2 ::
  "'s memory_callback_v2 \<Rightarrow> vf_cpu \<Rightarrow> 's \<Rightarrow> vf_memory_request_v2 \<Rightarrow> vf_memory_run_result_v2
   \<Rightarrow> u32 \<times> vf_memory_reply_v2 \<times> vf_cpu \<times> 's \<times> vf_memory_run_result_v2" where
  "memory_exchange_v2 callback cpu owner q res = memory_exchange_version callback cpu owner q res 2"

definition memory_request_v2 ::
  "vf_cpu \<Rightarrow> vf_memory_controls_v2 \<Rightarrow> u32 \<Rightarrow> nat \<Rightarrow> nat \<Rightarrow> u64 \<Rightarrow> vf_memory_request_v2" where
  "memory_request_v2 cpu controls op width count addr =
     \<lparr>q_abi_version = 2, q_struct_size = 160, q_operation = op, q_flags = 0, q_width = width, q_count = count,
      q_current_el = cpu_current_el cpu, q_reserved0 = 0, q_pc = cpu_pc cpu, q_address = addr, q_value0 = 0, q_value1 = 0,
      q_pstate = cpu_pstate cpu,
      q_controls = controls\<lparr>mc_sctlr := cpu_sctlr cpu, mc_ttbr0 := cpu_ttbr0 cpu, mc_ttbr1 := cpu_ttbr1 cpu,
                            mc_tcr := cpu_tcr cpu, mc_mair := cpu_mair cpu, mc_hcr := cpu_hcr_el2 cpu,
                            mc_scr := cpu_scr_el3 cpu\<rparr>,
      q_reserved1 = 0\<rparr>"

definition step_request_v2 :: "vf_cpu \<Rightarrow> vf_memory_controls_v2 \<Rightarrow> memory_shape \<Rightarrow> u32 \<Rightarrow> vf_memory_request_v2" where
  "step_request_v2 cpu controls shape version =
     (let q0 = memory_request_v2 cpu controls (if ms_read shape then VF_MEMORY_LOAD else VF_MEMORY_STORE)
                 (ms_width shape) (ms_count shape) (memory_address cpu shape);
          q1 = (if version = 3 then q0\<lparr>q_abi_version := 3, q_controls := controls\<rparr> else q0);
          m = width_mask (ms_width shape) in
      if ms_read shape then q1
      else q1\<lparr>q_value0 := memory_register cpu (ms_rt shape) False AND m,
              q_value1 := (if ms_count shape = 2 then memory_register cpu (ms_rt2 shape) False AND m else 0)\<rparr>)"

definition memory_data_step_version ::
  "'s memory_callback_v2 \<Rightarrow> vf_cpu \<Rightarrow> vf_memory_controls_v2 \<Rightarrow> 's \<Rightarrow> vf_memory_run_result_v2 \<Rightarrow> u32
   \<Rightarrow> u32 \<times> vf_cpu \<times> 's \<times> vf_memory_run_result_v2" where
  "memory_data_step_version callback cpu controls owner res version =
     (case decode_memory (cpu_instruction cpu) of
        None \<Rightarrow> (VF_UNDEFINED_INSTRUCTION, snd (vf_cpu_commit_status cpu VF_UNDEFINED_INSTRUCTION), owner, res)
      | Some shape \<Rightarrow>
          let base = memory_register cpu (ms_rn shape) True in
          if sp_misaligned cpu shape base then
            (VF_SP_ALIGNMENT_FAULT, snd (vf_cpu_commit_status (cpu\<lparr>cpu_far := base\<rparr>) VF_SP_ALIGNMENT_FAULT), owner, res)
          else
            let updated = base + memory_offset cpu shape;
                (status, r, cpu1, owner1, res1) =
                  memory_exchange_version callback cpu owner (step_request_v2 cpu controls shape version) res version in
            if status \<noteq> VF_NEXT then (status, cpu1, owner1, res1)
            else
              (VF_NEXT, memory_complete cpu1 shape updated (r_value0 r) (r_value1 r), owner1,
               res1\<lparr>mv_base := (mv_base res1)\<lparr>mr_completed_data_operations := mr_completed_data_operations (mv_base res1) + 1\<rparr>\<rparr>))"

definition memory_data_step_v2 ::
  "'s memory_callback_v2 \<Rightarrow> vf_cpu \<Rightarrow> vf_memory_controls_v2 \<Rightarrow> 's \<Rightarrow> vf_memory_run_result_v2
   \<Rightarrow> u32 \<times> vf_cpu \<times> 's \<times> vf_memory_run_result_v2" where
  "memory_data_step_v2 callback cpu controls owner res = memory_data_step_version callback cpu controls owner res 2"

definition memory_control_read_v2 :: "vf_cpu \<Rightarrow> bool \<times> vf_cpu" where
  "memory_control_read_v2 cpu =
     (let w = cpu_instruction cpu; key = sysreg_key w; rt = unat (w AND 31) in
      if \<not> is_mrs_msr w \<or> w AND 0x00200000 = 0 then (False, cpu)
      else if key \<noteq> VF_SYSREG_KEY_SCTLR_EL1 \<and> key \<noteq> VF_SYSREG_KEY_TTBR0_EL1 \<and> key \<noteq> VF_SYSREG_KEY_TTBR1_EL1
              \<and> key \<noteq> VF_SYSREG_KEY_TCR_EL1 \<and> key \<noteq> VF_SYSREG_KEY_MAIR_EL1 then (False, cpu)
      else
        case vf_cpu_read_sysreg cpu key of
          Inl _ \<Rightarrow> (False, cpu)
        | Inr v \<Rightarrow> (True, retire (if rt \<noteq> 31 then cpu\<lparr>cpu_x := (cpu_x cpu)[rt := v]\<rparr> else cpu)))"

definition stack_select_immutable_step :: "vf_cpu \<Rightarrow> bool \<times> vf_cpu" where
  "stack_select_immutable_step cpu =
     (let w = cpu_instruction cpu in
      if cpu_current_el cpu \<noteq> VF_EL1 \<or> w AND 0xfffffeff \<noteq> 0xd50040bf then (False, cpu)
      else
        let previous = (if cpu_pstate cpu AND 1 \<noteq> 0 then 1 else 0);
            banks = (cpu_sp_el cpu)[previous := cpu_sp cpu];
            ps = (cpu_pstate cpu AND NOT 1) OR ucast (drop_bit 8 w AND 1) in
        (True, retire (cpu\<lparr>cpu_sp_el := banks, cpu_pstate := ps, cpu_sp := banks ! (if ps AND 1 \<noteq> 0 then 1 else 0)\<rparr>)))"

definition pauth_immutable_step :: "vf_cpu \<Rightarrow> bool \<times> vf_cpu" where
  "pauth_immutable_step cpu =
     (case cpu_pauth_step cpu of
        None \<Rightarrow> (False, cpu)
      | Some step \<Rightarrow>
          if cpu_current_el cpu \<noteq> VF_EL1 then (False, cpu)
          else
            let (failed, context) = step (pauth_context_of cpu) (cpu_instruction cpu) in
            if failed \<noteq> 0 \<or> pa_sctlr context \<noteq> cpu_sctlr cpu \<or> pa_tcr context \<noteq> cpu_tcr cpu
               \<or> pa_current_el context \<noteq> cpu_current_el cpu \<or> pa_reserved context \<noteq> 0 then (False, cpu)
            else
              let cpu1 = cpu\<lparr>cpu_x := map (\<lambda>i. pa_x context ! i) [0..<31] @ drop 31 (cpu_x cpu),
                             cpu_pauth_keys := map (\<lambda>i. pa_keys context ! i) [0..<10],
                             cpu_sp := pa_sp context, cpu_pc := pa_pc context, cpu_retired := cpu_retired cpu + 1\<rparr> in
              (True, vf_cpu_advance_counter cpu1 1))"

section \<open>What the decoder accepts\<close>

lemma sext_range:
  assumes "0 < bits" "bits \<le> 32"
  shows "- (2 ^ (bits - 1)) \<le> sext x bits" "sext x bits < 2 ^ (bits - 1)"
proof -
  let ?k = "32 - bits" and ?y = "sint (push_bit (32 - bits) x)"
  have p: "(2 :: int) ^ 31 = 2 ^ (bits - 1) * 2 ^ ?k"
    using assms by (simp flip: power_add)
  have y: "- (2 ^ 31) \<le> ?y" "?y < 2 ^ 31"
    using sint_ge [of "push_bit (32 - bits) x"] sint_lt [of "push_bit (32 - bits) x"] by simp_all
  have "- (2 ^ 31) = - (2 ^ (bits - 1)) * (2 :: int) ^ ?k" unfolding p by simp
  then have "- (2 ^ (bits - 1)) = (- (2 ^ 31)) div (2 :: int) ^ ?k"
    by (metis nonzero_mult_div_cancel_right power_not_zero zero_neq_numeral)
  also have "\<dots> \<le> ?y div 2 ^ ?k" using y by (intro zdiv_mono1) auto
  finally show "- (2 ^ (bits - 1)) \<le> sext x bits" by (simp add: sext_def drop_bit_eq_div)
  have "?y div 2 ^ ?k < 2 ^ (bits - 1)"
  proof (rule ccontr)
    assume "\<not> ?y div 2 ^ ?k < 2 ^ (bits - 1)"
    then have "2 ^ 31 \<le> ?y div 2 ^ ?k * 2 ^ ?k" unfolding p by (intro mult_right_mono) simp_all
    also have "\<dots> \<le> ?y" by (simp add: minus_mod_eq_div_mult [symmetric])
    finally show False using y(2) by simp
  qed
  then show "sext x bits < 2 ^ (bits - 1)" by (simp add: sext_def drop_bit_eq_div)
qed

lemma unat_and_less: "unat ((w :: u32) AND m) \<le> unat m"
  by (simp add: word_le_nat_alt [symmetric] word_and_le1)

definition shape_ok :: "memory_shape \<Rightarrow> bool" where
  "shape_ok s \<longleftrightarrow>
     ms_width s \<in> {1, 2, 4, 8} \<and> ms_count s \<in> {1, 2} \<and> ms_mode s \<in> {1, 2, 3}
     \<and> ms_rn s < 32 \<and> ms_rt s < 32 \<and> ms_rt2 s < 32 \<and> ms_rm s < 32
     \<and> (ms_signed_load s \<longrightarrow> ms_read s \<and> ms_count s = 1 \<and> ms_width s \<le> 4)
     \<and> (ms_mode s \<noteq> 2 \<and> ms_rn s \<noteq> 31 \<longrightarrow> ms_rn s \<noteq> ms_rt s \<and> (ms_count s = 2 \<longrightarrow> ms_rn s \<noteq> ms_rt2 s))
     \<and> (ms_read s \<and> ms_count s = 2 \<longrightarrow> ms_rt s \<noteq> ms_rt2 s)
     \<and> - 512 \<le> ms_displacement s \<and> ms_displacement s \<le> 32760 \<and> (2 :: nat) ^ ms_shift s \<le> ms_width s"

lemma drop_bit_30_mask: "drop_bit 30 w AND 3 = drop_bit 30 (w :: u32)"
proof -
  have "(3 :: u32) = mask 2" by (simp add: mask_eq_exp_minus_1)
  then show ?thesis by (simp only: bit_eq_iff bit_and_iff bit_drop_bit_eq bit_mask_iff) (auto dest: bit_imp_le_length)
qed

lemma field_lt32: "unat ((w :: u32) AND 31) < 32"
  using unat_and_less [of w 31] by simp

lemma pair_shape_ok: "decode_pair w = Some s \<Longrightarrow> shape_ok s"
proof -
  assume d: "decode_pair w = Some s"
  have m: "unat (drop_bit 23 w AND 3) \<le> 3" using unat_and_less [of "drop_bit 23 w" 3] by simp
  have r: "- 64 \<le> sext (drop_bit 15 w AND 127) 7" "sext (drop_bit 15 w AND 127) 7 < 64"
    using sext_range [of 7] by simp_all
  let ?rn = "unat (drop_bit 5 w AND 31)" and ?rt = "unat (w AND 31)" and ?opc = "drop_bit 30 w"
    and ?mode = "unat (drop_bit 23 w AND 3)" and ?rd = "drop_bit 22 w AND 1 \<noteq> 0" and ?rt2 = "unat (drop_bit 10 w AND 31)"
  have c: "\<not> (w AND push_bit 26 1 \<noteq> 0 \<or> (?opc \<noteq> 0 \<and> ?opc \<noteq> 2) \<or> ?mode = 0
              \<or> (?mode \<noteq> 2 \<and> ?rn \<noteq> 31 \<and> (?rn = ?rt \<or> ?rn = ?rt2)) \<or> (?rd \<and> ?rt = ?rt2))"
    using d unfolding decode_pair_def Let_def by (metis option.distinct(1))
  note s = d [unfolded decode_pair_def Let_def if_not_P [OF c], simplified option.inject, symmetric]
  have fields: "ms_width s = (if ?opc = 2 then 8 else 4)" "ms_count s = 2" "ms_read s = ?rd" "\<not> ms_signed_load s"
    "ms_mode s = ?mode" "ms_rn s = ?rn" "ms_rt s = ?rt" "ms_rt2 s = ?rt2" "ms_rm s = 0" "ms_shift s = 0"
    "ms_displacement s = sext (drop_bit 15 w AND 127) 7 * int (if ?opc = 2 then 8 else 4)"
    unfolding s shape_zero_def by simp_all
  have disp: "- 512 \<le> ms_displacement s" "ms_displacement s \<le> 32760" unfolding fields using r by auto
  have mode: "?mode = 1 \<or> ?mode = 2 \<or> ?mode = 3" using c m by auto
  show ?thesis using c fields(4) disp mode field_lt32 unfolding shape_ok_def fields(1-3,5-10) by (auto split: if_split)
qed

lemma writeback_mode:
  assumes "scalar_writeback_family w" shows "unat (drop_bit 10 w AND 3) \<in> {1, 3}"
proof -
  have "bit (w AND 0x3b200400) 10" using assms by (simp add: scalar_writeback_family_def)
  then have "bit w 10" by (simp only: bit_and_iff)
  then have "bit (drop_bit 10 w AND 3) 0" by (simp add: bit_simps)
  moreover have "drop_bit 10 w AND 3 \<le> 3" by (rule word_and_le1)
  ultimately show ?thesis by (auto dest!: el_cases)
qed

lemma single_shape_ok: "decode_single w = Some s \<Longrightarrow> shape_ok s"
proof -
  assume d: "decode_single w = Some s"
  have sz: "unat (drop_bit 30 w) \<in> {0, 1, 2, 3}"
  proof -
    have "drop_bit 30 w \<le> 3" using word_and_le1 [of "drop_bit 30 w" 3] drop_bit_30_mask [of w] by simp
    then show ?thesis by (auto dest!: el_cases)
  qed
  have m: "scalar_writeback_family w \<Longrightarrow> unat (drop_bit 10 w AND 3) = 1 \<or> unat (drop_bit 10 w AND 3) = 3"
    using writeback_mode by auto
  have r: "- 256 \<le> sext (drop_bit 12 w AND 511) 9" "sext (drop_bit 12 w AND 511) 9 < 256"
    using sext_range [of 9] by simp_all
  have u: "unat (drop_bit 10 w AND 4095) \<le> 4095" using unat_and_less [of "drop_bit 10 w" 4095] by simp
  have "unat (drop_bit 10 w AND 4095) * 2 ^ unat (drop_bit 30 w) \<le> 32760" using sz u by auto
  then have u2: "int (unat (drop_bit 10 w AND 4095) * 2 ^ unat (drop_bit 30 w)) \<le> 32760" by linarith
  let ?rn = "unat (drop_bit 5 w AND 31)" and ?rt = "unat (w AND 31)" and ?sz = "unat (drop_bit 30 w)"
    and ?opc = "unat (drop_bit 22 w AND 3)"
  have c: "\<not> (register_offset_family w \<and> drop_bit 13 w AND 2 = 0)"
    "\<not> (w AND push_bit 26 1 \<noteq> 0 \<or> (?opc \<ge> 2 \<and> (?sz = 3 \<or> (?opc = 3 \<and> ?sz = 2))))"
    "\<not> (scalar_writeback_family w \<and> ?rn \<noteq> 31 \<and> ?rn = ?rt)"
    using d unfolding decode_single_def Let_def by (metis option.distinct(1))+
  note s = d [unfolded decode_single_def Let_def if_not_P [OF c(1)] if_not_P [OF c(2)] if_not_P [OF c(3)], simplified option.inject, symmetric]
  have fields: "ms_width s = 2 ^ ?sz" "ms_count s = 1" "ms_read s = (?opc \<noteq> 0)" "ms_signed_load s = (?opc \<ge> 2)"
    "ms_mode s = (if scalar_writeback_family w then unat (drop_bit 10 w AND 3) else 2)" "ms_rn s = ?rn" "ms_rt s = ?rt"
    "ms_rt2 s = 0" "ms_rm s = (if register_offset_family w then unat (drop_bit 16 w AND 31) else 0)"
    "ms_shift s = (if register_offset_family w \<and> w AND push_bit 12 1 \<noteq> 0 then ?sz else 0)"
    "ms_displacement s = (if unscaled_offset_family w \<or> scalar_writeback_family w then sext (drop_bit 12 w AND 511) 9
                    else if \<not> register_offset_family w then int (unat (drop_bit 10 w AND 4095) * 2 ^ ?sz) else 0)"
    unfolding s shape_zero_def by simp_all
  have wide: "?opc \<ge> 2 \<longrightarrow> (2 :: nat) ^ ?sz \<le> 4" using c(2) sz by auto
  have disp: "- 512 \<le> ms_displacement s" "ms_displacement s \<le> 32760"
    unfolding fields using r u2 by (simp_all del: of_nat_mult of_nat_unat)
  show ?thesis using sz m c(3) wide disp field_lt32 unfolding shape_ok_def fields(1-10)
    by (auto split: if_split)
qed

lemma decode_shape_ok: "decode_memory w = Some s \<Longrightarrow> shape_ok s"
  by (auto simp: decode_memory_def pair_shape_ok single_shape_ok split: if_splits)

section \<open>Completing an access\<close>

lemma bit_width_mask: "width \<in> {1, 2, 4, 8} \<Longrightarrow> bit (width_mask width) n \<longleftrightarrow> n < width * 8"
proof -
  assume w: "width \<in> {1, 2, 4, 8}"
  have "width_mask width = mask (width * 8)" using w by (auto simp: width_mask_def mask_eq_exp_minus_1 push_bit_eq_mult)
  then show ?thesis using w by (auto simp: bit_mask_iff)
qed

text \<open>The sign extension of the code, on a value that fits the access: the upper bits are copies of its top bit.\<close>

lemma bit_sext:
  assumes "0 < bits" "bits \<le> 32" "n < 64"
  shows "bit (of_int (sext (ucast (v :: u64)) bits) :: u64) n \<longleftrightarrow> bit v (min n (bits - 1))"
proof -
  have "bit (of_int (sext (ucast v) bits) :: u64) n \<longleftrightarrow> bit (sint (push_bit (32 - bits) (ucast v :: u32))) (32 - bits + n)"
    using assms by (simp add: sext_def bit_of_int_iff bit_drop_bit_eq)
  also have "\<dots> \<longleftrightarrow> bit (push_bit (32 - bits) (ucast v :: u32)) (min (32 - bits + n) 31)"
    by (auto simp: bit_sint_iff min_def dest: bit_imp_le_length)
  also have "\<dots> \<longleftrightarrow> bit v (min n (bits - 1))"
    using assms by (auto simp: bit_push_bit_iff bit_ucast_iff min_def)
  finally show ?thesis .
qed

definition extended :: "memory_shape \<Rightarrow> u64 \<Rightarrow> u64" where
  "extended s v =
     (if ms_signed_load s \<and> bit v (ms_width s * 8 - 1) then v OR NOT (width_mask (ms_width s)) else v)"

definition loaded :: "memory_shape \<Rightarrow> u64 \<Rightarrow> u64" where
  "loaded s v = (if ms_result64 s then v else v AND 0xffffffff)"

lemma sext_extended:
  assumes "shape_ok s" "ms_signed_load s" "v AND NOT (width_mask (ms_width s)) = 0"
  shows "of_int (sext (ucast v) (ms_width s * 8)) = extended s v"
proof (rule bit_word_eqI)
  fix n assume "n < LENGTH(64)"
  then have n: "n < 64" by simp
  let ?b = "ms_width s * 8"
  have w: "ms_width s \<in> {1, 2, 4, 8}" "ms_width s \<le> 4" using assms(1,2) by (auto simp: shape_ok_def)
  have z: "bit v k \<Longrightarrow> k < ?b" for k
    using arg_cong [OF assms(3), of "\<lambda>x. bit x k"] w by (auto simp: bit_and_iff bit_not_iff bit_width_mask dest: bit_imp_le_length)
  have "bit (of_int (sext (ucast v) ?b) :: u64) n \<longleftrightarrow> bit v (min n (?b - 1))" using w n by (intro bit_sext) auto
  also have "\<dots> \<longleftrightarrow> bit (extended s v) n"
    using assms(2) w n z [of n] by (auto simp: extended_def bit_or_iff bit_not_iff bit_width_mask min_def)
  finally show "bit (of_int (sext (ucast v) ?b) :: u64) n \<longleftrightarrow> bit (extended s v) n" .
qed

lemma ucast_low: "ucast (ucast (v :: u64) :: u32) = v AND 0xffffffff"
proof -
  have "(0xffffffff :: u64) = mask 32" by (simp add: mask_eq_exp_minus_1)
  then show ?thesis by (simp only: bit_eq_iff) (auto simp: bit_ucast_iff bit_and_iff bit_mask_iff dest: bit_imp_le_length)
qed

lemma save_x: "cpu_x (memory_save c reg v wide) = (if reg \<noteq> 31 then (cpu_x c)[reg := (if wide then v else v AND 0xffffffff)] else cpu_x c)"
  by (simp add: memory_save_def ucast_low)

lemma save_base: "cpu_base c \<Longrightarrow> cpu_base (memory_save c reg v wide)"
  by (simp add: memory_save_def register_base base_x)

text \<open>A completed access: only the destination registers, the written-back base and the retirement counters change.\<close>

definition written_back :: "memory_shape \<Rightarrow> nat \<Rightarrow> bool" where
  "written_back s i \<longleftrightarrow> ms_mode s \<noteq> 2 \<and> ms_rn s = i"

definition access_completed :: "vf_cpu \<Rightarrow> memory_shape \<Rightarrow> u64 \<Rightarrow> u64 \<Rightarrow> u64 \<Rightarrow> vf_cpu \<Rightarrow> bool" where
  "access_completed c s updated v0 v1 c' \<longleftrightarrow>
     cpu_pc c' = cpu_pc c + 4 \<and> cpu_retired c' = cpu_retired c + 1
     \<and> cpu_sp c' = (if written_back s 31 then updated else cpu_sp c)
     \<and> (\<forall>i < 31. cpu_x c' ! i =
          (if written_back s i then updated
           else if ms_read s \<and> ms_count s = 2 \<and> i = ms_rt2 s then loaded s v1
           else if ms_read s \<and> i = ms_rt s then loaded s (extended s v0)
           else cpu_x c ! i))
     \<and> cpu_current_el c' = cpu_current_el c \<and> cpu_pstate c' = cpu_pstate c
     \<and> cpu_exception_pending c' = cpu_exception_pending c"

lemma retire_fields [simp]:
  "cpu_pc (retire c) = cpu_pc c + 4" "cpu_retired (retire c) = cpu_retired c + 1" "cpu_sp (retire c) = cpu_sp c"
  "cpu_x (retire c) = cpu_x c" "cpu_current_el (retire c) = cpu_current_el c" "cpu_pstate (retire c) = cpu_pstate c"
  "cpu_exception_pending (retire c) = cpu_exception_pending c"
  by (simp_all add: retire_def vf_cpu_advance_counter_def update_timer_status_def)

lemma save_fields [simp]:
  "cpu_pc (memory_save c reg v wide) = cpu_pc c" "cpu_retired (memory_save c reg v wide) = cpu_retired c"
  "cpu_sp (memory_save c reg v wide) = cpu_sp c" "cpu_current_el (memory_save c reg v wide) = cpu_current_el c"
  "cpu_pstate (memory_save c reg v wide) = cpu_pstate c"
  "cpu_exception_pending (memory_save c reg v wide) = cpu_exception_pending c"
  by (simp_all add: memory_save_def)

lemma complete_wf:
  assumes "cpu_base c" shows "cpu_wf (memory_complete c s updated v0 v1)"
proof -
  have "cpu_base (c1\<lparr>cpu_sp := p\<rparr>)" "cpu_base (c1\<lparr>cpu_x := (cpu_x c1)[i := y]\<rparr>)" if "cpu_base c1" for c1 p i y
    using that by (simp_all add: cpu_base_def valid_iff fp_profile_ok_def cpu_shape_def)
  then show ?thesis using assms unfolding memory_complete_def Let_def
    by (intro retire_base_wf) (simp add: save_base)
qed

lemma complete_exact:
  assumes "cpu_base c" "shape_ok s" "v0 AND NOT (width_mask (ms_width s)) = 0"
  shows "access_completed c s updated v0 v1 (memory_complete c s updated v0 v1)"
proof -
  have len: "length (cpu_x c) = 32" using assms(1) by (rule base_x)
  have v: "(if ms_signed_load s then of_int (sext (ucast v0) (ms_width s * 8)) else v0) = extended s v0"
    using sext_extended [OF assms(2) _ assms(3)] by (simp add: extended_def)
  show ?thesis
    using assms(2) len unfolding memory_complete_def v access_completed_def Let_def written_back_def shape_ok_def
    by (auto simp: save_x loaded_def nth_list_update)
qed

section \<open>Exchanges\<close>

text \<open>
  What an exchange may do to the processor, whatever the provider answers: an accepted reply and a refused one
  leave it alone, and a fault records exactly one exception at the current program counter.
\<close>

definition exchange_outcome :: "vf_cpu \<Rightarrow> u32 \<Rightarrow> vf_cpu \<Rightarrow> bool \<Rightarrow> u32 \<Rightarrow> bool" where
  "exchange_outcome c st c' accepted reason \<longleftrightarrow>
     (st = VF_NEXT \<and> c' = c \<and> accepted)
     \<or> (st = VF_DATA_FAULT \<and> c' = c \<and> reason \<noteq> VF_PROVIDER_OK)
     \<or> (st \<in> {VF_INSTRUCTION_ABORT, VF_ALIGNMENT_FAULT, VF_DATA_ABORT}
        \<and> (\<exists>k addr syn w. vf_cpu_raise_exception c k (cpu_pc c) addr syn w = (OK, c')))"

text \<open>The registers an interrupted instruction leaves alone.\<close>

definition same_registers :: "vf_cpu \<Rightarrow> vf_cpu \<Rightarrow> bool" where
  "same_registers c c' \<longleftrightarrow>
     cpu_x c' = cpu_x c \<and> cpu_sp c' = cpu_sp c \<and> cpu_pc c' = cpu_pc c \<and> cpu_retired c' = cpu_retired c
     \<and> cpu_pstate c' = cpu_pstate c \<and> cpu_current_el c' = cpu_current_el c \<and> cpu_fp c' = cpu_fp c"

lemma same_registers_refl [simp]: "same_registers c c"
  by (simp add: same_registers_def)

lemma raise_same: "same_registers c (snd (vf_cpu_raise_exception c k pc far syn w))"
  by (simp add: vf_cpu_raise_exception_def Let_def save_active_sp_def same_registers_def)

lemma raised_same: "vf_cpu_raise_exception c k pc far syn w = (r, c') \<Longrightarrow> same_registers c c'"
  using raise_same [of c k pc far syn w] by simp

lemma raise_refused: "vf_cpu_raise_exception c k pc far syn w = (ERR, c') \<Longrightarrow> c' = c"
  by (auto simp: vf_cpu_raise_exception_def Let_def split: if_splits)

lemma commit_same: "same_registers c (snd (vf_cpu_commit_status c st))"
proof -
  have "same_registers c c'" if "same_registers (c\<lparr>cpu_status := st\<rparr>) c'" for c'
    using that by (simp add: same_registers_def)
  then show ?thesis using raise_same by (simp add: vf_cpu_commit_status_def Let_def same_registers_def split: option.split prod.split)
qed

locale guest_exchange =
  fixes exch :: "vf_cpu \<Rightarrow> 's \<Rightarrow> 'q \<Rightarrow> 'res \<Rightarrow> u32 \<times> 'r \<times> vf_cpu \<times> 's \<times> 'res"
    and accepted :: "'q \<Rightarrow> 'r \<Rightarrow> bool"
    and reason :: "'res \<Rightarrow> u32"
  assumes outcome: "exch c own q res = (st, r, c', own', res') \<Longrightarrow> exchange_outcome c st c' (accepted q r) (reason res')"
begin

lemma exchange_wf: "cpu_wf c \<Longrightarrow> exch c own q res = (st, r, c', own', res') \<Longrightarrow> cpu_wf c'"
  using outcome [of c own q res st r c' own' res'] raise_interrupt_wf by (auto simp: exchange_outcome_def)

lemma exchange_same: "exch c own q res = (st, r, c', own', res') \<Longrightarrow> same_registers c c'"
proof -
  assume "exch c own q res = (st, r, c', own', res')"
  from outcome [OF this] show ?thesis by (auto simp: exchange_outcome_def dest: raised_same)
qed

lemma exchange_accepted: "exch c own q res = (VF_NEXT, r, c', own', res') \<Longrightarrow> c' = c \<and> accepted q r"
  using outcome [of c own q res VF_NEXT r c' own' res'] by (auto simp: exchange_outcome_def)

lemma exchange_refused:
  "exch c own q res = (VF_DATA_FAULT, r, c', own', res') \<Longrightarrow> c' = c \<and> reason res' \<noteq> VF_PROVIDER_OK"
  using outcome [of c own q res VF_DATA_FAULT r c' own' res'] by (auto simp: exchange_outcome_def)

end

lemma memory_verdict_fault: "memory_verdict q r = Fault k st esr \<Longrightarrow> st \<in> {VF_INSTRUCTION_ABORT, VF_ALIGNMENT_FAULT, VF_DATA_ABORT}"
  by (auto simp: memory_verdict_def Let_def split: if_splits)

lemma memory_verdict_report: "memory_verdict q r = Report why a \<Longrightarrow> why \<noteq> VF_PROVIDER_OK"
  by (auto simp: memory_verdict_def Let_def split: if_splits)

interpretation exchange1: guest_exchange "memory_exchange callback" "\<lambda>q r. memory_verdict q r = Accept" mr_provider_status
  for callback :: "'s memory_callback_v1"
proof
  fix c own q res st r c' own' res'
  assume e: "memory_exchange callback c own q res = (st, r, c', own', res')"
  obtain failed r0 own0 where cb: "callback own q = (failed, r0, own0)" by (metis prod_cases3)
  show "exchange_outcome c st c' (memory_verdict q r = Accept) (mr_provider_status res')"
  proof (cases "memory_verdict q r0")
    case (Fault k st0 esr)
    then show ?thesis using e cb memory_verdict_fault [OF Fault]
      by (auto simp: memory_exchange_def Let_def provider_error_def exchange_outcome_def raise_fault_def
          split: if_splits prod.splits rc.splits dest: raise_refused)
  next
    case (Report why a)
    then show ?thesis using e cb memory_verdict_report [OF Report]
      by (auto simp: memory_exchange_def Let_def provider_error_def exchange_outcome_def split: if_splits)
  next
    case Accept
    then show ?thesis using e cb by (auto simp: memory_exchange_def Let_def provider_error_def exchange_outcome_def split: if_splits)
  next
    case Malformed
    then show ?thesis using e cb by (auto simp: memory_exchange_def Let_def provider_error_def exchange_outcome_def split: if_splits)
  qed
qed

text \<open>The second generation: the fault of a verdict is the checked one.\<close>

lemma v2_verdict_fault:
  assumes "v2_verdict version q r = Fault k st esr"
  shows "st \<in> {VF_INSTRUCTION_ABORT, VF_ALIGNMENT_FAULT, VF_DATA_ABORT}" "v2_fault_valid q r = Some esr"
    "\<not> r_address r < q_address q" "\<not> r_address r - q_address q \<ge> of_nat (q_width q * q_count q)"
  using assms by (auto simp: v2_verdict_def Let_def split: if_splits option.splits)

lemma v2_verdict_report: "v2_verdict version q r = Report why a \<Longrightarrow> why \<noteq> VF_PROVIDER_OK"
  by (auto simp: v2_verdict_def Let_def split: if_splits option.splits)

interpretation exchange2: guest_exchange "\<lambda>c own q res. memory_exchange_version callback c own q res version"
    "\<lambda>q r. v2_verdict version q r = Accept" "\<lambda>res. mr_provider_status (mv_base res)"
  for callback :: "'s memory_callback_v2" and version
proof
  fix c own q res st r c' own' res'
  assume e: "memory_exchange_version callback c own q res version = (st, r, c', own', res')"
  obtain failed r0 own0 where cb: "callback own q = (failed, r0, own0)" by (metis prod_cases3)
  note defs = memory_exchange_version_def Let_def v2_error_def provider_error_def exchange_outcome_def
  show "exchange_outcome c st c' (v2_verdict version q r = Accept) (mr_provider_status (mv_base res'))"
  proof (cases "v2_verdict version q r0")
    case (Fault k st0 esr)
    then show ?thesis using e cb v2_verdict_fault(1) [OF Fault]
      by (auto simp: defs raise_fault_def split: if_splits prod.splits rc.splits dest: raise_refused)
  next
    case (Report why a)
    then show ?thesis using e cb v2_verdict_report [OF Report] by (auto simp: defs split: if_splits option.splits)
  next
    case Accept
    then show ?thesis using e cb by (auto simp: defs split: if_splits)
  next
    case Malformed
    then show ?thesis using e cb by (auto simp: defs split: if_splits)
  qed
qed

section \<open>The data step\<close>

definition fits :: "memory_shape \<Rightarrow> u64 \<Rightarrow> bool" where
  "fits s v \<longleftrightarrow> v AND NOT (width_mask (ms_width s)) = 0"

definition step_target :: "vf_cpu \<Rightarrow> memory_shape \<Rightarrow> u64" where
  "step_target c s = memory_register c (ms_rn s) True + memory_offset c s"

definition data_step_effect :: "vf_cpu \<Rightarrow> u32 \<Rightarrow> vf_cpu \<Rightarrow> u32 \<Rightarrow> bool" where
  "data_step_effect c st c' why \<longleftrightarrow>
     cpu_wf c' \<and> (st = VF_DATA_FAULT \<longrightarrow> c' = c \<and> why \<noteq> VF_PROVIDER_OK)
     \<and> (if st = VF_NEXT
        then \<exists>s v0 v1. decode_memory (cpu_instruction c) = Some s \<and> fits s v0 \<and> fits s v1
               \<and> access_completed c s (step_target c s) v0 v1 c'
        else same_registers c c')"

lemma verdict_fits: "memory_verdict q r = Accept \<Longrightarrow> r1_value0 r AND NOT (width_mask (q1_width q)) = 0 \<and> r1_value1 r AND NOT (width_mask (q1_width q)) = 0"
  by (auto simp: memory_verdict_def Let_def split: if_splits)

lemma v2_verdict_fits: "v2_verdict version q r = Accept \<Longrightarrow> r_value0 r AND NOT (width_mask (q_width q)) = 0 \<and> r_value1 r AND NOT (width_mask (q_width q)) = 0"
  by (auto simp: v2_verdict_def Let_def split: if_splits option.splits)

lemma step_fault:
  assumes "cpu_wf c" "st \<notin> {VF_NEXT, VF_DATA_FAULT}" "same_registers c c1" "cpu_wf c1"
  shows "data_step_effect c st (snd (vf_cpu_commit_status c1 st)) why"
  using assms commit_wf [of c1 st] commit_same [of c1 st] by (auto simp: data_step_effect_def same_registers_def)

lemma step_complete:
  assumes "cpu_wf c" "decode_memory (cpu_instruction c) = Some s" "fits s v0" "fits s v1"
  shows "data_step_effect c VF_NEXT (memory_complete c s (step_target c s) v0 v1) why"
  using assms complete_wf [of c] complete_exact [of c s v0 "step_target c s" v1] decode_shape_ok [OF assms(2)] wf_base [OF assms(1)]
  by (auto simp: data_step_effect_def fits_def)

lemma far_wf: "cpu_wf (c\<lparr>cpu_far := a\<rparr>) \<longleftrightarrow> cpu_wf c"
  by (simp add: cpu_wf_def cpu_fields)

lemma step_sp_fault:
  "cpu_wf c \<Longrightarrow> data_step_effect c VF_SP_ALIGNMENT_FAULT (snd (vf_cpu_commit_status (c\<lparr>cpu_far := a\<rparr>) VF_SP_ALIGNMENT_FAULT)) why"
  by (intro step_fault) (simp_all add: far_wf same_registers_def)

lemma step_undefined:
  "cpu_wf c \<Longrightarrow> data_step_effect c VF_UNDEFINED_INSTRUCTION (snd (vf_cpu_commit_status c VF_UNDEFINED_INSTRUCTION)) why"
  by (intro step_fault) simp_all

lemma effect_next_any: "data_step_effect c VF_NEXT c' why \<Longrightarrow> data_step_effect c VF_NEXT c' why'"
  by (simp add: data_step_effect_def)

context guest_exchange
begin

text \<open>Any step that ends an exchange this way has the effect.\<close>

lemma step_of_exchange:
  assumes wf: "cpu_wf c" and d: "decode_memory (cpu_instruction c) = Some s"
    and x: "exch c own q res = (st, r, c1, own1, res1)"
    and fit: "accepted q r \<Longrightarrow> fits s v0 \<and> fits s v1"
  shows "data_step_effect c st (if st \<noteq> VF_NEXT then c1 else memory_complete c1 s (step_target c s) v0 v1) (reason res1)"
proof (cases "st = VF_NEXT")
  case True
  then have "c1 = c" "accepted q r" using exchange_accepted [of c own q res r c1 own1 res1] x by simp_all
  with True fit step_complete [OF wf d] show ?thesis by simp
next
  case False
  then show ?thesis
    using exchange_wf [OF wf x] exchange_same [OF x] exchange_refused [of c own q res r c1 own1 res1] x
    by (auto simp: data_step_effect_def)
qed

end

lemma step_width [simp]:
  "q1_width (step_request c s) = ms_width s" "q_width (step_request_v2 c controls s version) = ms_width s"
  by (simp_all add: step_request_def step_request_v2_def memory_request_v2_def Let_def)

lemma memory_step_v1_exact:
  assumes wf: "cpu_wf c" and e: "memory_data_step callback c own res = (st, c', own', res')"
  shows "data_step_effect c st c' (mr_provider_status res')"
proof (cases "decode_memory (cpu_instruction c)")
  case None
  with e step_undefined [OF wf] show ?thesis by (auto simp: memory_data_step_def)
next
  case (Some s)
  obtain st1 r c1 own1 res1 where x: "memory_exchange callback c own (step_request c s) res = (st1, r, c1, own1, res1)"
    by (metis prod_cases5)
  have "data_step_effect c st1 (if st1 \<noteq> VF_NEXT then c1 else memory_complete c1 s (step_target c s) (r1_value0 r) (r1_value1 r))
      (mr_provider_status res1)"
    using verdict_fits [of "step_request c s" r] by (intro exchange1.step_of_exchange [OF wf Some x]) (simp add: fits_def)
  then show ?thesis using e Some x step_sp_fault [OF wf]
    by (auto simp: memory_data_step_def step_target_def Let_def intro: effect_next_any split: if_splits)
qed

lemma memory_step_v2_exact:
  assumes wf: "cpu_wf c" and e: "memory_data_step_version callback c controls own res version = (st, c', own', res')"
  shows "data_step_effect c st c' (mr_provider_status (mv_base res'))"
proof (cases "decode_memory (cpu_instruction c)")
  case None
  with e step_undefined [OF wf] show ?thesis by (auto simp: memory_data_step_version_def)
next
  case (Some s)
  let ?q = "step_request_v2 c controls s version"
  obtain st1 r c1 own1 res1 where x: "memory_exchange_version callback c own ?q res version = (st1, r, c1, own1, res1)"
    by (metis prod_cases5)
  have "data_step_effect c st1 (if st1 \<noteq> VF_NEXT then c1 else memory_complete c1 s (step_target c s) (r_value0 r) (r_value1 r))
      (mr_provider_status (mv_base res1))"
    using v2_verdict_fits [of version ?q r] by (intro exchange2.step_of_exchange [OF wf Some x]) (simp add: fits_def)
  then show ?thesis using e Some x step_sp_fault [OF wf]
    by (auto simp: memory_data_step_version_def step_target_def Let_def intro: effect_next_any split: if_splits)
qed

text \<open>C18. Whatever the memory provider answers, a load or store step on a well-formed processor leaves a
  well-formed processor. It retires only if the instruction decodes, and then it has loaded values that
  fit the access into exactly the destination registers, sign-extended where the instruction says so,
  written back the base exactly when the addressing mode does, and advanced the program counter by one
  instruction; every other register is as it was. In every other case the registers, the stack pointer,
  the program counter and the count are untouched, and after a provider failure the whole processor is.\<close>

theorem memory_step_exact:
  assumes wf: "cpu_wf c" and e: "memory_data_step_version callback c controls own res version = (st, c', own', res')"
  shows "data_step_effect c st c' (mr_provider_status (mv_base res'))"
  by (rule memory_step_v2_exact [OF assms])

definition provider_demo :: "unit memory_callback_v2" where
  "provider_demo own q = (False, (empty_reply 2 (mc_epoch (q_controls q)))\<lparr>r_value0 := 0x80\<rparr>, ())"

definition controls_demo :: vf_memory_controls_v2 where
  "controls_demo = \<lparr>mc_abi_version = 2, mc_struct_size = 80, mc_profile = 1, mc_reserved = 0, mc_sctlr = 0, mc_ttbr0 = 0,
     mc_ttbr1 = 0, mc_tcr = 0, mc_mair = 0x44, mc_hcr = 0, mc_scr = 0, mc_epoch = 1\<rparr>"

definition result_demo :: vf_memory_run_result_v2 where
  "result_demo = \<lparr>mv_base = \<lparr>mr_abi_version = 2, mr_struct_size = 320, mr_provider_status = 0, mr_reserved0 = 0,
     mr_execution = vf_boot_snapshot cpu_demo VF_NEXT, mr_guest_far = 0, mr_last_address = 0, mr_fetch_requests = 0,
     mr_data_requests = 0, mr_completed_data_operations = 0, mr_reserved1 = 0\<rparr>, mv_last_reply = empty_reply 2 1\<rparr>"

text \<open>A signed byte load of the byte \<open>0x80\<close> into register one.\<close>

theorem memory_step_exact_witness:
  "\<exists>c' own' res'. memory_data_step_version provider_demo (cpu_demo\<lparr>cpu_instruction := 0x39800001\<rparr>) controls_demo () result_demo 2
       = (VF_NEXT, c', own', res') \<and> cpu_wf c' \<and> cpu_x c' ! 1 = 0xffffffffffffff80"
proof -
  let ?c = "cpu_demo\<lparr>cpu_instruction := 0x39800001\<rparr>"
  let ?o = "memory_data_step_version provider_demo ?c controls_demo () result_demo 2"
  have wf: "cpu_wf ?c" using demo_wf by simp
  have d: "decode_memory 0x39800001 = Some ((shape_zero 0 1)\<lparr>ms_width := 1, ms_count := 1, ms_read := True,
      ms_signed_load := True, ms_result64 := True, ms_mode := 2\<rparr>)" by code_simp
  have "fst ?o = VF_NEXT" "cpu_x (fst (snd ?o)) ! 1 = 0xffffffffffffff80" by code_simp+
  moreover from this obtain c' own' res' where o: "?o = (VF_NEXT, c', own', res')" by (metis prod.collapse)
  ultimately show ?thesis using memory_step_exact [OF wf o] by (auto simp: data_step_effect_def)
qed

section \<open>Accepted replies and faults\<close>

lemma span_bound:
  assumes "\<not> (r :: u64) < q" "\<not> r - q \<ge> of_nat n"
  shows "unat q \<le> unat r" "unat r - unat q < n"
proof -
  show le: "unat q \<le> unat r" using assms(1) by (simp add: not_less word_le_nat_alt)
  have "unat (r - q) < unat (of_nat n :: u64)" using assms(2) by (simp add: not_le word_less_nat_alt)
  also have "\<dots> \<le> n" by (simp add: unat_of_nat)
  finally show "unat r - unat q < n" using assms(1) by (simp add: not_less unat_sub)
qed

lemma no_wrap_bound:
  assumes "\<not> (a :: u64) > - 1 - (of_nat n - 1)" "0 < n" "n < 2 ^ 64"
  shows "unat a + n \<le> 2 ^ 64"
proof -
  have n: "unat (of_nat n :: u64) = n" using assms(3) by (simp add: unat_of_nat)
  have "unat (of_nat n - 1 :: u64) = n - 1"
    using assms(2) n by (subst unat_sub) (simp_all add: word_le_nat_alt)
  then have "unat (- 1 - (of_nat n - 1) :: u64) = 2 ^ 64 - 1 - (n - 1)"
    by (subst unat_sub) (simp_all add: unat_max_word word_order.extremum)
  then show ?thesis using assms by (simp add: not_less word_le_nat_alt)
qed

lemma low_code:
  assumes "(fsc :: u64) < 64"
  shows "drop_bit 26 fsc = 0" "fsc AND 0x3f = fsc" "\<not> bit fsc 25"
proof -
  have t: "take_bit 6 fsc = fsc"
    using assms by (simp add: word_unat_eq_iff unsigned_take_bit_eq take_bit_nat_eq_self word_less_nat_alt)
  have b: "bit fsc n \<Longrightarrow> n < 6" for n by (subst (asm) t [symmetric]) (simp add: bit_take_bit_iff)
  show "drop_bit 26 fsc = 0" using b by (intro bit_word_eqI) (force simp: bit_drop_bit_eq)
  have "fsc AND mask 6 = fsc" using b by (intro bit_word_eqI) (force simp: bit_and_iff bit_mask_iff)
  then show "fsc AND 0x3f = fsc" by (simp add: mask_eq_exp_minus_1)
  show "\<not> bit fsc 25" using b by force
qed

lemma low_level: "(el :: u32) \<le> 1 \<Longrightarrow> el = 0 \<or> el = 1"
  by (auto simp: word_le_nat_alt word_unat_eq_iff)

lemma abort_esr_fields:
  assumes "q_current_el q \<le> 1" "fsc < 64"
  shows "drop_bit 26 (abort_esr q fsc) = (if q_operation q = VF_MEMORY_FETCH then 0x20 else 0x24) + ucast (q_current_el q)"
    "bit (abort_esr q fsc) 25" "abort_esr q fsc AND 0x3f = fsc"
  using low_level [OF assms(1)]
  by (auto simp: abort_esr_def bit_or_iff drop_bit_or low_code [OF assms(2)] bit.conj_disj_distrib2 bit_push_bit_iff)

lemma fsc_small: "(f :: u32) \<le> 15 \<Longrightarrow> ucast f < (64 :: u64)"
  by (simp add: word_less_nat_alt word_le_nat_alt)

lemma fault_fsc_small:
  assumes "\<not> level > 3" shows "fault_fsc f level \<le> 15"
proof -
  have "unat level \<le> 3" using assms by (simp add: not_less word_le_nat_alt)
  then have "unat level = 0 \<or> unat level = 1 \<or> unat level = 2 \<or> unat level = 3" by arith
  then have "level = 0 \<or> level = 1 \<or> level = 2 \<or> level = 3" by (auto simp: word_unat_eq_iff)
  then show ?thesis by (auto simp: fault_fsc_def)
qed

text \<open>What a fault tells the guest: an address of the access, an alignment fault before any other, and a syndrome that
  names the class of the access, the level it came from and the code of the fault.\<close>

definition fault_reported :: "vf_memory_request_v2 \<Rightarrow> vf_memory_reply_v2 \<Rightarrow> bool" where
  "fault_reported q r \<longleftrightarrow>
     unat (q_address q) \<le> unat (r_address r) \<and> unat (r_address r) - unat (q_address q) < q_width q * q_count q
     \<and> (v2_alignment_required q \<longrightarrow> r_address r = q_address q
          \<and> r_fault r = (if q_operation q = VF_MEMORY_FETCH then VF_MEMORY_V2_PC_ALIGNMENT else VF_MEMORY_V2_DATA_ALIGNMENT))
     \<and> (if r_fault r = VF_MEMORY_V2_PC_ALIGNMENT then q_operation q = VF_MEMORY_FETCH \<and> r_esr r = 0x8a000000
        else drop_bit 26 (r_esr r) = (if q_operation q = VF_MEMORY_FETCH then 0x20 else 0x24) + ucast (q_current_el q)
             \<and> bit (r_esr r) 25 \<and> r_esr r AND 0x3f = ucast (r_fsc r))"

lemma fault_valid_syndrome:
  assumes v: "v2_fault_valid q r = Some esr" and el: "q_current_el q \<le> 1"
  shows "(if r_fault r = VF_MEMORY_V2_PC_ALIGNMENT then q_operation q = VF_MEMORY_FETCH \<and> esr = 0x8a000000
          else r_fsc r \<le> 0x21 \<and> esr = abort_esr q (ucast (r_fsc r)) \<and> (ucast (r_fsc r) :: u64) < 64)
         \<and> (v2_alignment_required q \<longrightarrow> r_address r = q_address q
          \<and> r_fault r = (if q_operation q = VF_MEMORY_FETCH then VF_MEMORY_V2_PC_ALIGNMENT else VF_MEMORY_V2_DATA_ALIGNMENT))"
proof (cases "r_fault r = VF_MEMORY_V2_PC_ALIGNMENT \<or> r_fault r = VF_MEMORY_V2_DATA_ALIGNMENT")
  case True
  then show ?thesis using v by (auto simp: v2_fault_valid_def Let_def split: if_splits)
next
  case False
  then have l: "\<not> r_level r > 3" and f: "fault_fsc (r_fault r) (r_level r) = r_fsc r" and a: "\<not> v2_alignment_required q"
    and e: "esr = abort_esr q (ucast (r_fsc r))"
    using v by (auto simp: v2_fault_valid_def Let_def split: if_splits)
  have "r_fsc r \<le> 15" using fault_fsc_small [OF l, of "r_fault r"] f by simp
  then show ?thesis using False e a fsc_small [of "r_fsc r"] by (auto simp: word_le_nat_alt)
qed

lemma v2_verdict_kind:
  assumes "v2_verdict version q r = Fault k st esr"
  shows "k \<in> {VF_EXCEPTION_INSTRUCTION_ABORT, VF_EXCEPTION_ALIGNMENT_FAULT, VF_EXCEPTION_DATA_ABORT}" "r_esr r = esr"
  using assms by (auto simp: v2_verdict_def Let_def split: if_splits option.splits)

lemma verdict_fault_reported:
  assumes "v2_verdict version q r = Fault k st esr" and el: "q_current_el q \<le> 1"
  shows "fault_reported q r" "r_esr r = esr" "ucast esr \<noteq> (0 :: u32)" "\<not> asynchronous k"
proof -
  note f = v2_verdict_fault [OF assms(1)]
  show e: "r_esr r = esr" using v2_verdict_kind(2) [OF assms(1)] .
  show "\<not> asynchronous k" using v2_verdict_kind(1) [OF assms(1)] by (auto simp: asynchronous_def)
  note s = fault_valid_syndrome [OF f(2) el]
  note b = span_bound [OF f(3,4)]
  show "fault_reported q r"
  proof (cases "r_fault r = VF_MEMORY_V2_PC_ALIGNMENT")
    case True
    then show ?thesis using s b by (simp add: fault_reported_def e)
  next
    case False
    then have c: "esr = abort_esr q (ucast (r_fsc r))" "(ucast (r_fsc r) :: u64) < 64" using s by (simp_all only: if_False)
    show ?thesis using s b abort_esr_fields [OF el c(2)] False unfolding fault_reported_def e c(1) by (simp only: if_False) blast
  qed
  show "ucast esr \<noteq> (0 :: u32)"
  proof (cases "r_fault r = VF_MEMORY_V2_PC_ALIGNMENT")
    case True
    then show ?thesis using s by simp
  next
    case False
    then have c: "esr = abort_esr q (ucast (r_fsc r))" "(ucast (r_fsc r) :: u64) < 64" using s by (simp_all only: if_False)
    have "bit (ucast esr :: u32) 25" using abort_esr_fields(2) [OF el c(2)] unfolding c(1) by (simp add: bit_ucast_iff)
    then show ?thesis by auto
  qed
qed

lemma v2_verdict_accept:
  assumes "v2_verdict version q r = Accept"
  shows "\<not> q_address q > - 1 - (of_nat (q_width q * q_count q) - 1)" "\<not> v2_alignment_required q"
    "version = 3 \<Longrightarrow> mc_sctlr (q_controls q) AND 1 = 0
       \<Longrightarrow> q_address q < push_bit 48 1 \<and> of_nat (q_width q * q_count q) \<le> push_bit 48 1 - q_address q"
  using assms by (auto simp: v2_verdict_def Let_def not_le not_less split: if_splits option.splits)

lemma physical_bound:
  assumes "(a :: u64) < push_bit 48 1" "of_nat n \<le> push_bit 48 1 - a" "n < 2 ^ 64"
  shows "unat a + n \<le> 2 ^ 48"
proof -
  have n: "unat (of_nat n :: u64) = n" using assms(3) by (simp add: unat_of_nat)
  have a: "unat a < 2 ^ 48" using assms(1) by (simp add: word_less_nat_alt)
  have "unat (push_bit 48 1 - a) = 2 ^ 48 - unat a" using assms(1) by (simp add: unat_sub)
  then show ?thesis using a n assms(2) by (simp add: word_le_nat_alt)
qed

lemma raised_fault:
  assumes "raise_fault c fetch k addr esr = (OK, c')" "\<not> asynchronous k" "ucast esr \<noteq> (0 :: u32)"
  shows "cpu_exception_far c' = addr \<and> cpu_exception_syndrome c' = ucast (ucast esr :: u32) \<and> cpu_exception_pc c' = cpu_pc c"
  using assms by (auto simp: raise_fault_def vf_cpu_raise_exception_def Let_def split: if_splits)

lemma exchange_fault:
  assumes e: "memory_exchange_version callback c own q res version = (st, r, c', own', res')"
    and st: "st \<in> {VF_INSTRUCTION_ABORT, VF_ALIGNMENT_FAULT, VF_DATA_ABORT}"
  obtains k esr where "v2_verdict version q r = Fault k st esr"
    "raise_fault c (q_operation q = VF_MEMORY_FETCH) k (r_address r) esr = (OK, c')"
proof -
  obtain failed r0 own0 where cb: "callback own q = (failed, r0, own0)" by (metis prod_cases3)
  note defs = memory_exchange_version_def Let_def v2_error_def provider_error_def
  show thesis
  proof (cases "v2_verdict version q r0")
    case (Fault k st0 esr)
    then show ?thesis using e cb st that by (auto simp: defs split: if_splits prod.splits rc.splits)
  next
    case (Report why a)
    then show ?thesis using e cb st by (auto simp: defs split: if_splits option.splits)
  qed (use e cb st in \<open>auto simp: defs split: if_splits\<close>)
qed

text \<open>C19. An exchange with the memory provider lets the guest proceed only if the whole access lies below the end of the
  address space, below the physical limit while translation is off, and is aligned where alignment is demanded. It raises
  a fault only at an address of the access, with alignment faults before every other one, and the exception recorded is
  at the current program counter and carries that address and the syndrome of the reply, whose class, level and fault
  code are those of the access.\<close>

theorem memory_reply_sound:
  assumes e: "memory_exchange_version callback c own q res version = (st, r, c', own', res')"
    and w: "q_width q \<in> {1, 2, 4, 8}" "q_count q \<in> {1, 2}" and el: "q_current_el q \<le> 1"
  shows "(st = VF_NEXT \<longrightarrow> \<not> v2_alignment_required q
            \<and> unat (q_address q) + q_width q * q_count q
                \<le> (if version = 3 \<and> mc_sctlr (q_controls q) AND 1 = 0 then 2 ^ 48 else 2 ^ 64))
     \<and> (st \<in> {VF_INSTRUCTION_ABORT, VF_ALIGNMENT_FAULT, VF_DATA_ABORT} \<longrightarrow> fault_reported q r
            \<and> cpu_exception_far c' = r_address r \<and> cpu_exception_syndrome c' = ucast (ucast (r_esr r) :: u32)
            \<and> cpu_exception_pc c' = cpu_pc c)"
proof (intro conjI impI)
  assume "st = VF_NEXT"
  with e have "memory_exchange_version callback c own q res version = (VF_NEXT, r, c', own', res')" by simp
  from exchange2.exchange_accepted [OF this] have v: "v2_verdict version q r = Accept" ..
  note a = v2_verdict_accept [OF v]
  show "\<not> v2_alignment_required q" by (rule a)
  have n: "0 < q_width q * q_count q" "q_width q * q_count q < 2 ^ 64" using w by auto
  show "unat (q_address q) + q_width q * q_count q \<le> (if version = 3 \<and> mc_sctlr (q_controls q) AND 1 = 0 then 2 ^ 48 else 2 ^ 64)"
    using no_wrap_bound [OF a(1) n] physical_bound [OF _ _ n(2), of "q_address q"] a(3) by presburger
next
  assume st: "st \<in> {VF_INSTRUCTION_ABORT, VF_ALIGNMENT_FAULT, VF_DATA_ABORT}"
  then obtain k esr where v: "v2_verdict version q r = Fault k st esr"
    and f: "raise_fault c (q_operation q = VF_MEMORY_FETCH) k (r_address r) esr = (OK, c')"
    by (rule exchange_fault [OF e])
  note s = verdict_fault_reported [OF v el]
  show "fault_reported q r" by (rule s)
  show "cpu_exception_far c' = r_address r" "cpu_exception_syndrome c' = ucast (ucast (r_esr r) :: u32)" "cpu_exception_pc c' = cpu_pc c"
    using raised_fault [OF f s(4,3)] s(2) by simp_all
qed

text \<open>A provider that answers every request with a translation fault at the input address.\<close>

definition faulting_demo :: "unit memory_callback_v2" where
  "faulting_demo own q = (False, (empty_reply 2 (mc_epoch (q_controls q)))\<lparr>r_result := VF_MEMORY_V2_GUEST_FAULT, r_fault := VF_MEMORY_V2_TRANSLATION,
     r_level := 0, r_context := VF_MEMORY_V2_INPUT, r_fsc := 4, r_address := q_address q, r_esr := abort_esr q 4\<rparr>, ())"

definition load_demo :: vf_memory_request_v2 where
  "load_demo = memory_request_v2 cpu_demo controls_demo VF_MEMORY_LOAD 8 1 0x1000"

theorem memory_reply_sound_witness:
  "\<exists>c' own' res' r. memory_exchange_version faulting_demo cpu_demo () load_demo result_demo 2 = (VF_DATA_ABORT, r, c', own', res')
     \<and> fault_reported load_demo r \<and> cpu_exception_far c' = 0x1000 \<and> cpu_exception_syndrome c' = 0x96000004"
proof -
  let ?o = "memory_exchange_version faulting_demo cpu_demo () load_demo result_demo 2"
  have q: "q_width load_demo = 8" "q_count load_demo = 1" "q_current_el load_demo = 1" by code_simp+
  have "fst ?o = VF_DATA_ABORT" "r_address (fst (snd ?o)) = 0x1000" "r_esr (fst (snd ?o)) = 0x96000004" by code_simp+
  moreover from this obtain r c' own' res' where o: "?o = (VF_DATA_ABORT, r, c', own', res')" by (metis prod.collapse)
  ultimately show ?thesis using memory_reply_sound [OF o] q by auto
qed

end
