(* ===== verification/Dynamic.thy ===== *)
theory Dynamic
  imports Provider
begin

text \<open>
  The one-way control dispatcher of \<open>runtime/memory_dynamic.h\<close> and \<open>runtime/memory_dynamic.inc\<close>: a guest write
  of a translation register, a barrier or a translation-buffer invalidation becomes a two-phase transaction with the
  memory service. A request is prepared, the proposal is compared with what the dispatcher expects, and only then
  committed; the acknowledged state and the registers of the processor change together, after the commit has been
  acknowledged.

  The service is a function from its own state and a request to a failure flag, a reply and its next state. The
  theorems hold for every such function.
\<close>

unbundle bit_operations_syntax

section \<open>Requests and replies\<close>

abbreviation (input) VF_DYNAMIC_PROFILE :: u32 where "VF_DYNAMIC_PROFILE \<equiv> 2"
abbreviation (input) VF_DYNAMIC_PREPARE :: u32 where "VF_DYNAMIC_PREPARE \<equiv> 1"
abbreviation (input) VF_DYNAMIC_COMMIT :: u32 where "VF_DYNAMIC_COMMIT \<equiv> 2"
abbreviation (input) VF_DYNAMIC_WRITE :: u32 where "VF_DYNAMIC_WRITE \<equiv> 1"
abbreviation (input) VF_DYNAMIC_ISB :: u32 where "VF_DYNAMIC_ISB \<equiv> 2"
abbreviation (input) VF_DYNAMIC_DSB :: u32 where "VF_DYNAMIC_DSB \<equiv> 3"
abbreviation (input) VF_DYNAMIC_TLBI :: u32 where "VF_DYNAMIC_TLBI \<equiv> 4"
abbreviation (input) VF_DYNAMIC_SCTLR :: u32 where "VF_DYNAMIC_SCTLR \<equiv> 1"
abbreviation (input) VF_DYNAMIC_TTBR0 :: u32 where "VF_DYNAMIC_TTBR0 \<equiv> 2"
abbreviation (input) VF_DYNAMIC_TTBR1 :: u32 where "VF_DYNAMIC_TTBR1 \<equiv> 3"
abbreviation (input) VF_DYNAMIC_TCR :: u32 where "VF_DYNAMIC_TCR \<equiv> 4"
abbreviation (input) VF_DYNAMIC_MAIR :: u32 where "VF_DYNAMIC_MAIR \<equiv> 5"
abbreviation (input) VF_DYNAMIC_UNSUPPORTED :: u32 where "VF_DYNAMIC_UNSUPPORTED \<equiv> 1"
abbreviation (input) VF_DYNAMIC_UNAVAILABLE :: u32 where "VF_DYNAMIC_UNAVAILABLE \<equiv> 3"
abbreviation (input) VF_DYNAMIC_PROPOSED :: u32 where "VF_DYNAMIC_PROPOSED \<equiv> 1"
abbreviation (input) VF_DYNAMIC_KNOWN :: u32 where "VF_DYNAMIC_KNOWN \<equiv> 2"
abbreviation (input) VF_DYNAMIC_UNCERTAIN :: u32 where "VF_DYNAMIC_UNCERTAIN \<equiv> 3"
abbreviation (input) VF_DYNAMIC_ISB_WORD :: u32 where "VF_DYNAMIC_ISB_WORD \<equiv> 0xd5033fdf"
abbreviation (input) VF_DYNAMIC_DSB_WORD :: u32 where "VF_DYNAMIC_DSB_WORD \<equiv> 0xd5033f9f"
abbreviation (input) VF_DYNAMIC_TLBI_WORD :: u32 where "VF_DYNAMIC_TLBI_WORD \<equiv> 0xd508871f"

record vf_dynamic_snapshot =
  ds_sctlr :: u64
  ds_ttbr0 :: u64
  ds_ttbr1 :: u64
  ds_tcr :: u64
  ds_mair :: u64
  ds_hcr :: u64
  ds_scr :: u64
  ds_reserved :: u64

record vf_dynamic_request =
  dq_abi_version :: u32
  dq_struct_size :: u32
  dq_phase :: u32
  dq_operation :: u32
  dq_selector :: u32
  dq_current_el :: u32
  dq_flags :: u32
  dq_reserved :: u32
  dq_pc :: u64
  dq_operand :: u64
  dq_revision :: u64
  dq_epoch :: u64
  dq_before :: vf_dynamic_snapshot
  dq_candidate :: vf_dynamic_snapshot

record vf_dynamic_reply =
  dr_abi_version :: u32
  dr_struct_size :: u32
  dr_result :: u32
  dr_detail :: u32
  dr_phase :: u32
  dr_operation :: u32
  dr_selector :: u32
  dr_state_tag :: u32
  dr_token :: u64
  dr_revision :: u64
  dr_epoch :: u64
  dr_invalidations :: u64
  dr_architectural :: vf_dynamic_snapshot
  dr_effective :: vf_dynamic_snapshot

record vf_memory_run_result_dynamic =
  md_memory :: vf_memory_run_result_v2
  md_final_control :: vf_dynamic_reply

type_synonym 's dynamic_callback = "'s \<Rightarrow> vf_dynamic_request \<Rightarrow> bool \<times> vf_dynamic_reply \<times> 's"

text \<open>The controls a dynamic run may have: those of an immutable run of the aligned profile, without an
  address-space identifier, except that translation may still be off and the epoch may be any but zero.\<close>

definition vf_dynamic_controls_valid :: "vf_memory_controls_v2 \<Rightarrow> bool" where
  "vf_dynamic_controls_valid c =
     (if mc_abi_version c \<noteq> 3 \<or> mc_struct_size c \<noteq> 80 \<or> mc_profile c \<noteq> 2 \<or> mc_reserved c \<noteq> 0 \<or> mc_epoch c = 0 then False
      else if drop_bit 48 (mc_ttbr0 c OR mc_ttbr1 c) \<noteq> 0 \<or> mc_tcr c AND (push_bit 22 1 OR push_bit 36 1) \<noteq> 0 then False
      else vf_memory_controls_valid_v2 (c\<lparr>mc_abi_version := 2, mc_profile := 1, mc_epoch := 1, mc_sctlr := mc_sctlr c OR 1\<rparr>))"

section \<open>The dispatcher\<close>

definition dynamic_snapshot :: "vf_memory_controls_v2 \<Rightarrow> vf_dynamic_snapshot" where
  "dynamic_snapshot c =
     \<lparr>ds_sctlr = mc_sctlr c, ds_ttbr0 = mc_ttbr0 c, ds_ttbr1 = mc_ttbr1 c, ds_tcr = mc_tcr c, ds_mair = mc_mair c,
      ds_hcr = mc_hcr c, ds_scr = mc_scr c, ds_reserved = 0\<rparr>"

definition dynamic_controls :: "vf_dynamic_snapshot \<Rightarrow> u64 \<Rightarrow> vf_memory_controls_v2" where
  "dynamic_controls s epoch =
     \<lparr>mc_abi_version = 3, mc_struct_size = 80, mc_profile = 2, mc_reserved = 0, mc_sctlr = ds_sctlr s, mc_ttbr0 = ds_ttbr0 s,
      mc_ttbr1 = ds_ttbr1 s, mc_tcr = ds_tcr s, mc_mair = ds_mair s, mc_hcr = ds_hcr s, mc_scr = ds_scr s, mc_epoch = epoch\<rparr>"

definition dynamic_equal :: "vf_dynamic_snapshot \<Rightarrow> vf_dynamic_snapshot \<Rightarrow> bool" where
  "dynamic_equal a b \<longleftrightarrow>
     ds_sctlr a = ds_sctlr b \<and> ds_ttbr0 a = ds_ttbr0 b \<and> ds_ttbr1 a = ds_ttbr1 b \<and> ds_tcr a = ds_tcr b
     \<and> ds_mair a = ds_mair b \<and> ds_hcr a = ds_hcr b \<and> ds_scr a = ds_scr b \<and> ds_reserved a = ds_reserved b"

definition dynamic_cpu_match :: "vf_cpu \<Rightarrow> vf_dynamic_snapshot \<Rightarrow> bool" where
  "dynamic_cpu_match cpu a \<longleftrightarrow>
     cpu_current_el cpu = VF_EL1 \<and> cpu_sctlr cpu = ds_sctlr a \<and> cpu_ttbr0 cpu = ds_ttbr0 a \<and> cpu_ttbr1 cpu = ds_ttbr1 a
     \<and> cpu_tcr cpu = ds_tcr a \<and> cpu_mair cpu = ds_mair a \<and> cpu_hcr_el2 cpu = ds_hcr a \<and> cpu_scr_el3 cpu = ds_scr a
     \<and> cpu_pstate cpu AND NOT 0xf00003cf = 0"

definition dynamic_failure ::
  "vf_memory_run_result_dynamic \<Rightarrow> u32 \<Rightarrow> bool \<Rightarrow> u32 \<times> vf_memory_run_result_dynamic" where
  "dynamic_failure out reason uncertain =
     (let out1 = (if uncertain then out\<lparr>md_final_control := (md_final_control out)\<lparr>dr_state_tag := VF_DYNAMIC_UNCERTAIN\<rparr>\<rparr>
                  else out);
          (st, memory) = v2_error (md_memory out1) reason in
      (st, out1\<lparr>md_memory := memory\<rparr>))"

definition snapshot_zero :: vf_dynamic_snapshot where
  "snapshot_zero = \<lparr>ds_sctlr = 0, ds_ttbr0 = 0, ds_ttbr1 = 0, ds_tcr = 0, ds_mair = 0, ds_hcr = 0, ds_scr = 0, ds_reserved = 0\<rparr>"

definition dynamic_error_valid :: "vf_dynamic_request \<Rightarrow> vf_dynamic_reply \<Rightarrow> bool" where
  "dynamic_error_valid q r \<longleftrightarrow>
     dr_abi_version r = 1 \<and> dr_struct_size r = 192 \<and> dr_phase r = dq_phase q \<and> dr_operation r = dq_operation q
     \<and> dr_selector r = dq_selector q \<and> dr_result r \<ge> 1 \<and> dr_result r \<le> 3 \<and> dr_detail r \<ge> 1 \<and> dr_detail r \<le> 10
     \<and> dr_state_tag r = 0 \<and> dr_token r = 0 \<and> dr_revision r = 0 \<and> dr_epoch r = 0 \<and> dr_invalidations r = 0
     \<and> dynamic_equal (dr_architectural r) snapshot_zero \<and> dynamic_equal (dr_effective r) snapshot_zero"

definition dynamic_reply_equal :: "vf_dynamic_reply \<Rightarrow> vf_dynamic_reply \<Rightarrow> bool" where
  "dynamic_reply_equal r e \<longleftrightarrow>
     dr_abi_version r = dr_abi_version e \<and> dr_struct_size r = dr_struct_size e \<and> dr_result r = dr_result e
     \<and> dr_detail r = dr_detail e \<and> dr_phase r = dr_phase e \<and> dr_operation r = dr_operation e
     \<and> dr_selector r = dr_selector e \<and> dr_state_tag r = dr_state_tag e \<and> dr_token r = dr_token e
     \<and> dr_revision r = dr_revision e \<and> dr_epoch r = dr_epoch e \<and> dr_invalidations r = dr_invalidations e
     \<and> dynamic_equal (dr_architectural r) (dr_architectural e) \<and> dynamic_equal (dr_effective r) (dr_effective e)"

definition dynamic_operation :: "u32 \<Rightarrow> (u32 \<times> u32) option" where
  "dynamic_operation w =
     (if w = VF_DYNAMIC_ISB_WORD then Some (VF_DYNAMIC_ISB, 0)
      else if w = VF_DYNAMIC_DSB_WORD then Some (VF_DYNAMIC_DSB, 0)
      else if w = VF_DYNAMIC_TLBI_WORD then Some (VF_DYNAMIC_TLBI, 0)
      else if \<not> is_mrs_msr w \<or> w AND 0x00200000 \<noteq> 0 then None
      else if sysreg_key w = VF_SYSREG_KEY_SCTLR_EL1 then Some (VF_DYNAMIC_WRITE, VF_DYNAMIC_SCTLR)
      else if sysreg_key w = VF_SYSREG_KEY_TTBR0_EL1 then Some (VF_DYNAMIC_WRITE, VF_DYNAMIC_TTBR0)
      else if sysreg_key w = VF_SYSREG_KEY_TTBR1_EL1 then Some (VF_DYNAMIC_WRITE, VF_DYNAMIC_TTBR1)
      else if sysreg_key w = VF_SYSREG_KEY_TCR_EL1 then Some (VF_DYNAMIC_WRITE, VF_DYNAMIC_TCR)
      else if sysreg_key w = VF_SYSREG_KEY_MAIR_EL1 then Some (VF_DYNAMIC_WRITE, VF_DYNAMIC_MAIR)
      else None)"

text \<open>The parts of a control step: the snapshot with one register written, the request of the first phase, and the
  acknowledgement the dispatcher expects, or none where it refuses the operation before asking.\<close>

definition snapshot_write :: "u32 \<Rightarrow> u64 \<Rightarrow> vf_dynamic_snapshot \<Rightarrow> vf_dynamic_snapshot" where
  "snapshot_write selector v s =
     (if selector = VF_DYNAMIC_SCTLR then s\<lparr>ds_sctlr := v\<rparr>
      else if selector = VF_DYNAMIC_TTBR0 then s\<lparr>ds_ttbr0 := v\<rparr>
      else if selector = VF_DYNAMIC_TTBR1 then s\<lparr>ds_ttbr1 := v\<rparr>
      else if selector = VF_DYNAMIC_TCR then s\<lparr>ds_tcr := v\<rparr>
      else s\<lparr>ds_mair := v\<rparr>)"

definition dynamic_request :: "vf_cpu \<Rightarrow> vf_dynamic_reply \<Rightarrow> u32 \<Rightarrow> u32 \<Rightarrow> vf_dynamic_request" where
  "dynamic_request cpu known op selector =
     (let v = memory_register cpu (unat (cpu_instruction cpu AND 31)) False in
      \<lparr>dq_abi_version = 1, dq_struct_size = 192, dq_phase = VF_DYNAMIC_PREPARE, dq_operation = op, dq_selector = selector,
       dq_current_el = VF_EL1, dq_flags = 0, dq_reserved = 0, dq_pc = cpu_pc cpu,
       dq_operand = (if op = VF_DYNAMIC_WRITE then v else 0), dq_revision = dr_revision known, dq_epoch = dr_epoch known,
       dq_before = dr_architectural known,
       dq_candidate = (if op = VF_DYNAMIC_WRITE then snapshot_write selector v (dr_architectural known)
                       else dr_architectural known)\<rparr>)"

definition dynamic_write_refused :: "vf_dynamic_reply \<Rightarrow> vf_dynamic_request \<Rightarrow> bool" where
  "dynamic_write_refused known q \<longleftrightarrow>
     ds_sctlr (dr_architectural known) AND 1 \<noteq> 0
     \<or> \<not> vf_dynamic_controls_valid (dynamic_controls (dq_candidate q) (dr_epoch known))
     \<or> (ds_tcr (dr_effective known) XOR ds_tcr (dq_candidate q)) AND (push_bit 14 3 OR push_bit 30 3 OR push_bit 32 7) \<noteq> 0
     \<or> dr_revision known = - 1
     \<or> (dq_selector q = VF_DYNAMIC_SCTLR
        \<and> (dq_operand q \<noteq> ds_sctlr (dr_architectural known) OR 1
           \<or> \<not> dynamic_equal (dr_architectural known) (dr_effective known) \<or> dq_pc q > - 1 - 7))"

definition dynamic_expected :: "vf_dynamic_reply \<Rightarrow> vf_dynamic_request \<Rightarrow> vf_dynamic_reply option" where
  "dynamic_expected known q =
     (let op = dq_operation q;
          e = known\<lparr>dr_phase := VF_DYNAMIC_PREPARE, dr_operation := op, dr_selector := dq_selector q,
                    dr_state_tag := VF_DYNAMIC_PROPOSED, dr_token := 0\<rparr> in
      if op = VF_DYNAMIC_WRITE then
        (if dynamic_write_refused known q then None
         else Some (e\<lparr>dr_architectural := dq_candidate q, dr_revision := dr_revision known + 1\<rparr>))
      else if op = VF_DYNAMIC_ISB \<and> \<not> dynamic_equal (dr_architectural known) (dr_effective known) then
        (if dr_epoch known = - 1 then None
         else Some (e\<lparr>dr_effective := dr_architectural known, dr_epoch := dr_epoch known + 1\<rparr>))
      else if op = VF_DYNAMIC_TLBI then
        (if dr_invalidations known = - 1 then None else Some (e\<lparr>dr_invalidations := dr_invalidations known + 1\<rparr>))
      else Some e)"

definition dynamic_reason :: "vf_dynamic_reply \<Rightarrow> u32" where
  "dynamic_reason r =
     (if dr_result r = VF_DYNAMIC_UNSUPPORTED then VF_PROVIDER_UNSUPPORTED
      else if dr_result r = VF_DYNAMIC_UNAVAILABLE then VF_PROVIDER_UNAVAILABLE_V2 else VF_PROVIDER_INVALID_REQUEST)"

definition dynamic_install :: "vf_cpu \<Rightarrow> vf_dynamic_snapshot \<Rightarrow> vf_cpu" where
  "dynamic_install cpu a =
     retire (cpu\<lparr>cpu_sctlr := ds_sctlr a, cpu_ttbr0 := ds_ttbr0 a, cpu_ttbr1 := ds_ttbr1 a, cpu_tcr := ds_tcr a,
                 cpu_mair := ds_mair a\<rparr>)"

definition dynamic_control_step ::
  "'s dynamic_callback \<Rightarrow> vf_cpu \<Rightarrow> u32 \<Rightarrow> u32 \<Rightarrow> 's \<Rightarrow> vf_memory_run_result_dynamic
   \<Rightarrow> u32 \<times> vf_cpu \<times> 's \<times> vf_memory_run_result_dynamic" where
  "dynamic_control_step callback cpu op selector owner out =
     (let known = md_final_control out; q = dynamic_request cpu known op selector;
          fail = (\<lambda>owner' reason uncertain.
                    case dynamic_failure out reason uncertain of (st, out') \<Rightarrow> (st, cpu, owner', out')) in
      case dynamic_expected known q of
        None \<Rightarrow> fail owner VF_PROVIDER_UNSUPPORTED False
      | Some expected \<Rightarrow>
          let (failed, r, owner1) = callback owner q in
          if failed then fail owner1 VF_PROVIDER_CALLBACK_FAILURE False
          else if dr_result r \<noteq> 0 then
            (if \<not> dynamic_error_valid q r then fail owner1 VF_PROVIDER_INVALID_REPLY False
             else fail owner1 (dynamic_reason r) False)
          else if dr_token r = 0 \<or> \<not> dynamic_reply_equal r (expected\<lparr>dr_token := dr_token r\<rparr>) then
            fail owner1 VF_PROVIDER_INVALID_REPLY False
          else
            let expected1 = expected\<lparr>dr_phase := VF_DYNAMIC_COMMIT, dr_state_tag := VF_DYNAMIC_KNOWN, dr_token := 0\<rparr>;
                (failed1, r1, owner2) = callback owner1 (q\<lparr>dq_phase := VF_DYNAMIC_COMMIT, dq_operand := dr_token r\<rparr>) in
            if failed1 then fail owner2 VF_PROVIDER_CALLBACK_FAILURE True
            else if \<not> dynamic_reply_equal r1 expected1 then fail owner2 VF_PROVIDER_INVALID_REPLY True
            else
              (VF_NEXT, dynamic_install cpu (dr_architectural expected1), owner2,
               out\<lparr>md_final_control := expected1\<lparr>dr_phase := 0, dr_operation := 0, dr_selector := 0\<rparr>\<rparr>))"

section \<open>What a control step may do\<close>

text \<open>The service behind a recorder: the recorder passes every request on and appends it to its list.\<close>

definition recorded :: "'s dynamic_callback \<Rightarrow> ('s \<times> vf_dynamic_request list) dynamic_callback" where
  "recorded callback own q =
     (case callback (fst own) q of (failed, r, own1) \<Rightarrow> (failed, r, (own1, snd own @ [q])))"

text \<open>
  The abstract control machine: the registers as the guest wrote them, the registers translation uses, and three
  unbounded counters. A synchronisation makes the written registers effective.
\<close>

record control =
  k_arch :: vf_dynamic_snapshot
  k_eff :: vf_dynamic_snapshot
  k_revision :: nat
  k_epoch :: nat
  k_invalidations :: nat

datatype control_event = Write u32 u64 | Synchronise | Barrier | Invalidate

fun control_apply :: "control_event \<Rightarrow> control \<Rightarrow> control" where
  "control_apply (Write selector v) k = k\<lparr>k_arch := snapshot_write selector v (k_arch k), k_revision := k_revision k + 1\<rparr>"
| "control_apply Synchronise k =
     (if k_eff k = k_arch k then k else k\<lparr>k_eff := k_arch k, k_epoch := k_epoch k + 1\<rparr>)"
| "control_apply Barrier k = k"
| "control_apply Invalidate k = k\<lparr>k_invalidations := k_invalidations k + 1\<rparr>"

definition control_of :: "vf_dynamic_reply \<Rightarrow> control" where
  "control_of r =
     \<lparr>k_arch = dr_architectural r, k_eff = dr_effective r, k_revision = unat (dr_revision r), k_epoch = unat (dr_epoch r),
      k_invalidations = unat (dr_invalidations r)\<rparr>"

definition control_event_of :: "vf_cpu \<Rightarrow> u32 \<Rightarrow> u32 \<Rightarrow> control_event" where
  "control_event_of cpu op selector =
     (if op = VF_DYNAMIC_WRITE then Write selector (memory_register cpu (unat (cpu_instruction cpu AND 31)) False)
      else if op = VF_DYNAMIC_ISB then Synchronise else if op = VF_DYNAMIC_TLBI then Invalidate else Barrier)"

lemma dynamic_equal_iff: "dynamic_equal a b \<longleftrightarrow> a = (b :: vf_dynamic_snapshot)"
  by (auto simp: dynamic_equal_def intro: vf_dynamic_snapshot.equality)

lemma dynamic_reply_equal_iff: "dynamic_reply_equal r e \<longleftrightarrow> r = (e :: vf_dynamic_reply)"
  by (auto simp: dynamic_reply_equal_def dynamic_equal_iff intro: vf_dynamic_reply.equality)

lemma failure_eq:
  "dynamic_failure out reason uncertain =
     (VF_DATA_FAULT,
      out\<lparr>md_memory := snd (v2_error (md_memory out) reason),
          md_final_control := (if uncertain then (md_final_control out)\<lparr>dr_state_tag := VF_DYNAMIC_UNCERTAIN\<rparr>
                               else md_final_control out)\<rparr>)"
  by (simp add: dynamic_failure_def v2_error_def provider_error_def)

definition committed :: "vf_dynamic_request \<Rightarrow> u64 \<Rightarrow> vf_dynamic_request" where
  "committed q token = q\<lparr>dq_phase := VF_DYNAMIC_COMMIT, dq_operand := token\<rparr>"

definition acknowledged :: "vf_dynamic_reply \<Rightarrow> vf_dynamic_reply" where
  "acknowledged e = e\<lparr>dr_state_tag := VF_DYNAMIC_KNOWN, dr_token := 0, dr_phase := 0, dr_operation := 0, dr_selector := 0\<rparr>"

text \<open>The ways a control step ends, with the requests it has sent.\<close>

definition control_step_effect ::
  "vf_cpu \<Rightarrow> u32 \<Rightarrow> u32 \<Rightarrow> vf_memory_run_result_dynamic \<Rightarrow> vf_dynamic_request list
   \<Rightarrow> u32 \<Rightarrow> vf_cpu \<Rightarrow> vf_memory_run_result_dynamic \<Rightarrow> bool" where
  "control_step_effect cpu op selector out sent st cpu' out' \<longleftrightarrow>
     (let known = md_final_control out; q = dynamic_request cpu known op selector in
      (\<exists>e token. st = VF_NEXT \<and> dynamic_expected known q = Some e \<and> token \<noteq> 0 \<and> sent = [q, committed q token]
         \<and> cpu' = dynamic_install cpu (dr_architectural e) \<and> out' = out\<lparr>md_final_control := acknowledged e\<rparr>)
      \<or> (\<exists>reason. st = VF_DATA_FAULT \<and> cpu' = cpu \<and> reason \<noteq> VF_PROVIDER_OK
           \<and> (sent = [] \<or> sent = [q] \<or> (\<exists>token. token \<noteq> 0 \<and> sent = [q, committed q token]))
           \<and> out' = out\<lparr>md_memory := snd (v2_error (md_memory out) reason),
                        md_final_control := (if length sent = 2 then known\<lparr>dr_state_tag := VF_DYNAMIC_UNCERTAIN\<rparr> else known)\<rparr>))"

lemma step_failed:
  assumes "dynamic_failure out reason uncertain = (st, out')" "reason \<noteq> VF_PROVIDER_OK"
  shows "\<not> uncertain \<Longrightarrow> control_step_effect cpu op selector out [] st cpu out'"
    "\<not> uncertain \<Longrightarrow> control_step_effect cpu op selector out [dynamic_request cpu (md_final_control out) op selector] st cpu out'"
    "uncertain \<Longrightarrow> token \<noteq> 0 \<Longrightarrow> control_step_effect cpu op selector out
       [dynamic_request cpu (md_final_control out) op selector,
        committed (dynamic_request cpu (md_final_control out) op selector) token] st cpu out'"
  using assms unfolding control_step_effect_def failure_eq Let_def
  by (intro disjI2 exI [of _ reason]; auto)+

lemma step_committed:
  assumes "dynamic_expected (md_final_control out) (dynamic_request cpu (md_final_control out) op selector) = Some e" "token \<noteq> 0"
  shows "control_step_effect cpu op selector out
     [dynamic_request cpu (md_final_control out) op selector, committed (dynamic_request cpu (md_final_control out) op selector) token]
     VF_NEXT (dynamic_install cpu (dr_architectural e)) (out\<lparr>md_final_control := acknowledged e\<rparr>)"
  using assms unfolding control_step_effect_def Let_def by (intro disjI1 exI [of _ e] exI [of _ token]) simp

lemma control_step_effects:
  assumes "dynamic_control_step (recorded callback) cpu op selector (own, seen) out = (st, cpu', (own', seen'), out')"
  shows "\<exists>sent. seen' = seen @ sent \<and> control_step_effect cpu op selector out sent st cpu' out'"
proof -
  let ?known = "md_final_control out"
  let ?q = "dynamic_request cpu ?known op selector"
  note defs = dynamic_control_step_def Let_def recorded_def dynamic_reply_equal_iff
  show ?thesis
  proof (cases "dynamic_expected ?known ?q")
    case None
    with assms show ?thesis by (auto simp: defs intro!: exI [of _ "[]"] step_failed split: prod.splits)
  next
    case (Some e)
    obtain f1 r1 own1 where c1: "callback own ?q = (f1, r1, own1)" by (metis prod_cases3)
    obtain f2 r2 own2 where c2: "callback own1 (?q\<lparr>dq_phase := VF_DYNAMIC_COMMIT, dq_operand := dr_token r1\<rparr>) = (f2, r2, own2)"
      by (metis prod_cases3)
    have r: "dynamic_reason r1 \<noteq> VF_PROVIDER_OK" by (simp add: dynamic_reason_def)
    show ?thesis
    proof (cases "\<not> f1 \<and> dr_result r1 = 0 \<and> dr_token r1 \<noteq> 0 \<and> r1 = e\<lparr>dr_token := dr_token r1\<rparr>")
      case False
      with assms Some c1 r have "seen' = seen @ [?q] \<and> control_step_effect cpu op selector out [?q] st cpu' out'"
        by (auto simp: defs intro: step_failed split: prod.splits if_splits)
      then show ?thesis by blast
    next
      case True
      with assms Some c1 c2 have "seen' = seen @ [?q, committed ?q (dr_token r1)]
          \<and> control_step_effect cpu op selector out [?q, committed ?q (dr_token r1)] st cpu' out'"
        using step_committed [OF Some, of "dr_token r1"]
        by (cases "\<not> f2 \<and> dynamic_reply_equal r2 (e\<lparr>dr_phase := VF_DYNAMIC_COMMIT, dr_state_tag := VF_DYNAMIC_KNOWN, dr_token := 0\<rparr>)")
          (auto simp: defs committed_def acknowledged_def intro: step_failed(3) [unfolded committed_def] split: prod.splits if_splits)
      then show ?thesis by blast
    qed
  qed
qed

lemma unat_next: "(w :: u64) \<noteq> - 1 \<Longrightarrow> unat (w + 1) = unat w + 1"
proof -
  assume "w \<noteq> - 1"
  then have "1 + w \<noteq> 0" by (metis add.commute add_eq_0_iff)
  then have "unat (1 + w) = Suc (unat w)" by (rule unatSuc)
  then show ?thesis by (simp add: add.commute)
qed

lemma request_fields [simp]:
  "dq_operation (dynamic_request cpu known op selector) = op" "dq_selector (dynamic_request cpu known op selector) = selector"
  "dq_phase (dynamic_request cpu known op selector) = VF_DYNAMIC_PREPARE" "dq_pc (dynamic_request cpu known op selector) = cpu_pc cpu"
  by (simp_all add: dynamic_request_def Let_def)

lemma expected_write:
  assumes "dynamic_expected known q = Some e" "dq_operation q = VF_DYNAMIC_WRITE"
  shows "\<not> dynamic_write_refused known q" "dr_revision known \<noteq> - 1" "dr_architectural e = dq_candidate q"
    "dr_effective e = dr_effective known" "dr_revision e = dr_revision known + 1" "dr_epoch e = dr_epoch known"
    "dr_invalidations e = dr_invalidations known"
  using assms by (auto simp: dynamic_expected_def Let_def dynamic_write_refused_def split: if_splits)

lemma expected_other:
  assumes "dynamic_expected known q = Some e" "dq_operation q \<noteq> VF_DYNAMIC_WRITE"
  shows "dr_architectural e = dr_architectural known" "dr_revision e = dr_revision known"
    "dq_operation q = VF_DYNAMIC_ISB \<Longrightarrow> dr_effective e = dr_architectural known"
    "dq_operation q \<noteq> VF_DYNAMIC_ISB \<or> dr_effective known = dr_architectural known \<Longrightarrow> dr_effective e = dr_effective known"
    "unat (dr_epoch e) = unat (dr_epoch known)
       + (if dq_operation q = VF_DYNAMIC_ISB \<and> dr_effective known \<noteq> dr_architectural known then 1 else 0)"
    "unat (dr_invalidations e) = unat (dr_invalidations known) + (if dq_operation q = VF_DYNAMIC_TLBI then 1 else 0)"
  using assms by (auto simp: dynamic_expected_def Let_def dynamic_equal_iff unat_next split: if_splits)

lemma acknowledged_fields [simp]:
  "dr_architectural (acknowledged e) = dr_architectural e" "dr_effective (acknowledged e) = dr_effective e"
  "dr_revision (acknowledged e) = dr_revision e" "dr_epoch (acknowledged e) = dr_epoch e"
  "dr_invalidations (acknowledged e) = dr_invalidations e" "dr_state_tag (acknowledged e) = VF_DYNAMIC_KNOWN"
  by (simp_all add: acknowledged_def)

lemma expected_refines:
  assumes "dynamic_expected known (dynamic_request cpu known op selector) = Some e"
  shows "control_of (acknowledged e) = control_apply (control_event_of cpu op selector) (control_of known)"
proof (cases "op = VF_DYNAMIC_WRITE")
  case True
  then show ?thesis using expected_write [OF assms]
    by (simp add: control_of_def control_event_of_def dynamic_request_def Let_def unat_next)
next
  case False
  then show ?thesis using expected_other [OF assms] by (auto simp: control_of_def control_event_of_def)
qed

lemma install_fields [simp]:
  "cpu_x (dynamic_install c a) = cpu_x c" "cpu_current_el (dynamic_install c a) = cpu_current_el c"
  "cpu_pstate (dynamic_install c a) = cpu_pstate c" "cpu_pc (dynamic_install c a) = cpu_pc c + 4"
  "cpu_retired (dynamic_install c a) = cpu_retired c + 1" "cpu_sp (dynamic_install c a) = cpu_sp c"
  by (simp_all add: dynamic_install_def retire_def vf_cpu_advance_counter_def update_timer_status_def)

text \<open>C8. A control operation is atomic, whatever the memory service answers. It succeeds only after two requests, one to
  prepare and one to commit; then the acknowledged state is the one the abstract control machine reaches by that
  operation, its counters have not wrapped, and the processor has exactly those registers and has moved past the
  instruction. In every other case the processor and the acknowledged registers and counters are unchanged, and the
  state is marked uncertain exactly if the commit had been sent.\<close>

theorem dynamic_control_atomic:
  assumes "dynamic_control_step (recorded callback) cpu op selector (own, []) out = (st, cpu', (own', sent), out')"
  shows "if st = VF_NEXT
         then map dq_phase sent = [VF_DYNAMIC_PREPARE, VF_DYNAMIC_COMMIT]
              \<and> control_of (md_final_control out') = control_apply (control_event_of cpu op selector) (control_of (md_final_control out))
              \<and> dr_state_tag (md_final_control out') = VF_DYNAMIC_KNOWN \<and> md_memory out' = md_memory out
              \<and> cpu' = dynamic_install cpu (dr_architectural (md_final_control out'))
         else st = VF_DATA_FAULT \<and> cpu' = cpu \<and> control_of (md_final_control out') = control_of (md_final_control out)
              \<and> mr_provider_status (mv_base (md_memory out')) \<noteq> VF_PROVIDER_OK
              \<and> (if VF_DYNAMIC_COMMIT \<in> dq_phase ` set sent then dr_state_tag (md_final_control out') = VF_DYNAMIC_UNCERTAIN
                 else md_final_control out' = md_final_control out)"
proof -
  from control_step_effects [OF assms] have "control_step_effect cpu op selector out sent st cpu' out'" by simp
  then show ?thesis unfolding control_step_effect_def Let_def
  proof (elim disjE exE conjE)
    fix e token
    assume "dynamic_expected (md_final_control out) (dynamic_request cpu (md_final_control out) op selector) = Some e"
      "st = VF_NEXT" "cpu' = dynamic_install cpu (dr_architectural e)" "out' = out\<lparr>md_final_control := acknowledged e\<rparr>"
      "sent = [dynamic_request cpu (md_final_control out) op selector, committed (dynamic_request cpu (md_final_control out) op selector) token]"
    then show ?thesis using expected_refines by (simp add: committed_def)
  qed (auto simp: v2_error_def provider_error_def committed_def control_of_def)
qed

text \<open>A service that acknowledges a synchronisation, and a run in which a written register is not yet effective.\<close>

definition snapshot_demo :: vf_dynamic_snapshot where
  "snapshot_demo = \<lparr>ds_sctlr = 0x30d00802, ds_ttbr0 = 0x4000, ds_ttbr1 = 0x8000, ds_tcr = 0x80190019, ds_mair = 0x44,
     ds_hcr = 0, ds_scr = 0, ds_reserved = 0\<rparr>"

definition known_demo :: vf_dynamic_reply where
  "known_demo = \<lparr>dr_abi_version = 1, dr_struct_size = 192, dr_result = 0, dr_detail = 0, dr_phase = 0, dr_operation = 0,
     dr_selector = 0, dr_state_tag = VF_DYNAMIC_KNOWN, dr_token = 0, dr_revision = 2, dr_epoch = 1, dr_invalidations = 0,
     dr_architectural = snapshot_demo, dr_effective = snapshot_demo\<lparr>ds_ttbr0 := 0\<rparr>\<rparr>"

definition service_demo :: "unit dynamic_callback" where
  "service_demo own q =
     (False, known_demo\<lparr>dr_phase := dq_phase q, dr_operation := dq_operation q, dr_selector := dq_selector q,
        dr_state_tag := (if dq_phase q = VF_DYNAMIC_PREPARE then VF_DYNAMIC_PROPOSED else VF_DYNAMIC_KNOWN),
        dr_token := (if dq_phase q = VF_DYNAMIC_PREPARE then 7 else 0), dr_epoch := 2, dr_effective := snapshot_demo\<rparr>, ())"

definition out_demo :: vf_memory_run_result_dynamic where
  "out_demo = \<lparr>md_memory = result_demo, md_final_control = known_demo\<rparr>"

theorem dynamic_control_atomic_witness:
  "\<exists>cpu' own' sent out'.
     dynamic_control_step (recorded service_demo) cpu_demo VF_DYNAMIC_ISB 0 ((), []) out_demo = (VF_NEXT, cpu', (own', sent), out')
     \<and> k_eff (control_of (md_final_control out')) = snapshot_demo \<and> k_epoch (control_of (md_final_control out')) = 2
     \<and> map dq_phase sent = [VF_DYNAMIC_PREPARE, VF_DYNAMIC_COMMIT] \<and> cpu_ttbr0 cpu' = 0x4000"
proof -
  let ?o = "dynamic_control_step (recorded service_demo) cpu_demo VF_DYNAMIC_ISB 0 ((), []) out_demo"
  have "fst ?o = VF_NEXT" "cpu_ttbr0 (fst (snd ?o)) = 0x4000" by code_simp+
  moreover from this obtain cpu' own' sent out' where o: "?o = (VF_NEXT, cpu', (own', sent), out')" by (metis prod.collapse)
  moreover have "control_apply (control_event_of cpu_demo VF_DYNAMIC_ISB 0) (control_of known_demo)
      = (control_of known_demo)\<lparr>k_eff := snapshot_demo, k_epoch := 2\<rparr>" by code_simp
  ultimately show ?thesis using dynamic_control_atomic [OF o] by (auto simp: out_demo_def)
qed


end
