(* ===== verification/Run.thy ===== *)
theory Run
  imports Dynamic
begin

text \<open>
  The execution loops over a memory provider: \<open>vf_run_memory_provider\<close> of \<open>runtime/jit.c\<close>,
  \<open>run_memory_provider_v2\<close> of \<open>runtime/memory_stage1.inc\<close> and \<open>vf_run_memory_provider_dynamic\<close> of
  \<open>runtime/memory_dynamic.inc\<close>, with the run-local cache of native code that the first two share.

  Host machine code and the host's page protection are not defined by the repository: a host is a record of three
  functions, the protection change, the code the translator emits for one instruction, and the run of a piece of code.
  What the translator emits under a provider depends on the exception level, the instruction and its address alone, so
  these are the arguments of the function; the theory \<open>Native\<close> computes it by the model of \<open>translate_impl\<close> and proves
  that nothing else is read. Its status is computed from the size of the code, as in the source. The code buffer is a map from slots to the code they
  hold, where a slot that has been written over holds none; running such a slot is the undefined outcome \<open>None\<close>.

  A loop takes fuel. One iteration is defined once for the three loops, over what differs: how they fetch, and how they
  dispatch the status of the native code.
\<close>

unbundle bit_operations_syntax

section \<open>Native code and its cache\<close>

abbreviation (input) VF_MEMORY_DISPATCH :: u32 where "VF_MEMORY_DISPATCH \<equiv> 0x7ffffffe"
abbreviation (input) VF_FP_DISPATCH :: u32 where "VF_FP_DISPATCH \<equiv> 0x7ffffffd"
abbreviation (input) NEXTCORE_PROVIDER_CACHE_SLOT_BYTES :: nat where "NEXTCORE_PROVIDER_CACHE_SLOT_BYTES \<equiv> 1024"

record ('p, 'c) host =
  h_protect :: "'p \<Rightarrow> bool \<Rightarrow> bool \<times> 'p"
  h_emit :: "u32 \<Rightarrow> u32 \<Rightarrow> u64 \<Rightarrow> 'c \<times> nat"
  h_entry :: "vf_cpu \<Rightarrow> 'c \<Rightarrow> u32 \<times> vf_cpu"
  h_fp :: bool

record provider_native_entry =
  pne_pc :: u64
  pne_instruction :: u32
  pne_current_el :: u32
  pne_used :: nat
  pne_valid :: bool

record 'c native_cache =
  nv_entries :: "provider_native_entry list"
  nv_victim :: nat
  nv_buffer :: "nat \<Rightarrow> 'c option"

definition native_slots :: "nat \<Rightarrow> nat" where
  "native_slots capacity = min (capacity div NEXTCORE_PROVIDER_CACHE_SLOT_BYTES) 64"

definition cache_empty :: "'c native_cache" where
  "cache_empty =
     \<lparr>nv_entries = replicate 64 \<lparr>pne_pc = 0, pne_instruction = 0, pne_current_el = 0, pne_used = 0, pne_valid = False\<rparr>,
      nv_victim = 0, nv_buffer = (\<lambda>_. None)\<rparr>"

definition native_match :: "vf_cpu \<Rightarrow> u32 \<Rightarrow> provider_native_entry \<Rightarrow> bool" where
  "native_match cpu instruction e \<longleftrightarrow>
     pne_valid e \<and> pne_pc e = cpu_pc cpu \<and> pne_instruction e = instruction \<and> pne_current_el e = cpu_current_el cpu"

text \<open>Translating into one slot, and into the whole buffer, which writes over every slot.\<close>

definition translate_slot ::
  "('p, 'c) host \<Rightarrow> nat \<Rightarrow> vf_cpu \<Rightarrow> u32 \<Rightarrow> (nat \<Rightarrow> 'c option) \<Rightarrow> u32 \<times> nat \<times> (nat \<Rightarrow> 'c option)" where
  "translate_slot h i cpu instruction buffer =
     (let (code, used) = h_emit h (cpu_current_el cpu) instruction (cpu_pc cpu) in
      if used > NEXTCORE_PROVIDER_CACHE_SLOT_BYTES then (VF_CODE_FULL, used, buffer(i := None))
      else (VF_NEXT, used, buffer(i := Some code)))"

definition translate_whole ::
  "('p, 'c) host \<Rightarrow> nat \<Rightarrow> vf_cpu \<Rightarrow> u32 \<Rightarrow> u32 \<times> nat \<times> (nat \<Rightarrow> 'c option)" where
  "translate_whole h capacity cpu instruction =
     (let (code, used) = h_emit h (cpu_current_el cpu) instruction (cpu_pc cpu) in
      if used > capacity then (VF_CODE_FULL, used, \<lambda>_. None)
      else (VF_NEXT, used, (\<lambda>_. None)(0 := Some code)))"

text \<open>The native code of an instruction: an earlier slot, or a translation that is published in the slot of the victim.
  The flag is off under \<open>NEXTCORE_DISABLE_PROVIDER_CACHE\<close>, and in the dynamic run, which has no cache.\<close>

definition native_miss ::
  "bool \<Rightarrow> ('p, 'c) host \<Rightarrow> nat \<Rightarrow> vf_cpu \<Rightarrow> u32 \<Rightarrow> 'p \<Rightarrow> 'c native_cache \<Rightarrow> (u32 + nat) \<times> 'p \<times> 'c native_cache" where
  "native_miss publish h capacity cpu instruction p c =
     (let selected = nv_victim c;
          c0 = (if publish then c\<lparr>nv_entries := (nv_entries c)[selected := (nv_entries c ! selected)\<lparr>pne_valid := False\<rparr>]\<rparr> else c);
          (failed, p1) = h_protect h p False in
      if failed then (Inl VF_PROTECTION, p1, c0)
      else
        let (status, used, buffer) = (if publish then translate_slot h selected cpu instruction (nv_buffer c0)
                                      else translate_whole h capacity cpu instruction);
            retry = (status = VF_CODE_FULL \<and> publish);
            (status1, used1, buffer1) = (if retry then translate_whole h capacity cpu instruction else (status, used, buffer));
            c1 = (if retry then c0\<lparr>nv_entries := map (\<lambda>e. e\<lparr>pne_valid := False\<rparr>) (nv_entries c0), nv_victim := 0, nv_buffer := buffer1\<rparr>
                  else c0\<lparr>nv_buffer := buffer1\<rparr>) in
        if status1 \<noteq> VF_NEXT then (Inl status1, p1, c1)
        else
          let (failed1, p2) = h_protect h p1 True in
          if failed1 then (Inl VF_PROTECTION, p2, c1)
          else if publish \<and> \<not> retry then
            (Inr selected, p2,
             c1\<lparr>nv_entries := (nv_entries c1)[selected := \<lparr>pne_pc = cpu_pc cpu, pne_instruction = instruction,
                                               pne_current_el = cpu_current_el cpu, pne_used = used1, pne_valid = True\<rparr>],
                nv_victim := (selected + 1) mod native_slots capacity\<rparr>)
          else (Inr 0, p2, c1))"

definition native_select ::
  "bool \<Rightarrow> ('p, 'c) host \<Rightarrow> nat \<Rightarrow> vf_cpu \<Rightarrow> u32 \<Rightarrow> 'p \<Rightarrow> 'c native_cache \<Rightarrow> (u32 + nat) \<times> 'p \<times> 'c native_cache" where
  "native_select cached h capacity cpu instruction p c =
     (case (if cached then find (\<lambda>i. native_match cpu instruction (nv_entries c ! i)) [0..<native_slots capacity] else None) of
        Some i \<Rightarrow> (Inr i, p, c)
      | None \<Rightarrow> native_miss (cached \<and> native_slots capacity \<noteq> 0) h capacity cpu instruction p c)"

definition execute_native_block :: "('p, 'c) host \<Rightarrow> vf_cpu \<Rightarrow> 'c \<Rightarrow> u32 \<times> vf_cpu" where
  "execute_native_block h cpu code =
     (let (status, cpu1) = h_entry h cpu code;
          cpu2 = vf_cpu_advance_counter cpu1 (cpu_retired cpu1 - cpu_retired cpu) in
      (status, cpu2\<lparr>cpu_compiled_blocks := cpu_compiled_blocks cpu2 + 1\<rparr>))"

section \<open>The loop\<close>

record ('s, 'r, 'p, 'c) run_state =
  rs_cpu :: vf_cpu
  rs_owner :: 's
  rs_result :: 'r
  rs_protect :: 'p
  rs_cache :: "'c native_cache"

type_synonym ('s, 'r) fetcher = "vf_cpu \<Rightarrow> 's \<Rightarrow> 'r \<Rightarrow> (u32 + u32) \<times> vf_cpu \<times> 's \<times> 'r"
type_synonym ('s, 'r) dispatcher = "u32 \<Rightarrow> u32 \<Rightarrow> vf_cpu \<Rightarrow> 's \<Rightarrow> 'r \<Rightarrow> (u32 option \<times> vf_cpu \<times> 's \<times> 'r) option"

text \<open>One iteration: a status to return with, or none to continue.\<close>

definition provider_iteration ::
  "bool \<Rightarrow> ('p, 'c) host \<Rightarrow> nat \<Rightarrow> ('s, 'r) fetcher \<Rightarrow> ('s, 'r) dispatcher \<Rightarrow> ('s, 'r, 'p, 'c) run_state
   \<Rightarrow> (u32 option \<times> ('s, 'r, 'p, 'c) run_state) option" where
  "provider_iteration cached h capacity fetch dispatch s =
     (case fetch (rs_cpu s) (rs_owner s) (rs_result s) of
        (Inl status, cpu, own, res) \<Rightarrow> Some (Some status, s\<lparr>rs_cpu := cpu, rs_owner := own, rs_result := res\<rparr>)
      | (Inr w, cpu, own, res) \<Rightarrow>
          (case native_select cached h capacity cpu w (rs_protect s) (rs_cache s) of
             (Inl status, p, c) \<Rightarrow>
               Some (Some status, \<lparr>rs_cpu = cpu, rs_owner = own, rs_result = res, rs_protect = p, rs_cache = c\<rparr>)
           | (Inr i, p, c) \<Rightarrow>
               (case nv_buffer c i of
                  None \<Rightarrow> None
                | Some code \<Rightarrow>
                    (case execute_native_block h cpu code of (status, cpu1) \<Rightarrow>
                       (case dispatch w status cpu1 own res of
                          None \<Rightarrow> None
                        | Some (out, cpu2, own1, res1) \<Rightarrow>
                            Some (out, \<lparr>rs_cpu = cpu2, rs_owner = own1, rs_result = res1, rs_protect = p, rs_cache = c\<rparr>))))))"

definition rs_return :: "u32 \<Rightarrow> ('s, 'r, 'p, 'c) run_state \<Rightarrow> u32 \<times> ('s, 'r, 'p, 'c) run_state" where
  "rs_return status s = (status, s\<lparr>rs_cpu := (rs_cpu s)\<lparr>cpu_status := status\<rparr>\<rparr>)"

fun provider_loop ::
  "nat \<Rightarrow> (('s, 'r, 'p, 'c) run_state \<Rightarrow> (u32 option \<times> ('s, 'r, 'p, 'c) run_state) option) \<Rightarrow> u64 \<Rightarrow> u64
   \<Rightarrow> ('s, 'r, 'p, 'c) run_state \<Rightarrow> (u32 \<times> ('s, 'r, 'p, 'c) run_state) option" where
  "provider_loop 0 iterate start budget s = None"
| "provider_loop (Suc fuel) iterate start budget s =
     (if \<not> cpu_retired (rs_cpu s) - start < budget then Some (rs_return VF_BUDGET s)
      else
        case iterate s of
          None \<Rightarrow> None
        | Some (Some status, s1) \<Rightarrow> Some (rs_return status s1)
        | Some (None, s1) \<Rightarrow> provider_loop fuel iterate start budget s1)"

text \<open>Software steps are tried in order until one takes the instruction.\<close>

fun first_step :: "(vf_cpu \<Rightarrow> bool \<times> vf_cpu) list \<Rightarrow> vf_cpu \<Rightarrow> bool \<times> vf_cpu" where
  "first_step [] cpu = (False, cpu)"
| "first_step (f # fs) cpu = (case f cpu of (taken, cpu1) \<Rightarrow> if taken then (True, cpu1) else first_step fs cpu1)"

text \<open>The end of every iteration: the status of native code that no software step has taken.\<close>

definition dispatch_status :: "(vf_cpu \<Rightarrow> bool \<times> vf_cpu) list \<Rightarrow> u32 \<Rightarrow> vf_cpu \<Rightarrow> u32 option \<times> vf_cpu" where
  "dispatch_status steps status cpu =
     (let (taken, cpu1) = (if status = VF_UNDEFINED_INSTRUCTION \<or> status = VF_SYSTEM_REGISTER_TRAP then first_step steps cpu
                           else (False, cpu)) in
      if taken then (None, cpu1)
      else
        let status1 = research_system_register_failure cpu1 status in
        if status1 \<noteq> VF_NEXT then (Some status1, snd (vf_cpu_commit_status cpu1 status1)) else (None, cpu1))"

definition dispatch_fp :: "vf_cpu \<Rightarrow> (u32 option \<times> vf_cpu) option" where
  "dispatch_fp cpu =
     (case vf_fp_step cpu of
        None \<Rightarrow> None
      | Some (status, cpu1) \<Rightarrow>
          if status = VF_NEXT then Some (None, cpu1) else Some (Some status, snd (vf_cpu_commit_status cpu1 status)))"

section \<open>The physical run\<close>

definition fetch_request :: "vf_cpu \<Rightarrow> vf_memory_request_v1" where
  "fetch_request cpu =
     \<lparr>q1_abi_version = 1, q1_struct_size = 80, q1_operation = VF_MEMORY_FETCH, q1_flags = 0, q1_pc = cpu_pc cpu,
      q1_address = cpu_pc cpu, q1_value0 = 0, q1_value1 = 0, q1_sctlr = cpu_sctlr cpu, q1_epoch = 0, q1_width = 4,
      q1_count = 1, q1_current_el = cpu_current_el cpu, q1_reserved = 0\<rparr>"

definition fetch_v1 :: "'s memory_callback_v1 \<Rightarrow> ('s, vf_memory_run_result_v1) fetcher" where
  "fetch_v1 callback cpu own res =
     (if cpu_sctlr cpu AND 1 \<noteq> 0 \<or> cpu_current_el cpu > VF_EL1 \<or> higher_el_active cpu then
        (Inl VF_SYSTEM_REGISTER_TRAP, cpu\<lparr>cpu_instruction := 0\<rparr>, own, res)
      else
        let (status, cpu1) = vf_cpu_poll_interrupt cpu in
        if status \<noteq> VF_NEXT then (Inl status, cpu1, own, res)
        else
          let (status1, r, cpu2, own1, res1) = memory_exchange callback cpu1 own (fetch_request cpu1) res in
          if status1 \<noteq> VF_NEXT then (Inl status1, cpu2, own1, res1) else (Inr (ucast (r1_value0 r)), cpu2, own1, res1))"

definition dispatch_v1 :: "bool \<Rightarrow> 's memory_callback_v1 \<Rightarrow> ('s, vf_memory_run_result_v1) dispatcher" where
  "dispatch_v1 fp callback w status cpu own res =
     (if fp \<and> status = VF_FP_DISPATCH then map_option (\<lambda>(out, cpu1). (out, cpu1, own, res)) (dispatch_fp cpu)
      else if status = VF_MEMORY_DISPATCH then
        (case memory_data_step callback cpu own res of
           (status1, cpu1, own1, res1) \<Rightarrow> Some (if status1 \<noteq> VF_NEXT then Some status1 else None, cpu1, own1, res1))
      else
        (case dispatch_status [system_register_slow_step, pstate_slow_step, pauth_slow_step] status cpu of
           (out, cpu1) \<Rightarrow> Some (out, cpu1, own, res)))"

definition vf_run_memory_provider ::
  "nat \<Rightarrow> bool \<Rightarrow> ('p, 'c) host \<Rightarrow> nat \<Rightarrow> 's memory_callback_v1 \<Rightarrow> u64 \<Rightarrow> vf_cpu \<Rightarrow> 's \<Rightarrow> 'p \<Rightarrow> vf_memory_run_result_v1
   \<Rightarrow> (u32 \<times> ('s, vf_memory_run_result_v1, 'p, 'c) run_state) option" where
  "vf_run_memory_provider fuel cached h capacity callback budget cpu own p res =
     (let s = \<lparr>rs_cpu = cpu, rs_owner = own, rs_result = res, rs_protect = p, rs_cache = cache_empty\<rparr> in
      if budget = 0 \<or> \<not> vf_cpu_state_valid cpu \<or> cpu_exception_pending cpu \<noteq> exception_code VF_EXCEPTION_NONE then
        (case provider_error res VF_PROVIDER_INVALID_REQUEST of (status, res1) \<Rightarrow> Some (status, s\<lparr>rs_result := res1\<rparr>))
      else
        provider_loop fuel (provider_iteration cached h capacity (fetch_v1 callback) (dispatch_v1 (h_fp h) callback))
          (cpu_retired cpu) budget s)"

section \<open>The immutable run\<close>

definition fetch_v2 :: "'s memory_callback_v2 \<Rightarrow> vf_memory_controls_v2 \<Rightarrow> ('s, vf_memory_run_result_v2) fetcher" where
  "fetch_v2 callback controls cpu own res =
     (if \<not> v2_controls_match cpu controls then
        (case v2_error res VF_PROVIDER_INVALID_REQUEST of (status, res1) \<Rightarrow> (Inl status, cpu, own, res1))
      else
        let (status, cpu1) = vf_cpu_poll_interrupt cpu in
        if status \<noteq> VF_NEXT then (Inl status, cpu1, own, res)
        else
          let (status1, r, cpu2, own1, res1) =
                memory_exchange_v2 callback cpu1 own (memory_request_v2 cpu1 controls VF_MEMORY_FETCH 4 1 (cpu_pc cpu1)) res in
          if status1 \<noteq> VF_NEXT then (Inl status1, cpu2, own1, res1) else (Inr (ucast (r_value0 r)), cpu2, own1, res1))"

definition dispatch_v2 ::
  "bool \<Rightarrow> bool \<Rightarrow> 's memory_callback_v2 \<Rightarrow> vf_memory_controls_v2 \<Rightarrow> ('s, vf_memory_run_result_v2) dispatcher" where
  "dispatch_v2 fp allow_pauth callback controls w status cpu own res =
     (if fp \<and> status = VF_FP_DISPATCH then map_option (\<lambda>(out, cpu1). (out, cpu1, own, res)) (dispatch_fp cpu)
      else if status = VF_MEMORY_DISPATCH then
        (case memory_data_step_v2 callback cpu controls own res of
           (status1, cpu1, own1, res1) \<Rightarrow> Some (if status1 \<noteq> VF_NEXT then Some status1 else None, cpu1, own1, res1))
      else
        (case dispatch_status
                ([system_register_read_slow_step, platform_override_write_slow_step, fp_access_control_write_slow_step,
                  memory_control_read_v2, stack_select_immutable_step] @ (if allow_pauth then [pauth_immutable_step] else []))
                status cpu of
           (out, cpu1) \<Rightarrow> Some (out, cpu1, own, res)))"

definition run_memory_provider_v2 ::
  "nat \<Rightarrow> bool \<Rightarrow> ('p, 'c) host \<Rightarrow> nat \<Rightarrow> vf_memory_controls_v2 \<Rightarrow> 's memory_callback_v2 \<Rightarrow> u64 \<Rightarrow> bool \<Rightarrow> vf_cpu \<Rightarrow> 's \<Rightarrow> 'p
   \<Rightarrow> vf_memory_run_result_v2 \<Rightarrow> (u32 \<times> ('s, vf_memory_run_result_v2, 'p, 'c) run_state) option" where
  "run_memory_provider_v2 fuel cached h capacity controls callback budget allow_pauth cpu own p res =
     (let s = \<lparr>rs_cpu = cpu, rs_owner = own, rs_result = res, rs_protect = p, rs_cache = cache_empty\<rparr> in
      if budget = 0 \<or> \<not> vf_memory_controls_valid_v2 controls \<or> \<not> vf_cpu_state_valid cpu
         \<or> cpu_exception_pending cpu \<noteq> exception_code VF_EXCEPTION_NONE then
        (case v2_error res VF_PROVIDER_INVALID_REQUEST of (status, res1) \<Rightarrow> Some (status, s\<lparr>rs_result := res1\<rparr>))
      else
        provider_loop fuel
          (provider_iteration cached h capacity (fetch_v2 callback controls) (dispatch_v2 (h_fp h) allow_pauth callback controls))
          (cpu_retired cpu) budget s)"

section \<open>The dynamic run\<close>

text \<open>Besides the result the dynamic run keeps whether translation is being enabled, and where the synchronisation must be.\<close>

record dynamic_state =
  dy_out :: vf_memory_run_result_dynamic
  dy_enabling :: bool
  dy_enable_pc :: u64

definition dynamic_effective :: "dynamic_state \<Rightarrow> vf_memory_controls_v2" where
  "dynamic_effective d =
     dynamic_controls (dr_effective (md_final_control (dy_out d))) (dr_epoch (md_final_control (dy_out d)))"

definition dynamic_fail :: "dynamic_state \<Rightarrow> u32 \<Rightarrow> u32 \<times> dynamic_state" where
  "dynamic_fail d reason = (case dynamic_failure (dy_out d) reason False of (status, out) \<Rightarrow> (status, d\<lparr>dy_out := out\<rparr>))"

definition fetch_dynamic :: "'s memory_callback_v2 \<Rightarrow> ('s, dynamic_state) fetcher" where
  "fetch_dynamic callback cpu own d =
     (let fc = md_final_control (dy_out d);
          fail = (\<lambda>cpu' own' d' reason. case dynamic_fail d' reason of (status, d1) \<Rightarrow> (Inl status, cpu', own', d1)) in
      if \<not> dynamic_cpu_match cpu (dr_architectural fc) then fail cpu own d VF_PROVIDER_INVALID_REQUEST
      else if \<not> dynamic_equal (dr_architectural fc) (dr_effective fc) \<and> cpu_pstate cpu AND 0xc0 \<noteq> 0xc0 then
        fail cpu own d VF_PROVIDER_UNSUPPORTED
      else
        let (status, cpu1) = vf_cpu_poll_interrupt cpu in
        if status \<noteq> VF_NEXT then (Inl status, cpu1, own, d)
        else
          let q = (memory_request_v2 cpu1 (dynamic_effective d) VF_MEMORY_FETCH 4 1 (cpu_pc cpu1))
                    \<lparr>q_abi_version := 3, q_controls := dynamic_effective d\<rparr>;
              (status1, r, cpu2, own1, res1) = memory_exchange_version callback cpu1 own q (md_memory (dy_out d)) 3;
              d1 = d\<lparr>dy_out := (dy_out d)\<lparr>md_memory := res1\<rparr>\<rparr>; instruction = ucast (r_value0 r) in
          if status1 \<noteq> VF_NEXT then (Inl status1, cpu2, own1, d1)
          else if dy_enabling d \<and> (cpu_pc cpu2 \<noteq> dy_enable_pc d \<or> instruction \<noteq> VF_DYNAMIC_ISB_WORD) then
            fail cpu2 own1 d1 VF_PROVIDER_UNSUPPORTED
          else (Inr instruction, cpu2, own1, d1))"

definition dynamic_note :: "u32 \<Rightarrow> u32 \<Rightarrow> u64 \<Rightarrow> dynamic_state \<Rightarrow> dynamic_state" where
  "dynamic_note op selector old_pc d =
     (let d1 = (if op = VF_DYNAMIC_WRITE \<and> selector = VF_DYNAMIC_SCTLR then d\<lparr>dy_enabling := True, dy_enable_pc := old_pc + 4\<rparr> else d) in
      if op = VF_DYNAMIC_ISB then d1\<lparr>dy_enabling := False\<rparr> else d1)"

definition dispatch_dynamic ::
  "bool \<Rightarrow> 's memory_callback_v2 \<Rightarrow> 's dynamic_callback \<Rightarrow> ('s, dynamic_state) dispatcher" where
  "dispatch_dynamic fp callback control w status cpu own d =
     (if fp \<and> status = VF_FP_DISPATCH then map_option (\<lambda>(out, cpu1). (out, cpu1, own, d)) (dispatch_fp cpu)
      else if status = VF_MEMORY_DISPATCH then
        (case memory_data_step_version callback cpu (dynamic_effective d) own (md_memory (dy_out d)) 3 of
           (status1, cpu1, own1, res1) \<Rightarrow>
             Some (if status1 \<noteq> VF_NEXT then Some status1 else None, cpu1, own1, d\<lparr>dy_out := (dy_out d)\<lparr>md_memory := res1\<rparr>\<rparr>))
      else
        case (if status = VF_UNDEFINED_INSTRUCTION \<or> status = VF_SYSTEM_REGISTER_TRAP then dynamic_operation w else None) of
          Some (op, selector) \<Rightarrow>
            (case dynamic_control_step control cpu op selector own (dy_out d) of
               (status1, cpu1, own1, out1) \<Rightarrow>
                 if status1 \<noteq> VF_NEXT then Some (Some status1, cpu1, own1, d\<lparr>dy_out := out1\<rparr>)
                 else Some (None, cpu1, own1, dynamic_note op selector (cpu_pc cpu) (d\<lparr>dy_out := out1\<rparr>)))
        | None \<Rightarrow>
            (case dispatch_status [system_register_slow_step, memory_control_read_v2, pauth_immutable_step] status cpu of
               (out, cpu1) \<Rightarrow> Some (out, cpu1, own, d)))"

definition dynamic_start :: "vf_memory_controls_v2 \<Rightarrow> vf_dynamic_reply" where
  "dynamic_start initial =
     \<lparr>dr_abi_version = 1, dr_struct_size = 192, dr_result = 0, dr_detail = 0, dr_phase = 0, dr_operation = 0, dr_selector = 0,
      dr_state_tag = VF_DYNAMIC_KNOWN, dr_token = 0, dr_revision = 1, dr_epoch = 1, dr_invalidations = 0,
      dr_architectural = dynamic_snapshot initial, dr_effective = dynamic_snapshot initial\<rparr>"

definition dynamic_admitted :: "vf_memory_controls_v2 \<Rightarrow> u64 \<Rightarrow> vf_cpu \<Rightarrow> bool" where
  "dynamic_admitted initial budget cpu \<longleftrightarrow>
     \<not> (budget = 0 \<or> \<not> vf_dynamic_controls_valid initial \<or> mc_sctlr initial AND 1 \<noteq> 0 \<or> mc_epoch initial \<noteq> 1
        \<or> \<not> vf_cpu_state_valid cpu \<or> cpu_exception_pending cpu \<noteq> exception_code VF_EXCEPTION_NONE
        \<or> cpu_current_el cpu \<noteq> VF_EL1 \<or> cpu_pstate cpu AND 0xc0 \<noteq> 0xc0)"

definition vf_run_memory_provider_dynamic ::
  "nat \<Rightarrow> ('p, 'c) host \<Rightarrow> nat \<Rightarrow> vf_memory_controls_v2 \<Rightarrow> 's memory_callback_v2 \<Rightarrow> 's dynamic_callback \<Rightarrow> u64 \<Rightarrow> vf_cpu \<Rightarrow> 's
   \<Rightarrow> 'p \<Rightarrow> vf_memory_run_result_dynamic \<Rightarrow> (u32 \<times> ('s, dynamic_state, 'p, 'c) run_state) option" where
  "vf_run_memory_provider_dynamic fuel h capacity initial callback control budget cpu own p out =
     (let s = (\<lambda>out'. \<lparr>rs_cpu = cpu, rs_owner = own, rs_result = \<lparr>dy_out = out', dy_enabling = False, dy_enable_pc = 0\<rparr>,
                       rs_protect = p, rs_cache = cache_empty\<rparr>) in
      if \<not> dynamic_admitted initial budget cpu then
        (case dynamic_failure out VF_PROVIDER_INVALID_REQUEST False of (status, out1) \<Rightarrow> Some (status, s out1))
      else
        provider_loop fuel
          (provider_iteration False h capacity (fetch_dynamic callback) (dispatch_dynamic (h_fp h) callback control))
          (cpu_retired cpu) budget (s (out\<lparr>md_final_control := dynamic_start initial\<rparr>)))"

section \<open>The cache is transparent\<close>

text \<open>Every valid entry names a slot that still holds the code the translator emits for it.\<close>

definition cache_inv :: "bool \<Rightarrow> ('p, 'c) host \<Rightarrow> nat \<Rightarrow> 'c native_cache \<Rightarrow> bool" where
  "cache_inv cached h capacity c \<longleftrightarrow>
     length (nv_entries c) = 64 \<and> (native_slots capacity \<noteq> 0 \<longrightarrow> nv_victim c < native_slots capacity)
     \<and> (\<forall>i < native_slots capacity. pne_valid (nv_entries c ! i) \<longrightarrow> cached \<and>
          nv_buffer c i = Some (fst (h_emit h (pne_current_el (nv_entries c ! i)) (pne_instruction (nv_entries c ! i)) (pne_pc (nv_entries c ! i))))
          \<and> snd (h_emit h (pne_current_el (nv_entries c ! i)) (pne_instruction (nv_entries c ! i)) (pne_pc (nv_entries c ! i)))
              \<le> NEXTCORE_PROVIDER_CACHE_SLOT_BYTES)"

definition protect_works :: "('p, 'c) host \<Rightarrow> bool" where
  "protect_works h \<longleftrightarrow> (\<forall>p x. \<not> fst (h_protect h p x))"

lemma slots_le: "native_slots capacity \<le> 64" "i < native_slots capacity \<Longrightarrow> NEXTCORE_PROVIDER_CACHE_SLOT_BYTES \<le> capacity"
  by (auto simp: native_slots_def)

lemma cache_empty_inv: "cache_inv cached h capacity cache_empty"
  by (auto simp: cache_inv_def cache_empty_def native_slots_def)

text \<open>What a selection comes to, with or without the cache: the code of this instruction, or a full buffer.\<close>

definition selected :: "bool \<Rightarrow> ('p, 'c) host \<Rightarrow> nat \<Rightarrow> vf_cpu \<Rightarrow> u32 \<Rightarrow> (u32 + nat) \<Rightarrow> 'c native_cache \<Rightarrow> bool" where
  "selected cached h capacity cpu w out c \<longleftrightarrow>
     cache_inv cached h capacity c
     \<and> (case h_emit h (cpu_current_el cpu) w (cpu_pc cpu) of (code, used) \<Rightarrow>
          if used > capacity then out = Inl VF_CODE_FULL else (\<exists>i. out = Inr i \<and> nv_buffer c i = Some code))"

lemma hit_selected:
  assumes inv: "cache_inv cached h capacity c"
    and f: "find (\<lambda>i. native_match cpu w (nv_entries c ! i)) [0..<native_slots capacity] = Some i"
  shows "selected cached h capacity cpu w (Inr i) c"
proof -
  from f have i: "i < native_slots capacity" and m: "native_match cpu w (nv_entries c ! i)"
    by (auto simp: find_Some_iff)
  obtain code used where e: "h_emit h (cpu_current_el cpu) w (cpu_pc cpu) = (code, used)" by fastforce
  have "nv_buffer c i = Some code" "used \<le> NEXTCORE_PROVIDER_CACHE_SLOT_BYTES"
    using inv i m e by (auto simp: cache_inv_def native_match_def)
  moreover have "NEXTCORE_PROVIDER_CACHE_SLOT_BYTES \<le> capacity" using slots_le(2) [OF i] .
  ultimately show ?thesis using inv e by (simp add: selected_def)
qed

lemma miss_selected:
  assumes inv: "cache_inv cached h capacity c" and pub: "publish \<longleftrightarrow> cached \<and> native_slots capacity \<noteq> 0"
    and m: "native_miss publish h capacity cpu w p0 c = (out, p', c')"
  shows "selected cached h capacity cpu w out c' \<or> out = Inl VF_PROTECTION \<and> \<not> protect_works h"
proof -
  obtain code used where e: "h_emit h (cpu_current_el cpu) w (cpu_pc cpu) = (code, used)" by fastforce
  obtain f1 p1 where p1: "h_protect h p0 False = (f1, p1)" by fastforce
  obtain f2 p2 where p2: "h_protect h p1 True = (f2, p2)" by fastforce
  have pw: "f1 \<Longrightarrow> \<not> protect_works h" "f2 \<Longrightarrow> \<not> protect_works h" using p1 p2 unfolding protect_works_def by (metis fst_conv)+
  note defs = native_miss_def Let_def selected_def cache_inv_def translate_slot_def translate_whole_def p1 p2 e
  have v: "nv_victim c < 64" "nv_victim c < native_slots capacity" "NEXTCORE_PROVIDER_CACHE_SLOT_BYTES \<le> capacity" if publish
    using inv pub that slots_le [of capacity] slots_le(2) [of "nv_victim c" capacity] by (auto simp: cache_inv_def)
  have l: "length (nv_entries c) = 64" using inv by (simp add: cache_inv_def)
  show ?thesis
  proof (cases f1)
    case True
    then show ?thesis using pw(1) m by (auto simp: native_miss_def Let_def p1)
  next
    case ok: False
    show ?thesis
    proof (cases publish)
      case False
      then show ?thesis using m l pub inv ok pw(2) by (auto simp: defs split: if_splits)
    next
      case True
      note v = v [OF True]
      show ?thesis
      proof (cases "used > NEXTCORE_PROVIDER_CACHE_SLOT_BYTES")
        case big: True
        then show ?thesis using m True l v slots_le(1) [of capacity] ok pw(2) by (auto simp: defs split: if_splits)
      next
        case False
        then show ?thesis using m True l v inv pub ok pw(2) by (auto simp: defs nth_list_update split: if_splits)
      qed
    qed
  qed
qed

lemma select_cases:
  assumes "cache_inv cached h capacity c" "native_select cached h capacity cpu w p c = (out, p', c')"
  shows "selected cached h capacity cpu w out c' \<or> out = Inl VF_PROTECTION \<and> \<not> protect_works h"
proof (cases "if cached then find (\<lambda>i. native_match cpu w (nv_entries c ! i)) [0..<native_slots capacity] else None")
  case None
  then show ?thesis using assms miss_selected [OF assms(1) refl] by (auto simp: native_select_def)
next
  case (Some i)
  then show ?thesis using assms hit_selected [OF assms(1)] by (auto simp: native_select_def split: if_splits)
qed

lemma select_selected:
  assumes "cache_inv cached h capacity c" "protect_works h" "native_select cached h capacity cpu w p c = (out, p', c')"
  shows "selected cached h capacity cpu w out c'"
  using select_cases [OF assms(1,3)] assms(2) by simp

text \<open>The reference: every instruction is translated afresh, and nothing but the processor, the provider and the
  result is kept from one to the next.\<close>

definition direct_iteration ::
  "('p, 'c) host \<Rightarrow> nat \<Rightarrow> ('s, 'r) fetcher \<Rightarrow> ('s, 'r) dispatcher \<Rightarrow> vf_cpu \<times> 's \<times> 'r
   \<Rightarrow> (u32 option \<times> vf_cpu \<times> 's \<times> 'r) option" where
  "direct_iteration h capacity fetch dispatch v =
     (case fetch (fst v) (fst (snd v)) (snd (snd v)) of
        (Inl status, cpu, own, res) \<Rightarrow> Some (Some status, cpu, own, res)
      | (Inr w, cpu, own, res) \<Rightarrow>
          (case h_emit h (cpu_current_el cpu) w (cpu_pc cpu) of (code, used) \<Rightarrow>
             if used > capacity then Some (Some VF_CODE_FULL, cpu, own, res)
             else
               (case execute_native_block h cpu code of (status, cpu1) \<Rightarrow> dispatch w status cpu1 own res)))"

definition visible :: "('s, 'r, 'p, 'c) run_state \<Rightarrow> vf_cpu \<times> 's \<times> 'r" where
  "visible s = (rs_cpu s, rs_owner s, rs_result s)"

lemma iteration_direct:
  assumes inv: "cache_inv cached h capacity (rs_cache s)" and p: "protect_works h"
  shows "map_option (\<lambda>(out, s'). (out, visible s')) (provider_iteration cached h capacity fetch dispatch s)
         = direct_iteration h capacity fetch dispatch (visible s)"
    "provider_iteration cached h capacity fetch dispatch s = Some (out, s') \<Longrightarrow> cache_inv cached h capacity (rs_cache s')"
proof -
  obtain f cpu own res where f: "fetch (rs_cpu s) (rs_owner s) (rs_result s) = (f, cpu, own, res)" by (metis prod_cases4)
  note defs = provider_iteration_def direct_iteration_def visible_def f
  have "map_option (\<lambda>(out, s'). (out, visible s')) (provider_iteration cached h capacity fetch dispatch s)
         = direct_iteration h capacity fetch dispatch (visible s)
      \<and> (provider_iteration cached h capacity fetch dispatch s = Some (out, s') \<longrightarrow> cache_inv cached h capacity (rs_cache s'))"
  proof (cases f)
    case (Inl st)
    then show ?thesis using inv by (auto simp: defs)
  next
    case (Inr w)
    obtain o1 p1 c1 where n: "native_select cached h capacity cpu w (rs_protect s) (rs_cache s) = (o1, p1, c1)" by (metis prod_cases3)
    have sel: "selected cached h capacity cpu w o1 c1" by (rule select_selected [OF inv p n])
    obtain code used where e: "h_emit h (cpu_current_el cpu) w (cpu_pc cpu) = (code, used)" by fastforce
    obtain st cpu1 where x: "execute_native_block h cpu code = (st, cpu1)" by fastforce
    show ?thesis
    proof (cases "used > capacity")
      case True
      then show ?thesis using sel e n Inr by (auto simp: defs selected_def)
    next
      case False
      then obtain i where "o1 = Inr i" "nv_buffer c1 i = Some code" "cache_inv cached h capacity c1" using sel e by (auto simp: selected_def)
      then show ?thesis using e n Inr False x by (auto simp: defs split: option.splits)
    qed
  qed
  then show "map_option (\<lambda>(out, s'). (out, visible s')) (provider_iteration cached h capacity fetch dispatch s)
         = direct_iteration h capacity fetch dispatch (visible s)"
    "provider_iteration cached h capacity fetch dispatch s = Some (out, s') \<Longrightarrow> cache_inv cached h capacity (rs_cache s')"
    by blast+
qed

text \<open>Two runs whose visible states agree keep agreeing, each with its own invariant.\<close>

lemma loops_agree:
  assumes step: "\<And>s t. I s \<Longrightarrow> J t \<Longrightarrow> visible s = visible t
      \<Longrightarrow> map_option (\<lambda>(out, s'). (out, visible s')) (f s) = map_option (\<lambda>(out, s'). (out, visible s')) (g t)"
    and I: "\<And>s out s'. I s \<Longrightarrow> f s = Some (out, s') \<Longrightarrow> I s'" and J: "\<And>s out s'. J s \<Longrightarrow> g s = Some (out, s') \<Longrightarrow> J s'"
  shows "I s \<Longrightarrow> J t \<Longrightarrow> visible s = visible t
     \<Longrightarrow> map_option (\<lambda>(st, s'). (st, visible s')) (provider_loop fuel f start budget s)
         = map_option (\<lambda>(st, s'). (st, visible s')) (provider_loop fuel g start budget t)"
proof (induction fuel arbitrary: s t)
  case (Suc fuel)
  have c: "rs_cpu s = rs_cpu t" using Suc.prems(3) by (simp add: visible_def)
  have r: "visible (snd (rs_return st a)) = visible (snd (rs_return st b))" if "visible a = visible b" for st a b
    using that by (simp add: visible_def rs_return_def)
  note st = step [OF Suc.prems]
  show ?case
  proof (cases "f s")
    case None
    with st show ?thesis using c r [OF Suc.prems(3)] by (auto simp: rs_return_def)
  next
    case (Some a)
    then obtain out s1 where f: "f s = Some (out, s1)" by (cases a) auto
    with st obtain t1 where g: "g t = Some (out, t1)" and v: "visible s1 = visible t1" by (cases "g t") auto
    have "map_option (\<lambda>(st, s'). (st, visible s')) (provider_loop fuel f start budget s1)
         = map_option (\<lambda>(st, s'). (st, visible s')) (provider_loop fuel g start budget t1)"
      by (rule Suc.IH [OF I [OF Suc.prems(1) f] J [OF Suc.prems(2) g] v])
    then show ?thesis using f g c r [OF v] r [OF Suc.prems(3)] by (auto simp: rs_return_def split: option.split)
  qed
qed simp

lemma provider_loop_cached:
  assumes "protect_works h" "cache_inv True h capacity (rs_cache s)" "cache_inv False h capacity (rs_cache t)" "visible s = visible t"
  shows "map_option (\<lambda>(st, s'). (st, visible s')) (provider_loop fuel (provider_iteration True h capacity fetch dispatch) start budget s)
         = map_option (\<lambda>(st, s'). (st, visible s')) (provider_loop fuel (provider_iteration False h capacity fetch dispatch) start budget t)"
  by (rule loops_agree [where I = "\<lambda>s. cache_inv True h capacity (rs_cache s)" and J = "\<lambda>s. cache_inv False h capacity (rs_cache s)"])
    (simp_all add: assms iteration_direct(1) [OF _ assms(1)] iteration_direct(2) [OF _ assms(1)])

section \<open>Every step retires one instruction\<close>

definition step_ok :: "(vf_cpu \<Rightarrow> bool \<times> vf_cpu) \<Rightarrow> bool" where
  "step_ok f \<longleftrightarrow>
     (\<forall>c. cpu_retired (snd (f c)) = cpu_retired c + (if fst (f c) then 1 else 0) \<and> (cpu_wf c \<longrightarrow> cpu_wf (snd (f c))))"

lemma update_retired [simp]: "cpu_retired (update_timer_status c) = cpu_retired c"
  by (simp add: update_timer_status_def)

lemma advance_retired [simp]: "cpu_retired (vf_cpu_advance_counter c n) = cpu_retired c"
  by (simp add: vf_cpu_advance_counter_def)

lemma retire_retired [simp]: "cpu_retired (retire c) = cpu_retired c + 1"
  by (simp add: retire_def)

lemma store_retired: "cpu_retired (snd (sysreg_store c key v)) = cpu_retired c"
  unfolding sysreg_store_def
  by (intro if_branch [where P = "\<lambda>r. cpu_retired (snd r) = cpu_retired c"]; simp add: vf_cpu_invalidate_tlb_def)

lemma write_retired: "cpu_retired (snd (vf_cpu_write_sysreg c key v)) = cpu_retired c"
  using write_sysreg_effect [of c key v] store_retired [of c key v] unfolding write_effect_def
  by (elim disjE exE conjE) simp_all

lemma commit_retired [simp]: "cpu_retired (snd (vf_cpu_commit_status c st)) = cpu_retired c"
  using commit_same [of c st] by (simp add: same_registers_def)

lemma sysreg_step_ok: "step_ok system_register_slow_step"
  unfolding step_ok_def using sysreg_step_wf write_retired
  by (auto simp: system_register_slow_step_def Let_def case_prod_beta split: sum.split)

lemma pstate_step_ok: "step_ok pstate_slow_step"
  unfolding step_ok_def using pstate_step_wf
  by (auto simp: pstate_slow_step_def Let_def)

lemma pauth_step_ok: "step_ok pauth_slow_step"
  unfolding step_ok_def using pauth_step_wf
  by (auto simp: pauth_slow_step_def Let_def case_prod_beta split: option.split)

lemma step_ok_guard: "step_ok f \<Longrightarrow> step_ok (\<lambda>c. if P c then (False, c) else f c)"
  by (simp add: step_ok_def)

lemma guarded_steps_ok: "step_ok system_register_read_slow_step" "step_ok platform_override_write_slow_step"
    "step_ok fp_access_control_write_slow_step"
  unfolding system_register_read_slow_step_def [abs_def] platform_override_write_slow_step_def [abs_def]
    fp_access_control_write_slow_step_def [abs_def]
  by (intro step_ok_guard sysreg_step_ok)+

lemma control_read_ok: "step_ok memory_control_read_v2"
  unfolding step_ok_def
  by (auto simp: memory_control_read_v2_def Let_def retire_base_wf register_base base_x wf_base split: sum.split simp del: retire_wf)

lemma stack_select_ok: "step_ok stack_select_immutable_step"
proof -
  have "cpu_wf (snd (stack_select_immutable_step c))" if wf: "cpu_wf c" for c
  proof -
    let ?b = "ucast (drop_bit 8 (cpu_instruction c) AND 1) :: u64"
    have b: "?b = 0 \<or> ?b = 1" using bool_word [of "drop_bit 8 (cpu_instruction c)"] by auto
    have "mode_ok (cpu_current_el c) ((cpu_pstate c AND NOT 1 OR ?b) AND 15)" if "cpu_current_el c = VF_EL1"
      using wf b that by (intro spsel_mode) (simp_all add: cpu_wf_def valid_iff)
    then have base: "cpu_current_el c = VF_EL1 \<Longrightarrow> cpu_base (c\<lparr>cpu_sp_el := (cpu_sp_el c)[i := x],
        cpu_pstate := cpu_pstate c AND NOT 1 OR ?b, cpu_sp := y\<rparr>)" for i x y
      using wf by (simp add: cpu_wf_def cpu_base_def valid_iff fp_profile_ok_def cpu_shape_def)
    show ?thesis unfolding stack_select_immutable_step_def Let_def
      by (intro if_arm [where P = "\<lambda>r. cpu_wf (snd r)"]) (auto simp only: snd_conv wf intro!: retire_base_wf base)
  qed
  then show ?thesis by (auto simp: step_ok_def stack_select_immutable_step_def Let_def)
qed

lemma pauth_immutable_ok: "step_ok pauth_immutable_step"
  unfolding step_ok_def
  by (auto simp: pauth_immutable_step_def Let_def case_prod_beta split: option.split) (simp_all add: cpu_wf_def cpu_fields)

lemma first_step_ok: "\<forall>f \<in> set fs. step_ok f \<Longrightarrow> step_ok (first_step fs)"
proof (induction fs)
  case (Cons f fs)
  then have f: "step_ok f" and fs: "step_ok (first_step fs)" by simp_all
  show ?case unfolding step_ok_def
  proof
    fix c
    obtain taken c1 where r: "f c = (taken, c1)" by fastforce
    show "cpu_retired (snd (first_step (f # fs) c)) = cpu_retired c + (if fst (first_step (f # fs) c) then 1 else 0)
        \<and> (cpu_wf c \<longrightarrow> cpu_wf (snd (first_step (f # fs) c)))"
      using f [unfolded step_ok_def, THEN spec, of c] fs [unfolded step_ok_def, THEN spec, of c1] r by simp
  qed
qed (simp add: step_ok_def)

lemmas steps_ok = sysreg_step_ok pstate_step_ok pauth_step_ok guarded_steps_ok control_read_ok stack_select_ok pauth_immutable_ok

section \<open>Every run returns\<close>

text \<open>What the loop relies on in the host: a piece of native code keeps the processor well formed and counts an
  instruction exactly if it completed one, as the translator's epilogue writes it.\<close>

definition host_counts :: "('p, 'c) host \<Rightarrow> bool" where
  "host_counts h \<longleftrightarrow>
     (\<forall>cpu code. cpu_retired (snd (h_entry h cpu code))
          = cpu_retired cpu + (if fst (h_entry h cpu code) = VF_NEXT \<or> fst (h_entry h cpu code) = VF_HALT then 1 else 0)
        \<and> (cpu_wf cpu \<longrightarrow> cpu_wf (snd (h_entry h cpu code))))"

lemma native_block_ok:
  assumes "host_counts h" "execute_native_block h cpu code = (st, cpu')"
  shows "cpu_retired cpu' = cpu_retired cpu + (if st = VF_NEXT \<or> st = VF_HALT then 1 else 0)" "cpu_wf cpu \<Longrightarrow> cpu_wf cpu'"
proof -
  obtain st1 cpu1 where e: "h_entry h cpu code = (st1, cpu1)" by fastforce
  have c: "cpu_retired cpu1 = cpu_retired cpu + (if st1 = VF_NEXT \<or> st1 = VF_HALT then 1 else 0)" "cpu_wf cpu \<longrightarrow> cpu_wf cpu1"
    using assms(1) [unfolded host_counts_def, rule_format, of cpu code] e by simp_all
  show "cpu_retired cpu' = cpu_retired cpu + (if st = VF_NEXT \<or> st = VF_HALT then 1 else 0)"
    using assms(2) e c(1) by (auto simp: execute_native_block_def Let_def)
  have blocks: "cpu_wf (x\<lparr>cpu_compiled_blocks := n\<rparr>) \<longleftrightarrow> cpu_wf x" for x n by (simp add: cpu_wf_def cpu_fields)
  show "cpu_wf cpu'" if "cpu_wf cpu"
    using assms(2) e c(2) that by (auto simp: execute_native_block_def Let_def blocks advance_keeps_wf simp del: advance_wf)
qed

text \<open>The contract between the loop and what differs from one loop to another: a fetch retires nothing, and a dispatch
  always ends, having retired the instruction that the native code did not, if the loop is to go on.\<close>

locale guest_loop =
  fixes fetch :: "('s, 'r) fetcher" and dispatch :: "('s, 'r) dispatcher"
  assumes fetch_ok: "fetch cpu own res = (out, cpu', own', res')
      \<Longrightarrow> cpu_retired cpu' = cpu_retired cpu \<and> (cpu_wf cpu \<longrightarrow> cpu_wf cpu')"
    and dispatch_ok: "cpu_wf cpu \<Longrightarrow> \<exists>out cpu' own' res'. dispatch w st cpu own res = Some (out, cpu', own', res') \<and> cpu_wf cpu'
      \<and> cpu_retired cpu' = cpu_retired cpu + (if out = None \<and> st \<noteq> VF_NEXT then 1 else 0) \<and> (st = VF_HALT \<longrightarrow> out \<noteq> None)"
begin

lemma iteration_returns:
  assumes "host_counts h" "cpu_wf (rs_cpu s)" "cache_inv cached h capacity (rs_cache s)"
  shows "\<exists>out s'. provider_iteration cached h capacity fetch dispatch s = Some (out, s') \<and> cpu_wf (rs_cpu s')
     \<and> (out = None \<longrightarrow> cache_inv cached h capacity (rs_cache s') \<and> cpu_retired (rs_cpu s') = cpu_retired (rs_cpu s) + 1)
     \<and> (out \<noteq> None \<longrightarrow> cpu_retired (rs_cpu s') = cpu_retired (rs_cpu s) \<or> cpu_retired (rs_cpu s') = cpu_retired (rs_cpu s) + 1)"
proof -
  obtain f cpu own res where f: "fetch (rs_cpu s) (rs_owner s) (rs_result s) = (f, cpu, own, res)" by (metis prod_cases4)
  have cpu: "cpu_retired cpu = cpu_retired (rs_cpu s)" "cpu_wf cpu" using fetch_ok [OF f] assms(2) by simp_all
  show ?thesis
  proof (cases f)
    case (Inl st)
    then show ?thesis using f cpu by (simp add: provider_iteration_def)
  next
    case (Inr w)
    obtain o1 p1 c1 where n: "native_select cached h capacity cpu w (rs_protect s) (rs_cache s) = (o1, p1, c1)" by (metis prod_cases3)
    show ?thesis
    proof (cases o1)
      case (Inl st)
      then show ?thesis using f n cpu Inr by (simp add: provider_iteration_def)
    next
      case i: (Inr i)
      with select_cases [OF assms(3) n] obtain code where sel: "nv_buffer c1 i = Some code" "cache_inv cached h capacity c1"
        by (auto simp: selected_def split: prod.splits if_splits)
      obtain st cpu1 where x: "execute_native_block h cpu code = (st, cpu1)" by fastforce
      note nb = native_block_ok [OF assms(1) x]
      from dispatch_ok [OF nb(2) [OF cpu(2)], of w st own res] obtain out cpu2 own2 res2 where
        d: "dispatch w st cpu1 own res = Some (out, cpu2, own2, res2)" "cpu_wf cpu2"
          "cpu_retired cpu2 = cpu_retired cpu1 + (if out = None \<and> st \<noteq> VF_NEXT then 1 else 0)" "st = VF_HALT \<longrightarrow> out \<noteq> None"
        by blast
      have "provider_iteration cached h capacity fetch dispatch s
          = Some (out, \<lparr>rs_cpu = cpu2, rs_owner = own2, rs_result = res2, rs_protect = p1, rs_cache = c1\<rparr>)"
        using f n Inr i sel x d(1) by (simp add: provider_iteration_def)
      then show ?thesis using d nb(1) cpu(1) sel by (cases out) auto
    qed
  qed
qed

lemma loop_returns:
  assumes h: "host_counts h"
  shows "cpu_wf (rs_cpu s) \<Longrightarrow> cache_inv cached h capacity (rs_cache s) \<Longrightarrow> unat (cpu_retired (rs_cpu s) - start) \<le> unat budget
     \<Longrightarrow> unat budget - unat (cpu_retired (rs_cpu s) - start) < fuel
     \<Longrightarrow> \<exists>st s'. provider_loop fuel (provider_iteration cached h capacity fetch dispatch) start budget s = Some (st, s')
           \<and> cpu_wf (rs_cpu s') \<and> unat (cpu_retired (rs_cpu s') - start) \<le> unat budget"
proof (induction fuel arbitrary: s)
  case (Suc fuel)
  have ret: "cpu_wf (rs_cpu (snd (rs_return st t))) \<longleftrightarrow> cpu_wf (rs_cpu t)"
      "cpu_retired (rs_cpu (snd (rs_return st t))) = cpu_retired (rs_cpu t)" for st t
    by (simp_all add: rs_return_def cpu_wf_def cpu_fields)
  show ?case
  proof (cases "cpu_retired (rs_cpu s) - start < budget")
    case False
    then show ?thesis using Suc.prems ret [of VF_BUDGET s] by (cases "rs_return VF_BUDGET s") auto
  next
    case True
    then have lt: "unat (cpu_retired (rs_cpu s) - start) < unat budget" by (simp add: word_less_nat_alt)
    have "cpu_retired (rs_cpu s) - start \<noteq> - 1" using True by (metis word_order.extremum_strict)
    then have next1: "unat (cpu_retired (rs_cpu s) + 1 - start) = unat (cpu_retired (rs_cpu s) - start) + 1"
      using unat_next [of "cpu_retired (rs_cpu s) - start"] by (simp add: algebra_simps)
    obtain out s1 where it: "provider_iteration cached h capacity fetch dispatch s = Some (out, s1)" "cpu_wf (rs_cpu s1)"
      and go: "out = None \<Longrightarrow> cache_inv cached h capacity (rs_cache s1) \<and> cpu_retired (rs_cpu s1) = cpu_retired (rs_cpu s) + 1"
      and stop: "out \<noteq> None \<Longrightarrow> cpu_retired (rs_cpu s1) = cpu_retired (rs_cpu s) \<or> cpu_retired (rs_cpu s1) = cpu_retired (rs_cpu s) + 1"
      using iteration_returns [OF h Suc.prems(1,2)] by blast
    show ?thesis
    proof (cases out)
      case (Some st)
      have "unat (cpu_retired (rs_cpu s1) - start) \<le> unat budget" using stop Some lt next1 by auto
      then show ?thesis using True it Some ret [of st s1] by (cases "rs_return st s1") auto
    next
      case None
      have "\<exists>st s'. provider_loop fuel (provider_iteration cached h capacity fetch dispatch) start budget s1 = Some (st, s')
          \<and> cpu_wf (rs_cpu s') \<and> unat (cpu_retired (rs_cpu s') - start) \<le> unat budget"
        using go [OF None] it(2) lt next1 Suc.prems(4) by (intro Suc.IH) simp_all
      then show ?thesis using True it None by simp
    qed
  qed
qed simp

end

text \<open>The parts the three loops share keep the contract.\<close>

definition dispatched :: "vf_cpu \<Rightarrow> u32 \<Rightarrow> u32 option \<Rightarrow> vf_cpu \<Rightarrow> bool" where
  "dispatched cpu st out cpu' \<longleftrightarrow>
     cpu_wf cpu' \<and> cpu_retired cpu' = cpu_retired cpu + (if out = None \<and> st \<noteq> VF_NEXT then 1 else 0) \<and> (st = VF_HALT \<longrightarrow> out \<noteq> None)"

lemma dispatch_fp_ok:
  assumes "cpu_wf cpu" shows "\<exists>out cpu'. dispatch_fp cpu = Some (out, cpu') \<and> dispatched cpu VF_FP_DISPATCH out cpu'"
  using fp_step_returns [of cpu] fp_step_wf [OF assms] unfolding fp_step_effect_def
  by (elim disjE exE conjE) (auto simp: dispatch_fp_def dispatched_def commit_wf)

lemma dispatch_status_ok:
  assumes "cpu_wf cpu" "\<forall>f \<in> set steps. step_ok f" "dispatch_status steps st cpu = (out, cpu')"
  shows "dispatched cpu st out cpu'"
proof (cases "st = VF_UNDEFINED_INSTRUCTION \<or> st = VF_SYSTEM_REGISTER_TRAP")
  case True
  obtain taken cpu1 where f: "first_step steps cpu = (taken, cpu1)" by fastforce
  with first_step_ok [OF assms(2)] assms(1)
  have "cpu_retired cpu1 = cpu_retired cpu + (if taken then 1 else 0)" "cpu_wf cpu1"
    unfolding step_ok_def by (metis fst_conv snd_conv)+
  then show ?thesis using True f assms(3)
    by (auto simp: dispatch_status_def dispatched_def commit_wf research_system_register_failure_def Let_def split: if_splits)
next
  case False
  then show ?thesis using assms(1,3)
    by (auto simp: dispatch_status_def dispatched_def commit_wf research_system_register_failure_def Let_def split: if_splits)
qed

lemma data_step_dispatched:
  "data_step_effect cpu st1 cpu' why \<Longrightarrow> dispatched cpu VF_MEMORY_DISPATCH (if st1 \<noteq> VF_NEXT then Some st1 else None) cpu'"
  by (auto simp: data_step_effect_def dispatched_def same_registers_def access_completed_def split: if_splits)

lemma poll_retired: "cpu_retired (snd (vf_cpu_poll_interrupt c)) = cpu_retired c"
proof -
  have take_retired: "cpu_retired c'' = cpu_retired c'" if "vf_cpu_take_exception c' = (r, c'')" for c' c'' r
    using that by (auto simp: vf_cpu_take_exception_def vf_cpu_clear_exception_def Let_def split: if_splits)
  show ?thesis unfolding vf_cpu_poll_interrupt_def Let_def
    by (intro if_arm [where P = "\<lambda>r. cpu_retired (snd r) = cpu_retired c"])
      (auto split: option.split prod.split rc.split dest!: take_retired raised_same simp: same_registers_def)
qed

interpretation run1: guest_loop "fetch_v1 callback" "dispatch_v1 fp callback" for callback :: "'s memory_callback_v1" and fp
proof
  fix cpu own res out cpu' own' res'
  assume f: "fetch_v1 callback cpu own res = (out, cpu', own', res')"
  obtain st c1 where p: "vf_cpu_poll_interrupt cpu = (st, c1)" by fastforce
  obtain st1 r c2 own1 res1 where x: "memory_exchange callback c1 own (fetch_request c1) res = (st1, r, c2, own1, res1)" by (metis prod_cases5)
  have c1: "cpu_retired c1 = cpu_retired cpu" "cpu_wf cpu \<longrightarrow> cpu_wf c1" using p poll_retired [of cpu] poll_wf [of cpu] by simp_all
  have c2: "cpu_retired c2 = cpu_retired c1" "cpu_wf c1 \<longrightarrow> cpu_wf c2"
    using exchange1.exchange_wf [OF _ x] exchange1.exchange_same [OF x] by (simp_all add: same_registers_def)
  have "cpu_wf (cpu\<lparr>cpu_instruction := 0\<rparr>) \<longleftrightarrow> cpu_wf cpu" by (simp add: cpu_wf_def cpu_fields)
  then show "cpu_retired cpu' = cpu_retired cpu \<and> (cpu_wf cpu \<longrightarrow> cpu_wf cpu')"
    using f c1 c2 by (auto simp: fetch_v1_def p x split: if_splits)
next
  fix cpu w st own res
  assume wf: "cpu_wf cpu"
  obtain st1 c1 own1 res1 where m: "memory_data_step callback cpu own res = (st1, c1, own1, res1)" by (metis prod_cases4)
  obtain out c2 where d: "dispatch_status [system_register_slow_step, pstate_slow_step, pauth_slow_step] st cpu = (out, c2)" by fastforce
  show "\<exists>out cpu' own' res'. dispatch_v1 fp callback w st cpu own res = Some (out, cpu', own', res') \<and> cpu_wf cpu'
      \<and> cpu_retired cpu' = cpu_retired cpu + (if out = None \<and> st \<noteq> VF_NEXT then 1 else 0) \<and> (st = VF_HALT \<longrightarrow> out \<noteq> None)"
    using dispatch_fp_ok [OF wf] data_step_dispatched [OF memory_step_v1_exact [OF wf m]] m d dispatch_status_ok [OF wf _ d] steps_ok
    by (auto simp: dispatch_v1_def dispatched_def)
qed

interpretation run2: guest_loop "fetch_v2 callback controls" "dispatch_v2 fp allow_pauth callback controls"
  for callback :: "'s memory_callback_v2" and controls fp allow_pauth
proof
  fix cpu own res out cpu' own' res'
  assume f: "fetch_v2 callback controls cpu own res = (out, cpu', own', res')"
  obtain st c1 where p: "vf_cpu_poll_interrupt cpu = (st, c1)" by fastforce
  obtain st1 r c2 own1 res1 where x: "memory_exchange_version callback c1 own
      (memory_request_v2 c1 controls VF_MEMORY_FETCH 4 1 (cpu_pc c1)) res 2 = (st1, r, c2, own1, res1)" by (metis prod_cases5)
  have c1: "cpu_retired c1 = cpu_retired cpu" "cpu_wf cpu \<longrightarrow> cpu_wf c1" using p poll_retired [of cpu] poll_wf [of cpu] by simp_all
  have c2: "cpu_retired c2 = cpu_retired c1" "cpu_wf c1 \<longrightarrow> cpu_wf c2"
    using exchange2.exchange_wf [OF _ x] exchange2.exchange_same [OF x] by (simp_all add: same_registers_def)
  show "cpu_retired cpu' = cpu_retired cpu \<and> (cpu_wf cpu \<longrightarrow> cpu_wf cpu')"
    using f c1 c2 by (auto simp: fetch_v2_def p x memory_exchange_v2_def v2_error_def provider_error_def simp del: One_nat_def split: if_splits)
next
  fix cpu w st own res
  assume wf: "cpu_wf cpu"
  let ?steps = "[system_register_read_slow_step, platform_override_write_slow_step, fp_access_control_write_slow_step,
                  memory_control_read_v2, stack_select_immutable_step] @ (if allow_pauth then [pauth_immutable_step] else [])"
  obtain st1 c1 own1 res1 where m: "memory_data_step_version callback cpu controls own res 2 = (st1, c1, own1, res1)" by (metis prod_cases4)
  obtain out c2 where d: "dispatch_status ?steps st cpu = (out, c2)" by fastforce
  have "\<forall>f \<in> set ?steps. step_ok f" using steps_ok by simp
  note ds = dispatch_status_ok [OF wf this d]
  show "\<exists>out cpu' own' res'. dispatch_v2 fp allow_pauth callback controls w st cpu own res = Some (out, cpu', own', res') \<and> cpu_wf cpu'
      \<and> cpu_retired cpu' = cpu_retired cpu + (if out = None \<and> st \<noteq> VF_NEXT then 1 else 0) \<and> (st = VF_HALT \<longrightarrow> out \<noteq> None)"
    using dispatch_fp_ok [OF wf] data_step_dispatched [OF memory_step_v2_exact [OF wf m]] m d ds
    unfolding dispatch_v2_def memory_data_step_v2_def d dispatched_def by auto
qed

lemma recorded_step:
  assumes "dynamic_control_step callback cpu op selector own out = (st, cpu', own', out')"
  shows "\<exists>sent. dynamic_control_step (recorded callback) cpu op selector (own, []) out = (st, cpu', (own', sent), out')"
proof -
  let ?known = "md_final_control out"
  let ?q = "dynamic_request cpu ?known op selector"
  obtain f1 r1 own1 where c1: "callback own ?q = (f1, r1, own1)" by (metis prod_cases3)
  obtain f2 r2 own2 where c2: "callback own1 (?q\<lparr>dq_phase := VF_DYNAMIC_COMMIT, dq_operand := dr_token r1\<rparr>) = (f2, r2, own2)"
    by (metis prod_cases3)
  show ?thesis using assms c1 c2
    by (auto simp: dynamic_control_step_def Let_def recorded_def failure_eq split: option.splits if_splits)
qed

lemma control_step_cases:
  assumes "dynamic_control_step callback cpu op selector own out = (st, cpu', own', out')"
  shows "\<exists>sent. control_step_effect cpu op selector out sent st cpu' out'"
  using recorded_step [OF assms] control_step_effects by fastforce

lemma install_wf: "cpu_wf c \<Longrightarrow> cpu_wf (dynamic_install c a)"
  unfolding dynamic_install_def
  by (intro retire_base_wf) (simp add: cpu_wf_def cpu_base_def valid_iff fp_profile_ok_def cpu_shape_def)

lemma control_step_dispatched:
  assumes "cpu_wf cpu" "dynamic_control_step callback cpu op selector own out = (st, cpu', own', out')" "st0 \<noteq> VF_NEXT" "st0 \<noteq> VF_HALT"
  shows "dispatched cpu st0 (if st \<noteq> VF_NEXT then Some st else None) cpu'"
  using control_step_cases [OF assms(2)] assms(1,3,4) install_wf [OF assms(1)]
  by (auto simp: control_step_effect_def Let_def dispatched_def)

interpretation run3: guest_loop "fetch_dynamic callback" "dispatch_dynamic fp callback control"
  for callback :: "'s memory_callback_v2" and fp and control :: "'s dynamic_callback"
proof
  fix cpu :: vf_cpu and own :: 's and d out cpu' own' d'
  assume f: "fetch_dynamic callback cpu own d = (out, cpu', own', d')"
  obtain st c1 where p: "vf_cpu_poll_interrupt cpu = (st, c1)" by fastforce
  let ?q = "(memory_request_v2 c1 (dynamic_effective d) VF_MEMORY_FETCH 4 1 (cpu_pc c1))\<lparr>q_abi_version := 3, q_controls := dynamic_effective d\<rparr>"
  obtain st1 r c2 own1 res1 where x: "memory_exchange_version callback c1 own ?q (md_memory (dy_out d)) 3 = (st1, r, c2, own1, res1)"
    by (metis prod_cases5)
  have c1: "cpu_retired c1 = cpu_retired cpu" "cpu_wf cpu \<longrightarrow> cpu_wf c1" using p poll_retired [of cpu] poll_wf [of cpu] by simp_all
  have c2: "cpu_retired c2 = cpu_retired c1" "cpu_wf c1 \<longrightarrow> cpu_wf c2"
    using exchange2.exchange_wf [OF _ x] exchange2.exchange_same [OF x] by (simp_all add: same_registers_def)
  show "cpu_retired cpu' = cpu_retired cpu \<and> (cpu_wf cpu \<longrightarrow> cpu_wf cpu')"
    using f c1 c2 by (auto simp: fetch_dynamic_def Let_def p x dynamic_fail_def failure_eq simp del: One_nat_def split: if_splits)
next
  fix cpu :: vf_cpu and w st and own :: 's and d
  assume wf: "cpu_wf cpu"
  let ?steps = "[system_register_slow_step, memory_control_read_v2, pauth_immutable_step]"
  obtain st1 c1 own1 res1 where m: "memory_data_step_version callback cpu (dynamic_effective d) own (md_memory (dy_out d)) 3 = (st1, c1, own1, res1)"
    by (metis prod_cases4)
  obtain out c2 where s: "dispatch_status ?steps st cpu = (out, c2)" by fastforce
  have "\<forall>f \<in> set ?steps. step_ok f" using steps_ok by simp
  note ds = dispatch_status_ok [OF wf this s]
  have "\<exists>out cpu' own' d'. dispatch_dynamic fp callback control w st cpu own d = Some (out, cpu', own', d') \<and> dispatched cpu st out cpu'"
  proof (cases "\<not> (fp \<and> st = VF_FP_DISPATCH) \<and> st \<noteq> VF_MEMORY_DISPATCH
      \<and> (st = VF_UNDEFINED_INSTRUCTION \<or> st = VF_SYSTEM_REGISTER_TRAP) \<and> dynamic_operation w \<noteq> None")
    case True
    then obtain op selector where o: "dynamic_operation w = Some (op, selector)" by auto
    obtain st2 c3 own3 out3 where k: "dynamic_control_step control cpu op selector own (dy_out d) = (st2, c3, own3, out3)" by (metis prod_cases4)
    have "dispatched cpu st (if st2 \<noteq> VF_NEXT then Some st2 else None) c3" using True by (intro control_step_dispatched [OF wf k]) auto
    then show ?thesis using True o k by (auto simp: dispatch_dynamic_def)
  next
    case False
    then show ?thesis using dispatch_fp_ok [OF wf] data_step_dispatched [OF memory_step_v2_exact [OF wf m]] ds
      unfolding dispatch_dynamic_def m s by (cases "dynamic_operation w") (auto split: if_splits)
  qed
  then show "\<exists>out cpu' own' d'. dispatch_dynamic fp callback control w st cpu own d = Some (out, cpu', own', d') \<and> cpu_wf cpu'
      \<and> cpu_retired cpu' = cpu_retired cpu + (if out = None \<and> st \<noteq> VF_NEXT then 1 else 0) \<and> (st = VF_HALT \<longrightarrow> out \<noteq> None)"
    by (simp only: dispatched_def)
qed

section \<open>The controls of a dynamic run\<close>

text \<open>
  The written and the effective registers are always admissible, with the granules and the physical address size of the
  initial ones; translation that is on, or about to be, has registers that differ in the enable bit only.
\<close>

definition tcr_fixed :: u64 where
  "tcr_fixed = push_bit 14 3 OR push_bit 30 3 OR push_bit 32 7"

definition dynamic_inv :: "vf_memory_controls_v2 \<Rightarrow> vf_dynamic_reply \<Rightarrow> bool" where
  "dynamic_inv initial r \<longleftrightarrow>
     vf_dynamic_controls_valid (dynamic_controls (dr_architectural r) (dr_epoch r))
     \<and> vf_dynamic_controls_valid (dynamic_controls (dr_effective r) (dr_epoch r))
     \<and> (ds_tcr (dr_architectural r) XOR mc_tcr initial) AND tcr_fixed = 0 \<and> (ds_tcr (dr_effective r) XOR mc_tcr initial) AND tcr_fixed = 0
     \<and> (ds_sctlr (dr_architectural r) AND 1 \<noteq> 0 \<longrightarrow>
          dr_architectural r = (dr_effective r)\<lparr>ds_sctlr := ds_sctlr (dr_effective r) OR 1\<rparr>)
     \<and> (ds_sctlr (dr_effective r) AND 1 \<noteq> 0 \<longrightarrow> dr_architectural r = dr_effective r)"

text \<open>Time goes one way: no counter decreases, and once translation is on nothing but the invalidations changes.\<close>

definition control_grows :: "control \<Rightarrow> control \<Rightarrow> bool" where
  "control_grows k k' \<longleftrightarrow>
     k_revision k \<le> k_revision k' \<and> k_epoch k \<le> k_epoch k' \<and> k_invalidations k \<le> k_invalidations k'
     \<and> (ds_sctlr (k_eff k) AND 1 \<noteq> 0 \<longrightarrow>
          k_arch k' = k_arch k \<and> k_eff k' = k_eff k \<and> k_revision k' = k_revision k \<and> k_epoch k' = k_epoch k)"

lemma grows_refl: "control_grows k k"
  by (simp add: control_grows_def)

lemma grows_trans: "control_grows k k1 \<Longrightarrow> control_grows k1 k2 \<Longrightarrow> control_grows k k2"
  by (auto simp: control_grows_def)

lemma valid_any_epoch: "e' \<noteq> 0 \<Longrightarrow> vf_dynamic_controls_valid (dynamic_controls s e) \<Longrightarrow> vf_dynamic_controls_valid (dynamic_controls s e')"
  by (simp add: vf_dynamic_controls_valid_def dynamic_controls_def split: if_splits)

lemma fixed_trans: "(a XOR b) AND m = 0 \<Longrightarrow> (a XOR c) AND m = 0 \<Longrightarrow> (c XOR b) AND m = (0 :: u64)"
proof -
  assume "(a XOR b) AND m = 0" "(a XOR c) AND m = 0"
  then have "(bit a n \<longleftrightarrow> bit b n) \<or> \<not> bit m n" "(bit a n \<longleftrightarrow> bit c n) \<or> \<not> bit m n" if "n < 64" for n
    using that by (metis bit_and_iff bit_xor_iff bit_0_eq bot_apply bot_bool_def)+
  then show ?thesis by (intro bit_word_eqI) (auto simp: bit_and_iff bit_xor_iff)
qed

lemma write_inv:
  assumes inv: "dynamic_inv initial known" and e: "dynamic_expected known (dynamic_request cpu known VF_DYNAMIC_WRITE selector) = Some e"
  shows "dynamic_inv initial (acknowledged e)" "ds_sctlr (dr_effective known) AND 1 = 0"
    "ds_sctlr (dr_architectural e) AND 1 \<noteq> 0 \<Longrightarrow> selector = VF_DYNAMIC_SCTLR"
proof -
  let ?q = "dynamic_request cpu known VF_DYNAMIC_WRITE selector"
  note w = expected_write [OF e request_fields(1)]
  have off: "ds_sctlr (dr_architectural known) AND 1 = 0" and valid: "vf_dynamic_controls_valid (dynamic_controls (dq_candidate ?q) (dr_epoch known))"
    and fixed: "(ds_tcr (dr_effective known) XOR ds_tcr (dq_candidate ?q)) AND tcr_fixed = 0"
    and on: "selector = VF_DYNAMIC_SCTLR \<Longrightarrow> dq_operand ?q = ds_sctlr (dr_architectural known) OR 1 \<and> dr_architectural known = dr_effective known"
    using w(1) by (simp_all add: dynamic_write_refused_def tcr_fixed_def dynamic_equal_iff)
  show eff: "ds_sctlr (dr_effective known) AND 1 = 0" using inv off by (auto simp: dynamic_inv_def)
  have cand: "dq_candidate ?q = snapshot_write selector (dq_operand ?q) (dr_architectural known)" by (simp add: dynamic_request_def Let_def)
  have sctlr: "ds_sctlr (dq_candidate ?q) = (if selector = VF_DYNAMIC_SCTLR then dq_operand ?q else ds_sctlr (dr_architectural known))"
    by (simp add: cand snapshot_write_def)
  show "ds_sctlr (dr_architectural e) AND 1 \<noteq> 0 \<Longrightarrow> selector = VF_DYNAMIC_SCTLR" using sctlr off w(3) by (auto split: if_splits)
  have t: "(ds_tcr (dq_candidate ?q) XOR mc_tcr initial) AND tcr_fixed = 0"
    using fixed_trans [of "ds_tcr (dr_effective known)" "mc_tcr initial" tcr_fixed "ds_tcr (dq_candidate ?q)"] fixed inv
    by (simp add: dynamic_inv_def)
  have "ds_sctlr (dq_candidate ?q) AND 1 \<noteq> 0 \<Longrightarrow>
      dq_candidate ?q = (dr_effective known)\<lparr>ds_sctlr := ds_sctlr (dr_effective known) OR 1\<rparr>"
    using sctlr off on by (auto simp: cand snapshot_write_def split: if_splits)
  then show "dynamic_inv initial (acknowledged e)"
    using inv valid t eff w by (simp add: dynamic_inv_def)
qed

lemma other_inv:
  assumes inv: "dynamic_inv initial known" and e: "dynamic_expected known (dynamic_request cpu known op selector) = Some e" "op \<noteq> VF_DYNAMIC_WRITE"
  shows "dynamic_inv initial (acknowledged e)"
proof -
  note o = expected_other [OF e(1), unfolded request_fields, OF e(2)]
  have "dr_epoch known \<noteq> 0" using inv by (auto simp: dynamic_inv_def vf_dynamic_controls_valid_def dynamic_controls_def)
  then have ep: "dr_epoch e \<noteq> 0" using o(5) by (auto simp: unat_eq_0 [symmetric] simp del: unat_eq_0 split: if_splits)
  note valid = valid_any_epoch [OF ep, of _ "dr_epoch known"]
  have snap: "x OR 1 = x" if "x AND 1 \<noteq> 0" for x :: u64
    using that by (auto intro!: bit_word_eqI simp: bit_or_iff bit_1_iff and_one_eq bit_0 mod_2_eq_odd)
  show ?thesis
  proof (cases "op = VF_DYNAMIC_ISB")
    case True
    then have "dr_effective e = dr_architectural known" by (rule o(3))
    then show ?thesis using inv o(1) valid snap [of "ds_sctlr (dr_architectural known)"] unfolding dynamic_inv_def by simp
  next
    case False
    then have "dr_effective e = dr_effective known" using o(4) by blast
    then show ?thesis using inv o(1) valid unfolding dynamic_inv_def by simp
  qed
qed

lemma apply_grows:
  assumes "ds_sctlr (k_eff k) AND 1 \<noteq> 0 \<longrightarrow> k_eff k = k_arch k \<and> \<not> (\<exists>selector v. ev = Write selector v)"
  shows "control_grows k (control_apply ev k)"
  using assms by (cases ev) (auto simp: control_grows_def)

lemma step_inv_grows:
  assumes inv: "dynamic_inv initial (md_final_control out)" and k: "control_step_effect cpu op selector out sent st cpu' out'"
  shows "dynamic_inv initial (md_final_control out')" "control_grows (control_of (md_final_control out)) (control_of (md_final_control out'))"
proof -
  have tag: "dynamic_inv initial (x\<lparr>dr_state_tag := t\<rparr>) \<longleftrightarrow> dynamic_inv initial x" "control_of (x\<lparr>dr_state_tag := t\<rparr>) = control_of x" for x t
    by (simp_all add: dynamic_inv_def control_of_def)
  have acc: "dynamic_inv initial (acknowledged e) \<and> control_grows (control_of (md_final_control out)) (control_of (acknowledged e))"
    if e: "dynamic_expected (md_final_control out) (dynamic_request cpu (md_final_control out) op selector) = Some e" for e
  proof (cases "op = VF_DYNAMIC_WRITE")
    case True
    note e = e [unfolded True]
    have "ds_sctlr (k_eff (control_of (md_final_control out))) AND 1 = 0" using write_inv(2) [OF inv e] by (simp add: control_of_def)
    then show ?thesis unfolding expected_refines [OF e] using write_inv(1) [OF inv e] apply_grows by blast
  next
    case False
    have "ds_sctlr (dr_effective (md_final_control out)) AND 1 \<noteq> 0 \<longrightarrow> dr_effective (md_final_control out) = dr_architectural (md_final_control out)"
      using inv unfolding dynamic_inv_def by metis
    moreover have "\<not> (\<exists>selector' v. control_event_of cpu op selector = Write selector' v)" using False by (simp add: control_event_of_def)
    ultimately have "control_grows (control_of (md_final_control out)) (control_apply (control_event_of cpu op selector) (control_of (md_final_control out)))"
      by (intro apply_grows) (simp add: control_of_def)
    then show ?thesis unfolding expected_refines [OF e] using other_inv [OF inv e False] by blast
  qed
  have "dynamic_inv initial (md_final_control out') \<and> control_grows (control_of (md_final_control out)) (control_of (md_final_control out'))"
    using k unfolding control_step_effect_def Let_def
  proof (elim disjE exE conjE)
    fix e token
    assume "dynamic_expected (md_final_control out) (dynamic_request cpu (md_final_control out) op selector) = Some e"
      "out' = out\<lparr>md_final_control := acknowledged e\<rparr>"
    then show ?thesis using acc by simp
  qed (simp_all add: tag inv grows_refl)
  then show "dynamic_inv initial (md_final_control out')" "control_grows (control_of (md_final_control out)) (control_of (md_final_control out'))"
    by simp_all
qed

text \<open>Translation that is written but not effective is being enabled: only the synchronisation may come next.\<close>

definition dynamic_pending :: "vf_dynamic_reply \<Rightarrow> bool" where
  "dynamic_pending r \<longleftrightarrow> ds_sctlr (dr_architectural r) AND 1 \<noteq> 0 \<and> dr_architectural r \<noteq> dr_effective r"

definition dynamic_ok :: "vf_memory_controls_v2 \<Rightarrow> dynamic_state \<Rightarrow> bool" where
  "dynamic_ok initial d \<longleftrightarrow>
     dynamic_inv initial (md_final_control (dy_out d)) \<and> (dynamic_pending (md_final_control (dy_out d)) \<longrightarrow> dy_enabling d)"

abbreviation (input) dynamic_control :: "dynamic_state \<Rightarrow> control" where
  "dynamic_control d \<equiv> control_of (md_final_control (dy_out d))"

lemma fetch_dynamic_keeps:
  assumes "fetch_dynamic callback cpu own d = (out, cpu', own', d')"
  shows "md_final_control (dy_out d') = md_final_control (dy_out d)" "dy_enabling d' = dy_enabling d" "dy_enable_pc d' = dy_enable_pc d"
  using assms by (auto simp: fetch_dynamic_def Let_def dynamic_fail_def failure_eq split: if_splits prod.splits)

lemma note_pending:
  assumes inv: "dynamic_inv initial known" and e: "dynamic_expected known (dynamic_request cpu known op selector) = Some e"
    and fc: "md_final_control (dy_out d') = acknowledged e" and old: "dynamic_pending known \<longrightarrow> dy_enabling d'"
  shows "dynamic_pending (acknowledged e) \<longrightarrow> dy_enabling (dynamic_note op selector pc d')"
proof (cases "op = VF_DYNAMIC_WRITE")
  case True
  note w = write_inv(3) [OF inv e [unfolded True]]
  show ?thesis using w True by (auto simp: dynamic_pending_def dynamic_note_def Let_def)
next
  case False
  note o = expected_other [OF e, unfolded request_fields, OF False]
  show ?thesis
  proof (cases "op = VF_DYNAMIC_ISB")
    case True
    then show ?thesis using o(1,3) by (simp add: dynamic_pending_def)
  next
    case isb: False
    then have "dr_effective e = dr_effective known" using o(4) by blast
    then show ?thesis using o(1) old False isb by (simp add: dynamic_pending_def dynamic_note_def Let_def)
  qed
qed

lemma note_out [simp]: "dy_out (dynamic_note op selector pc d) = dy_out d"
  by (simp add: dynamic_note_def Let_def)

lemma control_step_ok:
  assumes ok: "dynamic_ok initial d" and k: "control_step_effect cpu op selector (dy_out d) sent st cpu' out'"
  shows "dynamic_ok initial (if st \<noteq> VF_NEXT then d\<lparr>dy_out := out'\<rparr> else dynamic_note op selector pc (d\<lparr>dy_out := out'\<rparr>))"
    "control_grows (dynamic_control d) (control_of (md_final_control out'))"
proof -
  have inv: "dynamic_inv initial (md_final_control (dy_out d))" and old: "dynamic_pending (md_final_control (dy_out d)) \<longrightarrow> dy_enabling d"
    using ok by (simp_all add: dynamic_ok_def)
  note g = step_inv_grows [OF inv k]
  show "control_grows (dynamic_control d) (control_of (md_final_control out'))" by (rule g)
  have fail: "dynamic_ok initial (if st \<noteq> VF_NEXT then d\<lparr>dy_out := out'\<rparr> else dynamic_note op selector pc (d\<lparr>dy_out := out'\<rparr>))"
    if "st = VF_DATA_FAULT" and o: "out' = (dy_out d)\<lparr>md_memory := snd (v2_error (md_memory (dy_out d)) reason),
        md_final_control := if length sent = 2 then (md_final_control (dy_out d))\<lparr>dr_state_tag := VF_DYNAMIC_UNCERTAIN\<rparr> else md_final_control (dy_out d)\<rparr>"
    for reason
  proof -
    have "dynamic_pending (md_final_control out') = dynamic_pending (md_final_control (dy_out d))" by (simp add: o dynamic_pending_def)
    then show ?thesis using g(1) old that(1) by (simp add: dynamic_ok_def)
  qed
  show "dynamic_ok initial (if st \<noteq> VF_NEXT then d\<lparr>dy_out := out'\<rparr> else dynamic_note op selector pc (d\<lparr>dy_out := out'\<rparr>))"
    using k unfolding control_step_effect_def Let_def
  proof (elim disjE exE conjE)
    fix e token
    assume e: "dynamic_expected (md_final_control (dy_out d)) (dynamic_request cpu (md_final_control (dy_out d)) op selector) = Some e"
      and o: "out' = (dy_out d)\<lparr>md_final_control := acknowledged e\<rparr>" and st: "st = VF_NEXT"
    have "dynamic_pending (acknowledged e) \<longrightarrow> dy_enabling (dynamic_note op selector pc (d\<lparr>dy_out := out'\<rparr>))"
      by (rule note_pending [OF inv e]) (simp_all add: o old)
    then show ?thesis using g(1) o st by (simp add: dynamic_ok_def)
  qed (rule fail; assumption)+
qed

lemma dispatch_dynamic_ok:
  assumes ok: "dynamic_ok initial d" and e: "dispatch_dynamic fp callback control w st cpu own d = Some (out, cpu', own', d')"
  shows "dynamic_ok initial d' \<and> control_grows (dynamic_control d) (dynamic_control d')"
proof -
  have mem: "dynamic_ok initial (d\<lparr>dy_out := (dy_out d)\<lparr>md_memory := m\<rparr>\<rparr>)" for m using ok by (simp add: dynamic_ok_def)
  show ?thesis
  proof (cases "\<not> (fp \<and> st = VF_FP_DISPATCH) \<and> st \<noteq> VF_MEMORY_DISPATCH
      \<and> (st = VF_UNDEFINED_INSTRUCTION \<or> st = VF_SYSTEM_REGISTER_TRAP) \<and> dynamic_operation w \<noteq> None")
    case True
    then obtain op selector where o: "dynamic_operation w = Some (op, selector)" by auto
    obtain st2 c3 own3 out3 where k: "dynamic_control_step control cpu op selector own (dy_out d) = (st2, c3, own3, out3)" by (metis prod_cases4)
    obtain sent where x: "control_step_effect cpu op selector (dy_out d) sent st2 c3 out3" using control_step_cases [OF k] by blast
    note c = control_step_ok [OF ok x]
    have "d' = (if st2 \<noteq> VF_NEXT then d\<lparr>dy_out := out3\<rparr> else dynamic_note op selector (cpu_pc cpu) (d\<lparr>dy_out := out3\<rparr>))"
      using e True o k by (auto simp: dispatch_dynamic_def split: if_splits)
    then show ?thesis using c by simp
  next
    case False
    obtain st1 c1 own1 res1 where m: "memory_data_step_version callback cpu (dynamic_effective d) own (md_memory (dy_out d)) 3 = (st1, c1, own1, res1)"
      by (metis prod_cases4)
    have "d' = d \<or> d' = d\<lparr>dy_out := (dy_out d)\<lparr>md_memory := res1\<rparr>\<rparr>"
      using e False m by (cases "dynamic_operation w") (auto simp: dispatch_dynamic_def split: if_splits prod.splits)
    then show ?thesis using ok mem by (auto simp: grows_refl)
  qed
qed

lemma iteration_dynamic_ok:
  assumes ok: "dynamic_ok initial (rs_result s)"
    and e: "provider_iteration cached h capacity (fetch_dynamic callback) (dispatch_dynamic fp callback control) s = Some (out, s')"
  shows "dynamic_ok initial (rs_result s') \<and> control_grows (dynamic_control (rs_result s)) (dynamic_control (rs_result s'))"
proof -
  obtain f cpu own d where f: "fetch_dynamic callback (rs_cpu s) (rs_owner s) (rs_result s) = (f, cpu, own, d)" by (metis prod_cases4)
  note k = fetch_dynamic_keeps [OF f]
  have d: "dynamic_ok initial d" using ok k by (simp add: dynamic_ok_def)
  have "rs_result s' = d \<or> (\<exists>w st c1 out' c2 own2. dispatch_dynamic fp callback control w st c1 own d = Some (out', c2, own2, rs_result s'))"
    using e f by (auto simp: provider_iteration_def split: sum.splits prod.splits option.splits)
  then show ?thesis
  proof (elim disjE exE)
    fix w st c1 out' c2 own2
    assume "dispatch_dynamic fp callback control w st c1 own d = Some (out', c2, own2, rs_result s')"
    from dispatch_dynamic_ok [OF d this] k show ?thesis by simp
  qed (use d k in \<open>simp add: grows_refl\<close>)
qed

lemma loop_keeps:
  assumes "\<And>s out s'. P s \<Longrightarrow> iterate s = Some (out, s') \<Longrightarrow> P s'" "\<And>s st. P s \<Longrightarrow> P (snd (rs_return st s))"
  shows "P s \<Longrightarrow> provider_loop fuel iterate start budget s = Some (st, s') \<Longrightarrow> P s'"
proof (induction fuel arbitrary: s)
  case (Suc fuel)
  show ?case
  proof (cases "iterate s")
    case None
    then show ?thesis using Suc.prems assms(2) [of s VF_BUDGET] by (auto split: if_splits)
  next
    case (Some a)
    obtain out s1 where i: "iterate s = Some (out, s1)" using Some by (cases a) auto
    have p: "P s1" by (rule assms(1) [OF Suc.prems(1) i])
    show ?thesis
    proof (cases out)
      case None
      then show ?thesis using Suc.prems i assms(2) [of s VF_BUDGET] Suc.IH [OF p] by (auto split: if_splits)
    next
      case (Some st')
      then show ?thesis using Suc.prems i assms(2) [of s VF_BUDGET] assms(2) [OF p, of st'] by (auto split: if_splits)
    qed
  qed
qed simp

section \<open>The runs\<close>

text \<open>The effects a run has on the guest and on its provider.\<close>

definition run_view :: "(u32 \<times> ('s, 'r, 'p, 'c) run_state) option \<Rightarrow> (u32 \<times> vf_cpu \<times> 's \<times> 'r) option" where
  "run_view out = map_option (\<lambda>(st, s). (st, visible s)) out"

lemma loop_view:
  assumes "protect_works h" "rs_cache s = cache_empty"
  shows "run_view (provider_loop fuel (provider_iteration True h capacity fetch dispatch) start budget s)
      = run_view (provider_loop fuel (provider_iteration False h capacity fetch dispatch) start budget s)"
  unfolding run_view_def using assms(2) by (intro provider_loop_cached [OF assms(1)]) (simp_all add: cache_empty_inv)

text \<open>C1. Reusing native code is invisible. For every host whose protection changes succeed, every buffer, budget and
  provider, a run with the cache returns the same status, and leaves the same processor, provider and result, as the
  run that translates each instruction afresh; this holds for the physical and for the immutable run, whatever code is
  fetched, also when it changes under the same address, when slots are evicted and when code overflows its slot.\<close>

theorem provider_cache_transparent:
  assumes p: "protect_works h"
  shows "run_view (vf_run_memory_provider fuel True h capacity callback budget cpu own p0 res)
         = run_view (vf_run_memory_provider fuel False h capacity callback budget cpu own p0 res)
     \<and> run_view (run_memory_provider_v2 fuel True h capacity controls callback2 budget allow_pauth cpu own p0 res2)
         = run_view (run_memory_provider_v2 fuel False h capacity controls callback2 budget allow_pauth cpu own p0 res2)"
  unfolding vf_run_memory_provider_def run_memory_provider_v2_def Let_def by (simp add: loop_view [OF p] cong: if_cong)

text \<open>A host that runs two instructions, the no-operation and the halt, and a provider of two no-operations and a halt.\<close>

definition host_demo :: "(unit, u32) host" where
  "host_demo =
     \<lparr>h_protect = (\<lambda>p _. (False, p)), h_emit = (\<lambda>el w pc. (w, 64)),
      h_entry = (\<lambda>cpu code.
         if code = 0xd503201f then (VF_NEXT, cpu\<lparr>cpu_pc := cpu_pc cpu + 4, cpu_retired := cpu_retired cpu + 1\<rparr>)
         else if code = 0xd4400000 then (VF_HALT, cpu\<lparr>cpu_pc := cpu_pc cpu + 4, cpu_retired := cpu_retired cpu + 1\<rparr>)
         else (VF_UNDEFINED_INSTRUCTION, cpu\<lparr>cpu_instruction := code\<rparr>)),
      h_fp = True\<rparr>"

definition program_demo :: "unit memory_callback_v1" where
  "program_demo own q =
     (False, \<lparr>r1_abi_version = 1, r1_struct_size = 80, r1_result = 0, r1_fault = 0,
              r1_value0 = (if q1_pc q < 0x8008 then 0xd503201f else 0xd4400000), r1_value1 = 0, r1_address = 0, r1_esr = 0,
              r1_epoch = 0, r1_reserved = (0, 0, 0)\<rparr>, ())"

definition idle_demo :: vf_cpu where
  "idle_demo = cpu_demo\<lparr>cpu_irq_level := 0\<rparr>"

theorem provider_cache_transparent_witness:
  "map_option (\<lambda>(st, cpu, _). (st, cpu_retired cpu, cpu_pc cpu))
     (run_view (vf_run_memory_provider 8 True host_demo 4096 program_demo 8 idle_demo () () (mv_base result_demo)))
     = Some (VF_HALT, 3, 0x800c)
   \<and> run_view (vf_run_memory_provider 8 True host_demo 4096 program_demo 8 idle_demo () () (mv_base result_demo))
     = run_view (vf_run_memory_provider 8 False host_demo 4096 program_demo 8 idle_demo () () (mv_base result_demo))"
proof
  have "protect_works host_demo" by (simp add: protect_works_def host_demo_def)
  then show same: "run_view (vf_run_memory_provider 8 True host_demo 4096 program_demo 8 idle_demo () () (mv_base result_demo))
     = run_view (vf_run_memory_provider 8 False host_demo 4096 program_demo 8 idle_demo () () (mv_base result_demo))"
    by (rule provider_cache_transparent [THEN conjunct1])
  show "map_option (\<lambda>(st, cpu, _). (st, cpu_retired cpu, cpu_pc cpu))
     (run_view (vf_run_memory_provider 8 True host_demo 4096 program_demo 8 idle_demo () () (mv_base result_demo)))
     = Some (VF_HALT, 3, 0x800c)"
    unfolding same by code_simp
qed

lemma run_v1_returns:
  assumes h: "host_counts h" and wf: "cpu_wf cpu" and fuel: "unat budget < fuel"
  shows "\<exists>st s. vf_run_memory_provider fuel cached h capacity callback budget cpu own p res = Some (st, s)
           \<and> cpu_wf (rs_cpu s) \<and> unat (cpu_retired (rs_cpu s) - cpu_retired cpu) \<le> unat budget"
  unfolding vf_run_memory_provider_def Let_def using wf fuel
  by (auto simp: provider_error_def v2_error_def failure_eq cache_empty_inv intro!: run1.loop_returns [OF h])

lemma run_v2_returns:
  assumes h: "host_counts h" and wf: "cpu_wf cpu" and fuel: "unat budget < fuel"
  shows "\<exists>st s. run_memory_provider_v2 fuel cached h capacity controls callback budget allow_pauth cpu own p res = Some (st, s)
           \<and> cpu_wf (rs_cpu s) \<and> unat (cpu_retired (rs_cpu s) - cpu_retired cpu) \<le> unat budget"
  unfolding run_memory_provider_v2_def Let_def using wf fuel
  by (auto simp: provider_error_def v2_error_def failure_eq cache_empty_inv intro!: run2.loop_returns [OF h])

lemma run_dynamic_returns:
  assumes h: "host_counts h" and wf: "cpu_wf cpu" and fuel: "unat budget < fuel"
  shows "\<exists>st s. vf_run_memory_provider_dynamic fuel h capacity controls callback control budget cpu own p out = Some (st, s)
           \<and> cpu_wf (rs_cpu s) \<and> unat (cpu_retired (rs_cpu s) - cpu_retired cpu) \<le> unat budget"
  unfolding vf_run_memory_provider_dynamic_def Let_def using wf fuel
  by (auto simp: provider_error_def v2_error_def failure_eq cache_empty_inv intro!: run3.loop_returns [OF h])

text \<open>C3. Every run returns. If native code counts the instructions it completes and keeps the processor well formed, then
  each of the three runs, given one unit of fuel more than its budget, ends with a status; the processor is well formed and no
  more instructions have been counted than the budget allows. No answer of the provider, of the control service or of
  the page protection can keep a run from ending, and no stale code is ever run.\<close>

theorem provider_runs_return:
  assumes h: "host_counts h" and wf: "cpu_wf cpu" and fuel: "unat budget < fuel"
  shows "(\<exists>st s. vf_run_memory_provider fuel cached h capacity callback budget cpu own p res = Some (st, s)
           \<and> cpu_wf (rs_cpu s) \<and> unat (cpu_retired (rs_cpu s) - cpu_retired cpu) \<le> unat budget)
    \<and> (\<exists>st s. run_memory_provider_v2 fuel cached h capacity controls callback2 budget allow_pauth cpu own p res2 = Some (st, s)
           \<and> cpu_wf (rs_cpu s) \<and> unat (cpu_retired (rs_cpu s) - cpu_retired cpu) \<le> unat budget)
    \<and> (\<exists>st s. vf_run_memory_provider_dynamic fuel h capacity controls callback2 control budget cpu own p out = Some (st, s)
           \<and> cpu_wf (rs_cpu s) \<and> unat (cpu_retired (rs_cpu s) - cpu_retired cpu) \<le> unat budget)"
  by (intro conjI run_v1_returns [OF assms] run_v2_returns [OF assms] run_dynamic_returns [OF assms])

lemma host_demo_counts: "host_counts host_demo"
  by (simp add: host_counts_def host_demo_def cpu_wf_def cpu_fields)

theorem provider_runs_return_witness:
  "\<exists>st s. vf_run_memory_provider 3 True host_demo 4096 program_demo 2 idle_demo () () (mv_base result_demo) = Some (st, s)
     \<and> cpu_wf (rs_cpu s) \<and> unat (cpu_retired (rs_cpu s) - cpu_retired idle_demo) \<le> unat (2 :: u64)"
proof -
  have wf: "cpu_wf idle_demo" using demo_wf by (simp add: idle_demo_def cpu_wf_def cpu_fields)
  have "unat (2 :: u64) < 3" by simp
  then show ?thesis by (rule provider_runs_return [OF host_demo_counts wf, THEN conjunct1])
qed

lemma dynamic_loop_ok:
  assumes "dynamic_ok initial (rs_result s)" and loop: "provider_loop fuel
      (provider_iteration False h capacity (fetch_dynamic callback) (dispatch_dynamic fp callback control)) start budget s = Some (st, s')"
  shows "dynamic_ok initial (rs_result s') \<and> control_grows (dynamic_control (rs_result s)) (dynamic_control (rs_result s'))"
proof (rule loop_keeps [OF _ _ _ loop, where P =
    "\<lambda>t. dynamic_ok initial (rs_result t) \<and> control_grows (dynamic_control (rs_result s)) (dynamic_control (rs_result t))"])
  fix t :: "('a, dynamic_state, 'b, 'c) run_state" and out t'
  assume t: "dynamic_ok initial (rs_result t) \<and> control_grows (dynamic_control (rs_result s)) (dynamic_control (rs_result t))"
    "provider_iteration False h capacity (fetch_dynamic callback) (dispatch_dynamic fp callback control) t = Some (out, t')"
  from iteration_dynamic_ok [OF _ t(2)] t(1) grows_trans
  show "dynamic_ok initial (rs_result t') \<and> control_grows (dynamic_control (rs_result s)) (dynamic_control (rs_result t'))" by blast
qed (simp_all add: assms(1) grows_refl rs_return_def)

lemma dynamic_start_inv:
  assumes "dynamic_admitted initial budget cpu"
  shows "dynamic_inv initial (dynamic_start initial)" "\<not> dynamic_pending (dynamic_start initial)"
proof -
  have v: "vf_dynamic_controls_valid initial" "mc_sctlr initial AND 1 = 0" "mc_epoch initial = 1" using assms by (simp_all add: dynamic_admitted_def)
  have "dynamic_controls (dynamic_snapshot initial) 1 = initial"
    using v by (auto simp: dynamic_controls_def dynamic_snapshot_def vf_dynamic_controls_valid_def intro!: vf_memory_controls_v2.equality split: if_splits)
  then show "dynamic_inv initial (dynamic_start initial)"
    using v by (simp add: dynamic_inv_def dynamic_start_def) (simp add: dynamic_snapshot_def)
  show "\<not> dynamic_pending (dynamic_start initial)" by (simp add: dynamic_pending_def dynamic_start_def)
qed

text \<open>C9. In a dynamic run the acknowledged controls can only move forward, whatever the host, the memory provider and the
  control service do. At the end of every admitted run the written and the effective registers are admissible, with the
  granules and the physical address size of the initial ones, the counters have not decreased, and a written enable bit
  that is not yet effective leaves the run waiting for the synchronisation. From any point of a run on, once translation
  is effective, the registers, the revision and the epoch never change again.\<close>

theorem dynamic_run_controls:
  shows "(dynamic_admitted initial budget cpu \<longrightarrow>
       vf_run_memory_provider_dynamic fuel h capacity initial callback control budget cpu own p out = Some (st, s') \<longrightarrow>
         dynamic_ok initial (rs_result s') \<and> control_grows (control_of (dynamic_start initial)) (dynamic_control (rs_result s')))
     \<and> (dynamic_ok initial (rs_result s) \<longrightarrow>
       provider_loop fuel (provider_iteration False h capacity (fetch_dynamic callback) (dispatch_dynamic (h_fp h) callback control))
         start budget s = Some (st, s') \<longrightarrow>
         dynamic_ok initial (rs_result s') \<and> control_grows (dynamic_control (rs_result s)) (dynamic_control (rs_result s')))"
proof (intro conjI impI)
  assume a: "dynamic_admitted initial budget cpu"
    and "vf_run_memory_provider_dynamic fuel h capacity initial callback control budget cpu own p out = Some (st, s')"
  then have run: "provider_loop fuel (provider_iteration False h capacity (fetch_dynamic callback) (dispatch_dynamic (h_fp h) callback control))
      (cpu_retired cpu) budget \<lparr>rs_cpu = cpu, rs_owner = own, rs_result = \<lparr>dy_out = out\<lparr>md_final_control := dynamic_start initial\<rparr>,
        dy_enabling = False, dy_enable_pc = 0\<rparr>, rs_protect = p, rs_cache = cache_empty\<rparr> = Some (st, s')"
    by (simp add: vf_run_memory_provider_dynamic_def)
  have "dynamic_ok initial (rs_result s') \<and> control_grows (control_of (dynamic_start initial)) (dynamic_control (rs_result s'))"
    using dynamic_loop_ok [OF _ run, of initial] dynamic_start_inv [OF a] by (simp add: dynamic_ok_def)
  then show "dynamic_ok initial (rs_result s')" "control_grows (control_of (dynamic_start initial)) (dynamic_control (rs_result s'))" by simp_all
qed (use dynamic_loop_ok in blast)+

definition mapped_demo :: vf_memory_controls_v2 where
  "mapped_demo = dynamic_controls snapshot_demo 1"

definition dynamic_cpu_demo :: vf_cpu where
  "dynamic_cpu_demo = idle_demo\<lparr>cpu_sctlr := ds_sctlr snapshot_demo, cpu_ttbr0 := ds_ttbr0 snapshot_demo,
     cpu_ttbr1 := ds_ttbr1 snapshot_demo, cpu_tcr := ds_tcr snapshot_demo, cpu_mair := ds_mair snapshot_demo, cpu_pstate := 0x3c5\<rparr>"

text \<open>A synchronisation and a halt, and a service that acknowledges what it is asked.\<close>

definition barrier_demo :: "unit memory_callback_v2" where
  "barrier_demo own q = (False, (empty_reply 3 1)\<lparr>r_value0 := (if q_pc q = 0x8000 then ucast VF_DYNAMIC_ISB_WORD else 0xd4400000)\<rparr>, ())"

definition echo_demo :: "unit dynamic_callback" where
  "echo_demo own q =
     (False, (dynamic_start mapped_demo)\<lparr>dr_phase := dq_phase q, dr_operation := dq_operation q, dr_selector := dq_selector q,
        dr_state_tag := (if dq_phase q = VF_DYNAMIC_PREPARE then VF_DYNAMIC_PROPOSED else VF_DYNAMIC_KNOWN),
        dr_token := (if dq_phase q = VF_DYNAMIC_PREPARE then 7 else 0)\<rparr>, ())"

theorem dynamic_run_controls_witness:
  "\<exists>s'. dynamic_admitted mapped_demo 8 dynamic_cpu_demo
     \<and> vf_run_memory_provider_dynamic 8 host_demo 4096 mapped_demo barrier_demo echo_demo 8 dynamic_cpu_demo () () out_demo = Some (VF_HALT, s')
     \<and> dynamic_ok mapped_demo (rs_result s')"
proof -
  let ?r = "vf_run_memory_provider_dynamic 8 host_demo 4096 mapped_demo barrier_demo echo_demo 8 dynamic_cpu_demo () () out_demo"
  have a: "dynamic_admitted mapped_demo 8 dynamic_cpu_demo" by code_simp
  have "map_option fst ?r = Some VF_HALT" by code_simp
  then obtain s' where r: "?r = Some (VF_HALT, s')" by (cases ?r) auto
  then show ?thesis using dynamic_run_controls [THEN conjunct1, rule_format, OF a r] a by simp
qed

end
