(* ===== verification/Boot.thy ===== *)
theory Boot
  imports Run
begin

text \<open>
  The boot entries over a memory provider: \<open>runtime/memory_boot.c\<close>, \<open>runtime/memory_boot_v2.c\<close> and
  \<open>runtime/memory_dynamic.c\<close>. They check the addresses of the caller's storage, prepare a processor, run it and
  snapshot it into the result.

  The caller's storage is given by its addresses, as the code compares them, and by its contents; callbacks are
  functions, so the tests for null ones have no counterpart. The outcome is the status, the result record as the caller
  sees it, and the states of the provider and of the host's protection; \<open>None\<close> is a run without enough fuel.
\<close>

unbundle bit_operations_syntax

section \<open>The caller's storage\<close>

definition span :: "u64 \<Rightarrow> u64 \<Rightarrow> bool" where
  "span p n \<longleftrightarrow> p \<noteq> 0 \<and> n \<le> - 1 - p"

definition overlap :: "u64 \<Rightarrow> u64 \<Rightarrow> u64 \<Rightarrow> u64 \<Rightarrow> bool" where
  "overlap a an b bn \<longleftrightarrow> a < b + bn \<and> b < a + an"

record boot_storage =
  bs_result :: u64
  bs_code :: u64
  bs_code_bytes :: u64
  bs_initial :: u64
  bs_options :: u64
  bs_controls :: u64
  bs_owner :: u64

text \<open>The checks on the result record, before anything is written, and those on the inputs. The flags say whether the entry takes
  translation controls and whether the caller passed options.\<close>

definition result_rejected :: "boot_storage \<Rightarrow> u64 \<Rightarrow> bool \<Rightarrow> bool \<Rightarrow> bool" where
  "result_rejected a bytes mapped has_options \<longleftrightarrow>
     \<not> span (bs_result a) bytes \<or> bs_result a mod 8 \<noteq> 0
     \<or> (span (bs_code a) (bs_code_bytes a) \<and> overlap (bs_result a) bytes (bs_code a) (bs_code_bytes a))
     \<or> (span (bs_initial a) 32 \<and> overlap (bs_result a) bytes (bs_initial a) 32)
     \<or> (has_options \<and> span (bs_options a) 64 \<and> overlap (bs_result a) bytes (bs_options a) 64)
     \<or> (mapped \<and> span (bs_controls a) 80 \<and> overlap (bs_result a) bytes (bs_controls a) 80)"

definition inputs_rejected :: "boot_storage \<Rightarrow> bool \<Rightarrow> bool \<Rightarrow> bool" where
  "inputs_rejected a mapped has_options \<longleftrightarrow>
     \<not> span (bs_code a) (bs_code_bytes a) \<or> bs_code_bytes a < 64 \<or> \<not> span (bs_initial a) 32 \<or> bs_initial a mod 8 \<noteq> 0
     \<or> (mapped \<and> (\<not> span (bs_controls a) 80 \<or> bs_controls a mod 8 \<noteq> 0))
     \<or> (has_options \<and> (\<not> span (bs_options a) 64 \<or> bs_options a mod 8 \<noteq> 0))
     \<or> bs_owner a = 0 \<or> bs_owner a AND 7 \<noteq> 0 \<or> overlap (bs_code a) (bs_code_bytes a) (bs_initial a) 32
     \<or> (mapped \<and> overlap (bs_code a) (bs_code_bytes a) (bs_controls a) 80)
     \<or> (has_options \<and> overlap (bs_code a) (bs_code_bytes a) (bs_options a) 64)"

section \<open>Results\<close>

definition boot_result_zero :: "u64 \<Rightarrow> u64 \<Rightarrow> vf_boot_result_v2" where
  "boot_result_zero entry args =
     \<lparr>br_base = \<lparr>br_status = VF_DATA_FAULT, br_fault_instruction = 0, br_retired = 0, br_pc = entry, br_x = [args, 0, 0, 0],
                 br_compiled_blocks = 0\<rparr>,
      br_platform_override = 0, br_pending_lines = 0, br_platform_profile = 0, br_elr = 0, br_spsr = 0,
      br_exception_vector = 0, br_esr = 0, br_pstate = 0, br_sp = 0\<rparr>"

definition run_result_zero :: "u32 \<Rightarrow> u32 \<Rightarrow> u64 \<Rightarrow> u64 \<Rightarrow> vf_memory_run_result_v1" where
  "run_result_zero version bytes entry args =
     \<lparr>mr_abi_version = version, mr_struct_size = bytes, mr_provider_status = VF_PROVIDER_INVALID_REQUEST, mr_reserved0 = 0,
      mr_execution = boot_result_zero entry args, mr_guest_far = 0, mr_last_address = 0, mr_fetch_requests = 0,
      mr_data_requests = 0, mr_completed_data_operations = 0, mr_reserved1 = 0\<rparr>"

definition run_result_finish :: "vf_cpu \<Rightarrow> u32 \<Rightarrow> vf_memory_run_result_v1 \<Rightarrow> vf_memory_run_result_v1" where
  "run_result_finish cpu status res =
     (let e = vf_boot_snapshot cpu status;
          e1 = (if mr_provider_status res \<noteq> 0 then e\<lparr>br_base := (br_base e)\<lparr>br_fault_instruction := 0\<rparr>\<rparr> else e) in
      res\<lparr>mr_execution := e1, mr_guest_far := cpu_far_el cpu ! 1\<rparr>)"

definition boot_options :: "vf_boot_options_v2 option \<Rightarrow> vf_boot_options_v2" where
  "boot_options options = (case options of None \<Rightarrow> boot_defaults | Some config \<Rightarrow> config)"

section \<open>The physical entry\<close>

definition vf_boot_run_memory_v1 ::
  "nat \<Rightarrow> bool \<Rightarrow> ('p, 'c) host \<Rightarrow> boot_storage \<Rightarrow> 's memory_callback_v1 \<Rightarrow> u64 \<Rightarrow> u64 \<Rightarrow> u64 \<Rightarrow> u64 \<Rightarrow> u64 \<Rightarrow> u64
   \<Rightarrow> u64 list \<Rightarrow> vf_pauth_step option \<Rightarrow> vf_boot_options_v2 option \<Rightarrow> 's \<Rightarrow> 'p \<Rightarrow> vf_memory_run_result_v1
   \<Rightarrow> (u32 \<times> vf_memory_run_result_v1 \<times> 's \<times> 'p) option" where
  "vf_boot_run_memory_v1 fuel cached h a callback base bytes entry args stack budget initial pauth options own p result =
     (if result_rejected a 192 False (options \<noteq> None) then Some (VF_DATA_FAULT, result, own, p)
      else
        let res = run_result_zero 1 192 entry args in
        if inputs_rejected a False (options \<noteq> None) then Some (VF_DATA_FAULT, res, own, p)
        else
          case vf_cpu_prepare_boot (vf_cpu_reset cpu_zero VF_EL1) bytes base entry args stack initial pauth options budget of
            (status, cpu) \<Rightarrow>
              if status \<noteq> VF_NEXT then Some (VF_DATA_FAULT, res, own, p)
              else
                case vf_run_memory_provider fuel cached h (unat (bs_code_bytes a)) callback budget cpu own p
                       (res\<lparr>mr_provider_status := VF_PROVIDER_OK\<rparr>) of
                  None \<Rightarrow> None
                | Some (st, s) \<Rightarrow> Some (st, run_result_finish (rs_cpu s) st (rs_result s), rs_owner s, rs_protect s))"

section \<open>The mapped entries\<close>

definition config_rejected :: "vf_boot_options_v2 \<Rightarrow> bool" where
  "config_rejected config \<longleftrightarrow>
     bo_abi_version config \<noteq> 2 \<or> bo_struct_size config \<noteq> 64 \<or> bo_flags config \<noteq> 0 \<or> bo_reserved config \<noteq> 0
     \<or> bo_irq_level config > 1 \<or> bo_fiq_level config > 1 \<or> bo_initial_pstate config AND NOT 0xf00003cf \<noteq> 0
     \<or> bo_vbar config AND 0x7ff \<noteq> 0"

text \<open>The processor of a mapped boot: the level is that of the initial state, and every address is a virtual one.\<close>

definition mapped_cpu ::
  "vf_boot_options_v2 \<Rightarrow> vf_memory_controls_v2 \<Rightarrow> u64 \<Rightarrow> u64 \<Rightarrow> u64 \<Rightarrow> u64 list \<Rightarrow> vf_pauth_step option \<Rightarrow> vf_cpu option" where
  "mapped_cpu config control base entry stack initial pauth =
     (case vf_cpu_configure_platform (vf_cpu_reset cpu_zero (if bo_initial_pstate config AND 15 = 0 then VF_EL0 else VF_EL1))
             (bo_platform_profile config) (bo_initial_override config) of
        (VF_SYSREG_OK, cpu1) \<Rightarrow>
          let cpu2 = cpu1\<lparr>cpu_pauth_step := pauth, cpu_pc := entry, cpu_x := map (\<lambda>i. initial ! i) [0..<4] @ drop 4 (cpu_x cpu1),
                          cpu_sp := stack, cpu_sp_el := (cpu_sp_el cpu1)[0 := stack, 1 := stack],
                          cpu_pstate := bo_initial_pstate config, cpu_vbar_el := (cpu_vbar_el cpu1)[1 := bo_vbar config],
                          cpu_guest_ram_base := base, cpu_sctlr := mc_sctlr control, cpu_ttbr0 := mc_ttbr0 control,
                          cpu_ttbr1 := mc_ttbr1 control, cpu_tcr := mc_tcr control, cpu_mair := mc_mair control,
                          cpu_hcr_el2 := mc_hcr control, cpu_scr_el3 := mc_scr control\<rparr> in
          Some (snd (vf_cpu_set_interrupt_lines cpu2 (ucast (bo_irq_level config)) (ucast (bo_fiq_level config))))
      | _ \<Rightarrow> None)"

definition vf_run_memory_provider_v2 ::
  "nat \<Rightarrow> bool \<Rightarrow> ('p, 'c) host \<Rightarrow> nat \<Rightarrow> vf_memory_controls_v2 \<Rightarrow> 's memory_callback_v2 \<Rightarrow> u64 \<Rightarrow> vf_cpu \<Rightarrow> 's \<Rightarrow> 'p
   \<Rightarrow> vf_memory_run_result_v2 \<Rightarrow> (u32 \<times> ('s, vf_memory_run_result_v2, 'p, 'c) run_state) option" where
  "vf_run_memory_provider_v2 fuel cached h capacity controls callback budget cpu own p res =
     run_memory_provider_v2 fuel cached h capacity controls callback budget False cpu own p res"

definition vf_run_memory_provider_pauth_v2 ::
  "nat \<Rightarrow> bool \<Rightarrow> ('p, 'c) host \<Rightarrow> nat \<Rightarrow> vf_memory_controls_v2 \<Rightarrow> 's memory_callback_v2 \<Rightarrow> u64 \<Rightarrow> vf_cpu \<Rightarrow> 's \<Rightarrow> 'p
   \<Rightarrow> vf_memory_run_result_v2 \<Rightarrow> (u32 \<times> ('s, vf_memory_run_result_v2, 'p, 'c) run_state) option" where
  "vf_run_memory_provider_pauth_v2 fuel cached h capacity controls callback budget cpu own p res =
     (if cpu_pauth_step cpu = None then
        (case v2_error res VF_PROVIDER_INVALID_REQUEST of (st, res1) \<Rightarrow>
           Some (st, \<lparr>rs_cpu = cpu, rs_owner = own, rs_result = res1, rs_protect = p, rs_cache = cache_empty\<rparr>))
      else run_memory_provider_v2 fuel cached h capacity controls callback budget True cpu own p res)"

text \<open>The access to the floating-point bank that the research entry gives before the run.\<close>

definition boot_fp :: "bool \<Rightarrow> u64 \<Rightarrow> vf_cpu \<Rightarrow> vf_cpu option" where
  "boot_fp fp initial_cpacr cpu =
     (case vf_cpu_enable_fp_research fp cpu of
        (ERR, _) \<Rightarrow> None
      | (OK, cpu1) \<Rightarrow>
          (case vf_cpu_write_sysreg cpu1 VF_SYSREG_KEY_CPACR_EL1 initial_cpacr of
             (VF_SYSREG_OK, cpu2) \<Rightarrow> Some cpu2
           | _ \<Rightarrow> None))"

definition boot_run_memory_v2 ::
  "nat \<Rightarrow> bool \<Rightarrow> ('p, 'c) host \<Rightarrow> boot_storage \<Rightarrow> 's memory_callback_v2 \<Rightarrow> u64 \<Rightarrow> u64 \<Rightarrow> u64 \<Rightarrow> u64 \<Rightarrow> u64 \<Rightarrow> u64
   \<Rightarrow> u64 list \<Rightarrow> vf_boot_options_v2 option \<Rightarrow> vf_memory_controls_v2 \<Rightarrow> vf_pauth_step option \<Rightarrow> bool \<Rightarrow> bool \<Rightarrow> u64 \<Rightarrow> 's \<Rightarrow> 'p
   \<Rightarrow> vf_memory_run_result_v2 \<Rightarrow> (u32 \<times> vf_memory_run_result_v2 \<times> 's \<times> 'p) option" where
  "boot_run_memory_v2 fuel cached h a callback base bytes entry args stack budget initial options control pauth allow_pauth allow_fp
     initial_cpacr own p result =
     (if result_rejected a 320 True (options \<noteq> None) then Some (VF_DATA_FAULT, result, own, p)
      else
        let res = \<lparr>mv_base = run_result_zero 2 320 entry args, mv_last_reply = empty_reply 2 0\<rparr>;
            config = boot_options options; mode = bo_initial_pstate config AND 15;
            reject = Some (VF_DATA_FAULT, res, own, p) in
        if allow_fp \<and> \<not> h_fp h then reject
        else if inputs_rejected a True (options \<noteq> None) \<or> (allow_pauth \<and> pauth = None) \<or> budget = 0 \<or> bytes < 8
                \<or> base > - 1 - bytes then reject
        else if \<not> vf_memory_controls_valid_v2 control then reject
        else if config_rejected config \<or> (mode \<noteq> 0 \<and> mode \<noteq> 4 \<and> mode \<noteq> 5) then reject
        else
          case mapped_cpu config control base entry stack initial pauth of
            None \<Rightarrow> reject
          | Some cpu \<Rightarrow>
              (case (if allow_fp then boot_fp (h_fp h) initial_cpacr cpu else Some cpu) of
                 None \<Rightarrow> reject
               | Some cpu1 \<Rightarrow>
                   (case (if allow_pauth then vf_run_memory_provider_pauth_v2 else vf_run_memory_provider_v2)
                           fuel cached h (unat (bs_code_bytes a)) control callback budget cpu1 own p
                           (res\<lparr>mv_base := (mv_base res)\<lparr>mr_provider_status := VF_PROVIDER_OK\<rparr>\<rparr>) of
                      None \<Rightarrow> None
                    | Some (st, s) \<Rightarrow>
                        Some (st, (rs_result s)\<lparr>mv_base := run_result_finish (rs_cpu s) st (mv_base (rs_result s))\<rparr>,
                              rs_owner s, rs_protect s))))"

definition vf_boot_run_memory_v2 where
  "vf_boot_run_memory_v2 fuel cached h a callback base bytes entry args stack budget initial options control own p result =
     boot_run_memory_v2 fuel cached h a callback base bytes entry args stack budget initial options control None False False 0 own p result"

definition vf_boot_run_memory_pauth_v2 where
  "vf_boot_run_memory_pauth_v2 fuel cached h a callback base bytes entry args stack budget initial pauth options control own p result =
     boot_run_memory_v2 fuel cached h a callback base bytes entry args stack budget initial options control pauth True False 0 own p result"

definition vf_boot_run_memory_fp_research_v2 where
  "vf_boot_run_memory_fp_research_v2 fuel cached h a callback base bytes entry args stack budget initial pauth initial_cpacr options control
     own p result =
     boot_run_memory_v2 fuel cached h a callback base bytes entry args stack budget initial options control pauth True True initial_cpacr
       own p result"

section \<open>The dynamic entries\<close>

definition snapshot_reply_zero :: vf_dynamic_reply where
  "snapshot_reply_zero = \<lparr>dr_abi_version = 0, dr_struct_size = 0, dr_result = 0, dr_detail = 0, dr_phase = 0, dr_operation = 0,
     dr_selector = 0, dr_state_tag = 0, dr_token = 0, dr_revision = 0, dr_epoch = 0, dr_invalidations = 0,
     dr_architectural = snapshot_zero, dr_effective = snapshot_zero\<rparr>"

definition boot_run_memory_dynamic ::
  "nat \<Rightarrow> ('p, 'c) host \<Rightarrow> boot_storage \<Rightarrow> 's memory_callback_v2 \<Rightarrow> 's dynamic_callback \<Rightarrow> u64 \<Rightarrow> u64 \<Rightarrow> u64 \<Rightarrow> u64 \<Rightarrow> u64 \<Rightarrow> u64
   \<Rightarrow> u64 list \<Rightarrow> vf_pauth_step option \<Rightarrow> vf_boot_options_v2 option \<Rightarrow> vf_memory_controls_v2 \<Rightarrow> bool \<Rightarrow> 's \<Rightarrow> 'p
   \<Rightarrow> vf_memory_run_result_dynamic \<Rightarrow> (u32 \<times> vf_memory_run_result_dynamic \<times> 's \<times> 'p) option" where
  "boot_run_memory_dynamic fuel h a callback control_callback base bytes entry args stack budget initial pauth options control
     allow_pauth own p result =
     (if result_rejected a 512 True (options \<noteq> None) then Some (VF_DATA_FAULT, result, own, p)
      else
        let res = \<lparr>md_memory = \<lparr>mv_base = run_result_zero 3 512 entry args, mv_last_reply = empty_reply 3 0\<rparr>,
                   md_final_control = snapshot_reply_zero\<rparr>;
            config = boot_options options; mode = bo_initial_pstate config AND 15;
            reject = Some (VF_DATA_FAULT, res, own, p) in
        if inputs_rejected a True (options \<noteq> None) \<or> (allow_pauth \<and> pauth = None) \<or> budget = 0 \<or> bytes < 8
           \<or> base > - 1 - bytes \<or> base \<ge> push_bit 48 1 \<or> bytes > push_bit 48 1 - base then reject
        else if \<not> vf_dynamic_controls_valid control \<or> mc_sctlr control AND 1 \<noteq> 0 \<or> mc_epoch control \<noteq> 1 then reject
        else if config_rejected config \<or> (mode \<noteq> 4 \<and> mode \<noteq> 5) \<or> bo_initial_pstate config AND 0xc0 \<noteq> 0xc0 then reject
        else
          case mapped_cpu config control base entry stack initial pauth of
            None \<Rightarrow> reject
          | Some cpu \<Rightarrow>
              (case vf_run_memory_provider_dynamic fuel h (unat (bs_code_bytes a)) control callback control_callback budget cpu own p
                      (res\<lparr>md_memory := (md_memory res)\<lparr>mv_base := (mv_base (md_memory res))\<lparr>mr_provider_status := VF_PROVIDER_OK\<rparr>\<rparr>\<rparr>) of
                 None \<Rightarrow> None
               | Some (st, s) \<Rightarrow>
                   let out = dy_out (rs_result s); m = md_memory out in
                   Some (st, out\<lparr>md_memory := m\<lparr>mv_base := run_result_finish (rs_cpu s) st (mv_base m)\<rparr>\<rparr>, rs_owner s, rs_protect s)))"

definition vf_boot_run_memory_dynamic where
  "vf_boot_run_memory_dynamic fuel h a callback control_callback base bytes entry args stack budget initial options control own p result =
     boot_run_memory_dynamic fuel h a callback control_callback base bytes entry args stack budget initial None options control False
       own p result"

definition vf_boot_run_memory_dynamic_pauth where
  "vf_boot_run_memory_dynamic_pauth fuel h a callback control_callback base bytes entry args stack budget initial pauth options control
     own p result =
     boot_run_memory_dynamic fuel h a callback control_callback base bytes entry args stack budget initial pauth options control True
       own p result"

section \<open>Every boot ends within its budget\<close>

text \<open>A boot is refused before the provider or the protection has been touched, or it ends with the status it reports and
  has counted no more instructions than its budget.\<close>

definition boot_outcome :: "'s \<Rightarrow> 'p \<Rightarrow> u64 \<Rightarrow> u32 \<Rightarrow> vf_boot_result_v2 \<Rightarrow> 's \<Rightarrow> 'p \<Rightarrow> bool" where
  "boot_outcome own p budget st e own' p' \<longleftrightarrow>
     (st = VF_DATA_FAULT \<and> own' = own \<and> p' = p)
     \<or> (br_status (br_base e) = st \<and> unat (br_retired (br_base e)) \<le> unat budget)"

lemma boot_refused: "boot_outcome own p budget VF_DATA_FAULT e own p"
  by (simp add: boot_outcome_def)

lemma finish_execution:
  "br_status (br_base (mr_execution (run_result_finish cpu st res))) = st"
  "br_retired (br_base (mr_execution (run_result_finish cpu st res))) = cpu_retired cpu"
  by (simp_all add: run_result_finish_def vf_boot_snapshot_def Let_def)

lemma mapped_wf:
  assumes "mapped_cpu config control base entry stack initial pauth = Some cpu" "\<not> config_rejected config"
    "bo_initial_pstate config AND 15 \<in> {0, 4, 5}"
  shows "cpu_wf cpu" "cpu_retired cpu = 0"
proof -
  let ?el = "if bo_initial_pstate config AND 15 = 0 then VF_EL0 else VF_EL1"
  obtain c1 where c1: "vf_cpu_configure_platform (vf_cpu_reset cpu_zero ?el) (bo_platform_profile config) (bo_initial_override config) = (VF_SYSREG_OK, c1)"
    using assms(1) by (auto simp: mapped_cpu_def split: prod.splits vf_sysreg_result.splits)
  have lines: "ucast (bo_irq_level config) \<le> (1 :: u32)" "ucast (bo_fiq_level config) \<le> (1 :: u32)"
    using assms(2) by (auto simp: config_rejected_def not_less intro!: ucast_flag)
  have wf1: "cpu_wf c1" using platform_wf [OF reset_wf] c1 by (metis snd_conv)
  have f1: "cpu_current_el c1 = ?el" "cpu_retired c1 = 0" using configure_accepted [OF c1] by (simp_all add: vf_cpu_reset_def cpu_zero_def)
  have mode: "mode_ok ?el (bo_initial_pstate config AND 15)" using assms(3) by (auto simp: mode_ok_def)
  have cpu: "cpu = c1\<lparr>cpu_pauth_step := pauth, cpu_pc := entry, cpu_x := map (\<lambda>i. initial ! i) [0..<4] @ drop 4 (cpu_x c1),
      cpu_sp := stack, cpu_sp_el := (cpu_sp_el c1)[0 := stack, 1 := stack], cpu_pstate := bo_initial_pstate config,
      cpu_vbar_el := (cpu_vbar_el c1)[1 := bo_vbar config], cpu_guest_ram_base := base, cpu_sctlr := mc_sctlr control,
      cpu_ttbr0 := mc_ttbr0 control, cpu_ttbr1 := mc_ttbr1 control, cpu_tcr := mc_tcr control, cpu_mair := mc_mair control,
      cpu_hcr_el2 := mc_hcr control, cpu_scr_el3 := mc_scr control, cpu_irq_level := ucast (bo_irq_level config),
      cpu_fiq_level := ucast (bo_fiq_level config)\<rparr>"
    using assms(1) lines unfolding mapped_cpu_def c1 by (simp add: vf_cpu_set_interrupt_lines_def not_less [symmetric])
  show "cpu_wf cpu" using wf1 f1(1) mode by (simp add: cpu cpu_wf_def cpu_fields)
  show "cpu_retired cpu = 0" using f1(2) by (simp add: cpu)
qed

lemma boot_fp_wf:
  assumes "boot_fp fp cpacr cpu = Some cpu'" "cpu_wf cpu" shows "cpu_wf cpu'" "cpu_retired cpu' = cpu_retired cpu"
proof -
  obtain r1 c1 where e: "vf_cpu_enable_fp_research fp cpu = (r1, c1)" by fastforce
  obtain r2 c2 where w: "vf_cpu_write_sysreg c1 VF_SYSREG_KEY_CPACR_EL1 cpacr = (r2, c2)" by fastforce
  have c1: "cpu_wf c1" "cpu_retired c1 = cpu_retired cpu"
    using enable_wf [OF assms(2), of fp] e by (auto simp: vf_cpu_enable_fp_research_def split: if_splits)
  have "cpu_wf c2" "cpu_retired c2 = cpu_retired c1"
    using write_wf [OF c1(1), of VF_SYSREG_KEY_CPACR_EL1 cpacr] write_retired [of c1 VF_SYSREG_KEY_CPACR_EL1 cpacr] w by simp_all
  moreover have "cpu' = c2" using assms(1) e w by (auto simp: boot_fp_def split: rc.splits vf_sysreg_result.splits)
  ultimately show "cpu_wf cpu'" "cpu_retired cpu' = cpu_retired cpu" using c1 by simp_all
qed

lemma boot_v1_ends:
  assumes h: "host_counts h" and fuel: "unat budget < fuel"
  shows "\<exists>st res own' p'. vf_boot_run_memory_v1 fuel cached h a callback base bytes entry args stack budget initial pauth options own p result
      = Some (st, res, own', p') \<and> boot_outcome own p budget st (mr_execution res) own' p'"
proof -
  obtain st0 cpu where b: "vf_cpu_prepare_boot (vf_cpu_reset cpu_zero VF_EL1) bytes base entry args stack initial pauth options budget = (st0, cpu)"
    by fastforce
  show ?thesis
  proof (cases "st0 = VF_NEXT")
    case False
    then show ?thesis using b by (simp add: vf_boot_run_memory_v1_def Let_def boot_refused)
  next
    case True
    note c = prepared_state [OF b [unfolded True]]
    obtain st s where r: "vf_run_memory_provider fuel cached h (unat (bs_code_bytes a)) callback budget cpu own p
        ((run_result_zero 1 192 entry args)\<lparr>mr_provider_status := VF_PROVIDER_OK\<rparr>) = Some (st, s)"
      "unat (cpu_retired (rs_cpu s)) \<le> unat budget"
      using run_v1_returns [OF h _ fuel, of cpu cached "unat (bs_code_bytes a)" callback own p] c by fastforce
    then show ?thesis using b True
      by (simp add: vf_boot_run_memory_v1_def Let_def boot_refused) (simp add: boot_outcome_def finish_execution)
  qed
qed

lemma run_v2_any:
  assumes h: "host_counts h" and wf: "cpu_wf cpu" and fuel: "unat budget < fuel" and z: "cpu_retired cpu = 0"
  obtains st s where "(if allow_pauth then vf_run_memory_provider_pauth_v2 else vf_run_memory_provider_v2)
      fuel cached h capacity control callback budget cpu own p res = Some (st, s)" "unat (cpu_retired (rs_cpu s)) \<le> unat budget"
proof -
  obtain st s where r: "run_memory_provider_v2 fuel cached h capacity control callback budget allow_pauth cpu own p res = Some (st, s)"
    "unat (cpu_retired (rs_cpu s)) \<le> unat budget"
    using run_v2_returns [OF h wf fuel, of cached capacity control callback allow_pauth own p res] z by auto
  have "\<exists>st s. (if allow_pauth then vf_run_memory_provider_pauth_v2 else vf_run_memory_provider_v2)
      fuel cached h capacity control callback budget cpu own p res = Some (st, s) \<and> unat (cpu_retired (rs_cpu s)) \<le> unat budget"
    using r z by (cases allow_pauth)
      (simp_all add: vf_run_memory_provider_pauth_v2_def vf_run_memory_provider_v2_def v2_error_def provider_error_def)
  then show thesis using that by blast
qed

lemma boot_v2_ends:
  assumes h: "host_counts h" and fuel: "unat budget < fuel"
  shows "\<exists>st res own' p'. boot_run_memory_v2 fuel cached h a callback base bytes entry args stack budget initial options control pauth allow_pauth
      allow_fp cpacr own p result = Some (st, res, own', p') \<and> boot_outcome own p budget st (mr_execution (mv_base res)) own' p'"
    (is "?ends")
proof -
  define config where "config = boot_options options"
  let ?boot = "boot_run_memory_v2 fuel cached h a callback base bytes entry args stack budget initial options control pauth allow_pauth allow_fp cpacr own p result"
  let ?res = "\<lparr>mv_base = run_result_zero 2 320 entry args, mv_last_reply = empty_reply 2 0\<rparr>"
  let ?ready = "case mapped_cpu config control base entry stack initial pauth of None \<Rightarrow> None
      | Some cpu \<Rightarrow> if allow_fp then boot_fp (h_fp h) cpacr cpu else Some cpu"
  show ?thesis
  proof (cases "config_rejected config \<or> bo_initial_pstate config AND 15 \<notin> {0, 4, 5} \<or> ?ready = None")
    case True
    then consider "config_rejected config \<or> bo_initial_pstate config AND 15 \<notin> {0, 4, 5}" | "mapped_cpu config control base entry stack initial pauth = None"
      | cpu where "mapped_cpu config control base entry stack initial pauth = Some cpu" "(if allow_fp then boot_fp (h_fp h) cpacr cpu else Some cpu) = None"
      by (cases "mapped_cpu config control base entry stack initial pauth") auto
    then have "?boot = Some (VF_DATA_FAULT, result, own, p) \<or> ?boot = Some (VF_DATA_FAULT, ?res, own, p)"
      unfolding boot_run_memory_v2_def Let_def config_def [symmetric] by cases simp_all
    then show ?thesis using boot_refused by (metis (no_types))
  next
    case False
    then obtain cpu cpu1 where m: "mapped_cpu config control base entry stack initial pauth = Some cpu"
      and f: "(if allow_fp then boot_fp (h_fp h) cpacr cpu else Some cpu) = Some cpu1" by (auto split: option.splits)
    have w: "cpu_wf cpu" "cpu_retired cpu = 0" using mapped_wf [OF m] False by auto
    have w1: "cpu_wf cpu1" "cpu_retired cpu1 = 0" using f w boot_fp_wf [of "h_fp h" cpacr cpu cpu1] by (auto split: if_splits)
    obtain st s where r: "(if allow_pauth then vf_run_memory_provider_pauth_v2 else vf_run_memory_provider_v2) fuel cached h
        (unat (bs_code_bytes a)) control callback budget cpu1 own p (?res\<lparr>mv_base := (mv_base ?res)\<lparr>mr_provider_status := VF_PROVIDER_OK\<rparr>\<rparr>) = Some (st, s)"
      "unat (cpu_retired (rs_cpu s)) \<le> unat budget" by (rule run_v2_any [OF h w1(1) fuel w1(2)])
    have "?boot = Some (VF_DATA_FAULT, result, own, p) \<or> ?boot = Some (VF_DATA_FAULT, ?res, own, p)
        \<or> ?boot = Some (st, (rs_result s)\<lparr>mv_base := run_result_finish (rs_cpu s) st (mv_base (rs_result s))\<rparr>, rs_owner s, rs_protect s)"
      unfolding boot_run_memory_v2_def Let_def config_def [symmetric] m option.case f r by simp
    then show ?thesis using r(2) boot_refused [of own p budget] by (auto simp: boot_outcome_def finish_execution)
  qed
qed

lemma boot_dynamic_ends:
  assumes h: "host_counts h" and fuel: "unat budget < fuel"
  shows "\<exists>st res own' p'. boot_run_memory_dynamic fuel h a callback control_callback base bytes entry args stack budget initial pauth options control
      allow_pauth own p result = Some (st, res, own', p') \<and> boot_outcome own p budget st (mr_execution (mv_base (md_memory res))) own' p'"
proof -
  define config where "config = boot_options options"
  let ?boot = "boot_run_memory_dynamic fuel h a callback control_callback base bytes entry args stack budget initial pauth options control allow_pauth own p result"
  let ?res = "\<lparr>md_memory = \<lparr>mv_base = run_result_zero 3 512 entry args, mv_last_reply = empty_reply 3 0\<rparr>, md_final_control = snapshot_reply_zero\<rparr>"
  show ?thesis
  proof (cases "config_rejected config \<or> bo_initial_pstate config AND 15 \<notin> {4, 5} \<or> mapped_cpu config control base entry stack initial pauth = None")
    case True
    then have "?boot = Some (VF_DATA_FAULT, result, own, p) \<or> ?boot = Some (VF_DATA_FAULT, ?res, own, p)"
      unfolding boot_run_memory_dynamic_def Let_def config_def [symmetric] by auto
    then show ?thesis using boot_refused by (metis (no_types))
  next
    case False
    then obtain cpu where m: "mapped_cpu config control base entry stack initial pauth = Some cpu" by auto
    have w: "cpu_wf cpu" "cpu_retired cpu = 0" using mapped_wf [OF m] False by auto
    obtain st s where r: "vf_run_memory_provider_dynamic fuel h (unat (bs_code_bytes a)) control callback control_callback budget cpu own p
        (?res\<lparr>md_memory := (md_memory ?res)\<lparr>mv_base := (mv_base (md_memory ?res))\<lparr>mr_provider_status := VF_PROVIDER_OK\<rparr>\<rparr>\<rparr>) = Some (st, s)"
      "unat (cpu_retired (rs_cpu s)) \<le> unat budget"
      using run_dynamic_returns [OF h w(1) fuel, of "unat (bs_code_bytes a)" control callback control_callback own p
          "?res\<lparr>md_memory := (md_memory ?res)\<lparr>mv_base := (mv_base (md_memory ?res))\<lparr>mr_provider_status := VF_PROVIDER_OK\<rparr>\<rparr>\<rparr>"] w(2) by auto
    have "?boot = Some (VF_DATA_FAULT, result, own, p) \<or> ?boot = Some (VF_DATA_FAULT, ?res, own, p)
        \<or> ?boot = Some (st, (dy_out (rs_result s))\<lparr>md_memory := (md_memory (dy_out (rs_result s)))\<lparr>mv_base :=
             run_result_finish (rs_cpu s) st (mv_base (md_memory (dy_out (rs_result s))))\<rparr>\<rparr>, rs_owner s, rs_protect s)"
      unfolding boot_run_memory_dynamic_def Let_def config_def [symmetric] m option.case r by simp
    then show ?thesis using r(2) boot_refused [of own p budget] by (auto simp: boot_outcome_def finish_execution)
  qed
qed

text \<open>C23. Every boot ends, whatever the provider, the control service and the page protection do: with one unit of fuel more than
  the budget each of the entries either refuses the request before it has called any of them, or reports in its result
  the status it returns, with no more instructions counted than the budget.\<close>

theorem boot_memory_ends:
  assumes h: "host_counts h" and fuel: "unat budget < fuel"
  shows "(\<exists>st res own' p'. vf_boot_run_memory_v1 fuel cached h a callback1 base bytes entry args stack budget initial pauth options own p result1
        = Some (st, res, own', p') \<and> boot_outcome own p budget st (mr_execution res) own' p')
    \<and> (\<exists>st res own' p'. boot_run_memory_v2 fuel cached h a callback base bytes entry args stack budget initial options control pauth allow_pauth
        allow_fp cpacr own p result2 = Some (st, res, own', p') \<and> boot_outcome own p budget st (mr_execution (mv_base res)) own' p')
    \<and> (\<exists>st res own' p'. boot_run_memory_dynamic fuel h a callback control_callback base bytes entry args stack budget initial pauth options
        control allow_pauth own p result3 = Some (st, res, own', p')
        \<and> boot_outcome own p budget st (mr_execution (mv_base (md_memory res))) own' p')"
  by (intro conjI boot_v1_ends [OF assms] boot_v2_ends [OF assms] boot_dynamic_ends [OF assms])

definition storage_demo :: boot_storage where
  "storage_demo = \<lparr>bs_result = 0x10000, bs_code = 0x20000, bs_code_bytes = 0x1000, bs_initial = 0x30000, bs_options = 0,
     bs_controls = 0x30080, bs_owner = 0x40000\<rparr>"

definition guest_demo :: "nat memory_callback_v1" where
  "guest_demo own q =
     (False, \<lparr>r1_abi_version = 1, r1_struct_size = 80, r1_result = 0, r1_fault = 0,
              r1_value0 = (if q1_pc q < 0x40000108 then 0xd503201f else 0xd4400000), r1_value1 = 0, r1_address = 0, r1_esr = 0,
              r1_epoch = 0, r1_reserved = (0, 0, 0)\<rparr>, own + 1)"

theorem boot_memory_ends_witness:
  "\<exists>res p'. vf_boot_run_memory_v1 9 True host_demo storage_demo guest_demo 0x40000000 0x10000 0x40000100 0x40000000 0x40008000 8 [7, 0, 0, 0]
       None None 0 () (mv_base result_demo) = Some (VF_HALT, res, 3, p') \<and> unat (br_retired (br_base (mr_execution res))) \<le> 8"
proof -
  let ?b = "vf_boot_run_memory_v1 9 True host_demo storage_demo guest_demo 0x40000000 0x10000 0x40000100 0x40000000 0x40008000 8 [7, 0, 0, 0]
       None None (0 :: nat) () (mv_base result_demo)"
  have f: "unat (8 :: u64) < 9" by simp
  have "\<exists>st res own' p'. ?b = Some (st, res, own', p') \<and> boot_outcome 0 () 8 st (mr_execution res) own' p'"
    by (rule boot_memory_ends [OF host_demo_counts f, THEN conjunct1])
  then obtain st res own' p' where b: "?b = Some (st, res, own', p')" "boot_outcome 0 () 8 st (mr_execution res) own' p'" by blast
  have "map_option (\<lambda>(st, _, own', _). (st, own')) ?b = Some (VF_HALT, 3)" by code_simp
  then show ?thesis using b by (auto simp: boot_outcome_def)
qed

end
