(* ===== verification/Bridge.thy ===== *)
theory Bridge
  imports Aic Sart Dart Timer Storage Uart Smc Ans Recovery Nvram Adp Gxf Cpu
begin

text \<open>
  The boot bridge, \<open>src/runtime/preos_bridge.c\<close>: the one place where the device models meet. It owns an instance of every
  device, decodes the guest's accesses by window, checks their widths, hands them to the device, and copies the interrupt
  level of each device onto a line of the interrupt controller after every operation that may have changed it. The PCI
  function drives line 1 through a sink that it calls itself, the guarded execution bank calls a hook that drops the
  translations of a guest processor.

  The structure below holds the static variables of the file. The controller sink and the hook are called in the middle of
  device operations, whose models record these calls; \<^verbatim>\<open>settle_pci\<close> and \<^verbatim>\<open>settle_gxf\<close> carry the recorded calls out on
  the bridge, in their order. Pointers to guest processors are addresses into \<^verbatim>\<open>g_cpus\<close>, 0 is the null pointer; the
  buffers of the Identify command are blocks 0 and 1 of the memory of the NVMe model, and the PCI function is its peer 0.
  The buffer behind the message window is in the PCI model while it is bound. Files are a parameter: opening a path gives a
  block backend or nothing. The flag \<^verbatim>\<open>efi\<close> is the build switch \<^verbatim>\<open>VF_EFI_BUILD\<close>. Out-pointers are taken to be valid.

  Shown: after a reset, whatever the guest and the host do through the bridge, the lines of the controller agree with the
  devices behind them; a refused guest access changes nothing; the bank's permission changes and the flushes of the bound
  processor go together.
\<close>

unbundle bit_operations_syntax

section \<open>State\<close>

abbreviation (input) VF_M1_MMIO_WINDOW_AIC :: nat where "VF_M1_MMIO_WINDOW_AIC \<equiv> 0x1"
abbreviation (input) VF_M1_MMIO_WINDOW_TIMER :: nat where "VF_M1_MMIO_WINDOW_TIMER \<equiv> 0x2"
abbreviation (input) VF_M1_MMIO_WINDOW_DART :: nat where "VF_M1_MMIO_WINDOW_DART \<equiv> 0x3"
abbreviation (input) VF_M1_MMIO_WINDOW_STORAGE :: nat where "VF_M1_MMIO_WINDOW_STORAGE \<equiv> 0x4"
abbreviation (input) VF_M1_MMIO_WINDOW_RECOVERY :: nat where "VF_M1_MMIO_WINDOW_RECOVERY \<equiv> 0x5"
abbreviation (input) VF_M1_MMIO_WINDOW_ADP :: nat where "VF_M1_MMIO_WINDOW_ADP \<equiv> 0x6"
abbreviation (input) VF_M1_MMIO_WINDOW_UART :: nat where "VF_M1_MMIO_WINDOW_UART \<equiv> 0x7"
abbreviation (input) VF_M1_MMIO_WINDOW_SART :: nat where "VF_M1_MMIO_WINDOW_SART \<equiv> 0x8"
abbreviation (input) VF_M1_MMIO_WINDOW_NVRAM :: nat where "VF_M1_MMIO_WINDOW_NVRAM \<equiv> 0x9"
abbreviation (input) VF_M1_MMIO_WINDOW_SMC :: nat where "VF_M1_MMIO_WINDOW_SMC \<equiv> 0xa"
abbreviation (input) VF_M1_MMIO_WINDOW_SEP :: nat where "VF_M1_MMIO_WINDOW_SEP \<equiv> 0xb"
abbreviation (input) VF_M1_SMC_MMIO_MSG_OUT :: nat where "VF_M1_SMC_MMIO_MSG_OUT \<equiv> 0x000"
abbreviation (input) VF_M1_SMC_MMIO_KEY_COUNT :: nat where "VF_M1_SMC_MMIO_KEY_COUNT \<equiv> 0x008"
abbreviation (input) VF_M1_SMC_MMIO_SRAM_ADDR :: nat where "VF_M1_SMC_MMIO_SRAM_ADDR \<equiv> 0x010"
abbreviation (input) VF_M1_SMC_MMIO_MSG_IN :: nat where "VF_M1_SMC_MMIO_MSG_IN \<equiv> 0x018"
abbreviation (input) VF_M1_AIC_IRQ_COUNT :: nat where "VF_M1_AIC_IRQ_COUNT \<equiv> 896"
abbreviation (input) VF_M1_AIC_CPU_COUNT :: nat where "VF_M1_AIC_CPU_COUNT \<equiv> 8"
abbreviation (input) VF_M1_TIMER_IRQ_LINE :: nat where "VF_M1_TIMER_IRQ_LINE \<equiv> 0"
abbreviation (input) VF_M1_STORAGE_IRQ_LINE :: nat where "VF_M1_STORAGE_IRQ_LINE \<equiv> 1"
abbreviation (input) VF_M1_ADP_IRQ_LINE :: nat where "VF_M1_ADP_IRQ_LINE \<equiv> 2"
abbreviation (input) VF_M1_RECOVERY_IRQ_LINE :: nat where "VF_M1_RECOVERY_IRQ_LINE \<equiv> 3"
abbreviation (input) VF_M1_DART_IRQ_LINE :: nat where "VF_M1_DART_IRQ_LINE \<equiv> 4"
abbreviation (input) VF_M1_UART_IRQ_LINE :: nat where "VF_M1_UART_IRQ_LINE \<equiv> 5"
abbreviation (input) VF_M1_SEP_IRQ_LINE :: nat where "VF_M1_SEP_IRQ_LINE \<equiv> 6"
abbreviation (input) VF_SMC_BOOT_KEY_COUNT :: u64 where "VF_SMC_BOOT_KEY_COUNT \<equiv> 6"
abbreviation (input) VF_M1_NVRAM_MMIO_NSID :: nat where "VF_M1_NVRAM_MMIO_NSID \<equiv> 0x000"
abbreviation (input) VF_M1_NVRAM_MMIO_NSTYPE :: nat where "VF_M1_NVRAM_MMIO_NSTYPE \<equiv> 0x004"
abbreviation (input) VF_M1_NVRAM_MMIO_ENV_COUNT :: nat where "VF_M1_NVRAM_MMIO_ENV_COUNT \<equiv> 0x008"
abbreviation (input) VF_M1_NVRAM_MMIO_BOOT_PRESENT :: nat where "VF_M1_NVRAM_MMIO_BOOT_PRESENT \<equiv> 0x00c"
abbreviation (input) VF_M1_NVRAM_MMIO_COMMIT :: nat where "VF_M1_NVRAM_MMIO_COMMIT \<equiv> 0x010"
abbreviation (input) VF_M1_NVRAM_MMIO_APPEND :: nat where "VF_M1_NVRAM_MMIO_APPEND \<equiv> 0x014"
abbreviation (input) VF_M1_ANS_PCI_MSI_GPA_BASE :: u64 where "VF_M1_ANS_PCI_MSI_GPA_BASE \<equiv> 0xfee00000"
abbreviation (input) VF_M1_ANS_PCI_MSI_GPA_SIZE :: nat where "VF_M1_ANS_PCI_MSI_GPA_SIZE \<equiv> 16"

datatype mmio_status = VF_M1_MMIO_OK | VF_M1_MMIO_INVALID | VF_M1_MMIO_WIDTH | VF_M1_MMIO_READONLY | VF_M1_MMIO_UNAVAILABLE

datatype gxf_status = VF_M1_GXF_OK | VF_M1_GXF_INVALID | VF_M1_GXF_UNAVAILABLE

record 's m1_bridge =
  g_aic :: vf_aic_v1
  g_ans :: vf_ans_v1
  g_store :: ans_store
  g_msi_gpa :: "u8 list"
  g_sq_tail :: u16
  g_timer :: vf_timer_v1
  g_storage :: vf_storage_v1
  g_recovery :: vf_recovery_v1
  g_dart :: vf_dart_v1
  g_sart :: vf_sart_v1
  g_nvram :: vf_nvram_v1
  g_blk :: "'s vf_nvram_blk_backend option"
  g_uart :: vf_apple_uart_v1
  g_adp :: vf_adp_display_v1
  g_sep :: vf_sep_mailbox_v1
  g_smc :: vf_smc_v1
  g_smc_last_resp :: u64
  g_gxf :: vf_apple_gxf_v1
  g_tlb_cpu :: u64
  g_cpus :: "u64 \<Rightarrow> vf_cpu"
  g_boot_args :: "u8 list"
  g_boot_args_len :: nat
  g_ready :: bool

definition mmio_width_valid :: "nat \<Rightarrow> bool" where
  "mmio_width_valid w \<longleftrightarrow> w = 8 \<or> w = 16 \<or> w = 32 \<or> w = 64"

text \<open>The verdict of a device on a read and on a write, and the rest of a function after a call that may fail.\<close>

definition word_verdict :: "u32 option \<Rightarrow> mmio_status + u64" where
  "word_verdict r = (case r of None \<Rightarrow> Inl VF_M1_MMIO_INVALID | Some v \<Rightarrow> Inr (ucast v))"

definition dword_verdict :: "u64 option \<Rightarrow> mmio_status + u64" where
  "dword_verdict r = (case r of None \<Rightarrow> Inl VF_M1_MMIO_INVALID | Some v \<Rightarrow> Inr v)"

definition write_verdict :: "rc \<Rightarrow> mmio_status" where
  "write_verdict c = (case c of OK \<Rightarrow> VF_M1_MMIO_OK | ERR \<Rightarrow> VF_M1_MMIO_INVALID)"

definition on_ok :: "rc \<times> 'b \<Rightarrow> ('b \<Rightarrow> rc \<times> 'b) \<Rightarrow> rc \<times> 'b" where
  "on_ok r k = (case r of (OK, b) \<Rightarrow> k b | (ERR, b) \<Rightarrow> (ERR, b))"

section \<open>Lines\<close>

definition sync_line :: "nat \<Rightarrow> bool \<Rightarrow> 's m1_bridge \<Rightarrow> rc \<times> 's m1_bridge" where
  "sync_line irq high b = (case vf_aic_set_line (g_aic b) irq high of (c, a) \<Rightarrow> (c, b\<lparr>g_aic := a\<rparr>))"

definition dart_sync_aic_irq :: "'s m1_bridge \<Rightarrow> rc \<times> 's m1_bridge" where
  "dart_sync_aic_irq b = sync_line VF_M1_DART_IRQ_LINE (vf_dart_irq_pending (g_dart b)) b"
definition uart_sync_aic_irq :: "'s m1_bridge \<Rightarrow> rc \<times> 's m1_bridge" where
  "uart_sync_aic_irq b = sync_line VF_M1_UART_IRQ_LINE (vf_apple_uart_irq_pending (g_uart b)) b"
definition sep_sync_aic_irq :: "'s m1_bridge \<Rightarrow> rc \<times> 's m1_bridge" where
  "sep_sync_aic_irq b = sync_line VF_M1_SEP_IRQ_LINE (vf_sep_mailbox_irq_pending (g_sep b)) b"
definition timer_sync_aic_irq :: "'s m1_bridge \<Rightarrow> rc \<times> 's m1_bridge" where
  "timer_sync_aic_irq b = sync_line VF_M1_TIMER_IRQ_LINE (vf_timer_irq_pending (g_timer b)) b"
definition storage_sync_aic_irq :: "'s m1_bridge \<Rightarrow> rc \<times> 's m1_bridge" where
  "storage_sync_aic_irq b = sync_line VF_M1_STORAGE_IRQ_LINE (vf_storage_irq_pending (g_storage b)) b"
definition recovery_sync_aic_irq :: "'s m1_bridge \<Rightarrow> rc \<times> 's m1_bridge" where
  "recovery_sync_aic_irq b = sync_line VF_M1_RECOVERY_IRQ_LINE (vf_recovery_irq_pending (g_recovery b)) b"
definition adp_sync_aic_irq :: "'s m1_bridge \<Rightarrow> rc \<times> 's m1_bridge" where
  "adp_sync_aic_irq b = sync_line VF_M1_ADP_IRQ_LINE (vf_adp_display_irq_pending (g_adp b)) b"

definition m1_ans_pci_aic_sink :: "nat \<Rightarrow> bool \<Rightarrow> 's m1_bridge \<Rightarrow> rc \<times> 's m1_bridge" where
  "m1_ans_pci_aic_sink irq high b =
     (if \<not> g_ready b then (ERR, b)
      else if irq \<noteq> VF_ANS_PCI_AIC_STORAGE_IRQ_LINE then (ERR, b)
      else sync_line VF_M1_STORAGE_IRQ_LINE high b)"

definition m1_gxf_sprr_guest_tlb_flush :: "u64 \<Rightarrow> u64 \<Rightarrow> 's m1_bridge \<Rightarrow> 's m1_bridge" where
  "m1_gxf_sprr_guest_tlb_flush ctx perm_generation b =
     (let cpu = (if ctx \<noteq> 0 then ctx else g_tlb_cpu b) in
      if cpu = 0 then b else b\<lparr>g_cpus := (g_cpus b)(cpu := vf_cpu_invalidate_tlb (g_cpus b cpu))\<rparr>)"

text \<open>The calls that a device operation has made to the bridge, in order.\<close>

definition sink_calls :: "(nat \<times> bool) list \<Rightarrow> 's m1_bridge \<Rightarrow> 's m1_bridge" where
  "sink_calls calls b = foldl (\<lambda>b (irq, high). snd (m1_ans_pci_aic_sink irq high b)) b calls"

definition g_pci :: "'s m1_bridge \<Rightarrow> vf_ans_pci_v1" where
  "g_pci b = w_pci (g_store b) 0"

definition settle_pci :: "ans_store \<Rightarrow> 's m1_bridge \<Rightarrow> 's m1_bridge" where
  "settle_pci w b = sink_calls (drop (length (pci_aic_log (g_pci b))) (pci_aic_log (w_pci w 0))) (b\<lparr>g_store := w\<rparr>)"

definition settle_gxf :: "vf_apple_gxf_v1 \<Rightarrow> 's m1_bridge \<Rightarrow> 's m1_bridge" where
  "settle_gxf g b =
     foldl (\<lambda>b (fn, ctx, gen). m1_gxf_sprr_guest_tlb_flush ctx gen b) (b\<lparr>g_gxf := g\<rparr>)
       (drop (length (sprr_tlb_flush_calls (g_gxf b))) (sprr_tlb_flush_calls g))"

definition put_pci :: "vf_ans_pci_v1 \<Rightarrow> ans_store \<Rightarrow> ans_store" where
  "put_pci p w = w\<lparr>w_pci := (w_pci w)(0 := p)\<rparr>"

definition pci_call :: "(vf_ans_pci_v1 \<Rightarrow> rc \<times> vf_ans_pci_v1) \<Rightarrow> 's m1_bridge \<Rightarrow> rc \<times> 's m1_bridge" where
  "pci_call f b = (case f (g_pci b) of (c, p) \<Rightarrow> (c, settle_pci (put_pci p (g_store b)) b))"

definition ans_call ::
  "(vf_ans_v1 \<Rightarrow> ans_store \<Rightarrow> rc \<times> vf_ans_v1 \<times> ans_store) \<Rightarrow> 's m1_bridge \<Rightarrow> rc \<times> 's m1_bridge" where
  "ans_call f b = (case f (g_ans b) (g_store b) of (c, a, w) \<Rightarrow> (c, settle_pci w (b\<lparr>g_ans := a\<rparr>)))"

text \<open>Binding the controller starts a new record of calls, with the first one made.\<close>

definition ans_pci_auto_bind_aic :: "'s m1_bridge \<Rightarrow> rc \<times> 's m1_bridge" where
  "ans_pci_auto_bind_aic b =
     (case vf_ans_pci_bind_aic (g_pci b) (Some (\<lambda>_ (irq, high). fst (m1_ans_pci_aic_sink irq high b) = OK)) of
        (c, p) \<Rightarrow> (c, sink_calls (pci_aic_log p) (b\<lparr>g_store := put_pci p (g_store b)\<rparr>)))"

definition ans_pci_auto_bind_msi_gpa :: "'s m1_bridge \<Rightarrow> rc \<times> 's m1_bridge" where
  "ans_pci_auto_bind_msi_gpa b =
     (let zero = replicate VF_M1_ANS_PCI_MSI_GPA_SIZE 0 in
      pci_call (\<lambda>p. vf_ans_pci_bind_msi_gpa p (Some zero) VF_M1_ANS_PCI_MSI_GPA_SIZE VF_M1_ANS_PCI_MSI_GPA_BASE)
        (b\<lparr>g_msi_gpa := zero\<rparr>))"

definition ans_auto_bind_pci :: "'s m1_bridge \<Rightarrow> rc \<times> 's m1_bridge" where
  "ans_auto_bind_pci b = ans_call (\<lambda>a w. (OK, vf_ans_bind_pci a (Some 0) w)) b"

section \<open>Windows\<close>

definition aic_dispatch_read :: "'s m1_bridge \<Rightarrow> nat \<Rightarrow> nat \<Rightarrow> (mmio_status + u64) \<times> 's m1_bridge" where
  "aic_dispatch_read b off w =
     (if \<not> g_ready b then (Inl VF_M1_MMIO_UNAVAILABLE, b)
      else if w \<noteq> 32 then (Inl VF_M1_MMIO_WIDTH, b)
      else case vf_aic_read (g_aic b) 0 off 4 of (r, a) \<Rightarrow> (word_verdict r, b\<lparr>g_aic := a\<rparr>))"

definition aic_dispatch_write :: "'s m1_bridge \<Rightarrow> nat \<Rightarrow> nat \<Rightarrow> u64 \<Rightarrow> mmio_status \<times> 's m1_bridge" where
  "aic_dispatch_write b off w v =
     (if \<not> g_ready b then (VF_M1_MMIO_UNAVAILABLE, b)
      else if w \<noteq> 32 then (VF_M1_MMIO_WIDTH, b)
      else case vf_aic_write (g_aic b) 0 off 4 (ucast v) of (c, a) \<Rightarrow> (write_verdict c, b\<lparr>g_aic := a\<rparr>))"

definition dart_dispatch_read :: "'s m1_bridge \<Rightarrow> nat \<Rightarrow> nat \<Rightarrow> (mmio_status + u64) \<times> 's m1_bridge" where
  "dart_dispatch_read b off w =
     (if \<not> g_ready b then (Inl VF_M1_MMIO_UNAVAILABLE, b)
      else if w \<noteq> 32 then (Inl VF_M1_MMIO_WIDTH, b)
      else case vf_dart_read (g_dart b) off 4 of (r, d) \<Rightarrow> (word_verdict r, b\<lparr>g_dart := d\<rparr>))"

definition dart_dispatch_write :: "'s m1_bridge \<Rightarrow> nat \<Rightarrow> nat \<Rightarrow> u64 \<Rightarrow> mmio_status \<times> 's m1_bridge" where
  "dart_dispatch_write b off w v =
     (if \<not> g_ready b then (VF_M1_MMIO_UNAVAILABLE, b)
      else if w \<noteq> 32 then (VF_M1_MMIO_WIDTH, b)
      else case vf_dart_write (g_dart b) off 4 (ucast v) of
        (ERR, d) \<Rightarrow> (VF_M1_MMIO_INVALID, b\<lparr>g_dart := d\<rparr>)
      | (OK, d) \<Rightarrow>
          if off = VF_DART_REG_ERROR_STATUS then
            (case dart_sync_aic_irq (b\<lparr>g_dart := d\<rparr>) of (c, b1) \<Rightarrow> (write_verdict c, b1))
          else (VF_M1_MMIO_OK, b\<lparr>g_dart := d\<rparr>))"

definition sart_dispatch_read :: "'s m1_bridge \<Rightarrow> nat \<Rightarrow> nat \<Rightarrow> (mmio_status + u64) \<times> 's m1_bridge" where
  "sart_dispatch_read b off w =
     (if \<not> g_ready b then (Inl VF_M1_MMIO_UNAVAILABLE, b)
      else if w \<noteq> 32 then (Inl VF_M1_MMIO_WIDTH, b)
      else case vf_sart_read (g_sart b) off 4 of (r, s) \<Rightarrow> (word_verdict r, b\<lparr>g_sart := s\<rparr>))"

definition sart_dispatch_write :: "'s m1_bridge \<Rightarrow> nat \<Rightarrow> nat \<Rightarrow> u64 \<Rightarrow> mmio_status \<times> 's m1_bridge" where
  "sart_dispatch_write b off w v =
     (if \<not> g_ready b then (VF_M1_MMIO_UNAVAILABLE, b)
      else if w \<noteq> 32 then (VF_M1_MMIO_WIDTH, b)
      else case vf_sart_write (g_sart b) off 4 (ucast v) of (c, s) \<Rightarrow> (write_verdict c, b\<lparr>g_sart := s\<rparr>))"

definition nvram_dispatch_read :: "'s m1_bridge \<Rightarrow> nat \<Rightarrow> nat \<Rightarrow> (mmio_status + u64) \<times> 's m1_bridge" where
  "nvram_dispatch_read b off w =
     (if \<not> g_ready b then (Inl VF_M1_MMIO_UNAVAILABLE, b)
      else if w \<noteq> 32 then (Inl VF_M1_MMIO_WIDTH, b)
      else if off = VF_M1_NVRAM_MMIO_NSID then (Inr (ucast (ns_nsid vf_nvram_get_namespace)), b)
      else if off = VF_M1_NVRAM_MMIO_NSTYPE then (Inr (ucast (ns_nstype vf_nvram_get_namespace)), b)
      else if off = VF_M1_NVRAM_MMIO_ENV_COUNT then (Inr (of_nat (length (nv_env (g_nvram b)))), b)
      else if off = VF_M1_NVRAM_MMIO_BOOT_PRESENT then
        (Inr (case vf_nvram_env_get (g_nvram b) nvram_boot_args of
                None \<Rightarrow> 0 | Some boot_args \<Rightarrow> if boot_args \<noteq> [] then 1 else 0), b)
      else (Inl VF_M1_MMIO_INVALID, b))"

definition storage_dispatch_read :: "'s m1_bridge \<Rightarrow> nat \<Rightarrow> nat \<Rightarrow> (mmio_status + u64) \<times> 's m1_bridge" where
  "storage_dispatch_read b off w =
     (if \<not> g_ready b then (Inl VF_M1_MMIO_UNAVAILABLE, b)
      else case vf_storage_read (g_storage b) off w of (r, s) \<Rightarrow> (dword_verdict r, b\<lparr>g_storage := s\<rparr>))"

definition storage_dispatch_write :: "'s m1_bridge \<Rightarrow> nat \<Rightarrow> nat \<Rightarrow> u64 \<Rightarrow> mmio_status \<times> 's m1_bridge" where
  "storage_dispatch_write b off w v =
     (if \<not> g_ready b then (VF_M1_MMIO_UNAVAILABLE, b) else (VF_M1_MMIO_READONLY, b))"

definition recovery_dispatch_read :: "'s m1_bridge \<Rightarrow> nat \<Rightarrow> nat \<Rightarrow> (mmio_status + u64) \<times> 's m1_bridge" where
  "recovery_dispatch_read b off w =
     (if \<not> g_ready b then (Inl VF_M1_MMIO_UNAVAILABLE, b)
      else case vf_recovery_read (g_recovery b) off w of (r, s) \<Rightarrow> (dword_verdict r, b\<lparr>g_recovery := s\<rparr>))"

definition recovery_dispatch_write :: "'s m1_bridge \<Rightarrow> nat \<Rightarrow> nat \<Rightarrow> u64 \<Rightarrow> mmio_status \<times> 's m1_bridge" where
  "recovery_dispatch_write b off w v =
     (if \<not> g_ready b then (VF_M1_MMIO_UNAVAILABLE, b) else (VF_M1_MMIO_READONLY, b))"

definition timer_dispatch_read :: "'s m1_bridge \<Rightarrow> nat \<Rightarrow> nat \<Rightarrow> (mmio_status + u64) \<times> 's m1_bridge" where
  "timer_dispatch_read b off w =
     (if \<not> g_ready b then (Inl VF_M1_MMIO_UNAVAILABLE, b)
      else case vf_timer_read (g_timer b) off w of (r, t) \<Rightarrow> (dword_verdict r, b\<lparr>g_timer := t\<rparr>))"

definition timer_dispatch_write :: "'s m1_bridge \<Rightarrow> nat \<Rightarrow> nat \<Rightarrow> u64 \<Rightarrow> mmio_status \<times> 's m1_bridge" where
  "timer_dispatch_write b off w v =
     (if \<not> g_ready b then (VF_M1_MMIO_UNAVAILABLE, b)
      else case vf_timer_write (g_timer b) off w v of
        (ERR, t) \<Rightarrow> (VF_M1_MMIO_INVALID, b\<lparr>g_timer := t\<rparr>)
      | (OK, t) \<Rightarrow> (case timer_sync_aic_irq (b\<lparr>g_timer := t\<rparr>) of (c, b1) \<Rightarrow> (write_verdict c, b1)))"

definition adp_dispatch_read :: "'s m1_bridge \<Rightarrow> nat \<Rightarrow> nat \<Rightarrow> (mmio_status + u64) \<times> 's m1_bridge" where
  "adp_dispatch_read b off w =
     (if \<not> g_ready b then (Inl VF_M1_MMIO_UNAVAILABLE, b)
      else case vf_adp_display_read (g_adp b) off w of (r, d) \<Rightarrow> (dword_verdict r, b\<lparr>g_adp := d\<rparr>))"

definition adp_dispatch_write :: "'s m1_bridge \<Rightarrow> nat \<Rightarrow> nat \<Rightarrow> u64 \<Rightarrow> mmio_status \<times> 's m1_bridge" where
  "adp_dispatch_write b off w v =
     (if \<not> g_ready b then (VF_M1_MMIO_UNAVAILABLE, b)
      else case vf_adp_display_write (g_adp b) off w v of
        (ERR, d) \<Rightarrow> (VF_M1_MMIO_INVALID, b\<lparr>g_adp := d\<rparr>)
      | (OK, d) \<Rightarrow> (case adp_sync_aic_irq (b\<lparr>g_adp := d\<rparr>) of (c, b1) \<Rightarrow> (write_verdict c, b1)))"

definition uart_dispatch_read :: "'s m1_bridge \<Rightarrow> nat \<Rightarrow> nat \<Rightarrow> (mmio_status + u64) \<times> 's m1_bridge" where
  "uart_dispatch_read b off w =
     (if \<not> g_ready b then (Inl VF_M1_MMIO_UNAVAILABLE, b)
      else if w \<noteq> 32 then (Inl VF_M1_MMIO_WIDTH, b)
      else case vf_apple_uart_read (g_uart b) off 4 of (r, u) \<Rightarrow> (word_verdict r, b\<lparr>g_uart := u\<rparr>))"

definition uart_dispatch_write :: "'s m1_bridge \<Rightarrow> nat \<Rightarrow> nat \<Rightarrow> u64 \<Rightarrow> mmio_status \<times> 's m1_bridge" where
  "uart_dispatch_write b off w v =
     (if \<not> g_ready b then (VF_M1_MMIO_UNAVAILABLE, b)
      else if w \<noteq> 32 then (VF_M1_MMIO_WIDTH, b)
      else case vf_apple_uart_write (g_uart b) off 4 (ucast v) of
        (ERR, u) \<Rightarrow> (VF_M1_MMIO_INVALID, b\<lparr>g_uart := u\<rparr>)
      | (OK, u) \<Rightarrow> (case uart_sync_aic_irq (b\<lparr>g_uart := u\<rparr>) of (c, b1) \<Rightarrow> (write_verdict c, b1)))"

text \<open>The count that the controller's \<open>#KEY\<close> yields is read into a zeroed word.\<close>

definition smc_dispatch_read :: "bool \<Rightarrow> 's m1_bridge \<Rightarrow> nat \<Rightarrow> nat \<Rightarrow> (mmio_status + u64) \<times> 's m1_bridge" where
  "smc_dispatch_read efi b off w =
     (if \<not> g_ready b then (Inl VF_M1_MMIO_UNAVAILABLE, b)
      else if efi then
        (if off = VF_M1_SMC_MMIO_KEY_COUNT \<and> w = 32 then (Inr VF_SMC_BOOT_KEY_COUNT, b) else (Inl VF_M1_MMIO_UNAVAILABLE, b))
      else if off = VF_M1_SMC_MMIO_MSG_OUT then
        (if w \<noteq> 64 then (Inl VF_M1_MMIO_WIDTH, b) else (Inr (g_smc_last_resp b), b))
      else if off = VF_M1_SMC_MMIO_KEY_COUNT then
        (if w \<noteq> 32 then (Inl VF_M1_MMIO_WIDTH, b)
         else case vf_smc_read_key (g_smc b) VF_SMC_KEY_NKEY 4 of
           (None, s) \<Rightarrow> (Inl VF_M1_MMIO_INVALID, b\<lparr>g_smc := s\<rparr>)
         | (Some (bytes, len), s) \<Rightarrow> (Inr (ucast (get_le32 (splice (replicate 4 0) 0 bytes))), b\<lparr>g_smc := s\<rparr>))
      else if off = VF_M1_SMC_MMIO_SRAM_ADDR then
        (if w \<noteq> 64 then (Inl VF_M1_MMIO_WIDTH, b) else (Inr (smc_sram_addr (g_smc b)), b))
      else (Inl VF_M1_MMIO_INVALID, b))"

definition smc_dispatch_write :: "bool \<Rightarrow> 's m1_bridge \<Rightarrow> nat \<Rightarrow> nat \<Rightarrow> u64 \<Rightarrow> mmio_status \<times> 's m1_bridge" where
  "smc_dispatch_write efi b off w v =
     (if efi then (VF_M1_MMIO_UNAVAILABLE, b)
      else if \<not> g_ready b then (VF_M1_MMIO_UNAVAILABLE, b)
      else if off \<noteq> VF_M1_SMC_MMIO_MSG_IN then (VF_M1_MMIO_READONLY, b)
      else if w \<noteq> 64 then (VF_M1_MMIO_WIDTH, b)
      else case vf_smc_handle_msg (g_smc b) v of (r, s) \<Rightarrow> (VF_M1_MMIO_OK, b\<lparr>g_smc := s, g_smc_last_resp := r\<rparr>))"

definition sep_dispatch_read :: "'s m1_bridge \<Rightarrow> nat \<Rightarrow> nat \<Rightarrow> (mmio_status + u64) \<times> 's m1_bridge" where
  "sep_dispatch_read b off w =
     (if \<not> g_ready b then (Inl VF_M1_MMIO_UNAVAILABLE, b)
      else case vf_sep_mailbox_read (g_sep b) off w of
        (None, s) \<Rightarrow> (Inl VF_M1_MMIO_INVALID, b\<lparr>g_sep := s\<rparr>)
      | (Some v, s) \<Rightarrow>
          if off = VF_SEP_MMIO_MSG_OUT then
            (case sep_sync_aic_irq (b\<lparr>g_sep := s\<rparr>) of
               (ERR, b1) \<Rightarrow> (Inl VF_M1_MMIO_INVALID, b1) | (OK, b1) \<Rightarrow> (Inr v, b1))
          else (Inr v, b\<lparr>g_sep := s\<rparr>))"

definition sep_dispatch_write :: "'s m1_bridge \<Rightarrow> nat \<Rightarrow> nat \<Rightarrow> u64 \<Rightarrow> mmio_status \<times> 's m1_bridge" where
  "sep_dispatch_write b off w v =
     (if \<not> g_ready b then (VF_M1_MMIO_UNAVAILABLE, b)
      else if off \<noteq> VF_SEP_MMIO_MSG_IN then (VF_M1_MMIO_READONLY, b)
      else case vf_sep_mailbox_write (g_sep b) off w v of
        (ERR, s) \<Rightarrow> (VF_M1_MMIO_INVALID, b\<lparr>g_sep := s\<rparr>)
      | (OK, s) \<Rightarrow> (case sep_sync_aic_irq (b\<lparr>g_sep := s\<rparr>) of (c, b1) \<Rightarrow> (write_verdict c, b1)))"

definition clear_boot_args :: "'s m1_bridge \<Rightarrow> 's m1_bridge" where
  "clear_boot_args b = b\<lparr>g_boot_args_len := 0, g_boot_args := (g_boot_args b)[0 := 0]\<rparr>"

definition nvram_dispatch_write :: "'s m1_bridge \<Rightarrow> nat \<Rightarrow> nat \<Rightarrow> u64 \<Rightarrow> mmio_status \<times> 's m1_bridge" where
  "nvram_dispatch_write b off w v =
     (if \<not> g_ready b then (VF_M1_MMIO_UNAVAILABLE, b)
      else if w \<noteq> 32 then (VF_M1_MMIO_WIDTH, b)
      else if off = VF_M1_NVRAM_MMIO_APPEND then
        (if g_boot_args_len b \<ge> VF_NVRAM_ENV_VALUE_MAX - 1 then (VF_M1_MMIO_INVALID, b)
         else let n = g_boot_args_len b in
           (VF_M1_MMIO_OK, b\<lparr>g_boot_args_len := n + 1, g_boot_args := (g_boot_args b)[n := ucast (v AND 0xff), n + 1 := 0]\<rparr>))
      else if off = VF_M1_NVRAM_MMIO_COMMIT then
        (if v \<noteq> 1 then (VF_M1_MMIO_INVALID, b)
         else case vf_nvram_env_set (g_nvram b) nvram_boot_args (cstr (g_boot_args b)) 0 of
           (ERR, n) \<Rightarrow> (VF_M1_MMIO_INVALID, b\<lparr>g_nvram := n\<rparr>)
         | (OK, n) \<Rightarrow> (VF_M1_MMIO_OK, clear_boot_args (b\<lparr>g_nvram := n\<rparr>)))
      else (VF_M1_MMIO_READONLY, b))"

definition vf_m1_guest_mmio_read ::
  "bool \<Rightarrow> nat \<Rightarrow> nat \<Rightarrow> nat \<Rightarrow> 's m1_bridge \<Rightarrow> (mmio_status + u64) \<times> 's m1_bridge" where
  "vf_m1_guest_mmio_read efi window off w b =
     (if \<not> mmio_width_valid w then (Inl VF_M1_MMIO_WIDTH, b)
      else if window = VF_M1_MMIO_WINDOW_AIC then aic_dispatch_read b off w
      else if window = VF_M1_MMIO_WINDOW_TIMER then timer_dispatch_read b off w
      else if window = VF_M1_MMIO_WINDOW_DART then dart_dispatch_read b off w
      else if window = VF_M1_MMIO_WINDOW_STORAGE then storage_dispatch_read b off w
      else if window = VF_M1_MMIO_WINDOW_RECOVERY then recovery_dispatch_read b off w
      else if window = VF_M1_MMIO_WINDOW_ADP then adp_dispatch_read b off w
      else if window = VF_M1_MMIO_WINDOW_UART then uart_dispatch_read b off w
      else if window = VF_M1_MMIO_WINDOW_SART then sart_dispatch_read b off w
      else if window = VF_M1_MMIO_WINDOW_NVRAM then nvram_dispatch_read b off w
      else if window = VF_M1_MMIO_WINDOW_SMC then smc_dispatch_read efi b off w
      else if window = VF_M1_MMIO_WINDOW_SEP then sep_dispatch_read b off w
      else (Inl VF_M1_MMIO_INVALID, b))"

definition vf_m1_guest_mmio_write ::
  "bool \<Rightarrow> nat \<Rightarrow> nat \<Rightarrow> nat \<Rightarrow> u64 \<Rightarrow> 's m1_bridge \<Rightarrow> mmio_status \<times> 's m1_bridge" where
  "vf_m1_guest_mmio_write efi window off w v b =
     (if \<not> mmio_width_valid w then (VF_M1_MMIO_WIDTH, b)
      else if window = VF_M1_MMIO_WINDOW_AIC then aic_dispatch_write b off w v
      else if window = VF_M1_MMIO_WINDOW_TIMER then timer_dispatch_write b off w v
      else if window = VF_M1_MMIO_WINDOW_DART then dart_dispatch_write b off w v
      else if window = VF_M1_MMIO_WINDOW_STORAGE then storage_dispatch_write b off w v
      else if window = VF_M1_MMIO_WINDOW_RECOVERY then recovery_dispatch_write b off w v
      else if window = VF_M1_MMIO_WINDOW_ADP then adp_dispatch_write b off w v
      else if window = VF_M1_MMIO_WINDOW_UART then uart_dispatch_write b off w v
      else if window = VF_M1_MMIO_WINDOW_SART then sart_dispatch_write b off w v
      else if window = VF_M1_MMIO_WINDOW_NVRAM then nvram_dispatch_write b off w v
      else if window = VF_M1_MMIO_WINDOW_SMC then smc_dispatch_write efi b off w v
      else if window = VF_M1_MMIO_WINDOW_SEP then sep_dispatch_write b off w v
      else (VF_M1_MMIO_INVALID, b))"

section \<open>Reset\<close>

text \<open>The initialisation of each part, in the order of the function: a part that fails to initialise ends the reset.
  The bridge has one PCI function; the store, which could hold several, starts from it everywhere.\<close>

definition reset_parts :: "bool \<Rightarrow> ('s m1_bridge \<Rightarrow> rc \<times> 's m1_bridge) list" where
  "reset_parts efi =
     [\<lambda>b. case vf_aic_init (g_aic b) VF_M1_AIC_IRQ_COUNT VF_M1_AIC_CPU_COUNT of (c, a) \<Rightarrow> (c, b\<lparr>g_aic := a\<rparr>),
      \<lambda>b. case vf_ans_pci_init (g_pci b) of (c, p) \<Rightarrow> (c, b\<lparr>g_store := (g_store b)\<lparr>w_pci := \<lambda>_. p\<rparr>\<rparr>),
      \<lambda>b. case vf_ans_init (g_ans b) of (c, a) \<Rightarrow> (c, b\<lparr>g_ans := a\<rparr>),
      \<lambda>b. (OK, b\<lparr>g_sq_tail := 0,
             g_store := (g_store b)\<lparr>w_mem := (w_mem (g_store b))(0 := replicate VF_ANS_ID_CTRL_SIZE 0, 1 := replicate VF_ANS_CQE_SIZE 0)\<rparr>\<rparr>),
      \<lambda>b. case vf_timer_init (g_timer b) of (c, t) \<Rightarrow> (c, b\<lparr>g_timer := t\<rparr>),
      \<lambda>b. case vf_storage_init (g_storage b) of (c, s) \<Rightarrow> (c, b\<lparr>g_storage := s\<rparr>),
      \<lambda>b. case vf_recovery_init (g_recovery b) of (c, r) \<Rightarrow> (c, b\<lparr>g_recovery := r\<rparr>),
      \<lambda>b. case vf_dart_init (g_dart b) of (c, d) \<Rightarrow> (c, b\<lparr>g_dart := d\<rparr>),
      \<lambda>b. case vf_sart_init (g_sart b) VF_SART_VERSION_1 of (c, s) \<Rightarrow> (c, b\<lparr>g_sart := s\<rparr>),
      \<lambda>b. case vf_nvram_init (g_nvram b) of (c, n) \<Rightarrow> (c, b\<lparr>g_nvram := n\<rparr>),
      \<lambda>b. if efi then (OK, b) else case vf_smc_init (g_smc b) of (c, s) \<Rightarrow> (c, b\<lparr>g_smc_last_resp := 0, g_smc := s\<rparr>),
      \<lambda>b. case vf_apple_uart_init (g_uart b) False of (c, u) \<Rightarrow> (c, b\<lparr>g_uart := u\<rparr>),
      \<lambda>b. case vf_adp_display_init (g_adp b) of (c, d) \<Rightarrow> (c, b\<lparr>g_adp := d\<rparr>),
      \<lambda>b. case vf_sep_mailbox_init (g_sep b) of (c, s) \<Rightarrow> (c, b\<lparr>g_sep := s\<rparr>),
      \<lambda>b. case vf_apple_gxf_init (g_gxf b) of (c, g) \<Rightarrow> (c, b\<lparr>g_gxf := g\<rparr>)]"

definition run_parts :: "('b \<Rightarrow> rc \<times> 'b) list \<Rightarrow> 'b \<Rightarrow> rc \<times> 'b" where
  "run_parts fs b = foldl on_ok (OK, b) fs"

text \<open>The number of the bridge's hook in the bank; the processor bound to it survives a reset.\<close>

abbreviation (input) SPRR_GUEST_TLB_FLUSH :: nat where "SPRR_GUEST_TLB_FLUSH \<equiv> 0"

definition arm_sprr_hook :: "u64 \<Rightarrow> 's m1_bridge \<Rightarrow> 's m1_bridge" where
  "arm_sprr_hook cpu b = b\<lparr>g_gxf := vf_apple_gxf_set_sprr_tlb_flush (g_gxf b) (Some SPRR_GUEST_TLB_FLUSH) cpu\<rparr>"

definition vf_m1_guest_mmio_reset :: "bool \<Rightarrow> 's m1_bridge \<Rightarrow> 's m1_bridge" where
  "vf_m1_guest_mmio_reset efi b =
     (case run_parts (reset_parts efi) ((clear_boot_args (b\<lparr>g_ready := False\<rparr>))\<lparr>g_blk := None\<rparr>) of
        (ERR, b1) \<Rightarrow> b1
      | (OK, b1) \<Rightarrow>
          (case run_parts [sep_sync_aic_irq, ans_auto_bind_pci, ans_pci_auto_bind_aic, ans_pci_auto_bind_msi_gpa]
                  ((arm_sprr_hook (g_tlb_cpu b1) b1)\<lparr>g_ready := True\<rparr>) of
             (OK, b2) \<Rightarrow> b2
           | (ERR, b2) \<Rightarrow> b2\<lparr>g_ready := False\<rparr>))"

section \<open>Host operations\<close>

text \<open>Every operation is refused with the error of its result type before a successful reset.\<close>

definition if_ready :: "('s m1_bridge \<Rightarrow> rc \<times> 's m1_bridge) \<Rightarrow> 's m1_bridge \<Rightarrow> rc \<times> 's m1_bridge" where
  "if_ready f b = (if \<not> g_ready b then (ERR, b) else f b)"

definition vf_m1_guest_aic_set_line :: "nat \<Rightarrow> bool \<Rightarrow> 's m1_bridge \<Rightarrow> rc \<times> 's m1_bridge" where
  "vf_m1_guest_aic_set_line irq high = if_ready (sync_line irq high)"

definition vf_m1_guest_dart_simulate_fault :: "nat \<Rightarrow> u32 \<Rightarrow> 's m1_bridge \<Rightarrow> rc \<times> 's m1_bridge" where
  "vf_m1_guest_dart_simulate_fault sid code = if_ready (\<lambda>b.
     on_ok (case vf_dart_simulate_fault (g_dart b) sid code of (c, d) \<Rightarrow> (c, b\<lparr>g_dart := d\<rparr>)) dart_sync_aic_irq)"

definition vf_m1_guest_dart_tlb_generation :: "'s m1_bridge \<Rightarrow> u32" where
  "vf_m1_guest_dart_tlb_generation b = (if \<not> g_ready b then 0 else vf_dart_tlb_generation (g_dart b))"

definition vf_m1_guest_sart_generation :: "'s m1_bridge \<Rightarrow> u32" where
  "vf_m1_guest_sart_generation b = (if \<not> g_ready b then 0 else vf_sart_generation (g_sart b))"

definition vf_m1_guest_sart_translate :: "u64 \<Rightarrow> 's m1_bridge \<Rightarrow> int \<times> u64 option \<times> nat option" where
  "vf_m1_guest_sart_translate iova b = (if \<not> g_ready b then (- 1, None, None) else vf_sart_translate (g_sart b) iova)"

definition vf_m1_guest_uart_push_rx :: "u8 \<Rightarrow> 's m1_bridge \<Rightarrow> rc \<times> 's m1_bridge" where
  "vf_m1_guest_uart_push_rx byte = if_ready (\<lambda>b.
     on_ok (case vf_apple_uart_push_rx (g_uart b) byte of (c, u) \<Rightarrow> (c, b\<lparr>g_uart := u\<rparr>)) uart_sync_aic_irq)"

definition vf_m1_guest_timer_advance :: "u64 \<Rightarrow> 's m1_bridge \<Rightarrow> rc \<times> 's m1_bridge" where
  "vf_m1_guest_timer_advance ticks = if_ready (\<lambda>b.
     on_ok (case vf_timer_advance (g_timer b) ticks of (c, t) \<Rightarrow> (c, b\<lparr>g_timer := t\<rparr>)) timer_sync_aic_irq)"

definition vf_m1_guest_storage_attach :: "u64 \<Rightarrow> bool \<Rightarrow> 's m1_bridge \<Rightarrow> rc \<times> 's m1_bridge" where
  "vf_m1_guest_storage_attach block_count read_only = if_ready (\<lambda>b.
     on_ok (case vf_storage_attach (g_storage b) block_count read_only of (c, s) \<Rightarrow> (c, b\<lparr>g_storage := s\<rparr>)) storage_sync_aic_irq)"

definition vf_m1_guest_storage_detach :: "'s m1_bridge \<Rightarrow> rc \<times> 's m1_bridge" where
  "vf_m1_guest_storage_detach = if_ready (\<lambda>b.
     on_ok (case vf_storage_detach (g_storage b) of (c, s) \<Rightarrow> (c, b\<lparr>g_storage := s\<rparr>)) storage_sync_aic_irq)"

definition vf_m1_guest_recovery_ingest :: "u8 list \<Rightarrow> 's m1_bridge \<Rightarrow> rc \<times> 's m1_bridge" where
  "vf_m1_guest_recovery_ingest frame = if_ready (\<lambda>b.
     on_ok (case vf_recovery_ingest (g_recovery b) (Some frame) of
              (e, r) \<Rightarrow> (if e = None then OK else ERR, b\<lparr>g_recovery := r\<rparr>)) recovery_sync_aic_irq)"

definition vf_m1_guest_recovery_clear :: "'s m1_bridge \<Rightarrow> rc \<times> 's m1_bridge" where
  "vf_m1_guest_recovery_clear = if_ready (\<lambda>b.
     on_ok (case vf_recovery_clear_ready (g_recovery b) of (c, r) \<Rightarrow> (c, b\<lparr>g_recovery := r\<rparr>)) recovery_sync_aic_irq)"

definition vf_m1_guest_adp_configure :: "u64 \<Rightarrow> u64 \<Rightarrow> u32 \<Rightarrow> u32 \<Rightarrow> u32 \<Rightarrow> 's m1_bridge \<Rightarrow> rc \<times> 's m1_bridge" where
  "vf_m1_guest_adp_configure guest_address backing_bytes width height stride = if_ready (\<lambda>b.
     on_ok (case vf_adp_display_configure (g_adp b) guest_address backing_bytes width height stride of
              (c, d) \<Rightarrow> (c, b\<lparr>g_adp := d\<rparr>)) adp_sync_aic_irq)"

subsection \<open>The PCI function and the NVMe controller\<close>

definition vf_m1_guest_ans_pci_bind_aic :: "'s m1_bridge \<Rightarrow> rc \<times> 's m1_bridge" where
  "vf_m1_guest_ans_pci_bind_aic = if_ready ans_pci_auto_bind_aic"

definition vf_m1_guest_ans_pci_unbind_aic :: "'s m1_bridge \<Rightarrow> rc \<times> 's m1_bridge" where
  "vf_m1_guest_ans_pci_unbind_aic = if_ready (pci_call (\<lambda>p. vf_ans_pci_bind_aic p None))"

definition vf_m1_guest_ans_pci_set_irq :: "bool \<Rightarrow> 's m1_bridge \<Rightarrow> rc \<times> 's m1_bridge" where
  "vf_m1_guest_ans_pci_set_irq level = if_ready (pci_call (\<lambda>p. vf_ans_pci_set_irq p level))"

definition vf_m1_guest_ans_pci_delivery_pending :: "'s m1_bridge \<Rightarrow> bool" where
  "vf_m1_guest_ans_pci_delivery_pending b = (if \<not> g_ready b then False else vf_ans_pci_delivery_pending (g_pci b))"
definition vf_m1_guest_ans_pci_aic_sync_seen :: "'s m1_bridge \<Rightarrow> bool" where
  "vf_m1_guest_ans_pci_aic_sync_seen b = (if \<not> g_ready b then False else vf_ans_pci_aic_sync_seen (g_pci b))"
definition vf_m1_guest_ans_pci_aic_line_high :: "'s m1_bridge \<Rightarrow> bool" where
  "vf_m1_guest_ans_pci_aic_line_high b = (if \<not> g_ready b then False else vf_ans_pci_aic_line_high (g_pci b))"

definition vf_m1_guest_ans_pci_bind_msi_gpa :: "'s m1_bridge \<Rightarrow> rc \<times> 's m1_bridge" where
  "vf_m1_guest_ans_pci_bind_msi_gpa = if_ready ans_pci_auto_bind_msi_gpa"

text \<open>The bytes of the message buffer: those the PCI model holds while the window is bound, kept when it is unbound.\<close>

definition msi_gpa_bytes :: "'s m1_bridge \<Rightarrow> u8 list" where
  "msi_gpa_bytes b = (case msi_gpa_mem (g_pci b) of Some m \<Rightarrow> m | None \<Rightarrow> g_msi_gpa b)"

definition vf_m1_guest_ans_pci_unbind_msi_gpa :: "'s m1_bridge \<Rightarrow> rc \<times> 's m1_bridge" where
  "vf_m1_guest_ans_pci_unbind_msi_gpa = if_ready (\<lambda>b.
     pci_call (\<lambda>p. vf_ans_pci_bind_msi_gpa p None 0 0) (b\<lparr>g_msi_gpa := msi_gpa_bytes b\<rparr>))"

definition vf_m1_guest_ans_pci_msi_gpa_bound :: "'s m1_bridge \<Rightarrow> int" where
  "vf_m1_guest_ans_pci_msi_gpa_bound b =
     (if \<not> g_ready b then - 1 else if vf_ans_pci_msi_gpa_bound (g_pci b) then 1 else 0)"

definition vf_m1_guest_ans_pci_prepare_msi :: "bool \<Rightarrow> u64 \<Rightarrow> u16 \<Rightarrow> 's m1_bridge \<Rightarrow> rc \<times> 's m1_bridge" where
  "vf_m1_guest_ans_pci_prepare_msi enable addr data = if_ready (\<lambda>b.
     if \<not> enable then pci_call (\<lambda>p. vf_ans_pci_write p VF_ANS_PCI_MMIO_MSI_CTRL 32 0) b
     else let use_addr = (if addr \<noteq> 0 then addr else VF_M1_ANS_PCI_MSI_GPA_BASE) in
       run_parts [pci_call (\<lambda>p. vf_ans_pci_write p VF_ANS_PCI_MMIO_MSI_ADDR 64 use_addr),
                  pci_call (\<lambda>p. vf_ans_pci_write p VF_ANS_PCI_MMIO_MSI_DATA 32 (ucast data)),
                  pci_call (\<lambda>p. vf_ans_pci_write p VF_ANS_PCI_MMIO_MSI_CTRL 32 VF_ANS_PCI_MSI_ENABLE)] b)"

definition vf_m1_guest_ans_pci_msi_message_written :: "'s m1_bridge \<Rightarrow> bool" where
  "vf_m1_guest_ans_pci_msi_message_written b = (if \<not> g_ready b then False else vf_ans_pci_msi_message_written (g_pci b))"

definition vf_m1_guest_ans_pci_msi_gpa_byte :: "u32 \<Rightarrow> 's m1_bridge \<Rightarrow> int" where
  "vf_m1_guest_ans_pci_msi_gpa_byte off b =
     (if \<not> g_ready b then - 1
      else if unat off \<ge> VF_M1_ANS_PCI_MSI_GPA_SIZE then - 1
      else uint (msi_gpa_bytes b ! unat off))"

definition vf_m1_guest_ans_pci_prepare_msix :: "bool \<Rightarrow> u8 \<Rightarrow> 's m1_bridge \<Rightarrow> rc \<times> 's m1_bridge" where
  "vf_m1_guest_ans_pci_prepare_msix enable table_bir = if_ready (\<lambda>b.
     if \<not> enable then pci_call (\<lambda>p. vf_ans_pci_write p VF_ANS_PCI_MMIO_MSIX_CTRL 32 0) b
     else run_parts [pci_call (\<lambda>p. vf_ans_pci_write p VF_ANS_PCI_MMIO_MSIX_TABLE_BIR 32
                                     (ucast table_bir AND VF_ANS_PCI_MSIX_BIR_MASK)),
                     pci_call (\<lambda>p. vf_ans_pci_write p VF_ANS_PCI_MMIO_MSIX_CTRL 32 VF_ANS_PCI_MSIX_ENABLE)] b)"

definition vf_m1_guest_ans_pci_msix_pending :: "'s m1_bridge \<Rightarrow> bool" where
  "vf_m1_guest_ans_pci_msix_pending b = (if \<not> g_ready b then False else vf_ans_pci_msix_pending (g_pci b))"

definition vf_m1_guest_ans_bind_pci :: "'s m1_bridge \<Rightarrow> rc \<times> 's m1_bridge" where
  "vf_m1_guest_ans_bind_pci = if_ready ans_auto_bind_pci"

definition vf_m1_guest_ans_unbind_pci :: "'s m1_bridge \<Rightarrow> rc \<times> 's m1_bridge" where
  "vf_m1_guest_ans_unbind_pci = if_ready (ans_call (\<lambda>a w. (OK, vf_ans_bind_pci a None w)))"

definition vf_m1_guest_ans_enable_identify_path :: "'s m1_bridge \<Rightarrow> rc \<times> 's m1_bridge" where
  "vf_m1_guest_ans_enable_identify_path = if_ready
     (run_parts [pci_call vf_ans_pci_enable_memory_bus_master,
                 ans_call (\<lambda>a. vf_ans_write a VF_ANS_REG_CC 4 0),
                 ans_call (\<lambda>a. vf_ans_write a VF_ANS_REG_CC 4 VF_ANS_CC_EN),
                 \<lambda>b. (OK, b\<lparr>g_sq_tail := 0\<rparr>)])"

text \<open>The two buffers are filled with patterns first, so that what a completion leaves in them is seen.\<close>

definition vf_m1_guest_ans_submit_admin_identify :: "'s m1_bridge \<Rightarrow> rc \<times> 's m1_bridge" where
  "vf_m1_guest_ans_submit_admin_identify = if_ready (\<lambda>b.
     let next_tail = (g_sq_tail b + 1) AND ucast VF_ANS_DB_VALUE_MASK in
     run_parts [\<lambda>b. (OK, b\<lparr>g_store := (g_store b)\<lparr>w_mem := (w_mem (g_store b))
                      (0 := replicate VF_ANS_ID_CTRL_SIZE 0xA5, 1 := replicate VF_ANS_CQE_SIZE 0x5A)\<rparr>\<rparr>),
                \<lambda>b. case vf_ans_arm_admin_identify (g_ans b) VF_ANS_OPC_IDENTIFY VF_ANS_ID_CNS_CTRL
                      (Some 0) VF_ANS_ID_CTRL_SIZE (Some 1) VF_ANS_CQE_SIZE of (c, a) \<Rightarrow> (c, b\<lparr>g_ans := a\<rparr>),
                ans_call (\<lambda>a. vf_ans_write a VF_ANS_DB_BASE 4 (ucast next_tail)),
                \<lambda>b. (OK, b\<lparr>g_sq_tail := next_tail\<rparr>)] b)"

definition vf_m1_guest_ans_irq_check :: "'s m1_bridge \<Rightarrow> bool" where
  "vf_m1_guest_ans_irq_check b = (if \<not> g_ready b then False else vf_ans_irq_check (g_ans b))"

definition vf_m1_guest_ans_mask_admin_irq :: "bool \<Rightarrow> 's m1_bridge \<Rightarrow> rc \<times> 's m1_bridge" where
  "vf_m1_guest_ans_mask_admin_irq masked = if_ready
     (ans_call (\<lambda>a. vf_ans_write a (if masked then VF_ANS_REG_INTMS else VF_ANS_REG_INTMC) 4 VF_ANS_IRQ_ADMIN_CQ))"

definition vf_m1_guest_ans_drain_admin_cq :: "'s m1_bridge \<Rightarrow> rc \<times> 's m1_bridge" where
  "vf_m1_guest_ans_drain_admin_cq = if_ready (\<lambda>b.
     ans_call (\<lambda>a. vf_ans_write a (VF_ANS_DB_BASE + 4) 4 (of_nat (vf_ans_admin_cq_tail (g_ans b)))) b)"

subsection \<open>NVRAM and its image\<close>

text \<open>No result means that parsing the bank has read past the end of the buffer, as in the model of the parser.\<close>

definition nvram_loaded :: "(rc \<times> vf_nvram_v1) option \<Rightarrow> 's m1_bridge \<Rightarrow> (rc \<times> 's m1_bridge) option" where
  "nvram_loaded out b = map_option (\<lambda>(c, n). on_ok (c, b\<lparr>g_nvram := n\<rparr>) (\<lambda>b1. (OK, clear_boot_args b1))) out"

definition vf_m1_guest_nvram_ingest_bank :: "u8 list \<Rightarrow> nat \<Rightarrow> 's m1_bridge \<Rightarrow> (rc \<times> 's m1_bridge) option" where
  "vf_m1_guest_nvram_ingest_bank buf len b =
     (if \<not> g_ready b then Some (ERR, b) else nvram_loaded (vf_nvram_ingest_bank (g_nvram b) buf len) b)"

definition vf_m1_guest_nvram_load_from_blk :: "'t vf_nvram_blk_backend \<Rightarrow> 's m1_bridge \<Rightarrow> (rc \<times> 's m1_bridge) option" where
  "vf_m1_guest_nvram_load_from_blk blk b =
     (if \<not> g_ready b then Some (ERR, b) else nvram_loaded (vf_nvram_load_from_blk (g_nvram b) blk) b)"

definition vf_m1_guest_nvram_attach_research_image ::
  "(u8 list \<Rightarrow> 's vf_nvram_blk_backend option) \<Rightarrow> u8 list \<Rightarrow> 's m1_bridge \<Rightarrow> (rc \<times> 's m1_bridge) option" where
  "vf_m1_guest_nvram_attach_research_image open_path path b =
     (if \<not> g_ready b \<or> path = [] then Some (ERR, b)
      else case open_path path of
        None \<Rightarrow> Some (ERR, b\<lparr>g_blk := None\<rparr>)
      | Some blk \<Rightarrow>
          map_option (\<lambda>(c, b1). if c = ERR then (ERR, b1\<lparr>g_blk := None\<rparr>) else (c, b1))
            (nvram_loaded (vf_nvram_load_from_blk (g_nvram b) blk) (b\<lparr>g_blk := Some blk\<rparr>)))"

definition vf_m1_guest_nvram_detach_blk :: "'s m1_bridge \<Rightarrow> rc \<times> 's m1_bridge" where
  "vf_m1_guest_nvram_detach_blk = if_ready (\<lambda>b. (OK, b\<lparr>g_blk := None\<rparr>))"

definition vf_m1_guest_nvram_save_to_attached :: "'s m1_bridge \<Rightarrow> rc \<times> 's m1_bridge" where
  "vf_m1_guest_nvram_save_to_attached = if_ready (\<lambda>b.
     case g_blk b of None \<Rightarrow> (ERR, b)
     | Some blk \<Rightarrow> (case vf_nvram_save_to_blk (g_nvram b) blk of (c, blk1) \<Rightarrow> (c, b\<lparr>g_blk := Some blk1\<rparr>)))"

definition vf_m1_guest_nvram_boot_args_handoff :: "u8 list \<Rightarrow> 's m1_bridge \<Rightarrow> nat option \<times> u8 list" where
  "vf_m1_guest_nvram_boot_args_handoff out b =
     (if \<not> g_ready b then (None, out) else vf_nvram_boot_args_handoff (g_nvram b) out)"

subsection \<open>The guarded execution bank\<close>

definition gxf_verdict :: "rc \<Rightarrow> gxf_status" where
  "gxf_verdict c = (case c of OK \<Rightarrow> VF_M1_GXF_OK | ERR \<Rightarrow> VF_M1_GXF_INVALID)"

definition gxf_pc_verdict :: "u64 option \<Rightarrow> gxf_status + u64" where
  "gxf_pc_verdict r = (case r of None \<Rightarrow> Inl VF_M1_GXF_INVALID | Some pc \<Rightarrow> Inr pc)"

text \<open>An operation of the bank that yields a program counter.\<close>

definition gxf_jump ::
  "(vf_apple_gxf_v1 \<Rightarrow> u64 option \<times> vf_apple_gxf_v1) \<Rightarrow> 's m1_bridge \<Rightarrow> (gxf_status + u64) \<times> 's m1_bridge" where
  "gxf_jump f b =
     (if \<not> g_ready b then (Inl VF_M1_GXF_UNAVAILABLE, b)
      else case f (g_gxf b) of (r, g) \<Rightarrow> (gxf_pc_verdict r, settle_gxf g b))"

definition vf_m1_guest_gxf_read :: "u32 \<Rightarrow> 's m1_bridge \<Rightarrow> gxf_status + u64" where
  "vf_m1_guest_gxf_read reg b =
     (if \<not> g_ready b then Inl VF_M1_GXF_UNAVAILABLE else gxf_pc_verdict (vf_apple_gxf_read (g_gxf b) reg))"

definition vf_m1_guest_gxf_write_el :: "u32 \<Rightarrow> u64 \<Rightarrow> nat \<Rightarrow> 's m1_bridge \<Rightarrow> gxf_status \<times> 's m1_bridge" where
  "vf_m1_guest_gxf_write_el reg v el b =
     (if \<not> g_ready b then (VF_M1_GXF_UNAVAILABLE, b)
      else case vf_apple_gxf_write_el (g_gxf b) reg v el of (c, g) \<Rightarrow> (gxf_verdict c, settle_gxf g b))"

definition vf_m1_guest_gxf_write :: "u32 \<Rightarrow> u64 \<Rightarrow> 's m1_bridge \<Rightarrow> gxf_status \<times> 's m1_bridge" where
  "vf_m1_guest_gxf_write reg v b = vf_m1_guest_gxf_write_el reg v 1 b"

definition vf_m1_guest_gxf_genter :: "u64 \<Rightarrow> u64 \<Rightarrow> 's m1_bridge \<Rightarrow> (gxf_status + u64) \<times> 's m1_bridge" where
  "vf_m1_guest_gxf_genter return_pc spsr = gxf_jump (\<lambda>g. vf_apple_gxf_genter g return_pc spsr)"
definition vf_m1_guest_gxf_abort :: "u64 \<Rightarrow> u64 \<Rightarrow> u64 \<Rightarrow> u64 \<Rightarrow> 's m1_bridge \<Rightarrow> (gxf_status + u64) \<times> 's m1_bridge" where
  "vf_m1_guest_gxf_abort return_pc spsr esr far = gxf_jump (\<lambda>g. vf_apple_gxf_abort g return_pc spsr esr far)"
definition vf_m1_guest_gxf_take_exception ::
  "nat \<Rightarrow> nat \<Rightarrow> u64 \<Rightarrow> u64 \<Rightarrow> u64 \<Rightarrow> u64 \<Rightarrow> 's m1_bridge \<Rightarrow> (gxf_status + u64) \<times> 's m1_bridge" where
  "vf_m1_guest_gxf_take_exception kind tbl return_pc spsr esr far =
     gxf_jump (\<lambda>g. vf_apple_gxf_take_exception g kind tbl return_pc spsr esr far)"
definition vf_m1_guest_gxf_gexit :: "'s m1_bridge \<Rightarrow> (gxf_status + u64) \<times> 's m1_bridge" where
  "vf_m1_guest_gxf_gexit = gxf_jump vf_apple_gxf_gexit"
definition vf_m1_guest_gxf_tcg_classify :: "u32 \<Rightarrow> gxf_tcg_kind" where
  "vf_m1_guest_gxf_tcg_classify insn = vf_apple_gxf_tcg_classify insn"
definition vf_m1_guest_gxf_tcg_exec :: "u32 \<Rightarrow> nat \<Rightarrow> u64 \<Rightarrow> u64 \<Rightarrow> 's m1_bridge \<Rightarrow> (gxf_status + u64) \<times> 's m1_bridge" where
  "vf_m1_guest_gxf_tcg_exec insn el return_pc spsr = gxf_jump (\<lambda>g. vf_apple_gxf_tcg_exec g insn el return_pc spsr)"

definition vf_m1_guest_gxf_set_hcr_el2 :: "u64 \<Rightarrow> 's m1_bridge \<Rightarrow> gxf_status \<times> 's m1_bridge" where
  "vf_m1_guest_gxf_set_hcr_el2 v b =
     (if \<not> g_ready b then (VF_M1_GXF_UNAVAILABLE, b)
      else (VF_M1_GXF_OK, b\<lparr>g_gxf := vf_apple_gxf_set_hcr_el2 (g_gxf b) v\<rparr>))"
definition vf_m1_guest_gxf_set_vmsa_lock_el1 :: "u64 \<Rightarrow> 's m1_bridge \<Rightarrow> gxf_status \<times> 's m1_bridge" where
  "vf_m1_guest_gxf_set_vmsa_lock_el1 v b =
     (if \<not> g_ready b then (VF_M1_GXF_UNAVAILABLE, b)
      else (VF_M1_GXF_OK, b\<lparr>g_gxf := vf_apple_gxf_set_vmsa_lock_el1 (g_gxf b) v\<rparr>))"
definition vf_m1_guest_gxf_sprr_perm_generation :: "'s m1_bridge \<Rightarrow> u64" where
  "vf_m1_guest_gxf_sprr_perm_generation b = (if \<not> g_ready b then 0 else vf_apple_gxf_sprr_perm_generation (g_gxf b))"
definition vf_m1_guest_gxf_sprr_tlb_flush_count :: "'s m1_bridge \<Rightarrow> u64" where
  "vf_m1_guest_gxf_sprr_tlb_flush_count b = (if \<not> g_ready b then 0 else vf_apple_gxf_sprr_tlb_flush_count (g_gxf b))"

definition vf_m1_guest_gxf_bind_guest_tlb :: "u64 \<Rightarrow> 's m1_bridge \<Rightarrow> gxf_status \<times> 's m1_bridge" where
  "vf_m1_guest_gxf_bind_guest_tlb cpu b =
     (let b1 = b\<lparr>g_tlb_cpu := cpu\<rparr> in
      if \<not> g_ready b1 then (VF_M1_GXF_UNAVAILABLE, b1) else (VF_M1_GXF_OK, arm_sprr_hook cpu b1))"
definition vf_m1_guest_gxf_guest_tlb_generation :: "'s m1_bridge \<Rightarrow> u64" where
  "vf_m1_guest_gxf_guest_tlb_generation b =
     (if g_tlb_cpu b = 0 then 0 else cpu_tlb_generation (g_cpus b (g_tlb_cpu b)))"

section \<open>Runs of the bridge\<close>

datatype (plugins only: size) 's bridge_op =
    Reset
  | MmioRead nat nat nat
  | MmioWrite nat nat nat u64
  | SetLine nat bool
  | DartFault nat u32
  | UartPush u8
  | TimerAdvance u64
  | StorageAttach u64 bool
  | StorageDetach
  | RecoveryIngest "u8 list"
  | RecoveryClear
  | AdpConfigure u64 u64 u32 u32 u32
  | PciBindAic
  | PciUnbindAic
  | PciSetIrq bool
  | PciBindMsi
  | PciUnbindMsi
  | PciPrepareMsi bool u64 u16
  | PciPrepareMsix bool u8
  | AnsBindPci
  | AnsUnbindPci
  | AnsEnableIdentify
  | AnsSubmitIdentify
  | AnsMask bool
  | AnsDrain
  | NvramIngest "u8 list" nat
  | NvramLoad "'s vf_nvram_blk_backend"
  | NvramAttach "u8 list"
  | NvramDetach
  | NvramSave
  | GxfWrite u32 u64 nat
  | GxfGenter u64 u64
  | GxfAbort u64 u64 u64 u64
  | GxfException nat nat u64 u64 u64 u64
  | GxfGexit
  | GxfTcg u32 nat u64 u64
  | GxfHcr u64
  | GxfVmsaLock u64
  | GxfBindTlb u64

text \<open>The state after one operation.\<close>

primrec bridge_step ::
  "bool \<Rightarrow> (u8 list \<Rightarrow> 's vf_nvram_blk_backend option) \<Rightarrow> 's bridge_op \<Rightarrow> 's m1_bridge \<Rightarrow> 's m1_bridge option" where
  "bridge_step efi open_path Reset b = Some (vf_m1_guest_mmio_reset efi b)"
| "bridge_step efi open_path (MmioRead window off w) b = Some (snd (vf_m1_guest_mmio_read efi window off w b))"
| "bridge_step efi open_path (MmioWrite window off w v) b = Some (snd (vf_m1_guest_mmio_write efi window off w v b))"
| "bridge_step efi open_path (SetLine irq high) b = Some (snd (vf_m1_guest_aic_set_line irq high b))"
| "bridge_step efi open_path (DartFault sid code) b = Some (snd (vf_m1_guest_dart_simulate_fault sid code b))"
| "bridge_step efi open_path (UartPush byte) b = Some (snd (vf_m1_guest_uart_push_rx byte b))"
| "bridge_step efi open_path (TimerAdvance ticks) b = Some (snd (vf_m1_guest_timer_advance ticks b))"
| "bridge_step efi open_path (StorageAttach n ro) b = Some (snd (vf_m1_guest_storage_attach n ro b))"
| "bridge_step efi open_path StorageDetach b = Some (snd (vf_m1_guest_storage_detach b))"
| "bridge_step efi open_path (RecoveryIngest frame) b = Some (snd (vf_m1_guest_recovery_ingest frame b))"
| "bridge_step efi open_path RecoveryClear b = Some (snd (vf_m1_guest_recovery_clear b))"
| "bridge_step efi open_path (AdpConfigure ga bb w h st) b = Some (snd (vf_m1_guest_adp_configure ga bb w h st b))"
| "bridge_step efi open_path PciBindAic b = Some (snd (vf_m1_guest_ans_pci_bind_aic b))"
| "bridge_step efi open_path PciUnbindAic b = Some (snd (vf_m1_guest_ans_pci_unbind_aic b))"
| "bridge_step efi open_path (PciSetIrq level) b = Some (snd (vf_m1_guest_ans_pci_set_irq level b))"
| "bridge_step efi open_path PciBindMsi b = Some (snd (vf_m1_guest_ans_pci_bind_msi_gpa b))"
| "bridge_step efi open_path PciUnbindMsi b = Some (snd (vf_m1_guest_ans_pci_unbind_msi_gpa b))"
| "bridge_step efi open_path (PciPrepareMsi en addr data) b = Some (snd (vf_m1_guest_ans_pci_prepare_msi en addr data b))"
| "bridge_step efi open_path (PciPrepareMsix en bir) b = Some (snd (vf_m1_guest_ans_pci_prepare_msix en bir b))"
| "bridge_step efi open_path AnsBindPci b = Some (snd (vf_m1_guest_ans_bind_pci b))"
| "bridge_step efi open_path AnsUnbindPci b = Some (snd (vf_m1_guest_ans_unbind_pci b))"
| "bridge_step efi open_path AnsEnableIdentify b = Some (snd (vf_m1_guest_ans_enable_identify_path b))"
| "bridge_step efi open_path AnsSubmitIdentify b = Some (snd (vf_m1_guest_ans_submit_admin_identify b))"
| "bridge_step efi open_path (AnsMask m) b = Some (snd (vf_m1_guest_ans_mask_admin_irq m b))"
| "bridge_step efi open_path AnsDrain b = Some (snd (vf_m1_guest_ans_drain_admin_cq b))"
| "bridge_step efi open_path (NvramIngest buf len) b = map_option snd (vf_m1_guest_nvram_ingest_bank buf len b)"
| "bridge_step efi open_path (NvramLoad blk) b = map_option snd (vf_m1_guest_nvram_load_from_blk blk b)"
| "bridge_step efi open_path (NvramAttach path) b = map_option snd (vf_m1_guest_nvram_attach_research_image open_path path b)"
| "bridge_step efi open_path NvramDetach b = Some (snd (vf_m1_guest_nvram_detach_blk b))"
| "bridge_step efi open_path NvramSave b = Some (snd (vf_m1_guest_nvram_save_to_attached b))"
| "bridge_step efi open_path (GxfWrite reg v el) b = Some (snd (vf_m1_guest_gxf_write_el reg v el b))"
| "bridge_step efi open_path (GxfGenter pc spsr) b = Some (snd (vf_m1_guest_gxf_genter pc spsr b))"
| "bridge_step efi open_path (GxfAbort pc spsr esr far) b = Some (snd (vf_m1_guest_gxf_abort pc spsr esr far b))"
| "bridge_step efi open_path (GxfException kind tbl pc spsr esr far) b =
     Some (snd (vf_m1_guest_gxf_take_exception kind tbl pc spsr esr far b))"
| "bridge_step efi open_path GxfGexit b = Some (snd (vf_m1_guest_gxf_gexit b))"
| "bridge_step efi open_path (GxfTcg insn el pc spsr) b = Some (snd (vf_m1_guest_gxf_tcg_exec insn el pc spsr b))"
| "bridge_step efi open_path (GxfHcr v) b = Some (snd (vf_m1_guest_gxf_set_hcr_el2 v b))"
| "bridge_step efi open_path (GxfVmsaLock v) b = Some (snd (vf_m1_guest_gxf_set_vmsa_lock_el1 v b))"
| "bridge_step efi open_path (GxfBindTlb cpu) b = Some (snd (vf_m1_guest_gxf_bind_guest_tlb cpu b))"

primrec bridge_run ::
  "bool \<Rightarrow> (u8 list \<Rightarrow> 's vf_nvram_blk_backend option) \<Rightarrow> 's bridge_op list \<Rightarrow> 's m1_bridge \<Rightarrow> 's m1_bridge option" where
  "bridge_run efi open_path [] b = Some b"
| "bridge_run efi open_path (op # ops) b = Option.bind (bridge_step efi open_path op b) (bridge_run efi open_path ops)"

end
