(* ===== verification/Lines.thy ===== *)
theory Lines
  imports Bridge
begin

unbundle bit_operations_syntax

text \<open>
  The interrupt lines the bridge drives for its devices: for each line the level the controller holds and the pending state of the
  device, the contract between the bridge and a device that owns a line, and the proof that every operation keeps the two equal.
\<close>

section \<open>The controller's side of a line\<close>

definition aic_line :: "vf_aic_v1 \<Rightarrow> nat \<Rightarrow> bool" where
  "aic_line a n \<longleftrightarrow> bit (aic_level a ! (n div 32)) (n mod 32)"

definition aic_ok :: "vf_aic_v1 \<Rightarrow> bool" where
  "aic_ok a \<longleftrightarrow> aic_inv a \<and> irq_count a = VF_M1_AIC_IRQ_COUNT"

lemma set_line_ok [simp]:
  assumes "aic_ok a" "irq < 896"
  shows "fst (vf_aic_set_line a irq high) = OK"
  using assms by (simp add: vf_aic_set_line_def aic_ok_def Let_def)

lemma set_line_keeps [simp]: "aic_ok a \<Longrightarrow> aic_ok (snd (vf_aic_set_line a irq high))"
  by (simp add: aic_ok_def aic_inv_set_line) (simp add: vf_aic_set_line_def Let_def)

lemma set_line_line [simp]:
  assumes "aic_ok a" "irq < 896"
  shows "aic_line (snd (vf_aic_set_line a irq high)) n = (if n = irq then high else aic_line a n)"
proof -
  have l: "length (aic_level a) = 32" and c: "irq_count a = 896" using assms(1) by (simp_all add: aic_ok_def aic_inv_def)
  have i: "irq div 32 < 32" using assms(2) by simp
  have ne: "n div 32 \<noteq> irq div 32 \<or> n mod 32 \<noteq> irq mod 32" if "n \<noteq> irq" using that by (metis div_mult_mod_eq)
  have set: "aic_level (snd (vf_aic_set_line a irq high)) = (aic_level a)[irq div 32 :=
      (if high then aic_level a ! (irq div 32) OR push_bit (irq mod 32) 1 else aic_level a ! (irq div 32) AND NOT (push_bit (irq mod 32) 1))]"
    using assms(2) by (simp add: vf_aic_set_line_def c Let_def)
  show ?thesis
  proof (cases "n div 32 = irq div 32")
    case True
    then have "n mod 32 = irq mod 32 \<longleftrightarrow> n = irq" using ne by auto
    with True i show ?thesis by (simp add: aic_line_def set l bit_simps)
  next
    case False
    then have "n \<noteq> irq" by auto
    with False show ?thesis by (simp add: aic_line_def set)
  qed
qed

lemma aic_read_level [simp]: "aic_level (snd (vf_aic_read a cpu off w)) = aic_level a"
  "irq_count (snd (vf_aic_read a cpu off w)) = irq_count a"
  by (simp_all add: vf_aic_read_def Let_def split: option.split)

lemma aic_write_level:
  assumes "off \<noteq> VF_AIC_REG_RST"
  shows "aic_level (snd (vf_aic_write a cpu off w v)) = aic_level a"
proof -
  have "y \<noteq> VF_AIC_REG_RST" if "aic_resolve_access a cpu off = Some (x, y)" for x y
    using that assms by (auto simp: aic_resolve_access_def Let_def split: if_splits)
  then show ?thesis
    by (auto simp: vf_aic_write_def aic_write_bank_def Let_def split: option.split)
qed

lemma aic_write_count [simp]: "irq_count (snd (vf_aic_write a cpu off w v)) = irq_count a"
  by (auto simp: vf_aic_write_def aic_write_bank_def aic_reset_state_def Let_def split: option.split)

lemma aic_access [simp]:
  "aic_ok a \<Longrightarrow> aic_ok (snd (vf_aic_read a cpu off w))" "aic_ok a \<Longrightarrow> aic_ok (snd (vf_aic_write a cpu off w v))"
  "aic_line (snd (vf_aic_read a cpu off w)) n = aic_line a n"
  "off \<noteq> VF_AIC_REG_RST \<Longrightarrow> aic_line (snd (vf_aic_write a cpu off w v)) n = aic_line a n"
  by (simp_all add: aic_ok_def aic_inv_read aic_inv_write aic_line_def aic_write_level)

section \<open>The devices' side\<close>

lemma timer_pending [simp]:
  "vf_timer_irq_pending (snd (vf_timer_read t off w)) = vf_timer_irq_pending t"
  by (simp add: vf_timer_read_def)

lemma adp_pending [simp]:
  "vf_adp_display_irq_pending (snd (vf_adp_display_read d off w)) = vf_adp_display_irq_pending d"
  by (simp add: vf_adp_display_read_def vf_adp_display_irq_pending_def refresh_flags_def Let_def)

lemma recovery_pending [simp]:
  "vf_recovery_irq_pending (snd (vf_recovery_read r off w)) = vf_recovery_irq_pending r"
  by (simp add: vf_recovery_read_def)

lemma dart_pending [simp]:
  "vf_dart_irq_pending (snd (vf_dart_read d off w)) = vf_dart_irq_pending d"
  "off \<noteq> VF_DART_REG_ERROR_STATUS \<Longrightarrow> vf_dart_irq_pending (snd (vf_dart_write d off w v)) = vf_dart_irq_pending d"
  by (simp_all add: dart_read_state vf_dart_irq_pending_def)
    (auto simp: vf_dart_write_def Let_def split: option.split prod.split)

lemma uart_pending [simp]:
  "vf_apple_uart_irq_pending (snd (vf_apple_uart_read u off w)) = vf_apple_uart_irq_pending u"
  by (simp add: vf_apple_uart_read_def vf_apple_uart_irq_pending_def uart_update_status_def Let_def)

lemma sep_pending [simp]:
  "off \<noteq> VF_SEP_MMIO_MSG_OUT \<Longrightarrow> vf_sep_mailbox_irq_pending (snd (vf_sep_mailbox_read s off w)) = vf_sep_mailbox_irq_pending s"
  by (simp add: vf_sep_mailbox_read_def)

lemmas device_refusals =
  tm.wr_closed dart.wr_closed uart.wr_closed st.wr_closed sart.wr_closed aic.wr_closed

section \<open>Frames\<close>

lemma sync_line_result [simp]: "sync_line irq high b = (fst (vf_aic_set_line (g_aic b) irq high), b\<lparr>g_aic := snd (vf_aic_set_line (g_aic b) irq high)\<rparr>)"
  by (simp add: sync_line_def case_prod_beta)

text \<open>The controller after the PCI function has called its sink.\<close>

primrec sunk :: "bool \<Rightarrow> (nat \<times> bool) list \<Rightarrow> vf_aic_v1 \<Rightarrow> vf_aic_v1" where
  "sunk ready [] a = a"
| "sunk ready (c # cs) a = sunk ready cs (if ready \<and> fst c = 1 then snd (vf_aic_set_line a 1 (snd c)) else a)"

lemma sink_calls_result: "sink_calls calls b = b\<lparr>g_aic := sunk (g_ready b) calls (g_aic b)\<rparr>"
proof (induction calls arbitrary: b)
  case (Cons call calls)
  show ?case
    using Cons.IH by (cases call) (simp add: sink_calls_def m1_ans_pci_aic_sink_def)
qed (simp add: sink_calls_def)

lemma sunk_keeps [simp]: "aic_ok a \<Longrightarrow> aic_ok (sunk ready calls a)"
  by (induction calls arbitrary: a) simp_all

lemma sunk_other [simp]: "aic_ok a \<Longrightarrow> n \<noteq> 1 \<Longrightarrow> aic_line (sunk ready calls a) n = aic_line a n"
  by (induction calls arbitrary: a) simp_all

lemma sunk_line:
  assumes "aic_ok a" "ready" "list_all (\<lambda>c. fst c = 1) calls"
  shows "aic_line (sunk ready calls a) 1 = (if calls = [] then aic_line a 1 else snd (last calls))"
  using assms by (induction calls arbitrary: a) auto

lemma settle_pci_result: "settle_pci w b = b\<lparr>g_store := w, g_aic := sunk (g_ready b)
    (drop (length (pci_aic_log (g_pci b))) (pci_aic_log (w_pci w 0))) (g_aic b)\<rparr>"
  by (simp add: settle_pci_def sink_calls_result)

lemma settle_gxf_result: "\<exists>cpus. settle_gxf g b = b\<lparr>g_gxf := g, g_cpus := cpus\<rparr>"
proof -
  have "\<exists>cpus. foldl (\<lambda>b (fn, ctx, gen). m1_gxf_sprr_guest_tlb_flush ctx gen b) b calls = b\<lparr>g_cpus := cpus\<rparr>" for b :: "'a m1_bridge" and calls
  proof (induction calls arbitrary: b)
    case Nil
    show ?case by (rule exI [of _ "g_cpus b"]) simp
  next
    case (Cons call calls)
    obtain fn ctx gen where call: "call = (fn, ctx, gen)" by (cases call)
    obtain cpus where "m1_gxf_sprr_guest_tlb_flush ctx gen b = b\<lparr>g_cpus := cpus\<rparr>"
      by (simp add: m1_gxf_sprr_guest_tlb_flush_def Let_def) (metis m1_bridge.surjective m1_bridge.update_convs(20))
    with Cons.IH [of "b\<lparr>g_cpus := cpus\<rparr>"] show ?case by (simp add: call)
  qed
  then show ?thesis by (simp add: settle_gxf_def)
qed

text \<open>The levels of the devices that own a line, and the operations that touch neither those devices nor their lines.\<close>

definition device_levels :: "'s m1_bridge \<Rightarrow> (nat \<times> bool) list" where
  "device_levels b =
     [(VF_M1_TIMER_IRQ_LINE, vf_timer_irq_pending (g_timer b)), (VF_M1_ADP_IRQ_LINE, vf_adp_display_irq_pending (g_adp b)),
      (VF_M1_RECOVERY_IRQ_LINE, vf_recovery_irq_pending (g_recovery b)), (VF_M1_DART_IRQ_LINE, vf_dart_irq_pending (g_dart b)),
      (VF_M1_UART_IRQ_LINE, vf_apple_uart_irq_pending (g_uart b)), (VF_M1_SEP_IRQ_LINE, vf_sep_mailbox_irq_pending (g_sep b))]"

definition lines_follow :: "'s m1_bridge \<Rightarrow> bool" where
  "lines_follow b \<longleftrightarrow> aic_ok (g_aic b) \<and> (\<forall>(n, level) \<in> set (device_levels b). aic_line (g_aic b) n = level)"

definition aside :: "'s m1_bridge \<Rightarrow> 's m1_bridge \<Rightarrow> bool" where
  "aside b b' \<longleftrightarrow> g_ready b' = g_ready b \<and> device_levels b' = device_levels b
     \<and> (aic_ok (g_aic b) \<longrightarrow> aic_ok (g_aic b') \<and> (\<forall>n. n \<noteq> 1 \<longrightarrow> aic_line (g_aic b') n = aic_line (g_aic b) n))"

lemma aside_refl [simp]: "aside b b"
  by (simp add: aside_def)

lemma aside_trans: "aside b c \<Longrightarrow> aside c d \<Longrightarrow> aside b d"
  by (simp add: aside_def)

lemma aside_follows:
  assumes "aside b b'" "lines_follow b"
  shows "lines_follow b'"
proof -
  have "n \<noteq> 1" if "(n, level) \<in> set (device_levels b)" for n level
    using that by (auto simp: device_levels_def)
  with assms show ?thesis by (fastforce simp: aside_def lines_follow_def)
qed

lemma aside_run_parts: "(\<And>f b. f \<in> set fs \<Longrightarrow> aside b (snd (f b))) \<Longrightarrow> aside b (snd (run_parts fs b))"
proof -
  assume step: "\<And>f b. f \<in> set fs \<Longrightarrow> aside b (snd (f b))"
  have "aside b (snd (foldl on_ok r fs))" if "aside b (snd r)" for r
    using that step
  proof (induction fs arbitrary: r)
    case (Cons f fs)
    have "aside b (snd (on_ok r f))"
      using Cons.prems(1) aside_trans [OF _ Cons.prems(2)] by (auto simp: on_ok_def split: prod.split rc.split)
    then show ?case using Cons.IH Cons.prems(2) by simp
  qed simp
  then show ?thesis by (simp add: run_parts_def)
qed

lemma aside_store [simp]: "aside b (b\<lparr>g_store := w, g_aic := sunk r calls (g_aic b)\<rparr>)"
  by (simp add: aside_def device_levels_def)

lemma aside_pci_call [simp]: "aside b (snd (pci_call f b))"
  by (simp add: pci_call_def settle_pci_result case_prod_beta)

lemma aside_ans_call [simp]: "aside b (snd (ans_call f b))"
  by (simp add: ans_call_def settle_pci_result case_prod_beta aside_def device_levels_def)

lemma aside_gxf [simp]: "aside b (settle_gxf g b)"
  using settle_gxf_result [of g b] by (auto simp: aside_def device_levels_def)

lemma aside_if_ready: "(g_ready b \<Longrightarrow> aside b (snd (f b))) \<Longrightarrow> aside b (snd (if_ready f b))"
  by (simp add: if_ready_def)

section \<open>The lines follow the devices\<close>

lemmas follow_defs = lines_follow_def device_levels_def

lemma device_write_refused:
  "fst (vf_timer_write t off w v) = ERR \<Longrightarrow> snd (vf_timer_write t off w v) = t"
  "fst (vf_adp_display_write d off w v) = ERR \<Longrightarrow> snd (vf_adp_display_write d off w v) = d"
  "fst (vf_dart_write e off w v') = ERR \<Longrightarrow> snd (vf_dart_write e off w v') = e"
  "fst (vf_apple_uart_write u off w v') = ERR \<Longrightarrow> snd (vf_apple_uart_write u off w v') = u"
  "fst (vf_sep_mailbox_write s off w v) = ERR \<Longrightarrow> snd (vf_sep_mailbox_write s off w v) = s"
  "fst (vf_sep_mailbox_read s off w) = None \<Longrightarrow> snd (vf_sep_mailbox_read s off w) = s"
  subgoal using tm.wr_closed [of t off w v] by (simp add: wr_keeps_def)
  subgoal by (auto simp: vf_adp_display_write_def vf_adp_display_present_def vf_adp_display_ack_vblank_def split: if_splits)
  subgoal using dart.wr_closed [of e off w v'] by (simp add: wr_keeps_def)
  subgoal using uart.wr_closed [of u off w v'] by (simp add: wr_keeps_def)
  subgoal by (auto simp: vf_sep_mailbox_write_def split: if_splits)
  subgoal by (auto simp: vf_sep_mailbox_read_def split: if_splits)
  done

lemma device_call_refused [rule_format]:
  "fst (vf_timer_advance t ticks) = ERR \<longrightarrow> snd (vf_timer_advance t ticks) = t"
  "fst (vf_adp_display_configure d ga bb wd h stride) = ERR \<longrightarrow> snd (vf_adp_display_configure d ga bb wd h stride) = d"
  "fst (vf_dart_simulate_fault e sid code) = ERR \<longrightarrow> snd (vf_dart_simulate_fault e sid code) = e"
  "fst (vf_apple_uart_push_rx u byte) = ERR \<longrightarrow> snd (vf_apple_uart_push_rx u byte) = u"
  "fst (vf_recovery_clear_ready r) = ERR \<longrightarrow> snd (vf_recovery_clear_ready r) = r"
  by (simp_all add: vf_timer_advance_def vf_adp_display_configure_def vf_dart_simulate_fault_def vf_apple_uart_push_rx_def
      vf_recovery_clear_ready_def Let_def)

lemma recovery_ingest_refused: "fst (vf_recovery_ingest r (Some frame)) \<noteq> None \<Longrightarrow> snd (vf_recovery_ingest r (Some frame)) = r"
  by (cases rule: recovery_ingest_cases [of r frame]) simp_all

text \<open>A device is changed and its line is set to its new level.\<close>

lemma follow_sync:
  assumes "lines_follow b"
  shows "lines_follow (snd (timer_sync_aic_irq (b\<lparr>g_timer := t\<rparr>)))" "lines_follow (snd (adp_sync_aic_irq (b\<lparr>g_adp := d\<rparr>)))"
    "lines_follow (snd (recovery_sync_aic_irq (b\<lparr>g_recovery := r\<rparr>)))" "lines_follow (snd (dart_sync_aic_irq (b\<lparr>g_dart := e\<rparr>)))"
    "lines_follow (snd (uart_sync_aic_irq (b\<lparr>g_uart := u\<rparr>)))" "lines_follow (snd (sep_sync_aic_irq (b\<lparr>g_sep := s\<rparr>)))"
    "lines_follow (snd (storage_sync_aic_irq b))"
  using assms
  by (simp_all add: follow_defs timer_sync_aic_irq_def adp_sync_aic_irq_def recovery_sync_aic_irq_def dart_sync_aic_irq_def
      uart_sync_aic_irq_def sep_sync_aic_irq_def storage_sync_aic_irq_def)

lemma follow_quiet:
  assumes "lines_follow b"
  shows "vf_timer_irq_pending t = vf_timer_irq_pending (g_timer b) \<Longrightarrow> lines_follow (b\<lparr>g_timer := t\<rparr>)"
    "vf_adp_display_irq_pending d = vf_adp_display_irq_pending (g_adp b) \<Longrightarrow> lines_follow (b\<lparr>g_adp := d\<rparr>)"
    "vf_recovery_irq_pending r = vf_recovery_irq_pending (g_recovery b) \<Longrightarrow> lines_follow (b\<lparr>g_recovery := r\<rparr>)"
    "vf_dart_irq_pending e = vf_dart_irq_pending (g_dart b) \<Longrightarrow> lines_follow (b\<lparr>g_dart := e\<rparr>)"
    "vf_apple_uart_irq_pending u = vf_apple_uart_irq_pending (g_uart b) \<Longrightarrow> lines_follow (b\<lparr>g_uart := u\<rparr>)"
    "vf_sep_mailbox_irq_pending s = vf_sep_mailbox_irq_pending (g_sep b) \<Longrightarrow> lines_follow (b\<lparr>g_sep := s\<rparr>)"
    "aic_ok a \<Longrightarrow> \<forall>n. aic_line a n = aic_line (g_aic b) n \<Longrightarrow> lines_follow (b\<lparr>g_aic := a\<rparr>)"
  using assms by (simp_all add: follow_defs)

lemma follow_ignored [simp]:
  "lines_follow (b\<lparr>g_storage := x1\<rparr>) = lines_follow b" "lines_follow (b\<lparr>g_sart := x2\<rparr>) = lines_follow b"
  "lines_follow (b\<lparr>g_nvram := x3\<rparr>) = lines_follow b" "lines_follow (b\<lparr>g_smc := x4\<rparr>) = lines_follow b"
  "lines_follow (b\<lparr>g_smc_last_resp := x5\<rparr>) = lines_follow b" "lines_follow (b\<lparr>g_boot_args := x6\<rparr>) = lines_follow b"
  "lines_follow (b\<lparr>g_boot_args_len := x7\<rparr>) = lines_follow b" "lines_follow (b\<lparr>g_blk := x8\<rparr>) = lines_follow b"
  "lines_follow (b\<lparr>g_ready := x9\<rparr>) = lines_follow b" "lines_follow (clear_boot_args b) = lines_follow b"
  by (simp_all add: follow_defs clear_boot_args_def)

lemma follow_windows:
  assumes "lines_follow b"
  shows "lines_follow (snd (aic_dispatch_read b off w))"
    "lines_follow (snd (timer_dispatch_read b off w))" "lines_follow (snd (dart_dispatch_read b off w))"
    "lines_follow (snd (storage_dispatch_read b off w))" "lines_follow (snd (recovery_dispatch_read b off w))"
    "lines_follow (snd (adp_dispatch_read b off w))" "lines_follow (snd (uart_dispatch_read b off w))"
    "lines_follow (snd (sart_dispatch_read b off w))" "lines_follow (snd (nvram_dispatch_read b off w))"
  using assms aic_access(1) [of "g_aic b" 0 off 4]
  by (simp_all add: aic_dispatch_read_def timer_dispatch_read_def dart_dispatch_read_def storage_dispatch_read_def
      recovery_dispatch_read_def adp_dispatch_read_def uart_dispatch_read_def sart_dispatch_read_def nvram_dispatch_read_def
      case_prod_beta follow_quiet lines_follow_def [of b])

lemma follow_smc_read:
  assumes "lines_follow b"
  shows "lines_follow (snd (smc_dispatch_read efi b off w))" "lines_follow (snd (smc_dispatch_write efi b off w v))"
  using assms by (simp_all add: smc_dispatch_read_def smc_dispatch_write_def case_prod_beta split: prod.split option.split)

lemma follow_sep_read:
  assumes "lines_follow b"
  shows "lines_follow (snd (sep_dispatch_read b off w))"
proof -
  obtain r s where r: "vf_sep_mailbox_read (g_sep b) off w = (r, s)" by fastforce
  have q: "off \<noteq> VF_SEP_MMIO_MSG_OUT \<Longrightarrow> vf_sep_mailbox_irq_pending s = vf_sep_mailbox_irq_pending (g_sep b)"
    using sep_pending [of off "g_sep b" w] by (simp add: r)
  have n: "r = None \<Longrightarrow> s = g_sep b" using device_write_refused(6) [of "g_sep b" off w] by (simp add: r)
  show ?thesis
    using follow_sync(6) [OF assms, of s] follow_quiet(6) [OF assms q] follow_quiet(6) [OF assms, of "g_sep b"] n assms
    by (auto simp: sep_dispatch_read_def r split: option.split prod.split rc.split)
qed

text \<open>The contract between the bridge and a device that owns a line: how the device is stored, when it is pending, and the
  function that copies its level to the line.\<close>

locale wired_device =
  fixes put :: "'d \<Rightarrow> 's m1_bridge \<Rightarrow> 's m1_bridge" and dev :: "'s m1_bridge \<Rightarrow> 'd" and pending :: "'d \<Rightarrow> bool"
    and sync :: "'s m1_bridge \<Rightarrow> rc \<times> 's m1_bridge"
  assumes put_dev: "put (dev b) b = b"
    and sync_ok: "lines_follow b \<Longrightarrow> fst (sync (put d b)) = OK"
    and sync_follows: "lines_follow b \<Longrightarrow> lines_follow (snd (sync (put d b)))"
    and quiet_follows: "lines_follow b \<Longrightarrow> pending d = pending (dev b) \<Longrightarrow> lines_follow (put d b)"
begin

lemma written_follows:
  assumes "lines_follow b" "fst r = ERR \<Longrightarrow> snd r = dev b"
  shows "lines_follow (snd (case r of (ERR, d) \<Rightarrow> (VF_M1_MMIO_INVALID, put d b)
    | (OK, d) \<Rightarrow> (case sync (put d b) of (c, b1) \<Rightarrow> (write_verdict c, b1))))"
  using assms sync_follows [OF assms(1)] put_dev [of b] by (cases r) (auto simp: case_prod_beta split: rc.split)

lemma written_refused:
  assumes "lines_follow b" "fst r = ERR \<Longrightarrow> snd r = dev b"
    "fst (case r of (ERR, d) \<Rightarrow> (VF_M1_MMIO_INVALID, put d b)
       | (OK, d) \<Rightarrow> (case sync (put d b) of (c, b1) \<Rightarrow> (write_verdict c, b1))) \<noteq> VF_M1_MMIO_OK"
  shows "snd (case r of (ERR, d) \<Rightarrow> (VF_M1_MMIO_INVALID, put d b)
       | (OK, d) \<Rightarrow> (case sync (put d b) of (c, b1) \<Rightarrow> (write_verdict c, b1))) = b"
  using assms sync_ok [OF assms(1)] put_dev [of b]
  by (cases r) (auto simp: case_prod_beta write_verdict_def split: rc.splits)

lemma called_follows:
  assumes "lines_follow b" "fst r = ERR \<Longrightarrow> snd r = dev b"
  shows "lines_follow (snd (on_ok (case r of (c, d) \<Rightarrow> (c, put d b)) sync))"
  using assms sync_follows [OF assms(1)] put_dev [of b] by (cases r) (auto simp: on_ok_def split: rc.split)

end

lemma sync_accepted:
  assumes "lines_follow b"
  shows "fst (timer_sync_aic_irq (b\<lparr>g_timer := t\<rparr>)) = OK" "fst (adp_sync_aic_irq (b\<lparr>g_adp := d\<rparr>)) = OK"
    "fst (recovery_sync_aic_irq (b\<lparr>g_recovery := r\<rparr>)) = OK" "fst (dart_sync_aic_irq (b\<lparr>g_dart := e\<rparr>)) = OK"
    "fst (uart_sync_aic_irq (b\<lparr>g_uart := u\<rparr>)) = OK" "fst (sep_sync_aic_irq (b\<lparr>g_sep := s\<rparr>)) = OK"
  using assms
  by (simp_all add: lines_follow_def timer_sync_aic_irq_def adp_sync_aic_irq_def recovery_sync_aic_irq_def dart_sync_aic_irq_def
      uart_sync_aic_irq_def sep_sync_aic_irq_def)

interpretation wired_timer: wired_device "\<lambda>t b. b\<lparr>g_timer := t\<rparr>" g_timer vf_timer_irq_pending timer_sync_aic_irq
  by unfold_locales (simp_all add: sync_accepted follow_sync follow_quiet)

interpretation wired_adp: wired_device "\<lambda>d b. b\<lparr>g_adp := d\<rparr>" g_adp vf_adp_display_irq_pending adp_sync_aic_irq
  by unfold_locales (simp_all add: sync_accepted follow_sync follow_quiet)

interpretation wired_recovery: wired_device "\<lambda>r b. b\<lparr>g_recovery := r\<rparr>" g_recovery vf_recovery_irq_pending recovery_sync_aic_irq
  by unfold_locales (simp_all add: sync_accepted follow_sync follow_quiet)

interpretation wired_dart: wired_device "\<lambda>d b. b\<lparr>g_dart := d\<rparr>" g_dart vf_dart_irq_pending dart_sync_aic_irq
  by unfold_locales (simp_all add: sync_accepted follow_sync follow_quiet)

interpretation wired_uart: wired_device "\<lambda>u b. b\<lparr>g_uart := u\<rparr>" g_uart vf_apple_uart_irq_pending uart_sync_aic_irq
  by unfold_locales (simp_all add: sync_accepted follow_sync follow_quiet)

interpretation wired_sep: wired_device "\<lambda>s b. b\<lparr>g_sep := s\<rparr>" g_sep vf_sep_mailbox_irq_pending sep_sync_aic_irq
  by unfold_locales (simp_all add: sync_accepted follow_sync follow_quiet)

lemma follow_writes:
  assumes "lines_follow b"
  shows "lines_follow (snd (timer_dispatch_write b off w v))" "lines_follow (snd (adp_dispatch_write b off w v))"
    "lines_follow (snd (uart_dispatch_write b off w v))" "lines_follow (snd (sep_dispatch_write b off w v))"
  unfolding timer_dispatch_write_def adp_dispatch_write_def uart_dispatch_write_def sep_dispatch_write_def
  by (auto intro!: wired_timer.written_follows wired_adp.written_follows wired_uart.written_follows wired_sep.written_follows
      device_write_refused assms)

lemma follow_calls:
  assumes "lines_follow b"
  shows "lines_follow (snd (vf_m1_guest_dart_simulate_fault sid code b))" "lines_follow (snd (vf_m1_guest_uart_push_rx byte b))"
    "lines_follow (snd (vf_m1_guest_timer_advance ticks b))" "lines_follow (snd (vf_m1_guest_recovery_clear b))"
    "lines_follow (snd (vf_m1_guest_adp_configure ga bb wd h stride b))"
  unfolding vf_m1_guest_dart_simulate_fault_def vf_m1_guest_uart_push_rx_def vf_m1_guest_timer_advance_def
    vf_m1_guest_recovery_clear_def vf_m1_guest_adp_configure_def if_ready_def
  by (auto intro!: wired_dart.called_follows wired_uart.called_follows wired_timer.called_follows wired_recovery.called_follows
      wired_adp.called_follows device_call_refused assms)

lemma follow_recovery_ingest:
  assumes "lines_follow b"
  shows "lines_follow (snd (vf_m1_guest_recovery_ingest frame b))"
proof -
  let ?r = "vf_recovery_ingest (g_recovery b) (Some frame)"
  have "lines_follow (snd (on_ok (case (if fst ?r = None then OK else ERR, snd ?r) of (c, d) \<Rightarrow> (c, b\<lparr>g_recovery := d\<rparr>)) recovery_sync_aic_irq))"
    using recovery_ingest_refused [of "g_recovery b" frame] by (intro wired_recovery.called_follows assms) (auto split: if_splits)
  with assms show ?thesis by (simp add: vf_m1_guest_recovery_ingest_def if_ready_def case_prod_beta)
qed

lemma follow_dart_write:
  assumes "lines_follow b"
  shows "lines_follow (snd (dart_dispatch_write b off w v))"
proof -
  obtain c d where r: "vf_dart_write (g_dart b) off 4 (ucast v) = (c, d)" by fastforce
  have q: "off \<noteq> VF_DART_REG_ERROR_STATUS \<Longrightarrow> vf_dart_irq_pending d = vf_dart_irq_pending (g_dart b)"
    using dart_pending(2) [of off "g_dart b" 4 "ucast v"] by (simp add: r)
  have n: "c = ERR \<Longrightarrow> d = g_dart b" using device_write_refused(3) [of "g_dart b" off 4 "ucast v"] by (simp add: r)
  show ?thesis
    using follow_sync(4) [OF assms, of d] follow_quiet(4) [OF assms q] follow_quiet(4) [OF assms, of "g_dart b"] n assms
    by (auto simp: dart_dispatch_write_def r case_prod_beta split: rc.split)
qed

lemma follow_plain_writes:
  assumes "lines_follow b"
  shows "lines_follow (snd (sart_dispatch_write b off w v))" "lines_follow (snd (storage_dispatch_write b off w v))"
    "lines_follow (snd (recovery_dispatch_write b off w v))" "lines_follow (snd (nvram_dispatch_write b off w v))"
    "off \<noteq> VF_AIC_REG_RST \<Longrightarrow> lines_follow (snd (aic_dispatch_write b off w v))"
  using assms aic_access(2) [of "g_aic b" 0 off 4 "ucast v"]
  by (simp_all add: sart_dispatch_write_def storage_dispatch_write_def recovery_dispatch_write_def nvram_dispatch_write_def
      aic_dispatch_write_def case_prod_beta Let_def follow_quiet lines_follow_def [of b] split: prod.split rc.split)

subsection \<open>Reset\<close>

lemma inits_ok [simp]:
  "fst (vf_aic_init a 896 8) = OK" "fst (vf_ans_pci_init p) = OK" "fst (vf_ans_init x) = OK" "fst (vf_timer_init t) = OK"
  "fst (vf_storage_init s) = OK" "fst (vf_recovery_init r) = OK" "fst (vf_dart_init d) = OK" "fst (vf_sart_init q 1) = OK"
  "fst (vf_nvram_init n) = OK" "fst (vf_smc_init m) = OK" "fst (vf_apple_uart_init u False) = OK" "fst (vf_adp_display_init e) = OK"
  "fst (vf_sep_mailbox_init y) = OK" "fst (vf_apple_gxf_init g) = OK"
  by (simp_all add: vf_aic_init_def vf_ans_pci_init_def vf_ans_init_def vf_timer_init_def vf_storage_init_def vf_recovery_init_def
      vf_dart_init_def vf_sart_init_def nvram_init_state vf_smc_init_def vf_apple_uart_init_def vf_adp_display_init_def
      vf_sep_mailbox_init_def vf_apple_gxf_init_def)

lemma run_parts_Nil [simp]: "run_parts [] b = (OK, b)"
  by (simp add: run_parts_def)

lemma run_parts_ERR: "foldl on_ok (ERR, b) fs = (ERR, b)"
  by (induction fs) (simp_all add: on_ok_def)

lemma run_parts_Cons: "run_parts (f # fs) b = (if fst (f b) = OK then run_parts fs (snd (f b)) else (ERR, snd (f b)))"
  by (cases "f b"; cases "fst (f b)") (simp_all add: run_parts_def on_ok_def run_parts_ERR)

text \<open>The bridge after its parts are initialised.\<close>

definition fresh :: "bool \<Rightarrow> 's m1_bridge \<Rightarrow> 's m1_bridge" where
  "fresh efi b = b\<lparr>g_aic := snd (vf_aic_init (g_aic b) 896 8), g_ans := snd (vf_ans_init (g_ans b)),
     g_store := (g_store b)\<lparr>w_pci := \<lambda>_. snd (vf_ans_pci_init (g_pci b)),
        w_mem := (w_mem (g_store b))(0 := replicate 4096 0, 1 := replicate 16 0)\<rparr>,
     g_sq_tail := 0, g_timer := snd (vf_timer_init (g_timer b)), g_storage := snd (vf_storage_init (g_storage b)),
     g_recovery := snd (vf_recovery_init (g_recovery b)), g_dart := snd (vf_dart_init (g_dart b)),
     g_sart := snd (vf_sart_init (g_sart b) 1), g_nvram := snd (vf_nvram_init (g_nvram b)), g_blk := None,
     g_uart := snd (vf_apple_uart_init (g_uart b) False), g_adp := snd (vf_adp_display_init (g_adp b)),
     g_sep := snd (vf_sep_mailbox_init (g_sep b)), g_smc := (if efi then g_smc b else snd (vf_smc_init (g_smc b))),
     g_smc_last_resp := (if efi then g_smc_last_resp b else 0), g_gxf := snd (vf_apple_gxf_init (g_gxf b)),
     g_boot_args := (g_boot_args b)[0 := 0], g_boot_args_len := 0, g_ready := False\<rparr>"

lemma fresh_run: "run_parts (reset_parts efi) ((clear_boot_args (b\<lparr>g_ready := False\<rparr>))\<lparr>g_blk := None\<rparr>) = (OK, fresh efi b)"
  by (cases efi) (simp_all add: reset_parts_def run_parts_Cons case_prod_beta fresh_def clear_boot_args_def g_pci_def)

lemma fresh_parts:
  "g_aic (fresh efi b) = snd (vf_aic_init (g_aic b) 896 8)" "g_ans (fresh efi b) = snd (vf_ans_init (g_ans b))"
  "w_pci (g_store (fresh efi b)) = (\<lambda>_. snd (vf_ans_pci_init (g_pci b)))" "g_timer (fresh efi b) = snd (vf_timer_init (g_timer b))"
  "g_recovery (fresh efi b) = snd (vf_recovery_init (g_recovery b))" "g_dart (fresh efi b) = snd (vf_dart_init (g_dart b))"
  "g_uart (fresh efi b) = snd (vf_apple_uart_init (g_uart b) False)" "g_adp (fresh efi b) = snd (vf_adp_display_init (g_adp b))"
  "g_sep (fresh efi b) = snd (vf_sep_mailbox_init (g_sep b))" "g_gxf (fresh efi b) = snd (vf_apple_gxf_init (g_gxf b))"
  "g_nvram (fresh efi b) = snd (vf_nvram_init (g_nvram b))" "g_tlb_cpu (fresh efi b) = g_tlb_cpu b" "g_cpus (fresh efi b) = g_cpus b"
  "\<not> efi \<Longrightarrow> g_smc (fresh efi b) = snd (vf_smc_init (g_smc b))" "g_boot_args_len (fresh efi b) = 0"
  by (simp_all add: fresh_def)

text \<open>The four connections of the last part succeed.\<close>

definition wires :: "('s m1_bridge \<Rightarrow> rc \<times> 's m1_bridge) list" where
  "wires = [sep_sync_aic_irq, ans_auto_bind_pci, ans_pci_auto_bind_aic, ans_pci_auto_bind_msi_gpa]"

lemma bind_aic_ok: "g_ready b \<Longrightarrow> aic_ok (g_aic b) \<Longrightarrow> fst (ans_pci_auto_bind_aic b) = OK"
  by (simp add: ans_pci_auto_bind_aic_def vf_ans_pci_bind_aic_def ans_pci_sync_aic_def m1_ans_pci_aic_sink_def case_prod_beta Let_def)

lemma bind_msi_ok: "fst (ans_pci_auto_bind_msi_gpa b) = OK"
  by (simp add: ans_pci_auto_bind_msi_gpa_def pci_call_def vf_ans_pci_bind_msi_gpa_def Let_def)

lemma bind_pci_ok: "fst (ans_auto_bind_pci b) = OK"
  by (simp add: ans_auto_bind_pci_def ans_call_def case_prod_beta)

lemma aside_binds [simp]:
  "aside b (snd (ans_auto_bind_pci b))" "aside b (snd (ans_pci_auto_bind_aic b))" "aside b (snd (ans_pci_auto_bind_msi_gpa b))"
proof -
  show "aside b (snd (ans_auto_bind_pci b))" by (simp add: ans_auto_bind_pci_def)
  show "aside b (snd (ans_pci_auto_bind_aic b))"
    by (simp add: ans_pci_auto_bind_aic_def case_prod_beta sink_calls_result)
  have "aside b (b\<lparr>g_msi_gpa := x\<rparr>)" for x by (simp add: aside_def device_levels_def)
  then show "aside b (snd (ans_pci_auto_bind_msi_gpa b))"
    unfolding ans_pci_auto_bind_msi_gpa_def Let_def by (rule aside_trans) (rule aside_pci_call)
qed

definition wired :: "'s m1_bridge \<Rightarrow> 's m1_bridge" where
  "wired b = snd (ans_pci_auto_bind_msi_gpa (snd (ans_pci_auto_bind_aic (snd (ans_auto_bind_pci (snd (sep_sync_aic_irq b)))))))"

lemma follow_run_wires:
  assumes "g_ready b" "lines_follow (snd (sep_sync_aic_irq b))" "fst (sep_sync_aic_irq b) = OK"
  shows "run_parts wires b = (OK, wired b)" "g_ready (wired b)" "lines_follow (wired b)"
proof -
  let ?d = "wired b"
  let ?a = "snd (sep_sync_aic_irq b)"
  let ?b = "snd (ans_auto_bind_pci ?a)"
  let ?c = "snd (ans_pci_auto_bind_aic ?b)"
  have a: "g_ready ?a" using assms(1) by (simp add: sep_sync_aic_irq_def)
  have b: "aside ?a ?b" "aside ?b ?c" "aside ?c ?d" by (simp_all add: wired_def)
  then have r: "g_ready ?b" "g_ready ?c" "g_ready ?d" using a by (simp_all add: aside_def)
  have f: "lines_follow ?b" "lines_follow ?c" using assms(2) b(1,2) aside_follows by blast+
  then show "lines_follow ?d" using b(3) aside_follows by blast
  show "g_ready ?d" by (rule r(3))
  have "fst (ans_pci_auto_bind_aic ?b) = OK" using f(1) by (intro bind_aic_ok r(1)) (simp add: lines_follow_def)
  then show "run_parts wires b = (OK, ?d)" by (simp add: wires_def run_parts_Cons assms(3) bind_pci_ok bind_msi_ok wired_def)
qed

definition woken :: "bool \<Rightarrow> 's m1_bridge \<Rightarrow> 's m1_bridge" where
  "woken efi b = (arm_sprr_hook (g_tlb_cpu b) (fresh efi b))\<lparr>g_ready := True\<rparr>"

lemma woken_sync: "lines_follow (snd (sep_sync_aic_irq (woken efi b)))" "fst (sep_sync_aic_irq (woken efi b)) = OK" "g_ready (woken efi b)"
proof -
  have a: "g_aic (woken efi b) = snd (vf_aic_init (g_aic b) 896 8)" by (simp add: woken_def arm_sprr_hook_def fresh_parts)
  have ok: "aic_ok (snd (vf_aic_init (g_aic b) 896 8))"
    using aic_inv_init [of "g_aic b" 896 8] by (simp add: aic_ok_def vf_aic_init_def aic_reset_state_def)
  have "aic_line (snd (vf_aic_init (g_aic b) 896 8)) n = False" if "n < 896" for n
    using that by (simp add: vf_aic_init_def aic_reset_state_def aic_line_def nth_replicate less_mult_imp_div_less)
  then show "lines_follow (snd (sep_sync_aic_irq (woken efi b)))"
    using ok
    by (simp add: follow_defs sep_sync_aic_irq_def a)
      (simp add: woken_def arm_sprr_hook_def fresh_parts vf_timer_init_def vf_adp_display_init_def vf_recovery_init_def vf_dart_init_def
        dart_reset_state_def vf_apple_uart_init_def vf_sep_mailbox_init_def vf_timer_irq_pending_def vf_adp_display_irq_pending_def
        vf_recovery_irq_pending_def vf_dart_irq_pending_def vf_apple_uart_irq_pending_def vf_sep_mailbox_irq_pending_def)
  show "fst (sep_sync_aic_irq (woken efi b)) = OK" using ok by (simp add: sep_sync_aic_irq_def a)
  show "g_ready (woken efi b)" by (simp add: woken_def)
qed

lemma reset_result: "vf_m1_guest_mmio_reset efi b = wired (woken efi b)"
  using follow_run_wires(1) [OF woken_sync(3) woken_sync(1) woken_sync(2), of efi b]
  by (simp add: vf_m1_guest_mmio_reset_def fresh_run fresh_parts woken_def [symmetric] wires_def)

lemma reset_follows: "g_ready (vf_m1_guest_mmio_reset efi b)" "lines_follow (vf_m1_guest_mmio_reset efi b)"
  using follow_run_wires(2,3) [OF woken_sync(3) woken_sync(1) woken_sync(2), of efi b] by (simp_all only: reset_result)

subsection \<open>Every operation\<close>

text \<open>The host may drive a line behind a device's back, and the guest may reset the controller, which drops the levels of all
  lines until the next change of a device. Everything else leaves the lines to the devices.\<close>

definition keeps_lines :: "'s bridge_op \<Rightarrow> bool" where
  "keeps_lines op \<longleftrightarrow>
     (case op of SetLine irq high \<Rightarrow> irq \<notin> {0, 2, 3, 4, 5, 6}
      | MmioWrite window off w v \<Rightarrow> \<not> (window = VF_M1_MMIO_WINDOW_AIC \<and> off = VF_AIC_REG_RST)
      | _ \<Rightarrow> True)"

lemma follow_read: "lines_follow b \<Longrightarrow> lines_follow (snd (vf_m1_guest_mmio_read efi window off w b))"
  by (simp add: vf_m1_guest_mmio_read_def follow_windows follow_smc_read follow_sep_read)

lemma follow_write:
  "lines_follow b \<Longrightarrow> window = VF_M1_MMIO_WINDOW_AIC \<longrightarrow> off \<noteq> VF_AIC_REG_RST \<Longrightarrow>
   lines_follow (snd (vf_m1_guest_mmio_write efi window off w v b))"
  by (simp add: vf_m1_guest_mmio_write_def follow_writes follow_plain_writes follow_dart_write follow_smc_read)

lemma follow_set_line:
  assumes "lines_follow b" "irq \<notin> {0, 2, 3, 4, 5, 6}"
  shows "lines_follow (snd (vf_m1_guest_aic_set_line irq high b))"
proof (cases "irq < 896")
  case True
  with assms show ?thesis by (simp add: vf_m1_guest_aic_set_line_def if_ready_def follow_defs)
next
  case False
  then have "snd (vf_aic_set_line (g_aic b) irq high) = g_aic b" using assms(1) by (simp add: vf_aic_set_line_def lines_follow_def aic_ok_def)
  with assms(1) show ?thesis by (simp add: vf_m1_guest_aic_set_line_def if_ready_def)
qed

lemma follow_storage:
  assumes "lines_follow b"
  shows "lines_follow (snd (vf_m1_guest_storage_attach n ro b))" "lines_follow (snd (vf_m1_guest_storage_detach b))"
  using assms follow_sync(7) [of "b\<lparr>g_storage := s\<rparr>" for s]
  by (auto simp: vf_m1_guest_storage_attach_def vf_m1_guest_storage_detach_def if_ready_def on_ok_def case_prod_beta split: rc.split)

text \<open>What the NVRAM operations and those of the guarded execution bank may change.\<close>

definition nvram_frame :: "'s m1_bridge \<Rightarrow> 's m1_bridge \<Rightarrow> bool" where
  "nvram_frame b b' \<longleftrightarrow> (\<exists>n k l m. b' = b\<lparr>g_nvram := n, g_blk := k, g_boot_args_len := m, g_boot_args := l\<rparr>)"

lemma nvram_frameI: "nvram_frame b (b\<lparr>g_nvram := n, g_blk := k, g_boot_args_len := m, g_boot_args := l\<rparr>)"
  by (auto simp: nvram_frame_def)

lemma nvram_frame_parts [simp]:
  "nvram_frame b b" "nvram_frame b (b\<lparr>g_blk := k\<rparr>)" "nvram_frame b (b\<lparr>g_nvram := n\<rparr>)"
  "nvram_frame b (clear_boot_args b)"
  using nvram_frameI [of b "g_boot_args b" "g_boot_args_len b" "g_blk b" "g_nvram b"]
    nvram_frameI [of b "g_boot_args b" "g_boot_args_len b" k "g_nvram b"]
    nvram_frameI [of b "g_boot_args b" "g_boot_args_len b" "g_blk b" n]
    nvram_frameI [of b "(g_boot_args b)[0 := 0]" 0 "g_blk b" "g_nvram b"]
  by (simp_all add: clear_boot_args_def)

lemma nvram_frame_trans: "nvram_frame b c \<Longrightarrow> nvram_frame c d \<Longrightarrow> nvram_frame b d"
  by (fastforce simp: nvram_frame_def)

lemma nvram_loaded_frame: "nvram_loaded out b = Some r \<Longrightarrow> nvram_frame b (snd r)"
  using nvram_frame_trans [OF nvram_frame_parts(3) nvram_frame_parts(4), of b]
  by (auto simp: nvram_loaded_def on_ok_def split: rc.split)

definition gxf_frame :: "'s m1_bridge \<Rightarrow> 's m1_bridge \<Rightarrow> bool" where
  "gxf_frame b b' \<longleftrightarrow> (\<exists>g c t. b' = b\<lparr>g_tlb_cpu := t, g_gxf := g, g_cpus := c\<rparr>)"

lemma gxf_frame_parts [simp]:
  "gxf_frame b b" "gxf_frame b (b\<lparr>g_gxf := g\<rparr>)" "gxf_frame b (settle_gxf g b)" "gxf_frame b (b\<lparr>g_tlb_cpu := t\<rparr>)"
  "gxf_frame b (arm_sprr_hook u (b\<lparr>g_tlb_cpu := t\<rparr>))"
proof -
  have f: "gxf_frame b (b\<lparr>g_tlb_cpu := t, g_gxf := g, g_cpus := c\<rparr>)" for g c t by (auto simp: gxf_frame_def)
  show "gxf_frame b b" using f [of "g_cpus b" "g_gxf b" "g_tlb_cpu b"] by simp
  show "gxf_frame b (b\<lparr>g_gxf := g\<rparr>)" using f [of "g_cpus b" g "g_tlb_cpu b"] by simp
  show "gxf_frame b (settle_gxf g b)" using settle_gxf_result [of g b] f [of _ g "g_tlb_cpu b"] by auto
  show "gxf_frame b (b\<lparr>g_tlb_cpu := t\<rparr>)" using f [of "g_cpus b" "g_gxf b" t] by simp
  show "gxf_frame b (arm_sprr_hook u (b\<lparr>g_tlb_cpu := t\<rparr>))" using f [of "g_cpus b" _ t] by (simp add: arm_sprr_hook_def)
qed

lemma frames_aside: "nvram_frame b b' \<Longrightarrow> aside b b'" "gxf_frame b b' \<Longrightarrow> aside b b'"
  by (auto simp: nvram_frame_def gxf_frame_def aside_def device_levels_def)

definition nvram_op :: "'s bridge_op \<Rightarrow> bool" where
  "nvram_op op \<longleftrightarrow> (case op of NvramIngest _ _ \<Rightarrow> True | NvramLoad _ \<Rightarrow> True | NvramAttach _ \<Rightarrow> True | NvramDetach \<Rightarrow> True
     | NvramSave \<Rightarrow> True | _ \<Rightarrow> False)"

definition gxf_op :: "'s bridge_op \<Rightarrow> bool" where
  "gxf_op op \<longleftrightarrow> (case op of GxfWrite _ _ _ \<Rightarrow> True | GxfGenter _ _ \<Rightarrow> True | GxfAbort _ _ _ _ \<Rightarrow> True
     | GxfException _ _ _ _ _ _ \<Rightarrow> True | GxfGexit \<Rightarrow> True | GxfTcg _ _ _ _ \<Rightarrow> True | GxfHcr _ \<Rightarrow> True | GxfVmsaLock _ \<Rightarrow> True
     | GxfBindTlb _ \<Rightarrow> True | _ \<Rightarrow> False)"

lemma nvram_attach_frame:
  assumes "vf_m1_guest_nvram_attach_research_image open_path path b = Some r"
  shows "nvram_frame b (snd r)"
proof (cases "g_ready b \<and> path \<noteq> [] \<and> open_path path \<noteq> None")
  case True
  then obtain blk where blk: "open_path path = Some blk" by auto
  from assms True obtain q where q: "nvram_loaded (vf_nvram_load_from_blk (g_nvram b) blk) (b\<lparr>g_blk := Some blk\<rparr>) = Some q"
    "snd r = snd q \<or> snd r = (snd q)\<lparr>g_blk := None\<rparr>"
    by (fastforce simp: vf_m1_guest_nvram_attach_research_image_def blk split: if_splits)
  have "nvram_frame b (snd q)" using nvram_frame_trans [OF nvram_frame_parts(2) nvram_loaded_frame [OF q(1)]] .
  with q(2) show ?thesis using nvram_frame_trans nvram_frame_parts(2) by metis
next
  case False
  with assms show ?thesis by (auto simp: vf_m1_guest_nvram_attach_research_image_def split: option.splits if_splits)
qed

lemma nvram_step_frame:
  assumes "nvram_op op" "bridge_step efi open_path op b = Some b'"
  shows "nvram_frame b b'"
proof (cases op)
  case (NvramIngest buf len)
  then show ?thesis
    using assms(2) nvram_loaded_frame [of "vf_nvram_ingest_bank (g_nvram b) buf len" b]
    by (auto simp: vf_m1_guest_nvram_ingest_bank_def split: if_splits)
next
  case (NvramLoad blk)
  then show ?thesis
    using assms(2) nvram_loaded_frame [of "vf_nvram_load_from_blk (g_nvram b) blk" b]
    by (auto simp: vf_m1_guest_nvram_load_from_blk_def split: if_splits)
next
  case (NvramAttach path)
  then show ?thesis using assms(2) nvram_attach_frame by auto
qed (use assms in \<open>auto simp: nvram_op_def vf_m1_guest_nvram_detach_blk_def vf_m1_guest_nvram_save_to_attached_def if_ready_def
       case_prod_beta split: option.split\<close>)

lemmas gxf_entry_defs = vf_m1_guest_gxf_write_el_def vf_m1_guest_gxf_genter_def vf_m1_guest_gxf_abort_def
  vf_m1_guest_gxf_take_exception_def vf_m1_guest_gxf_gexit_def vf_m1_guest_gxf_tcg_exec_def gxf_jump_def
  vf_m1_guest_gxf_set_hcr_el2_def vf_m1_guest_gxf_set_vmsa_lock_el1_def vf_m1_guest_gxf_bind_guest_tlb_def

lemma gxf_step_frame: "gxf_op op \<Longrightarrow> bridge_step efi open_path op b = Some b' \<Longrightarrow> gxf_frame b b'"
  by (cases op) (auto simp: gxf_op_def gxf_entry_defs case_prod_beta Let_def)

text \<open>The operations of the PCI function and of the NVMe controller.\<close>

definition pci_op :: "'s bridge_op \<Rightarrow> bool" where
  "pci_op op \<longleftrightarrow> (case op of PciBindAic \<Rightarrow> True | PciUnbindAic \<Rightarrow> True | PciSetIrq _ \<Rightarrow> True | PciBindMsi \<Rightarrow> True | PciUnbindMsi \<Rightarrow> True
     | PciPrepareMsi _ _ _ \<Rightarrow> True | PciPrepareMsix _ _ \<Rightarrow> True | AnsBindPci \<Rightarrow> True | AnsUnbindPci \<Rightarrow> True | AnsEnableIdentify \<Rightarrow> True
     | AnsSubmitIdentify \<Rightarrow> True | AnsMask _ \<Rightarrow> True | AnsDrain \<Rightarrow> True | _ \<Rightarrow> False)"

lemmas pci_entry_defs = vf_m1_guest_ans_pci_bind_aic_def vf_m1_guest_ans_pci_unbind_aic_def vf_m1_guest_ans_pci_set_irq_def
  vf_m1_guest_ans_pci_bind_msi_gpa_def vf_m1_guest_ans_pci_unbind_msi_gpa_def vf_m1_guest_ans_pci_prepare_msi_def
  vf_m1_guest_ans_pci_prepare_msix_def vf_m1_guest_ans_bind_pci_def vf_m1_guest_ans_unbind_pci_def
  vf_m1_guest_ans_enable_identify_path_def vf_m1_guest_ans_submit_admin_identify_def vf_m1_guest_ans_mask_admin_irq_def
  vf_m1_guest_ans_drain_admin_cq_def

lemma aside_plain [simp]: "aside b (b\<lparr>g_sq_tail := t\<rparr>)" "aside b (b\<lparr>g_store := w\<rparr>)" "aside b (b\<lparr>g_ans := a\<rparr>)"
  "aside b (b\<lparr>g_msi_gpa := m\<rparr>)"
  by (simp_all add: aside_def device_levels_def)

lemma aside_unbind_msi: "aside b (snd (pci_call f (b\<lparr>g_msi_gpa := m\<rparr>)))"
  by (rule aside_trans [OF aside_plain(4) aside_pci_call])

lemma pci_step_aside: "pci_op op \<Longrightarrow> bridge_step efi open_path op b = Some b' \<Longrightarrow> aside b b'"
  by (cases op) (auto simp: pci_op_def pci_entry_defs case_prod_beta Let_def aside_unbind_msi
      intro!: aside_if_ready aside_run_parts)

text \<open>Guest accesses and the host's device calls leave the rest of the bridge alone.\<close>

definition device_frame :: "'s m1_bridge \<Rightarrow> 's m1_bridge \<Rightarrow> bool" where
  "device_frame b b' \<longleftrightarrow> g_ready b' = g_ready b \<and> g_ans b' = g_ans b \<and> g_store b' = g_store b \<and> g_gxf b' = g_gxf b
     \<and> g_tlb_cpu b' = g_tlb_cpu b \<and> g_cpus b' = g_cpus b"

lemmas sync_defs = timer_sync_aic_irq_def adp_sync_aic_irq_def recovery_sync_aic_irq_def dart_sync_aic_irq_def uart_sync_aic_irq_def
  sep_sync_aic_irq_def storage_sync_aic_irq_def

lemma device_frame_reads:
  "device_frame b (snd (aic_dispatch_read b off w))" "device_frame b (snd (timer_dispatch_read b off w))"
  "device_frame b (snd (dart_dispatch_read b off w))" "device_frame b (snd (storage_dispatch_read b off w))"
  "device_frame b (snd (recovery_dispatch_read b off w))" "device_frame b (snd (adp_dispatch_read b off w))"
  "device_frame b (snd (uart_dispatch_read b off w))" "device_frame b (snd (sart_dispatch_read b off w))"
  "device_frame b (snd (nvram_dispatch_read b off w))" "device_frame b (snd (smc_dispatch_read efi b off w))"
  "device_frame b (snd (sep_dispatch_read b off w))"
  by (simp_all add: device_frame_def aic_dispatch_read_def timer_dispatch_read_def dart_dispatch_read_def storage_dispatch_read_def
      recovery_dispatch_read_def adp_dispatch_read_def uart_dispatch_read_def sart_dispatch_read_def nvram_dispatch_read_def
      smc_dispatch_read_def sep_dispatch_read_def sync_defs case_prod_beta split: option.split rc.split)

lemma device_frame_writes:
  "device_frame b (snd (aic_dispatch_write b off w v))" "device_frame b (snd (timer_dispatch_write b off w v))"
  "device_frame b (snd (dart_dispatch_write b off w v))" "device_frame b (snd (storage_dispatch_write b off w v))"
  "device_frame b (snd (recovery_dispatch_write b off w v))" "device_frame b (snd (adp_dispatch_write b off w v))"
  "device_frame b (snd (uart_dispatch_write b off w v))" "device_frame b (snd (sart_dispatch_write b off w v))"
  "device_frame b (snd (nvram_dispatch_write b off w v))" "device_frame b (snd (smc_dispatch_write efi b off w v))"
  "device_frame b (snd (sep_dispatch_write b off w v))"
  by (simp_all add: device_frame_def aic_dispatch_write_def timer_dispatch_write_def dart_dispatch_write_def storage_dispatch_write_def
      recovery_dispatch_write_def adp_dispatch_write_def uart_dispatch_write_def sart_dispatch_write_def nvram_dispatch_write_def
      smc_dispatch_write_def sep_dispatch_write_def sync_defs case_prod_beta Let_def clear_boot_args_def split: option.split rc.split)

lemma device_frame_refl [simp]: "device_frame b b"
  by (simp add: device_frame_def)

lemma device_frame_access:
  "device_frame b (snd (vf_m1_guest_mmio_read efi window off w b))" "device_frame b (snd (vf_m1_guest_mmio_write efi window off w v b))"
  by (simp_all add: vf_m1_guest_mmio_read_def vf_m1_guest_mmio_write_def device_frame_reads device_frame_writes)

definition device_op :: "'s bridge_op \<Rightarrow> bool" where
  "device_op op \<longleftrightarrow> (case op of MmioRead _ _ _ \<Rightarrow> True | MmioWrite _ _ _ _ \<Rightarrow> True | SetLine _ _ \<Rightarrow> True | DartFault _ _ \<Rightarrow> True
     | UartPush _ \<Rightarrow> True | TimerAdvance _ \<Rightarrow> True | StorageAttach _ _ \<Rightarrow> True | StorageDetach \<Rightarrow> True | RecoveryIngest _ \<Rightarrow> True
     | RecoveryClear \<Rightarrow> True | AdpConfigure _ _ _ _ _ \<Rightarrow> True | _ \<Rightarrow> False)"

lemma device_frame_calls:
  "device_frame b (snd (vf_m1_guest_aic_set_line irq high b))" "device_frame b (snd (vf_m1_guest_dart_simulate_fault sid code b))"
  "device_frame b (snd (vf_m1_guest_uart_push_rx byte b))" "device_frame b (snd (vf_m1_guest_timer_advance ticks b))"
  "device_frame b (snd (vf_m1_guest_storage_attach n ro b))" "device_frame b (snd (vf_m1_guest_storage_detach b))"
  "device_frame b (snd (vf_m1_guest_recovery_ingest frame b))" "device_frame b (snd (vf_m1_guest_recovery_clear b))"
  "device_frame b (snd (vf_m1_guest_adp_configure ga bb wd h stride b))"
  by (simp_all add: device_frame_def vf_m1_guest_aic_set_line_def vf_m1_guest_dart_simulate_fault_def vf_m1_guest_uart_push_rx_def
      vf_m1_guest_timer_advance_def vf_m1_guest_storage_attach_def vf_m1_guest_storage_detach_def vf_m1_guest_recovery_ingest_def
      vf_m1_guest_recovery_clear_def vf_m1_guest_adp_configure_def if_ready_def on_ok_def sync_defs case_prod_beta split: rc.split)

lemma device_step_frame: "device_op op \<Longrightarrow> bridge_step efi open_path op b = Some b' \<Longrightarrow> device_frame b b'"
  by (cases op) (auto simp: device_op_def device_frame_access device_frame_calls)

lemma op_cases:
  obtains (reset) "op = Reset" | (device) "device_op op" | (nvram) "nvram_op op" | (gxf) "gxf_op op" | (pci) "pci_op op"
  by (cases op) (simp_all add: device_op_def nvram_op_def gxf_op_def pci_op_def)

lemma follow_device_step:
  assumes "device_op op" "keeps_lines op" "lines_follow b" "bridge_step efi open_path op b = Some b'"
  shows "lines_follow b'"
  using assms
  by (cases op) (auto simp: device_op_def keeps_lines_def follow_read follow_write follow_set_line follow_calls follow_storage
      follow_recovery_ingest)

lemma follow_step:
  assumes "keeps_lines op" "g_ready b \<and> lines_follow b" "bridge_step efi open_path op b = Some b'"
  shows "g_ready b' \<and> lines_follow b'"
proof (cases op rule: op_cases)
  case reset
  with assms(3) show ?thesis using reset_follows by auto
next
  case device
  show ?thesis
    using device_step_frame [OF device assms(3)] follow_device_step [OF device assms(1) _ assms(3)] assms(2) by (simp add: device_frame_def)
next
  case nvram
  then have "aside b b'" using nvram_step_frame [OF nvram assms(3)] frames_aside(1) by blast
  with assms(2) show ?thesis using aside_follows by (auto simp: aside_def)
next
  case gxf
  then have "aside b b'" using gxf_step_frame [OF gxf assms(3)] frames_aside(2) by blast
  with assms(2) show ?thesis using aside_follows by (auto simp: aside_def)
next
  case pci
  then have "aside b b'" using pci_step_aside [OF pci assms(3)] by blast
  with assms(2) show ?thesis using aside_follows by (auto simp: aside_def)
qed

text \<open>An invariant of the steps is one of the runs.\<close>

lemma bridge_run_inv:
  assumes step: "\<And>op b b'. P op \<Longrightarrow> I b \<Longrightarrow> bridge_step efi open_path op b = Some b' \<Longrightarrow> I b'"
  shows "list_all P ops \<Longrightarrow> I b \<Longrightarrow> bridge_run efi open_path ops b = Some b' \<Longrightarrow> I b'"
proof (induction ops arbitrary: b)
  case (Cons op ops)
  then obtain b1 where b1: "bridge_step efi open_path op b = Some b1" "bridge_run efi open_path ops b1 = Some b'"
    by (auto simp: bind_eq_Some_conv)
  then show ?case using Cons.IH [OF _ _ b1(2)] step [OF _ Cons.prems(2) b1(1)] Cons.prems(1) by simp
qed simp

lemma follow_run:
  assumes "list_all keeps_lines ops" "bridge_run efi open_path (Reset # ops) b = Some b'"
  shows "g_ready b' \<and> lines_follow b'"
proof (rule bridge_run_inv [of keeps_lines _ efi open_path ops "vf_m1_guest_mmio_reset efi b"])
  show "bridge_run efi open_path ops (vf_m1_guest_mmio_reset efi b) = Some b'" using assms(2) by simp
qed (use follow_step assms(1) reset_follows in \<open>blast+\<close>)

section \<open>Properties\<close>

text \<open>C10. Whatever sequence of guest accesses and host calls follows a reset, the level of each of the six lines the bridge drives
  for a device (timer, display, recovery log, DART, serial port, SEP mailbox) is the pending state of that device, as long as no
  access resets the interrupt controller and no call overrides one of these lines.\<close>

theorem bridge_lines_follow_devices:
  assumes "list_all keeps_lines ops" "bridge_run efi open_path (Reset # ops) b = Some b'"
  shows "g_ready b' \<and> (\<forall>(n, level) \<in> set (device_levels b'). aic_line (g_aic b') n = level)"
  using follow_run [OF assms] by (simp add: lines_follow_def)

lemma reset_state:
  "g_dart (vf_m1_guest_mmio_reset efi b) = snd (vf_dart_init (g_dart b))"
  by (simp add: reset_result wired_def ans_pci_auto_bind_msi_gpa_def pci_call_def ans_pci_auto_bind_aic_def ans_auto_bind_pci_def
      ans_call_def settle_pci_result sink_calls_result sep_sync_aic_irq_def case_prod_beta Let_def woken_def arm_sprr_hook_def fresh_parts)

lemma dart_fault_pending:
  assumes "lines_follow b" "g_ready b" "g_dart b = snd (vf_dart_init d)"
  shows "vf_dart_irq_pending (g_dart (snd (vf_m1_guest_dart_simulate_fault 1 1 b)))"
  using assms
  by (simp add: vf_m1_guest_dart_simulate_fault_def if_ready_def on_ok_def case_prod_beta sync_defs vf_dart_simulate_fault_def
      vf_dart_init_def dart_reset_state_def vf_dart_irq_pending_def Let_def split: rc.split)

theorem bridge_lines_follow_devices_witness:
  "\<forall>b :: unit m1_bridge. \<exists>b'. bridge_run True (\<lambda>_. None) [Reset, DartFault 1 1, MmioRead VF_M1_MMIO_WINDOW_DART 0 32] b = Some b'
     \<and> aic_line (g_aic b') VF_M1_DART_IRQ_LINE"
proof
  fix b :: "unit m1_bridge"
  let ?ops = "[DartFault 1 1, MmioRead VF_M1_MMIO_WINDOW_DART 0 32] :: unit bridge_op list"
  let ?b1 = "snd (vf_m1_guest_dart_simulate_fault 1 1 (vf_m1_guest_mmio_reset True b))"
  let ?b' = "snd (vf_m1_guest_mmio_read True VF_M1_MMIO_WINDOW_DART 0 32 ?b1)"
  have r: "bridge_run True (\<lambda>_. None) (Reset # ?ops) b = Some ?b'" by simp
  have l: "\<forall>(n, level) \<in> set (device_levels ?b'). aic_line (g_aic ?b') n = level"
    using bridge_lines_follow_devices [OF _ r] by (simp add: keeps_lines_def)
  have "vf_dart_irq_pending (g_dart ?b1)"
    using reset_follows [of True b] by (intro dart_fault_pending) (simp_all add: reset_state)
  then have "vf_dart_irq_pending (g_dart ?b')"
    by (simp add: vf_m1_guest_mmio_read_def dart_dispatch_read_def case_prod_beta)
  with l have "aic_line (g_aic ?b') VF_M1_DART_IRQ_LINE" by (simp add: device_levels_def)
  with r show "\<exists>b'. bridge_run True (\<lambda>_. None) [Reset, DartFault 1 1, MmioRead VF_M1_MMIO_WINDOW_DART 0 32] b = Some b'
     \<and> aic_line (g_aic b') VF_M1_DART_IRQ_LINE" by blast
qed

end
