(* ===== verification/Wiring.thy ===== *)
theory Wiring
  imports Lines
begin

unbundle bit_operations_syntax

text \<open>
  The storage line, which the bridge wires through the PCI function to the NVMe controller: the calls of the function that reach the
  interrupt controller, the invariant of the wiring, and an Identify command from the doorbell to the interrupt and back.
\<close>

section \<open>The storage line and the NVMe controller\<close>

text \<open>From one state of the PCI function to a later one: while it stays bound, its record of calls only grows, by calls on line 1.\<close>

definition pci_logs :: "vf_ans_pci_v1 \<Rightarrow> vf_ans_pci_v1 \<Rightarrow> bool" where
  "pci_logs p p' \<longleftrightarrow> (pci_aic_fn p' \<noteq> None \<longrightarrow> pci_aic_fn p \<noteq> None
     \<and> (\<exists>calls. pci_aic_log p' = pci_aic_log p @ calls \<and> list_all (\<lambda>c. fst c = 1) calls))"

lemma pci_logs_same: "pci_aic_fn p' = pci_aic_fn p \<Longrightarrow> pci_aic_log p' = pci_aic_log p \<Longrightarrow> pci_logs p p'"
  by (simp add: pci_logs_def)

lemma pci_logs_trans: "pci_logs p q \<Longrightarrow> pci_logs q r \<Longrightarrow> pci_logs p r"
  by (fastforce simp: pci_logs_def)

lemma pci_logs_sync: "pci_aic_fn s = pci_aic_fn p \<Longrightarrow> pci_aic_log s = pci_aic_log p \<Longrightarrow> pci_logs p (snd (ans_pci_sync_aic s))"
  by (auto simp: pci_logs_def ans_pci_sync_aic_def Let_def split: option.split)

lemma pci_logs_set_irq: "pci_logs p (snd (vf_ans_pci_set_irq p level))"
  by (simp add: vf_ans_pci_set_irq_def Let_def pci_logs_sync)

lemma pci_logs_write: "pci_logs p (snd (vf_ans_pci_write p off w v))"
  by (simp add: vf_ans_pci_write_def ans_pci_apply_msi_enable_def ans_pci_apply_msix_enable_def Let_def pci_logs_sync pci_logs_same)

lemma pci_logs_other:
  "pci_logs p (snd (vf_ans_pci_enable_memory_bus_master p))" "pci_logs p (snd (vf_ans_pci_bind_msi_gpa p mem len base))"
  "pci_logs p (snd (vf_ans_pci_bind_aic p None))"
  by (simp_all add: vf_ans_pci_enable_memory_bus_master_def vf_ans_pci_bind_msi_gpa_def vf_ans_pci_bind_aic_def pci_logs_same Let_def
      split: option.split) (simp add: pci_logs_def)

lemma ans_logs_sync: "w_pci w' = w_pci w \<Longrightarrow> pci_logs (w_pci w q) (w_pci (ans_sync_pci_irq a w') q)"
  by (simp add: ans_sync_pci_irq_def pci_logs_set_irq pci_logs_same split: option.split)

lemma ans_logs_write: "pci_logs (w_pci w q) (w_pci (snd (snd (vf_ans_write a off width v w))) q)"
proof (rule ans_write_rule [of a _ w])
  fix i
  have "pci_logs (w_pci w q) (w_pci (snd (ans_try_admin_identify_on_doorbell b t w)) q)" for b t
    by (cases rule: ans_try_cases [of b t w])
      (simp_all add: ans_post_admin_identify_cqe_def Let_def ans_logs_sync pci_logs_same)
  then show "pci_logs (w_pci w q) (w_pci (snd (vf_ans_write_doorbell a i v w)) q)"
    by (simp add: vf_ans_write_doorbell_def ans_refresh_admin_cq_irq_def Let_def ans_logs_sync pci_logs_same)
qed (simp_all add: ans_logs_sync pci_logs_same)

lemma ans_logs_bind: "pci_logs (w_pci w q) (w_pci (snd (vf_ans_bind_pci a p w)) q)"
proof -
  let ?w = "case ans_pci a of None \<Rightarrow> w
     | Some q \<Rightarrow> if p \<noteq> Some q then w\<lparr>w_pci := (w_pci w)(q := snd (vf_ans_pci_set_irq (w_pci w q) False))\<rparr> else w"
  have "pci_logs (w_pci w q) (w_pci ?w q)" by (simp add: pci_logs_set_irq pci_logs_same split: option.split)
  moreover have "pci_logs (w_pci ?w q) (w_pci (snd (vf_ans_bind_pci a p w)) q)"
    by (simp add: vf_ans_bind_pci_def Let_def ans_logs_sync pci_logs_same del: fun_upd_apply)
  ultimately show ?thesis by (rule pci_logs_trans)
qed

text \<open>The invariant; the flag tells whether the level of the NVMe controller is claimed too.\<close>

definition pci_wired :: "bool \<Rightarrow> 's m1_bridge \<Rightarrow> bool" where
  "pci_wired m b \<longleftrightarrow> g_ready b \<and> aic_ok (g_aic b) \<and> pcis_inv (g_store b)
     \<and> (pci_aic_fn (g_pci b) \<noteq> None \<longrightarrow> aic_line (g_aic b) 1 = ans_pci_delivery_pending_level (g_pci b))
     \<and> (m \<longrightarrow> ans_mirror (g_ans b) (g_store b))"

lemma sunk_settled:
  assumes "aic_ok a" "pci_inv p" "pci_inv p'" "pci_logs p p'"
    "pci_aic_fn p \<noteq> None \<longrightarrow> aic_line a 1 = ans_pci_delivery_pending_level p" "pci_aic_fn p' \<noteq> None"
  shows "aic_line (sunk True (drop (length (pci_aic_log p)) (pci_aic_log p')) a) 1 = ans_pci_delivery_pending_level p'"
proof -
  obtain calls where c: "pci_aic_log p' = pci_aic_log p @ calls" "list_all (\<lambda>c. fst c = 1) calls" "pci_aic_fn p \<noteq> None"
    using assms(4,6) by (auto simp: pci_logs_def)
  have l: "last (pci_aic_log p) = (1, ans_pci_delivery_pending_level p)" "last (pci_aic_log p') = (1, ans_pci_delivery_pending_level p')"
    using assms(2,3,6) c(3) by (simp_all add: pci_inv_def pci_line_inv_def)
  then show ?thesis
    using assms(1,5) c(1,3) sunk_line [OF assms(1) TrueI c(2)] by (cases "calls = []") simp_all
qed

lemma pci_wired_settle:
  assumes "pci_wired m b" "pci_logs (g_pci b) (w_pci w 0)" "pcis_inv w" "m \<longrightarrow> ans_mirror a w"
  shows "pci_wired m (settle_pci w (b\<lparr>g_ans := a\<rparr>))"
proof -
  have "pci_inv (g_pci b)" "pci_inv (w_pci w 0)" using assms(1,3) by (simp_all add: pci_wired_def pcis_inv_def g_pci_def)
  then show ?thesis
    using assms(1,3,4) sunk_settled [OF _ _ _ assms(2), of "g_aic b"]
    by (auto simp: pci_wired_def settle_pci_result) (simp_all add: g_pci_def)
qed

lemma pci_wired_ans_call:
  assumes "pci_wired m b"
    "pci_logs (g_pci b) (w_pci (snd (snd (f (g_ans b) (g_store b)))) 0)" "pcis_inv (snd (snd (f (g_ans b) (g_store b))))"
    "m \<longrightarrow> ans_mirror (fst (snd (f (g_ans b) (g_store b)))) (snd (snd (f (g_ans b) (g_store b))))"
  shows "pci_wired m (snd (ans_call f b))"
  using pci_wired_settle [OF assms] by (simp add: ans_call_def case_prod_beta)

lemma pci_wired_pci_call:
  assumes "pci_wired m b" "pci_logs (g_pci b) (snd (f (g_pci b)))" "pci_inv (snd (f (g_pci b)))"
    "m \<longrightarrow> ans_pci_delivery_pending_level (snd (f (g_pci b))) = ans_pci_delivery_pending_level (g_pci b)"
  shows "pci_wired m (snd (pci_call f b))"
proof -
  let ?w = "put_pci (snd (f (g_pci b))) (g_store b)"
  have "pcis_inv ?w" using assms(1,3) by (simp add: pci_wired_def put_pci_def pcis_inv_def)
  moreover have "m \<longrightarrow> ans_mirror (g_ans b) ?w"
    using assms(1,4) by (auto simp: pci_wired_def put_pci_def ans_mirror_def vf_ans_pci_delivery_pending_def g_pci_def)
  ultimately have "pci_wired m (settle_pci ?w (b\<lparr>g_ans := g_ans b\<rparr>))"
    using assms(2) by (intro pci_wired_settle assms(1)) (simp_all add: put_pci_def)
  then show ?thesis by (simp add: pci_call_def case_prod_beta)
qed

lemma run_parts_inv:
  assumes "\<And>f b. f \<in> set fs \<Longrightarrow> I b \<Longrightarrow> I (snd (f b))" "I b"
  shows "I (snd (run_parts fs b))"
  using assms by (induction fs arbitrary: b) (simp_all add: run_parts_Cons)

lemma pci_wired_pci:
  "pci_wired m b \<Longrightarrow> pci_inv (g_pci b)" "pci_wired m b \<Longrightarrow> pcis_inv (g_store b)"
  by (simp_all add: pci_wired_def pcis_inv_def g_pci_def)

lemma pci_wired_fields [simp]:
  "pci_wired m (b\<lparr>g_sq_tail := t\<rparr>) = pci_wired m b" "pci_wired m (b\<lparr>g_msi_gpa := x\<rparr>) = pci_wired m b"
  "pci_wired m (b\<lparr>g_store := (g_store b)\<lparr>w_mem := y\<rparr>\<rparr>) = pci_wired m b"
  by (simp_all add: pci_wired_def g_pci_def pcis_inv_def ans_mirror_def)

lemma pci_wired_write: "pci_wired m b \<Longrightarrow> pci_wired m (snd (pci_call (\<lambda>p. vf_ans_pci_write p off w v) b))"
  by (rule pci_wired_pci_call) (simp_all add: pci_logs_write pci_inv_write pci_write_level pci_wired_pci)

lemma pci_wired_msi: "pci_wired m b \<Longrightarrow> pci_wired m (snd (pci_call (\<lambda>p. vf_ans_pci_bind_msi_gpa p mem len base) b))"
proof (rule pci_wired_pci_call)
  have "ans_pci_delivery_pending_level (snd (vf_ans_pci_bind_msi_gpa p mem len base)) = ans_pci_delivery_pending_level p" for p
    by (simp add: vf_ans_pci_bind_msi_gpa_def ans_pci_delivery_pending_level_def split: option.split)
  then show "m \<longrightarrow> ans_pci_delivery_pending_level (snd (vf_ans_pci_bind_msi_gpa (g_pci b) mem len base)) = ans_pci_delivery_pending_level (g_pci b)"
    by simp
qed (simp_all add: pci_logs_other pci_bind_inv pci_wired_pci)

lemma pci_wired_master: "pci_wired m b \<Longrightarrow> pci_wired m (snd (pci_call vf_ans_pci_enable_memory_bus_master b))"
proof (rule pci_wired_pci_call)
  show "m \<longrightarrow> ans_pci_delivery_pending_level (snd (vf_ans_pci_enable_memory_bus_master (g_pci b))) = ans_pci_delivery_pending_level (g_pci b)"
    by (simp add: vf_ans_pci_enable_memory_bus_master_def ans_pci_delivery_pending_level_def)
qed (simp_all add: pci_logs_other pci_bind_inv pci_wired_pci)

lemma pci_wired_unbind: "pci_wired m b \<Longrightarrow> pci_wired m (snd (pci_call (\<lambda>p. vf_ans_pci_bind_aic p None) b))"
proof (rule pci_wired_pci_call)
  show "m \<longrightarrow> ans_pci_delivery_pending_level (snd (vf_ans_pci_bind_aic (g_pci b) None)) = ans_pci_delivery_pending_level (g_pci b)"
    by (simp add: vf_ans_pci_bind_aic_def ans_pci_delivery_pending_level_def)
qed (simp_all add: pci_logs_other pci_bind_aic_inv pci_wired_pci)

lemma pci_wired_set_irq: "pci_wired False b \<Longrightarrow> pci_wired False (snd (pci_call (\<lambda>p. vf_ans_pci_set_irq p level) b))"
proof (rule pci_wired_pci_call)
  assume "pci_wired False b"
  then show "pci_inv (snd (vf_ans_pci_set_irq (g_pci b) level))"
    using pci_wired_pci(1) [of False b] by (intro pci_set_irq_ok) (simp add: pci_inv_def)
qed (simp_all add: pci_logs_set_irq)

lemma pci_wired_bind:
  assumes "pci_wired m b"
  shows "pci_wired m (snd (ans_pci_auto_bind_aic b))"
proof -
  define p where "p = snd (vf_ans_pci_bind_aic (g_pci b) (Some (\<lambda>_ (irq, high). fst (m1_ans_pci_aic_sink irq high b) = OK)))"
  have i: "pci_inv p" unfolding p_def by (intro pci_bind_aic_inv pci_wired_pci(1) [OF assms])
  have p: "pci_aic_log p = [(1, ans_pci_delivery_pending_level p)]"
    "ans_pci_delivery_pending_level p = ans_pci_delivery_pending_level (w_pci (g_store b) 0)"
    by (auto simp: p_def g_pci_def vf_ans_pci_bind_aic_def ans_pci_sync_aic_def ans_pci_delivery_pending_level_def Let_def)
  have r: "snd (ans_pci_auto_bind_aic b) = b\<lparr>g_store := put_pci p (g_store b), g_aic := sunk (g_ready b) (pci_aic_log p) (g_aic b)\<rparr>"
    by (simp add: ans_pci_auto_bind_aic_def case_prod_beta sink_calls_result p_def)
  show ?thesis
    using assms i sunk_line [of "g_aic b" True "pci_aic_log p"]
    by (auto simp: r pci_wired_def p pcis_inv_def put_pci_def ans_mirror_def vf_ans_pci_delivery_pending_def g_pci_def)
qed

lemma pci_wired_ans_write:
  "pci_wired m b \<Longrightarrow> pci_wired m (snd (ans_call (\<lambda>a. vf_ans_write a off w v) b))"
  using ans_logs_write [of "g_store b" 0] by (intro pci_wired_ans_call) (auto simp: g_pci_def pci_wired_def intro: pcis_inv_write ans_write_mirror)

lemma pci_wired_bind_pci:
  assumes "pci_wired m b"
  shows "pci_wired m (snd (ans_call (\<lambda>a w. (OK, vf_ans_bind_pci a p w)) b))"
proof (rule pci_wired_ans_call [OF assms])
  let ?r = "vf_ans_bind_pci (g_ans b) p (g_store b)"
  have w: "pcis_inv (case ans_pci (g_ans b) of None \<Rightarrow> g_store b
     | Some q \<Rightarrow> if p \<noteq> Some q then (g_store b)\<lparr>w_pci := (w_pci (g_store b))(q := snd (vf_ans_pci_set_irq (w_pci (g_store b) q) False))\<rparr> else g_store b)"
    using pci_wired_pci(2) [OF assms] by (auto simp: pcis_inv_upd pcis_inv_set_irq split: option.split)
  show "pcis_inv (snd (snd (OK, ?r)))" using w by (simp add: vf_ans_bind_pci_def Let_def pcis_inv_sync)
  show "m \<longrightarrow> ans_mirror (fst (snd (OK, ?r))) (snd (snd (OK, ?r)))"
    by (cases p) (simp_all add: vf_ans_bind_pci_def Let_def, simp add: ans_mirror_def)
  show "pci_logs (g_pci b) (w_pci (snd (snd (OK, ?r))) 0)" using ans_logs_bind [of "g_store b" 0] by (simp add: g_pci_def)
qed

lemma pci_wired_arm:
  "pci_wired m b \<Longrightarrow> pci_wired m (b\<lparr>g_ans := snd (vf_ans_arm_admin_identify (g_ans b) opc cns buf len cq cqlen)\<rparr>)"
  by (simp add: pci_wired_def g_pci_def vf_ans_arm_admin_identify_def ans_mirror_def vf_ans_irq_check_def ans_irq_level_def)

lemmas pci_wired_calls = pci_wired_write pci_wired_msi pci_wired_master pci_wired_unbind pci_wired_bind pci_wired_ans_write
  pci_wired_bind_pci pci_wired_arm

text \<open>The operations that leave line 1 to the PCI function, and those that leave the function to the NVMe controller.\<close>

definition keeps_storage_line :: "bool \<Rightarrow> 's bridge_op \<Rightarrow> bool" where
  "keeps_storage_line m op \<longleftrightarrow>
     (case op of SetLine irq high \<Rightarrow> irq \<noteq> VF_M1_STORAGE_IRQ_LINE
      | MmioWrite window off w v \<Rightarrow> \<not> (window = VF_M1_MMIO_WINDOW_AIC \<and> off = VF_AIC_REG_RST)
      | StorageAttach n ro \<Rightarrow> False | StorageDetach \<Rightarrow> False | PciSetIrq level \<Rightarrow> \<not> m
      | _ \<Rightarrow> True)"

lemma pci_wired_pci_step:
  assumes "pci_op op" "keeps_storage_line m op" "pci_wired m b" "bridge_step efi open_path op b = Some b'"
  shows "pci_wired m b'"
  using assms
  by (cases op) (auto simp: pci_op_def keeps_storage_line_def pci_entry_defs if_ready_def case_prod_beta Let_def pci_wired_set_irq
      ans_auto_bind_pci_def ans_pci_auto_bind_msi_gpa_def intro!: run_parts_inv [where I = "pci_wired m"] pci_wired_calls)

lemma device_frame_wired:
  assumes "device_frame b b'" "aic_ok (g_aic b')" "aic_line (g_aic b') 1 = aic_line (g_aic b) 1" "pci_wired m b"
  shows "pci_wired m b'"
  using assms by (simp add: pci_wired_def device_frame_def g_pci_def)

text \<open>The controller after a device operation.\<close>

definition line_kept :: "'s m1_bridge \<Rightarrow> 's m1_bridge \<Rightarrow> bool" where
  "line_kept b b' \<longleftrightarrow> aic_ok (g_aic b') \<and> aic_line (g_aic b') 1 = aic_line (g_aic b) 1"

lemma line_kept_reads:
  assumes "aic_ok (g_aic b)"
  shows "line_kept b (snd (vf_m1_guest_mmio_read efi window off w b))"
proof -
  have "line_kept b (snd (aic_dispatch_read b off w))" "line_kept b (snd (timer_dispatch_read b off w))"
    "line_kept b (snd (dart_dispatch_read b off w))" "line_kept b (snd (storage_dispatch_read b off w))"
    "line_kept b (snd (recovery_dispatch_read b off w))" "line_kept b (snd (adp_dispatch_read b off w))"
    "line_kept b (snd (uart_dispatch_read b off w))" "line_kept b (snd (sart_dispatch_read b off w))"
    "line_kept b (snd (nvram_dispatch_read b off w))" "line_kept b (snd (smc_dispatch_read efi b off w))"
    "line_kept b (snd (sep_dispatch_read b off w))"
    using assms
    by (simp_all add: line_kept_def aic_dispatch_read_def timer_dispatch_read_def dart_dispatch_read_def storage_dispatch_read_def
        recovery_dispatch_read_def adp_dispatch_read_def uart_dispatch_read_def sart_dispatch_read_def nvram_dispatch_read_def
        smc_dispatch_read_def sep_dispatch_read_def sync_defs case_prod_beta split: option.split rc.split)
  moreover have "line_kept b b" using assms by (simp add: line_kept_def)
  ultimately show ?thesis by (simp add: vf_m1_guest_mmio_read_def)
qed

lemma line_kept_writes:
  assumes "aic_ok (g_aic b)" "window = VF_M1_MMIO_WINDOW_AIC \<longrightarrow> off \<noteq> VF_AIC_REG_RST"
  shows "line_kept b (snd (vf_m1_guest_mmio_write efi window off w v b))"
proof -
  have "line_kept b (snd (timer_dispatch_write b off w v))"
    "line_kept b (snd (dart_dispatch_write b off w v))" "line_kept b (snd (storage_dispatch_write b off w v))"
    "line_kept b (snd (recovery_dispatch_write b off w v))" "line_kept b (snd (adp_dispatch_write b off w v))"
    "line_kept b (snd (uart_dispatch_write b off w v))" "line_kept b (snd (sart_dispatch_write b off w v))"
    "line_kept b (snd (nvram_dispatch_write b off w v))" "line_kept b (snd (smc_dispatch_write efi b off w v))"
    "line_kept b (snd (sep_dispatch_write b off w v))"
    using assms(1)
    by (simp_all add: line_kept_def timer_dispatch_write_def dart_dispatch_write_def storage_dispatch_write_def
      recovery_dispatch_write_def adp_dispatch_write_def uart_dispatch_write_def sart_dispatch_write_def nvram_dispatch_write_def
      smc_dispatch_write_def sep_dispatch_write_def sync_defs case_prod_beta Let_def clear_boot_args_def split: option.split rc.split)
  moreover have "off \<noteq> VF_AIC_REG_RST \<Longrightarrow> line_kept b (snd (aic_dispatch_write b off w v))"
    using assms(1) by (simp add: line_kept_def aic_dispatch_write_def case_prod_beta)
  moreover have "line_kept b b" using assms(1) by (simp add: line_kept_def)
  ultimately show ?thesis using assms(2) by (simp add: vf_m1_guest_mmio_write_def)
qed

lemma line_kept_calls:
  assumes "aic_ok (g_aic b)"
  shows "irq \<noteq> 1 \<Longrightarrow> line_kept b (snd (vf_m1_guest_aic_set_line irq high b))"
    "line_kept b (snd (vf_m1_guest_dart_simulate_fault sid code b))"
    "line_kept b (snd (vf_m1_guest_uart_push_rx byte b))" "line_kept b (snd (vf_m1_guest_timer_advance ticks b))"
    "line_kept b (snd (vf_m1_guest_recovery_ingest frame b))" "line_kept b (snd (vf_m1_guest_recovery_clear b))"
    "line_kept b (snd (vf_m1_guest_adp_configure ga bb wd h stride b))"
proof -
  show "line_kept b (snd (vf_m1_guest_dart_simulate_fault sid code b))"
    "line_kept b (snd (vf_m1_guest_uart_push_rx byte b))" "line_kept b (snd (vf_m1_guest_timer_advance ticks b))"
    "line_kept b (snd (vf_m1_guest_recovery_ingest frame b))" "line_kept b (snd (vf_m1_guest_recovery_clear b))"
    "line_kept b (snd (vf_m1_guest_adp_configure ga bb wd h stride b))"
    using assms
    by (simp_all add: line_kept_def vf_m1_guest_dart_simulate_fault_def vf_m1_guest_uart_push_rx_def
      vf_m1_guest_timer_advance_def vf_m1_guest_recovery_ingest_def
      vf_m1_guest_recovery_clear_def vf_m1_guest_adp_configure_def if_ready_def on_ok_def sync_defs case_prod_beta split: rc.split)
  have "\<not> irq < 896 \<Longrightarrow> snd (vf_aic_set_line (g_aic b) irq high) = g_aic b"
    using assms by (simp add: vf_aic_set_line_def aic_ok_def)
  then show "irq \<noteq> 1 \<Longrightarrow> line_kept b (snd (vf_m1_guest_aic_set_line irq high b))"
    using assms by (cases "irq < 896") (simp_all add: line_kept_def vf_m1_guest_aic_set_line_def if_ready_def)
qed

lemma pci_wired_device_step:
  assumes "device_op op" "keeps_storage_line m op" "pci_wired m b" "bridge_step efi open_path op b = Some b'"
  shows "pci_wired m b'"
proof -
  have "aic_ok (g_aic b)" using assms(3) by (simp add: pci_wired_def)
  then have "line_kept b b'"
    using assms(1,2,4)
    by (cases op) (auto simp: device_op_def keeps_storage_line_def line_kept_reads line_kept_writes line_kept_calls)
  then show ?thesis using device_frame_wired [OF device_step_frame [OF assms(1,4)] _ _ assms(3)] by (simp add: line_kept_def)
qed

lemma reset_wired: "pci_wired m (vf_m1_guest_mmio_reset efi b)"
proof -
  let ?a = "snd (sep_sync_aic_irq (woken efi b))"
  have f: "pci_aic_fn (g_pci ?a) = None" "ans_pci (g_ans ?a) = None" "pcis_inv (g_store ?a)" "g_ready ?a"
    by (simp_all add: sep_sync_aic_irq_def woken_def arm_sprr_hook_def fresh_parts g_pci_def pcis_inv_def vf_ans_init_def
        ans_clear_admin_identify_def)
      (simp_all add: vf_ans_pci_init_def pci_inv_def pci_mode_inv_def pci_line_inv_def)
  then have "pci_wired m ?a" using woken_sync(1) [of efi b] by (simp add: pci_wired_def lines_follow_def ans_mirror_def)
  then have "pci_wired m (wired (woken efi b))"
    unfolding wired_def ans_pci_auto_bind_msi_gpa_def Let_def ans_auto_bind_pci_def
    by (intro pci_wired_msi) (simp add: pci_wired_bind pci_wired_bind_pci)
  then show ?thesis by (simp add: reset_result)
qed

lemma frames_wired: "nvram_frame b b' \<Longrightarrow> pci_wired m b \<Longrightarrow> pci_wired m b'" "gxf_frame b b' \<Longrightarrow> pci_wired m b \<Longrightarrow> pci_wired m b'"
  by (auto simp: nvram_frame_def gxf_frame_def pci_wired_def g_pci_def)

lemma pci_wired_step:
  assumes "keeps_storage_line m op" "pci_wired m b" "bridge_step efi open_path op b = Some b'"
  shows "pci_wired m b'"
proof (cases op rule: op_cases)
  case reset
  with assms(3) show ?thesis using reset_wired by auto
next
  case device
  then show ?thesis using pci_wired_device_step assms by blast
next
  case nvram
  then show ?thesis using frames_wired(1) [OF nvram_step_frame [OF nvram assms(3)] assms(2)] by blast
next
  case gxf
  then show ?thesis using frames_wired(2) [OF gxf_step_frame [OF gxf assms(3)] assms(2)] by blast
next
  case pci
  then show ?thesis using pci_wired_pci_step assms by blast
qed

lemma pci_wired_run:
  assumes "list_all (keeps_storage_line m) ops" "bridge_run efi open_path (Reset # ops) b = Some b'"
  shows "pci_wired m b'"
proof (rule bridge_run_inv [of "keeps_storage_line m" _ efi open_path ops "vf_m1_guest_mmio_reset efi b"])
  show "bridge_run efi open_path ops (vf_m1_guest_mmio_reset efi b) = Some b'" using assms(2) by simp
qed (use pci_wired_step assms(1) reset_wired in \<open>blast+\<close>)

section \<open>The identify command through the bridge\<close>

text \<open>The connections a reset leaves: the NVMe controller is bound to the PCI function, the function to the interrupt controller,
  and no queue of the guest is bound.\<close>

definition connected :: "'s m1_bridge \<Rightarrow> bool" where
  "connected b \<longleftrightarrow> g_ready b \<and> pci_aic_fn (g_pci b) \<noteq> None \<and> ans_pci (g_ans b) = Some 0 \<and> ans_mbox (g_ans b) = None
     \<and> ans_ascwrap (g_ans b) = None \<and> ans_autoboot (g_ans b) = None \<and> admin_asq_mem (g_ans b) = None
     \<and> admin_acq_mem (g_ans b) = None \<and> admin_id_prp1_mem (g_ans b) = None"

lemma set_irq_parts [simp]:
  "pci_aic_fn (snd (vf_ans_pci_set_irq p level)) = pci_aic_fn p" "pci_command (snd (vf_ans_pci_set_irq p level)) = pci_command p"
  by (simp_all add: vf_ans_pci_set_irq_def ans_pci_sync_aic_def Let_def split: option.split)

lemma sync_pci_parts [simp]:
  "pci_aic_fn (w_pci (ans_sync_pci_irq a w) q) = pci_aic_fn (w_pci w q)"
  "pci_command (w_pci (ans_sync_pci_irq a w) q) = pci_command (w_pci w q)"
  by (simp_all add: ans_sync_pci_irq_def split: option.split)

lemma ans_call_parts [simp]:
  "g_ready (snd (ans_call f b)) = g_ready b" "g_ans (snd (ans_call f b)) = fst (snd (f (g_ans b) (g_store b)))"
  "g_store (snd (ans_call f b)) = snd (snd (f (g_ans b) (g_store b)))" "fst (ans_call f b) = fst (f (g_ans b) (g_store b))"
  "g_sq_tail (snd (ans_call f b)) = g_sq_tail b"
  by (simp_all add: ans_call_def settle_pci_result case_prod_beta)

lemma pci_call_parts [simp]:
  "g_ready (snd (pci_call h b)) = g_ready b" "g_ans (snd (pci_call h b)) = g_ans b" "fst (pci_call h b) = fst (h (g_pci b))"
  "g_store (snd (pci_call h b)) = put_pci (snd (h (g_pci b))) (g_store b)" "g_sq_tail (snd (pci_call h b)) = g_sq_tail b"
  by (simp_all add: pci_call_def settle_pci_result case_prod_beta)

lemma reset_connected: "connected (vf_m1_guest_mmio_reset efi b)"
proof -
  have a: "g_ans (snd (sep_sync_aic_irq (woken efi b))) = snd (vf_ans_init (g_ans b))" "g_ready (snd (sep_sync_aic_irq (woken efi b)))"
    by (simp_all add: sep_sync_aic_irq_def woken_def arm_sprr_hook_def fresh_parts)
  have p: "pci_aic_fn (snd (vf_ans_pci_bind_aic p (Some f))) \<noteq> None" for p f
    by (simp add: vf_ans_pci_bind_aic_def ans_pci_sync_aic_def Let_def)
  have m: "pci_aic_fn (snd (vf_ans_pci_bind_msi_gpa p mem len base)) = pci_aic_fn p" for p mem len base
    by (simp add: vf_ans_pci_bind_msi_gpa_def split: option.split)
  have g: "g_pci (b\<lparr>g_msi_gpa := x\<rparr>) = g_pci b" for b :: "'a m1_bridge" and x by (simp add: g_pci_def)
  show ?thesis
    using p
    by (simp add: reset_result wired_def ans_pci_auto_bind_msi_gpa_def Let_def connected_def a ans_auto_bind_pci_def
        ans_pci_auto_bind_aic_def case_prod_beta sink_calls_result put_pci_def m g_pci_def vf_ans_bind_pci_def vf_ans_init_def
        ans_clear_admin_identify_def)
qed

definition enabled :: "'s m1_bridge \<Rightarrow> bool" where
  "enabled b \<longleftrightarrow> connected b \<and> bit (ans_cc (g_ans b)) 0 \<and> bit (ans_csts (g_ans b)) 0 \<and> bit (pci_command (g_pci b)) 2
     \<and> ans_doorbell (g_ans b) = replicate VF_ANS_DB_COUNT 0 \<and> ans_intm (g_ans b) = 0 \<and> admin_cq_tail (g_ans b) = 0
     \<and> admin_cq_phase (g_ans b) = 1 \<and> g_sq_tail b = 0"

lemma ans_write_cc: "vf_ans_write a VF_ANS_REG_CC 4 v w = (OK, ans_apply_cc_enable a v w)"
  by (simp add: vf_ans_write_def ans_bounds_def ans_db_index_def)

lemma enable_identify:
  assumes "connected b"
  shows "fst (vf_m1_guest_ans_enable_identify_path b) = OK \<and> enabled (snd (vf_m1_guest_ans_enable_identify_path b))"
  using assms
  by (simp add: vf_m1_guest_ans_enable_identify_path_def if_ready_def connected_def run_parts_Cons ans_write_cc enabled_def
      ans_apply_cc_enable_def ans_clear_admin_identify_def put_pci_def g_pci_def vf_ans_pci_enable_memory_bus_master_def Let_def bit_simps)

lemma ans_write_bound: "pci_aic_fn (w_pci (snd (snd (vf_ans_write a off width v w))) q) = pci_aic_fn (w_pci w q)"
proof (rule ans_write_rule [of a _ w])
  fix i
  have "pci_aic_fn (w_pci (snd (ans_try_admin_identify_on_doorbell b t w)) q) = pci_aic_fn (w_pci w q)" for b t
    by (cases rule: ans_try_cases [of b t w]) (simp_all add: ans_post_admin_identify_cqe_def Let_def)
  then show "pci_aic_fn (w_pci (snd (vf_ans_write_doorbell a i v w)) q) = pci_aic_fn (w_pci w q)"
    by (simp add: vf_ans_write_doorbell_def ans_refresh_admin_cq_irq_def Let_def)
qed simp_all

lemma submit_identify:
  assumes "enabled b"
  defines "r \<equiv> vf_m1_guest_ans_submit_admin_identify b"
  shows "fst r = OK" "connected (snd r)" "take VF_ANS_ID_CTRL_SIZE (w_mem (g_store (snd r)) 0) = ans_id_ctrl_data (g_ans b)"
    "get_le32 (drop 8 (w_mem (g_store (snd r)) 1)) = 1" "get_le32 (drop 12 (w_mem (g_store (snd r)) 1)) = 0x10000"
    "admin_cq_tail (g_ans (snd r)) = 1" "vf_ans_irq_check (g_ans (snd r))"
    "length (ans_doorbell (g_ans (snd r))) = VF_ANS_DB_COUNT"
proof -
  define a where a: "a = (g_ans b)\<lparr>admin_id_opcode := VF_ANS_OPC_IDENTIFY, admin_id_cns := VF_ANS_ID_CNS_CTRL, admin_id_buf := Some 0,
      admin_id_len := VF_ANS_ID_CTRL_SIZE, admin_id_cq_buf := Some 1, admin_id_cq_len := VF_ANS_CQE_SIZE, admin_id_armed := True\<rparr>"
  define w where w: "w = (g_store b)\<lparr>w_mem := (w_mem (g_store b))
    (0 := replicate VF_ANS_ID_CTRL_SIZE 0xA5, 1 := replicate VF_ANS_CQE_SIZE 0x5A)\<rparr>"
  let ?a1 = "ans_clear_admin_identify (a\<lparr>ans_doorbell := (ans_doorbell a)[0 := 1]\<rparr>)"
  have arm: "vf_ans_arm_admin_identify (g_ans b) VF_ANS_OPC_IDENTIFY VF_ANS_ID_CNS_CTRL
    (Some 0) VF_ANS_ID_CTRL_SIZE (Some 1) VF_ANS_CQE_SIZE = (OK, a)"
    by (simp add: a vf_ans_arm_admin_identify_def)
  have e: "connected b" "ans_doorbell a = replicate 128 0" "admin_cq_phase a = 1" "admin_cq_tail a = 0" "ans_intm a = 0" "g_sq_tail b = 0"
    "ans_dma_allowed a w"
    using assms(1) by (simp_all add: enabled_def connected_def a w ans_dma_allowed_def ans_peer_def g_pci_def)
  obtain w1 where w1: "w_mem w1 = (w_mem w)(0 := splice (w_mem w 0) 0 (ans_id_ctrl_data a))"
    and run: "vf_ans_write a VF_ANS_DB_BASE 4 1 w = (OK, ans_post_admin_identify_cqe ?a1 1 w1)"
    using ans_identify_run [of a 1 0 1 w 0 1] e
    by (auto simp: a connected_def ans_check_admin_acq_slot_def ans_fetch_admin_asq_identify_def)
  have "r = (OK, (snd (ans_call (\<lambda>a. vf_ans_write a VF_ANS_DB_BASE 4 1) (b\<lparr>g_store := w, g_ans := a\<rparr>)))\<lparr>g_sq_tail := 1\<rparr>)"
    using e(1,6) arm run unfolding r_def vf_m1_guest_ans_submit_admin_identify_def
    by (simp add: if_ready_def connected_def run_parts_Cons Let_def w del: One_nat_def)
  then have r: "fst r = OK" "g_ready (snd r) = g_ready b" "g_ans (snd r) = fst (ans_post_admin_identify_cqe ?a1 1 w1)"
    "g_store (snd r) = snd (ans_post_admin_identify_cqe ?a1 1 w1)"
    using run by simp_all
  have mem: "w_mem (g_store (snd r)) 0 = splice (replicate 4096 0xA5) 0 (ans_id_ctrl_data a)"
    "w_mem (g_store (snd r)) 1 = splice (replicate 16 0x5A) 0 (ans_cqe ?a1)"
    using e(1)
    by (simp_all add: r ans_post_admin_identify_cqe_def Let_def mem_put_def w1 w a connected_def ans_write_admin_acq_cqe_def
        ans_clear_admin_identify_def)
  show "fst r = OK" by (fact r(1))
  show "vf_ans_irq_check (g_ans (snd r))"  "admin_cq_tail (g_ans (snd r)) = 1"
    "length (ans_doorbell (g_ans (snd r))) = VF_ANS_DB_COUNT"
    using e by (simp_all add: r ans_post_admin_identify_cqe_def Let_def vf_ans_irq_check_def ans_irq_level_def
      ans_clear_admin_identify_def or.assoc)
  show "take VF_ANS_ID_CTRL_SIZE (w_mem (g_store (snd r)) 0) = ans_id_ctrl_data (g_ans b)"
    using mem by (simp add: splice_def)
      (simp add: a ans_id_ctrl_data_def vf_ans_identify_cns_ctrl_def)
  show "get_le32 (drop 8 (w_mem (g_store (snd r)) 1)) = 1" "get_le32 (drop 12 (w_mem (g_store (snd r)) 1)) = 0x10000"
    using ans_cqe_fields [of ?a1] e mem(2) by (simp_all add: splice_def ans_clear_admin_identify_def)
  have "pci_aic_fn (g_pci (snd r)) = pci_aic_fn (g_pci b)"
    using ans_write_bound [of a VF_ANS_DB_BASE 4 1 w 0] unfolding run by (simp add: r g_pci_def w)
  then show "connected (snd r)"
    using e(1) by (simp add: connected_def r ans_post_admin_identify_cqe_def Let_def ans_clear_admin_identify_def a)
qed

lemma drain_completion:
  assumes "connected b" "admin_cq_tail (g_ans b) = t" "1 < length (ans_doorbell (g_ans b))"
  defines "r \<equiv> vf_m1_guest_ans_drain_admin_cq b"
  shows "fst r = OK" "connected (snd r)" "\<not> vf_ans_irq_check (g_ans (snd r))" "w_mem (g_store (snd r)) = w_mem (g_store b)"
proof -
  let ?v = "of_nat (unat t) :: u32"
  let ?a = "(g_ans b)\<lparr>ans_doorbell := (ans_doorbell (g_ans b))[1 := ?v AND 0xffff]\<rparr>"
  have w: "vf_ans_write (g_ans b) (VF_ANS_DB_BASE + 4) 4 ?v (g_store b) = (OK, ans_refresh_admin_cq_irq ?a (g_store b))"
    by (simp add: ans_write_doorbell_off [of "0x1004" 4 1] ans_bounds_def ans_db_index_def vf_ans_write_doorbell_def Let_def)
  have r: "r = ans_call (\<lambda>a. vf_ans_write a (VF_ANS_DB_BASE + 4) 4 ?v) b"
    using assms(1,2) by (simp add: r_def vf_m1_guest_ans_drain_admin_cq_def if_ready_def connected_def vf_ans_admin_cq_tail_def)
  have m: "(0xffff :: u32) = mask 16" by (simp add: mask_eq_exp_minus_1)
  have head: "ucast (?v AND 0xffff AND 0xffff) = t"
    unfolding m by (rule bit_word_eqI) (simp add: bit_simps)
  show "fst r = OK" using w by (simp add: r)
  have z: "((x AND NOT 1) AND y) AND 1 = 0" for x y :: u32
    by (rule bit_word_eqI) (auto simp: bit_simps)
  show "\<not> vf_ans_irq_check (g_ans (snd r))" "w_mem (g_store (snd r)) = w_mem (g_store b)"
    using w assms(2,3) head z by (simp_all add: r ans_refresh_admin_cq_irq_def Let_def vf_ans_irq_check_def ans_irq_level_def)
  show "connected (snd r)"
    using assms(1) w ans_write_bound [of "g_ans b" "VF_ANS_DB_BASE + 4" 4 ?v "g_store b" 0]
    by (simp add: connected_def r ans_refresh_admin_cq_irq_def Let_def g_pci_def)
qed

section \<open>Properties\<close>

text \<open>C12. After a reset and any operations that leave the storage line to the PCI function, the storage line of the interrupt
  controller is the delivery state of the PCI function whenever the function is bound to the controller; and, if no host call
  overrides the interrupt of the function, the delivery state is the interrupt condition of the NVMe controller bound to it.\<close>

theorem bridge_storage_line:
  assumes "list_all (keeps_storage_line m) ops" "bridge_run efi open_path (Reset # ops) b = Some b'"
  shows "(pci_aic_fn (g_pci b') \<noteq> None \<longrightarrow> aic_line (g_aic b') VF_M1_STORAGE_IRQ_LINE = vf_ans_pci_delivery_pending (g_pci b'))
    \<and> (m \<and> ans_pci (g_ans b') = Some 0 \<longrightarrow> vf_ans_pci_delivery_pending (g_pci b') = vf_ans_irq_check (g_ans b'))"
  using pci_wired_run [OF assms]
  by (simp add: pci_wired_def vf_ans_pci_delivery_pending_def ans_mirror_def g_pci_def)

theorem bridge_storage_line_witness:
  "\<forall>b :: unit m1_bridge. \<exists>b'. bridge_run True (\<lambda>_. None) [Reset, AnsEnableIdentify, AnsSubmitIdentify] b = Some b'
     \<and> aic_line (g_aic b') VF_M1_STORAGE_IRQ_LINE"
proof
  fix b :: "unit m1_bridge"
  let ?b1 = "snd (vf_m1_guest_ans_enable_identify_path (vf_m1_guest_mmio_reset True b))"
  let ?b' = "snd (vf_m1_guest_ans_submit_admin_identify ?b1)"
  have r: "bridge_run True (\<lambda>_. None) (Reset # [AnsEnableIdentify, AnsSubmitIdentify]) b = Some ?b'" by simp
  have "enabled ?b1" using enable_identify [OF reset_connected] by blast
  from submit_identify(2,7) [OF this] have "connected ?b'" "vf_ans_irq_check (g_ans ?b')" by blast+
  then have "aic_line (g_aic ?b') VF_M1_STORAGE_IRQ_LINE"
    using bridge_storage_line [OF _ r, of True] by (simp add: connected_def keeps_storage_line_def)
  with r show "\<exists>b'. bridge_run True (\<lambda>_. None) [Reset, AnsEnableIdentify, AnsSubmitIdentify] b = Some b'
     \<and> aic_line (g_aic b') VF_M1_STORAGE_IRQ_LINE" by blast
qed

text \<open>C13. From any state, a reset, the host's preparation of the controller and one submitted Identify succeed: the data page holds
  the Identify structure of the controller, the completion entry names the new submission head and carries the phase, and the storage
  line of the interrupt controller is high; draining the completion queue succeeds too, lowers the line and leaves the buffers alone.\<close>

theorem bridge_identify_round:
  fixes efi :: bool and b :: "'s m1_bridge"
  defines "b1 \<equiv> snd (vf_m1_guest_ans_enable_identify_path (vf_m1_guest_mmio_reset efi b))"
  defines "r2 \<equiv> vf_m1_guest_ans_submit_admin_identify b1"
  defines "r3 \<equiv> vf_m1_guest_ans_drain_admin_cq (snd r2)"
  shows "fst (vf_m1_guest_ans_enable_identify_path (vf_m1_guest_mmio_reset efi b)) = OK \<and> fst r2 = OK \<and> fst r3 = OK
    \<and> take VF_ANS_ID_CTRL_SIZE (w_mem (g_store (snd r2)) 0) = ans_id_ctrl_data (g_ans b1)
    \<and> get_le32 (drop 8 (w_mem (g_store (snd r2)) 1)) = 1 \<and> get_le32 (drop 12 (w_mem (g_store (snd r2)) 1)) = 0x10000
    \<and> aic_line (g_aic (snd r2)) VF_M1_STORAGE_IRQ_LINE \<and> \<not> aic_line (g_aic (snd r3)) VF_M1_STORAGE_IRQ_LINE
    \<and> w_mem (g_store (snd r3)) = w_mem (g_store (snd r2))"
proof -
  have e: "fst (vf_m1_guest_ans_enable_identify_path (vf_m1_guest_mmio_reset efi b)) = OK" "enabled b1"
    using enable_identify [OF reset_connected, of efi b] by (simp_all add: b1_def)
  note s = submit_identify [OF e(2), folded r2_def]
  have "1 < length (ans_doorbell (g_ans (snd r2)))" using s(8) by simp
  note d = drain_completion [OF s(2,6) this, folded r3_def]
  have "pci_wired True b1"
    using pci_wired_step [of True AnsEnableIdentify "vf_m1_guest_mmio_reset efi b" efi "\<lambda>_. None"] reset_wired [of True efi b]
    by (simp add: b1_def keeps_storage_line_def)
  then have w2: "pci_wired True (snd r2)"
    using pci_wired_step [of True AnsSubmitIdentify b1 efi "\<lambda>_. None"] by (simp add: r2_def keeps_storage_line_def)
  then have w3: "pci_wired True (snd r3)"
    using pci_wired_step [of True AnsDrain "snd r2" efi "\<lambda>_. None"] by (simp add: r3_def keeps_storage_line_def)
  have line: "aic_line (g_aic c) VF_M1_STORAGE_IRQ_LINE = vf_ans_irq_check (g_ans c)" if "pci_wired True c" "connected c" for c :: "'s m1_bridge"
    using that by (simp add: pci_wired_def connected_def ans_mirror_def vf_ans_pci_delivery_pending_def g_pci_def)
  show ?thesis using e(1) s d line [OF w2 s(2)] line [OF w3 d(2)] by simp
qed

end
