(* ===== verification/Access.thy ===== *)
theory Access
  imports Wiring
begin

unbundle bit_operations_syntax

text \<open>
  The guest's accesses through the windows of the bridge: what every operation keeps of the state the refusals rely on, and that a
  refused access leaves the whole bridge as it was.
\<close>

section \<open>A refused access changes nothing\<close>

text \<open>What a refusal relies on: the controller takes the lines, the environment fits, and the management controller knows
  \<open>#KEY\<close>.\<close>

definition serving :: "bool \<Rightarrow> 's m1_bridge \<Rightarrow> bool" where
  "serving efi b \<longleftrightarrow> g_ready b \<and> aic_ok (g_aic b) \<and> length (nv_env (g_nvram b)) \<le> VF_NVRAM_MAX_ENV \<and> (efi \<or> smc_inv (g_smc b))"

lemma env_set_room:
  assumes "length (nv_env n) \<le> VF_NVRAM_MAX_ENV"
  shows "length (nv_env (snd (vf_nvram_env_set n name value fl))) \<le> VF_NVRAM_MAX_ENV"
    "fst (vf_nvram_env_set n name value fl) = ERR \<Longrightarrow> snd (vf_nvram_env_set n name value fl) = n"
proof -
  have u: "length (nv_env (snd (vf_nvram_env_unset n name))) \<le> VF_NVRAM_MAX_ENV"
    using assms by (auto simp: vf_nvram_env_unset_def split: option.split)
  then show "length (nv_env (snd (vf_nvram_env_set n name value fl))) \<le> VF_NVRAM_MAX_ENV"
    using assms by (auto simp: vf_nvram_env_set_def Let_def)
  have "VF_NVRAM_MAX_ENV \<le> length (nv_env (snd (vf_nvram_env_unset n name))) \<Longrightarrow> snd (vf_nvram_env_unset n name) = n"
  proof (cases "nvram_find_env n name")
    case (Some i)
    then have "i < length (nv_env n)" by (auto simp: nvram_find_env_def find_Some_iff)
    then show "VF_NVRAM_MAX_ENV \<le> length (nv_env (snd (vf_nvram_env_unset n name))) \<Longrightarrow> ?thesis"
      using assms by (simp add: vf_nvram_env_unset_def Some)
  qed (simp add: vf_nvram_env_unset_def)
  then show "fst (vf_nvram_env_set n name value fl) = ERR \<Longrightarrow> snd (vf_nvram_env_set n name value fl) = n"
    by (auto simp: vf_nvram_env_set_def Let_def split: if_splits)
qed

lemma ingest_room:
  assumes "length (nv_env n) \<le> VF_NVRAM_MAX_ENV" "vf_nvram_ingest_bank n buf len = Some (c, n')"
  shows "length (nv_env n') \<le> VF_NVRAM_MAX_ENV"
proof -
  have i: "length (nv_env y) \<le> 32" if "vf_nvram_init m = (x, y)" for m x y
    using init_shape(2) [of m] that by (simp add: env_inv_def)
  have l: "length (nv_env y) \<le> 32" if "nvram_load_env_from_common m p = (x, y)" for m p x y
    using load_env_inv [of "m\<lparr>nv_env := []\<rparr>" "take (part_len p) (part_data p)"] that
    by (simp add: nvram_load_env_from_common_def env_inv_def)
  have z: "nv_env nvram_zero = []" by (simp add: nvram_zero_def)
  show ?thesis
    using assms
    by (auto simp: vf_nvram_ingest_bank_def vf_nvram_parse_bank_def Let_def z dest: i l
        split: if_splits option.splits prod.splits rc.splits)
qed

lemma load_room:
  "length (nv_env n) \<le> VF_NVRAM_MAX_ENV \<Longrightarrow> vf_nvram_load_from_blk n blk = Some (c, n') \<Longrightarrow> length (nv_env n') \<le> VF_NVRAM_MAX_ENV"
  by (auto simp: vf_nvram_load_from_blk_def Let_def split: option.splits if_splits dest: ingest_room)

lemma read_nkey:
  assumes "smc_inv s"
  shows "fst (vf_smc_read_key s VF_SMC_KEY_NKEY 4) \<noteq> None" "smc_inv (snd (vf_smc_read_key s VF_SMC_KEY_NKEY 4))"
proof -
  have k: "0 < key_count s" "ent_key (smc_keys s ! 0) = VF_SMC_KEY_NKEY" "ent_size (smc_keys s ! 0) = 4" "ent_readable (smc_keys s ! 0)"
    "length (smc_keys s) = 8"
    using assms by (simp_all add: smc_inv_def)
  then obtain i where i: "smc_find_key s VF_SMC_KEY_NKEY = Some i" "i < key_count s" "ent_key (smc_keys s ! i) = VF_SMC_KEY_NKEY"
    using smc_find_key_None [of s VF_SMC_KEY_NKEY] smc_find_key_Some [of s VF_SMC_KEY_NKEY]
    by (cases "smc_find_key s VF_SMC_KEY_NKEY") auto
  have z: "i = 0" using smc_inv_distinct [OF assms i(2) k(1)] i(3) k(2) by simp
  show "fst (vf_smc_read_key s VF_SMC_KEY_NKEY 4) \<noteq> None"
    using k by (simp add: vf_smc_read_key_def i(1) z smc_read_key_data_def smc_set_entry_def Let_def)
  show "smc_inv (snd (vf_smc_read_key s VF_SMC_KEY_NKEY 4))"
    using smc_read_key_data_ok [OF assms i(2), of smc_zero_resp]
    by (simp add: vf_smc_read_key_def i(1) Let_def split: prod.split)
qed

text \<open>Every operation keeps it. The guest's accesses leave the environment and the keys alone, but for those of their own windows.\<close>

definition stores_kept :: "'s m1_bridge \<Rightarrow> 's m1_bridge \<Rightarrow> bool" where
  "stores_kept b b' \<longleftrightarrow> g_nvram b' = g_nvram b \<and> g_smc b' = g_smc b"

lemma stores_kept_reads:
  "stores_kept b (snd (aic_dispatch_read b off w))" "stores_kept b (snd (timer_dispatch_read b off w))"
  "stores_kept b (snd (dart_dispatch_read b off w))" "stores_kept b (snd (storage_dispatch_read b off w))"
  "stores_kept b (snd (recovery_dispatch_read b off w))" "stores_kept b (snd (adp_dispatch_read b off w))"
  "stores_kept b (snd (uart_dispatch_read b off w))" "stores_kept b (snd (sart_dispatch_read b off w))"
  "stores_kept b (snd (nvram_dispatch_read b off w))" "stores_kept b (snd (sep_dispatch_read b off w))"
  by (simp_all add: stores_kept_def aic_dispatch_read_def timer_dispatch_read_def dart_dispatch_read_def storage_dispatch_read_def
      recovery_dispatch_read_def adp_dispatch_read_def uart_dispatch_read_def sart_dispatch_read_def nvram_dispatch_read_def
      sep_dispatch_read_def sync_defs case_prod_beta split: option.split rc.split)

lemma stores_kept_writes:
  "stores_kept b (snd (aic_dispatch_write b off w v))" "stores_kept b (snd (timer_dispatch_write b off w v))"
  "stores_kept b (snd (dart_dispatch_write b off w v))" "stores_kept b (snd (storage_dispatch_write b off w v))"
  "stores_kept b (snd (recovery_dispatch_write b off w v))" "stores_kept b (snd (adp_dispatch_write b off w v))"
  "stores_kept b (snd (uart_dispatch_write b off w v))" "stores_kept b (snd (sart_dispatch_write b off w v))"
  "stores_kept b (snd (sep_dispatch_write b off w v))"
  by (simp_all add: stores_kept_def aic_dispatch_write_def timer_dispatch_write_def dart_dispatch_write_def storage_dispatch_write_def
      recovery_dispatch_write_def adp_dispatch_write_def uart_dispatch_write_def sart_dispatch_write_def
      sep_dispatch_write_def sync_defs case_prod_beta split: option.split rc.split)

lemma stores_kept_calls:
  "stores_kept b (snd (vf_m1_guest_aic_set_line irq high b))" "stores_kept b (snd (vf_m1_guest_dart_simulate_fault sid code b))"
  "stores_kept b (snd (vf_m1_guest_uart_push_rx byte b))" "stores_kept b (snd (vf_m1_guest_timer_advance ticks b))"
  "stores_kept b (snd (vf_m1_guest_storage_attach n ro b))" "stores_kept b (snd (vf_m1_guest_storage_detach b))"
  "stores_kept b (snd (vf_m1_guest_recovery_ingest frame b))" "stores_kept b (snd (vf_m1_guest_recovery_clear b))"
  "stores_kept b (snd (vf_m1_guest_adp_configure ga bb wd h stride b))"
  by (simp_all add: stores_kept_def vf_m1_guest_aic_set_line_def vf_m1_guest_dart_simulate_fault_def vf_m1_guest_uart_push_rx_def
      vf_m1_guest_timer_advance_def vf_m1_guest_storage_attach_def vf_m1_guest_storage_detach_def vf_m1_guest_recovery_ingest_def
      vf_m1_guest_recovery_clear_def vf_m1_guest_adp_configure_def if_ready_def on_ok_def sync_defs case_prod_beta split: rc.split)

lemma serving_kept:
  "serving efi b \<Longrightarrow> stores_kept b b' \<Longrightarrow> device_frame b b' \<Longrightarrow> aic_ok (g_aic b') \<Longrightarrow> serving efi b'"
  by (simp add: serving_def stores_kept_def device_frame_def)

lemma serving_read:
  assumes "serving efi b"
  shows "serving efi (snd (vf_m1_guest_mmio_read efi window off w b))"
proof -
  have ok: "aic_ok (g_aic b)" using assms by (simp add: serving_def)
  have k: "serving efi (snd (smc_dispatch_read efi b off w))"
    using assms read_nkey(2) [of "g_smc b"]
    by (auto simp: serving_def smc_dispatch_read_def case_prod_beta split: option.split)
  show ?thesis
  proof (cases "window = VF_M1_MMIO_WINDOW_SMC")
    case True
    then show ?thesis using k assms by (simp add: vf_m1_guest_mmio_read_def)
  next
    case False
    then have "stores_kept b (snd (vf_m1_guest_mmio_read efi window off w b))"
      using stores_kept_reads [of b off w] by (simp add: vf_m1_guest_mmio_read_def stores_kept_def)
    then show ?thesis
      using serving_kept [OF assms _ device_frame_access(1)] line_kept_reads [OF ok] by (simp add: line_kept_def)
  qed
qed

lemma serving_nvram_write:
  assumes "serving efi b"
  shows "serving efi (snd (nvram_dispatch_write b off w v))"
  using assms env_set_room(1) [of "g_nvram b" nvram_boot_args "cstr (g_boot_args b)" 0]
  by (auto simp: serving_def nvram_dispatch_write_def clear_boot_args_def case_prod_beta Let_def split: rc.split)

lemma serving_smc_write: "serving efi b \<Longrightarrow> serving efi (snd (smc_dispatch_write efi b off w v))"
  using smc_handle_ok [of "g_smc b" v] by (auto simp: serving_def smc_dispatch_write_def case_prod_beta)

lemma serving_write:
  assumes "serving efi b"
  shows "serving efi (snd (vf_m1_guest_mmio_write efi window off w v b))"
proof -
  have ok: "aic_ok (g_aic b)" using assms by (simp add: serving_def)
  consider "window = VF_M1_MMIO_WINDOW_SMC" | "window = VF_M1_MMIO_WINDOW_NVRAM" | "window = VF_M1_MMIO_WINDOW_AIC"
    | "window \<notin> {VF_M1_MMIO_WINDOW_SMC, VF_M1_MMIO_WINDOW_NVRAM, VF_M1_MMIO_WINDOW_AIC}" by auto
  then show ?thesis
  proof cases
    case 1
    then show ?thesis using serving_smc_write [OF assms] assms by (simp add: vf_m1_guest_mmio_write_def)
  next
    case 2
    then show ?thesis using serving_nvram_write [OF assms] assms by (simp add: vf_m1_guest_mmio_write_def)
  next
    case 3
    then show ?thesis
      using assms by (simp add: vf_m1_guest_mmio_write_def aic_dispatch_write_def serving_def case_prod_beta)
  next
    case 4
    then have "stores_kept b (snd (vf_m1_guest_mmio_write efi window off w v b))"
      using stores_kept_writes [of b off w v] by (simp add: vf_m1_guest_mmio_write_def stores_kept_def)
    then show ?thesis
      using 4 serving_kept [OF assms _ device_frame_access(2)] line_kept_writes [OF ok, of window off efi w v]
      by (simp add: line_kept_def)
  qed
qed

lemma serving_reset: "serving efi (vf_m1_guest_mmio_reset efi b)"
proof -
  have "g_nvram (wired c) = g_nvram c" "g_smc (wired c) = g_smc c" for c :: "'a m1_bridge"
    by (simp_all add: wired_def ans_pci_auto_bind_msi_gpa_def pci_call_def ans_pci_auto_bind_aic_def ans_auto_bind_pci_def ans_call_def
        settle_pci_result sink_calls_result sep_sync_aic_irq_def case_prod_beta Let_def)
  moreover have "\<not> efi \<Longrightarrow> smc_inv (g_smc (fresh efi b))"
    using smc_boot_inv by (simp add: fresh_parts smc_boot_def vf_smc_init_def)
  ultimately show ?thesis
    using reset_follows [of efi b] init_shape(2) [of "g_nvram b"]
    by (cases efi) (simp_all add: serving_def lines_follow_def reset_result woken_def arm_sprr_hook_def fresh_parts env_inv_def)
qed

lemma serving_nvram_loaded:
  assumes "nvram_loaded out b = Some r" "serving efi b" "\<And>c n. out = Some (c, n) \<Longrightarrow> length (nv_env n) \<le> VF_NVRAM_MAX_ENV"
  shows "serving efi (snd r)"
proof -
  obtain c n where o: "out = Some (c, n)" using assms(1) by (auto simp: nvram_loaded_def)
  then show ?thesis
    using assms(1,2) assms(3) [OF o] by (cases c) (auto simp: nvram_loaded_def on_ok_def serving_def clear_boot_args_def)
qed

lemma serving_nvram_attach:
  assumes "serving efi b" "vf_m1_guest_nvram_attach_research_image open_path path b = Some r"
  shows "serving efi (snd r)"
proof (cases "g_ready b \<and> path \<noteq> [] \<and> open_path path \<noteq> None")
  case True
  then obtain blk where blk: "open_path path = Some blk" by auto
  from assms True obtain q where q: "nvram_loaded (vf_nvram_load_from_blk (g_nvram b) blk) (b\<lparr>g_blk := Some blk\<rparr>) = Some q"
    "snd r = snd q \<or> snd r = (snd q)\<lparr>g_blk := None\<rparr>"
    by (fastforce simp: vf_m1_guest_nvram_attach_research_image_def blk split: if_splits)
  have "serving efi (b\<lparr>g_blk := Some blk\<rparr>)" "length (nv_env (g_nvram b)) \<le> VF_NVRAM_MAX_ENV"
    using assms(1) by (simp_all add: serving_def)
  then have "serving efi (snd q)" using serving_nvram_loaded [OF q(1)] load_room by blast
  with q(2) show ?thesis by (auto simp: serving_def)
next
  case False
  with assms show ?thesis
    by (auto simp: vf_m1_guest_nvram_attach_research_image_def serving_def split: option.splits if_splits)
qed

lemma serving_nvram_step:
  assumes "nvram_op op" "serving efi b" "bridge_step efi open_path op b = Some b'"
  shows "serving efi b'"
proof -
  have l: "length (nv_env (g_nvram b)) \<le> VF_NVRAM_MAX_ENV" using assms(2) by (simp add: serving_def)
  have "serving efi (b\<lparr>g_blk := k\<rparr>)" for k using assms(2) by (simp add: serving_def)
  then show ?thesis
    using assms serving_nvram_attach [OF assms(2)] serving_nvram_loaded [OF _ assms(2) load_room [OF l]]
      serving_nvram_loaded [OF _ assms(2) ingest_room [OF l]]
    by (cases op) (auto simp: nvram_op_def vf_m1_guest_nvram_ingest_bank_def vf_m1_guest_nvram_load_from_blk_def
      vf_m1_guest_nvram_detach_blk_def vf_m1_guest_nvram_save_to_attached_def if_ready_def case_prod_beta
      split: option.splits if_splits)
qed

lemma stores_kept_parts [simp]:
  "stores_kept b b" "stores_kept c (snd (pci_call f b)) = stores_kept c b" "stores_kept c (snd (ans_call g b)) = stores_kept c b"
  "stores_kept c (snd (ans_pci_auto_bind_aic b)) = stores_kept c b" "stores_kept c (b\<lparr>g_msi_gpa := m\<rparr>) = stores_kept c b"
  "stores_kept c (b\<lparr>g_sq_tail := t\<rparr>) = stores_kept c b" "stores_kept c (b\<lparr>g_store := w\<rparr>) = stores_kept c b"
  "stores_kept c (b\<lparr>g_ans := a\<rparr>) = stores_kept c b"
  by (simp_all add: stores_kept_def pci_call_def ans_call_def settle_pci_result ans_pci_auto_bind_aic_def sink_calls_result case_prod_beta)

lemma stores_kept_pci_step:
  "pci_op op \<Longrightarrow> bridge_step efi open_path op b = Some b' \<Longrightarrow> stores_kept b b'"
  by (cases op) (auto simp: pci_op_def pci_entry_defs if_ready_def case_prod_beta Let_def ans_auto_bind_pci_def
      ans_pci_auto_bind_msi_gpa_def intro!: run_parts_inv [where I = "stores_kept b"])

lemma serving_device_step:
  assumes "device_op op" "serving efi b" "bridge_step efi open_path op b = Some b'"
  shows "serving efi b'"
proof -
  have ok: "aic_ok (g_aic b)" using assms(2) by (simp add: serving_def)
  have a: "aic_ok (g_aic (snd (vf_m1_guest_aic_set_line irq high b)))" "aic_ok (g_aic (snd (vf_m1_guest_storage_attach n ro b)))"
    "aic_ok (g_aic (snd (vf_m1_guest_storage_detach b)))" for irq high n ro
    using ok by (simp_all add: vf_m1_guest_aic_set_line_def vf_m1_guest_storage_attach_def vf_m1_guest_storage_detach_def if_ready_def
      on_ok_def sync_defs case_prod_beta split: rc.split)
  note kept = serving_kept [OF assms(2) stores_kept_calls(1) device_frame_calls(1) a(1)]
    serving_kept [OF assms(2) stores_kept_calls(5) device_frame_calls(5) a(2)]
    serving_kept [OF assms(2) stores_kept_calls(6) device_frame_calls(6) a(3)]
    serving_kept [OF assms(2) stores_kept_calls(2) device_frame_calls(2)] serving_kept [OF assms(2) stores_kept_calls(3) device_frame_calls(3)]
    serving_kept [OF assms(2) stores_kept_calls(4) device_frame_calls(4)] serving_kept [OF assms(2) stores_kept_calls(7) device_frame_calls(7)]
    serving_kept [OF assms(2) stores_kept_calls(8) device_frame_calls(8)] serving_kept [OF assms(2) stores_kept_calls(9) device_frame_calls(9)]
  show ?thesis
    using assms(1,3) serving_read [OF assms(2)] serving_write [OF assms(2)] kept line_kept_calls [OF ok]
    by (cases op) (auto simp: device_op_def line_kept_def)
qed

lemma serving_step:
  assumes "serving efi b" "bridge_step efi open_path op b = Some b'"
  shows "serving efi b'"
proof (cases op rule: op_cases)
  case reset
  with assms(2) serving_reset [of efi b] show ?thesis by simp
next
  case device
  then show ?thesis using serving_device_step assms by blast
next
  case nvram
  then show ?thesis using serving_nvram_step assms by blast
next
  case gxf
  then have "gxf_frame b b'" using gxf_step_frame assms(2) by blast
  with assms(1) show ?thesis by (auto simp: gxf_frame_def serving_def)
next
  case pci
  then have "aside b b'" "stores_kept b b'" using pci_step_aside stores_kept_pci_step assms(2) by blast+
  with assms(1) show ?thesis by (simp add: aside_def stores_kept_def serving_def)
qed

lemma serving_run:
  assumes "bridge_run efi open_path (Reset # ops) b = Some b'"
  shows "serving efi b'"
proof (rule bridge_run_inv [of "\<lambda>_. True" _ efi open_path ops "vf_m1_guest_mmio_reset efi b"])
  show "bridge_run efi open_path ops (vf_m1_guest_mmio_reset efi b) = Some b'" using assms by simp
qed (use serving_step serving_reset in \<open>auto simp: list_all_iff\<close>)

text \<open>A device that refuses an access is as it was, and the function that copies its level does not fail.\<close>

lemma device_read_refused:
  "fst (vf_aic_read a cpu off w) = None \<Longrightarrow> snd (vf_aic_read a cpu off w) = a"
  "fst (vf_timer_read t off w) = None \<Longrightarrow> snd (vf_timer_read t off w) = t"
  "fst (vf_dart_read d off w) = None \<Longrightarrow> snd (vf_dart_read d off w) = d"
  "fst (vf_storage_read s off w) = None \<Longrightarrow> snd (vf_storage_read s off w) = s"
  "fst (vf_recovery_read r off w) = None \<Longrightarrow> snd (vf_recovery_read r off w) = r"
  "fst (vf_adp_display_read e off w) = None \<Longrightarrow> snd (vf_adp_display_read e off w) = e"
  "fst (vf_apple_uart_read u off w) = None \<Longrightarrow> snd (vf_apple_uart_read u off w) = u"
  "fst (vf_sart_read q off w) = None \<Longrightarrow> snd (vf_sart_read q off w) = q"
  subgoal using aic.rd_closed [of a cpu off w] by (simp add: rd_keeps_def)
  subgoal using tm.rd_closed [of t off w] by (simp add: rd_keeps_def)
  subgoal using dart.rd_closed [of d off w] by (simp add: rd_keeps_def)
  subgoal using st.rd_closed [of s off w] by (simp add: rd_keeps_def)
  subgoal by (auto simp: vf_recovery_read_def split: if_splits)
  subgoal by (auto simp: vf_adp_display_read_def Let_def split: if_splits)
  subgoal using uart.rd_closed [of u off w] by (simp add: rd_keeps_def)
  subgoal using sart.rd_closed [of q off w] by (simp add: rd_keeps_def)
  done

text \<open>An access that is refused leaves the bridge as it was.\<close>

definition read_closed :: "'s m1_bridge \<Rightarrow> (mmio_status + u64) \<times> 's m1_bridge \<Rightarrow> bool" where
  "read_closed b r \<longleftrightarrow> (\<forall>e. fst r = Inl e \<longrightarrow> snd r = b)"

definition write_closed :: "'s m1_bridge \<Rightarrow> mmio_status \<times> 's m1_bridge \<Rightarrow> bool" where
  "write_closed b r \<longleftrightarrow> (fst r \<noteq> VF_M1_MMIO_OK \<longrightarrow> snd r = b)"

lemma closed_parts [simp]:
  "read_closed b (x, b)" "read_closed b (Inr v, b')" "write_closed b (c, b)" "write_closed b (VF_M1_MMIO_OK, b')"
  by (simp_all add: read_closed_def write_closed_def)

lemma closed_if [simp]:
  "read_closed b (if c then r else r') = (if c then read_closed b r else read_closed b r')"
  "write_closed b (if c then q else q') = (if c then write_closed b q else write_closed b q')"
  by simp_all

lemma closed_verdict:
  "(fst x = None \<Longrightarrow> put (snd x) = b) \<Longrightarrow> read_closed b (case x of (r, d) \<Rightarrow> (word_verdict r, put d))"
  "(fst y = None \<Longrightarrow> put (snd y) = b) \<Longrightarrow> read_closed b (case y of (r, d) \<Rightarrow> (dword_verdict r, put d))"
  "(fst z = ERR \<Longrightarrow> put (snd z) = b) \<Longrightarrow> write_closed b (case z of (c, d) \<Rightarrow> (write_verdict c, put d))"
  by (auto simp: read_closed_def write_closed_def word_verdict_def dword_verdict_def write_verdict_def case_prod_beta
      split: option.splits rc.splits)

lemma closed_sync:
  assumes "fst x = ERR \<Longrightarrow> put (snd x) = b" "\<And>d. fst (sync (put d)) = OK"
  shows "write_closed b (case x of (ERR, d) \<Rightarrow> (VF_M1_MMIO_INVALID, put d)
       | (OK, d) \<Rightarrow> (case sync (put d) of (c, b1) \<Rightarrow> (write_verdict c, b1)))"
  using assms by (cases x) (auto simp: write_closed_def case_prod_beta write_verdict_def split: rc.splits)

lemma sync_pass:
  assumes "aic_ok (g_aic b)"
  shows "fst (timer_sync_aic_irq b) = OK" "fst (adp_sync_aic_irq b) = OK" "fst (dart_sync_aic_irq b) = OK"
    "fst (uart_sync_aic_irq b) = OK" "fst (sep_sync_aic_irq b) = OK"
  using assms by (simp_all add: sync_defs)

lemma device_reads_closed:
  "read_closed b (aic_dispatch_read b off w)" "read_closed b (timer_dispatch_read b off w)" "read_closed b (dart_dispatch_read b off w)"
  "read_closed b (storage_dispatch_read b off w)" "read_closed b (recovery_dispatch_read b off w)"
  "read_closed b (adp_dispatch_read b off w)" "read_closed b (uart_dispatch_read b off w)" "read_closed b (sart_dispatch_read b off w)"
  "read_closed b (nvram_dispatch_read b off w)"
  by (simp_all add: aic_dispatch_read_def timer_dispatch_read_def dart_dispatch_read_def storage_dispatch_read_def
      recovery_dispatch_read_def adp_dispatch_read_def uart_dispatch_read_def sart_dispatch_read_def nvram_dispatch_read_def
      closed_verdict device_read_refused)

lemma smc_read_closed:
  assumes "serving efi b"
  shows "read_closed b (smc_dispatch_read efi b off w)"
proof (cases efi)
  case False
  with assms obtain bytes len s where "vf_smc_read_key (g_smc b) VF_SMC_KEY_NKEY 4 = (Some (bytes, len), s)"
    using read_nkey(1) [of "g_smc b"] by (cases "vf_smc_read_key (g_smc b) VF_SMC_KEY_NKEY 4") (auto simp: serving_def)
  with False show ?thesis by (simp add: smc_dispatch_read_def)
qed (simp add: smc_dispatch_read_def)

lemma sep_read_closed:
  assumes "serving efi b"
  shows "read_closed b (sep_dispatch_read b off w)"
proof -
  obtain r s where r: "vf_sep_mailbox_read (g_sep b) off w = (r, s)" by fastforce
  have "fst (sep_sync_aic_irq (b\<lparr>g_sep := s\<rparr>)) = OK" using assms by (simp add: serving_def sync_pass)
  then obtain c where "sep_sync_aic_irq (b\<lparr>g_sep := s\<rparr>) = (OK, c)" by (metis prod.collapse)
  then show ?thesis
    using device_write_refused(6) [of "g_sep b" off w] by (cases r) (simp_all add: sep_dispatch_read_def r)
qed

lemma nvram_write_closed:
  assumes "serving efi b"
  shows "write_closed b (nvram_dispatch_write b off w v)"
proof -
  obtain c n where r: "vf_nvram_env_set (g_nvram b) nvram_boot_args (cstr (g_boot_args b)) 0 = (c, n)" by fastforce
  have "c = ERR \<Longrightarrow> n = g_nvram b"
    using env_set_room(2) [of "g_nvram b" nvram_boot_args "cstr (g_boot_args b)" 0] assms by (simp add: r serving_def)
  then show ?thesis by (cases c) (simp_all add: nvram_dispatch_write_def r Let_def)
qed

lemma dart_write_closed:
  assumes "serving efi b"
  shows "write_closed b (dart_dispatch_write b off w v)"
proof -
  obtain c d where r: "vf_dart_write (g_dart b) off 4 (ucast v) = (c, d)" by fastforce
  have "fst (dart_sync_aic_irq (b\<lparr>g_dart := d\<rparr>)) = OK" using assms by (simp add: serving_def sync_pass)
  moreover have "c = ERR \<Longrightarrow> d = g_dart b" using device_write_refused(3) [of "g_dart b" off 4 "ucast v"] by (simp add: r)
  ultimately show ?thesis by (cases c) (simp_all add: dart_dispatch_write_def r write_verdict_def case_prod_beta)
qed

lemma device_writes_closed:
  assumes "serving efi b"
  shows "write_closed b (aic_dispatch_write b off w v)" "write_closed b (sart_dispatch_write b off w v)"
    "write_closed b (timer_dispatch_write b off w v)" "write_closed b (adp_dispatch_write b off w v)"
    "write_closed b (uart_dispatch_write b off w v)" "write_closed b (sep_dispatch_write b off w v)"
    "write_closed b (storage_dispatch_write b off w v)" "write_closed b (recovery_dispatch_write b off w v)"
    "write_closed b (smc_dispatch_write efi b off w v)"
proof -
  have ok: "aic_ok (g_aic b)" using assms by (simp add: serving_def)
  have a: "fst (vf_aic_write (g_aic b) 0 off 4 x) = ERR \<Longrightarrow> snd (vf_aic_write (g_aic b) 0 off 4 x) = g_aic b" for x
    using aic.wr_closed [of "g_aic b" 0 off 4 x] by (simp add: wr_keeps_def)
  have s: "fst (vf_sart_write (g_sart b) off 4 x) = ERR \<Longrightarrow> snd (vf_sart_write (g_sart b) off 4 x) = g_sart b" for x
    using sart.wr_closed [of "g_sart b" off 4 x] by (simp add: wr_keeps_def)
  show "write_closed b (aic_dispatch_write b off w v)" "write_closed b (sart_dispatch_write b off w v)"
    by (simp_all add: aic_dispatch_write_def sart_dispatch_write_def closed_verdict a s)
  show "write_closed b (timer_dispatch_write b off w v)" "write_closed b (adp_dispatch_write b off w v)"
    "write_closed b (uart_dispatch_write b off w v)" "write_closed b (sep_dispatch_write b off w v)"
    unfolding timer_dispatch_write_def adp_dispatch_write_def uart_dispatch_write_def sep_dispatch_write_def closed_if
    using closed_sync [of "vf_timer_write (g_timer b) off w v" "\<lambda>d. b\<lparr>g_timer := d\<rparr>" b timer_sync_aic_irq]
      closed_sync [of "vf_adp_display_write (g_adp b) off w v" "\<lambda>d. b\<lparr>g_adp := d\<rparr>" b adp_sync_aic_irq]
      closed_sync [of "vf_apple_uart_write (g_uart b) off 4 (ucast v)" "\<lambda>d. b\<lparr>g_uart := d\<rparr>" b uart_sync_aic_irq]
      closed_sync [of "vf_sep_mailbox_write (g_sep b) off w v" "\<lambda>d. b\<lparr>g_sep := d\<rparr>" b sep_sync_aic_irq] ok
    by (auto simp: sync_pass device_write_refused)
qed (simp_all add: storage_dispatch_write_def recovery_dispatch_write_def smc_dispatch_write_def case_prod_beta)

lemma access_closed:
  assumes "serving efi b"
  shows "read_closed b (vf_m1_guest_mmio_read efi window off w b)" "write_closed b (vf_m1_guest_mmio_write efi window off w v b)"
  using smc_read_closed [OF assms] sep_read_closed [OF assms] device_writes_closed [OF assms] nvram_write_closed [OF assms]
    dart_write_closed [OF assms]
  by (simp_all add: vf_m1_guest_mmio_read_def vf_m1_guest_mmio_write_def device_reads_closed)

section \<open>Properties\<close>

text \<open>C11. In every state the bridge reaches after a reset, an access of the guest that is refused (an error status) leaves the
  whole bridge unchanged: no device, no line and no guest processor is touched.\<close>

theorem bridge_refusal_changes_nothing:
  assumes "bridge_run efi open_path (Reset # ops) b0 = Some b"
  shows "(\<forall>e. fst (vf_m1_guest_mmio_read efi window off w b) = Inl e \<longrightarrow> snd (vf_m1_guest_mmio_read efi window off w b) = b)
    \<and> (fst (vf_m1_guest_mmio_write efi window off w v b) \<noteq> VF_M1_MMIO_OK \<longrightarrow> snd (vf_m1_guest_mmio_write efi window off w v b) = b)"
  using access_closed(1) [OF serving_run [OF assms], of window off w] access_closed(2) [OF serving_run [OF assms], of window off w v]
  by (simp add: read_closed_def write_closed_def)

theorem bridge_refusal_changes_nothing_witness:
  "\<forall>b :: unit m1_bridge. snd (vf_m1_guest_mmio_write False VF_M1_MMIO_WINDOW_NVRAM VF_M1_NVRAM_MMIO_COMMIT 32 7 (vf_m1_guest_mmio_reset False b))
     = vf_m1_guest_mmio_reset False b"
proof
  fix b :: "unit m1_bridge"
  have r: "bridge_run False (\<lambda>_. None) [Reset] b = Some (vf_m1_guest_mmio_reset False b)" by simp
  have "fst (vf_m1_guest_mmio_write False VF_M1_MMIO_WINDOW_NVRAM VF_M1_NVRAM_MMIO_COMMIT 32 7 (vf_m1_guest_mmio_reset False b)) \<noteq> VF_M1_MMIO_OK"
    using reset_follows(1) [of False b] by (simp add: vf_m1_guest_mmio_write_def nvram_dispatch_write_def mmio_width_valid_def)
  then show "snd (vf_m1_guest_mmio_write False VF_M1_MMIO_WINDOW_NVRAM VF_M1_NVRAM_MMIO_COMMIT 32 7 (vf_m1_guest_mmio_reset False b))
     = vf_m1_guest_mmio_reset False b"
    using bridge_refusal_changes_nothing [OF r, of VF_M1_MMIO_WINDOW_NVRAM VF_M1_NVRAM_MMIO_COMMIT 32 7] by blast
qed

end
