(* ===== verification/Flush.thy ===== *)
theory Flush
  imports Wiring
begin

unbundle bit_operations_syntax

text \<open>
  The permission registers and the guest processor behind the bridge: every change of the permissions that a guest makes at level 0
  reaches the hook the bridge installs, and the hook drops the translations of the bound processor.
\<close>

section \<open>Permission changes of the bank\<close>

text \<open>From one state of the bank to the next: the permissions change at most once, and then the hook is called.\<close>

definition flush_frame :: "vf_apple_gxf_v1 \<Rightarrow> vf_apple_gxf_v1 \<Rightarrow> bool" where
  "flush_frame g g' \<longleftrightarrow> sprr_tlb_flush g' = sprr_tlb_flush g \<and> sprr_tlb_flush_ctx g' = sprr_tlb_flush_ctx g
     \<and> (sprr_perm_generation g' = sprr_perm_generation g \<and> sprr_tlb_flush_count g' = sprr_tlb_flush_count g
          \<and> sprr_tlb_flush_calls g' = sprr_tlb_flush_calls g
      \<or> sprr_perm_generation g' = sprr_perm_generation g + 1 \<and> sprr_tlb_flush_count g' = sprr_tlb_flush_count g + 1
          \<and> sprr_tlb_flush_calls g' = sprr_tlb_flush_calls g @
              (case sprr_tlb_flush g of None \<Rightarrow> [] | Some fn \<Rightarrow> [(fn, sprr_tlb_flush_ctx g, sprr_perm_generation g + 1)]))"

lemma flush_frame_same:
  "sprr_tlb_flush g' = sprr_tlb_flush g \<Longrightarrow> sprr_tlb_flush_ctx g' = sprr_tlb_flush_ctx g \<Longrightarrow>
   sprr_perm_generation g' = sprr_perm_generation g \<Longrightarrow> sprr_tlb_flush_count g' = sprr_tlb_flush_count g \<Longrightarrow>
   sprr_tlb_flush_calls g' = sprr_tlb_flush_calls g \<Longrightarrow> flush_frame g g'"
  by (simp add: flush_frame_def)

lemma flush_frame_changed: "flush_frame g (gxf_sprr_perm_changed (g\<lparr>sprr_el0br0_el1 := v\<rparr>))"
  by (simp add: flush_frame_def gxf_sprr_perm_changed_def Let_def split: option.split)

lemma alias_flush_frame: "flush_frame g (snd (gxf_el1_alias_write g reg v el))"
  unfolding gxf_el1_alias_write_def Let_def
  by (intro if_arm [where P = "\<lambda>r. flush_frame g (snd r)"]) (simp_all add: flush_frame_same)

lemma write_flush_frame: "flush_frame g (snd (vf_apple_gxf_write_el g reg v el))"
  unfolding vf_apple_gxf_write_el_def Let_def
  by (intro if_arm [where P = "\<lambda>r. flush_frame g (snd r)"])
     (use alias_flush_frame [of g reg v el] flush_frame_changed in \<open>simp_all add: flush_frame_same\<close>)

lemma jump_flush_frame:
  "flush_frame g (snd (vf_apple_gxf_genter g pc spsr))" "flush_frame g (snd (vf_apple_gxf_gexit g))"
  "flush_frame g (snd (vf_apple_gxf_abort g pc spsr esr far))"
  "flush_frame g (snd (vf_apple_gxf_take_exception g kind tbl pc spsr esr far))"
  "flush_frame g (snd (vf_apple_gxf_tcg_exec g insn el pc spsr))"
proof -
  show a: "flush_frame g (snd (vf_apple_gxf_genter g pc spsr))" and b: "flush_frame g (snd (vf_apple_gxf_gexit g))"
    by (simp_all add: vf_apple_gxf_genter_def vf_apple_gxf_gexit_def gxf_sync_guarded_from_status_def Let_def flush_frame_same)
  show "flush_frame g (snd (vf_apple_gxf_abort g pc spsr esr far))"
    by (simp add: vf_apple_gxf_abort_def gxf_sync_guarded_from_status_def Let_def flush_frame_same)
  show "flush_frame g (snd (vf_apple_gxf_take_exception g kind tbl pc spsr esr far))"
    by (simp add: vf_apple_gxf_take_exception_def Let_def flush_frame_same)
  show "flush_frame g (snd (vf_apple_gxf_tcg_exec g insn el pc spsr))"
    using a b by (simp add: vf_apple_gxf_tcg_exec_def flush_frame_same split: gxf_tcg_kind.split)
qed

section \<open>The bound processor\<close>

text \<open>The hook is installed for the bound processor, and since some earlier state each change has dropped its translations once.\<close>

definition flushed :: "u64 \<Rightarrow> (u64 \<Rightarrow> vf_cpu) \<Rightarrow> 's m1_bridge \<Rightarrow> bool" where
  "flushed p cpus b \<longleftrightarrow> g_ready b \<and> p \<noteq> 0 \<and> g_tlb_cpu b = p \<and> sprr_tlb_flush (g_gxf b) = Some SPRR_GUEST_TLB_FLUSH
     \<and> sprr_tlb_flush_ctx (g_gxf b) = p \<and> sprr_perm_generation (g_gxf b) = sprr_tlb_flush_count (g_gxf b)
     \<and> cpu_tlb_generation (g_cpus b p) = cpu_tlb_generation (cpus p) + sprr_tlb_flush_count (g_gxf b)
     \<and> (sprr_tlb_flush_count (g_gxf b) \<noteq> 0 \<longrightarrow> cpu_tlb_tag (g_cpus b p) = 0) \<and> (\<forall>q. q \<noteq> p \<longrightarrow> g_cpus b q = cpus q)"

lemma settle_gxf_parts: "g_gxf (settle_gxf g b) = g" "g_ready (settle_gxf g b) = g_ready b"
proof -
  obtain cpus where "settle_gxf g b = b\<lparr>g_gxf := g, g_cpus := cpus\<rparr>" using settle_gxf_result by blast
  then show "g_gxf (settle_gxf g b) = g" "g_ready (settle_gxf g b) = g_ready b" by simp_all
qed

lemma flushed_settle:
  assumes "flushed p cpus b" "flush_frame (g_gxf b) g"
  shows "flushed p cpus (settle_gxf g b)"
  using assms
  by (auto simp: flushed_def flush_frame_def settle_gxf_def m1_gxf_sprr_guest_tlb_flush_def vf_cpu_invalidate_tlb_def Let_def algebra_simps)

lemma flushed_parts [simp]:
  "flushed p cpus (snd (pci_call f b)) = flushed p cpus b" "flushed p cpus (snd (ans_call h b)) = flushed p cpus b"
  "flushed p cpus (snd (ans_pci_auto_bind_aic b)) = flushed p cpus b" "flushed p cpus (b\<lparr>g_msi_gpa := m\<rparr>) = flushed p cpus b"
  "flushed p cpus (b\<lparr>g_sq_tail := t\<rparr>) = flushed p cpus b" "flushed p cpus (b\<lparr>g_store := w\<rparr>) = flushed p cpus b"
  "flushed p cpus (b\<lparr>g_ans := a\<rparr>) = flushed p cpus b"
  by (simp_all add: flushed_def pci_call_def ans_call_def settle_pci_result ans_pci_auto_bind_aic_def sink_calls_result case_prod_beta)

lemma flushed_pci_step:
  "pci_op op \<Longrightarrow> flushed p cpus b \<Longrightarrow> bridge_step efi open_path op b = Some b' \<Longrightarrow> flushed p cpus b'"
  by (cases op) (auto simp: pci_op_def pci_entry_defs if_ready_def case_prod_beta Let_def ans_auto_bind_pci_def
      ans_pci_auto_bind_msi_gpa_def intro!: run_parts_inv [where I = "flushed p cpus"])

definition keeps_binding :: "'s bridge_op \<Rightarrow> bool" where
  "keeps_binding op \<longleftrightarrow> (case op of Reset \<Rightarrow> False | GxfBindTlb cpu \<Rightarrow> False | _ \<Rightarrow> True)"

lemma flushed_gxf_step:
  assumes "gxf_op op" "keeps_binding op" "flushed p cpus b" "bridge_step efi open_path op b = Some b'"
  shows "flushed p cpus b'"
proof -
  have "flushed p cpus (b\<lparr>g_gxf := vf_apple_gxf_set_hcr_el2 (g_gxf b) v\<rparr>)"
    "flushed p cpus (b\<lparr>g_gxf := vf_apple_gxf_set_vmsa_lock_el1 (g_gxf b) v\<rparr>)" for v
    using assms(3) by (simp_all add: flushed_def vf_apple_gxf_set_hcr_el2_def vf_apple_gxf_set_vmsa_lock_el1_def)
  then show ?thesis
    using assms flushed_settle [OF assms(3) write_flush_frame] jump_flush_frame [THEN flushed_settle [OF assms(3)]]
    by (cases op) (auto simp: gxf_op_def keeps_binding_def gxf_entry_defs case_prod_beta)
qed

lemma flushed_step:
  assumes "keeps_binding op" "flushed p cpus b" "bridge_step efi open_path op b = Some b'"
  shows "flushed p cpus b'"
proof (cases op rule: op_cases)
  case reset
  with assms(1) show ?thesis by (simp add: keeps_binding_def)
next
  case device
  then show ?thesis using device_step_frame assms by (fastforce simp: device_frame_def flushed_def)
next
  case nvram
  then have "nvram_frame b b'" using nvram_step_frame assms(3) by blast
  with assms(2) show ?thesis by (auto simp: nvram_frame_def flushed_def)
next
  case gxf
  then show ?thesis using flushed_gxf_step assms by blast
next
  case pci
  then show ?thesis using flushed_pci_step assms by blast
qed

lemma reset_flushed:
  assumes "g_tlb_cpu b = p" "p \<noteq> 0"
  shows "flushed p (g_cpus b) (vf_m1_guest_mmio_reset efi b)"
proof -
  have "flushed p (g_cpus b) (snd (sep_sync_aic_irq (woken efi b)))"
    using assms by (simp add: flushed_def sep_sync_aic_irq_def woken_def arm_sprr_hook_def fresh_parts vf_apple_gxf_init_def
      vf_apple_gxf_set_sprr_tlb_flush_def)
  then show ?thesis by (simp add: reset_result wired_def ans_pci_auto_bind_msi_gpa_def ans_auto_bind_pci_def Let_def)
qed

section \<open>Properties\<close>

text \<open>C14. From a reset on, while a guest processor is bound, the processor's translation generation has moved by exactly the number of
  permission changes the bank has counted, which is also its permission generation; once there has been one, the cached translation
  of the processor is gone; and no other processor is touched.\<close>

theorem bridge_flushes_bound_processor:
  assumes "g_tlb_cpu b = p" "p \<noteq> 0" "list_all keeps_binding ops" "bridge_run efi open_path (Reset # ops) b = Some b'"
  shows "vf_m1_guest_gxf_guest_tlb_generation b'
       = vf_m1_guest_gxf_guest_tlb_generation b + vf_m1_guest_gxf_sprr_tlb_flush_count b'
    \<and> vf_m1_guest_gxf_sprr_perm_generation b' = vf_m1_guest_gxf_sprr_tlb_flush_count b'
    \<and> (vf_m1_guest_gxf_sprr_tlb_flush_count b' \<noteq> 0 \<longrightarrow> cpu_tlb_tag (g_cpus b' p) = 0)
    \<and> (\<forall>q. q \<noteq> p \<longrightarrow> g_cpus b' q = g_cpus b q)"
proof -
  have "bridge_run efi open_path ops (vf_m1_guest_mmio_reset efi b) = Some b'" using assms(4) by simp
  then have "flushed p (g_cpus b) b'"
    using bridge_run_inv [of keeps_binding "flushed p (g_cpus b)" efi open_path ops] flushed_step assms(3) reset_flushed [OF assms(1,2)]
    by blast
  then show ?thesis
    using assms(1)
    by (simp add: flushed_def vf_m1_guest_gxf_guest_tlb_generation_def vf_m1_guest_gxf_sprr_tlb_flush_count_def
        vf_m1_guest_gxf_sprr_perm_generation_def vf_apple_gxf_sprr_tlb_flush_count_def vf_apple_gxf_sprr_perm_generation_def)
qed

theorem bridge_flushes_bound_processor_witness:
  "\<forall>b :: unit m1_bridge. \<exists>b'. bridge_run True (\<lambda>_. None) [Reset, GxfWrite VF_GXF_REG_SPRR_EL0BR0_EL1 3 0] (b\<lparr>g_tlb_cpu := 8\<rparr>) = Some b'
     \<and> vf_m1_guest_gxf_sprr_tlb_flush_count b' = 1
     \<and> vf_m1_guest_gxf_guest_tlb_generation b' = vf_m1_guest_gxf_guest_tlb_generation (b\<lparr>g_tlb_cpu := 8\<rparr>) + 1"
proof
  fix b :: "unit m1_bridge"
  let ?b = "b\<lparr>g_tlb_cpu := 8\<rparr>"
  let ?ops = "[GxfWrite VF_GXF_REG_SPRR_EL0BR0_EL1 3 0] :: unit bridge_op list"
  let ?b1 = "vf_m1_guest_mmio_reset True ?b"
  let ?b' = "snd (vf_m1_guest_gxf_write_el VF_GXF_REG_SPRR_EL0BR0_EL1 3 0 ?b1)"
  have r: "bridge_run True (\<lambda>_. None) (Reset # ?ops) ?b = Some ?b'" by simp
  have z: "sprr_tlb_flush_count (g_gxf ?b1) = 0"
    by (simp add: reset_result wired_def ans_pci_auto_bind_msi_gpa_def pci_call_def ans_pci_auto_bind_aic_def ans_auto_bind_pci_def
      ans_call_def settle_pci_result sink_calls_result sep_sync_aic_irq_def case_prod_beta Let_def woken_def arm_sprr_hook_def fresh_parts
      vf_apple_gxf_init_def vf_apple_gxf_set_sprr_tlb_flush_def)
  have rdy: "g_ready ?b1" by (rule reset_follows)
  have c: "vf_m1_guest_gxf_sprr_tlb_flush_count ?b' = 1"
    using z rdy unfolding vf_m1_guest_gxf_write_el_def gxf_write_el0_sprr
    by (simp add: settle_gxf_parts vf_m1_guest_gxf_sprr_tlb_flush_count_def vf_apple_gxf_sprr_tlb_flush_count_def)
      (simp add: gxf_sprr_perm_changed_def Let_def split: option.split)
  show "\<exists>b'. bridge_run True (\<lambda>_. None) [Reset, GxfWrite VF_GXF_REG_SPRR_EL0BR0_EL1 3 0] ?b = Some b'
     \<and> vf_m1_guest_gxf_sprr_tlb_flush_count b' = 1
     \<and> vf_m1_guest_gxf_guest_tlb_generation b' = vf_m1_guest_gxf_guest_tlb_generation ?b + 1"
    using bridge_flushes_bound_processor [of ?b 8 ?ops True "\<lambda>_. None" ?b'] r c by (auto simp: keeps_binding_def)
qed

end
