(* ===== verification/Firmware.thy ===== *)
theory Firmware
  imports Prelude
begin

text \<open>
  The two adapters between the runtime and the firmware it runs on: \<open>runtime/jit_protection.c\<close>, which switches the code buffer between
  writable and executable, with \<open>vf_memory_attributes_satisfy\<close> of \<open>runtime/uefi.h\<close>, and \<open>runtime/gop_scanout.c\<close>, which moves frames
  between guest memory and the screen.

  The firmware is a parameter: a record of the services the code calls, each over a state of its own, and of what the code reads of the
  host, the control registers and the quadwords of memory that hold the page tables. Pointers are addresses. A loop over pages reads only,
  so it is a test of all of them.

  Shown: when the adapter reports success, every byte of the buffer is mapped with exactly the rights that were asked for, by the page
  tables themselves and whatever the firmware answered; with firmware that obeys attributes, the buffer is at no moment both writable and
  executable; a frame transfer reaches the screen only with a rectangle inside it and with rows inside the caller's buffer.
\<close>

unbundle bit_operations_syntax

abbreviation (input) EFI_UNSUPPORTED :: u64 where "EFI_UNSUPPORTED \<equiv> 0x8000000000000003"
abbreviation (input) EFI_INVALID_PARAMETER :: u64 where "EFI_INVALID_PARAMETER \<equiv> 0x8000000000000002"
abbreviation (input) EFI_MEMORY_XP :: u64 where "EFI_MEMORY_XP \<equiv> 0x4000"
abbreviation (input) EFI_MEMORY_RO :: u64 where "EFI_MEMORY_RO \<equiv> 0x20000"

section \<open>Protection of the code buffer\<close>

definition vf_memory_attributes_satisfy :: "u64 \<Rightarrow> bool \<Rightarrow> bool" where
  "vf_memory_attributes_satisfy attributes executable =
     (if executable then attributes AND (EFI_MEMORY_RO OR EFI_MEMORY_XP) = EFI_MEMORY_RO
      else attributes AND EFI_MEMORY_XP \<noteq> 0 \<and> attributes AND EFI_MEMORY_RO = 0)"

datatype protection_guid = memory_guid | cpu_guid

text \<open>Services take the protocol's pointer, a base, a length and attributes, and return a status. A located protocol is the pointer the
  service stores over the one that was there.\<close>

record 's firmware =
  fw_locate :: "'s \<Rightarrow> protection_guid \<Rightarrow> u64 \<Rightarrow> u64 \<times> u64 \<times> 's"
  fw_get :: "'s \<Rightarrow> u64 \<Rightarrow> u64 \<Rightarrow> u64 \<Rightarrow> u64 \<times> u64 \<times> 's"
  fw_set :: "'s \<Rightarrow> u64 \<Rightarrow> u64 \<Rightarrow> u64 \<Rightarrow> u64 \<Rightarrow> u64 \<times> 's"
  fw_clear :: "'s \<Rightarrow> u64 \<Rightarrow> u64 \<Rightarrow> u64 \<Rightarrow> u64 \<Rightarrow> u64 \<times> 's"
  fw_cpu_set :: "'s \<Rightarrow> u64 \<Rightarrow> u64 \<Rightarrow> u64 \<Rightarrow> u64 \<Rightarrow> u64 \<times> 's"
  fw_cr0 :: "'s \<Rightarrow> u64"
  fw_cr3 :: "'s \<Rightarrow> u64"
  fw_cr4 :: "'s \<Rightarrow> u64"
  fw_efer_low :: "'s \<Rightarrow> u32"
  fw_qword :: "'s \<Rightarrow> u64 \<Rightarrow> u64"

record protection_context =
  pc_memory :: u64
  pc_cpu :: u64

text \<open>The system table is \<open>None\<close> if the pointer is null, and its flag says whether it has boot services.\<close>

definition vf_efi_jit_protection_open ::
  "'s firmware \<Rightarrow> bool option \<Rightarrow> u64 \<Rightarrow> u64 \<Rightarrow> protection_context \<Rightarrow> 's \<Rightarrow> rc \<times> protection_context \<times> 's" where
  "vf_efi_jit_protection_open f table storage bytes context s =
     (case table of
        None \<Rightarrow> (ERR, context, s)
      | Some boot_services \<Rightarrow>
          if storage = 0 \<or> bytes \<noteq> 16 \<or> storage AND 7 \<noteq> 0 then (ERR, context, s)
          else if \<not> boot_services then (ERR, context, s)
          else
            let (memory, pointer, s1) = fw_locate f s memory_guid 0 in
            if memory \<noteq> 0 \<or> pointer = 0 then
              let (status, cpu, s2) = fw_locate f s1 cpu_guid 0 in
              (if status \<noteq> 0 \<or> cpu = 0 then ERR else OK, \<lparr>pc_memory = 0, pc_cpu = cpu\<rparr>, s2)
            else (OK, \<lparr>pc_memory = pointer, pc_cpu = 0\<rparr>, s1))"

definition pte_of :: "'s firmware \<Rightarrow> 's \<Rightarrow> u64 \<Rightarrow> nat \<Rightarrow> u64 \<Rightarrow> u64" where
  "pte_of f s address level table = fw_qword f s (table + 8 * (drop_bit (12 + level * 9) address AND 511))"

fun page_walk :: "'s firmware \<Rightarrow> 's \<Rightarrow> u64 \<Rightarrow> bool \<Rightarrow> nat \<Rightarrow> u64 \<Rightarrow> bool \<Rightarrow> bool \<Rightarrow> rc" where
  "page_walk f s address executable level table writable nx =
     (let pte = pte_of f s address level table in
      if pte AND 1 = 0 then ERR
      else
        let writable1 = (writable \<and> pte AND 2 \<noteq> 0);
            nx1 = (nx \<or> drop_bit 63 pte \<noteq> 0) in
        if level = 0 \<or> ((level = 1 \<or> level = 2) \<and> pte AND 128 \<noteq> 0) then
          (if executable then (if \<not> writable1 \<and> \<not> nx1 then OK else ERR) else (if writable1 \<and> nx1 then OK else ERR))
        else if level = 3 \<and> pte AND 128 \<noteq> 0 then ERR
        else page_walk f s address executable (level - 1) (pte AND 0x000ffffffffff000) writable1 nx1)"

declare page_walk.simps [simp del]

definition page_permissions :: "'s firmware \<Rightarrow> 's \<Rightarrow> u64 \<Rightarrow> bool \<Rightarrow> rc" where
  "page_permissions f s address executable =
     (if fw_cr0 f s AND 0x10000 = 0 \<or> fw_efer_low f s AND 0x800 = 0 \<or> fw_cr4 f s AND 0x1000 \<noteq> 0 then ERR
      else page_walk f s address executable 3 (fw_cr3 f s AND 0x000ffffffffff000) True False)"

definition pages_permitted :: "'s firmware \<Rightarrow> 's \<Rightarrow> u64 \<Rightarrow> u64 \<Rightarrow> bool \<Rightarrow> rc" where
  "pages_permitted f s base n executable =
     (if list_all (\<lambda>i. page_permissions f s (base + of_nat (4096 * i)) executable = OK) [0..<unat n div 4096] then OK else ERR)"

definition vf_efi_jit_protect ::
  "'s firmware \<Rightarrow> u64 \<Rightarrow> u64 \<Rightarrow> u32 \<Rightarrow> protection_context option \<Rightarrow> 's \<Rightarrow> rc \<times> 's" where
  "vf_efi_jit_protect f p n executable opaque s =
     (case opaque of
        None \<Rightarrow> (ERR, s)
      | Some context \<Rightarrow>
          if p = 0 \<or> n = 0 \<or> p AND 4095 \<noteq> 0 \<or> n AND 4095 \<noteq> 0 \<or> (executable \<noteq> 0 \<and> executable \<noteq> 1) then (ERR, s)
          else
            let m = pc_memory context; x = (executable \<noteq> 0) in
            if m = 0 then
              if pc_cpu context = 0 then (ERR, s)
              else
                let (status, s1) = fw_cpu_set f s (pc_cpu context) p n (8 OR EFI_MEMORY_RO OR EFI_MEMORY_XP) in
                if status \<noteq> 0 then (ERR, s1)
                else
                  let (status1, s2) = fw_cpu_set f s1 (pc_cpu context) p n (8 OR (if x then EFI_MEMORY_RO else EFI_MEMORY_XP)) in
                  if status1 \<noteq> 0 then (ERR, s2) else (pages_permitted f s2 p n x, s2)
            else
              let (status, s1) = fw_set f s m p n (if x then EFI_MEMORY_RO else EFI_MEMORY_XP) in
              if status \<noteq> 0 then (ERR, s1)
              else
                let (status1, s2) = fw_clear f s1 m p n (if x then EFI_MEMORY_XP else EFI_MEMORY_RO) in
                if status1 \<noteq> 0 then (ERR, s2)
                else
                  let (status2, attrs, s3) = fw_get f s2 m p n in
                  if status2 \<noteq> 0 then (ERR, s3)
                  else if \<not> vf_memory_attributes_satisfy attrs x then (ERR, s3)
                  else (pages_permitted f s3 p n x, s3))"

section \<open>Frames\<close>

record VF_GOP_INFO =
  gi_version :: u32
  gi_width :: u32
  gi_height :: u32
  gi_pixel_format :: u32

record VF_GOP_MODE =
  gm_max_mode :: u32
  gm_mode :: u32
  gm_info :: "VF_GOP_INFO option"
  gm_info_size :: u64

record VF_GOP =
  gop_blt :: bool
  gop_mode :: "VF_GOP_MODE option"

text \<open>The arguments of a block transfer, from the pixels on.\<close>

record blt_call =
  blt_pixels :: u64
  blt_operation :: u32
  blt_source_x :: u64
  blt_source_y :: u64
  blt_destination_x :: u64
  blt_destination_y :: u64
  blt_width :: u64
  blt_height :: u64
  blt_delta :: u64

record 's boot_services =
  bv_locate :: "('s \<Rightarrow> u64 \<times> VF_GOP option \<times> 's) option"
  bv_blt :: "'s \<Rightarrow> blt_call \<Rightarrow> u64 \<times> 's"

definition valid_buffer :: "u64 \<Rightarrow> u64 \<Rightarrow> u64 \<Rightarrow> u32 \<Rightarrow> u32 \<Rightarrow> u32 \<Rightarrow> bool" where
  "valid_buffer buffer bytes offset width height stride =
     (if buffer = 0 \<or> bytes = 0 \<or> buffer > - 1 - bytes \<or> buffer AND 3 \<noteq> 0 \<or> offset AND 3 \<noteq> 0 \<or> stride AND 3 \<noteq> 0
         \<or> width = 0 \<or> height = 0 \<or> width > 8192 \<or> height > 8192 \<or> ucast stride < (ucast width * 4 :: u64) \<or> offset > bytes then False
      else
        let span = ucast (height - 1) * ucast stride + ucast width * 4 :: u64 in
        span \<le> push_bit 20 256 \<and> span \<le> bytes - offset)"

definition transfer ::
  "'s boot_services option \<Rightarrow> u64 \<Rightarrow> u64 \<Rightarrow> u64 \<Rightarrow> u32 \<Rightarrow> u32 \<Rightarrow> u32 \<Rightarrow> u32 \<Rightarrow> u32 \<Rightarrow> bool \<Rightarrow> 's \<Rightarrow> u64 \<times> 's" where
  "transfer bs buffer bytes offset width height stride x y readback s =
     (if \<not> valid_buffer buffer bytes offset width height stride then (EFI_INVALID_PARAMETER, s)
      else
        case bs of None \<Rightarrow> (EFI_UNSUPPORTED, s)
        | Some services \<Rightarrow>
            (case bv_locate services of None \<Rightarrow> (EFI_UNSUPPORTED, s)
             | Some locate \<Rightarrow>
                 let (status, gop, s1) = locate s in
                 if status \<noteq> 0 then (status, s1)
                 else
                   case gop of None \<Rightarrow> (EFI_UNSUPPORTED, s1)
                   | Some g \<Rightarrow>
                       if \<not> gop_blt g then (EFI_UNSUPPORTED, s1)
                       else
                         case gop_mode g of None \<Rightarrow> (EFI_UNSUPPORTED, s1)
                         | Some mode \<Rightarrow>
                             (case gm_info mode of None \<Rightarrow> (EFI_UNSUPPORTED, s1)
                              | Some info \<Rightarrow>
                                  if gm_info_size mode < 36 \<or> gm_max_mode mode = 0 \<or> gm_mode mode \<ge> gm_max_mode mode then (EFI_UNSUPPORTED, s1)
                                  else if gi_version info \<noteq> 0 \<or> gi_pixel_format info \<ge> 4 \<or> gi_width info = 0 \<or> gi_height info = 0 then (EFI_UNSUPPORTED, s1)
                                  else if x > gi_width info \<or> y > gi_height info \<or> width > gi_width info - x \<or> height > gi_height info - y then
                                    (EFI_INVALID_PARAMETER, s1)
                                  else
                                    let call = \<lparr>blt_pixels = buffer + offset, blt_operation = 1, blt_source_x = ucast x, blt_source_y = ucast y,
                                                blt_destination_x = 0, blt_destination_y = 0, blt_width = ucast width, blt_height = ucast height,
                                                blt_delta = ucast stride\<rparr> in
                                    if readback then bv_blt services s1 call
                                    else bv_blt services s1 (call\<lparr>blt_operation := 2, blt_source_x := 0, blt_source_y := 0,
                                                                  blt_destination_x := ucast x, blt_destination_y := ucast y\<rparr>))))"

definition vf_gop_present ::
  "'s boot_services option \<Rightarrow> u64 \<Rightarrow> u64 \<Rightarrow> u64 \<Rightarrow> u32 \<Rightarrow> u32 \<Rightarrow> u32 \<Rightarrow> u32 \<Rightarrow> u32 \<Rightarrow> 's \<Rightarrow> u64 \<times> 's" where
  "vf_gop_present bs guest_ram ram_bytes offset width height stride destination_x destination_y s =
     transfer bs guest_ram ram_bytes offset width height stride destination_x destination_y False s"

definition vf_gop_readback ::
  "'s boot_services option \<Rightarrow> u64 \<Rightarrow> u64 \<Rightarrow> u64 \<Rightarrow> u32 \<Rightarrow> u32 \<Rightarrow> u32 \<Rightarrow> u32 \<Rightarrow> u32 \<Rightarrow> 's \<Rightarrow> u64 \<times> 's" where
  "vf_gop_readback bs buffer buffer_bytes offset width height stride source_x source_y s =
     transfer bs buffer buffer_bytes offset width height stride source_x source_y True s"

section \<open>What the page tables mean\<close>

text \<open>The entries a four-level walk passes, down to the one that maps the page; and the rights of the page, which are those that no
  entry on the way takes away.\<close>

fun page_path :: "(u64 \<Rightarrow> u64) \<Rightarrow> u64 \<Rightarrow> nat \<Rightarrow> u64 \<Rightarrow> u64 list option" where
  "page_path mem address level table =
     (let e = mem (table + 8 * (drop_bit (12 + level * 9) address AND 511)) in
      if \<not> bit e 0 \<or> level = 3 \<and> bit e 7 then None
      else if level = 0 \<or> level < 3 \<and> bit e 7 then Some [e]
      else map_option (Cons e) (page_path mem address (level - 1) (e AND 0x000ffffffffff000)))"

declare page_path.simps [simp del]

definition host_path :: "'s firmware \<Rightarrow> 's \<Rightarrow> u64 \<Rightarrow> u64 list option" where
  "host_path f s address = page_path (fw_qword f s) address 3 (fw_cr3 f s AND 0x000ffffffffff000)"

definition may_write :: "u64 list \<Rightarrow> bool" where
  "may_write path \<longleftrightarrow> (\<forall>e \<in> set path. bit e 1)"

definition may_execute :: "u64 list \<Rightarrow> bool" where
  "may_execute path \<longleftrightarrow> (\<forall>e \<in> set path. \<not> bit e 63)"

text \<open>Write protection and execution protection are enforced, and there are four levels of tables.\<close>

definition enforced :: "'s firmware \<Rightarrow> 's \<Rightarrow> bool" where
  "enforced f s \<longleftrightarrow> bit (fw_cr0 f s) 16 \<and> bit (fw_efer_low f s) 11 \<and> \<not> bit (fw_cr4 f s) 12"

lemma bit_tests:
  "(e :: u64) AND 1 = 0 \<longleftrightarrow> \<not> bit e 0" "e AND 2 = 0 \<longleftrightarrow> \<not> bit e 1" "e AND 128 = 0 \<longleftrightarrow> \<not> bit e 7"
  "e AND 0x10000 = 0 \<longleftrightarrow> \<not> bit e 16" "e AND 0x1000 = 0 \<longleftrightarrow> \<not> bit e 12" "drop_bit 63 e = 0 \<longleftrightarrow> \<not> bit e 63"
  "(w :: u32) AND 0x800 = 0 \<longleftrightarrow> \<not> bit w 11"
proof -
  show "e AND 1 = 0 \<longleftrightarrow> \<not> bit e 0" "e AND 2 = 0 \<longleftrightarrow> \<not> bit e 1" "e AND 128 = 0 \<longleftrightarrow> \<not> bit e 7"
    "e AND 0x10000 = 0 \<longleftrightarrow> \<not> bit e 16" "e AND 0x1000 = 0 \<longleftrightarrow> \<not> bit e 12" "w AND 0x800 = 0 \<longleftrightarrow> \<not> bit w 11"
    by (rule and_flag_eq_0; simp)+
  have "drop_bit 63 e = of_bool (bit e 63)"
  proof (rule bit_word_eqI)
    fix n assume "n < LENGTH(64)"
    then show "bit (drop_bit 63 e) n \<longleftrightarrow> bit (of_bool (bit e 63) :: u64) n"
      using bit_imp_le_length [of e "63 + n"] by (cases n) (auto simp: bit_drop_bit_eq bit_simps)
  qed
  then show "drop_bit 63 e = 0 \<longleftrightarrow> \<not> bit e 63" by simp
qed

text \<open>The test at the end of the walk, over the rights of the path and of the entries before it.\<close>

definition asked :: "bool \<Rightarrow> bool \<Rightarrow> bool \<Rightarrow> u64 list option \<Rightarrow> bool" where
  "asked executable writable nx path \<longleftrightarrow>
     (case path of None \<Rightarrow> False
      | Some es \<Rightarrow> if executable then \<not> (writable \<and> may_write es) \<and> \<not> nx \<and> may_execute es
                   else writable \<and> may_write es \<and> (nx \<or> \<not> may_execute es))"

lemma asked_cons:
  "asked executable writable nx (map_option (Cons e) path) \<longleftrightarrow> asked executable (writable \<and> bit e 1) (nx \<or> bit e 63) path"
  by (cases path) (auto simp: asked_def may_write_def may_execute_def)

lemma asked_leaf:
  "asked executable writable nx (Some [e])
     \<longleftrightarrow> (if executable then \<not> (writable \<and> bit e 1) \<and> \<not> (nx \<or> bit e 63) else (writable \<and> bit e 1) \<and> (nx \<or> bit e 63))"
  by (auto simp: asked_def may_write_def may_execute_def)

lemma page_walk_path:
  "level \<le> 3 \<Longrightarrow> page_walk f s address executable level table writable nx = OK
     \<longleftrightarrow> asked executable writable nx (page_path (fw_qword f s) address level table)"
proof (induction level arbitrary: table writable nx)
  case 0
  have none: "asked x w n None \<longleftrightarrow> False" for x w n by (simp add: asked_def)
  show ?case
    by (subst page_walk.simps, subst page_path.simps) (simp add: Let_def pte_of_def bit_tests asked_leaf none)
next
  case (Suc level)
  have none: "asked x w n None \<longleftrightarrow> False" for x w n by (simp add: asked_def)
  define e where "e = pte_of f s address (Suc level) table"
  have walk: "page_walk f s address executable (Suc level) table writable nx =
     (if \<not> bit e 0 then ERR
      else if Suc level < 3 \<and> bit e 7 then
        (if executable then (if \<not> (writable \<and> bit e 1) \<and> \<not> (nx \<or> bit e 63) then OK else ERR)
         else (if (writable \<and> bit e 1) \<and> (nx \<or> bit e 63) then OK else ERR))
      else if Suc level = 3 \<and> bit e 7 then ERR
      else page_walk f s address executable level (e AND 0x000ffffffffff000) (writable \<and> bit e 1) (nx \<or> bit e 63))"
    using Suc.prems unfolding page_walk.simps [of f s address executable "Suc level"] e_def [symmetric]
    by (auto simp: Let_def bit_tests)
  have path: "page_path (fw_qword f s) address (Suc level) table =
     (if \<not> bit e 0 \<or> Suc level = 3 \<and> bit e 7 then None
      else if Suc level < 3 \<and> bit e 7 then Some [e]
      else map_option (Cons e) (page_path (fw_qword f s) address level (e AND 0x000ffffffffff000)))"
    by (subst page_path.simps) (simp only: Let_def e_def pte_of_def nat.distinct diff_Suc_1 simp_thms)
  have ih: "page_walk f s address executable level t w n = OK \<longleftrightarrow> asked executable w n (page_path (fw_qword f s) address level t)" for t w n
    using Suc.IH Suc.prems by simp
  consider (stop) "\<not> bit e 0 \<or> Suc level = 3 \<and> bit e 7" | (leaf) "bit e 0" "Suc level < 3" "bit e 7" | (table) "bit e 0" "\<not> bit e 7"
    using Suc.prems by linarith
  then show ?case
  proof cases
    case stop
    then have "page_walk f s address executable (Suc level) table writable nx = ERR" unfolding walk by auto
    then show ?thesis using stop by (simp add: path none)
  next
    case leaf
    then show ?thesis unfolding walk path by (auto simp: asked_leaf)
  next
    case table
    then show ?thesis unfolding walk path by (simp only: simp_thms if_True if_False asked_cons ih)
  qed
qed

lemma page_permissions_path:
  "page_permissions f s address executable = OK \<longleftrightarrow> enforced f s \<and>
     (\<exists>path. host_path f s address = Some path \<and> may_write path = (\<not> executable) \<and> may_execute path = executable)"
proof -
  have "asked executable True False p \<longleftrightarrow> (\<exists>path. p = Some path \<and> may_write path = (\<not> executable) \<and> may_execute path = executable)" for p
    by (auto simp: asked_def split: option.split)
  then show ?thesis
    by (simp add: page_permissions_def enforced_def host_path_def bit_tests page_walk_path)
qed

text \<open>The walk does not depend on the offset in the page.\<close>

lemma same_page_index:
  assumes "drop_bit 12 a = drop_bit 12 (b :: u64)" shows "drop_bit (12 + k) a = drop_bit (12 + k) b"
proof -
  have "drop_bit k (drop_bit 12 a) = drop_bit k (drop_bit 12 b)" by (simp only: assms)
  then show ?thesis by (simp add: drop_bit_drop_bit add.commute)
qed

lemma page_path_cong:
  "drop_bit 12 a = drop_bit 12 b \<Longrightarrow> page_path mem a level table = page_path mem b level table"
proof (induction level arbitrary: table)
  case 0
  then show ?case by (subst (1 2) page_path.simps) (simp add: Let_def)
next
  case (Suc level)
  show ?case
    by (subst (1 2) page_path.simps) (simp only: diff_Suc_1 Suc.IH [OF Suc.prems] same_page_index [OF Suc.prems])
qed

section \<open>Rights after a switch\<close>

lemma word_aligned_mask: "(w :: 'a::len word) AND mask k = 0 \<longleftrightarrow> 2 ^ k dvd unat w"
proof -
  have "take_bit k w = 0 \<longleftrightarrow> take_bit k (unat w) = 0" by (metis unsigned_take_bit_eq unsigned_eq_0_iff)
  then show ?thesis by (simp add: take_bit_eq_mask take_bit_eq_mod mod_eq_0_iff_dvd flip: take_bit_eq_mask)
qed

lemma word_aligned_unat: "(n :: u64) AND 4095 = 0 \<longleftrightarrow> 4096 dvd unat n"
  using word_aligned_mask [of n 12] by (simp add: mask_eq_exp_minus_1)

lemma word_aligned4: "(w :: 'a::len word) AND 3 = 0 \<longleftrightarrow> 4 dvd unat w"
  using word_aligned_mask [of w 2] by (simp add: mask_eq_exp_minus_1)

lemma page_aligned_add:
  assumes "(p :: u64) AND 4095 = 0" "r < 4096"
  shows "drop_bit 12 (p + of_nat (4096 * k) + of_nat r) = drop_bit 12 (p + of_nat (4096 * k))"
proof -
  let ?b = "p + of_nat (4096 * k)"
  have "4096 dvd unat ?b"
    using assms(1) unfolding word_aligned_unat unat_word_ariths unat_of_nat by (intro dvd_mod dvd_add) simp_all
  then have b: "take_bit 12 ?b = 0" unfolding word_aligned_unat [symmetric] by (simp add: take_bit_eq_mask mask_eq_exp_minus_1)
  have r: "take_bit 12 (of_nat r :: u64) = of_nat r" using assms(2) by (simp add: take_bit_of_nat take_bit_nat_eq_self)
  have low: "bit (of_nat r :: u64) i \<Longrightarrow> i < 12" for i by (metis r bit_take_bit_iff)
  have high: "bit ?b i \<Longrightarrow> 12 \<le> i" for i by (metis b bit_take_bit_iff bit_0_eq bot_apply bot_bool_def not_less)
  have "?b AND of_nat r = 0" by (rule bit_word_eqI) (use low high in \<open>fastforce simp: bit_and_iff\<close>)
  then have "?b + of_nat r = ?b OR of_nat r" by (rule disjunctive_add_eq_or)
  moreover have "drop_bit 12 (of_nat r :: u64) = 0" by (rule bit_word_eqI) (use low in \<open>fastforce simp: bit_drop_bit_eq\<close>)
  ultimately show ?thesis by simp
qed

lemma protect_success:
  assumes "vf_efi_jit_protect f p n executable opaque s = (OK, s')"
  shows "p AND 4095 = 0" "n AND 4095 = 0" "executable = 0 \<or> executable = 1" "pages_permitted f s' p n (executable \<noteq> 0) = OK"
  using assms by (auto simp: vf_efi_jit_protect_def Let_def split: option.splits if_splits prod.splits)

text \<open>C15. A successful switch is verified by the page tables. Whatever the firmware's services do and answer, if the adapter
  reports success then write and execution protection are enforced by the host and every byte of the buffer is mapped, through all four
  levels, with exactly the rights that were asked for: writable and not executable, or executable and not writable.\<close>

theorem jit_protect_rights:
  assumes "vf_efi_jit_protect f p n executable opaque s = (OK, s')" "i < unat n"
  shows "enforced f s' \<and> (\<exists>path. host_path f s' (p + of_nat i) = Some path
     \<and> may_write path = (executable = 0) \<and> may_execute path = (executable = 1))"
proof -
  note ok = protect_success [OF assms(1)]
  let ?k = "i div 4096"
  have "?k < unat n div 4096" using assms(2) ok(2) [unfolded word_aligned_unat] by (metis div_less_iff_less_mult dvd_div_mult_self zero_less_numeral)
  then have "page_permissions f s' (p + of_nat (4096 * ?k)) (executable \<noteq> 0) = OK"
    using ok(4) by (auto simp: pages_permitted_def list_all_iff split: if_splits)
  moreover have "of_nat i = (of_nat (4096 * ?k) + of_nat (i mod 4096) :: u64)" by (simp only: mult_div_mod_eq flip: of_nat_add)
  then have "drop_bit 12 (p + of_nat i) = drop_bit 12 (p + of_nat (4096 * ?k))"
    using page_aligned_add [OF ok(1), of "i mod 4096" ?k] by (simp add: add.assoc)
  then have "host_path f s' (p + of_nat i) = host_path f s' (p + of_nat (4096 * ?k))"
    unfolding host_path_def by (rule page_path_cong)
  ultimately show ?thesis using ok(3) unfolding page_permissions_path by auto
qed

text \<open>Firmware that obeys attributes: a successful call has the effect its name says on the attributes of the range, a failed one has
  none, and \<open>seen\<close> lists the attributes the range has had.\<close>

definition obeys :: "'s firmware \<Rightarrow> ('s \<Rightarrow> u64) \<Rightarrow> ('s \<Rightarrow> u64 list) \<Rightarrow> bool" where
  "obeys f attr seen \<longleftrightarrow> (\<forall>s m p n a.
     (case fw_set f s m p n a of (st, s1) \<Rightarrow> attr s1 = (if st = 0 then attr s OR a else attr s) \<and> seen s1 = attr s1 # seen s)
     \<and> (case fw_clear f s m p n a of (st, s1) \<Rightarrow> attr s1 = (if st = 0 then attr s AND NOT a else attr s) \<and> seen s1 = attr s1 # seen s)
     \<and> (case fw_cpu_set f s m p n a of (st, s1) \<Rightarrow> attr s1 = (if st = 0 then a else attr s) \<and> seen s1 = attr s1 # seen s)
     \<and> (case fw_get f s m p n of (st, got, s1) \<Rightarrow> attr s1 = attr s \<and> seen s1 = seen s))"

definition write_and_execute :: "u64 \<Rightarrow> bool" where
  "write_and_execute a \<longleftrightarrow> \<not> bit a 17 \<and> \<not> bit a 14"

lemma obeyed:
  assumes "obeys f attr seen"
  shows "fw_set f s m p n a = (st, s1) \<Longrightarrow> attr s1 = (if st = 0 then attr s OR a else attr s) \<and> seen s1 = attr s1 # seen s"
    and "fw_clear f s m p n a = (st, s1) \<Longrightarrow> attr s1 = (if st = 0 then attr s AND NOT a else attr s) \<and> seen s1 = attr s1 # seen s"
    and "fw_cpu_set f s m p n a = (st, s1) \<Longrightarrow> attr s1 = (if st = 0 then a else attr s) \<and> seen s1 = attr s1 # seen s"
    and "fw_get f s m p n = (st, got, s1) \<Longrightarrow> attr s1 = attr s \<and> seen s1 = seen s"
  using assms [unfolded obeys_def, THEN spec [of _ s], THEN spec [of _ m], THEN spec [of _ p], THEN spec [of _ n], THEN spec [of _ a]]
  by (simp_all split: prod.splits)

lemma attribute_bits:
  "bit (8 OR EFI_MEMORY_RO OR EFI_MEMORY_XP) 14" "bit (8 OR EFI_MEMORY_RO) 17" "bit (8 OR EFI_MEMORY_XP) 14"
  "bit EFI_MEMORY_RO 17" "bit EFI_MEMORY_XP 14" "\<not> bit EFI_MEMORY_RO 14" "\<not> bit EFI_MEMORY_XP 17"
  by code_simp+

text \<open>C16. No moment of a switch leaves the buffer both writable and executable. With firmware that obeys attributes, and from
  attributes that do not allow both, every attribute the range has between the first call and the last one takes away writing or
  execution, also when a call fails half-way; and a success leaves exactly the one right that was asked for.\<close>

theorem jit_protect_never_both:
  assumes f: "obeys f attr seen" and safe: "\<not> write_and_execute (attr s)"
    and run: "vf_efi_jit_protect f p n executable opaque s = (r, s')"
  shows "\<exists>steps. seen s' = steps @ seen s \<and> list_all (\<lambda>a. \<not> write_and_execute a) (attr s' # steps)
     \<and> (r = OK \<longrightarrow> bit (attr s') 17 = (executable = 1) \<and> bit (attr s') 14 = (executable = 0))"
proof (cases opaque)
  case None
  then show ?thesis using run safe by (simp add: vf_efi_jit_protect_def)
next
  case (Some ctx)
  let ?ro = "if executable \<noteq> 0 then EFI_MEMORY_RO else EFI_MEMORY_XP" and ?xp = "if executable \<noteq> 0 then EFI_MEMORY_XP else EFI_MEMORY_RO"
  obtain st1 s1 where c1: "fw_cpu_set f s (pc_cpu ctx) p n (8 OR EFI_MEMORY_RO OR EFI_MEMORY_XP) = (st1, s1)" by fastforce
  obtain st2 s2 where c2: "fw_cpu_set f s1 (pc_cpu ctx) p n (8 OR ?ro) = (st2, s2)" by fastforce
  obtain st3 s3 where m1: "fw_set f s (pc_memory ctx) p n ?ro = (st3, s3)" by fastforce
  obtain st4 s4 where m2: "fw_clear f s3 (pc_memory ctx) p n ?xp = (st4, s4)" by fastforce
  obtain st5 got s5 where m3: "fw_get f s4 (pc_memory ctx) p n = (st5, got, s5)" by (metis prod_cases3)
  note eff = obeyed(3) [OF f c1] obeyed(3) [OF f c2] obeyed(1) [OF f m1] obeyed(2) [OF f m2] obeyed(4) [OF f m3]
  have a: "\<not> write_and_execute (attr s1)" "\<not> write_and_execute (attr s2)" "\<not> write_and_execute (attr s3)"
      "st3 = 0 \<Longrightarrow> \<not> write_and_execute (attr s4)"
    using eff safe attribute_bits by (auto simp: write_and_execute_def bit_or_iff bit_and_iff bit_not_iff split: if_splits)
  have ends: "r = ERR \<and> s' \<in> {s, s1, s3} \<or> s' = s2 \<and> (r = OK \<longrightarrow> st2 = 0) \<or> st3 = 0 \<and> s' \<in> {s4, s5} \<and> (r = OK \<longrightarrow> st4 = 0)"
    "r = OK \<longrightarrow> executable = 0 \<or> executable = 1"
    using run Some c1 c2 m1 m2 m3 by (auto simp: vf_efi_jit_protect_def Let_def split: if_splits)
  have steps: "\<exists>steps. seen s' = steps @ seen s \<and> list_all (\<lambda>a. \<not> write_and_execute a) (attr s' # steps)"
    using ends(1) eff a safe by (elim disjE conjE insertE emptyE) auto
  have "r = OK \<longrightarrow> bit (attr s') 17 = (executable = 1) \<and> bit (attr s') 14 = (executable = 0)"
    using ends eff attribute_bits by (auto simp: bit_or_iff bit_and_iff bit_not_iff)
  with steps show ?thesis by blast
qed

text \<open>Firmware whose state is the attributes of the buffer and those it has had, and whose tables give every page the rights of these.\<close>

definition firmware_demo :: "(u64 \<times> u64 list) firmware" where
  "firmware_demo =
     \<lparr>fw_locate = (\<lambda>s g _. (0, 0x500, s)), fw_get = (\<lambda>s m p n. (0, fst s, s)),
      fw_set = (\<lambda>(a, h) m p n x. (0, a OR x, (a OR x) # h)), fw_clear = (\<lambda>(a, h) m p n x. (0, a AND NOT x, (a AND NOT x) # h)),
      fw_cpu_set = (\<lambda>(a, h) m p n x. (0, x, x # h)),
      fw_cr0 = (\<lambda>_. 0x80010001), fw_cr3 = (\<lambda>_. 0x1000), fw_cr4 = (\<lambda>_. 0x620), fw_efer_low = (\<lambda>_. 0xd00),
      fw_qword = (\<lambda>(a, h) _. 0x1001 OR (if a AND EFI_MEMORY_RO = 0 then 2 else 0) OR (if a AND EFI_MEMORY_XP = 0 then 0 else 0x8000000000000000))\<rparr>"

theorem jit_protect_rights_witness:
  "\<exists>path. host_path firmware_demo (EFI_MEMORY_RO, [EFI_MEMORY_RO, EFI_MEMORY_RO OR EFI_MEMORY_XP]) (0x100000 + of_nat 0x1234) = Some path
     \<and> may_write path = ((1 :: u32) = 0) \<and> may_execute path = ((1 :: u32) = 1)"
proof -
  have run: "vf_efi_jit_protect firmware_demo 0x100000 0x2000 1 (Some \<lparr>pc_memory = 0x500, pc_cpu = 0\<rparr>) (EFI_MEMORY_XP, [])
      = (OK, EFI_MEMORY_RO, [EFI_MEMORY_RO, EFI_MEMORY_RO OR EFI_MEMORY_XP])" by code_simp
  have i: "0x1234 < unat (0x2000 :: u64)" by simp
  from jit_protect_rights [OF run i] show ?thesis by blast
qed

lemma firmware_demo_obeys: "obeys firmware_demo fst snd"
  by (auto simp: obeys_def firmware_demo_def)

theorem jit_protect_never_both_witness:
  "\<exists>steps. [EFI_MEMORY_RO, EFI_MEMORY_RO OR EFI_MEMORY_XP] = steps @ [] \<and> list_all (\<lambda>a. \<not> write_and_execute a) (EFI_MEMORY_RO # steps)
     \<and> bit EFI_MEMORY_RO 17"
proof -
  have run: "vf_efi_jit_protect firmware_demo 0x100000 0x2000 1 (Some \<lparr>pc_memory = 0x500, pc_cpu = 0\<rparr>) (EFI_MEMORY_XP, [])
      = (OK, EFI_MEMORY_RO, [EFI_MEMORY_RO, EFI_MEMORY_RO OR EFI_MEMORY_XP])" by code_simp
  have safe: "\<not> write_and_execute (fst (EFI_MEMORY_XP, []))" by code_simp
  from jit_protect_never_both [OF firmware_demo_obeys safe run] show ?thesis by simp
qed

section \<open>Frames inside the buffer and the screen\<close>

text \<open>What a frame has to satisfy, over unbounded numbers: it is aligned, its rows do not overlap, and the last byte of its last row is
  inside a buffer that does not wrap around.\<close>

definition frame_ok :: "u64 \<Rightarrow> u64 \<Rightarrow> u64 \<Rightarrow> u32 \<Rightarrow> u32 \<Rightarrow> u32 \<Rightarrow> bool" where
  "frame_ok buffer bytes offset width height stride \<longleftrightarrow>
     buffer \<noteq> 0 \<and> unat buffer + unat bytes < 2 ^ 64 \<and> 4 dvd unat buffer \<and> 4 dvd unat offset \<and> 4 dvd unat stride
     \<and> 1 \<le> unat width \<and> unat width \<le> 8192 \<and> 1 \<le> unat height \<and> unat height \<le> 8192 \<and> 4 * unat width \<le> unat stride
     \<and> (unat height - 1) * unat stride + 4 * unat width \<le> 2 ^ 28
     \<and> unat offset + (unat height - 1) * unat stride + 4 * unat width \<le> unat bytes"

lemma row_product:
  assumes "height \<noteq> (0 :: u32)" "height \<le> 8192" "width \<le> (8192 :: u32)"
  shows "unat (ucast (height - 1) * ucast stride + ucast width * 4 :: u64) = (unat height - 1) * unat (stride :: u32) + 4 * unat width"
    "unat (ucast width * 4 :: u64) = 4 * unat width"
proof -
  have u: "unat (ucast x :: u64) = unat x" for x :: u32 using unat_lt2p [of x] by (simp add: unsigned_ucast_eq take_bit_nat_eq_self)
  have h: "unat (height - 1) = unat height - 1" using assms(1) by (simp add: unat_minus_one)
  have b: "unat height - 1 \<le> 8191" "unat width \<le> 8192" "unat stride < 2 ^ 32"
    using assms unat_lt2p [of stride] by (auto simp: word_le_nat_alt)
  have "(unat height - 1) * unat stride \<le> 8191 * 2 ^ 32" using b by (intro mult_le_mono) simp_all
  then have p: "(unat height - 1) * unat stride + 4 * unat width < 2 ^ 64" using b(2) by simp
  show w: "unat (ucast width * 4 :: u64) = 4 * unat width" using b(2) by (simp add: unat_word_ariths u)
  have "unat (ucast (height - 1) * ucast stride :: u64) = (unat height - 1) * unat stride"
    using p h by (simp add: unat_word_ariths u)
  then show "unat (ucast (height - 1) * ucast stride + ucast width * 4 :: u64) = (unat height - 1) * unat stride + 4 * unat width"
    using p w by (subst unat_add_lem [THEN iffD1]) simp_all
qed

lemma valid_buffer_iff: "valid_buffer buffer bytes offset width height stride \<longleftrightarrow> frame_ok buffer bytes offset width height stride"
proof (cases "width \<noteq> 0 \<and> height \<noteq> 0 \<and> width \<le> 8192 \<and> height \<le> 8192")
  case False
  then show ?thesis by (auto simp: valid_buffer_def frame_ok_def word_le_nat_alt word_less_nat_alt unat_gt_0 Suc_le_eq)
next
  case True
  then have b: "1 \<le> unat width" "unat width \<le> 8192" "1 \<le> unat height" "unat height \<le> 8192"
    using unat_gt_0 by (auto simp: word_le_nat_alt Suc_le_eq)
  note r = row_product(1) [where height = height and width = width and stride = stride] row_product(2) [where height = height and width = width]
  have u: "unat (ucast stride :: u64) = unat stride" using unat_lt2p [of stride] by (simp add: unsigned_ucast_eq take_bit_nat_eq_self)
  have top: "unat (- 1 - bytes) = 2 ^ 64 - 1 - unat bytes" by (subst unat_sub) (simp_all add: unat_max_word word_order.extremum)
  have lt: "unat bytes < 2 ^ 64" using unat_lt2p [of bytes] by simp
  have wrap: "\<not> buffer > - 1 - bytes \<longleftrightarrow> unat buffer + unat bytes < 2 ^ 64" using lt by (auto simp: not_less word_le_nat_alt top)
  have pitch: "\<not> ucast stride < (ucast width * 4 :: u64) \<longleftrightarrow> 4 * unat width \<le> unat stride"
    using r(2) True by (simp add: not_less word_le_nat_alt u)
  let ?span = "ucast (height - 1) * ucast stride + ucast width * 4 :: u64"
  have span: "?span \<le> push_bit 20 256 \<longleftrightarrow> (unat height - 1) * unat stride + 4 * unat width \<le> 2 ^ 28"
    using r(1) True by (simp add: word_le_nat_alt push_bit_eq_mult)
  have fits: "\<not> offset > bytes \<and> ?span \<le> bytes - offset \<longleftrightarrow> unat offset + (unat height - 1) * unat stride + 4 * unat width \<le> unat bytes"
    using r(1) True by (auto simp: not_less word_le_nat_alt unat_sub)
  have some: "bytes \<noteq> 0" if "unat offset + (unat height - 1) * unat stride + 4 * unat width \<le> unat bytes" using that b by auto
  have "valid_buffer buffer bytes offset width height stride \<longleftrightarrow>
      buffer \<noteq> 0 \<and> bytes \<noteq> 0 \<and> \<not> buffer > - 1 - bytes \<and> buffer AND 3 = 0 \<and> offset AND 3 = 0 \<and> stride AND 3 = 0
      \<and> \<not> ucast stride < (ucast width * 4 :: u64) \<and> ?span \<le> push_bit 20 256 \<and> (\<not> offset > bytes \<and> ?span \<le> bytes - offset)"
    using True by (auto simp: valid_buffer_def Let_def not_less)
  then show ?thesis unfolding frame_ok_def word_aligned4 wrap pitch span fits using b some by blast
qed

text \<open>The screen a located protocol offers, if it is usable.\<close>

definition usable_screen :: "VF_GOP \<Rightarrow> VF_GOP_INFO option" where
  "usable_screen g =
     (case gop_mode g of
        None \<Rightarrow> None
      | Some mode \<Rightarrow>
          (case gm_info mode of
             None \<Rightarrow> None
           | Some info \<Rightarrow>
               if gop_blt g \<and> 36 \<le> unat (gm_info_size mode) \<and> gm_mode mode < gm_max_mode mode \<and> gi_version info = 0
                  \<and> unat (gi_pixel_format info) < 4 \<and> gi_width info \<noteq> 0 \<and> gi_height info \<noteq> 0 then Some info else None))"

definition frame_call :: "u64 \<Rightarrow> u32 \<Rightarrow> u32 \<Rightarrow> u32 \<Rightarrow> u32 \<Rightarrow> u32 \<Rightarrow> bool \<Rightarrow> blt_call" where
  "frame_call pixels width height stride x y readback =
     \<lparr>blt_pixels = pixels, blt_operation = (if readback then 1 else 2),
      blt_source_x = (if readback then ucast x else 0), blt_source_y = (if readback then ucast y else 0),
      blt_destination_x = (if readback then 0 else ucast x), blt_destination_y = (if readback then 0 else ucast y),
      blt_width = ucast width, blt_height = ucast height, blt_delta = ucast stride\<rparr>"

lemma screen_room:
  "\<not> (x > w \<or> y > h \<or> width > w - x \<or> height > h - (y :: u32)) \<longleftrightarrow> unat x + unat width \<le> unat w \<and> unat y + unat height \<le> unat (h :: u32)"
  by (auto simp: not_less word_le_nat_alt unat_sub)

lemma frame_rows:
  assumes "frame_ok buffer bytes offset width height stride" "row < unat height"
  shows "unat (buffer + offset) = unat buffer + unat offset"
    "unat buffer + unat offset + row * unat stride + 4 * unat width \<le> unat buffer + unat bytes"
proof -
  have f: "unat offset + (unat height - 1) * unat stride + 4 * unat width \<le> unat bytes" "unat buffer + unat bytes < 2 ^ 64"
    using assms(1) by (simp_all add: frame_ok_def)
  show "unat (buffer + offset) = unat buffer + unat offset" using f by (subst unat_add_lem [THEN iffD1]) simp_all
  have "row * unat stride \<le> (unat height - 1) * unat stride" using assms(2) by (intro mult_le_mono1) simp
  then show "unat buffer + unat offset + row * unat stride + 4 * unat width \<le> unat buffer + unat bytes" using f(1) by linarith
qed

text \<open>C17. A frame reaches the firmware exactly when it fits. The call is made, once and with these arguments, if and only if the frame
  lies in the caller's buffer and the rectangle in the screen, over unbounded numbers, and the firmware offers a usable screen; every row
  that the firmware will read or write is then inside the buffer, which does not wrap around. In all other cases the transfer fails with
  the status of the check that refused it and the firmware has been asked for its screen at most.\<close>

theorem gop_transfer_exact:
  "transfer bs buffer bytes offset width height stride x y readback s =
     (if \<not> frame_ok buffer bytes offset width height stride then (EFI_INVALID_PARAMETER, s)
      else case Option.bind bs bv_locate of
        None \<Rightarrow> (EFI_UNSUPPORTED, s)
      | Some locate \<Rightarrow>
          (case locate s of (status, gop, s1) \<Rightarrow>
             if status \<noteq> 0 then (status, s1)
             else case Option.bind gop usable_screen of
               None \<Rightarrow> (EFI_UNSUPPORTED, s1)
             | Some info \<Rightarrow>
                 if unat x + unat width \<le> unat (gi_width info) \<and> unat y + unat height \<le> unat (gi_height info)
                 then bv_blt (the bs) s1 (frame_call (buffer + offset) width height stride x y readback)
                 else (EFI_INVALID_PARAMETER, s1)))
   \<and> (frame_ok buffer bytes offset width height stride \<longrightarrow> row < unat height \<longrightarrow>
        unat buffer + unat bytes < 2 ^ 64 \<and> unat buffer \<le> unat (buffer + offset)
        \<and> unat (buffer + offset) + row * unat stride + 4 * unat width \<le> unat buffer + unat bytes)"
proof (intro conjI impI)
  have room: "(if x > gi_width info \<or> y > gi_height info \<or> width > gi_width info - x \<or> height > gi_height info - y then a else b)
      = (if unat x + unat width \<le> unat (gi_width info) \<and> unat y + unat height \<le> unat (gi_height info) then b else a)" for info :: VF_GOP_INFO and a b :: "u64 \<times> 'a"
    unfolding screen_room [symmetric] by (simp only: if_not_P split: if_split) blast
  have bounds: "gm_info_size m < 36 \<longleftrightarrow> \<not> 36 \<le> unat (gm_info_size m)" "gi_pixel_format i \<ge> 4 \<longleftrightarrow> \<not> unat (gi_pixel_format i) < 4"
      "gm_max_mode m = 0 \<or> gm_mode m \<ge> gm_max_mode m \<longleftrightarrow> \<not> gm_mode m < gm_max_mode m" for m :: VF_GOP_MODE and i :: VF_GOP_INFO
    by (auto simp: word_less_nat_alt word_le_nat_alt not_less)
  show "transfer bs buffer bytes offset width height stride x y readback s =
     (if \<not> frame_ok buffer bytes offset width height stride then (EFI_INVALID_PARAMETER, s)
      else case Option.bind bs bv_locate of
        None \<Rightarrow> (EFI_UNSUPPORTED, s)
      | Some locate \<Rightarrow>
          (case locate s of (status, gop, s1) \<Rightarrow>
             if status \<noteq> 0 then (status, s1)
             else case Option.bind gop usable_screen of
               None \<Rightarrow> (EFI_UNSUPPORTED, s1)
             | Some info \<Rightarrow>
                 if unat x + unat width \<le> unat (gi_width info) \<and> unat y + unat height \<le> unat (gi_height info)
                 then bv_blt (the bs) s1 (frame_call (buffer + offset) width height stride x y readback)
                 else (EFI_INVALID_PARAMETER, s1)))"
    unfolding transfer_def valid_buffer_iff room bounds
    by (auto simp: usable_screen_def frame_call_def Let_def bounds split: option.splits prod.splits)
next
  assume "frame_ok buffer bytes offset width height stride" "row < unat height"
  then show "unat buffer + unat bytes < 2 ^ 64" "unat buffer \<le> unat (buffer + offset)"
      "unat (buffer + offset) + row * unat stride + 4 * unat width \<le> unat buffer + unat bytes"
    using frame_rows [of buffer bytes offset width height stride row] by (simp_all add: frame_ok_def)
qed

text \<open>Firmware with a screen of 1024 by 768, whose state is the list of transfers.\<close>

definition screen_demo :: "blt_call list boot_services" where
  "screen_demo =
     \<lparr>bv_locate = Some (\<lambda>s. (0, Some \<lparr>gop_blt = True, gop_mode = Some \<lparr>gm_max_mode = 2, gm_mode = 1,
          gm_info = Some \<lparr>gi_version = 0, gi_width = 1024, gi_height = 768, gi_pixel_format = 1\<rparr>, gm_info_size = 36\<rparr>\<rparr>, s)),
      bv_blt = (\<lambda>s c. (0, c # s))\<rparr>"

theorem gop_transfer_exact_witness:
  "transfer (Some screen_demo) 0x40000000 0x10000 0x100 16 8 64 1000 760 False []
     = (0, [\<lparr>blt_pixels = 0x40000100, blt_operation = 2, blt_source_x = 0, blt_source_y = 0, blt_destination_x = 1000,
             blt_destination_y = 760, blt_width = 16, blt_height = 8, blt_delta = 64\<rparr>])
   \<and> unat (0x40000000 + 0x100 :: u64) + 7 * unat (64 :: u32) + 4 * unat (16 :: u32) \<le> unat (0x40000000 :: u64) + unat (0x10000 :: u64)"
proof -
  have f: "frame_ok 0x40000000 0x10000 0x100 16 8 64" by (simp add: frame_ok_def)
  have r: "7 < unat (8 :: u32)" by simp
  have u: "usable_screen \<lparr>gop_blt = True, gop_mode = Some \<lparr>gm_max_mode = 2, gm_mode = 1,
      gm_info = Some \<lparr>gi_version = 0, gi_width = 1024, gi_height = 768, gi_pixel_format = 1\<rparr>, gm_info_size = 36\<rparr>\<rparr>
      = Some \<lparr>gi_version = 0, gi_width = 1024, gi_height = 768, gi_pixel_format = 1\<rparr>" by (simp add: usable_screen_def)
  note t = gop_transfer_exact [where bs = "Some screen_demo" and buffer = "0x40000000" and bytes = "0x10000" and offset = "0x100"
      and width = 16 and height = 8 and stride = 64 and x = 1000 and y = 760 and readback = False and s = "[]" and row = 7]
  show ?thesis
  proof
    show "transfer (Some screen_demo) 0x40000000 0x10000 0x100 16 8 64 1000 760 False []
      = (0, [\<lparr>blt_pixels = 0x40000100, blt_operation = 2, blt_source_x = 0, blt_source_y = 0, blt_destination_x = 1000,
             blt_destination_y = 760, blt_width = 16, blt_height = 8, blt_delta = 64\<rparr>])"
      using t [THEN conjunct1] f u by (simp add: screen_demo_def frame_call_def)
    show "unat (0x40000000 + 0x100 :: u64) + 7 * unat (64 :: u32) + 4 * unat (16 :: u32) \<le> unat (0x40000000 :: u64) + unat (0x10000 :: u64)"
      using t [THEN conjunct2, THEN mp, OF f, THEN mp, OF r] by simp
  qed
qed

end
