(* ===== verification/Emit.thy ===== *)
theory Emit
  imports Provider
begin

text \<open>
  The translator of \<open>runtime/jit.c\<close>: the functions that write x86 bytes into the code buffer, the decoders, and
  \<open>translate_impl\<close>, which turns up to a limit of A64 instructions into one block of native code.

  A buffer is its bytes and the count of bytes asked for, which runs on past the capacity. A store is a \<open>splice\<close>, which
  lengthens the list when it reaches past the end: that the length stays what it was says that no store left the buffer. Code without labels is a list of
  bytes; \<open>emit\<close> writes a list with the calls of \<open>b\<close> that the source makes one by one. Code with labels is a function on
  buffers, since the position of a jump is read from the buffer and its distance is written later. Offsets of fields are those of
  \<open>vf_cpu\<close> in \<open>jit.h\<close> under the x86-64 layout the native code relies on.

  A family of instructions is one definition: the bytes it writes, with a flag that says whether the block ends there.
\<close>

unbundle bit_operations_syntax

section \<open>The code buffer\<close>

record vf_code =
  vc_bytes :: "u8 list"
  vc_used :: nat

definition emit_byte :: "u8 \<Rightarrow> vf_code \<Rightarrow> vf_code" where
  "emit_byte x c = c\<lparr>vc_bytes := (if vc_used c < length (vc_bytes c) then splice (vc_bytes c) (vc_used c) [x] else vc_bytes c),
                     vc_used := vc_used c + 1\<rparr>"

definition emit :: "u8 list \<Rightarrow> vf_code \<Rightarrow> vf_code" where
  "emit xs c = fold emit_byte xs c"

abbreviation (input) OFF_SP :: u32 where "OFF_SP \<equiv> 256"
abbreviation (input) OFF_PC :: u32 where "OFF_PC \<equiv> 264"
abbreviation (input) OFF_PSTATE :: u32 where "OFF_PSTATE \<equiv> 272"
abbreviation (input) OFF_FAR :: u32 where "OFF_FAR \<equiv> 336"
abbreviation (input) OFF_HCR_EL2 :: u32 where "OFF_HCR_EL2 \<equiv> 656"
abbreviation (input) OFF_SCR_EL3 :: u32 where "OFF_SCR_EL3 \<equiv> 672"
abbreviation (input) OFF_RETIRED :: u32 where "OFF_RETIRED \<equiv> 680"
abbreviation (input) OFF_CURRENT_EL :: u32 where "OFF_CURRENT_EL \<equiv> 712"
abbreviation (input) OFF_INSTRUCTION :: u32 where "OFF_INSTRUCTION \<equiv> 728"
abbreviation (input) OFF_TPIDR_EL0 :: u32 where "OFF_TPIDR_EL0 \<equiv> 840"
abbreviation (input) OFF_TPIDRRO_EL0 :: u32 where "OFF_TPIDRRO_EL0 \<equiv> 848"
abbreviation (input) OFF_TPIDR_EL1 :: u32 where "OFF_TPIDR_EL1 \<equiv> 856"

definition rex :: "bool \<Rightarrow> u8 list" where
  "rex wide = (if wide then [0x48] else [])"

definition imm :: "u64 \<Rightarrow> u8 list" where
  "imm x = [0x48, 0xb8] @ put_le64 x"

definition load :: "nat \<Rightarrow> bool \<Rightarrow> bool \<Rightarrow> u8 list" where
  "load reg sp wide =
     (if reg = 31 then
        if \<not> sp then [0x31, 0xc0] else rex wide @ [0x8b, 0x81] @ put_le32 OFF_SP
      else rex wide @ [0x8b, 0x81] @ put_le32 (of_nat reg * 8))"

definition save :: "nat \<Rightarrow> bool \<Rightarrow> u8 list" where
  "save reg sp =
     (if reg = 31 then (if sp then [0x48, 0x89, 0x81] @ put_le32 OFF_SP else [])
      else [0x48, 0x89, 0x81] @ put_le32 (of_nat reg * 8))"

definition field :: "u32 \<Rightarrow> u64 \<Rightarrow> u8 list" where
  "field off x = imm x @ [0x48, 0x89, 0x81] @ put_le32 off"

definition field32 :: "u32 \<Rightarrow> u32 \<Rightarrow> u8 list" where
  "field32 off x = [0xc7, 0x81] @ put_le32 off @ put_le32 x"

definition save_host_r11 :: "u32 \<Rightarrow> u8 list" where
  "save_host_r11 off = [0x4c, 0x89, 0x99] @ put_le32 off"

text \<open>The replacement of the flags in the processor state by those in the accumulator.\<close>

definition merge_flags :: "u8 list" where
  "merge_flags = [0x49, 0xb9] @ put_le64 (NOT 0xf0000000) @ [0x4c, 0x21, 0x89] @ put_le32 OFF_PSTATE
     @ [0x48, 0x09, 0x81] @ put_le32 OFF_PSTATE"

definition save_arithmetic_flags :: "bool \<Rightarrow> u8 list" where
  "save_arithmetic_flags subtract =
     [0x41, 0x0f, 0x98, 0xc1, 0x41, 0x0f, 0x94, 0xc2, 0x41, 0x0f, if subtract then 0x93 else 0x92, 0xc3, 0x0f, 0x90, 0xc0,
      0x45, 0x0f, 0xb6, 0xc9, 0x45, 0x0f, 0xb6, 0xd2, 0x45, 0x0f, 0xb6, 0xdb, 0x0f, 0xb6, 0xc0,
      0x41, 0xc1, 0xe1, 31, 0x41, 0xc1, 0xe2, 30, 0x41, 0xc1, 0xe3, 29, 0xc1, 0xe0, 28,
      0x44, 0x09, 0xc8, 0x44, 0x09, 0xd0, 0x44, 0x09, 0xd8] @ merge_flags"

definition finish :: "u64 \<Rightarrow> nat \<Rightarrow> u32 \<Rightarrow> u8 list" where
  "finish pc count status =
     field OFF_PC pc @ [0x48, 0x81, 0x81] @ put_le32 OFF_RETIRED @ put_le32 (of_nat count) @ [0xb8] @ put_le32 status @ [0xc3]"

section \<open>Jumps\<close>

definition jcc :: "u8 \<Rightarrow> vf_code \<Rightarrow> nat \<times> vf_code" where
  "jcc cc c = (let c1 = emit [0x0f, cc] c in (vc_used c1, emit (put_le32 0) c1))"

definition fix_to :: "nat \<Rightarrow> nat \<Rightarrow> vf_code \<Rightarrow> vf_code" where
  "fix_to p target c =
     (let rel = of_nat target - of_nat p - 4 :: u32 in
      if p + 4 \<le> length (vc_bytes c) then c\<lparr>vc_bytes := splice (vc_bytes c) p (put_le32 rel)\<rparr> else c)"

definition fix_here :: "nat \<Rightarrow> vf_code \<Rightarrow> vf_code" where
  "fix_here p c = fix_to p (vc_used c) c"

text \<open>An unconditional jump that is fixed later.\<close>

definition jump :: "vf_code \<Rightarrow> nat \<times> vf_code" where
  "jump c = (let c1 = emit [0xe9] c in (vc_used c1, emit (put_le32 0) c1))"

definition condition_false :: "u32 \<Rightarrow> vf_code \<Rightarrow> nat \<times> vf_code" where
  "condition_false condition c =
     (if condition \<ge> 14 then (0, c)
      else
        let c1 = emit ([0x8b, 0x81] @ put_le32 OFF_PSTATE @ [0xc1, 0xe8, 28]) c;
            group = unat (drop_bit 1 condition);
            (bs, fall_cc) =
              (if group < 4 then ([0x83, 0xe0, [4, 2, 8, 1] ! group], 0x84)
               else if group = 4 then ([0x83, 0xe0, 6, 0x83, 0xf8, 2], 0x85)
               else ([0x41, 0x89, 0xc1, 0x41, 0xc1, 0xe9, 3, 0x44, 0x31, 0xc8, 0x83, 0xe0, if group = 5 then 1 else 5], 0x85)) in
        jcc (if condition AND 1 \<noteq> 0 then fall_cc XOR 1 else fall_cc) (emit bs c1))"

section \<open>Decoders\<close>

definition word_at :: "u8 list \<Rightarrow> u32" where
  "word_at p = get_le32 p"

text \<open>The position of the highest bit set in a tag of seven bits, which the loop of the source shifts down to.\<close>

fun tag_length :: "nat \<Rightarrow> nat" where
  "tag_length tag = (if tag > 1 then Suc (tag_length (tag div 2)) else 0)"

declare tag_length.simps [simp del]

definition replicate_element :: "nat \<Rightarrow> nat \<Rightarrow> u64 \<Rightarrow> u64" where
  "replicate_element width sz element = fold (\<lambda>i mask. mask OR push_bit (i * sz) element) [0..<(width + sz - 1) div sz] 0"

definition logical_mask :: "u32 \<Rightarrow> u64 option" where
  "logical_mask w =
     (let width = (if drop_bit 31 w \<noteq> 0 then 64 else 32); n = drop_bit 22 w AND 1; s = drop_bit 10 w AND 63; r = drop_bit 16 w AND 63 in
      if width = 32 \<and> n \<noteq> 0 then None
      else
        let tag = push_bit 6 n OR (NOT s AND 63); len = tag_length (unat tag) in
        if len < 1 then None
        else
          let sz = 2 ^ len; levels = of_nat (sz - 1) :: u32 in
          if sz > width \<or> s AND levels = levels then None
          else
            let s1 = unat (s AND levels); r1 = unat (r AND levels);
                element = mask (s1 + 1) :: u64;
                element1 = (if r1 \<noteq> 0 then drop_bit r1 element OR push_bit (sz - r1) element else element);
                element2 = (if sz < 64 then element1 AND mask sz else element1) in
            Some (replicate_element width sz element2))"

definition is_system_encoding :: "u32 \<Rightarrow> bool" where
  "is_system_encoding w \<longleftrightarrow> w AND 0xffc00000 = 0xd5000000"

definition is_exception_return :: "u32 \<Rightarrow> bool" where
  "is_exception_return w \<longleftrightarrow> w = 0xd69f03e0 \<or> w = 0xd69f0be0 \<or> w = 0xd69f0fe0"

definition sysreg_el0_visible :: "u32 \<Rightarrow> bool" where
  "sysreg_el0_visible key \<longleftrightarrow> key \<in> set [0x5801, 0x5802, 0x5a20, 0x5a21, 0x5e82, 0x5e83, 0x5f00, 0x5f01, 0x5f02, 0x5f10, 0x5f11,
     0x5f12, 0x5f19, 0x5f1a, 0x4212]"

definition sysreg_el1_only :: "u32 \<Rightarrow> bool" where
  "sysreg_el1_only key \<longleftrightarrow> key \<in> set [0x4020, 0x4021, 0x4022, 0x4038, 0x4039, 0x403a, 0x4031, 0x4080, 0x4100, 0x4101, 0x4102, 0x4510,
     0x4600, 0x4290, 0x4300, 0x4201, 0x4200]"

definition thread_offset :: "u32 \<Rightarrow> u32" where
  "thread_offset key =
     (if key = 0x5e82 then OFF_TPIDR_EL0 else if key = 0x5e83 then OFF_TPIDRRO_EL0 else if key = 0x4684 then OFF_TPIDR_EL1 else 0)"

definition known_privileged :: "u32 \<Rightarrow> u32 \<Rightarrow> bool" where
  "known_privileged w current_el =
     (if is_exception_return w then current_el = VF_EL0
      else if w = 0xd503207f \<or> w = 0xd503205f \<or> w AND 0xffe0001f = 0xd4000002 \<or> w AND 0xffe0001f = 0xd4000003 then current_el = VF_EL0
      else if w AND 0xfffff0ff = 0xd50340df \<or> w AND 0xfffff0ff = 0xd50340ff \<or> w AND 0xfffffeff = 0xd50040bf then current_el = VF_EL0
      else is_mrs_msr w \<and> current_el = VF_EL0 \<and> \<not> sysreg_el0_visible (sysreg_key w) \<and> sysreg_el1_only (sysreg_key w))"

definition system_boundary :: "u32 \<Rightarrow> u32 \<Rightarrow> u32" where
  "system_boundary w current_el =
     (if is_exception_return w then VF_SYSTEM_REGISTER_TRAP
      else if \<not> is_system_encoding w then 0
      else if w = 0xd503201f then 0
      else if known_privileged w current_el then VF_PRIVILEGE_FAULT
      else VF_SYSTEM_REGISTER_TRAP)"

section \<open>Data processing\<close>

abbreviation (input) wide_of :: "u32 \<Rightarrow> bool" where "wide_of w \<equiv> drop_bit 31 w \<noteq> 0"
abbreviation (input) rd_of :: "u32 \<Rightarrow> nat" where "rd_of w \<equiv> unat (w AND 31)"
abbreviation (input) rn_of :: "u32 \<Rightarrow> nat" where "rn_of w \<equiv> unat (drop_bit 5 w AND 31)"
abbreviation (input) rm_of :: "u32 \<Rightarrow> nat" where "rm_of w \<equiv> unat (drop_bit 16 w AND 31)"

text \<open>Between the accumulator and \<open>r9\<close>, with the prefix of the width; and the move that fills \<open>r9\<close>.\<close>

definition with_r9 :: "bool \<Rightarrow> u8 \<Rightarrow> u8 list" where
  "with_r9 wide opcode = [if wide then 0x4c else 0x44, opcode, 0xc8]"

definition to_r9 :: "u8 list" where
  "to_r9 = [0x49, 0x89, 0xc1]"

definition imm_r9 :: "u64 \<Rightarrow> u8 list" where
  "imm_r9 x = [0x49, 0xb9] @ put_le64 x"

definition shift_by :: "bool \<Rightarrow> u8 \<Rightarrow> nat \<Rightarrow> u8 list" where
  "shift_by wide opcode amount = rex wide @ [0xc1, opcode, of_nat amount]"

definition shift_opcode :: "u32 \<Rightarrow> u8" where
  "shift_opcode shift = (if shift = 0 then 0xe0 else if shift = 1 then 0xe8 else if shift = 2 then 0xf8 else 0xc8)"

definition refuse :: "u32 \<Rightarrow> u64 \<Rightarrow> nat \<Rightarrow> u32 \<Rightarrow> bool \<times> u8 list" where
  "refuse w pc n status = (True, field32 OFF_INSTRUCTION w @ finish pc n status)"

definition conditional_select :: "u32 \<Rightarrow> vf_code \<Rightarrow> vf_code" where
  "conditional_select w c =
     (let wide = wide_of w;
          (other, c1) = condition_false (drop_bit 12 w AND 15) c;
          c2 = emit (load (rn_of w) False wide) c1;
          c3 = (if other \<noteq> 0 then
                  let (finished, c4) = jump c2;
                      c5 = fix_here other c4;
                      c6 = emit (load (rm_of w) False wide
                             @ (if w AND push_bit 30 1 \<noteq> 0 then rex wide @ [0xf7, 0xd0] else [])
                             @ (if w AND push_bit 10 1 \<noteq> 0 then rex wide @ [0x83, 0xc0, 1] else [])) c5 in
                  fix_here finished c6
                else c2) in
      emit (save (rd_of w) False) c3)"

definition variable_shift :: "u32 \<Rightarrow> u8 list" where
  "variable_shift w =
     (let wide = wide_of w in
      load (rm_of w) False wide @ to_r9 @ load (rn_of w) False wide
      @ [0x49, 0x89, 0xca] @ [0x44, 0x89, 0xc9] @ rex wide @ [0xd3, shift_opcode (drop_bit 10 w AND 3)] @ [0x4c, 0x89, 0xd1]
      @ save (rd_of w) False)"

definition multiply_add :: "u32 \<Rightarrow> u8 list" where
  "multiply_add w =
     (let wide = wide_of w in
      load (rm_of w) False wide @ to_r9 @ load (rn_of w) False wide
      @ [if wide then 0x49 else 0x41, 0x0f, 0xaf, 0xc1] @ to_r9 @ load (unat (drop_bit 10 w AND 31)) False wide
      @ with_r9 wide (if w AND push_bit 15 1 \<noteq> 0 then 0x29 else 0x01) @ save (rd_of w) False)"

definition conditional_compare :: "u32 \<Rightarrow> vf_code \<Rightarrow> vf_code" where
  "conditional_compare w c =
     (let wide = wide_of w; subtract = (drop_bit 30 w AND 1 \<noteq> 0);
          (fallback, c1) = condition_false (drop_bit 12 w AND 15) c;
          c2 = emit ((if w AND push_bit 11 1 \<noteq> 0 then imm (ucast (drop_bit 16 w AND 31)) else load (rm_of w) False wide) @ to_r9
                 @ load (rn_of w) False wide @ with_r9 wide (if subtract then 0x29 else 0x01) @ save_arithmetic_flags subtract) c1 in
      if fallback \<noteq> 0 then
        let (finished, c3) = jump c2;
            c4 = fix_here fallback c3;
            c5 = emit (imm (push_bit 28 (ucast (w AND 15))) @ merge_flags) c4 in
        fix_here finished c5
      else c2)"

definition low_mask :: "nat \<Rightarrow> u64" where
  "low_mask bits = (if bits = 64 then - 1 else push_bit bits 1 - 1)"

definition bitfield_move :: "u32 \<Rightarrow> u64 \<Rightarrow> nat \<Rightarrow> bool \<times> u8 list" where
  "bitfield_move w pc n =
     (let wide = wide_of w; r = drop_bit 16 w AND 63; s = drop_bit 10 w AND 63; width = (if wide then 64 else 32) in
      if (drop_bit 22 w AND 1 \<noteq> 0) \<noteq> wide \<or> (\<not> wide \<and> (r OR s) AND 32 \<noteq> 0) then refuse w pc n VF_UNDEFINED_INSTRUCTION
      else
        let bits = (if s \<ge> r then unat s - unat r + 1 else unat s + 1);
            position = (if s \<ge> r then 0 else width - unat r);
            low = low_mask bits;
            selected = push_bit position low in
        (False,
         load (rn_of w) False wide
         @ (if s \<ge> r \<and> r \<noteq> 0 then shift_by wide 0xe8 (unat r) else [])
         @ imm_r9 low @ with_r9 wide 0x21
         @ (if position \<noteq> 0 then shift_by wide 0xe0 position else [])
         @ [0x49, 0x89, 0xc2] @ load (rd_of w) False wide @ imm_r9 (NOT selected) @ with_r9 wide 0x21
         @ [if wide then 0x4c else 0x44, 0x09, 0xd0] @ save (rd_of w) False))"

definition unsigned_bitfield :: "u32 \<Rightarrow> u64 \<Rightarrow> nat \<Rightarrow> bool \<times> u8 list" where
  "unsigned_bitfield w pc n =
     (let wide = wide_of w; rotate = drop_bit 16 w AND 63; last = drop_bit 10 w AND 63; width = (if wide then 64 else 32) in
      if (drop_bit 22 w AND 1 \<noteq> 0) \<noteq> wide \<or> (\<not> wide \<and> (rotate OR last) AND 32 \<noteq> 0) then refuse w pc n VF_UNDEFINED_INSTRUCTION
      else
        let bits = (if last \<ge> rotate then unat last - unat rotate + 1 else unat last + 1) in
        (False,
         load (rn_of w) False wide
         @ (if last \<ge> rotate \<and> rotate \<noteq> 0 then shift_by wide 0xe8 (unat rotate) else [])
         @ imm_r9 (low_mask bits) @ with_r9 wide 0x21
         @ (if last < rotate then shift_by wide 0xe0 (width - unat rotate) else [])
         @ save (rd_of w) False))"

definition logic_opcode :: "u32 \<Rightarrow> u8" where
  "logic_opcode op = (if op = 1 then 0x09 else if op = 2 then 0x31 else 0x21)"

definition logical_immediate :: "u32 \<Rightarrow> u64 \<Rightarrow> nat \<Rightarrow> bool \<times> u8 list" where
  "logical_immediate w pc n =
     (let wide = wide_of w; op = drop_bit 29 w AND 3 in
      case logical_mask w of
        None \<Rightarrow> refuse w pc n VF_UNDEFINED_INSTRUCTION
      | Some m \<Rightarrow>
          (False, load (rn_of w) False wide @ imm_r9 m @ with_r9 wide (logic_opcode op) @ save (rd_of w) (op \<noteq> 3)
                  @ (if op = 3 then save_arithmetic_flags False else [])))"

text \<open>Reads of the identification registers check the level and the controls of the higher levels at run time.\<close>

definition id_read_words :: "u32 list" where
  "id_read_words = [0xd5380400, 0xd5380420, 0xd5380440, 0xd5380480, 0xd5380600, 0xd5380640, 0xd5380660, 0xd5380700, 0xd5380720, 0xd5380740]"

definition id_read :: "u32 \<Rightarrow> u64 \<Rightarrow> nat \<Rightarrow> vf_code \<Rightarrow> vf_code" where
  "id_read w pc n c =
     (let c1 = emit ([0x83, 0xb9] @ put_le32 OFF_CURRENT_EL @ [1]) c;
          (bad_el, c2) = jcc 0x85 c1;
          c3 = emit ([0x48, 0x8b, 0x81] @ put_le32 OFF_HCR_EL2 @ [0x48, 0x0b, 0x81] @ put_le32 OFF_SCR_EL3) c2;
          (allowed, c4) = jcc 0x84 c3;
          c5 = fix_here bad_el c4;
          c6 = emit (field32 OFF_INSTRUCTION w @ finish pc n VF_SYSTEM_REGISTER_TRAP) c5;
          c7 = fix_here allowed c6 in
      emit (imm (if w AND NOT 31 = 0xd5380700 then 0x0f100005 else if w AND NOT 31 = 0xd5380400 then 0x00ff0011 else 0)
            @ save (rd_of w) False) c7)"

definition thread_register :: "u32 \<Rightarrow> u32 \<Rightarrow> u64 \<Rightarrow> nat \<Rightarrow> bool \<times> u8 list" where
  "thread_register current_el w pc n =
     (let read = (w AND 0x00200000 \<noteq> 0); thread = thread_offset (sysreg_key w) in
      if current_el = VF_EL0 \<and> (sysreg_key w = 0x4684 \<or> (\<not> read \<and> sysreg_key w = 0x5e83)) then refuse w pc n VF_UNDEFINED_INSTRUCTION
      else if read then (False, [0x48, 0x8b, 0x81] @ put_le32 thread @ save (rd_of w) False)
      else (False, load (rd_of w) False True @ [0x48, 0x89, 0x81] @ put_le32 thread))"

definition move_wide :: "u32 \<Rightarrow> u64 \<Rightarrow> nat \<Rightarrow> bool \<times> u8 list" where
  "move_wide w pc n =
     (let wide = wide_of w; shift = unat (drop_bit 21 w AND 3) * 16; v = push_bit shift (ucast (drop_bit 5 w AND 65535)) :: u64 in
      if \<not> wide \<and> shift \<ge> 32 then refuse w pc n VF_UNDEFINED_INSTRUCTION
      else if w AND 0x7f800000 = 0x72800000 then
        (False, load (rd_of w) False wide @ imm_r9 (NOT (push_bit shift 65535)) @ [0x4c, 0x21, 0xc8] @ imm_r9 v @ [0x4c, 0x09, 0xc8]
                @ save (rd_of w) False)
      else
        let v1 = (if w AND 0x7f800000 = 0x12800000 then (if wide then NOT v else NOT v AND 0xffffffff) else v) in
        (False, imm v1 @ save (rd_of w) False))"

definition pc_relative :: "u32 \<Rightarrow> u64 \<Rightarrow> u8 list" where
  "pc_relative w pc =
     (let displacement = sext (push_bit 2 (drop_bit 5 w AND 0x7ffff) OR (drop_bit 29 w AND 3)) 21;
          target = (if drop_bit 31 w \<noteq> 0 then (pc AND NOT 0xfff) + of_int (displacement * 4096) else pc + of_int displacement) in
      imm target @ save (rd_of w) False)"

definition logical_shifted :: "u32 \<Rightarrow> u64 \<Rightarrow> nat \<Rightarrow> bool \<times> u8 list" where
  "logical_shifted w pc n =
     (let wide = wide_of w; op = drop_bit 29 w AND 3; shift = drop_bit 22 w AND 3; amount = drop_bit 10 w AND 63;
          invert = (drop_bit 21 w AND 1 \<noteq> 0) in
      if \<not> wide \<and> amount \<ge> 32 then refuse w pc n VF_UNDEFINED_INSTRUCTION
      else
        (False,
         load (rm_of w) False wide
         @ (if amount \<noteq> 0 then shift_by wide (shift_opcode shift) (unat amount) else [])
         @ (if invert then rex wide @ [0xf7, 0xd0] else [])
         @ (if \<not> (op = 1 \<and> rn_of w = 31 \<and> shift = 0 \<and> amount = 0) then
              to_r9 @ load (rn_of w) False wide @ with_r9 wide (logic_opcode op)
            else [])
         @ save (rd_of w) False @ (if op = 3 then save_arithmetic_flags False else [])))"

definition add_sub_immediate :: "u32 \<Rightarrow> u8 list" where
  "add_sub_immediate w =
     (let wide = wide_of w; v = push_bit (if drop_bit 22 w AND 1 \<noteq> 0 then 12 else 0) (drop_bit 10 w AND 4095);
          subtract = (drop_bit 30 w AND 1 \<noteq> 0); flags = (drop_bit 29 w AND 1 \<noteq> 0) in
      load (rn_of w) True wide @ rex wide @ [if subtract then 0x2d else 0x05] @ put_le32 v @ save (rd_of w) (\<not> flags)
      @ (if flags then save_arithmetic_flags subtract else []))"

definition add_sub_extended :: "u32 \<Rightarrow> u64 \<Rightarrow> nat \<Rightarrow> bool \<times> u8 list" where
  "add_sub_extended w pc n =
     (let wide = wide_of w; opt = drop_bit 13 w AND 7; amount = unat (drop_bit 10 w AND 7);
          subtract = (drop_bit 30 w AND 1 \<noteq> 0); flags = (drop_bit 29 w AND 1 \<noteq> 0) in
      if amount > 4 then refuse w pc n VF_UNDEFINED_INSTRUCTION
      else
        let width = (if wide then 64 else 32); bits = min (8 * 2 ^ unat (opt AND 3)) width in
        (False,
         load (rm_of w) False wide
         @ (if bits < width then shift_by wide 0xe0 (width - bits) @ shift_by wide (if opt AND 4 \<noteq> 0 then 0xf8 else 0xe8) (width - bits) else [])
         @ (if amount \<noteq> 0 then shift_by wide 0xe0 amount else [])
         @ to_r9 @ load (rn_of w) True wide @ with_r9 wide (if subtract then 0x29 else 0x01)
         @ save (rd_of w) (\<not> flags) @ (if flags then save_arithmetic_flags subtract else [])))"

definition add_sub_shifted :: "u32 \<Rightarrow> u64 \<Rightarrow> nat \<Rightarrow> bool \<times> u8 list" where
  "add_sub_shifted w pc n =
     (let wide = wide_of w; shift = drop_bit 22 w AND 3; amount = drop_bit 10 w AND 63; subtract = (drop_bit 30 w AND 1 \<noteq> 0) in
      if shift = 3 \<or> (\<not> wide \<and> amount \<ge> 32) then refuse w pc n VF_UNDEFINED_INSTRUCTION
      else
        (False,
         load (rm_of w) False wide
         @ (if amount \<noteq> 0 then shift_by wide (if shift = 0 then 0xe0 else if shift = 1 then 0xe8 else 0xf8) (unat amount) else [])
         @ to_r9 @ load (rn_of w) False wide @ with_r9 wide (if subtract then 0x29 else 0x01) @ save (rd_of w) False
         @ (if drop_bit 29 w AND 1 \<noteq> 0 then save_arithmetic_flags subtract else [])))"

section \<open>Loads and stores\<close>

text \<open>What the translator reads of the processor; without one, level zero, no RAM base and all controls off.\<close>

record translation =
  tr_current_el :: u32
  tr_base :: u64
  tr_sctlr :: u64
  tr_higher :: bool

definition translation_of :: "vf_cpu option \<Rightarrow> translation" where
  "translation_of cpu =
     (case cpu of
        None \<Rightarrow> \<lparr>tr_current_el = VF_EL0, tr_base = 0, tr_sctlr = 0, tr_higher = False\<rparr>
      | Some c \<Rightarrow> \<lparr>tr_current_el = cpu_current_el c, tr_base = cpu_guest_ram_base c, tr_sctlr = cpu_sctlr c,
                   tr_higher = (cpu_hcr_el2 c \<noteq> 0 \<or> cpu_scr_el3 c \<noteq> 0)\<rparr>)"

definition memory_trapped :: "translation \<Rightarrow> bool" where
  "memory_trapped t \<longleftrightarrow> tr_current_el t > VF_EL1 \<or> tr_higher t \<or> tr_sctlr t AND push_bit (if tr_current_el t = VF_EL0 then 24 else 25) 1 \<noteq> 0"

definition sp_checked :: "translation \<Rightarrow> u32 \<Rightarrow> bool" where
  "sp_checked t w \<longleftrightarrow> rn_of w = 31 \<and> tr_sctlr t AND (if tr_current_el t = VF_EL0 then 16 else 8) \<noteq> 0"

text \<open>The exits of an access: the code that records the address and ends the block, and the jumps that lead to it.\<close>

definition fault_exit :: "u64 \<Rightarrow> nat \<Rightarrow> u32 \<Rightarrow> u8 list" where
  "fault_exit pc n status = save_host_r11 OFF_FAR @ finish pc n status"

definition access_exits :: "u64 \<Rightarrow> nat \<Rightarrow> nat \<Rightarrow> nat \<Rightarrow> nat list \<Rightarrow> vf_code \<Rightarrow> vf_code" where
  "access_exits pc n sp_align align aborts c =
     (let (go, c1) = jump c;
          sp_target = vc_used c1;
          c2 = (if sp_align \<noteq> 0 then emit (fault_exit pc n VF_SP_ALIGNMENT_FAULT) c1 else c1);
          align_target = vc_used c2;
          c3 = (if align \<noteq> 0 then emit (fault_exit pc n VF_ALIGNMENT_FAULT) c2 else c2);
          data_target = vc_used c3;
          c4 = emit (fault_exit pc n VF_DATA_ABORT) c3;
          c5 = (if sp_align \<noteq> 0 then fix_to sp_align sp_target c4 else c4);
          c6 = (if align \<noteq> 0 then fix_to align align_target c5 else c5);
          c7 = fold (\<lambda>p. fix_to p data_target) aborts c6 in
      fix_here go c7)"

definition writeback :: "memory_shape \<Rightarrow> u8 list" where
  "writeback d =
     (if ms_mode d \<noteq> 2 then
        [0x4c, 0x89, 0xd8] @ (if ms_mode d = 1 then [0x48, 0x05] @ put_le32 (of_int (ms_displacement d)) else []) @ save (ms_rn d) True
      else [])"

definition pair_element :: "memory_shape \<Rightarrow> nat \<Rightarrow> u8 list" where
  "pair_element d i =
     (let reg = (if i \<noteq> 0 then ms_rt2 d else ms_rt d) in
      (if \<not> ms_read d then load reg False (ms_width d = 8) else [])
      @ [if ms_width d = 8 then 0x4a else 0x42, if ms_read d then 0x8b else 0x89, if i \<noteq> 0 then 0x44 else 0x04, 0x0a]
      @ (if i \<noteq> 0 then [of_nat (ms_width d)] else [])
      @ (if ms_read d then save reg False else []))"

definition emit_pair :: "translation \<Rightarrow> u32 \<Rightarrow> memory_shape \<Rightarrow> u64 \<Rightarrow> nat \<Rightarrow> vf_code \<Rightarrow> vf_code" where
  "emit_pair t w d pc n c =
     (let bytes = of_nat (ms_width d) :: u8;
          (sp_align, c1) = (if sp_checked t w then jcc 0x85 (emit (load 31 True True @ [0x49, 0x89, 0xc3] @ [0xa8, 15]) c) else (0, c));
          c2 = emit (load (ms_rn d) True True
                 @ (if ms_mode d \<noteq> 1 then [0x48, 0x05] @ put_le32 (of_int (ms_displacement d)) else [])
                 @ [0x49, 0x89, 0xc3] @ [0x49, 0x89, 0xc1] @ [0xa8, bytes - 1]) c1;
          (align, c3) = jcc 0x85 c2;
          (below, c4) = jcc 0x82 (emit (imm (tr_base t) @ [0x49, 0x29, 0xc1]) c3);
          (short_first, c5) = jcc 0x82 (emit [0x49, 0x83, 0xf8, bytes] c4);
          (first, c6) = jcc 0x87 (emit [0x4d, 0x89, 0xc2, 0x49, 0x83, 0xea, bytes, 0x4d, 0x39, 0xd1] c5);
          (wrapped, c7) = jcc 0x82 (emit [0x49, 0x83, 0xc3, bytes] c6);
          (short_second, c8) = jcc 0x82 (emit [0x49, 0x83, 0xf8, 2 * bytes] c7);
          (second, c9) = jcc 0x87 (emit [0x49, 0x83, 0xea, bytes, 0x4d, 0x39, 0xd1] c8);
          c10 = emit ([0x49, 0x83, 0xeb, bytes] @ pair_element d 0 @ pair_element d 1 @ writeback d) c9 in
      access_exits pc n sp_align align [below, short_first, first, wrapped, short_second, second] c10)"

definition single_access :: "memory_shape \<Rightarrow> u8 list" where
  "single_access d =
     (let bytes = ms_width d in
      if ms_read d then
        [if ms_result64 d then 0x4a else 0x42]
        @ (if bytes < 4 then [0x0f, (if ms_signed_load d then 0xbe else 0xb6) + (if bytes = 2 then 1 else 0)]
           else [if ms_signed_load d then 0x63 else 0x8b])
        @ [0x04, 0x0a] @ save (ms_rt d) False
      else
        load (ms_rt d) False (bytes = 8) @ (if bytes = 2 then [0x66] else [])
        @ [if bytes = 8 then 0x4a else 0x42, if bytes = 1 then 0x88 else 0x89, 0x04, 0x0a])"

definition single_address :: "memory_shape \<Rightarrow> u8 list" where
  "single_address d =
     (if ms_register_offset d then
        [0x49, 0x89, 0xc3] @ load (ms_rm d) False (odd (ms_option d))
        @ (if ms_option d = 6 then [0x48, 0x63, 0xc0] else [])
        @ (if ms_shift d \<noteq> 0 then [0x48, 0xc1, 0xe0, of_nat (ms_shift d)] else [])
        @ [0x4c, 0x01, 0xd8]
      else if ms_mode d \<noteq> 1 then [0x48, 0x05] @ put_le32 (of_int (ms_displacement d)) else [])"

definition emit_single :: "translation \<Rightarrow> u32 \<Rightarrow> memory_shape \<Rightarrow> u64 \<Rightarrow> nat \<Rightarrow> vf_code \<Rightarrow> vf_code" where
  "emit_single t w d pc n c =
     (let bytes = of_nat (ms_width d) :: u8;
          c1 = emit (load (ms_rn d) True True) c;
          (sp_align, c2) = (if sp_checked t w then jcc 0x85 (emit ([0x49, 0x89, 0xc3] @ [0xa8, 15]) c1) else (0, c1));
          c3 = emit (single_address d @ [0x49, 0x89, 0xc3] @ [0x49, 0x89, 0xc1]) c2;
          (align, c4) = (if ms_width d > 1 then jcc 0x85 (emit [0xa8, bytes - 1] c3) else (0, c3));
          (below, c5) = jcc 0x82 (emit (imm (tr_base t) @ [0x49, 0x29, 0xc1]) c4);
          (short_ram, c6) = jcc 0x82 (emit [0x49, 0x83, 0xf8, bytes] c5);
          (bound, c7) = jcc 0x87 (emit [0x4d, 0x89, 0xc2, 0x49, 0x83, 0xea, bytes, 0x4d, 0x39, 0xd1] c6);
          c8 = emit (single_access d @ writeback d) c7 in
      access_exits pc n sp_align align [below, short_ram, bound] c8)"

definition load_store :: "translation \<Rightarrow> u32 \<Rightarrow> u64 \<Rightarrow> nat \<Rightarrow> vf_code \<Rightarrow> bool \<times> vf_code" where
  "load_store t w pc n c =
     (let c1 = emit (field32 OFF_INSTRUCTION w) c in
      case decode_memory w of
        None \<Rightarrow> (True, emit (finish pc n VF_UNDEFINED_INSTRUCTION) c1)
      | Some d \<Rightarrow>
          if memory_trapped t then (True, emit (finish pc n VF_SYSTEM_REGISTER_TRAP) c1)
          else (False, if w AND 0x3a000000 = 0x28000000 then emit_pair t w d pc n c1 else emit_single t w d pc n c1))"

section \<open>Branches\<close>

text \<open>Two exits, one after the other: the jump leads to the second.\<close>

definition two_exits :: "u64 \<Rightarrow> u64 \<Rightarrow> nat \<Rightarrow> nat \<times> vf_code \<Rightarrow> vf_code" where
  "two_exits target pc n fc =
     (let (fall, c) = fc; c1 = emit (finish target (n + 1) VF_NEXT) c; c2 = fix_here fall c1 in
      emit (finish (pc + 4) (n + 1) VF_NEXT) c2)"

definition branch_conditional :: "u32 \<Rightarrow> u64 \<Rightarrow> nat \<Rightarrow> vf_code \<Rightarrow> vf_code" where
  "branch_conditional w pc n c =
     (let target = pc + of_int (sext (drop_bit 5 w AND 0x7ffff) 19 * 4) in
      if w AND 15 \<ge> 14 then emit (finish target (n + 1) VF_NEXT) c
      else two_exits target pc n (condition_false (w AND 15) c))"

definition test_branch :: "u32 \<Rightarrow> u64 \<Rightarrow> nat \<Rightarrow> vf_code \<Rightarrow> vf_code" where
  "test_branch w pc n c =
     (let bt = unat ((drop_bit 26 w AND 32) OR (drop_bit 19 w AND 31));
          c1 = emit (load (rd_of w) False (bt \<ge> 32) @ rex (bt \<ge> 32) @ [0x0f, 0xba, 0xe0, of_nat bt]) c in
      two_exits (pc + of_int (sext (drop_bit 5 w AND 0x3fff) 14 * 4)) pc n (jcc (if w AND push_bit 24 1 \<noteq> 0 then 0x83 else 0x82) c1))"

definition compare_branch :: "u32 \<Rightarrow> u64 \<Rightarrow> nat \<Rightarrow> vf_code \<Rightarrow> vf_code" where
  "compare_branch w pc n c =
     (let c1 = emit (load (rd_of w) False (wide_of w) @ [0x48, 0x85, 0xc0]) c in
      two_exits (pc + of_int (sext (drop_bit 5 w AND 0x7ffff) 19 * 4)) pc n (jcc (if w AND 0x1000000 \<noteq> 0 then 0x84 else 0x85) c1))"

definition branch_immediate :: "u32 \<Rightarrow> u64 \<Rightarrow> nat \<Rightarrow> u8 list" where
  "branch_immediate w pc n =
     (if drop_bit 31 w \<noteq> 0 then field (30 * 8) (pc + 4) else []) @ finish (pc + of_int (sext (w AND 0x3ffffff) 26 * 4)) (n + 1) VF_NEXT"

definition branch_register :: "u32 \<Rightarrow> u64 \<Rightarrow> nat \<Rightarrow> u8 list" where
  "branch_register w pc n =
     (if rn_of w = 31 then field32 OFF_INSTRUCTION w @ finish pc n VF_UNDEFINED_INSTRUCTION
      else load (rn_of w) False True @ to_r9 @ (if w AND 0xfffffc1f = 0xd63f0000 then field (30 * 8) (pc + 4) else [])
           @ [0x4c, 0x89, 0x89] @ put_le32 OFF_PC @ [0x48, 0x81, 0x81] @ put_le32 OFF_RETIRED @ put_le32 (of_nat (n + 1))
           @ [0xb8] @ put_le32 VF_NEXT @ [0xc3])"

definition boundary :: "u32 \<Rightarrow> u32 \<Rightarrow> u64 \<Rightarrow> nat \<Rightarrow> bool \<times> u8 list" where
  "boundary current_el w pc n =
     (let st = (if known_privileged w current_el then VF_PRIVILEGE_FAULT else system_boundary w current_el) in
      refuse w pc n (if st \<noteq> 0 then st else VF_UNDEFINED_INSTRUCTION))"

section \<open>The translator\<close>

definition written :: "bool \<times> u8 list \<Rightarrow> vf_code \<Rightarrow> bool \<times> vf_code" where
  "written r c = (fst r, emit (snd r) c)"

text \<open>One instruction. The first flag is the build option \<open>NEXTCORE_FP_EXECUTION\<close>, the second says whether a provider answers
  the memory accesses; the order of the tests is that of the source.\<close>

definition translate_one :: "bool \<Rightarrow> bool \<Rightarrow> translation \<Rightarrow> u32 \<Rightarrow> u64 \<Rightarrow> nat \<Rightarrow> vf_code \<Rightarrow> bool \<times> vf_code" where
  "translate_one fp provider t w pc n c =
     (let el = tr_current_el t; key = sysreg_key w in
      if is_mrs_msr w \<and> key = 0x4082 \<and> el = VF_EL0 then written (refuse w pc n VF_UNDEFINED_INSTRUCTION) c
      else if fp \<and> vf_fp_instruction_class w then written (refuse w pc n 0x7ffffffd) c
      else if fp \<and> is_mrs_msr w \<and> key = 0x4020 then written (refuse w pc n VF_SYSTEM_REGISTER_TRAP) c
      else if is_mrs_msr w \<and> (key = 0x5a20 \<or> key = 0x5a21) then written (refuse w pc n VF_UNDEFINED_INSTRUCTION) c
      else if provider \<and> memory_family w then written (refuse w pc n 0x7ffffffe) c
      else if w AND 0x3fe00800 = 0x1a800000 then (False, conditional_select w c)
      else if w AND 0x7fe0f000 = 0x1ac02000 then (False, emit (variable_shift w) c)
      else if w AND 0x7fe00000 = 0x1b000000 then (False, emit (multiply_add w) c)
      else if w AND 0x3fe00410 = 0x3a400000 then (False, conditional_compare w c)
      else if w AND 0x7f800000 = 0x33000000 then written (bitfield_move w pc n) c
      else if w AND 0x7f800000 = 0x53000000 then written (unsigned_bitfield w pc n) c
      else if w AND 0x1f800000 = 0x12000000 then written (logical_immediate w pc n) c
      else if w AND NOT 31 \<in> set id_read_words then (False, id_read w pc n c)
      else if is_mrs_msr w \<and> thread_offset key \<noteq> 0 then written (thread_register el w pc n) c
      else if w AND 0x7f800000 = 0x52800000 \<or> w AND 0x7f800000 = 0x72800000 \<or> w AND 0x7f800000 = 0x12800000 then written (move_wide w pc n) c
      else if w AND 0x1f000000 = 0x10000000 then (False, emit (pc_relative w pc) c)
      else if w AND 0x1f000000 = 0x0a000000 then written (logical_shifted w pc n) c
      else if w AND 0x1f800000 = 0x11000000 then (False, emit (add_sub_immediate w) c)
      else if w AND 0x1fe00000 = 0x0b200000 then written (add_sub_extended w pc n) c
      else if w AND 0x1f200000 = 0x0b000000 then written (add_sub_shifted w pc n) c
      else if memory_family w then load_store t w pc n c
      else if w AND 0xff000010 = 0x54000000 then (True, branch_conditional w pc n c)
      else if w AND 0x7e000000 = 0x36000000 then (True, test_branch w pc n c)
      else if w AND 0x7e000000 = 0x34000000 then (True, compare_branch w pc n c)
      else if w AND 0x7c000000 = 0x14000000 then (True, emit (branch_immediate w pc n) c)
      else if w AND 0xfffffc1f = 0xd61f0000 \<or> w AND 0xfffffc1f = 0xd63f0000 \<or> w AND 0xfffffc1f = 0xd65f0000 then
        (True, emit (branch_register w pc n) c)
      else if w = 0xd503201f then (False, c)
      else if w = 0xd4400000 then (True, emit (finish (pc + 4) (n + 1) VF_HALT) c)
      else written (boundary el w pc n) c)"

fun translate_from :: "bool \<Rightarrow> bool \<Rightarrow> translation \<Rightarrow> u8 list \<Rightarrow> nat \<Rightarrow> nat \<Rightarrow> u64 \<Rightarrow> vf_code \<Rightarrow> vf_code" where
  "translate_from fp provider t guest 0 n pc c = c"
| "translate_from fp provider t guest (Suc k) n pc c =
     (let sz = of_nat (length guest) :: u64 in
      if \<not> provider \<and> (pc AND 3 \<noteq> 0 \<or> sz < 4 \<or> pc < tr_base t \<or> pc - tr_base t > sz - 4 \<or> pc > - 1 - 3) then
        emit (finish pc n VF_INSTRUCTION_ABORT) c
      else
        let w = word_at (drop (if provider then 0 else unat (pc - tr_base t)) guest);
            (stop, c1) = translate_one fp provider t w pc n c in
        if stop then c1
        else translate_from fp provider t guest k (n + 1) (pc + 4)
               (if k = 0 then emit (finish (pc + 4) (n + 1) VF_NEXT) c1 else c1))"

definition translate_impl :: "bool \<Rightarrow> vf_cpu option \<Rightarrow> u8 list \<Rightarrow> u64 \<Rightarrow> nat \<Rightarrow> bool \<Rightarrow> vf_code \<Rightarrow> u32 \<times> vf_code" where
  "translate_impl fp cpu guest pc limit provider c =
     (let c1 = translate_from fp provider (translation_of cpu) guest limit 0 pc (c\<lparr>vc_used := 0\<rparr>) in
      (if vc_used c1 > length (vc_bytes c1) then VF_CODE_FULL else VF_NEXT, c1))"

definition vf_translate :: "bool \<Rightarrow> u8 list \<Rightarrow> u64 \<Rightarrow> nat \<Rightarrow> vf_code \<Rightarrow> u32 \<times> vf_code" where
  "vf_translate fp guest pc limit c = translate_impl fp None guest pc limit False c"

definition vf_translate_cpu :: "bool \<Rightarrow> vf_cpu \<Rightarrow> u8 list \<Rightarrow> u64 \<Rightarrow> nat \<Rightarrow> vf_code \<Rightarrow> u32 \<times> vf_cpu \<times> vf_code" where
  "vf_translate_cpu fp cpu guest pc limit c =
     (if \<not> vf_cpu_state_valid cpu then (VF_PRIVILEGE_FAULT, cpu, c)
      else if cpu_sctlr cpu AND 1 \<noteq> 0 then (VF_SYSTEM_REGISTER_TRAP, cpu\<lparr>cpu_instruction := 0\<rparr>, c)
      else case translate_impl fp (Some cpu) guest pc limit False c of (status, c1) \<Rightarrow> (status, cpu, c1))"

section \<open>Buffers\<close>

lemma emit_nil [simp]: "emit [] c = c"
  by (simp add: emit_def)

lemma emit_append: "emit ys (emit xs c) = emit (xs @ ys) c"
  by (simp add: emit_def)

lemma emit_used [simp]: "vc_used (emit xs c) = vc_used c + length xs"
  unfolding emit_def by (induction xs arbitrary: c) (simp_all add: emit_byte_def)

lemma emit_capacity [simp]: "length (vc_bytes (emit xs c)) = length (vc_bytes c)"
  unfolding emit_def by (induction xs arbitrary: c) (simp_all add: emit_byte_def)

lemma emit_byte_update: "vc_bytes (emit_byte x c) = (vc_bytes c)[vc_used c := x]"
  by (simp add: emit_byte_def splice_def upd_conv_take_nth_drop list_update_beyond)

lemma emit_content:
  "vc_used c + length xs \<le> length (vc_bytes c)
     \<Longrightarrow> take (vc_used c + length xs) (vc_bytes (emit xs c)) = take (vc_used c) (vc_bytes c) @ xs"
proof (induction xs arbitrary: c)
  case (Cons x xs)
  have e: "emit (x # xs) c = emit xs (emit_byte x c)" by (simp add: emit_def)
  have b: "vc_used (emit_byte x c) = vc_used c + 1" "length (vc_bytes (emit_byte x c)) = length (vc_bytes c)"
    "take (vc_used c + 1) (vc_bytes (emit_byte x c)) = take (vc_used c) (vc_bytes c) @ [x]"
    using Cons.prems by (simp_all add: emit_byte_update take_Suc_conv_app_nth take_update_cancel) (simp add: emit_byte_def)
  show ?case using Cons.IH [of "emit_byte x c"] Cons.prems b unfolding e by simp
qed simp

lemma fix_used [simp]: "vc_used (fix_to p t c) = vc_used c" "vc_used (fix_here p c) = vc_used c"
  by (simp_all add: fix_to_def fix_here_def Let_def)

lemma fix_capacity [simp]: "length (vc_bytes (fix_to p t c)) = length (vc_bytes c)" "length (vc_bytes (fix_here p c)) = length (vc_bytes c)"
  by (simp_all add: fix_to_def fix_here_def Let_def)

text \<open>Two buffers hold the same code if as many bytes were asked for, and these are the same wherever they fit.\<close>

definition same_code :: "vf_code \<Rightarrow> vf_code \<Rightarrow> bool" where
  "same_code c d \<longleftrightarrow> vc_used c = vc_used d
     \<and> (vc_used c \<le> length (vc_bytes c) \<longrightarrow> vc_used d \<le> length (vc_bytes d) \<longrightarrow> take (vc_used c) (vc_bytes c) = take (vc_used d) (vc_bytes d))"

lemma same_used: "same_code c d \<Longrightarrow> vc_used d = vc_used c"
  by (simp add: same_code_def)

lemma same_emit: "same_code c d \<Longrightarrow> xs = ys \<Longrightarrow> same_code (emit xs c) (emit ys d)"
  unfolding same_code_def using emit_content [of c xs] emit_content [of d xs] by auto

lemma splice_take:
  assumes "p + length xs \<le> n" "n \<le> length ys"
  shows "take n (splice ys p xs) = splice (take n ys) p xs"
proof -
  have "min n p = p" "min (n - p) (length xs) = length xs" using assms(1) by auto
  then show ?thesis using assms by (simp add: splice_def drop_take min.commute)
qed

lemma same_fix:
  assumes "same_code c d" "p = q" "t = u" "p + 4 \<le> vc_used c"
  shows "same_code (fix_to p t c) (fix_to q u d)"
proof -
  have "take (vc_used c) (vc_bytes (fix_to p t c)) = take (vc_used d) (vc_bytes (fix_to q u d))"
    if "vc_used c \<le> length (vc_bytes c)" "vc_used d \<le> length (vc_bytes d)"
    using assms that by (auto simp: same_code_def fix_to_def Let_def splice_take)
  then show ?thesis using assms(1) by (simp add: same_code_def)
qed

lemma same_fix_here: "same_code c d \<Longrightarrow> p = q \<Longrightarrow> p + 4 \<le> vc_used c \<Longrightarrow> same_code (fix_here p c) (fix_here q d)"
  unfolding fix_here_def by (intro same_fix) (simp_all add: same_used)

lemma jcc_eq: "jcc cc c = (vc_used c + 2, emit ([0x0f, cc] @ put_le32 0) c)"
  by (simp add: jcc_def emit_append)

lemma jump_eq: "jump c = (vc_used c + 1, emit ([0xe9] @ put_le32 0) c)"
  by (simp add: jump_def emit_append)

text \<open>The bytes of a test of the flags, up to the jump.\<close>

definition condition_test :: "u32 \<Rightarrow> u8 list" where
  "condition_test condition =
     [0x8b, 0x81] @ put_le32 OFF_PSTATE @ [0xc1, 0xe8, 28]
     @ (let group = unat (drop_bit 1 condition) in
        if group < 4 then [0x83, 0xe0, [4, 2, 8, 1] ! group]
        else if group = 4 then [0x83, 0xe0, 6, 0x83, 0xf8, 2]
        else [0x41, 0x89, 0xc1, 0x41, 0xc1, 0xe9, 3, 0x44, 0x31, 0xc8, 0x83, 0xe0, if group = 5 then 1 else 5])"

definition condition_jump :: "u32 \<Rightarrow> u8" where
  "condition_jump condition =
     (let cc = (if unat (drop_bit 1 condition) < 4 then 0x84 else 0x85) in if condition AND 1 \<noteq> 0 then cc XOR 1 else cc)"

lemma condition_false_eq:
  "condition_false condition c =
     (if condition \<ge> 14 then (0, c)
      else (vc_used c + length (condition_test condition) + 2,
            emit (condition_test condition @ [0x0f, condition_jump condition] @ put_le32 0) c))"
  by (simp add: condition_false_def condition_test_def condition_jump_def jcc_eq emit_append Let_def)

lemmas label_eqs = jcc_eq jump_eq condition_false_eq
lemmas same_intros = same_emit same_fix same_fix_here

section \<open>Capacity\<close>

text \<open>What a family of instructions does to a buffer: it asks for at most a given number of bytes more, the same ones whatever the
  capacity, and leaves the capacity alone.\<close>

definition emits :: "nat \<Rightarrow> (vf_code \<Rightarrow> vf_code) \<Rightarrow> bool" where
  "emits k f \<longleftrightarrow> (\<forall>c d. same_code c d \<longrightarrow> same_code (f c) (f d))
     \<and> (\<forall>c. length (vc_bytes (f c)) = length (vc_bytes c) \<and> vc_used c \<le> vc_used (f c) \<and> vc_used (f c) \<le> vc_used c + k)"

lemma emits_mono: "emits k f \<Longrightarrow> k \<le> m \<Longrightarrow> emits m f"
  unfolding emits_def by (meson add_le_mono le_trans order_refl)

lemma emits_emit: "length xs \<le> k \<Longrightarrow> emits k (emit xs)"
  by (simp add: emits_def same_emit)


lemma load_length: "length (load r sp wide) \<le> 7" by (simp add: load_def rex_def)
lemma save_length: "length (save r sp) \<le> 7" by (simp add: save_def)
lemma rex_length: "length (rex wide) \<le> 1" by (simp add: rex_def)
lemma finish_length [simp]: "length (finish pc n st) = 34" by (simp add: finish_def field_def imm_def)
lemma field32_length [simp]: "length (field32 off x) = 10" by (simp add: field32_def)
lemma flags_length [simp]: "length (save_arithmetic_flags s) = 78" by (simp add: save_arithmetic_flags_def merge_flags_def)
lemma merge_length [simp]: "length merge_flags = 24" by (simp add: merge_flags_def)
lemma imm_length [simp]: "length (imm x) = 10" "length (imm_r9 x) = 10" by (simp_all add: imm_def imm_r9_def)
lemma small_lengths [simp]: "length (with_r9 wide opc) = 3" "length to_r9 = 3" "length (field off v) = 17"
  by (simp_all add: with_r9_def to_r9_def field_def imm_def)
lemma shift_length: "length (shift_by wide opc k) \<le> 4" by (simp add: shift_by_def rex_def)
lemma test_length: "length (condition_test condition) \<le> 22" by (simp add: condition_test_def Let_def)


text \<open>A block of code ends in a return.\<close>

definition returns :: "vf_code \<Rightarrow> bool" where
  "returns c \<longleftrightarrow> (vc_used c \<le> length (vc_bytes c) \<longrightarrow> 0 < vc_used c \<and> vc_bytes c ! (vc_used c - 1) = 0xc3)"

lemma returns_emit:
  assumes "xs \<noteq> []" "last xs = 0xc3" shows "returns (emit xs c)"
proof -
  have "vc_bytes (emit xs c) ! (vc_used c + length xs - 1) = 0xc3" if "vc_used c + length xs \<le> length (vc_bytes c)"
  proof -
    have "vc_bytes (emit xs c) ! (vc_used c + length xs - 1) = (take (vc_used c + length xs) (vc_bytes (emit xs c))) ! (vc_used c + length xs - 1)"
      using assms(1) by (cases xs) simp_all
    also have "\<dots> = xs ! (length xs - 1)"
      using assms(1) that unfolding emit_content [OF that] by (cases xs) (simp_all add: nth_append)
    finally show ?thesis using assms by (simp add: last_conv_nth)
  qed
  then show ?thesis using assms(1) by (cases xs) (simp_all add: returns_def)
qed

lemma finish_last [simp]: "last (finish pc n st) = 0xc3" "finish pc n st \<noteq> []"
  by (simp_all add: finish_def)

text \<open>A family, with the flag that ends the block.\<close>

definition family :: "nat \<Rightarrow> (vf_code \<Rightarrow> bool \<times> vf_code) \<Rightarrow> bool" where
  "family k f \<longleftrightarrow> emits k (\<lambda>c. snd (f c)) \<and> (\<forall>c d. same_code c d \<longrightarrow> fst (f c) = fst (f d)) \<and> (\<forall>c. fst (f c) \<longrightarrow> returns (snd (f c)))"

lemma family_go: "emits k f \<Longrightarrow> family k (\<lambda>c. (False, f c))"
  by (simp add: family_def)

lemma family_stop: "emits k f \<Longrightarrow> (\<And>c. returns (f c)) \<Longrightarrow> family k (\<lambda>c. (True, f c))"
  by (simp add: family_def)

lemma family_written: "length (snd r) \<le> k \<Longrightarrow> (fst r \<Longrightarrow> snd r \<noteq> [] \<and> last (snd r) = 0xc3) \<Longrightarrow> family k (written r)"
  by (simp add: family_def written_def emits_emit returns_emit)

lemma family_mono: "family k f \<Longrightarrow> k \<le> m \<Longrightarrow> family m f"
  unfolding family_def using emits_mono by blast

lemma family_if: "(b \<Longrightarrow> family k f) \<Longrightarrow> (\<not> b \<Longrightarrow> family k g) \<Longrightarrow> family k (\<lambda>c. if b then f c else g c)"
  by (cases b) simp_all

lemma emits_comp:
  assumes "emits k f" "emits m g" shows "emits (k + m) (\<lambda>c. g (f c))"
proof -
  have "vc_used c \<le> vc_used (g (f c)) \<and> vc_used (g (f c)) \<le> vc_used c + (k + m)" for c
    using assms [unfolded emits_def] by (metis (no_types, lifting) add.assoc add_le_mono le_refl le_trans)
  then show ?thesis using assms unfolding emits_def by simp
qed

lemma conditional_select_emits: "emits 80 (conditional_select w)"
proof -
  have "same_code (conditional_select w c) (conditional_select w d)" if s: "same_code c d" for c d
    unfolding conditional_select_def Let_def label_eqs
    by (auto simp: same_used [OF s] intro!: same_intros s)
  then show ?thesis
    using load_length [of "rn_of w" False "wide_of w"] load_length [of "rm_of w" False "wide_of w"] save_length [of "rd_of w" False]
      test_length [of "drop_bit 12 w AND 15"] rex_length [of "wide_of w"]
    by (auto simp: emits_def conditional_select_def Let_def label_eqs)
qed

lemma conditional_compare_emits: "emits 180 (conditional_compare w)"
proof -
  have "same_code (conditional_compare w c) (conditional_compare w d)" if s: "same_code c d" for c d
    unfolding conditional_compare_def Let_def label_eqs
    by (auto simp: same_used [OF s] intro!: same_intros s)
  then show ?thesis
    using load_length [of "rn_of w" False "wide_of w"] load_length [of "rm_of w" False "wide_of w"] test_length [of "drop_bit 12 w AND 15"]
    by (auto simp: emits_def conditional_compare_def Let_def label_eqs)
qed

lemma id_read_emits: "emits 100 (id_read w pc n)"
proof -
  have "same_code (id_read w pc n c) (id_read w pc n d)" if s: "same_code c d" for c d
    unfolding id_read_def Let_def label_eqs by (auto simp: same_used [OF s] intro!: same_intros s)
  then show ?thesis using save_length [of "rd_of w" False] by (auto simp: emits_def id_read_def Let_def label_eqs)
qed

lemma two_exits_same:
  assumes "same_code c d" "p = q" "p + 4 \<le> vc_used c"
  shows "same_code (two_exits target pc n (p, c)) (two_exits target pc n (q, d))"
  using assms unfolding two_exits_def Let_def by (auto intro!: same_intros)

lemma two_exits_size [simp]:
  "vc_used (two_exits target pc n (p, c)) = vc_used c + 68" "length (vc_bytes (two_exits target pc n (p, c))) = length (vc_bytes c)"
  "returns (two_exits target pc n (p, c))"
  by (simp_all add: two_exits_def Let_def returns_emit)

lemma branch_conditional_emits: "emits 100 (branch_conditional w pc n)" "returns (branch_conditional w pc n c)"
proof -
  have "same_code (branch_conditional w pc n c) (branch_conditional w pc n d)" if s: "same_code c d" for c d
    unfolding branch_conditional_def Let_def label_eqs by (auto simp: same_used [OF s] intro!: same_intros two_exits_same s)
  then show "emits 100 (branch_conditional w pc n)"
    using test_length [of "w AND 15"] by (auto simp: emits_def branch_conditional_def Let_def label_eqs)
  show "returns (branch_conditional w pc n c)" by (simp add: branch_conditional_def Let_def label_eqs returns_emit)
qed

lemma test_branch_emits: "emits 100 (test_branch w pc n)" "returns (test_branch w pc n c)"
proof -
  have "same_code (test_branch w pc n c) (test_branch w pc n d)" if s: "same_code c d" for c d
    unfolding test_branch_def Let_def label_eqs by (auto simp: same_used [OF s] intro!: same_intros two_exits_same s)
  then show "emits 100 (test_branch w pc n)"
    using load_length rex_length by (auto simp: emits_def test_branch_def Let_def label_eqs load_def rex_def)
  show "returns (test_branch w pc n c)" by (simp add: test_branch_def Let_def label_eqs)
qed

lemma compare_branch_emits: "emits 100 (compare_branch w pc n)" "returns (compare_branch w pc n c)"
proof -
  have "same_code (compare_branch w pc n c) (compare_branch w pc n d)" if s: "same_code c d" for c d
    unfolding compare_branch_def Let_def label_eqs by (auto simp: same_used [OF s] intro!: same_intros two_exits_same s)
  then show "emits 100 (compare_branch w pc n)"
    using load_length [of "rd_of w" False "wide_of w"] by (auto simp: emits_def compare_branch_def Let_def label_eqs)
  show "returns (compare_branch w pc n c)" by (simp add: compare_branch_def Let_def label_eqs)
qed

lemma access_exits_same:
  assumes "same_code c d" "\<forall>p \<in> set (sp_align # align # aborts). p = 0 \<or> p + 4 \<le> vc_used c" "0 \<notin> set aborts"
  shows "same_code (access_exits pc n sp_align align aborts c) (access_exits pc n sp_align align aborts d)"
proof -
  have f: "same_code (fold (\<lambda>p. fix_to p t) ps x) (fold (\<lambda>p. fix_to p t) ps y)"
    if "same_code x y" "\<forall>p \<in> set ps. p + 4 \<le> vc_used x" for t ps x y
    using that
  proof (induction ps arbitrary: x y)
    case (Cons a ps)
    have "same_code (fix_to a t x) (fix_to a t y)" using Cons.prems by (intro same_fix) simp_all
    then show ?case using Cons.IH [of "fix_to a t x" "fix_to a t y"] Cons.prems by simp
  qed simp
  have u: "vc_used (fold (\<lambda>p. fix_to p t) ps x) = vc_used x" for t ps x by (induction ps arbitrary: x) simp_all
  show ?thesis using assms unfolding access_exits_def Let_def label_eqs
    by (auto simp: same_used [OF assms(1)] u intro!: same_intros f)
qed

lemma access_exits_size:
  "vc_used (access_exits pc n sp_align align aborts c) \<le> vc_used c + 128" "vc_used c \<le> vc_used (access_exits pc n sp_align align aborts c)"
  "length (vc_bytes (access_exits pc n sp_align align aborts c)) = length (vc_bytes c)"
proof -
  have "vc_used (fold (\<lambda>p. fix_to p t) ps x) = vc_used x" "length (vc_bytes (fold (\<lambda>p. fix_to p t) ps x)) = length (vc_bytes x)" for t ps x
    by (induction ps arbitrary: x) simp_all
  then show "vc_used (access_exits pc n sp_align align aborts c) \<le> vc_used c + 128"
      "vc_used c \<le> vc_used (access_exits pc n sp_align align aborts c)"
      "length (vc_bytes (access_exits pc n sp_align align aborts c)) = length (vc_bytes c)"
    by (simp_all add: access_exits_def Let_def label_eqs fault_exit_def save_host_r11_def)
qed

lemma element_length: "length (pair_element d i) \<le> 12"
  using load_length save_length by (simp add: pair_element_def Let_def load_def save_def rex_def)

lemma writeback_length: "length (writeback d) \<le> 16"
  using save_length [of "ms_rn d" True] by (simp add: writeback_def)

lemma single_length: "length (single_access d) \<le> 12"
  by (simp add: single_access_def Let_def load_def save_def rex_def)

lemma address_length: "length (single_address d) \<le> 20"
  by (simp add: single_address_def load_def rex_def)

lemma emit_pair_emits: "emits 340 (emit_pair t w d pc n)"
proof -
  have "same_code (emit_pair t w d pc n c) (emit_pair t w d pc n e)" if s: "same_code c e" for c e
    unfolding emit_pair_def Let_def label_eqs
    by (cases "sp_checked t w") (auto simp: same_used [OF s] intro!: same_intros access_exits_same s)
  then show ?thesis
    using load_length [of 31 True True] load_length [of "ms_rn d" True True] element_length [of d 0] element_length [of d 1] writeback_length [of d]
    by (auto simp: emits_def emit_pair_def Let_def label_eqs access_exits_size
        intro!: order.trans [OF access_exits_size(1)] order.trans [OF _ access_exits_size(2)])
qed

lemma emit_single_emits: "emits 300 (emit_single t w d pc n)"
proof -
  have "same_code (emit_single t w d pc n c) (emit_single t w d pc n e)" if s: "same_code c e" for c e
    unfolding emit_single_def Let_def label_eqs
    by (cases "sp_checked t w"; cases "ms_width d > 1") (auto simp: same_used [OF s] intro!: same_intros access_exits_same s)
  moreover have "vc_used c \<le> vc_used (emit_single t w d pc n c) \<and> vc_used (emit_single t w d pc n c) \<le> vc_used c + 300
      \<and> length (vc_bytes (emit_single t w d pc n c)) = length (vc_bytes c)" for c
    using load_length [of "ms_rn d" True True] address_length [of d] single_length [of d] writeback_length [of d]
    by (cases "sp_checked t w"; cases "ms_width d > 1")
      (simp_all add: emit_single_def Let_def label_eqs access_exits_size
        order.trans [OF access_exits_size(1)] order.trans [OF _ access_exits_size(2)])
  ultimately show ?thesis by (simp add: emits_def)
qed

lemma refuse_ends: "fst (refuse w pc n st)" "length (snd (refuse w pc n st)) = 44" "snd (refuse w pc n st) \<noteq> []" "last (snd (refuse w pc n st)) = 0xc3"
  by (simp_all add: refuse_def)

lemma load_store_family: "family 360 (load_store t w pc n)"
proof (cases "decode_memory w")
  case None
  then have "load_store t w pc n = (\<lambda>c. (True, emit (field32 OFF_INSTRUCTION w @ finish pc n VF_UNDEFINED_INSTRUCTION) c))"
    by (simp add: load_store_def Let_def emit_append fun_eq_iff)
  then show ?thesis by (simp add: family_stop emits_emit returns_emit)
next
  case (Some d)
  let ?f = "\<lambda>c. if w AND 0x3a000000 = 0x28000000 then emit_pair t w d pc n c else emit_single t w d pc n c"
  have "load_store t w pc n = (\<lambda>c. if memory_trapped t then (True, emit (field32 OFF_INSTRUCTION w @ finish pc n VF_SYSTEM_REGISTER_TRAP) c)
      else (False, ?f (emit (field32 OFF_INSTRUCTION w) c)))"
    using Some by (simp add: load_store_def Let_def emit_append fun_eq_iff)
  moreover have "emits 340 ?f" using emit_pair_emits [of t w d pc n] emits_mono [OF emit_single_emits [of t w d pc n], of 340] by (cases "w AND 0x3a000000 = 0x28000000") simp_all
  then have "emits 360 (\<lambda>c. ?f (emit (field32 OFF_INSTRUCTION w) c))"
    using emits_comp [OF emits_emit [of "field32 OFF_INSTRUCTION w" 10]] emits_mono by fastforce
  ultimately show ?thesis by (auto intro!: family_if family_go family_stop emits_emit returns_emit)
qed

text \<open>Bounds on the length of a list, by its shape.\<close>

lemma length_add: "length xs \<le> a \<Longrightarrow> length ys \<le> b \<Longrightarrow> length (xs @ ys) \<le> a + b"
  by simp

lemma length_opt: "length xs \<le> a \<Longrightarrow> length (if p then xs else []) \<le> a"
  by simp

lemma length_step: "length xs \<le> a \<Longrightarrow> length (x # xs) \<le> a + 1" "length [] \<le> (0 :: nat)"
  by simp_all

lemma length_exact:
  "length (put_le32 v) \<le> 4" "length (with_r9 wide opc) \<le> 3" "length to_r9 \<le> 3" "length (imm x) \<le> 10" "length (imm_r9 x) \<le> 10"
  "length (save_arithmetic_flags b) \<le> 78"
  by simp_all

lemmas length_intros = length_add length_opt length_step length_exact load_length save_length rex_length shift_length

lemma straight_lengths:
  "length (variable_shift w) \<le> 120" "length (multiply_add w) \<le> 120" "length (pc_relative w pc) \<le> 120" "length (add_sub_immediate w) \<le> 120"
proof -
  show "length (variable_shift w) \<le> 120" unfolding variable_shift_def Let_def by (rule order.trans, (rule length_intros)+, simp)
  show "length (multiply_add w) \<le> 120" unfolding multiply_add_def Let_def by (rule order.trans, (rule length_intros)+, simp)
  show "length (pc_relative w pc) \<le> 120" unfolding pc_relative_def Let_def by (rule order.trans, (rule length_intros)+, simp)
  show "length (add_sub_immediate w) \<le> 120" unfolding add_sub_immediate_def Let_def by (rule order.trans, (rule length_intros)+, simp)
qed

lemma branch_lists:
  "length (branch_immediate w pc n) \<le> 60" "branch_immediate w pc n \<noteq> []" "last (branch_immediate w pc n) = 0xc3"
  "length (branch_register w pc n) \<le> 60" "branch_register w pc n \<noteq> []" "last (branch_register w pc n) = 0xc3"
  by (simp_all add: branch_immediate_def branch_register_def load_def rex_def)

lemma written_families:
  "family 360 (written (refuse w pc n st))" "family 360 (written (bitfield_move w pc n))" "family 360 (written (unsigned_bitfield w pc n))"
  "family 360 (written (logical_immediate w pc n))" "family 360 (written (thread_register el w pc n))" "family 360 (written (move_wide w pc n))"
  "family 360 (written (logical_shifted w pc n))" "family 360 (written (add_sub_extended w pc n))" "family 360 (written (add_sub_shifted w pc n))"
  "family 360 (written (boundary el w pc n))"
proof -
  show "family 360 (written (refuse w pc n st))" for st by (intro family_written) (simp_all add: refuse_ends)
  then show "family 360 (written (boundary el w pc n))" by (simp add: boundary_def Let_def)
  have go: "family 360 (written (False, xs))" if "length xs \<le> k" "k \<le> 360" for xs and k using that by (intro family_written) simp_all
  have stop: "family 360 (written (refuse w pc n s))" for s by (intro family_written) (simp_all add: refuse_ends)
  have cond: "family 360 (written (if b then x else y))" if "family 360 (written x)" "family 360 (written y)" for b x y using that by simp
  show "family 360 (written (bitfield_move w pc n))" unfolding bitfield_move_def Let_def
    by (intro cond stop; (rule go, (rule length_intros)+, simp))
  show "family 360 (written (unsigned_bitfield w pc n))" unfolding unsigned_bitfield_def Let_def
    by (intro cond stop; (rule go, (rule length_intros)+, simp))
  show "family 360 (written (move_wide w pc n))" unfolding move_wide_def Let_def
    by (intro cond stop; (rule go, (rule length_intros)+, simp))
  show "family 360 (written (logical_shifted w pc n))" unfolding logical_shifted_def Let_def
    by (intro cond stop; (rule go, (rule length_intros)+, simp))
  show "family 360 (written (add_sub_extended w pc n))" unfolding add_sub_extended_def Let_def
    by (intro cond stop; (rule go, (rule length_intros)+, simp))
  show "family 360 (written (add_sub_shifted w pc n))" unfolding add_sub_shifted_def Let_def
    by (intro cond stop; (rule go, (rule length_intros)+, simp))
  show "family 360 (written (thread_register el w pc n))" unfolding thread_register_def Let_def
    by (intro cond stop; (rule go, (rule length_intros)+, simp))
  show "family 360 (written (logical_immediate w pc n))" unfolding logical_immediate_def Let_def
    by (cases "logical_mask w"; simp only: option.case; (rule stop | (rule go, (rule length_intros)+, simp)))
qed

lemma translate_one_family: "family 360 (translate_one fp provider t w pc n)"
proof -
  have g: "family 360 (\<lambda>c. (False, f c))" if "emits k f" "k \<le> 360" for f k using emits_mono [OF that] by (rule family_go)
  have h: "family 360 (\<lambda>c. (True, f c))" if "emits k f" "k \<le> 360" "\<And>c. returns (f c)" for f k
    using emits_mono [OF that(1,2)] that(3) by (rule family_stop)
  have e: "family 360 (\<lambda>c. (True, emit xs c))" if "length xs \<le> 60" "xs \<noteq> []" "last xs = 0xc3" for xs
    using that by (intro h [of 60] emits_emit returns_emit) simp_all
  have s: "family 360 (\<lambda>c. (False, emit xs c))" if "length xs \<le> 120" for xs using that by (intro g [of 120] emits_emit) simp_all
  have nop: "family 360 (\<lambda>c. (False, c))" by (intro g [of 0]) (simp_all add: emits_def)
  show ?thesis unfolding translate_one_def Let_def
    by (intro family_if written_families load_store_family nop s straight_lengths e branch_lists
        g [OF conditional_select_emits] g [OF conditional_compare_emits] g [OF id_read_emits]
        h [OF branch_conditional_emits(1)] h [OF test_branch_emits(1)] h [OF compare_branch_emits(1)]
        branch_conditional_emits(2) test_branch_emits(2) compare_branch_emits(2)) simp_all
qed

text \<open>One turn of the loop, with its conditions named.\<close>

definition outside :: "bool \<Rightarrow> translation \<Rightarrow> u8 list \<Rightarrow> u64 \<Rightarrow> bool" where
  "outside provider t guest pc \<longleftrightarrow> \<not> provider \<and> (pc AND 3 \<noteq> 0 \<or> (of_nat (length guest) :: u64) < 4 \<or> pc < tr_base t
     \<or> pc - tr_base t > of_nat (length guest) - 4 \<or> pc > - 1 - 3)"

definition word_of :: "bool \<Rightarrow> translation \<Rightarrow> u8 list \<Rightarrow> u64 \<Rightarrow> u32" where
  "word_of provider t guest pc = word_at (drop (if provider then 0 else unat (pc - tr_base t)) guest)"

lemma translate_from_step:
  "translate_from fp provider t guest (Suc k) n pc c =
     (if outside provider t guest pc then emit (finish pc n VF_INSTRUCTION_ABORT) c
      else
        let r = translate_one fp provider t (word_of provider t guest pc) pc n c in
        if fst r then snd r
        else translate_from fp provider t guest k (n + 1) (pc + 4) (if k = 0 then emit (finish (pc + 4) (n + 1) VF_NEXT) (snd r) else snd r))"
  by (simp only: translate_from.simps outside_def word_of_def Let_def case_prod_beta)

lemma translate_from_emits: "emits (394 * k) (translate_from fp provider t guest k n pc)"
proof (induction k arbitrary: n pc)
  case 0
  then show ?case by (simp add: emits_def)
next
  case (Suc k)
  let ?one = "translate_one fp provider t (word_of provider t guest pc) pc n"
  let ?rest = "\<lambda>c. translate_from fp provider t guest k (n + 1) (pc + 4) (if k = 0 then emit (finish (pc + 4) (n + 1) VF_NEXT) c else c)"
  have eq: "translate_from fp provider t guest (Suc k) n pc c = (if outside provider t guest pc then emit (finish pc n VF_INSTRUCTION_ABORT) c
      else if fst (?one c) then snd (?one c) else ?rest (snd (?one c)))" for c
    by (simp only: translate_from_step Let_def)
  have one: "family 360 ?one" by (rule translate_one_family)
  have "emits 34 (\<lambda>c. if k = 0 then emit (finish (pc + 4) (n + 1) VF_NEXT) c else c)"
    by (cases "k = 0") (simp_all add: emits_emit, simp add: emits_def)
  from emits_comp [OF this Suc.IH] have rest: "emits (34 + 394 * k) ?rest" .
  have "same_code (translate_from fp provider t guest (Suc k) n pc c) (translate_from fp provider t guest (Suc k) n pc d)" if "same_code c d" for c d
    unfolding eq using one rest that unfolding family_def emits_def by (auto intro: same_emit)
  moreover have "length (vc_bytes (translate_from fp provider t guest (Suc k) n pc c)) = length (vc_bytes c)
      \<and> vc_used c \<le> vc_used (translate_from fp provider t guest (Suc k) n pc c)
      \<and> vc_used (translate_from fp provider t guest (Suc k) n pc c) \<le> vc_used c + 394 * Suc k" for c
  proof -
    have a: "length (vc_bytes (snd (?one c))) = length (vc_bytes c)" "vc_used c \<le> vc_used (snd (?one c))" "vc_used (snd (?one c)) \<le> vc_used c + 360"
      using one by (simp_all add: family_def emits_def)
    have b: "length (vc_bytes (?rest d)) = length (vc_bytes d)" "vc_used d \<le> vc_used (?rest d)" "vc_used (?rest d) \<le> vc_used d + (34 + 394 * k)" for d
      using rest by (simp_all add: emits_def)
    show ?thesis unfolding eq using a b [of "snd (?one c)"] by (auto intro: order.trans)
  qed
  ultimately show ?case by (simp add: emits_def)
qed

lemma translate_from_returns: "0 < k \<Longrightarrow> returns (translate_from fp provider t guest k n pc c)"
proof (induction k arbitrary: n pc c)
  case (Suc k)
  let ?one = "translate_one fp provider t (word_of provider t guest pc) pc n c"
  have one: "fst ?one \<longrightarrow> returns (snd ?one)" using translate_one_family by (simp add: family_def)
  have "returns (translate_from fp provider t guest k (n + 1) (pc + 4) (if k = 0 then emit (finish (pc + 4) (n + 1) VF_NEXT) d else d))" for d
    using Suc.IH by (cases "k = 0") (simp_all add: returns_emit)
  then show ?case using one unfolding translate_from_step Let_def by (simp add: returns_emit)
qed simp

section \<open>Bit masks\<close>

lemma tag_length_bounds: "0 < tag \<Longrightarrow> 2 ^ tag_length tag \<le> tag \<and> tag < 2 ^ Suc (tag_length tag)"
proof (induction tag rule: tag_length.induct)
  case (1 tag)
  show ?case
  proof (cases "tag > 1")
    case True
    then have "2 ^ tag_length (tag div 2) \<le> tag div 2 \<and> tag div 2 < 2 ^ Suc (tag_length (tag div 2))" using 1 by simp
    then show ?thesis using True by (subst (1 2) tag_length.simps) auto
  next
    case False
    then show ?thesis using 1(2) by (subst (1 2) tag_length.simps) simp
  qed
qed

lemma bit_replicate:
  assumes "0 < sz" "\<And>j. bit element j \<Longrightarrow> j < sz"
  shows "bit (fold (\<lambda>i mask. mask OR push_bit (i * sz) element) [0..<k] (0 :: u64)) i \<longleftrightarrow> i < 64 \<and> i div sz < k \<and> bit element (i mod sz)"
proof (induction k)
  case (Suc k)
  have "bit (push_bit (k * sz) element) i \<longleftrightarrow> i < 64 \<and> i div sz = k \<and> bit element (i mod sz)"
  proof
    assume "bit (push_bit (k * sz) element) i"
    then have b: "k * sz \<le> i" "i < 64" "bit element (i - k * sz)" by (auto simp: bit_push_bit_iff)
    then have "i - k * sz < sz" using assms(2) by blast
    then have "i div sz = k" "i mod sz = i - k * sz"
      using b(1) assms(1) by (metis add.commute add_0 div_less div_mult_self3 le_add_diff_inverse less_numeral_extra(3) mult.commute plus_nat.add_0,
        metis add.commute le_add_diff_inverse mod_less mod_mult_self1)
    then show "i < 64 \<and> i div sz = k \<and> bit element (i mod sz)" using b by simp
  next
    assume a: "i < 64 \<and> i div sz = k \<and> bit element (i mod sz)"
    then have "k * sz \<le> i" "i - k * sz = i mod sz" by (auto simp: minus_div_mult_eq_mod)
    then show "bit (push_bit (k * sz) element) i" using a by (auto simp: bit_push_bit_iff)
  qed
  then show ?case using Suc.IH by (auto simp: bit_or_iff less_Suc_eq)
qed simp

text \<open>The rotation of a run of ones inside an element.\<close>

lemma bit_rotated:
  assumes "s + 1 < sz" "r < sz" "sz \<le> 64" "j < sz"
  shows "bit (if r \<noteq> 0 then drop_bit r (mask (s + 1)) OR push_bit (sz - r) (mask (s + 1)) else mask (s + 1) :: u64) j \<longleftrightarrow> (j + r) mod sz \<le> s"
proof (cases "r = 0")
  case True
  then show ?thesis using assms by (simp add: bit_mask_iff less_Suc_eq_le)
next
  case False
  have "bit (drop_bit r (mask (s + 1) :: u64)) j \<longleftrightarrow> j + r \<le> s"
    using assms by (auto simp: bit_drop_bit_eq bit_mask_iff)
  moreover have "bit (push_bit (sz - r) (mask (s + 1) :: u64)) j \<longleftrightarrow> sz \<le> j + r \<and> j + r - sz \<le> s"
    using assms False by (auto simp: bit_push_bit_iff bit_mask_iff)
  moreover have "(j + r) mod sz = (if j + r < sz then j + r else j + r - sz)" using assms by (auto simp: mod_if)
  ultimately show ?thesis using False assms by (auto simp: bit_or_iff)
qed

lemma low_field: "unat ((x :: u32) AND 63) < 64" "unat (x AND 1) < 2"
  using word_and_le1 [of x 63] word_and_le1 [of x 1] by (simp_all add: word_le_nat_alt)

lemma inverted_field: "unat (NOT s AND 63 :: u32) = 63 - unat (s AND 63)"
proof -
  have "(NOT s AND 63) AND (s AND 63) = (0 :: u32)" by (rule bit_word_eqI) (simp add: bit_simps)
  then have "(NOT s AND 63) + (s AND 63) = (NOT s AND 63) OR (s AND 63)" by (rule disjunctive_add_eq_or)
  also have "\<dots> = 63" by (rule bit_word_eqI) (auto simp: bit_or_iff bit_and_iff bit_not_iff dest: bit_imp_le_length)
  finally have "unat ((NOT s AND 63) + (s AND 63)) = 63" by simp
  moreover have "unat ((NOT s AND 63) + (s AND 63)) = unat (NOT s AND 63) + unat (s AND 63)"
    using low_field [of "NOT s"] low_field [of s] by (simp add: unat_word_ariths)
  ultimately show ?thesis by simp
qed

definition mask_tag :: "u32 \<Rightarrow> nat" where
  "mask_tag w = 64 * unat (drop_bit 22 w AND 1) + (63 - unat (drop_bit 10 w AND 63))"

lemma mask_tag_word: "unat (push_bit 6 (drop_bit 22 w AND 1) OR (NOT (drop_bit 10 w AND 63) AND 63)) = mask_tag w"
proof -
  let ?n = "drop_bit 22 w AND 1" and ?s = "drop_bit 10 w AND 63"
  have m: "(63 :: u32) = mask 6" by (simp add: mask_eq_exp_minus_1)
  have "push_bit 6 ?n AND (NOT ?s AND 63) = 0" unfolding m by (rule bit_word_eqI) (auto simp: bit_and_iff bit_push_bit_iff bit_mask_iff)
  then have "push_bit 6 ?n OR (NOT ?s AND 63) = push_bit 6 ?n + (NOT ?s AND 63)" by (rule disjunctive_add_eq_or [symmetric])
  moreover have "unat (push_bit 6 ?n) = 64 * unat ?n" using low_field(2) [of "drop_bit 22 w"] by (simp add: push_bit_eq_mult unat_word_ariths)
  moreover have "unat (NOT ?s AND 63) = 63 - unat ?s" using inverted_field [of ?s] by (simp add: and.assoc)
  ultimately show ?thesis using low_field(2) [of "drop_bit 22 w"] by (simp add: mask_tag_def unat_word_ariths)
qed

lemma and_levels: "unat ((x :: u32) AND of_nat (2 ^ len - 1)) = unat x mod 2 ^ len"
proof -
  have "(of_nat (2 ^ len - 1) :: u32) = mask len" by (simp add: mask_eq_exp_minus_1 of_nat_diff)
  then have "unat (x AND of_nat (2 ^ len - 1)) = take_bit len (unat x)" by (metis take_bit_eq_mask unsigned_take_bit_eq)
  then show ?thesis by (simp add: take_bit_eq_mod)
qed

lemma bit_mask_element:
  assumes "s + 1 < sz" "r < sz" "sz \<le> 64" "0 < sz"
  defines "e \<equiv> (if r \<noteq> 0 then drop_bit r (mask (s + 1)) OR push_bit (sz - r) (mask (s + 1)) else mask (s + 1)) :: u64"
  shows "bit (if sz < 64 then e AND mask sz else e) j \<longleftrightarrow> j < sz \<and> (j + r) mod sz \<le> s"
  using bit_rotated [OF assms(1-3), of j] assms(3) bit_imp_le_length [of e j]
  by (cases "sz < 64"; cases "j < sz") (auto simp: e_def bit_and_iff bit_mask_iff)

lemma whole_elements: "0 < sz \<Longrightarrow> width = sz * q \<Longrightarrow> (width + sz - 1) div sz = width div (sz :: nat)"
proof -
  assume a: "0 < sz" "width = sz * q"
  then have "width + sz - 1 = (sz - 1) + sz * q" by simp
  moreover have "((sz - 1) + sz * q) div sz = q + (sz - 1) div sz" using a(1) by (intro div_mult_self2) simp
  moreover have "(sz - 1) div sz = 0" using a(1) by (intro div_less) simp
  ultimately show ?thesis using a by simp
qed

lemma logical_mask_cases:
  fixes w :: u32
  defines "width \<equiv> if wide_of w then 64 else (32 :: nat)"
    and "s \<equiv> unat (drop_bit 10 w AND 63)" and "r \<equiv> unat (drop_bit 16 w AND 63)"
  shows "case logical_mask w of
      None \<Rightarrow> (\<not> wide_of w \<and> drop_bit 22 w AND 1 \<noteq> 0) \<or> mask_tag w < 2
        \<or> (\<exists>len. 2 ^ len \<le> mask_tag w \<and> mask_tag w < 2 ^ (len + 1) \<and> s mod 2 ^ len = 2 ^ len - 1)
    | Some m \<Rightarrow> \<exists>len \<ge> 1. 2 ^ len \<le> mask_tag w \<and> mask_tag w < 2 ^ (len + 1) \<and> 2 ^ len \<le> width \<and> s mod 2 ^ len < 2 ^ len - 1
        \<and> (\<forall>i. bit m i \<longleftrightarrow> i < width \<and> (i + r) mod 2 ^ len \<le> s mod 2 ^ len)"
proof -
  let ?len = "tag_length (mask_tag w)" and ?sz = "2 ^ tag_length (mask_tag w) :: nat"
  have wi: "width = 32 \<longleftrightarrow> \<not> wide_of w" by (simp add: width_def)
  show ?thesis
  proof (cases "(\<not> wide_of w \<and> drop_bit 22 w AND 1 \<noteq> 0) \<or> mask_tag w < 2")
    case True
    have "?len = 0" if "mask_tag w < 2" using that by (subst tag_length.simps) simp
    then have "logical_mask w = None" unfolding logical_mask_def Let_def mask_tag_word using True by auto
    then show ?thesis using True by auto
  next
    case False
    have tag: "?sz \<le> mask_tag w" "mask_tag w < 2 ^ (?len + 1)" using tag_length_bounds [of "mask_tag w"] False by auto
    have len: "1 \<le> ?len" using tag(2) False by (cases ?len) auto
    have "mask_tag w \<le> 127" "\<not> wide_of w \<Longrightarrow> mask_tag w \<le> 63"
      using low_field(2) [of "drop_bit 22 w"] False by (auto simp: mask_tag_def)
    then have "?sz < 2 ^ 7" "\<not> wide_of w \<Longrightarrow> ?sz < 2 ^ 6" using tag(1) by auto
    then have "?len < 7" "\<not> wide_of w \<Longrightarrow> ?len < 6"
      using power_less_imp_less_exp [of "2 :: nat" ?len 7] power_less_imp_less_exp [of "2 :: nat" ?len 6] by simp_all
    then have "?len \<le> 6" "\<not> wide_of w \<Longrightarrow> ?len \<le> 5" by auto
    then have sz: "?sz \<le> 64" "?sz \<le> width" "width = ?sz * 2 ^ ((if wide_of w then 6 else 5) - ?len)"
      using power_increasing [of ?len 6 "2 :: nat"] power_increasing [of ?len 5 "2 :: nat"]
      by (auto simp: width_def simp flip: power_add)
    have lv: "((drop_bit 10 w AND 63) AND of_nat (?sz - 1) = (of_nat (?sz - 1) :: u32)) \<longleftrightarrow> s mod ?sz = ?sz - 1"
    proof -
      have "?sz - 1 < 2 ^ 32" using sz(1) by simp
      then have "unat (of_nat (?sz - 1) :: u32) = ?sz - 1" by (subst unat_of_nat) simp
      then show ?thesis by (simp only: word_unat_eq_iff and_levels s_def)
    qed
    show ?thesis
    proof (cases "s mod ?sz = ?sz - 1")
      case True
      then have "logical_mask w = None" unfolding logical_mask_def Let_def mask_tag_word lv by simp
      then show ?thesis using tag True by auto
    next
      case ok: False
      have b: "s mod ?sz + 1 < ?sz" "r mod ?sz < ?sz"
      proof -
        have "s mod ?sz < ?sz" by simp
        then show "s mod ?sz + 1 < ?sz" using ok by linarith
        show "r mod ?sz < ?sz" by simp
      qed
      let ?e = "if r mod ?sz \<noteq> 0 then drop_bit (r mod ?sz) (mask (s mod ?sz + 1)) OR push_bit (?sz - r mod ?sz) (mask (s mod ?sz + 1)) else mask (s mod ?sz + 1) :: u64"
      let ?el = "if ?sz < 64 then ?e AND mask ?sz else ?e"
      have m: "logical_mask w = Some (replicate_element width ?sz ?el)"
      proof -
        have c: "\<not> (width = 32 \<and> drop_bit 22 w AND 1 \<noteq> 0)" "\<not> ?len < 1" "\<not> (width < ?sz \<or> s mod ?sz = ?sz - 1)"
          using False ok sz(2) len wi by auto
        show ?thesis
          unfolding logical_mask_def Let_def mask_tag_word lv and_levels s_def [symmetric] r_def [symmetric] width_def [symmetric]
          by (simp only: c if_False)
      qed
      have el: "bit ?el j \<longleftrightarrow> j < ?sz \<and> (j + r) mod ?sz \<le> s mod ?sz" for j
        using bit_mask_element [OF b sz(1), of j] by (simp add: mod_add_right_eq)
      obtain E where m1: "logical_mask w = Some (replicate_element width ?sz E)"
        and bits: "\<And>j. bit E j \<longleftrightarrow> j < ?sz \<and> (j + r) mod ?sz \<le> s mod ?sz" using m el by blast
      have q: "bit (replicate_element width ?sz E) i \<longleftrightarrow> i < width \<and> (i + r) mod ?sz \<le> s mod ?sz" for i
      proof -
        have w: "(width + ?sz - 1) div ?sz = width div ?sz" by (rule whole_elements [OF _ sz(3)]) simp
        have d: "i div ?sz < width div ?sz \<longleftrightarrow> i < width" using sz(3) by (simp add: div_less_iff_less_mult mult.commute)
        have "width \<le> 64" by (simp add: width_def)
        then have l: "i < width \<Longrightarrow> i < 64" by (rule less_le_trans [rotated])
        have e: "bit (replicate_element width ?sz E) i \<longleftrightarrow> i < 64 \<and> i div ?sz < (width + ?sz - 1) div ?sz \<and> bit E (i mod ?sz)"
          unfolding replicate_element_def by (rule bit_replicate) (use bits in auto)
        have "bit E (i mod ?sz) \<longleftrightarrow> (i + r) mod ?sz \<le> s mod ?sz" unfolding bits by (simp add: mod_add_left_eq)
        then show ?thesis unfolding e w d using l by blast
      qed
      have "s mod ?sz < ?sz - 1" using b(1) by linarith
      then show ?thesis unfolding m1 option.case
        by (intro exI [of _ ?len] conjI allI) (rule len tag sz(2) q | assumption)+
    qed
  qed
qed

section \<open>Properties\<close>

text \<open>C7. The masks of the logical instructions are those of the architecture. With \<open>N:NOT(imms)\<close> as the tag, whose highest bit
  gives the size of an element, the decoder refuses exactly the reserved encodings, and an accepted mask has the bit \<open>i\<close> set if and only
  if \<open>i\<close> is inside the width and, rotated back inside its element, at most the number of ones asked for.\<close>

theorem logical_mask_meaning:
  "let width = (if wide_of w then 64 else (32 :: nat)); s = unat (drop_bit 10 w AND 63); r = unat (drop_bit 16 w AND 63) in
   case logical_mask w of
      None \<Rightarrow> (\<not> wide_of w \<and> drop_bit 22 w AND 1 \<noteq> 0) \<or> mask_tag w < 2
        \<or> (\<exists>len. 2 ^ len \<le> mask_tag w \<and> mask_tag w < 2 ^ (len + 1) \<and> s mod 2 ^ len = 2 ^ len - 1)
    | Some m \<Rightarrow> \<exists>len \<ge> 1. 2 ^ len \<le> mask_tag w \<and> mask_tag w < 2 ^ (len + 1) \<and> 2 ^ len \<le> width \<and> s mod 2 ^ len < 2 ^ len - 1
        \<and> (\<forall>i. bit m i \<longleftrightarrow> i < width \<and> (i + r) mod 2 ^ len \<le> s mod 2 ^ len)"
  unfolding Let_def by (rule logical_mask_cases)

lemma fresh_same: "same_code (c\<lparr>vc_used := 0\<rparr>) (d\<lparr>vc_used := 0\<rparr>)"
  by (simp add: same_code_def)

text \<open>The code a translation asks for, and its bounds.\<close>

abbreviation (input) translated :: "bool \<Rightarrow> vf_cpu option \<Rightarrow> u8 list \<Rightarrow> u64 \<Rightarrow> nat \<Rightarrow> bool \<Rightarrow> vf_code \<Rightarrow> vf_code" where
  "translated fp cpu guest pc limit provider c \<equiv> translate_from fp provider (translation_of cpu) guest limit 0 pc (c\<lparr>vc_used := 0\<rparr>)"

lemma translated_bounds:
  "length (vc_bytes (translated fp cpu guest pc limit provider c)) = length (vc_bytes c)"
  "vc_used (translated fp cpu guest pc limit provider c) \<le> 394 * limit"
  using translate_from_emits [of limit fp provider "translation_of cpu" guest 0 pc, unfolded emits_def, THEN conjunct2, rule_format, of "c\<lparr>vc_used := 0\<rparr>"]
  by simp_all

lemma translated_same: "same_code (translated fp cpu guest pc limit provider c) (translated fp cpu guest pc limit provider d)"
  using translate_from_emits [unfolded emits_def, THEN conjunct1, rule_format, OF fresh_same] .

text \<open>C6. The code buffer is safe and its capacity matters only for whether the code fits. Whatever the guest's bytes, the address,
  the limit and the state of the processor, no byte and no jump distance is stored outside the buffer (a store past its end
  would lengthen it, and its length does not change), and translation asks for the same number of bytes, the same
  ones, in every buffer; it succeeds exactly if they fit, and then the code ends in a return if there is any instruction to translate. An
  instruction never needs more than 394 bytes: a single one fits in a slot of the run-local cache and a block of 32 in the 16 KiB of the
  firmware's entry, so that translation for these cannot run out of space.\<close>

theorem translation_fits:
  "let (status, c1) = translate_impl fp cpu guest pc limit provider c; (status2, d1) = translate_impl fp cpu guest pc limit provider d in
     length (vc_bytes c1) = length (vc_bytes c) \<and> vc_used c1 = vc_used d1 \<and> vc_used c1 \<le> 394 * limit
     \<and> status = (if vc_used c1 \<le> length (vc_bytes c1) then VF_NEXT else VF_CODE_FULL)
     \<and> (status = VF_NEXT \<longrightarrow> status2 = VF_NEXT \<longrightarrow> take (vc_used c1) (vc_bytes c1) = take (vc_used d1) (vc_bytes d1))
     \<and> (status = VF_NEXT \<longrightarrow> 0 < limit \<longrightarrow> 0 < vc_used c1 \<and> vc_bytes c1 ! (vc_used c1 - 1) = 0xc3)
     \<and> (limit \<le> 1 \<and> length (vc_bytes c) = 1024 \<or> limit \<le> 32 \<and> length (vc_bytes c) = 16384 \<longrightarrow> status = VF_NEXT)"
proof -
  let ?c = "translated fp cpu guest pc limit provider c" and ?d = "translated fp cpu guest pc limit provider d"
  note s = translated_same [where fp = fp and cpu = cpu and guest = guest and pc = pc and limit = limit and provider = provider and c = c and d = d]
  note z = translated_bounds [where fp = fp and cpu = cpu and guest = guest and pc = pc and limit = limit and provider = provider]
  have used: "vc_used ?c = vc_used ?d" using s by (simp add: same_code_def)
  have take: "vc_used ?c \<le> length (vc_bytes ?c) \<longrightarrow> vc_used ?d \<le> length (vc_bytes ?d) \<longrightarrow> take (vc_used ?c) (vc_bytes ?c) = take (vc_used ?d) (vc_bytes ?d)"
    using s unfolding same_code_def by blast
  have ret: "vc_used ?c \<le> length (vc_bytes ?c) \<longrightarrow> 0 < limit \<longrightarrow> 0 < vc_used ?c \<and> vc_bytes ?c ! (vc_used ?c - 1) = 0xc3"
    using translate_from_returns by (auto simp: returns_def)
  have room: "limit \<le> 1 \<and> length (vc_bytes c) = 1024 \<or> limit \<le> 32 \<and> length (vc_bytes c) = 16384 \<longrightarrow> vc_used ?c \<le> length (vc_bytes ?c)"
    using z [of c] by auto
  define x y where "x = ?c" and "y = ?d"
  show ?thesis unfolding translate_impl_def Let_def prod.case
    using z(1) [of c] z(2) [of c] used take ret room unfolding x_def [symmetric] y_def [symmetric] by (auto simp: not_less split: if_splits)
qed

definition buffer_demo :: vf_code where
  "buffer_demo = \<lparr>vc_bytes = replicate 1024 0, vc_used = 0\<rparr>"

text \<open>An addition, in a slot of the cache.\<close>

theorem translation_fits_witness:
  "let (status, c) = translate_impl True None [0x20, 0, 0x02, 0x8b] 0 1 True buffer_demo in
     status = VF_NEXT \<and> 0 < vc_used c \<and> vc_used c \<le> 394 \<and> vc_bytes c ! (vc_used c - 1) = 0xc3"
proof -
  have "length (vc_bytes buffer_demo) = 1024" by (simp add: buffer_demo_def)
  with translation_fits [where fp = True and cpu = None and guest = "[0x20, 0, 0x02, 0x8b]" and pc = 0 and limit = 1 and provider = True
      and c = buffer_demo and d = buffer_demo]
  show ?thesis by (simp add: Let_def case_prod_beta)
qed

end
