(* ===== verification/Exec.thy ===== *)
theory Exec
  imports Boot Emit
begin

text \<open>
  Execution over guest memory that the host holds itself: \<open>vf_run\<close> and the boot entries of \<open>runtime/jit.c\<close> and
  \<open>runtime/boot_jit.c\<close>, and \<open>vf_preos_jit_execute\<close> of \<open>runtime/preos_bridge.c\<close>, the entry the firmware's Rust half calls.

  Blocks are translated by the model of the translator, into the code buffer the state holds. What the repository does not define is a
  parameter: a host runs the bytes of a block on the processor and the RAM, and changes the protection of the buffer. The guest image is a
  function of the RAM, because the boot entries pass the RAM as the image, and the two spans of a request may overlap. Pointers are
  addresses, as the code compares them. A run takes fuel.

  Shown: a run ends within its budget, whatever the guest does; a request that passes the checks always gets a result whose status,
  reason and count agree, and one that does not is refused with nothing but the verdict written.
\<close>

unbundle bit_operations_syntax

section \<open>Blocks\<close>

text \<open>The run of a block takes the bytes that were asked for, since native code ends in a return.\<close>

record 'p block_host =
  b_protect :: "'p \<Rightarrow> bool \<Rightarrow> bool \<times> 'p"
  b_entry :: "vf_cpu \<Rightarrow> u8 list \<Rightarrow> u8 list \<Rightarrow> u32 \<times> vf_cpu \<times> u8 list"
  b_fp :: bool

record 'p exec_state =
  ex_cpu :: vf_cpu
  ex_ram :: "u8 list"
  ex_code :: vf_code
  ex_protect :: 'p

definition native_code :: "vf_code \<Rightarrow> u8 list" where
  "native_code c = take (vc_used c) (vc_bytes c)"

definition execute_native_block_ram :: "'p block_host \<Rightarrow> vf_cpu \<Rightarrow> u8 list \<Rightarrow> vf_code \<Rightarrow> u32 \<times> vf_cpu \<times> u8 list" where
  "execute_native_block_ram h cpu ram code =
     (let (status, cpu1, ram1) = b_entry h cpu ram (native_code code);
          cpu2 = vf_cpu_advance_counter cpu1 (cpu_retired cpu1 - cpu_retired cpu) in
      (status, cpu2\<lparr>cpu_compiled_blocks := cpu_compiled_blocks cpu2 + 1\<rparr>, ram1))"

text \<open>The length of the next block: single instructions while an interrupt may become due.\<close>

definition block_limit :: "u64 \<Rightarrow> vf_cpu \<Rightarrow> nat" where
  "block_limit left cpu =
     (if cpu_irq_level cpu \<noteq> 0 \<or> cpu_fiq_level cpu \<noteq> 0 \<or> (cpu_cntp_ctl cpu OR cpu_cntv_ctl cpu) AND VF_TIMER_CTL_ENABLE \<noteq> 0 then 1
      else if left > 32 then 32 else unat left)"

text \<open>The second half of a turn of the loop of \<open>vf_run\<close>, the block itself and the dispatch of its status, and the whole turn: a
  status to return with, or none to go on.\<close>

definition native_turn :: "'p block_host \<Rightarrow> 'p exec_state \<Rightarrow> (u32 option \<times> 'p exec_state) option" where
  "native_turn h s =
     (let (status, cpu1, ram1) = execute_native_block_ram h (ex_cpu s) (ex_ram s) (ex_code s) in
      case (if b_fp h \<and> status = VF_FP_DISPATCH then dispatch_fp cpu1
            else Some (dispatch_status [system_register_slow_step, pstate_slow_step, pauth_slow_step] status cpu1)) of
        None \<Rightarrow> None
      | Some (out, cpu2) \<Rightarrow> Some (out, s\<lparr>ex_cpu := cpu2, ex_ram := ram1\<rparr>))"

definition run_iteration ::
  "'p block_host \<Rightarrow> (u8 list \<Rightarrow> u8 list) \<Rightarrow> u64 \<Rightarrow> u64 \<Rightarrow> 'p exec_state \<Rightarrow> (u32 option \<times> 'p exec_state) option" where
  "run_iteration h view start budget s =
     (let cpu = ex_cpu s in
      if cpu_sctlr cpu AND 1 \<noteq> 0 then Some (Some VF_SYSTEM_REGISTER_TRAP, s\<lparr>ex_cpu := cpu\<lparr>cpu_instruction := 0\<rparr>\<rparr>)
      else
        let (status, cpu1) = vf_cpu_poll_interrupt cpu in
        if status \<noteq> VF_NEXT then Some (Some status, s\<lparr>ex_cpu := cpu1\<rparr>)
        else
          let limit = block_limit (budget - (cpu_retired cpu1 - start)) cpu1;
              (failed, p1) = b_protect h (ex_protect s) False in
          if failed then Some (Some VF_PROTECTION, s\<lparr>ex_cpu := cpu1, ex_protect := p1\<rparr>)
          else
            let (status1, cpu2, code) = vf_translate_cpu (b_fp h) cpu1 (view (ex_ram s)) (cpu_pc cpu1) limit (ex_code s) in
            if status1 \<noteq> VF_NEXT then
              Some (Some status1, s\<lparr>ex_cpu := (if status1 \<noteq> VF_CODE_FULL then snd (vf_cpu_commit_status cpu2 status1) else cpu2),
                                    ex_code := code, ex_protect := p1\<rparr>)
            else
              let (failed1, p2) = b_protect h p1 True in
              if failed1 then Some (Some VF_PROTECTION, s\<lparr>ex_cpu := cpu2, ex_code := code, ex_protect := p2\<rparr>)
              else native_turn h (s\<lparr>ex_cpu := cpu2, ex_code := code, ex_protect := p2\<rparr>))"

definition exec_return :: "u32 \<Rightarrow> 'p exec_state \<Rightarrow> u32 \<times> 'p exec_state" where
  "exec_return status s = (status, s\<lparr>ex_cpu := (ex_cpu s)\<lparr>cpu_status := status\<rparr>\<rparr>)"

fun run_loop ::
  "nat \<Rightarrow> ('p exec_state \<Rightarrow> (u32 option \<times> 'p exec_state) option) \<Rightarrow> u64 \<Rightarrow> u64 \<Rightarrow> 'p exec_state \<Rightarrow> (u32 \<times> 'p exec_state) option" where
  "run_loop 0 iterate start budget s = None"
| "run_loop (Suc fuel) iterate start budget s =
     (if \<not> cpu_retired (ex_cpu s) - start < budget then Some (exec_return VF_BUDGET s)
      else
        case iterate s of
          None \<Rightarrow> None
        | Some (Some status, s1) \<Rightarrow> Some (exec_return status s1)
        | Some (None, s1) \<Rightarrow> run_loop fuel iterate start budget s1)"

text \<open>The address of the code buffer is an argument, its content is in the state; the RAM is at least 8 bytes long.\<close>

definition vf_run ::
  "nat \<Rightarrow> 'p block_host \<Rightarrow> (u8 list \<Rightarrow> u8 list) \<Rightarrow> u64 \<Rightarrow> u64 \<Rightarrow> 'p exec_state \<Rightarrow> (u32 \<times> 'p exec_state) option" where
  "vf_run fuel h view code budget s =
     (if length (ex_ram s) < 8 \<or> code = 0 \<or> \<not> vf_cpu_state_valid (ex_cpu s) then Some (exec_return VF_DATA_FAULT s)
      else run_loop fuel (run_iteration h view (cpu_retired (ex_cpu s)) budget) (cpu_retired (ex_cpu s)) budget s)"

section \<open>Boot entries\<close>

definition vf_run_boot_v2 ::
  "nat \<Rightarrow> 'p block_host \<Rightarrow> u64 \<Rightarrow> u64 \<Rightarrow> u64 \<Rightarrow> u64 \<Rightarrow> u64 \<Rightarrow> u64 \<Rightarrow> u64 list \<Rightarrow> vf_pauth_step option
   \<Rightarrow> vf_boot_options_v2 option \<Rightarrow> 'p exec_state \<Rightarrow> (u32 \<times> 'p exec_state) option" where
  "vf_run_boot_v2 fuel h code base entry args stack budget registers pauth options s =
     (case vf_cpu_prepare_boot (ex_cpu s) (of_nat (length (ex_ram s))) base entry args stack registers pauth options budget of
        (status, cpu) \<Rightarrow>
          if status \<noteq> VF_NEXT then Some (status, s\<lparr>ex_cpu := cpu\<rparr>)
          else vf_run fuel h (\<lambda>ram. ram) code budget (s\<lparr>ex_cpu := cpu\<rparr>))"

definition vf_run_boot_with_registers ::
  "nat \<Rightarrow> 'p block_host \<Rightarrow> u64 \<Rightarrow> u64 \<Rightarrow> u64 \<Rightarrow> u64 \<Rightarrow> u64 \<Rightarrow> u64 \<Rightarrow> u64 list \<Rightarrow> vf_pauth_step option
   \<Rightarrow> 'p exec_state \<Rightarrow> (u32 \<times> 'p exec_state) option" where
  "vf_run_boot_with_registers fuel h code base entry args stack budget registers pauth s =
     vf_run_boot_v2 fuel h code base entry args stack budget registers pauth None s"

definition vf_run_boot_with_pauth ::
  "nat \<Rightarrow> 'p block_host \<Rightarrow> u64 \<Rightarrow> u64 \<Rightarrow> u64 \<Rightarrow> u64 \<Rightarrow> u64 \<Rightarrow> u64 \<Rightarrow> vf_pauth_step option
   \<Rightarrow> 'p exec_state \<Rightarrow> (u32 \<times> 'p exec_state) option" where
  "vf_run_boot_with_pauth fuel h code base entry args stack budget pauth s =
     vf_run_boot_with_registers fuel h code base entry args stack budget [args, 0, 0, 0] pauth s"

definition vf_run_boot ::
  "nat \<Rightarrow> 'p block_host \<Rightarrow> u64 \<Rightarrow> u64 \<Rightarrow> u64 \<Rightarrow> u64 \<Rightarrow> u64 \<Rightarrow> u64 \<Rightarrow> 'p exec_state \<Rightarrow> (u32 \<times> 'p exec_state) option" where
  "vf_run_boot fuel h code base entry args stack budget s =
     vf_run_boot_with_pauth fuel h code base entry args stack budget None s"

text \<open>The bridge of \<open>boot_jit.c\<close> checks the addresses of the RAM and of the code buffer, and reports a snapshot.\<close>

definition boot_spans_rejected :: "u64 \<Rightarrow> u64 \<Rightarrow> u64 \<Rightarrow> u64 \<Rightarrow> bool" where
  "boot_spans_rejected r ram_size code code_bytes \<longleftrightarrow>
     r = 0 \<or> code = 0 \<or> code_bytes < 64 \<or> ram_size > - 1 - r \<or> code_bytes > - 1 - code
     \<or> (r < code + code_bytes \<and> code < r + ram_size)"

definition vf_boot_run_v2 ::
  "nat \<Rightarrow> 'p block_host \<Rightarrow> u64 \<Rightarrow> u64 \<Rightarrow> u64 \<Rightarrow> u64 \<Rightarrow> u64 \<Rightarrow> u64 \<Rightarrow> u64 \<Rightarrow> u64 list \<Rightarrow> vf_pauth_step option
   \<Rightarrow> vf_boot_options_v2 option \<Rightarrow> u8 list \<Rightarrow> u8 list \<Rightarrow> 'p \<Rightarrow> (u32 \<times> vf_boot_result_v2 \<times> u8 list \<times> u8 list \<times> 'p) option" where
  "vf_boot_run_v2 fuel h r code base entry args stack budget registers pauth options ram buffer p =
     (if boot_spans_rejected r (of_nat (length ram)) code (of_nat (length buffer)) then
        Some (VF_DATA_FAULT, boot_result_zero entry args, ram, buffer, p)
      else
        case vf_run_boot_v2 fuel h code base entry args stack budget registers pauth options
               \<lparr>ex_cpu = vf_cpu_reset cpu_zero VF_EL1, ex_ram = ram, ex_code = \<lparr>vc_bytes = buffer, vc_used = 0\<rparr>, ex_protect = p\<rparr> of
          None \<Rightarrow> None
        | Some (status, s) \<Rightarrow> Some (status, vf_boot_snapshot (ex_cpu s) status, ex_ram s, vc_bytes (ex_code s), ex_protect s))"

definition vf_boot_run_with_registers ::
  "nat \<Rightarrow> 'p block_host \<Rightarrow> u64 \<Rightarrow> u64 \<Rightarrow> u64 \<Rightarrow> u64 \<Rightarrow> u64 \<Rightarrow> u64 \<Rightarrow> u64 \<Rightarrow> u64 list \<Rightarrow> vf_pauth_step option
   \<Rightarrow> u8 list \<Rightarrow> u8 list \<Rightarrow> 'p \<Rightarrow> (u32 \<times> vf_boot_result \<times> u8 list \<times> u8 list \<times> 'p) option" where
  "vf_boot_run_with_registers fuel h r code base entry args stack budget registers pauth ram buffer p =
     map_option (\<lambda>(status, extended, ram1, buffer1, p1). (status, br_base extended, ram1, buffer1, p1))
       (vf_boot_run_v2 fuel h r code base entry args stack budget registers pauth None ram buffer p)"

definition vf_boot_run_with_pauth ::
  "nat \<Rightarrow> 'p block_host \<Rightarrow> u64 \<Rightarrow> u64 \<Rightarrow> u64 \<Rightarrow> u64 \<Rightarrow> u64 \<Rightarrow> u64 \<Rightarrow> u64 \<Rightarrow> vf_pauth_step option
   \<Rightarrow> u8 list \<Rightarrow> u8 list \<Rightarrow> 'p \<Rightarrow> (u32 \<times> vf_boot_result \<times> u8 list \<times> u8 list \<times> 'p) option" where
  "vf_boot_run_with_pauth fuel h r code base entry args stack budget pauth ram buffer p =
     vf_boot_run_with_registers fuel h r code base entry args stack budget [args, 0, 0, 0] pauth ram buffer p"

definition vf_boot_run ::
  "nat \<Rightarrow> 'p block_host \<Rightarrow> u64 \<Rightarrow> u64 \<Rightarrow> u64 \<Rightarrow> u64 \<Rightarrow> u64 \<Rightarrow> u64 \<Rightarrow> u64 \<Rightarrow> u8 list \<Rightarrow> u8 list \<Rightarrow> 'p
   \<Rightarrow> (u32 \<times> vf_boot_result \<times> u8 list \<times> u8 list \<times> 'p) option" where
  "vf_boot_run fuel h r code base entry args stack budget ram buffer p =
     vf_boot_run_with_pauth fuel h r code base entry args stack budget None ram buffer p"

section \<open>The entry of the firmware\<close>

datatype vf_preos_code = VF_PREOS_OK | VF_PREOS_E_ABI | VF_PREOS_E_CONTEXT | VF_PREOS_E_PROFILE | VF_PREOS_E_GUEST_INPUT
  | VF_PREOS_E_MACHINE_INIT | VF_PREOS_E_JIT | VF_PREOS_E_BUDGET | VF_PREOS_E_PROTECTION | VF_PREOS_E_INTERNAL | VF_PREOS_E_RESULT
  | VF_PREOS_E_UNSUPPORTED

abbreviation (input) VF_PREOS_ABI_VERSION :: u32 where "VF_PREOS_ABI_VERSION \<equiv> 1"
abbreviation (input) VF_PREOS_MAX_GUEST_BYTES :: u64 where "VF_PREOS_MAX_GUEST_BYTES \<equiv> 65536"
abbreviation (input) VF_PREOS_FIXED_GUEST_RAM_BYTES :: u64 where "VF_PREOS_FIXED_GUEST_RAM_BYTES \<equiv> 65536"
abbreviation (input) VF_PREOS_MAX_EXECUTION_BUDGET :: u64 where "VF_PREOS_MAX_EXECUTION_BUDGET \<equiv> 100000"
abbreviation (input) VF_MACHINE_PROFILE_M1_DIAGNOSTIC :: u32 where "VF_MACHINE_PROFILE_M1_DIAGNOSTIC \<equiv> 0x4d314430"
abbreviation (input) VF_EFI_EXECUTION_MAGIC :: u64 where "VF_EFI_EXECUTION_MAGIC \<equiv> 0x5646455845433031"
abbreviation (input) VF_TERMINATION_HALT :: u32 where "VF_TERMINATION_HALT \<equiv> 1"
abbreviation (input) VF_TERMINATION_BAD_INSTRUCTION :: u32 where "VF_TERMINATION_BAD_INSTRUCTION \<equiv> 2"
abbreviation (input) VF_TERMINATION_FETCH_FAULT :: u32 where "VF_TERMINATION_FETCH_FAULT \<equiv> 3"
abbreviation (input) VF_TERMINATION_DATA_FAULT :: u32 where "VF_TERMINATION_DATA_FAULT \<equiv> 4"
abbreviation (input) VF_TERMINATION_BUDGET_EXHAUSTED :: u32 where "VF_TERMINATION_BUDGET_EXHAUSTED \<equiv> 5"
abbreviation (input) VF_TERMINATION_PROTECTION_FAILURE :: u32 where "VF_TERMINATION_PROTECTION_FAILURE \<equiv> 6"
abbreviation (input) VF_TERMINATION_CODE_BUFFER_FULL :: u32 where "VF_TERMINATION_CODE_BUFFER_FULL \<equiv> 7"
abbreviation (input) VF_TERMINATION_WRAPPER_REJECTED :: u32 where "VF_TERMINATION_WRAPPER_REJECTED \<equiv> 8"
abbreviation (input) VF_TERMINATION_INTERNAL :: u32 where "VF_TERMINATION_INTERNAL \<equiv> 9"
abbreviation (input) VF_TERMINATION_UNDEFINED_INSTRUCTION :: u32 where "VF_TERMINATION_UNDEFINED_INSTRUCTION \<equiv> 11"
abbreviation (input) VF_TERMINATION_PRIVILEGE_FAULT :: u32 where "VF_TERMINATION_PRIVILEGE_FAULT \<equiv> 12"
abbreviation (input) VF_TERMINATION_TRANSLATION_FAULT :: u32 where "VF_TERMINATION_TRANSLATION_FAULT \<equiv> 13"
abbreviation (input) VF_TERMINATION_PERMISSION_FAULT :: u32 where "VF_TERMINATION_PERMISSION_FAULT \<equiv> 14"
abbreviation (input) VF_TERMINATION_ALIGNMENT_FAULT :: u32 where "VF_TERMINATION_ALIGNMENT_FAULT \<equiv> 15"
abbreviation (input) VF_TERMINATION_SYSTEM_REGISTER_TRAP :: u32 where "VF_TERMINATION_SYSTEM_REGISTER_TRAP \<equiv> 16"
abbreviation (input) VF_TERMINATION_TIMER_INTERRUPT :: u32 where "VF_TERMINATION_TIMER_INTERRUPT \<equiv> 17"
abbreviation (input) VF_TERMINATION_EXTERNAL_INTERRUPT :: u32 where "VF_TERMINATION_EXTERNAL_INTERRUPT \<equiv> 18"
abbreviation (input) VF_TERMINATION_INSTRUCTION_ABORT :: u32 where "VF_TERMINATION_INSTRUCTION_ABORT \<equiv> 19"
abbreviation (input) VF_TERMINATION_DATA_ABORT :: u32 where "VF_TERMINATION_DATA_ABORT \<equiv> 20"
abbreviation (input) VF_TERMINATION_FIQ_INTERRUPT :: u32 where "VF_TERMINATION_FIQ_INTERRUPT \<equiv> 21"

record VF_JIT_REQUEST =
  rq_abi_version :: u32
  rq_struct_size :: u32
  rq_machine_profile :: u32
  rq_flags :: u32
  rq_execution_budget :: u64
  rq_guest_bytes :: u64
  rq_guest_size :: u64
  rq_guest_ram :: u64
  rq_guest_ram_size :: u64
  rq_opaque_execution_handle :: u64
  rq_reserved :: "u64 list"

record VF_JIT_RESULT =
  jr_abi_version :: u32
  jr_struct_size :: u32
  jr_jit_status :: u32
  jr_termination_reason :: u32
  jr_retired_instruction_count :: u64
  jr_guest_pc :: u64
  jr_fault_instruction :: u32
  jr_reserved0 :: u32
  jr_result_x0 :: u64
  jr_result_x1 :: u64
  jr_result_x3 :: u64
  jr_reserved :: "u64 list"

text \<open>The capability: a null pointer to the code buffer is \<open>None\<close>, and otherwise the address of its bytes; the protection function and the
  processor are named by addresses.\<close>

record vf_efi_execution =
  ee_magic :: u64
  ee_code :: "u64 option"
  ee_protect :: u64
  ee_guest_bytes :: u64
  ee_guest_size :: u64
  ee_guest_ram :: u64
  ee_guest_ram_size :: u64
  ee_cpu :: u64
  ee_initial_x2 :: u64
  ee_machine_profile :: u32
  ee_reserved :: u32

definition zero_words :: "u64 list \<Rightarrow> bool" where
  "zero_words ws \<longleftrightarrow> list_all (\<lambda>w. w = 0) ws"

definition abi_prefix_valid :: "u64 \<Rightarrow> u32 \<Rightarrow> u32 \<Rightarrow> u32 \<Rightarrow> bool" where
  "abi_prefix_valid pointer word0 word1 expected_size \<longleftrightarrow>
     pointer \<noteq> 0 \<and> pointer AND 7 = 0 \<and> word0 = VF_PREOS_ABI_VERSION \<and> word1 = expected_size"

definition valid_span :: "u64 \<Rightarrow> u64 \<Rightarrow> u64 \<Rightarrow> u64 \<Rightarrow> u64 \<Rightarrow> bool" where
  "valid_span pointer bytes minimum maximum alignment \<longleftrightarrow>
     \<not> (pointer = 0 \<or> bytes < minimum \<or> bytes > maximum \<or> alignment = 0 \<or> pointer AND (alignment - 1) \<noteq> 0
        \<or> pointer > - 1 - bytes)"

definition termination_from_status :: "u32 \<Rightarrow> u32" where
  "termination_from_status status =
     (if status = VF_HALT then VF_TERMINATION_HALT
      else if status = VF_BAD_INSTRUCTION then VF_TERMINATION_BAD_INSTRUCTION
      else if status = VF_FETCH_FAULT then VF_TERMINATION_FETCH_FAULT
      else if status = VF_DATA_FAULT then VF_TERMINATION_DATA_FAULT
      else if status = VF_BUDGET then VF_TERMINATION_BUDGET_EXHAUSTED
      else if status = VF_PROTECTION then VF_TERMINATION_PROTECTION_FAILURE
      else if status = VF_UNDEFINED_INSTRUCTION then VF_TERMINATION_UNDEFINED_INSTRUCTION
      else if status = VF_PRIVILEGE_FAULT then VF_TERMINATION_PRIVILEGE_FAULT
      else if status = VF_TRANSLATION_FAULT then VF_TERMINATION_TRANSLATION_FAULT
      else if status = VF_PERMISSION_FAULT then VF_TERMINATION_PERMISSION_FAULT
      else if status = VF_ALIGNMENT_FAULT then VF_TERMINATION_ALIGNMENT_FAULT
      else if status = VF_SP_ALIGNMENT_FAULT then VF_TERMINATION_ALIGNMENT_FAULT
      else if status = VF_SYSTEM_REGISTER_TRAP then VF_TERMINATION_SYSTEM_REGISTER_TRAP
      else if status = VF_TIMER_INTERRUPT then VF_TERMINATION_TIMER_INTERRUPT
      else if status = VF_EXTERNAL_INTERRUPT then VF_TERMINATION_EXTERNAL_INTERRUPT
      else if status = VF_FIQ_INTERRUPT then VF_TERMINATION_FIQ_INTERRUPT
      else if status = VF_INSTRUCTION_ABORT then VF_TERMINATION_INSTRUCTION_ABORT
      else if status = VF_DATA_ABORT then VF_TERMINATION_DATA_ABORT
      else if status = VF_CODE_FULL then VF_TERMINATION_CODE_BUFFER_FULL
      else VF_TERMINATION_INTERNAL)"

definition status_is_terminal :: "u32 \<Rightarrow> bool" where
  "status_is_terminal status \<longleftrightarrow>
     (status \<ge> VF_HALT \<and> status \<le> VF_DATA_ABORT) \<or> status = VF_FIQ_INTERRUPT \<or> status = VF_SP_ALIGNMENT_FAULT"

definition termination_is_valid :: "u32 \<Rightarrow> bool" where
  "termination_is_valid reason \<longleftrightarrow>
     (reason \<ge> VF_TERMINATION_HALT \<and> reason \<le> VF_TERMINATION_DATA_ABORT) \<or> reason = VF_TERMINATION_FIQ_INTERRUPT"

definition status_and_termination_match :: "u32 \<Rightarrow> u32 \<Rightarrow> bool" where
  "status_and_termination_match status reason \<longleftrightarrow>
     (if status = VF_HALT then reason = VF_TERMINATION_HALT
      else if status = VF_BAD_INSTRUCTION then reason = VF_TERMINATION_BAD_INSTRUCTION
      else if status = VF_FETCH_FAULT then reason = VF_TERMINATION_FETCH_FAULT
      else if status = VF_DATA_FAULT then reason = VF_TERMINATION_DATA_FAULT
      else if status = VF_BUDGET then reason = VF_TERMINATION_BUDGET_EXHAUSTED
      else if status = VF_CODE_FULL then reason = VF_TERMINATION_CODE_BUFFER_FULL
      else if status = VF_PROTECTION then reason = VF_TERMINATION_PROTECTION_FAILURE
      else if status = VF_UNDEFINED_INSTRUCTION then reason = VF_TERMINATION_UNDEFINED_INSTRUCTION
      else if status = VF_PRIVILEGE_FAULT then reason = VF_TERMINATION_PRIVILEGE_FAULT
      else if status = VF_TRANSLATION_FAULT then reason = VF_TERMINATION_TRANSLATION_FAULT
      else if status = VF_PERMISSION_FAULT then reason = VF_TERMINATION_PERMISSION_FAULT
      else if status = VF_ALIGNMENT_FAULT then reason = VF_TERMINATION_ALIGNMENT_FAULT
      else if status = VF_SP_ALIGNMENT_FAULT then reason = VF_TERMINATION_ALIGNMENT_FAULT
      else if status = VF_SYSTEM_REGISTER_TRAP then reason = VF_TERMINATION_SYSTEM_REGISTER_TRAP
      else if status = VF_TIMER_INTERRUPT then reason = VF_TERMINATION_TIMER_INTERRUPT
      else if status = VF_EXTERNAL_INTERRUPT then reason = VF_TERMINATION_EXTERNAL_INTERRUPT
      else if status = VF_FIQ_INTERRUPT then reason = VF_TERMINATION_FIQ_INTERRUPT
      else if status = VF_INSTRUCTION_ABORT then reason = VF_TERMINATION_INSTRUCTION_ABORT
      else if status = VF_DATA_ABORT then reason = VF_TERMINATION_DATA_ABORT
      else False)"

text \<open>A pointer and what it points to; the second test of the size repeats the one of the prefix, as in the source.\<close>

definition result_valid :: "u64 \<Rightarrow> VF_JIT_RESULT \<Rightarrow> bool" where
  "result_valid pointer result \<longleftrightarrow>
     abi_prefix_valid pointer (jr_abi_version result) (jr_struct_size result) 88 \<and> jr_struct_size result = 88
     \<and> jr_reserved0 result = 0 \<and> zero_words (jr_reserved result)"

definition request_valid :: "u64 \<Rightarrow> VF_JIT_REQUEST \<Rightarrow> bool" where
  "request_valid pointer request \<longleftrightarrow>
     \<not> (\<not> abi_prefix_valid pointer (rq_abi_version request) (rq_struct_size request) 88 \<or> rq_struct_size request \<noteq> 88
        \<or> rq_machine_profile request \<noteq> VF_MACHINE_PROFILE_M1_DIAGNOSTIC \<or> rq_flags request \<noteq> 0
        \<or> \<not> zero_words (rq_reserved request) \<or> rq_opaque_execution_handle request = 0
        \<or> rq_opaque_execution_handle request AND 7 \<noteq> 0 \<or> rq_execution_budget request = 0
        \<or> rq_execution_budget request > VF_PREOS_MAX_EXECUTION_BUDGET
        \<or> \<not> valid_span (rq_guest_bytes request) (rq_guest_size request) 4 VF_PREOS_MAX_GUEST_BYTES 4
        \<or> rq_guest_size request AND 3 \<noteq> 0
        \<or> \<not> valid_span (rq_guest_ram request) (rq_guest_ram_size request) VF_PREOS_FIXED_GUEST_RAM_BYTES VF_PREOS_FIXED_GUEST_RAM_BYTES 8)"

definition execution_matches :: "vf_efi_execution \<Rightarrow> VF_JIT_REQUEST \<Rightarrow> bool" where
  "execution_matches e request \<longleftrightarrow>
     \<not> (ee_magic e \<noteq> VF_EFI_EXECUTION_MAGIC \<or> ee_code e = None \<or> ee_protect e = 0 \<or> ee_cpu e = 0 \<or> ee_reserved e \<noteq> 0
        \<or> ee_machine_profile e \<noteq> rq_machine_profile request \<or> ee_guest_bytes e \<noteq> rq_guest_bytes request
        \<or> ee_guest_size e \<noteq> rq_guest_size request \<or> ee_guest_ram e \<noteq> rq_guest_ram request
        \<or> ee_guest_ram_size e \<noteq> rq_guest_ram_size request)"

definition wrapper_rejected :: "VF_JIT_RESULT \<Rightarrow> VF_JIT_RESULT" where
  "wrapper_rejected result = result\<lparr>jr_jit_status := VF_DATA_FAULT, jr_termination_reason := VF_TERMINATION_WRAPPER_REJECTED\<rparr>"

text \<open>The capabilities are a map from addresses, so that the handle is followed after it is checked; the state holds the processor and
  the code buffer the capability names and the RAM of the request.\<close>

definition vf_preos_jit_execute ::
  "nat \<Rightarrow> 'p block_host \<Rightarrow> (u8 list \<Rightarrow> u8 list) \<Rightarrow> (u64 \<Rightarrow> vf_efi_execution) \<Rightarrow> u64 \<Rightarrow> VF_JIT_REQUEST \<Rightarrow> u64 \<Rightarrow> VF_JIT_RESULT
   \<Rightarrow> 'p exec_state \<Rightarrow> (vf_preos_code \<times> VF_JIT_RESULT \<times> 'p exec_state) option" where
  "vf_preos_jit_execute fuel h view handles request_at request result_at result s =
     (if \<not> result_valid result_at result then Some (VF_PREOS_E_ABI, result, s)
      else if \<not> request_valid request_at request then Some (VF_PREOS_E_CONTEXT, wrapper_rejected result, s)
      else
        let execution = handles (rq_opaque_execution_handle request) in
        if \<not> execution_matches execution request then Some (VF_PREOS_E_CONTEXT, wrapper_rejected result, s)
        else
          let cpu0 = vf_cpu_reset (ex_cpu s) VF_EL0;
              cpu = cpu0\<lparr>cpu_x := (cpu_x cpu0)[2 := ee_initial_x2 execution]\<rparr> in
          case vf_run fuel h view (the (ee_code execution)) (rq_execution_budget request) (s\<lparr>ex_cpu := cpu\<rparr>) of
            None \<Rightarrow> None
          | Some (status, s1) \<Rightarrow>
              let reason = termination_from_status status;
                  result1 = result\<lparr>jr_jit_status := status, jr_termination_reason := reason\<rparr> in
              if \<not> status_is_terminal status \<or> \<not> termination_is_valid reason \<or> \<not> status_and_termination_match status reason then
                Some (VF_PREOS_E_INTERNAL, wrapper_rejected result1, s1)
              else
                Some (VF_PREOS_OK,
                      result1\<lparr>jr_retired_instruction_count := cpu_retired (ex_cpu s1), jr_guest_pc := cpu_pc (ex_cpu s1),
                              jr_fault_instruction := cpu_instruction (ex_cpu s1), jr_result_x0 := cpu_x (ex_cpu s1) ! 0,
                              jr_result_x1 := cpu_x (ex_cpu s1) ! 1, jr_result_x3 := cpu_x (ex_cpu s1) ! 3\<rparr>, s1))"

section \<open>Runs end within their budget\<close>

text \<open>What the loop relies on in the host, for the blocks the translator makes for the processor that runs them: a block keeps the
  processor well formed and the size of the RAM, counts the instructions it has completed, at most as many as it was translated for and
  one less if it stopped at one, and returns a status of the translator.\<close>

definition block_counts :: "nat \<Rightarrow> vf_cpu \<Rightarrow> u32 \<Rightarrow> vf_cpu \<Rightarrow> bool" where
  "block_counts limit cpu st cpu' \<longleftrightarrow> cpu_wf cpu' \<and> cpu_fp_execution_profile cpu' = cpu_fp_execution_profile cpu
     \<and> (\<exists>n. cpu_retired cpu' = cpu_retired cpu + of_nat n \<and> (if st = VF_NEXT \<or> st = VF_HALT then 1 \<le> n \<and> n \<le> limit else n < limit))"

definition blocks_ok :: "'p block_host \<Rightarrow> bool" where
  "blocks_ok h \<longleftrightarrow> (\<forall>guest limit cpu ram c c'. 0 < limit \<longrightarrow> cpu_wf cpu
       \<longrightarrow> translate_impl (b_fp h) (Some cpu) guest (cpu_pc cpu) limit False c = (VF_NEXT, c') \<longrightarrow>
     (case b_entry h cpu ram (native_code c') of (st, cpu', ram') \<Rightarrow>
        block_counts limit cpu st cpu' \<and> length ram' = length ram
        \<and> (st = VF_NEXT \<or> status_is_terminal st \<or> st = VF_FP_DISPATCH \<and> b_fp h)))"

text \<open>The profile of the floating-point unit is fixed by the entries.\<close>

abbreviation (input) fp_profile :: "vf_cpu \<Rightarrow> u32" where "fp_profile \<equiv> cpu_fp_execution_profile"

lemma raise_profile [simp]: "fp_profile (snd (vf_cpu_raise_exception c k pc far syn w)) = fp_profile c"
  by (simp add: vf_cpu_raise_exception_def Let_def save_active_sp_def)

lemma commit_profile [simp]: "fp_profile (snd (vf_cpu_commit_status c st)) = fp_profile c"
  by (simp add: vf_cpu_commit_status_def Let_def case_prod_beta split: option.split)

lemma take_profile: "fp_profile (snd (vf_cpu_take_exception c)) = fp_profile c"
  by (simp add: vf_cpu_take_exception_def vf_cpu_clear_exception_def Let_def)

lemma store_profile: "fp_profile (snd (sysreg_store c key v)) = fp_profile c"
  unfolding sysreg_store_def
  by (intro if_branch [where P = "\<lambda>r. fp_profile (snd r) = fp_profile c"]; simp add: vf_cpu_invalidate_tlb_def)

lemma timer_profile [simp]: "fp_profile (update_timer_status c) = fp_profile c"
  by (simp add: update_timer_status_def)

lemma write_profile: "fp_profile (snd (vf_cpu_write_sysreg c key v)) = fp_profile c"
  using write_sysreg_effect [of c key v] store_profile [of c key v] unfolding write_effect_def
  by (elim disjE exE conjE) simp_all

lemma advance_profile [simp]: "fp_profile (vf_cpu_advance_counter c n) = fp_profile c"
  by (simp add: vf_cpu_advance_counter_def)

lemma steps_profile:
  "fp_profile (snd (system_register_slow_step c)) = fp_profile c" "fp_profile (snd (pstate_slow_step c)) = fp_profile c"
  "fp_profile (snd (pauth_slow_step c)) = fp_profile c"
proof -
  show "fp_profile (snd (system_register_slow_step c)) = fp_profile c"
    using write_profile by (auto simp: system_register_slow_step_def retire_def Let_def case_prod_beta split: sum.split)
  show "fp_profile (snd (pstate_slow_step c)) = fp_profile c" by (auto simp: pstate_slow_step_def retire_def Let_def)
  show "fp_profile (snd (pauth_slow_step c)) = fp_profile c"
    by (auto simp: pauth_slow_step_def retire_def Let_def case_prod_beta split: option.split)
qed

lemma poll_kept:
  assumes "vf_cpu_poll_interrupt c = (st, c')"
  shows "fp_profile c' = fp_profile c" "cpu_retired c' = cpu_retired c" "cpu_wf c \<Longrightarrow> cpu_wf c'" "st = VF_NEXT \<or> status_is_terminal st"
proof -
  show "cpu_retired c' = cpu_retired c" "cpu_wf c \<Longrightarrow> cpu_wf c'" using poll_retired [of c] poll_wf [of c] assms by simp_all
  have t: "fp_profile c2 = fp_profile c1" if "vf_cpu_take_exception c1 = (r, c2)" for c1 r c2 using take_profile [of c1] that by simp
  have u: "fp_profile c2 = fp_profile c1" if "vf_cpu_raise_exception c1 k pc far syn w = (r, c2)" for c1 k pc far syn w r c2
    using raise_profile [of c1 k pc far syn w] that by simp
  have "fp_profile (snd (vf_cpu_poll_interrupt c)) = fp_profile c" unfolding vf_cpu_poll_interrupt_def Let_def
    by (intro if_arm [where P = "\<lambda>r. fp_profile (snd r) = fp_profile c"])
      (auto split: option.split prod.split rc.split dest!: t u)
  then show "fp_profile c' = fp_profile c" using assms by simp
  have "fst (vf_cpu_poll_interrupt c) = VF_NEXT \<or> status_is_terminal (fst (vf_cpu_poll_interrupt c))"
    unfolding vf_cpu_poll_interrupt_def Let_def
    by (intro if_arm [where P = "\<lambda>r. fst r = VF_NEXT \<or> status_is_terminal (fst r)"])
      (auto split: option.split prod.split rc.split simp: status_is_terminal_def interrupt_choice_def Let_def if_split_eq1 split: if_splits)
  then show "st = VF_NEXT \<or> status_is_terminal st" using assms by simp
qed

lemma first_step_profile:
  "\<forall>f \<in> set fs. \<forall>c. fp_profile (snd (f c)) = fp_profile c \<Longrightarrow> fp_profile (snd (first_step fs c)) = fp_profile c"
proof (induction fs arbitrary: c)
  case (Cons f fs)
  obtain taken c1 where f: "f c = (taken, c1)" by fastforce
  have "fp_profile (snd (f c)) = fp_profile c" using Cons.prems by simp
  then show ?case using Cons.IH [of c1] Cons.prems f by simp
qed simp

lemma dispatch_kept:
  assumes "dispatch_status [system_register_slow_step, pstate_slow_step, pauth_slow_step] st c = (out, c')"
    "st = VF_NEXT \<or> status_is_terminal st" "fp_profile c = VF_FP_EXECUTION_ABSENT"
  shows "fp_profile c' = VF_FP_EXECUTION_ABSENT" "out = Some st' \<Longrightarrow> status_is_terminal st'"
proof -
  let ?fs = "[system_register_slow_step, pstate_slow_step, pauth_slow_step]"
  obtain taken c1 where f: "first_step ?fs c = (taken, c1)" by fastforce
  have c1: "fp_profile c1 = VF_FP_EXECUTION_ABSENT"
    using first_step_profile [of ?fs c] steps_profile f assms(3) by simp
  have r: "research_system_register_failure x st = st" if "fp_profile x = VF_FP_EXECUTION_ABSENT" for x
    using that by (simp add: research_system_register_failure_def)
  show "fp_profile c' = VF_FP_EXECUTION_ABSENT" "out = Some st' \<Longrightarrow> status_is_terminal st'"
    using assms c1 r [OF c1] r [OF assms(3)] f
    by (auto simp: dispatch_status_def Let_def split: if_splits)
qed

text \<open>One turn: it keeps the processor well formed and the sizes of the RAM and the code buffer, counts no more than is
  left of the budget, and something if the loop goes on; without a floating-point unit it can only stop with a status that ends a run.\<close>

definition turn_ok :: "nat \<Rightarrow> 'p exec_state \<Rightarrow> u32 option \<Rightarrow> 'p exec_state \<Rightarrow> bool" where
  "turn_ok left s out s' \<longleftrightarrow> cpu_wf (ex_cpu s') \<and> length (ex_ram s') = length (ex_ram s) \<and> length (vc_bytes (ex_code s')) = length (vc_bytes (ex_code s))
     \<and> (\<exists>n. cpu_retired (ex_cpu s') = cpu_retired (ex_cpu s) + of_nat n \<and> n \<le> left \<and> (out = None \<longrightarrow> 1 \<le> n))
     \<and> (fp_profile (ex_cpu s) = VF_FP_EXECUTION_ABSENT \<longrightarrow>
          fp_profile (ex_cpu s') = VF_FP_EXECUTION_ABSENT \<and> (\<forall>st. out = Some st \<longrightarrow> status_is_terminal st))"

lemma dispatch_fp_absent:
  assumes "fp_profile c = VF_FP_EXECUTION_ABSENT" "dispatch_fp c = Some (out, c')"
  shows "fp_profile c' = VF_FP_EXECUTION_ABSENT" "out = Some st' \<Longrightarrow> status_is_terminal st'"
  using assms by (auto simp: dispatch_fp_def vf_fp_step_def Let_def status_is_terminal_def split: option.splits prod.splits if_splits)

lemma block_ram_ok:
  assumes "blocks_ok h" "0 < limit" "cpu_wf cpu"
    and tr: "translate_impl (b_fp h) (Some cpu) guest (cpu_pc cpu) limit False c = (VF_NEXT, c')"
    and run: "execute_native_block_ram h cpu ram c' = (st, cpu', ram')"
  shows "block_counts limit cpu st cpu'" "length ram' = length ram" "st = VF_NEXT \<or> status_is_terminal st \<or> st = VF_FP_DISPATCH \<and> b_fp h"
proof -
  obtain st1 cpu1 ram1 where e: "b_entry h cpu ram (native_code c') = (st1, cpu1, ram1)" by (metis prod_cases3)
  have c: "block_counts limit cpu st1 cpu1" "length ram1 = length ram"
      "st1 = VF_NEXT \<or> status_is_terminal st1 \<or> st1 = VF_FP_DISPATCH \<and> b_fp h"
    using assms(1) [unfolded blocks_ok_def, rule_format, OF assms(2,3) tr, of ram] e by simp_all
  have blocks: "cpu_wf (x\<lparr>cpu_compiled_blocks := n\<rparr>) \<longleftrightarrow> cpu_wf x" for x n by (simp add: cpu_wf_def cpu_fields)
  have x: "st = st1" "ram' = ram1" "cpu' = (let c = vf_cpu_advance_counter cpu1 (cpu_retired cpu1 - cpu_retired cpu) in
      c\<lparr>cpu_compiled_blocks := cpu_compiled_blocks c + 1\<rparr>)"
    using run e by (simp_all add: execute_native_block_ram_def Let_def)
  show "length ram' = length ram" "st = VF_NEXT \<or> status_is_terminal st \<or> st = VF_FP_DISPATCH \<and> b_fp h" using c(2,3) x(1,2) by simp_all
  show "block_counts limit cpu st cpu'"
    using c(1) x(1) by (auto simp: block_counts_def x(3) Let_def blocks advance_keeps_wf simp del: advance_wf)
qed

lemma native_turn_ok:
  assumes h: "blocks_ok h" "0 < limit" and wf: "cpu_wf (ex_cpu s1)"
    and tr: "translate_impl (b_fp h) (Some (ex_cpu s1)) guest (cpu_pc (ex_cpu s1)) limit False c = (VF_NEXT, ex_code s1)"
    and same: "cpu_retired (ex_cpu s1) = cpu_retired (ex_cpu s)" "fp_profile (ex_cpu s1) = fp_profile (ex_cpu s)"
      "length (ex_ram s1) = length (ex_ram s)" "length (vc_bytes (ex_code s1)) = length (vc_bytes (ex_code s))" and left: "limit \<le> left"
  shows "\<exists>out s'. native_turn h s1 = Some (out, s') \<and> turn_ok left s out s'"
proof -
  obtain st cpu1 ram1 where e: "execute_native_block_ram h (ex_cpu s1) (ex_ram s1) (ex_code s1) = (st, cpu1, ram1)" by (metis prod_cases3)
  note b = block_ram_ok [OF h wf tr e]
  let ?d = "dispatch_status [system_register_slow_step, pstate_slow_step, pauth_slow_step] st cpu1"
  have wf1: "cpu_wf cpu1" and p1: "fp_profile cpu1 = fp_profile (ex_cpu s1)" using b(1) by (simp_all add: block_counts_def)
  obtain out cpu2 where d: "(if b_fp h \<and> st = VF_FP_DISPATCH then dispatch_fp cpu1 else Some ?d) = Some (out, cpu2)" "dispatched cpu1 st out cpu2"
  proof (cases "b_fp h \<and> st = VF_FP_DISPATCH")
    case True
    then show thesis using dispatch_fp_ok [OF wf1] that by auto
  next
    case False
    obtain o1 c1 where o: "?d = (o1, c1)" by fastforce
    show thesis using dispatch_status_ok [OF wf1 _ o] steps_ok False o that by (auto split: if_splits)
  qed
  have f: "fp_profile cpu2 = VF_FP_EXECUTION_ABSENT \<and> (\<forall>st'. out = Some st' \<longrightarrow> status_is_terminal st')"
    if "fp_profile (ex_cpu s1) = VF_FP_EXECUTION_ABSENT"
  proof (cases "b_fp h \<and> st = VF_FP_DISPATCH")
    case True
    then show ?thesis using dispatch_fp_absent [of cpu1 out cpu2] d(1) that p1 by auto
  next
    case False
    then have d1: "?d = (out, cpu2)" and t: "st = VF_NEXT \<or> status_is_terminal st"
      using d(1) b(3) by (simp_all only: if_False option.inject) blast
    have a: "fp_profile cpu1 = VF_FP_EXECUTION_ABSENT" using p1 that by (rule trans)
    show ?thesis by (intro conjI allI impI dispatch_kept [OF d1 t a])
  qed
  obtain n where n: "cpu_retired cpu1 = cpu_retired (ex_cpu s1) + of_nat n" "if st = VF_NEXT \<or> st = VF_HALT then 1 \<le> n \<and> n \<le> limit else n < limit"
    using b(1) by (auto simp: block_counts_def)
  let ?n = "n + (if out = None \<and> st \<noteq> VF_NEXT then 1 else 0)"
  have "cpu_retired cpu2 = cpu_retired (ex_cpu s) + of_nat ?n" "?n \<le> left" "out = None \<longrightarrow> 1 \<le> ?n"
    using d(2) n left same(1) by (auto simp: dispatched_def split: if_splits)
  then have "\<exists>n. cpu_retired cpu2 = cpu_retired (ex_cpu s) + of_nat n \<and> n \<le> left \<and> (out = None \<longrightarrow> 1 \<le> n)" by blast
  moreover have "cpu_wf cpu2" using d(2) by (simp add: dispatched_def)
  ultimately have "turn_ok left s out (s1\<lparr>ex_cpu := cpu2, ex_ram := ram1\<rparr>)"
    using f same(2-4) b(2) unfolding turn_ok_def by simp
  then show ?thesis using d(1) e by (auto simp: native_turn_def)
qed

lemma turn_stops:
  assumes "cpu_wf (ex_cpu s')" "ex_ram s' = ex_ram s" "length (vc_bytes (ex_code s')) = length (vc_bytes (ex_code s))" "cpu_retired (ex_cpu s') = cpu_retired (ex_cpu s)"
    "fp_profile (ex_cpu s') = fp_profile (ex_cpu s)" "status_is_terminal st"
  shows "turn_ok left s (Some st) s'"
proof -
  have "\<exists>n. cpu_retired (ex_cpu s') = cpu_retired (ex_cpu s) + of_nat n \<and> n \<le> left" using assms(4) by (intro exI [of _ 0]) simp
  then show ?thesis using assms by (simp add: turn_ok_def)
qed

lemma trap_wf [simp]: "cpu_wf (cpu_instruction_update (\<lambda>_. 0) c) \<longleftrightarrow> cpu_wf c"
  by (simp add: cpu_wf_def cpu_fields)

lemma translate_ends:
  "fst (translate_impl fp cpu guest pc limit provider c) = VF_NEXT \<or> fst (translate_impl fp cpu guest pc limit provider c) = VF_CODE_FULL"
  "length (vc_bytes (snd (translate_impl fp cpu guest pc limit provider c))) = length (vc_bytes c)"
  unfolding translate_impl_def Let_def by (simp_all only: fst_conv snd_conv translated_bounds) simp

lemma translate_kept:
  assumes "vf_translate_cpu fp cpu guest pc limit c = (st, cpu', c')"
  shows "cpu_retired cpu' = cpu_retired cpu" "fp_profile cpu' = fp_profile cpu" "cpu_wf cpu \<Longrightarrow> cpu_wf cpu'"
    "st = VF_NEXT \<or> status_is_terminal st" "length (vc_bytes c') = length (vc_bytes c)"
    "st = VF_NEXT \<Longrightarrow> cpu' = cpu \<and> translate_impl fp (Some cpu) guest pc limit False c = (VF_NEXT, c')"
proof -
  obtain st1 c1 where t: "translate_impl fp (Some cpu) guest pc limit False c = (st1, c1)" by fastforce
  have b: "st1 = VF_NEXT \<or> st1 = VF_CODE_FULL" "length (vc_bytes c1) = length (vc_bytes c)"
    using translate_ends [of fp "Some cpu" guest pc limit False c] unfolding t by simp_all
  have k: "(st, cpu', c') \<in> {(VF_PRIVILEGE_FAULT, cpu, c), (VF_SYSTEM_REGISTER_TRAP, cpu\<lparr>cpu_instruction := 0\<rparr>, c), (st1, cpu, c1)}"
    using assms unfolding vf_translate_cpu_def t by (simp split: if_splits)
  show "cpu_retired cpu' = cpu_retired cpu" "fp_profile cpu' = fp_profile cpu" "cpu_wf cpu \<Longrightarrow> cpu_wf cpu'" using k by auto
  show "st = VF_NEXT \<or> status_is_terminal st" "length (vc_bytes c') = length (vc_bytes c)"
    using k b by (auto simp: status_is_terminal_def)
  show "cpu' = cpu \<and> translate_impl fp (Some cpu) guest pc limit False c = (VF_NEXT, c')" if "st = VF_NEXT" using k that t by auto
qed

lemma block_limit_bounds: "0 < left \<Longrightarrow> 0 < block_limit left cpu \<and> block_limit left cpu \<le> unat left"
  using unat_gt_0 [of left] by (auto simp: block_limit_def word_less_nat_alt)

lemma run_iteration_ok:
  assumes h: "blocks_ok h" and wf: "cpu_wf (ex_cpu s)" and left: "cpu_retired (ex_cpu s) - start < budget"
  shows "\<exists>out s'. run_iteration h view start budget s = Some (out, s')
     \<and> turn_ok (unat (budget - (cpu_retired (ex_cpu s) - start))) s out s'"
proof -
  obtain st cpu1 where p: "vf_cpu_poll_interrupt (ex_cpu s) = (st, cpu1)" by fastforce
  note k = poll_kept [OF p]
  let ?left = "budget - (cpu_retired (ex_cpu s) - start)"
  let ?limit = "block_limit ?left cpu1"
  have "?left \<noteq> 0" using left by auto
  then have limit: "0 < ?limit" "?limit \<le> unat ?left" using block_limit_bounds [of ?left cpu1] by (simp_all add: word_greater_zero_iff)
  obtain f1 p1 f2 p2 where pr: "b_protect h (ex_protect s) False = (f1, p1)" "b_protect h p1 True = (f2, p2)" by fastforce
  obtain st1 cpu2 code where t: "vf_translate_cpu (b_fp h) cpu1 (view (ex_ram s)) (cpu_pc cpu1) ?limit (ex_code s) = (st1, cpu2, code)"
    by (metis prod_cases3)
  note tk = translate_kept [OF t]
  have wf2: "cpu_wf cpu1" "cpu_wf cpu2" using k(3) tk(3) wf by simp_all
  let ?s2 = "s\<lparr>ex_cpu := cpu2, ex_code := code, ex_protect := p2\<rparr>"
  have native: "\<exists>out s'. native_turn h ?s2 = Some (out, s') \<and> turn_ok (unat ?left) s out s'" if "st1 = VF_NEXT"
    using tk(6) [OF that] by (intro native_turn_ok [OF h limit(1)]) (use limit(2) wf2 k(1,2) tk(5) in auto)
  consider (mmu) "cpu_sctlr (ex_cpu s) AND 1 \<noteq> 0" | (poll) "cpu_sctlr (ex_cpu s) AND 1 = 0" "st \<noteq> VF_NEXT"
    | (protect) "cpu_sctlr (ex_cpu s) AND 1 = 0" "st = VF_NEXT" f1
    | (go) "cpu_sctlr (ex_cpu s) AND 1 = 0" "st = VF_NEXT" "\<not> f1" by blast
  then show ?thesis
  proof cases
    case mmu
    then show ?thesis using wf by (auto simp: run_iteration_def Let_def status_is_terminal_def intro!: turn_stops)
  next
    case poll
    then show ?thesis using k wf2 by (auto simp: run_iteration_def Let_def p intro!: turn_stops)
  next
    case protect
    then show ?thesis using k wf2 by (auto simp: run_iteration_def Let_def p pr status_is_terminal_def intro!: turn_stops)
  next
    case go
    have it: "run_iteration h view start budget s =
       (if st1 \<noteq> VF_NEXT then
          Some (Some st1, s\<lparr>ex_cpu := (if st1 \<noteq> VF_CODE_FULL then snd (vf_cpu_commit_status cpu2 st1) else cpu2), ex_code := code, ex_protect := p1\<rparr>)
        else if f2 then Some (Some VF_PROTECTION, ?s2) else native_turn h ?s2)"
      using go k(2) by (simp add: run_iteration_def Let_def p pr t)
    show ?thesis
    proof (cases "st1 = VF_NEXT")
      case False
      then show ?thesis unfolding it using k tk wf2 by (auto simp: commit_wf intro!: turn_stops)
    next
      case True
      then show ?thesis unfolding it using native [OF True] k tk wf2
        by (cases f2) (auto simp: status_is_terminal_def intro!: turn_stops)
    qed
  qed
qed

lemma unat_add_within: "unat w + n \<le> unat (b :: u64) \<Longrightarrow> unat ((w :: u64) + of_nat n) = unat w + n"
  using unat_lt2p [of b] by (simp add: unat_word_ariths unat_of_nat)

lemma run_loop_ok:
  assumes h: "blocks_ok h"
  shows "cpu_wf (ex_cpu s) \<Longrightarrow> unat (cpu_retired (ex_cpu s) - start) \<le> unat budget
     \<Longrightarrow> unat budget - unat (cpu_retired (ex_cpu s) - start) < fuel
     \<Longrightarrow> \<exists>st s'. run_loop fuel (run_iteration h view start budget) start budget s = Some (st, s')
           \<and> cpu_wf (ex_cpu s') \<and> length (ex_ram s') = length (ex_ram s) \<and> unat (cpu_retired (ex_cpu s') - start) \<le> unat budget
           \<and> (fp_profile (ex_cpu s) = VF_FP_EXECUTION_ABSENT \<longrightarrow> status_is_terminal st)"
proof (induction fuel arbitrary: s)
  case (Suc fuel)
  let ?done = "\<lambda>r. \<exists>st s'. r = Some (st, s') \<and> cpu_wf (ex_cpu s') \<and> length (ex_ram s') = length (ex_ram s)
     \<and> unat (cpu_retired (ex_cpu s') - start) \<le> unat budget \<and> (fp_profile (ex_cpu s) = VF_FP_EXECUTION_ABSENT \<longrightarrow> status_is_terminal st)"
  have ret: "cpu_wf (cpu_status_update (\<lambda>_. st) c) \<longleftrightarrow> cpu_wf c" for st c by (simp add: cpu_wf_def cpu_fields)
  show ?case
  proof (cases "cpu_retired (ex_cpu s) - start < budget")
    case False
    then show ?thesis using Suc.prems by (simp add: exec_return_def ret status_is_terminal_def)
  next
    case True
    let ?w = "cpu_retired (ex_cpu s) - start"
    obtain out s1 where it: "run_iteration h view start budget s = Some (out, s1)" "turn_ok (unat (budget - ?w)) s out s1"
      using run_iteration_ok [OF h Suc.prems(1) True] by blast
    then obtain n where n: "cpu_retired (ex_cpu s1) = cpu_retired (ex_cpu s) + of_nat n" "n \<le> unat (budget - ?w)" "out = None \<Longrightarrow> 1 \<le> n"
      by (auto simp: turn_ok_def)
    have sub: "unat (budget - ?w) = unat budget - unat ?w" using True by (intro unat_sub) simp
    have w: "cpu_retired (ex_cpu s1) - start = ?w + of_nat n" using n(1) by simp
    have le: "unat ?w + n \<le> unat budget" using n(2) sub True by (simp add: word_less_nat_alt)
    then have u: "unat (cpu_retired (ex_cpu s1) - start) = unat ?w + n" unfolding w by (rule unat_add_within)
    show ?thesis
    proof (cases out)
      case (Some st)
      have "cpu_wf (ex_cpu s1)" "length (ex_ram s1) = length (ex_ram s)"
          "fp_profile (ex_cpu s) = VF_FP_EXECUTION_ABSENT \<Longrightarrow> status_is_terminal st"
        using it(2) Some by (simp_all add: turn_ok_def)
      then show ?thesis using True it(1) Some u le by (simp add: exec_return_def ret)
    next
      case None
      have t: "cpu_wf (ex_cpu s1)" "length (ex_ram s1) = length (ex_ram s)"
          "fp_profile (ex_cpu s) = VF_FP_EXECUTION_ABSENT \<Longrightarrow> fp_profile (ex_cpu s1) = VF_FP_EXECUTION_ABSENT"
        using it(2) by (auto simp: turn_ok_def)
      have le1: "unat (cpu_retired (ex_cpu s1) - start) \<le> unat budget" using u le by simp
      have fuel: "unat budget - unat (cpu_retired (ex_cpu s1) - start) < fuel" using u le n(3) [OF None] Suc.prems(3) by linarith
      have "?done (run_loop fuel (run_iteration h view start budget) start budget s1)"
        using Suc.IH [OF t(1) le1 fuel] t(2,3) by metis
      then show ?thesis using True it None by simp
    qed
  qed
qed simp

lemma vf_run_ok:
  assumes "blocks_ok h" "cpu_wf (ex_cpu s)" "unat budget < fuel"
  shows "\<exists>st s'. vf_run fuel h view code budget s = Some (st, s') \<and> cpu_wf (ex_cpu s') \<and> length (ex_ram s') = length (ex_ram s)
     \<and> unat (cpu_retired (ex_cpu s') - cpu_retired (ex_cpu s)) \<le> unat budget
     \<and> (fp_profile (ex_cpu s) = VF_FP_EXECUTION_ABSENT \<longrightarrow> status_is_terminal st)"
proof -
  have ret: "cpu_wf (cpu_status_update (\<lambda>_. st) c) \<longleftrightarrow> cpu_wf c" for st c by (simp add: cpu_wf_def cpu_fields)
  show ?thesis
  proof (cases "length (ex_ram s) < 8 \<or> code = 0 \<or> \<not> vf_cpu_state_valid (ex_cpu s)")
    case True
    then show ?thesis using assms(2) by (simp add: vf_run_def exec_return_def ret status_is_terminal_def)
  next
    case False
    then show ?thesis using run_loop_ok [OF assms(1,2), of "cpu_retired (ex_cpu s)" budget fuel view] assms(3)
      by (simp add: vf_run_def)
  qed
qed

lemma prepare_retired:
  "cpu_retired (snd (vf_cpu_prepare_boot (vf_cpu_reset cpu_zero VF_EL1) ram base entry args stack regs pauth options budget)) = 0"
proof -
  have p: "cpu_retired c' = cpu_retired c" if "vf_cpu_configure_platform c a b = (r, c')" for c a b r c'
    using that by (auto simp: vf_cpu_configure_platform_def split: if_splits)
  have l: "cpu_retired c' = cpu_retired c" if "vf_cpu_set_interrupt_lines c a b = (r, c')" for c a b r c'
    using that by (auto simp: vf_cpu_set_interrupt_lines_def split: if_splits)
  have z: "cpu_retired (vf_cpu_reset c VF_EL1) = 0" for c by (simp add: reset_fields)
  show ?thesis unfolding vf_cpu_prepare_boot_def Let_def
    by (intro if_branch [where P = "\<lambda>r. cpu_retired (snd r) = 0"])
      (auto split: prod.split vf_sysreg_result.split simp: z dest!: p l)
qed

lemma boot_v2_ok:
  assumes h: "blocks_ok h" and fuel: "unat budget < fuel"
  shows "\<exists>st res ram' buffer' p'.
     vf_boot_run_v2 fuel h r code base entry args stack budget registers pauth options ram buffer p = Some (st, res, ram', buffer', p')
     \<and> length ram' = length ram \<and> unat (br_retired (br_base res)) \<le> unat budget"
proof (cases "boot_spans_rejected r (of_nat (length ram)) code (of_nat (length buffer))")
  case True
  then show ?thesis by (simp add: vf_boot_run_v2_def boot_result_zero_def)
next
  case False
  let ?c = "vf_cpu_reset cpu_zero VF_EL1"
  obtain st cpu where p: "vf_cpu_prepare_boot ?c (of_nat (length ram)) base entry args stack registers pauth options budget = (st, cpu)" by fastforce
  have z: "cpu_retired cpu = 0" using prepare_retired [of "of_nat (length ram)" base entry args stack registers pauth options budget] p by simp
  show ?thesis
  proof (cases "st = VF_NEXT")
    case prepared: True
    let ?s = "\<lparr>ex_cpu = cpu, ex_ram = ram, ex_code = \<lparr>vc_bytes = buffer, vc_used = 0\<rparr>, ex_protect = p\<rparr>"
    have "cpu_wf cpu" using prepared_state [OF p [unfolded prepared]] by blast
    then obtain st1 s1 where "vf_run fuel h (\<lambda>ram. ram) code budget ?s = Some (st1, s1)"
      "length (ex_ram s1) = length ram" "unat (cpu_retired (ex_cpu s1)) \<le> unat budget"
      using vf_run_ok [OF h _ fuel, of ?s "\<lambda>ram. ram" code] z by auto
    then show ?thesis using False p prepared by (simp add: vf_boot_run_v2_def vf_run_boot_v2_def vf_boot_snapshot_def)
  next
    case stop: False
    then show ?thesis using False p z by (simp add: vf_boot_run_v2_def vf_run_boot_v2_def vf_boot_snapshot_def)
  qed
qed

section \<open>Properties\<close>

text \<open>C4. A run over guest memory always ends. If the native code of every block the translator makes counts the instructions it completes
  and keeps the processor well formed and the size of the RAM, then with one unit of fuel more than the budget \<open>vf_run\<close> returns, whatever
  the guest and the page protection do: the processor is well formed, the RAM has its size and no more instructions have been counted than
  the budget allows. The same holds of the boot entry for every set of boot options, whose report carries that count; it never runs the
  guest when the RAM and the code buffer overlap or wrap around, or the buffer is too short, and then changes neither.\<close>

theorem exec_runs_end:
  assumes h: "blocks_ok h" and fuel: "unat budget < fuel"
  shows "(cpu_wf (ex_cpu s) \<longrightarrow>
       (\<exists>st s'. vf_run fuel h view code budget s = Some (st, s') \<and> cpu_wf (ex_cpu s') \<and> length (ex_ram s') = length (ex_ram s)
          \<and> unat (cpu_retired (ex_cpu s') - cpu_retired (ex_cpu s)) \<le> unat budget))
    \<and> (\<exists>st res ram' buffer' p'.
          vf_boot_run_v2 fuel h r code base entry args stack budget registers pauth options ram buffer p = Some (st, res, ram', buffer', p')
          \<and> length ram' = length ram \<and> unat (br_retired (br_base res)) \<le> unat budget
          \<and> (boot_spans_rejected r (of_nat (length ram)) code (of_nat (length buffer)) \<longrightarrow>
               st = VF_DATA_FAULT \<and> ram' = ram \<and> buffer' = buffer \<and> p' = p))"
proof (intro conjI impI)
  assume "cpu_wf (ex_cpu s)"
  from vf_run_ok [OF h this fuel, of view code] show "\<exists>st s'. vf_run fuel h view code budget s = Some (st, s') \<and> cpu_wf (ex_cpu s')
      \<and> length (ex_ram s') = length (ex_ram s) \<and> unat (cpu_retired (ex_cpu s') - cpu_retired (ex_cpu s)) \<le> unat budget" by blast
next
  have "vf_boot_run_v2 fuel h r code base entry args stack budget registers pauth options ram buffer p
      = Some (VF_DATA_FAULT, boot_result_zero entry args, ram, buffer, p)"
    if "boot_spans_rejected r (of_nat (length ram)) code (of_nat (length buffer))"
    using that by (simp add: vf_boot_run_v2_def)
  with boot_v2_ok [OF assms, of r code base entry args stack registers pauth options ram buffer p]
  show "\<exists>st res ram' buffer' p'.
      vf_boot_run_v2 fuel h r code base entry args stack budget registers pauth options ram buffer p = Some (st, res, ram', buffer', p')
      \<and> length ram' = length ram \<and> unat (br_retired (br_base res)) \<le> unat budget
      \<and> (boot_spans_rejected r (of_nat (length ram)) code (of_nat (length buffer)) \<longrightarrow>
           st = VF_DATA_FAULT \<and> ram' = ram \<and> buffer' = buffer \<and> p' = p)" by auto
qed

text \<open>Every terminal status has the reason its switch gives it, and no other status has one.\<close>

lemma terminal_statuses:
  "status_is_terminal st \<longleftrightarrow> st \<in> set [VF_HALT, VF_BAD_INSTRUCTION, VF_FETCH_FAULT, VF_DATA_FAULT, VF_BUDGET, VF_CODE_FULL, VF_PROTECTION,
     VF_UNDEFINED_INSTRUCTION, VF_PRIVILEGE_FAULT, VF_TRANSLATION_FAULT, VF_PERMISSION_FAULT, VF_ALIGNMENT_FAULT, VF_SYSTEM_REGISTER_TRAP,
     VF_TIMER_INTERRUPT, VF_EXTERNAL_INTERRUPT, VF_INSTRUCTION_ABORT, VF_DATA_ABORT, VF_FIQ_INTERRUPT, VF_SP_ALIGNMENT_FAULT]"
proof -
  have "1 \<le> unat st \<and> unat st \<le> 17 \<longleftrightarrow> unat st \<in> set [1, 2, 3, 4, 5, 6, 7, 8, 9, 10, 11, 12, 13, 14, 15, 16, 17]"
    by (auto simp: eval_nat_numeral le_Suc_eq)
  then show ?thesis by (simp add: status_is_terminal_def word_le_nat_alt word_unat_eq_iff)
qed

lemma terminal_reported:
  assumes "status_is_terminal st"
  shows "status_and_termination_match st (termination_from_status st)" "termination_is_valid (termination_from_status st)"
  using assms unfolding terminal_statuses
  by (auto simp: status_and_termination_match_def termination_from_status_def termination_is_valid_def)

text \<open>C5. The firmware's entry gives a verdict on every request. A request that passes its checks, with a budget of at most a hundred
  thousand instructions, is always carried out: the call returns success and a terminal status with the one reason that belongs to it,
  a count within the budget and the registers of the processor at the end. Any other request is refused before the guest runs; nothing is
  changed, except that a result record that is itself well formed gets the verdict of the wrapper.\<close>

theorem jit_execute_reports:
  assumes h: "blocks_ok h" and fuel: "unat (rq_execution_budget request) < fuel"
  shows "(if result_valid result_at result \<and> request_valid request_at request
            \<and> execution_matches (handles (rq_opaque_execution_handle request)) request
      then \<exists>result' s'. vf_preos_jit_execute fuel h view handles request_at request result_at result s = Some (VF_PREOS_OK, result', s')
         \<and> status_is_terminal (jr_jit_status result') \<and> status_and_termination_match (jr_jit_status result') (jr_termination_reason result')
         \<and> jr_retired_instruction_count result' \<le> rq_execution_budget request \<and> rq_execution_budget request \<le> VF_PREOS_MAX_EXECUTION_BUDGET
         \<and> jr_retired_instruction_count result' = cpu_retired (ex_cpu s') \<and> jr_guest_pc result' = cpu_pc (ex_cpu s')
         \<and> [jr_result_x0 result', jr_result_x1 result', jr_result_x3 result'] = map (\<lambda>i. cpu_x (ex_cpu s') ! i) [0, 1, 3]
         \<and> cpu_wf (ex_cpu s') \<and> length (ex_ram s') = length (ex_ram s)
      else vf_preos_jit_execute fuel h view handles request_at request result_at result s
         = Some (if result_valid result_at result then (VF_PREOS_E_CONTEXT, wrapper_rejected result, s) else (VF_PREOS_E_ABI, result, s)))"
proof (cases "result_valid result_at result \<and> request_valid request_at request
     \<and> execution_matches (handles (rq_opaque_execution_handle request)) request")
  case ok: True
  let ?e = "handles (rq_opaque_execution_handle request)"
  let ?cpu = "(vf_cpu_reset (ex_cpu s) VF_EL0)\<lparr>cpu_x := (cpu_x (vf_cpu_reset (ex_cpu s) VF_EL0))[2 := ee_initial_x2 ?e]\<rparr>"
  have wf: "cpu_wf ?cpu" using reset_wf [of "ex_cpu s" VF_EL0] by (simp add: cpu_wf_def cpu_fields)
  have c: "cpu_retired ?cpu = 0" "fp_profile ?cpu = VF_FP_EXECUTION_ABSENT" by (simp_all add: vf_cpu_reset_def cpu_zero_def)
  obtain st s' where run: "vf_run fuel h view (the (ee_code ?e)) (rq_execution_budget request) (s\<lparr>ex_cpu := ?cpu\<rparr>) = Some (st, s')"
    and r: "cpu_wf (ex_cpu s')" "length (ex_ram s') = length (ex_ram s)" "unat (cpu_retired (ex_cpu s')) \<le> unat (rq_execution_budget request)"
      "status_is_terminal st"
    using vf_run_ok [OF h _ fuel, of "s\<lparr>ex_cpu := ?cpu\<rparr>" view "the (ee_code ?e)"] wf c by auto
  have b: "rq_execution_budget request \<le> VF_PREOS_MAX_EXECUTION_BUDGET" using ok by (auto simp: request_valid_def not_less)
  note t = terminal_reported [OF r(4)]
  show ?thesis using ok run r b t by (simp add: vf_preos_jit_execute_def Let_def word_le_nat_alt)
next
  case False
  then show ?thesis by (auto simp: vf_preos_jit_execute_def Let_def)
qed

text \<open>A host that runs the one block a halt is translated to; every other block stops at its first instruction.\<close>

definition block_demo :: "unit block_host" where
  "block_demo =
     \<lparr>b_protect = (\<lambda>p _. (False, p)),
      b_entry = (\<lambda>cpu ram code.
         if code = finish (cpu_pc cpu + 4) 1 VF_HALT then (VF_HALT, cpu\<lparr>cpu_pc := cpu_pc cpu + 4, cpu_retired := cpu_retired cpu + 1\<rparr>, ram)
         else (VF_UNDEFINED_INSTRUCTION, cpu, ram)),
      b_fp = True\<rparr>"

lemma block_demo_ok: "blocks_ok block_demo"
proof -
  have "cpu_wf (cpu_retired_update f (cpu_pc_update g c)) \<longleftrightarrow> cpu_wf c" for f g c by (simp add: cpu_wf_def cpu_fields)
  moreover have "\<exists>n. (1 :: u64) = of_nat n \<and> Suc 0 \<le> n \<and> n \<le> limit" if "0 < limit" for limit using that by (intro exI [of _ 1]) simp
  moreover have "\<exists>n. (of_nat n :: u64) = 0 \<and> n < limit" if "0 < limit" for limit using that by (intro exI [of _ 0]) simp
  ultimately show ?thesis by (auto simp: blocks_ok_def block_demo_def block_counts_def status_is_terminal_def)
qed

definition halt_demo :: "u8 list" where
  "halt_demo = [0, 0, 0x40, 0xd4, 0, 0, 0, 0]"

definition exec_demo :: "unit exec_state" where
  "exec_demo = \<lparr>ex_cpu = vf_cpu_reset cpu_zero VF_EL0, ex_ram = halt_demo, ex_code = buffer_demo, ex_protect = ()\<rparr>"

theorem exec_runs_end_witness:
  "map_option fst (vf_run 9 block_demo (\<lambda>ram. ram) 0x100000 8 exec_demo) = Some VF_HALT
   \<and> (\<exists>st s'. vf_run 9 block_demo (\<lambda>ram. ram) 0x100000 8 exec_demo = Some (st, s')
       \<and> cpu_wf (ex_cpu s') \<and> length (ex_ram s') = length (ex_ram exec_demo)
       \<and> unat (cpu_retired (ex_cpu s') - cpu_retired (ex_cpu exec_demo)) \<le> unat (8 :: u64))"
proof
  have f: "unat (8 :: u64) < 9" by simp
  have w: "cpu_wf (ex_cpu exec_demo)" by (simp add: exec_demo_def reset_wf)
  show "\<exists>st s'. vf_run 9 block_demo (\<lambda>ram. ram) 0x100000 8 exec_demo = Some (st, s')
       \<and> cpu_wf (ex_cpu s') \<and> length (ex_ram s') = length (ex_ram exec_demo)
       \<and> unat (cpu_retired (ex_cpu s') - cpu_retired (ex_cpu exec_demo)) \<le> unat (8 :: u64)"
    by (rule exec_runs_end [OF block_demo_ok f, THEN conjunct1, THEN mp, OF w])
  show "map_option fst (vf_run 9 block_demo (\<lambda>ram. ram) 0x100000 8 exec_demo) = Some VF_HALT"
    by code_simp
qed

definition request_demo :: VF_JIT_REQUEST where
  "request_demo = \<lparr>rq_abi_version = 1, rq_struct_size = 88, rq_machine_profile = VF_MACHINE_PROFILE_M1_DIAGNOSTIC, rq_flags = 0,
     rq_execution_budget = 8, rq_guest_bytes = 0x10000, rq_guest_size = 16, rq_guest_ram = 0x20000, rq_guest_ram_size = 65536,
     rq_opaque_execution_handle = 0x800, rq_reserved = [0, 0, 0]\<rparr>"

definition report_demo :: VF_JIT_RESULT where
  "report_demo = \<lparr>jr_abi_version = 1, jr_struct_size = 88, jr_jit_status = 0, jr_termination_reason = 0, jr_retired_instruction_count = 0,
     jr_guest_pc = 0, jr_fault_instruction = 0, jr_reserved0 = 0, jr_result_x0 = 0, jr_result_x1 = 0, jr_result_x3 = 0, jr_reserved = [0, 0, 0]\<rparr>"

definition handle_demo :: "u64 \<Rightarrow> vf_efi_execution" where
  "handle_demo a = \<lparr>ee_magic = VF_EFI_EXECUTION_MAGIC, ee_code = Some 0x100000, ee_protect = 0x900,
     ee_guest_bytes = 0x10000, ee_guest_size = 16, ee_guest_ram = 0x20000, ee_guest_ram_size = 65536, ee_cpu = 0x30000, ee_initial_x2 = 7,
     ee_machine_profile = VF_MACHINE_PROFILE_M1_DIAGNOSTIC, ee_reserved = 0\<rparr>"

theorem jit_execute_reports_witness:
  "\<exists>result' s'. vf_preos_jit_execute 9 block_demo (\<lambda>_. halt_demo) handle_demo 0x1000 request_demo 0x2000 report_demo exec_demo
       = Some (VF_PREOS_OK, result', s') \<and> jr_jit_status result' = VF_HALT \<and> jr_termination_reason result' = VF_TERMINATION_HALT
     \<and> jr_retired_instruction_count result' \<le> 8 \<and> cpu_wf (ex_cpu s')"
proof -
  let ?x = "vf_preos_jit_execute 9 block_demo (\<lambda>_. halt_demo) handle_demo 0x1000 request_demo 0x2000 report_demo exec_demo"
  have f: "unat (rq_execution_budget request_demo) < 9" by (simp add: request_demo_def)
  have ok: "result_valid 0x2000 report_demo" "request_valid 0x1000 request_demo"
      "execution_matches (handle_demo (rq_opaque_execution_handle request_demo)) request_demo" by code_simp+
  have b: "rq_execution_budget request_demo = 8" by (simp add: request_demo_def)
  from jit_execute_reports [OF block_demo_ok f, where result_at = "0x2000" and result = report_demo and request_at = "0x1000"
      and handles = handle_demo and view = "\<lambda>_. halt_demo" and s = exec_demo] ok b
  obtain result' s' where r: "?x = Some (VF_PREOS_OK, result', s')" "jr_retired_instruction_count result' \<le> 8" "cpu_wf (ex_cpu s')" by auto
  have "map_option (\<lambda>(c, r, _). (jr_jit_status r, jr_termination_reason r)) ?x = Some (VF_HALT, VF_TERMINATION_HALT)" by code_simp
  then show ?thesis using r by auto
qed

end
