(* ===== verification/Native.thy ===== *)
theory Native
  imports Exec
begin

text \<open>
  The translator under a memory provider. The loops of \<open>Run\<close> leave to their host what is emitted for an instruction, as a function of
  the exception level, the instruction and its address, which are the keys of the cache of native code. Here that function is computed by
  the model of \<open>translate_impl\<close>, and shown to be what the translator of \<open>src/runtime/jit.c\<close> writes for every processor at that level and
  into every buffer: nothing else the processor holds is read.
\<close>

section \<open>What the translator reads under a provider\<close>

lemma translate_one_key:
  assumes "tr_current_el t = tr_current_el t'"
  shows "translate_one fp True t w pc n c = translate_one fp True t' w pc n c"
proof (cases "memory_family w")
  case True
  then show ?thesis unfolding translate_one_def Let_def assms by (simp only: simp_thms if_True)
next
  case False
  then show ?thesis unfolding translate_one_def Let_def assms by (simp only: if_False)
qed

lemma translate_from_key:
  assumes "tr_current_el t = tr_current_el t'"
  shows "translate_from fp True t guest limit n pc c = translate_from fp True t' guest limit n pc c"
proof (induction limit arbitrary: n pc c)
  case (Suc limit)
  show ?case using Suc by (simp only: translate_from.simps translate_one_key [OF assms] Let_def simp_thms if_False if_True)
qed simp

lemma translated_key:
  assumes "cpu_current_el cpu = cpu_current_el cpu'"
  shows "translated fp (Some cpu) guest pc limit True c = translated fp (Some cpu') guest pc limit True c"
  using assms by (intro translate_from_key) (simp add: translation_of_def)

section \<open>The emitted code\<close>

definition slot_empty :: vf_code where
  "slot_empty = \<lparr>vc_bytes = replicate NEXTCORE_PROVIDER_CACHE_SLOT_BYTES 0, vc_used = 0\<rparr>"

definition provider_emit :: "bool \<Rightarrow> u32 \<Rightarrow> u32 \<Rightarrow> u64 \<Rightarrow> u8 list \<times> nat" where
  "provider_emit fp el instruction pc =
     (let c = snd (translate_impl fp (Some (cpu_zero\<lparr>cpu_current_el := el\<rparr>)) (put_le32 instruction) pc 1 True slot_empty) in
      (native_code c, vc_used c))"

lemma provider_emit_translated:
  fixes fp :: bool and cpu :: vf_cpu and w :: u32 and c :: vf_code
  defines "d \<equiv> translated fp (Some cpu) (put_le32 w) (cpu_pc cpu) 1 True c"
  shows "snd (provider_emit fp (cpu_current_el cpu) w (cpu_pc cpu)) = vc_used d" "vc_used d \<le> 394"
    "vc_used d \<le> length (vc_bytes c) \<Longrightarrow> fst (provider_emit fp (cpu_current_el cpu) w (cpu_pc cpu)) = native_code d"
proof -
  let ?e = "translated fp (Some (cpu_zero\<lparr>cpu_current_el := cpu_current_el cpu\<rparr>)) (put_le32 w) (cpu_pc cpu) 1 True slot_empty"
  have e: "provider_emit fp (cpu_current_el cpu) w (cpu_pc cpu) = (native_code ?e, vc_used ?e)"
    by (simp only: provider_emit_def translate_impl_def Let_def snd_conv)
  have k: "?e = translated fp (Some cpu) (put_le32 w) (cpu_pc cpu) 1 True slot_empty"
    by (intro translated_key) (simp add: cpu_fields)
  have s: "same_code ?e d" unfolding k d_def by (rule translated_same)
  have slot: "length (vc_bytes slot_empty) = 1024" by (simp add: slot_empty_def)
  have len: "length (vc_bytes ?e) = 1024" "length (vc_bytes d) = length (vc_bytes c)"
    unfolding d_def by (simp_all only: translated_bounds(1) slot)
  have used: "vc_used ?e \<le> 394"
    by (rule translated_bounds(2) [where limit = 1, unfolded mult_1_right])
  show "snd (provider_emit fp (cpu_current_el cpu) w (cpu_pc cpu)) = vc_used d" using s unfolding e by (simp only: same_code_def snd_conv)
  show "vc_used d \<le> 394" using s used by (simp only: same_code_def)
  show "fst (provider_emit fp (cpu_current_el cpu) w (cpu_pc cpu)) = native_code d" if "vc_used d \<le> length (vc_bytes c)"
  proof -
    have "take (vc_used ?e) (vc_bytes ?e) = take (vc_used d) (vc_bytes d)"
      using s used that unfolding same_code_def len by linarith
    then show ?thesis unfolding e by (simp only: native_code_def fst_conv)
  qed
qed

section \<open>Properties\<close>

text \<open>C2. The cache of native code holds what the translator writes. When a host emits by the model of the translator, translating into a
  slot of the cache and translating into the whole buffer are exactly the two calls of \<open>translate_impl\<close> that the run over a provider
  makes, for every processor, instruction, address and content of the buffer: the status, the number of bytes used and the code. In a
  slot of the cache the code always fits, so that the run never falls back on the whole buffer.\<close>

theorem provider_emission_exact:
  assumes h: "h_emit h = provider_emit fp"
  shows "case translate_impl fp (Some cpu) (put_le32 w) (cpu_pc cpu) 1 True c of (st, d) \<Rightarrow>
      (length (vc_bytes c) = NEXTCORE_PROVIDER_CACHE_SLOT_BYTES \<longrightarrow>
         st = VF_NEXT \<and> translate_slot h i cpu w buffer = (st, vc_used d, buffer(i := Some (native_code d))))
      \<and> translate_whole h (length (vc_bytes c)) cpu w
         = (st, vc_used d, if st = VF_NEXT then (\<lambda>_. None)(0 := Some (native_code d)) else (\<lambda>_. None))"
proof -
  let ?d = "translated fp (Some cpu) (put_le32 w) (cpu_pc cpu) 1 True c"
  note e = provider_emit_translated [of fp cpu w c]
  obtain code used where p: "provider_emit fp (cpu_current_el cpu) w (cpu_pc cpu) = (code, used)" by fastforce
  have used: "used = vc_used ?d" "vc_used ?d \<le> 394" using e(1,2) unfolding p by simp_all
  have code: "code = native_code ?d" if "vc_used ?d \<le> length (vc_bytes c)" using e(3) [OF that] unfolding p by simp
  have t: "translate_impl fp (Some cpu) (put_le32 w) (cpu_pc cpu) 1 True c
      = (if vc_used ?d > length (vc_bytes c) then VF_CODE_FULL else VF_NEXT, ?d)"
    by (simp only: translate_impl_def Let_def translated_bounds)
  define d where "d = ?d"
  show ?thesis unfolding t translate_slot_def translate_whole_def h p Let_def prod.case
    using used code unfolding d_def [symmetric] by (auto simp: not_less)
qed

definition native_host_demo :: "(unit, u8 list) host" where
  "native_host_demo =
     \<lparr>h_protect = (\<lambda>p _. (False, p)), h_emit = provider_emit True, h_entry = (\<lambda>cpu code. (VF_UNDEFINED_INSTRUCTION, cpu)), h_fp = True\<rparr>"

text \<open>The halt, in the first slot.\<close>

theorem provider_emission_exact_witness:
  "fst (translate_impl True (Some idle_demo) (put_le32 0xd4400000) (cpu_pc idle_demo) 1 True slot_empty) = VF_NEXT
   \<and> translate_slot native_host_demo 0 idle_demo 0xd4400000 (\<lambda>_. None)
     = (VF_NEXT, 34, (\<lambda>_. None)(0 := Some (finish (cpu_pc idle_demo + 4) 1 VF_HALT)))"
proof -
  let ?t = "translate_impl True (Some idle_demo) (put_le32 0xd4400000) (cpu_pc idle_demo) 1 True slot_empty"
  have h: "h_emit native_host_demo = provider_emit True" by (simp add: native_host_demo_def)
  have l: "length (vc_bytes slot_empty) = NEXTCORE_PROVIDER_CACHE_SLOT_BYTES" by (simp add: slot_empty_def)
  have v: "(fst ?t, vc_used (snd ?t), native_code (snd ?t)) = (VF_NEXT, 34, finish (cpu_pc idle_demo + 4) 1 VF_HALT)" by code_simp
  show ?thesis
    using provider_emission_exact [OF h, where cpu = idle_demo and w = "0xd4400000" and c = slot_empty and i = 0 and buffer = "\<lambda>_. None"] l v by (simp add: case_prod_beta)
qed

end
