(* ===== verification/Spec2Isabelle.thy ===== *)
theory Spec2Isabelle
  imports Aic Sart Dart Timer Storage Uart Gpio Smc Ans Recovery Nvram Adp Gxf Boot Access Flush Firmware Native
begin

text \<open>
  A model of NextCore ISE, a runtime that executes AArch64 guest code on an x86 firmware: the C sources of \<open>src/runtime\<close> and
  \<open>src/devices\<close>.

  \<^bold>\<open>The program.\<close> The translator of \<open>jit.c\<close> turns guest instructions into x86 code in a code buffer whose pages are writable or
  executable, never both; the run loops translate, execute, and carry out in C what the code leaves to them: system registers, floating
  point, pointer authentication, interrupts. Guest memory is either storage of the host or answered by a provider through a callback, whose
  replies are checked, in three generations: physical, under immutable translation controls, under dynamic ones. Beside the processor
  stand the models of the devices of the machine. The boot bridge \<open>preos_bridge.c\<close> owns one instance of each, decodes the accesses of the guest
  and copies the interrupt levels of the devices to the lines of the interrupt controller.

  \<^bold>\<open>The theories\<close>, each opening with what it models of which file:
  \<^item> \<open>Prelude\<close>: words, results, buffers, and the contracts of a window of registers, \<open>mmio_invariant\<close> and \<open>mmio_fail_closed\<close>, which every device
    interprets on its own read and write.
  \<^item> Devices, one theory for a file of \<open>src/devices\<close>: \<open>Aic\<close>, \<open>Sart\<close>, \<open>Dart\<close>, \<open>Timer\<close>, \<open>Storage\<close>, \<open>Uart\<close>, \<open>Gpio\<close>, \<open>Smc\<close>, \<open>Recovery\<close>, \<open>Nvram\<close>, \<open>Adp\<close>, \<open>Gxf\<close>,
    \<open>Sep\<close>, \<open>Pci\<close>, \<open>Ans\<close>; \<open>Mbox\<close> holds the mailbox, the wrapper and the autoboot map of the NVMe controller. A C structure is a record with its
    fields, a function an operation of the same name on it. Devices that point to one another are addresses in a store.
  \<^item> Floating point: \<open>FpScalar\<close> (\<open>fp_scalar.c\<close>) and \<open>Fp\<close> (\<open>fp_guest.c\<close>, \<open>fp_control.c\<close>, \<open>fp_instruction.c\<close>, \<open>simd_*.c\<close>).
  \<^item> The processor: \<open>CpuState\<close> (\<open>jit.h\<close>) and \<open>Cpu\<close> (\<open>arch.c\<close>, \<open>fp_execution.c\<close>, the software steps and the boot state of \<open>jit.c\<close>, the snapshot of
    \<open>boot_jit.c\<close>).
  \<^item> Memory over a provider: \<open>Provider\<close> (decoder, requests, checks of the replies), \<open>Dynamic\<close> (\<open>memory_dynamic.inc\<close>), \<open>Run\<close> (the three run loops
    and the cache of native code) and \<open>Boot\<close> (\<open>memory_boot.c\<close>, \<open>memory_boot_v2.c\<close>, \<open>memory_dynamic.c\<close>).
  \<^item> The translator: \<open>Emit\<close> writes the bytes of \<open>jit.c\<close>, branch for branch; \<open>Native\<close> supplies them to the loops of \<open>Run\<close>; \<open>Exec\<close> has \<open>vf_run\<close>, the boot
    entries over memory of the host and the execution entry \<open>vf_preos_jit_execute\<close>.
  \<^item> The bridge: \<open>Bridge\<close> (\<open>preos_bridge.c\<close>) with \<open>Lines\<close>, \<open>Wiring\<close>, \<open>Access\<close> and \<open>Flush\<close> for what it keeps between the devices.
  \<^item> \<open>Firmware\<close>: \<open>jit_protection.c\<close> and \<open>gop_scanout.c\<close>, over the protocols of the firmware.

  \<^bold>\<open>What is shown.\<close>
  \<^item> Runs: reusing native code is invisible, and what is reused is what the translator writes; a run ends within its budget whatever the
    guest, the provider and the protection do, and its report agrees with the processor; a change of the translation controls is installed
    exactly when the provider has confirmed it.
  \<^item> The translator: the code of an instruction is at most 394 bytes, independent of the buffer, and ends in a return; the masks of the
    logical instructions are those of the architecture.
  \<^item> Memory: one load or store changes exactly what it says; no reply that the checks reject changes the processor.
  \<^item> The processor stays well formed under every operation, interrupts are delivered, no level writes a register above it, and addition and
    division of the floating-point unit are correctly rounded.
  \<^item> Devices and the bridge: register windows fail closed; the lines of the controller agree with the devices after any sequence of guest
    accesses and host calls; a refused access changes nothing; an Identify transfer happens only when every gate allows it and inside its buffers, an interrupt message
    only when it is due and inside its window; queues,
    logs, banks and mode changes refine their abstract machines; encoders and decoders are inverse.
  \<^item> Code pages: a successful change of protection leaves them writable or executable as asked, and at no time both; a frame transfer
    touches only pixels inside the buffer and the screen.

  \<^bold>\<open>Conventions.\<close> Machine integers are words of their width. A failing function returns a value of its own (\<open>ERR\<close>, \<open>None\<close>, \<open>Inl\<close>), and the state as the
  code leaves it. Where C would be undefined, such as native code that has been written over or a read outside a buffer, the result is
  \<open>None\<close>; a store past the end of a buffer is a \<open>splice\<close> that lengthens it, and an access outside an array of the GPIO controller sets a mark, so
  that bounds are statements about lengths, marks and results other than \<open>None\<close>. Loops are recursive where they end by themselves. The run loops take fuel; one unit more than the budget is enough, since every
  turn that goes on has counted an instruction, and this is proved where it is used. The page walk takes the four levels of the code.

  \<^bold>\<open>Parameters.\<close> Not defined by the repository, and therefore arguments of the definitions that use them: what x86 code does to the
  processor and the RAM (\<open>b_entry\<close>, \<open>h_entry\<close>), the change of page protection in the loops, the memory provider and the service of the translation
  controls, the pointer-authentication step, the block backends of the environment, and the services and control registers of the
  firmware. What a property needs of them is a named hypothesis (\<open>blocks_ok\<close>, \<open>host_counts\<close>, \<open>protect_works\<close>, \<open>obeys\<close>), and its witness has an instance.

  \<^bold>\<open>Not modelled.\<close> The meaning of the emitted x86 code; files and console of \<open>main.c\<close>; the POSIX backend of \<open>nvram_v1.c\<close>; the assertions on
  layout (\<open>abi_layout.c\<close>, \<open>memory_layout.c\<close>, \<open>memory_layout_v2.c\<close>, \<open>platform_layout.c\<close>); host pointers beyond the tests that decide a result, in particular
  overlapping host storage in the vector services; the Rust crate, and the older copies of the sources under \<open>src/research\<close>.
\<close>

end
